(* ===== verification/Prelude.thy ===== *)
theory Prelude
  imports Main "HOL-Library.Word" "HOL-Library.Monad_Syntax"
begin

unbundle bit_operations_syntax

text \<open>
  Shared vocabulary of the development: the C integer types as words, the option monad in
  which \<open>None\<close> means that the C execution stops being defined (an access outside an array or
  through NULL) or aborts in \<^verbatim>\<open>metal_assert\<close>, checked array accesses, byte memory with
  little-endian loads and stores, and the power-of-two mask lemmas every ring index uses.
\<close>

section \<open>Types\<close>

type_synonym u8 = "8 word"
type_synonym u16 = "16 word"
type_synonym u32 = "32 word"
type_synonym u64 = "64 word"

text \<open>A pointer is a 64-bit address, NULL is 0.\<close>

type_synonym addr = u64

abbreviation (input) NULL :: addr where "NULL \<equiv> 0"

text \<open>Byte-addressed memory.\<close>

type_synonym mem = "addr \<Rightarrow> u8"

section \<open>Collections of rewrite rules\<close>

named_theorems opt_simps \<open>inversion of the option monad\<close>
named_theorems frame_simps \<open>what an operation leaves unchanged\<close>

section \<open>The option monad\<close>

definition require :: "bool \<Rightarrow> unit option" where
  "require b = (if b then Some () else None)"

lemma require_simps [simp]: "require True = Some ()" "require False = None"
  by (simp_all add: require_def)

lemma require_Some [opt_simps]: "(require b = Some u) = b"
  by (simp add: require_def)

lemma bind_Some_conv [opt_simps]:
  "(Option.bind m f = Some r) = (\<exists>x. m = Some x \<and> f x = Some r)"
  by (rule bind_eq_Some_conv)

lemma require_bind [simp]: "Option.bind (require b) f = (if b then f () else None)"
  by (simp add: require_def)

lemma some_if_conv [opt_simps]:
  "((if b then m else None) = Some r) = (b \<and> m = Some r)"
  "((if b then None else m) = Some r) = (\<not> b \<and> m = Some r)"
  by simp_all

section \<open>Signed arithmetic\<close>

text \<open>The sum of two \<open>int\<close>s; an overflow is undefined.\<close>

definition int_add :: "int \<Rightarrow> int \<Rightarrow> int option" where
  "int_add a b = (if - (2 ^ 31) \<le> a + b \<and> a + b < 2 ^ 31 then Some (a + b) else None)"

lemma int_add_Some [opt_simps]: "(int_add a b = Some c) = (- (2 ^ 31) \<le> a + b \<and> a + b < 2 ^ 31 \<and> c = a + b)"
  by (auto simp: int_add_def)

section \<open>Checked array accesses\<close>

text \<open>\<open>a[i]\<close> of C on an array of known length: outside it nothing is defined.\<close>

definition arr_get :: "'a list \<Rightarrow> nat \<Rightarrow> 'a option" where
  "arr_get xs i = (if i < length xs then Some (xs ! i) else None)"

definition arr_set :: "'a list \<Rightarrow> nat \<Rightarrow> 'a \<Rightarrow> 'a list option" where
  "arr_set xs i v = (if i < length xs then Some (xs[i := v]) else None)"

lemma arr_get_Some [opt_simps]: "(arr_get xs i = Some v) = (i < length xs \<and> v = xs ! i)"
  by (auto simp: arr_get_def)

lemma arr_set_Some [opt_simps]:
  "(arr_set xs i v = Some ys) = (i < length xs \<and> ys = xs[i := v])"
  by (auto simp: arr_set_def)

lemma arr_get_in [simp]: "i < length xs \<Longrightarrow> arr_get xs i = Some (xs ! i)"
  by (simp add: arr_get_def)

lemma arr_set_in [simp]: "i < length xs \<Longrightarrow> arr_set xs i v = Some (xs[i := v])"
  by (simp add: arr_set_def)

section \<open>Strings\<close>

text \<open>\<open>strncmp(a, b, n) == 0\<close>: equal up to the terminator or \<open>n\<close> characters.\<close>

fun strn_eq :: "nat \<Rightarrow> u8 list \<Rightarrow> u8 list \<Rightarrow> bool option" where
  "strn_eq 0 a b = Some True"
| "strn_eq (Suc n) a b = do {
     x \<leftarrow> arr_get a 0;
     y \<leftarrow> arr_get b 0;
     if x \<noteq> y then Some False
     else if x = 0 then Some True
     else strn_eq n (tl a) (tl b)
   }"

section \<open>Words\<close>

text \<open>The ring index \<open>i & (n - 1)\<close> is \<open>i mod n\<close> for a power of two \<open>n\<close>.\<close>

lemma unat_lt_exp: "unat (x :: 'a::len word) < 2 ^ LENGTH('a)"
  by simp

lemma and_pow2_mask:
  fixes x :: "'a::len word"
  shows "x AND (2 ^ k - 1) = take_bit k x"
  by (simp add: take_bit_eq_mask mask_eq_exp_minus_1)

lemma unat_and_pow2_mask:
  fixes x :: "'a::len word"
  assumes "k < LENGTH('a)"
  shows "unat (x AND (2 ^ k - 1)) = unat x mod 2 ^ k"
proof -
  have "unat (take_bit k x) = take_bit k (unat x)"
    by (rule unsigned_take_bit_eq)
  then show ?thesis
    by (simp only: and_pow2_mask) (simp only: take_bit_eq_mod)
qed

lemma unat_pow2:
  assumes "k < LENGTH('a)"
  shows "unat (2 ^ k :: 'a::len word) = 2 ^ k"
proof -
  have "(2 ^ k :: 'a word) = of_nat (2 ^ k)" by simp
  then have "unat (2 ^ k :: 'a word) = 2 ^ k mod 2 ^ LENGTH('a)"
    by (simp only: unat_of_nat)
  then show ?thesis using assms by simp
qed

lemma word_pow2_unat:
  fixes n :: "'a::len word"
  assumes "unat n = 2 ^ k"
  shows "n = 2 ^ k" and "k < LENGTH('a)"
proof -
  have lt: "(2::nat) ^ k < 2 ^ LENGTH('a)"
    using assms unat_lt_exp [of n] by simp
  then show k: "k < LENGTH('a)"
    by (rule power_less_imp_less_exp [rotated]) simp
  have "n = of_nat (unat n)" by simp
  also have "\<dots> = 2 ^ k" by (simp add: assms)
  finally show "n = 2 ^ k" .
qed

lemma unat_mask_mod:
  fixes x n :: "'a::len word"
  assumes "unat n = 2 ^ k"
  shows "unat (x AND (n - 1)) = unat x mod unat n"
proof -
  from assms have n: "n = 2 ^ k" and k: "k < LENGTH('a)"
    by (rule word_pow2_unat)+
  show ?thesis
    unfolding n using unat_and_pow2_mask [OF k, of x] unat_pow2 [OF k] by simp
qed

lemma unat_plus_one_less:
  fixes i lim :: "'a::len word"
  assumes "i < lim"
  shows "unat (i + 1) = Suc (unat i)"
proof -
  have "unat i < unat lim" using assms by (simp add: word_less_nat_alt)
  then have "Suc (unat i) < 2 ^ LENGTH('a)"
    using unat_lt_exp [of lim] by linarith
  then show ?thesis by (simp add: unat_word_ariths)
qed

lemma loop_decreases:
  fixes i lim :: "'a::len word"
  assumes "i < lim"
  shows "unat lim - unat (i + 1) < unat lim - unat i"
  using assms unat_plus_one_less [OF assms] by (simp add: word_less_nat_alt)

lemma unat_add_wrap: "unat (x + y :: u16) = (unat x + unat y) mod 65536"
  by (simp add: unat_word_ariths)

lemma unat_lt_u16 [simp]: "unat (x :: u16) < 65536"
  using unat_lt_exp [of x] by simp

lemma unat_lt_u32 [simp]: "unat (x :: u32) < 4294967296"
  using unat_lt_exp [of x] by simp

text \<open>Clearing the low bits rounds down to a multiple of the power of two.\<close>

lemma unat_clear_low_bits:
  fixes x :: "'a::len word"
  shows "unat (x AND NOT (2 ^ k - 1)) = unat x div 2 ^ k * 2 ^ k"
proof -
  have eq: "x AND NOT (2 ^ k - 1) = push_bit k (drop_bit k x)"
    by (rule bit_word_eqI) (auto simp: bit_simps mask_eq_exp_minus_1 [symmetric])
  have le: "unat x div 2 ^ k * 2 ^ k \<le> unat x" by simp
  have "unat (push_bit k (drop_bit k x)) = take_bit LENGTH('a) (push_bit k (drop_bit k (unat x)))"
    by (simp add: unsigned_push_bit_eq unsigned_drop_bit_eq take_bit_nat_eq_self)
  also have "\<dots> = unat x div 2 ^ k * 2 ^ k"
    using le_less_trans [OF le unat_lt_exp]
    by (simp only: take_bit_eq_mod push_bit_eq_mult drop_bit_eq_div mod_less)
  finally show ?thesis by (simp only: eq)
qed

lemma round_up_bounds:
  fixes x b :: nat
  assumes "0 < b"
  shows "x \<le> (x + b - 1) div b * b" and "(x + b - 1) div b * b < x + b"
proof -
  have "(x + b - 1) div b * b + (x + b - 1) mod b = x + b - 1"
    by (rule div_mult_mod_eq)
  moreover have "(x + b - 1) mod b < b" using assms by simp
  ultimately show "x \<le> (x + b - 1) div b * b" and "(x + b - 1) div b * b < x + b"
    using assms by linarith+
qed

text \<open>Word sums that do not overflow are sums of numbers.\<close>

lemma unat_add_small:
  fixes x y :: "'a::len word"
  assumes "unat x + unat y < 2 ^ LENGTH('a)"
  shows "unat (x + y) = unat x + unat y"
  using assms by (simp add: unat_word_ariths)

lemma sint_small:
  fixes s :: u32
  assumes "unat s < 2 ^ 31"
  shows "sint s = int (unat s)"
proof -
  have u: "uint s = int (unat s)" by simp
  have "signed_take_bit 31 (int n) = int n" if "n < 2 ^ 31" for n
    by (rule signed_take_bit_int_eq_self) (use that in simp_all)
  from this [OF assms] have "signed_take_bit 31 (int (unat s)) = int (unat s)" .
  then show ?thesis by (simp only: sint_uint u) simp
qed

section \<open>Byte memory\<close>

text \<open>\<open>memcpy\<close> into memory, and the bytes \<open>[a, a + n)\<close>.\<close>

primrec mem_write :: "mem \<Rightarrow> addr \<Rightarrow> u8 list \<Rightarrow> mem" where
  "mem_write m a [] = m"
| "mem_write m a (b # bs) = mem_write (m(a := b)) (a + 1) bs"

primrec mem_read :: "mem \<Rightarrow> addr \<Rightarrow> nat \<Rightarrow> u8 list" where
  "mem_read m a 0 = []"
| "mem_read m a (Suc n) = m a # mem_read m (a + 1) n"

lemma length_mem_read [simp]: "length (mem_read m a n) = n"
  by (induction n arbitrary: a) auto

lemma nth_mem_read: "i < n \<Longrightarrow> mem_read m a n ! i = m (a + of_nat i)"
proof (induction n arbitrary: a i)
  case 0
  then show ?case by simp
next
  case (Suc n)
  then show ?case by (cases i) (auto simp: algebra_simps)
qed

text \<open>\<open>x\<close> is one of the \<open>n\<close> bytes that start at \<open>a\<close> (addresses wrap).\<close>

definition in_span :: "addr \<Rightarrow> addr \<Rightarrow> nat \<Rightarrow> bool" where
  "in_span x a n = (unat (x - a) < n)"

lemma mem_write_outside:
  "\<not> in_span x a (length bs) \<Longrightarrow> mem_write m a bs x = m x"
proof (induction bs arbitrary: m a)
  case Nil
  then show ?case by simp
next
  case (Cons b bs)
  from Cons.prems have "x \<noteq> a"
    by (auto simp: in_span_def)
  moreover have "\<not> in_span x (a + 1) (length bs)"
  proof
    assume "in_span x (a + 1) (length bs)"
    then have "unat (x - (a + 1)) < length bs" by (simp add: in_span_def)
    moreover have "unat (x - a) = Suc (unat (x - (a + 1)))"
    proof -
      have "x - a \<noteq> 0" using \<open>x \<noteq> a\<close> by simp
      then have "unat (x - a) = Suc (unat (x - a - 1))"
        by (metis Suc_pred' gr0I unat_eq_zero unat_minus_one)
      then show ?thesis by (simp add: algebra_simps)
    qed
    ultimately show False using Cons.prems by (simp add: in_span_def)
  qed
  ultimately show ?case using Cons.IH by simp
qed

lemma mem_write_inside:
  "i < length bs \<Longrightarrow> length bs \<le> 2 ^ 64 \<Longrightarrow> mem_write m a bs (a + of_nat i) = bs ! i"
proof (induction bs arbitrary: m a i)
  case Nil
  then show ?case by simp
next
  case (Cons b bs)
  show ?case
  proof (cases i)
    case 0
    have "\<not> in_span a (a + 1) (length bs)"
    proof -
      have "unat (a - (a + 1)) = 2 ^ 64 - 1"
        by (simp add: unsigned_minus_1_eq_mask mask_eq_exp_minus_1)
      then show ?thesis using Cons.prems by (simp add: in_span_def)
    qed
    then show ?thesis using 0 by (simp add: mem_write_outside)
  next
    case (Suc j)
    have "mem_write (m(a := b)) (a + 1) bs (a + 1 + of_nat j) = bs ! j"
      by (rule Cons.IH) (use Cons.prems Suc in simp_all)
    then show ?thesis using Suc by (simp add: algebra_simps)
  qed
qed

lemma mem_read_write_same:
  assumes "length bs \<le> 2 ^ 64"
  shows "mem_read (mem_write m a bs) a (length bs) = bs"
  by (rule nth_equalityI) (use assms in \<open>simp_all add: nth_mem_read mem_write_inside\<close>)

lemma mem_read_cong:
  "(\<And>i. i < n \<Longrightarrow> m (a + of_nat i) = m' (a + of_nat i)) \<Longrightarrow> mem_read m a n = mem_read m' a n"
  by (rule nth_equalityI) (simp_all add: nth_mem_read)

text \<open>Two byte ranges that do not meet.\<close>

definition disjoint_span :: "addr \<Rightarrow> nat \<Rightarrow> addr \<Rightarrow> nat \<Rightarrow> bool" where
  "disjoint_span a n b k = (\<forall>i < n. \<not> in_span (a + of_nat i) b k)"

lemma mem_read_write_disjoint:
  "disjoint_span a n b (length bs) \<Longrightarrow> mem_read (mem_write m b bs) a n = mem_read m a n"
  by (rule mem_read_cong) (simp add: disjoint_span_def mem_write_outside)

lemma mem_write_append:
  "mem_write m a (xs @ ys) = mem_write (mem_write m a xs) (a + of_nat (length xs)) ys"
  by (induction xs arbitrary: m a) (auto simp: algebra_simps)

lemma mem_read_append:
  "mem_read m a (n + k) = mem_read m a n @ mem_read m (a + of_nat n) k"
  by (induction n arbitrary: a) (auto simp: algebra_simps)

text \<open>Distinct fields of one object do not overlap.\<close>

lemma field_apart:
  assumes "k + n \<le> j \<or> j + l \<le> k" and "k + n < 2 ^ 32" and "j + l < 2 ^ 32"
  shows "disjoint_span (a + of_nat j) l (a + of_nat k) n"
proof -
  have "unat ((a + of_nat j + of_nat i) - (a + of_nat k)) \<ge> n" if "i < l" for i
  proof (cases "k \<le> j + i")
    case True
    have "(a + of_nat j + of_nat i) - (a + of_nat k) = of_nat (j + i - k)"
      using True by (simp add: of_nat_diff)
    moreover have "j + i - k < 2 ^ 64" using assms that by auto
    ultimately have "unat ((a + of_nat j + of_nat i) - (a + of_nat k)) = j + i - k"
      by (simp only: unat_of_nat) simp
    then show ?thesis using assms(1) that True by linarith
  next
    case False
    have c: "k - (j + i) \<le> 2 ^ 64" "0 < k - (j + i)" "k - (j + i) < 2 ^ 32" using False assms by auto
    have "(of_nat (2 ^ 64 - (k - (j + i))) :: addr) = - of_nat (k - (j + i))"
      using c(1) by (simp only: of_nat_diff) simp
    also have "\<dots> = (a + of_nat j + of_nat i) - (a + of_nat k)"
      using False by (simp add: of_nat_diff)
    finally have eq: "(a + of_nat j + of_nat i) - (a + of_nat k) = of_nat (2 ^ 64 - (k - (j + i)))" ..
    have lt: "2 ^ 64 - (k - (j + i)) < (2 :: nat) ^ LENGTH(64)" using c(2) by simp
    have "unat ((a + of_nat j + of_nat i) - (a + of_nat k)) = 2 ^ 64 - (k - (j + i))"
      unfolding eq unat_of_nat using lt by (rule mod_less)
    moreover have "n \<le> (2 :: nat) ^ 64 - (k - (j + i))" using c(3) assms(2) by simp
    ultimately show ?thesis by (simp only:)
  qed
  then show ?thesis by (auto simp: disjoint_span_def in_span_def not_less)
qed

lemma mem_read_slice:
  assumes "k + n \<le> N"
  shows "mem_read m (a + of_nat k) n = take n (drop k (mem_read m a N))"
  by (rule nth_equalityI) (use assms in \<open>simp_all add: nth_mem_read add.assoc\<close>)

lemma mem_read_4: "mem_read m a 4 = [m a, m (a + 1), m (a + 2), m (a + 3)]"
proof -
  have "mem_read m a (Suc (Suc (Suc (Suc 0)))) = [m a, m (a + 1), m (a + 2), m (a + 3)]"
    by (simp add: add.assoc)
  then show ?thesis by (simp add: eval_nat_numeral)
qed

section \<open>Little-endian integers in memory\<close>

definition le16 :: "u16 \<Rightarrow> u8 list" where
  "le16 w = [ucast w, ucast (drop_bit 8 w)]"

definition le32 :: "u32 \<Rightarrow> u8 list" where
  "le32 w = [ucast w, ucast (drop_bit 8 w), ucast (drop_bit 16 w), ucast (drop_bit 24 w)]"

definition of_le16 :: "u8 list \<Rightarrow> u16" where
  "of_le16 bs = ucast (bs ! 0) OR push_bit 8 (ucast (bs ! 1))"

definition of_le32 :: "u8 list \<Rightarrow> u32" where
  "of_le32 bs = ucast (bs ! 0) OR push_bit 8 (ucast (bs ! 1))
     OR push_bit 16 (ucast (bs ! 2)) OR push_bit 24 (ucast (bs ! 3))"

lemma length_le [simp]: "length (le16 w) = 2" "length (le32 v) = 4"
  by (simp_all add: le16_def le32_def)

lemma of_le16_le16 [simp]: "of_le16 (le16 w) = w"
  by (rule bit_word_eqI) (auto simp: of_le16_def le16_def bit_simps)

lemma of_le32_le32 [simp]: "of_le32 (le32 w) = w"
proof (rule bit_word_eqI)
  fix n
  assume n: "n < LENGTH(32)"
  consider "n < 8" | "8 \<le> n" "n < 16" | "16 \<le> n" "n < 24" | "24 \<le> n" "n < 32"
    using n by fastforce
  then show "bit (of_le32 (le32 w)) n = bit w n"
    by cases (auto simp: of_le32_def le32_def bit_simps)
qed

definition load16 :: "mem \<Rightarrow> addr \<Rightarrow> u16" where
  "load16 m a = of_le16 (mem_read m a 2)"

definition load32 :: "mem \<Rightarrow> addr \<Rightarrow> u32" where
  "load32 m a = of_le32 (mem_read m a 4)"

definition store16 :: "mem \<Rightarrow> addr \<Rightarrow> u16 \<Rightarrow> mem" where
  "store16 m a w = mem_write m a (le16 w)"

definition store32 :: "mem \<Rightarrow> addr \<Rightarrow> u32 \<Rightarrow> mem" where
  "store32 m a w = mem_write m a (le32 w)"

lemma load_store_same [simp]:
  "load16 (store16 m a w) a = w" "load32 (store32 m a v) a = v"
  using mem_read_write_same [of "le16 w" m a] mem_read_write_same [of "le32 v" m a]
  by (simp_all add: load16_def store16_def load32_def store32_def)

end
