(* ===== verification/Metal_Util.thy ===== *)
theory Metal_Util
  imports Prelude
begin

unbundle bit_operations_syntax

text \<open>
  \<^verbatim>\<open>src/openamp/libmetal/lib/utilities.h\<close>: bit maps over arrays of \<open>unsigned long\<close>,
  the searches for a set or clear bit, alignment and \<open>metal_log2\<close>; and
  \<^verbatim>\<open>safe_strcpy\<close> of \<^verbatim>\<open>src/openamp/open-amp/lib/utils/utilities.c\<close>.
\<close>

section \<open>Bit maps\<close>

abbreviation (input) METAL_BITS_PER_ULONG :: nat where "METAL_BITS_PER_ULONG \<equiv> 64"

type_synonym bitmap = "u64 list"

definition metal_bit :: "nat \<Rightarrow> u64" where
  "metal_bit b = push_bit b 1"

definition metal_bitmap_longs :: "nat \<Rightarrow> nat" where
  "metal_bitmap_longs x = (x + METAL_BITS_PER_ULONG - 1) div METAL_BITS_PER_ULONG"

definition metal_bitmap_set_bit :: "bitmap \<Rightarrow> nat \<Rightarrow> bitmap option" where
  "metal_bitmap_set_bit bitmap b = do {
     w \<leftarrow> arr_get bitmap (b div METAL_BITS_PER_ULONG);
     arr_set bitmap (b div METAL_BITS_PER_ULONG) (w OR metal_bit (b mod METAL_BITS_PER_ULONG))
   }"

definition metal_bitmap_is_bit_set :: "bitmap \<Rightarrow> nat \<Rightarrow> bool option" where
  "metal_bitmap_is_bit_set bitmap b = do {
     w \<leftarrow> arr_get bitmap (b div METAL_BITS_PER_ULONG);
     Some (w AND metal_bit (b mod METAL_BITS_PER_ULONG) \<noteq> 0)
   }"

definition metal_bitmap_clear_bit :: "bitmap \<Rightarrow> nat \<Rightarrow> bitmap option" where
  "metal_bitmap_clear_bit bitmap b = do {
     w \<leftarrow> arr_get bitmap (b div METAL_BITS_PER_ULONG);
     arr_set bitmap (b div METAL_BITS_PER_ULONG) (w AND NOT (metal_bit (b mod METAL_BITS_PER_ULONG)))
   }"

definition metal_bitmap_is_bit_clear :: "bitmap \<Rightarrow> nat \<Rightarrow> bool option" where
  "metal_bitmap_is_bit_clear bitmap b = do {
     s \<leftarrow> metal_bitmap_is_bit_set bitmap b;
     Some (\<not> s)
   }"

text \<open>
  The loops of the two searches. The counters are \<open>unsigned int\<close>: \<open>max + start\<close> wraps, and
  \<open>bit % max\<close> with \<open>max = 0\<close> is a division by zero.
\<close>

function next_set_from :: "bitmap \<Rightarrow> u32 \<Rightarrow> u32 \<Rightarrow> u32 option" where
  "next_set_from bitmap b mx =
     (if b < mx then do {
        s \<leftarrow> metal_bitmap_is_bit_set bitmap (unat b);
        if \<not> s then next_set_from bitmap (b + 1) mx else Some b
      }
      else Some b)"
  by pat_completeness auto
termination
  by (relation "measure (\<lambda>(bitmap, b, mx). unat mx - unat b)") (auto intro: loop_decreases)

definition metal_bitmap_next_set_bit :: "bitmap \<Rightarrow> u32 \<Rightarrow> u32 \<Rightarrow> u32 option" where
  "metal_bitmap_next_set_bit bitmap start mx = next_set_from bitmap start mx"

function next_clear_from :: "bitmap \<Rightarrow> u32 \<Rightarrow> u32 \<Rightarrow> u32 \<Rightarrow> u32 option" where
  "next_clear_from bitmap b lim mx =
     (if b < lim then do {
        require (mx \<noteq> 0);
        c \<leftarrow> metal_bitmap_is_bit_clear bitmap (unat (b mod mx));
        if \<not> c then next_clear_from bitmap (b + 1) lim mx else Some b
      }
      else Some b)"
  by pat_completeness auto
termination
  by (relation "measure (\<lambda>(bitmap, b, lim, mx). unat lim - unat b)")
    (auto intro: loop_decreases)

definition metal_bitmap_next_clear_bit :: "bitmap \<Rightarrow> u32 \<Rightarrow> u32 \<Rightarrow> u32 option" where
  "metal_bitmap_next_clear_bit bitmap start mx = do {
     b \<leftarrow> next_clear_from bitmap start (mx + start) mx;
     require (mx \<noteq> 0);
     Some (b mod mx)
   }"

declare next_set_from.simps [simp del] next_clear_from.simps [simp del]

section \<open>Alignment and logarithm\<close>

definition metal_align_down :: "u64 \<Rightarrow> u64 \<Rightarrow> u64" where
  "metal_align_down sz align = sz AND NOT (align - 1)"

definition metal_align_up :: "u64 \<Rightarrow> u64 \<Rightarrow> u64" where
  "metal_align_up sz align = metal_align_down (sz + align - 1) align"

text \<open>\<open>1UL << result\<close> is undefined for a shift of 64 or more.\<close>

function log2_from :: "u64 \<Rightarrow> nat \<Rightarrow> nat option" where
  "log2_from i result =
     (if 64 \<le> result then None
      else if push_bit result 1 < i then log2_from i (Suc result)
      else Some result)"
  by pat_completeness auto
termination
  by (relation "measure (\<lambda>(i, result). 64 - result)") auto

declare log2_from.simps [simp del]

definition metal_log2 :: "u64 \<Rightarrow> nat option" where
  "metal_log2 i = do {
     require (i AND (i - 1) = 0);
     log2_from i 0
   }"

section \<open>\<open>safe_strcpy\<close>\<close>

text \<open>
  \<open>dst\<close> is the destination array of \<open>d_size\<close> characters, \<open>src\<close> the characters readable at the
  source. The copy loop stops after the terminator or after \<open>min s_size d_size\<close> characters;
  \<open>nleft\<close> is what the decrement leaves. A write at or past \<open>d_size\<close> is outside the array.
\<close>

fun strcpy_loop :: "u8 list \<Rightarrow> nat \<Rightarrow> u8 list \<Rightarrow> nat \<Rightarrow> (u8 list \<times> nat \<times> nat) option" where
  "strcpy_loop dst pos src nleft =
     (if nleft - 1 = 0 then Some (dst, pos, 0)
      else do {
        c \<leftarrow> arr_get src 0;
        dst \<leftarrow> arr_set dst pos c;
        if c = 0 then Some (dst, Suc pos, nleft - 1)
        else strcpy_loop dst (Suc pos) (tl src) (nleft - 1)
      })"

declare strcpy_loop.simps [simp del]

fun memset_arr :: "u8 list \<Rightarrow> nat \<Rightarrow> u8 \<Rightarrow> nat \<Rightarrow> u8 list option" where
  "memset_arr dst pos v 0 = Some dst"
| "memset_arr dst pos v (Suc n) = do {
     dst \<leftarrow> arr_set dst pos v;
     memset_arr dst (Suc pos) v n
   }"

definition safe_strcpy :: "u8 list \<Rightarrow> nat \<Rightarrow> u8 list \<Rightarrow> nat \<Rightarrow> (nat \<times> u8 list) option" where
  "safe_strcpy dst d_size src s_size =
     (let size = min s_size d_size in
      if d_size = 0 then Some (0, dst)
      else do {
        (dst, pos, nleft) \<leftarrow> strcpy_loop dst 0 src (size + 1);
        dst \<leftarrow> (if size < d_size then memset_arr dst pos 0 (d_size - size + nleft)
                else arr_set dst (d_size - 1) 0);
        Some (size - nleft, dst)
      })"

section \<open>Bit maps as sets\<close>

text \<open>
  The interface the address and notification-id allocators rely on: a bit map represents a set
  of bit numbers below its capacity.
\<close>

locale bit_set =
  fixes capacity :: "'m \<Rightarrow> nat"
    and bits :: "'m \<Rightarrow> nat set"
    and set_bit_op :: "'m \<Rightarrow> nat \<Rightarrow> 'm option"
    and clear_bit_op :: "'m \<Rightarrow> nat \<Rightarrow> 'm option"
    and test_bit_op :: "'m \<Rightarrow> nat \<Rightarrow> bool option"
  assumes set_ok: "i < capacity m \<Longrightarrow>
      \<exists>m'. set_bit_op m i = Some m' \<and> capacity m' = capacity m \<and> bits m' = insert i (bits m)"
    and clear_ok: "i < capacity m \<Longrightarrow>
      \<exists>m'. clear_bit_op m i = Some m' \<and> capacity m' = capacity m \<and> bits m' = bits m - {i}"
    and test_ok: "i < capacity m \<Longrightarrow> test_bit_op m i = Some (i \<in> bits m)"
begin

lemma set_bitE:
  assumes "i < capacity m"
  obtains m' where "set_bit_op m i = Some m'" "capacity m' = capacity m"
    "bits m' = insert i (bits m)"
  using set_ok [OF assms] by blast

lemma clear_bitE:
  assumes "i < capacity m"
  obtains m' where "clear_bit_op m i = Some m'" "capacity m' = capacity m"
    "bits m' = bits m - {i}"
  using clear_ok [OF assms] by blast

lemma set_bit_then_test:
  assumes "i < capacity m" "j < capacity m" "set_bit_op m i = Some m'"
  shows "test_bit_op m' j = Some (j = i \<or> j \<in> bits m)"
  using set_ok [OF assms(1)] assms(2,3) by (auto simp: test_ok)

lemma set_then_clear_bits:
  assumes "i < capacity m" "i \<notin> bits m" "set_bit_op m i = Some m'"
  shows "\<exists>m''. clear_bit_op m' i = Some m'' \<and> capacity m'' = capacity m \<and> bits m'' = bits m"
proof -
  from set_ok [OF assms(1)] assms(3)
  have m': "capacity m' = capacity m" "bits m' = insert i (bits m)" by auto
  with clear_ok [of i m'] assms(1,2) show ?thesis by auto
qed

end

definition bitmap_capacity :: "bitmap \<Rightarrow> nat" where
  "bitmap_capacity bm = METAL_BITS_PER_ULONG * length bm"

definition bitmap_bits :: "bitmap \<Rightarrow> nat set" where
  "bitmap_bits bm = {i. i < bitmap_capacity bm \<and> bit (bm ! (i div 64)) (i mod 64)}"

lemma and_metal_bit: "k < 64 \<Longrightarrow> (w AND metal_bit k \<noteq> 0) = bit w k"
proof -
  assume k: "k < 64"
  have "w AND metal_bit k = (if bit w k then metal_bit k else 0)"
    using k by (intro bit_word_eqI) (auto simp: metal_bit_def bit_simps)
  moreover have "bit (metal_bit k) k" using k by (simp add: metal_bit_def bit_simps)
  then have "metal_bit k \<noteq> 0" by auto
  ultimately show ?thesis by simp
qed

lemma div64_less: "i < bitmap_capacity bm \<Longrightarrow> i div 64 < length bm"
  by (simp add: bitmap_capacity_def less_mult_imp_div_less mult.commute)

lemma set_bit_word:
  "i < bitmap_capacity bm \<Longrightarrow> metal_bitmap_set_bit bm i =
     Some (bm[i div 64 := bm ! (i div 64) OR metal_bit (i mod 64)])"
  by (simp add: metal_bitmap_set_bit_def div64_less)

lemma clear_bit_word:
  "i < bitmap_capacity bm \<Longrightarrow> metal_bitmap_clear_bit bm i =
     Some (bm[i div 64 := bm ! (i div 64) AND NOT (metal_bit (i mod 64))])"
  by (simp add: metal_bitmap_clear_bit_def div64_less)

lemma mod64_neq: "i div 64 = j div 64 \<Longrightarrow> i \<noteq> j \<Longrightarrow> i mod 64 \<noteq> (j mod 64 :: nat)"
  by (metis div_mult_mod_eq)

lemma mem_bits_update:
  assumes "i < bitmap_capacity bm"
  shows "j \<in> bitmap_bits (bm[i div 64 := w]) =
    (j < bitmap_capacity bm \<and>
     (if j div 64 = i div 64 then bit w (j mod 64) else j \<in> bitmap_bits bm))"
  using div64_less [OF assms] by (simp add: bitmap_bits_def bitmap_capacity_def nth_list_update)

lemma bits_after_set:
  assumes "i < bitmap_capacity bm"
  shows "bitmap_bits (bm[i div 64 := bm ! (i div 64) OR metal_bit (i mod 64)])
      = insert i (bitmap_bits bm)"
proof (rule set_eqI)
  fix j
  show "j \<in> bitmap_bits (bm[i div 64 := bm ! (i div 64) OR metal_bit (i mod 64)])
      \<longleftrightarrow> j \<in> insert i (bitmap_bits bm)"
  proof (cases "j div 64 = i div 64 \<and> j \<noteq> i")
    case True
    with mod64_neq [of j i] show ?thesis
      by (simp only: mem_bits_update [OF assms] Diff_iff insert_iff)
        (simp add: bitmap_bits_def metal_bit_def bit_simps)
  next
    case False
    with assms show ?thesis
      by (cases "j = i") (simp_all add: mem_bits_update metal_bit_def bit_simps,
          simp add: bitmap_bits_def)
  qed
qed

lemma bits_after_clear:
  assumes "i < bitmap_capacity bm"
  shows "bitmap_bits (bm[i div 64 := bm ! (i div 64) AND NOT (metal_bit (i mod 64))])
      = bitmap_bits bm - {i}"
proof (rule set_eqI)
  fix j
  show "j \<in> bitmap_bits (bm[i div 64 := bm ! (i div 64) AND NOT (metal_bit (i mod 64))])
      \<longleftrightarrow> j \<in> bitmap_bits bm - {i}"
  proof (cases "j div 64 = i div 64 \<and> j \<noteq> i")
    case True
    with mod64_neq [of j i] show ?thesis
      by (simp only: mem_bits_update [OF assms] Diff_iff insert_iff)
        (simp add: bitmap_bits_def metal_bit_def bit_simps)
  next
    case False
    with assms show ?thesis
      by (cases "j = i") (simp_all add: mem_bits_update metal_bit_def bit_simps,
          simp add: bitmap_bits_def)
  qed
qed

interpretation metal_bitmap: bit_set bitmap_capacity bitmap_bits
  metal_bitmap_set_bit metal_bitmap_clear_bit metal_bitmap_is_bit_set
proof unfold_locales
  fix i m
  assume i: "i < bitmap_capacity m"
  show "\<exists>m'. metal_bitmap_set_bit m i = Some m' \<and> bitmap_capacity m' = bitmap_capacity m
      \<and> bitmap_bits m' = insert i (bitmap_bits m)"
    using i bits_after_set [OF i] by (simp add: set_bit_word) (simp add: bitmap_capacity_def)
  show "\<exists>m'. metal_bitmap_clear_bit m i = Some m' \<and> bitmap_capacity m' = bitmap_capacity m
      \<and> bitmap_bits m' = bitmap_bits m - {i}"
    using i bits_after_clear [OF i] by (simp add: clear_bit_word) (simp add: bitmap_capacity_def)
  show "metal_bitmap_is_bit_set m i = Some (i \<in> bitmap_bits m)"
    using i and_metal_bit [of "i mod 64" "m ! (i div 64)"]
    by (simp add: metal_bitmap_is_bit_set_def div64_less bitmap_bits_def)
qed

lemma is_bit_clear_eq:
  "i < bitmap_capacity m \<Longrightarrow> metal_bitmap_is_bit_clear m i = Some (i \<notin> bitmap_bits m)"
  by (simp add: metal_bitmap_is_bit_clear_def metal_bitmap.test_ok)

section \<open>The search for a clear bit\<close>

lemma mod_less_capacity:
  "(mx :: u32) \<noteq> 0 \<Longrightarrow> unat mx \<le> bitmap_capacity bm \<Longrightarrow> unat (b mod mx) < bitmap_capacity bm"
  by (metis mod_less_divisor order_less_le_trans unat_gt_0 unat_mod)

lemma next_clear_from_spec:
  assumes "mx \<noteq> 0" "unat mx \<le> bitmap_capacity bm" "b \<le> lim"
  shows "\<exists>r. next_clear_from bm b lim mx = Some r \<and> b \<le> r \<and> r \<le> lim
    \<and> (\<forall>j. b \<le> j \<and> j < r \<longrightarrow> unat (j mod mx) \<in> bitmap_bits bm)
    \<and> (r < lim \<longrightarrow> unat (r mod mx) \<notin> bitmap_bits bm)"
  using assms
proof (induction bm b lim mx rule: next_clear_from.induct)
  case (1 bm b lim mx)
  note cap = mod_less_capacity [OF "1.prems"(1,2), of b]
  show ?case
  proof (cases "b < lim")
    case False
    with "1.prems"(3) show ?thesis
      by (subst next_clear_from.simps) auto
  next
    case True
    show ?thesis
    proof (cases "unat (b mod mx) \<in> bitmap_bits bm")
      case False
      with True "1.prems" cap show ?thesis
        by (subst next_clear_from.simps) (auto simp: is_bit_clear_eq)
    next
      case set: True
      have step: "next_clear_from bm b lim mx = next_clear_from bm (b + 1) lim mx"
        using True "1.prems" cap set
        by (subst next_clear_from.simps) (simp add: is_bit_clear_eq)
      have le: "b + 1 \<le> lim" using True by (simp add: inc_le)
      obtain r where r: "next_clear_from bm (b + 1) lim mx = Some r" "b + 1 \<le> r" "r \<le> lim"
        "\<forall>j. b + 1 \<le> j \<and> j < r \<longrightarrow> unat (j mod mx) \<in> bitmap_bits bm"
        "r < lim \<longrightarrow> unat (r mod mx) \<notin> bitmap_bits bm"
        using "1.IH" [of "()" "False"] True "1.prems"(1,2) le cap set
        by (auto simp: is_bit_clear_eq)
      have b1: "b < b + 1"
        using True unat_plus_one_less [OF True] by (simp add: word_less_nat_alt)
      have "unat (j mod mx) \<in> bitmap_bits bm" if "b \<le> j" "j < r" for j
        using that r(4) set inc_le [of b j] by (cases "j = b") auto
      with r step b1 show ?thesis
        by (intro exI [of _ r]) (auto intro: order_trans less_imp_le)
    qed
  qed
qed

text \<open>
  No search range of the callers overflows \<open>unsigned int\<close>; under that bound the search either
  finds the first clear bit in cyclic order from \<open>start\<close>, or comes back to \<open>start\<close>.
\<close>

lemma unat_add_no_wrap: "unat a + unat b < 2 ^ 32 \<Longrightarrow> unat (a + b :: u32) = unat a + unat b"
  by (simp add: unat_word_ariths)

lemma next_clear_bit_spec:
  assumes "start < mx" "unat mx \<le> bitmap_capacity bm" "unat start + unat mx < 2 ^ 32"
  obtains j where "metal_bitmap_next_clear_bit bm start mx = Some (j mod mx)"
    "unat start \<le> unat j" "unat j \<le> unat start + unat mx"
    "\<And>i. unat start \<le> i \<Longrightarrow> i < unat j \<Longrightarrow> i mod unat mx \<in> bitmap_bits bm"
    "unat j < unat start + unat mx \<Longrightarrow> unat j mod unat mx \<notin> bitmap_bits bm"
proof -
  have nz: "mx \<noteq> 0" using assms(1) by auto
  have lim: "unat (mx + start) = unat start + unat mx"
    using assms(3) by (simp add: unat_add_no_wrap)
  then have "start \<le> mx + start" by (simp add: word_le_nat_alt)
  from next_clear_from_spec [OF nz assms(2) this] obtain r where
    r: "next_clear_from bm start (mx + start) mx = Some r" "start \<le> r" "r \<le> mx + start"
    "\<forall>j. start \<le> j \<and> j < r \<longrightarrow> unat (j mod mx) \<in> bitmap_bits bm"
    "r < mx + start \<longrightarrow> unat (r mod mx) \<notin> bitmap_bits bm" by blast
  have "i mod unat mx \<in> bitmap_bits bm" if "unat start \<le> i" "i < unat r" for i
  proof -
    have i: "unat (of_nat i :: u32) = i"
      using order_less_trans [OF that(2) unat_lt_u32 [of r]] by (simp add: unat_of_nat)
    have "start \<le> of_nat i" "of_nat i < r"
      using that i by (simp_all add: word_le_nat_alt word_less_nat_alt)
    with r(4) have "unat (of_nat i mod mx) \<in> bitmap_bits bm" by blast
    then show ?thesis by (simp add: unat_mod i)
  qed
  moreover have "unat r < unat start + unat mx \<Longrightarrow> unat r mod unat mx \<notin> bitmap_bits bm"
    using r(5) lim by (simp add: word_less_nat_alt unat_mod)
  ultimately show thesis
    using that [of r] r(1,2,3) lim nz
    by (simp add: metal_bitmap_next_clear_bit_def word_le_nat_alt)
qed

section \<open>\<open>metal_log2\<close> of a power of two\<close>

lemma log2_from_pow2: "i \<le> k \<Longrightarrow> k < 64 \<Longrightarrow> log2_from (2 ^ k) i = Some k"
proof (induction "k - i" arbitrary: i)
  case 0
  then show ?case by (subst log2_from.simps) simp
next
  case (Suc d)
  then have i: "i < k" by simp
  have "(2::u64) ^ i < 2 ^ k"
    using i Suc.prems(2) by (simp add: word_less_nat_alt unat_pow2)
  moreover have "log2_from (2 ^ k) (Suc i) = Some k"
    using Suc.hyps(1) [of "Suc i"] Suc.hyps(2) Suc.prems i by simp
  ultimately show ?case
    using Suc.prems i by (subst log2_from.simps) simp
qed

lemma pow2_and_pred: "k < 64 \<Longrightarrow> (2::u64) ^ k AND (2 ^ k - 1) = 0"
  by (simp only: and_pow2_mask) (simp add: take_bit_eq_mod)

lemma metal_log2_pow2: "k < 64 \<Longrightarrow> metal_log2 (2 ^ k) = Some k"
  by (simp add: metal_log2_def pow2_and_pred log2_from_pow2)

section \<open>\<open>safe_strcpy\<close>: the copied string, and where it leaves the array\<close>

definition overlay :: "'a list \<Rightarrow> nat \<Rightarrow> 'a list \<Rightarrow> 'a list" where
  "overlay dst pos xs = take pos dst @ xs @ drop (pos + length xs) dst"

abbreviation (input) cstr :: "u8 list \<Rightarrow> u8 list" where
  "cstr xs \<equiv> takeWhile (\<lambda>c. c \<noteq> 0) xs"

lemma overlay_Nil [simp]: "overlay dst pos [] = dst"
  by (simp add: overlay_def)

lemma length_overlay [simp]: "pos + length xs \<le> length dst \<Longrightarrow> length (overlay dst pos xs) = length dst"
  by (simp add: overlay_def)

lemma overlay_Cons:
  "pos < length dst \<Longrightarrow> overlay (dst[pos := x]) (Suc pos) xs = overlay dst pos (x # xs)"
  by (simp add: overlay_def take_Suc_conv_app_nth upd_conv_take_nth_drop min_def add.commute)

lemma strcpy_loop_stops:
  "strcpy_loop dst pos src (Suc 0) = Some (dst, pos, 0)"
  by (simp add: strcpy_loop.simps)

lemma strcpy_loop_terminated:
  "k < n \<Longrightarrow> k < length src \<Longrightarrow> src ! k = 0 \<Longrightarrow> (\<forall>i < k. src ! i \<noteq> 0) \<Longrightarrow>
   pos + Suc k \<le> length dst \<Longrightarrow>
   strcpy_loop dst pos src (Suc n) = Some (overlay dst pos (take (Suc k) src), pos + Suc k, n - k)"
proof (induction k arbitrary: dst pos src n)
  case 0
  then show ?case
    by (cases src; cases n) (simp_all add: strcpy_loop.simps [of _ _ _ "Suc _"] overlay_def
        upd_conv_take_nth_drop)
next
  case (Suc k)
  from Suc.prems obtain c cs where src: "src = c # cs" by (cases src) auto
  from Suc.prems(4) src have c: "c \<noteq> 0" by auto
  obtain m where n: "n = Suc m" using Suc.prems(1) by (cases n) auto
  have "strcpy_loop (dst[pos := c]) (Suc pos) cs (Suc m)
      = Some (overlay (dst[pos := c]) (Suc pos) (take (Suc k) cs), Suc pos + Suc k, m - k)"
    by (rule Suc.IH) (use Suc.prems src n in auto)
  with Suc.prems(5) src n c show ?case
    by (simp add: strcpy_loop.simps [of _ _ _ "Suc (Suc _)"] overlay_Cons)
qed

lemma strcpy_loop_full:
  "n \<le> length src \<Longrightarrow> (\<forall>i < n. src ! i \<noteq> 0) \<Longrightarrow> pos + n \<le> length dst \<Longrightarrow>
   strcpy_loop dst pos src (Suc n) = Some (overlay dst pos (take n src), pos + n, 0)"
proof (induction n arbitrary: dst pos src)
  case 0
  then show ?case by (simp add: strcpy_loop_stops)
next
  case (Suc n)
  from Suc.prems obtain c cs where src: "src = c # cs" by (cases src) auto
  from Suc.prems(2) src have c: "c \<noteq> 0" by auto
  have "strcpy_loop (dst[pos := c]) (Suc pos) cs (Suc n)
      = Some (overlay (dst[pos := c]) (Suc pos) (take n cs), Suc pos + n, 0)"
    by (rule Suc.IH) (use Suc.prems src in auto)
  with Suc.prems(3) src c show ?case
    by (simp add: strcpy_loop.simps [of _ _ _ "Suc (Suc _)"] overlay_Cons)
qed

lemma memset_arr_eq:
  "pos + n \<le> length dst \<Longrightarrow> memset_arr dst pos v n = Some (overlay dst pos (replicate n v))"
  by (induction n arbitrary: dst pos) (simp_all add: overlay_Cons)

lemma memset_arr_outside:
  "length dst < pos + n \<Longrightarrow> 0 < n \<Longrightarrow> memset_arr dst pos v n = None"
proof (induction n arbitrary: dst pos)
  case 0
  then show ?case by simp
next
  case (Suc n)
  show ?case
  proof (cases "pos < length dst")
    case True
    with Suc.prems have "memset_arr (dst[pos := v]) (Suc pos) v n = None"
      by (intro Suc.IH) auto
    with True show ?thesis by simp
  next
    case False
    then show ?thesis by (simp add: arr_set_def)
  qed
qed

text \<open>The first terminator of a terminated string.\<close>

lemma cstr_terminator:
  assumes "0 \<in> set xs"
  shows "length (cstr xs) < length xs" "xs ! length (cstr xs) = 0"
    "\<forall>i < length (cstr xs). xs ! i \<noteq> 0" "take (length (cstr xs)) xs = cstr xs"
  using assms
  by (induction xs) (auto simp: less_Suc_eq_0_disj split: if_splits)

text \<open>
  Both arrays of the same size, as every caller of the repository has it (endpoint, name service
  and memory names): the copy stays in the array, the result is the source string truncated to
  \<open>n - 1\<close> characters and terminated.
\<close>

lemma cstr_update_after:
  "0 \<notin> set xs \<Longrightarrow> length xs \<le> i \<Longrightarrow> cstr ((xs @ 0 # ys)[i := 0]) = xs"
proof (induction xs arbitrary: i)
  case Nil
  then show ?case by (cases i) simp_all
next
  case (Cons x xs)
  then show ?case by (cases i) auto
qed

lemma safe_strcpy_same_size:
  assumes "length dst = n" "0 < n" "0 \<in> set (take n src)"
  shows "\<exists>dst'. safe_strcpy dst n src n = Some (length (cstr src), dst') \<and> length dst' = n
    \<and> cstr dst' = cstr src"
proof -
  let ?k = "length (cstr (take n src))"
  have k: "?k < n" "?k < length src" "src ! ?k = 0" "\<forall>i < ?k. src ! i \<noteq> 0"
    using cstr_terminator [OF assms(3)] by auto
  have eq: "cstr src = cstr (take n src)"
    using assms(3) takeWhile_append1 [of 0 "take n src" "\<lambda>c. c \<noteq> 0" "drop n src"] by simp
  have split: "take (Suc ?k) src = cstr src @ [0]"
    using cstr_terminator(4) [OF assms(3)] k eq by (simp add: take_Suc_conv_app_nth min_def)
  have loop: "strcpy_loop dst 0 src (Suc n)
      = Some (overlay dst 0 (cstr src @ [0]), Suc ?k, n - ?k)"
    using strcpy_loop_terminated [OF k(1,2,3,4), of 0 dst] k(1) assms(1) split by simp
  let ?d = "overlay dst 0 (cstr src @ [0])"
  have len: "length ?d = n" using k(1) eq assms(1) by (simp add: overlay_def)
  have "?d = cstr src @ 0 # drop (Suc ?k) dst" using eq by (simp add: overlay_def)
  moreover have "0 \<notin> set (cstr src)" by (auto dest: set_takeWhileD)
  ultimately have "cstr (?d[n - 1 := 0]) = cstr src"
    using k(1) by (simp only: eq) (rule cstr_update_after, simp_all)
  moreover have "safe_strcpy dst n src n = Some (n - (n - ?k), ?d[n - 1 := 0])"
    using loop len assms(2) by (simp add: safe_strcpy_def)
  moreover have "n - (n - ?k) = length (cstr src)" using k(1) by (simp add: eq)
  ultimately show ?thesis using len by auto
qed

lemma safe_strcpy_truncates:
  assumes "length dst = n" "0 < n" "n \<le> length src" "0 \<notin> set (take n src)"
  shows "safe_strcpy dst n src n = Some (n, take (n - 1) src @ [0])"
proof -
  have nz: "\<forall>i < n. src ! i \<noteq> 0"
    using assms(3,4) by (metis length_take min.absorb2 nth_mem nth_take)
  have loop: "strcpy_loop dst 0 src (Suc n) = Some (take n src, n, 0)"
    using strcpy_loop_full [OF assms(3) nz, of 0 dst] assms(1,3) by (simp add: overlay_def)
  have "(take n src)[n - 1 := 0] = take (n - 1) src @ [0]"
    using assms(2,3) by (simp add: upd_conv_take_nth_drop)
  with loop assms(2,3) show ?thesis
    by (simp add: safe_strcpy_def)
qed

section \<open>Properties\<close>

lemma find_clear_bit:
  assumes "start < mx" "unat mx \<le> bitmap_capacity bm" "unat start + unat mx < 2 ^ 32"
    and "c < unat mx" "c \<notin> bitmap_bits bm"
  shows "\<exists>r d. metal_bitmap_next_clear_bit bm start mx = Some r \<and> r < mx
    \<and> unat r \<notin> bitmap_bits bm \<and> unat r = (unat start + d) mod unat mx
    \<and> (\<forall>i < d. (unat start + i) mod unat mx \<in> bitmap_bits bm)"
proof -
  obtain j where j: "metal_bitmap_next_clear_bit bm start mx = Some (j mod mx)"
    "unat start \<le> unat j" "unat j \<le> unat start + unat mx"
    "\<And>i. unat start \<le> i \<Longrightarrow> i < unat j \<Longrightarrow> i mod unat mx \<in> bitmap_bits bm"
    "unat j < unat start + unat mx \<Longrightarrow> unat j mod unat mx \<notin> bitmap_bits bm"
    using next_clear_bit_spec [OF assms(1-3)] by metis
  have nz: "mx \<noteq> 0" using assms(1) by auto
  let ?c = "if c < unat start then c + unat mx else c"
  have "unat start \<le> ?c" "?c < unat start + unat mx" "?c mod unat mx = c"
    using assms(1,4) by (auto simp: word_less_nat_alt)
  with j(4) [of ?c] assms(5) have "unat j < unat start + unat mx"
    by (metis not_less order_le_less_trans)
  with j nz show ?thesis
    by (intro exI [of _ "j mod mx"] exI [of _ "unat j - unat start"])
      (auto simp: unat_mod word_less_nat_alt unat_gt_0)
qed

text \<open>When some bit below \<open>max\<close> is clear, \<open>metal_bitmap_next_clear_bit\<close> started inside the
  range returns a clear bit below \<open>max\<close>, and every bit it passed on the way from \<open>start\<close>, in
  cyclic order, is set.\<close>

theorem next_clear_bit_finds:
  assumes "start < mx" "unat mx \<le> bitmap_capacity bm" "unat start + unat mx < 2 ^ 32"
    and "c < unat mx" "c \<notin> bitmap_bits bm"
  shows "\<exists>r d. metal_bitmap_next_clear_bit bm start mx = Some r \<and> r < mx
    \<and> unat r \<notin> bitmap_bits bm \<and> unat r = (unat start + d) mod unat mx
    \<and> (\<forall>i < d. (unat start + i) mod unat mx \<in> bitmap_bits bm)"
  using assms by (rule find_clear_bit)

theorem next_clear_bit_finds_witness:
  "\<exists>r d. metal_bitmap_next_clear_bit [3, 0] 1 128 = Some r \<and> r < 128
    \<and> unat r \<notin> bitmap_bits [3, 0] \<and> unat r = (unat (1::u32) + d) mod unat (128::u32)
    \<and> (\<forall>i < d. (unat (1::u32) + i) mod unat (128::u32) \<in> bitmap_bits [3, 0])"
  by (rule next_clear_bit_finds [where c = 2]) (simp_all add: bitmap_capacity_def bitmap_bits_def
      bit_numeral_rec)

lemma find_clear_bit_full:
  assumes "start < mx" "unat mx \<le> bitmap_capacity bm" "unat start + unat mx < 2 ^ 32"
    and "{..<unat mx} \<subseteq> bitmap_bits bm"
  shows "metal_bitmap_next_clear_bit bm start mx = Some start"
proof -
  obtain j where j: "metal_bitmap_next_clear_bit bm start mx = Some (j mod mx)"
    "unat start \<le> unat j" "unat j \<le> unat start + unat mx"
    "unat j < unat start + unat mx \<Longrightarrow> unat j mod unat mx \<notin> bitmap_bits bm"
    using next_clear_bit_spec [OF assms(1-3)] by metis
  have pos: "0 < unat mx" "unat start < unat mx"
    using assms(1) by (auto simp: word_less_nat_alt)
  then have "unat j mod unat mx \<in> bitmap_bits bm" using assms(4) by auto
  with j have "unat j = unat start + unat mx" by fastforce
  then have "unat (j mod mx) = unat start" using pos by (simp add: unat_mod)
  then have "j mod mx = start" by (simp add: word_unat_eq_iff)
  with j(1) show ?thesis by simp
qed

text \<open>When every bit below \<open>max\<close> is set, \<open>metal_bitmap_next_clear_bit\<close> does not return
  \<open>max\<close>: it returns \<open>start\<close> itself, a set bit below \<open>max\<close>, so a caller that compares the result
  with \<open>max\<close> takes it for a free one.\<close>

theorem next_clear_bit_full:
  assumes "start < mx" "unat mx \<le> bitmap_capacity bm" "unat start + unat mx < 2 ^ 32"
    and "{..<unat mx} \<subseteq> bitmap_bits bm"
  shows "metal_bitmap_next_clear_bit bm start mx = Some start"
  using assms by (rule find_clear_bit_full)

theorem next_clear_bit_full_witness:
  "metal_bitmap_next_clear_bit [7] 1 3 = Some 1"
proof (rule next_clear_bit_full)
  have "{..<unat (3::u32)} = {0, 1, 2}" by auto
  then show "{..<unat (3::u32)} \<subseteq> bitmap_bits [7]"
    by (simp add: bitmap_bits_def bitmap_capacity_def bit_numeral_rec)
qed (simp_all add: bitmap_capacity_def)

lemma strcpy_fits:
  assumes "length dst = n" "0 < n" "n \<le> length src \<or> 0 \<in> set src"
  shows "\<exists>dst'. safe_strcpy dst n src n = Some (min n (length (cstr src)), dst')
    \<and> length dst' = n \<and> 0 \<in> set dst' \<and> cstr dst' = take (n - 1) (cstr src)"
proof (cases "0 \<in> set (take n src)")
  case True
  from safe_strcpy_same_size [OF assms(1,2) True] obtain dst' where
    d: "safe_strcpy dst n src n = Some (length (cstr src), dst')" "length dst' = n"
    "cstr dst' = cstr src" by blast
  have "cstr src = cstr (take n src)"
    using True takeWhile_append1 [of 0 "take n src" "\<lambda>c. c \<noteq> 0" "drop n src"] by simp
  with cstr_terminator(1) [OF True] have lt: "length (cstr src) < n" by simp
  have "0 \<in> set dst'"
  proof (rule ccontr)
    assume "0 \<notin> set dst'"
    then have "cstr dst' = dst'" by (auto simp: takeWhile_eq_all_conv)
    with d lt show False by simp
  qed
  with d lt show ?thesis by auto
next
  case False
  have len: "n \<le> length src"
  proof (rule ccontr)
    assume "\<not> n \<le> length src"
    with False assms(3) show False by simp
  qed
  have nz: "\<And>x. x \<in> set (take n src) \<Longrightarrow> x \<noteq> 0" using False by metis
  have c: "cstr src = take n src @ cstr (drop n src)"
    using takeWhile_append2 [of "take n src" "\<lambda>c. c \<noteq> 0" "drop n src", OF nz] by simp
  have "set (take (n - 1) src) \<subseteq> set (take n src)" by (simp add: set_take_subset_set_take)
  then have "cstr (take (n - 1) src @ [0]) = take (n - 1) src @ cstr [0]"
    using nz by (intro takeWhile_append2) blast
  then have "cstr (take (n - 1) src @ [0]) = take (n - 1) src" by simp
  moreover have "n - Suc 0 < length src" using len assms(2) by linarith
  ultimately show ?thesis
    using safe_strcpy_truncates [OF assms(1,2) len False] len c assms(2)
    by (simp add: min_def)
qed

text \<open>\<open>safe_strcpy\<close> between arrays of the same size \<open>n\<close> never leaves either array, leaves a
  terminated destination holding the source string cut to \<open>n - 1\<close> characters, and returns the
  number of characters before the terminator, or \<open>n\<close> when it truncates.\<close>

theorem safe_strcpy_bounded:
  assumes "length dst = n" "0 < n" "n \<le> length src \<or> 0 \<in> set src"
  shows "\<exists>dst'. safe_strcpy dst n src n = Some (min n (length (cstr src)), dst')
    \<and> length dst' = n \<and> 0 \<in> set dst' \<and> cstr dst' = take (n - 1) (cstr src)"
  using assms by (rule strcpy_fits)

theorem safe_strcpy_bounded_witness:
  "\<exists>dst'. safe_strcpy [9, 9, 9] 3 [65, 66, 67, 68] 3 = Some (min 3 (length (cstr [65, 66, 67, 68])), dst')
    \<and> length dst' = 3 \<and> 0 \<in> set dst' \<and> cstr dst' = take (3 - 1) (cstr [65, 66, 67, 68])"
  by (rule safe_strcpy_bounded) simp_all

text \<open>When the source array is smaller than the destination and holds a terminated string,
  \<open>safe_strcpy\<close> clears one byte more than the destination has: the padding \<open>memset\<close> runs past the
  end of the array.\<close>

theorem safe_strcpy_overflow:
  assumes "length dst = d_size" "s_size < d_size" "0 \<in> set (take s_size src)"
  shows "safe_strcpy dst d_size src s_size = None"
proof -
  let ?k = "length (cstr (take s_size src))"
  have k: "?k < s_size" "?k < length src" "src ! ?k = 0" "\<forall>i < ?k. src ! i \<noteq> 0"
    using cstr_terminator [OF assms(3)] by auto
  have loop: "strcpy_loop dst 0 src (Suc s_size)
      = Some (overlay dst 0 (take (Suc ?k) src), Suc ?k, s_size - ?k)"
    using strcpy_loop_terminated [OF k(1,2,3,4), of 0 dst] k(1) assms(1,2) by simp
  have len: "length (overlay dst 0 (take (Suc ?k) src)) = d_size"
    using k(1,2) assms(1,2) by simp
  have "memset_arr (overlay dst 0 (take (Suc ?k) src)) (Suc ?k) 0 (d_size - s_size + (s_size - ?k))
      = None"
    by (rule memset_arr_outside) (use len k(1) assms(2) in simp_all)
  with loop assms(2) show ?thesis
    by (simp add: safe_strcpy_def min_def)
qed

theorem safe_strcpy_overflow_witness:
  "safe_strcpy [9, 9, 9, 9] 4 [65, 0] 2 = None"
  by (rule safe_strcpy_overflow) simp_all

end
