(* ===== verification/Metal_List.thy ===== *)
theory Metal_List
  imports Prelude
begin

text \<open>
  \<^verbatim>\<open>src/openamp/libmetal/lib/list.h\<close>: circular doubly linked lists threaded through the
  objects they hold. The operations write an explicit store of nodes; the locale \<open>list_store\<close>
  states what the clients (endpoints, reclaimed buffers, memories, virtio devices) rely on, and
  its interpretation shows that the pointer code provides it, so the clients carry HOL lists.
\<close>

section \<open>Operations on the store of nodes\<close>

record metal_list =
  ml_next :: addr
  ml_prev :: addr

type_synonym nodes = "addr \<Rightarrow> metal_list"

definition set_next :: "nodes \<Rightarrow> addr \<Rightarrow> addr \<Rightarrow> nodes" where
  "set_next h a v = h(a := (h a)\<lparr>ml_next := v\<rparr>)"

definition set_prev :: "nodes \<Rightarrow> addr \<Rightarrow> addr \<Rightarrow> nodes" where
  "set_prev h a v = h(a := (h a)\<lparr>ml_prev := v\<rparr>)"

definition metal_list_init :: "nodes \<Rightarrow> addr \<Rightarrow> nodes" where
  "metal_list_init h list = set_next (set_prev h list list) list list"

definition metal_list_add_before :: "nodes \<Rightarrow> addr \<Rightarrow> addr \<Rightarrow> nodes" where
  "metal_list_add_before h node new_node =
     (let h = set_prev h new_node (ml_prev (h node));
          h = set_next h new_node node;
          h = set_prev h (ml_next (h new_node)) new_node
      in set_next h (ml_prev (h new_node)) new_node)"

definition metal_list_add_after :: "nodes \<Rightarrow> addr \<Rightarrow> addr \<Rightarrow> nodes" where
  "metal_list_add_after h node new_node =
     (let h = set_prev h new_node node;
          h = set_next h new_node (ml_next (h node));
          h = set_prev h (ml_next (h new_node)) new_node
      in set_next h (ml_prev (h new_node)) new_node)"

definition metal_list_add_head :: "nodes \<Rightarrow> addr \<Rightarrow> addr \<Rightarrow> nodes" where
  "metal_list_add_head h list node = metal_list_add_after h list node"

definition metal_list_add_tail :: "nodes \<Rightarrow> addr \<Rightarrow> addr \<Rightarrow> nodes" where
  "metal_list_add_tail h list node = metal_list_add_before h list node"

definition metal_list_is_empty :: "nodes \<Rightarrow> addr \<Rightarrow> bool" where
  "metal_list_is_empty h list = (ml_next (h list) = list)"

definition metal_list_del :: "nodes \<Rightarrow> addr \<Rightarrow> nodes" where
  "metal_list_del h node =
     (let h = set_prev h (ml_next (h node)) (ml_prev (h node));
          h = set_next h (ml_prev (h node)) (ml_next (h node));
          h = set_prev h node node
      in set_next h node node)"

definition metal_list_first :: "nodes \<Rightarrow> addr \<Rightarrow> addr" where
  "metal_list_first h list = (if metal_list_is_empty h list then NULL else ml_next (h list))"

text \<open>\<open>metal_list_for_each\<close> walks \<open>next\<close> until it is back at the head; on a store that is not a
  circular list it need not stop.\<close>

partial_function (option) find_node_from :: "nodes \<Rightarrow> addr \<Rightarrow> addr \<Rightarrow> addr \<Rightarrow> bool option" where
  "find_node_from h list n node =
     (if n = list then Some False
      else if n = node then Some True
      else find_node_from h list (ml_next (h n)) node)"

definition metal_list_find_node :: "nodes \<Rightarrow> addr \<Rightarrow> addr \<Rightarrow> bool option" where
  "metal_list_find_node h list node = find_node_from h list (ml_next (h list)) node"

section \<open>What a well-formed list represents\<close>

fun seg :: "nodes \<Rightarrow> addr \<Rightarrow> addr list \<Rightarrow> addr \<Rightarrow> bool" where
  "seg h a [] b = (ml_next (h a) = b \<and> ml_prev (h b) = a)"
| "seg h a (x # xs) b = (ml_next (h a) = x \<and> ml_prev (h x) = a \<and> seg h x xs b)"

definition dll :: "nodes \<Rightarrow> addr \<Rightarrow> addr list \<Rightarrow> bool" where
  "dll h l xs = (distinct (l # xs) \<and> NULL \<notin> set (l # xs) \<and> seg h l xs l)"

lemma node_simps [simp]:
  "ml_next (set_next h a v x) = (if x = a then v else ml_next (h x))"
  "ml_prev (set_next h a v x) = ml_prev (h x)"
  "ml_prev (set_prev h a v x) = (if x = a then v else ml_prev (h x))"
  "ml_next (set_prev h a v x) = ml_next (h x)"
  by (simp_all add: set_next_def set_prev_def)

lemma seg_append: "seg h a (xs @ x # ys) b = (seg h a xs x \<and> seg h x ys b)"
  by (induction xs arbitrary: a) auto

lemma seg_prev_last: "seg h a xs b \<Longrightarrow> ml_prev (h b) = last (a # xs)"
  by (induction xs arbitrary: a) auto

lemma seg_next_first: "seg h a xs b \<Longrightarrow> ml_next (h a) = hd (xs @ [b])"
  by (cases xs) auto

lemma seg_cong:
  "(\<And>y. y \<in> set (a # xs) \<Longrightarrow> ml_next (h' y) = ml_next (h y)) \<Longrightarrow>
   (\<And>y. y \<in> set (xs @ [b]) \<Longrightarrow> ml_prev (h' y) = ml_prev (h y)) \<Longrightarrow>
   seg h' a xs b = seg h a xs b"
  by (induction xs arbitrary: a) auto

text \<open>Linking a segment that ends in \<open>b\<close> to another end \<open>c\<close>.\<close>

lemma seg_retarget:
  assumes "seg h a xs b" "distinct (a # xs)" "c \<notin> set xs" "b \<notin> set xs"
    and "ml_next (h' (last (a # xs))) = c" "ml_prev (h' c) = last (a # xs)"
    and "\<And>y. y \<in> set (a # xs) \<Longrightarrow> y \<noteq> last (a # xs) \<Longrightarrow> ml_next (h' y) = ml_next (h y)"
    and "\<And>y. y \<in> set xs \<Longrightarrow> ml_prev (h' y) = ml_prev (h y)"
  shows "seg h' a xs c"
  using assms
proof (induction xs arbitrary: a)
  case Nil
  then show ?case by simp
next
  case (Cons x xs)
  have "a \<noteq> last (x # xs)" using Cons.prems(2) by (metis distinct.simps(2) last_in_set list.distinct(1))
  then have "ml_next (h' a) = x" using Cons.prems(1,7) by auto
  moreover have "ml_prev (h' x) = a" using Cons.prems(1,8) by auto
  moreover have "seg h' x xs c"
    by (rule Cons.IH) (use Cons.prems in auto)
  ultimately show ?case by simp
qed

lemma dll_insert:
  assumes "dll h l (xs @ ys)" "new \<notin> set (l # xs @ ys)" "new \<noteq> NULL"
    and p: "p = last (l # xs)" and q: "q = hd (ys @ [l])"
    and "ml_next (h' p) = new" "ml_prev (h' new) = p" "ml_next (h' new) = q" "ml_prev (h' q) = new"
    and next_frame: "\<And>y. y \<noteq> p \<Longrightarrow> y \<noteq> new \<Longrightarrow> ml_next (h' y) = ml_next (h y)"
    and prev_frame: "\<And>y. y \<noteq> q \<Longrightarrow> y \<noteq> new \<Longrightarrow> ml_prev (h' y) = ml_prev (h y)"
  shows "dll h' l (xs @ new # ys)"
proof -
  from assms(1) have d: "distinct (l # xs @ ys)" and s: "seg h l (xs @ ys) l"
    by (auto simp: dll_def)
  have q_out: "q \<notin> set xs" using d q by (cases ys) auto
  have sq: "seg h l xs q" using s q by (cases ys) (auto simp: seg_append)
  have left: "seg h' l xs new"
  proof (rule seg_retarget [OF sq])
    show "ml_prev (h' y) = ml_prev (h y)" if "y \<in> set xs" for y
      using that q_out assms(2) by (intro prev_frame) auto
    show "ml_next (h' y) = ml_next (h y)" if "y \<in> set (l # xs)" "y \<noteq> last (l # xs)" for y
      using that assms(2) p by (intro next_frame) auto
  qed (use d q_out assms(2,6,7) p in auto)
  have right: "seg h' new ys l"
  proof (cases ys)
    case Nil
    with assms q show ?thesis by simp
  next
    case (Cons y zs)
    with s have "seg h y zs l" by (simp add: seg_append)
    moreover have "seg h' y zs l = seg h y zs l"
    proof (rule seg_cong)
      have "p \<in> set (l # xs)" unfolding p by (rule last_in_set) simp
      then show "ml_next (h' ya) = ml_next (h ya)" if "ya \<in> set (y # zs)" for ya
        using that d assms(2) Cons by (intro next_frame) auto
      show "ml_prev (h' ya) = ml_prev (h ya)" if "ya \<in> set (zs @ [l])" for ya
        using that d assms(2) Cons q by (intro prev_frame) auto
    qed
    ultimately show ?thesis using Cons assms q by simp
  qed
  from left right have "seg h' l (xs @ new # ys) l" by (simp add: seg_append)
  with assms(1-3) show ?thesis by (auto simp: dll_def)
qed

lemma dll_remove:
  assumes "dll h l (xs @ n # ys)"
    and p: "p = last (l # xs)" and q: "q = hd (ys @ [l])"
    and "ml_next (h' p) = q" "ml_prev (h' q) = p"
    and next_frame: "\<And>y. y \<noteq> p \<Longrightarrow> y \<noteq> n \<Longrightarrow> ml_next (h' y) = ml_next (h y)"
    and prev_frame: "\<And>y. y \<noteq> q \<Longrightarrow> y \<noteq> n \<Longrightarrow> ml_prev (h' y) = ml_prev (h y)"
  shows "dll h' l (xs @ ys)"
proof -
  from assms(1) have d: "distinct (l # xs @ n # ys)" and s: "seg h l xs n" "seg h n ys l"
    by (auto simp: dll_def seg_append)
  have q_out: "q \<notin> set xs" using d q by (cases ys) auto
  have left: "seg h' l xs q"
  proof (rule seg_retarget [OF s(1)])
    show "ml_prev (h' y) = ml_prev (h y)" if "y \<in> set xs" for y
      using that q_out d by (intro prev_frame) auto
    show "ml_next (h' y) = ml_next (h y)" if "y \<in> set (l # xs)" "y \<noteq> last (l # xs)" for y
      using that d p by (intro next_frame) auto
  qed (use d q_out assms(4,5) p in auto)
  have "seg h' l (xs @ ys) l"
  proof (cases ys)
    case Nil
    with left q show ?thesis by simp
  next
    case (Cons y zs)
    with s have "seg h y zs l" by simp
    moreover have "seg h' y zs l = seg h y zs l"
    proof (rule seg_cong)
      have "p \<in> set (l # xs)" unfolding p by (rule last_in_set) simp
      then show "ml_next (h' ya) = ml_next (h ya)" if "ya \<in> set (y # zs)" for ya
        using that d Cons by (intro next_frame) auto
      show "ml_prev (h' ya) = ml_prev (h ya)" if "ya \<in> set (zs @ [l])" for ya
        using that d Cons q by (intro prev_frame) auto
    qed
    ultimately show ?thesis using left Cons q by (simp add: seg_append)
  qed
  with assms(1) show ?thesis by (auto simp: dll_def)
qed

section \<open>The interface of the list and its implementation\<close>

locale list_store =
  fixes rep :: "'h \<Rightarrow> addr \<Rightarrow> addr list \<Rightarrow> bool"
    and add_head_op :: "'h \<Rightarrow> addr \<Rightarrow> addr \<Rightarrow> 'h"
    and add_tail_op :: "'h \<Rightarrow> addr \<Rightarrow> addr \<Rightarrow> 'h"
    and del_op :: "'h \<Rightarrow> addr \<Rightarrow> 'h"
    and first_op :: "'h \<Rightarrow> addr \<Rightarrow> addr"
    and find_op :: "'h \<Rightarrow> addr \<Rightarrow> addr \<Rightarrow> bool option"
  assumes add_head_rep: "rep h l xs \<Longrightarrow> n \<notin> set (l # xs) \<Longrightarrow> n \<noteq> NULL \<Longrightarrow>
      rep (add_head_op h l n) l (n # xs)"
    and add_tail_rep: "rep h l xs \<Longrightarrow> n \<notin> set (l # xs) \<Longrightarrow> n \<noteq> NULL \<Longrightarrow>
      rep (add_tail_op h l n) l (xs @ [n])"
    and del_rep: "rep h l xs \<Longrightarrow> n \<in> set xs \<Longrightarrow> rep (del_op h n) l (remove1 n xs)"
    and first_rep: "rep h l xs \<Longrightarrow> first_op h l = (if xs = [] then NULL else hd xs)"
    and find_rep: "rep h l xs \<Longrightarrow> n \<noteq> l \<Longrightarrow> find_op h l n = Some (n \<in> set xs)"
    and rep_distinct: "rep h l xs \<Longrightarrow> distinct (l # xs)"
    and rep_not_null: "rep h l xs \<Longrightarrow> NULL \<notin> set (l # xs)"
begin

text \<open>Taking the first node off a list that is filled at its tail is first-in first-out.\<close>

lemma pop_rep:
  assumes "rep h l (x # xs)"
  shows "first_op h l = x \<and> rep (del_op h x) l xs"
  using first_rep [OF assms] del_rep [OF assms, of x] by simp

lemma push_then_pop:
  assumes "rep h l xs" "n \<notin> set (l # xs)" "n \<noteq> NULL"
  shows "first_op (add_tail_op h l n) l = (if xs = [] then n else hd xs)"
  using first_rep [OF add_tail_rep [OF assms]] by simp

lemma push_then_del:
  assumes "rep h l xs" "n \<notin> set (l # xs)" "n \<noteq> NULL"
  shows "rep (del_op (add_tail_op h l n) n) l xs"
  using del_rep [OF add_tail_rep [OF assms], of n] assms(2) by (simp add: remove1_append)

end

lemma add_tail_dll:
  assumes "dll h l xs" "n \<notin> set (l # xs)" "n \<noteq> NULL"
  shows "dll (metal_list_add_tail h l n) l (xs @ [n])"
proof (rule dll_insert [where ys = "[]"])
  show "dll h l (xs @ [])" using assms(1) by simp
  have pr: "ml_prev (h l) = last (l # xs)"
    using assms(1) seg_prev_last [of h l xs l] by (simp add: dll_def)
  then have "ml_prev (h l) \<noteq> n"
    using assms(2) by (metis last_in_set list.distinct(1))
  with pr assms(2) show "ml_next (metal_list_add_tail h l n (last (l # xs))) = n"
    "ml_prev (metal_list_add_tail h l n n) = last (l # xs)"
    "ml_next (metal_list_add_tail h l n n) = l" "ml_prev (metal_list_add_tail h l n l) = n"
    "\<And>y. y \<noteq> last (l # xs) \<Longrightarrow> y \<noteq> n \<Longrightarrow>
       ml_next (metal_list_add_tail h l n y) = ml_next (h y)"
    "\<And>y. y \<noteq> l \<Longrightarrow> y \<noteq> n \<Longrightarrow> ml_prev (metal_list_add_tail h l n y) = ml_prev (h y)"
    by (auto simp: metal_list_add_tail_def metal_list_add_before_def Let_def)
qed (use assms in auto)

lemma add_head_dll:
  assumes "dll h l xs" "n \<notin> set (l # xs)" "n \<noteq> NULL"
  shows "dll (metal_list_add_head h l n) l (n # xs)"
proof -
  have nx: "ml_next (h l) = hd (xs @ [l])"
    using assms(1) by (auto simp: dll_def intro: seg_next_first)
  then have "ml_next (h l) \<noteq> n"
    using assms(2) by (cases xs) auto
  with nx assms(2) have
    "ml_next (metal_list_add_head h l n l) = n"
    "ml_prev (metal_list_add_head h l n n) = l"
    "ml_next (metal_list_add_head h l n n) = hd (xs @ [l])"
    "ml_prev (metal_list_add_head h l n (hd (xs @ [l]))) = n"
    "\<And>y. y \<noteq> l \<Longrightarrow> y \<noteq> n \<Longrightarrow> ml_next (metal_list_add_head h l n y) = ml_next (h y)"
    "\<And>y. y \<noteq> hd (xs @ [l]) \<Longrightarrow> y \<noteq> n \<Longrightarrow> ml_prev (metal_list_add_head h l n y) = ml_prev (h y)"
    by (auto simp: metal_list_add_head_def metal_list_add_after_def Let_def)
  then show ?thesis
    using dll_insert [of h l "[]" xs n l "hd (xs @ [l])" "metal_list_add_head h l n"] assms
    by simp
qed

lemma del_dll:
  assumes "dll h l (xs @ n # ys)"
  shows "dll (metal_list_del h n) l (xs @ ys)"
proof (rule dll_remove [OF assms refl refl])
  from assms have s: "seg h l xs n" "seg h n ys l" and d: "distinct (l # xs @ n # ys)"
    by (auto simp: dll_def seg_append)
  have pr: "ml_prev (h n) = last (l # xs)" using s(1) by (rule seg_prev_last)
  have nx: "ml_next (h n) = hd (ys @ [l])" using s(2) by (rule seg_next_first)
  have "last (l # xs) \<in> set (l # xs)" by (rule last_in_set) simp
  then have pn: "last (l # xs) \<noteq> n" using d by auto
  have qn: "hd (ys @ [l]) \<noteq> n" using d by (cases ys) auto
  show "ml_next (metal_list_del h n (last (l # xs))) = hd (ys @ [l])"
    "ml_prev (metal_list_del h n (hd (ys @ [l]))) = last (l # xs)"
    "\<And>y. y \<noteq> last (l # xs) \<Longrightarrow> y \<noteq> n \<Longrightarrow> ml_next (metal_list_del h n y) = ml_next (h y)"
    "\<And>y. y \<noteq> hd (ys @ [l]) \<Longrightarrow> y \<noteq> n \<Longrightarrow> ml_prev (metal_list_del h n y) = ml_prev (h y)"
    using pr nx pn qn by (simp_all add: metal_list_del_def Let_def)
qed

lemma find_node_seg:
  assumes "seg h a xs l" "distinct xs" "l \<notin> set xs" "node \<noteq> l"
  shows "find_node_from h l (ml_next (h a)) node = Some (node \<in> set xs)"
  using assms
proof (induction xs arbitrary: a)
  case Nil
  then show ?case by (subst find_node_from.simps) simp
next
  case (Cons x xs)
  then have "x \<noteq> l" "ml_next (h a) = x" by auto
  with Cons show ?case by (subst find_node_from.simps) auto
qed

interpretation metal_lists: list_store dll metal_list_add_head metal_list_add_tail metal_list_del
  metal_list_first metal_list_find_node
proof unfold_locales
  fix h l xs n
  assume r: "dll h l xs"
  show "n \<notin> set (l # xs) \<Longrightarrow> n \<noteq> NULL \<Longrightarrow> dll (metal_list_add_head h l n) l (n # xs)"
    using r by (rule add_head_dll)
  show "n \<notin> set (l # xs) \<Longrightarrow> n \<noteq> NULL \<Longrightarrow> dll (metal_list_add_tail h l n) l (xs @ [n])"
    using r by (rule add_tail_dll)
  show "dll (metal_list_del h n) l (remove1 n xs)" if "n \<in> set xs"
  proof -
    from that obtain ys zs where "xs = ys @ n # zs" "n \<notin> set ys" by (metis split_list_first)
    with r del_dll [of h l ys n zs] show ?thesis by (simp add: remove1_append)
  qed
  show "metal_list_first h l = (if xs = [] then NULL else hd xs)"
    using r by (cases xs) (auto simp: metal_list_first_def metal_list_is_empty_def dll_def)
  show "metal_list_find_node h l n = Some (n \<in> set xs)" if "n \<noteq> l"
    using r that find_node_seg [of h l xs l n] by (simp add: metal_list_find_node_def dll_def)
  show "distinct (l # xs)" "NULL \<notin> set (l # xs)" using r by (auto simp: dll_def)
qed

lemma init_dll: "l \<noteq> NULL \<Longrightarrow> dll (metal_list_init h l) l []"
  by (simp add: dll_def metal_list_init_def)

section \<open>Properties\<close>

text \<open>A \<open>metal_list\<close> filled with \<open>metal_list_add_tail\<close> and emptied by \<open>metal_list_first\<close> and
  \<open>metal_list_del\<close> is first-in first-out: after adding \<open>n\<close>, the first node is the oldest one, and
  removing it leaves the well-formed list of the others with \<open>n\<close> last.\<close>

theorem metal_list_fifo:
  assumes "dll h l (x # xs)" "n \<notin> set (l # x # xs)" "n \<noteq> NULL"
  shows "metal_list_first (metal_list_add_tail h l n) l = x
    \<and> dll (metal_list_del (metal_list_add_tail h l n) x) l (xs @ [n])"
proof -
  have "dll (metal_list_add_tail h l n) l (x # (xs @ [n]))"
    using metal_lists.add_tail_rep [OF assms] by simp
  then show ?thesis by (rule metal_lists.pop_rep)
qed

theorem metal_list_fifo_witness:
  "metal_list_first (metal_list_add_tail (metal_list_add_tail (metal_list_init (\<lambda>_. \<lparr>ml_next = 0, ml_prev = 0\<rparr>) 1) 1 2) 1 3) 1 = 2
    \<and> dll (metal_list_del (metal_list_add_tail (metal_list_add_tail (metal_list_init (\<lambda>_. \<lparr>ml_next = 0, ml_prev = 0\<rparr>) 1) 1 2) 1 3) 2) 1 ([] @ [3])"
  by (rule metal_list_fifo) (use add_tail_dll [OF init_dll, of 1 2 "\<lambda>_. \<lparr>ml_next = 0, ml_prev = 0\<rparr>"] in simp_all)

text \<open>\<open>metal_list_del\<close> of a node of a well-formed list unlinks exactly that node, keeps the
  order of the others, and \<open>metal_list_find_node\<close>, which terminates on every well-formed list, no
  longer finds it.\<close>

theorem metal_list_del_unlinks:
  assumes "dll h l xs" "n \<in> set xs"
  shows "dll (metal_list_del h n) l (remove1 n xs)
    \<and> metal_list_find_node (metal_list_del h n) l n = Some False"
proof -
  have d: "dll (metal_list_del h n) l (remove1 n xs)"
    using assms by (rule metal_lists.del_rep)
  have "distinct (l # xs)" using assms(1) by (rule metal_lists.rep_distinct)
  with assms(2) have "n \<noteq> l" "n \<notin> set (remove1 n xs)" by auto
  with d metal_lists.find_rep [OF d, of n] show ?thesis by simp
qed

theorem metal_list_del_unlinks_witness:
  "dll (metal_list_del (metal_list_add_tail (metal_list_init (\<lambda>_. \<lparr>ml_next = 0, ml_prev = 0\<rparr>) 1) 1 2) 2) 1 (remove1 2 [2])
    \<and> metal_list_find_node (metal_list_del (metal_list_add_tail (metal_list_init (\<lambda>_. \<lparr>ml_next = 0, ml_prev = 0\<rparr>) 1) 1 2) 2) 1 2 = Some False"
  by (rule metal_list_del_unlinks)
    (use add_tail_dll [OF init_dll, of 1 2 "\<lambda>_. \<lparr>ml_next = 0, ml_prev = 0\<rparr>"] in simp_all)

end
