(* ===== verification/Metal_Io.thy ===== *)
theory Metal_Io
  imports Metal_Util
begin

unbundle bit_operations_syntax

text \<open>
  \<^verbatim>\<open>src/openamp/libmetal/lib/io.h\<close> and \<^verbatim>\<open>io.c\<close>: I/O regions, the translations between
  offsets, virtual and physical addresses, and the block copies. The region's operation table
  holds code of the platform: each entry is an optional function of the model, and the close operation its address. Block lengths are
  C \<open>int\<close>s that every caller passes non-negative, so they are naturals here.
\<close>

section \<open>Regions and address translation\<close>

abbreviation (input) METAL_BAD_OFFSET :: u64 where "METAL_BAD_OFFSET \<equiv> - 1"
abbreviation (input) METAL_BAD_PHYS :: u64 where "METAL_BAD_PHYS \<equiv> - 1"
abbreviation (input) METAL_BAD_VA :: addr where "METAL_BAD_VA \<equiv> - 1"

abbreviation (input) ERANGE :: int where "ERANGE \<equiv> 34"

record metal_io_ops =
  io_read :: "(mem \<Rightarrow> u64 \<Rightarrow> nat \<Rightarrow> u64) option"
  io_write :: "(mem \<Rightarrow> u64 \<Rightarrow> u64 \<Rightarrow> nat \<Rightarrow> mem) option"
  io_block_read :: "(mem \<Rightarrow> u64 \<Rightarrow> addr \<Rightarrow> nat \<Rightarrow> int \<times> mem) option"
  io_block_write :: "(mem \<Rightarrow> u64 \<Rightarrow> addr \<Rightarrow> nat \<Rightarrow> int \<times> mem) option"
  io_block_set :: "(mem \<Rightarrow> u64 \<Rightarrow> u8 \<Rightarrow> nat \<Rightarrow> mem) option"
  io_close :: addr
  io_offset_to_phys :: "(u64 \<Rightarrow> u64) option"
  io_phys_to_offset :: "(u64 \<Rightarrow> u64) option"

record metal_io_region =
  io_virt :: addr
  io_physmap :: "u64 list option"
  io_size :: u64
  io_page_shift :: u64
  io_page_mask :: u64
  io_mem_flags :: u32
  io_ops :: metal_io_ops

definition no_ops :: metal_io_ops where
  "no_ops = \<lparr>io_read = None, io_write = None, io_block_read = None, io_block_write = None, io_block_set = None,
     io_close = NULL, io_offset_to_phys = None, io_phys_to_offset = None\<rparr>"

text \<open>\<open>metal_sys_io_mem_map\<close>, the system's mapping hook that ends \<open>metal_io_init\<close>, is a parameter.\<close>

definition metal_io_init ::
  "(metal_io_region \<Rightarrow> metal_io_region) \<Rightarrow> addr \<Rightarrow> u64 list option \<Rightarrow> u64 \<Rightarrow> u32 \<Rightarrow> u32 \<Rightarrow>
   metal_io_ops option \<Rightarrow> metal_io_region" where
  "metal_io_init mem_map virt physmap sz page_shift mem_flags ops =
     mem_map \<lparr>io_virt = virt, io_physmap = physmap, io_size = sz,
       io_page_shift = ucast page_shift,
       io_page_mask = (if 64 \<le> page_shift then - 1 else push_bit (unat page_shift) 1 - 1),
       io_mem_flags = mem_flags,
       io_ops = (case ops of None \<Rightarrow> no_ops | Some p \<Rightarrow> p)\<rparr>"

text \<open>
  The close operation is a function address; \<open>call\<close> stands for the call, on the state it works on. The region is
  all zero afterwards.
\<close>

definition metal_io_finish ::
  "(addr \<Rightarrow> metal_io_region \<Rightarrow> 's \<Rightarrow> 's option) \<Rightarrow> metal_io_region \<Rightarrow> 's \<Rightarrow> (metal_io_region \<times> 's) option" where
  "metal_io_finish call io s = do {
     s1 \<leftarrow> (if io_close (io_ops io) \<noteq> NULL then call (io_close (io_ops io)) io s else Some s);
     Some (\<lparr>io_virt = NULL, io_physmap = None, io_size = 0, io_page_shift = 0, io_page_mask = 0, io_mem_flags = 0,
       io_ops = no_ops\<rparr>, s1)
   }"

definition metal_io_region_size :: "metal_io_region \<Rightarrow> u64" where
  "metal_io_region_size io = io_size io"

definition metal_io_virt :: "metal_io_region \<Rightarrow> u64 \<Rightarrow> addr" where
  "metal_io_virt io offset =
     (if io_virt io \<noteq> METAL_BAD_VA \<and> offset < io_size io then io_virt io + offset else NULL)"

definition metal_io_virt_to_offset :: "metal_io_region \<Rightarrow> addr \<Rightarrow> u64" where
  "metal_io_virt_to_offset io virt =
     (let offset = virt - io_virt io in if offset < io_size io then offset else METAL_BAD_OFFSET)"

definition metal_io_phys :: "metal_io_region \<Rightarrow> u64 \<Rightarrow> u64 option" where
  "metal_io_phys io offset =
     (case io_offset_to_phys (io_ops io) of
        Some f \<Rightarrow> Some (f offset)
      | None \<Rightarrow>
         (let page = (if 64 \<le> io_page_shift io then 0 else drop_bit (unat (io_page_shift io)) offset) in
          case io_physmap io of
            None \<Rightarrow> Some METAL_BAD_PHYS
          | Some physmap \<Rightarrow>
              if offset < io_size io then do {
                p \<leftarrow> arr_get physmap (unat page);
                Some (p + (offset AND io_page_mask io))
              }
              else Some METAL_BAD_PHYS))"

text \<open>The page walk of \<open>metal_io_phys_to_offset\<close>; \<open>None\<close> also when it never stops.\<close>

partial_function (option) phys_walk :: "metal_io_region \<Rightarrow> u64 \<Rightarrow> u64 \<Rightarrow> u64 option" where
  "phys_walk io phys offset =
     Option.bind (metal_io_phys io offset) (\<lambda>p.
       if p = phys then Some offset
       else let offset = offset + (io_page_mask io + 1) in
         if offset < io_size io then phys_walk io phys offset else Some METAL_BAD_OFFSET)"

definition metal_io_phys_to_offset :: "metal_io_region \<Rightarrow> u64 \<Rightarrow> u64 option" where
  "metal_io_phys_to_offset io phys =
     (case io_phys_to_offset (io_ops io) of
        Some f \<Rightarrow> Some (f phys)
      | None \<Rightarrow> do {
          offset \<leftarrow> (if io_page_mask io = - 1
             then do {
               physmap \<leftarrow> io_physmap io;
               p \<leftarrow> arr_get physmap 0;
               Some (phys - p)
             }
             else Some (phys AND io_page_mask io));
          phys_walk io phys offset
        })"

definition metal_io_phys_to_virt :: "metal_io_region \<Rightarrow> u64 \<Rightarrow> addr option" where
  "metal_io_phys_to_virt io phys = do {
     offset \<leftarrow> metal_io_phys_to_offset io phys;
     Some (metal_io_virt io offset)
   }"

definition metal_io_virt_to_phys :: "metal_io_region \<Rightarrow> addr \<Rightarrow> u64 option" where
  "metal_io_virt_to_phys io virt = metal_io_phys io (metal_io_virt_to_offset io virt)"

section \<open>Single accesses\<close>

text \<open>Atomic loads and stores of 1, 2, 4 or 8 bytes; any other width, or an offset outside the
  region, ends in \<open>metal_assert(0)\<close>.\<close>

fun of_le :: "u8 list \<Rightarrow> u64" where
  "of_le [] = 0"
| "of_le (b # bs) = ucast b OR push_bit 8 (of_le bs)"

fun to_le :: "nat \<Rightarrow> u64 \<Rightarrow> u8 list" where
  "to_le 0 v = []"
| "to_le (Suc n) v = ucast v # to_le n (drop_bit 8 v)"

definition metal_io_read :: "mem \<Rightarrow> metal_io_region \<Rightarrow> u64 \<Rightarrow> nat \<Rightarrow> u64 option" where
  "metal_io_read m io offset width =
     (let ptr = metal_io_virt io offset in
      case io_read (io_ops io) of
        Some f \<Rightarrow> Some (f m offset width)
      | None \<Rightarrow> if ptr \<noteq> NULL \<and> width \<in> {1, 2, 4, 8} then Some (of_le (mem_read m ptr width)) else None)"

definition metal_io_write :: "mem \<Rightarrow> metal_io_region \<Rightarrow> u64 \<Rightarrow> u64 \<Rightarrow> nat \<Rightarrow> mem option" where
  "metal_io_write m io offset v width =
     (let ptr = metal_io_virt io offset in
      case io_write (io_ops io) of
        Some f \<Rightarrow> Some (f m offset v width)
      | None \<Rightarrow> if ptr \<noteq> NULL \<and> width \<in> {1, 2, 4, 8} then Some (mem_write m ptr (to_le width v)) else None)"

definition metal_io_read8 :: "mem \<Rightarrow> metal_io_region \<Rightarrow> u64 \<Rightarrow> u8 option" where
  "metal_io_read8 m io ofs = map_option ucast (metal_io_read m io ofs 1)"

definition metal_io_write8 :: "mem \<Rightarrow> metal_io_region \<Rightarrow> u64 \<Rightarrow> u8 \<Rightarrow> mem option" where
  "metal_io_write8 m io ofs v = metal_io_write m io ofs (ucast v) 1"

definition metal_io_read32 :: "mem \<Rightarrow> metal_io_region \<Rightarrow> u64 \<Rightarrow> u32 option" where
  "metal_io_read32 m io ofs = map_option ucast (metal_io_read m io ofs 4)"

definition metal_io_write32 :: "mem \<Rightarrow> metal_io_region \<Rightarrow> u64 \<Rightarrow> u32 \<Rightarrow> mem option" where
  "metal_io_write32 m io ofs v = metal_io_write m io ofs (ucast v) 4"

section \<open>Block copies\<close>

text \<open>
  The three loops of a copy: bytes until both pointers are aligned to \<open>int\<close>, then whole
  \<open>int\<close>s, then the remaining bytes. Source and destination are addresses of the same memory.
\<close>

fun copy_unaligned :: "mem \<Rightarrow> addr \<Rightarrow> addr \<Rightarrow> nat \<Rightarrow> mem \<times> addr \<times> addr \<times> nat" where
  "copy_unaligned m dst src 0 = (m, dst, src, 0)"
| "copy_unaligned m dst src (Suc len) =
     (if dst mod 4 \<noteq> 0 \<or> src mod 4 \<noteq> 0
      then copy_unaligned (m(dst := m src)) (dst + 1) (src + 1) len
      else (m, dst, src, Suc len))"

fun copy_ints :: "mem \<Rightarrow> addr \<Rightarrow> addr \<Rightarrow> nat \<Rightarrow> mem \<times> addr \<times> addr \<times> nat" where
  "copy_ints m dst src len =
     (if 4 \<le> len
      then copy_ints (store32 m dst (load32 m src)) (dst + 4) (src + 4) (len - 4)
      else (m, dst, src, len))"

declare copy_ints.simps [simp del]

fun copy_bytes :: "mem \<Rightarrow> addr \<Rightarrow> addr \<Rightarrow> nat \<Rightarrow> mem" where
  "copy_bytes m dst src 0 = m"
| "copy_bytes m dst src (Suc len) = copy_bytes (m(dst := m src)) (dst + 1) (src + 1) len"

definition copy_block :: "mem \<Rightarrow> addr \<Rightarrow> addr \<Rightarrow> nat \<Rightarrow> mem" where
  "copy_block m dst src len =
     (let (m, dst, src, len) = copy_unaligned m dst src len;
          (m, dst, src, len) = copy_ints m dst src len
      in copy_bytes m dst src len)"

text \<open>How much of \<open>[offset, offset + len)\<close> lies in the region.\<close>

definition clip_len :: "metal_io_region \<Rightarrow> u64 \<Rightarrow> nat \<Rightarrow> nat" where
  "clip_len io offset len =
     (if io_size io < offset + of_nat len then unat (io_size io - offset) else len)"

definition metal_io_block_read :: "mem \<Rightarrow> metal_io_region \<Rightarrow> u64 \<Rightarrow> addr \<Rightarrow> nat \<Rightarrow> int \<times> mem" where
  "metal_io_block_read m io offset dst len =
     (let ptr = metal_io_virt io offset in
      if ptr = NULL then (- ERANGE, m)
      else
        let len = clip_len io offset len in
        case io_block_read (io_ops io) of
          Some f \<Rightarrow> f m offset dst len
        | None \<Rightarrow> (int len, copy_block m dst ptr len))"

definition metal_io_block_write :: "mem \<Rightarrow> metal_io_region \<Rightarrow> u64 \<Rightarrow> addr \<Rightarrow> nat \<Rightarrow> int \<times> mem" where
  "metal_io_block_write m io offset src len =
     (let ptr = metal_io_virt io offset in
      if ptr = NULL then (- ERANGE, m)
      else
        let len = clip_len io offset len in
        case io_block_write (io_ops io) of
          Some f \<Rightarrow> f m offset src len
        | None \<Rightarrow> (int len, copy_block m ptr src len))"

section \<open>Block copies with local objects\<close>

text \<open>
  \<open>metal_io_block_write\<close> from a local object of the caller: a copy of its bytes. A region with a copy
  hook of its own would hand the hook the address of the local object, which has none here: there
  the model stops.
\<close>

definition io_put :: "mem \<Rightarrow> metal_io_region \<Rightarrow> u64 \<Rightarrow> u8 list \<Rightarrow> (int \<times> mem) option" where
  "io_put m io offset bs =
     (if metal_io_virt io offset = NULL then Some (- ERANGE, m)
      else do {
        require (io_block_write (io_ops io) = None);
        let n = clip_len io offset (length bs);
        Some (int n, mem_write m (metal_io_virt io offset) (take n bs))
      })"

text \<open>\<open>metal_io_block_read\<close> into a local array, which holds \<open>junk\<close> where nothing is copied.\<close>

definition io_get :: "mem \<Rightarrow> metal_io_region \<Rightarrow> u64 \<Rightarrow> u8 list \<Rightarrow> nat \<Rightarrow> u8 list option" where
  "io_get m io offset junk len =
     (if metal_io_virt io offset = NULL then Some junk
      else do {
        require (io_block_read (io_ops io) = None);
        let n = clip_len io offset len;
        Some (mem_read m (metal_io_virt io offset) n @ drop n junk)
      })"

fun set_unaligned :: "mem \<Rightarrow> addr \<Rightarrow> u8 \<Rightarrow> nat \<Rightarrow> mem \<times> addr \<times> nat" where
  "set_unaligned m ptr v 0 = (m, ptr, 0)"
| "set_unaligned m ptr v (Suc len) =
     (if ptr mod 4 \<noteq> 0 then set_unaligned (m(ptr := v)) (ptr + 1) v len else (m, ptr, Suc len))"

fun set_ints :: "mem \<Rightarrow> addr \<Rightarrow> u32 \<Rightarrow> nat \<Rightarrow> mem \<times> addr \<times> nat" where
  "set_ints m ptr cint len =
     (if 4 \<le> len then set_ints (store32 m ptr cint) (ptr + 4) cint (len - 4) else (m, ptr, len))"

declare set_ints.simps [simp del]

fun set_bytes :: "mem \<Rightarrow> addr \<Rightarrow> u8 \<Rightarrow> nat \<Rightarrow> mem" where
  "set_bytes m ptr v 0 = m"
| "set_bytes m ptr v (Suc len) = set_bytes (m(ptr := v)) (ptr + 1) v len"

definition spread_byte :: "u8 \<Rightarrow> u32" where
  "spread_byte v =
     (ucast v OR push_bit 8 (ucast v)) OR push_bit 16 (ucast v) OR push_bit 24 (ucast v)"

definition metal_io_block_set :: "mem \<Rightarrow> metal_io_region \<Rightarrow> u64 \<Rightarrow> u8 \<Rightarrow> nat \<Rightarrow> int \<times> mem" where
  "metal_io_block_set m io offset v len =
     (let ptr = metal_io_virt io offset in
      if ptr = NULL then (- ERANGE, m)
      else
        let len = clip_len io offset len in
        case io_block_set (io_ops io) of
          Some f \<Rightarrow> (int len, f m offset v len)
        | None \<Rightarrow>
            (let (m1, ptr1, len1) = set_unaligned m ptr v len;
                 (m2, ptr2, len2) = set_ints m1 ptr1 (spread_byte v) len1
             in (int len, set_bytes m2 ptr2 v len2)))"

section \<open>Translations are inverse to each other\<close>

lemma virt_to_offset_virt:
  "offset < io_size io \<Longrightarrow> io_virt io \<noteq> METAL_BAD_VA \<Longrightarrow>
   metal_io_virt_to_offset io (metal_io_virt io offset) = offset"
  by (simp add: metal_io_virt_to_offset_def metal_io_virt_def)

lemma virt_offset_inverse:
  "metal_io_virt_to_offset io v \<noteq> METAL_BAD_OFFSET \<Longrightarrow> io_virt io \<noteq> METAL_BAD_VA \<Longrightarrow>
   metal_io_virt io (metal_io_virt_to_offset io v) = v"
  by (auto simp: metal_io_virt_to_offset_def metal_io_virt_def Let_def split: if_splits)

text \<open>A region mapped as one page, as \<open>page_shift = -1\<close> gives it.\<close>

definition single_page :: "metal_io_region \<Rightarrow> u64 \<Rightarrow> bool" where
  "single_page io base = (io_offset_to_phys (io_ops io) = None \<and> io_phys_to_offset (io_ops io) = None
     \<and> io_page_mask io = - 1 \<and> 64 \<le> io_page_shift io \<and> (\<exists>ps. io_physmap io = Some (base # ps)))"

lemma single_page_phys:
  "single_page io base \<Longrightarrow> offset < io_size io \<Longrightarrow> metal_io_phys io offset = Some (base + offset)"
  by (auto simp: single_page_def metal_io_phys_def arr_get_def)

lemma single_page_phys_to_offset:
  assumes "single_page io base" "offset < io_size io"
  shows "metal_io_phys_to_offset io (base + offset) = Some offset"
proof -
  have "phys_walk io (base + offset) offset = Some offset"
    by (subst phys_walk.simps) (simp add: single_page_phys [OF assms])
  with assms(1) show ?thesis
    by (auto simp: metal_io_phys_to_offset_def single_page_def arr_get_def)
qed

section \<open>The block copies against \<open>memcpy\<close>\<close>

definition no_overlap :: "addr \<Rightarrow> addr \<Rightarrow> nat \<Rightarrow> bool" where
  "no_overlap dst src n = (\<forall>i < n. \<forall>j < n. dst + of_nat i \<noteq> src + of_nat j)"

definition cp :: "mem \<Rightarrow> addr \<Rightarrow> addr \<Rightarrow> nat \<Rightarrow> mem" where
  "cp m dst src n = mem_write m dst (mem_read m src n)"

lemma mem_write_other:
  "(\<forall>i < length bs. x \<noteq> a + of_nat i) \<Longrightarrow> mem_write m a bs x = m x"
proof (induction bs arbitrary: m a)
  case Nil
  then show ?case by simp
next
  case (Cons b bs)
  have "x \<noteq> a" using Cons.prems by auto
  moreover have "\<forall>i < length bs. x \<noteq> a + 1 + of_nat i"
    using Cons.prems by (auto simp: algebra_simps dest: spec [where x = "Suc _"])
  ultimately show ?case using Cons.IH by simp
qed

lemma no_overlap_tail:
  assumes "no_overlap dst src (k + n)"
  shows "no_overlap (dst + of_nat k) (src + of_nat k) n"
proof -
  have "dst + of_nat k + of_nat i \<noteq> src + of_nat k + of_nat j" if "i < n" "j < n" for i j
  proof -
    have "dst + of_nat (k + i) \<noteq> src + of_nat (k + j)"
      using assms that unfolding no_overlap_def by (metis nat_add_left_cancel_less)
    then show ?thesis by (simp add: algebra_simps)
  qed
  then show ?thesis by (simp add: no_overlap_def)
qed

lemma cp_split:
  assumes "no_overlap dst src (k + n)"
  shows "cp m dst src (k + n) = cp (cp m dst src k) (dst + of_nat k) (src + of_nat k) n"
proof -
  have "mem_read (cp m dst src k) (src + of_nat k) n = mem_read m (src + of_nat k) n"
  proof (rule mem_read_cong)
    fix i assume i: "i < n"
    have "\<forall>j < k. src + of_nat k + of_nat i \<noteq> dst + of_nat j"
    proof (intro allI impI)
      fix j assume "j < k"
      then have "dst + of_nat j \<noteq> src + of_nat (k + i)"
        using assms i unfolding no_overlap_def by (metis nat_add_left_cancel_less trans_less_add1)
      then show "src + of_nat k + of_nat i \<noteq> dst + of_nat j" by (auto simp: algebra_simps)
    qed
    then show "cp m dst src k (src + of_nat k + of_nat i) = m (src + of_nat k + of_nat i)"
      by (simp add: cp_def mem_write_other)
  qed
  then show ?thesis by (simp add: cp_def mem_read_append mem_write_append)
qed

lemma cp_Suc: "no_overlap dst src (Suc n) \<Longrightarrow>
   cp m dst src (Suc n) = cp (m(dst := m src)) (dst + 1) (src + 1) n"
  using cp_split [of dst src 1 n m] by (simp add: cp_def)

lemma bit_u8_high: "\<not> bit (a :: u8) (8 + n)" "\<not> bit (a :: u8) (16 + n)" "\<not> bit (a :: u8) (24 + n)"
  using bit_imp_le_length [of a] by fastforce+

lemma le32_of_le32: "length bs = 4 \<Longrightarrow> le32 (of_le32 bs) = bs"
proof -
  assume "length bs = 4"
  then obtain a b c d where bs: "bs = [a, b, c, d]"
    by (auto simp: numeral_eq_Suc length_Suc_conv)
  show ?thesis
    unfolding bs le32_def of_le32_def
    by (auto intro!: bit_word_eqI simp: bit_simps bit_u8_high)
qed

lemma copy_int_eq: "store32 m dst (load32 m src) = cp m dst src 4"
  by (simp add: store32_def load32_def cp_def le32_of_le32)

lemma copy_unaligned_eq:
  "no_overlap dst src n \<Longrightarrow> \<exists>k \<le> n. copy_unaligned m dst src n
     = (cp m dst src k, dst + of_nat k, src + of_nat k, n - k)"
proof (induction n arbitrary: m dst src)
  case 0
  then show ?case by (simp add: cp_def)
next
  case (Suc n)
  show ?case
  proof (cases "dst mod 4 \<noteq> 0 \<or> src mod 4 \<noteq> 0")
    case True
    have "no_overlap (dst + 1) (src + 1) n"
      using no_overlap_tail [of dst src 1 n] Suc.prems by simp
    from Suc.IH [OF this, of "m(dst := m src)"] obtain k where k: "k \<le> n"
      "copy_unaligned (m(dst := m src)) (dst + 1) (src + 1) n
       = (cp (m(dst := m src)) (dst + 1) (src + 1) k, dst + 1 + of_nat k, src + 1 + of_nat k, n - k)"
      by blast
    have "no_overlap dst src (Suc k)"
      using Suc.prems k(1) by (simp add: no_overlap_def)
    from cp_Suc [OF this, of m] k True show ?thesis
      by (intro exI [of _ "Suc k"]) (simp add: algebra_simps)
  next
    case False
    then show ?thesis by (intro exI [of _ 0]) (simp add: cp_def)
  qed
qed

lemma copy_ints_eq:
  "no_overlap dst src n \<Longrightarrow> \<exists>k \<le> n. copy_ints m dst src n
     = (cp m dst src k, dst + of_nat k, src + of_nat k, n - k)"
proof (induction n arbitrary: m dst src rule: less_induct)
  case (less n)
  show ?case
  proof (cases "4 \<le> n")
    case True
    have n: "n = 4 + (n - 4)" using True by simp
    have no: "no_overlap (dst + 4) (src + 4) (n - 4)"
      using no_overlap_tail [of dst src 4 "n - 4"] less.prems True by simp
    from less.IH [OF _ no, of "cp m dst src 4"] True obtain k where k: "k \<le> n - 4"
      "copy_ints (cp m dst src 4) (dst + 4) (src + 4) (n - 4)
       = (cp (cp m dst src 4) (dst + 4) (src + 4) k, dst + 4 + of_nat k, src + 4 + of_nat k, n - 4 - k)"
      by auto
    have "no_overlap dst src (4 + k)"
      using less.prems k(1) True by (simp add: no_overlap_def)
    from cp_split [OF this, of m] k True show ?thesis
      by (subst copy_ints.simps) (auto intro!: exI [of _ "4 + k"] simp: copy_int_eq algebra_simps)
  next
    case False
    then show ?thesis
      by (subst copy_ints.simps) (auto intro!: exI [of _ 0] simp: cp_def)
  qed
qed

lemma copy_bytes_eq: "no_overlap dst src n \<Longrightarrow> copy_bytes m dst src n = cp m dst src n"
proof (induction n arbitrary: m dst src)
  case 0
  then show ?case by (simp add: cp_def)
next
  case (Suc n)
  have "no_overlap (dst + 1) (src + 1) n"
    using no_overlap_tail [of dst src 1 n] Suc.prems by simp
  then show ?case by (simp only: copy_bytes.simps Suc.IH cp_Suc [OF Suc.prems])
qed

lemma copy_block_eq:
  assumes "no_overlap dst src n"
  shows "copy_block m dst src n = cp m dst src n"
proof -
  from copy_unaligned_eq [OF assms] obtain k where k: "k \<le> n"
    "copy_unaligned m dst src n = (cp m dst src k, dst + of_nat k, src + of_nat k, n - k)" by blast
  have no1: "no_overlap (dst + of_nat k) (src + of_nat k) (n - k)"
    using no_overlap_tail [of dst src k "n - k"] assms k(1) by simp
  let ?m = "cp m dst src k"
  from copy_ints_eq [OF no1, of ?m] obtain l where l: "l \<le> n - k"
    "copy_ints ?m (dst + of_nat k) (src + of_nat k) (n - k)
     = (cp ?m (dst + of_nat k) (src + of_nat k) l, dst + of_nat k + of_nat l,
        src + of_nat k + of_nat l, n - k - l)" by blast
  have no2: "no_overlap (dst + of_nat k + of_nat l) (src + of_nat k + of_nat l) (n - k - l)"
    using no_overlap_tail [of "dst + of_nat k" "src + of_nat k" l "n - k - l"] no1
    by (simp only: le_add_diff_inverse [OF l(1)])
  have "cp ?m (dst + of_nat k) (src + of_nat k) (n - k)
      = cp (cp ?m (dst + of_nat k) (src + of_nat k) l) (dst + of_nat k + of_nat l)
          (src + of_nat k + of_nat l) (n - k - l)"
    using cp_split [of "dst + of_nat k" "src + of_nat k" l "n - k - l" ?m] no1
    by (simp only: le_add_diff_inverse [OF l(1)])
  moreover have "cp m dst src n = cp ?m (dst + of_nat k) (src + of_nat k) (n - k)"
    using cp_split [of dst src k "n - k" m] assms k(1) by simp
  ultimately show ?thesis
    using k(2) l(2) copy_bytes_eq [OF no2] by (simp add: copy_block_def)
qed

section \<open>The block fill against \<open>memset\<close>\<close>

lemma store32_spread: "store32 m p (spread_byte v) = mem_write m p (replicate 4 v)"
proof -
  have "spread_byte v = of_le32 [v, v, v, v]"
    by (simp add: spread_byte_def of_le32_def or.assoc)
  then have "le32 (spread_byte v) = [v, v, v, v]"
    using le32_of_le32 [of "[v, v, v, v]"] by simp
  then show ?thesis by (simp add: store32_def numeral_eq_Suc)
qed

lemma fill_split:
  "mem_write m p (replicate (k + n) v)
   = mem_write (mem_write m p (replicate k v)) (p + of_nat k) (replicate n v)"
  by (simp add: replicate_add mem_write_append)

lemma set_unaligned_eq:
  "\<exists>k \<le> n. set_unaligned m p v n = (mem_write m p (replicate k v), p + of_nat k, n - k)"
proof (induction n arbitrary: m p)
  case 0
  then show ?case by simp
next
  case (Suc n)
  show ?case
  proof (cases "p mod 4 \<noteq> 0")
    case True
    from Suc.IH [of "m(p := v)" "p + 1"] obtain k where
      "k \<le> n" "set_unaligned (m(p := v)) (p + 1) v n
        = (mem_write (m(p := v)) (p + 1) (replicate k v), p + 1 + of_nat k, n - k)" by blast
    with True show ?thesis by (intro exI [of _ "Suc k"]) (simp add: algebra_simps)
  next
    case False
    then show ?thesis by (intro exI [of _ 0]) simp
  qed
qed

lemma set_ints_eq:
  "\<exists>k \<le> n. set_ints m p (spread_byte v) n = (mem_write m p (replicate k v), p + of_nat k, n - k)"
proof (induction n arbitrary: m p rule: less_induct)
  case (less n)
  show ?case
  proof (cases "4 \<le> n")
    case True
    from less.IH [of "n - 4" "mem_write m p (replicate 4 v)" "p + 4"] True obtain k where
      k: "k \<le> n - 4" "set_ints (mem_write m p (replicate 4 v)) (p + 4) (spread_byte v) (n - 4)
        = (mem_write (mem_write m p (replicate 4 v)) (p + 4) (replicate k v),
           p + 4 + of_nat k, n - 4 - k)" by auto
    have "mem_write m p (replicate (4 + k) v)
        = mem_write (mem_write m p (replicate 4 v)) (p + 4) (replicate k v)"
      using fill_split [of m p 4 k v] by simp
    with k True show ?thesis
      by (subst set_ints.simps)
        (auto intro!: exI [of _ "4 + k"] simp: store32_spread algebra_simps)
  next
    case False
    then show ?thesis by (subst set_ints.simps) (auto intro!: exI [of _ 0])
  qed
qed

lemma set_bytes_eq: "set_bytes m p v n = mem_write m p (replicate n v)"
  by (induction n arbitrary: m p) simp_all

lemma block_set_eq:
  assumes "metal_io_virt io offset \<noteq> NULL" "io_block_set (io_ops io) = None"
  shows "metal_io_block_set m io offset v len =
    (int (clip_len io offset len),
     mem_write m (io_virt io + offset) (replicate (clip_len io offset len) v))"
proof -
  let ?p = "io_virt io + offset" and ?n = "clip_len io offset len"
  have ptr: "metal_io_virt io offset = ?p"
    using assms(1) by (auto simp: metal_io_virt_def split: if_splits)
  obtain k where k: "k \<le> ?n"
    "set_unaligned m ?p v ?n = (mem_write m ?p (replicate k v), ?p + of_nat k, ?n - k)"
    using set_unaligned_eq by blast
  let ?m = "mem_write m ?p (replicate k v)"
  obtain l where l: "l \<le> ?n - k" "set_ints ?m (?p + of_nat k) (spread_byte v) (?n - k)
      = (mem_write ?m (?p + of_nat k) (replicate l v), ?p + of_nat k + of_nat l, ?n - k - l)"
    using set_ints_eq by blast
  have "mem_write m ?p (replicate ?n v) = mem_write ?m (?p + of_nat k) (replicate (?n - k) v)"
    using fill_split [of m ?p k "?n - k" v] k(1) by simp
  also have "\<dots> = mem_write (mem_write ?m (?p + of_nat k) (replicate l v))
      (?p + of_nat k + of_nat l) (replicate (?n - k - l) v)"
    using fill_split [of ?m "?p + of_nat k" l "?n - k - l" v]
    by (simp only: le_add_diff_inverse [OF l(1)])
  finally show ?thesis
    using assms ptr k(2) l(2) by (simp add: metal_io_block_set_def Let_def set_bytes_eq)
qed

text \<open>Inside the region nothing is clipped; past its end exactly the part in the region is left.\<close>

lemma clip_len_inside:
  assumes "offset < io_size io" "unat offset + len \<le> unat (io_size io)"
  shows "clip_len io offset len = len"
proof -
  have "unat offset + len < 2 ^ 64" using assms(2) unat_lt_exp [of "io_size io"] by simp
  then have "unat (offset + of_nat len) = unat offset + len"
    by (simp add: unat_word_ariths unat_of_nat)
  with assms(2) show ?thesis by (simp add: clip_len_def word_less_nat_alt)
qed

lemma clip_len_min:
  assumes "offset < io_size io" "unat offset + len < 2 ^ 64"
  shows "clip_len io offset len = min len (unat (io_size io) - unat offset)"
proof -
  have len: "len < 2 ^ 64" using assms(2) by simp
  then have "unat (offset + of_nat len) = unat offset + len"
    using assms(2) by (simp add: unat_word_ariths unat_of_nat)
  moreover have "unat (io_size io - offset) = unat (io_size io) - unat offset"
    using assms(1) by (simp add: unat_sub less_imp_le)
  ultimately show ?thesis
    using assms(1) by (auto simp: clip_len_def word_less_nat_alt min_def)
qed

section \<open>Properties\<close>

text \<open>\<open>metal_io_block_write\<close> (bytes until aligned, then words, then the remaining bytes) is a
  \<open>memcpy\<close> into the region: for every alignment of source and destination it stores exactly the
  source bytes that fit behind \<open>offset\<close> and returns their number.\<close>

theorem block_write_is_memcpy:
  assumes "metal_io_virt io offset \<noteq> NULL" "io_block_write (io_ops io) = None"
    and "unat offset + len < 2 ^ 64"
    and "no_overlap (io_virt io + offset) src len"
  shows "metal_io_block_write m io offset src len =
    (let n = min len (unat (io_size io) - unat offset)
     in (int n, mem_write m (io_virt io + offset) (mem_read m src n)))"
proof -
  have ptr: "metal_io_virt io offset = io_virt io + offset" and off: "offset < io_size io"
    using assms(1) by (auto simp: metal_io_virt_def split: if_splits)
  let ?n = "clip_len io offset len"
  have n: "?n = min len (unat (io_size io) - unat offset)"
    using off assms(3) by (rule clip_len_min)
  then have "no_overlap (io_virt io + offset) src ?n"
    using assms(4) by (simp add: no_overlap_def)
  from copy_block_eq [OF this, of m] show ?thesis
    using assms(1,2) ptr by (simp add: metal_io_block_write_def Let_def cp_def n [symmetric])
qed

definition demo_io :: metal_io_region where
  "demo_io = \<lparr>io_virt = 4096, io_physmap = Some [16384], io_size = 4096, io_page_shift = 64,
     io_page_mask = - 1, io_mem_flags = 0, io_ops = no_ops\<rparr>"

theorem block_write_is_memcpy_witness:
  "metal_io_block_write (\<lambda>a. ucast a) demo_io 2 100 3 =
    (let n = min 3 (unat (io_size demo_io) - unat (2::u64))
     in (int n, mem_write (\<lambda>a. ucast a) (io_virt demo_io + 2) (mem_read (\<lambda>a. ucast a) 100 n)))"
  by (rule block_write_is_memcpy)
    (simp_all add: demo_io_def metal_io_virt_def no_ops_def no_overlap_def numeral_3_eq_3 less_Suc_eq
      all_conj_distrib)

text \<open>\<open>metal_io_block_set\<close> fills exactly the bytes of \<open>[offset, offset + len)\<close> that lie in the
  region with the value and returns their number, whatever the alignment of the start.\<close>

theorem block_set_is_memset:
  assumes "metal_io_virt io offset \<noteq> NULL" "io_block_set (io_ops io) = None"
    and "unat offset + len < 2 ^ 64"
  shows "metal_io_block_set m io offset v len =
    (let n = min len (unat (io_size io) - unat offset)
     in (int n, mem_write m (io_virt io + offset) (replicate n v)))"
proof -
  have off: "offset < io_size io"
    using assms(1) by (auto simp: metal_io_virt_def split: if_splits)
  show ?thesis
    unfolding block_set_eq [OF assms(1,2)] clip_len_min [OF off assms(3)] Let_def ..
qed

theorem block_set_is_memset_witness:
  "metal_io_block_set (\<lambda>a. ucast a) demo_io 4093 7 5 =
    (let n = min 5 (unat (io_size demo_io) - unat (4093::u64))
     in (int n, mem_write (\<lambda>a. ucast a) (io_virt demo_io + 4093) (replicate n 7)))"
  by (rule block_set_is_memset) (simp_all add: demo_io_def metal_io_virt_def no_ops_def)

end
