(* ===== verification/Vring.thy ===== *)
theory Vring
  imports Prelude Metal_Util
begin

unbundle bit_operations_syntax

text \<open>
  \<^verbatim>\<open>src/openamp/open-amp/lib/include/openamp/virtio_ring.h\<close>: the split virtqueue. The structures
  that driver and device share in memory are one record \<open>vring_mem\<close>; \<open>vring_init\<close> and
  \<open>vring_size\<close> compute where they lie, and the layout theorem shows that the three areas do not
  meet, which is what lets the record keep them apart. \<open>vring_need_event\<close> is the test of
  \<^verbatim>\<open>VIRTIO_RING_F_EVENT_IDX\<close>.
\<close>

section \<open>The shared structures\<close>

abbreviation (input) VRING_DESC_F_NEXT :: u16 where "VRING_DESC_F_NEXT \<equiv> 1"
abbreviation (input) VRING_DESC_F_WRITE :: u16 where "VRING_DESC_F_WRITE \<equiv> 2"
abbreviation (input) VRING_DESC_F_INDIRECT :: u16 where "VRING_DESC_F_INDIRECT \<equiv> 4"
abbreviation (input) VRING_USED_F_NO_NOTIFY :: u16 where "VRING_USED_F_NO_NOTIFY \<equiv> 1"
abbreviation (input) VRING_AVAIL_F_NO_INTERRUPT :: u16 where "VRING_AVAIL_F_NO_INTERRUPT \<equiv> 1"

record vring_desc =
  d_addr :: u64
  d_len :: u32
  d_flags :: u16
  d_next :: u16

text \<open>
  The 16 bits behind \<open>ring[num]\<close> (\<open>vring_used_event\<close>, \<open>vring_avail_event\<close>) are fields of
  their own; the lists hold the \<open>num\<close> entries proper.
\<close>

record vring_avail =
  av_flags :: u16
  av_idx :: u16
  av_ring :: "u16 list"
  av_used_event :: u16

record vring_used_elem =
  ue_id :: u32
  ue_len :: u32

record vring_used =
  us_flags :: u16
  us_idx :: u16
  us_ring :: "vring_used_elem list"
  us_avail_event :: u16

record vring_mem =
  vm_desc :: "vring_desc list"
  vm_avail :: vring_avail
  vm_used :: vring_used

text \<open>\<^verbatim>\<open>struct vring\<close>, which locates them.\<close>

record vring =
  vr_num :: u32
  vr_desc :: addr
  vr_avail :: addr
  vr_used :: addr

section \<open>Layout\<close>

text \<open>
  \<open>sizeof\<close> of a descriptor, of an entry of the available ring, and of an entry of the used ring.
  \<open>vring_size\<close> keeps its running total in an \<open>int\<close>: each sum is formed in 64 bits from the
  sign-extended total and truncated again.
\<close>

abbreviation (input) sizeof_vring_desc :: u64 where "sizeof_vring_desc \<equiv> 16"
abbreviation (input) sizeof_vring_avail :: u64 where "sizeof_vring_avail \<equiv> 4"
abbreviation (input) sizeof_vring_used :: u64 where "sizeof_vring_used \<equiv> 4"
abbreviation (input) sizeof_vring_used_elem :: u64 where "sizeof_vring_used_elem \<equiv> 8"

definition vring_size :: "u32 \<Rightarrow> u64 \<Rightarrow> int" where
  "vring_size num align =
     (let size0 = (ucast (ucast num * sizeof_vring_desc) :: u32);
          size1 = (ucast ((scast size0 :: u64) + (sizeof_vring_avail + ucast num * 2 + 2)) :: u32);
          size2 = (ucast (((scast size1 :: u64) + align - 1) AND NOT (align - 1)) :: u32);
          size3 = (ucast ((scast size2 :: u64)
                     + (sizeof_vring_used + ucast num * sizeof_vring_used_elem + 2)) :: u32)
      in sint size3)"

definition vring_init :: "u32 \<Rightarrow> addr \<Rightarrow> u64 \<Rightarrow> vring" where
  "vring_init num p align =
     (let avail = p + ucast num * sizeof_vring_desc
      in \<lparr>vr_num = num, vr_desc = p, vr_avail = avail,
          vr_used = ((avail + sizeof_vring_avail + 2 * ucast num) + 2 + align - 1)
                      AND NOT (align - 1)\<rparr>)"

definition vring_need_event :: "u16 \<Rightarrow> u16 \<Rightarrow> u16 \<Rightarrow> bool" where
  "vring_need_event event_idx new_idx old = (new_idx - event_idx - 1 < new_idx - old)"

section \<open>The layout is sound\<close>

lemma scast_small:
  fixes s :: u32
  assumes "unat s < 2 ^ 31"
  shows "unat (scast s :: u64) = unat s"
proof -
  have "(scast s :: u64) = of_int (sint s)" by simp
  also have "\<dots> = of_nat (unat s)" by (simp only: sint_small [OF assms] of_int_of_nat_eq)
  finally have "unat (scast s :: u64) = unat s mod 2 ^ 64"
    by (simp only: unat_of_nat) simp
  then show ?thesis using assms by simp
qed

lemma need_event_word:
  fixes d j :: u16
  shows "(d - j - 1 < d) = (j < d)"
proof (cases "j < d")
  case True
  have "unat (j + 1) = Suc (unat j)" using True by (rule unat_plus_one_less)
  moreover have "d - j - 1 = d - (j + 1)" by simp
  moreover have "j + 1 \<le> d" using True by (simp add: word_le_nat_alt word_less_nat_alt calculation)
  ultimately show ?thesis using True by (simp add: word_less_nat_alt unat_sub word_le_nat_alt)
next
  case False
  have "d - j - 1 = - 1 - (j - d)" by simp
  moreover have "unat (- 1 - (j - d)) = 65535 - unat (j - d)"
    by (subst unat_sub) (simp_all add: unsigned_minus_1_eq_mask mask_eq_exp_minus_1)
  moreover have "unat (j - d) = unat j - unat d"
    using False by (subst unat_sub) simp_all
  ultimately have "unat (d - j - 1) = 65535 - (unat j - unat d)" by (simp only:)
  then show ?thesis using False unat_lt_u16 [of j]
    unfolding word_less_nat_alt by linarith
qed

text \<open>
  C16: the event test of \<^verbatim>\<open>VIRTIO_RING_F_EVENT_IDX\<close>: after moving the ring index from \<open>old\<close> to
  \<open>new_idx\<close>, an event is due exactly when the index \<open>event_idx\<close> that the other side asked for is one
  of the indices passed on the way, for every wrap-around of the 16-bit counters.
\<close>

theorem need_event_iff_passed:
  "vring_need_event event_idx new_idx old =
     (\<exists>i < unat (new_idx - old). event_idx = old + of_nat i)"
proof -
  define d j where "d = new_idx - old" and "j = event_idx - old"
  have "new_idx - event_idx - 1 = d - j - 1" by (simp add: d_def j_def)
  then have "vring_need_event event_idx new_idx old = (j < d)"
    by (simp add: vring_need_event_def need_event_word flip: d_def)
  also have "\<dots> = (\<exists>i < unat d. j = of_nat i)"
  proof
    assume "j < d"
    then show "\<exists>i < unat d. j = of_nat i"
      by (intro exI [of _ "unat j"]) (simp add: word_less_nat_alt)
  next
    assume "\<exists>i < unat d. j = of_nat i"
    then obtain i where i: "i < unat d" "j = of_nat i" by blast
    have "i < 2 ^ 16" using less_trans [OF i(1) unat_lt_exp] by simp
    then have "unat j = i" using i(2) by (simp add: unat_of_nat)
    then show "j < d" using i(1) by (simp add: word_less_nat_alt)
  qed
  also have "\<dots> = (\<exists>i < unat d. event_idx = old + of_nat i)"
    by (auto simp: j_def algebra_simps)
  finally show ?thesis by (simp add: d_def)
qed

definition vring_bytes :: "nat \<Rightarrow> nat \<Rightarrow> nat" where
  "vring_bytes n b = (18 * n + 6 + b - 1) div b * b + 6 + 8 * n"

lemma unat_ucast_up: "unat (ucast (x :: u32) :: u64) = unat x"
  using less_trans [OF unat_lt_u32 [of x], of "2 ^ 64"]
  by (simp add: unsigned_ucast_eq take_bit_nat_eq_self)

lemma unat_ucast_down: "unat x < 2 ^ 32 \<Longrightarrow> unat (ucast (x :: u64) :: u32) = unat x"
  by (simp add: unsigned_ucast_eq take_bit_nat_eq_self)

lemma unat_mult_small:
  fixes x y :: "'a::len word"
  assumes "unat x * unat y < 2 ^ LENGTH('a)"
  shows "unat (x * y) = unat x * unat y"
  using assms by (simp add: unat_word_ariths)

text \<open>Rounding up to an alignment, as both functions write it.\<close>

lemma unat_round_up:
  fixes x a :: u64
  assumes "unat a = 2 ^ k" and "unat x + (2 ^ k - 1) < 2 ^ 64"
  shows "unat ((x + a - 1) AND NOT (a - 1)) = (unat x + 2 ^ k - 1) div 2 ^ k * 2 ^ k"
proof -
  have a: "a = 2 ^ k" using assms(1) by (rule word_pow2_unat)
  have "unat (a - 1) = 2 ^ k - 1"
    using assms(1) by (subst unat_sub) (simp_all add: word_le_nat_alt)
  then have "unat (x + (a - 1)) = unat x + (2 ^ k - 1)"
    using assms(2) by (subst unat_add_small) simp_all
  then have "unat (x + a - 1) = unat x + 2 ^ k - 1" by (simp add: add_diff_eq)
  then show ?thesis
    using unat_clear_low_bits [of "x + a - 1" k] unfolding a by simp
qed

lemma round_up_small:
  assumes "n \<le> 2 ^ 15" and "k \<le> 20"
  shows "(18 * n + 6 + 2 ^ k - 1) div 2 ^ k * 2 ^ k + 6 + 8 * n < (2::nat) ^ 31"
proof -
  have "(18 * n + 6 + 2 ^ k - 1) div 2 ^ k * 2 ^ k < 18 * n + 6 + 2 ^ k"
    by (rule round_up_bounds) simp
  moreover have "(2::nat) ^ k \<le> 2 ^ 20" using assms(2) by (rule power_increasing) simp
  ultimately show ?thesis using assms(1) by simp
qed

lemma vring_size_eq:
  assumes "unat num \<le> 2 ^ 15" and "unat align = 2 ^ k" and "k \<le> 20"
  shows "vring_size num align = int (vring_bytes (unat num) (2 ^ k))"
proof -
  define n where "n = unat num"
  have n: "n \<le> 32768" using assms(1) by (simp add: n_def)
  have kb: "(2::nat) ^ k \<le> 2 ^ 20" using assms(3) by (rule power_increasing) simp
  note small = round_up_small [OF assms(1,3), folded n_def]
  define s0 s1 s2 s3 where
    "s0 = (ucast (ucast num * sizeof_vring_desc) :: u32)" and
    "s1 = (ucast ((scast s0 :: u64) + (sizeof_vring_avail + ucast num * 2 + 2)) :: u32)" and
    "s2 = (ucast (((scast s1 :: u64) + align - 1) AND NOT (align - 1)) :: u32)" and
    "s3 = (ucast ((scast s2 :: u64)
             + (sizeof_vring_used + ucast num * sizeof_vring_used_elem + 2)) :: u32)"
  have mults: "unat (ucast num * sizeof_vring_desc :: u64) = 16 * n"
    "unat (sizeof_vring_avail + ucast num * 2 + 2 :: u64) = 6 + 2 * n"
    "unat (sizeof_vring_used + ucast num * sizeof_vring_used_elem + 2 :: u64) = 6 + 8 * n"
    using n by (simp_all add: unat_word_ariths unat_ucast_up n_def)
  have s0: "unat s0 = 16 * n"
    unfolding s0_def using n by (simp add: unat_ucast_down mults)
  have s1: "unat s1 = 18 * n + 6"
  proof -
    have "unat ((scast s0 :: u64) + (sizeof_vring_avail + ucast num * 2 + 2)) = 18 * n + 6"
      using n by (subst unat_add_small) (simp_all only: mults, simp_all add: scast_small s0)
    then show ?thesis unfolding s1_def using n by (simp add: unat_ucast_down)
  qed
  have s2: "unat s2 = (18 * n + 6 + 2 ^ k - 1) div 2 ^ k * 2 ^ k"
  proof -
    have "unat (((scast s1 :: u64) + align - 1) AND NOT (align - 1))
        = (18 * n + 6 + 2 ^ k - 1) div 2 ^ k * 2 ^ k"
      using n kb by (subst unat_round_up [OF assms(2)]) (simp_all add: scast_small s1)
    then show ?thesis unfolding s2_def using small by (subst unat_ucast_down) simp_all
  qed
  have s3: "unat s3 = vring_bytes n (2 ^ k)"
  proof -
    have "unat ((scast s2 :: u64) + (sizeof_vring_used + ucast num * sizeof_vring_used_elem + 2))
        = vring_bytes n (2 ^ k)"
      using small by (subst unat_add_small) (simp_all only: mults, simp_all add: scast_small s2 vring_bytes_def)
    then show ?thesis
      unfolding s3_def using small by (subst unat_ucast_down) (simp_all add: vring_bytes_def)
  qed
  have "vring_size num align = sint s3"
    by (simp only: vring_size_def Let_def s3_def s2_def s1_def s0_def)
  also have "\<dots> = int (unat s3)"
    using small by (intro sint_small) (simp add: s3 vring_bytes_def)
  finally show ?thesis by (simp only: s3 n_def)
qed

lemma round_up_room:
  fixes x k l :: nat
  assumes "x \<le> y * 2 ^ k" and "y * 2 ^ k < 2 ^ (k + l)"
  shows "x + (2 ^ k - 1) < 2 ^ (k + l)"
proof -
  have "y < 2 ^ l" using assms(2) by (simp add: power_add)
  then have "Suc y * 2 ^ k \<le> 2 ^ l * 2 ^ k" by (intro mult_right_mono) simp_all
  then have "y * 2 ^ k + 2 ^ k \<le> 2 ^ (k + l)" by (simp add: power_add algebra_simps)
  moreover have "(0::nat) < 2 ^ k" by simp
  ultimately show ?thesis using assms(1) by linarith
qed

lemma round_up_shift:
  fixes p x :: nat
  assumes "2 ^ k dvd p"
  shows "(p + x + 2 ^ k - 1) div 2 ^ k * 2 ^ k = p + (x + 2 ^ k - 1) div 2 ^ k * 2 ^ k"
proof -
  obtain q where q: "p = 2 ^ k * q" using assms by (rule dvdE)
  have "p + x + 2 ^ k - 1 = x + 2 ^ k - 1 + q * 2 ^ k"
    using q by (simp add: algebra_simps Suc_le_eq)
  then have "(p + x + 2 ^ k - 1) div 2 ^ k = (x + 2 ^ k - 1) div 2 ^ k + q" by simp
  then show ?thesis by (simp add: q algebra_simps)
qed

lemma vring_init_used:
  assumes "unat num \<le> 2 ^ 15" and "unat align = 2 ^ k" and "k \<le> 20" and "2 ^ k dvd unat p"
    and "unat p + vring_bytes (unat num) (2 ^ k) < 2 ^ 64"
  shows "unat (vr_avail (vring_init num p align)) = unat p + 16 * unat num"
    and "unat (vr_used (vring_init num p align))
           = unat p + (18 * unat num + 6 + 2 ^ k - 1) div 2 ^ k * 2 ^ k"
proof -
  define n where "n = unat num"
  have n: "n \<le> 32768" using assms(1) by (simp add: n_def)
  define r where "r = (18 * n + 6 + 2 ^ k - 1) div 2 ^ k"
  have r: "18 * n + 6 \<le> r * 2 ^ k" unfolding r_def by (rule round_up_bounds) simp
  have fits: "unat p + (r * 2 ^ k + 6 + 8 * n) < 2 ^ 64"
    using assms(5) by (simp only: vring_bytes_def n_def r_def)
  obtain q where q: "unat p = 2 ^ k * q" using assms(4) by (rule dvdE)
  have room: "unat p + (18 * n + 6) + (2 ^ k - 1) < 2 ^ 64"
    using round_up_room [of "unat p + (18 * n + 6)" "q + r" k "64 - k"] r fits q assms(3)
    by (simp add: algebra_simps)
  have mults: "unat (ucast num * sizeof_vring_desc :: u64) = 16 * n"
    "unat (sizeof_vring_avail + 2 * ucast num + 2 :: u64) = 6 + 2 * n"
    using n by (simp_all add: unat_word_ariths unat_ucast_up n_def)
  have lt: "unat p + (18 * n + 6) < 2 ^ 64" using room by linarith
  have av: "unat (p + ucast num * sizeof_vring_desc) = unat p + 16 * n"
    using lt n by (subst unat_add_small) (simp_all only: mults, simp_all)
  then show "unat (vr_avail (vring_init num p align)) = unat p + 16 * unat num"
    by (simp add: vring_init_def Let_def n_def)
  have "unat (p + ucast num * sizeof_vring_desc + (sizeof_vring_avail + 2 * ucast num + 2))
      = unat p + (18 * n + 6)"
    using lt by (subst unat_add_small) (simp_all only: mults av, simp_all)
  then have us: "unat (p + ucast num * sizeof_vring_desc + sizeof_vring_avail + 2 * ucast num + 2)
      = unat p + (18 * n + 6)"
    by (simp only: add.assoc)
  have "unat (vr_used (vring_init num p align))
      = (unat p + (18 * n + 6) + 2 ^ k - 1) div 2 ^ k * 2 ^ k"
    unfolding vring_init_def Let_def vring.simps
    using room by (subst unat_round_up [OF assms(2)]) (simp_all only: us)
  also have "\<dots> = unat p + r * 2 ^ k"
    unfolding r_def by (rule round_up_shift [OF assms(4)])
  finally show "unat (vr_used (vring_init num p align))
           = unat p + (18 * unat num + 6 + 2 ^ k - 1) div 2 ^ k * 2 ^ k"
    by (simp only: n_def r_def)
qed

text \<open>
  \<open>vring_init\<close> and \<open>vring_size\<close> agree on a layout in which the descriptor table, the available
  ring with its event field and the used ring with its event field follow each other without
  meeting, the used ring is aligned, and all of it fills exactly the \<open>vring_size\<close> bytes.
\<close>

theorem vring_layout:
  assumes "unat num \<le> 2 ^ 15" and "unat align = 2 ^ k" and "k \<le> 20"
    and "2 ^ k dvd unat p" and "int (unat p) + vring_size num align < 2 ^ 64"
  shows "unat (vr_desc (vring_init num p align)) = unat p
    \<and> unat (vr_avail (vring_init num p align)) = unat p + 16 * unat num
    \<and> unat (vr_avail (vring_init num p align)) + 4 + 2 * unat num + 2
           \<le> unat (vr_used (vring_init num p align))
    \<and> 2 ^ k dvd unat (vr_used (vring_init num p align))
    \<and> int (unat (vr_used (vring_init num p align)) + 4 + 8 * unat num + 2)
           = int (unat p) + vring_size num align"
proof -
  note sz = vring_size_eq [OF assms(1-3)]
  have "int (unat p + vring_bytes (unat num) (2 ^ k)) < int (2 ^ 64)"
    using assms(5) unfolding sz by (simp only: of_nat_add of_nat_power of_nat_numeral)
  then have fits: "unat p + vring_bytes (unat num) (2 ^ k) < 2 ^ 64"
    by (simp only: of_nat_less_iff)
  note init = vring_init_used [OF assms(1-4) fits]
  have up: "18 * unat num + 6 \<le> (18 * unat num + 6 + 2 ^ k - 1) div 2 ^ k * 2 ^ k"
    by (rule round_up_bounds) simp
  have d: "vr_desc (vring_init num p align) = p" by (simp add: vring_init_def Let_def)
  have "2 ^ k dvd unat (vr_used (vring_init num p align))"
    unfolding init using assms(4) by (intro dvd_add) simp_all
  then show ?thesis
    unfolding d sz vring_bytes_def init using up by simp
qed

theorem vring_layout_witness:
  "vr_used (vring_init 256 0x1000 4096) = 0x3000 \<and> vring_size 256 4096 = 0x2806"
proof -
  have "int (unat (vr_used (vring_init 256 0x1000 4096)) + 4 + 8 * unat (256 :: u32) + 2)
           = int (unat (0x1000 :: addr)) + vring_size 256 4096"
    using vring_layout [of 256 4096 12 "0x1000"] by (simp add: vring_size_def)
  then show ?thesis
    by (simp add: vring_init_def vring_size_def)
qed

end
