(* ===== verification/Virtqueue.thy ===== *)
theory Virtqueue
  imports Vring Metal_Io
begin

unbundle bit_operations_syntax

text \<open>
  \<^verbatim>\<open>src/openamp/open-amp/lib/virtio/virtqueue.c\<close> and the inline functions of
  \<^verbatim>\<open>virtqueue.h\<close>: one side's control block of a virtqueue. Every operation takes the control
  block and the shared ring memory and returns them updated; \<open>None\<close> is an access outside an array,
  through a NULL region, or an abort of \<open>VQASSERT\<close> in a debug build. The device
  \<open>vq->vq_dev\<close> is an argument. Cache maintenance and memory fences have no effect on a
  sequentially consistent memory and do not appear.
\<close>

section \<open>Build configuration, device, control block\<close>

text \<open>
  The macros the functions are compiled under. \<^verbatim>\<open>virtio.h\<close> of this repository defines
  \<^verbatim>\<open>VIRTIO_DRIVER_ONLY\<close>, and nothing defines \<^verbatim>\<open>VQUEUE_DEBUG\<close> by default.
\<close>

record build =
  VQUEUE_DEBUG :: bool
  VIRTIO_DRIVER_SUPPORT :: bool
  VIRTIO_DEVICE_SUPPORT :: bool

definition default_build :: build where
  "default_build = \<lparr>VQUEUE_DEBUG = False, VIRTIO_DRIVER_SUPPORT = True, VIRTIO_DEVICE_SUPPORT = False\<rparr>"

abbreviation (input) VIRTIO_DEV_DRIVER :: u32 where "VIRTIO_DEV_DRIVER \<equiv> 0"
abbreviation (input) VIRTIO_DEV_DEVICE :: u32 where "VIRTIO_DEV_DEVICE \<equiv> 1"

record virtio_device_id =
  id_device :: u32
  id_vendor :: u32
  id_version :: u32

text \<open>The part of \<^verbatim>\<open>struct virtio_device\<close> that the queue code reads; the rest extends it.\<close>

record virtio_device =
  vd_notifyid :: u32
  vd_id :: virtio_device_id
  vd_features :: u64
  vd_role :: u32

definition VIRTIO_ROLE_IS_DRIVER :: "build \<Rightarrow> 'x virtio_device_scheme \<Rightarrow> bool" where
  "VIRTIO_ROLE_IS_DRIVER b vdev = (VIRTIO_DRIVER_SUPPORT b \<and> vd_role vdev = VIRTIO_DEV_DRIVER)"

definition VIRTIO_ROLE_IS_DEVICE :: "build \<Rightarrow> 'x virtio_device_scheme \<Rightarrow> bool" where
  "VIRTIO_ROLE_IS_DEVICE b vdev = (VIRTIO_DEVICE_SUPPORT b \<and> vd_role vdev = VIRTIO_DEV_DEVICE)"

abbreviation (input) ERROR_VRING_FULL :: int where "ERROR_VRING_FULL \<equiv> - 3001"
abbreviation (input) ERROR_NO_MEM :: int where "ERROR_NO_MEM \<equiv> - 3004"
abbreviation (input) ERROR_VRING_ALIGN :: int where "ERROR_VRING_ALIGN \<equiv> - 3006"
abbreviation (input) ERROR_VRING_NO_BUFF :: int where "ERROR_VRING_NO_BUFF \<equiv> - 3007"
abbreviation (input) ERROR_VQUEUE_INVLD_PARAM :: int where "ERROR_VQUEUE_INVLD_PARAM \<equiv> - 3008"
abbreviation (input) VQUEUE_SUCCESS :: int where "VQUEUE_SUCCESS \<equiv> 0"
abbreviation (input) VQ_RING_DESC_CHAIN_END :: u16 where "VQ_RING_DESC_CHAIN_END \<equiv> 32768"
abbreviation (input) VIRTIO_RING_F_EVENT_IDX :: u64 where "VIRTIO_RING_F_EVENT_IDX \<equiv> 0x20000000"

record virtqueue_buf =
  vb_buf :: addr
  vb_len :: int

record vq_desc_extra =
  dx_cookie :: addr
  dx_ndescs :: u16

record vring_alloc_info =
  ai_vaddr :: addr
  ai_align :: u32
  ai_num_descs :: u16

text \<open>\<open>callback\<close> and \<open>notify\<close> are function pointers; \<open>vq_descx\<close> has as many entries as were allocated.\<close>

record virtqueue =
  vq_name :: string
  vq_queue_index :: u16
  vq_nentries :: u16
  vq_callback :: addr
  vq_priv :: addr
  vq_notify :: addr
  vq_ring :: vring
  vq_free_cnt :: u16
  vq_queued_cnt :: u16
  vq_shm_io :: "metal_io_region option"
  vq_desc_head_idx :: u16
  vq_used_cons_idx :: u16
  vq_available_idx :: u16
  vq_inuse :: bool
  vq_descx :: "vq_desc_extra list"

section \<open>Assertions and the re-entrance check\<close>

definition VQASSERT :: "build \<Rightarrow> bool \<Rightarrow> unit option" where
  "VQASSERT b e = require (VQUEUE_DEBUG b \<longrightarrow> e)"

definition VQ_RING_ASSERT_VALID_IDX :: "build \<Rightarrow> virtqueue \<Rightarrow> u16 \<Rightarrow> unit option" where
  "VQ_RING_ASSERT_VALID_IDX b vq idx = VQASSERT b (idx < vq_nentries vq)"

definition VQ_RING_ASSERT_CHAIN_TERM :: "build \<Rightarrow> virtqueue \<Rightarrow> unit option" where
  "VQ_RING_ASSERT_CHAIN_TERM b vq = VQASSERT b (vq_desc_head_idx vq = VQ_RING_DESC_CHAIN_END)"

definition VQ_PARAM_CHK :: "build \<Rightarrow> bool \<Rightarrow> int \<Rightarrow> int \<Rightarrow> int" where
  "VQ_PARAM_CHK b condition status err =
     (if VQUEUE_DEBUG b \<and> status = 0 \<and> condition then err else status)"

definition VQUEUE_BUSY :: "build \<Rightarrow> virtqueue \<Rightarrow> virtqueue option" where
  "VQUEUE_BUSY b vq =
     (if VQUEUE_DEBUG b
      then (if vq_inuse vq then None else Some (vq\<lparr>vq_inuse := True\<rparr>))
      else Some vq)"

definition VQUEUE_IDLE :: "build \<Rightarrow> virtqueue \<Rightarrow> virtqueue" where
  "VQUEUE_IDLE b vq = (if VQUEUE_DEBUG b then vq\<lparr>vq_inuse := False\<rparr> else vq)"

section \<open>Address translation\<close>

definition virtqueue_phys_to_virt :: "virtqueue \<Rightarrow> u64 \<Rightarrow> addr option" where
  "virtqueue_phys_to_virt vq phys = do {
     io \<leftarrow> vq_shm_io vq;
     metal_io_phys_to_virt io phys
   }"

definition virtqueue_virt_to_phys :: "virtqueue \<Rightarrow> addr \<Rightarrow> u64 option" where
  "virtqueue_virt_to_phys vq buf = do {
     io \<leftarrow> vq_shm_io vq;
     metal_io_virt_to_phys io buf
   }"

definition virtqueue_set_shmem_io :: "virtqueue \<Rightarrow> metal_io_region option \<Rightarrow> virtqueue" where
  "virtqueue_set_shmem_io vq io = vq\<lparr>vq_shm_io := io\<rparr>"

section \<open>Allocation and creation\<close>

text \<open>\<open>virtqueue_allocate\<close> returns a zeroed block, or NULL when the allocator does (\<open>ok\<close>).\<close>

definition virtqueue_zero :: "nat \<Rightarrow> virtqueue" where
  "virtqueue_zero n =
     \<lparr>vq_name = [], vq_queue_index = 0, vq_nentries = 0, vq_callback = NULL, vq_priv = NULL,
      vq_notify = NULL, vq_ring = \<lparr>vr_num = 0, vr_desc = NULL, vr_avail = NULL, vr_used = NULL\<rparr>,
      vq_free_cnt = 0, vq_queued_cnt = 0, vq_shm_io = None, vq_desc_head_idx = 0,
      vq_used_cons_idx = 0, vq_available_idx = 0, vq_inuse = False,
      vq_descx = replicate n \<lparr>dx_cookie = NULL, dx_ndescs = 0\<rparr>\<rparr>"

definition virtqueue_allocate :: "bool \<Rightarrow> nat \<Rightarrow> virtqueue option" where
  "virtqueue_allocate ok num_desc_extra =
     (if ok then Some (virtqueue_zero num_desc_extra) else None)"

text \<open>\<open>for (i = 0; i < size - 1; i++) vr->desc[i].next = i + 1;\<close> with \<open>k\<close> iterations to go.\<close>

fun link_descs :: "nat \<Rightarrow> nat \<Rightarrow> vring_desc list \<Rightarrow> vring_desc list option" where
  "link_descs 0 i ds = do {
     d \<leftarrow> arr_get ds i;
     arr_set ds i (d\<lparr>d_next := VQ_RING_DESC_CHAIN_END\<rparr>)
   }"
| "link_descs (Suc k) i ds = do {
     d \<leftarrow> arr_get ds i;
     ds' \<leftarrow> arr_set ds i (d\<lparr>d_next := of_nat (i + 1)\<rparr>);
     link_descs k (i + 1) ds'
   }"

definition vq_ring_init ::
  "build \<Rightarrow> 'x virtio_device_scheme \<Rightarrow> virtqueue \<Rightarrow> vring_mem \<Rightarrow> addr \<Rightarrow> u64 \<Rightarrow>
   (virtqueue \<times> vring_mem) option" where
  "vq_ring_init b vdev vq rm ring_mem alignment = do {
     let sz = unat (vq_nentries vq);
     let vq' = vq\<lparr>vq_ring := vring_init (of_nat sz) ring_mem alignment\<rparr>;
     if VIRTIO_ROLE_IS_DRIVER b vdev then do {
       ds \<leftarrow> link_descs (sz - 1) 0 (vm_desc rm);
       Some (vq', rm\<lparr>vm_desc := ds\<rparr>)
     } else Some (vq', rm)
   }"

text \<open>The alignment goes through an \<open>int\<close> parameter and is sign-extended in \<open>vring_init\<close>.\<close>

definition virtqueue_create ::
  "build \<Rightarrow> 'x virtio_device_scheme \<Rightarrow> u16 \<Rightarrow> string \<Rightarrow> vring_alloc_info \<Rightarrow> addr \<Rightarrow> addr \<Rightarrow>
   virtqueue \<Rightarrow> vring_mem \<Rightarrow> (int \<times> virtqueue \<times> vring_mem) option" where
  "virtqueue_create b virt_dev vid name ring callback notify vq rm = do {
     let status = VQ_PARAM_CHK b (ai_num_descs ring = 0) VQUEUE_SUCCESS ERROR_VQUEUE_INVLD_PARAM;
     let status = VQ_PARAM_CHK b (ai_num_descs ring AND (ai_num_descs ring - 1) \<noteq> 0) status
                    ERROR_VRING_ALIGN;
     if status = VQUEUE_SUCCESS then do {
       let vq1 = vq\<lparr>vq_name := name, vq_queue_index := vid, vq_nentries := ai_num_descs ring,
                    vq_free_cnt := ai_num_descs ring, vq_callback := callback,
                    vq_notify := notify\<rparr>;
       (vq2, rm') \<leftarrow> vq_ring_init b virt_dev vq1 rm (ai_vaddr ring) (scast (ai_align ring));
       Some (status, vq2, rm')
     } else Some (status, vq, rm)
   }"

text \<open>\<open>virtqueue_free\<close> only logs before it releases the block: the result tells whether it warned.\<close>

definition virtqueue_free :: "virtqueue \<Rightarrow> bool" where
  "virtqueue_free vq = (vq_free_cnt vq \<noteq> vq_nentries vq)"

definition virtqueue_empty :: "virtqueue \<Rightarrow> bool" where
  "virtqueue_empty vq = (vq_nentries vq = vq_free_cnt vq)"

definition virtqueue_full :: "virtqueue \<Rightarrow> bool" where
  "virtqueue_full vq = (vq_free_cnt vq = 0)"

section \<open>The driver side\<close>

text \<open>\<open>ring[idx & (vq_nentries - 1)]\<close>: the mask is formed in \<open>int\<close>.\<close>

definition ring_slot :: "virtqueue \<Rightarrow> u16 \<Rightarrow> nat" where
  "ring_slot vq idx = unat ((ucast idx :: u32) AND (ucast (vq_nentries vq) - 1))"

definition desc_flags :: "int \<Rightarrow> int \<Rightarrow> int \<Rightarrow> u16" where
  "desc_flags i needed readable =
     (if i < needed - 1 then VRING_DESC_F_NEXT else 0) OR
     (if readable \<le> i then VRING_DESC_F_WRITE else 0)"

text \<open>The loop of \<open>vq_ring_add_buffer\<close> with \<open>k\<close> iterations left, \<open>i = needed - k\<close>.\<close>

fun add_buffer_loop ::
  "build \<Rightarrow> virtqueue \<Rightarrow> virtqueue_buf list \<Rightarrow> int \<Rightarrow> int \<Rightarrow> nat \<Rightarrow> nat \<Rightarrow> u16 \<Rightarrow> vring_desc list \<Rightarrow>
   (u16 \<times> vring_desc list) option" where
  "add_buffer_loop b vq buf_list needed readable 0 i idx ds = Some (idx, ds)"
| "add_buffer_loop b vq buf_list needed readable (Suc k) i idx ds = do {
     VQASSERT b (idx \<noteq> VQ_RING_DESC_CHAIN_END);
     dp \<leftarrow> arr_get ds (unat idx);
     bf \<leftarrow> arr_get buf_list i;
     pa \<leftarrow> virtqueue_virt_to_phys vq (vb_buf bf);
     ds' \<leftarrow> arr_set ds (unat idx) (dp\<lparr>d_addr := pa, d_len := of_int (vb_len bf),
              d_flags := desc_flags (int i) needed readable\<rparr>);
     add_buffer_loop b vq buf_list needed readable k (Suc i) (d_next dp) ds'
   }"

definition vq_ring_add_buffer ::
  "build \<Rightarrow> virtqueue \<Rightarrow> vring_mem \<Rightarrow> u16 \<Rightarrow> virtqueue_buf list \<Rightarrow> int \<Rightarrow> int \<Rightarrow>
   (u16 \<times> vring_mem) option" where
  "vq_ring_add_buffer b vq rm head_idx buf_list readable writable = do {
     let needed = readable + writable;
     (idx, ds) \<leftarrow> add_buffer_loop b vq buf_list needed readable (nat needed) 0 head_idx (vm_desc rm);
     Some (idx, rm\<lparr>vm_desc := ds\<rparr>)
   }"

definition vq_ring_update_avail ::
  "virtqueue \<Rightarrow> vring_mem \<Rightarrow> u16 \<Rightarrow> (virtqueue \<times> vring_mem) option" where
  "vq_ring_update_avail vq rm desc_idx = do {
     let av = vm_avail rm;
     ring \<leftarrow> arr_set (av_ring av) (ring_slot vq (av_idx av)) desc_idx;
     Some (vq\<lparr>vq_queued_cnt := vq_queued_cnt vq + 1\<rparr>,
           rm\<lparr>vm_avail := av\<lparr>av_ring := ring, av_idx := av_idx av + 1\<rparr>\<rparr>)
   }"

definition virtqueue_add_buffer ::
  "build \<Rightarrow> virtqueue \<Rightarrow> vring_mem \<Rightarrow> virtqueue_buf list \<Rightarrow> int \<Rightarrow> int \<Rightarrow> addr \<Rightarrow>
   (int \<times> virtqueue \<times> vring_mem) option" where
  "virtqueue_add_buffer b vq rm buf_list readable writable cookie = do {
     let needed = readable + writable;
     let status = VQ_PARAM_CHK b (needed < 1) VQUEUE_SUCCESS ERROR_VQUEUE_INVLD_PARAM;
     let status = VQ_PARAM_CHK b (int (unat (vq_free_cnt vq)) < needed) status ERROR_VRING_FULL;
     vq1 \<leftarrow> VQUEUE_BUSY b vq;
     if status = VQUEUE_SUCCESS then do {
       VQASSERT b (cookie \<noteq> NULL);
       let head_idx = vq_desc_head_idx vq1;
       VQ_RING_ASSERT_VALID_IDX b vq1 head_idx;
       dxp \<leftarrow> arr_get (vq_descx vq1) (unat head_idx);
       VQASSERT b (dx_cookie dxp = NULL);
       dx \<leftarrow> arr_set (vq_descx vq1) (unat head_idx)
              (dxp\<lparr>dx_cookie := cookie, dx_ndescs := of_int needed\<rparr>);
       let vq2 = vq1\<lparr>vq_descx := dx\<rparr>;
       (idx, rm1) \<leftarrow> vq_ring_add_buffer b vq2 rm head_idx buf_list readable writable;
       let vq3 = vq2\<lparr>vq_desc_head_idx := idx, vq_free_cnt := vq_free_cnt vq2 - of_int needed\<rparr>;
       (if vq_free_cnt vq3 = 0 then VQ_RING_ASSERT_CHAIN_TERM b vq3
        else VQ_RING_ASSERT_VALID_IDX b vq3 idx);
       (vq4, rm2) \<leftarrow> vq_ring_update_avail vq3 rm1 head_idx;
       Some (status, VQUEUE_IDLE b vq4, rm2)
     } else Some (status, VQUEUE_IDLE b vq1, rm)
   }"

text \<open>
  The walk of \<open>vq_ring_free_chain\<close> along the chain: it stops at the first descriptor without
  \<^verbatim>\<open>VRING_DESC_F_NEXT\<close> and counts \<open>ndescs\<close> down. On a cyclic chain the C loop does not end,
  which is the value \<open>None\<close> of the partial function.
\<close>

partial_function (option) free_chain_walk ::
  "build \<Rightarrow> virtqueue \<Rightarrow> vring_desc list \<Rightarrow> u16 \<Rightarrow> u16 \<Rightarrow> (u16 \<times> u16) option" where
  "free_chain_walk b vq ds idx ndescs = do {
     dp \<leftarrow> arr_get ds (unat idx);
     if d_flags dp AND VRING_DESC_F_NEXT \<noteq> 0 then do {
       VQ_RING_ASSERT_VALID_IDX b vq (d_next dp);
       free_chain_walk b vq ds (d_next dp) (ndescs - 1)
     } else Some (idx, ndescs)
   }"

definition vq_ring_free_chain ::
  "build \<Rightarrow> virtqueue \<Rightarrow> vring_mem \<Rightarrow> u16 \<Rightarrow> (virtqueue \<times> vring_mem) option" where
  "vq_ring_free_chain b vq rm desc_idx = do {
     VQ_RING_ASSERT_VALID_IDX b vq desc_idx;
     dp \<leftarrow> arr_get (vm_desc rm) (unat desc_idx);
     dxp \<leftarrow> arr_get (vq_descx vq) (unat desc_idx);
     (if vq_free_cnt vq = 0 then VQ_RING_ASSERT_CHAIN_TERM b vq else Some ());
     let free_cnt = vq_free_cnt vq + dx_ndescs dxp;
     let ndescs = dx_ndescs dxp - 1;
     (last_idx, ndescs') \<leftarrow>
       (if d_flags dp AND VRING_DESC_F_INDIRECT = 0
        then free_chain_walk b vq (vm_desc rm) desc_idx ndescs
        else Some (desc_idx, ndescs));
     VQASSERT b (ndescs' = 0);
     dlast \<leftarrow> arr_get (vm_desc rm) (unat last_idx);
     ds \<leftarrow> arr_set (vm_desc rm) (unat last_idx) (dlast\<lparr>d_next := vq_desc_head_idx vq\<rparr>);
     dx \<leftarrow> arr_set (vq_descx vq) (unat desc_idx) (dxp\<lparr>dx_ndescs := ndescs'\<rparr>);
     Some (vq\<lparr>vq_free_cnt := free_cnt, vq_desc_head_idx := desc_idx, vq_descx := dx\<rparr>,
           rm\<lparr>vm_desc := ds\<rparr>)
   }"

text \<open>
  \<open>virtqueue_get_buffer\<close> yields the cookie (NULL: nothing used), the length and the ring slot it
  stores through its out-parameters, which it leaves alone when it returns NULL.
\<close>

record used_result =
  ur_cookie :: addr
  ur_len :: u32
  ur_idx :: u16

definition virtqueue_get_buffer ::
  "build \<Rightarrow> virtqueue \<Rightarrow> vring_mem \<Rightarrow> (used_result option \<times> virtqueue \<times> vring_mem) option" where
  "virtqueue_get_buffer b vq rm =
     (if vq_used_cons_idx vq = us_idx (vm_used rm) then Some (None, vq, rm)
      else do {
        vq1 \<leftarrow> VQUEUE_BUSY b vq;
        let used_idx = ring_slot vq1 (vq_used_cons_idx vq1);
        let vq2 = vq1\<lparr>vq_used_cons_idx := vq_used_cons_idx vq1 + 1\<rparr>;
        uep \<leftarrow> arr_get (us_ring (vm_used rm)) used_idx;
        let desc_idx = (ucast (ue_id uep) :: u16);
        (vq3, rm1) \<leftarrow> vq_ring_free_chain b vq2 rm desc_idx;
        dxp \<leftarrow> arr_get (vq_descx vq3) (unat desc_idx);
        dx \<leftarrow> arr_set (vq_descx vq3) (unat desc_idx) (dxp\<lparr>dx_cookie := NULL\<rparr>);
        Some (Some \<lparr>ur_cookie = dx_cookie dxp, ur_len = ue_len uep, ur_idx = of_nat used_idx\<rparr>,
              VQUEUE_IDLE b (vq3\<lparr>vq_descx := dx\<rparr>), rm1)
      })"

definition virtqueue_get_buffer_length :: "vring_mem \<Rightarrow> u16 \<Rightarrow> u32 option" where
  "virtqueue_get_buffer_length rm idx = do {
     d \<leftarrow> arr_get (vm_desc rm) (unat idx);
     Some (d_len d)
   }"

definition virtqueue_get_buffer_addr :: "virtqueue \<Rightarrow> vring_mem \<Rightarrow> u16 \<Rightarrow> addr option" where
  "virtqueue_get_buffer_addr vq rm idx = do {
     d \<leftarrow> arr_get (vm_desc rm) (unat idx);
     virtqueue_phys_to_virt vq (d_addr d)
   }"

section \<open>The device side\<close>

record avail_result =
  ar_buffer :: addr
  ar_idx :: u16
  ar_len :: u32

definition virtqueue_get_available_buffer ::
  "build \<Rightarrow> virtqueue \<Rightarrow> vring_mem \<Rightarrow> (avail_result option \<times> virtqueue) option" where
  "virtqueue_get_available_buffer b vq rm =
     (if vq_available_idx vq = av_idx (vm_avail rm) then Some (None, vq)
      else do {
        vq1 \<leftarrow> VQUEUE_BUSY b vq;
        let head_idx = ring_slot vq1 (vq_available_idx vq1);
        let vq2 = vq1\<lparr>vq_available_idx := vq_available_idx vq1 + 1\<rparr>;
        avail_idx \<leftarrow> arr_get (av_ring (vm_avail rm)) head_idx;
        buffer \<leftarrow> virtqueue_get_buffer_addr vq2 rm avail_idx;
        len \<leftarrow> virtqueue_get_buffer_length rm avail_idx;
        Some (Some \<lparr>ar_buffer = buffer, ar_idx = avail_idx, ar_len = len\<rparr>, VQUEUE_IDLE b vq2)
      })"

definition virtqueue_add_consumed_buffer ::
  "build \<Rightarrow> virtqueue \<Rightarrow> vring_mem \<Rightarrow> u16 \<Rightarrow> u32 \<Rightarrow> (int \<times> virtqueue \<times> vring_mem) option" where
  "virtqueue_add_consumed_buffer b vq rm head_idx len =
     (if vq_nentries vq \<le> head_idx then Some (ERROR_VRING_NO_BUFF, vq, rm)
      else do {
        vq1 \<leftarrow> VQUEUE_BUSY b vq;
        let us = vm_used rm;
        ring \<leftarrow> arr_set (us_ring us) (ring_slot vq1 (us_idx us)) \<lparr>ue_id = ucast head_idx, ue_len = len\<rparr>;
        Some (VQUEUE_SUCCESS,
              VQUEUE_IDLE b (vq1\<lparr>vq_queued_cnt := vq_queued_cnt vq1 + 1\<rparr>),
              rm\<lparr>vm_used := us\<lparr>us_ring := ring, us_idx := us_idx us + 1\<rparr>\<rparr>)
      })"

text \<open>The length of the next available buffer, 0 if there is none; the queue does not advance.\<close>

definition virtqueue_get_desc_size ::
  "build \<Rightarrow> virtqueue \<Rightarrow> vring_mem \<Rightarrow> (u32 \<times> virtqueue) option" where
  "virtqueue_get_desc_size b vq rm =
     (if vq_available_idx vq = av_idx (vm_avail rm) then Some (0, vq)
      else do {
        vq1 \<leftarrow> VQUEUE_BUSY b vq;
        let head_idx = ring_slot vq1 (vq_available_idx vq1);
        avail_idx \<leftarrow> arr_get (av_ring (vm_avail rm)) head_idx;
        d \<leftarrow> arr_get (vm_desc rm) (unat avail_idx);
        Some (d_len d, VQUEUE_IDLE b vq1)
      })"

section \<open>Notification control\<close>

definition event_idx_on :: "'x virtio_device_scheme \<Rightarrow> bool" where
  "event_idx_on vdev = (vd_features vdev AND VIRTIO_RING_F_EVENT_IDX \<noteq> 0)"

definition virtqueue_nused :: "build \<Rightarrow> virtqueue \<Rightarrow> vring_mem \<Rightarrow> u16 option" where
  "virtqueue_nused b vq rm = do {
     let nused = us_idx (vm_used rm) - vq_used_cons_idx vq;
     VQASSERT b (nused \<le> vq_nentries vq);
     Some nused
   }"

definition virtqueue_navail :: "build \<Rightarrow> virtqueue \<Rightarrow> vring_mem \<Rightarrow> u16 option" where
  "virtqueue_navail b vq rm = do {
     let navail = av_idx (vm_avail rm) - vq_available_idx vq;
     VQASSERT b (navail \<le> vq_nentries vq);
     Some navail
   }"

definition set_used_event :: "u16 \<Rightarrow> vring_mem \<Rightarrow> vring_mem" where
  "set_used_event e rm = rm\<lparr>vm_avail := (vm_avail rm)\<lparr>av_used_event := e\<rparr>\<rparr>"

definition set_avail_event :: "u16 \<Rightarrow> vring_mem \<Rightarrow> vring_mem" where
  "set_avail_event e rm = rm\<lparr>vm_used := (vm_used rm)\<lparr>us_avail_event := e\<rparr>\<rparr>"

definition set_avail_flags :: "u16 \<Rightarrow> vring_mem \<Rightarrow> vring_mem" where
  "set_avail_flags f rm = rm\<lparr>vm_avail := (vm_avail rm)\<lparr>av_flags := f\<rparr>\<rparr>"

definition set_used_flags :: "u16 \<Rightarrow> vring_mem \<Rightarrow> vring_mem" where
  "set_used_flags f rm = rm\<lparr>vm_used := (vm_used rm)\<lparr>us_flags := f\<rparr>\<rparr>"

definition vq_ring_enable_interrupt ::
  "build \<Rightarrow> 'x virtio_device_scheme \<Rightarrow> virtqueue \<Rightarrow> vring_mem \<Rightarrow> u16 \<Rightarrow> (int \<times> vring_mem) option" where
  "vq_ring_enable_interrupt b vdev vq rm ndesc = do {
     let rm1 =
       (if event_idx_on vdev then
          (let rm0 = (if VIRTIO_ROLE_IS_DRIVER b vdev
                      then set_used_event (vq_used_cons_idx vq + ndesc) rm else rm)
           in (if VIRTIO_ROLE_IS_DEVICE b vdev
               then set_avail_event (vq_available_idx vq + ndesc) rm0 else rm0))
        else
          (let rm0 = (if VIRTIO_ROLE_IS_DRIVER b vdev
                      then set_avail_flags (av_flags (vm_avail rm) AND NOT VRING_AVAIL_F_NO_INTERRUPT) rm
                      else rm)
           in (if VIRTIO_ROLE_IS_DEVICE b vdev
               then set_used_flags (us_flags (vm_used rm0) AND NOT VRING_USED_F_NO_NOTIFY) rm0
               else rm0)));
     more_used \<leftarrow> (if VIRTIO_ROLE_IS_DRIVER b vdev
                  then Option.bind (virtqueue_nused b vq rm1) (\<lambda>n. Some (ndesc < n)) else Some False);
     if more_used then Some (1, rm1)
     else do {
       more_avail \<leftarrow> (if VIRTIO_ROLE_IS_DEVICE b vdev
                  then Option.bind (virtqueue_navail b vq rm1) (\<lambda>n. Some (ndesc < n)) else Some False);
       Some (if more_avail then 1 else 0, rm1)
     }
   }"

definition virtqueue_enable_cb ::
  "build \<Rightarrow> 'x virtio_device_scheme \<Rightarrow> virtqueue \<Rightarrow> vring_mem \<Rightarrow> (int \<times> vring_mem) option" where
  "virtqueue_enable_cb b vdev vq rm = vq_ring_enable_interrupt b vdev vq rm 0"

definition virtqueue_disable_cb ::
  "build \<Rightarrow> 'x virtio_device_scheme \<Rightarrow> virtqueue \<Rightarrow> vring_mem \<Rightarrow> (virtqueue \<times> vring_mem) option" where
  "virtqueue_disable_cb b vdev vq rm = do {
     vq1 \<leftarrow> VQUEUE_BUSY b vq;
     let rm1 =
       (if event_idx_on vdev then
          (let rm0 = (if VIRTIO_ROLE_IS_DRIVER b vdev
                      then set_used_event (vq_used_cons_idx vq1 - vq_nentries vq1 - 1) rm else rm)
           in (if VIRTIO_ROLE_IS_DEVICE b vdev
               then set_avail_event (vq_available_idx vq1 - vq_nentries vq1 - 1) rm0 else rm0))
        else
          (let rm0 = (if VIRTIO_ROLE_IS_DRIVER b vdev
                      then set_avail_flags (av_flags (vm_avail rm) OR VRING_AVAIL_F_NO_INTERRUPT) rm
                      else rm)
           in (if VIRTIO_ROLE_IS_DEVICE b vdev
               then set_used_flags (us_flags (vm_used rm0) OR VRING_USED_F_NO_NOTIFY) rm0
               else rm0)));
     Some (VQUEUE_IDLE b vq1, rm1)
   }"

definition vq_ring_must_notify ::
  "build \<Rightarrow> 'x virtio_device_scheme \<Rightarrow> virtqueue \<Rightarrow> vring_mem \<Rightarrow> bool" where
  "vq_ring_must_notify b vdev vq rm =
     (if event_idx_on vdev then
        (if VIRTIO_ROLE_IS_DRIVER b vdev then
           (let new_idx = av_idx (vm_avail rm); prev_idx = new_idx - vq_queued_cnt vq
            in vring_need_event (us_avail_event (vm_used rm)) new_idx prev_idx)
         else if VIRTIO_ROLE_IS_DEVICE b vdev then
           (let new_idx = us_idx (vm_used rm); prev_idx = new_idx - vq_queued_cnt vq
            in vring_need_event (av_used_event (vm_avail rm)) new_idx prev_idx)
         else False)
      else
        (if VIRTIO_ROLE_IS_DRIVER b vdev then us_flags (vm_used rm) AND VRING_USED_F_NO_NOTIFY = 0
         else if VIRTIO_ROLE_IS_DEVICE b vdev
         then av_flags (vm_avail rm) AND VRING_AVAIL_F_NO_INTERRUPT = 0
         else False))"

text \<open>Whether \<open>vq->notify\<close> is called; the callee belongs to the transport.\<close>

definition vq_ring_notify :: "virtqueue \<Rightarrow> bool" where
  "vq_ring_notify vq = (vq_notify vq \<noteq> NULL)"

definition virtqueue_kick ::
  "build \<Rightarrow> 'x virtio_device_scheme \<Rightarrow> virtqueue \<Rightarrow> vring_mem \<Rightarrow> (bool \<times> virtqueue) option" where
  "virtqueue_kick b vdev vq rm = do {
     vq1 \<leftarrow> VQUEUE_BUSY b vq;
     let called = (vq_ring_must_notify b vdev vq1 rm \<and> vq_ring_notify vq1);
     Some (called, VQUEUE_IDLE b (vq1\<lparr>vq_queued_cnt := 0\<rparr>))
   }"

text \<open>Whether \<open>vq->callback\<close> is called.\<close>

definition virtqueue_notification :: "virtqueue \<Rightarrow> bool" where
  "virtqueue_notification vq = (vq_callback vq \<noteq> NULL)"

end
