(* ===== verification/Virtqueue_Driver.thy ===== *)
theory Virtqueue_Driver
  imports Virtqueue "HOL-Library.Multiset"
begin

unbundle bit_operations_syntax

text \<open>
  The descriptor table as the driver manages it. The invariant \<open>driver_inv\<close> says that the free
  chain that starts at \<open>vq_desc_head_idx\<close> and the chains of the buffers in flight partition the
  table, that \<open>vq_free_cnt\<close> counts the free ones, and that \<open>vq_descx\<close> holds a cookie exactly for
  the heads in flight. \<open>virtqueue_create\<close> establishes it, \<open>virtqueue_add_buffer\<close> and
  \<open>virtqueue_get_buffer\<close> keep it, and under it no access is out of bounds, no walk along a chain
  runs forever and no \<open>VQASSERT\<close> fires, in any build.
\<close>

section \<open>Chains of descriptors\<close>

text \<open>The free chain: \<open>next\<close> leads from \<open>idx\<close> through the list to \<^verbatim>\<open>VQ_RING_DESC_CHAIN_END\<close>.\<close>

fun free_path :: "vring_desc list \<Rightarrow> u16 \<Rightarrow> u16 list \<Rightarrow> bool" where
  "free_path ds idx [] = (idx = VQ_RING_DESC_CHAIN_END)"
| "free_path ds idx (x # xs) =
     (idx = x \<and> unat x < length ds \<and> free_path ds (d_next (ds ! unat x)) xs)"

definition has_flag :: "vring_desc list \<Rightarrow> u16 \<Rightarrow> u16 \<Rightarrow> bool" where
  "has_flag ds x f = (d_flags (ds ! unat x) AND f \<noteq> 0)"

text \<open>A chain in flight: every descriptor but the last carries \<^verbatim>\<open>VRING_DESC_F_NEXT\<close>.\<close>

fun linked :: "vring_desc list \<Rightarrow> u16 list \<Rightarrow> bool" where
  "linked ds [] = False"
| "linked ds [x] =
     (unat x < length ds \<and> \<not> has_flag ds x VRING_DESC_F_NEXT \<and> \<not> has_flag ds x VRING_DESC_F_INDIRECT)"
| "linked ds (x # y # xs) =
     (unat x < length ds \<and> has_flag ds x VRING_DESC_F_NEXT \<and> \<not> has_flag ds x VRING_DESC_F_INDIRECT
      \<and> d_next (ds ! unat x) = y \<and> linked ds (y # xs))"

definition all_idx :: "nat \<Rightarrow> u16 list" where
  "all_idx n = map of_nat [0..<n]"

definition driver_inv :: "virtqueue \<Rightarrow> vring_desc list \<Rightarrow> u16 list \<Rightarrow> u16 list list \<Rightarrow> bool" where
  "driver_inv vq ds fs cs = (
     length ds = unat (vq_nentries vq) \<and> length (vq_descx vq) = unat (vq_nentries vq) \<and>
     unat (vq_nentries vq) \<le> 2 ^ 15 \<and> \<not> vq_inuse vq \<and>
     free_path ds (vq_desc_head_idx vq) fs \<and> unat (vq_free_cnt vq) = length fs \<and>
     (\<forall>c \<in> set cs. linked ds c \<and> unat (dx_ndescs (vq_descx vq ! unat (hd c))) = length c) \<and>
     mset (fs @ concat cs) = mset (all_idx (unat (vq_nentries vq))) \<and>
     (\<forall>x. unat x < unat (vq_nentries vq) \<longrightarrow>
        (dx_cookie (vq_descx vq ! unat x) \<noteq> NULL) = (x \<in> hd ` set cs)))"

lemma free_path_frame:
  "free_path ds idx xs \<Longrightarrow> length ds' = length ds
   \<Longrightarrow> (\<And>x. x \<in> set xs \<Longrightarrow> ds' ! unat x = ds ! unat x) \<Longrightarrow> free_path ds' idx xs"
  by (induction xs arbitrary: idx) auto

lemma linked_frame:
  "linked ds c \<Longrightarrow> length ds' = length ds
   \<Longrightarrow> (\<And>x. x \<in> set c \<Longrightarrow> ds' ! unat x = ds ! unat x) \<Longrightarrow> linked ds' c"
  by (induction ds c rule: linked.induct) (auto simp: has_flag_def)

lemma linked_bounded: "linked ds c \<Longrightarrow> x \<in> set c \<Longrightarrow> unat x < length ds"
  by (induction ds c rule: linked.induct) auto

lemma linked_ne: "linked ds c \<Longrightarrow> c \<noteq> []"
  by auto

lemma unat_u16_inj [simp]: "(unat (x :: u16) = unat y) = (x = y)"
  by (rule word_unat_eq_iff [symmetric])

lemma ucast_u16_back [simp]: "(ucast (ucast (x :: u16) :: u32) :: u16) = x"
  by (rule bit_word_eqI) (simp add: bit_simps)

lemma upd_frame: "x \<notin> A \<Longrightarrow> y \<in> A \<Longrightarrow> xs[unat (x :: u16) := v] ! unat y = xs ! unat y"
  by (rule nth_list_update_neq) auto

section \<open>Freeing a chain\<close>

lemma free_chain_walk_linked:
  assumes "linked ds c" and "\<And>x. x \<in> set c \<Longrightarrow> x < vq_nentries vq"
  shows "free_chain_walk b vq ds (hd c) nd = Some (last c, nd - of_nat (length c - 1))"
  using assms
proof (induction ds c arbitrary: nd rule: linked.induct)
  case (1 ds)
  then show ?case by simp
next
  case (2 ds x)
  then show ?case by (subst free_chain_walk.simps) (simp add: has_flag_def)
next
  case (3 ds x y xs)
  from 3 show ?case
    by (subst free_chain_walk.simps)
      (simp add: has_flag_def VQ_RING_ASSERT_VALID_IDX_def VQASSERT_def algebra_simps)
qed

lemma free_path_append:
  assumes "linked ds c" and "distinct c" and "free_path ds head fs" and "set c \<inter> set fs = {}"
    and "ds' = ds[unat (last c) := (ds ! unat (last c))\<lparr>d_next := head\<rparr>]"
  shows "free_path ds' (hd c) (c @ fs)"
  using assms
proof (induction ds c rule: linked.induct)
  case (1 ds)
  then show ?case by simp
next
  case (2 ds x)
  have "free_path ds' head fs"
    by (rule free_path_frame [OF 2(3)]) (use 2 in \<open>simp_all add: upd_frame [of x "set fs"]\<close>)
  then show ?case using 2 by simp
next
  case (3 ds x y xs)
  then have "x \<noteq> last (y # xs)" by (metis distinct.simps(2) last_in_set list.discI)
  then show ?case using 3 by simp
qed

section \<open>Filling a chain\<close>

definition desc_fill :: "virtqueue_buf \<Rightarrow> u64 \<Rightarrow> u16 \<Rightarrow> vring_desc \<Rightarrow> vring_desc" where
  "desc_fill bf pa f d = d\<lparr>d_addr := pa, d_len := of_int (vb_len bf), d_flags := f\<rparr>"

lemma desc_fill_next [simp]: "d_next (desc_fill bf pa f d) = d_next d"
  by (simp add: desc_fill_def)

lemma desc_fill_flags [simp]: "d_flags (desc_fill bf pa f d) = f"
  by (simp add: desc_fill_def)

lemma add_buffer_loop_ok:
  assumes "free_path ds idx fs" and "distinct fs" and "k \<le> length fs" and "length ds \<le> 2 ^ 15"
    and "i + k \<le> length bufs"
    and "\<And>j. i \<le> j \<Longrightarrow> j < i + k \<Longrightarrow> virtqueue_virt_to_phys vq (vb_buf (bufs ! j)) = Some (pa j)"
  shows "\<exists>ds' idx'. add_buffer_loop b vq bufs needed readable k i idx ds = Some (idx', ds') \<and>
    length ds' = length ds \<and> free_path ds' idx' (drop k fs) \<and>
    (\<forall>x. x \<notin> set (take k fs) \<longrightarrow> ds' ! unat x = ds ! unat x) \<and>
    (\<forall>j < k. ds' ! unat (fs ! j) = desc_fill (bufs ! (i + j)) (pa (i + j))
                (desc_flags (int (i + j)) needed readable) (ds ! unat (fs ! j)))"
  using assms
proof (induction k arbitrary: i idx ds fs)
  case 0
  then show ?case by simp
next
  case (Suc k)
  obtain x xs where fs: "fs = x # xs" using Suc.prems(3) by (cases fs) auto
  have x: "idx = x" "unat x < length ds" and path: "free_path ds (d_next (ds ! unat x)) xs"
    using Suc.prems(1) by (simp_all add: fs)
  have "x \<noteq> VQ_RING_DESC_CHAIN_END"
    using x(2) Suc.prems(4) by (auto simp: word_unat_eq_iff)
  define d' where "d' = desc_fill (bufs ! i) (pa i) (desc_flags (int i) needed readable) (ds ! unat x)"
  define ds1 where "ds1 = ds[unat x := d']"
  have step: "add_buffer_loop b vq bufs needed readable (Suc k) i idx ds
      = add_buffer_loop b vq bufs needed readable k (Suc i) (d_next (ds ! unat x)) ds1"
    using x Suc.prems(5) Suc.prems(6) [of i] \<open>x \<noteq> VQ_RING_DESC_CHAIN_END\<close>
    by (simp add: VQASSERT_def ds1_def d'_def desc_fill_def)
  have path1: "free_path ds1 (d_next (ds ! unat x)) xs"
    by (rule free_path_frame [OF path])
      (use Suc.prems(2) in \<open>simp_all add: ds1_def fs upd_frame [of x "set xs"]\<close>)
  obtain ds' idx' where ih:
    "add_buffer_loop b vq bufs needed readable k (Suc i) (d_next (ds ! unat x)) ds1 = Some (idx', ds')"
    "length ds' = length ds1" "free_path ds' idx' (drop k xs)"
    "\<forall>y. y \<notin> set (take k xs) \<longrightarrow> ds' ! unat y = ds1 ! unat y"
    "\<forall>j < k. ds' ! unat (xs ! j) = desc_fill (bufs ! (Suc i + j)) (pa (Suc i + j))
                (desc_flags (int (Suc i + j)) needed readable) (ds1 ! unat (xs ! j))"
    using Suc.IH [OF path1, of "Suc i"] Suc.prems by (auto simp: fs ds1_def)
  have notin: "x \<notin> set (take k xs)"
    using Suc.prems(2) by (auto simp: fs dest: in_set_takeD)
  have new: "ds' ! unat x = d'" using ih(4) notin x(2) by (simp add: ds1_def)
  have old: "ds1 ! unat y = ds ! unat y" if "y \<noteq> x" for y
    using that by (simp add: ds1_def)
  have chain: "ds' ! unat (fs ! j) = desc_fill (bufs ! (i + j)) (pa (i + j))
                (desc_flags (int (i + j)) needed readable) (ds ! unat (fs ! j))" if "j < Suc k" for j
  proof (cases j)
    case 0
    then show ?thesis by (simp add: fs new d'_def)
  next
    case (Suc j')
    have "xs ! j' \<noteq> x" using Suc.prems(2,3) that Suc by (auto simp: fs)
    then show ?thesis using ih(5) that Suc by (simp add: fs old)
  qed
  have frame: "ds' ! unat y = ds ! unat y" if "y \<notin> set (take (Suc k) fs)" for y
    using that ih(4) old [of y] by (simp add: fs)
  show ?case
    using step ih(1,2,3) chain frame by (intro exI [of _ ds'] exI [of _ idx']) (simp add: fs ds1_def)
qed

lemma desc_flags_next [simp]: "(desc_flags i needed readable AND VRING_DESC_F_NEXT \<noteq> 0) = (i < needed - 1)"
  by (simp add: desc_flags_def)

lemma desc_flags_indirect [simp]: "desc_flags i needed readable AND VRING_DESC_F_INDIRECT = 0"
  by (simp add: desc_flags_def)

text \<open>A free path whose descriptors carry the chain flags is a chain in flight.\<close>

lemma linked_of_path:
  assumes "free_path ds idx fs" and "0 < k" and "k \<le> length fs"
    and "\<And>j. j < k \<Longrightarrow> d_flags (ds' ! unat (fs ! j)) = desc_flags (int (i + j)) (int (i + k)) readable"
    and "\<And>j. j < k \<Longrightarrow> d_next (ds' ! unat (fs ! j)) = d_next (ds ! unat (fs ! j))"
    and "length ds' = length ds"
  shows "linked ds' (take k fs)"
  using assms
proof (induction k arbitrary: i idx fs)
  case 0
  then show ?case by simp
next
  case (Suc k)
  obtain x xs where fs: "fs = x # xs" using Suc.prems(3) by (cases fs) auto
  have x: "unat x < length ds" and path: "free_path ds (d_next (ds ! unat x)) xs"
    using Suc.prems(1) by (simp_all add: fs)
  have fx: "d_flags (ds' ! unat x) = desc_flags (int i) (int (i + Suc k)) readable"
    using Suc.prems(4) [of 0] by (simp add: fs)
  have nx: "d_next (ds' ! unat x) = d_next (ds ! unat x)"
    using Suc.prems(5) [of 0] by (simp add: fs)
  show ?case
  proof (cases k)
    case 0
    then show ?thesis using x fx Suc.prems(6) by (simp add: fs has_flag_def)
  next
    case (Suc k')
    then obtain y ys where xs: "xs = y # ys" using Suc.prems(3) fs by (cases xs) auto
    have "linked ds' (take k xs)"
      using Suc.IH [OF path, of "Suc i"] Suc.prems(3,6) Suc.prems(4) [of "Suc _"] Suc.prems(5) [of "Suc _"] Suc
      by (simp add: fs)
    then show ?thesis
      using x fx nx path Suc.prems(6) Suc by (simp add: fs xs has_flag_def)
  qed
qed

section \<open>Consequences of the invariant\<close>

lemma distinct_all_idx: "n \<le> 2 ^ 15 \<Longrightarrow> distinct (all_idx n)"
  by (auto simp: all_idx_def distinct_map inj_on_def word_unat_eq_iff unat_of_nat)

lemma set_all_idx: "n \<le> 2 ^ 15 \<Longrightarrow> set (all_idx n) = {x. unat x < n}"
  by (force simp: all_idx_def unat_of_nat image_iff intro: bexI [of _ "unat _"])

lemma driver_inv_distinct:
  assumes "driver_inv vq ds fs cs"
  shows "distinct (fs @ concat cs)"
  using assms distinct_all_idx unfolding driver_inv_def by (metis mset_eq_imp_distinct_iff)

lemma driver_inv_set:
  assumes "driver_inv vq ds fs cs"
  shows "set (fs @ concat cs) = {x. unat x < unat (vq_nentries vq)}"
  using assms set_all_idx unfolding driver_inv_def by (metis mset_eq_setD)

lemma driver_inv_length:
  assumes "driver_inv vq ds fs cs"
  shows "length fs + length (concat cs) = unat (vq_nentries vq)"
proof -
  have "size (mset (fs @ concat cs)) = size (mset (all_idx (unat (vq_nentries vq))))"
    using assms by (simp only: driver_inv_def)
  then show ?thesis by (simp add: all_idx_def)
qed

lemma head_in_chain: "c \<in> set cs \<Longrightarrow> linked ds c \<Longrightarrow> hd c \<in> set (concat cs)"
  by (auto intro!: bexI [of _ c] hd_in_set dest: linked_ne)

text \<open>In a partition the head of a chain determines the chain.\<close>

lemma distinct_heads:
  assumes "distinct (concat cs)" and "\<forall>c \<in> set cs. c \<noteq> []"
  shows "distinct (map hd cs)"
  using assms
proof (induction cs)
  case Nil
  then show ?case by simp
next
  case (Cons c cs)
  have "hd c \<notin> hd ` set cs"
  proof
    assume "hd c \<in> hd ` set cs"
    then obtain c' where c': "c' \<in> set cs" "hd c = hd c'" by auto
    have "hd c \<in> set c" using Cons.prems by (intro hd_in_set) simp
    moreover have "hd c \<in> set c'" unfolding c'(2) using Cons.prems c'(1) by (intro hd_in_set) simp
    ultimately show False using Cons.prems(1) c'(1) by auto
  qed
  then show ?case using Cons by simp
qed

lemma ring_slot_mod:
  assumes "unat (vq_nentries vq) = 2 ^ k"
  shows "ring_slot vq idx = unat idx mod unat (vq_nentries vq)"
proof -
  have up: "unat (ucast (x :: u16) :: u32) = unat x" for x
    using less_trans [OF unat_lt_u16 [of x], of "2 ^ 32"]
    by (simp add: unsigned_ucast_eq take_bit_nat_eq_self)
  show ?thesis
    using unat_mask_mod [of "ucast (vq_nentries vq) :: u32" k "ucast idx"] assms
    by (simp add: ring_slot_def up)
qed

lemma idle_same [simp]: "\<not> vq_inuse vq \<Longrightarrow> vq\<lparr>vq_inuse := False\<rparr> = vq"
  by (cases vq) simp

section \<open>Adding a buffer\<close>

definition add_buffer_vq :: "virtqueue \<Rightarrow> u16 \<Rightarrow> nat \<Rightarrow> addr \<Rightarrow> virtqueue" where
  "add_buffer_vq vq idx k cookie =
     vq\<lparr>vq_descx := (vq_descx vq)[unat (vq_desc_head_idx vq) :=
            (vq_descx vq ! unat (vq_desc_head_idx vq))\<lparr>dx_cookie := cookie, dx_ndescs := of_nat k\<rparr>],
        vq_desc_head_idx := idx, vq_free_cnt := vq_free_cnt vq - of_nat k,
        vq_queued_cnt := vq_queued_cnt vq + 1\<rparr>"

definition push_avail :: "virtqueue \<Rightarrow> u16 \<Rightarrow> vring_avail \<Rightarrow> vring_avail" where
  "push_avail vq h av = av\<lparr>av_ring := (av_ring av)[ring_slot vq (av_idx av) := h], av_idx := av_idx av + 1\<rparr>"

lemma ring_slot_cong: "vq_nentries vq' = vq_nentries vq \<Longrightarrow> ring_slot vq' idx = ring_slot vq idx"
  by (simp add: ring_slot_def)

lemma virt_to_phys_cong:
  "vq_shm_io vq' = vq_shm_io vq \<Longrightarrow> virtqueue_virt_to_phys vq' a = virtqueue_virt_to_phys vq a"
  by (simp add: virtqueue_virt_to_phys_def)

lemma add_buffer_loop_cong:
  "vq_shm_io vq' = vq_shm_io vq
   \<Longrightarrow> add_buffer_loop b vq' bufs needed readable k i idx ds
       = add_buffer_loop b vq bufs needed readable k i idx ds"
proof (induction k arbitrary: i idx ds)
  case (Suc k)
  have "add_buffer_loop b vq' bufs needed readable k = add_buffer_loop b vq bufs needed readable k"
    by (intro ext) (rule Suc.IH [OF Suc.prems])
  then show ?case using Suc.prems by (simp add: virt_to_phys_cong [of vq' vq])
qed simp

lemma add_buffer_eq:
  assumes "0 < k" and "readable + writable = int k" and "k \<le> unat (vq_free_cnt vq)"
    and "cookie \<noteq> NULL" and "\<not> vq_inuse vq"
    and "vq_desc_head_idx vq < vq_nentries vq"
    and "unat (vq_desc_head_idx vq) < length (vq_descx vq)"
    and "dx_cookie (vq_descx vq ! unat (vq_desc_head_idx vq)) = NULL"
    and "add_buffer_loop b vq bufs (int k) readable k 0 (vq_desc_head_idx vq) (vm_desc rm) = Some (idx, ds)"
    and "if vq_free_cnt vq - of_nat k = 0 then idx = VQ_RING_DESC_CHAIN_END else idx < vq_nentries vq"
    and "ring_slot vq (av_idx (vm_avail rm)) < length (av_ring (vm_avail rm))"
  shows "virtqueue_add_buffer b vq rm bufs readable writable cookie =
    Some (VQUEUE_SUCCESS, add_buffer_vq vq idx k cookie,
          rm\<lparr>vm_desc := ds, vm_avail := push_avail vq (vq_desc_head_idx vq) (vm_avail rm)\<rparr>)"
proof -
  have loop: "vq_ring_add_buffer b vq' rm (vq_desc_head_idx vq) bufs readable writable
      = Some (idx, rm\<lparr>vm_desc := ds\<rparr>)" if "vq_shm_io vq' = vq_shm_io vq" for vq'
    using assms(2,9) add_buffer_loop_cong [OF that] by (simp add: vq_ring_add_buffer_def)
  have room: "\<not> uint (vq_free_cnt vq) < int k"
    using assms(3) by (simp only: uint_nat not_less of_nat_le_iff)
  then have room': "vq_free_cnt vq = of_nat k \<Longrightarrow> \<not> uint (of_nat k :: u16) < int k" by simp
  note defs = virtqueue_add_buffer_def VQ_PARAM_CHK_def VQUEUE_BUSY_def VQUEUE_IDLE_def
    VQASSERT_def VQ_RING_ASSERT_VALID_IDX_def VQ_RING_ASSERT_CHAIN_TERM_def Let_def
    vq_ring_update_avail_def ring_slot_def add_buffer_vq_def push_avail_def
  show ?thesis
  proof (cases "VQUEUE_DEBUG b")
    case False
    then show ?thesis using assms by (simp add: defs loop)
  next
    case True
    then have "virtqueue_add_buffer b vq rm bufs readable writable cookie =
      Some (VQUEUE_SUCCESS, (add_buffer_vq vq idx k cookie)\<lparr>vq_inuse := False\<rparr>,
          rm\<lparr>vm_desc := ds, vm_avail := push_avail vq (vq_desc_head_idx vq) (vm_avail rm)\<rparr>)"
      using assms room room' by (simp add: defs loop)
    moreover have "\<not> vq_inuse (add_buffer_vq vq idx k cookie)"
      using assms(5) by (simp add: add_buffer_vq_def)
    ultimately show ?thesis by simp
  qed
qed

text \<open>
  \<open>virtqueue_add_buffer\<close> under the invariant: it takes the first \<open>k\<close> free descriptors, fills
  them from the buffer list, and puts their head into the next slot of the available ring.
\<close>

definition translates :: "virtqueue \<Rightarrow> virtqueue_buf list \<Rightarrow> nat \<Rightarrow> (nat \<Rightarrow> u64) \<Rightarrow> bool" where
  "translates vq bufs k pa =
     (k \<le> length bufs \<and> (\<forall>j < k. virtqueue_virt_to_phys vq (vb_buf (bufs ! j)) = Some (pa j)))"

lemma add_buffer_step:
  assumes inv: "driver_inv vq (vm_desc rm) fs cs"
    and k: "0 < k" "readable + writable = int k" "k \<le> length fs"
    and tr: "translates vq bufs k pa" and cookie: "cookie \<noteq> NULL"
    and av: "length (av_ring (vm_avail rm)) = unat (vq_nentries vq)"
    and pow: "unat (vq_nentries vq) = 2 ^ e"
  obtains ds idx where
    "virtqueue_add_buffer b vq rm bufs readable writable cookie =
       Some (VQUEUE_SUCCESS, add_buffer_vq vq idx k cookie,
         rm\<lparr>vm_desc := ds, vm_avail := push_avail vq (hd fs) (vm_avail rm)\<rparr>)"
    "length ds = length (vm_desc rm)" "free_path ds idx (drop k fs)"
    "\<And>x. x \<notin> set (take k fs) \<Longrightarrow> ds ! unat x = vm_desc rm ! unat x"
    "\<And>j. j < k \<Longrightarrow> ds ! unat (fs ! j) = desc_fill (bufs ! j) (pa j)
                (desc_flags (int j) (int k) readable) (vm_desc rm ! unat (fs ! j))"
    "vq_desc_head_idx vq = hd fs"
proof -
  note I = inv [unfolded driver_inv_def]
  have dist: "distinct (fs @ concat cs)" using inv by (rule driver_inv_distinct)
  have range: "set (fs @ concat cs) = {x. unat x < unat (vq_nentries vq)}"
    using inv by (rule driver_inv_set)
  obtain x xs where fs: "fs = x # xs" using k by (cases fs) auto
  have head: "vq_desc_head_idx vq = x" using I by (simp add: fs)
  have x: "unat x < unat (vq_nentries vq)" using range by (auto simp: fs)
  obtain ds idx where loop:
    "add_buffer_loop b vq bufs (int k) readable k 0 (vq_desc_head_idx vq) (vm_desc rm) = Some (idx, ds)"
    "length ds = length (vm_desc rm)" "free_path ds idx (drop k fs)"
    "\<And>x. x \<notin> set (take k fs) \<Longrightarrow> ds ! unat x = vm_desc rm ! unat x"
    "\<And>j. j < k \<Longrightarrow> ds ! unat (fs ! j) = desc_fill (bufs ! j) (pa j)
                (desc_flags (int j) (int k) readable) (vm_desc rm ! unat (fs ! j))"
    using add_buffer_loop_ok [of "vm_desc rm" "vq_desc_head_idx vq" fs k 0 bufs vq pa b "int k" readable]
      I dist k(3) tr by (auto simp: translates_def)
  have nohead: "x \<notin> hd ` set cs"
  proof
    assume "x \<in> hd ` set cs"
    then obtain c where "c \<in> set cs" "x = hd c" by auto
    then have "x \<in> set (concat cs)" using I head_in_chain by blast
    then show False using dist by (auto simp: fs)
  qed
  have cnt: "unat (vq_free_cnt vq) = length fs" using I by simp
  have kw: "unat (of_nat k :: u16) = k"
    using k(3) cnt unat_lt_u16 [of "vq_free_cnt vq"] by (simp add: unat_of_nat)
  have last: "if vq_free_cnt vq - of_nat k = 0 then idx = VQ_RING_DESC_CHAIN_END else idx < vq_nentries vq"
  proof (cases "drop k fs")
    case Nil
    then have "vq_free_cnt vq = of_nat k" using cnt k(3) kw by (simp add: word_unat_eq_iff)
    then show ?thesis using loop(3) Nil by simp
  next
    case (Cons y ys)
    then have "length fs \<noteq> k" by auto
    then have "vq_free_cnt vq \<noteq> of_nat k" using cnt kw by auto
    moreover have "y \<in> set fs" using Cons by (metis in_set_dropD list.set_intros(1))
    then have "y < vq_nentries vq" using range by (auto simp: word_less_nat_alt)
    ultimately show ?thesis using loop(3) Cons by simp
  qed
  have slot: "ring_slot vq (av_idx (vm_avail rm)) < length (av_ring (vm_avail rm))"
    using pow by (simp add: ring_slot_mod [OF pow] av)
  have "virtqueue_add_buffer b vq rm bufs readable writable cookie =
       Some (VQUEUE_SUCCESS, add_buffer_vq vq idx k cookie,
         rm\<lparr>vm_desc := ds, vm_avail := push_avail vq (vq_desc_head_idx vq) (vm_avail rm)\<rparr>)"
  proof (rule add_buffer_eq [OF k(1,2) _ cookie _ _ _ _ loop(1) last slot])
    show "dx_cookie (vq_descx vq ! unat (vq_desc_head_idx vq)) = NULL"
      using I x nohead unfolding head by blast
  qed (use I x k(3) in \<open>simp_all add: head word_less_nat_alt\<close>)
  then show ?thesis using that [OF _ loop(2-5)] by (simp add: fs head)
qed

lemma add_buffer_inv:
  assumes inv: "driver_inv vq ds0 fs cs"
    and k: "0 < k" "k \<le> length fs" and cookie: "cookie \<noteq> NULL"
    and ds: "length ds = length ds0" "free_path ds idx (drop k fs)"
      "\<And>x. x \<notin> set (take k fs) \<Longrightarrow> ds ! unat x = ds0 ! unat x"
      "\<And>j. j < k \<Longrightarrow> ds ! unat (fs ! j) = desc_fill (bufs ! j) (pa j)
                (desc_flags (int j) (int k) readable) (ds0 ! unat (fs ! j))"
      "vq_desc_head_idx vq = hd fs"
  shows "driver_inv (add_buffer_vq vq idx k cookie) ds (drop k fs) (take k fs # cs)"
proof -
  note I = inv [unfolded driver_inv_def]
  have dist: "distinct (fs @ concat cs)" using inv by (rule driver_inv_distinct)
  have range: "set (fs @ concat cs) = {x. unat x < unat (vq_nentries vq)}"
    using inv by (rule driver_inv_set)
  have cnt: "unat (vq_free_cnt vq) = length fs" using I by simp
  have kw: "unat (of_nat k :: u16) = k"
    using k(2) cnt unat_lt_u16 [of "vq_free_cnt vq"] by (simp add: unat_of_nat)
  have hd: "hd (take k fs) = hd fs" "hd fs \<in> set fs" using k by (auto simp: hd_take intro: hd_in_set)
  then have hb: "unat (hd fs) < unat (vq_nentries vq)" using range by auto
  have new: "linked ds (take k fs)"
    by (rule linked_of_path [of ds0 "vq_desc_head_idx vq" fs k ds 0 readable]) (use I k ds in simp_all)
  have old: "linked ds c" if "c \<in> set cs" for c
  proof (rule linked_frame)
    show "linked ds0 c" using I that by blast
    show "length ds = length ds0" by (rule ds(1))
    show "ds ! unat x = ds0 ! unat x" if "x \<in> set c" for x
      using ds(3) [of x] dist that \<open>c \<in> set cs\<close> by (auto dest: in_set_takeD)
  qed
  have heads: "hd c \<noteq> hd fs" if "c \<in> set cs" for c
  proof -
    have "hd c \<in> set (concat cs)" using I that head_in_chain by blast
    then show ?thesis using dist hd(2) by (auto simp del: set_concat)
  qed
  have fc: "unat (vq_free_cnt vq - of_nat k) = length (drop k fs)"
    using k(2) cnt kw by (subst unat_sub) (simp_all add: word_le_nat_alt)
  have mset: "mset (drop k fs @ concat (take k fs # cs)) = mset (fs @ concat cs)"
    using arg_cong [OF append_take_drop_id [of k fs], of mset] by (simp only: mset_append concat.simps ac_simps)
  show ?thesis
    unfolding driver_inv_def
    using I ds(1,2) new old heads hd kw fc mset k hb cookie
    by (auto simp: add_buffer_vq_def ds(5) nth_list_update)
qed

section \<open>Taking back a buffer\<close>

definition get_buffer_vq :: "virtqueue \<Rightarrow> u16 list \<Rightarrow> virtqueue" where
  "get_buffer_vq vq c =
     vq\<lparr>vq_used_cons_idx := vq_used_cons_idx vq + 1,
        vq_free_cnt := vq_free_cnt vq + of_nat (length c), vq_desc_head_idx := hd c,
        vq_descx := (vq_descx vq)[unat (hd c) := \<lparr>dx_cookie = NULL, dx_ndescs = 0\<rparr>]\<rparr>"

definition free_desc :: "vring_desc list \<Rightarrow> u16 list \<Rightarrow> u16 \<Rightarrow> vring_desc list" where
  "free_desc ds c head = ds[unat (last c) := (ds ! unat (last c))\<lparr>d_next := head\<rparr>]"

lemma dx_clear [simp]:
  "(d :: vq_desc_extra)\<lparr>dx_ndescs := 0, dx_cookie := NULL\<rparr> = \<lparr>dx_cookie = NULL, dx_ndescs = 0\<rparr>"
  by (cases d) simp

lemma free_chain_eq:
  assumes inv: "driver_inv vq0 (vm_desc rm) fs cs" and c: "c \<in> set cs"
    and vq: "vq_nentries vq = vq_nentries vq0" "vq_free_cnt vq = vq_free_cnt vq0"
      "vq_desc_head_idx vq = vq_desc_head_idx vq0" "vq_descx vq = vq_descx vq0"
  shows "vq_ring_free_chain b vq rm (hd c) =
    Some (vq\<lparr>vq_free_cnt := vq_free_cnt vq + of_nat (length c), vq_desc_head_idx := hd c,
             vq_descx := (vq_descx vq)[unat (hd c) := (vq_descx vq ! unat (hd c))\<lparr>dx_ndescs := 0\<rparr>]\<rparr>,
          rm\<lparr>vm_desc := free_desc (vm_desc rm) c (vq_desc_head_idx vq)\<rparr>)"
proof -
  note I = inv [unfolded driver_inv_def]
  have lk: "linked (vm_desc rm) c" and nd: "unat (dx_ndescs (vq_descx vq ! unat (hd c))) = length c"
    using I c vq(4) by auto
  have cin: "x < vq_nentries vq" if "x \<in> set c" for x
    using linked_bounded [OF lk that] I vq(1) by (simp add: word_less_nat_alt)
  have ne: "c \<noteq> []" using lk by (rule linked_ne)
  have h: "unat (hd c) < length (vm_desc rm)" "unat (last c) < length (vm_desc rm)"
    using linked_bounded [OF lk] ne by auto
  have nd': "dx_ndescs (vq_descx vq ! unat (hd c)) = of_nat (length c)" using nd by (metis of_nat_unat ucast_id)
  have walk: "free_chain_walk b vq (vm_desc rm) (hd c) (of_nat (length c) - 1) = Some (last c, 0)"
    using free_chain_walk_linked [OF lk cin, where nd = "of_nat (length c) - 1"] ne
    by (cases c) simp_all
  have ind: "d_flags (vm_desc rm ! unat (hd c)) AND VRING_DESC_F_INDIRECT = 0"
    using lk by (cases c rule: remdups_adj.cases) (auto simp: has_flag_def)
  have tm: "vq_free_cnt vq = 0 \<Longrightarrow> vq_desc_head_idx vq = VQ_RING_DESC_CHAIN_END"
    using I vq by (cases fs) auto
  have len: "length (vq_descx vq) = length (vm_desc rm)" using I vq(4) by simp
  show ?thesis
    using h cin ne len tm
    by (simp add: vq_ring_free_chain_def VQ_RING_ASSERT_VALID_IDX_def VQ_RING_ASSERT_CHAIN_TERM_def
        VQASSERT_def Let_def ind walk nd' free_desc_def)
qed

lemma get_buffer_eq:
  assumes inv: "driver_inv vq (vm_desc rm) fs cs" and c: "c \<in> set cs"
    and ne: "vq_used_cons_idx vq \<noteq> us_idx (vm_used rm)"
    and slot: "ring_slot vq (vq_used_cons_idx vq) < length (us_ring (vm_used rm))"
    and id: "ucast (ue_id (us_ring (vm_used rm) ! ring_slot vq (vq_used_cons_idx vq))) = hd c"
  shows "virtqueue_get_buffer b vq rm =
    Some (Some \<lparr>ur_cookie = dx_cookie (vq_descx vq ! unat (hd c)),
                ur_len = ue_len (us_ring (vm_used rm) ! ring_slot vq (vq_used_cons_idx vq)),
                ur_idx = of_nat (ring_slot vq (vq_used_cons_idx vq))\<rparr>,
          get_buffer_vq vq c, rm\<lparr>vm_desc := free_desc (vm_desc rm) c (vq_desc_head_idx vq)\<rparr>)"
proof -
  note I = inv [unfolded driver_inv_def]
  have "unat (hd c) < length (vq_descx vq)"
    using I c linked_bounded linked_ne by (metis hd_in_set)
  moreover have "\<not> vq_inuse (get_buffer_vq vq c)" and "\<not> vq_inuse vq"
    using I by (simp_all add: get_buffer_vq_def)
  moreover have "ring_slot (vq\<lparr>vq_inuse := True\<rparr>) i = ring_slot vq i" for i
    by (simp add: ring_slot_def)
  ultimately show ?thesis
    using slot ne
    by (simp add: virtqueue_get_buffer_def VQUEUE_BUSY_def VQUEUE_IDLE_def Let_def id
        free_chain_eq [OF inv c] get_buffer_vq_def)
qed

lemma mset_concat_remove1:
  "c \<in> set cs \<Longrightarrow> mset c + mset (concat (remove1 c cs)) = mset (concat cs)"
  by (induction cs) (auto simp: ac_simps)

lemma get_buffer_inv:
  assumes inv: "driver_inv vq ds fs cs" and c: "c \<in> set cs"
  shows "driver_inv (get_buffer_vq vq c) (free_desc ds c (vq_desc_head_idx vq)) (c @ fs) (remove1 c cs)"
proof -
  note I = inv [unfolded driver_inv_def]
  have lk: "linked ds c" using I c by blast
  have ne: "c \<noteq> []" using lk by (rule linked_ne)
  have dist: "distinct (fs @ concat cs)" using inv by (rule driver_inv_distinct)
  have part: "mset (concat cs) = mset c + mset (concat (remove1 c cs))"
    using mset_concat_remove1 [OF c] by simp
  have ms: "mset (c @ fs @ concat (remove1 c cs)) = mset (fs @ concat cs)"
    using part by (simp add: ac_simps)
  then have dist': "distinct (c @ fs @ concat (remove1 c cs))"
    using dist by (metis mset_eq_imp_distinct_iff)
  have heads: "distinct (map hd cs)"
    by (rule distinct_heads) (use dist I linked_ne in auto)
  have h: "unat (hd c) < unat (vq_nentries vq)"
    using linked_bounded [OF lk hd_in_set [OF ne]] I by simp
  have path: "free_path (free_desc ds c (vq_desc_head_idx vq)) (hd c) (c @ fs)"
    by (rule free_path_append [OF lk]) (use dist' I in \<open>auto simp: free_desc_def\<close>)
  have other: "hd c' \<noteq> hd c" if "c' \<in> set (remove1 c cs)" for c'
  proof -
    have "hd c' \<in> set (concat (remove1 c cs))"
      using that I by (intro head_in_chain [of c' _ ds]) (auto dest: notin_set_remove1 set_remove1_subset [THEN subsetD])
    moreover have "hd c \<in> set c" using ne by simp
    ultimately show ?thesis using dist' by (auto simp del: set_concat)
  qed
  have lk': "linked (free_desc ds c (vq_desc_head_idx vq)) c'" if "c' \<in> set (remove1 c cs)" for c'
  proof (rule linked_frame)
    show "linked ds c'" using that I by (auto dest: set_remove1_subset [THEN subsetD])
    show "free_desc ds c (vq_desc_head_idx vq) ! unat x = ds ! unat x" if "x \<in> set c'" for x
    proof -
      have "x \<in> set (concat (remove1 c cs))" using that \<open>c' \<in> set (remove1 c cs)\<close> by auto
      moreover have "last c \<in> set c" using ne by simp
      ultimately have "last c \<noteq> x" using dist' by (auto simp del: set_concat)
      then show ?thesis by (simp add: free_desc_def)
    qed
  qed (simp add: free_desc_def)
  have cnt: "unat (vq_free_cnt vq + of_nat (length c)) = length (c @ fs)"
  proof -
    have "length c + length fs \<le> unat (vq_nentries vq)"
      using arg_cong [OF ms, of size] driver_inv_length [OF inv] by simp
    then show ?thesis
      using I unat_lt_u16 [of "vq_nentries vq"] by (simp add: unat_word_ariths unat_of_nat)
  qed
  have hs: "x \<in> hd ` set (remove1 c cs) \<longleftrightarrow> x \<in> hd ` set cs \<and> x \<noteq> hd c" for x
  proof
    assume "x \<in> hd ` set (remove1 c cs)"
    then show "x \<in> hd ` set cs \<and> x \<noteq> hd c"
      using other by (auto dest: set_remove1_subset [THEN subsetD])
  next
    assume "x \<in> hd ` set cs \<and> x \<noteq> hd c"
    then obtain c' where "c' \<in> set cs" "x = hd c'" "c' \<noteq> c" by auto
    then show "x \<in> hd ` set (remove1 c cs)" by (simp add: in_set_remove1)
  qed
  have len: "length (free_desc ds c (vq_desc_head_idx vq)) = length ds" by (simp add: free_desc_def)
  have ck: "(dx_cookie (vq_descx (get_buffer_vq vq c) ! unat x) \<noteq> NULL) = (x \<in> hd ` set (remove1 c cs))"
    if "unat x < unat (vq_nentries vq)" for x
    using I that h unfolding hs by (cases "x = hd c") (simp_all add: get_buffer_vq_def)
  have nd: "unat (dx_ndescs (vq_descx (get_buffer_vq vq c) ! unat (hd c'))) = length c'"
    if "c' \<in> set (remove1 c cs)" for c'
    using I other [OF that] that
    by (auto simp: get_buffer_vq_def dest: set_remove1_subset [THEN subsetD])
  show ?thesis
    unfolding driver_inv_def
    using I path cnt lk' nd ms ck len by (simp add: get_buffer_vq_def ac_simps)
qed

section \<open>Creation\<close>

lemma link_descs_ok:
  assumes "i + Suc k = length ds" and "length ds \<le> 2 ^ 15"
  shows "\<exists>ds'. link_descs k i ds = Some ds' \<and> length ds' = length ds \<and>
    free_path ds' (of_nat i) (map of_nat [i..<length ds]) \<and>
    (\<forall>j < i. ds' ! j = ds ! j)"
  using assms
proof (induction k arbitrary: i ds)
  case 0
  then have "[i..<length ds] = [i]" by (simp add: upt_rec [of i])
  then show ?case using 0 by (simp add: unat_of_nat)
next
  case (Suc k)
  define ds1 where "ds1 = ds[i := (ds ! i)\<lparr>d_next := of_nat (i + 1)\<rparr>]"
  obtain ds' where ds': "link_descs k (i + 1) ds1 = Some ds'" "length ds' = length ds"
    "free_path ds' (of_nat (i + 1)) (map of_nat [i + 1..<length ds])" "\<forall>j < i + 1. ds' ! j = ds1 ! j"
    using Suc.IH [of "i + 1" ds1] Suc.prems by (auto simp: ds1_def)
  have "[i..<length ds] = i # [i + 1..<length ds]" using Suc.prems by (simp add: upt_conv_Cons)
  moreover have "unat (of_nat i :: u16) = i" using Suc.prems by (simp add: unat_of_nat)
  moreover have "ds' ! i = (ds ! i)\<lparr>d_next := of_nat (i + 1)\<rparr>"
    using ds'(4) Suc.prems(1) by (simp add: ds1_def)
  ultimately show ?case
    using ds' Suc.prems by (auto simp: ds1_def)
qed

lemma virtqueue_create_eq:
  assumes "0 < unat (ai_num_descs ring)" and "unat (ai_num_descs ring) = 2 ^ e"
    and "VIRTIO_ROLE_IS_DRIVER b vdev"
    and "link_descs (unat (ai_num_descs ring) - 1) 0 (vm_desc rm) = Some ds"
  shows "virtqueue_create b vdev vid name ring callback notify vq rm =
    Some (VQUEUE_SUCCESS,
      vq\<lparr>vq_name := name, vq_queue_index := vid, vq_nentries := ai_num_descs ring,
         vq_free_cnt := ai_num_descs ring, vq_callback := callback, vq_notify := notify,
         vq_ring := vring_init (ucast (ai_num_descs ring)) (ai_vaddr ring) (scast (ai_align ring))\<rparr>,
      rm\<lparr>vm_desc := ds\<rparr>)"
proof -
  have pow: "unat (ai_num_descs ring AND (ai_num_descs ring - 1)) = 0"
    using unat_mask_mod [OF assms(2), of "ai_num_descs ring"] by simp
  then have "ai_num_descs ring AND (ai_num_descs ring - 1) = 0" by (simp only: unat_eq_zero)
  moreover have "ai_num_descs ring \<noteq> 0" using assms(1) by auto
  ultimately show ?thesis
    using assms(3,4) by (simp add: virtqueue_create_def VQ_PARAM_CHK_def vq_ring_init_def Let_def)
qed

lemma create_driver:
  assumes "unat (ai_num_descs ring) = 2 ^ e" and "e \<le> 15" and "VIRTIO_ROLE_IS_DRIVER b vdev"
    and "length (vm_desc rm) = 2 ^ e"
  shows "\<exists>vq rm'. virtqueue_create b vdev vid name ring callback notify (virtqueue_zero (2 ^ e)) rm
      = Some (VQUEUE_SUCCESS, vq, rm')
    \<and> driver_inv vq (vm_desc rm') (all_idx (2 ^ e)) [] \<and> virtqueue_empty vq
    \<and> vm_avail rm' = vm_avail rm \<and> vm_used rm' = vm_used rm
    \<and> vq_nentries vq = ai_num_descs ring \<and> vq_queue_index vq = vid
    \<and> vq_callback vq = callback \<and> vq_notify vq = notify"
proof -
  have bound: "(2::nat) ^ e \<le> 2 ^ 15" using assms(2) by (rule power_increasing) simp
  obtain ds where ds: "link_descs (2 ^ e - 1) 0 (vm_desc rm) = Some ds" "length ds = 2 ^ e"
    "free_path ds 0 (map of_nat [0..<2 ^ e])"
    using link_descs_ok [of 0 "2 ^ e - 1" "vm_desc rm"] assms(4) bound by auto
  have "free_path ds 0 (all_idx (2 ^ e))" using ds(3) by (simp add: all_idx_def)
  then show ?thesis
    using virtqueue_create_eq [OF _ assms(1,3), of rm ds] ds(1,2) bound assms(1)
    by (simp add: virtqueue_zero_def driver_inv_def virtqueue_empty_def all_idx_def)
qed

section \<open>The driver's properties\<close>

text \<open>
  \<open>virtqueue_create\<close> of a driver on a freshly allocated control block links all descriptors
  into one free chain: it succeeds for every power of two up to \<open>2 ^ 15\<close> and the queue is empty.
\<close>

theorem create_establishes_inv:
  assumes "unat (ai_num_descs ring) = 2 ^ e" and "e \<le> 15" and "VIRTIO_ROLE_IS_DRIVER b vdev"
    and "length (vm_desc rm) = 2 ^ e"
  shows "\<exists>vq rm'. virtqueue_create b vdev vid name ring callback notify (virtqueue_zero (2 ^ e)) rm
      = Some (VQUEUE_SUCCESS, vq, rm')
    \<and> driver_inv vq (vm_desc rm') (all_idx (2 ^ e)) [] \<and> virtqueue_empty vq
    \<and> vm_avail rm' = vm_avail rm \<and> vm_used rm' = vm_used rm"
  using create_driver [OF assms] by blast

lemma add_buffer_ok:
  assumes "driver_inv vq (vm_desc rm) fs cs"
    and "0 < k" and "readable + writable = int k" and "k \<le> length fs"
    and "translates vq bufs k pa" and "cookie \<noteq> NULL"
    and "length (av_ring (vm_avail rm)) = unat (vq_nentries vq)" and "unat (vq_nentries vq) = 2 ^ e"
  shows "\<exists>vq' rm'. virtqueue_add_buffer b vq rm bufs readable writable cookie = Some (VQUEUE_SUCCESS, vq', rm')
    \<and> driver_inv vq' (vm_desc rm') (drop k fs) (take k fs # cs)
    \<and> (\<forall>j < k. d_addr (vm_desc rm' ! unat (fs ! j)) = pa j
           \<and> d_len (vm_desc rm' ! unat (fs ! j)) = of_int (vb_len (bufs ! j))
           \<and> d_flags (vm_desc rm' ! unat (fs ! j)) = desc_flags (int j) (int k) readable)
    \<and> (\<forall>x. x \<notin> set (take k fs) \<longrightarrow> vm_desc rm' ! unat x = vm_desc rm ! unat x)
    \<and> dx_cookie (vq_descx vq' ! unat (hd fs)) = cookie
    \<and> av_ring (vm_avail rm') = (av_ring (vm_avail rm))
          [unat (av_idx (vm_avail rm)) mod unat (vq_nentries vq) := hd fs]
    \<and> av_idx (vm_avail rm') = av_idx (vm_avail rm) + 1
    \<and> vm_used rm' = vm_used rm"
proof -
  obtain ds idx where step:
    "virtqueue_add_buffer b vq rm bufs readable writable cookie =
       Some (VQUEUE_SUCCESS, add_buffer_vq vq idx k cookie,
         rm\<lparr>vm_desc := ds, vm_avail := push_avail vq (hd fs) (vm_avail rm)\<rparr>)"
    and ds: "length ds = length (vm_desc rm)" "free_path ds idx (drop k fs)"
      "\<And>x. x \<notin> set (take k fs) \<Longrightarrow> ds ! unat x = vm_desc rm ! unat x"
      "\<And>j. j < k \<Longrightarrow> ds ! unat (fs ! j) = desc_fill (bufs ! j) (pa j)
                (desc_flags (int j) (int k) readable) (vm_desc rm ! unat (fs ! j))"
      "vq_desc_head_idx vq = hd fs"
    by (rule add_buffer_step [OF assms]) blast
  have inv: "driver_inv (add_buffer_vq vq idx k cookie) ds (drop k fs) (take k fs # cs)"
    using ds by (rule add_buffer_inv [OF assms(1,2,4,6)])
  have "unat (hd fs) < length (vq_descx vq)"
    using driver_inv_set [OF assms(1)] assms(1,2,4) by (cases fs) (auto simp: driver_inv_def)
  then show ?thesis
    using step inv ds by (simp add: desc_fill_def add_buffer_vq_def push_avail_def ring_slot_mod [OF assms(8)])
qed

text \<open>
  C6: \<open>virtqueue_add_buffer\<close> with enough free descriptors succeeds in every build (no access out of
  bounds, no assertion fires), keeps the partition of the table into free chain and chains in
  flight, fills the descriptors of the new chain from the buffer list in order, touches no
  descriptor of another chain, and offers the head of the chain in the next available slot.
\<close>

theorem add_buffer_correct:
  assumes "driver_inv vq (vm_desc rm) fs cs"
    and "0 < k" and "readable + writable = int k" and "k \<le> length fs"
    and "translates vq bufs k pa" and "cookie \<noteq> NULL"
    and "length (av_ring (vm_avail rm)) = unat (vq_nentries vq)" and "unat (vq_nentries vq) = 2 ^ e"
  shows "\<exists>vq' rm'. virtqueue_add_buffer b vq rm bufs readable writable cookie = Some (VQUEUE_SUCCESS, vq', rm')
    \<and> driver_inv vq' (vm_desc rm') (drop k fs) (take k fs # cs)
    \<and> (\<forall>j < k. d_addr (vm_desc rm' ! unat (fs ! j)) = pa j
           \<and> d_len (vm_desc rm' ! unat (fs ! j)) = of_int (vb_len (bufs ! j))
           \<and> d_flags (vm_desc rm' ! unat (fs ! j)) = desc_flags (int j) (int k) readable)
    \<and> (\<forall>x. x \<notin> set (take k fs) \<longrightarrow> vm_desc rm' ! unat x = vm_desc rm ! unat x)
    \<and> dx_cookie (vq_descx vq' ! unat (hd fs)) = cookie
    \<and> av_ring (vm_avail rm') = (av_ring (vm_avail rm))
          [unat (av_idx (vm_avail rm)) mod unat (vq_nentries vq) := hd fs]
    \<and> av_idx (vm_avail rm') = av_idx (vm_avail rm) + 1
    \<and> vm_used rm' = vm_used rm"
  by (rule add_buffer_ok [OF assms])

text \<open>
  C7: \<open>virtqueue_get_buffer\<close> for a used entry that names the head of a chain in flight returns the
  cookie stored with that chain and the length the device wrote, gives all descriptors of the
  chain back to the free chain, and keeps the invariant; with no used entry it returns NULL.
\<close>

theorem get_buffer_correct:
  assumes "driver_inv vq (vm_desc rm) fs cs" and "c \<in> set cs"
    and "vq_used_cons_idx vq \<noteq> us_idx (vm_used rm)"
    and "length (us_ring (vm_used rm)) = unat (vq_nentries vq)" and "unat (vq_nentries vq) = 2 ^ e"
    and "us_ring (vm_used rm) ! (unat (vq_used_cons_idx vq) mod unat (vq_nentries vq))
           = \<lparr>ue_id = ucast (hd c), ue_len = len\<rparr>"
  shows "\<exists>r vq' rm'. virtqueue_get_buffer b vq rm = Some (Some r, vq', rm')
    \<and> ur_cookie r = dx_cookie (vq_descx vq ! unat (hd c)) \<and> ur_cookie r \<noteq> NULL \<and> ur_len r = len
    \<and> driver_inv vq' (vm_desc rm') (c @ fs) (remove1 c cs)
    \<and> unat (vq_free_cnt vq') = unat (vq_free_cnt vq) + length c
    \<and> vq_used_cons_idx vq' = vq_used_cons_idx vq + 1
    \<and> vm_avail rm' = vm_avail rm \<and> vm_used rm' = vm_used rm"
proof -
  note I = assms(1) [unfolded driver_inv_def]
  have slot: "ring_slot vq (vq_used_cons_idx vq) = unat (vq_used_cons_idx vq) mod unat (vq_nentries vq)"
    by (rule ring_slot_mod [OF assms(5)])
  have ok: "ring_slot vq (vq_used_cons_idx vq) < length (us_ring (vm_used rm))"
    using assms(4,5) by (simp add: slot)
  have id: "ucast (ue_id (us_ring (vm_used rm) ! ring_slot vq (vq_used_cons_idx vq))) = hd c"
    using assms(6) by (simp add: slot)
  note eq = get_buffer_eq [OF assms(1-3) ok id]
  note inv' = get_buffer_inv [OF assms(1,2)]
  have "unat (hd c) < unat (vq_nentries vq)" "dx_cookie (vq_descx vq ! unat (hd c)) \<noteq> NULL"
    using I assms(2) linked_bounded linked_ne by (metis hd_in_set imageI)+
  moreover have "unat (vq_free_cnt (get_buffer_vq vq c)) = unat (vq_free_cnt vq) + length c"
    using inv' I by (simp add: driver_inv_def)
  ultimately show ?thesis
    using eq inv' assms(6) by (simp add: slot get_buffer_vq_def)
qed

section \<open>Concrete queues\<close>

text \<open>A driver queue of four entries over a one-page region, empty and with one buffer in flight.\<close>

definition demo_dev :: virtio_device where
  "demo_dev = \<lparr>vd_notifyid = 0, vd_id = \<lparr>id_device = 7, id_vendor = 0, id_version = 0\<rparr>,
     vd_features = 0, vd_role = VIRTIO_DEV_DRIVER\<rparr>"

definition demo_desc :: "u16 \<Rightarrow> vring_desc" where
  "demo_desc nx = \<lparr>d_addr = 0, d_len = 0, d_flags = 0, d_next = nx\<rparr>"

definition demo_rm :: vring_mem where
  "demo_rm = \<lparr>vm_desc = [demo_desc 1, demo_desc 2, demo_desc 3, demo_desc VQ_RING_DESC_CHAIN_END],
     vm_avail = \<lparr>av_flags = 0, av_idx = 0, av_ring = replicate 4 0, av_used_event = 0\<rparr>,
     vm_used = \<lparr>us_flags = 0, us_idx = 0, us_ring = replicate 4 \<lparr>ue_id = 0, ue_len = 0\<rparr>,
       us_avail_event = 0\<rparr>\<rparr>"

definition demo_vq :: virtqueue where
  "demo_vq = (virtqueue_zero 4)\<lparr>vq_nentries := 4, vq_free_cnt := 4, vq_shm_io := Some demo_io,
     vq_notify := 0x700, vq_callback := 0x800\<rparr>"

lemma demo_inv: "driver_inv demo_vq (vm_desc demo_rm) [0, 1, 2, 3] []"
  by (simp add: driver_inv_def demo_vq_def demo_rm_def virtqueue_zero_def demo_desc_def all_idx_def
      upt_rec nth_replicate)

definition demo_rm1 :: vring_mem where
  "demo_rm1 = demo_rm\<lparr>
     vm_desc := (vm_desc demo_rm)[0 := \<lparr>d_addr = 0x4010, d_len = 64, d_flags = 0, d_next = 1\<rparr>],
     vm_used := \<lparr>us_flags = 0, us_idx = 1,
       us_ring = \<lparr>ue_id = 0, ue_len = 17\<rparr> # replicate 3 \<lparr>ue_id = 0, ue_len = 0\<rparr>,
       us_avail_event = 0\<rparr>\<rparr>"

definition demo_vq1 :: virtqueue where
  "demo_vq1 = add_buffer_vq demo_vq 1 1 0x99"

lemma demo_inv1: "driver_inv demo_vq1 (vm_desc demo_rm1) [1, 2, 3] [[0]]"
proof -
  have "driver_inv demo_vq1 (vm_desc demo_rm1) (drop 1 [0, 1, 2, 3]) (take 1 [0, 1, 2, 3] # [])"
    unfolding demo_vq1_def
  proof (rule add_buffer_inv [OF demo_inv, where bufs = "[\<lparr>vb_buf = 0x1010, vb_len = 64\<rparr>]" and
          pa = "\<lambda>_. 0x4010" and readable = 1])
    show "vm_desc demo_rm1 ! unat x = vm_desc demo_rm ! unat x" if "x \<notin> set (take 1 [0, 1, 2, 3])" for x
    proof -
      have "unat x \<noteq> 0" using that by (simp add: unat_eq_zero)
      then show ?thesis by (simp add: demo_rm1_def)
    qed
    show "free_path (vm_desc demo_rm1) 1 (drop 1 [0, 1, 2, 3])"
      by (simp add: demo_rm1_def demo_rm_def demo_desc_def)
  qed (simp_all add: demo_rm1_def demo_rm_def demo_desc_def demo_vq_def virtqueue_zero_def
        desc_fill_def desc_flags_def)
  then show ?thesis by simp
qed

theorem create_establishes_inv_witness:
  "\<exists>vq rm'. virtqueue_create default_build demo_dev 0 ''rx'' \<lparr>ai_vaddr = 0x1000, ai_align = 4096, ai_num_descs = 4\<rparr>
      0x800 0x700 (virtqueue_zero (2 ^ 2)) demo_rm = Some (VQUEUE_SUCCESS, vq, rm')
    \<and> driver_inv vq (vm_desc rm') (all_idx (2 ^ 2)) [] \<and> virtqueue_empty vq
    \<and> vm_avail rm' = vm_avail demo_rm \<and> vm_used rm' = vm_used demo_rm"
  by (rule create_establishes_inv)
    (simp_all add: VIRTIO_ROLE_IS_DRIVER_def default_build_def demo_dev_def demo_rm_def)

theorem add_buffer_correct_witness:
  "\<exists>vq' rm'. virtqueue_add_buffer default_build demo_vq demo_rm
        [\<lparr>vb_buf = 0x1010, vb_len = 64\<rparr>, \<lparr>vb_buf = 0x1050, vb_len = 32\<rparr>] 1 1 0x99
      = Some (VQUEUE_SUCCESS, vq', rm')
    \<and> driver_inv vq' (vm_desc rm') [2, 3] [[0, 1]] \<and> av_idx (vm_avail rm') = 1
    \<and> d_flags (vm_desc rm' ! 0) = VRING_DESC_F_NEXT \<and> d_flags (vm_desc rm' ! 1) = VRING_DESC_F_WRITE"
proof -
  have tr: "translates demo_vq [\<lparr>vb_buf = 0x1010, vb_len = 64\<rparr>, \<lparr>vb_buf = 0x1050, vb_len = 32\<rparr>] 2
      (\<lambda>j. if j = 0 then 0x4010 else 0x4050)"
    by (simp add: translates_def virtqueue_virt_to_phys_def demo_vq_def virtqueue_zero_def demo_io_def
        metal_io_virt_to_phys_def metal_io_virt_to_offset_def metal_io_phys_def no_ops_def arr_get_def
        less_2_cases_iff)
  obtain vq' rm' where r: "virtqueue_add_buffer default_build demo_vq demo_rm
        [\<lparr>vb_buf = 0x1010, vb_len = 64\<rparr>, \<lparr>vb_buf = 0x1050, vb_len = 32\<rparr>] 1 1 0x99
      = Some (VQUEUE_SUCCESS, vq', rm')"
    "driver_inv vq' (vm_desc rm') (drop 2 [0, 1, 2, 3]) [take 2 [0, 1, 2, 3]]"
    "\<And>j. j < 2 \<Longrightarrow> d_flags (vm_desc rm' ! unat ([0, 1, 2, 3 :: u16] ! j)) = desc_flags (int j) 2 1"
    "av_idx (vm_avail rm') = av_idx (vm_avail demo_rm) + 1"
    using add_buffer_correct [OF demo_inv _ _ _ tr, of 1 1 "0x99" 2 default_build]
    by (simp add: demo_vq_def demo_rm_def virtqueue_zero_def) blast
  show ?thesis
    using r(1,2,4) r(3) [of 0] r(3) [of 1]
    by (intro exI [of _ vq'] exI [of _ rm']) (simp add: desc_flags_def demo_rm_def)
qed

theorem get_buffer_correct_witness:
  "\<exists>r vq' rm'. virtqueue_get_buffer default_build demo_vq1 demo_rm1 = Some (Some r, vq', rm')
    \<and> ur_cookie r = 0x99 \<and> ur_len r = 17 \<and> driver_inv vq' (vm_desc rm') [0, 1, 2, 3] []"
  using get_buffer_correct [OF demo_inv1, of "[0]" 2 17 default_build]
  by (auto simp: demo_vq1_def add_buffer_vq_def demo_vq_def virtqueue_zero_def demo_rm1_def)

end
