(* ===== verification/Vq_Link.thy ===== *)
theory Vq_Link
  imports Virtqueue_Driver
begin

unbundle bit_operations_syntax

text \<open>
  A driver and a device on the two ends of one virtqueue. The link state holds both control
  blocks, the shared ring memory and the chain heads the device has taken and not yet returned.
  The four operations are those of \<^verbatim>\<open>virtqueue.c\<close>; the step relation interleaves them in any
  order. Each ring is shown to be a FIFO channel (locale \<open>fifo_channel\<close>), and the pair refines a
  specification that knows nothing of rings, indices or descriptors: queues of requests.
\<close>

section \<open>The entries between two free-running indices\<close>

definition pending :: "'a list \<Rightarrow> u16 \<Rightarrow> u16 \<Rightarrow> 'a list" where
  "pending xs s e = map (\<lambda>i. xs ! ((unat s + i) mod length xs)) [0..<unat (e - s)]"

lemma length_pending [simp]: "length (pending xs s e) = unat (e - s)"
  by (simp add: pending_def)

lemma pending_same [simp]: "pending xs s s = []"
  by (simp add: pending_def)

lemma unat_u16_suc_mod:
  assumes "n dvd 65536"
  shows "(unat (s + 1 :: u16) + i) mod n = (unat s + Suc i) mod n"
proof -
  have "unat (s + 1) mod n = (unat s + 1) mod n"
    using mod_mod_cancel [OF assms, of "unat s + 1"] by (simp add: unat_word_ariths)
  then have "(unat (s + 1) mod n + i) mod n = ((unat s + 1) mod n + i) mod n" by simp
  then show ?thesis by (simp add: mod_simps)
qed

lemma pending_pop:
  assumes "s \<noteq> e" and "length xs dvd 65536"
  shows "pending xs s e = xs ! (unat s mod length xs) # pending xs (s + 1) e"
proof -
  have "e - s \<noteq> 0" using assms(1) by simp
  then have n: "unat (e - s) = Suc (unat (e - (s + 1)))"
    by (metis Suc_pred' diff_diff_add gr0I unat_eq_zero unat_minus_one)
  then show ?thesis
    unfolding pending_def n
    by (simp add: upt_conv_Cons map_Suc_upt [symmetric] unat_u16_suc_mod [OF assms(2)] del: upt_Suc)
qed

lemma unat_step:
  assumes "unat (e - s :: u16) < 65535"
  shows "unat (e + 1 - s) = Suc (unat (e - s))"
proof -
  have "e + 1 - s = (e - s) + 1" by simp
  moreover have "unat ((e - s) + 1) = Suc (unat (e - s))"
    using assms unat_add_wrap [of "e - s" 1] by simp
  ultimately show ?thesis by (simp only:)
qed

lemma mod_unat_add:
  assumes "n dvd 65536"
  shows "(unat (s :: u16) + unat (e - s)) mod n = unat e mod n"
proof -
  have "unat e = (unat s + unat (e - s)) mod 65536"
    using unat_add_wrap [of s "e - s"] by simp
  then show ?thesis using mod_mod_cancel [OF assms, of "unat s + unat (e - s)"] by simp
qed

lemma pending_push:
  assumes "unat (e - s) < length xs" and "length xs dvd 65536" and "length xs \<le> 32768"
  shows "pending (xs[unat e mod length xs := v]) s (e + 1) = pending xs s e @ [v]"
proof -
  let ?n = "length xs" and ?k = "unat (e - s)"
  have k: "unat (e + 1 - s) = Suc ?k" using assms(1,3) by (intro unat_step) linarith
  have other: "(unat s + i) mod ?n \<noteq> unat e mod ?n" if "i < ?k" for i
  proof
    assume "(unat s + i) mod ?n = unat e mod ?n"
    then have "(unat s + i) mod ?n = (unat s + ?k) mod ?n" by (simp add: mod_unat_add [OF assms(2)])
    then have "?n dvd (unat s + ?k) - (unat s + i)" by (metis mod_eq_dvd_iff_nat nat_add_left_cancel_le that less_imp_le)
    then have "?n dvd ?k - i" by simp
    then have "?n \<le> ?k - i" using that by (intro dvd_imp_le) simp_all
    then show False using assms(1) by simp
  qed
  have "unat e mod ?n < ?n" using assms(1) by (intro mod_less_divisor) linarith
  then show ?thesis
    unfolding pending_def length_list_update k
    using not_sym [OF other] by (simp add: mod_unat_add [OF assms(2)])
qed

section \<open>FIFO channels\<close>

text \<open>
  What a client of a ring relies on: a push that is allowed appends to the contents, a pop takes
  the oldest entry, and the invariant stays.
\<close>

locale fifo_channel =
  fixes inv :: "'s \<Rightarrow> bool"
    and contents :: "'s \<Rightarrow> 'a list"
    and can_push :: "'s \<Rightarrow> 'x \<Rightarrow> bool"
    and item :: "'s \<Rightarrow> 'x \<Rightarrow> 'a"
    and push :: "'x \<Rightarrow> 's \<Rightarrow> 's option"
    and pop :: "'s \<Rightarrow> ('a option \<times> 's) option"
  assumes push_law: "inv s \<Longrightarrow> can_push s x \<Longrightarrow>
      \<exists>s'. push x s = Some s' \<and> inv s' \<and> contents s' = contents s @ [item s x]"
    and pop_empty: "inv s \<Longrightarrow> contents s = [] \<Longrightarrow> pop s = Some (None, s)"
    and pop_law: "inv s \<Longrightarrow> contents s = a # as \<Longrightarrow>
      \<exists>s'. pop s = Some (Some a, s') \<and> inv s' \<and> contents s' = as"
begin

fun drain :: "nat \<Rightarrow> 's \<Rightarrow> ('a list \<times> 's) option" where
  "drain 0 s = Some ([], s)"
| "drain (Suc n) s = (case pop s of
       Some (Some a, s') \<Rightarrow> (case drain n s' of Some (as, t) \<Rightarrow> Some (a # as, t) | None \<Rightarrow> None)
     | Some (None, s') \<Rightarrow> Some ([], s')
     | None \<Rightarrow> None)"

lemma drain_contents:
  assumes "inv s" and "length (contents s) \<le> n"
  shows "\<exists>s'. drain n s = Some (contents s, s') \<and> inv s' \<and> contents s' = []"
  using assms
proof (induction n arbitrary: s)
  case 0
  then show ?case by simp
next
  case (Suc n)
  show ?case
  proof (cases "contents s")
    case Nil
    then show ?thesis using pop_empty Suc.prems by simp
  next
    case (Cons a as)
    then obtain s' where "pop s = Some (Some a, s')" "inv s'" "contents s' = as"
      using pop_law Suc.prems(1) by blast
    then show ?thesis using Suc.IH [of s'] Suc.prems(2) Cons by auto
  qed
qed

lemma pop_contents:
  assumes "inv s" and "pop s = Some (r, s')"
  shows "contents s = (case r of None \<Rightarrow> [] | Some a \<Rightarrow> [a]) @ contents s'" and "inv s'"
proof -
  show "contents s = (case r of None \<Rightarrow> [] | Some a \<Rightarrow> [a]) @ contents s'"
    using pop_empty [OF assms(1)] pop_law [OF assms(1)] assms(2) by (cases "contents s") fastforce+
  show "inv s'"
    using pop_empty [OF assms(1)] pop_law [OF assms(1)] assms by (cases "contents s") fastforce+
qed

end

section \<open>The link\<close>

record link =
  drv :: virtqueue
  dev :: virtqueue
  ring :: vring_mem
  held :: "u16 list"

definition n_of :: "link \<Rightarrow> nat" where
  "n_of s = unat (vq_nentries (drv s))"

definition offered :: "link \<Rightarrow> u16 list" where
  "offered s = pending (av_ring (vm_avail (ring s))) (vq_available_idx (dev s)) (av_idx (vm_avail (ring s)))"

definition returned :: "link \<Rightarrow> vring_used_elem list" where
  "returned s = pending (us_ring (vm_used (ring s))) (vq_used_cons_idx (drv s)) (us_idx (vm_used (ring s)))"

text \<open>A driver's request: the list of buffers, how many are readable, the cookie.\<close>

record offer =
  of_bufs :: "virtqueue_buf list"
  of_readable :: int
  of_writable :: int
  of_cookie :: addr

definition link_offer :: "build \<Rightarrow> offer \<Rightarrow> link \<Rightarrow> link option" where
  "link_offer b r s = do {
     (st, vq, rm) \<leftarrow> virtqueue_add_buffer b (drv s) (ring s) (of_bufs r) (of_readable r) (of_writable r) (of_cookie r);
     require (st = VQUEUE_SUCCESS);
     Some (s\<lparr>drv := vq, ring := rm\<rparr>)
   }"

definition link_take :: "build \<Rightarrow> link \<Rightarrow> (avail_result option \<times> link) option" where
  "link_take b s = do {
     (r, vq) \<leftarrow> virtqueue_get_available_buffer b (dev s) (ring s);
     Some (r, s\<lparr>dev := vq, held := (case r of None \<Rightarrow> held s | Some a \<Rightarrow> held s @ [ar_idx a])\<rparr>)
   }"

definition link_return :: "build \<Rightarrow> u16 \<times> u32 \<Rightarrow> link \<Rightarrow> link option" where
  "link_return b x s = do {
     (st, vq, rm) \<leftarrow> virtqueue_add_consumed_buffer b (dev s) (ring s) (fst x) (snd x);
     require (st = VQUEUE_SUCCESS);
     Some (s\<lparr>dev := vq, ring := rm, held := remove1 (fst x) (held s)\<rparr>)
   }"

definition link_reclaim :: "build \<Rightarrow> link \<Rightarrow> (used_result option \<times> link) option" where
  "link_reclaim b s = do {
     (r, vq, rm) \<leftarrow> virtqueue_get_buffer b (drv s) (ring s);
     Some (r, s\<lparr>drv := vq, ring := rm\<rparr>)
   }"

text \<open>
  The invariant of the link: the chains in flight are exactly those waiting in the available ring,
  held by the device, or waiting in the used ring, each once.
\<close>

definition dev_reads :: "link \<Rightarrow> u16 \<Rightarrow> bool" where
  "dev_reads s h = (virtqueue_phys_to_virt (dev s) (d_addr (vm_desc (ring s) ! unat h)) \<noteq> None)"

definition used_ids :: "vring_used_elem list \<Rightarrow> u16 list" where
  "used_ids us = map (\<lambda>u. ucast (ue_id u)) us"

definition link_inv :: "link \<Rightarrow> u16 list \<Rightarrow> u16 list list \<Rightarrow> bool" where
  "link_inv s fs cs = (
     driver_inv (drv s) (vm_desc (ring s)) fs cs \<and>
     (\<exists>e. n_of s = 2 ^ e) \<and> vq_nentries (dev s) = vq_nentries (drv s) \<and> \<not> vq_inuse (dev s) \<and>
     length (av_ring (vm_avail (ring s))) = n_of s \<and> length (us_ring (vm_used (ring s))) = n_of s \<and>
     (\<forall>u \<in> set (returned s). ue_id u = ucast (ucast (ue_id u) :: u16)) \<and>
     (\<forall>c \<in> set cs. dev_reads s (hd c)) \<and>
     mset (map hd cs) = mset (offered s @ held s @ used_ids (returned s)))"

lemma pow2_dvd: "n = 2 ^ e \<Longrightarrow> n \<le> 32768 \<Longrightarrow> n dvd (65536::nat)"
proof -
  assume n: "n = 2 ^ e" "n \<le> 32768"
  then have "(2::nat) ^ e \<le> 2 ^ 15" by simp
  then have "e \<le> 15" by (rule power_le_imp_le_exp [rotated]) simp
  then have "(2::nat) ^ e dvd 2 ^ 16" by (intro le_imp_power_dvd) simp
  then show ?thesis using n by simp
qed

lemma length_le_concat: "\<forall>c \<in> set cs. c \<noteq> [] \<Longrightarrow> length cs \<le> length (concat cs)"
  by (induction cs) (auto simp: Suc_le_eq neq_Nil_conv)

lemma chains_le:
  assumes "driver_inv vq ds fs cs"
  shows "length cs \<le> length (concat cs)"
  using assms linked_ne by (intro length_le_concat) (auto simp: driver_inv_def)

lemma link_inv_facts:
  assumes "link_inv s fs cs"
  obtains e where "unat (vq_nentries (drv s)) = 2 ^ e" "n_of s dvd 65536" "n_of s \<le> 32768"
    "length cs \<le> n_of s" "length (offered s) + length (held s) + length (returned s) = length cs"
    "length fs + length (concat cs) = n_of s"
proof -
  note L = assms [unfolded link_inv_def]
  obtain e where e: "n_of s = 2 ^ e" using L by blast
  have n: "n_of s \<le> 32768" using L by (simp add: driver_inv_def n_of_def)
  have "length (map hd cs) = length (offered s @ held s @ used_ids (returned s))"
    using L by (metis size_mset)
  then have sum: "length (offered s) + length (held s) + length (returned s) = length cs"
    by (simp add: used_ids_def)
  have sz: "length fs + length (concat cs) = n_of s"
    unfolding n_of_def using L driver_inv_length by blast
  have "length cs \<le> length (concat cs)" using L chains_le by blast
  then have "length cs \<le> n_of s" using sz by simp
  then show ?thesis using that e n sum sz pow2_dvd [OF e n] by (simp add: n_of_def)
qed

section \<open>The driver's two operations\<close>

text \<open>What the ends agree on about a chain in flight: its cookie and its first buffer.\<close>

type_synonym req = "addr \<times> u64 \<times> u32"

definition req_of :: "link \<Rightarrow> u16 \<Rightarrow> req" where
  "req_of s h = (dx_cookie (vq_descx (drv s) ! unat h),
     d_addr (vm_desc (ring s) ! unat h), d_len (vm_desc (ring s) ! unat h))"

text \<open>An offer the driver may make: enough free descriptors, buffers both sides can address.\<close>

definition can_offer :: "link \<Rightarrow> offer \<Rightarrow> bool" where
  "can_offer s r = (
     0 < of_readable r + of_writable r \<and>
     nat (of_readable r + of_writable r) \<le> unat (vq_free_cnt (drv s)) \<and>
     nat (of_readable r + of_writable r) \<le> length (of_bufs r) \<and> of_cookie r \<noteq> NULL \<and>
     (\<forall>j < nat (of_readable r + of_writable r).
        virtqueue_virt_to_phys (drv s) (vb_buf (of_bufs r ! j)) \<noteq> None) \<and>
     virtqueue_phys_to_virt (dev s) (the (virtqueue_virt_to_phys (drv s) (vb_buf (of_bufs r ! 0)))) \<noteq> None)"

definition offer_req :: "link \<Rightarrow> offer \<Rightarrow> req" where
  "offer_req s r = (of_cookie r, the (virtqueue_virt_to_phys (drv s) (vb_buf (of_bufs r ! 0))),
     of_int (vb_len (of_bufs r ! 0)))"

lemma can_offer_translates:
  assumes "can_offer s r"
  shows "translates (drv s) (of_bufs r) (nat (of_readable r + of_writable r))
    (\<lambda>j. the (virtqueue_virt_to_phys (drv s) (vb_buf (of_bufs r ! j))))"
  using assms by (simp add: can_offer_def translates_def)

lemma heads_not_free:
  assumes "driver_inv vq ds fs cs" and "c \<in> set cs"
  shows "hd c \<notin> set fs" and "unat (hd c) < length ds"
proof -
  have lk: "linked ds c" using assms by (simp add: driver_inv_def)
  then have "hd c \<in> set (concat cs)" using head_in_chain assms(2) by blast
  then show "hd c \<notin> set fs" using driver_inv_distinct [OF assms(1)] by (auto simp del: set_concat)
  show "unat (hd c) < length ds" using linked_bounded [OF lk] linked_ne [OF lk] by simp
qed

lemma offer_ok:
  assumes inv: "link_inv s fs cs" and can: "can_offer s r"
  defines "k \<equiv> nat (of_readable r + of_writable r)"
  shows "\<exists>s'. link_offer b r s = Some s' \<and> link_inv s' (drop k fs) (take k fs # cs)
    \<and> offered s' = offered s @ [hd fs] \<and> held s' = held s \<and> returned s' = returned s
    \<and> req_of s' (hd fs) = offer_req s r \<and> (\<forall>c \<in> set cs. req_of s' (hd c) = req_of s (hd c))"
proof -
  note L = inv [unfolded link_inv_def]
  have D: "driver_inv (drv s) (vm_desc (ring s)) fs cs" using L by blast
  have k: "0 < k" "of_readable r + of_writable r = int k" "k \<le> length fs" and cookie: "of_cookie r \<noteq> NULL"
    using can D by (auto simp: can_offer_def k_def driver_inv_def)
  obtain e where e: "unat (vq_nentries (drv s)) = 2 ^ e" "n_of s dvd 65536" "n_of s \<le> 32768"
    "length cs \<le> n_of s" "length (offered s) + length (held s) + length (returned s) = length cs"
    "length fs + length (concat cs) = n_of s"
    by (rule link_inv_facts [OF inv])
  define pa where "pa j = the (virtqueue_virt_to_phys (drv s) (vb_buf (of_bufs r ! j)))" for j
  have tr: "translates (drv s) (of_bufs r) k pa"
    using can_offer_translates [OF can] by (simp add: k_def pa_def [abs_def])
  have av: "length (av_ring (vm_avail (ring s))) = unat (vq_nentries (drv s))"
    using L by (simp add: n_of_def)
  obtain ds idx where step:
    "virtqueue_add_buffer b (drv s) (ring s) (of_bufs r) (of_readable r) (of_writable r) (of_cookie r) =
       Some (VQUEUE_SUCCESS, add_buffer_vq (drv s) idx k (of_cookie r),
         (ring s)\<lparr>vm_desc := ds, vm_avail := push_avail (drv s) (hd fs) (vm_avail (ring s))\<rparr>)"
    and ds: "length ds = length (vm_desc (ring s))" "free_path ds idx (drop k fs)"
      "\<And>x. x \<notin> set (take k fs) \<Longrightarrow> ds ! unat x = vm_desc (ring s) ! unat x"
      "\<And>j. j < k \<Longrightarrow> ds ! unat (fs ! j) = desc_fill (of_bufs r ! j) (pa j)
                (desc_flags (int j) (int k) (of_readable r)) (vm_desc (ring s) ! unat (fs ! j))"
      "vq_desc_head_idx (drv s) = hd fs"
    by (rule add_buffer_step [OF D k tr cookie av e(1)]) blast
  define s' where "s' = s\<lparr>drv := add_buffer_vq (drv s) idx k (of_cookie r),
    ring := (ring s)\<lparr>vm_desc := ds, vm_avail := push_avail (drv s) (hd fs) (vm_avail (ring s))\<rparr>\<rparr>"
  have run: "link_offer b r s = Some s'" by (simp add: link_offer_def step s'_def)
  have inv': "driver_inv (drv s') (vm_desc (ring s')) (drop k fs) (take k fs # cs)"
    using add_buffer_inv [OF D k(1,3) cookie ds] by (simp add: s'_def)
  have fs0: "hd fs = fs ! 0" using k by (cases fs) auto
  have hin: "hd fs \<in> set fs" using k by (cases fs) auto
  have hlen: "unat (hd fs) < length (vq_descx (drv s))" "unat (hd fs) < n_of s"
    using driver_inv_set [OF D] hin D by (auto simp: driver_inv_def n_of_def)
  have room: "length (offered s) < n_of s"
    using chains_le [OF D] e(5,6) k by linarith
  have off: "offered s' = offered s @ [hd fs]"
    using room pending_push [of "av_idx (vm_avail (ring s))" "vq_available_idx (dev s)" "av_ring (vm_avail (ring s))" "hd fs"]
      av e(2,3) by (simp add: offered_def s'_def push_avail_def ring_slot_mod [OF e(1)] n_of_def)
  have ret: "returned s' = returned s"
    by (simp add: returned_def s'_def add_buffer_vq_def)
  have req: "req_of s' (hd c) = req_of s (hd c)" if "c \<in> set cs" for c
  proof -
    have "hd c \<notin> set fs" using heads_not_free [OF D that] by simp
    then have "hd c \<notin> set (take k fs)" "hd c \<noteq> hd fs" using hin by (auto dest: in_set_takeD)
    then show ?thesis using ds(3) [of "hd c"] by (simp add: req_of_def s'_def add_buffer_vq_def ds(5))
  qed
  have req0: "req_of s' (hd fs) = offer_req s r"
    using ds(4) [of 0] k(1) hlen(1)
    by (simp add: req_of_def s'_def add_buffer_vq_def ds(5) offer_req_def desc_fill_def fs0 [symmetric] pa_def)
  have reads: "dev_reads s' (hd c)" if "c \<in> set (take k fs # cs)" for c
  proof (cases "c \<in> set cs")
    case True
    then show ?thesis using L req [OF True] by (simp add: dev_reads_def req_of_def s'_def)
  next
    case False
    then have "hd c = hd fs" using that k by (simp add: hd_take)
    then show ?thesis using req0 can by (simp add: dev_reads_def req_of_def s'_def can_offer_def offer_req_def)
  qed
  have "link_inv s' (drop k fs) (take k fs # cs)"
    unfolding link_inv_def
    using L inv' reads off ret k
    by (simp add: n_of_def) (simp add: s'_def add_buffer_vq_def push_avail_def hd_take)
  then show ?thesis using run off ret req req0 by (auto simp: s'_def)
qed

lemma pending_Nil: "(pending xs s e = []) = (s = e)"
proof -
  have "(pending xs s e = []) = (unat (e - s) = 0)" by (metis length_pending length_0_conv)
  also have "\<dots> = (s = e)" by (auto simp: unat_eq_zero)
  finally show ?thesis .
qed

lemma free_desc_nth:
  "free_desc ds c h ! i = ds ! i \<or> free_desc ds c h ! i = (ds ! i)\<lparr>d_next := h\<rparr>"
  by (cases "i = unat (last c)"; cases "i < length ds") (simp_all add: free_desc_def list_update_beyond)

lemma free_desc_keeps [simp]:
  "d_addr (free_desc ds c h ! i) = d_addr (ds ! i)" "d_len (free_desc ds c h ! i) = d_len (ds ! i)"
  using free_desc_nth [of ds c h i] by auto

lemma phys_to_virt_frame [simp]:
  "virtqueue_phys_to_virt (vq\<lparr>vq_available_idx := i\<rparr>) a = virtqueue_phys_to_virt vq a"
  "virtqueue_phys_to_virt (vq\<lparr>vq_inuse := u\<rparr>) a = virtqueue_phys_to_virt vq a"
  "virtqueue_phys_to_virt (vq\<lparr>vq_queued_cnt := q\<rparr>) a = virtqueue_phys_to_virt vq a"
  by (simp_all add: virtqueue_phys_to_virt_def)

lemma reclaim_none: "returned s = [] \<Longrightarrow> link_reclaim b s = Some (None, s)"
  by (simp add: returned_def pending_Nil link_reclaim_def virtqueue_get_buffer_def)

lemma reclaim_ok:
  assumes inv: "link_inv s fs cs" and ret: "returned s = u # us"
  shows "\<exists>r s' c. link_reclaim b s = Some (Some r, s') \<and> c \<in> set cs \<and> hd c = ucast (ue_id u)
    \<and> link_inv s' (c @ fs) (remove1 c cs)
    \<and> ur_cookie r = fst (req_of s (hd c)) \<and> ur_len r = ue_len u
    \<and> offered s' = offered s \<and> held s' = held s \<and> returned s' = us
    \<and> (\<forall>c' \<in> set (remove1 c cs). req_of s' (hd c') = req_of s (hd c'))"
proof -
  note L = inv [unfolded link_inv_def]
  have D: "driver_inv (drv s) (vm_desc (ring s)) fs cs" using L by blast
  obtain e where e: "unat (vq_nentries (drv s)) = 2 ^ e" "n_of s dvd 65536" "n_of s \<le> 32768"
    by (rule link_inv_facts [OF inv])
  have us: "length (us_ring (vm_used (ring s))) = n_of s" using L by blast
  have ne: "vq_used_cons_idx (drv s) \<noteq> us_idx (vm_used (ring s))"
    using ret pending_Nil by (metis list.discI returned_def)
  have popped: "u = us_ring (vm_used (ring s)) ! ring_slot (drv s) (vq_used_cons_idx (drv s))"
    "us = pending (us_ring (vm_used (ring s))) (vq_used_cons_idx (drv s) + 1) (us_idx (vm_used (ring s)))"
    using ret pending_pop [OF ne, of "us_ring (vm_used (ring s))"] us e(2)
    by (simp_all add: returned_def ring_slot_mod [OF e(1)] n_of_def)
  have "ucast (ue_id u) \<in># mset (map hd cs)"
    using L ret by (simp add: used_ids_def)
  then obtain c where c: "c \<in> set cs" "hd c = ucast (ue_id u)" by auto
  have slot: "ring_slot (drv s) (vq_used_cons_idx (drv s)) < length (us_ring (vm_used (ring s)))"
    using e(1) us by (simp add: ring_slot_mod [OF e(1)] n_of_def)
  note eq = get_buffer_eq [OF D c(1) ne slot, of b]
  define s' where "s' = s\<lparr>drv := get_buffer_vq (drv s) c,
    ring := (ring s)\<lparr>vm_desc := free_desc (vm_desc (ring s)) c (vq_desc_head_idx (drv s))\<rparr>\<rparr>"
  have run: "link_reclaim b s = Some (Some \<lparr>ur_cookie = dx_cookie (vq_descx (drv s) ! unat (hd c)),
      ur_len = ue_len u, ur_idx = of_nat (ring_slot (drv s) (vq_used_cons_idx (drv s)))\<rparr>, s')"
    using eq c(2) by (simp add: link_reclaim_def popped(1) [symmetric] s'_def)
  have inv': "driver_inv (drv s') (vm_desc (ring s')) (c @ fs) (remove1 c cs)"
    using get_buffer_inv [OF D c(1)] by (simp add: s'_def)
  have ret': "returned s' = us" by (simp add: returned_def s'_def get_buffer_vq_def popped(2))
  have off': "offered s' = offered s" and hl: "held s' = held s" by (simp_all add: offered_def s'_def)
  have desc: "d_addr (vm_desc (ring s') ! unat h) = d_addr (vm_desc (ring s) ! unat h)"
    "d_len (vm_desc (ring s') ! unat h) = d_len (vm_desc (ring s) ! unat h)" for h
    by (simp_all add: s'_def)
  have heads: "distinct (map hd cs)"
    by (rule distinct_heads) (use D driver_inv_distinct [OF D] linked_ne in \<open>auto simp: driver_inv_def\<close>)
  have ms: "mset (map hd (remove1 c cs)) = mset (map hd cs) - {#hd c#}"
    using c(1) by (simp add: image_mset_Diff)
  have req: "req_of s' (hd c') = req_of s (hd c')" if "c' \<in> set (remove1 c cs)" for c'
  proof -
    have "mset (c # remove1 c cs) = mset cs" using c(1) by simp
    then have "mset (map hd (c # remove1 c cs)) = mset (map hd cs)" by (simp only: mset_map)
    then have "distinct (map hd (c # remove1 c cs))"
      using heads by (blast dest: mset_eq_imp_distinct_iff)
    then have "hd c \<noteq> hd c'" using that by auto
    then show ?thesis by (simp add: req_of_def desc) (simp add: s'_def get_buffer_vq_def)
  qed
  have "link_inv s' (c @ fs) (remove1 c cs)"
    unfolding link_inv_def
  proof (intro conjI)
    show "mset (map hd (remove1 c cs)) = mset (offered s' @ held s' @ used_ids (returned s'))"
      unfolding ms using L ret c(2) by (simp add: off' ret' hl used_ids_def)
    show "\<forall>c \<in> set (remove1 c cs). dev_reads s' (hd c)"
      using L by (auto simp: dev_reads_def desc) (auto simp: s'_def dest: set_remove1_subset [THEN subsetD])
  qed (use L inv' in \<open>simp_all add: ret' ret n_of_def\<close>, simp_all add: s'_def get_buffer_vq_def)
  then show ?thesis
    using run c off' ret' req by (auto simp: s'_def req_of_def)
qed

section \<open>The device's two operations\<close>

lemma take_none: "offered s = [] \<Longrightarrow> link_take b s = Some (None, s)"
  by (simp add: offered_def pending_Nil link_take_def virtqueue_get_available_buffer_def)

lemma take_ok:
  assumes inv: "link_inv s fs cs" and off: "offered s = h # hs"
  shows "\<exists>r s'. link_take b s = Some (Some r, s') \<and> link_inv s' fs cs
    \<and> ar_idx r = h \<and> ar_len r = snd (snd (req_of s h))
    \<and> virtqueue_phys_to_virt (dev s) (fst (snd (req_of s h))) = Some (ar_buffer r)
    \<and> offered s' = hs \<and> held s' = held s @ [h] \<and> returned s' = returned s \<and> req_of s' = req_of s"
proof -
  note L = inv [unfolded link_inv_def]
  have D: "driver_inv (drv s) (vm_desc (ring s)) fs cs" using L by blast
  obtain e where e: "unat (vq_nentries (drv s)) = 2 ^ e" "n_of s dvd 65536" "n_of s \<le> 32768"
    by (rule link_inv_facts [OF inv])
  have e': "unat (vq_nentries (dev s)) = 2 ^ e" using e L by simp
  have av: "length (av_ring (vm_avail (ring s))) = n_of s" using L by blast
  have ne: "vq_available_idx (dev s) \<noteq> av_idx (vm_avail (ring s))"
    using off pending_Nil by (metis list.discI offered_def)
  have popped: "h = av_ring (vm_avail (ring s)) ! ring_slot (dev s) (vq_available_idx (dev s))"
    "hs = pending (av_ring (vm_avail (ring s))) (vq_available_idx (dev s) + 1) (av_idx (vm_avail (ring s)))"
    using off pending_pop [OF ne, of "av_ring (vm_avail (ring s))"] av e(2) L
    by (simp_all add: offered_def ring_slot_mod [OF e'] n_of_def)
  have slot: "ring_slot (dev s) (vq_available_idx (dev s)) < length (av_ring (vm_avail (ring s)))"
    using e' av L by (simp add: ring_slot_mod [OF e'] n_of_def)
  have "h \<in># mset (map hd cs)" using L off by simp
  then obtain c where c: "c \<in> set cs" "hd c = h" by auto
  have hb: "unat h < length (vm_desc (ring s))" using heads_not_free [OF D c(1)] c(2) by simp
  obtain buf where buf: "virtqueue_phys_to_virt (dev s) (d_addr (vm_desc (ring s) ! unat h)) = Some buf"
    using L c by (auto simp: dev_reads_def)
  define vq where "vq = (dev s)\<lparr>vq_available_idx := vq_available_idx (dev s) + 1\<rparr>"
  have idle: "\<not> vq_inuse (dev s)" "\<not> vq_inuse vq" using L by (simp_all add: vq_def)
  have slot': "ring_slot ((dev s)\<lparr>vq_inuse := True\<rparr>) i = ring_slot (dev s) i" for i
    by (simp add: ring_slot_def)
  have "virtqueue_get_available_buffer b (dev s) (ring s)
      = Some (Some \<lparr>ar_buffer = buf, ar_idx = h, ar_len = d_len (vm_desc (ring s) ! unat h)\<rparr>, vq)"
    using ne slot hb buf idle
    by (simp add: virtqueue_get_available_buffer_def VQUEUE_BUSY_def VQUEUE_IDLE_def Let_def slot'
        virtqueue_get_buffer_addr_def virtqueue_get_buffer_length_def popped(1) [symmetric] vq_def)
  then have run: "link_take b s = Some (Some \<lparr>ar_buffer = buf, ar_idx = h,
      ar_len = d_len (vm_desc (ring s) ! unat h)\<rparr>, s\<lparr>dev := vq, held := held s @ [h]\<rparr>)"
    by (simp add: link_take_def)
  define s' where "s' = s\<lparr>dev := vq, held := held s @ [h]\<rparr>"
  have same: "offered s' = hs" "returned s' = returned s" "req_of s' = req_of s" "n_of s' = n_of s"
    "dev_reads s' = dev_reads s"
    using popped(2)
    by (simp_all add: s'_def offered_def returned_def req_of_def [abs_def] n_of_def vq_def dev_reads_def [abs_def])
  have "link_inv s' fs cs"
    using L off unfolding link_inv_def same by (simp add: s'_def vq_def)
  then show ?thesis
    using run buf same unfolding s'_def [symmetric]
    by (intro exI conjI) (assumption | simp add: req_of_def s'_def)+
qed

lemma return_ok:
  assumes inv: "link_inv s fs cs" and h: "h \<in> set (held s)"
  shows "\<exists>s'. link_return b (h, len) s = Some s' \<and> link_inv s' fs cs
    \<and> offered s' = offered s \<and> held s' = remove1 h (held s)
    \<and> returned s' = returned s @ [\<lparr>ue_id = ucast h, ue_len = len\<rparr>] \<and> req_of s' = req_of s"
proof -
  note L = inv [unfolded link_inv_def]
  have D: "driver_inv (drv s) (vm_desc (ring s)) fs cs" using L by blast
  obtain e where e: "unat (vq_nentries (drv s)) = 2 ^ e" "n_of s dvd 65536" "n_of s \<le> 32768"
    "length cs \<le> n_of s" "length (offered s) + length (held s) + length (returned s) = length cs"
    by (rule link_inv_facts [OF inv])
  have e': "unat (vq_nentries (dev s)) = 2 ^ e" using e L by simp
  have us: "length (us_ring (vm_used (ring s))) = n_of s" using L by blast
  have "h \<in># mset (map hd cs)" using L h by simp
  then obtain c where c: "c \<in> set cs" "hd c = h" by auto
  have hb: "h < vq_nentries (dev s)"
    using heads_not_free [OF D c(1)] c(2) D L by (simp add: driver_inv_def word_less_nat_alt)
  have slot: "ring_slot (dev s) i < length (us_ring (vm_used (ring s)))" for i
    using e' us L by (simp add: ring_slot_mod [OF e'] n_of_def)
  have slot': "ring_slot ((dev s)\<lparr>vq_inuse := True\<rparr>) i = ring_slot (dev s) i" for i
    by (simp add: ring_slot_def)
  define s' where "s' = s\<lparr>dev := (dev s)\<lparr>vq_queued_cnt := vq_queued_cnt (dev s) + 1\<rparr>,
    ring := (ring s)\<lparr>vm_used := (vm_used (ring s))\<lparr>us_ring := (us_ring (vm_used (ring s)))
        [ring_slot (dev s) (us_idx (vm_used (ring s))) := \<lparr>ue_id = ucast h, ue_len = len\<rparr>],
      us_idx := us_idx (vm_used (ring s)) + 1\<rparr>\<rparr>, held := remove1 h (held s)\<rparr>"
  have idle: "\<not> vq_inuse (dev s)" using L by simp
  have run: "link_return b (h, len) s = Some s'"
    using hb slot idle
    by (simp add: link_return_def virtqueue_add_consumed_buffer_def VQUEUE_BUSY_def VQUEUE_IDLE_def Let_def slot' s'_def)
  have "0 < length (held s)" using h by (cases "held s") auto
  then have room: "length (returned s) < n_of s" using e(4,5) by linarith
  have ret: "returned s' = returned s @ [\<lparr>ue_id = ucast h, ue_len = len\<rparr>]"
    using room us e(2,3) L
      pending_push [of "us_idx (vm_used (ring s))" "vq_used_cons_idx (drv s)" "us_ring (vm_used (ring s))"]
    by (simp add: returned_def s'_def ring_slot_mod [OF e'] n_of_def)
  have same: "offered s' = offered s" "req_of s' = req_of s" "n_of s' = n_of s" "dev_reads s' = dev_reads s"
    by (simp_all add: s'_def offered_def req_of_def [abs_def] n_of_def dev_reads_def [abs_def])
  have ms: "mset (held s) = add_mset h (mset (held s'))" using h by (simp add: s'_def)
  have "link_inv s' fs cs"
    unfolding link_inv_def same ret
  proof (intro conjI)
    show "mset (map hd cs) = mset (offered s @ held s' @ used_ids (returned s @ [\<lparr>ue_id = ucast h, ue_len = len\<rparr>]))"
      using L ms by (simp add: used_ids_def)
  qed (use L in \<open>simp_all add: s'_def\<close>)
  then show ?thesis using run ret same by (auto simp: s'_def)
qed

section \<open>Both rings are FIFO channels\<close>

definition link_ok :: "link \<Rightarrow> bool" where
  "link_ok s = (\<exists>fs cs. link_inv s fs cs)"

lemma link_okI: "link_inv s fs cs \<Longrightarrow> link_ok s"
  by (auto simp: link_ok_def)

text \<open>
  The available ring: the driver pushes by \<open>virtqueue_add_buffer\<close>, the device pops by
  \<open>virtqueue_get_available_buffer\<close>; an entry is the head and what the device is told of it.
\<close>

definition avail_view :: "link \<Rightarrow> (u16 \<times> req) list" where
  "avail_view s = map (\<lambda>h. (h, req_of s h)) (offered s)"

definition avail_item :: "link \<Rightarrow> offer \<Rightarrow> u16 \<times> req" where
  "avail_item s r = (vq_desc_head_idx (drv s), offer_req s r)"

text \<open>The entry as the device sees it in its result; the cookie is the driver's own.\<close>

definition avail_pop :: "build \<Rightarrow> link \<Rightarrow> ((u16 \<times> req) option \<times> link) option" where
  "avail_pop b s = do {
     (r, s') \<leftarrow> link_take b s;
     Some (map_option (\<lambda>a. (ar_idx a, fst (req_of s (ar_idx a)), fst (snd (req_of s (ar_idx a))), ar_len a)) r, s')
   }"

text \<open>The used ring: the device returns, the driver reclaims; an entry is cookie and length.\<close>

definition used_view :: "link \<Rightarrow> (addr \<times> u32) list" where
  "used_view s = map (\<lambda>u. (fst (req_of s (ucast (ue_id u))), ue_len u)) (returned s)"

definition used_item :: "link \<Rightarrow> u16 \<times> u32 \<Rightarrow> addr \<times> u32" where
  "used_item s x = (fst (req_of s (fst x)), snd x)"

definition used_pop :: "build \<Rightarrow> link \<Rightarrow> ((addr \<times> u32) option \<times> link) option" where
  "used_pop b s = do {
     (r, s') \<leftarrow> link_reclaim b s;
     Some (map_option (\<lambda>u. (ur_cookie u, ur_len u)) r, s')
   }"

lemma link_heads:
  assumes "link_inv s fs cs"
  shows "set (offered s) \<union> set (held s) \<union> set (used_ids (returned s)) = hd ` set cs"
proof -
  have "set_mset (mset (map hd cs)) = set_mset (mset (offered s @ held s @ used_ids (returned s)))"
    using assms by (simp only: link_inv_def)
  then show ?thesis by auto
qed

lemma link_head_chain:
  assumes "link_inv s fs cs" and "h \<in> set (offered s) \<union> set (held s) \<union> set (used_ids (returned s))"
  shows "\<exists>c \<in> set cs. hd c = h"
  using assms(2) unfolding link_heads [OF assms(1)] by auto

interpretation avail_channel: fifo_channel link_ok avail_view can_offer avail_item "link_offer b" "avail_pop b" for b
proof unfold_locales
  fix s r
  assume "link_ok s" and can: "can_offer s r"
  then obtain fs cs where inv: "link_inv s fs cs" by (auto simp: link_ok_def)
  have D: "driver_inv (drv s) (vm_desc (ring s)) fs cs" using inv by (simp add: link_inv_def)
  have "fs \<noteq> []" using can D by (auto simp: can_offer_def driver_inv_def)
  then have head: "vq_desc_head_idx (drv s) = hd fs" using D by (cases fs) (auto simp: driver_inv_def)
  from offer_ok [OF inv can] obtain s' where s': "link_offer b r s = Some s'"
    "link_ok s'" "offered s' = offered s @ [hd fs]" "req_of s' (hd fs) = offer_req s r"
    "\<forall>c \<in> set cs. req_of s' (hd c) = req_of s (hd c)"
    unfolding link_ok_def by blast
  have "req_of s' h = req_of s h" if "h \<in> set (offered s)" for h
    using link_head_chain [OF inv, of h] that s'(5) by auto
  then show "\<exists>s'. link_offer b r s = Some s' \<and> link_ok s' \<and> avail_view s' = avail_view s @ [avail_item s r]"
    using s' by (simp add: avail_view_def avail_item_def head)
next
  fix s
  assume "link_ok s" "avail_view s = []"
  then show "avail_pop b s = Some (None, s)" by (simp add: avail_view_def avail_pop_def take_none)
next
  fix s a as
  assume "link_ok s" "avail_view s = a # as"
  then obtain fs cs h hs where inv: "link_inv s fs cs" and off: "offered s = h # hs"
    and a: "a = (h, req_of s h)" "as = map (\<lambda>h. (h, req_of s h)) hs"
    by (auto simp: link_ok_def avail_view_def)
  from take_ok [OF inv off, of b] show "\<exists>s'. avail_pop b s = Some (Some a, s') \<and> link_ok s' \<and> avail_view s' = as"
    using a by (fastforce simp: avail_pop_def avail_view_def link_ok_def)
qed

interpretation used_channel: fifo_channel link_ok used_view "\<lambda>s x. fst x \<in> set (held s)" used_item
  "link_return b" "used_pop b" for b
proof unfold_locales
  fix s and x :: "u16 \<times> u32"
  assume "link_ok s" and h: "fst x \<in> set (held s)"
  then obtain fs cs where inv: "link_inv s fs cs" by (auto simp: link_ok_def)
  from return_ok [OF inv h, of b "snd x"]
  show "\<exists>s'. link_return b x s = Some s' \<and> link_ok s' \<and> used_view s' = used_view s @ [used_item s x]"
    by (auto simp: used_view_def used_item_def intro: link_okI)
next
  fix s
  assume "link_ok s" "used_view s = []"
  then show "used_pop b s = Some (None, s)" by (simp add: used_view_def used_pop_def reclaim_none)
next
  fix s a as
  assume "link_ok s" "used_view s = a # as"
  then obtain fs cs u us where inv: "link_inv s fs cs" and ret: "returned s = u # us"
    and a: "a = (fst (req_of s (ucast (ue_id u))), ue_len u)"
      "as = map (\<lambda>u. (fst (req_of s (ucast (ue_id u))), ue_len u)) us"
    by (auto simp: link_ok_def used_view_def)
  from reclaim_ok [OF inv ret, of b] obtain r s' c where r: "link_reclaim b s = Some (Some r, s')"
    "c \<in> set cs" "hd c = ucast (ue_id u)" "link_inv s' (c @ fs) (remove1 c cs)"
    "ur_cookie r = fst (req_of s (hd c))" "ur_len r = ue_len u" "returned s' = us"
    "\<forall>c' \<in> set (remove1 c cs). req_of s' (hd c') = req_of s (hd c')"
    by blast
  have "req_of s' (ucast (ue_id v)) = req_of s (ucast (ue_id v))" if "v \<in> set us" for v
  proof -
    have "ucast (ue_id v) \<in> set (used_ids (returned s'))" using that r(7) by (simp add: used_ids_def)
    then show ?thesis using link_head_chain [OF r(4)] r(8) by fastforce
  qed
  then show "\<exists>s'. used_pop b s = Some (Some a, s') \<and> link_ok s' \<and> used_view s' = as"
    using r a by (auto simp: used_pop_def used_view_def link_ok_def)
qed

section \<open>All interleavings\<close>

datatype label =
  Offer offer
| Take "avail_result option"
| Return u16 u32
| Reclaim "used_result option"

inductive link_step :: "build \<Rightarrow> link \<Rightarrow> label \<Rightarrow> link \<Rightarrow> bool" for b where
  offer: "can_offer s r \<Longrightarrow> link_offer b r s = Some s' \<Longrightarrow> link_step b s (Offer r) s'"
| take: "link_take b s = Some (r, s') \<Longrightarrow> link_step b s (Take r) s'"
| return: "h \<in> set (held s) \<Longrightarrow> link_return b (h, len) s = Some s' \<Longrightarrow> link_step b s (Return h len) s'"
| reclaim: "link_reclaim b s = Some (r, s') \<Longrightarrow> link_step b s (Reclaim r) s'"

inductive_cases link_stepE: "link_step b s l s'"

definition link_reach :: "build \<Rightarrow> link \<Rightarrow> link \<Rightarrow> bool" where
  "link_reach b = (\<lambda>s s'. \<exists>l. link_step b s l s')\<^sup>*\<^sup>*"

definition link_init :: "link \<Rightarrow> bool" where
  "link_init s = (driver_inv (drv s) (vm_desc (ring s)) (all_idx (n_of s)) [] \<and> (\<exists>e. n_of s = 2 ^ e) \<and>
     vq_nentries (dev s) = vq_nentries (drv s) \<and> \<not> vq_inuse (dev s) \<and>
     length (av_ring (vm_avail (ring s))) = n_of s \<and> length (us_ring (vm_used (ring s))) = n_of s \<and>
     vq_available_idx (dev s) = av_idx (vm_avail (ring s)) \<and>
     vq_used_cons_idx (drv s) = us_idx (vm_used (ring s)) \<and> held s = [])"

lemma init_inv: "link_init s \<Longrightarrow> link_inv s (all_idx (n_of s)) []"
  by (simp add: link_init_def link_inv_def offered_def returned_def used_ids_def)

lemma take_keeps_ok:
  assumes "link_ok s" and "link_take b s = Some (r, s')"
  shows "link_ok s'"
proof -
  obtain fs cs where inv: "link_inv s fs cs" using assms(1) by (auto simp: link_ok_def)
  show ?thesis
  proof (cases "offered s")
    case Nil
    then show ?thesis using assms take_none by simp
  next
    case (Cons h hs)
    then show ?thesis using assms(2) take_ok [OF inv Cons, of b] by (auto intro: link_okI)
  qed
qed

lemma reclaim_keeps_ok:
  assumes "link_ok s" and "link_reclaim b s = Some (r, s')"
  shows "link_ok s'"
proof -
  obtain fs cs where inv: "link_inv s fs cs" using assms(1) by (auto simp: link_ok_def)
  show ?thesis
  proof (cases "returned s")
    case Nil
    then show ?thesis using assms reclaim_none by simp
  next
    case (Cons u us)
    then show ?thesis using assms(2) reclaim_ok [OF inv Cons, of b] by (auto intro: link_okI)
  qed
qed

lemma offer_keeps_ok: "can_offer s r \<Longrightarrow> link_offer b r s = Some s' \<Longrightarrow> link_ok s \<Longrightarrow> link_ok s'"
  using avail_channel.push_law [of s r b] by auto

lemma return_keeps_ok:
  "h \<in> set (held s) \<Longrightarrow> link_return b (h, len) s = Some s' \<Longrightarrow> link_ok s \<Longrightarrow> link_ok s'"
  using used_channel.push_law [of s "(h, len)" b] by auto

lemma step_keeps_ok: "link_step b s l s' \<Longrightarrow> link_ok s \<Longrightarrow> link_ok s'"
  by (erule link_stepE) (blast intro: offer_keeps_ok take_keeps_ok return_keeps_ok reclaim_keeps_ok)+

lemma reach_ok:
  assumes "link_reach b s s'" and "link_ok s"
  shows "link_ok s'"
  using assms unfolding link_reach_def
  by (induction rule: rtranclp_induct) (auto intro: step_keeps_ok)

lemma link_distinct:
  assumes "link_inv s fs cs"
  shows "distinct (offered s @ held s @ used_ids (returned s))"
proof -
  have D: "driver_inv (drv s) (vm_desc (ring s)) fs cs"
    and ms: "mset (map hd cs) = mset (offered s @ held s @ used_ids (returned s))"
    using assms by (simp_all add: link_inv_def)
  have "distinct (map hd cs)"
    by (rule distinct_heads) (use D driver_inv_distinct [OF D] linked_ne in \<open>auto simp: driver_inv_def\<close>)
  then show ?thesis using ms by (blast dest: mset_eq_imp_distinct_iff)
qed

text \<open>
  C2: in every interleaving of driver and device operations the descriptor table stays
  partitioned: the free descriptors, the chains waiting in the available ring, held by the
  device, and waiting in the used ring are disjoint and together all of it, so nothing is lost
  or handed out twice.
\<close>

theorem link_partition:
  assumes "link_init s" and "link_reach b s s'"
  shows "\<exists>fs cs. driver_inv (drv s') (vm_desc (ring s')) fs cs
    \<and> mset (map hd cs) = mset (offered s' @ held s' @ used_ids (returned s'))
    \<and> distinct (offered s' @ held s' @ used_ids (returned s'))
    \<and> length (offered s') + length (held s') + length (returned s') + unat (vq_free_cnt (drv s')) \<le> n_of s'"
proof -
  have "link_ok s'"
    using reach_ok [OF assms(2)] init_inv [OF assms(1)] link_okI by blast
  then obtain fs cs where inv: "link_inv s' fs cs" by (auto simp: link_ok_def)
  obtain e where f: "length (offered s') + length (held s') + length (returned s') = length cs"
    "length fs + length (concat cs) = n_of s'"
    by (rule link_inv_facts [OF inv])
  have D: "driver_inv (drv s') (vm_desc (ring s')) fs cs"
    and ms: "mset (map hd cs) = mset (offered s' @ held s' @ used_ids (returned s'))"
    using inv by (simp_all add: link_inv_def)
  have "length (offered s') + length (held s') + length (returned s') + unat (vq_free_cnt (drv s')) \<le> n_of s'"
    using chains_le [OF D] f D by (simp add: driver_inv_def)
  then show ?thesis using D ms link_distinct [OF inv] by blast
qed

section \<open>Refinement of request queues\<close>

text \<open>
  The specification: requests, named by a handle, wait in a queue, are held by the device in any
  number, and come back through a second queue with a length. \<open>td\<close> is the driver's and \<open>tr\<close> the
  device's translation between its own and physical addresses.
\<close>

record spec =
  sp_offered :: "(u16 \<times> req) list"
  sp_held :: "(u16 \<times> req) list"
  sp_returned :: "((u16 \<times> req) \<times> u32) list"

inductive spec_step ::
  "(addr \<Rightarrow> u64 option) \<Rightarrow> (u64 \<Rightarrow> addr option) \<Rightarrow> spec \<Rightarrow> label \<Rightarrow> spec \<Rightarrow> bool" for td tr where
  sp_offer: "h \<notin> fst ` (set (sp_offered a) \<union> set (sp_held a) \<union> fst ` set (sp_returned a)) \<Longrightarrow>
    td (vb_buf (of_bufs r ! 0)) = Some pa \<Longrightarrow> q = (of_cookie r, pa, of_int (vb_len (of_bufs r ! 0))) \<Longrightarrow>
    spec_step td tr a (Offer r) (a\<lparr>sp_offered := sp_offered a @ [(h, q)]\<rparr>)"
| sp_take: "sp_offered a = (h, c, pa, len) # xs \<Longrightarrow> tr pa = Some (ar_buffer x) \<Longrightarrow> ar_idx x = h \<Longrightarrow>
    ar_len x = len \<Longrightarrow>
    spec_step td tr a (Take (Some x)) (a\<lparr>sp_offered := xs, sp_held := sp_held a @ [(h, c, pa, len)]\<rparr>)"
| sp_take_none: "sp_offered a = [] \<Longrightarrow> spec_step td tr a (Take None) a"
| sp_return: "(h, q) \<in> set (sp_held a) \<Longrightarrow>
    spec_step td tr a (Return h len)
      (a\<lparr>sp_held := remove1 (h, q) (sp_held a), sp_returned := sp_returned a @ [((h, q), len)]\<rparr>)"
| sp_reclaim: "sp_returned a = ((h, c, pa, l), len) # xs \<Longrightarrow> ur_cookie x = c \<Longrightarrow> ur_len x = len \<Longrightarrow>
    spec_step td tr a (Reclaim (Some x)) (a\<lparr>sp_returned := xs\<rparr>)"
| sp_reclaim_none: "sp_returned a = [] \<Longrightarrow> spec_step td tr a (Reclaim None) a"

definition tag :: "link \<Rightarrow> u16 \<Rightarrow> u16 \<times> req" where
  "tag s h = (h, req_of s h)"

definition abs_link :: "link \<Rightarrow> spec" where
  "abs_link s = \<lparr>sp_offered = map (tag s) (offered s), sp_held = map (tag s) (held s),
     sp_returned = map (\<lambda>u. (tag s (ucast (ue_id u)), ue_len u)) (returned s)\<rparr>"

lemma tag_remove1: "map (tag s) (remove1 h hs) = remove1 (tag s h) (map (tag s) hs)"
  by (induction hs) (auto simp: tag_def)

lemma abs_used: "map (\<lambda>u. (tag s (ucast (ue_id u)), ue_len u)) us
    = map (\<lambda>(h, l). (tag s h, l)) (zip (used_ids us) (map ue_len us))"
  by (induction us) (auto simp: used_ids_def)

lemma abs_cong:
  assumes "\<And>h. h \<in> set (offered s) \<union> set (held s) \<union> set (used_ids (returned s)) \<Longrightarrow> req_of s' h = req_of s h"
  shows "map (tag s') (offered s) = map (tag s) (offered s)" "map (tag s') (held s) = map (tag s) (held s)"
    "map (\<lambda>u. (tag s' (ucast (ue_id u)), ue_len u)) (returned s)
       = map (\<lambda>u. (tag s (ucast (ue_id u)), ue_len u)) (returned s)"
  using assms by (auto simp: tag_def used_ids_def)

lemma offer_refines:
  assumes inv: "link_inv s fs cs" and can: "can_offer s r" and run: "link_offer b r s = Some s'"
  shows "spec_step (virtqueue_virt_to_phys (drv s)) tr (abs_link s) (Offer r) (abs_link s')"
proof -
  from offer_ok [OF inv can, of b] run have s':
    "offered s' = offered s @ [hd fs]" "held s' = held s" "returned s' = returned s"
    "req_of s' (hd fs) = offer_req s r" "\<forall>c \<in> set cs. req_of s' (hd c) = req_of s (hd c)"
    by auto
  have keep: "req_of s' h = req_of s h"
    if "h \<in> set (offered s) \<union> set (held s) \<union> set (used_ids (returned s))" for h
    using link_head_chain [OF inv that] s'(5) by auto
  have "fs \<noteq> []" using can inv by (auto simp: can_offer_def link_inv_def driver_inv_def)
  then have "hd fs \<in> set fs" by simp
  moreover have "h \<notin> set fs" if "h \<in> set (offered s) \<union> set (held s) \<union> set (used_ids (returned s))" for h
    using link_head_chain [OF inv that] heads_not_free inv by (auto simp: link_inv_def)
  ultimately have fresh: "hd fs \<notin> set (offered s) \<union> set (held s) \<union> set (used_ids (returned s))" by blast
  have eq: "abs_link s' = (abs_link s)\<lparr>sp_offered := sp_offered (abs_link s) @ [(hd fs, offer_req s r)]\<rparr>"
    using abs_cong [of s s', OF keep] s' by (simp add: abs_link_def) (simp add: tag_def)
  show ?thesis
    unfolding eq
    by (rule sp_offer [where pa = "fst (snd (offer_req s r))"])
      (use fresh can in \<open>auto simp: abs_link_def tag_def used_ids_def offer_req_def image_iff can_offer_def\<close>)
qed

lemma take_refines:
  assumes inv: "link_inv s fs cs" and run: "link_take b s = Some (r, s')"
  shows "spec_step td (virtqueue_phys_to_virt (dev s)) (abs_link s) (Take r) (abs_link s')"
proof (cases "offered s")
  case Nil
  then have "r = None" "s' = s" using run take_none by auto
  then show ?thesis using Nil by (auto intro: sp_take_none simp: abs_link_def)
next
  case (Cons h hs)
  from take_ok [OF inv Cons, of b] run obtain x where x: "r = Some x" "ar_idx x = h"
    "ar_len x = snd (snd (req_of s h))"
    "virtqueue_phys_to_virt (dev s) (fst (snd (req_of s h))) = Some (ar_buffer x)"
    "offered s' = hs" "held s' = held s @ [h]" "returned s' = returned s" "req_of s' = req_of s"
    by auto
  obtain c pa l where q: "req_of s h = (c, pa, l)" by (cases "req_of s h") auto
  have "tag s' = tag s" using x(8) by (auto simp: tag_def)
  then have eq: "abs_link s' = (abs_link s)\<lparr>sp_offered := map (tag s) hs,
      sp_held := sp_held (abs_link s) @ [(h, c, pa, l)]\<rparr>"
    using x q by (simp add: abs_link_def) (simp add: tag_def)
  show ?thesis
    unfolding eq x(1)
    by (rule sp_take) (use x q Cons in \<open>simp_all add: abs_link_def tag_def\<close>)
qed

lemma return_refines:
  assumes inv: "link_inv s fs cs" and h: "h \<in> set (held s)" and run: "link_return b (h, len) s = Some s'"
  shows "spec_step td tr (abs_link s) (Return h len) (abs_link s')"
proof -
  from return_ok [OF inv h, of b len] run have x: "offered s' = offered s" "held s' = remove1 h (held s)"
    "returned s' = returned s @ [\<lparr>ue_id = ucast h, ue_len = len\<rparr>]" "req_of s' = req_of s"
    by auto
  have "tag s' = tag s" using x(4) by (auto simp: tag_def)
  then have eq: "abs_link s' = (abs_link s)\<lparr>sp_held := remove1 (h, req_of s h) (sp_held (abs_link s)),
      sp_returned := sp_returned (abs_link s) @ [((h, req_of s h), len)]\<rparr>"
    using x tag_remove1 [of s h "held s"] by (simp add: abs_link_def) (simp add: tag_def)
  show ?thesis
    unfolding eq by (rule sp_return) (use h in \<open>simp add: abs_link_def tag_def\<close>)
qed

lemma reclaim_refines:
  assumes inv: "link_inv s fs cs" and run: "link_reclaim b s = Some (r, s')"
  shows "spec_step td tr (abs_link s) (Reclaim r) (abs_link s')"
proof (cases "returned s")
  case Nil
  then have "r = None" "s' = s" using run reclaim_none by auto
  then show ?thesis using Nil by (auto intro: sp_reclaim_none simp: abs_link_def)
next
  case (Cons u us)
  from reclaim_ok [OF inv Cons, of b] run obtain x c where x: "r = Some x" "hd c = ucast (ue_id u)"
    "link_inv s' (c @ fs) (remove1 c cs)" "ur_cookie x = fst (req_of s (hd c))" "ur_len x = ue_len u"
    "offered s' = offered s" "held s' = held s" "returned s' = us"
    "\<forall>c' \<in> set (remove1 c cs). req_of s' (hd c') = req_of s (hd c')"
    by auto
  have keep: "req_of s h = req_of s' h"
    if "h \<in> set (offered s') \<union> set (held s') \<union> set (used_ids (returned s'))" for h
    using link_head_chain [OF x(3) that] x(9) by auto
  obtain k pa l where q: "req_of s (ucast (ue_id u)) = (k, pa, l)"
    by (cases "req_of s (ucast (ue_id u))") auto
  have eq: "abs_link s' = (abs_link s)\<lparr>sp_returned := map (\<lambda>u. (tag s (ucast (ue_id u)), ue_len u)) us\<rparr>"
    using abs_cong [of s' s, OF keep] x by (simp add: abs_link_def)
  show ?thesis
    unfolding eq x(1)
    by (rule sp_reclaim) (use x q Cons in \<open>simp_all add: abs_link_def tag_def\<close>)
qed

text \<open>
  C1: every step of the two-sided link, from any state reached from an initial one, is a step of
  the specification with the same label: buffers reach the device in the order they were offered
  and with the addresses and lengths the driver gave, a returned buffer comes back to the driver
  with its own cookie and the device's length, and rings and descriptors are invisible.
\<close>

theorem link_refines_spec:
  assumes "link_init s0" and "link_reach b s0 s" and "link_step b s l s'"
  shows "spec_step (virtqueue_virt_to_phys (drv s)) (virtqueue_phys_to_virt (dev s)) (abs_link s) l (abs_link s')"
proof -
  have "link_ok s" using reach_ok [OF assms(2)] init_inv [OF assms(1)] link_okI by blast
  then obtain fs cs where inv: "link_inv s fs cs" by (auto simp: link_ok_def)
  show ?thesis
    using assms(3)
    by (rule link_stepE) (use inv in \<open>blast intro: offer_refines take_refines return_refines reclaim_refines\<close>)+
qed

text \<open>
  C3: no operation is ever undefined on a reachable link, in a debug build or not: the device can
  always ask for a buffer, the driver can always ask for a used one, an allowed offer is accepted
  and a held buffer can be returned.
\<close>

theorem link_never_stuck:
  assumes "link_init s0" and "link_reach b s0 s"
  shows "link_take b s \<noteq> None \<and> link_reclaim b s \<noteq> None
    \<and> (\<forall>r. can_offer s r \<longrightarrow> link_offer b r s \<noteq> None)
    \<and> (\<forall>h len. h \<in> set (held s) \<longrightarrow> link_return b (h, len) s \<noteq> None)"
proof -
  have ok: "link_ok s" using reach_ok [OF assms(2)] init_inv [OF assms(1)] link_okI by blast
  then obtain fs cs where inv: "link_inv s fs cs" by (auto simp: link_ok_def)
  have "link_take b s \<noteq> None"
    using take_none [of s b] take_ok [OF inv, of _ _ b] by (cases "offered s") auto
  moreover have "link_reclaim b s \<noteq> None"
    using reclaim_none [of s b] reclaim_ok [OF inv, of _ _ b] by (cases "returned s") auto
  moreover have "link_offer b r s \<noteq> None" if "can_offer s r" for r
    using avail_channel.push_law [OF ok that, of b] by auto
  moreover have "link_return b (h, len) s \<noteq> None" if "h \<in> set (held s)" for h len
    using used_channel.push_law [OF ok, of "(h, len)" b] that by auto
  ultimately show ?thesis by blast
qed

text \<open>
  C4: draining the available ring of a reachable link yields exactly the requests that were
  offered and not yet taken, oldest first, and leaves the ring empty; draining the used ring
  yields cookie and length of every returned buffer, oldest first.
\<close>

theorem rings_drain_in_order:
  assumes "link_init s0" and "link_reach b s0 s"
  shows "(\<exists>s'. avail_channel.drain b (n_of s) s = Some (avail_view s, s') \<and> offered s' = [])
    \<and> (\<exists>s'. used_channel.drain b (n_of s) s = Some (used_view s, s') \<and> returned s' = [])"
proof -
  have ok: "link_ok s" using reach_ok [OF assms(2)] init_inv [OF assms(1)] link_okI by blast
  then obtain fs cs where inv: "link_inv s fs cs" by (auto simp: link_ok_def)
  have "length (avail_view s) \<le> n_of s" "length (used_view s) \<le> n_of s"
    using link_inv_facts [OF inv] by (fastforce simp: avail_view_def used_view_def)+
  then show ?thesis
    using avail_channel.drain_contents [OF ok, of "n_of s" b] used_channel.drain_contents [OF ok, of "n_of s" b]
    by (auto simp: avail_view_def used_view_def)
qed

section \<open>A concrete link\<close>

definition demo_link :: link where
  "demo_link = \<lparr>drv = demo_vq, dev = demo_vq, ring = demo_rm, held = []\<rparr>"

definition demo_offer :: offer where
  "demo_offer = \<lparr>of_bufs = [\<lparr>vb_buf = 0x1010, vb_len = 64\<rparr>], of_readable = 1, of_writable = 0, of_cookie = 0x99\<rparr>"

lemma demo_idx: "all_idx 4 = [0, 1, 2, 3]"
  by (simp add: all_idx_def upt_rec)

lemma demo_link_init: "link_init demo_link"
  using demo_inv
  by (simp add: link_init_def demo_link_def n_of_def demo_vq_def virtqueue_zero_def demo_rm_def demo_idx
      power2_eq_square exI [of _ 2])

lemma demo_can_offer: "can_offer demo_link demo_offer"
  by (simp add: can_offer_def demo_link_def demo_offer_def demo_vq_def virtqueue_zero_def
      virtqueue_virt_to_phys_def virtqueue_phys_to_virt_def demo_io_def metal_io_virt_to_phys_def
      metal_io_virt_to_offset_def metal_io_phys_def no_ops_def metal_io_phys_to_virt_def
      metal_io_phys_to_offset_def phys_walk.simps metal_io_virt_def)

text \<open>After one offer the buffer waits for the device.\<close>

lemma demo_step:
  obtains s where "link_step default_build demo_link (Offer demo_offer) s"
    "link_reach default_build demo_link s" "avail_view s = [(0, 0x99, 0x4010, 64)]"
proof -
  have "link_ok demo_link" using demo_link_init init_inv link_okI by blast
  then obtain s where s: "link_offer default_build demo_offer demo_link = Some s"
    "avail_view s = avail_view demo_link @ [avail_item demo_link demo_offer]"
    using avail_channel.push_law [OF _ demo_can_offer] by blast
  have st: "link_step default_build demo_link (Offer demo_offer) s"
    by (rule link_step.offer [OF demo_can_offer s(1)])
  then have "link_reach default_build demo_link s" by (auto simp: link_reach_def)
  moreover have "avail_view demo_link @ [avail_item demo_link demo_offer] = [(0, 0x99, 0x4010, 64)]"
    by (simp add: avail_view_def offered_def avail_item_def offer_req_def demo_link_def demo_offer_def
        demo_vq_def virtqueue_zero_def demo_rm_def virtqueue_virt_to_phys_def demo_io_def
        metal_io_virt_to_phys_def metal_io_virt_to_offset_def metal_io_phys_def no_ops_def)
  ultimately show ?thesis using that st s(2) by simp
qed

theorem link_partition_witness:
  "\<exists>s fs cs. avail_view s = [(0, 0x99, 0x4010, 64)] \<and> driver_inv (drv s) (vm_desc (ring s)) fs cs
    \<and> mset (map hd cs) = mset (offered s @ held s @ used_ids (returned s))"
proof -
  obtain s where s: "link_reach default_build demo_link s" "avail_view s = [(0, 0x99, 0x4010, 64)]"
    by (rule demo_step)
  from link_partition [OF demo_link_init s(1)] s(2) show ?thesis by blast
qed

theorem link_refines_spec_witness:
  "\<exists>s. avail_view s = [(0, 0x99, 0x4010, 64)] \<and>
     spec_step (virtqueue_virt_to_phys (drv demo_link)) (virtqueue_phys_to_virt (dev demo_link))
       (abs_link demo_link) (Offer demo_offer) (abs_link s)"
proof -
  obtain s where s: "link_step default_build demo_link (Offer demo_offer) s"
    "avail_view s = [(0, 0x99, 0x4010, 64)]"
    by (rule demo_step)
  have "link_reach default_build demo_link demo_link" by (simp add: link_reach_def)
  from link_refines_spec [OF demo_link_init this s(1)] s(2) show ?thesis by blast
qed

theorem link_never_stuck_witness:
  "\<exists>s. avail_view s = [(0, 0x99, 0x4010, 64)] \<and> link_take default_build s \<noteq> None
     \<and> link_reclaim default_build s \<noteq> None \<and> link_offer default_build demo_offer demo_link \<noteq> None"
proof -
  obtain s where s: "link_reach default_build demo_link s" "avail_view s = [(0, 0x99, 0x4010, 64)]"
    by (rule demo_step)
  have "link_reach default_build demo_link demo_link" by (simp add: link_reach_def)
  from link_never_stuck [OF demo_link_init this] link_never_stuck [OF demo_link_init s(1)] s(2) demo_can_offer
  show ?thesis by blast
qed

theorem rings_drain_in_order_witness:
  "\<exists>s s'. avail_channel.drain default_build (n_of s) s = Some ([(0, 0x99, 0x4010, 64)], s')"
proof -
  obtain s where s: "link_reach default_build demo_link s" "avail_view s = [(0, 0x99, 0x4010, 64)]"
    by (rule demo_step)
  from rings_drain_in_order [OF demo_link_init s(1)] s(2) show ?thesis by auto
qed

end
