(* ===== verification/Vq_Notify.thy ===== *)
theory Vq_Notify
  imports Vq_Link
begin

unbundle bit_operations_syntax

text \<open>
  Notification suppression of \<^verbatim>\<open>virtqueue.c\<close>: \<open>virtqueue_enable_cb\<close>, \<open>virtqueue_disable_cb\<close> and
  \<open>virtqueue_kick\<close>, with flags and with \<^verbatim>\<open>VIRTIO_RING_F_EVENT_IDX\<close>. One side asks to be told,
  the other decides in \<open>vq_ring_must_notify\<close>.
\<close>

lemma clear_bit_0 [simp]: "(x AND - 2) AND (1 :: u16) = 0"
  by (simp add: and.assoc)

lemma or_1_and_1 [simp]: "(x OR 1) AND (1 :: u16) = 1"
  by (simp add: bit.conj_disj_distrib2)

lemma role_exclusive: "VIRTIO_ROLE_IS_DRIVER b v \<Longrightarrow> \<not> VIRTIO_ROLE_IS_DEVICE b' v"
  by (auto simp: VIRTIO_ROLE_IS_DRIVER_def VIRTIO_ROLE_IS_DEVICE_def)

lemma role_exclusive': "VIRTIO_ROLE_IS_DEVICE b v \<Longrightarrow> \<not> VIRTIO_ROLE_IS_DRIVER b' v"
  by (auto simp: VIRTIO_ROLE_IS_DRIVER_def VIRTIO_ROLE_IS_DEVICE_def)

lemma unat_of_nat_u16: "q < 65536 \<Longrightarrow> unat (of_nat q :: u16) = q"
  by (simp add: unat_of_nat)

lemma need_event_at:
  assumes "0 < q" and "q < 65536"
  shows "vring_need_event e (e + of_nat q) e"
proof -
  have "e + of_nat q - e - 1 < e + of_nat q - e"
    using need_event_word [of "of_nat q" 0] assms
    by (simp add: word_less_nat_alt unat_of_nat_u16)
  then show ?thesis by (simp add: vring_need_event_def)
qed

text \<open>
  The kick handler's outcome does not depend on the build beyond the role: in a debug build the
  re-entrance flag is only borrowed.
\<close>

lemma kick_eq:
  assumes "\<not> vq_inuse vq"
  shows "virtqueue_kick b vdev vq rm =
    Some (vq_ring_must_notify b vdev vq rm \<and> vq_notify vq \<noteq> NULL, vq\<lparr>vq_queued_cnt := 0\<rparr>)"
proof -
  have "\<not> vq_inuse (vq\<lparr>vq_queued_cnt := 0\<rparr>)" using assms by simp
  then show ?thesis
    using assms
    by (simp add: virtqueue_kick_def VQUEUE_BUSY_def VQUEUE_IDLE_def vq_ring_notify_def Let_def
        vq_ring_must_notify_def)
qed

text \<open>
  C14: no wake-up is lost towards the driver. If \<open>virtqueue_enable_cb\<close> reports that no used buffer
  is waiting, then whatever number of buffers the device returns next, its \<open>virtqueue_kick\<close>
  notifies, with event indices as with flags and at every wrap of the index.
\<close>

theorem driver_wakeup_not_lost:
  assumes "VIRTIO_ROLE_IS_DRIVER b vd" and "VIRTIO_ROLE_IS_DEVICE b' vd'"
    and "event_idx_on vd' = event_idx_on vd"
    and "virtqueue_enable_cb b vd vq rm = Some (0, rm1)"
    and "vm_avail rm2 = vm_avail rm1" and "us_idx (vm_used rm2) = us_idx (vm_used rm1) + of_nat q"
    and "0 < q" and "q < 65536" and "vq_queued_cnt vq' = of_nat q"
    and "\<not> vq_inuse vq'" and "vq_notify vq' \<noteq> NULL"
  shows "virtqueue_kick b' vd' vq' rm2 = Some (True, vq'\<lparr>vq_queued_cnt := 0\<rparr>)"
proof -
  have no: "\<not> VIRTIO_ROLE_IS_DEVICE b vd" "\<not> VIRTIO_ROLE_IS_DRIVER b' vd'"
    using role_exclusive [OF assms(1)] role_exclusive' [OF assms(2)] by auto
  have en: "us_idx (vm_used rm1) - vq_used_cons_idx vq = 0"
    "rm1 = (if event_idx_on vd then set_used_event (vq_used_cons_idx vq) rm
            else set_avail_flags (av_flags (vm_avail rm) AND NOT VRING_AVAIL_F_NO_INTERRUPT) rm)"
    using assms(1,4) no
    by (auto simp: virtqueue_enable_cb_def vq_ring_enable_interrupt_def Let_def virtqueue_nused_def
        VQASSERT_def opt_simps word_gt_0 split: if_splits)
  have idx: "us_idx (vm_used rm2) = vq_used_cons_idx vq + of_nat q"
    using en(1) assms(6) by simp
  have "vq_ring_must_notify b' vd' vq' rm2"
  proof (cases "event_idx_on vd")
    case True
    have "vring_need_event (vq_used_cons_idx vq) (vq_used_cons_idx vq + of_nat q) (vq_used_cons_idx vq)"
      by (rule need_event_at [OF assms(7,8)])
    then show ?thesis
      using True assms(2,3,5,9) no en(2) idx
      by (simp add: vq_ring_must_notify_def set_used_event_def Let_def)
  next
    case False
    then show ?thesis
      using assms(2,3,5) no en(2) by (simp add: vq_ring_must_notify_def set_avail_flags_def)
  qed
  then show ?thesis using assms(11) by (simp add: kick_eq [OF assms(10)])
qed

text \<open>C15: the same towards the device: after an \<open>virtqueue_enable_cb\<close> that found nothing available,
  the driver's next \<open>virtqueue_kick\<close> with new buffers notifies.\<close>

theorem device_wakeup_not_lost:
  assumes "VIRTIO_ROLE_IS_DEVICE b vd" and "VIRTIO_ROLE_IS_DRIVER b' vd'"
    and "event_idx_on vd' = event_idx_on vd"
    and "virtqueue_enable_cb b vd vq rm = Some (0, rm1)"
    and "vm_used rm2 = vm_used rm1" and "av_idx (vm_avail rm2) = av_idx (vm_avail rm1) + of_nat q"
    and "0 < q" and "q < 65536" and "vq_queued_cnt vq' = of_nat q"
    and "\<not> vq_inuse vq'" and "vq_notify vq' \<noteq> NULL"
  shows "virtqueue_kick b' vd' vq' rm2 = Some (True, vq'\<lparr>vq_queued_cnt := 0\<rparr>)"
proof -
  have no: "\<not> VIRTIO_ROLE_IS_DRIVER b vd" "\<not> VIRTIO_ROLE_IS_DEVICE b' vd'"
    using role_exclusive' [OF assms(1)] role_exclusive [OF assms(2)] by auto
  have en: "av_idx (vm_avail rm1) - vq_available_idx vq = 0"
    "rm1 = (if event_idx_on vd then set_avail_event (vq_available_idx vq) rm
            else set_used_flags (us_flags (vm_used rm) AND NOT VRING_USED_F_NO_NOTIFY) rm)"
    using assms(1,4) no
    by (auto simp: virtqueue_enable_cb_def vq_ring_enable_interrupt_def Let_def virtqueue_navail_def
        VQASSERT_def opt_simps word_gt_0 split: if_splits)
  have idx: "av_idx (vm_avail rm2) = vq_available_idx vq + of_nat q"
    using en(1) assms(6) by simp
  have "vq_ring_must_notify b' vd' vq' rm2"
  proof (cases "event_idx_on vd")
    case True
    have "vring_need_event (vq_available_idx vq) (vq_available_idx vq + of_nat q) (vq_available_idx vq)"
      by (rule need_event_at [OF assms(7,8)])
    then show ?thesis
      using True assms(2,3,5,9) no en(2) idx
      by (simp add: vq_ring_must_notify_def set_avail_event_def Let_def)
  next
    case False
    then show ?thesis
      using assms(2,3,5) no en(2) by (simp add: vq_ring_must_notify_def set_used_flags_def)
  qed
  then show ?thesis using assms(11) by (simp add: kick_eq [OF assms(10)])
qed

text \<open>
  With event indices, \<open>virtqueue_disable_cb\<close> parks the event index one queue length behind the
  consumer, which no return within the ring passes, as long as the queue has at most \<open>2 ^ 14\<close>
  entries.
\<close>

lemma parked_event:
  fixes cons old new n :: u16
  assumes "unat (old - cons) + unat (new - old) \<le> unat n" and "unat n \<le> 2 ^ 14"
  shows "\<not> vring_need_event (cons - n - 1) new old"
proof -
  define d j where "d = new - old" and "j = (cons - n - 1) - old"
  have sum: "unat ((old - cons) + n) = unat (old - cons) + unat n"
    using assms by (subst unat_add_small) simp_all
  have "j = - 1 - ((old - cons) + n)" by (simp add: j_def)
  moreover have "unat (- 1 - ((old - cons) + n)) = 65535 - unat ((old - cons) + n)"
    by (subst unat_sub) (simp_all add: unsigned_minus_1_eq_mask mask_eq_exp_minus_1)
  ultimately have "unat j = 65535 - (unat (old - cons) + unat n)" by (simp only: sum)
  then have "\<not> j < d" using assms unfolding d_def word_less_nat_alt by simp
  moreover have "vring_need_event (cons - n - 1) new old = (d - j - 1 < d)"
    by (simp add: vring_need_event_def d_def j_def algebra_simps)
  ultimately show ?thesis by (simp add: need_event_word)
qed

text \<open>
  After \<open>virtqueue_disable_cb\<close> on the driver, kicks of the device call no notify, as long as
  what it has returned and the driver not yet consumed fits the ring (at most \<open>2 ^ 14\<close> entries
  with event indices, any size with flags).
\<close>

theorem disable_cb_suppresses:
  assumes "VIRTIO_ROLE_IS_DRIVER b vd" and "VIRTIO_ROLE_IS_DEVICE b' vd'"
    and "event_idx_on vd' = event_idx_on vd"
    and "virtqueue_disable_cb b vd vq rm = Some (vq1, rm1)" and "vm_avail rm2 = vm_avail rm1"
    and "unat (us_idx (vm_used rm2) - vq_queued_cnt vq' - vq_used_cons_idx vq) + unat (vq_queued_cnt vq')
           \<le> unat (vq_nentries vq)"
    and "event_idx_on vd \<longrightarrow> unat (vq_nentries vq) \<le> 2 ^ 14"
    and "\<not> vq_inuse vq'"
  shows "virtqueue_kick b' vd' vq' rm2 = Some (False, vq'\<lparr>vq_queued_cnt := 0\<rparr>)"
proof -
  have no: "\<not> VIRTIO_ROLE_IS_DEVICE b vd" "\<not> VIRTIO_ROLE_IS_DRIVER b' vd'"
    using role_exclusive [OF assms(1)] role_exclusive' [OF assms(2)] by auto
  have dis: "rm1 = (if event_idx_on vd then set_used_event (vq_used_cons_idx vq - vq_nentries vq - 1) rm
            else set_avail_flags (av_flags (vm_avail rm) OR VRING_AVAIL_F_NO_INTERRUPT) rm)"
    using assms(1,4) no
    by (auto simp: virtqueue_disable_cb_def Let_def VQUEUE_BUSY_def opt_simps split: if_splits)
  have "\<not> vq_ring_must_notify b' vd' vq' rm2"
  proof (cases "event_idx_on vd")
    case True
    have "\<not> vring_need_event (vq_used_cons_idx vq - vq_nentries vq - 1) (us_idx (vm_used rm2))
        (us_idx (vm_used rm2) - vq_queued_cnt vq')"
      by (rule parked_event) (use assms(6,7) True in simp_all)
    then show ?thesis
      using True assms(2,3,5) no dis by (simp add: vq_ring_must_notify_def set_used_event_def Let_def)
  next
    case False
    then show ?thesis
      using assms(2,3,5) no dis by (simp add: vq_ring_must_notify_def set_avail_flags_def)
  qed
  then show ?thesis by (simp add: kick_eq [OF assms(8)])
qed

section \<open>Concrete kicks\<close>

definition demo_device_build :: build where
  "demo_device_build = \<lparr>VQUEUE_DEBUG = True, VIRTIO_DRIVER_SUPPORT = False, VIRTIO_DEVICE_SUPPORT = True\<rparr>"

definition demo_event_dev :: "u32 \<Rightarrow> virtio_device" where
  "demo_event_dev role = demo_dev\<lparr>vd_role := role, vd_features := VIRTIO_RING_F_EVENT_IDX\<rparr>"

lemmas demo_roles = VIRTIO_ROLE_IS_DRIVER_def VIRTIO_ROLE_IS_DEVICE_def default_build_def
  demo_device_build_def demo_event_dev_def demo_dev_def event_idx_on_def

theorem driver_wakeup_not_lost_witness:
  "virtqueue_kick demo_device_build (demo_event_dev VIRTIO_DEV_DEVICE) (demo_vq\<lparr>vq_queued_cnt := of_nat 2\<rparr>)
      (demo_rm\<lparr>vm_used := (vm_used demo_rm)\<lparr>us_idx := 2\<rparr>\<rparr>)
    = Some (True, demo_vq\<lparr>vq_queued_cnt := of_nat 2, vq_queued_cnt := 0\<rparr>)"
  by (rule driver_wakeup_not_lost [where b = default_build and vd = "demo_event_dev VIRTIO_DEV_DRIVER"
        and vq = demo_vq and rm = demo_rm and ?rm1.0 = demo_rm and q = 2])
    (simp_all add: demo_roles demo_vq_def virtqueue_zero_def demo_rm_def virtqueue_enable_cb_def
      vq_ring_enable_interrupt_def virtqueue_nused_def set_used_event_def VQASSERT_def)

theorem device_wakeup_not_lost_witness:
  "virtqueue_kick default_build (demo_event_dev VIRTIO_DEV_DRIVER) (demo_vq\<lparr>vq_queued_cnt := of_nat 3\<rparr>)
      (demo_rm\<lparr>vm_avail := (vm_avail demo_rm)\<lparr>av_idx := 3\<rparr>\<rparr>)
    = Some (True, demo_vq\<lparr>vq_queued_cnt := of_nat 3, vq_queued_cnt := 0\<rparr>)"
  by (rule device_wakeup_not_lost [where b = demo_device_build and vd = "demo_event_dev VIRTIO_DEV_DEVICE"
        and vq = demo_vq and rm = demo_rm and ?rm1.0 = demo_rm and q = 3])
    (simp_all add: demo_roles demo_vq_def virtqueue_zero_def demo_rm_def virtqueue_enable_cb_def
      vq_ring_enable_interrupt_def virtqueue_navail_def set_avail_event_def VQASSERT_def)

theorem disable_cb_suppresses_witness:
  "virtqueue_kick demo_device_build (demo_event_dev VIRTIO_DEV_DEVICE) (demo_vq\<lparr>vq_queued_cnt := 2\<rparr>)
      (demo_rm\<lparr>vm_avail := (vm_avail demo_rm)\<lparr>av_used_event := - 5\<rparr>,
               vm_used := (vm_used demo_rm)\<lparr>us_idx := 3\<rparr>\<rparr>)
    = Some (False, demo_vq\<lparr>vq_queued_cnt := 2, vq_queued_cnt := 0\<rparr>)"
  by (rule disable_cb_suppresses [where b = default_build and vd = "demo_event_dev VIRTIO_DEV_DRIVER"
        and vq = demo_vq and rm = demo_rm and ?vq1.0 = demo_vq
        and ?rm1.0 = "demo_rm\<lparr>vm_avail := (vm_avail demo_rm)\<lparr>av_used_event := - 5\<rparr>\<rparr>"])
    (simp_all add: demo_roles demo_vq_def virtqueue_zero_def demo_rm_def virtqueue_disable_cb_def
      VQUEUE_BUSY_def VQUEUE_IDLE_def set_used_event_def)

end
