(* ===== verification/Virtio.thy ===== *)
theory Virtio
  imports Virtqueue_Driver
begin

unbundle bit_operations_syntax

text \<open>
  \<^verbatim>\<open>src/openamp/open-amp/lib/include/openamp/virtio.h\<close> and \<^verbatim>\<open>lib/virtio/virtio.c\<close>: the virtio
  device with its vrings, the dispatch table of the transport, the checked wrappers every user of a
  device goes through, and the creation of the virtqueues. A device is a record that transports
  extend; the entries of the dispatch table work on the extended device. A \<open>None\<close> device stands for
  a NULL pointer.
\<close>

section \<open>Devices and dispatch tables\<close>

abbreviation (input) EINVAL :: int where "EINVAL \<equiv> 22"
abbreviation (input) ENXIO :: int where "ENXIO \<equiv> 6"
abbreviation (input) ENOMEM :: int where "ENOMEM \<equiv> 12"

text \<open>\<open>vi_ring\<close> is the memory at \<open>info.vaddr\<close>, seen through the structures of the ring.\<close>

record virtio_vring_info =
  vi_vq :: "virtqueue option"
  vi_info :: vring_alloc_info
  vi_notifyid :: u32
  vi_io :: "metal_io_region option"
  vi_ring :: vring_mem

record virtio_dev = virtio_device +
  vd_vrings_num :: u32
  vd_vrings_info :: "virtio_vring_info list"

record 's virtio_dispatch =
  vf_create_virtqueues :: "('s \<Rightarrow> nat \<Rightarrow> string list \<Rightarrow> addr list \<Rightarrow> addr list option \<Rightarrow>
     (int \<times> 's) option) option"
  vf_delete_virtqueues :: "('s \<Rightarrow> 's option) option"
  vf_get_status :: "('s \<Rightarrow> u8 option) option"
  vf_set_status :: "('s \<Rightarrow> u8 \<Rightarrow> 's option) option"
  vf_get_features :: "('s \<Rightarrow> (u32 \<times> 's) option) option"
  vf_set_features :: "('s \<Rightarrow> u32 \<Rightarrow> 's option) option"
  vf_negotiate_features :: "('s \<Rightarrow> u32 \<Rightarrow> (u32 \<times> 's) option) option"
  vf_read_config :: "('s \<Rightarrow> u32 \<Rightarrow> int \<Rightarrow> u8 list option) option"
  vf_write_config :: "('s \<Rightarrow> u32 \<Rightarrow> u8 list \<Rightarrow> int \<Rightarrow> 's option) option"
  vf_reset_device :: "('s \<Rightarrow> 's option) option"
  vf_notify :: addr

record 's virtio_memory_ops =
  vm_alloc :: "('s \<Rightarrow> nat \<Rightarrow> nat \<Rightarrow> (addr \<times> 's) option) option"
  vm_free :: "('s \<Rightarrow> addr \<Rightarrow> 's option) option"

section \<open>The wrappers\<close>

definition virtio_delete_virtqueues ::
  "'s virtio_dispatch option \<Rightarrow> 's option \<Rightarrow> 's option option" where
  "virtio_delete_virtqueues func vdev =
     (case (vdev, Option.bind func vf_delete_virtqueues) of
        (Some v, Some f) \<Rightarrow> map_option Some (f v)
      | _ \<Rightarrow> Some vdev)"

definition virtio_get_devid :: "'x virtio_device_scheme option \<Rightarrow> u32" where
  "virtio_get_devid vdev = (case vdev of None \<Rightarrow> 0 | Some v \<Rightarrow> id_device (vd_id v))"

definition virtio_get_status :: "'s virtio_dispatch option \<Rightarrow> 's option \<Rightarrow> (int \<times> u8 option) option" where
  "virtio_get_status func vdev =
     (case vdev of None \<Rightarrow> Some (- EINVAL, None)
      | Some v \<Rightarrow> (case Option.bind func vf_get_status of
          None \<Rightarrow> Some (- ENXIO, None)
        | Some f \<Rightarrow> map_option (\<lambda>st. (0, Some st)) (f v)))"

definition virtio_set_status ::
  "'s virtio_dispatch option \<Rightarrow> 's option \<Rightarrow> u8 \<Rightarrow> (int \<times> 's option) option" where
  "virtio_set_status func vdev status =
     (case vdev of None \<Rightarrow> Some (- EINVAL, None)
      | Some v \<Rightarrow> (case Option.bind func vf_set_status of
          None \<Rightarrow> Some (- ENXIO, vdev)
        | Some f \<Rightarrow> map_option (\<lambda>v'. (0, Some v')) (f v status)))"

text \<open>\<open>dst\<close> and \<open>src\<close> tell whether the caller's buffer pointer is not NULL.\<close>

definition virtio_read_config ::
  "'s virtio_dispatch option \<Rightarrow> 's option \<Rightarrow> u32 \<Rightarrow> bool \<Rightarrow> int \<Rightarrow> (int \<times> u8 list) option" where
  "virtio_read_config func vdev offset dst len =
     (case vdev of None \<Rightarrow> Some (- EINVAL, [])
      | Some v \<Rightarrow> if \<not> dst then Some (- EINVAL, [])
          else (case Option.bind func vf_read_config of
              None \<Rightarrow> Some (- ENXIO, [])
            | Some f \<Rightarrow> map_option (\<lambda>bs. (0, bs)) (f v offset len)))"

definition virtio_write_config ::
  "'s virtio_dispatch option \<Rightarrow> 's option \<Rightarrow> u32 \<Rightarrow> u8 list option \<Rightarrow> int \<Rightarrow> (int \<times> 's option) option" where
  "virtio_write_config func vdev offset src len =
     (case (vdev, src) of
        (Some v, Some bs) \<Rightarrow> (case Option.bind func vf_write_config of
            None \<Rightarrow> Some (- ENXIO, vdev)
          | Some f \<Rightarrow> map_option (\<lambda>v'. (0, Some v')) (f v offset bs len))
      | _ \<Rightarrow> Some (- EINVAL, vdev))"

definition virtio_get_features ::
  "build \<Rightarrow> 'x virtio_device_scheme virtio_dispatch option \<Rightarrow> 'x virtio_device_scheme option \<Rightarrow>
   (int \<times> u32 option \<times> 'x virtio_device_scheme option) option" where
  "virtio_get_features b func vdev =
     (case vdev of None \<Rightarrow> Some (- EINVAL, None, None)
      | Some v \<Rightarrow> (case Option.bind func vf_get_features of
          None \<Rightarrow> Some (- ENXIO, None, vdev)
        | Some f \<Rightarrow> do {
            (fs, v1) \<leftarrow> f v;
            Some (0, Some fs,
              Some (if VIRTIO_ROLE_IS_DEVICE b v1 then v1\<lparr>vd_features := ucast fs\<rparr> else v1))
          }))"

definition virtio_set_features ::
  "'s virtio_dispatch option \<Rightarrow> 's option \<Rightarrow> u32 \<Rightarrow> (int \<times> 's option) option" where
  "virtio_set_features func vdev features =
     (case vdev of None \<Rightarrow> Some (- EINVAL, None)
      | Some v \<Rightarrow> (case Option.bind func vf_set_features of
          None \<Rightarrow> Some (- ENXIO, vdev)
        | Some f \<Rightarrow> map_option (\<lambda>v'. (0, Some v')) (f v features)))"

text \<open>The third component is what is stored through \<open>final_features\<close>, when that is not NULL.\<close>

definition virtio_negotiate_features ::
  "'x virtio_device_scheme virtio_dispatch option \<Rightarrow> 'x virtio_device_scheme option \<Rightarrow> u32 \<Rightarrow>
   (int \<times> 'x virtio_device_scheme option \<times> u32 option) option" where
  "virtio_negotiate_features func vdev features =
     (case vdev of None \<Rightarrow> Some (- EINVAL, None, None)
      | Some v \<Rightarrow> (case Option.bind func vf_negotiate_features of
          None \<Rightarrow> Some (- ENXIO, vdev, None)
        | Some f \<Rightarrow> do {
            (fs, v1) \<leftarrow> f v features;
            let v2 = v1\<lparr>vd_features := ucast fs\<rparr>;
            Some (0, Some v2, Some (ucast (vd_features v2)))
          }))"

definition virtio_reset_device ::
  "'s virtio_dispatch option \<Rightarrow> 's option \<Rightarrow> (int \<times> 's option) option" where
  "virtio_reset_device func vdev =
     (case vdev of None \<Rightarrow> Some (- EINVAL, None)
      | Some v \<Rightarrow> (case Option.bind func vf_reset_device of
          None \<Rightarrow> Some (- ENXIO, vdev)
        | Some f \<Rightarrow> map_option (\<lambda>v'. (0, Some v')) (f v)))"

definition virtio_alloc_buf ::
  "'s virtio_memory_ops option \<Rightarrow> 's option \<Rightarrow> nat \<Rightarrow> nat \<Rightarrow> (int \<times> addr \<times> 's option) option" where
  "virtio_alloc_buf mmops vdev sz align =
     (case vdev of None \<Rightarrow> Some (- EINVAL, NULL, None)
      | Some v \<Rightarrow> (case Option.bind mmops vm_alloc of
          None \<Rightarrow> Some (- ENXIO, NULL, vdev)
        | Some f \<Rightarrow> do {
            (buf, v') \<leftarrow> f v sz align;
            Some (if buf = NULL then - ENOMEM else 0, buf, Some v')
          }))"

definition virtio_free_buf ::
  "'s virtio_memory_ops option \<Rightarrow> 's option \<Rightarrow> addr \<Rightarrow> (int \<times> 's option) option" where
  "virtio_free_buf mmops vdev buf =
     (case vdev of None \<Rightarrow> Some (- EINVAL, None)
      | Some v \<Rightarrow> (case Option.bind mmops vm_free of
          None \<Rightarrow> Some (- ENXIO, vdev)
        | Some f \<Rightarrow> map_option (\<lambda>v'. (0, Some v')) (f v buf)))"

text \<open>
  The guard of \<open>virtio_has_feature\<close> is a conjunction: a NULL device with a small bit number is
  dereferenced, and a shift by 64 or more is undefined.
\<close>

definition virtio_has_feature ::
  "build \<Rightarrow> 'x virtio_device_scheme virtio_dispatch option \<Rightarrow> 'x virtio_device_scheme option \<Rightarrow> nat \<Rightarrow>
   (bool \<times> 'x virtio_device_scheme option) option" where
  "virtio_has_feature b func vdev feature_bit =
     (if vdev = None \<and> 32 \<le> feature_bit then Some (False, vdev)
      else do {
        v \<leftarrow> vdev;
        v1 \<leftarrow> (if vd_features v = 0 then do {
                 (_, _, vd) \<leftarrow> virtio_get_features b func (Some v);
                 vd
               } else Some v);
        require (feature_bit < 64);
        Some (vd_features v1 AND push_bit feature_bit 1 \<noteq> 0, Some v1)
      })"

section \<open>Device names\<close>

definition virtio_ident_table :: "(u16 \<times> string) list" where
  "virtio_ident_table =
     [(1, ''Network''), (2, ''Block''), (3, ''Console''), (4, ''Entropy''), (5, ''Balloon''),
      (6, ''IOMemory''), (8, ''SCSI''), (9, ''9P Transport''), (10, ''MAC80211 WLAN''),
      (11, ''Remoteproc Serial''), (16, ''GPU''), (18, ''Input''), (19, ''Vsock Transport''),
      (25, ''Sound''), (26, ''File System''), (29, ''MAC80211 HWSIM''), (34, ''I2C Adapter''),
      (40, ''Bluetooth''), (41, ''GPIO'')]"

fun ident_lookup :: "u16 \<Rightarrow> (u16 \<times> string) list \<Rightarrow> string option" where
  "ident_lookup devid [] = None"
| "ident_lookup devid ((d, n) # xs) = (if d = devid then Some n else ident_lookup devid xs)"

definition virtio_dev_name :: "u16 \<Rightarrow> string option" where
  "virtio_dev_name devid = ident_lookup devid virtio_ident_table"

section \<open>Creating the virtqueues\<close>

text \<open>
  What clearing the whole vring memory makes of the structures in it. \<open>vring_clear\<close> is the call of
  \<open>metal_io_block_set\<close>: on an address the region does not contain it writes nothing; a ring that
  sticks out of its region has no content as structures, and there the model stops.
\<close>

definition zero_ring :: "nat \<Rightarrow> vring_mem" where
  "zero_ring n = \<lparr>vm_desc = replicate n \<lparr>d_addr = 0, d_len = 0, d_flags = 0, d_next = 0\<rparr>,
     vm_avail = \<lparr>av_flags = 0, av_idx = 0, av_ring = replicate n 0, av_used_event = 0\<rparr>,
     vm_used = \<lparr>us_flags = 0, us_idx = 0, us_ring = replicate n \<lparr>ue_id = 0, ue_len = 0\<rparr>,
       us_avail_event = 0\<rparr>\<rparr>"

definition vring_clear :: "metal_io_region \<Rightarrow> vring_alloc_info \<Rightarrow> vring_mem \<Rightarrow> vring_mem option" where
  "vring_clear io info rm =
     (let offset = metal_io_virt_to_offset io (ai_vaddr info);
          sz = vring_size (ucast (ai_num_descs info)) (ucast (ai_align info))
      in if metal_io_virt io offset = NULL then Some rm
         else do {
           require (0 \<le> sz \<and> unat offset + nat sz \<le> unat (io_size io));
           Some (zero_ring (unat (ai_num_descs info)))
         })"

definition vring_create_one ::
  "build \<Rightarrow> addr \<Rightarrow> nat \<Rightarrow> string \<Rightarrow> addr \<Rightarrow> 'x virtio_dev_scheme \<Rightarrow> (int \<times> 'x virtio_dev_scheme) option" where
  "vring_create_one b notify i name callback v = do {
     vi \<leftarrow> arr_get (vd_vrings_info v) i;
     rm1 \<leftarrow> (if VIRTIO_ROLE_IS_DRIVER b v then do {
               io \<leftarrow> vi_io vi;
               vring_clear io (vi_info vi) (vi_ring vi)
             } else Some (vi_ring vi));
     vq \<leftarrow> vi_vq vi;
     (ret, vq', rm2) \<leftarrow> virtqueue_create b v (of_nat i) name (vi_info vi) callback notify vq rm1;
     infos \<leftarrow> arr_set (vd_vrings_info v) i (vi\<lparr>vi_vq := Some vq', vi_ring := rm2\<rparr>);
     Some (ret, v\<lparr>vd_vrings_info := infos\<rparr>)
   }"

fun create_virtqueues_loop ::
  "build \<Rightarrow> addr \<Rightarrow> nat \<Rightarrow> nat \<Rightarrow> string list \<Rightarrow> addr list \<Rightarrow> 'x virtio_dev_scheme \<Rightarrow>
   (int \<times> 'x virtio_dev_scheme) option" where
  "create_virtqueues_loop b notify 0 i names callbacks v = Some (0, v)"
| "create_virtqueues_loop b notify (Suc k) i names callbacks v = do {
     name \<leftarrow> arr_get names i;
     cb \<leftarrow> arr_get callbacks i;
     (ret, v') \<leftarrow> vring_create_one b notify i name cb v;
     if ret \<noteq> 0 then Some (ret, v')
     else create_virtqueues_loop b notify k (Suc i) names callbacks v'
   }"

definition virtio_create_virtqueues ::
  "build \<Rightarrow> 'x virtio_dev_scheme virtio_dispatch option \<Rightarrow> 'x virtio_dev_scheme option \<Rightarrow> nat \<Rightarrow>
   string list \<Rightarrow> addr list \<Rightarrow> addr list option \<Rightarrow> (int \<times> 'x virtio_dev_scheme option) option" where
  "virtio_create_virtqueues b func vdev nvqs names callbacks callback_args =
     (case vdev of None \<Rightarrow> Some (- EINVAL, None)
      | Some v \<Rightarrow> (case Option.bind func vf_create_virtqueues of
          Some f \<Rightarrow> map_option (\<lambda>(r, v'). (r, Some v')) (f v nvqs names callbacks callback_args)
        | None \<Rightarrow>
            if unat (vd_vrings_num v) < nvqs then Some (ERROR_VQUEUE_INVLD_PARAM, vdev)
            else if nvqs = 0 then Some (0, vdev)
            else do {
              table \<leftarrow> func;
              (r, v') \<leftarrow> create_virtqueues_loop b (vf_notify table) nvqs 0 names callbacks v;
              Some (r, Some v')
            }))"

section \<open>Properties\<close>

text \<open>A vring before its queue exists: allocated, of a legal size, inside its region.\<close>

definition vring_ready :: "virtio_vring_info \<Rightarrow> bool" where
  "vring_ready vi = (case vi_io vi of None \<Rightarrow> False | Some io \<Rightarrow>
     vi_vq vi = Some (virtqueue_zero (unat (ai_num_descs (vi_info vi)))) \<and>
     ai_num_descs (vi_info vi) \<in> (\<lambda>e. 2 ^ e) ` {..15} \<and>
     (let offset = metal_io_virt_to_offset io (ai_vaddr (vi_info vi));
          sz = vring_size (ucast (ai_num_descs (vi_info vi))) (ucast (ai_align (vi_info vi)))
      in metal_io_virt io offset \<noteq> NULL \<and> 0 \<le> sz \<and> unat offset + nat sz \<le> unat (io_size io)))"

text \<open>And after: an empty queue over a cleared ring, with its index, callback and notify.\<close>

definition vring_created :: "nat \<Rightarrow> addr \<Rightarrow> addr \<Rightarrow> virtio_vring_info \<Rightarrow> bool" where
  "vring_created i callback notify vi = (case vi_vq vi of None \<Rightarrow> False | Some vq \<Rightarrow>
     driver_inv vq (vm_desc (vi_ring vi)) (all_idx (unat (ai_num_descs (vi_info vi)))) [] \<and>
     virtqueue_empty vq \<and> vq_nentries vq = ai_num_descs (vi_info vi) \<and>
     vq_queue_index vq = of_nat i \<and> vq_callback vq = callback \<and> vq_notify vq = notify \<and>
     vm_avail (vi_ring vi) = vm_avail (zero_ring (unat (vq_nentries vq))) \<and>
     vm_used (vi_ring vi) = vm_used (zero_ring (unat (vq_nentries vq))))"

text \<open>What creating the queue needs of it: the ring is clear once the code has cleared what it can reach.\<close>

definition vring_cleared :: "virtio_vring_info \<Rightarrow> bool" where
  "vring_cleared vi = (case vi_io vi of None \<Rightarrow> False | Some io \<Rightarrow>
     vi_vq vi = Some (virtqueue_zero (unat (ai_num_descs (vi_info vi)))) \<and>
     ai_num_descs (vi_info vi) \<in> (\<lambda>e. 2 ^ e) ` {..15} \<and>
     vring_clear io (vi_info vi) (vi_ring vi) = Some (zero_ring (unat (ai_num_descs (vi_info vi)))))"

lemma vring_ready_cleared: "vring_ready vi \<Longrightarrow> vring_cleared vi"
  by (auto simp: vring_ready_def vring_cleared_def vring_clear_def Let_def split: option.splits)

lemma create_one:
  assumes drv: "VIRTIO_ROLE_IS_DRIVER b v" and i: "i < length (vd_vrings_info v)"
    and clear: "vring_cleared (vd_vrings_info v ! i)"
  shows "\<exists>vi. vring_create_one b notify i name callback v
      = Some (0, v\<lparr>vd_vrings_info := (vd_vrings_info v)[i := vi]\<rparr>) \<and> vring_created i callback notify vi
    \<and> vi_info vi = vi_info (vd_vrings_info v ! i)"
proof -
  let ?vi = "vd_vrings_info v ! i"
  obtain io e where io: "vi_io ?vi = Some io"
    and vq: "vi_vq ?vi = Some (virtqueue_zero (unat (ai_num_descs (vi_info ?vi))))"
    and e: "ai_num_descs (vi_info ?vi) = 2 ^ e" "e \<le> 15"
    and clr: "vring_clear io (vi_info ?vi) (vi_ring ?vi) = Some (zero_ring (unat (ai_num_descs (vi_info ?vi))))"
    using clear by (auto simp: vring_cleared_def split: option.splits)
  have n: "unat (ai_num_descs (vi_info ?vi)) = 2 ^ e" using e unat_pow2 [where 'a = 16, of e] by simp
  have len: "length (vm_desc (zero_ring (2 ^ e))) = 2 ^ e" by (simp add: zero_ring_def)
  obtain q rm where q: "virtqueue_create b v (of_nat i) name (vi_info ?vi) callback notify
      (virtqueue_zero (2 ^ e)) (zero_ring (2 ^ e)) = Some (VQUEUE_SUCCESS, q, rm)"
    "driver_inv q (vm_desc rm) (all_idx (2 ^ e)) []" "virtqueue_empty q"
    "vm_avail rm = vm_avail (zero_ring (2 ^ e))" "vm_used rm = vm_used (zero_ring (2 ^ e))"
    "vq_nentries q = ai_num_descs (vi_info ?vi)" "vq_queue_index q = of_nat i"
    "vq_callback q = callback" "vq_notify q = notify"
    using create_driver [OF n e(2) drv len] by blast
  show ?thesis
    using i io vq clr q drv n
    by (intro exI [of _ "?vi\<lparr>vi_vq := Some q, vi_ring := rm\<rparr>"])
      (simp add: vring_create_one_def vring_created_def)
qed

lemma create_loop_ok:
  assumes "VIRTIO_ROLE_IS_DRIVER b v" and "i + k \<le> length (vd_vrings_info v)"
    and "i + k \<le> length names" and "i + k \<le> length callbacks"
    and "\<And>j. i \<le> j \<Longrightarrow> j < i + k \<Longrightarrow> vring_cleared (vd_vrings_info v ! j)"
  shows "\<exists>infos. create_virtqueues_loop b notify k i names callbacks v = Some (0, v\<lparr>vd_vrings_info := infos\<rparr>)
    \<and> length infos = length (vd_vrings_info v)
    \<and> (\<forall>j < length infos. j < i \<or> i + k \<le> j \<longrightarrow> infos ! j = vd_vrings_info v ! j)
    \<and> (\<forall>j. i \<le> j \<and> j < i + k \<longrightarrow> vring_created j (callbacks ! j) notify (infos ! j)
         \<and> vi_info (infos ! j) = vi_info (vd_vrings_info v ! j))"
  using assms
proof (induction k arbitrary: i v)
  case 0
  then show ?case by (intro exI [of _ "vd_vrings_info v"]) auto
next
  case (Suc k)
  obtain vi where vi: "vring_create_one b notify i (names ! i) (callbacks ! i) v
      = Some (0, v\<lparr>vd_vrings_info := (vd_vrings_info v)[i := vi]\<rparr>)"
    "vring_created i (callbacks ! i) notify vi" "vi_info vi = vi_info (vd_vrings_info v ! i)"
    using create_one [OF Suc.prems(1) _ Suc.prems(5) [of i], of notify "names ! i" "callbacks ! i"]
      Suc.prems(2) by auto
  let ?v1 = "v\<lparr>vd_vrings_info := (vd_vrings_info v)[i := vi]\<rparr>"
  have "VIRTIO_ROLE_IS_DRIVER b ?v1" using Suc.prems(1) by (simp add: VIRTIO_ROLE_IS_DRIVER_def)
  then obtain infos where ih: "create_virtqueues_loop b notify k (Suc i) names callbacks ?v1
      = Some (0, ?v1\<lparr>vd_vrings_info := infos\<rparr>)"
    "length infos = length (vd_vrings_info v)"
    "\<forall>j < length infos. j < Suc i \<or> Suc i + k \<le> j \<longrightarrow> infos ! j = (vd_vrings_info v)[i := vi] ! j"
    "\<forall>j. Suc i \<le> j \<and> j < Suc i + k \<longrightarrow> vring_created j (callbacks ! j) notify (infos ! j)
       \<and> vi_info (infos ! j) = vi_info (vd_vrings_info v ! j)"
    using Suc.IH [of ?v1 "Suc i"] Suc.prems by auto
  have "infos ! i = vi" using ih(2,3) Suc.prems(2) by auto
  then have "vring_created j (callbacks ! j) notify (infos ! j) \<and> vi_info (infos ! j) = vi_info (vd_vrings_info v ! j)"
    if "i \<le> j" "j < i + Suc k" for j
    using ih(4) vi(2,3) that by (cases "j = i") auto
  then show ?case
    using vi(1) ih Suc.prems by (intro exI [of _ infos]) auto
qed

text \<open>
  \<open>virtio_create_virtqueues\<close> of a driver whose transport has no hook of its own succeeds on
  allocated vrings of power-of-two size inside their regions, and leaves every queue empty, over a
  cleared ring, with its position, its callback and the transport's notify.
\<close>

theorem create_virtqueues_ok:
  assumes "VIRTIO_ROLE_IS_DRIVER b v" and "vf_create_virtqueues table = None"
    and "0 < nvqs" and "nvqs \<le> unat (vd_vrings_num v)" and "nvqs \<le> length (vd_vrings_info v)"
    and "nvqs \<le> length names" and "nvqs \<le> length callbacks"
    and "\<forall>j < nvqs. vring_ready (vd_vrings_info v ! j)"
  shows "\<exists>infos. virtio_create_virtqueues b (Some table) (Some v) nvqs names callbacks args
      = Some (0, Some (v\<lparr>vd_vrings_info := infos\<rparr>))
    \<and> (\<forall>j < nvqs. vring_created j (callbacks ! j) (vf_notify table) (infos ! j))"
proof -
  obtain infos where "create_virtqueues_loop b (vf_notify table) nvqs 0 names callbacks v
      = Some (0, v\<lparr>vd_vrings_info := infos\<rparr>)"
    "\<forall>j. 0 \<le> j \<and> j < 0 + nvqs \<longrightarrow> vring_created j (callbacks ! j) (vf_notify table) (infos ! j)"
    using create_loop_ok [of b v 0 nvqs names callbacks "vf_notify table"] assms vring_ready_cleared by auto
  then show ?thesis using assms by (auto simp: virtio_create_virtqueues_def)
qed

text \<open>
  Before the features were negotiated, \<open>virtio_has_feature\<close> on a driver answers no for every
  feature bit, whatever features the transport reports: the features it fetches are dropped.
\<close>

theorem has_feature_driver_blind:
  assumes "VIRTIO_ROLE_IS_DRIVER b v" and "vd_features v = 0" and "bit_no < 64"
    and "Option.bind func vf_get_features = Some f" and "f v = Some (features, v')"
    and "vd_features v' = vd_features v" and "vd_role v' = vd_role v"
  shows "virtio_has_feature b func (Some v) bit_no = Some (False, Some v')"
proof -
  have "\<not> VIRTIO_ROLE_IS_DEVICE b v'"
    using assms(1,7) by (auto simp: VIRTIO_ROLE_IS_DRIVER_def VIRTIO_ROLE_IS_DEVICE_def)
  then show ?thesis
    using assms by (simp add: virtio_has_feature_def virtio_get_features_def)
qed

section \<open>A concrete device\<close>

definition demo_vring :: virtio_vring_info where
  "demo_vring = \<lparr>vi_vq = Some (virtqueue_zero 4),
     vi_info = \<lparr>ai_vaddr = 0x1000, ai_align = 16, ai_num_descs = 4\<rparr>, vi_notifyid = 0,
     vi_io = Some demo_io, vi_ring = demo_rm\<rparr>"

definition demo_vdev :: virtio_dev where
  "demo_vdev = \<lparr>vd_notifyid = 0, vd_id = \<lparr>id_device = 7, id_vendor = 0, id_version = 0\<rparr>,
     vd_features = 0, vd_role = VIRTIO_DEV_DRIVER, vd_vrings_num = 1, vd_vrings_info = [demo_vring]\<rparr>"

definition demo_table :: "virtio_dev virtio_dispatch" where
  "demo_table = \<lparr>vf_create_virtqueues = None, vf_delete_virtqueues = None, vf_get_status = None,
     vf_set_status = None, vf_get_features = Some (\<lambda>v. Some (1, v)), vf_set_features = None,
     vf_negotiate_features = None, vf_read_config = None, vf_write_config = None,
     vf_reset_device = None, vf_notify = 0x700\<rparr>"

lemma demo_vring_ready: "vring_ready demo_vring"
proof -
  have "(4 :: u16) \<in> (\<lambda>e. 2 ^ e) ` {..15}" by (rule image_eqI [of _ _ 2]) simp_all
  then show ?thesis
    by (simp add: vring_ready_def demo_vring_def demo_io_def metal_io_virt_to_offset_def
        metal_io_virt_def vring_size_def)
qed

theorem create_virtqueues_ok_witness:
  "\<exists>infos. virtio_create_virtqueues default_build (Some demo_table) (Some demo_vdev) 1 [''rx_vq''] [0x800] None
      = Some (0, Some (demo_vdev\<lparr>vd_vrings_info := infos\<rparr>))
    \<and> (\<forall>j < 1. vring_created j ([0x800] ! j) (vf_notify demo_table) (infos ! j))"
  by (rule create_virtqueues_ok)
    (simp_all add: VIRTIO_ROLE_IS_DRIVER_def default_build_def demo_vdev_def demo_table_def demo_vring_ready)

theorem has_feature_driver_blind_witness:
  "virtio_has_feature default_build (Some demo_table) (Some demo_vdev) 0 = Some (False, Some demo_vdev)"
  by (rule has_feature_driver_blind)
    (simp_all add: VIRTIO_ROLE_IS_DRIVER_def default_build_def demo_vdev_def demo_table_def)

end
