(* ===== verification/Rpmsg.thy ===== *)
theory Rpmsg
  imports Metal_Util Metal_Io
begin

unbundle bit_operations_syntax

text \<open>
  \<^verbatim>\<open>src/openamp/open-amp/lib/rpmsg/rpmsg.c\<close>, \<^verbatim>\<open>rpmsg_internal.h\<close> and \<^verbatim>\<open>rpmsg.h\<close>: endpoints,
  their addresses and the checked entry points of the rpmsg layer. The device record holds the
  endpoint objects by address and the list they are linked in; a transport extends the record and
  supplies the operation table. User callbacks are parameters. The device mutex is a flag: taking
  it twice from one thread never returns, which is \<open>None\<close>.
\<close>

section \<open>Constants and data\<close>

abbreviation (input) RPMSG_NAME_SIZE :: nat where "RPMSG_NAME_SIZE \<equiv> 32"
abbreviation (input) RPMSG_ADDR_BMP_SIZE :: u32 where "RPMSG_ADDR_BMP_SIZE \<equiv> 128"
abbreviation (input) RPMSG_NS_EPT_ADDR :: u32 where "RPMSG_NS_EPT_ADDR \<equiv> 0x35"
abbreviation (input) RPMSG_RESERVED_ADDRESSES :: u32 where "RPMSG_RESERVED_ADDRESSES \<equiv> 1024"
abbreviation (input) RPMSG_ADDR_ANY :: u32 where "RPMSG_ADDR_ANY \<equiv> 0xFFFFFFFF"

abbreviation (input) RPMSG_SUCCESS :: int where "RPMSG_SUCCESS \<equiv> 0"
abbreviation (input) RPMSG_ERR_NO_BUFF :: int where "RPMSG_ERR_NO_BUFF \<equiv> - 2002"
abbreviation (input) RPMSG_ERR_PARAM :: int where "RPMSG_ERR_PARAM \<equiv> - 2003"
abbreviation (input) RPMSG_ERR_ADDR :: int where "RPMSG_ERR_ADDR \<equiv> - 2007"
abbreviation (input) RPMSG_ERR_PERM :: int where "RPMSG_ERR_PERM \<equiv> - 2008"
abbreviation (input) RPMSG_EOPNOTSUPP :: int where "RPMSG_EOPNOTSUPP \<equiv> - 2009"

abbreviation (input) RPMSG_NS_CREATE :: u32 where "RPMSG_NS_CREATE \<equiv> 0"
abbreviation (input) RPMSG_NS_DESTROY :: u32 where "RPMSG_NS_DESTROY \<equiv> 1"

text \<open>\<open>ep_rdev\<close>: the endpoint points to the device (there is only one here), or to NULL.\<close>

record rpmsg_endpoint =
  ep_name :: "u8 list"
  ep_rdev :: bool
  ep_addr :: u32
  ep_dest_addr :: u32
  ep_refcnt :: u32
  ep_release_cb :: addr
  ep_cb :: addr
  ep_ns_unbind_cb :: addr
  ep_priv :: addr

record rpmsg_device =
  rd_endpoints :: "addr list"
  rd_epts :: "addr \<Rightarrow> rpmsg_endpoint"
  rd_bitmap :: bitmap
  rd_bitnext :: u32
  rd_lock :: bool
  rd_ns_bind_cb :: addr
  rd_ns_unbind_cb :: addr
  rd_support_ns :: bool

text \<open>The bytes a function is given: at an address of memory, or a local object of the caller.\<close>

datatype cdata = At addr | Local "u8 list"

definition data_null :: "cdata \<Rightarrow> bool" where
  "data_null d = (case d of At a \<Rightarrow> a = NULL | Local _ \<Rightarrow> False)"

record 's rpmsg_device_ops =
  op_send_offchannel_raw :: "('s \<Rightarrow> u32 \<Rightarrow> u32 \<Rightarrow> cdata \<Rightarrow> int \<Rightarrow> bool \<Rightarrow> (int \<times> 's) option) option"
  op_hold_rx_buffer :: "('s \<Rightarrow> addr \<Rightarrow> 's option) option"
  op_release_rx_buffer :: "('s \<Rightarrow> addr \<Rightarrow> 's option) option"
  op_get_tx_payload_buffer :: "('s \<Rightarrow> bool \<Rightarrow> (addr \<times> u32 \<times> 's) option) option"
  op_send_offchannel_nocopy :: "('s \<Rightarrow> u32 \<Rightarrow> u32 \<Rightarrow> addr \<Rightarrow> int \<Rightarrow> (int \<times> 's) option) option"
  op_release_tx_buffer :: "('s \<Rightarrow> addr \<Rightarrow> (int \<times> 's) option) option"
  op_get_rx_buffer_size :: "('s \<Rightarrow> (int \<times> 's) option) option"
  op_get_tx_buffer_size :: "('s \<Rightarrow> (int \<times> 's) option) option"

text \<open>Code of the application, by function pointer.\<close>

record 's app =
  app_ept_cb :: "addr \<Rightarrow> addr \<Rightarrow> addr \<Rightarrow> nat \<Rightarrow> u32 \<Rightarrow> addr \<Rightarrow> 's \<Rightarrow> (int \<times> 's) option"
  app_release_cb :: "addr \<Rightarrow> addr \<Rightarrow> 's \<Rightarrow> 's option"
  app_ept_unbind_cb :: "addr \<Rightarrow> addr \<Rightarrow> 's \<Rightarrow> 's option"
  app_bind_cb :: "addr \<Rightarrow> u8 list \<Rightarrow> u32 \<Rightarrow> 's \<Rightarrow> 's option"
  app_unbind_cb :: "addr \<Rightarrow> u8 list \<Rightarrow> u32 \<Rightarrow> 's \<Rightarrow> 's option"

definition metal_mutex_acquire :: "'x rpmsg_device_scheme \<Rightarrow> 'x rpmsg_device_scheme option" where
  "metal_mutex_acquire s = (if rd_lock s then None else Some (s\<lparr>rd_lock := True\<rparr>))"

definition metal_mutex_release :: "'x rpmsg_device_scheme \<Rightarrow> 'x rpmsg_device_scheme" where
  "metal_mutex_release s = s\<lparr>rd_lock := False\<rparr>"

definition upd_ept ::
  "addr \<Rightarrow> (rpmsg_endpoint \<Rightarrow> rpmsg_endpoint) \<Rightarrow> 'x rpmsg_device_scheme \<Rightarrow> 'x rpmsg_device_scheme" where
  "upd_ept p f s = s\<lparr>rd_epts := (rd_epts s)(p := f (rd_epts s p))\<rparr>"

section \<open>Addresses\<close>

definition rpmsg_get_address :: "bitmap \<Rightarrow> u32 \<Rightarrow> u32 \<Rightarrow> (u32 \<times> bitmap) option" where
  "rpmsg_get_address bitmap start sz = do {
     nextbit \<leftarrow> metal_bitmap_next_clear_bit bitmap start sz;
     if nextbit < sz then do {
       bm \<leftarrow> metal_bitmap_set_bit bitmap (unat nextbit);
       Some (RPMSG_RESERVED_ADDRESSES + nextbit, bm)
     } else Some (RPMSG_ADDR_ANY, bitmap)
   }"

text \<open>
  The addresses travel as \<open>int\<close>; subtracting the reserved range from one near \<open>INT_MIN\<close> overflows,
  which is undefined.
\<close>

definition unreserve :: "u32 \<Rightarrow> int option" where
  "unreserve a = do {
     require (- (2 ^ 31) \<le> sint a - 1024);
     Some (sint a - 1024)
   }"

definition rpmsg_release_address :: "bitmap \<Rightarrow> u32 \<Rightarrow> u32 \<Rightarrow> bitmap option" where
  "rpmsg_release_address bitmap sz a = do {
     k \<leftarrow> unreserve a;
     if 0 \<le> k \<and> k < sint sz then metal_bitmap_clear_bit bitmap (nat k) else Some bitmap
   }"

definition rpmsg_is_address_set :: "bitmap \<Rightarrow> u32 \<Rightarrow> u32 \<Rightarrow> int option" where
  "rpmsg_is_address_set bitmap sz a = do {
     k \<leftarrow> unreserve a;
     if 0 \<le> k \<and> k < sint sz then do {
       r \<leftarrow> metal_bitmap_is_bit_set bitmap (nat k);
       Some (of_bool r)
     } else Some RPMSG_ERR_PARAM
   }"

definition rpmsg_set_address :: "bitmap \<Rightarrow> u32 \<Rightarrow> u32 \<Rightarrow> (int \<times> bitmap) option" where
  "rpmsg_set_address bitmap sz a = do {
     k \<leftarrow> unreserve a;
     if 0 \<le> k \<and> k < sint sz then do {
       bm \<leftarrow> metal_bitmap_set_bit bitmap (nat k);
       Some (RPMSG_SUCCESS, bm)
     } else Some (RPMSG_ERR_PARAM, bitmap)
   }"

section \<open>Reference counts\<close>

definition rpmsg_ept_incref :: "addr \<Rightarrow> 'x rpmsg_device_scheme \<Rightarrow> 'x rpmsg_device_scheme" where
  "rpmsg_ept_incref ept s =
     (if ept \<noteq> NULL then upd_ept ept (\<lambda>e. e\<lparr>ep_refcnt := ep_refcnt e + 1\<rparr>) s else s)"

definition rpmsg_ept_decref ::
  "'x rpmsg_device_scheme app \<Rightarrow> addr \<Rightarrow> 'x rpmsg_device_scheme \<Rightarrow> 'x rpmsg_device_scheme option" where
  "rpmsg_ept_decref app ept s =
     (if ept \<noteq> NULL then
        (let s1 = upd_ept ept (\<lambda>e. e\<lparr>ep_refcnt := ep_refcnt e - 1\<rparr>) s in
         if ep_refcnt (rd_epts s1 ept) = 0 then
           (if ep_release_cb (rd_epts s1 ept) \<noteq> NULL
            then app_release_cb app (ep_release_cb (rd_epts s1 ept)) ept s1
            else Some (upd_ept ept (\<lambda>e. e\<lparr>ep_rdev := False\<rparr>) s1))
         else Some s1)
      else Some s)"

section \<open>Entry points that check and forward\<close>

definition ept_dead :: "addr \<Rightarrow> 'x rpmsg_device_scheme \<Rightarrow> bool" where
  "ept_dead ept s = (ept = NULL \<or> \<not> ep_rdev (rd_epts s ept))"

definition rpmsg_send_offchannel_raw ::
  "'x rpmsg_device_scheme rpmsg_device_ops \<Rightarrow> addr \<Rightarrow> u32 \<Rightarrow> u32 \<Rightarrow> cdata \<Rightarrow> int \<Rightarrow> bool \<Rightarrow>
   'x rpmsg_device_scheme \<Rightarrow> (int \<times> 'x rpmsg_device_scheme) option" where
  "rpmsg_send_offchannel_raw ops ept src dst data len wait s =
     (if ept_dead ept s \<or> data_null data \<or> dst = RPMSG_ADDR_ANY \<or> len < 0 then Some (RPMSG_ERR_PARAM, s)
      else (case op_send_offchannel_raw ops of
          Some f \<Rightarrow> f s src dst data len wait
        | None \<Rightarrow> Some (RPMSG_ERR_PARAM, s)))"

definition rpmsg_send ::
  "'x rpmsg_device_scheme rpmsg_device_ops \<Rightarrow> addr \<Rightarrow> cdata \<Rightarrow> int \<Rightarrow>
   'x rpmsg_device_scheme \<Rightarrow> (int \<times> 'x rpmsg_device_scheme) option" where
  "rpmsg_send ops ept data len s =
     (if ept = NULL then Some (RPMSG_ERR_PARAM, s)
      else rpmsg_send_offchannel_raw ops ept (ep_addr (rd_epts s ept)) (ep_dest_addr (rd_epts s ept)) data len True s)"

definition rpmsg_sendto ::
  "'x rpmsg_device_scheme rpmsg_device_ops \<Rightarrow> addr \<Rightarrow> cdata \<Rightarrow> int \<Rightarrow> u32 \<Rightarrow>
   'x rpmsg_device_scheme \<Rightarrow> (int \<times> 'x rpmsg_device_scheme) option" where
  "rpmsg_sendto ops ept data len dst s =
     (if ept = NULL then Some (RPMSG_ERR_PARAM, s)
      else rpmsg_send_offchannel_raw ops ept (ep_addr (rd_epts s ept)) dst data len True s)"

definition rpmsg_send_offchannel ::
  "'x rpmsg_device_scheme rpmsg_device_ops \<Rightarrow> addr \<Rightarrow> u32 \<Rightarrow> u32 \<Rightarrow> cdata \<Rightarrow> int \<Rightarrow>
   'x rpmsg_device_scheme \<Rightarrow> (int \<times> 'x rpmsg_device_scheme) option" where
  "rpmsg_send_offchannel ops ept src dst data len s = rpmsg_send_offchannel_raw ops ept src dst data len True s"

definition rpmsg_trysend ::
  "'x rpmsg_device_scheme rpmsg_device_ops \<Rightarrow> addr \<Rightarrow> cdata \<Rightarrow> int \<Rightarrow>
   'x rpmsg_device_scheme \<Rightarrow> (int \<times> 'x rpmsg_device_scheme) option" where
  "rpmsg_trysend ops ept data len s =
     (if ept = NULL then Some (RPMSG_ERR_PARAM, s)
      else rpmsg_send_offchannel_raw ops ept (ep_addr (rd_epts s ept)) (ep_dest_addr (rd_epts s ept)) data len False s)"

definition rpmsg_trysendto ::
  "'x rpmsg_device_scheme rpmsg_device_ops \<Rightarrow> addr \<Rightarrow> cdata \<Rightarrow> int \<Rightarrow> u32 \<Rightarrow>
   'x rpmsg_device_scheme \<Rightarrow> (int \<times> 'x rpmsg_device_scheme) option" where
  "rpmsg_trysendto ops ept data len dst s =
     (if ept = NULL then Some (RPMSG_ERR_PARAM, s)
      else rpmsg_send_offchannel_raw ops ept (ep_addr (rd_epts s ept)) dst data len False s)"

definition rpmsg_trysend_offchannel ::
  "'x rpmsg_device_scheme rpmsg_device_ops \<Rightarrow> addr \<Rightarrow> u32 \<Rightarrow> u32 \<Rightarrow> cdata \<Rightarrow> int \<Rightarrow>
   'x rpmsg_device_scheme \<Rightarrow> (int \<times> 'x rpmsg_device_scheme) option" where
  "rpmsg_trysend_offchannel ops ept src dst data len s = rpmsg_send_offchannel_raw ops ept src dst data len False s"

definition rpmsg_hold_rx_buffer ::
  "'x rpmsg_device_scheme rpmsg_device_ops \<Rightarrow> addr \<Rightarrow> addr \<Rightarrow> 'x rpmsg_device_scheme \<Rightarrow>
   'x rpmsg_device_scheme option" where
  "rpmsg_hold_rx_buffer ops ept rxbuf s =
     (if ept_dead ept s \<or> rxbuf = NULL then Some s
      else (case op_hold_rx_buffer ops of Some f \<Rightarrow> f s rxbuf | None \<Rightarrow> Some s))"

definition rpmsg_release_rx_buffer ::
  "'x rpmsg_device_scheme rpmsg_device_ops \<Rightarrow> addr \<Rightarrow> addr \<Rightarrow> 'x rpmsg_device_scheme \<Rightarrow>
   'x rpmsg_device_scheme option" where
  "rpmsg_release_rx_buffer ops ept rxbuf s =
     (if ept_dead ept s \<or> rxbuf = NULL then Some s
      else (case op_release_rx_buffer ops of Some f \<Rightarrow> f s rxbuf | None \<Rightarrow> Some s))"

definition rpmsg_release_tx_buffer ::
  "'x rpmsg_device_scheme rpmsg_device_ops \<Rightarrow> addr \<Rightarrow> addr \<Rightarrow> 'x rpmsg_device_scheme \<Rightarrow>
   (int \<times> 'x rpmsg_device_scheme) option" where
  "rpmsg_release_tx_buffer ops ept buf s =
     (if ept_dead ept s \<or> buf = NULL then Some (RPMSG_ERR_PARAM, s)
      else (case op_release_tx_buffer ops of Some f \<Rightarrow> f s buf | None \<Rightarrow> Some (RPMSG_ERR_PERM, s)))"

text \<open>The caller passes a place for the length; the buffer is NULL when there is none.\<close>

definition rpmsg_get_tx_payload_buffer ::
  "'x rpmsg_device_scheme rpmsg_device_ops \<Rightarrow> addr \<Rightarrow> bool \<Rightarrow> 'x rpmsg_device_scheme \<Rightarrow>
   (addr \<times> u32 \<times> 'x rpmsg_device_scheme) option" where
  "rpmsg_get_tx_payload_buffer ops ept wait s =
     (if ept_dead ept s then Some (NULL, 0, s)
      else (case op_get_tx_payload_buffer ops of Some f \<Rightarrow> f s wait | None \<Rightarrow> Some (NULL, 0, s)))"

definition rpmsg_get_tx_buffer_size ::
  "'x rpmsg_device_scheme rpmsg_device_ops \<Rightarrow> addr \<Rightarrow> 'x rpmsg_device_scheme \<Rightarrow>
   (int \<times> 'x rpmsg_device_scheme) option" where
  "rpmsg_get_tx_buffer_size ops ept s =
     (if ept_dead ept s then Some (RPMSG_ERR_PARAM, s)
      else (case op_get_tx_buffer_size ops of Some f \<Rightarrow> f s | None \<Rightarrow> Some (RPMSG_EOPNOTSUPP, s)))"

definition rpmsg_get_rx_buffer_size ::
  "'x rpmsg_device_scheme rpmsg_device_ops \<Rightarrow> addr \<Rightarrow> 'x rpmsg_device_scheme \<Rightarrow>
   (int \<times> 'x rpmsg_device_scheme) option" where
  "rpmsg_get_rx_buffer_size ops ept s =
     (if ept_dead ept s then Some (RPMSG_ERR_PARAM, s)
      else (case op_get_rx_buffer_size ops of Some f \<Rightarrow> f s | None \<Rightarrow> Some (RPMSG_EOPNOTSUPP, s)))"

definition rpmsg_send_offchannel_nocopy ::
  "'x rpmsg_device_scheme rpmsg_device_ops \<Rightarrow> addr \<Rightarrow> u32 \<Rightarrow> u32 \<Rightarrow> addr \<Rightarrow> int \<Rightarrow>
   'x rpmsg_device_scheme \<Rightarrow> (int \<times> 'x rpmsg_device_scheme) option" where
  "rpmsg_send_offchannel_nocopy ops ept src dst data len s =
     (if ept_dead ept s \<or> data = NULL \<or> dst = RPMSG_ADDR_ANY \<or> len < 0 then Some (RPMSG_ERR_PARAM, s)
      else (case op_send_offchannel_nocopy ops of
          Some f \<Rightarrow> f s src dst data len
        | None \<Rightarrow> Some (RPMSG_ERR_PARAM, s)))"

definition rpmsg_sendto_nocopy ::
  "'x rpmsg_device_scheme rpmsg_device_ops \<Rightarrow> addr \<Rightarrow> addr \<Rightarrow> int \<Rightarrow> u32 \<Rightarrow>
   'x rpmsg_device_scheme \<Rightarrow> (int \<times> 'x rpmsg_device_scheme) option" where
  "rpmsg_sendto_nocopy ops ept data len dst s =
     (if ept = NULL then Some (RPMSG_ERR_PARAM, s)
      else rpmsg_send_offchannel_nocopy ops ept (ep_addr (rd_epts s ept)) dst data len s)"

definition rpmsg_send_nocopy ::
  "'x rpmsg_device_scheme rpmsg_device_ops \<Rightarrow> addr \<Rightarrow> addr \<Rightarrow> int \<Rightarrow>
   'x rpmsg_device_scheme \<Rightarrow> (int \<times> 'x rpmsg_device_scheme) option" where
  "rpmsg_send_nocopy ops ept data len s =
     (if ept = NULL then Some (RPMSG_ERR_PARAM, s)
      else rpmsg_send_offchannel_nocopy ops ept (ep_addr (rd_epts s ept)) (ep_dest_addr (rd_epts s ept)) data len s)"

definition is_rpmsg_ept_ready :: "addr \<Rightarrow> 'x rpmsg_device_scheme \<Rightarrow> bool" where
  "is_rpmsg_ept_ready ept s =
     (ept \<noteq> NULL \<and> ep_rdev (rd_epts s ept) \<and> ep_dest_addr (rd_epts s ept) \<noteq> RPMSG_ADDR_ANY)"

section \<open>Name service messages\<close>

text \<open>
  \<open>ns_bytes\<close> is the packed \<^verbatim>\<open>struct rpmsg_ns_msg\<close>. The message is a local variable that is not
  initialised: \<open>junk\<close> is what its name array holds before the copy.
\<close>

definition ns_bytes :: "u8 list \<Rightarrow> u32 \<Rightarrow> u32 \<Rightarrow> u8 list" where
  "ns_bytes name a flags = name @ le32 a @ le32 flags"

definition rpmsg_send_ns_message ::
  "'x rpmsg_device_scheme rpmsg_device_ops \<Rightarrow> u8 list \<Rightarrow> addr \<Rightarrow> u32 \<Rightarrow> 'x rpmsg_device_scheme \<Rightarrow>
   (int \<times> 'x rpmsg_device_scheme) option" where
  "rpmsg_send_ns_message ops junk ept flags s = do {
     let e = rd_epts s ept;
     (_, name) \<leftarrow> safe_strcpy junk RPMSG_NAME_SIZE (ep_name e) RPMSG_NAME_SIZE;
     (ret, s') \<leftarrow> rpmsg_send_offchannel_raw ops ept (ep_addr e) RPMSG_NS_EPT_ADDR
                   (Local (ns_bytes name (ep_addr e) flags)) 40 True s;
     Some (if ret < 0 then ret else RPMSG_SUCCESS, s')
   }"

section \<open>The endpoint list\<close>

fun get_endpoint_from ::
  "(addr \<Rightarrow> rpmsg_endpoint) \<Rightarrow> u8 list option \<Rightarrow> u32 \<Rightarrow> u32 \<Rightarrow> addr list \<Rightarrow> addr option" where
  "get_endpoint_from epts name a dest_addr [] = Some NULL"
| "get_endpoint_from epts name a dest_addr (p # ps) =
     (let e = epts p in
      if a \<noteq> RPMSG_ADDR_ANY \<and> ep_addr e = a then Some p
      else do {
        m \<leftarrow> (case name of None \<Rightarrow> Some False | Some n \<Rightarrow> strn_eq RPMSG_NAME_SIZE (ep_name e) n);
        if \<not> m then get_endpoint_from epts name a dest_addr ps
        else if dest_addr \<noteq> RPMSG_ADDR_ANY \<and> ep_dest_addr e = dest_addr then Some p
        else if a = RPMSG_ADDR_ANY \<and> ep_dest_addr e = RPMSG_ADDR_ANY then Some p
        else get_endpoint_from epts name a dest_addr ps
      })"

definition rpmsg_get_endpoint ::
  "'x rpmsg_device_scheme \<Rightarrow> u8 list option \<Rightarrow> u32 \<Rightarrow> u32 \<Rightarrow> addr option" where
  "rpmsg_get_endpoint s name a dest_addr = get_endpoint_from (rd_epts s) name a dest_addr (rd_endpoints s)"

definition rpmsg_get_ept_from_addr :: "'x rpmsg_device_scheme \<Rightarrow> u32 \<Rightarrow> addr option" where
  "rpmsg_get_ept_from_addr s a = rpmsg_get_endpoint s None a RPMSG_ADDR_ANY"

definition rpmsg_unregister_endpoint ::
  "'x rpmsg_device_scheme app \<Rightarrow> addr \<Rightarrow> 'x rpmsg_device_scheme \<Rightarrow> 'x rpmsg_device_scheme option" where
  "rpmsg_unregister_endpoint app ept s = do {
     s1 \<leftarrow> metal_mutex_acquire s;
     s2 \<leftarrow> (if ep_addr (rd_epts s1 ept) \<noteq> RPMSG_ADDR_ANY then do {
             bm \<leftarrow> rpmsg_release_address (rd_bitmap s1) RPMSG_ADDR_BMP_SIZE (ep_addr (rd_epts s1 ept));
             Some (s1\<lparr>rd_bitmap := bm\<rparr>)
           } else Some s1);
     s3 \<leftarrow> rpmsg_ept_decref app ept (s2\<lparr>rd_endpoints := remove1 ept (rd_endpoints s2)\<rparr>);
     Some (metal_mutex_release s3)
   }"

definition rpmsg_register_endpoint ::
  "addr \<Rightarrow> u8 list option \<Rightarrow> u32 \<Rightarrow> u32 \<Rightarrow> addr \<Rightarrow> addr \<Rightarrow> addr \<Rightarrow> 'x rpmsg_device_scheme \<Rightarrow>
   'x rpmsg_device_scheme option" where
  "rpmsg_register_endpoint ept name src dest cb ns_unbind_cb priv s = do {
     nm \<leftarrow> (case name of
              Some n \<Rightarrow> map_option snd (safe_strcpy (ep_name (rd_epts s ept)) RPMSG_NAME_SIZE n RPMSG_NAME_SIZE)
            | None \<Rightarrow> arr_set (ep_name (rd_epts s ept)) 0 0);
     let s1 = upd_ept ept (\<lambda>e. e\<lparr>ep_name := nm, ep_refcnt := 1, ep_addr := src, ep_dest_addr := dest,
                ep_cb := cb, ep_ns_unbind_cb := ns_unbind_cb, ep_priv := priv, ep_rdev := True\<rparr>) s;
     Some (s1\<lparr>rd_endpoints := rd_endpoints s1 @ [ept]\<rparr>)
   }"

text \<open>The choice of the address under the lock: \<open>Inl\<close> an error status, \<open>Inr\<close> the address.\<close>

definition choose_addr ::
  "u32 \<Rightarrow> 'x rpmsg_device_scheme \<Rightarrow> ((int + u32) \<times> 'x rpmsg_device_scheme) option" where
  "choose_addr src s =
     (if src = RPMSG_ADDR_ANY then do {
        (a, bm) \<leftarrow> rpmsg_get_address (rd_bitmap s) (rd_bitnext s) RPMSG_ADDR_BMP_SIZE;
        let s1 = s\<lparr>rd_bitmap := bm\<rparr>;
        if a = RPMSG_ADDR_ANY then Some (Inl RPMSG_ERR_ADDR, s1)
        else Some (Inr a, s1\<lparr>rd_bitnext := (a + 1) mod RPMSG_ADDR_BMP_SIZE\<rparr>)
      }
      else if RPMSG_RESERVED_ADDRESSES \<le> src then do {
        status \<leftarrow> rpmsg_is_address_set (rd_bitmap s) RPMSG_ADDR_BMP_SIZE src;
        if status = 0 then do {
          (_, bm) \<leftarrow> rpmsg_set_address (rd_bitmap s) RPMSG_ADDR_BMP_SIZE src;
          Some (Inr src, s\<lparr>rd_bitmap := bm\<rparr>)
        }
        else if 0 < status then Some (Inl RPMSG_ERR_ADDR, s)
        else Some (Inl status, s)
      }
      else Some (Inr src, s))"

text \<open>The announcement after the lock is released, and what happens when it fails.\<close>

definition create_announce ::
  "'x rpmsg_device_scheme rpmsg_device_ops \<Rightarrow> 'x rpmsg_device_scheme app \<Rightarrow> u8 list \<Rightarrow> addr \<Rightarrow>
   'x rpmsg_device_scheme \<Rightarrow> (int \<times> 'x rpmsg_device_scheme) option" where
  "create_announce ops app junk ept s = do {
     c0 \<leftarrow> arr_get (ep_name (rd_epts s ept)) 0;
     (status, s1) \<leftarrow>
       (if c0 \<noteq> 0 \<and> rd_support_ns s \<and> ep_dest_addr (rd_epts s ept) = RPMSG_ADDR_ANY
        then rpmsg_send_ns_message ops junk ept RPMSG_NS_CREATE s
        else Some (RPMSG_SUCCESS, s));
     if status \<noteq> 0 then do {
       s2 \<leftarrow> rpmsg_unregister_endpoint app ept s1;
       Some (status, s2)
     } else Some (status, s1)
   }"

definition rpmsg_create_ept ::
  "'x rpmsg_device_scheme rpmsg_device_ops \<Rightarrow> 'x rpmsg_device_scheme app \<Rightarrow> u8 list \<Rightarrow> addr \<Rightarrow>
   u8 list option \<Rightarrow> u32 \<Rightarrow> u32 \<Rightarrow> addr \<Rightarrow> addr \<Rightarrow> 'x rpmsg_device_scheme \<Rightarrow>
   (int \<times> 'x rpmsg_device_scheme) option" where
  "rpmsg_create_ept ops app junk ept name src dest cb unbind_cb s =
     (if ept = NULL \<or> cb = NULL then Some (RPMSG_ERR_PARAM, s)
      else do {
        s1 \<leftarrow> metal_mutex_acquire s;
        (r, s2) \<leftarrow> choose_addr src s1;
        (case r of
           Inl status \<Rightarrow> Some (status, metal_mutex_release s2)
         | Inr a \<Rightarrow> do {
             s3 \<leftarrow> rpmsg_register_endpoint ept name a dest cb unbind_cb (ep_priv (rd_epts s2 ept)) s2;
             create_announce ops app junk ept (metal_mutex_release s3)
           })
      })"

definition rpmsg_destroy_ept ::
  "'x rpmsg_device_scheme rpmsg_device_ops \<Rightarrow> 'x rpmsg_device_scheme app \<Rightarrow> u8 list \<Rightarrow> addr \<Rightarrow>
   'x rpmsg_device_scheme \<Rightarrow> 'x rpmsg_device_scheme option" where
  "rpmsg_destroy_ept ops app junk ept s =
     (if ept_dead ept s then Some s
      else do {
        c0 \<leftarrow> arr_get (ep_name (rd_epts s ept)) 0;
        s1 \<leftarrow> (if c0 \<noteq> 0 \<and> rd_support_ns s \<and> RPMSG_RESERVED_ADDRESSES \<le> ep_addr (rd_epts s ept)
               then map_option snd (rpmsg_send_ns_message ops junk ept RPMSG_NS_DESTROY s)
               else Some s);
        rpmsg_unregister_endpoint app ept s1
      })"

end
