(* ===== verification/Rpmsg_Ept.thy ===== *)
theory Rpmsg_Ept
  imports Rpmsg
begin

unbundle bit_operations_syntax

text \<open>
  The bookkeeping of endpoints. \<open>epts_inv\<close>: the registered endpoints are distinct live objects, and
  each one above the reserved range owns its bit of the address map alone. Creation and
  destruction keep it, as long as an address is left; the last section shows what happens when
  none is. What the layer needs from a transport is the locale \<open>rpmsg_transport\<close>.
\<close>

section \<open>The invariant\<close>

definition dyn_addr :: "u32 \<Rightarrow> bool" where
  "dyn_addr a = (1024 \<le> a \<and> a \<noteq> RPMSG_ADDR_ANY)"

definition epts_inv :: "'x rpmsg_device_scheme \<Rightarrow> bool" where
  "epts_inv s = (
     bitmap_capacity (rd_bitmap s) = 128 \<and> unat (rd_bitnext s) < 128 \<and>
     distinct (rd_endpoints s) \<and> NULL \<notin> set (rd_endpoints s) \<and>
     (\<forall>p \<in> set (rd_endpoints s). length (ep_name (rd_epts s p)) = 32 \<and> ep_rdev (rd_epts s p) \<and>
        (dyn_addr (ep_addr (rd_epts s p)) \<longrightarrow> unat (ep_addr (rd_epts s p)) < 1152
           \<and> unat (ep_addr (rd_epts s p)) - 1024 \<in> bitmap_bits (rd_bitmap s))) \<and>
     (\<forall>p \<in> set (rd_endpoints s). \<forall>q \<in> set (rd_endpoints s).
        dyn_addr (ep_addr (rd_epts s p)) \<and> ep_addr (rd_epts s p) = ep_addr (rd_epts s q) \<longrightarrow> p = q))"

text \<open>The part of a device record that the layer itself owns.\<close>

abbreviation (input) book :: "'x rpmsg_device_scheme \<Rightarrow> rpmsg_device" where
  "book s \<equiv> rpmsg_device.truncate s"

lemma book_eqD:
  assumes "book s' = book s"
  shows "rd_endpoints s' = rd_endpoints s" "rd_epts s' = rd_epts s" "rd_bitmap s' = rd_bitmap s"
    "rd_bitnext s' = rd_bitnext s" "rd_lock s' = rd_lock s" "rd_support_ns s' = rd_support_ns s"
    "rd_ns_bind_cb s' = rd_ns_bind_cb s" "rd_ns_unbind_cb s' = rd_ns_unbind_cb s"
  using assms by (simp_all add: rpmsg_device.defs)

lemma epts_inv_book:
  assumes "book s' = book s"
  shows "epts_inv s' = epts_inv s"
  unfolding epts_inv_def book_eqD [OF assms] ..

lemma epts_inv_lock [simp]: "epts_inv (s\<lparr>rd_lock := l\<rparr>) = epts_inv s"
  by (simp add: epts_inv_def)

section \<open>The address map\<close>

lemma unreserve_dyn:
  assumes "unat a = 1024 + k" and "k < 2 ^ 20"
  shows "unreserve a = Some (int k)"
  using sint_small [of a] assms by (simp add: unreserve_def)

lemma unreserve_low:
  assumes "unat a = n" and "n < 1024"
  shows "unreserve a = Some (int n - 1024)"
  using sint_small [of a] assms by (simp add: unreserve_def)

lemma dynE:
  assumes "1024 \<le> a"
  obtains k where "unat (a :: u32) = 1024 + k"
proof -
  have "1024 \<le> unat a" using assms by (simp add: word_le_nat_alt)
  then show ?thesis using that [of "unat a - 1024"] by simp
qed

lemma sint_bmp_size: "sint (128 :: u32) = 128"
  using sint_small [of 128] by simp

lemma release_dyn:
  assumes "unat a = 1024 + k" and "k < 128" and "bitmap_capacity bm = 128"
  shows "\<exists>bm'. rpmsg_release_address bm RPMSG_ADDR_BMP_SIZE a = Some bm' \<and> bitmap_capacity bm' = 128
    \<and> bitmap_bits bm' = bitmap_bits bm - {k}"
proof -
  have "k < bitmap_capacity bm" using assms by simp
  then obtain bm' where "metal_bitmap_clear_bit bm k = Some bm'"
    "bitmap_capacity bm' = bitmap_capacity bm" "bitmap_bits bm' = bitmap_bits bm - {k}"
    by (rule metal_bitmap.clear_bitE)
  then show ?thesis
    using assms unreserve_dyn [OF assms(1)] by (simp add: rpmsg_release_address_def sint_bmp_size)
qed

lemma release_low: "unat a < 1024 \<Longrightarrow> rpmsg_release_address bm RPMSG_ADDR_BMP_SIZE a = Some bm"
  using unreserve_low [OF refl, of a] unsigned_less [of a] by (simp add: rpmsg_release_address_def del: of_nat_unat)

text \<open>The address allocator when some address is left.\<close>

lemma get_address_fresh:
  assumes "bitmap_capacity bm = 128" and "unat start < 128" and "c < 128" and "c \<notin> bitmap_bits bm"
  shows "\<exists>a bm'. rpmsg_get_address bm start RPMSG_ADDR_BMP_SIZE = Some (a, bm') \<and> dyn_addr a
    \<and> unat a < 1152 \<and> unat a - 1024 \<notin> bitmap_bits bm
    \<and> bitmap_capacity bm' = 128 \<and> bitmap_bits bm' = insert (unat a - 1024) (bitmap_bits bm)"
proof -
  obtain r where r: "metal_bitmap_next_clear_bit bm start 128 = Some r" "r < 128" "unat r \<notin> bitmap_bits bm"
    using find_clear_bit [of start 128 bm c] assms by (auto simp: word_less_nat_alt)
  have ur: "unat r < 128" using r(2) by (simp add: word_less_nat_alt)
  then have a: "unat (1024 + r) = 1024 + unat r" by (simp add: unat_word_ariths)
  have "unat r < bitmap_capacity bm" using ur assms(1) by simp
  then obtain bm' where bm': "metal_bitmap_set_bit bm (unat r) = Some bm'"
    "bitmap_capacity bm' = bitmap_capacity bm" "bitmap_bits bm' = insert (unat r) (bitmap_bits bm)"
    by (rule metal_bitmap.set_bitE)
  have "dyn_addr (1024 + r)"
    using a ur by (auto simp: dyn_addr_def word_le_nat_alt word_unat_eq_iff)
  then show ?thesis
    using r bm' a ur assms(1) by (intro exI [of _ "1024 + r"] exI [of _ bm']) (simp add: rpmsg_get_address_def)
qed

lemma set_address_fresh:
  assumes "bitmap_capacity bm = 128" and "unat a = 1024 + k" and "k < 128" and "k \<notin> bitmap_bits bm"
  shows "rpmsg_is_address_set bm RPMSG_ADDR_BMP_SIZE a = Some 0"
    and "\<exists>bm'. rpmsg_set_address bm RPMSG_ADDR_BMP_SIZE a = Some (RPMSG_SUCCESS, bm')
      \<and> bitmap_capacity bm' = 128 \<and> bitmap_bits bm' = insert k (bitmap_bits bm)"
proof -
  have k: "k < bitmap_capacity bm" using assms by simp
  have u: "unreserve a = Some (int k)" using assms by (intro unreserve_dyn) simp_all
  show "rpmsg_is_address_set bm RPMSG_ADDR_BMP_SIZE a = Some 0"
    using u metal_bitmap.test_ok [OF k] assms by (simp add: rpmsg_is_address_set_def sint_bmp_size)
  obtain bm' where "metal_bitmap_set_bit bm k = Some bm'"
    "bitmap_capacity bm' = bitmap_capacity bm" "bitmap_bits bm' = insert k (bitmap_bits bm)"
    using k by (rule metal_bitmap.set_bitE)
  then show "\<exists>bm'. rpmsg_set_address bm RPMSG_ADDR_BMP_SIZE a = Some (RPMSG_SUCCESS, bm')
      \<and> bitmap_capacity bm' = 128 \<and> bitmap_bits bm' = insert k (bitmap_bits bm)"
    using u assms by (simp add: rpmsg_set_address_def sint_bmp_size)
qed

text \<open>The outcome of an explicitly requested address: taken, out of range, or granted.\<close>

lemma is_address_set_cases:
  assumes "bitmap_capacity bm = 128" and "unat a = 1024 + k" and "k < 2 ^ 20"
  shows "rpmsg_is_address_set bm RPMSG_ADDR_BMP_SIZE a =
    Some (if k < 128 then of_bool (k \<in> bitmap_bits bm) else RPMSG_ERR_PARAM)"
proof (cases "k < 128")
  case True
  then have "metal_bitmap_is_bit_set bm k = Some (k \<in> bitmap_bits bm)"
    using assms(1) by (intro metal_bitmap.test_ok) simp
  then show ?thesis
    using True unreserve_dyn [OF assms(2,3)] by (simp add: rpmsg_is_address_set_def sint_bmp_size)
next
  case False
  then show ?thesis
    using unreserve_dyn [OF assms(2,3)] by (simp add: rpmsg_is_address_set_def sint_bmp_size)
qed

lemma is_address_set_far:
  assumes "unat a = 1024 + k" and "128 \<le> k" and "rpmsg_is_address_set bm RPMSG_ADDR_BMP_SIZE a = Some r"
  shows "r = RPMSG_ERR_PARAM"
proof -
  have "unat a < 1152" if "1024 \<le> sint a" "sint a < 1152"
  proof -
    have "uint (word_of_int i :: u32) = i" if "0 \<le> i" "i < 2 ^ 32" for i
      using that by (simp add: unsigned_of_int take_bit_int_eq_self)
    from this [of "sint a"] have "uint a = sint a" using that by simp
    then show ?thesis using that by (simp add: unat_eq_nat_uint)
  qed
  then show ?thesis
    using assms by (auto simp: rpmsg_is_address_set_def unreserve_def sint_bmp_size opt_simps split: if_splits)
qed

section \<open>Registering and unregistering\<close>

definition name_ok :: "u8 list option \<Rightarrow> bool" where
  "name_ok name = (case name of None \<Rightarrow> True | Some n \<Rightarrow> 32 \<le> length n \<or> 0 \<in> set n)"

lemma register_ok:
  assumes "length (ep_name (rd_epts s p)) = 32" and "name_ok name"
  shows "\<exists>nm. rpmsg_register_endpoint p name a dest cb ub priv s =
      Some (s\<lparr>rd_epts := (rd_epts s)(p := (rd_epts s p)\<lparr>ep_name := nm, ep_refcnt := 1, ep_addr := a,
                ep_dest_addr := dest, ep_cb := cb, ep_ns_unbind_cb := ub, ep_priv := priv, ep_rdev := True\<rparr>),
              rd_endpoints := rd_endpoints s @ [p]\<rparr>)
    \<and> length nm = 32 \<and> (name = None \<longrightarrow> nm ! 0 = 0)"
proof (cases name)
  case None
  then show ?thesis
    using assms by (intro exI [of _ "(ep_name (rd_epts s p))[0 := 0]"])
      (simp add: rpmsg_register_endpoint_def upd_ept_def)
next
  case (Some n)
  then obtain r nm where "safe_strcpy (ep_name (rd_epts s p)) 32 n 32 = Some (r, nm)" "length nm = 32"
    using strcpy_fits [OF assms(1), of n] assms(2) by (auto simp: name_ok_def)
  then show ?thesis
    using Some by (intro exI [of _ nm]) (simp add: rpmsg_register_endpoint_def upd_ept_def)
qed

text \<open>Adding an endpoint whose address nobody else has.\<close>

lemma epts_inv_add:
  assumes inv: "epts_inv s" and p: "p \<notin> set (rd_endpoints s)" "p \<noteq> NULL"
    and e: "length (ep_name e) = 32" "ep_rdev e"
    and bm: "bitmap_capacity (rd_bitmap s') = 128" "bitmap_bits (rd_bitmap s) \<subseteq> bitmap_bits (rd_bitmap s')"
    and a: "dyn_addr (ep_addr e) \<Longrightarrow> unat (ep_addr e) < 1152
       \<and> unat (ep_addr e) - 1024 \<in> bitmap_bits (rd_bitmap s')
       \<and> unat (ep_addr e) - 1024 \<notin> bitmap_bits (rd_bitmap s)"
    and s': "rd_endpoints s' = rd_endpoints s @ [p]" "rd_epts s' = (rd_epts s)(p := e)" "unat (rd_bitnext s') < 128"
  shows "epts_inv s'"
proof -
  have other: "ep_addr (rd_epts s q) \<noteq> ep_addr e"
    if "q \<in> set (rd_endpoints s)" "dyn_addr (ep_addr e)" for q
    using inv that a by (auto simp: epts_inv_def)
  show ?thesis
    unfolding epts_inv_def s'
    using inv p e bm a s'(3) other by (auto simp: epts_inv_def)
qed

text \<open>Removing one and releasing its bit.\<close>

lemma epts_inv_remove:
  assumes inv: "epts_inv s" and p: "p \<in> set (rd_endpoints s)"
    and bm: "bitmap_capacity (rd_bitmap s') = 128"
      "bitmap_bits (rd_bitmap s') = bitmap_bits (rd_bitmap s) - (if dyn_addr (ep_addr (rd_epts s p))
          then {unat (ep_addr (rd_epts s p)) - 1024} else {})"
    and s': "rd_endpoints s' = remove1 p (rd_endpoints s)" "rd_epts s' = (rd_epts s)(p := e)"
      "rd_bitnext s' = rd_bitnext s"
  shows "epts_inv s'"
proof -
  have dist: "distinct (rd_endpoints s)" using inv by (simp add: epts_inv_def)
  then have set': "set (rd_endpoints s') = set (rd_endpoints s) - {p}" by (simp add: s')
  have old: "rd_epts s' q = rd_epts s q" if "q \<in> set (rd_endpoints s')" for q
    using that unfolding set' by (auto simp: s'(2))
  have bit: "unat (ep_addr (rd_epts s q)) - 1024 \<in> bitmap_bits (rd_bitmap s')"
    if q: "q \<in> set (rd_endpoints s')" and dyn: "dyn_addr (ep_addr (rd_epts s q))" for q
  proof -
    have "q \<noteq> p" "q \<in> set (rd_endpoints s)" using q by (auto simp: set')
    then have ne: "ep_addr (rd_epts s q) \<noteq> ep_addr (rd_epts s p)" using inv p dyn by (auto simp: epts_inv_def)
    have "unat (ep_addr (rd_epts s q)) - 1024 \<noteq> unat (ep_addr (rd_epts s p)) - 1024"
      if "dyn_addr (ep_addr (rd_epts s p))"
      using ne that dyn by (auto simp: dyn_addr_def word_le_nat_alt word_unat_eq_iff)
    then show ?thesis
      using bm(2) inv \<open>q \<in> set (rd_endpoints s)\<close> dyn by (auto simp: epts_inv_def)
  qed
  have "distinct (rd_endpoints s')" using dist by (simp add: s')
  then show ?thesis
    unfolding epts_inv_def
    using inv bm(1) s'(3) bit old set' by (auto simp: epts_inv_def)
qed

text \<open>Unregistering an endpoint that has one reference and no release callback.\<close>

lemma unregister_ok:
  assumes inv: "epts_inv s" and p: "p \<in> set (rd_endpoints s)" and lock: "\<not> rd_lock s"
    and ref: "ep_refcnt (rd_epts s p) = 1" and cb: "ep_release_cb (rd_epts s p) = NULL"
  shows "\<exists>s'. rpmsg_unregister_endpoint app p s = Some s' \<and> epts_inv s' \<and> \<not> rd_lock s'
    \<and> rd_endpoints s' = remove1 p (rd_endpoints s) \<and> ept_dead p s'
    \<and> bitmap_bits (rd_bitmap s') = bitmap_bits (rd_bitmap s) - (if dyn_addr (ep_addr (rd_epts s p))
          then {unat (ep_addr (rd_epts s p)) - 1024} else {})
    \<and> (\<forall>q. q \<noteq> p \<longrightarrow> rd_epts s' q = rd_epts s q)"
proof -
  let ?a = "ep_addr (rd_epts s p)"
  have "p \<noteq> NULL" and cap: "bitmap_capacity (rd_bitmap s) = 128" using inv p by (auto simp: epts_inv_def)
  define e where "e = (rd_epts s p)\<lparr>ep_refcnt := 0, ep_rdev := False\<rparr>"
  have rel: "\<exists>bm'. (if ?a \<noteq> RPMSG_ADDR_ANY then rpmsg_release_address (rd_bitmap s) RPMSG_ADDR_BMP_SIZE ?a
                      else Some (rd_bitmap s)) = Some bm' \<and> bitmap_capacity bm' = 128
      \<and> bitmap_bits bm' = bitmap_bits (rd_bitmap s) - (if dyn_addr ?a then {unat ?a - 1024} else {})"
  proof (cases "dyn_addr ?a")
    case True
    then obtain k where k: "unat ?a = 1024 + k" by (auto simp: dyn_addr_def elim: dynE)
    then have "k < 128" using inv p True by (auto simp: epts_inv_def)
    then show ?thesis using release_dyn [OF k _ cap] True k by (simp add: dyn_addr_def)
  next
    case False
    have "unat ?a < 1024" if "?a \<noteq> RPMSG_ADDR_ANY"
      using False that by (simp add: dyn_addr_def word_le_nat_alt)
    then show ?thesis using release_low cap False by simp
  qed
  then obtain bm where bm: "(if ?a \<noteq> RPMSG_ADDR_ANY then rpmsg_release_address (rd_bitmap s) RPMSG_ADDR_BMP_SIZE ?a
                      else Some (rd_bitmap s)) = Some bm" "bitmap_capacity bm = 128"
      "bitmap_bits bm = bitmap_bits (rd_bitmap s) - (if dyn_addr ?a then {unat ?a - 1024} else {})"
    by blast
  define s' where "s' = s\<lparr>rd_bitmap := bm, rd_endpoints := remove1 p (rd_endpoints s),
     rd_epts := (rd_epts s)(p := e), rd_lock := False\<rparr>"
  have run: "rpmsg_unregister_endpoint app p s = Some s'"
    using bm(1) lock ref cb \<open>p \<noteq> NULL\<close>
    by (cases "?a = RPMSG_ADDR_ANY")
      (simp_all add: rpmsg_unregister_endpoint_def metal_mutex_acquire_def metal_mutex_release_def
        rpmsg_ept_decref_def upd_ept_def Let_def e_def s'_def)
  have "epts_inv s'"
    by (rule epts_inv_remove [OF inv p]) (use bm in \<open>simp_all add: s'_def\<close>)
  then show ?thesis
    using run bm(3) by (intro exI [of _ s']) (simp add: s'_def ept_dead_def e_def)
qed

text \<open>Choosing an address leaves everything but the map and the search position.\<close>

lemma choose_addr_ok:
  assumes inv: "epts_inv s" and free: "src = RPMSG_ADDR_ANY \<Longrightarrow> \<exists>c < 128. c \<notin> bitmap_bits (rd_bitmap s)"
    and run: "choose_addr src s = Some (r, s')"
  shows "rd_endpoints s' = rd_endpoints s \<and> rd_epts s' = rd_epts s \<and> rd_lock s' = rd_lock s
    \<and> rd_support_ns s' = rd_support_ns s \<and> bitmap_capacity (rd_bitmap s') = 128
    \<and> unat (rd_bitnext s') < 128 \<and> bitmap_bits (rd_bitmap s) \<subseteq> bitmap_bits (rd_bitmap s')
    \<and> (case r of Inl st \<Rightarrow> st < 0 \<and> s' = s
        | Inr a \<Rightarrow> a \<noteq> RPMSG_ADDR_ANY \<and> (src \<noteq> RPMSG_ADDR_ANY \<longrightarrow> a = src)
            \<and> (src = RPMSG_ADDR_ANY \<longrightarrow> dyn_addr a)
            \<and> bitmap_bits (rd_bitmap s') = bitmap_bits (rd_bitmap s) \<union> (if dyn_addr a then {unat a - 1024} else {})
            \<and> (dyn_addr a \<longrightarrow> unat a < 1152 \<and> unat a - 1024 \<in> bitmap_bits (rd_bitmap s')
                 \<and> unat a - 1024 \<notin> bitmap_bits (rd_bitmap s)))"
proof -
  have cap: "bitmap_capacity (rd_bitmap s) = 128" "unat (rd_bitnext s) < 128"
    using inv by (auto simp: epts_inv_def)
  consider (any) "src = RPMSG_ADDR_ANY" | (dyn) "src \<noteq> RPMSG_ADDR_ANY" "1024 \<le> src"
    | (low) "src \<noteq> RPMSG_ADDR_ANY" "\<not> 1024 \<le> src" by blast
  then show ?thesis
  proof cases
    case any
    then obtain c where c: "c < 128" "c \<notin> bitmap_bits (rd_bitmap s)" using free by blast
    obtain a bm where a: "rpmsg_get_address (rd_bitmap s) (rd_bitnext s) RPMSG_ADDR_BMP_SIZE = Some (a, bm)"
      "dyn_addr a" "unat a < 1152" "unat a - 1024 \<notin> bitmap_bits (rd_bitmap s)" "bitmap_capacity bm = 128"
      "bitmap_bits bm = insert (unat a - 1024) (bitmap_bits (rd_bitmap s))"
      using get_address_fresh [OF cap c] by blast
    have "unat ((a + 1) mod 128) < 128" by (simp add: unat_mod)
    then show ?thesis
      using run any a by (auto simp: choose_addr_def dyn_addr_def)
  next
    case dyn
    then obtain k where k: "unat src = 1024 + k" by (auto elim: dynE)
    show ?thesis
    proof (cases "k < 128 \<and> k \<notin> bitmap_bits (rd_bitmap s)")
      case True
      then have set: "rpmsg_is_address_set (rd_bitmap s) RPMSG_ADDR_BMP_SIZE src = Some 0" by (intro set_address_fresh(1) [OF cap(1) k]) auto
      from True obtain bm where "rpmsg_set_address (rd_bitmap s) RPMSG_ADDR_BMP_SIZE src = Some (RPMSG_SUCCESS, bm)"
        "bitmap_capacity bm = 128" "bitmap_bits bm = insert k (bitmap_bits (rd_bitmap s))"
        using set_address_fresh(2) [OF cap(1) k] by blast
      then show ?thesis
        using run dyn set True cap k by (auto simp: choose_addr_def dyn_addr_def)
    next
      case False
      then have "rpmsg_is_address_set (rd_bitmap s) RPMSG_ADDR_BMP_SIZE src \<in> {None, Some 1, Some RPMSG_ERR_PARAM}"
        using is_address_set_cases [OF cap(1) k] is_address_set_far [OF k]
        by (cases "k < 128"; cases "rpmsg_is_address_set (rd_bitmap s) RPMSG_ADDR_BMP_SIZE src") auto
      then show ?thesis using run dyn cap by (auto simp: choose_addr_def split: if_splits)
    qed
  next
    case low
    then show ?thesis using run cap by (auto simp: choose_addr_def dyn_addr_def)
  qed
qed

section \<open>What a transport must leave alone\<close>

locale rpmsg_transport =
  fixes ops :: "'x rpmsg_device_scheme rpmsg_device_ops"
  assumes send_keeps: "op_send_offchannel_raw ops = Some f \<Longrightarrow> \<not> rd_lock s
    \<Longrightarrow> f s src dst data len wait = Some (r, s') \<Longrightarrow> book s' = book s"
begin

lemma send_raw_keeps:
  assumes "rpmsg_send_offchannel_raw ops ept src dst data len wait s = Some (r, s')" and "\<not> rd_lock s"
  shows "book s' = book s"
  using assms send_keeps
  by (auto simp: rpmsg_send_offchannel_raw_def split: if_splits option.splits)

lemma ns_message_keeps:
  assumes "rpmsg_send_ns_message ops junk ept flags s = Some (r, s')" and "\<not> rd_lock s"
  shows "book s' = book s"
  using assms send_raw_keeps
  by (auto simp: rpmsg_send_ns_message_def Let_def opt_simps split: prod.splits)

lemma announce_keeps:
  assumes "(if c then rpmsg_send_ns_message ops junk ept flags s else Some (RPMSG_SUCCESS, s)) = Some (r, s')"
    and "\<not> rd_lock s"
  shows "book s' = book s"
  using assms ns_message_keeps by (auto split: if_splits)

lemma create_announce_inv:
  assumes inv: "epts_inv s" and lock: "\<not> rd_lock s" and p: "ept \<in> set (rd_endpoints s)"
    and e: "ep_refcnt (rd_epts s ept) = 1" "ep_release_cb (rd_epts s ept) = NULL"
    and run: "create_announce ops app junk ept s = Some (r, s')"
  shows "epts_inv s' \<and> \<not> rd_lock s' \<and> (r = 0 \<longrightarrow> book s' = book s) \<and> (\<forall>q. q \<noteq> ept \<longrightarrow> rd_epts s' q = rd_epts s q)
    \<and> (r \<noteq> 0 \<longrightarrow> rd_endpoints s' = remove1 ept (rd_endpoints s) \<and> ept_dead ept s'
         \<and> bitmap_bits (rd_bitmap s') = bitmap_bits (rd_bitmap s) -
             (if dyn_addr (ep_addr (rd_epts s ept)) then {unat (ep_addr (rd_epts s ept)) - 1024} else {}))"
proof -
  let ?c = "ep_name (rd_epts s ept) ! 0 \<noteq> 0 \<and> rd_support_ns s \<and> ep_dest_addr (rd_epts s ept) = RPMSG_ADDR_ANY"
  obtain st s1 where ann: "(if ?c then rpmsg_send_ns_message ops junk ept RPMSG_NS_CREATE s
      else Some (RPMSG_SUCCESS, s)) = Some (st, s1)"
    and fin: "(if st \<noteq> 0 then Option.bind (rpmsg_unregister_endpoint app ept s1) (\<lambda>s2. Some (st, s2))
           else Some (st, s1)) = Some (r, s')"
    using run unfolding create_announce_def by (auto simp only: opt_simps split: prod.splits)
  have bk: "book s1 = book s" by (rule announce_keeps [OF ann lock])
  note b1 = book_eqD [OF bk]
  have inv1: "epts_inv s1" using inv epts_inv_book [OF bk] by simp
  show ?thesis
  proof (cases "st = 0")
    case True
    then show ?thesis using fin inv1 lock b1 bk by auto
  next
    case False
    then show ?thesis
      using fin unregister_ok [OF inv1, of ept app] p lock e b1 by auto
  qed
qed

lemma create_ept_inv:
  assumes inv: "epts_inv s" and lock: "\<not> rd_lock s"
    and new: "ept \<notin> set (rd_endpoints s)" "length (ep_name (rd_epts s ept)) = 32"
      "ep_release_cb (rd_epts s ept) = NULL" "name_ok name"
    and free: "src = RPMSG_ADDR_ANY \<Longrightarrow> \<exists>c < 128. c \<notin> bitmap_bits (rd_bitmap s)"
    and run: "rpmsg_create_ept ops app junk ept name src dest cb unbind_cb s = Some (r, s')"
  shows "epts_inv s' \<and> \<not> rd_lock s'
    \<and> (r = 0 \<longrightarrow> rd_endpoints s' = rd_endpoints s @ [ept] \<and> ep_cb (rd_epts s' ept) = cb
         \<and> (src \<noteq> RPMSG_ADDR_ANY \<longrightarrow> ep_addr (rd_epts s' ept) = src)
         \<and> (src = RPMSG_ADDR_ANY \<longrightarrow> dyn_addr (ep_addr (rd_epts s' ept))))
    \<and> (\<forall>q. q \<noteq> ept \<longrightarrow> rd_epts s' q = rd_epts s q)
    \<and> (r \<noteq> 0 \<longrightarrow> rd_endpoints s' = rd_endpoints s \<and> bitmap_bits (rd_bitmap s') = bitmap_bits (rd_bitmap s)
         \<and> (s' = s \<or> ept_dead ept s'))"
proof (cases "ept = NULL \<or> cb = NULL")
  case True
  then show ?thesis using run inv lock by (simp add: rpmsg_create_ept_def)
next
  case False
  let ?s1 = "s\<lparr>rd_lock := True\<rparr>"
  obtain x s2 where x: "choose_addr src ?s1 = Some (x, s2)"
    using run False lock by (auto simp: rpmsg_create_ept_def metal_mutex_acquire_def opt_simps)
  have inv1: "epts_inv ?s1" using inv by simp
  have ch: "rd_endpoints s2 = rd_endpoints s" "rd_epts s2 = rd_epts s"
    "bitmap_capacity (rd_bitmap s2) = 128" "unat (rd_bitnext s2) < 128"
    "bitmap_bits (rd_bitmap s) \<subseteq> bitmap_bits (rd_bitmap s2)"
    "case x of Inl st \<Rightarrow> st < 0 \<and> s2 = ?s1
        | Inr a \<Rightarrow> a \<noteq> RPMSG_ADDR_ANY \<and> (src \<noteq> RPMSG_ADDR_ANY \<longrightarrow> a = src)
            \<and> (src = RPMSG_ADDR_ANY \<longrightarrow> dyn_addr a)
            \<and> bitmap_bits (rd_bitmap s2) = bitmap_bits (rd_bitmap s) \<union> (if dyn_addr a then {unat a - 1024} else {})
            \<and> (dyn_addr a \<longrightarrow> unat a < 1152 \<and> unat a - 1024 \<in> bitmap_bits (rd_bitmap s2)
                 \<and> unat a - 1024 \<notin> bitmap_bits (rd_bitmap s))"
    using choose_addr_ok [OF inv1 _ x] free by (auto split: sum.splits)
  show ?thesis
  proof (cases x)
    case (Inl st)
    then have "r = st" "s' = metal_mutex_release s2"
      using run False lock x by (simp_all add: rpmsg_create_ept_def metal_mutex_acquire_def)
    moreover have "metal_mutex_release s2 = s" using ch(6) Inl lock by (simp add: metal_mutex_release_def)
    ultimately show ?thesis using ch(6) Inl inv lock by simp
  next
    case (Inr a)
    have pre: "length (ep_name (rd_epts s2 ept)) = 32" using new(2) ch(2) by simp
    obtain nm where nm: "rpmsg_register_endpoint ept name a dest cb unbind_cb (ep_priv (rd_epts s2 ept)) s2
        = Some (s2\<lparr>rd_epts := (rd_epts s2)(ept := (rd_epts s2 ept)\<lparr>ep_name := nm, ep_refcnt := 1, ep_addr := a,
                ep_dest_addr := dest, ep_cb := cb, ep_ns_unbind_cb := unbind_cb,
                ep_priv := ep_priv (rd_epts s2 ept), ep_rdev := True\<rparr>),
              rd_endpoints := rd_endpoints s2 @ [ept]\<rparr>)" "length nm = 32"
      using register_ok [OF pre new(4)] by blast
    define e where "e = (rd_epts s2 ept)\<lparr>ep_name := nm, ep_refcnt := 1, ep_addr := a,
                ep_dest_addr := dest, ep_cb := cb, ep_ns_unbind_cb := unbind_cb,
                ep_priv := ep_priv (rd_epts s2 ept), ep_rdev := True\<rparr>"
    define s4 where "s4 = metal_mutex_release (s2\<lparr>rd_epts := (rd_epts s2)(ept := e), rd_endpoints := rd_endpoints s2 @ [ept]\<rparr>)"
    have run4: "create_announce ops app junk ept s4 = Some (r, s')"
      using run False lock x Inr nm(1)
      by (simp add: rpmsg_create_ept_def metal_mutex_acquire_def s4_def e_def)
    have f4: "\<not> rd_lock s4" "rd_epts s4 ept = e" "rd_endpoints s4 = rd_endpoints s @ [ept]" "rd_bitmap s4 = rd_bitmap s2"
      using ch(1) by (simp_all add: s4_def metal_mutex_release_def)
    have inv4: "epts_inv s4"
      by (rule epts_inv_add [OF inv new(1), where e = e])
        (use False nm(2) ch Inr in \<open>auto simp: s4_def e_def metal_mutex_release_def\<close>)
    have e4: "ep_refcnt e = 1" "ep_release_cb e = NULL" "ep_addr e = a" "ep_cb e = cb"
      using new(3) ch(2) by (simp_all add: e_def)
    have rm: "remove1 ept (rd_endpoints s @ [ept]) = rd_endpoints s" using new(1) by (simp add: remove1_append)
    have others: "\<forall>q. q \<noteq> ept \<longrightarrow> rd_epts s4 q = rd_epts s q" using ch(2) by (simp add: s4_def metal_mutex_release_def)
    have fin: "epts_inv s'" "\<not> rd_lock s'" "r = 0 \<longrightarrow> book s' = book s4"
      "r \<noteq> 0 \<longrightarrow> rd_endpoints s' = rd_endpoints s \<and> ept_dead ept s' \<and> bitmap_bits (rd_bitmap s') =
         bitmap_bits (rd_bitmap s2) - (if dyn_addr a then {unat a - 1024} else {})"
      "\<forall>q. q \<noteq> ept \<longrightarrow> rd_epts s' q = rd_epts s q"
      using create_announce_inv [OF inv4 f4(1) _ _ _ run4] f4 e4 rm others by auto
    have "bitmap_bits (rd_bitmap s') = bitmap_bits (rd_bitmap s)" if "r \<noteq> 0"
      using fin(4) that ch(6) Inr by auto
    then show ?thesis
      using fin ch(6) Inr f4 e4 book_eqD [of s' s4] by auto
  qed
qed

lemma destroy_ept_inv:
  assumes inv: "epts_inv s" and lock: "\<not> rd_lock s" and p: "ept \<in> set (rd_endpoints s)"
    and e: "ep_refcnt (rd_epts s ept) = 1" "ep_release_cb (rd_epts s ept) = NULL"
    and run: "rpmsg_destroy_ept ops app junk ept s = Some s'"
  shows "epts_inv s' \<and> \<not> rd_lock s' \<and> rd_endpoints s' = remove1 ept (rd_endpoints s) \<and> ept_dead ept s'
    \<and> bitmap_bits (rd_bitmap s') = bitmap_bits (rd_bitmap s) -
        (if dyn_addr (ep_addr (rd_epts s ept)) then {unat (ep_addr (rd_epts s ept)) - 1024} else {})"
proof -
  have live: "\<not> ept_dead ept s" using inv p by (auto simp: ept_dead_def epts_inv_def)
  obtain s1 where s1: "rpmsg_unregister_endpoint app ept s1 = Some s'" and bk: "book s1 = book s"
    using run live lock ns_message_keeps
    by (auto simp: rpmsg_destroy_ept_def opt_simps split: if_splits)
  note b1 = book_eqD [OF bk]
  have inv1: "epts_inv s1" using inv epts_inv_book [OF bk] by simp
  show ?thesis
    using s1 unregister_ok [OF inv1, of ept app] p lock e b1 by auto
qed

end

section \<open>Routing\<close>

lemma get_endpoint_by_addr:
  assumes "a \<noteq> RPMSG_ADDR_ANY"
  shows "get_endpoint_from epts None a dest ps =
    Some (case List.find (\<lambda>p. ep_addr (epts p) = a) ps of None \<Rightarrow> NULL | Some p \<Rightarrow> p)"
  using assms by (induction ps) (auto simp: Let_def)

lemma find_unique:
  assumes "p \<in> set ps" and "P p" and uniq: "\<And>q. q \<in> set ps \<Longrightarrow> P q \<Longrightarrow> q = p"
  shows "List.find P ps = Some p"
proof (cases "List.find P ps")
  case None
  then show ?thesis using assms(1,2) by (auto simp: find_None_iff)
next
  case (Some q)
  then have "q \<in> set ps" "P q" by (auto simp: find_Some_iff)
  then show ?thesis using uniq Some by blast
qed

lemma routed:
  assumes "epts_inv s" and "p \<in> set (rd_endpoints s)" and "dyn_addr (ep_addr (rd_epts s p))"
  shows "rpmsg_get_ept_from_addr s (ep_addr (rd_epts s p)) = Some p"
proof -
  have "List.find (\<lambda>q. ep_addr (rd_epts s q) = ep_addr (rd_epts s p)) (rd_endpoints s) = Some p"
    using assms by (intro find_unique) (auto simp: epts_inv_def)
  then show ?thesis
    using assms(3) by (simp add: rpmsg_get_ept_from_addr_def rpmsg_get_endpoint_def dyn_addr_def get_endpoint_by_addr)
qed

lemma not_routed:
  assumes "a \<noteq> RPMSG_ADDR_ANY" and "\<And>p. p \<in> set (rd_endpoints s) \<Longrightarrow> ep_addr (rd_epts s p) \<noteq> a"
  shows "rpmsg_get_ept_from_addr s a = Some NULL"
proof -
  have "List.find (\<lambda>p. ep_addr (rd_epts s p) = a) (rd_endpoints s) = None"
    using assms(2) by (simp add: find_None_iff)
  then show ?thesis
    using assms(1) by (simp add: rpmsg_get_ept_from_addr_def rpmsg_get_endpoint_def get_endpoint_by_addr)
qed

section \<open>Creation returns\<close>

text \<open>With an address to give out and nothing to announce, creation always ends with success.\<close>

lemma create_ept_returns:
  assumes lock: "\<not> rd_lock s" and args: "ept \<noteq> NULL" "cb \<noteq> NULL" "name_ok name"
    and len: "length (ep_name (rd_epts s ept)) = 32"
    and quiet: "\<not> rd_support_ns s \<or> dest \<noteq> RPMSG_ADDR_ANY"
    and pick: "rpmsg_get_address (rd_bitmap s) (rd_bitnext s) RPMSG_ADDR_BMP_SIZE = Some (a, bm)" "a \<noteq> RPMSG_ADDR_ANY"
  shows "\<exists>s'. rpmsg_create_ept ops app junk ept name RPMSG_ADDR_ANY dest cb unbind_cb s = Some (0, s')
    \<and> ep_addr (rd_epts s' ept) = a \<and> rd_endpoints s' = rd_endpoints s @ [ept]"
proof -
  let ?s2 = "s\<lparr>rd_lock := True, rd_bitmap := bm, rd_bitnext := (a + 1) mod RPMSG_ADDR_BMP_SIZE\<rparr>"
  have ch: "choose_addr RPMSG_ADDR_ANY (s\<lparr>rd_lock := True\<rparr>) = Some (Inr a, ?s2)"
    using pick by (simp add: choose_addr_def)
  have "length (ep_name (rd_epts ?s2 ept)) = 32" using len by simp
  then obtain nm where reg: "rpmsg_register_endpoint ept name a dest cb unbind_cb (ep_priv (rd_epts ?s2 ept)) ?s2
      = Some (?s2\<lparr>rd_epts := (rd_epts ?s2)(ept := (rd_epts ?s2 ept)\<lparr>ep_name := nm, ep_refcnt := 1, ep_addr := a,
              ep_dest_addr := dest, ep_cb := cb, ep_ns_unbind_cb := unbind_cb,
              ep_priv := ep_priv (rd_epts ?s2 ept), ep_rdev := True\<rparr>),
            rd_endpoints := rd_endpoints ?s2 @ [ept]\<rparr>)" "length nm = 32"
    using register_ok [OF _ args(3)] by blast
  then show ?thesis
    using lock args quiet ch
    by (auto simp: rpmsg_create_ept_def metal_mutex_acquire_def create_announce_def metal_mutex_release_def)
qed

end
