(* ===== verification/Rpmsg_Virtio.thy ===== *)
theory Rpmsg_Virtio
  imports Rpmsg_Ept Virtio
begin

unbundle bit_operations_syntax

text \<open>
  \<^verbatim>\<open>src/openamp/open-amp/lib/rpmsg/rpmsg_virtio.c\<close> and \<^verbatim>\<open>rpmsg_virtio.h\<close>: rpmsg over virtio. The
  record extends the rpmsg device by the memory, the virtio device with its two queues, the
  buffer pools and the list of reclaimed buffers. The environment \<open>venv\<close> holds what the code calls
  outside this layer: the build configuration, the transport's dispatch table, the wait callback,
  what the peer does to shared memory and device while this side sleeps or yields, what an
  uninitialised local array holds, and the addresses of the callbacks of this file, of the name
  service endpoint and of the device object.
\<close>

section \<open>Data\<close>

abbreviation (input) RPMSG_BUF_HELD_MASK :: u32 where "RPMSG_BUF_HELD_MASK \<equiv> 0xFFFF0000"
abbreviation (input) VIRTIO_CONFIG_STATUS_DRIVER_OK :: u8 where "VIRTIO_CONFIG_STATUS_DRIVER_OK \<equiv> 4"
abbreviation (input) VIRTIO_CONFIG_STATUS_NEEDS_RESET :: u8 where "VIRTIO_CONFIG_STATUS_NEEDS_RESET \<equiv> 0x40"
abbreviation (input) RPMSG_TICK_INTERVALS :: nat where "RPMSG_TICK_INTERVALS \<equiv> 15000"
abbreviation (input) RPMSG_BUFFER_SIZE :: u32 where "RPMSG_BUFFER_SIZE \<equiv> 512"

record rpmsg_virtio_shm_pool =
  sp_base :: addr
  sp_avail :: u64
  sp_size :: u64

record rpmsg_virtio_config =
  cf_h2r_buf_size :: u32
  cf_r2h_buf_size :: u32
  cf_split_shpool :: bool

text \<open>
  The queues are positions in \<open>vrings_info\<close> (\<open>None\<close> the NULL pointer), the pool of send buffers a
  position in the array of pools the application passed.
\<close>

record 't rpmsg_virtio_device = rpmsg_device +
  rv_mem :: mem
  rv_config :: rpmsg_virtio_config
  rv_vdev :: "'t virtio_dev_scheme"
  rv_rvq :: "nat option"
  rv_svq :: "nat option"
  rv_shbuf_io :: "metal_io_region option"
  rv_pools :: "rpmsg_virtio_shm_pool list"
  rv_shpool :: "nat option"
  rv_reclaimer_head :: addr
  rv_reclaimer :: "addr list"
  rv_notify_wait_cb :: bool

record 't venv =
  ve_build :: build
  ve_rx_empty_notify :: bool
  ve_func :: "'t virtio_dev_scheme virtio_dispatch option"
  ve_notify_wait :: "u32 \<Rightarrow> mem \<times> 't virtio_dev_scheme \<Rightarrow> int \<times> mem \<times> 't virtio_dev_scheme"
  ve_peer :: "mem \<times> 't virtio_dev_scheme \<Rightarrow> mem \<times> 't virtio_dev_scheme"
  ve_junk :: "u8 list"
  ve_ns_callback :: addr
  ve_rx_callback :: addr
  ve_tx_callback :: addr
  ve_ns_ept :: addr
  ve_self :: addr

definition driver :: "'t venv \<Rightarrow> 't rpmsg_virtio_device \<Rightarrow> bool" where
  "driver ve s = VIRTIO_ROLE_IS_DRIVER (ve_build ve) (rv_vdev s)"

definition device :: "'t venv \<Rightarrow> 't rpmsg_virtio_device \<Rightarrow> bool" where
  "device ve s = VIRTIO_ROLE_IS_DEVICE (ve_build ve) (rv_vdev s)"

section \<open>Access to a queue of the device\<close>

definition get_vq :: "nat option \<Rightarrow> 't rpmsg_virtio_device \<Rightarrow> (virtqueue \<times> vring_mem) option" where
  "get_vq q s = do {
     i \<leftarrow> q;
     vi \<leftarrow> arr_get (vd_vrings_info (rv_vdev s)) i;
     vq \<leftarrow> vi_vq vi;
     Some (vq, vi_ring vi)
   }"

definition put_vq ::
  "nat option \<Rightarrow> virtqueue \<Rightarrow> vring_mem \<Rightarrow> 't rpmsg_virtio_device \<Rightarrow> 't rpmsg_virtio_device option" where
  "put_vq q vq rm s = do {
     i \<leftarrow> q;
     vi \<leftarrow> arr_get (vd_vrings_info (rv_vdev s)) i;
     infos \<leftarrow> arr_set (vd_vrings_info (rv_vdev s)) i (vi\<lparr>vi_vq := Some vq, vi_ring := rm\<rparr>);
     Some (s\<lparr>rv_vdev := (rv_vdev s)\<lparr>vd_vrings_info := infos\<rparr>\<rparr>)
   }"

definition rv_kick :: "'t venv \<Rightarrow> nat option \<Rightarrow> 't rpmsg_virtio_device \<Rightarrow> (bool \<times> 't rpmsg_virtio_device) option" where
  "rv_kick ve q s = do {
     (vq, rm) \<leftarrow> get_vq q s;
     (called, vq') \<leftarrow> virtqueue_kick (ve_build ve) (rv_vdev s) vq rm;
     s' \<leftarrow> put_vq q vq' rm s;
     Some (called, s')
   }"

section \<open>Message headers in memory\<close>

text \<open>\<^verbatim>\<open>struct rpmsg_hdr\<close>, packed: \<open>src\<close>, \<open>dst\<close>, \<open>reserved\<close>, \<open>len\<close>, \<open>flags\<close>.\<close>

record rpmsg_hdr =
  h_src :: u32
  h_dst :: u32
  h_reserved :: u32
  h_len :: u16
  h_flags :: u16

abbreviation (input) sizeof_rpmsg_hdr :: u64 where "sizeof_rpmsg_hdr \<equiv> 16"

definition hdr_bytes :: "rpmsg_hdr \<Rightarrow> u8 list" where
  "hdr_bytes h = le32 (h_src h) @ le32 (h_dst h) @ le32 (h_reserved h) @ le16 (h_len h) @ le16 (h_flags h)"

definition load_hdr :: "mem \<Rightarrow> addr \<Rightarrow> rpmsg_hdr" where
  "load_hdr m a = \<lparr>h_src = load32 m a, h_dst = load32 m (a + 4), h_reserved = load32 m (a + 8),
     h_len = load16 m (a + 12), h_flags = load16 m (a + 14)\<rparr>"

definition set_reserved :: "addr \<Rightarrow> u32 \<Rightarrow> mem \<Rightarrow> mem" where
  "set_reserved hdr v m = store32 m (hdr + 8) v"

definition RPMSG_LOCATE_HDR :: "addr \<Rightarrow> addr" where
  "RPMSG_LOCATE_HDR p = p - sizeof_rpmsg_hdr"

definition RPMSG_LOCATE_DATA :: "addr \<Rightarrow> addr" where
  "RPMSG_LOCATE_DATA p = p + sizeof_rpmsg_hdr"

definition RPMSG_BUF_HELD_COUNTER :: "mem \<Rightarrow> addr \<Rightarrow> u32" where
  "RPMSG_BUF_HELD_COUNTER m hdr = drop_bit 16 (load32 m (hdr + 8) AND RPMSG_BUF_HELD_MASK)"

definition RPMSG_BUF_HELD_INC :: "addr \<Rightarrow> mem \<Rightarrow> mem" where
  "RPMSG_BUF_HELD_INC hdr m = set_reserved hdr (load32 m (hdr + 8) + 0x10000) m"

definition RPMSG_BUF_HELD_DEC :: "addr \<Rightarrow> mem \<Rightarrow> mem" where
  "RPMSG_BUF_HELD_DEC hdr m = set_reserved hdr (load32 m (hdr + 8) - 0x10000) m"

definition RPMSG_BUF_INDEX :: "mem \<Rightarrow> addr \<Rightarrow> u16" where
  "RPMSG_BUF_INDEX m hdr = ucast (load32 m (hdr + 8) AND NOT RPMSG_BUF_HELD_MASK)"

section \<open>Block copies from the application\<close>

text \<open>
  The data of a message is at an address, where the copy is \<open>metal_io_block_write\<close> itself, or in a
  local object of the caller.
\<close>

definition block_write_from :: "mem \<Rightarrow> metal_io_region \<Rightarrow> u64 \<Rightarrow> cdata \<Rightarrow> nat \<Rightarrow> (int \<times> mem) option" where
  "block_write_from m io offset d len =
     (case d of At a \<Rightarrow> Some (metal_io_block_write m io offset a len)
      | Local bs \<Rightarrow> do {
          require (len \<le> length bs);
          io_put m io offset (take len bs)
        })"

section \<open>The pool of shared buffers\<close>

definition rpmsg_virtio_shm_pool_get_buffer ::
  "rpmsg_virtio_shm_pool \<Rightarrow> u64 \<Rightarrow> addr \<times> rpmsg_virtio_shm_pool" where
  "rpmsg_virtio_shm_pool_get_buffer shpool sz =
     (if sz = 0 \<or> sp_avail shpool < sz then (NULL, shpool)
      else (sp_base shpool + sp_size shpool - sp_avail shpool,
            shpool\<lparr>sp_avail := sp_avail shpool - sz\<rparr>))"

definition rpmsg_virtio_init_shm_pool :: "rpmsg_virtio_shm_pool \<Rightarrow> addr \<Rightarrow> u64 \<Rightarrow> rpmsg_virtio_shm_pool" where
  "rpmsg_virtio_init_shm_pool shpool shb sz =
     (if shb = NULL \<or> sz = 0 then shpool
      else shpool\<lparr>sp_base := shb, sp_size := sz, sp_avail := sz\<rparr>)"

text \<open>A pool of the array; a NULL pool pointer yields no buffer.\<close>

definition pool_get :: "nat option \<Rightarrow> u64 \<Rightarrow> 't rpmsg_virtio_device \<Rightarrow> (addr \<times> 't rpmsg_virtio_device) option" where
  "pool_get i sz s =
     (case i of None \<Rightarrow> Some (NULL, s)
      | Some k \<Rightarrow> do {
          p \<leftarrow> arr_get (rv_pools s) k;
          let (buf, p') = rpmsg_virtio_shm_pool_get_buffer p sz;
          ps \<leftarrow> arr_set (rv_pools s) k p';
          Some (buf, s\<lparr>rv_pools := ps\<rparr>)
        })"

section \<open>Buffers to and from the queues\<close>

definition rpmsg_virtio_return_buffer ::
  "'t venv \<Rightarrow> addr \<Rightarrow> u32 \<Rightarrow> u16 \<Rightarrow> 't rpmsg_virtio_device \<Rightarrow> 't rpmsg_virtio_device option" where
  "rpmsg_virtio_return_buffer ve buffer len idx s = do {
     s1 \<leftarrow> (if driver ve s then do {
              (vq, rm) \<leftarrow> get_vq (rv_rvq s) s;
              (ret, vq', rm') \<leftarrow> virtqueue_add_buffer (ve_build ve) vq rm
                  [\<lparr>vb_buf = buffer, vb_len = sint len\<rparr>] 0 1 buffer;
              require (ret = VQUEUE_SUCCESS);
              put_vq (rv_rvq s) vq' rm' s
            } else Some s);
     (if device ve s1 then do {
        (vq, rm) \<leftarrow> get_vq (rv_rvq s1) s1;
        (ret, vq', rm') \<leftarrow> virtqueue_add_consumed_buffer (ve_build ve) vq rm idx len;
        require (ret = VQUEUE_SUCCESS);
        put_vq (rv_rvq s1) vq' rm' s1
      } else Some s1)
   }"

definition rpmsg_virtio_enqueue_buffer ::
  "'t venv \<Rightarrow> addr \<Rightarrow> u32 \<Rightarrow> u16 \<Rightarrow> 't rpmsg_virtio_device \<Rightarrow> (int \<times> 't rpmsg_virtio_device) option" where
  "rpmsg_virtio_enqueue_buffer ve buffer len idx s =
     (if driver ve s then do {
        (vq, rm) \<leftarrow> get_vq (rv_svq s) s;
        (ret, vq', rm') \<leftarrow> virtqueue_add_buffer (ve_build ve) vq rm
            [\<lparr>vb_buf = buffer, vb_len = sint len\<rparr>] 1 0 buffer;
        s' \<leftarrow> put_vq (rv_svq s) vq' rm' s;
        Some (ret, s')
      }
      else if device ve s then do {
        (vq, rm) \<leftarrow> get_vq (rv_svq s) s;
        (ret, vq', rm') \<leftarrow> virtqueue_add_consumed_buffer (ve_build ve) vq rm idx len;
        s' \<leftarrow> put_vq (rv_svq s) vq' rm' s;
        Some (ret, s')
      }
      else Some (0, s))"

text \<open>
  The reclaimer list is threaded through the released buffers themselves: the first sixteen bytes
  of a buffer hold \<open>next\<close> and \<open>prev\<close>, the next two its descriptor index. The operations of
  \<^verbatim>\<open>list.h\<close> appear as the stores they make into the buffers.
\<close>

definition le64 :: "u64 \<Rightarrow> u8 list" where
  "le64 w = le32 (ucast w) @ le32 (ucast (drop_bit 32 w))"

definition store64 :: "mem \<Rightarrow> addr \<Rightarrow> u64 \<Rightarrow> mem" where
  "store64 m a w = mem_write m a (le64 w)"

definition reclaimer_add_tail :: "addr \<Rightarrow> 't rpmsg_virtio_device \<Rightarrow> 't rpmsg_virtio_device" where
  "reclaimer_add_tail node s =
     (let head = rv_reclaimer_head s; xs = rv_reclaimer s;
          m1 = store64 (rv_mem s) (node + 8) (last (head # xs));
          m2 = store64 m1 node head;
          m3 = (if xs = [] then m2 else store64 m2 (last xs) node)
      in s\<lparr>rv_mem := m3, rv_reclaimer := xs @ [node]\<rparr>)"

definition reclaimer_del_first :: "'t rpmsg_virtio_device \<Rightarrow> 't rpmsg_virtio_device" where
  "reclaimer_del_first s =
     (case rv_reclaimer s of [] \<Rightarrow> s
      | node # rest \<Rightarrow>
          (let m1 = (if rest = [] then rv_mem s else store64 (rv_mem s) (hd rest + 8) (rv_reclaimer_head s));
               m2 = store64 m1 (node + 8) node
           in s\<lparr>rv_mem := store64 m2 node node, rv_reclaimer := rest\<rparr>))"

text \<open>\<open>*len\<close> and \<open>*idx\<close> keep what the caller had (\<open>len0\<close>, \<open>idx0\<close>) where nothing is assigned.\<close>

definition rpmsg_virtio_get_tx_buffer ::
  "'t venv \<Rightarrow> u32 \<Rightarrow> u16 \<Rightarrow> 't rpmsg_virtio_device \<Rightarrow> (addr \<times> u32 \<times> u16 \<times> 't rpmsg_virtio_device) option" where
  "rpmsg_virtio_get_tx_buffer ve len0 idx0 s =
     (case rv_reclaimer s of
        node # _ \<Rightarrow> do {
          let s1 = reclaimer_del_first s;
          let idx = load16 (rv_mem s1) (node + 16);
          let len1 = (if driver ve s1 then cf_h2r_buf_size (rv_config s1) else len0);
          len2 \<leftarrow> (if device ve s1 then do {
                     (vq, rm) \<leftarrow> get_vq (rv_svq s1) s1;
                     virtqueue_get_buffer_length rm idx
                   } else Some len1);
          Some (node, len2, idx, s1)
        }
      | [] \<Rightarrow>
          if driver ve s then do {
            (vq, rm) \<leftarrow> get_vq (rv_svq s) s;
            (r, vq', rm') \<leftarrow> virtqueue_get_buffer (ve_build ve) vq rm;
            s1 \<leftarrow> put_vq (rv_svq s) vq' rm' s;
            (case r of
               Some u \<Rightarrow>
                 if ur_cookie u = NULL \<and> vq_free_cnt vq' \<noteq> 0 then do {
                   (buf, s2) \<leftarrow> pool_get (rv_shpool s1) (ucast (cf_h2r_buf_size (rv_config s1))) s1;
                   Some (buf, cf_h2r_buf_size (rv_config s1), 0, s2)
                 } else Some (ur_cookie u, ur_len u, ur_idx u, s1)
             | None \<Rightarrow>
                 if vq_free_cnt vq' \<noteq> 0 then do {
                   (buf, s2) \<leftarrow> pool_get (rv_shpool s1) (ucast (cf_h2r_buf_size (rv_config s1))) s1;
                   Some (buf, cf_h2r_buf_size (rv_config s1), 0, s2)
                 } else Some (NULL, len0, idx0, s1))
          }
          else if device ve s then do {
            (vq, rm) \<leftarrow> get_vq (rv_svq s) s;
            (r, vq') \<leftarrow> virtqueue_get_available_buffer (ve_build ve) vq rm;
            s1 \<leftarrow> put_vq (rv_svq s) vq' rm s;
            Some (case r of Some a \<Rightarrow> (ar_buffer a, ar_len a, ar_idx a, s1) | None \<Rightarrow> (NULL, len0, idx0, s1))
          }
          else Some (NULL, len0, idx0, s))"

definition rpmsg_virtio_get_rx_buffer ::
  "'t venv \<Rightarrow> 't rpmsg_virtio_device \<Rightarrow> (addr \<times> u32 \<times> u16 \<times> 't rpmsg_virtio_device) option" where
  "rpmsg_virtio_get_rx_buffer ve s = do {
     (d1, l1, i1, s1) \<leftarrow>
       (if driver ve s then do {
          (vq, rm) \<leftarrow> get_vq (rv_rvq s) s;
          (r, vq', rm') \<leftarrow> virtqueue_get_buffer (ve_build ve) vq rm;
          s1 \<leftarrow> put_vq (rv_rvq s) vq' rm' s;
          Some (case r of Some u \<Rightarrow> (ur_cookie u, ur_len u, ur_idx u, s1) | None \<Rightarrow> (NULL, 0, 0, s1))
        } else Some (NULL, 0, 0, s));
     (if device ve s1 then do {
        (vq, rm) \<leftarrow> get_vq (rv_rvq s1) s1;
        (r, vq') \<leftarrow> virtqueue_get_available_buffer (ve_build ve) vq rm;
        s2 \<leftarrow> put_vq (rv_rvq s1) vq' rm s1;
        Some (case r of Some a \<Rightarrow> (ar_buffer a, ar_len a, ar_idx a, s2) | None \<Rightarrow> (NULL, 0, 0, s2))
      } else Some (d1, l1, i1, s1))
   }"

definition peer_acts :: "'t venv \<Rightarrow> 't rpmsg_virtio_device \<Rightarrow> 't rpmsg_virtio_device" where
  "peer_acts ve s = (let (m, v) = ve_peer ve (rv_mem s, rv_vdev s) in s\<lparr>rv_mem := m, rv_vdev := v\<rparr>)"

partial_function (option) rpmsg_virtio_wait_remote_ready ::
  "'t venv \<Rightarrow> 't rpmsg_virtio_device \<Rightarrow> (int \<times> 't rpmsg_virtio_device) option" where
  "rpmsg_virtio_wait_remote_ready ve s = do {
     (ret, st) \<leftarrow> virtio_get_status (ve_func ve) (Some (rv_vdev s));
     if ret \<noteq> 0 then Some (ret, s)
     else do {
       status \<leftarrow> st;
       if status AND VIRTIO_CONFIG_STATUS_NEEDS_RESET \<noteq> 0 then do {
         (ret, vd) \<leftarrow> virtio_set_status (ve_func ve) (Some (rv_vdev s)) 0;
         v \<leftarrow> vd;
         let s1 = s\<lparr>rv_vdev := v\<rparr>;
         if ret \<noteq> 0 then Some (ret, s1)
         else rpmsg_virtio_wait_remote_ready ve (peer_acts ve s1)
       }
       else if status AND VIRTIO_CONFIG_STATUS_DRIVER_OK \<noteq> 0 then Some (0, s)
       else rpmsg_virtio_wait_remote_ready ve (peer_acts ve s)
     }
   }"

section \<open>Holding and releasing receive buffers\<close>

definition rpmsg_virtio_buf_held_dec_test :: "addr \<Rightarrow> mem \<Rightarrow> bool \<times> mem" where
  "rpmsg_virtio_buf_held_dec_test rp_hdr m =
     (if RPMSG_BUF_HELD_COUNTER m rp_hdr = 0 then (False, m)
      else (let m1 = RPMSG_BUF_HELD_DEC rp_hdr m in
            if 0 < RPMSG_BUF_HELD_COUNTER m1 rp_hdr then (False, m1) else (True, m1)))"

definition rpmsg_virtio_hold_rx_buffer ::
  "'t rpmsg_virtio_device \<Rightarrow> addr \<Rightarrow> 't rpmsg_virtio_device option" where
  "rpmsg_virtio_hold_rx_buffer s rxbuf = do {
     s1 \<leftarrow> metal_mutex_acquire s;
     Some (metal_mutex_release (s1\<lparr>rv_mem := RPMSG_BUF_HELD_INC (RPMSG_LOCATE_HDR rxbuf) (rv_mem s1)\<rparr>))
   }"

definition rpmsg_virtio_release_rx_buffer_nolock ::
  "'t venv \<Rightarrow> addr \<Rightarrow> 't rpmsg_virtio_device \<Rightarrow> 't rpmsg_virtio_device option" where
  "rpmsg_virtio_release_rx_buffer_nolock ve rp_hdr s = do {
     let idx = RPMSG_BUF_INDEX (rv_mem s) rp_hdr;
     (vq, rm) \<leftarrow> get_vq (rv_rvq s) s;
     len \<leftarrow> virtqueue_get_buffer_length rm idx;
     rpmsg_virtio_return_buffer ve rp_hdr len idx s
   }"

definition rpmsg_virtio_release_rx_buffer ::
  "'t venv \<Rightarrow> 't rpmsg_virtio_device \<Rightarrow> addr \<Rightarrow> 't rpmsg_virtio_device option" where
  "rpmsg_virtio_release_rx_buffer ve s rxbuf = do {
     let rp_hdr = RPMSG_LOCATE_HDR rxbuf;
     s1 \<leftarrow> metal_mutex_acquire s;
     let (last, m) = rpmsg_virtio_buf_held_dec_test rp_hdr (rv_mem s1);
     let s2 = s1\<lparr>rv_mem := m\<rparr>;
     s3 \<leftarrow> (if last then do {
              s' \<leftarrow> rpmsg_virtio_release_rx_buffer_nolock ve rp_hdr s2;
              map_option snd (rv_kick ve (rv_rvq s') s')
            } else Some s2);
     Some (metal_mutex_release s3)
   }"

section \<open>Sending\<close>

definition rpmsg_virtio_notify_wait ::
  "'t venv \<Rightarrow> nat option \<Rightarrow> 't rpmsg_virtio_device \<Rightarrow> (int \<times> 't rpmsg_virtio_device) option" where
  "rpmsg_virtio_notify_wait ve q s = do {
     (vq, rm) \<leftarrow> get_vq q s;
     if \<not> rv_notify_wait_cb s then Some (RPMSG_EOPNOTSUPP, s)
     else do {
       vi \<leftarrow> arr_get (vd_vrings_info (rv_vdev s)) (unat (vq_queue_index vq));
       let (r, m, v) = ve_notify_wait ve (vi_notifyid vi) (rv_mem s, rv_vdev s);
       Some (r, s\<lparr>rv_mem := m, rv_vdev := v\<rparr>)
     }
   }"

partial_function (option) tx_wait_loop ::
  "'t venv \<Rightarrow> nat \<Rightarrow> u32 \<Rightarrow> u16 \<Rightarrow> 't rpmsg_virtio_device \<Rightarrow>
   (addr \<times> u32 \<times> u16 \<times> 't rpmsg_virtio_device) option" where
  "tx_wait_loop ve tick_count len idx s = do {
     s1 \<leftarrow> metal_mutex_acquire s;
     (rp_hdr, len1, idx1, s2) \<leftarrow> rpmsg_virtio_get_tx_buffer ve len idx s1;
     let s3 = metal_mutex_release s2;
     if rp_hdr \<noteq> NULL \<or> tick_count = 0 then Some (rp_hdr, len1, idx1, s3)
     else do {
       (status, s4) \<leftarrow> rpmsg_virtio_notify_wait ve (rv_rvq s3) s3;
       if status = RPMSG_EOPNOTSUPP then tx_wait_loop ve (tick_count - 1) len1 idx1 (peer_acts ve s4)
       else if status \<noteq> RPMSG_SUCCESS then Some (rp_hdr, len1, idx1, s4)
       else tx_wait_loop ve tick_count len1 idx1 s4
     }
   }"

text \<open>The length and the index are 0 before they are assigned; both are assigned with a buffer.\<close>

definition rpmsg_virtio_get_tx_payload_buffer ::
  "'t venv \<Rightarrow> 't rpmsg_virtio_device \<Rightarrow> bool \<Rightarrow> (addr \<times> u32 \<times> 't rpmsg_virtio_device) option" where
  "rpmsg_virtio_get_tx_payload_buffer ve s wait = do {
     (status, st) \<leftarrow> virtio_get_status (ve_func ve) (Some (rv_vdev s));
     if status \<noteq> 0 \<or> st = None \<or> the st AND VIRTIO_CONFIG_STATUS_DRIVER_OK = 0 then Some (NULL, 0, s)
     else do {
       (rp_hdr, len, idx, s1) \<leftarrow> tx_wait_loop ve (if wait then RPMSG_TICK_INTERVALS else 0) 0 0 s;
       if rp_hdr = NULL then Some (NULL, len, s1)
       else Some (RPMSG_LOCATE_DATA rp_hdr, len - ucast sizeof_rpmsg_hdr,
                  s1\<lparr>rv_mem := RPMSG_BUF_HELD_INC rp_hdr (set_reserved rp_hdr (ucast idx) (rv_mem s1))\<rparr>)
     }
   }"

definition rpmsg_virtio_send_offchannel_nocopy ::
  "'t venv \<Rightarrow> 't rpmsg_virtio_device \<Rightarrow> u32 \<Rightarrow> u32 \<Rightarrow> addr \<Rightarrow> int \<Rightarrow>
   (int \<times> 't rpmsg_virtio_device) option" where
  "rpmsg_virtio_send_offchannel_nocopy ve s src dst data len = do {
     let hdr = RPMSG_LOCATE_HDR data;
     let idx = (ucast (load32 (rv_mem s) (hdr + 8)) :: u16);
     let rp_hdr = \<lparr>h_src = src, h_dst = dst, h_reserved = 0, h_len = word_of_int len, h_flags = 0\<rparr>;
     io \<leftarrow> rv_shbuf_io s;
     (status, m) \<leftarrow> io_put (rv_mem s) io (metal_io_virt_to_offset io hdr) (hdr_bytes rp_hdr);
     require (status = 16);
     s1 \<leftarrow> metal_mutex_acquire (s\<lparr>rv_mem := m\<rparr>);
     buff_len \<leftarrow> (if driver ve s1 then Some (cf_h2r_buf_size (rv_config s1))
                  else do {
                    (vq, rm) \<leftarrow> get_vq (rv_svq s1) s1;
                    virtqueue_get_buffer_length rm idx
                  });
     (status, s2) \<leftarrow> rpmsg_virtio_enqueue_buffer ve hdr buff_len idx s1;
     require (status = VQUEUE_SUCCESS);
     (_, s3) \<leftarrow> rv_kick ve (rv_svq s2) s2;
     Some (len, metal_mutex_release s3)
   }"

text \<open>The list node takes the first sixteen bytes of the buffer, \<open>idx\<close> the next two.\<close>

definition rpmsg_virtio_release_tx_buffer ::
  "'t rpmsg_virtio_device \<Rightarrow> addr \<Rightarrow> (int \<times> 't rpmsg_virtio_device) option" where
  "rpmsg_virtio_release_tx_buffer s txbuf = do {
     let rp_hdr = RPMSG_LOCATE_HDR txbuf;
     s1 \<leftarrow> metal_mutex_acquire s;
     let (last, m) = rpmsg_virtio_buf_held_dec_test rp_hdr (rv_mem s1);
     let s2 = (if last
               then reclaimer_add_tail rp_hdr
                      (s1\<lparr>rv_mem := store16 m (rp_hdr + 16) (RPMSG_BUF_INDEX m rp_hdr)\<rparr>)
               else s1\<lparr>rv_mem := m\<rparr>);
     Some (RPMSG_SUCCESS, metal_mutex_release s2)
   }"

text \<open>
  \<open>len\<close> is clipped to the buffer length read as a signed number; a negative length reaches the block
  copy only from a buffer shorter than a header, and has no defined effect there.
\<close>

definition rpmsg_virtio_send_offchannel_raw ::
  "'t venv \<Rightarrow> 't rpmsg_virtio_device \<Rightarrow> u32 \<Rightarrow> u32 \<Rightarrow> cdata \<Rightarrow> int \<Rightarrow> bool \<Rightarrow>
   (int \<times> 't rpmsg_virtio_device) option" where
  "rpmsg_virtio_send_offchannel_raw ve s src dst data len wait = do {
     (buffer, buff_len, s1) \<leftarrow> rpmsg_virtio_get_tx_payload_buffer ve s wait;
     if buffer = NULL then Some (RPMSG_ERR_NO_BUFF, s1)
     else do {
       let len1 = (if sint buff_len < len then sint buff_len else len);
       io \<leftarrow> rv_shbuf_io s1;
       require (0 \<le> len1);
       (status, m) \<leftarrow> block_write_from (rv_mem s1) io (metal_io_virt_to_offset io buffer) data (nat len1);
       require (status = len1);
       rpmsg_virtio_send_offchannel_nocopy ve (s1\<lparr>rv_mem := m\<rparr>) src dst buffer len1
     }
   }"

text \<open>The callback of the send queue does nothing.\<close>

definition rpmsg_virtio_tx_callback :: "'t rpmsg_virtio_device \<Rightarrow> 't rpmsg_virtio_device" where
  "rpmsg_virtio_tx_callback s = s"

section \<open>Receiving\<close>

definition ns_destroy ::
  "'t rpmsg_virtio_device app \<Rightarrow> addr \<Rightarrow> bool \<Rightarrow> u8 list \<Rightarrow> u32 \<Rightarrow> 't rpmsg_virtio_device \<Rightarrow>
   't rpmsg_virtio_device option" where
  "ns_destroy app ept ept_to_release name dest s = do {
     let s1 = (if ept \<noteq> NULL then upd_ept ept (\<lambda>e. e\<lparr>ep_dest_addr := RPMSG_ADDR_ANY\<rparr>) s else s);
     let s2 = metal_mutex_release (if ept_to_release then rpmsg_ept_incref ept s1 else s1);
     s3 \<leftarrow> (if ept \<noteq> NULL \<and> ep_ns_unbind_cb (rd_epts s2 ept) \<noteq> NULL
            then app_ept_unbind_cb app (ep_ns_unbind_cb (rd_epts s2 ept)) ept s2 else Some s2);
     s4 \<leftarrow> (if rd_ns_unbind_cb s3 \<noteq> NULL then app_unbind_cb app (rd_ns_unbind_cb s3) name dest s3 else Some s3);
     if ept_to_release then do {
       s5 \<leftarrow> metal_mutex_acquire s4;
       s6 \<leftarrow> rpmsg_ept_decref app ept s5;
       Some (metal_mutex_release s6)
     } else Some s4
   }"

definition ns_create ::
  "'t rpmsg_virtio_device app \<Rightarrow> addr \<Rightarrow> u8 list \<Rightarrow> u32 \<Rightarrow> 't rpmsg_virtio_device \<Rightarrow>
   't rpmsg_virtio_device option" where
  "ns_create app ept name dest s =
     (if ept = NULL
      then (let s1 = metal_mutex_release s in
            if rd_ns_bind_cb s1 \<noteq> NULL then app_bind_cb app (rd_ns_bind_cb s1) name dest s1 else Some s1)
      else Some (metal_mutex_release (upd_ept ept (\<lambda>e. e\<lparr>ep_dest_addr := dest\<rparr>) s)))"

definition rpmsg_virtio_ns_callback ::
  "'t venv \<Rightarrow> 't rpmsg_virtio_device app \<Rightarrow> addr \<Rightarrow> nat \<Rightarrow> 't rpmsg_virtio_device \<Rightarrow>
   (int \<times> 't rpmsg_virtio_device) option" where
  "rpmsg_virtio_ns_callback ve app data len s =
     (if len \<noteq> 40 then Some (RPMSG_SUCCESS, s)
      else do {
        io \<leftarrow> rv_shbuf_io s;
        name \<leftarrow> io_get (rv_mem s) io (metal_io_virt_to_offset io data) (ve_junk ve) RPMSG_NAME_SIZE;
        let dest = load32 (rv_mem s) (data + 32);
        s1 \<leftarrow> metal_mutex_acquire s;
        ept \<leftarrow> rpmsg_get_endpoint s1 (Some name) RPMSG_ADDR_ANY dest;
        let ept_to_release = (ept \<noteq> NULL \<and> ep_release_cb (rd_epts s1 ept) \<noteq> NULL);
        s2 \<leftarrow> (if load32 (rv_mem s1) (data + 36) AND RPMSG_NS_DESTROY \<noteq> 0
               then ns_destroy app ept ept_to_release name dest s1
               else ns_create app ept name dest s1);
        Some (RPMSG_SUCCESS, s2)
      })"

text \<open>The call of \<open>ept->cb\<close>: the name service endpoint has the callback above, the others the application's.\<close>

definition rx_deliver ::
  "'t venv \<Rightarrow> 't rpmsg_virtio_device app \<Rightarrow> addr \<Rightarrow> addr \<Rightarrow> 't rpmsg_virtio_device \<Rightarrow>
   't rpmsg_virtio_device option" where
  "rx_deliver ve app ept rp_hdr s =
     (if ept = NULL then Some s
      else do {
        let s1 = (if ep_dest_addr (rd_epts s ept) = RPMSG_ADDR_ANY
                  then upd_ept ept (\<lambda>e. e\<lparr>ep_dest_addr := h_src (load_hdr (rv_mem s) rp_hdr)\<rparr>) s else s);
        let e = rd_epts s1 ept;
        let h = load_hdr (rv_mem s1) rp_hdr;
        (status, s2) \<leftarrow>
          (if ep_cb e = ve_ns_callback ve
           then rpmsg_virtio_ns_callback ve app (RPMSG_LOCATE_DATA rp_hdr) (unat (h_len h)) s1
           else app_ept_cb app (ep_cb e) ept (RPMSG_LOCATE_DATA rp_hdr) (unat (h_len h)) (h_src h) (ep_priv e) s1);
        require (0 \<le> status);
        Some s2
      })"

text \<open>One filled buffer: routed, delivered, and returned unless the application holds it.\<close>

definition rx_one ::
  "'t venv \<Rightarrow> 't rpmsg_virtio_device app \<Rightarrow> addr \<Rightarrow> u16 \<Rightarrow> 't rpmsg_virtio_device \<Rightarrow>
   (bool \<times> 't rpmsg_virtio_device) option" where
  "rx_one ve app rp_hdr idx s = do {
     let s1 = s\<lparr>rv_mem := set_reserved rp_hdr (ucast idx) (rv_mem s)\<rparr>;
     ept \<leftarrow> rpmsg_get_ept_from_addr s1 (h_dst (load_hdr (rv_mem s1) rp_hdr));
     let s2 = rpmsg_ept_incref ept s1;
     let s3 = metal_mutex_release (s2\<lparr>rv_mem := RPMSG_BUF_HELD_INC rp_hdr (rv_mem s2)\<rparr>);
     s4 \<leftarrow> rx_deliver ve app ept rp_hdr s3;
     s5 \<leftarrow> metal_mutex_acquire s4;
     s6 \<leftarrow> rpmsg_ept_decref app ept s5;
     let (last, m) = rpmsg_virtio_buf_held_dec_test rp_hdr (rv_mem s6);
     let s7 = s6\<lparr>rv_mem := m\<rparr>;
     s8 \<leftarrow> (if last then do {
              s' \<leftarrow> rpmsg_virtio_release_rx_buffer_nolock ve rp_hdr s7;
              if ve_rx_empty_notify ve then Some s' else map_option snd (rv_kick ve (rv_rvq s') s')
            } else Some s7);
     Some (last \<and> ve_rx_empty_notify ve, metal_mutex_release s8)
   }"

partial_function (option) rx_loop ::
  "'t venv \<Rightarrow> 't rpmsg_virtio_device app \<Rightarrow> bool \<Rightarrow> 't rpmsg_virtio_device \<Rightarrow> 't rpmsg_virtio_device option" where
  "rx_loop ve app release s = do {
     s1 \<leftarrow> metal_mutex_acquire s;
     (rp_hdr, len, idx, s2) \<leftarrow> rpmsg_virtio_get_rx_buffer ve s1;
     if rp_hdr = NULL then do {
       s3 \<leftarrow> (if ve_rx_empty_notify ve \<and> release then map_option snd (rv_kick ve (rv_rvq s2) s2) else Some s2);
       Some (metal_mutex_release s3)
     } else do {
       (rel, s3) \<leftarrow> rx_one ve app rp_hdr idx s2;
       rx_loop ve app (release \<or> rel) s3
     }
   }"

definition rpmsg_virtio_rx_callback ::
  "'t venv \<Rightarrow> 't rpmsg_virtio_device app \<Rightarrow> 't rpmsg_virtio_device \<Rightarrow> 't rpmsg_virtio_device option" where
  "rpmsg_virtio_rx_callback ve app s = rx_loop ve app False s"

section \<open>Buffer sizes\<close>

text \<open>The subtraction is unsigned and its result is stored in an \<open>int\<close>.\<close>

definition queue_payload_size ::
  "'t venv \<Rightarrow> nat option \<Rightarrow> u32 \<Rightarrow> 't rpmsg_virtio_device \<Rightarrow> (int \<times> 't rpmsg_virtio_device) option" where
  "queue_payload_size ve q own s = do {
     s1 \<leftarrow> metal_mutex_acquire s;
     let size1 = (if driver ve s1 then sint (own - 16) else 0);
     (size2, s2) \<leftarrow>
       (if device ve s1 then do {
          (vq, rm) \<leftarrow> get_vq q s1;
          (n, vq') \<leftarrow> virtqueue_get_desc_size (ve_build ve) vq rm;
          s' \<leftarrow> put_vq q vq' rm s1;
          Some (sint (n - 16), s')
        } else Some (size1, s1));
     Some (if size2 \<le> 0 then RPMSG_ERR_NO_BUFF else size2, metal_mutex_release s2)
   }"

definition rpmsg_virtio_get_tx_buffer_size ::
  "'t venv \<Rightarrow> 't rpmsg_virtio_device \<Rightarrow> (int \<times> 't rpmsg_virtio_device) option" where
  "rpmsg_virtio_get_tx_buffer_size ve s = queue_payload_size ve (rv_svq s) (cf_h2r_buf_size (rv_config s)) s"

definition rpmsg_virtio_get_rx_buffer_size ::
  "'t venv \<Rightarrow> 't rpmsg_virtio_device \<Rightarrow> (int \<times> 't rpmsg_virtio_device) option" where
  "rpmsg_virtio_get_rx_buffer_size ve s = queue_payload_size ve (rv_rvq s) (cf_r2h_buf_size (rv_config s)) s"

section \<open>Set-up and tear-down\<close>

definition rpmsg_virtio_ops :: "'t venv \<Rightarrow> 't rpmsg_virtio_device rpmsg_device_ops" where
  "rpmsg_virtio_ops ve = \<lparr>
     op_send_offchannel_raw = Some (rpmsg_virtio_send_offchannel_raw ve),
     op_hold_rx_buffer = Some rpmsg_virtio_hold_rx_buffer,
     op_release_rx_buffer = Some (rpmsg_virtio_release_rx_buffer ve),
     op_get_tx_payload_buffer = Some (rpmsg_virtio_get_tx_payload_buffer ve),
     op_send_offchannel_nocopy = Some (rpmsg_virtio_send_offchannel_nocopy ve),
     op_release_tx_buffer = Some rpmsg_virtio_release_tx_buffer,
     op_get_rx_buffer_size = Some (rpmsg_virtio_get_rx_buffer_size ve),
     op_get_tx_buffer_size = Some (rpmsg_virtio_get_tx_buffer_size ve)\<rparr>"

definition rpmsg_virtio_set_wait_cb :: "bool \<Rightarrow> 't rpmsg_virtio_device \<Rightarrow> 't rpmsg_virtio_device" where
  "rpmsg_virtio_set_wait_cb cb s = s\<lparr>rv_notify_wait_cb := cb\<rparr>"

definition rpmsg_virtio_get_role :: "'t rpmsg_virtio_device \<Rightarrow> u32" where
  "rpmsg_virtio_get_role s = vd_role (rv_vdev s)"

text \<open>The deprecated forms of the virtio calls go to the dispatch table without a check.\<close>

definition rpmsg_virtio_set_status ::
  "'t venv \<Rightarrow> u8 \<Rightarrow> 't rpmsg_virtio_device \<Rightarrow> 't rpmsg_virtio_device option" where
  "rpmsg_virtio_set_status ve status s = do {
     f \<leftarrow> Option.bind (ve_func ve) vf_set_status;
     v \<leftarrow> f (rv_vdev s) status;
     Some (s\<lparr>rv_vdev := v\<rparr>)
   }"

definition rpmsg_virtio_get_status :: "'t venv \<Rightarrow> 't rpmsg_virtio_device \<Rightarrow> u8 option" where
  "rpmsg_virtio_get_status ve s = do {
     f \<leftarrow> Option.bind (ve_func ve) vf_get_status;
     f (rv_vdev s)
   }"

definition rpmsg_virtio_get_features ::
  "'t venv \<Rightarrow> 't rpmsg_virtio_device \<Rightarrow> (u32 \<times> 't rpmsg_virtio_device) option" where
  "rpmsg_virtio_get_features ve s = do {
     f \<leftarrow> Option.bind (ve_func ve) vf_get_features;
     (fs, v) \<leftarrow> f (rv_vdev s);
     Some (fs, s\<lparr>rv_vdev := v\<rparr>)
   }"

definition rpmsg_virtio_read_config ::
  "'t venv \<Rightarrow> u32 \<Rightarrow> int \<Rightarrow> 't rpmsg_virtio_device \<Rightarrow> u8 list option" where
  "rpmsg_virtio_read_config ve offset len s = do {
     f \<leftarrow> Option.bind (ve_func ve) vf_read_config;
     f (rv_vdev s) offset len
   }"

definition rpmsg_virtio_write_config ::
  "'t venv \<Rightarrow> u32 \<Rightarrow> u8 list \<Rightarrow> int \<Rightarrow> 't rpmsg_virtio_device \<Rightarrow> 't rpmsg_virtio_device option" where
  "rpmsg_virtio_write_config ve offset src len s = do {
     f \<leftarrow> Option.bind (ve_func ve) vf_write_config;
     v \<leftarrow> f (rv_vdev s) offset src len;
     Some (s\<lparr>rv_vdev := v\<rparr>)
   }"

definition rpmsg_virtio_create_virtqueues ::
  "'t venv \<Rightarrow> nat \<Rightarrow> string list \<Rightarrow> addr list \<Rightarrow> 't rpmsg_virtio_device \<Rightarrow> (int \<times> 't rpmsg_virtio_device) option" where
  "rpmsg_virtio_create_virtqueues ve nvqs names callbacks s = do {
     (r, vd) \<leftarrow> virtio_create_virtqueues (ve_build ve) (ve_func ve) (Some (rv_vdev s)) nvqs names callbacks None;
     v \<leftarrow> vd;
     Some (r, s\<lparr>rv_vdev := v\<rparr>)
   }"

definition rpmsg_virtio_delete_virtqueues ::
  "'t venv \<Rightarrow> 't rpmsg_virtio_device \<Rightarrow> 't rpmsg_virtio_device option" where
  "rpmsg_virtio_delete_virtqueues ve s = do {
     vd \<leftarrow> virtio_delete_virtqueues (ve_func ve) (Some (rv_vdev s));
     v \<leftarrow> vd;
     Some (s\<lparr>rv_vdev := v\<rparr>)
   }"

text \<open>\<open>memset(rdev, 0)\<close> and the assignments up to the configuration; the name service endpoint is part of \<open>rdev\<close>.\<close>

definition init_rdev ::
  "'t venv \<Rightarrow> 't virtio_dev_scheme \<Rightarrow> addr \<Rightarrow> 't rpmsg_virtio_device \<Rightarrow> 't rpmsg_virtio_device" where
  "init_rdev ve vdev ns_bind_cb s = s\<lparr>rv_notify_wait_cb := False,
     rd_endpoints := [],
     rd_epts := (rd_epts s)(ve_ns_ept ve := \<lparr>ep_name = replicate RPMSG_NAME_SIZE 0, ep_rdev = False, ep_addr = 0,
       ep_dest_addr = 0, ep_refcnt = 0, ep_release_cb = NULL, ep_cb = NULL, ep_ns_unbind_cb = NULL, ep_priv = NULL\<rparr>),
     rd_bitmap := [0, 0], rd_bitnext := 0, rd_lock := False,
     rd_ns_bind_cb := ns_bind_cb, rd_ns_unbind_cb := NULL, rd_support_ns := False, rv_vdev := vdev\<rparr>"

fun rx_fill ::
  "'t venv \<Rightarrow> metal_io_region \<Rightarrow> nat \<Rightarrow> 't rpmsg_virtio_device \<Rightarrow> (int \<times> 't rpmsg_virtio_device) option" where
  "rx_fill ve io 0 s = Some (RPMSG_SUCCESS, s)"
| "rx_fill ve io (Suc k) s = do {
     let sz = cf_r2h_buf_size (rv_config s);
     (buffer, s1) \<leftarrow> pool_get (Some 0) (ucast sz) s;
     if buffer = NULL then Some (RPMSG_ERR_NO_BUFF, s1)
     else do {
       require (0 \<le> sint sz);
       let s2 = s1\<lparr>rv_mem := snd (metal_io_block_set (rv_mem s1) io (metal_io_virt_to_offset io buffer) 0 (unat sz))\<rparr>;
       (vq, rm) \<leftarrow> get_vq (rv_rvq s2) s2;
       (status, vq', rm') \<leftarrow> virtqueue_add_buffer (ve_build ve) vq rm [\<lparr>vb_buf = buffer, vb_len = sint sz\<rparr>] 0 1 buffer;
       s3 \<leftarrow> put_vq (rv_rvq s2) vq' rm' s2;
       if status \<noteq> RPMSG_SUCCESS then Some (status, s3) else rx_fill ve io k s3
     }
   }"

text \<open>
  The body of \<open>rpmsg_init_vdev_with_config\<close> in its order: configuration, handshake and features;
  the pools; the queues; the receive buffers; the endpoint list and the status. Each part returns
  the status and the device, and a status other than 0 ends the function.
\<close>

definition init_negotiate ::
  "'t venv \<Rightarrow> rpmsg_virtio_config option \<Rightarrow> 't rpmsg_virtio_device \<Rightarrow> (int \<times> 't rpmsg_virtio_device) option" where
  "init_negotiate ve config s =
     (if driver ve s \<and> config = None then Some (RPMSG_ERR_PARAM, s)
      else do {
        let s1 = (if driver ve s then s\<lparr>rv_config := the config\<rparr> else s);
        (status, s2) \<leftarrow> (if device ve s1 then rpmsg_virtio_wait_remote_ready ve s1 else Some (0, s1));
        if status \<noteq> 0 then Some (status, s2)
        else do {
          (status, fs, vd) \<leftarrow> virtio_get_features (ve_build ve) (ve_func ve) (Some (rv_vdev s2));
          v \<leftarrow> vd;
          let s3 = s2\<lparr>rv_vdev := v\<rparr>;
          if status \<noteq> 0 then Some (status, s3)
          else do {
            features \<leftarrow> fs;
            Some (0, s3\<lparr>rd_support_ns := (features AND 1 \<noteq> 0)\<rparr>)
          }
        }
      })"

definition init_pools ::
  "'t venv \<Rightarrow> rpmsg_virtio_shm_pool list option \<Rightarrow> 't rpmsg_virtio_device \<Rightarrow>
   (int \<times> 't rpmsg_virtio_device) option" where
  "init_pools ve shpool s =
     (if driver ve s then
        (case shpool of None \<Rightarrow> Some (RPMSG_ERR_PARAM, s)
         | Some ps \<Rightarrow> do {
             let k = (if cf_split_shpool (rv_config s) then 1 else 0);
             p0 \<leftarrow> arr_get ps 0;
             let s1 = s\<lparr>rv_pools := ps, rv_shpool := Some k\<rparr>;
             if sp_size p0 = 0 then Some (RPMSG_ERR_NO_BUFF, s1)
             else do {
               pk \<leftarrow> arr_get ps k;
               Some (if sp_size pk = 0 then RPMSG_ERR_NO_BUFF else 0, s1)
             }
           })
      else Some (0, s))"

definition set_queue_io :: "nat \<Rightarrow> metal_io_region \<Rightarrow> 't rpmsg_virtio_device \<Rightarrow> 't rpmsg_virtio_device option" where
  "set_queue_io i io s = do {
     (vq, rm) \<leftarrow> get_vq (Some i) s;
     put_vq (Some i) (vq\<lparr>vq_shm_io := Some io\<rparr>) rm s
   }"

definition init_queues ::
  "'t venv \<Rightarrow> metal_io_region \<Rightarrow> 't rpmsg_virtio_device \<Rightarrow> (int \<times> 't rpmsg_virtio_device) option" where
  "init_queues ve io s = do {
     (names, cbs) \<leftarrow>
       (if device ve s then Some ([''tx_vq'', ''rx_vq''], [ve_tx_callback ve, ve_rx_callback ve])
        else if driver ve s then Some ([''rx_vq'', ''tx_vq''], [ve_rx_callback ve, ve_tx_callback ve])
        else None);
     let s1 = s\<lparr>rv_shbuf_io := Some io, rv_reclaimer := []\<rparr>;
     (status, vd) \<leftarrow> virtio_create_virtqueues (ve_build ve) (ve_func ve) (Some (rv_vdev s1)) 2 names cbs None;
     v \<leftarrow> vd;
     let s2 = s1\<lparr>rv_vdev := v\<rparr>;
     if status \<noteq> RPMSG_SUCCESS then Some (status, s2)
     else do {
       let s3 = (if driver ve s2 then s2\<lparr>rv_rvq := Some 0, rv_svq := Some 1\<rparr> else s2);
       let s4 = (if device ve s3 then s3\<lparr>rv_rvq := Some 1, rv_svq := Some 0\<rparr> else s3);
       (vq, rm) \<leftarrow> get_vq (rv_svq s4) s4;
       (vq', rm') \<leftarrow> virtqueue_disable_cb (ve_build ve) (rv_vdev s4) vq rm;
       s5 \<leftarrow> put_vq (rv_svq s4) vq' rm' s4;
       s6 \<leftarrow> set_queue_io 0 io s5;
       s7 \<leftarrow> set_queue_io 1 io s6;
       Some (0, s7)
     }
   }"

definition init_err ::
  "'t venv \<Rightarrow> int \<Rightarrow> 't rpmsg_virtio_device \<Rightarrow> (int \<times> 't rpmsg_virtio_device) option" where
  "init_err ve status s = do {
     vd \<leftarrow> virtio_delete_virtqueues (ve_func ve) (Some (rv_vdev s));
     v \<leftarrow> vd;
     Some (status, s\<lparr>rv_vdev := v\<rparr>)
   }"

definition init_finish ::
  "'t venv \<Rightarrow> metal_io_region \<Rightarrow> 't rpmsg_virtio_device \<Rightarrow> (int \<times> 't rpmsg_virtio_device) option" where
  "init_finish ve io s = do {
     (status, s1) \<leftarrow>
       (if driver ve s then do {
          (vq, rm) \<leftarrow> get_vq (rv_rvq s) s;
          rx_fill ve io (unat (vq_nentries vq)) s
        } else Some (0, s));
     if status \<noteq> 0 then init_err ve status s1
     else do {
       let s2 = s1\<lparr>rd_endpoints := []\<rparr>;
       s3 \<leftarrow> (if rd_support_ns s2
              then rpmsg_register_endpoint (ve_ns_ept ve) (Some [78, 83, 0]) RPMSG_NS_EPT_ADDR RPMSG_NS_EPT_ADDR
                     (ve_ns_callback ve) NULL (ve_self ve) s2
              else Some s2);
       if driver ve s3 then do {
         (status, vd) \<leftarrow> virtio_set_status (ve_func ve) (Some (rv_vdev s3)) VIRTIO_CONFIG_STATUS_DRIVER_OK;
         v \<leftarrow> vd;
         let s4 = s3\<lparr>rv_vdev := v\<rparr>;
         if status \<noteq> 0 then init_err ve status s4 else Some (RPMSG_SUCCESS, s4)
       } else Some (RPMSG_SUCCESS, s3)
     }
   }"

definition rpmsg_init_vdev_with_config ::
  "'t venv \<Rightarrow> 't rpmsg_virtio_device option \<Rightarrow> 't virtio_dev_scheme option \<Rightarrow> addr \<Rightarrow> metal_io_region option \<Rightarrow>
   rpmsg_virtio_shm_pool list option \<Rightarrow> rpmsg_virtio_config option \<Rightarrow>
   (int \<times> 't rpmsg_virtio_device option) option" where
  "rpmsg_init_vdev_with_config ve rvdev vdev ns_bind_cb shm_io shpool config =
     (case (rvdev, vdev, shm_io) of
        (Some s, Some v, Some io) \<Rightarrow> map_option (map_prod id Some) (do {
          (status, s1) \<leftarrow> init_negotiate ve config (init_rdev ve v ns_bind_cb s);
          if status \<noteq> 0 then Some (status, s1)
          else do {
            (status, s2) \<leftarrow> init_pools ve shpool s1;
            if status \<noteq> 0 then Some (status, s2)
            else do {
              (status, s3) \<leftarrow> init_queues ve io s2;
              if status \<noteq> 0 then Some (status, s3) else init_finish ve io s3
            }
          }
        })
      | _ \<Rightarrow> Some (RPMSG_ERR_PARAM, rvdev))"

definition RPMSG_VIRTIO_DEFAULT_CONFIG :: "build \<Rightarrow> rpmsg_virtio_config option" where
  "RPMSG_VIRTIO_DEFAULT_CONFIG b =
     (if VIRTIO_DRIVER_SUPPORT b
      then Some \<lparr>cf_h2r_buf_size = RPMSG_BUFFER_SIZE, cf_r2h_buf_size = RPMSG_BUFFER_SIZE, cf_split_shpool = False\<rparr>
      else None)"

definition rpmsg_init_vdev ::
  "'t venv \<Rightarrow> 't rpmsg_virtio_device option \<Rightarrow> 't virtio_dev_scheme option \<Rightarrow> addr \<Rightarrow> metal_io_region option \<Rightarrow>
   rpmsg_virtio_shm_pool list option \<Rightarrow> (int \<times> 't rpmsg_virtio_device option) option" where
  "rpmsg_init_vdev ve rvdev vdev ns_bind_cb shm_io shpool =
     rpmsg_init_vdev_with_config ve rvdev vdev ns_bind_cb shm_io shpool (RPMSG_VIRTIO_DEFAULT_CONFIG (ve_build ve))"

text \<open>The loop ends only if every \<open>rpmsg_destroy_ept\<close> unlinks its endpoint.\<close>

partial_function (option) destroy_all ::
  "'t venv \<Rightarrow> 't rpmsg_virtio_device app \<Rightarrow> 't rpmsg_virtio_device \<Rightarrow> 't rpmsg_virtio_device option" where
  "destroy_all ve app s =
     (case rd_endpoints s of [] \<Rightarrow> Some s
      | ept # _ \<Rightarrow> do {
          s1 \<leftarrow> rpmsg_destroy_ept (rpmsg_virtio_ops ve) app (ve_junk ve) ept s;
          destroy_all ve app s1
        })"

definition rpmsg_deinit_vdev ::
  "'t venv \<Rightarrow> 't rpmsg_virtio_device app \<Rightarrow> 't rpmsg_virtio_device option \<Rightarrow> 't rpmsg_virtio_device option option" where
  "rpmsg_deinit_vdev ve app rvdev =
     (case rvdev of None \<Rightarrow> Some None
      | Some s \<Rightarrow> do {
          s1 \<leftarrow> destroy_all ve app s;
          let s2 = s1\<lparr>rv_rvq := None, rv_svq := None\<rparr>;
          vd \<leftarrow> virtio_delete_virtqueues (ve_func ve) (Some (rv_vdev s2));
          v \<leftarrow> vd;
          Some (Some (s2\<lparr>rv_vdev := v\<rparr>))
        })"

end
