(* ===== verification/Rpmsg_Transport.thy ===== *)
theory Rpmsg_Transport
  imports Rpmsg_Virtio
begin

unbundle bit_operations_syntax

text \<open>
  The virtio transport as a provider of the rpmsg layer: sending leaves the endpoint bookkeeping
  alone, so the operation table is a model of the locale \<open>rpmsg_transport\<close> and the lemmas on endpoint
  creation and destruction hold for it. Then the life of a buffer: the pool, the held counter, the
  message a send leaves in memory and on the ring, and the delivery of a received one.
\<close>

section \<open>What the operations leave alone\<close>

lemma book_rv [simp]:
  "book (s\<lparr>rv_mem := m\<rparr>) = book s" "book (s\<lparr>rv_vdev := v\<rparr>) = book s" "book (s\<lparr>rv_pools := ps\<rparr>) = book s"
  "book (s\<lparr>rv_reclaimer := xs\<rparr>) = book s"
  by (simp_all add: rpmsg_device.defs)

lemma book_lock: "book s' = book s \<Longrightarrow> book (s'\<lparr>rd_lock := l\<rparr>) = book (s\<lparr>rd_lock := l\<rparr>)"
  by (simp add: rpmsg_device.defs)

lemma unlock_same: "\<not> rd_lock s \<Longrightarrow> book (s\<lparr>rd_lock := False\<rparr>) = book s"
  by (simp add: rpmsg_device.defs)

lemma put_vq_book: "put_vq q vq rm s = Some s' \<Longrightarrow> book s' = book s"
  by (auto simp: put_vq_def opt_simps)

lemma put_vq_fields:
  "put_vq q vq rm s = Some s' \<Longrightarrow> rv_mem s' = rv_mem s \<and> rv_config s' = rv_config s \<and> rv_shbuf_io s' = rv_shbuf_io s
    \<and> rv_rvq s' = rv_rvq s \<and> rv_svq s' = rv_svq s"
  by (auto simp: put_vq_def opt_simps)

lemma rv_kick_book: "rv_kick ve q s = Some (c, s') \<Longrightarrow> book s' = book s"
  by (auto simp: rv_kick_def opt_simps dest: put_vq_book split: prod.splits)

lemma pool_get_book: "pool_get i sz s = Some (b, s') \<Longrightarrow> book s' = book s"
  by (auto simp: pool_get_def opt_simps Let_def split: prod.splits option.splits)

lemma enqueue_book: "rpmsg_virtio_enqueue_buffer ve b len idx s = Some (r, s') \<Longrightarrow> book s' = book s"
  by (auto simp: rpmsg_virtio_enqueue_buffer_def opt_simps dest: put_vq_book split: prod.splits if_splits)

lemma del_first_book: "book (reclaimer_del_first s) = book s"
  by (simp add: reclaimer_del_first_def Let_def split: list.split)

lemma get_tx_buffer_book:
  "rpmsg_virtio_get_tx_buffer ve len idx s = Some (b, l, i, s') \<Longrightarrow> book s' = book s"
  by (auto simp: rpmsg_virtio_get_tx_buffer_def opt_simps Let_def del_first_book
      split: list.splits prod.splits if_splits option.splits dest!: put_vq_book pool_get_book)

lemma notify_wait_book: "rpmsg_virtio_notify_wait ve q s = Some (r, s') \<Longrightarrow> book s' = book s"
  by (auto simp: rpmsg_virtio_notify_wait_def opt_simps Let_def split: prod.splits if_splits)

lemma peer_acts_book: "book (peer_acts ve s) = book s"
  by (simp add: peer_acts_def Let_def split: prod.splits)

lemma locked_op_book:
  assumes "metal_mutex_acquire s = Some s1" and "book s2 = book s1"
  shows "book (metal_mutex_release s2) = book s"
proof -
  have "\<not> rd_lock s" "s1 = s\<lparr>rd_lock := True\<rparr>"
    using assms(1) by (auto simp: metal_mutex_acquire_def split: if_splits)
  then show ?thesis using assms(2) by (simp add: metal_mutex_release_def rpmsg_device.defs)
qed

lemma tx_wait_loop_book:
  assumes "tx_wait_loop ve tick len idx s = Some y"
  shows "book (snd (snd (snd y))) = book s"
proof (rule tx_wait_loop.raw_induct [OF _ assms, where P = "\<lambda>ve tick len idx s y. book (snd (snd (snd y))) = book s"])
  fix f and ve :: "'a venv" and tick len idx and s :: "'a rpmsg_virtio_device" and y
  assume ih: "\<And>ve tick len idx (s :: 'a rpmsg_virtio_device) y. f ve tick len idx s = Some y
      \<Longrightarrow> book (snd (snd (snd y))) = book s"
    and run: "do {
     s1 \<leftarrow> metal_mutex_acquire s;
     (rp_hdr, len1, idx1, s2) \<leftarrow> rpmsg_virtio_get_tx_buffer ve len idx s1;
     let s3 = metal_mutex_release s2;
     if rp_hdr \<noteq> NULL \<or> tick = 0 then Some (rp_hdr, len1, idx1, s3)
     else do {
       (status, s4) \<leftarrow> rpmsg_virtio_notify_wait ve (rv_rvq s3) s3;
       if status = RPMSG_EOPNOTSUPP then f ve (tick - 1) len1 idx1 (peer_acts ve s4)
       else if status \<noteq> RPMSG_SUCCESS then Some (rp_hdr, len1, idx1, s4)
       else f ve tick len1 idx1 s4
     }
   } = Some y"
  obtain s1 b l i s2 where a: "metal_mutex_acquire s = Some s1"
    "rpmsg_virtio_get_tx_buffer ve len idx s1 = Some (b, l, i, s2)"
    and k: "(if b \<noteq> NULL \<or> tick = 0 then Some (b, l, i, metal_mutex_release s2)
      else do {
       (status, s4) \<leftarrow> rpmsg_virtio_notify_wait ve (rv_rvq (metal_mutex_release s2)) (metal_mutex_release s2);
       if status = RPMSG_EOPNOTSUPP then f ve (tick - 1) l i (peer_acts ve s4)
       else if status \<noteq> RPMSG_SUCCESS then Some (b, l, i, s4)
       else f ve tick l i s4 }) = Some y"
    using run by (auto simp: opt_simps Let_def)
  have b3: "book (metal_mutex_release s2) = book s"
    using locked_op_book [OF a(1) get_tx_buffer_book [OF a(2)]] .
  show "book (snd (snd (snd y))) = book s"
  proof (cases "b \<noteq> NULL \<or> tick = 0")
    case True
    then show ?thesis using k b3 by auto
  next
    case False
    then obtain st s4 where w: "rpmsg_virtio_notify_wait ve (rv_rvq (metal_mutex_release s2)) (metal_mutex_release s2)
        = Some (st, s4)"
      and t: "(if st = RPMSG_EOPNOTSUPP then f ve (tick - 1) l i (peer_acts ve s4)
       else if st \<noteq> RPMSG_SUCCESS then Some (b, l, i, s4) else f ve tick l i s4) = Some y"
      using k by (auto simp: opt_simps)
    have b4: "book s4 = book s" using notify_wait_book [OF w] b3 by simp
    have "book (snd (snd (snd y))) = book s4"
    proof (cases "st = RPMSG_EOPNOTSUPP")
      case True
      then show ?thesis using t ih [of ve "tick - 1" l i "peer_acts ve s4" y] peer_acts_book [of ve s4] by simp
    next
      case False
      then show ?thesis using t ih [of ve tick l i s4 y] by (cases "st = RPMSG_SUCCESS") auto
    qed
    then show ?thesis using b4 by simp
  qed
qed

lemma payload_buffer_book:
  "rpmsg_virtio_get_tx_payload_buffer ve s wait = Some (b, l, s') \<Longrightarrow> book s' = book s"
  by (auto simp: rpmsg_virtio_get_tx_payload_buffer_def opt_simps split: prod.splits if_splits
      dest!: tx_wait_loop_book)

lemma nocopy_book:
  assumes "rpmsg_virtio_send_offchannel_nocopy ve s src dst data len = Some (r, s')"
  shows "book s' = book s"
proof -
  obtain m s1 bl st s2 c s3 where "metal_mutex_acquire (s\<lparr>rv_mem := m\<rparr>) = Some s1"
    "rpmsg_virtio_enqueue_buffer ve (RPMSG_LOCATE_HDR data) bl (ucast (load32 (rv_mem s) (RPMSG_LOCATE_HDR data + 8))) s1
       = Some (st, s2)"
    "rv_kick ve (rv_svq s2) s2 = Some (c, s3)" "s' = metal_mutex_release s3"
    using assms unfolding rpmsg_virtio_send_offchannel_nocopy_def
    by (auto simp: opt_simps Let_def split_beta)
  then show ?thesis using locked_op_book [of _ s1 s3] enqueue_book rv_kick_book by fastforce
qed

lemma send_raw_book:
  "rpmsg_virtio_send_offchannel_raw ve s src dst data len wait = Some (r, s') \<Longrightarrow> book s' = book s"
  by (auto simp: rpmsg_virtio_send_offchannel_raw_def opt_simps Let_def split_beta split: if_splits
      dest!: payload_buffer_book nocopy_book)

interpretation virtio_transport: rpmsg_transport "rpmsg_virtio_ops ve"
  for ve :: "'t venv"
  by unfold_locales (auto simp: rpmsg_virtio_ops_def dest: send_raw_book)

section \<open>Endpoints over virtio\<close>


text \<open>
  C18: creation with any requested address, or with a dynamic one while one of the 128 is free, and with any announcement keeps the
  bookkeeping invariant and touches no other endpoint. When it fails, at the address or at the announcement, the
  endpoint list and the address map are as before, and either nothing at all has changed or the endpoint is detached from the device; the place where
  the next search for an address starts is not set back.
\<close>

theorem create_ept_keeps_inv:
  fixes ve :: "'t venv"
  assumes "epts_inv s" and "\<not> rd_lock s" and "ept \<notin> set (rd_endpoints s)" and "length (ep_name (rd_epts s ept)) = 32"
    and "ep_release_cb (rd_epts s ept) = NULL" and "name_ok name"
    and "src = RPMSG_ADDR_ANY \<Longrightarrow> \<exists>c < 128. c \<notin> bitmap_bits (rd_bitmap s)"
    and "rpmsg_create_ept (rpmsg_virtio_ops ve) app junk ept name src dest cb unbind_cb s = Some (r, s')"
  shows "epts_inv s' \<and> \<not> rd_lock s' \<and> (\<forall>q. q \<noteq> ept \<longrightarrow> rd_epts s' q = rd_epts s q)
    \<and> (r = 0 \<longrightarrow> rd_endpoints s' = rd_endpoints s @ [ept] \<and> ep_cb (rd_epts s' ept) = cb
         \<and> (src \<noteq> RPMSG_ADDR_ANY \<longrightarrow> ep_addr (rd_epts s' ept) = src))
    \<and> (r \<noteq> 0 \<longrightarrow> rd_endpoints s' = rd_endpoints s \<and> bitmap_bits (rd_bitmap s') = bitmap_bits (rd_bitmap s)
         \<and> (s' = s \<or> ept_dead ept s'))"
  using virtio_transport.create_ept_inv [OF assms(1-6) _ assms(8)] assms(7) by auto

text \<open>
  C19: destroying an endpoint nobody else references unlinks it, returns its address to the map and
  keeps the bookkeeping invariant; nothing is routed to its address any more.
\<close>

theorem destroy_ept_frees_address:
  fixes ve :: "'t venv"
  assumes inv: "epts_inv s" and lock: "\<not> rd_lock s" and p: "ept \<in> set (rd_endpoints s)"
    and e: "ep_refcnt (rd_epts s ept) = 1" "ep_release_cb (rd_epts s ept) = NULL"
    and dyn: "dyn_addr (ep_addr (rd_epts s ept))"
    and run: "rpmsg_destroy_ept (rpmsg_virtio_ops ve) app junk ept s = Some s'"
  shows "epts_inv s' \<and> \<not> rd_lock s' \<and> rd_endpoints s' = remove1 ept (rd_endpoints s)
    \<and> bitmap_bits (rd_bitmap s') = bitmap_bits (rd_bitmap s) - {unat (ep_addr (rd_epts s ept)) - 1024}
    \<and> rpmsg_get_ept_from_addr s' (ep_addr (rd_epts s ept)) = Some NULL"
proof -
  let ?a = "ep_addr (rd_epts s ept)"
  have d: "epts_inv s'" "\<not> rd_lock s'" "rd_endpoints s' = remove1 ept (rd_endpoints s)"
    "bitmap_bits (rd_bitmap s') = bitmap_bits (rd_bitmap s) - {unat ?a - 1024}"
    using virtio_transport.destroy_ept_inv [OF inv lock p e run] dyn by auto
  have "ep_addr (rd_epts s' q) \<noteq> ?a" if "q \<in> set (rd_endpoints s')" for q
    using d(1,4) that dyn by (auto simp: epts_inv_def)
  then show ?thesis using d dyn not_routed [of ?a s'] by (auto simp: dyn_addr_def)
qed

text \<open>
  With all 128 addresses taken, creating an endpoint with a dynamic address does not fail: it
  succeeds with an address that is already marked as in use.
\<close>

theorem create_ept_exhausted:
  fixes ve :: "'t venv"
  assumes inv: "epts_inv s" and lock: "\<not> rd_lock s" and args: "ept \<noteq> NULL" "cb \<noteq> NULL" "name_ok name"
    and len: "length (ep_name (rd_epts s ept)) = 32" and full: "{..<128} \<subseteq> bitmap_bits (rd_bitmap s)"
    and quiet: "\<not> rd_support_ns s \<or> dest \<noteq> RPMSG_ADDR_ANY"
  shows "\<exists>s'. rpmsg_create_ept (rpmsg_virtio_ops ve) app junk ept name RPMSG_ADDR_ANY dest cb unbind_cb s = Some (0, s')
    \<and> rd_endpoints s' = rd_endpoints s @ [ept] \<and> ep_addr (rd_epts s' ept) = RPMSG_RESERVED_ADDRESSES + rd_bitnext s
    \<and> unat (ep_addr (rd_epts s' ept)) - 1024 \<in> bitmap_bits (rd_bitmap s)"
proof -
  let ?n = "rd_bitnext s"
  have n: "unat ?n < 128" "bitmap_capacity (rd_bitmap s) = 128" using inv by (auto simp: epts_inv_def)
  have "metal_bitmap_next_clear_bit (rd_bitmap s) ?n 128 = Some ?n"
    using n full by (intro find_clear_bit_full) (auto simp: word_less_nat_alt)
  moreover obtain bm where "metal_bitmap_set_bit (rd_bitmap s) (unat ?n) = Some bm"
    using metal_bitmap.set_bitE [of "unat ?n" "rd_bitmap s"] n by auto
  moreover have u: "unat (1024 + ?n) = 1024 + unat ?n" using n(1) by (simp add: unat_word_ariths)
  ultimately have "rpmsg_get_address (rd_bitmap s) ?n RPMSG_ADDR_BMP_SIZE = Some (1024 + ?n, bm)"
    "1024 + ?n \<noteq> RPMSG_ADDR_ANY"
    using n(1) by (auto simp: rpmsg_get_address_def word_less_nat_alt word_unat_eq_iff)
  from create_ept_returns [OF lock args len quiet this, of "rpmsg_virtio_ops ve" app junk unbind_cb]
  show ?thesis using u n(1) full by auto
qed

section \<open>The held counter\<close>

text \<open>The \<open>reserved\<close> field of a buffer with index \<open>idx\<close> that is held \<open>c\<close> times.\<close>

definition held_word :: "u16 \<Rightarrow> nat \<Rightarrow> u32" where
  "held_word idx c = push_bit 16 (of_nat c) OR ucast idx"

lemma held_word_plus: "held_word idx c = of_nat c * 65536 + ucast idx"
proof -
  have "push_bit 16 (of_nat c :: u32) AND ucast idx = 0"
    by (rule bit_word_eqI) (auto simp: bit_simps dest!: bit_imp_le_length)
  then show ?thesis
    by (simp add: held_word_def disjunctive_add_eq_or [symmetric] push_bit_eq_mult)
qed

lemma held_word_zero: "held_word idx 0 = ucast idx"
  by (simp add: held_word_def)

lemma held_word_inc: "held_word idx c + 0x10000 = held_word idx (Suc c)"
  by (simp add: held_word_plus algebra_simps)

lemma held_word_dec: "held_word idx (Suc c) - 0x10000 = held_word idx c"
  by (simp add: held_word_plus algebra_simps)

lemma held_mask: "(0xFFFF0000 :: u32) = push_bit 16 (mask 16)"
  by (simp add: mask_eq_exp_minus_1 push_bit_eq_mult)

lemma held_word_counter:
  assumes "c < 65536"
  shows "drop_bit 16 (held_word idx c AND RPMSG_BUF_HELD_MASK) = of_nat c"
  unfolding held_mask
proof (rule bit_word_eqI)
  fix n assume "n < LENGTH(32)"
  have "take_bit 16 (of_nat c :: u32) = of_nat c"
    using assms by (simp add: take_bit_of_nat take_bit_nat_eq_self)
  then have "bit (of_nat c :: u32) n \<Longrightarrow> n < 16" by (metis bit_take_bit_iff)
  moreover have "\<not> bit idx (16 + n)" using bit_imp_le_length [of idx "16 + n"] by auto
  ultimately show "bit (drop_bit 16 (held_word idx c AND push_bit 16 (mask 16))) n = bit (of_nat c :: u32) n"
    using \<open>n < LENGTH(32)\<close> by (simp only: held_word_def bit_simps comp_apply) auto
qed

lemma held_word_index: "ucast (held_word idx c AND NOT RPMSG_BUF_HELD_MASK) = idx"
  unfolding held_mask
proof (rule bit_word_eqI)
  fix n assume "n < LENGTH(16)"
  then show "bit (ucast (held_word idx c AND NOT (push_bit 16 (mask 16)) :: u32) :: u16) n = bit idx n"
    by (simp only: held_word_def bit_simps) auto
qed

lemma held_inc_store:
  "load32 m (hdr + 8) = held_word idx c \<Longrightarrow> load32 (RPMSG_BUF_HELD_INC hdr m) (hdr + 8) = held_word idx (Suc c)"
  by (simp add: RPMSG_BUF_HELD_INC_def set_reserved_def held_word_inc)

lemma held_index: "load32 m (hdr + 8) = held_word idx c \<Longrightarrow> RPMSG_BUF_INDEX m hdr = idx"
  by (simp only: RPMSG_BUF_INDEX_def held_word_index)

lemma held_dec_test:
  assumes "load32 m (hdr + 8) = held_word idx (Suc c)" and "Suc c < 65536"
  shows "rpmsg_virtio_buf_held_dec_test hdr m = (c = 0, set_reserved hdr (held_word idx c) m)"
proof -
  have "(of_nat (Suc c) :: u32) \<noteq> 0" using assms(2)
    by (simp only: word_unat_eq_iff unat_of_nat) simp
  moreover have "(of_nat c = (0 :: u32)) = (c = 0)"
    using assms(2) by (auto simp: word_unat_eq_iff unat_of_nat)
  ultimately show ?thesis
    using assms held_word_counter [OF assms(2)] held_word_counter [of c]
    by (simp add: rpmsg_virtio_buf_held_dec_test_def RPMSG_BUF_HELD_COUNTER_def RPMSG_BUF_HELD_DEC_def
        set_reserved_def held_word_dec word_neq_0_conv [symmetric] Let_def)
qed

lemma holds_word:
  "load32 ((RPMSG_BUF_HELD_INC hdr ^^ n) (set_reserved hdr (ucast idx) m)) (hdr + 8) = held_word idx n"
proof (induction n)
  case 0
  then show ?case by (simp add: set_reserved_def held_word_zero)
next
  case (Suc n)
  then show ?case by (simp add: held_inc_store)
qed

lemma releases_word:
  assumes "load32 m (hdr + 8) = held_word idx n" and "n < 65536" and "j \<le> n"
  shows "load32 (((\<lambda>m. snd (rpmsg_virtio_buf_held_dec_test hdr m)) ^^ j) m) (hdr + 8) = held_word idx (n - j)"
  using assms(3)
proof (induction j)
  case 0
  then show ?case using assms(1) by simp
next
  case (Suc j)
  obtain c where c: "n - j = Suc c" "n - Suc j = c" using Suc.prems by (cases "n - j") auto
  then show ?case
    using Suc held_dec_test [of _ hdr idx c] assms(2) by (simp add: set_reserved_def)
qed

text \<open>
  C37: a buffer that was stamped with its descriptor index and then held \<open>n\<close> times is reported free
  by exactly the \<open>n\<close>-th release, not earlier, and its index can be read back at every moment in
  between.
\<close>

theorem held_released_once:
  assumes "n < 65536" and "j < n"
    and "held = (RPMSG_BUF_HELD_INC hdr ^^ n) (set_reserved hdr (ucast idx) m)"
    and "m' = ((\<lambda>m. snd (rpmsg_virtio_buf_held_dec_test hdr m)) ^^ j) held"
  shows "fst (rpmsg_virtio_buf_held_dec_test hdr m') = (j + 1 = n) \<and> RPMSG_BUF_INDEX m' hdr = idx
    \<and> RPMSG_BUF_HELD_COUNTER m' hdr = of_nat (n - j)"
proof -
  have w: "load32 m' (hdr + 8) = held_word idx (n - j)"
    unfolding assms(4) using assms(1-3) holds_word by (intro releases_word) auto
  obtain c where c: "n - j = Suc c" using assms(2) by (cases "n - j") auto
  then have "Suc c < 65536" using assms(1) by simp
  from held_dec_test [OF _ this, of m' hdr idx] w c
  have "fst (rpmsg_virtio_buf_held_dec_test hdr m') = (c = 0)" by simp
  then show ?thesis
    using w c assms(1,2) held_index [OF w] held_word_counter [of "n - j" idx]
    by (auto simp: RPMSG_BUF_HELD_COUNTER_def)
qed

section \<open>The shared buffer pool\<close>

text \<open>\<open>k\<close> buffers of \<open>sz\<close> bytes taken one after the other, and the pool that is left.\<close>

fun take_buffers :: "nat \<Rightarrow> u64 \<Rightarrow> rpmsg_virtio_shm_pool \<Rightarrow> addr list \<times> rpmsg_virtio_shm_pool" where
  "take_buffers 0 sz p = ([], p)"
| "take_buffers (Suc k) sz p =
     (let (b, p1) = rpmsg_virtio_shm_pool_get_buffer p sz; (bs, p2) = take_buffers k sz p1 in (b # bs, p2))"

lemma pool_get_ok:
  assumes "0 < unat sz" and "unat sz \<le> unat (sp_avail p)"
  shows "rpmsg_virtio_shm_pool_get_buffer p sz
    = (sp_base p + sp_size p - sp_avail p, p\<lparr>sp_avail := sp_avail p - sz\<rparr>)"
    and "unat (sp_avail p - sz) = unat (sp_avail p) - unat sz"
proof -
  have "sz \<noteq> 0" "sz \<le> sp_avail p" using assms by (auto simp: word_le_nat_alt unat_gt_0)
  then show "rpmsg_virtio_shm_pool_get_buffer p sz
    = (sp_base p + sp_size p - sp_avail p, p\<lparr>sp_avail := sp_avail p - sz\<rparr>)"
    "unat (sp_avail p - sz) = unat (sp_avail p) - unat sz"
    by (auto simp: rpmsg_virtio_shm_pool_get_buffer_def unat_sub)
qed

lemma take_buffers_eq:
  assumes "0 < unat sz" and "k * unat sz \<le> unat (sp_avail p)"
  shows "take_buffers k sz p = (map (\<lambda>i. sp_base p + sp_size p - sp_avail p + of_nat i * sz) [0..<k],
    p\<lparr>sp_avail := sp_avail p - of_nat k * sz\<rparr>)"
  using assms(2)
proof (induction k arbitrary: p)
  case (Suc k)
  let ?p1 = "p\<lparr>sp_avail := sp_avail p - sz\<rparr>"
  have fits: "unat sz \<le> unat (sp_avail p)" using Suc.prems by simp
  note get = pool_get_ok [OF assms(1) fits]
  have "k * unat sz \<le> unat (sp_avail ?p1)" using Suc.prems get(2) by simp
  from Suc.IH [OF this] show ?case
    using get(1) by (simp add: Let_def upt_conv_Cons map_Suc_upt [symmetric] del: upt_Suc) (simp add: algebra_simps comp_def)
qed simp

text \<open>
  A pool set up over \<open>bytes\<close> bytes at \<open>base\<close> hands out buffers of \<open>sz\<close> bytes that lie side by side
  inside that memory, as many as fit; the next request returns NULL and leaves the pool as it is.
\<close>

theorem pool_buffers_tile:
  assumes base: "base \<noteq> NULL" and sz: "0 < unat sz" and fit: "unat bytes div unat sz = k"
    and mem: "unat base + unat bytes \<le> 2 ^ 64"
    and p: "take_buffers k sz (rpmsg_virtio_init_shm_pool p0 base bytes) = (bs, p)" and k: "0 < k"
  shows "length bs = k \<and> (\<forall>i < k. unat (bs ! i) = unat base + i * unat sz
      \<and> unat (bs ! i) + unat sz \<le> unat base + unat bytes)
    \<and> rpmsg_virtio_shm_pool_get_buffer p sz = (NULL, p)"
proof -
  let ?p = "rpmsg_virtio_init_shm_pool p0 base bytes"
  have full: "k * unat sz \<le> unat bytes" using fit by auto
  have "bytes \<noteq> 0" using full k sz by auto
  then have init: "sp_base ?p = base" "sp_size ?p = bytes" "sp_avail ?p = bytes"
    using base by (simp_all add: rpmsg_virtio_init_shm_pool_def)
  have bs: "bs = map (\<lambda>i. base + of_nat i * sz) [0..<k]" and pa: "sp_avail p = bytes - of_nat k * sz"
    using take_buffers_eq [OF sz, of k ?p] p full init by auto
  have at: "unat (bs ! i) = unat base + i * unat sz" and inside: "unat (bs ! i) + unat sz \<le> unat base + unat bytes"
    if i: "i < k" for i
  proof -
    have "Suc i * unat sz \<le> k * unat sz" using i by (intro mult_le_mono1) simp
    then have le: "i * unat sz + unat sz \<le> unat bytes" using full by simp
    then have "unat base + i * unat sz < 2 ^ 64" using mem sz by linarith
    then have "unat (base + of_nat i * sz) = unat base + i * unat sz"
      by (simp add: unat_word_ariths unat_of_nat mod_simps)
    then show "unat (bs ! i) = unat base + i * unat sz" using bs i by simp
    with le show "unat (bs ! i) + unat sz \<le> unat base + unat bytes" by simp
  qed
  have "unat (of_nat k * sz) = k * unat sz"
    using full unat_lt_exp [of bytes] by (simp add: unat_word_ariths unat_of_nat mod_simps)
  then have "unat (sp_avail p) = unat bytes - k * unat sz"
    using pa full by (simp add: unat_sub word_le_nat_alt)
  also have "\<dots> = unat bytes mod unat sz" using fit by (metis minus_div_mult_eq_mod)
  finally have "sp_avail p < sz" using sz by (simp add: word_less_nat_alt)
  then show ?thesis
    using bs at inside by (auto simp: rpmsg_virtio_shm_pool_get_buffer_def)
qed

section \<open>A concrete device\<close>

definition demo_ept :: rpmsg_endpoint where
  "demo_ept = \<lparr>ep_name = replicate 32 0, ep_rdev = True, ep_addr = 1024, ep_dest_addr = 0x400, ep_refcnt = 1,
     ep_release_cb = NULL, ep_cb = 0x900, ep_ns_unbind_cb = NULL, ep_priv = NULL\<rparr>"

definition demo_ve :: "unit venv" where
  "demo_ve = \<lparr>ve_build = default_build, ve_rx_empty_notify = True,
     ve_func = Some (demo_table\<lparr>vf_get_status := Some (\<lambda>_. Some VIRTIO_CONFIG_STATUS_DRIVER_OK)\<rparr>),
     ve_notify_wait = \<lambda>_ (m, v). (0, m, v), ve_peer = \<lambda>x. x, ve_junk = replicate 32 0,
     ve_ns_callback = 0xA00, ve_rx_callback = 0xB00, ve_tx_callback = 0xC00, ve_ns_ept = 0x100, ve_self = 0x80\<rparr>"

definition demo_rv :: "unit rpmsg_virtio_device" where
  "demo_rv = \<lparr>rd_endpoints = [], rd_epts = \<lambda>_. demo_ept, rd_bitmap = [0, 0], rd_bitnext = 0, rd_lock = False,
     rd_ns_bind_cb = NULL, rd_ns_unbind_cb = NULL, rd_support_ns = False,
     rv_mem = \<lambda>_. 0, rv_config = \<lparr>cf_h2r_buf_size = 64, cf_r2h_buf_size = 64, cf_split_shpool = False\<rparr>,
     rv_vdev = demo_vdev\<lparr>vd_vrings_num := 2, vd_vrings_info :=
       [demo_vring, demo_vring\<lparr>vi_vq := Some demo_vq, vi_ring := demo_rm\<rparr>]\<rparr>,
     rv_rvq = Some 0, rv_svq = Some 1, rv_shbuf_io = Some demo_io,
     rv_pools = [\<lparr>sp_base = 0x1100, sp_avail = 256, sp_size = 256\<rparr>], rv_shpool = Some 0,
     rv_reclaimer_head = 0x200, rv_reclaimer = [], rv_notify_wait_cb = False\<rparr>"

definition demo_app :: "unit rpmsg_virtio_device app" where
  "demo_app = \<lparr>app_ept_cb = \<lambda>_ _ _ _ _ _ s. Some (0, s), app_release_cb = \<lambda>_ _ s. Some s,
     app_ept_unbind_cb = \<lambda>_ _ s. Some s, app_bind_cb = \<lambda>_ _ _ s. Some s, app_unbind_cb = \<lambda>_ _ _ s. Some s\<rparr>"

text \<open>The device with one endpoint, at address 1024, and with an exhausted address map.\<close>

definition demo_rv1 :: "unit rpmsg_virtio_device" where
  "demo_rv1 = demo_rv\<lparr>rd_endpoints := [0x300], rd_bitmap := [1, 0], rd_bitnext := 1\<rparr>"

definition demo_rv_full :: "unit rpmsg_virtio_device" where
  "demo_rv_full = demo_rv\<lparr>rd_bitmap := [- 1, - 1]\<rparr>"

lemma bits_zero: "bitmap_bits [0, 0] = {}"
  by (auto simp: bitmap_bits_def bitmap_capacity_def nth_Cons')

lemma bits_one: "bitmap_bits [1, 0] = {0}"
  by (auto simp: bitmap_bits_def bitmap_capacity_def nth_Cons' bit_1_iff split: if_splits)

lemma bits_full: "bitmap_bits [- 1, - 1] = {..<128}"
  by (auto simp: bitmap_bits_def bitmap_capacity_def nth_Cons' split: if_splits)

lemma demo_epts_inv: "epts_inv demo_rv" "epts_inv demo_rv1" "epts_inv demo_rv_full"
  by (simp_all add: epts_inv_def demo_rv_def demo_rv1_def demo_rv_full_def bitmap_capacity_def bits_one
      demo_ept_def dyn_addr_def)


theorem create_ept_exhausted_witness:
  "\<exists>s'. rpmsg_create_ept (rpmsg_virtio_ops demo_ve) demo_app [] 0x300 None RPMSG_ADDR_ANY 0x400 0x900 NULL demo_rv_full
      = Some (0, s')
    \<and> rd_endpoints s' = rd_endpoints demo_rv_full @ [0x300]
    \<and> ep_addr (rd_epts s' 0x300) = RPMSG_RESERVED_ADDRESSES + rd_bitnext demo_rv_full
    \<and> unat (ep_addr (rd_epts s' 0x300)) - 1024 \<in> bitmap_bits (rd_bitmap demo_rv_full)"
  by (rule create_ept_exhausted [OF demo_epts_inv(3)])
    (simp_all add: demo_rv_def demo_rv_full_def demo_ept_def name_ok_def bits_full)

theorem held_released_once_witness:
  "fst (rpmsg_virtio_buf_held_dec_test 0x1100
      (((\<lambda>m. snd (rpmsg_virtio_buf_held_dec_test 0x1100 m)) ^^ 1)
        ((RPMSG_BUF_HELD_INC 0x1100 ^^ 2) (set_reserved 0x1100 (ucast (3 :: u16)) (\<lambda>_. 0)))))"
  using held_released_once [of 2 1, OF _ _ refl refl, of "0x1100" 3 "\<lambda>_. 0"] by simp

theorem pool_buffers_tile_witness:
  "\<exists>bs p. take_buffers 2 (64 :: u64)
      (rpmsg_virtio_init_shm_pool \<lparr>sp_base = 0, sp_avail = 0, sp_size = 0\<rparr> 0x1000 (130 :: u64)) = (bs, p)
    \<and> length bs = 2 \<and> rpmsg_virtio_shm_pool_get_buffer p 64 = (NULL, p)"
proof -
  obtain bs p where p: "take_buffers 2 (64 :: u64)
      (rpmsg_virtio_init_shm_pool \<lparr>sp_base = 0, sp_avail = 0, sp_size = 0\<rparr> 0x1000 (130 :: u64)) = (bs, p)"
    by fastforce
  then show ?thesis using pool_buffers_tile [OF _ _ _ _ p] by auto
qed

theorem create_ept_keeps_inv_witness:
  "\<exists>s'. rpmsg_create_ept (rpmsg_virtio_ops demo_ve) demo_app [] 0x500 None 1024 0x400 0x900 NULL demo_rv1
      = Some (RPMSG_ERR_ADDR, s')
    \<and> epts_inv s' \<and> rd_endpoints s' = [0x300] \<and> bitmap_bits (rd_bitmap s') = {0}"
proof -
  have taken: "rpmsg_is_address_set [1, 0] RPMSG_ADDR_BMP_SIZE 1024 = Some 1"
    using is_address_set_cases [of "[1, 0]" 1024 0] by (simp add: bitmap_capacity_def bits_one)
  then obtain s' where s': "rpmsg_create_ept (rpmsg_virtio_ops demo_ve) demo_app [] 0x500 None 1024 0x400 0x900 NULL demo_rv1
      = Some (RPMSG_ERR_ADDR, s')"
    by (simp add: rpmsg_create_ept_def choose_addr_def metal_mutex_acquire_def demo_rv1_def demo_rv_def)
  then show ?thesis
    using create_ept_keeps_inv [OF demo_epts_inv(2) _ _ _ _ _ _ s']
    by (simp add: demo_rv1_def demo_rv_def demo_ept_def name_ok_def bits_one)
qed

theorem destroy_ept_frees_address_witness:
  "\<exists>s'. rpmsg_destroy_ept (rpmsg_virtio_ops demo_ve) demo_app [] 0x300 demo_rv1 = Some s'
    \<and> epts_inv s' \<and> rd_endpoints s' = [] \<and> bitmap_bits (rd_bitmap s') = {}"
proof -
  have "0x300 \<in> set (rd_endpoints demo_rv1)" by (simp add: demo_rv1_def)
  then obtain s' where "rpmsg_unregister_endpoint demo_app 0x300 demo_rv1 = Some s'"
    using unregister_ok [OF demo_epts_inv(2), of "0x300" demo_app] by (auto simp: demo_rv1_def demo_rv_def demo_ept_def)
  then have s': "rpmsg_destroy_ept (rpmsg_virtio_ops demo_ve) demo_app [] 0x300 demo_rv1 = Some s'"
    by (simp add: rpmsg_destroy_ept_def ept_dead_def demo_rv1_def demo_rv_def demo_ept_def)
  show ?thesis
    using destroy_ept_frees_address [OF demo_epts_inv(2) _ _ _ _ _ s'] s'
    by (simp add: demo_rv1_def demo_rv_def demo_ept_def dyn_addr_def bits_one)
qed

end
