(* ===== verification/Rpmsg_Send.thy ===== *)
theory Rpmsg_Send
  imports Rpmsg_Transport
begin

unbundle bit_operations_syntax

text \<open>
  What a send leaves behind: the message in the shared buffer and the buffer on the ring.
\<close>

section \<open>Queues of the device\<close>

lemma get_put_vq:
  assumes "put_vq q vq rm s = Some s'"
  shows "get_vq q s' = Some (vq, rm)"
  using assms by (auto simp: put_vq_def get_vq_def opt_simps)

lemma put_vq_ok:
  assumes "get_vq q s = Some (vq0, rm0)"
  shows "\<exists>s'. put_vq q vq rm s = Some s' \<and> get_vq q s' = Some (vq, rm) \<and> book s' = book s \<and> rv_mem s' = rv_mem s
    \<and> rv_config s' = rv_config s \<and> rv_shbuf_io s' = rv_shbuf_io s \<and> rv_rvq s' = rv_rvq s \<and> rv_svq s' = rv_svq s
    \<and> rv_pools s' = rv_pools s \<and> rv_shpool s' = rv_shpool s \<and> rv_reclaimer s' = rv_reclaimer s
    \<and> vd_role (rv_vdev s') = vd_role (rv_vdev s) \<and> vd_features (rv_vdev s') = vd_features (rv_vdev s)"
  using assms by (auto simp: put_vq_def get_vq_def opt_simps)

lemma driver_cong: "vd_role (rv_vdev s') = vd_role (rv_vdev s) \<Longrightarrow> driver ve s' = driver ve s"
  by (simp add: driver_def VIRTIO_ROLE_IS_DRIVER_def)

lemma kick_ok:
  assumes "get_vq q s = Some (vq, rm)" and "\<not> vq_inuse vq"
  shows "\<exists>c s'. rv_kick ve q s = Some (c, s') \<and> get_vq q s' = Some (vq\<lparr>vq_queued_cnt := 0\<rparr>, rm)
    \<and> book s' = book s \<and> rv_mem s' = rv_mem s \<and> rv_svq s' = rv_svq s \<and> rv_rvq s' = rv_rvq s
    \<and> vd_role (rv_vdev s') = vd_role (rv_vdev s)"
proof -
  have "virtqueue_kick (ve_build ve) (rv_vdev s) vq rm
      = Some (vq_ring_must_notify (ve_build ve) (rv_vdev s) (if VQUEUE_DEBUG (ve_build ve) then vq\<lparr>vq_inuse := True\<rparr> else vq) rm
          \<and> vq_ring_notify (if VQUEUE_DEBUG (ve_build ve) then vq\<lparr>vq_inuse := True\<rparr> else vq), vq\<lparr>vq_queued_cnt := 0\<rparr>)"
    using assms(2) by (auto simp: virtqueue_kick_def VQUEUE_BUSY_def VQUEUE_IDLE_def Let_def)
  then show ?thesis
    using assms(1) put_vq_ok [OF assms(1), of "vq\<lparr>vq_queued_cnt := 0\<rparr>" rm] by (auto simp: rv_kick_def)
qed

section \<open>Writing into a shared buffer\<close>

text \<open>\<open>n\<close> bytes at \<open>p\<close> lie in a region that has no write hook.\<close>

definition buffer_in :: "metal_io_region \<Rightarrow> addr \<Rightarrow> nat \<Rightarrow> bool" where
  "buffer_in io p n = (io_virt io \<noteq> METAL_BAD_VA \<and> io_block_write (io_ops io) = None
     \<and> p \<noteq> NULL \<and> unat p + n < 2 ^ 64 \<and> unat (p - io_virt io) + n \<le> unat (io_size io))"

lemma buffer_in_sub:
  assumes "buffer_in io p n" and "unat k + l \<le> n"
  shows "buffer_in io (p + k) l"
proof -
  have b: "unat p + n < 2 ^ 64" "unat (p - io_virt io) + n \<le> unat (io_size io)" "p \<noteq> NULL"
    using assms(1) by (auto simp: buffer_in_def)
  have up: "unat (p + k) = unat p + unat k" using b(1) assms(2) by (simp add: unat_word_ariths)
  have "unat (p - io_virt io) + unat k < 2 ^ 64" using b(2) assms(2) unat_lt_exp [of "io_size io"] by simp
  then have "unat (p - io_virt io + k) = unat (p - io_virt io) + unat k" by (simp add: unat_word_ariths)
  then have uo: "unat (p + k - io_virt io) = unat (p - io_virt io) + unat k" by (simp add: algebra_simps)
  have "unat p \<noteq> 0" using b(3) by (simp add: unat_eq_zero)
  then have "p + k \<noteq> NULL" using up by (metis add_is_0 unsigned_0)
  then show ?thesis using assms b up uo by (simp add: buffer_in_def)
qed

lemma io_put_in:
  assumes "buffer_in io p n" and "length bs \<le> n" and "0 < n"
  shows "io_put m io (metal_io_virt_to_offset io p) bs = Some (int (length bs), mem_write m p bs)"
proof -
  let ?d = "p - io_virt io"
  have lt: "?d < io_size io" using assms(1,3) by (simp add: buffer_in_def word_less_nat_alt)
  then have off: "metal_io_virt_to_offset io p = ?d" by (simp add: metal_io_virt_to_offset_def Let_def)
  have virt: "metal_io_virt io ?d = p" using lt assms(1) by (simp add: metal_io_virt_def buffer_in_def)
  have "clip_len io ?d (length bs) = length bs"
    using lt assms(1,2) by (intro clip_len_inside) (auto simp: buffer_in_def)
  then show ?thesis using off virt assms(1) by (simp add: io_put_def buffer_in_def)
qed

lemma length_hdr_bytes [simp]: "length (hdr_bytes h) = 16"
  by (simp add: hdr_bytes_def)

lemma load_hdr_read:
  assumes "mem_read m p 16 = hdr_bytes h"
  shows "load_hdr m p = h"
proof -
  have "mem_read m (p + of_nat k) n = take n (drop k (hdr_bytes h))" if "k + n \<le> 16" for k n
    using mem_read_slice [OF that, of m p] assms by simp
  note field = this [of 0 4] this [of 4 4] this [of 8 4] this [of 12 2] this [of 14 2]
  show ?thesis using field by (simp add: load_hdr_def load32_def load16_def hdr_bytes_def)
qed

section \<open>Offering a filled buffer\<close>

text \<open>The send queue has a free descriptor \<open>x\<close>.\<close>

definition tx_slot ::
  "'t rpmsg_virtio_device \<Rightarrow> virtqueue \<Rightarrow> vring_mem \<Rightarrow> u16 \<Rightarrow> u16 list \<Rightarrow> u16 list list \<Rightarrow> bool" where
  "tx_slot s vq rm x fs cs = (get_vq (rv_svq s) s = Some (vq, rm) \<and> driver_inv vq (vm_desc rm) (x # fs) cs
     \<and> length (av_ring (vm_avail rm)) = unat (vq_nentries vq) \<and> (\<exists>e. unat (vq_nentries vq) = 2 ^ e))"

text \<open>\<open>rm'\<close> is \<open>rm\<close> with the buffer at physical address \<open>pa\<close> offered through descriptor \<open>x\<close>.\<close>

definition tx_offered :: "virtqueue \<Rightarrow> vring_mem \<Rightarrow> u16 \<Rightarrow> u64 \<Rightarrow> u32 \<Rightarrow> vring_mem \<Rightarrow> bool" where
  "tx_offered vq rm x pa len rm' = (
     av_ring (vm_avail rm') = (av_ring (vm_avail rm))[unat (av_idx (vm_avail rm)) mod unat (vq_nentries vq) := x]
     \<and> av_idx (vm_avail rm') = av_idx (vm_avail rm) + 1 \<and> vm_used rm' = vm_used rm
     \<and> d_addr (vm_desc rm' ! unat x) = pa \<and> d_len (vm_desc rm' ! unat x) = len
     \<and> d_flags (vm_desc rm' ! unat x) = 0)"

lemma add_one_ok:
  assumes "tx_slot s vq rm x fs cs" and "virtqueue_virt_to_phys vq p = Some pa" and "p \<noteq> NULL"
  shows "\<exists>vq' rm'. virtqueue_add_buffer b vq rm [\<lparr>vb_buf = p, vb_len = sint len\<rparr>] 1 0 p = Some (VQUEUE_SUCCESS, vq', rm')
    \<and> driver_inv vq' (vm_desc rm') fs ([x] # cs) \<and> tx_offered vq rm x pa len rm'"
proof -
  obtain e where slot: "driver_inv vq (vm_desc rm) (x # fs) cs"
    "length (av_ring (vm_avail rm)) = unat (vq_nentries vq)" "unat (vq_nentries vq) = 2 ^ e"
    using assms(1) by (auto simp: tx_slot_def)
  have tr: "translates vq [\<lparr>vb_buf = p, vb_len = sint len\<rparr>] 1 (\<lambda>_. pa)"
    using assms(2) by (simp add: translates_def)
  obtain vq' rm' where r: "virtqueue_add_buffer b vq rm [\<lparr>vb_buf = p, vb_len = sint len\<rparr>] 1 0 p = Some (VQUEUE_SUCCESS, vq', rm')"
    "driver_inv vq' (vm_desc rm') (drop 1 (x # fs)) (take 1 (x # fs) # cs)"
    "\<forall>j < 1. d_addr (vm_desc rm' ! unat ((x # fs) ! j)) = pa
           \<and> d_len (vm_desc rm' ! unat ((x # fs) ! j)) = of_int (vb_len ([\<lparr>vb_buf = p, vb_len = sint len\<rparr>] ! j))
           \<and> d_flags (vm_desc rm' ! unat ((x # fs) ! j)) = desc_flags (int j) (int 1) 1"
    "av_ring (vm_avail rm') = (av_ring (vm_avail rm))[unat (av_idx (vm_avail rm)) mod unat (vq_nentries vq) := hd (x # fs)]"
    "av_idx (vm_avail rm') = av_idx (vm_avail rm) + 1" "vm_used rm' = vm_used rm"
    using add_buffer_ok [OF slot(1) _ _ _ tr assms(3) slot(2,3), of 1 0 b] by auto
  show ?thesis
    using r by (intro exI [of _ vq'] exI [of _ rm']) (simp add: tx_offered_def desc_flags_def)
qed

lemma nocopy_ok:
  assumes drv: "driver ve s" and lock: "\<not> rd_lock s" and io: "rv_shbuf_io s = Some io" "buffer_in io p n" "16 \<le> n"
    and slot: "tx_slot s vq rm x fs cs" and pa: "virtqueue_virt_to_phys vq p = Some pa"
  shows "\<exists>s' vq' rm'. rpmsg_virtio_send_offchannel_nocopy ve s src dst (p + 16) len = Some (len, s')
    \<and> rv_mem s' = mem_write (rv_mem s) p
        (hdr_bytes \<lparr>h_src = src, h_dst = dst, h_reserved = 0, h_len = word_of_int len, h_flags = 0\<rparr>)
    \<and> get_vq (rv_svq s) s' = Some (vq', rm') \<and> driver_inv vq' (vm_desc rm') fs ([x] # cs)
    \<and> tx_offered vq rm x pa (cf_h2r_buf_size (rv_config s)) rm'"
proof -
  let ?h = "\<lparr>h_src = src, h_dst = dst, h_reserved = 0, h_len = word_of_int len, h_flags = 0\<rparr>"
  let ?m = "mem_write (rv_mem s) p (hdr_bytes ?h)"
  let ?s1 = "s\<lparr>rv_mem := ?m, rd_lock := True\<rparr>"
  have put: "io_put (rv_mem s) io (metal_io_virt_to_offset io p) (hdr_bytes ?h) = Some (16, ?m)"
    using io_put_in [OF io(2), of "hdr_bytes ?h" "rv_mem s"] io(3) by simp
  have p: "p \<noteq> NULL" using io(2) by (simp add: buffer_in_def)
  have slot1: "tx_slot ?s1 vq rm x fs cs" and get1: "get_vq (rv_svq ?s1) ?s1 = Some (vq, rm)"
    using slot by (simp_all add: tx_slot_def get_vq_def)
  obtain vq1 rm1 where add: "virtqueue_add_buffer (ve_build ve) vq rm
        [\<lparr>vb_buf = p, vb_len = sint (cf_h2r_buf_size (rv_config s))\<rparr>] 1 0 p = Some (VQUEUE_SUCCESS, vq1, rm1)"
    "driver_inv vq1 (vm_desc rm1) fs ([x] # cs)" "tx_offered vq rm x pa (cf_h2r_buf_size (rv_config s)) rm1"
    using add_one_ok [OF slot1 pa p] by blast
  obtain s2 where s2: "put_vq (rv_svq ?s1) vq1 rm1 ?s1 = Some s2" "get_vq (rv_svq ?s1) s2 = Some (vq1, rm1)"
    "rv_mem s2 = ?m" "rv_svq s2 = rv_svq s"
    using put_vq_ok [OF get1, of vq1 rm1] by auto
  have drv1: "driver ve ?s1" using drv by (simp add: driver_def)
  have enq: "rpmsg_virtio_enqueue_buffer ve p (cf_h2r_buf_size (rv_config s)) idx ?s1 = Some (VQUEUE_SUCCESS, s2)" for idx
    using drv1 get1 add(1) s2(1) by (simp add: rpmsg_virtio_enqueue_buffer_def)
  obtain c s3 where s3: "rv_kick ve (rv_svq s2) s2 = Some (c, s3)"
    "get_vq (rv_svq s2) s3 = Some (vq1\<lparr>vq_queued_cnt := 0\<rparr>, rm1)" "rv_mem s3 = ?m"
    using kick_ok [of "rv_svq s2" s2 vq1 rm1 ve] s2 add(2) by (auto simp: driver_inv_def)
  have "rpmsg_virtio_send_offchannel_nocopy ve s src dst (p + 16) len = Some (len, metal_mutex_release s3)"
    using put io(1) lock drv1 enq s3(1)
    by (simp add: rpmsg_virtio_send_offchannel_nocopy_def RPMSG_LOCATE_HDR_def metal_mutex_acquire_def)
  moreover have "driver_inv (vq1\<lparr>vq_queued_cnt := 0\<rparr>) (vm_desc rm1) fs ([x] # cs)"
    using add(2) by (simp add: driver_inv_def)
  moreover have "get_vq (rv_svq s) (metal_mutex_release s3) = Some (vq1\<lparr>vq_queued_cnt := 0\<rparr>, rm1)"
    using s3(2) s2(4) by (simp add: metal_mutex_release_def get_vq_def)
  ultimately show ?thesis
    using s3(3) add(3)
    by (intro exI [of _ "metal_mutex_release s3"] exI [of _ "vq1\<lparr>vq_queued_cnt := 0\<rparr>"] exI [of _ rm1])
      (simp add: metal_mutex_release_def)
qed

section \<open>Taking a fresh buffer\<close>

text \<open>
  The driver may send: the device is running, no released buffer waits for reuse, the remote has
  returned none, a descriptor is free, and the pool still has the buffer at \<open>p\<close>.
\<close>

definition tx_ready ::
  "'t venv \<Rightarrow> 't rpmsg_virtio_device \<Rightarrow> virtqueue \<Rightarrow> vring_mem \<Rightarrow> u16 \<Rightarrow> u16 list \<Rightarrow> u16 list list \<Rightarrow> addr \<Rightarrow> bool" where
  "tx_ready ve s vq rm x fs cs p = (driver ve s \<and> \<not> rd_lock s
     \<and> (\<exists>st. virtio_get_status (ve_func ve) (Some (rv_vdev s)) = Some (0, Some st) \<and> st AND VIRTIO_CONFIG_STATUS_DRIVER_OK \<noteq> 0)
     \<and> rv_reclaimer s = [] \<and> tx_slot s vq rm x fs cs \<and> vq_used_cons_idx vq = us_idx (vm_used rm)
     \<and> (\<exists>k. rv_shpool s = Some k \<and> k < length (rv_pools s)
          \<and> unat (cf_h2r_buf_size (rv_config s)) \<le> unat (sp_avail (rv_pools s ! k))
          \<and> p = sp_base (rv_pools s ! k) + sp_size (rv_pools s ! k) - sp_avail (rv_pools s ! k))
     \<and> 16 < unat (cf_h2r_buf_size (rv_config s)) \<and> unat (cf_h2r_buf_size (rv_config s)) < 2 ^ 31)"

lemma unat_ucast_u64: "unat (ucast (w :: u32) :: u64) = unat w"
proof -
  have "unat w < 2 ^ LENGTH(32)" by (rule unat_lt_exp)
  then have "unat w < 2 ^ 64" by (rule less_trans) simp
  then show ?thesis by (simp add: unsigned_ucast_eq take_bit_nat_eq_self)
qed

lemma pool_get_fresh:
  assumes "rv_shpool s = Some k" and "k < length (rv_pools s)" and "0 < unat sz"
    and "unat sz \<le> unat (sp_avail (rv_pools s ! k))"
  shows "\<exists>s'. pool_get (rv_shpool s) sz s
      = Some (sp_base (rv_pools s ! k) + sp_size (rv_pools s ! k) - sp_avail (rv_pools s ! k), s')
    \<and> (\<forall>q. get_vq q s' = get_vq q s) \<and> book s' = book s \<and> rv_mem s' = rv_mem s \<and> rv_config s' = rv_config s
    \<and> rv_svq s' = rv_svq s \<and> rv_shbuf_io s' = rv_shbuf_io s \<and> rv_vdev s' = rv_vdev s"
  using assms pool_get_ok(1) [OF assms(3,4)] by (simp add: pool_get_def get_vq_def)

lemma get_tx_fresh:
  assumes ready: "tx_ready ve s vq rm x fs cs p"
  shows "\<exists>s'. rpmsg_virtio_get_tx_buffer ve len0 idx0 (s\<lparr>rd_lock := True\<rparr>) = Some (p, cf_h2r_buf_size (rv_config s), 0, s')
    \<and> get_vq (rv_svq s) s' = Some (vq, rm) \<and> rv_mem s' = rv_mem s \<and> rv_config s' = rv_config s
    \<and> rv_svq s' = rv_svq s \<and> rv_shbuf_io s' = rv_shbuf_io s \<and> driver ve s'"
proof -
  let ?s = "s\<lparr>rd_lock := True\<rparr>"
  have drv: "driver ve ?s" and rec: "rv_reclaimer s = []" and used: "vq_used_cons_idx vq = us_idx (vm_used rm)"
    and slot: "tx_slot s vq rm x fs cs"
    using ready by (simp_all add: tx_ready_def driver_def)
  have get: "get_vq (rv_svq ?s) ?s = Some (vq, rm)" using slot by (simp add: tx_slot_def get_vq_def)
  have "unat (vq_free_cnt vq) = length (x # fs)" using slot by (simp add: tx_slot_def driver_inv_def)
  then have free: "vq_free_cnt vq \<noteq> 0" by auto
  obtain k where pool: "rv_shpool s = Some k" "k < length (rv_pools s)"
      "p = sp_base (rv_pools s ! k) + sp_size (rv_pools s ! k) - sp_avail (rv_pools s ! k)"
      "unat (cf_h2r_buf_size (rv_config s)) \<le> unat (sp_avail (rv_pools s ! k))" "0 < unat (cf_h2r_buf_size (rv_config s))"
    using ready by (auto simp: tx_ready_def)
  have fit: "0 < unat (ucast (cf_h2r_buf_size (rv_config s)) :: u64)"
    "unat (ucast (cf_h2r_buf_size (rv_config s)) :: u64) \<le> unat (sp_avail (rv_pools s ! k))"
    using pool(4,5) by (simp_all only: unat_ucast_u64)
  obtain s1 where s1: "put_vq (rv_svq ?s) vq rm ?s = Some s1" "get_vq (rv_svq ?s) s1 = Some (vq, rm)" "rv_mem s1 = rv_mem s"
    "rv_config s1 = rv_config s" "rv_shbuf_io s1 = rv_shbuf_io s" "rv_svq s1 = rv_svq s" "rv_pools s1 = rv_pools s"
    "rv_shpool s1 = rv_shpool s" "vd_role (rv_vdev s1) = vd_role (rv_vdev s)"
    using put_vq_ok [OF get, of vq rm] by auto
  obtain s2 where s2: "pool_get (rv_shpool s1) (ucast (cf_h2r_buf_size (rv_config s))) s1 = Some (p, s2)"
    "get_vq (rv_svq s) s2 = Some (vq, rm)" "rv_mem s2 = rv_mem s" "rv_config s2 = rv_config s" "rv_svq s2 = rv_svq s"
    "rv_shbuf_io s2 = rv_shbuf_io s" "vd_role (rv_vdev s2) = vd_role (rv_vdev s)"
    using pool_get_fresh [of s1 k "ucast (cf_h2r_buf_size (rv_config s))"] pool(1-3) fit s1 by auto
  have "rpmsg_virtio_get_tx_buffer ve len0 idx0 ?s = Some (p, cf_h2r_buf_size (rv_config s), 0, s2)"
    using rec drv get used free s1 s2(1)
    by (simp add: rpmsg_virtio_get_tx_buffer_def virtqueue_get_buffer_def)
  moreover have "driver ve s2" using s2(7) drv by (simp add: driver_def VIRTIO_ROLE_IS_DRIVER_def)
  ultimately show ?thesis using s2 by auto
qed

lemma payload_fresh:
  assumes ready: "tx_ready ve s vq rm x fs cs p" and p: "p \<noteq> NULL"
  shows "\<exists>s'. rpmsg_virtio_get_tx_payload_buffer ve s wait = Some (p + 16, cf_h2r_buf_size (rv_config s) - 16, s')
    \<and> tx_slot s' vq rm x fs cs \<and> rv_svq s' = rv_svq s \<and> rv_config s' = rv_config s
    \<and> rv_shbuf_io s' = rv_shbuf_io s \<and> driver ve s' \<and> \<not> rd_lock s'"
proof -
  obtain st where st: "virtio_get_status (ve_func ve) (Some (rv_vdev s)) = Some (0, Some st)"
    "st AND VIRTIO_CONFIG_STATUS_DRIVER_OK \<noteq> 0" and lock: "\<not> rd_lock s" and slot: "tx_slot s vq rm x fs cs"
    using ready by (auto simp: tx_ready_def)
  obtain s2 where s2: "rpmsg_virtio_get_tx_buffer ve 0 0 (s\<lparr>rd_lock := True\<rparr>) = Some (p, cf_h2r_buf_size (rv_config s), 0, s2)"
    "get_vq (rv_svq s) s2 = Some (vq, rm)" "rv_config s2 = rv_config s" "rv_svq s2 = rv_svq s"
    "rv_shbuf_io s2 = rv_shbuf_io s" "driver ve s2"
    using get_tx_fresh [OF ready] by blast
  have loop: "tx_wait_loop ve t 0 0 s = Some (p, cf_h2r_buf_size (rv_config s), 0, metal_mutex_release s2)" for t
    using lock s2(1) p by (subst tx_wait_loop.simps) (simp add: metal_mutex_acquire_def)
  let ?s3 = "(metal_mutex_release s2)\<lparr>rv_mem := RPMSG_BUF_HELD_INC p (set_reserved p 0 (rv_mem (metal_mutex_release s2)))\<rparr>"
  have "rpmsg_virtio_get_tx_payload_buffer ve s wait = Some (p + 16, cf_h2r_buf_size (rv_config s) - 16, ?s3)"
    using st loop p by (simp add: rpmsg_virtio_get_tx_payload_buffer_def RPMSG_LOCATE_DATA_def)
  moreover have "tx_slot ?s3 vq rm x fs cs"
    using slot s2(2,4) by (simp add: tx_slot_def get_vq_def metal_mutex_release_def)
  ultimately show ?thesis
    using s2 by (intro exI [of _ ?s3]) (simp add: metal_mutex_release_def driver_def)
qed

section \<open>The message on the ring\<close>

lemma send_ok:
  assumes ready: "tx_ready ve s vq rm x fs cs p" and io: "rv_shbuf_io s = Some io"
    and inside: "buffer_in io p (unat (cf_h2r_buf_size (rv_config s)))"
    and pa: "virtqueue_virt_to_phys vq p = Some pa" and len: "0 \<le> len" "nat len \<le> length bs"
    and n: "n = min (nat len) (unat (cf_h2r_buf_size (rv_config s)) - 16)"
  shows "\<exists>s' vq' rm'. rpmsg_virtio_send_offchannel_raw ve s src dst (Local bs) len wait = Some (int n, s')
    \<and> load_hdr (rv_mem s') p = \<lparr>h_src = src, h_dst = dst, h_reserved = 0, h_len = of_nat n, h_flags = 0\<rparr>
    \<and> mem_read (rv_mem s') (p + 16) n = take n bs
    \<and> get_vq (rv_svq s) s' = Some (vq', rm') \<and> driver_inv vq' (vm_desc rm') fs ([x] # cs)
    \<and> tx_offered vq rm x pa (cf_h2r_buf_size (rv_config s)) rm' \<and> book s' = book s"
proof -
  let ?sz = "cf_h2r_buf_size (rv_config s)"
  let ?h = "\<lparr>h_src = src, h_dst = dst, h_reserved = 0, h_len = of_nat n, h_flags = 0\<rparr>"
  have sz: "16 < unat ?sz" "unat ?sz < 2 ^ 31" using ready by (auto simp: tx_ready_def)
  have p: "p \<noteq> NULL" using inside by (simp add: buffer_in_def)
  obtain s1 where s1: "rpmsg_virtio_get_tx_payload_buffer ve s wait = Some (p + 16, ?sz - 16, s1)"
    "tx_slot s1 vq rm x fs cs" "rv_svq s1 = rv_svq s" "rv_config s1 = rv_config s" "rv_shbuf_io s1 = Some io"
    "driver ve s1" "\<not> rd_lock s1"
    using payload_fresh [OF ready p, of wait] io by auto
  have u: "unat (?sz - 16) = unat ?sz - 16" using sz by (simp add: unat_sub word_le_nat_alt)
  then have sn: "sint (?sz - 16) = int (unat ?sz - 16)" using sint_small [of "?sz - 16"] sz by simp
  have len1: "(if sint (?sz - 16) < len then sint (?sz - 16) else len) = int n" using sn n len(1) by auto
  have body: "buffer_in io (p + 16) (unat ?sz - 16)" using buffer_in_sub [OF inside, of 16 "unat ?sz - 16"] sz by simp
  have take: "length (take n bs) = n" using n len(2) by simp
  have payload: "block_write_from (rv_mem s1) io (metal_io_virt_to_offset io (p + 16)) (Local bs) n
      = Some (int n, mem_write (rv_mem s1) (p + 16) (take n bs))"
    using io_put_in [OF body, of "take n bs" "rv_mem s1"] n len(2) sz take by (simp add: block_write_from_def)
  let ?s2 = "s1\<lparr>rv_mem := mem_write (rv_mem s1) (p + 16) (take n bs)\<rparr>"
  have slot2: "tx_slot ?s2 vq rm x fs cs" using s1(2) by (simp add: tx_slot_def get_vq_def)
  have pre: "driver ve ?s2" "\<not> rd_lock ?s2" "rv_shbuf_io ?s2 = Some io" "16 \<le> unat ?sz"
    using s1 sz by (simp_all add: driver_def)
  obtain s' vq' rm' where s': "rpmsg_virtio_send_offchannel_nocopy ve ?s2 src dst (p + 16) (int n) = Some (int n, s')"
    "rv_mem s' = mem_write (rv_mem ?s2) p (hdr_bytes ?h)"
    "get_vq (rv_svq ?s2) s' = Some (vq', rm')" "driver_inv vq' (vm_desc rm') fs ([x] # cs)"
    "tx_offered vq rm x pa (cf_h2r_buf_size (rv_config ?s2)) rm'"
    using nocopy_ok [OF pre(1-3) inside pre(4) slot2 pa, of src dst "int n"] by auto
  have run: "rpmsg_virtio_send_offchannel_raw ve s src dst (Local bs) len wait = Some (int n, s')"
    using s1(1,5) p len1 payload s'(1) body
    by (simp add: rpmsg_virtio_send_offchannel_raw_def buffer_in_def)
  have hdr: "load_hdr (rv_mem s') p = ?h"
    using mem_read_write_same [of "hdr_bytes ?h" "rv_mem ?s2" p] s'(2) by (intro load_hdr_read) simp
  have "n < 2 ^ 31" using n sz by simp
  then have apart: "disjoint_span (p + 16) n p (length (hdr_bytes ?h))"
    using field_apart [of 0 16 16 n p] by simp
  have "mem_read (rv_mem s') (p + 16) n = mem_read (rv_mem ?s2) (p + 16) n"
    unfolding s'(2) by (rule mem_read_write_disjoint [OF apart])
  also have "\<dots> = take n bs"
    using mem_read_write_same [of "take n bs" "rv_mem s1" "p + 16"] take \<open>n < 2 ^ 31\<close> by simp
  finally show ?thesis using run hdr s'(3-5) s1(3,4) send_raw_book [OF run] by auto
qed

text \<open>
  C11: sending \<open>len\<close> bytes on a driver that can send takes the next pool buffer, and leaves in it the
  header with source, destination and length followed by the payload, cut to what the buffer holds;
  the buffer is offered to the remote through the next free descriptor, the queue keeps its
  invariant, the endpoints are untouched, and the number of bytes sent is returned.
\<close>

theorem send_puts_message:
  assumes ready: "tx_ready ve s vq rm x fs cs p" and io: "rv_shbuf_io s = Some io"
    and inside: "buffer_in io p (unat (cf_h2r_buf_size (rv_config s)))"
    and pa: "virtqueue_virt_to_phys vq p = Some pa" and len: "0 \<le> len" "nat len \<le> length bs"
    and n: "n = min (nat len) (unat (cf_h2r_buf_size (rv_config s)) - 16)"
  shows "\<exists>s' vq' rm'. rpmsg_virtio_send_offchannel_raw ve s src dst (Local bs) len wait = Some (int n, s')
    \<and> load_hdr (rv_mem s') p = \<lparr>h_src = src, h_dst = dst, h_reserved = 0, h_len = of_nat n, h_flags = 0\<rparr>
    \<and> mem_read (rv_mem s') (p + 16) n = take n bs
    \<and> get_vq (rv_svq s) s' = Some (vq', rm') \<and> driver_inv vq' (vm_desc rm') fs ([x] # cs)
    \<and> tx_offered vq rm x pa (cf_h2r_buf_size (rv_config s)) rm' \<and> book s' = book s"
  by (rule send_ok [OF assms])

section \<open>A concrete send\<close>

lemma demo_tx_slot: "tx_slot demo_rv demo_vq demo_rm 0 [1, 2, 3] []"
proof -
  have "unat (vq_nentries demo_vq) = 2 ^ 2" by (simp add: demo_vq_def)
  moreover have "get_vq (rv_svq demo_rv) demo_rv = Some (demo_vq, demo_rm)" by (simp add: get_vq_def demo_rv_def)
  moreover have "length (av_ring (vm_avail demo_rm)) = unat (vq_nentries demo_vq)"
    by (simp add: demo_rm_def demo_vq_def)
  ultimately show ?thesis using demo_inv unfolding tx_slot_def by blast
qed

lemma demo_tx_ready: "tx_ready demo_ve demo_rv demo_vq demo_rm 0 [1, 2, 3] [] 0x1100"
  using demo_tx_slot
  by (simp add: tx_ready_def driver_def VIRTIO_ROLE_IS_DRIVER_def demo_ve_def demo_rv_def demo_vdev_def default_build_def
      demo_table_def virtio_get_status_def) (simp add: demo_vq_def demo_rm_def virtqueue_zero_def)

theorem send_puts_message_witness:
  "\<exists>s' vq' rm'. rpmsg_virtio_send_offchannel_raw demo_ve demo_rv 1024 0x400 (Local [7, 8, 9]) 3 True = Some (3, s')
    \<and> mem_read (rv_mem s') 0x1110 3 = [7, 8, 9] \<and> get_vq (rv_svq demo_rv) s' = Some (vq', rm')
    \<and> tx_offered demo_vq demo_rm 0 0x4100 64 rm'"
proof -
  have io: "rv_shbuf_io demo_rv = Some demo_io" "cf_h2r_buf_size (rv_config demo_rv) = 64" by (simp_all add: demo_rv_def)
  have inside: "buffer_in demo_io 0x1100 (unat (cf_h2r_buf_size (rv_config demo_rv)))"
    by (simp add: io buffer_in_def demo_io_def no_ops_def)
  have pa: "virtqueue_virt_to_phys demo_vq 0x1100 = Some 0x4100"
    by (simp add: virtqueue_virt_to_phys_def demo_vq_def virtqueue_zero_def demo_io_def metal_io_virt_to_phys_def
        metal_io_virt_to_offset_def metal_io_phys_def no_ops_def)
  have n: "(3 :: nat) = min (nat 3) (unat (cf_h2r_buf_size (rv_config demo_rv)) - 16)" by (simp add: io)
  obtain s' vq' rm' where "rpmsg_virtio_send_offchannel_raw demo_ve demo_rv 1024 0x400 (Local [7, 8, 9]) 3 True = Some (int 3, s')"
    "mem_read (rv_mem s') (0x1100 + 16) 3 = take 3 [7, 8, 9]" "get_vq (rv_svq demo_rv) s' = Some (vq', rm')"
    "tx_offered demo_vq demo_rm 0 0x4100 (cf_h2r_buf_size (rv_config demo_rv)) rm'"
    using send_puts_message [OF demo_tx_ready io(1) inside pa _ _ n, of "[7, 8, 9]" 1024 "0x400" True] by auto
  then show ?thesis using io(2) by (intro exI [of _ s'] exI [of _ vq'] exI [of _ rm']) simp
qed

end
