(* ===== verification/Rpmsg_Recv.thy ===== *)
theory Rpmsg_Recv
  imports Rpmsg_Send Vq_Link
begin

unbundle bit_operations_syntax

text \<open>
  The receive side on the device (the remote processor): a filled buffer is routed by its
  destination address, handed to the callback of the endpoint with the payload, its length and its
  source, and goes back to the driver through the used ring.
\<close>

section \<open>The header after the stamp\<close>

lemma load32_apart:
  assumes "k + 4 \<le> j \<or> j + 4 \<le> k" and "k < 64" and "j < 64"
  shows "load32 (store32 m (a + of_nat k) w) (a + of_nat j) = load32 m (a + of_nat j)"
  using mem_read_write_disjoint [of "a + of_nat j" 4 "a + of_nat k" "le32 w" m] field_apart [of k 4 j 4 a] assms
  by (simp add: load32_def store32_def)

lemma load16_apart:
  assumes "k + 4 \<le> j \<or> j + 2 \<le> k" and "k < 64" and "j < 64"
  shows "load16 (store32 m (a + of_nat k) w) (a + of_nat j) = load16 m (a + of_nat j)"
  using mem_read_write_disjoint [of "a + of_nat j" 2 "a + of_nat k" "le32 w" m] field_apart [of k 4 j 2 a] assms
  by (simp add: load16_def store32_def)

lemma load_hdr_stamp: "load_hdr (set_reserved p w m) p = (load_hdr m p)\<lparr>h_reserved := w\<rparr>"
  using load32_apart [of 8 0 m p w] load32_apart [of 8 4 m p w] load16_apart [of 8 12 m p w] load16_apart [of 8 14 m p w]
  by (simp add: load_hdr_def set_reserved_def)

lemma load_hdr_hold: "load_hdr (RPMSG_BUF_HELD_INC p m) p = (load_hdr m p)\<lparr>h_reserved := load32 m (p + 8) + 0x10000\<rparr>"
  by (simp add: RPMSG_BUF_HELD_INC_def load_hdr_stamp)

section \<open>Returning a buffer\<close>

text \<open>The receive queue of a device that knows descriptor \<open>idx\<close>.\<close>

definition rx_slot :: "'t rpmsg_virtio_device \<Rightarrow> virtqueue \<Rightarrow> vring_mem \<Rightarrow> u16 \<Rightarrow> bool" where
  "rx_slot s vq rm idx = (get_vq (rv_rvq s) s = Some (vq, rm) \<and> \<not> vq_inuse vq \<and> idx < vq_nentries vq
     \<and> length (vm_desc rm) = unat (vq_nentries vq) \<and> length (us_ring (vm_used rm)) = unat (vq_nentries vq)
     \<and> (\<exists>e. unat (vq_nentries vq) = 2 ^ e))"

text \<open>\<open>rm'\<close> is \<open>rm\<close> with descriptor \<open>idx\<close> returned in the next used slot, with the full length of its buffer.\<close>

definition rx_returned :: "virtqueue \<Rightarrow> vring_mem \<Rightarrow> u16 \<Rightarrow> vring_mem \<Rightarrow> bool" where
  "rx_returned vq rm idx rm' = (vm_desc rm' = vm_desc rm \<and> vm_avail rm' = vm_avail rm
     \<and> us_idx (vm_used rm') = us_idx (vm_used rm) + 1
     \<and> us_ring (vm_used rm') = (us_ring (vm_used rm))[unat (us_idx (vm_used rm)) mod unat (vq_nentries vq)
          := \<lparr>ue_id = ucast idx, ue_len = d_len (vm_desc rm ! unat idx)\<rparr>])"

lemma device_not_driver: "device ve s \<Longrightarrow> \<not> driver ve s"
  by (auto simp: device_def driver_def VIRTIO_ROLE_IS_DEVICE_def VIRTIO_ROLE_IS_DRIVER_def)

lemma add_consumed_ok:
  assumes "rx_slot s vq rm idx"
  shows "\<exists>rm'. virtqueue_add_consumed_buffer b vq rm idx (d_len (vm_desc rm ! unat idx))
      = Some (VQUEUE_SUCCESS, vq\<lparr>vq_queued_cnt := vq_queued_cnt vq + 1\<rparr>, rm') \<and> rx_returned vq rm idx rm'"
proof -
  obtain e where e: "unat (vq_nentries vq) = 2 ^ e" "length (us_ring (vm_used rm)) = 2 ^ e" "\<not> vq_inuse vq"
    "\<not> vq_nentries vq \<le> idx"
    using assms by (auto simp: rx_slot_def)
  have slot: "ring_slot q i = unat i mod 2 ^ e" if "vq_nentries q = vq_nentries vq" for q i
    using ring_slot_mod [of q e i] e(1) that by simp
  have lt: "unat (us_idx (vm_used rm)) mod 2 ^ e < length (us_ring (vm_used rm))" using e(2) by simp
  show ?thesis
    using e lt by (simp add: virtqueue_add_consumed_buffer_def VQUEUE_BUSY_def VQUEUE_IDLE_def slot rx_returned_def Let_def)
qed

lemma release_device_ok:
  assumes dev: "device ve s" and slot: "rx_slot s vq rm idx" and held: "load32 (rv_mem s) (p + 8) = held_word idx 0"
  shows "\<exists>s' rm'. rpmsg_virtio_release_rx_buffer_nolock ve p s = Some s'
    \<and> get_vq (rv_rvq s) s' = Some (vq\<lparr>vq_queued_cnt := vq_queued_cnt vq + 1\<rparr>, rm')
    \<and> rx_returned vq rm idx rm' \<and> book s' = book s \<and> rv_rvq s' = rv_rvq s \<and> rv_mem s' = rv_mem s
    \<and> vd_role (rv_vdev s') = vd_role (rv_vdev s)"
proof -
  have get: "get_vq (rv_rvq s) s = Some (vq, rm)" and idx: "unat idx < length (vm_desc rm)" and idle: "\<not> vq_inuse vq"
    using slot by (auto simp: rx_slot_def word_less_nat_alt)
  obtain rm' where add: "virtqueue_add_consumed_buffer (ve_build ve) vq rm idx (d_len (vm_desc rm ! unat idx))
      = Some (VQUEUE_SUCCESS, vq\<lparr>vq_queued_cnt := vq_queued_cnt vq + 1\<rparr>, rm')" "rx_returned vq rm idx rm'"
    using add_consumed_ok [OF slot] by blast
  obtain s' where s': "put_vq (rv_rvq s) (vq\<lparr>vq_queued_cnt := vq_queued_cnt vq + 1\<rparr>) rm' s = Some s'"
    "get_vq (rv_rvq s) s' = Some (vq\<lparr>vq_queued_cnt := vq_queued_cnt vq + 1\<rparr>, rm')" "book s' = book s" "rv_rvq s' = rv_rvq s"
    "rv_mem s' = rv_mem s" "vd_role (rv_vdev s') = vd_role (rv_vdev s)"
    using put_vq_ok [OF get] by blast
  have "rpmsg_virtio_release_rx_buffer_nolock ve p s = Some s'"
    using held_index [OF held] get idx dev device_not_driver [OF dev] add(1) s'(1)
    by (simp add: rpmsg_virtio_release_rx_buffer_nolock_def virtqueue_get_buffer_length_def rpmsg_virtio_return_buffer_def)
  then show ?thesis using s' add(2) by (intro exI [of _ s'] exI [of _ rm']) simp
qed

section \<open>One message\<close>

text \<open>The state when the callback of the endpoint is about to be called: buffer stamped and held, endpoint held, lock free.\<close>

definition rx_taken :: "addr \<Rightarrow> u16 \<Rightarrow> addr \<Rightarrow> 't rpmsg_virtio_device \<Rightarrow> 't rpmsg_virtio_device" where
  "rx_taken p idx ept s = metal_mutex_release
     ((rpmsg_ept_incref ept s)\<lparr>rv_mem := RPMSG_BUF_HELD_INC p (set_reserved p (ucast idx) (rv_mem s))\<rparr>)"

lemma taken_held: "load32 (rv_mem (rx_taken p idx ept s)) (p + 8) = held_word idx 1"
  using holds_word [of 1 p idx "rv_mem s"]
  by (simp add: rx_taken_def metal_mutex_release_def rpmsg_ept_incref_def upd_ept_def)

lemma device_cong: "vd_role (rv_vdev s') = vd_role (rv_vdev s) \<Longrightarrow> device ve s' = device ve s"
  by (simp add: device_def VIRTIO_ROLE_IS_DEVICE_def)

lemma decref_ok:
  assumes "ept \<noteq> NULL \<Longrightarrow> ep_refcnt (rd_epts s ept) \<noteq> 1"
  shows "rpmsg_ept_decref app ept s
    = Some (if ept = NULL then s else upd_ept ept (\<lambda>e. e\<lparr>ep_refcnt := ep_refcnt e - 1\<rparr>) s)"
  using assms by (auto simp: rpmsg_ept_decref_def upd_ept_def Let_def)

lemma rx_one_ok:
  assumes route: "rpmsg_get_ept_from_addr s (h_dst (load_hdr (rv_mem s) p)) = Some ept"
    and deliver: "rx_deliver ve app ept p (rx_taken p idx ept s) = Some s4"
    and s4: "device ve s4" "\<not> rd_lock s4" "rx_slot s4 vq rm idx" "load32 (rv_mem s4) (p + 8) = held_word idx 1"
    and ref: "ept \<noteq> NULL \<Longrightarrow> ep_refcnt (rd_epts s4 ept) \<noteq> 1"
  shows "\<exists>s' c rm'. rx_one ve app p idx s = Some (ve_rx_empty_notify ve, s')
    \<and> get_vq (rv_rvq s4) s' = Some (vq\<lparr>vq_queued_cnt := c\<rparr>, rm') \<and> rx_returned vq rm idx rm'
    \<and> book s' = book (if ept = NULL then s4 else upd_ept ept (\<lambda>e. e\<lparr>ep_refcnt := ep_refcnt e - 1\<rparr>) s4)
    \<and> rv_rvq s' = rv_rvq s4 \<and> rv_mem s' = set_reserved p (ucast idx) (rv_mem s4) \<and> device ve s'"
proof -
  let ?u = "\<lambda>s :: 'a rpmsg_virtio_device. if ept = NULL then s else upd_ept ept (\<lambda>e. e\<lparr>ep_refcnt := ep_refcnt e - 1\<rparr>) s"
  let ?s5 = "s4\<lparr>rd_lock := True\<rparr>"
  define s6 where "s6 = ?u ?s5"
  let ?s7 = "s6\<lparr>rv_mem := set_reserved p (ucast idx) (rv_mem s4)\<rparr>"
  have route': "rpmsg_get_ept_from_addr (s\<lparr>rv_mem := set_reserved p (ucast idx) (rv_mem s)\<rparr>)
      (h_dst (load_hdr (set_reserved p (ucast idx) (rv_mem s)) p)) = Some ept"
    using route by (simp add: load_hdr_stamp rpmsg_get_ept_from_addr_def rpmsg_get_endpoint_def)
  have taken: "metal_mutex_release ((rpmsg_ept_incref ept (s\<lparr>rv_mem := set_reserved p (ucast idx) (rv_mem s)\<rparr>))
      \<lparr>rv_mem := RPMSG_BUF_HELD_INC p (rv_mem (rpmsg_ept_incref ept (s\<lparr>rv_mem := set_reserved p (ucast idx) (rv_mem s)\<rparr>)))\<rparr>)
      = rx_taken p idx ept s"
    by (simp add: rx_taken_def rpmsg_ept_incref_def upd_ept_def)
  have acq: "metal_mutex_acquire s4 = Some ?s5" using s4(2) by (simp add: metal_mutex_acquire_def)
  have dec: "rpmsg_ept_decref app ept ?s5 = Some s6" unfolding s6_def using ref by (intro decref_ok) simp
  have mem: "rv_mem s6 = rv_mem s4" by (simp add: s6_def upd_ept_def)
  have test: "rpmsg_virtio_buf_held_dec_test p (rv_mem s4) = (True, set_reserved p (ucast idx) (rv_mem s4))"
    using held_dec_test [of "rv_mem s4" p idx 0] s4(4) by (simp add: held_word_zero)
  have slot7: "rx_slot ?s7 vq rm idx" and rvq7: "rv_rvq ?s7 = rv_rvq s4" and dev7: "device ve ?s7"
    using s4(1,3) by (auto simp: s6_def rx_slot_def get_vq_def upd_ept_def device_def)
  have held7: "load32 (rv_mem ?s7) (p + 8) = held_word idx 0" by (simp add: set_reserved_def held_word_zero)
  obtain s8 rm' where s8: "rpmsg_virtio_release_rx_buffer_nolock ve p ?s7 = Some s8"
    "get_vq (rv_rvq ?s7) s8 = Some (vq\<lparr>vq_queued_cnt := vq_queued_cnt vq + 1\<rparr>, rm')" "rx_returned vq rm idx rm'"
    "book s8 = book ?s7" "rv_rvq s8 = rv_rvq ?s7" "rv_mem s8 = rv_mem ?s7" "vd_role (rv_vdev s8) = vd_role (rv_vdev ?s7)"
    using release_device_ok [OF dev7 slot7 held7] by blast
  have idle: "\<not> vq_inuse vq" using s4(3) by (simp add: rx_slot_def)
  have get8: "get_vq (rv_rvq s8) s8 = Some (vq\<lparr>vq_queued_cnt := vq_queued_cnt vq + 1\<rparr>, rm')" using s8(2,5) by simp
  obtain k s9 where s9: "rv_kick ve (rv_rvq s8) s8 = Some (k, s9)"
    "get_vq (rv_rvq s8) s9 = Some (vq\<lparr>vq_queued_cnt := 0\<rparr>, rm')" "book s9 = book s8" "rv_mem s9 = rv_mem s8"
    "rv_rvq s9 = rv_rvq s8" "vd_role (rv_vdev s9) = vd_role (rv_vdev s8)"
    using kick_ok [OF get8, of ve] idle by auto
  let ?s' = "metal_mutex_release (if ve_rx_empty_notify ve then s8 else s9)"
  have run: "rx_one ve app p idx s = Some (ve_rx_empty_notify ve, ?s')"
    using route' taken deliver acq dec mem test s8(1) s9(1) by (simp add: rx_one_def)
  have bk: "book ?s' = book (?u s4)"
  proof -
    have "book (if ve_rx_empty_notify ve then s8 else s9) = book s6" using s8(4) s9(3) by simp
    moreover have "book (s6\<lparr>rd_lock := False\<rparr>) = book (?u s4)" using s4(2) by (simp add: s6_def upd_ept_def rpmsg_device.defs)
    ultimately show ?thesis using book_lock by (metis metal_mutex_release_def)
  qed
  have "get_vq (rv_rvq s4) ?s' = Some (vq\<lparr>vq_queued_cnt := if ve_rx_empty_notify ve then vq_queued_cnt vq + 1 else 0\<rparr>, rm')"
    using s8(2,5) s9(2) rvq7 by (simp add: metal_mutex_release_def get_vq_def)
  moreover have "rv_rvq ?s' = rv_rvq s4" "rv_mem ?s' = set_reserved p (ucast idx) (rv_mem s4)"
    using s8(5,6) s9(4,5) rvq7 by (simp_all add: metal_mutex_release_def)
  moreover have "device ve ?s'"
    using dev7 device_cong [of ?s' ?s7] s8(7) s9(6) by (simp add: metal_mutex_release_def)
  ultimately show ?thesis using run s8(3) bk by blast
qed


text \<open>The same with the address of an unknown sender learned; here the callback is called.\<close>

definition rx_call :: "addr \<Rightarrow> u16 \<Rightarrow> addr \<Rightarrow> 't rpmsg_virtio_device \<Rightarrow> 't rpmsg_virtio_device" where
  "rx_call p idx ept s =
     (if ep_dest_addr (rd_epts s ept) = RPMSG_ADDR_ANY
      then upd_ept ept (\<lambda>e. e\<lparr>ep_dest_addr := h_src (load_hdr (rv_mem s) p)\<rparr>) (rx_taken p idx ept s)
      else rx_taken p idx ept s)"

text \<open>
  What a callback keeps that neither holds the buffer at \<open>p\<close> nor touches the endpoints or the receive
  queue. It may send, and write to memory other than the header word.
\<close>

definition rx_keeps :: "addr \<Rightarrow> 't rpmsg_virtio_device \<Rightarrow> 't rpmsg_virtio_device \<Rightarrow> bool" where
  "rx_keeps p s1 s2 = (book s2 = book s1 \<and> rv_rvq s2 = rv_rvq s1 \<and> get_vq (rv_rvq s1) s2 = get_vq (rv_rvq s1) s1
     \<and> vd_role (rv_vdev s2) = vd_role (rv_vdev s1) \<and> load32 (rv_mem s2) (p + 8) = load32 (rv_mem s1) (p + 8))"

lemma load_hdr_taken:
  "load_hdr (rv_mem (rx_taken p idx ept s)) p = (load_hdr (rv_mem s) p)\<lparr>h_reserved := held_word idx 1\<rparr>"
proof -
  have "load32 (set_reserved p (ucast idx) (rv_mem s)) (p + 8) + 0x10000 = held_word idx 1"
    using held_word_inc [of idx 0] by (simp add: set_reserved_def held_word_zero)
  then show ?thesis
    by (simp add: rx_taken_def metal_mutex_release_def rpmsg_ept_incref_def upd_ept_def load_hdr_hold load_hdr_stamp)
qed

lemma deliver_ok:
  assumes "ept \<noteq> NULL" and "ep_cb (rd_epts s ept) \<noteq> ve_ns_callback ve"
    and "app_ept_cb app (ep_cb (rd_epts s ept)) ept (p + 16) (unat (h_len (load_hdr (rv_mem s) p)))
           (h_src (load_hdr (rv_mem s) p)) (ep_priv (rd_epts s ept)) (rx_call p idx ept s) = Some (r, s2)" and "0 \<le> r"
  shows "rx_deliver ve app ept p (rx_taken p idx ept s) = Some s2"
proof -
  have e: "rd_epts (rx_taken p idx ept s) ept = (rd_epts s ept)\<lparr>ep_refcnt := ep_refcnt (rd_epts s ept) + 1\<rparr>"
    using assms(1) by (simp add: rx_taken_def metal_mutex_release_def rpmsg_ept_incref_def upd_ept_def)
  show ?thesis
    using assms e load_hdr_taken [of p idx ept s]
    by (simp add: rx_deliver_def rx_call_def upd_ept_def RPMSG_LOCATE_DATA_def split: if_splits)
qed

lemma call_frame:
  "get_vq q (rx_call p idx ept s) = get_vq q s" "get_vq q (rx_taken p idx ept s) = get_vq q s"
  "rv_rvq (rx_call p idx ept s) = rv_rvq s" "rv_rvq (rx_taken p idx ept s) = rv_rvq s"
  "rv_vdev (rx_call p idx ept s) = rv_vdev s" "rv_vdev (rx_taken p idx ept s) = rv_vdev s"
  "rv_mem (rx_call p idx ept s) = rv_mem (rx_taken p idx ept s)"
  "\<not> rd_lock (rx_call p idx ept s)" "\<not> rd_lock (rx_taken p idx ept s)"
  by (simp_all add: rx_call_def rx_taken_def metal_mutex_release_def rpmsg_ept_incref_def upd_ept_def get_vq_def)


lemma keeps_slot:
  assumes "rx_keeps p (rx_call p idx ept s) s2" and "rx_slot s vq rm idx" and "device ve s"
  shows "rx_slot s2 vq rm idx" "device ve s2" "load32 (rv_mem s2) (p + 8) = held_word idx 1" "\<not> rd_lock s2"
    "book s2 = book (rx_call p idx ept s)" "rv_rvq s2 = rv_rvq s"
proof -
  have k: "book s2 = book (rx_call p idx ept s)" "rv_rvq s2 = rv_rvq s" "get_vq (rv_rvq s) s2 = get_vq (rv_rvq s) s"
    "vd_role (rv_vdev s2) = vd_role (rv_vdev s)" "load32 (rv_mem s2) (p + 8) = held_word idx 1"
    using assms(1) taken_held [of p idx ept s] by (simp_all add: rx_keeps_def call_frame)
  show "rx_slot s2 vq rm idx" using assms(2) k by (simp add: rx_slot_def)
  show "device ve s2" using assms(3) device_cong [OF k(4)] by simp
  show "\<not> rd_lock s2" using book_eqD [OF k(1)] call_frame(8) by simp
  show "load32 (rv_mem s2) (p + 8) = held_word idx 1" "book s2 = book (rx_call p idx ept s)" "rv_rvq s2 = rv_rvq s"
    by (fact k)+
qed

lemma rx_one_delivers:
  assumes dev: "device ve s" and slot: "rx_slot s vq rm idx"
    and route: "rpmsg_get_ept_from_addr s (h_dst (load_hdr (rv_mem s) p)) = Some ept" "ept \<noteq> NULL"
    and e: "ep_cb (rd_epts s ept) \<noteq> ve_ns_callback ve" "ep_refcnt (rd_epts s ept) \<noteq> 0"
    and call: "app_ept_cb app (ep_cb (rd_epts s ept)) ept (p + 16) (unat (h_len (load_hdr (rv_mem s) p)))
           (h_src (load_hdr (rv_mem s) p)) (ep_priv (rd_epts s ept)) (rx_call p idx ept s) = Some (r, s2)" "0 \<le> r"
    and keeps: "rx_keeps p (rx_call p idx ept s) s2"
  shows "\<exists>s' c rm'. rx_one ve app p idx s = Some (ve_rx_empty_notify ve, s')
    \<and> get_vq (rv_rvq s) s' = Some (vq\<lparr>vq_queued_cnt := c\<rparr>, rm') \<and> rx_returned vq rm idx rm'
    \<and> \<not> rd_lock s' \<and> rd_endpoints s' = rd_endpoints s
    \<and> rd_epts s' = (rd_epts s)(ept := (rd_epts s ept)\<lparr>ep_dest_addr :=
          if ep_dest_addr (rd_epts s ept) = RPMSG_ADDR_ANY then h_src (load_hdr (rv_mem s) p) else ep_dest_addr (rd_epts s ept)\<rparr>)
    \<and> rv_rvq s' = rv_rvq s \<and> rv_mem s' = set_reserved p (ucast idx) (rv_mem s2) \<and> device ve s'"
proof -
  note k = keeps_slot [OF keeps slot dev]
  note bk = book_eqD [OF k(5)]
  have cnt: "ep_refcnt (rd_epts s2 ept) = ep_refcnt (rd_epts s ept) + 1"
    using route(2) by (simp add: bk rx_call_def rx_taken_def metal_mutex_release_def rpmsg_ept_incref_def upd_ept_def)
  then have ref: "ep_refcnt (rd_epts s2 ept) \<noteq> 1" using e(2) by simp
  obtain s' c rm' where s': "rx_one ve app p idx s = Some (ve_rx_empty_notify ve, s')"
    "get_vq (rv_rvq s2) s' = Some (vq\<lparr>vq_queued_cnt := c\<rparr>, rm')" "rx_returned vq rm idx rm'"
    "book s' = book (upd_ept ept (\<lambda>e. e\<lparr>ep_refcnt := ep_refcnt e - 1\<rparr>) s2)"
    "rv_rvq s' = rv_rvq s2" "rv_mem s' = set_reserved p (ucast idx) (rv_mem s2)" "device ve s'"
    using rx_one_ok [OF route(1) deliver_ok [OF route(2) e(1) call] k(2,4,1,3) ref] route(2) by auto
  note bk' = book_eqD [OF s'(4)]
  have "rd_epts s' = (rd_epts s)(ept := (rd_epts s ept)\<lparr>ep_dest_addr :=
          if ep_dest_addr (rd_epts s ept) = RPMSG_ADDR_ANY then h_src (load_hdr (rv_mem s) p) else ep_dest_addr (rd_epts s ept)\<rparr>)"
    using route(2)
    by (simp add: bk bk' rx_call_def rx_taken_def metal_mutex_release_def rpmsg_ept_incref_def upd_ept_def)
  moreover have "\<not> rd_lock s'" "rd_endpoints s' = rd_endpoints s"
    using k(4) by (simp_all add: bk bk' upd_ept_def rx_call_def rx_taken_def metal_mutex_release_def rpmsg_ept_incref_def)
  ultimately show ?thesis using s' k(6) by auto
qed

text \<open>A message for an address nobody has is dropped, and its buffer goes back all the same.\<close>

lemma rx_one_drops:
  assumes dev: "device ve s" and slot: "rx_slot s vq rm idx"
    and route: "rpmsg_get_ept_from_addr s (h_dst (load_hdr (rv_mem s) p)) = Some NULL"
  shows "\<exists>s' c rm'. rx_one ve app p idx s = Some (ve_rx_empty_notify ve, s')
    \<and> get_vq (rv_rvq s) s' = Some (vq\<lparr>vq_queued_cnt := c\<rparr>, rm') \<and> rx_returned vq rm idx rm'
    \<and> \<not> rd_lock s' \<and> rd_endpoints s' = rd_endpoints s \<and> rd_epts s' = rd_epts s \<and> rv_rvq s' = rv_rvq s \<and> device ve s'"
proof -
  let ?t = "rx_taken p idx NULL s"
  have del: "rx_deliver ve app NULL p ?t = Some ?t" by (simp add: rx_deliver_def)
  have t: "device ve ?t" "\<not> rd_lock ?t" "rx_slot ?t vq rm idx"
    using dev slot by (simp_all add: rx_slot_def call_frame device_def)
  have bk: "rd_endpoints ?t = rd_endpoints s" "rd_epts ?t = rd_epts s"
    by (simp_all add: rx_taken_def metal_mutex_release_def rpmsg_ept_incref_def)
  obtain s' c rm' where s': "rx_one ve app p idx s = Some (ve_rx_empty_notify ve, s')"
    "get_vq (rv_rvq ?t) s' = Some (vq\<lparr>vq_queued_cnt := c\<rparr>, rm')" "rx_returned vq rm idx rm'" "book s' = book ?t"
    "rv_rvq s' = rv_rvq ?t" "device ve s'"
    using rx_one_ok [OF route del t taken_held] by auto
  then show ?thesis using book_eqD [OF s'(4)] t(2) bk by (auto simp: call_frame)
qed


section \<open>The whole callback\<close>

text \<open>
  The receive queue is sound: the entries the driver has offered name descriptors of the table
  whose buffers can be addressed, and every registered endpoint is alive and of the application.
\<close>

definition rx_ready :: "'t venv \<Rightarrow> 't rpmsg_virtio_device \<Rightarrow> virtqueue \<Rightarrow> vring_mem \<Rightarrow> bool" where
  "rx_ready ve s vq rm = (device ve s \<and> \<not> rd_lock s \<and> get_vq (rv_rvq s) s = Some (vq, rm) \<and> \<not> vq_inuse vq
     \<and> length (vm_desc rm) = unat (vq_nentries vq) \<and> length (us_ring (vm_used rm)) = unat (vq_nentries vq)
     \<and> length (av_ring (vm_avail rm)) = unat (vq_nentries vq)
     \<and> (\<exists>e. unat (vq_nentries vq) = 2 ^ e) \<and> unat (vq_nentries vq) \<le> 32768
     \<and> (\<forall>x \<in> set (av_ring (vm_avail rm)). x < vq_nentries vq
          \<and> (\<exists>p. virtqueue_phys_to_virt vq (d_addr (vm_desc rm ! unat x)) = Some p \<and> p \<noteq> NULL))
     \<and> (\<forall>q \<in> set (rd_endpoints s). ep_refcnt (rd_epts s q) \<noteq> 0 \<and> ep_cb (rd_epts s q) \<noteq> ve_ns_callback ve))"

text \<open>The callbacks of the application return, accept the message and do not hold its buffer.\<close>

definition rx_quiet :: "'t rpmsg_virtio_device app \<Rightarrow> bool" where
  "rx_quiet app = (\<forall>cb ept p len src priv s. \<exists>r s2.
     app_ept_cb app cb ept (p + 16) len src priv s = Some (r, s2) \<and> 0 \<le> r \<and> rx_keeps p s s2)"

lemma route_total: "\<exists>q. rpmsg_get_ept_from_addr s a = Some q \<and> (q = NULL \<or> q \<in> set (rd_endpoints s))"
proof -
  have "\<exists>q. get_endpoint_from epts None a d ps = Some q \<and> (q = NULL \<or> q \<in> set ps)" for epts d ps
    by (induction ps) (auto simp: Let_def)
  then show ?thesis by (simp add: rpmsg_get_ept_from_addr_def rpmsg_get_endpoint_def)
qed

text \<open>What a round of the loop needs of the queue, whatever the entries of the ring are.\<close>

definition rx_base :: "'t venv \<Rightarrow> 't rpmsg_virtio_device \<Rightarrow> virtqueue \<Rightarrow> vring_mem \<Rightarrow> bool" where
  "rx_base ve s vq rm = (device ve s \<and> \<not> rd_lock s \<and> get_vq (rv_rvq s) s = Some (vq, rm) \<and> \<not> vq_inuse vq
     \<and> length (vm_desc rm) = unat (vq_nentries vq) \<and> length (us_ring (vm_used rm)) = unat (vq_nentries vq)
     \<and> length (av_ring (vm_avail rm)) = unat (vq_nentries vq)
     \<and> (\<exists>e. unat (vq_nentries vq) = 2 ^ e) \<and> unat (vq_nentries vq) \<le> 32768)"

lemma ready_base: "rx_ready ve s vq rm \<Longrightarrow> rx_base ve s vq rm"
  by (auto simp: rx_ready_def rx_base_def)

lemma get_rx_at:
  assumes base: "rx_base ve s vq rm" and ne: "vq_available_idx vq \<noteq> av_idx (vm_avail rm)"
    and x: "x = av_ring (vm_avail rm) ! (unat (vq_available_idx vq) mod unat (vq_nentries vq))" "x < vq_nentries vq"
    and p: "virtqueue_phys_to_virt vq (d_addr (vm_desc rm ! unat x)) = Some p"
  shows "\<exists>s2. rpmsg_virtio_get_rx_buffer ve (s\<lparr>rd_lock := True\<rparr>) = Some (p, d_len (vm_desc rm ! unat x), x, s2)
    \<and> get_vq (rv_rvq s) s2 = Some (vq\<lparr>vq_available_idx := vq_available_idx vq + 1\<rparr>, rm)
    \<and> book s2 = book (s\<lparr>rd_lock := True\<rparr>) \<and> rv_rvq s2 = rv_rvq s \<and> device ve s2 \<and> rv_mem s2 = rv_mem s"
proof -
  let ?s = "s\<lparr>rd_lock := True\<rparr>"
  obtain e where r: "device ve ?s" "get_vq (rv_rvq ?s) ?s = Some (vq, rm)" "\<not> vq_inuse vq" "unat (vq_nentries vq) = 2 ^ e"
    "length (av_ring (vm_avail rm)) = 2 ^ e" "length (vm_desc rm) = 2 ^ e"
    using base by (auto simp: rx_base_def get_vq_def device_def)
  have ux: "unat x < 2 ^ e" using x(2) r(4) by (simp add: word_less_nat_alt)
  have slot: "ring_slot q i = unat i mod 2 ^ e" if "vq_nentries q = vq_nentries vq" for q i
    using ring_slot_mod [of q e i] r(4) that by simp
  obtain io where pv: "vq_shm_io vq = Some io" "metal_io_phys_to_virt io (d_addr (vm_desc rm ! unat x)) = Some p"
    using p by (auto simp: virtqueue_phys_to_virt_def opt_simps)
  have "virtqueue_get_available_buffer (ve_build ve) vq rm
      = Some (Some \<lparr>ar_buffer = p, ar_idx = x, ar_len = d_len (vm_desc rm ! unat x)\<rparr>, vq\<lparr>vq_available_idx := vq_available_idx vq + 1\<rparr>)"
    using ne r ux pv slot x(1) [symmetric]
    by (simp add: virtqueue_get_available_buffer_def VQUEUE_BUSY_def VQUEUE_IDLE_def Let_def virtqueue_get_buffer_addr_def
        virtqueue_get_buffer_length_def virtqueue_phys_to_virt_def)
  moreover obtain s2 where s2: "put_vq (rv_rvq ?s) (vq\<lparr>vq_available_idx := vq_available_idx vq + 1\<rparr>) rm ?s = Some s2"
    "get_vq (rv_rvq ?s) s2 = Some (vq\<lparr>vq_available_idx := vq_available_idx vq + 1\<rparr>, rm)" "book s2 = book ?s" "rv_rvq s2 = rv_rvq ?s"
    "rv_mem s2 = rv_mem ?s" "vd_role (rv_vdev s2) = vd_role (rv_vdev ?s)"
    using put_vq_ok [OF r(2)] by blast
  ultimately have "rpmsg_virtio_get_rx_buffer ve ?s = Some (p, d_len (vm_desc rm ! unat x), x, s2)"
    using r(1,2) device_not_driver [OF r(1)] by (simp add: rpmsg_virtio_get_rx_buffer_def)
  then show ?thesis using s2 r(1) device_cong [OF s2(6)] by auto
qed

lemma get_rx_ok:
  assumes ready: "rx_ready ve s vq rm" and ne: "vq_available_idx vq \<noteq> av_idx (vm_avail rm)"
    and x: "x = av_ring (vm_avail rm) ! (unat (vq_available_idx vq) mod unat (vq_nentries vq))"
  shows "\<exists>p len s2. rpmsg_virtio_get_rx_buffer ve (s\<lparr>rd_lock := True\<rparr>) = Some (p, len, x, s2) \<and> p \<noteq> NULL
    \<and> get_vq (rv_rvq s) s2 = Some (vq\<lparr>vq_available_idx := vq_available_idx vq + 1\<rparr>, rm)
    \<and> book s2 = book (s\<lparr>rd_lock := True\<rparr>) \<and> rv_rvq s2 = rv_rvq s \<and> device ve s2"
proof -
  have "unat (vq_nentries vq) \<noteq> 0" using ready by (auto simp: rx_ready_def)
  then have "x \<in> set (av_ring (vm_avail rm))" using ready x by (auto simp: rx_ready_def)
  then obtain p where p: "virtqueue_phys_to_virt vq (d_addr (vm_desc rm ! unat x)) = Some p" "p \<noteq> NULL" "x < vq_nentries vq"
    using ready by (auto simp: rx_ready_def)
  then show ?thesis using get_rx_at [OF ready_base [OF ready] ne x p(3,1)] by blast
qed


lemma ready_next:
  assumes ready: "rx_ready ve s vq rm" and dev: "device ve s'" "\<not> rd_lock s'" "rv_rvq s' = rv_rvq s"
    and get: "get_vq (rv_rvq s) s' = Some (vq\<lparr>vq_available_idx := a, vq_queued_cnt := c\<rparr>, rm')"
    and ret: "rx_returned vq rm x rm'"
    and epts: "rd_endpoints s' = rd_endpoints s"
      "\<And>q. q \<in> set (rd_endpoints s) \<Longrightarrow> ep_refcnt (rd_epts s' q) = ep_refcnt (rd_epts s q) \<and> ep_cb (rd_epts s' q) = ep_cb (rd_epts s q)"
  shows "rx_ready ve s' (vq\<lparr>vq_available_idx := a, vq_queued_cnt := c\<rparr>) rm'"
  using ready dev get ret epts
  by (simp add: rx_ready_def rx_returned_def virtqueue_phys_to_virt_def)

lemma rx_step:
  assumes ready: "rx_ready ve s vq rm" and quiet: "rx_quiet app" and ne: "vq_available_idx vq \<noteq> av_idx (vm_avail rm)"
    and x: "x = av_ring (vm_avail rm) ! (unat (vq_available_idx vq) mod unat (vq_nentries vq))"
  shows "\<exists>p len s2 rel s3 c rm'. rpmsg_virtio_get_rx_buffer ve (s\<lparr>rd_lock := True\<rparr>) = Some (p, len, x, s2) \<and> p \<noteq> NULL
    \<and> rx_one ve app p x s2 = Some (rel, s3) \<and> rv_rvq s3 = rv_rvq s \<and> rd_endpoints s3 = rd_endpoints s
    \<and> rx_returned vq rm x rm'
    \<and> rx_ready ve s3 (vq\<lparr>vq_available_idx := vq_available_idx vq + 1, vq_queued_cnt := c\<rparr>) rm'"
proof -
  let ?vq = "vq\<lparr>vq_available_idx := vq_available_idx vq + 1\<rparr>"
  obtain p len s2 where s2: "rpmsg_virtio_get_rx_buffer ve (s\<lparr>rd_lock := True\<rparr>) = Some (p, len, x, s2)" "p \<noteq> NULL"
    "get_vq (rv_rvq s) s2 = Some (?vq, rm)" "book s2 = book (s\<lparr>rd_lock := True\<rparr>)" "rv_rvq s2 = rv_rvq s" "device ve s2"
    using get_rx_ok [OF ready ne x] by blast
  note bk = book_eqD [OF s2(4), simplified]
  have "unat (vq_nentries vq) \<noteq> 0" using ready by (auto simp: rx_ready_def)
  then have "x \<in> set (av_ring (vm_avail rm))" using ready x by (auto simp: rx_ready_def)
  then have slot: "rx_slot s2 ?vq rm x" using ready s2(3,5) by (auto simp: rx_slot_def rx_ready_def)
  obtain q where q: "rpmsg_get_ept_from_addr s2 (h_dst (load_hdr (rv_mem s2) p)) = Some q" "q = NULL \<or> q \<in> set (rd_endpoints s2)"
    using route_total by blast
  have "\<exists>rel s3 c rm'. rx_one ve app p x s2 = Some (rel, s3)
    \<and> get_vq (rv_rvq s2) s3 = Some (?vq\<lparr>vq_queued_cnt := c\<rparr>, rm') \<and> rx_returned ?vq rm x rm' \<and> \<not> rd_lock s3
    \<and> rd_endpoints s3 = rd_endpoints s2 \<and> rv_rvq s3 = rv_rvq s2 \<and> device ve s3
    \<and> (\<forall>y. ep_refcnt (rd_epts s3 y) = ep_refcnt (rd_epts s2 y) \<and> ep_cb (rd_epts s3 y) = ep_cb (rd_epts s2 y))"
  proof (cases "q = NULL")
    case True
    then show ?thesis using rx_one_drops [OF s2(6) slot q(1) [unfolded True], of app] by metis
  next
    case False
    then have live: "ep_refcnt (rd_epts s2 q) \<noteq> 0" "ep_cb (rd_epts s2 q) \<noteq> ve_ns_callback ve"
      using q(2) ready by (auto simp: rx_ready_def bk)
    obtain r t where call: "app_ept_cb app (ep_cb (rd_epts s2 q)) q (p + 16) (unat (h_len (load_hdr (rv_mem s2) p)))
           (h_src (load_hdr (rv_mem s2) p)) (ep_priv (rd_epts s2 q)) (rx_call p x q s2) = Some (r, t)" "0 \<le> r"
      "rx_keeps p (rx_call p x q s2) t"
      using quiet unfolding rx_quiet_def by blast
    obtain s3 c rm' where s3: "rx_one ve app p x s2 = Some (ve_rx_empty_notify ve, s3)"
      "get_vq (rv_rvq s2) s3 = Some (?vq\<lparr>vq_queued_cnt := c\<rparr>, rm')" "rx_returned ?vq rm x rm'" "\<not> rd_lock s3"
      "rd_endpoints s3 = rd_endpoints s2" "rv_rvq s3 = rv_rvq s2" "device ve s3"
      "\<And>y. ep_refcnt (rd_epts s3 y) = ep_refcnt (rd_epts s2 y) \<and> ep_cb (rd_epts s3 y) = ep_cb (rd_epts s2 y)"
      using rx_one_delivers [OF s2(6) slot q(1) False live(2,1) call] by auto
    then show ?thesis by blast
  qed
  then obtain rel s3 c rm' where s3: "rx_one ve app p x s2 = Some (rel, s3)"
    "get_vq (rv_rvq s2) s3 = Some (?vq\<lparr>vq_queued_cnt := c\<rparr>, rm')" "rx_returned ?vq rm x rm'" "\<not> rd_lock s3"
    "rd_endpoints s3 = rd_endpoints s2" "rv_rvq s3 = rv_rvq s2" "device ve s3"
    "\<And>y. ep_refcnt (rd_epts s3 y) = ep_refcnt (rd_epts s2 y) \<and> ep_cb (rd_epts s3 y) = ep_cb (rd_epts s2 y)"
    by blast
  have ret: "rx_returned vq rm x rm'" using s3(3) by (simp add: rx_returned_def)
  have "rx_ready ve s3 (vq\<lparr>vq_available_idx := vq_available_idx vq + 1, vq_queued_cnt := c\<rparr>) rm'"
    using s2(5) s3 bk by (intro ready_next [OF ready s3(7,4) _ _ ret]) simp_all
  then show ?thesis using s2 s3 ret bk by auto
qed


text \<open>The entry a device puts on the used ring for descriptor \<open>x\<close>.\<close>

definition used_for :: "vring_mem \<Rightarrow> u16 \<Rightarrow> vring_used_elem" where
  "used_for rm x = \<lparr>ue_id = ucast x, ue_len = d_len (vm_desc rm ! unat x)\<rparr>"

lemma rx_loop_empty:
  assumes base: "rx_base ve s vq rm" and "vq_available_idx vq = av_idx (vm_avail rm)"
  shows "\<exists>s' c. rx_loop ve app rel s = Some s' \<and> get_vq (rv_rvq s) s' = Some (vq\<lparr>vq_queued_cnt := c\<rparr>, rm)
    \<and> \<not> rd_lock s' \<and> rd_endpoints s' = rd_endpoints s \<and> rv_mem s' = rv_mem s"
proof -
  let ?s = "s\<lparr>rd_lock := True\<rparr>"
  have r: "device ve ?s" "get_vq (rv_rvq ?s) ?s = Some (vq, rm)" "\<not> vq_inuse vq" "metal_mutex_acquire s = Some ?s"
    using base by (auto simp: rx_base_def get_vq_def device_def metal_mutex_acquire_def)
  obtain s2 where s2: "put_vq (rv_rvq ?s) vq rm ?s = Some s2" "get_vq (rv_rvq ?s) s2 = Some (vq, rm)" "book s2 = book ?s"
    "rv_rvq s2 = rv_rvq ?s" "rv_mem s2 = rv_mem ?s"
    using put_vq_ok [OF r(2)] by blast
  have get: "rpmsg_virtio_get_rx_buffer ve ?s = Some (NULL, 0, 0, s2)"
    using r(1,2) s2(1) device_not_driver [OF r(1)] assms(2)
    by (simp add: rpmsg_virtio_get_rx_buffer_def virtqueue_get_available_buffer_def)
  have get2: "get_vq (rv_rvq s2) s2 = Some (vq, rm)" using s2(2,4) by simp
  obtain k s3 where s3: "rv_kick ve (rv_rvq s2) s2 = Some (k, s3)"
    "get_vq (rv_rvq s2) s3 = Some (vq\<lparr>vq_queued_cnt := 0\<rparr>, rm)" "book s3 = book s2" "rv_mem s3 = rv_mem s2"
    using kick_ok [OF get2 r(3), of ve] by blast
  let ?t = "if ve_rx_empty_notify ve \<and> rel then s3 else s2"
  have "rx_loop ve app rel s = Some (metal_mutex_release ?t)"
    using r(4) get s3(1) by (subst rx_loop.simps) simp
  moreover have "get_vq (rv_rvq s) (metal_mutex_release ?t)
      = Some (vq\<lparr>vq_queued_cnt := if ve_rx_empty_notify ve \<and> rel then 0 else vq_queued_cnt vq\<rparr>, rm)"
    using s2(2,4) s3(2) by (simp add: get_vq_def metal_mutex_release_def)
  moreover have "rd_endpoints (metal_mutex_release ?t) = rd_endpoints s"
    using book_eqD(1) [OF s3(3)] book_eqD(1) [OF s2(3)] by (simp add: metal_mutex_release_def)
  moreover have "\<not> rd_lock (metal_mutex_release ?t)" by (simp add: metal_mutex_release_def)
  moreover have "rv_mem (metal_mutex_release ?t) = rv_mem s" using s2(5) s3(4) by (simp add: metal_mutex_release_def)
  ultimately show ?thesis by blast
qed

lemma used_append:
  assumes "rx_returned vq rm x rm'" and "length (us_ring (vm_used rm)) = unat (vq_nentries vq)"
    and "unat (us_idx (vm_used rm) - u) < unat (vq_nentries vq)" and "unat (vq_nentries vq) dvd 65536" "unat (vq_nentries vq) \<le> 32768"
  shows "pending (us_ring (vm_used rm')) u (us_idx (vm_used rm')) = pending (us_ring (vm_used rm)) u (us_idx (vm_used rm)) @ [used_for rm x]"
  using assms pending_push [of "us_idx (vm_used rm)" u "us_ring (vm_used rm)" "used_for rm x"]
  by (simp add: rx_returned_def used_for_def)

lemma rx_loop_drains:
  assumes "rx_ready ve s vq rm" and "rx_quiet app"
    and "xs = pending (av_ring (vm_avail rm)) (vq_available_idx vq) (av_idx (vm_avail rm))"
    and "unat (us_idx (vm_used rm) - u) + length xs \<le> unat (vq_nentries vq)"
  shows "\<exists>s' vq' rm'. rx_loop ve app rel s = Some s' \<and> get_vq (rv_rvq s) s' = Some (vq', rm')
    \<and> vq_available_idx vq' = av_idx (vm_avail rm) \<and> vm_avail rm' = vm_avail rm \<and> vm_desc rm' = vm_desc rm
    \<and> pending (us_ring (vm_used rm')) u (us_idx (vm_used rm'))
        = pending (us_ring (vm_used rm)) u (us_idx (vm_used rm)) @ map (used_for rm) xs
    \<and> \<not> rd_lock s' \<and> rd_endpoints s' = rd_endpoints s"
  using assms
proof (induction xs arbitrary: s vq rm rel)
  case Nil
  then have "vq_available_idx vq = av_idx (vm_avail rm)" using pending_Nil [of "av_ring (vm_avail rm)"] by metis
  then show ?case using rx_loop_empty [OF ready_base [OF Nil.prems(1)], of app rel] by force
next
  case (Cons x xs)
  obtain e where e: "unat (vq_nentries vq) = 2 ^ e" "unat (vq_nentries vq) \<le> 32768" "\<not> rd_lock s"
    "length (av_ring (vm_avail rm)) = unat (vq_nentries vq)" "length (us_ring (vm_used rm)) = unat (vq_nentries vq)"
    using Cons.prems(1) by (auto simp: rx_ready_def)
  have dvd: "unat (vq_nentries vq) dvd 65536" using pow2_dvd [OF e(1,2)] .
  have ne: "vq_available_idx vq \<noteq> av_idx (vm_avail rm)" using Cons.prems(3) by auto
  note pop = pending_pop [OF ne, of "av_ring (vm_avail rm)"]
  have x: "x = av_ring (vm_avail rm) ! (unat (vq_available_idx vq) mod unat (vq_nentries vq))"
    and xs: "xs = pending (av_ring (vm_avail rm)) (vq_available_idx vq + 1) (av_idx (vm_avail rm))"
    using Cons.prems(3) pop dvd e(4) by auto
  obtain p len s2 rl s3 c rm1 where st: "rpmsg_virtio_get_rx_buffer ve (s\<lparr>rd_lock := True\<rparr>) = Some (p, len, x, s2)" "p \<noteq> NULL"
    "rx_one ve app p x s2 = Some (rl, s3)" "rv_rvq s3 = rv_rvq s" "rd_endpoints s3 = rd_endpoints s" "rx_returned vq rm x rm1"
    "rx_ready ve s3 (vq\<lparr>vq_available_idx := vq_available_idx vq + 1, vq_queued_cnt := c\<rparr>) rm1"
    using rx_step [OF Cons.prems(1,2) ne x] by blast
  have same: "vm_avail rm1 = vm_avail rm" "vm_desc rm1 = vm_desc rm" "us_idx (vm_used rm1) = us_idx (vm_used rm) + 1"
    using st(6) by (simp_all add: rx_returned_def)
  have room: "unat (us_idx (vm_used rm) - u) < unat (vq_nentries vq)" using Cons.prems(4) by simp
  then have step: "unat (us_idx (vm_used rm1) - u) = Suc (unat (us_idx (vm_used rm) - u))"
    using e(2) by (simp only: same(3)) (intro unat_step, linarith)
  obtain s' vq' rm' where r: "rx_loop ve app (rel \<or> rl) s3 = Some s'" "get_vq (rv_rvq s3) s' = Some (vq', rm')"
    "vq_available_idx vq' = av_idx (vm_avail rm1)" "vm_avail rm' = vm_avail rm1" "vm_desc rm' = vm_desc rm1"
    "pending (us_ring (vm_used rm')) u (us_idx (vm_used rm'))
       = pending (us_ring (vm_used rm1)) u (us_idx (vm_used rm1)) @ map (used_for rm1) xs"
    "\<not> rd_lock s'" "rd_endpoints s' = rd_endpoints s3"
    using Cons.IH [OF st(7) Cons.prems(2), of "rel \<or> rl"] xs same step Cons.prems(4) by auto
  have "metal_mutex_acquire s = Some (s\<lparr>rd_lock := True\<rparr>)" using e(3) by (simp add: metal_mutex_acquire_def)
  then have "rx_loop ve app rel s = Some s'"
    using st(1-3) r(1) by (subst rx_loop.simps) simp
  moreover have "used_for rm1 = used_for rm" using same(2) by (simp add: used_for_def fun_eq_iff)
  ultimately show ?case
    using r st(4,5) same used_append [OF st(6) e(5) room dvd e(2)] by auto
qed

text \<open>
  C12: the receive callback of a device returns, whatever number of buffers is waiting: every buffer
  the driver has offered is taken, its message handed to the endpoint that has the destination
  address or dropped, and the buffer put on the used ring, in the order in which they were offered
  and with the length of its descriptor; the lock is free and the set of endpoints is unchanged.
\<close>

theorem rx_callback_drains:
  assumes "rx_ready ve s vq rm" and "rx_quiet app"
    and "unat (av_idx (vm_avail rm) - vq_available_idx vq) \<le> unat (vq_nentries vq)"
  shows "\<exists>s' vq' rm'. rpmsg_virtio_rx_callback ve app s = Some s' \<and> get_vq (rv_rvq s) s' = Some (vq', rm')
    \<and> vq_available_idx vq' = av_idx (vm_avail rm) \<and> vm_avail rm' = vm_avail rm \<and> vm_desc rm' = vm_desc rm
    \<and> pending (us_ring (vm_used rm')) (us_idx (vm_used rm)) (us_idx (vm_used rm'))
        = map (used_for rm) (pending (av_ring (vm_avail rm)) (vq_available_idx vq) (av_idx (vm_avail rm)))
    \<and> \<not> rd_lock s' \<and> rd_endpoints s' = rd_endpoints s"
  using rx_loop_drains [OF assms(1,2) refl, of "us_idx (vm_used rm)" False] assms(3)
  by (simp add: rpmsg_virtio_rx_callback_def)

text \<open>
  C13: a message for a registered endpoint is delivered: its callback is called once, with the
  payload behind the header, the length and the source the sender wrote, and the endpoint's private
  pointer, while the buffer is held and the lock is free; an endpoint without a peer learns the
  sender's address. Unless the callback holds it, the buffer is then returned under its own
  descriptor index, and the reference count of the endpoint is what it was.
\<close>

theorem rx_delivers:
  assumes "device ve s" and "rx_slot s vq rm idx" and "h = load_hdr (rv_mem s) p" and "e = rd_epts s ept"
    and "rpmsg_get_ept_from_addr s (h_dst h) = Some ept" "ept \<noteq> NULL"
    and "ep_cb e \<noteq> ve_ns_callback ve" "ep_refcnt e \<noteq> 0"
    and "app_ept_cb app (ep_cb e) ept (p + 16) (unat (h_len h)) (h_src h) (ep_priv e) (rx_call p idx ept s) = Some (r, s2)"
    and "0 \<le> r" and "rx_keeps p (rx_call p idx ept s) s2"
  shows "\<exists>s' c rm'. rx_one ve app p idx s = Some (ve_rx_empty_notify ve, s')
    \<and> get_vq (rv_rvq s) s' = Some (vq\<lparr>vq_queued_cnt := c\<rparr>, rm') \<and> rx_returned vq rm idx rm'
    \<and> \<not> rd_lock s' \<and> rd_endpoints s' = rd_endpoints s
    \<and> rd_epts s' = (rd_epts s)(ept := e\<lparr>ep_dest_addr :=
          if ep_dest_addr e = RPMSG_ADDR_ANY then h_src h else ep_dest_addr e\<rparr>)
    \<and> rv_mem s' = set_reserved p (ucast idx) (rv_mem s2)"
  using rx_one_delivers [OF assms(1,2) _ assms(6), of p app r s2] assms by auto


section \<open>A concrete receive\<close>

definition demo_rx_ve :: "unit venv" where
  "demo_rx_ve = demo_ve\<lparr>ve_build := \<lparr>VQUEUE_DEBUG = False, VIRTIO_DRIVER_SUPPORT = True, VIRTIO_DEVICE_SUPPORT = True\<rparr>\<rparr>"

definition demo_rx_rm :: vring_mem where
  "demo_rx_rm = demo_rm\<lparr>vm_desc := replicate 4 \<lparr>d_addr = 0x4100, d_len = 64, d_flags = 0, d_next = 0\<rparr>,
     vm_avail := \<lparr>av_flags = 0, av_idx = 1, av_ring = replicate 4 0, av_used_event = 0\<rparr>\<rparr>"

definition demo_rx :: "unit rpmsg_virtio_device" where
  "demo_rx = demo_rv1\<lparr>
     rv_mem := mem_write (\<lambda>_. 0) 0x1100 (hdr_bytes \<lparr>h_src = 0x400, h_dst = 1024, h_reserved = 0, h_len = 3, h_flags = 0\<rparr>),
     rv_vdev := demo_vdev\<lparr>vd_role := VIRTIO_DEV_DEVICE, vd_vrings_num := 2, vd_vrings_info :=
       [demo_vring\<lparr>vi_vq := Some demo_vq, vi_ring := demo_rx_rm\<rparr>, demo_vring]\<rparr>\<rparr>"

lemma demo_rx_device: "device demo_rx_ve demo_rx"
  by (simp add: device_def demo_rx_ve_def demo_rx_def VIRTIO_ROLE_IS_DEVICE_def)

lemma demo_rx_vq: "get_vq (rv_rvq demo_rx) demo_rx = Some (demo_vq, demo_rx_rm)"
  by (simp add: get_vq_def demo_rx_def demo_rv1_def demo_rv_def)

lemma demo_rx_sizes:
  "vq_nentries demo_vq = 4" "length (vm_desc demo_rx_rm) = 4" "length (us_ring (vm_used demo_rx_rm)) = 4"
  "length (av_ring (vm_avail demo_rx_rm)) = 4" "\<not> vq_inuse demo_vq" "vq_available_idx demo_vq = 0"
  by (simp_all add: demo_vq_def virtqueue_zero_def demo_rx_rm_def demo_rm_def)

lemma demo_rx_slot: "rx_slot demo_rx demo_vq demo_rx_rm 0"
  using demo_rx_vq by (simp add: rx_slot_def demo_rx_sizes exI [of _ 2])

lemma demo_quiet: "rx_quiet demo_app"
  by (simp add: rx_quiet_def demo_app_def rx_keeps_def)

lemma demo_rx_ready: "rx_ready demo_rx_ve demo_rx demo_vq demo_rx_rm"
proof -
  have "virtqueue_phys_to_virt demo_vq 0x4100 = Some 0x1100"
    by (simp add: virtqueue_phys_to_virt_def demo_vq_def demo_io_def metal_io_phys_to_virt_def metal_io_phys_to_offset_def
        metal_io_virt_def metal_io_phys_def no_ops_def phys_walk.simps)
  then have "\<forall>x \<in> set (av_ring (vm_avail demo_rx_rm)). x < vq_nentries demo_vq
      \<and> (\<exists>p. virtqueue_phys_to_virt demo_vq (d_addr (vm_desc demo_rx_rm ! unat x)) = Some p \<and> p \<noteq> NULL)"
    by (simp add: demo_rx_rm_def demo_rx_sizes)
  moreover have "\<forall>q \<in> set (rd_endpoints demo_rx). ep_refcnt (rd_epts demo_rx q) \<noteq> 0
      \<and> ep_cb (rd_epts demo_rx q) \<noteq> ve_ns_callback demo_rx_ve"
    by (simp add: demo_rx_def demo_rv1_def demo_rv_def demo_ept_def demo_rx_ve_def demo_ve_def)
  moreover have "\<not> rd_lock demo_rx" by (simp add: demo_rx_def demo_rv1_def demo_rv_def)
  moreover have "unat (vq_nentries demo_vq) = 2 ^ 2" by (simp add: demo_rx_sizes)
  ultimately show ?thesis
    using demo_rx_device demo_rx_vq unfolding rx_ready_def by (simp add: demo_rx_sizes exI [of _ 2])
qed

theorem rx_callback_drains_witness:
  "\<exists>s' vq' rm'. rpmsg_virtio_rx_callback demo_rx_ve demo_app demo_rx = Some s' \<and> get_vq (rv_rvq demo_rx) s' = Some (vq', rm')
    \<and> vq_available_idx vq' = 1
    \<and> pending (us_ring (vm_used rm')) 0 (us_idx (vm_used rm')) = [\<lparr>ue_id = 0, ue_len = 64\<rparr>]"
proof -
  have n: "unat (av_idx (vm_avail demo_rx_rm) - vq_available_idx demo_vq) \<le> unat (vq_nentries demo_vq)"
    by (simp add: demo_rx_sizes) (simp add: demo_rx_rm_def)
  have av: "av_idx (vm_avail demo_rx_rm) = 1" "us_idx (vm_used demo_rx_rm) = 0"
    by (simp_all add: demo_rx_rm_def demo_rm_def)
  have "map (used_for demo_rx_rm) (pending (av_ring (vm_avail demo_rx_rm)) 0 1) = [\<lparr>ue_id = 0, ue_len = 64\<rparr>]"
    by (simp add: pending_def used_for_def demo_rx_rm_def)
  then show ?thesis
    using rx_callback_drains [OF demo_rx_ready demo_quiet n] by (simp add: av demo_rx_sizes) blast
qed

lemma demo_rx_hdr: "load_hdr (rv_mem demo_rx) 0x1100 = \<lparr>h_src = 0x400, h_dst = 1024, h_reserved = 0, h_len = 3, h_flags = 0\<rparr>"
  using mem_read_write_same [of "hdr_bytes \<lparr>h_src = 0x400, h_dst = 1024, h_reserved = 0, h_len = 3, h_flags = 0\<rparr>"]
  by (intro load_hdr_read) (simp add: demo_rx_def)

theorem rx_delivers_witness:
  "\<exists>s' c rm'. rx_one demo_rx_ve demo_app 0x1100 0 demo_rx = Some (True, s')
    \<and> get_vq (rv_rvq demo_rx) s' = Some (demo_vq\<lparr>vq_queued_cnt := c\<rparr>, rm') \<and> rx_returned demo_vq demo_rx_rm 0 rm'
    \<and> \<not> rd_lock s'"
proof -
  let ?h = "\<lparr>h_src = 0x400, h_dst = 1024, h_reserved = 0, h_len = 3, h_flags = 0\<rparr>"
  have e: "rd_epts demo_rx 0x300 = demo_ept" "rd_endpoints demo_rx = [0x300]"
    by (simp_all add: demo_rx_def demo_rv1_def demo_rv_def)
  have route: "rpmsg_get_ept_from_addr demo_rx (h_dst ?h) = Some 0x300"
    by (simp add: rpmsg_get_ept_from_addr_def rpmsg_get_endpoint_def e demo_ept_def)
  have live: "ep_cb demo_ept \<noteq> ve_ns_callback demo_rx_ve" "ep_refcnt demo_ept \<noteq> 0"
    by (simp_all add: demo_ept_def demo_rx_ve_def demo_ve_def)
  have call: "app_ept_cb demo_app (ep_cb demo_ept) 0x300 (0x1100 + 16) (unat (h_len ?h)) (h_src ?h) (ep_priv demo_ept)
      (rx_call 0x1100 0 0x300 demo_rx) = Some (0, rx_call 0x1100 0 0x300 demo_rx)"
    by (simp add: demo_app_def)
  have keeps: "rx_keeps 0x1100 (rx_call 0x1100 0 0x300 demo_rx) (rx_call 0x1100 0 0x300 demo_rx)"
    by (simp add: rx_keeps_def)
  have "ve_rx_empty_notify demo_rx_ve" by (simp add: demo_rx_ve_def demo_ve_def)
  then show ?thesis
    using rx_delivers [OF demo_rx_device demo_rx_slot demo_rx_hdr [symmetric] e(1) [symmetric] route _ live call _ keeps]
    by auto
qed

end
