(* ===== verification/Rpmsg_End.thy ===== *)
theory Rpmsg_End
  imports Rpmsg_Recv
begin

text \<open>
  The two ends of a channel together: what the driver sends is what the callback of an endpoint on the
  other processor is given. The processors share the ring of the queue and the buffer, which each maps
  at addresses of its own.
\<close>

section \<open>One waiting message\<close>

lemma load_hdr_same:
  assumes "mem_read m q 16 = mem_read m' p 16"
  shows "load_hdr m q = load_hdr m' p"
proof -
  have "mem_read m (q + of_nat k) n = mem_read m' (p + of_nat k) n" if "k + n \<le> 16" for k n
    using mem_read_slice [OF that, of m q] mem_read_slice [OF that, of m' p] assms by simp
  note f = this [of 0 4] this [of 4 4] this [of 8 4] this [of 12 2] this [of 14 2]
  show ?thesis using f by (simp add: load_hdr_def load32_def load16_def)
qed

lemma payload_kept:
  assumes "n < 2 ^ 31"
  shows "mem_read (rv_mem (rx_call q x ept s)) (q + 16) n = mem_read (rv_mem s) (q + 16) n"
proof -
  have "mem_read (set_reserved q w m) (q + 16) n = mem_read m (q + 16) n" for w m
    using mem_read_write_disjoint [of "q + 16" n "q + 8" "le32 w" m] field_apart [of 8 4 16 n q] assms
    by (simp add: set_reserved_def store32_def)
  then show ?thesis
    by (simp add: call_frame rx_taken_def metal_mutex_release_def rpmsg_ept_incref_def upd_ept_def RPMSG_BUF_HELD_INC_def)
qed

lemma rx_single:
  assumes base: "rx_base ve s vq rm" and idx: "av_idx (vm_avail rm) = vq_available_idx vq + 1"
    and x: "x = av_ring (vm_avail rm) ! (unat (vq_available_idx vq) mod unat (vq_nentries vq))" "x < vq_nentries vq"
    and p: "virtqueue_phys_to_virt vq (d_addr (vm_desc rm ! unat x)) = Some p" "p \<noteq> NULL"
    and h: "load_hdr (rv_mem s) p = h" and route: "rpmsg_get_ept_from_addr s (h_dst h) = Some ept" "ept \<noteq> NULL"
    and e: "ep_cb (rd_epts s ept) \<noteq> ve_ns_callback ve" "ep_refcnt (rd_epts s ept) \<noteq> 0"
    and app: "\<forall>u. \<exists>r u2. app_ept_cb app (ep_cb (rd_epts s ept)) ept (p + 16) (unat (h_len h)) (h_src h) (ep_priv (rd_epts s ept)) u
        = Some (r, u2) \<and> 0 \<le> r \<and> rx_keeps p u u2"
    and n: "n < 2 ^ 31"
  shows "\<exists>s' vq' rm' u r u2. rpmsg_virtio_rx_callback ve app s = Some s'
    \<and> app_ept_cb app (ep_cb (rd_epts s ept)) ept (p + 16) (unat (h_len h)) (h_src h) (ep_priv (rd_epts s ept)) u = Some (r, u2)
    \<and> mem_read (rv_mem u) (p + 16) n = mem_read (rv_mem s) (p + 16) n \<and> rv_mem s' = set_reserved p (ucast x) (rv_mem u2)
    \<and> get_vq (rv_rvq s) s' = Some (vq', rm') \<and> vq_available_idx vq' = av_idx (vm_avail rm) \<and> rx_returned vq rm x rm'
    \<and> \<not> rd_lock s' \<and> rd_endpoints s' = rd_endpoints s"
proof -
  let ?vq = "vq\<lparr>vq_available_idx := vq_available_idx vq + 1\<rparr>"
  have ne: "vq_available_idx vq \<noteq> av_idx (vm_avail rm)" using idx by simp
  obtain s2 where s2: "rpmsg_virtio_get_rx_buffer ve (s\<lparr>rd_lock := True\<rparr>) = Some (p, d_len (vm_desc rm ! unat x), x, s2)"
    "get_vq (rv_rvq s) s2 = Some (?vq, rm)" "book s2 = book (s\<lparr>rd_lock := True\<rparr>)" "rv_rvq s2 = rv_rvq s" "device ve s2" "rv_mem s2 = rv_mem s"
    using get_rx_at [OF base ne x p(1)] by blast
  note bk = book_eqD [OF s2(3), simplified]
  have slot: "rx_slot s2 ?vq rm x" using base s2(2,4) x(2) by (auto simp: rx_slot_def rx_base_def)
  have route2: "rpmsg_get_ept_from_addr s2 (h_dst (load_hdr (rv_mem s2) p)) = Some ept"
    using route(1) h s2(6) bk by (simp add: rpmsg_get_ept_from_addr_def rpmsg_get_endpoint_def)
  have ep: "rd_epts s2 = rd_epts s" using bk by simp
  let ?u = "rx_call p x ept s2"
  obtain r u2 where call: "app_ept_cb app (ep_cb (rd_epts s ept)) ept (p + 16) (unat (h_len h)) (h_src h) (ep_priv (rd_epts s ept)) ?u
      = Some (r, u2)" "0 \<le> r" "rx_keeps p ?u u2" using app by blast
  have call2: "app_ept_cb app (ep_cb (rd_epts s2 ept)) ept (p + 16) (unat (h_len (load_hdr (rv_mem s2) p)))
      (h_src (load_hdr (rv_mem s2) p)) (ep_priv (rd_epts s2 ept)) ?u = Some (r, u2)" using call(1) h s2(6) ep by simp
  obtain s3 c rm' where s3: "rx_one ve app p x s2 = Some (ve_rx_empty_notify ve, s3)"
    "get_vq (rv_rvq s2) s3 = Some (?vq\<lparr>vq_queued_cnt := c\<rparr>, rm')" "rx_returned ?vq rm x rm'" "\<not> rd_lock s3"
    "rd_endpoints s3 = rd_endpoints s2" "rv_rvq s3 = rv_rvq s2" "rv_mem s3 = set_reserved p (ucast x) (rv_mem u2)" "device ve s3"
    using rx_one_delivers [OF s2(5) slot route2 route(2) _ _ call2 call(2,3)] e ep by auto
  have base3: "rx_base ve s3 (?vq\<lparr>vq_queued_cnt := c\<rparr>) rm'"
    using base s3 s2(4) by (auto simp: rx_base_def rx_returned_def)
  have "vq_available_idx (?vq\<lparr>vq_queued_cnt := c\<rparr>) = av_idx (vm_avail rm')" using idx s3(3) by (simp add: rx_returned_def)
  then obtain s' c' where s': "rx_loop ve app (ve_rx_empty_notify ve) s3 = Some s'"
    "get_vq (rv_rvq s3) s' = Some (?vq\<lparr>vq_queued_cnt := c'\<rparr>, rm')" "\<not> rd_lock s'" "rd_endpoints s' = rd_endpoints s3" "rv_mem s' = rv_mem s3"
    using rx_loop_empty [OF base3, of app "ve_rx_empty_notify ve"] by auto
  have "rpmsg_virtio_rx_callback ve app s = Some s'"
    unfolding rpmsg_virtio_rx_callback_def using base s2(1) p(2) s3(1) s'(1)
    by (subst rx_loop.simps) (simp add: rx_base_def metal_mutex_acquire_def)
  moreover have "mem_read (rv_mem ?u) (p + 16) n = mem_read (rv_mem s) (p + 16) n" using payload_kept [OF n, of p x ept s2] s2(6) by simp
  moreover have "rx_returned vq rm x rm'" using s3(3) by (simp add: rx_returned_def)
  moreover have "get_vq (rv_rvq s) s' = Some (?vq\<lparr>vq_queued_cnt := c'\<rparr>, rm')" using s'(2) s3(6) s2(4) by simp
  ultimately show ?thesis
    using call(1) s'(3-5) s3(5,7) bk idx by (intro exI [of _ s'] exI [of _ "?vq\<lparr>vq_queued_cnt := c'\<rparr>"] exI [of _ rm'] exI [of _ ?u] exI [of _ r] exI [of _ u2]) simp
qed

section \<open>From one processor to the other\<close>

text \<open>
  The other processor \<open>t\<close> shares the ring \<open>rm\<close> and has taken everything offered so far; it maps the physical address
  \<open>pa\<close> at \<open>q\<close>, and \<open>ept\<close> is its endpoint for the address \<open>dst\<close>.
\<close>

definition peer_ready ::
  "'t venv \<Rightarrow> 't rpmsg_virtio_device \<Rightarrow> virtqueue \<Rightarrow> vring_mem \<Rightarrow> u64 \<Rightarrow> addr \<Rightarrow> u32 \<Rightarrow> addr \<Rightarrow> bool" where
  "peer_ready ve t vq rm pa q dst ept = (rx_base ve t vq rm \<and> vq_available_idx vq = av_idx (vm_avail rm)
     \<and> virtqueue_phys_to_virt vq pa = Some q \<and> q \<noteq> NULL \<and> rpmsg_get_ept_from_addr t dst = Some ept \<and> ept \<noteq> NULL
     \<and> ep_cb (rd_epts t ept) \<noteq> ve_ns_callback ve \<and> ep_refcnt (rd_epts t ept) \<noteq> 0)"

text \<open>The state of the other processor when the ring has become \<open>rm\<close> and its memory \<open>m\<close>.\<close>

definition sees :: "'t rpmsg_virtio_device \<Rightarrow> virtqueue \<Rightarrow> vring_mem \<Rightarrow> mem \<Rightarrow> 't rpmsg_virtio_device option" where
  "sees t vq rm m = put_vq (rv_rvq t) vq rm (t\<lparr>rv_mem := m\<rparr>)"

lemma all_idx_length: "length (all_idx n) = n"
  by (simp add: all_idx_def)

lemma offered_size:
  assumes "driver_inv vq (vm_desc rm) (x # fs) cs" and "driver_inv vq' (vm_desc rm') fs ([x] # cs)"
  shows "length (vm_desc rm') = unat (vq_nentries vq)" "x < vq_nentries vq"
proof -
  have "mset (all_idx (unat (vq_nentries vq'))) = mset (all_idx (unat (vq_nentries vq)))"
    using assms by (simp add: driver_inv_def)
  then have "unat (vq_nentries vq') = unat (vq_nentries vq)" by (metis all_idx_length mset_eq_length)
  then show "length (vm_desc rm') = unat (vq_nentries vq)" using assms(2) by (simp add: driver_inv_def)
  have "free_path (vm_desc rm) (vq_desc_head_idx vq) (x # fs)" "length (vm_desc rm) = unat (vq_nentries vq)"
    using assms(1) by (simp_all add: driver_inv_def)
  then show "x < vq_nentries vq" by (auto simp: word_less_nat_alt)
qed

lemma peer_after_send:
  assumes peer: "peer_ready ve t vqR rm pa q dst ept" and n: "vq_nentries vqR = vq_nentries vq"
    and inv: "driver_inv vq (vm_desc rm) (x # fs) cs" "driver_inv vq' (vm_desc rm') fs ([x] # cs)"
    and off: "tx_offered vq rm x pa sz rm'"
  shows "\<exists>t1. sees t vqR rm' m = Some t1 \<and> rx_base ve t1 vqR rm' \<and> rv_mem t1 = m \<and> book t1 = book t \<and> rv_rvq t1 = rv_rvq t
    \<and> av_idx (vm_avail rm') = vq_available_idx vqR + 1 \<and> x < vq_nentries vqR
    \<and> x = av_ring (vm_avail rm') ! (unat (vq_available_idx vqR) mod unat (vq_nentries vqR))
    \<and> virtqueue_phys_to_virt vqR (d_addr (vm_desc rm' ! unat x)) = Some q"
proof -
  have base: "rx_base ve t vqR rm" "vq_available_idx vqR = av_idx (vm_avail rm)" "virtqueue_phys_to_virt vqR pa = Some q"
    using peer by (simp_all add: peer_ready_def)
  have get: "get_vq (rv_rvq (t\<lparr>rv_mem := m\<rparr>)) (t\<lparr>rv_mem := m\<rparr>) = Some (vqR, rm)" using base(1) by (simp add: rx_base_def get_vq_def)
  obtain t1 where t1: "put_vq (rv_rvq (t\<lparr>rv_mem := m\<rparr>)) vqR rm' (t\<lparr>rv_mem := m\<rparr>) = Some t1" "get_vq (rv_rvq t) t1 = Some (vqR, rm')"
    "book t1 = book (t\<lparr>rv_mem := m\<rparr>)" "rv_mem t1 = m" "rv_rvq t1 = rv_rvq t" "vd_role (rv_vdev t1) = vd_role (rv_vdev t)"
    using put_vq_ok [OF get, of vqR rm'] by auto
  have bk: "book t1 = book t" using t1(3) by (simp add: rpmsg_device.defs)
  have lens: "length (av_ring (vm_avail rm')) = unat (vq_nentries vqR)" "length (us_ring (vm_used rm')) = unat (vq_nentries vqR)"
    "length (vm_desc rm') = unat (vq_nentries vqR)"
    using off base(1) offered_size(1) [OF inv] n by (auto simp: tx_offered_def rx_base_def)
  have lock: "\<not> rd_lock t1" using book_eqD [OF bk] base(1) by (simp add: rx_base_def)
  have "rx_base ve t1 vqR rm'"
    using base(1) t1(2,5) lens lock device_cong [OF t1(6)] by (auto simp: rx_base_def)
  moreover have "unat (vq_nentries vqR) \<noteq> 0" using base(1) by (auto simp: rx_base_def)
  moreover have "x < vq_nentries vqR" using offered_size(2) [OF inv] n by simp
  ultimately show ?thesis
    using t1 bk off base(2,3) n lens by (auto simp: sees_def tx_offered_def)
qed

text \<open>
  C5: a message sent by the driver reaches the callback of the endpoint on the other processor. The send succeeds
  with the number of bytes that fit; when the other processor then sees the ring and the bytes of the buffer, its
  receive callback returns, having called the callback of the endpoint that has the destination address once, with the
  length and the source of the message, on a state in which the payload that was sent is at the address it is given;
  and the buffer is on the used ring for the driver to take back.
\<close>

theorem message_end_to_end:
  assumes "tx_ready ve s vq rm x fs cs p" and "rv_shbuf_io s = Some io" and "buffer_in io p (unat (cf_h2r_buf_size (rv_config s)))"
    and "virtqueue_virt_to_phys vq p = Some pa" and "0 \<le> len" "nat len \<le> length bs"
    and "n = min (nat len) (unat (cf_h2r_buf_size (rv_config s)) - 16)" and "n < 65536"
    and "peer_ready ve' t vqR rm pa q dst ept" and "vq_nentries vqR = vq_nentries vq" and "e = rd_epts t ept"
    and "\<forall>u. \<exists>r u2. app_ept_cb app (ep_cb e) ept (q + 16) n src (ep_priv e) u = Some (r, u2) \<and> 0 \<le> r \<and> rx_keeps q u u2"
  shows "\<exists>s' vq' rm'. rpmsg_virtio_send_offchannel_raw ve s src dst (Local bs) len wait = Some (int n, s')
    \<and> get_vq (rv_svq s) s' = Some (vq', rm')
    \<and> (\<forall>m. mem_read m q (16 + n) = mem_read (rv_mem s') p (16 + n) \<longrightarrow>
         (\<exists>t1 t' vq2 rm2 u r u2. sees t vqR rm' m = Some t1 \<and> rpmsg_virtio_rx_callback ve' app t1 = Some t'
            \<and> app_ept_cb app (ep_cb e) ept (q + 16) n src (ep_priv e) u = Some (r, u2)
            \<and> mem_read (rv_mem u) (q + 16) n = take n bs \<and> rv_mem t' = set_reserved q (ucast x) (rv_mem u2)
            \<and> get_vq (rv_rvq t) t' = Some (vq2, rm2) \<and> rx_returned vqR rm' x rm2))"
proof -
  let ?h = "\<lparr>h_src = src, h_dst = dst, h_reserved = 0, h_len = of_nat n, h_flags = 0\<rparr>"
  obtain s' vq' rm' where send: "rpmsg_virtio_send_offchannel_raw ve s src dst (Local bs) len wait = Some (int n, s')"
    "load_hdr (rv_mem s') p = ?h" "mem_read (rv_mem s') (p + 16) n = take n bs" "get_vq (rv_svq s) s' = Some (vq', rm')"
    "driver_inv vq' (vm_desc rm') fs ([x] # cs)" "tx_offered vq rm x pa (cf_h2r_buf_size (rv_config s)) rm'"
    using send_ok [OF assms(1-7), of src dst wait] by blast
  have inv: "driver_inv vq (vm_desc rm) (x # fs) cs" using assms(1) by (simp add: tx_ready_def tx_slot_def)
  have peer: "rpmsg_get_ept_from_addr t dst = Some ept" "ept \<noteq> NULL" "q \<noteq> NULL" "ep_cb e \<noteq> ve_ns_callback ve'" "ep_refcnt e \<noteq> 0"
    using assms(9,11) by (simp_all add: peer_ready_def)
  have hn: "unat (h_len ?h) = n" using assms(8) by (simp add: unat_of_nat take_bit_nat_eq_self)
  have "\<exists>t1 t' vq2 rm2 u r u2. sees t vqR rm' m = Some t1 \<and> rpmsg_virtio_rx_callback ve' app t1 = Some t'
      \<and> app_ept_cb app (ep_cb e) ept (q + 16) n src (ep_priv e) u = Some (r, u2)
      \<and> mem_read (rv_mem u) (q + 16) n = take n bs \<and> rv_mem t' = set_reserved q (ucast x) (rv_mem u2)
      \<and> get_vq (rv_rvq t) t' = Some (vq2, rm2) \<and> rx_returned vqR rm' x rm2"
    if m: "mem_read m q (16 + n) = mem_read (rv_mem s') p (16 + n)" for m
  proof -
    obtain t1 where t1: "sees t vqR rm' m = Some t1" "rx_base ve' t1 vqR rm'" "rv_mem t1 = m" "book t1 = book t" "rv_rvq t1 = rv_rvq t"
      "av_idx (vm_avail rm') = vq_available_idx vqR + 1" "x < vq_nentries vqR"
      "x = av_ring (vm_avail rm') ! (unat (vq_available_idx vqR) mod unat (vq_nentries vqR))"
      "virtqueue_phys_to_virt vqR (d_addr (vm_desc rm' ! unat x)) = Some q"
      using peer_after_send [OF assms(9,10) inv send(5,6), of m] by blast
    note bk = book_eqD [OF t1(4)]
    have sl: "mem_read m (q + of_nat k) j = mem_read (rv_mem s') (p + of_nat k) j" if "k + j \<le> 16 + n" for k j
      using mem_read_slice [OF that, of m q] mem_read_slice [OF that, of "rv_mem s'" p] m by simp
    have hdr: "load_hdr (rv_mem t1) q = ?h" using load_hdr_same [of m q "rv_mem s'" p] sl [of 0 16] send(2) t1(3) by simp
    have pay: "mem_read (rv_mem t1) (q + 16) n = take n bs" using sl [of 16 n] send(3) t1(3) by simp
    have route: "rpmsg_get_ept_from_addr t1 (h_dst ?h) = Some ept"
      using peer(1) bk by (simp add: rpmsg_get_ept_from_addr_def rpmsg_get_endpoint_def)
    have e1: "rd_epts t1 ept = e" using bk assms(11) by simp
    have app1: "\<forall>u. \<exists>r u2. app_ept_cb app (ep_cb (rd_epts t1 ept)) ept (q + 16) (unat (h_len ?h)) (h_src ?h) (ep_priv (rd_epts t1 ept)) u
        = Some (r, u2) \<and> 0 \<le> r \<and> rx_keeps q u u2" using assms(12) hn e1 by simp
    show ?thesis
      using rx_single [OF t1(2,6,8,7,9) peer(3) hdr route peer(2) _ _ app1, of n] peer(4,5) e1 assms(8) pay hn t1(1,5) by fastforce
  qed
  then show ?thesis using send(1,4) by blast
qed

section \<open>Two concrete processors\<close>

text \<open>The other processor maps the shared memory 32 KiB higher.\<close>

definition peer_vq :: virtqueue where
  "peer_vq = demo_vq\<lparr>vq_shm_io := Some (demo_io\<lparr>io_virt := 0x9000\<rparr>)\<rparr>"

definition demo_peer :: "unit rpmsg_virtio_device" where
  "demo_peer = demo_rv1\<lparr>rv_vdev := demo_vdev\<lparr>vd_role := VIRTIO_DEV_DEVICE, vd_vrings_num := 2,
     vd_vrings_info := [demo_vring\<lparr>vi_vq := Some peer_vq, vi_ring := demo_rm\<rparr>, demo_vring]\<rparr>\<rparr>"

lemma demo_peer_base: "rx_base demo_rx_ve demo_peer peer_vq demo_rm"
proof -
  have "unat (vq_nentries peer_vq) = 2 ^ 2" by (simp add: peer_vq_def demo_vq_def)
  moreover have "\<not> vq_inuse peer_vq" "vq_nentries peer_vq = 4" by (simp_all add: peer_vq_def demo_vq_def virtqueue_zero_def)
  moreover have "device demo_rx_ve demo_peer" "get_vq (rv_rvq demo_peer) demo_peer = Some (peer_vq, demo_rm)" "\<not> rd_lock demo_peer"
    by (simp_all add: device_def demo_rx_ve_def demo_peer_def VIRTIO_ROLE_IS_DEVICE_def get_vq_def demo_rv1_def demo_rv_def)
  ultimately show ?thesis unfolding rx_base_def by (simp add: demo_rm_def exI [of _ 2])
qed

lemma demo_peer_ready: "peer_ready demo_rx_ve demo_peer peer_vq demo_rm 0x4100 0x9100 1024 0x300"
proof -
  have "virtqueue_phys_to_virt peer_vq 0x4100 = Some 0x9100"
    by (simp add: virtqueue_phys_to_virt_def peer_vq_def demo_io_def metal_io_phys_to_virt_def metal_io_phys_to_offset_def
        no_ops_def metal_io_virt_def phys_walk.simps metal_io_phys_def)
  moreover have "vq_available_idx peer_vq = av_idx (vm_avail demo_rm)" by (simp add: peer_vq_def demo_vq_def virtqueue_zero_def demo_rm_def)
  moreover have "rpmsg_get_ept_from_addr demo_peer 1024 = Some 0x300"
    by (simp add: rpmsg_get_ept_from_addr_def rpmsg_get_endpoint_def demo_peer_def demo_rv1_def demo_rv_def demo_ept_def)
  moreover have "ep_cb (rd_epts demo_peer 0x300) \<noteq> ve_ns_callback demo_rx_ve" "ep_refcnt (rd_epts demo_peer 0x300) \<noteq> 0"
    by (simp_all add: demo_peer_def demo_rv1_def demo_rv_def demo_ept_def demo_rx_ve_def demo_ve_def)
  ultimately show ?thesis using demo_peer_base by (simp add: peer_ready_def)
qed

theorem message_end_to_end_witness:
  "\<exists>s' vq' rm' t1 t' u. rpmsg_virtio_send_offchannel_raw demo_ve demo_rv 0x400 1024 (Local [7, 8, 9]) 3 True = Some (3, s')
    \<and> get_vq (rv_svq demo_rv) s' = Some (vq', rm')
    \<and> sees demo_peer peer_vq rm' (\<lambda>a. rv_mem s' (a - 0x8000)) = Some t1
    \<and> rpmsg_virtio_rx_callback demo_rx_ve demo_app t1 = Some t'
    \<and> app_ept_cb demo_app 0x900 0x300 0x9110 3 0x400 NULL u \<noteq> None \<and> mem_read (rv_mem u) 0x9110 3 = [7, 8, 9]"
proof -
  have io: "rv_shbuf_io demo_rv = Some demo_io" "cf_h2r_buf_size (rv_config demo_rv) = 64" by (simp_all add: demo_rv_def)
  have inside: "buffer_in demo_io 0x1100 (unat (cf_h2r_buf_size (rv_config demo_rv)))"
    by (simp add: io buffer_in_def demo_io_def no_ops_def)
  have pa: "virtqueue_virt_to_phys demo_vq 0x1100 = Some 0x4100"
    by (simp add: virtqueue_virt_to_phys_def demo_vq_def virtqueue_zero_def demo_io_def metal_io_virt_to_phys_def
        metal_io_virt_to_offset_def metal_io_phys_def no_ops_def)
  have n: "(3 :: nat) = min (nat 3) (unat (cf_h2r_buf_size (rv_config demo_rv)) - 16)" by (simp add: io)
  have nent: "vq_nentries peer_vq = vq_nentries demo_vq" by (simp add: peer_vq_def)
  have app: "\<forall>u. \<exists>r u2. app_ept_cb demo_app (ep_cb demo_ept) 0x300 (0x9100 + 16) 3 0x400 (ep_priv demo_ept) u = Some (r, u2)
      \<and> 0 \<le> r \<and> rx_keeps 0x9100 u u2" by (simp add: demo_app_def rx_keeps_def)
  have e: "demo_ept = rd_epts demo_peer 0x300" by (simp add: demo_peer_def demo_rv1_def demo_rv_def)
  obtain s' vq' rm' where r: "rpmsg_virtio_send_offchannel_raw demo_ve demo_rv 0x400 1024 (Local [7, 8, 9]) 3 True = Some (int 3, s')"
    "get_vq (rv_svq demo_rv) s' = Some (vq', rm')"
    "\<forall>m. mem_read m 0x9100 (16 + 3) = mem_read (rv_mem s') 0x1100 (16 + 3) \<longrightarrow>
         (\<exists>t1 t' vq2 rm2 u r u2. sees demo_peer peer_vq rm' m = Some t1 \<and> rpmsg_virtio_rx_callback demo_rx_ve demo_app t1 = Some t'
            \<and> app_ept_cb demo_app (ep_cb demo_ept) 0x300 (0x9100 + 16) 3 0x400 (ep_priv demo_ept) u = Some (r, u2)
            \<and> mem_read (rv_mem u) (0x9100 + 16) 3 = take 3 [7, 8, 9] \<and> rv_mem t' = set_reserved 0x9100 (ucast (0 :: u16)) (rv_mem u2)
            \<and> get_vq (rv_rvq demo_peer) t' = Some (vq2, rm2) \<and> rx_returned peer_vq rm' 0 rm2)"
    using message_end_to_end [OF demo_tx_ready io(1) inside pa _ _ n _ demo_peer_ready nent e app, of "[7, 8, 9]" True] by auto
  have "mem_read (\<lambda>a. rv_mem s' (a - 0x8000)) 0x9100 (16 + 3) = mem_read (rv_mem s') 0x1100 (16 + 3)"
    by (rule nth_equalityI) (simp_all add: nth_mem_read add.commute)
  then obtain t1 t' u r0 u2 where "sees demo_peer peer_vq rm' (\<lambda>a. rv_mem s' (a - 0x8000)) = Some t1"
    "rpmsg_virtio_rx_callback demo_rx_ve demo_app t1 = Some t'"
    "app_ept_cb demo_app (ep_cb demo_ept) 0x300 (0x9100 + 16) 3 0x400 (ep_priv demo_ept) u = Some (r0, u2)"
    "mem_read (rv_mem u) (0x9100 + 16) 3 = take 3 [7, 8, 9]" using r(3) by blast
  then show ?thesis using r(1,2) by (intro exI) (auto simp: demo_ept_def)
qed

end
