(* ===== verification/Rproc_Virtio.thy ===== *)
theory Rproc_Virtio
  imports Virtio
begin

unbundle bit_operations_syntax

text \<open>
  \<^verbatim>\<open>src/openamp/open-amp/lib/remoteproc/remoteproc_virtio.c\<close>: the virtio transport over a resource
  table. Status, features and configuration space of the device live in the table, in memory both
  processors see; the vrings are elsewhere and their rings are part of the vring descriptions. The
  calls of the notify function are recorded in \<open>rpv_kicks\<close>, the newest last. \<open>virtqueue_free\<close> leaves
  the pointer in place: \<open>rpv_freed\<close> holds the positions whose queue was freed, and freeing one again
  is undefined.
\<close>

section \<open>Data\<close>

abbreviation (input) RSC_NOTIFY_ID_ANY :: u32 where "RSC_NOTIFY_ID_ANY \<equiv> 0xFFFFFFFF"
abbreviation (input) RPROC_MAX_VRING_DESC :: u32 where "RPROC_MAX_VRING_DESC \<equiv> 0xFFFF"
abbreviation (input) RPROC_EINVAL :: int where "RPROC_EINVAL \<equiv> 2"
abbreviation (input) STATUS_DRIVER_OK :: u8 where "STATUS_DRIVER_OK \<equiv> 4"
abbreviation (input) STATUS_NEEDS_RESET :: u8 where "STATUS_NEEDS_RESET \<equiv> 0x40"

text \<open>The offsets of the packed \<^verbatim>\<open>struct fw_rsc_vdev\<close> and of its array of vrings.\<close>

abbreviation (input) VDEV_ID :: addr where "VDEV_ID \<equiv> 4"
abbreviation (input) VDEV_NOTIFYID :: addr where "VDEV_NOTIFYID \<equiv> 8"
abbreviation (input) VDEV_DFEATURES :: addr where "VDEV_DFEATURES \<equiv> 12"
abbreviation (input) VDEV_GFEATURES :: addr where "VDEV_GFEATURES \<equiv> 16"
abbreviation (input) VDEV_CONFIG_LEN :: addr where "VDEV_CONFIG_LEN \<equiv> 20"
abbreviation (input) VDEV_STATUS :: addr where "VDEV_STATUS \<equiv> 24"
abbreviation (input) VDEV_NUM_VRINGS :: addr where "VDEV_NUM_VRINGS \<equiv> 25"

definition vdev_vring :: "addr \<Rightarrow> nat \<Rightarrow> addr" where
  "vdev_vring rsc i = rsc + 28 + 20 * of_nat i"

record remoteproc_virtio = virtio_dev +
  rpv_mem :: mem
  rpv_rsc :: addr
  rpv_rsc_io :: "metal_io_region option"
  rpv_kicks :: "u32 list"
  rpv_freed :: "nat list"

definition rpv_notify :: "u32 \<Rightarrow> remoteproc_virtio \<Rightarrow> remoteproc_virtio" where
  "rpv_notify i v = v\<lparr>rpv_kicks := rpv_kicks v @ [i]\<rparr>"

section \<open>Virtqueues\<close>

fun delete_vqs :: "nat \<Rightarrow> nat \<Rightarrow> remoteproc_virtio \<Rightarrow> remoteproc_virtio option" where
  "delete_vqs 0 i v = Some v"
| "delete_vqs (Suc k) i v = do {
     vi \<leftarrow> arr_get (vd_vrings_info v) i;
     (case vi_vq vi of
        None \<Rightarrow> delete_vqs k (Suc i) v
      | Some vq \<Rightarrow> do {
          require (i \<notin> set (rpv_freed v));
          delete_vqs k (Suc i) (v\<lparr>rpv_freed := i # rpv_freed v\<rparr>)
        })
   }"

definition rproc_virtio_delete_virtqueues :: "remoteproc_virtio \<Rightarrow> remoteproc_virtio option" where
  "rproc_virtio_delete_virtqueues v = delete_vqs (unat (vd_vrings_num v)) 0 v"

text \<open>\<open>alloc i\<close> tells whether the allocation of queue \<open>i\<close> succeeds; \<open>notify\<close> is the entry of the table.\<close>

definition rproc_virtio_create_virtqueue ::
  "build \<Rightarrow> (nat \<Rightarrow> bool) \<Rightarrow> addr \<Rightarrow> nat \<Rightarrow> string \<Rightarrow> addr \<Rightarrow> remoteproc_virtio \<Rightarrow>
   (int \<times> remoteproc_virtio) option" where
  "rproc_virtio_create_virtqueue b alloc notify idx name callback v = do {
     vi \<leftarrow> arr_get (vd_vrings_info v) idx;
     if vi_vq vi \<noteq> None then Some (ERROR_VQUEUE_INVLD_PARAM, v)
     else (case virtqueue_allocate (alloc idx) (unat (ai_num_descs (vi_info vi))) of
         None \<Rightarrow> Some (ERROR_NO_MEM, v)
       | Some vq \<Rightarrow> do {
           rm1 \<leftarrow> (if VIRTIO_ROLE_IS_DRIVER b v then do {
                     io \<leftarrow> vi_io vi;
                     vring_clear io (vi_info vi) (vi_ring vi)
                   } else Some (vi_ring vi));
           (ret, vq', rm2) \<leftarrow> virtqueue_create b v (of_nat idx) name (vi_info vi) callback notify vq rm1;
           infos \<leftarrow> arr_set (vd_vrings_info v) idx (vi\<lparr>vi_vq := Some vq', vi_ring := rm2\<rparr>);
           Some (ret, v\<lparr>vd_vrings_info := infos\<rparr>)
         })
   }"

fun create_vqs ::
  "build \<Rightarrow> (nat \<Rightarrow> bool) \<Rightarrow> addr \<Rightarrow> nat \<Rightarrow> nat \<Rightarrow> string list \<Rightarrow> addr list \<Rightarrow> remoteproc_virtio \<Rightarrow>
   (int \<times> remoteproc_virtio) option" where
  "create_vqs b alloc notify 0 i names callbacks v = Some (0, v)"
| "create_vqs b alloc notify (Suc k) i names callbacks v = do {
     name \<leftarrow> arr_get names i;
     cb \<leftarrow> arr_get callbacks i;
     (ret, v') \<leftarrow> rproc_virtio_create_virtqueue b alloc notify i name cb v;
     if ret \<noteq> 0 then do {
       v'' \<leftarrow> rproc_virtio_delete_virtqueues v';
       Some (ret, v'')
     } else create_vqs b alloc notify k (Suc i) names callbacks v'
   }"

definition rproc_virtio_create_virtqueues ::
  "build \<Rightarrow> (nat \<Rightarrow> bool) \<Rightarrow> addr \<Rightarrow> remoteproc_virtio \<Rightarrow> nat \<Rightarrow> string list \<Rightarrow> addr list \<Rightarrow>
   addr list option \<Rightarrow>   (int \<times> remoteproc_virtio) option" where
  "rproc_virtio_create_virtqueues b alloc notify v nvqs names callbacks callback_args =
     (if unat (vd_vrings_num v) < nvqs then Some (ERROR_VQUEUE_INVLD_PARAM, v)
      else create_vqs b alloc notify nvqs 0 names callbacks v)"

definition rproc_virtio_virtqueue_notify :: "virtqueue \<Rightarrow> remoteproc_virtio \<Rightarrow> remoteproc_virtio option" where
  "rproc_virtio_virtqueue_notify vq v = do {
     require (ucast (vq_queue_index vq) < vd_vrings_num v);
     vi \<leftarrow> arr_get (vd_vrings_info v) (unat (vq_queue_index vq));
     Some (rpv_notify (vi_notifyid vi) v)
   }"

section \<open>Status, features and configuration in the table\<close>

definition rproc_virtio_get_status :: "remoteproc_virtio \<Rightarrow> u8 option" where
  "rproc_virtio_get_status v = do {
     io \<leftarrow> rpv_rsc_io v;
     metal_io_read8 (rpv_mem v) io (metal_io_virt_to_offset io (rpv_rsc v + VDEV_STATUS))
   }"

definition rproc_virtio_set_status :: "remoteproc_virtio \<Rightarrow> u8 \<Rightarrow> remoteproc_virtio option" where
  "rproc_virtio_set_status v status = do {
     io \<leftarrow> rpv_rsc_io v;
     m \<leftarrow> metal_io_write8 (rpv_mem v) io (metal_io_virt_to_offset io (rpv_rsc v + VDEV_STATUS)) status;
     Some (rpv_notify (vd_notifyid v) (v\<lparr>rpv_mem := m\<rparr>))
   }"

definition rproc_virtio_get_dfeatures :: "remoteproc_virtio \<Rightarrow> u32 option" where
  "rproc_virtio_get_dfeatures v = do {
     io \<leftarrow> rpv_rsc_io v;
     metal_io_read32 (rpv_mem v) io (metal_io_virt_to_offset io (rpv_rsc v + VDEV_DFEATURES))
   }"

definition rproc_virtio_get_features :: "remoteproc_virtio \<Rightarrow> u32 option" where
  "rproc_virtio_get_features v = do {
     io \<leftarrow> rpv_rsc_io v;
     gfeatures \<leftarrow> metal_io_read32 (rpv_mem v) io (metal_io_virt_to_offset io (rpv_rsc v + VDEV_GFEATURES));
     dfeatures \<leftarrow> rproc_virtio_get_dfeatures v;
     Some (dfeatures AND gfeatures)
   }"

definition rproc_virtio_set_features :: "remoteproc_virtio \<Rightarrow> u32 \<Rightarrow> remoteproc_virtio option" where
  "rproc_virtio_set_features v features = do {
     io \<leftarrow> rpv_rsc_io v;
     m \<leftarrow> metal_io_write32 (rpv_mem v) io (metal_io_virt_to_offset io (rpv_rsc v + VDEV_GFEATURES)) features;
     Some (rpv_notify (vd_notifyid v) (v\<lparr>rpv_mem := m\<rparr>))
   }"

definition rproc_virtio_negotiate_features :: "remoteproc_virtio \<Rightarrow> u32 \<Rightarrow> (u32 \<times> remoteproc_virtio) option" where
  "rproc_virtio_negotiate_features v features = do {
     df \<leftarrow> rproc_virtio_get_dfeatures v;
     v' \<leftarrow> rproc_virtio_set_features v (features AND df);
     Some (features AND df, v')
   }"

text \<open>
  The configuration space follows the vrings. \<open>config_ok\<close> is the bounds check, in 32-bit unsigned
  arithmetic. A read returns the bytes it stores at \<open>dst\<close>, nothing when the check fails.
\<close>

definition config_addr :: "remoteproc_virtio \<Rightarrow> addr" where
  "config_addr v = vdev_vring (rpv_rsc v) (unat (vd_vrings_num v))"

definition config_ok :: "remoteproc_virtio \<Rightarrow> u32 \<Rightarrow> int \<Rightarrow> bool" where
  "config_ok v offset len = (offset + word_of_int len \<le> load32 (rpv_mem v) (rpv_rsc v + VDEV_CONFIG_LEN))"

definition rproc_virtio_read_config :: "remoteproc_virtio \<Rightarrow> u32 \<Rightarrow> int \<Rightarrow> u8 list option" where
  "rproc_virtio_read_config v offset len =
     (if config_ok v offset len then do {
        io \<leftarrow> rpv_rsc_io v;
        require (0 \<le> len);
        io_get (rpv_mem v) io (metal_io_virt_to_offset io (config_addr v + ucast offset)) [] (nat len)
      } else Some [])"

definition rproc_virtio_write_config ::
  "remoteproc_virtio \<Rightarrow> u32 \<Rightarrow> u8 list \<Rightarrow> int \<Rightarrow> remoteproc_virtio option" where
  "rproc_virtio_write_config v offset src len =
     (if config_ok v offset len then do {
        io \<leftarrow> rpv_rsc_io v;
        require (0 \<le> len \<and> nat len \<le> length src);
        (_, m) \<leftarrow> io_put (rpv_mem v) io (metal_io_virt_to_offset io (config_addr v + ucast offset)) (take (nat len) src);
        Some (rpv_notify (vd_notifyid v) (v\<lparr>rpv_mem := m\<rparr>))
      } else Some v)"

definition rproc_virtio_reset_device :: "remoteproc_virtio \<Rightarrow> remoteproc_virtio option" where
  "rproc_virtio_reset_device v =
     (if vd_role v = VIRTIO_DEV_DRIVER then rproc_virtio_set_status v STATUS_NEEDS_RESET else Some v)"

definition remoteproc_virtio_dispatch_funcs ::
  "build \<Rightarrow> (nat \<Rightarrow> bool) \<Rightarrow> addr \<Rightarrow> remoteproc_virtio virtio_dispatch" where
  "remoteproc_virtio_dispatch_funcs b alloc notify =
     (let drv = VIRTIO_DRIVER_SUPPORT b in
      \<lparr>vf_create_virtqueues = Some (rproc_virtio_create_virtqueues b alloc notify),
       vf_delete_virtqueues = Some rproc_virtio_delete_virtqueues,
       vf_get_status = Some rproc_virtio_get_status,
       vf_set_status = (if drv then Some rproc_virtio_set_status else None),
       vf_get_features = Some (\<lambda>v. map_option (\<lambda>fs. (fs, v)) (rproc_virtio_get_features v)),
       vf_set_features = (if drv then Some rproc_virtio_set_features else None),
       vf_negotiate_features = (if drv then Some rproc_virtio_negotiate_features else None),
       vf_read_config = Some rproc_virtio_read_config,
       vf_write_config = (if drv then Some rproc_virtio_write_config else None),
       vf_reset_device = (if drv then Some rproc_virtio_reset_device else None),
       vf_notify = notify\<rparr>)"

section \<open>Devices\<close>

definition no_ring :: vring_mem where
  "no_ring = \<lparr>vm_desc = [], vm_avail = \<lparr>av_flags = 0, av_idx = 0, av_ring = [], av_used_event = 0\<rparr>,
     vm_used = \<lparr>us_flags = 0, us_idx = 0, us_ring = [], us_avail_event = 0\<rparr>\<rparr>"

definition zero_vring :: virtio_vring_info where
  "zero_vring = \<lparr>vi_vq = None, vi_info = \<lparr>ai_vaddr = NULL, ai_align = 0, ai_num_descs = 0\<rparr>, vi_notifyid = 0,
     vi_io = None, vi_ring = no_ring\<rparr>"

text \<open>The two allocations succeed or not (\<open>ok1\<close>, \<open>ok2\<close>); \<open>None\<close> inside is the NULL pointer.\<close>

definition rproc_virtio_create_vdev ::
  "build \<Rightarrow> bool \<Rightarrow> bool \<Rightarrow> mem \<Rightarrow> u32 \<Rightarrow> u32 \<Rightarrow> addr \<Rightarrow> metal_io_region option \<Rightarrow>
   remoteproc_virtio option option" where
  "rproc_virtio_create_vdev b ok1 ok2 m role notifyid rsc rsc_io =
     (let n = unat (m (rsc + VDEV_NUM_VRINGS)) in
      if \<not> ok1 \<or> \<not> ok2 then Some None
      else do {
        let v = \<lparr>vd_notifyid = notifyid, vd_id = \<lparr>id_device = load32 m (rsc + VDEV_ID), id_vendor = 0, id_version = 0\<rparr>,
                  vd_features = 0, vd_role = role, vd_vrings_num = of_nat n, vd_vrings_info = replicate n zero_vring,
                  rpv_mem = m, rpv_rsc = rsc, rpv_rsc_io = rsc_io, rpv_kicks = [], rpv_freed = []\<rparr>;
        if VIRTIO_DRIVER_SUPPORT b \<and> role = VIRTIO_DEV_DRIVER then do {
          df \<leftarrow> rproc_virtio_get_dfeatures v;
          (_, v') \<leftarrow> rproc_virtio_negotiate_features v df;
          Some (Some v')
        } else Some (Some v)
      })"

text \<open>\<open>rm\<close> is what the memory at \<open>va\<close> holds, seen as a ring.\<close>

definition rproc_virtio_init_vring ::
  "nat \<Rightarrow> u32 \<Rightarrow> addr \<Rightarrow> metal_io_region option \<Rightarrow> u32 \<Rightarrow> u32 \<Rightarrow> vring_mem \<Rightarrow> remoteproc_virtio \<Rightarrow>
   (int \<times> remoteproc_virtio) option" where
  "rproc_virtio_init_vring index notifyid va io num_descs align rm v =
     (if unat (vd_vrings_num v) \<le> index \<or> RPROC_MAX_VRING_DESC < num_descs then Some (- RPROC_EINVAL, v)
      else do {
        vi \<leftarrow> arr_get (vd_vrings_info v) index;
        infos \<leftarrow> arr_set (vd_vrings_info v) index
          (vi\<lparr>vi_io := io, vi_notifyid := notifyid, vi_ring := rm,
              vi_info := \<lparr>ai_vaddr = va, ai_align = align, ai_num_descs = ucast num_descs\<rparr>\<rparr>);
        Some (0, v\<lparr>vd_vrings_info := infos\<rparr>)
      })"

text \<open>The positions of the queues whose callback runs; a vring without queue is a NULL dereference.\<close>

fun notified_vqs :: "u32 \<Rightarrow> nat \<Rightarrow> nat \<Rightarrow> virtio_vring_info list \<Rightarrow> nat list option" where
  "notified_vqs notifyid 0 i infos = Some []"
| "notified_vqs notifyid (Suc k) i infos = do {
     vi \<leftarrow> arr_get infos i;
     here \<leftarrow> (if vi_notifyid vi = notifyid \<or> notifyid = RSC_NOTIFY_ID_ANY then do {
                vq \<leftarrow> vi_vq vi;
                Some (if virtqueue_notification vq then [i] else [])
              } else Some []);
     rest \<leftarrow> notified_vqs notifyid k (Suc i) infos;
     Some (here @ rest)
   }"

definition rproc_virtio_notified :: "remoteproc_virtio option \<Rightarrow> u32 \<Rightarrow> (int \<times> nat list) option" where
  "rproc_virtio_notified vdev notifyid =
     (case vdev of None \<Rightarrow> Some (- RPROC_EINVAL, [])
      | Some v \<Rightarrow> if vd_notifyid v = notifyid then Some (0, [])
          else do {
            called \<leftarrow> notified_vqs notifyid (unat (vd_vrings_num v)) 0 (vd_vrings_info v);
            Some (0, called)
          })"

text \<open>\<open>peer\<close> is what the other processor does to the table between two polls.\<close>

partial_function (option) wait_ready :: "(mem \<Rightarrow> mem) \<Rightarrow> remoteproc_virtio \<Rightarrow> remoteproc_virtio option" where
  "wait_ready peer v = do {
     status \<leftarrow> rproc_virtio_get_status v;
     if status AND STATUS_DRIVER_OK \<noteq> 0 then Some v
     else wait_ready peer (v\<lparr>rpv_mem := peer (rpv_mem v)\<rparr>)
   }"

definition rproc_virtio_wait_remote_ready ::
  "build \<Rightarrow> (mem \<Rightarrow> mem) \<Rightarrow> remoteproc_virtio \<Rightarrow> remoteproc_virtio option" where
  "rproc_virtio_wait_remote_ready b peer v =
     (if VIRTIO_ROLE_IS_DRIVER b v then Some v else wait_ready peer v)"

section \<open>Reading back what was written\<close>

text \<open>The header of the device resource lies in its region, which has no hooks of its own.\<close>

definition table_ok :: "remoteproc_virtio \<Rightarrow> metal_io_region \<Rightarrow> bool" where
  "table_ok v io = (rpv_rsc_io v = Some io \<and> io_read (io_ops io) = None \<and> io_write (io_ops io) = None
     \<and> io_virt io \<noteq> METAL_BAD_VA \<and> unat (rpv_rsc v - io_virt io) + 28 \<le> unat (io_size io)
     \<and> rpv_rsc v \<noteq> NULL \<and> unat (rpv_rsc v) + 28 < 2 ^ 64)"

lemma of_to_le: "of_le (to_le n v) = take_bit (8 * n) v"
proof (induction n arbitrary: v)
  case (Suc n)
  have "(ucast (ucast v :: u8) :: u64) OR push_bit 8 (take_bit (8 * n) (drop_bit 8 v)) = take_bit (8 + 8 * n) v"
    by (rule bit_word_eqI) (auto simp: bit_simps)
  then show ?case using Suc by simp
qed simp

lemma ucast_u8_u64 [simp]: "(ucast (ucast (x :: u8) :: u64) :: u8) = x"
  by (rule bit_word_eqI) (simp add: bit_simps)

lemma length_to_le [simp]: "length (to_le n v) = n"
  by (induction n arbitrary: v) auto

lemma table_at:
  assumes "table_ok v io" and "unat k < 28"
  shows "metal_io_virt io (metal_io_virt_to_offset io (rpv_rsc v + k)) = rpv_rsc v + k" "rpv_rsc v + k \<noteq> NULL"
proof -
  let ?d = "rpv_rsc v - io_virt io"
  have fits: "unat ?d + 28 \<le> unat (io_size io)" using assms(1) by (simp add: table_ok_def)
  then have "unat ?d + unat k < 2 ^ 64" using assms(2) unat_lt_exp [of "io_size io"] by simp
  then have "unat (?d + k) = unat ?d + unat k" by (simp add: unat_word_ariths)
  then have lt: "rpv_rsc v + k - io_virt io < io_size io"
    using fits assms(2) by (simp add: word_less_nat_alt algebra_simps)
  have "unat (rpv_rsc v + k) = unat (rpv_rsc v) + unat k"
    using assms by (simp add: table_ok_def unat_word_ariths)
  moreover have "unat (rpv_rsc v) \<noteq> 0" using assms(1) by (simp add: table_ok_def unat_eq_zero)
  ultimately show "rpv_rsc v + k \<noteq> NULL" by (metis add_is_0 unsigned_0)
  show "metal_io_virt io (metal_io_virt_to_offset io (rpv_rsc v + k)) = rpv_rsc v + k"
    using lt assms(1) by (simp add: metal_io_virt_def metal_io_virt_to_offset_def Let_def table_ok_def)
qed

lemma table_ok_mem [simp]:
  "table_ok (v\<lparr>rpv_mem := m\<rparr>) io = table_ok v io" "table_ok (rpv_notify i v) io = table_ok v io"
  by (simp_all add: table_ok_def rpv_notify_def)

lemma table_read8:
  assumes "table_ok v io" and "unat k < 28"
  shows "metal_io_read8 m io (metal_io_virt_to_offset io (rpv_rsc v + k)) = Some (m (rpv_rsc v + k))"
  using table_at [OF assms] assms(1) by (simp add: metal_io_read8_def metal_io_read_def table_ok_def)

lemma table_write8:
  assumes "table_ok v io" and "unat k < 28"
  shows "metal_io_write8 m io (metal_io_virt_to_offset io (rpv_rsc v + k)) x = Some (m(rpv_rsc v + k := x))"
  using table_at [OF assms] assms(1) by (simp add: metal_io_write8_def metal_io_write_def table_ok_def)

lemma table_read32:
  assumes "table_ok v io" and "unat k < 28"
  shows "metal_io_read32 m io (metal_io_virt_to_offset io (rpv_rsc v + k)) = Some (ucast (of_le (mem_read m (rpv_rsc v + k) 4)))"
  using table_at [OF assms] assms(1) by (simp add: metal_io_read32_def metal_io_read_def table_ok_def)

lemma table_write32:
  assumes "table_ok v io" and "unat k < 28"
  shows "metal_io_write32 m io (metal_io_virt_to_offset io (rpv_rsc v + k)) x
    = Some (mem_write m (rpv_rsc v + k) (to_le 4 (ucast x)))"
  using table_at [OF assms] assms(1) by (simp add: metal_io_write32_def metal_io_write_def table_ok_def)

lemma read_written32: "(ucast (of_le (mem_read (mem_write m a (to_le 4 (ucast x))) a 4)) :: u32) = x"
proof -
  have "mem_read (mem_write m a (to_le 4 (ucast x))) a 4 = to_le 4 (ucast x)"
    using mem_read_write_same [of "to_le 4 (ucast x)" m a] by simp
  moreover have "(ucast (take_bit 32 (ucast x :: u64)) :: u32) = x"
    by (rule bit_word_eqI) (simp add: bit_simps)
  ultimately show ?thesis by (simp add: of_to_le)
qed

lemmas table_defs = rproc_virtio_get_status_def rproc_virtio_set_status_def rproc_virtio_get_features_def
  rproc_virtio_get_dfeatures_def rproc_virtio_set_features_def rproc_virtio_negotiate_features_def rpv_notify_def

lemma write32_elsewhere:
  assumes "k + 4 \<le> j \<or> j + 4 \<le> k" and "k < 28" and "j < 28"
  shows "mem_read (mem_write m (a + of_nat k) (to_le 4 x)) (a + of_nat j) 4 = mem_read m (a + of_nat j) 4"
  by (rule mem_read_write_disjoint) (use field_apart [of k 4 j 4 a] assms in simp)

lemma byte_elsewhere:
  assumes "k < j \<or> j + 4 \<le> k" and "k < 28" and "j < 28"
  shows "mem_read (m(a + of_nat k := x)) (a + of_nat j) 4 = mem_read m (a + of_nat j) 4"
proof -
  have "m(a + of_nat k := x) = mem_write m (a + of_nat k) [x]" by simp
  then show ?thesis
    using field_apart [of k 1 j 4 a] assms
    by (simp only:) (rule mem_read_write_disjoint, simp add: Suc_le_eq)
qed

text \<open>
  The status a driver sets through the transport is the status read back from the resource
  table, the negotiated features stay as they were, and the remote is notified once with the
  notification id of the device.
\<close>

theorem status_roundtrip:
  assumes "table_ok v io"
  shows "\<exists>v'. rproc_virtio_set_status v st = Some v' \<and> rproc_virtio_get_status v' = Some st
    \<and> rproc_virtio_get_features v' = rproc_virtio_get_features v
    \<and> rpv_kicks v' = rpv_kicks v @ [vd_notifyid v]"
proof -
  have io: "rpv_rsc_io v = Some io" using assms by (simp add: table_ok_def)
  show ?thesis
    using byte_elsewhere [of 24 12 "rpv_mem v" "rpv_rsc v" st] byte_elsewhere [of 24 16 "rpv_mem v" "rpv_rsc v" st]
    by (simp add: table_defs io table_write8 [OF assms] table_read8 [OF assms] table_read32 [OF assms])
qed

text \<open>
  Feature negotiation stores and returns exactly the requested features the device offers; this
  is what both sides read afterwards, and it never exceeds the offer.
\<close>

theorem negotiate_features_roundtrip:
  assumes "table_ok v io" and "rproc_virtio_get_dfeatures v = Some df"
  shows "\<exists>v'. rproc_virtio_negotiate_features v f = Some (f AND df, v')
    \<and> rproc_virtio_get_features v' = Some (f AND df) \<and> rproc_virtio_get_dfeatures v' = Some df
    \<and> rproc_virtio_get_status v' = rproc_virtio_get_status v \<and> rpv_kicks v' = rpv_kicks v @ [vd_notifyid v]"
proof -
  have io: "rpv_rsc_io v = Some io" using assms(1) by (simp add: table_ok_def)
  let ?m = "mem_write (rpv_mem v) (rpv_rsc v + 16) (to_le 4 (ucast (f AND df)))"
  have df: "ucast (of_le (mem_read (rpv_mem v) (rpv_rsc v + 12) 4)) = df"
    using assms(2) io by (simp add: rproc_virtio_get_dfeatures_def table_read32 [OF assms(1)])
  have other: "mem_read ?m (rpv_rsc v + 12) 4 = mem_read (rpv_mem v) (rpv_rsc v + 12) 4"
    using write32_elsewhere [of 16 12 "rpv_mem v" "rpv_rsc v" "ucast (f AND df)"] by simp
  have "disjoint_span (rpv_rsc v + of_nat 24) 1 (rpv_rsc v + of_nat 16) 4"
    by (rule field_apart) simp_all
  then have st: "?m (rpv_rsc v + 24) = rpv_mem v (rpv_rsc v + 24)"
    by (simp add: disjoint_span_def mem_write_outside)
  have new: "(ucast (of_le (mem_read ?m (rpv_rsc v + 16) 4)) :: u32) = f AND df" by (rule read_written32)
  have "df AND (f AND df) = f AND df" by (rule bit_word_eqI) (auto simp: bit_simps)
  then show ?thesis
    using df other st new
    by (simp add: table_defs io table_read32 [OF assms(1)] table_write32 [OF assms(1)] table_read8 [OF assms(1)])
qed

text \<open>
  The bounds check of the configuration space wraps: an access of \<open>len\<close> bytes at an \<open>offset\<close> within
  \<open>len\<close> of the end of the 32-bit range passes it, although the offset is far behind the space.
\<close>

theorem config_check_wraps:
  assumes "0 < len" and "len < 2 ^ 31" and "uint offset + len = 2 ^ 32 + k"
    and "0 \<le> k" and "k \<le> uint (load32 (rpv_mem v) (rpv_rsc v + VDEV_CONFIG_LEN))"
    and "uint (load32 (rpv_mem v) (rpv_rsc v + VDEV_CONFIG_LEN)) < 2 ^ 31"
  shows "config_ok v offset len \<and> uint (load32 (rpv_mem v) (rpv_rsc v + VDEV_CONFIG_LEN)) < uint offset"
proof -
  have "uint (offset + word_of_int len) = (uint offset + len) mod 2 ^ 32"
    by (simp add: uint_word_ariths take_bit_eq_mod uint_word_of_int mod_simps)
  also have "\<dots> = k" using assms(3-6) by simp
  finally show ?thesis using assms by (simp add: config_ok_def word_le_def)
qed

lemma delete_vqs_freed:
  assumes "delete_vqs k i v = Some v'"
  shows "vd_vrings_info v' = vd_vrings_info v \<and> vd_vrings_num v' = vd_vrings_num v \<and> set (rpv_freed v) \<subseteq> set (rpv_freed v')
    \<and> (\<forall>j. i \<le> j \<and> j < i + k \<longrightarrow> j < length (vd_vrings_info v)
         \<and> (vi_vq (vd_vrings_info v ! j) \<noteq> None \<longrightarrow> j \<in> set (rpv_freed v')))"
  using assms
proof (induction k arbitrary: i v)
  case (Suc k)
  have bound: "i < length (vd_vrings_info v)" using Suc.prems by (auto simp: opt_simps)
  obtain w where w: "delete_vqs k (Suc i) w = Some v'" "vd_vrings_info w = vd_vrings_info v"
    "vd_vrings_num w = vd_vrings_num v" "set (rpv_freed v) \<subseteq> set (rpv_freed w)"
    "vi_vq (vd_vrings_info v ! i) \<noteq> None \<longrightarrow> i \<in> set (rpv_freed w)"
  proof (cases "vi_vq (vd_vrings_info v ! i)")
    case None
    then show ?thesis using that [of v] Suc.prems bound by simp
  next
    case (Some q)
    then show ?thesis
      using that [of "v\<lparr>rpv_freed := i # rpv_freed v\<rparr>"] Suc.prems bound by (auto split: if_splits)
  qed
  have "j < length (vd_vrings_info v) \<and> (vi_vq (vd_vrings_info v ! j) \<noteq> None \<longrightarrow> j \<in> set (rpv_freed v'))"
    if "i \<le> j" "j < i + Suc k" for j
    using Suc.IH [OF w(1)] w bound that by (cases "j = i") auto
  then show ?case using Suc.IH [OF w(1)] w by auto
qed auto

lemma delete_vqs_again:
  assumes "i \<le> j" and "j < i + k" and "vi_vq (vd_vrings_info v ! j) \<noteq> None" and "j \<in> set (rpv_freed v)"
  shows "delete_vqs k i v = None"
  using assms
proof (induction k arbitrary: i v)
  case (Suc k)
  show ?case
  proof (cases "j = i")
    case True
    then show ?thesis using Suc.prems by (auto simp: arr_get_def split: option.splits)
  next
    case False
    then have none: "delete_vqs k (Suc i) w = None" if "vd_vrings_info w = vd_vrings_info v" "set (rpv_freed v) \<subseteq> set (rpv_freed w)" for w
      using Suc.IH [of "Suc i" w] Suc.prems that by auto
    show ?thesis
      using none [of v] none [of "v\<lparr>rpv_freed := i # rpv_freed v\<rparr>"]
      by (auto simp: arr_get_def split: option.splits)
  qed
qed simp

text \<open>
  Once the queues of a device were deleted, deleting them again frees them twice, and so does
  creating them again: the pointers are not cleared, the creation takes the first queue for one
  that exists, and its error path deletes all.
\<close>

theorem delete_leaves_dangling:
  assumes created: "vi_vq (vd_vrings_info v ! 0) \<noteq> None" and n: "0 < unat (vd_vrings_num v)"
    and del: "rproc_virtio_delete_virtqueues v = Some v'"
    and args: "0 < nvqs" "nvqs \<le> unat (vd_vrings_num v)" "names \<noteq> []" "callbacks \<noteq> []"
  shows "rproc_virtio_delete_virtqueues v' = None
    \<and> rproc_virtio_create_virtqueues b alloc notify v' nvqs names callbacks args = None"
proof -
  have v': "vd_vrings_info v' = vd_vrings_info v" "vd_vrings_num v' = vd_vrings_num v" "0 \<in> set (rpv_freed v')"
    "0 < length (vd_vrings_info v)"
    using delete_vqs_freed [OF del [unfolded rproc_virtio_delete_virtqueues_def]] created n by auto
  have again: "rproc_virtio_delete_virtqueues v' = None"
    using delete_vqs_again [of 0 0 "unat (vd_vrings_num v)" v'] v' created n
    by (simp add: rproc_virtio_delete_virtqueues_def)
  obtain k where k: "nvqs = Suc k" using args(1) by (cases nvqs) auto
  have "rproc_virtio_create_virtqueue b alloc notify 0 (names ! 0) (callbacks ! 0) v' = Some (ERROR_VQUEUE_INVLD_PARAM, v')"
    using v' created by (auto simp: rproc_virtio_create_virtqueue_def)
  then have "create_vqs b alloc notify (Suc k) 0 names callbacks v' = None"
    using again args by simp
  then show ?thesis using again args v' k by (simp add: rproc_virtio_create_virtqueues_def)
qed

section \<open>A concrete device\<close>

text \<open>A device resource at 0x1100 that offers the features 0 and 2 and sixteen bytes of configuration.\<close>

definition demo_rpv :: remoteproc_virtio where
  "demo_rpv = \<lparr>vd_notifyid = 9, vd_id = \<lparr>id_device = 7, id_vendor = 0, id_version = 0\<rparr>, vd_features = 0,
     vd_role = VIRTIO_DEV_DRIVER, vd_vrings_num = 1, vd_vrings_info = [demo_vring],
     rpv_mem = (\<lambda>_. 0)(0x110C := 5, 0x1114 := 16), rpv_rsc = 0x1100, rpv_rsc_io = Some demo_io,
     rpv_kicks = [], rpv_freed = []\<rparr>"

lemma demo_table_ok: "table_ok demo_rpv demo_io"
  by (simp add: table_ok_def demo_rpv_def demo_io_def no_ops_def)

lemma demo_config_len: "load32 (rpv_mem demo_rpv) (rpv_rsc demo_rpv + VDEV_CONFIG_LEN) = 16"
  by (simp add: demo_rpv_def load32_def of_le32_def mem_read_4)

theorem status_roundtrip_witness:
  "\<exists>v'. rproc_virtio_set_status demo_rpv STATUS_DRIVER_OK = Some v'
    \<and> rproc_virtio_get_status v' = Some STATUS_DRIVER_OK \<and> rpv_kicks v' = [9]"
  using status_roundtrip [OF demo_table_ok, of STATUS_DRIVER_OK] by (auto simp: demo_rpv_def)

theorem negotiate_features_roundtrip_witness:
  "\<exists>v'. rproc_virtio_negotiate_features demo_rpv 6 = Some (4, v') \<and> rproc_virtio_get_features v' = Some 4"
proof -
  have "rproc_virtio_get_dfeatures demo_rpv = Some 5"
    by (simp add: rproc_virtio_get_dfeatures_def demo_rpv_def demo_io_def metal_io_read32_def metal_io_read_def
        no_ops_def metal_io_virt_def metal_io_virt_to_offset_def Let_def mem_read_4)
  from negotiate_features_roundtrip [OF demo_table_ok this, of 6] show ?thesis by auto
qed

theorem config_check_wraps_witness:
  "config_ok demo_rpv 0xFFFFFFF8 16 \<and> (16 :: int) < uint (0xFFFFFFF8 :: u32)"
  using config_check_wraps [of 16 "0xFFFFFFF8" 8 demo_rpv] by (simp add: demo_config_len)

theorem delete_leaves_dangling_witness:
  "\<exists>v'. rproc_virtio_delete_virtqueues demo_rpv = Some v' \<and> rproc_virtio_delete_virtqueues v' = None"
proof -
  have del: "rproc_virtio_delete_virtqueues demo_rpv = Some (demo_rpv\<lparr>rpv_freed := [0]\<rparr>)"
    by (simp add: rproc_virtio_delete_virtqueues_def demo_rpv_def demo_vring_def)
  have "rproc_virtio_delete_virtqueues (demo_rpv\<lparr>rpv_freed := [0]\<rparr>) = None
    \<and> rproc_virtio_create_virtqueues default_build (\<lambda>_. True) 0x700 (demo_rpv\<lparr>rpv_freed := [0]\<rparr>) 1 [''rx_vq''] [0x800] None = None"
    by (rule delete_leaves_dangling [OF _ _ del]) (simp_all add: demo_rpv_def demo_vring_def)
  then show ?thesis using del by blast
qed

end
