(* ===== verification/Remoteproc.thy ===== *)
theory Remoteproc
  imports Rproc_Virtio Metal_Util
begin

unbundle bit_operations_syntax

text \<open>
  \<^verbatim>\<open>src/openamp/open-amp/lib/remoteproc/remoteproc.c\<close> and \<^verbatim>\<open>rsc_table_parser.c\<close>: the life cycle of a
  remote processor, its memories and address translation, notification ids, the resource table,
  and the virtio devices made from it. The platform's operations are a table of parameters over
  the whole state. A \<open>None\<close> remote processor is the NULL pointer. Loading of firmware is in the
  theory \<open>Rproc_Load\<close>.
\<close>

section \<open>Data\<close>

abbreviation (input) RPROC_ENOMEM :: int where "RPROC_ENOMEM \<equiv> 1"
abbreviation (input) RPROC_ENODEV :: int where "RPROC_ENODEV \<equiv> 3"
abbreviation (input) RPROC_EAGAIN :: int where "RPROC_EAGAIN \<equiv> 4"
abbreviation (input) RPROC_ERR_RSC_TAB_TRUNC :: int where "RPROC_ERR_RSC_TAB_TRUNC \<equiv> 5"
abbreviation (input) RPROC_ERR_RSC_TAB_VER :: int where "RPROC_ERR_RSC_TAB_VER \<equiv> 6"
abbreviation (input) RPROC_ERR_RSC_TAB_RSVD :: int where "RPROC_ERR_RSC_TAB_RSVD \<equiv> 7"
abbreviation (input) RPROC_ERR_RSC_TAB_NP :: int where "RPROC_ERR_RSC_TAB_NP \<equiv> 10"
abbreviation (input) RPROC_ERR_RSC_TAB_NS :: int where "RPROC_ERR_RSC_TAB_NS \<equiv> 11"
abbreviation (input) RPROC_MAX_NAME_LEN :: nat where "RPROC_MAX_NAME_LEN \<equiv> 32"
abbreviation (input) BAD_PHYS :: u64 where "BAD_PHYS \<equiv> - 1"
abbreviation (input) FW_RSC_U32_ADDR_ANY :: u32 where "FW_RSC_U32_ADDR_ANY \<equiv> 0xFFFFFFFF"

datatype remoteproc_state = RPROC_OFFLINE | RPROC_CONFIGURED | RPROC_READY | RPROC_RUNNING
  | RPROC_SUSPENDED | RPROC_ERROR | RPROC_STOPPED

text \<open>Error codes travel as pointers: the last sixteen addresses are errors.\<close>

definition RPROC_PTR_ERR :: "addr \<Rightarrow> int" where
  "RPROC_PTR_ERR ptr = sint ptr"

definition RPROC_IS_ERR :: "addr \<Rightarrow> bool" where
  "RPROC_IS_ERR ptr = (- 16 \<le> ptr)"

definition RPROC_ERR_PTR :: "int \<Rightarrow> addr" where
  "RPROC_ERR_PTR err = word_of_int err"

record remoteproc_mem =
  pm_da :: u64
  pm_pa :: u64
  pm_size :: u64
  pm_name :: "u8 list"
  pm_io :: "metal_io_region option"

text \<open>\<open>rp_mem\<close> is the memory of this processor; a virtio device gets it while it works.\<close>

record remoteproc =
  rp_lock :: bool
  rp_mem :: mem
  rp_rsc_table :: addr
  rp_rsc_len :: u64
  rp_rsc_io :: "metal_io_region option"
  rp_mems :: "remoteproc_mem list"
  rp_vdevs :: "remoteproc_virtio list"
  rp_bitmap :: u64
  rp_bootaddr :: u64
  rp_loader :: addr
  rp_state :: remoteproc_state
  rp_priv :: addr

record remoteproc_ops =
  po_init :: "(remoteproc \<Rightarrow> remoteproc option option) option"
  po_remove :: "(remoteproc \<Rightarrow> remoteproc option) option"
  po_mmap :: "(remoteproc \<Rightarrow> u64 \<Rightarrow> u64 \<Rightarrow> u64 \<Rightarrow> u32 \<Rightarrow> metal_io_region option \<Rightarrow>
    (addr \<times> u64 \<times> u64 \<times> metal_io_region option \<times> remoteproc) option) option"
  po_handle_rsc :: "(remoteproc \<Rightarrow> addr \<Rightarrow> u64 \<Rightarrow> (int \<times> remoteproc) option) option"
  po_config :: "(remoteproc \<Rightarrow> addr \<Rightarrow> (int \<times> remoteproc) option) option"
  po_start :: "(remoteproc \<Rightarrow> (int \<times> remoteproc) option) option"
  po_stop :: "(remoteproc \<Rightarrow> (int \<times> remoteproc) option) option"
  po_shutdown :: "(remoteproc \<Rightarrow> (int \<times> remoteproc) option) option"
  po_notify :: "(remoteproc \<Rightarrow> u32 \<Rightarrow> (int \<times> remoteproc) option) option"
  po_get_mem :: "(remoteproc \<Rightarrow> u8 list option \<Rightarrow> u64 \<Rightarrow> u64 \<Rightarrow> addr \<Rightarrow> u64 \<Rightarrow> remoteproc_mem option) option"

definition rp_acquire :: "remoteproc \<Rightarrow> remoteproc option" where
  "rp_acquire r = (if rp_lock r then None else Some (r\<lparr>rp_lock := True\<rparr>))"

definition rp_release :: "remoteproc \<Rightarrow> remoteproc" where
  "rp_release r = r\<lparr>rp_lock := False\<rparr>"

section \<open>Life cycle\<close>

definition remoteproc_init ::
  "remoteproc option \<Rightarrow> remoteproc_ops option \<Rightarrow> addr \<Rightarrow> remoteproc option option" where
  "remoteproc_init rproc ops priv =
     (case (rproc, ops) of
        (Some r, Some po) \<Rightarrow>
          (let r1 = \<lparr>rp_lock = False, rp_mem = rp_mem r, rp_rsc_table = NULL, rp_rsc_len = 0, rp_rsc_io = None,
                rp_mems = [], rp_vdevs = [], rp_bitmap = 0, rp_bootaddr = 0, rp_loader = NULL,
                rp_state = RPROC_OFFLINE, rp_priv = priv\<rparr>
           in (case po_init po of Some f \<Rightarrow> f r1 | None \<Rightarrow> Some (Some r1)))
      | _ \<Rightarrow> Some None)"

definition remoteproc_remove :: "remoteproc_ops \<Rightarrow> remoteproc option \<Rightarrow> (int \<times> remoteproc option) option" where
  "remoteproc_remove po rproc =
     (case rproc of None \<Rightarrow> Some (- RPROC_EINVAL, None)
      | Some r \<Rightarrow> do {
          r1 \<leftarrow> rp_acquire r;
          (ret, r2) \<leftarrow> (if rp_state r1 = RPROC_OFFLINE then
                          (case po_remove po of
                             Some f \<Rightarrow> map_option (\<lambda>r'. (0, r')) (f r1) | None \<Rightarrow> Some (0, r1))
                        else Some (- RPROC_EAGAIN, r1));
          Some (ret, Some (rp_release r2))
        })"

definition remoteproc_config ::
  "remoteproc_ops \<Rightarrow> addr \<Rightarrow> remoteproc option \<Rightarrow> (int \<times> remoteproc option) option" where
  "remoteproc_config po data rproc =
     (case rproc of None \<Rightarrow> Some (- RPROC_ENODEV, None)
      | Some r \<Rightarrow> do {
          r1 \<leftarrow> rp_acquire r;
          (ret, r2) \<leftarrow> (if rp_state r1 = RPROC_OFFLINE then do {
                          (ret, r') \<leftarrow> (case po_config po of Some f \<Rightarrow> f r1 data | None \<Rightarrow> Some (0, r1));
                          Some (ret, if ret = 0 then r'\<lparr>rp_state := RPROC_READY\<rparr> else r')
                        } else Some (- RPROC_EINVAL, r1));
          Some (ret, Some (rp_release r2))
        })"

definition remoteproc_start :: "remoteproc_ops \<Rightarrow> remoteproc option \<Rightarrow> (int \<times> remoteproc option) option" where
  "remoteproc_start po rproc =
     (case rproc of None \<Rightarrow> Some (- RPROC_ENODEV, None)
      | Some r \<Rightarrow> do {
          r1 \<leftarrow> rp_acquire r;
          (ret, r2) \<leftarrow> (if rp_state r1 = RPROC_READY then do {
                          (ret, r') \<leftarrow> (case po_start po of Some f \<Rightarrow> f r1 | None \<Rightarrow> Some (- RPROC_ENODEV, r1));
                          Some (ret, if ret = 0 then r'\<lparr>rp_state := RPROC_RUNNING\<rparr> else r')
                        } else Some (- RPROC_EINVAL, r1));
          Some (ret, Some (rp_release r2))
        })"

definition remoteproc_stop :: "remoteproc_ops \<Rightarrow> remoteproc option \<Rightarrow> (int \<times> remoteproc option) option" where
  "remoteproc_stop po rproc =
     (case rproc of None \<Rightarrow> Some (- RPROC_ENODEV, None)
      | Some r \<Rightarrow> do {
          r1 \<leftarrow> rp_acquire r;
          (ret, r2) \<leftarrow> (if rp_state r1 \<noteq> RPROC_STOPPED \<and> rp_state r1 \<noteq> RPROC_OFFLINE then do {
                          (ret, r') \<leftarrow> (case po_stop po of Some f \<Rightarrow> f r1 | None \<Rightarrow> Some (- RPROC_ENODEV, r1));
                          Some (ret, if ret = 0 then r'\<lparr>rp_state := RPROC_STOPPED, rp_bitmap := 0\<rparr> else r')
                        } else Some (0, r1));
          Some (ret, Some (rp_release r2))
        })"

definition remoteproc_shutdown :: "remoteproc_ops \<Rightarrow> remoteproc option \<Rightarrow> (int \<times> remoteproc option) option" where
  "remoteproc_shutdown po rproc =
     (case rproc of None \<Rightarrow> Some (- RPROC_ENODEV, None)
      | Some r \<Rightarrow> do {
          r1 \<leftarrow> rp_acquire r;
          (ret, r2) \<leftarrow>
            (if rp_state r1 \<noteq> RPROC_OFFLINE then do {
               (ret, r') \<leftarrow> (if rp_state r1 \<noteq> RPROC_STOPPED
                             then (case po_stop po of Some f \<Rightarrow> f r1 | None \<Rightarrow> Some (0, r1)) else Some (0, r1));
               if ret = 0 then do {
                 (ret, r'') \<leftarrow> (case po_shutdown po of Some f \<Rightarrow> f r' | None \<Rightarrow> Some (0, r'));
                 Some (ret, if ret = 0 then r''\<lparr>rp_state := RPROC_OFFLINE\<rparr> else r'')
               } else Some (ret, r')
             } else Some (0, r1));
          Some (ret, Some (rp_release r2))
        })"

section \<open>Memories\<close>

definition remoteproc_init_mem ::
  "u8 list option \<Rightarrow> u64 \<Rightarrow> u64 \<Rightarrow> u64 \<Rightarrow> metal_io_region option \<Rightarrow> remoteproc_mem option \<Rightarrow>
   remoteproc_mem option option" where
  "remoteproc_init_mem name pa da sz io pmem =
     (case (pmem, io) of
        (Some pm, Some _) \<Rightarrow>
          if sz = 0 then Some pmem
          else do {
            nm \<leftarrow> (case name of
                     Some n \<Rightarrow> map_option snd (safe_strcpy (pm_name pm) RPROC_MAX_NAME_LEN n RPROC_MAX_NAME_LEN)
                   | None \<Rightarrow> arr_set (pm_name pm) 0 0);
            Some (Some (pm\<lparr>pm_name := nm, pm_pa := pa, pm_da := da, pm_io := io, pm_size := sz\<rparr>))
          }
      | _ \<Rightarrow> Some pmem)"

definition remoteproc_add_mem :: "remoteproc_mem option \<Rightarrow> remoteproc option \<Rightarrow> remoteproc option" where
  "remoteproc_add_mem pmem rproc =
     (case (rproc, pmem) of
        (Some r, Some pm) \<Rightarrow> Some (r\<lparr>rp_mems := rp_mems r @ [pm]\<rparr>)
      | _ \<Rightarrow> rproc)"

text \<open>\<open>strlen\<close>; \<open>None\<close> when the array has no terminator.\<close>

fun c_strlen :: "u8 list \<Rightarrow> nat option" where
  "c_strlen [] = None"
| "c_strlen (c # cs) = (if c = 0 then Some 0 else map_option Suc (c_strlen cs))"

text \<open>The search through the list ends at a memory, without one, or returns NULL at once.\<close>

datatype mem_search = Found remoteproc_mem | Missing | Given_up

definition covers :: "u64 \<Rightarrow> u64 \<Rightarrow> u64 \<Rightarrow> u64 \<Rightarrow> bool" where
  "covers first sz a len = (first \<le> a \<and> a + len \<le> first + sz \<and> a < first + sz)"

fun search_mems ::
  "u8 list option \<Rightarrow> u64 \<Rightarrow> u64 \<Rightarrow> addr \<Rightarrow> u64 \<Rightarrow> remoteproc_mem list \<Rightarrow> mem_search option" where
  "search_mems name pa da va sz [] = Some Missing"
| "search_mems name pa da va sz (pm # pms) =
     (case name of
        Some n \<Rightarrow> do {
          same \<leftarrow> strn_eq RPROC_MAX_NAME_LEN n (pm_name pm);
          if same then Some (Found pm) else search_mems name pa da va sz pms
        }
      | None \<Rightarrow>
          if pa \<noteq> BAD_PHYS then
            (if covers (pm_pa pm) (pm_size pm) pa sz then Some (Found pm) else search_mems name pa da va sz pms)
          else if da \<noteq> BAD_PHYS then
            (if covers (pm_da pm) (pm_size pm) da sz then Some (Found pm) else search_mems name pa da va sz pms)
          else if va \<noteq> NULL then do {
            io \<leftarrow> pm_io pm;
            if metal_io_virt_to_offset io va \<noteq> METAL_BAD_OFFSET then Some (Found pm)
            else search_mems name pa da va sz pms
          }
          else Some Given_up)"

definition remoteproc_get_mem ::
  "remoteproc_ops \<Rightarrow> remoteproc \<Rightarrow> u8 list option \<Rightarrow> u64 \<Rightarrow> u64 \<Rightarrow> addr \<Rightarrow> u64 \<Rightarrow> remoteproc_mem option option" where
  "remoteproc_get_mem po r name pa da va sz = do {
     long \<leftarrow> (case name of None \<Rightarrow> Some False
              | Some n \<Rightarrow> map_option (\<lambda>l. RPROC_MAX_NAME_LEN < l) (c_strlen n));
     if long then Some None
     else do {
       res \<leftarrow> search_mems name pa da va sz (rp_mems r);
       Some (case res of
               Found pm \<Rightarrow> Some pm
             | Given_up \<Rightarrow> None
             | Missing \<Rightarrow> (case po_get_mem po of None \<Rightarrow> None | Some f \<Rightarrow> f r name pa da va sz))
     }
   }"

definition remoteproc_datopa :: "remoteproc_mem \<Rightarrow> u64 \<Rightarrow> u64" where
  "remoteproc_datopa pm da = pm_pa pm + da - pm_da pm"

definition remoteproc_patoda :: "remoteproc_mem \<Rightarrow> u64 \<Rightarrow> u64" where
  "remoteproc_patoda pm pa = pm_da pm + pa - pm_pa pm"

definition remoteproc_get_io_with_name ::
  "remoteproc_ops \<Rightarrow> remoteproc option \<Rightarrow> u8 list option \<Rightarrow> metal_io_region option option" where
  "remoteproc_get_io_with_name po rproc name =
     (case rproc of None \<Rightarrow> Some None
      | Some r \<Rightarrow> do {
          pm \<leftarrow> remoteproc_get_mem po r name BAD_PHYS BAD_PHYS NULL 0;
          Some (Option.bind pm pm_io)
        })"

definition remoteproc_get_io_with_pa ::
  "remoteproc_ops \<Rightarrow> remoteproc option \<Rightarrow> u64 \<Rightarrow> metal_io_region option option" where
  "remoteproc_get_io_with_pa po rproc pa =
     (case rproc of None \<Rightarrow> Some None
      | Some r \<Rightarrow> do {
          pm \<leftarrow> remoteproc_get_mem po r None pa BAD_PHYS NULL 0;
          Some (Option.bind pm pm_io)
        })"

text \<open>The region and the offset of a device address; \<open>offset\<close> tells that the caller's pointer is not NULL.\<close>

definition remoteproc_get_io_with_da ::
  "remoteproc_ops \<Rightarrow> remoteproc option \<Rightarrow> u64 \<Rightarrow> bool \<Rightarrow> (metal_io_region \<times> u64) option option" where
  "remoteproc_get_io_with_da po rproc da offset =
     (case rproc of None \<Rightarrow> Some None
      | Some r \<Rightarrow> if \<not> offset then Some None
          else do {
            pm \<leftarrow> remoteproc_get_mem po r None BAD_PHYS da NULL 0;
            (case pm of None \<Rightarrow> Some None
             | Some q \<Rightarrow> do {
                 io \<leftarrow> pm_io q;
                 off \<leftarrow> metal_io_phys_to_offset io (remoteproc_datopa q da);
                 Some (Some (io, off))
               })
          })"

definition remoteproc_get_io_with_va ::
  "remoteproc_ops \<Rightarrow> remoteproc option \<Rightarrow> addr \<Rightarrow> metal_io_region option option" where
  "remoteproc_get_io_with_va po rproc va =
     (case rproc of None \<Rightarrow> Some None
      | Some r \<Rightarrow> do {
          pm \<leftarrow> remoteproc_get_mem po r None BAD_PHYS BAD_PHYS va 0;
          Some (Option.bind pm pm_io)
        })"

text \<open>
  \<open>pa\<close> and \<open>da\<close> are \<open>None\<close> for a NULL pointer; \<open>io\<close> is what \<open>*io\<close> holds before the call. The result
  is the virtual address (NULL if there is none), the two addresses, \<open>*io\<close> and the processor.
\<close>

definition remoteproc_mmap ::
  "remoteproc_ops \<Rightarrow> remoteproc \<Rightarrow> u64 option \<Rightarrow> u64 option \<Rightarrow> u64 \<Rightarrow> u32 \<Rightarrow> metal_io_region option \<Rightarrow>
   (addr \<times> u64 option \<times> u64 option \<times> metal_io_region option \<times> remoteproc) option" where
  "remoteproc_mmap po r pa da sz attribute io =
     (if sz = 0 \<or> (pa = None \<and> da = None) then Some (NULL, pa, da, io, r)
      else do {
        let lpa = (case pa of Some a \<Rightarrow> a | None \<Rightarrow> BAD_PHYS);
        let lda = (case da of Some a \<Rightarrow> a | None \<Rightarrow> BAD_PHYS);
        pm \<leftarrow> remoteproc_get_mem po r None lpa lda NULL sz;
        (va, lpa', lda', io', r') \<leftarrow>
          (case pm of
             Some q \<Rightarrow> do {
               let lda' = (if lpa \<noteq> BAD_PHYS then remoteproc_patoda q lpa else lda);
               let lpa' = (if lpa \<noteq> BAD_PHYS then lpa else if lda \<noteq> BAD_PHYS then remoteproc_datopa q lda else lpa);
               reg \<leftarrow> pm_io q;
               va \<leftarrow> metal_io_phys_to_virt reg lpa';
               Some (va, lpa', lda', Some reg, r)
             }
           | None \<Rightarrow> (case po_mmap po of
               Some f \<Rightarrow> f r lpa lda sz attribute io
             | None \<Rightarrow> Some (NULL, lpa, lda, io, r)));
        Some (va, map_option (\<lambda>_. lpa') pa, map_option (\<lambda>_. lda') da, io', r')
      })"

section \<open>Notification ids\<close>

definition remoteproc_allocate_id :: "remoteproc \<Rightarrow> u32 \<Rightarrow> u32 \<Rightarrow> (u32 \<times> remoteproc) option" where
  "remoteproc_allocate_id r start end_id =
     (let first = (if start = RSC_NOTIFY_ID_ANY then 0 else start);
          last = (if end_id = RSC_NOTIFY_ID_ANY then 64 else end_id)
      in if first < 64 \<and> last \<le> 64 then do {
           notifyid \<leftarrow> metal_bitmap_next_clear_bit [rp_bitmap r] first last;
           if notifyid \<noteq> last then do {
             bm \<leftarrow> metal_bitmap_set_bit [rp_bitmap r] (unat notifyid);
             Some (notifyid, r\<lparr>rp_bitmap := hd bm\<rparr>)
           } else Some (RSC_NOTIFY_ID_ANY, r)
         } else Some (RSC_NOTIFY_ID_ANY, r))"

section \<open>The resource table\<close>

text \<open>The table and its entries are read in place: \<open>rsc\<close> is the address of an entry.\<close>

definition rp_load :: "remoteproc \<Rightarrow> addr \<Rightarrow> u32" where
  "rp_load r a = load32 (rp_mem r) a"

definition rp_store :: "addr \<Rightarrow> u32 \<Rightarrow> remoteproc \<Rightarrow> remoteproc" where
  "rp_store a w r = r\<lparr>rp_mem := store32 (rp_mem r) a w\<rparr>"

definition rp_clear_id :: "u32 \<Rightarrow> remoteproc \<Rightarrow> remoteproc option" where
  "rp_clear_id i r = do {
     bm \<leftarrow> metal_bitmap_clear_bit [rp_bitmap r] (unat i);
     Some (r\<lparr>rp_bitmap := hd bm\<rparr>)
   }"

definition handle_carve_out_rsc :: "remoteproc_ops \<Rightarrow> remoteproc \<Rightarrow> addr \<Rightarrow> (int \<times> remoteproc) option" where
  "handle_carve_out_rsc po r rsc =
     (if rsc = NULL then Some (- RPROC_ERR_RSC_TAB_NP, r)
      else if rp_load r (rsc + 20) \<noteq> 0 then Some (- RPROC_ERR_RSC_TAB_RSVD, r)
      else do {
        (va, _, _, _, r') \<leftarrow> remoteproc_mmap po r (Some (ucast (rp_load r (rsc + 8)))) (Some (ucast (rp_load r (rsc + 4))))
            (ucast (rp_load r (rsc + 12))) (rp_load r (rsc + 16)) None;
        Some (if va \<noteq> NULL then 0 else - RPROC_EINVAL, r')
      })"

definition handle_trace_rsc :: "remoteproc \<Rightarrow> addr \<Rightarrow> int" where
  "handle_trace_rsc r rsc =
     (if rp_load r (rsc + 4) \<noteq> FW_RSC_U32_ADDR_ANY \<and> rp_load r (rsc + 8) \<noteq> 0 then 0 else - RPROC_ERR_RSC_TAB_NS)"

definition alloc_entry :: "remoteproc \<Rightarrow> addr \<Rightarrow> (u32 \<times> remoteproc) option" where
  "alloc_entry r field =
     (let i = rp_load r field in
      remoteproc_allocate_id r i (if i = RSC_NOTIFY_ID_ANY then RSC_NOTIFY_ID_ANY else i + 1))"

text \<open>The loop over the vrings: \<open>Inl i\<close> when no id is left for vring \<open>i\<close>.\<close>

fun assign_vrings :: "nat \<Rightarrow> nat \<Rightarrow> addr \<Rightarrow> remoteproc \<Rightarrow> ((nat + unit) \<times> remoteproc) option" where
  "assign_vrings 0 i rsc r = Some (Inr (), r)"
| "assign_vrings (Suc k) i rsc r = do {
     let field = vdev_vring rsc i + 12;
     (notifyid, r1) \<leftarrow> alloc_entry r field;
     if notifyid \<noteq> RSC_NOTIFY_ID_ANY then assign_vrings k (Suc i) rsc (rp_store field notifyid r1)
     else Some (Inl i, r1)
   }"

text \<open>The error path: the ids of the vrings \<open>i - 1, \<dots>, 0\<close> are given back.\<close>

fun release_vrings :: "nat \<Rightarrow> addr \<Rightarrow> remoteproc \<Rightarrow> remoteproc option" where
  "release_vrings 0 rsc r = Some r"
| "release_vrings (Suc i) rsc r = do {
     r1 \<leftarrow> rp_clear_id (rp_load r (vdev_vring rsc i + 12)) r;
     release_vrings i rsc r1
   }"

definition handle_vdev_rsc :: "remoteproc \<Rightarrow> addr \<Rightarrow> (int \<times> remoteproc) option" where
  "handle_vdev_rsc r rsc = do {
     (notifyid, r1) \<leftarrow> alloc_entry r (rsc + VDEV_NOTIFYID);
     if notifyid = RSC_NOTIFY_ID_ANY then Some (- RPROC_ERR_RSC_TAB_NP, r1)
     else do {
       let r2 = rp_store (rsc + VDEV_NOTIFYID) notifyid r1;
       (done, r3) \<leftarrow> assign_vrings (unat (rp_mem r2 (rsc + VDEV_NUM_VRINGS))) 0 rsc r2;
       (case done of
          Inr _ \<Rightarrow> Some (0, r3)
        | Inl i \<Rightarrow> do {
            r4 \<leftarrow> release_vrings i rsc r3;
            r5 \<leftarrow> rp_clear_id (rp_load r4 (rsc + VDEV_NOTIFYID)) r4;
            Some (- RPROC_ERR_RSC_TAB_NP, r5)
          })
     }
   }"

definition handle_vendor_rsc :: "remoteproc_ops \<Rightarrow> remoteproc \<Rightarrow> addr \<Rightarrow> (int \<times> remoteproc) option" where
  "handle_vendor_rsc po r rsc =
     (case po_handle_rsc po of
        Some f \<Rightarrow> f r rsc (ucast (rp_load r (rsc + 4)))
      | None \<Rightarrow> Some (- RPROC_ERR_RSC_TAB_NS, r))"

definition handle_dummy_rsc :: "remoteproc \<Rightarrow> addr \<Rightarrow> int" where
  "handle_dummy_rsc r rsc = - RPROC_ERR_RSC_TAB_NS"

text \<open>One entry: the handler its type selects; a type without handler leaves \<open>status\<close> as it is.\<close>

definition handle_entry :: "remoteproc_ops \<Rightarrow> int \<Rightarrow> addr \<Rightarrow> remoteproc \<Rightarrow> (int \<times> remoteproc) option" where
  "handle_entry po status hdr r =
     (let rsc_type = rp_load r hdr in
      if rsc_type = 0 then handle_carve_out_rsc po r hdr
      else if rsc_type = 1 then Some (handle_dummy_rsc r hdr, r)
      else if rsc_type = 2 then Some (handle_trace_rsc r hdr, r)
      else if rsc_type = 3 then handle_vdev_rsc r hdr
      else if 128 \<le> rsc_type \<and> rsc_type \<le> 512 then handle_vendor_rsc po r hdr
      else Some (status, r))"

definition rsc_entry :: "remoteproc \<Rightarrow> addr \<Rightarrow> nat \<Rightarrow> addr" where
  "rsc_entry r table i = table + ucast (rp_load r (table + 16 + 4 * of_nat i))"

text \<open>The number of entries is read again in every round: a handler may write to the table.\<close>

function handle_entries ::
  "remoteproc_ops \<Rightarrow> metal_io_region option \<Rightarrow> addr \<Rightarrow> nat \<Rightarrow> int \<Rightarrow> remoteproc \<Rightarrow> (int \<times> remoteproc) option" where
  "handle_entries po io table idx status r =
     (if idx < unat (rp_load r (table + 4)) then
        (let hdr = rsc_entry r table idx in
         if io \<noteq> None \<and> metal_io_virt_to_offset (the io) hdr = METAL_BAD_OFFSET
         then Some (- RPROC_ERR_RSC_TAB_TRUNC, r)
         else do {
           (st, r') \<leftarrow> handle_entry po status hdr r;
           if st = - RPROC_ERR_RSC_TAB_NS then handle_entries po io table (Suc idx) 0 r'
           else if st \<noteq> 0 then Some (st, r')
           else handle_entries po io table (Suc idx) st r'
         })
      else Some (status, r))"
  by pat_completeness auto
termination
proof (relation "measure (\<lambda>(po, io, table, idx, status, r). 2 ^ 32 - idx)")
  fix po :: remoteproc_ops and io :: "metal_io_region option" and table idx status and r :: remoteproc and x r1 r2
  assume "idx < unat (rp_load r (table + 4))"
  then have "idx < 2 ^ LENGTH(32)" by (rule less_trans [OF _ unat_lt_exp])
  then show "((po, io, table, Suc idx, 0, r2), po, io, table, idx, status, r)
      \<in> measure (\<lambda>(po, io, table, idx, status, r). 2 ^ 32 - idx)"
    "((po, io, table, Suc idx, r1, r2), po, io, table, idx, status, r)
      \<in> measure (\<lambda>(po, io, table, idx, status, r). 2 ^ 32 - idx)" by auto
qed auto

declare handle_entries.simps [simp del]

text \<open>The end of the offset array is computed in 64 bits and kept in 32.\<close>

definition handle_rsc_table ::
  "remoteproc_ops \<Rightarrow> remoteproc \<Rightarrow> addr \<Rightarrow> u64 \<Rightarrow> metal_io_region option \<Rightarrow> (int \<times> remoteproc) option" where
  "handle_rsc_table po r table sz io =
     (if sz < 16 then Some (- RPROC_ERR_RSC_TAB_TRUNC, r)
      else if rp_load r table \<noteq> 1 then Some (- RPROC_ERR_RSC_TAB_VER, r)
      else if sz < ucast (ucast (16 + ucast (rp_load r (table + 4)) * 4 :: u64) :: u32)
      then Some (- RPROC_ERR_RSC_TAB_TRUNC, r)
      else if rp_load r (table + 8) \<noteq> 0 \<or> rp_load r (table + 12) \<noteq> 0 then Some (- RPROC_ERR_RSC_TAB_RSVD, r)
      else handle_entries po io table 0 0 r)"

fun find_rsc_from :: "remoteproc \<Rightarrow> addr \<Rightarrow> u32 \<Rightarrow> u32 \<Rightarrow> u32 \<Rightarrow> nat \<Rightarrow> nat \<Rightarrow> u64" where
  "find_rsc_from r table rsc_type index rsc_index 0 i = 0"
| "find_rsc_from r table rsc_type index rsc_index (Suc k) i =
     (if rp_load r (rsc_entry r table i) = rsc_type
      then (if rsc_index = index then ucast (rp_load r (table + 16 + 4 * of_nat i))
            else find_rsc_from r table rsc_type index (rsc_index + 1) k (Suc i))
      else find_rsc_from r table rsc_type index rsc_index k (Suc i))"

definition find_rsc :: "remoteproc \<Rightarrow> addr \<Rightarrow> u32 \<Rightarrow> u32 \<Rightarrow> u64 option" where
  "find_rsc r table rsc_type index = do {
     require (table \<noteq> NULL);
     Some (find_rsc_from r table rsc_type index 0 (unat (rp_load r (table + 4))) 0)
   }"

definition remoteproc_parse_rsc_table ::
  "remoteproc_ops \<Rightarrow> remoteproc \<Rightarrow> addr \<Rightarrow> u64 \<Rightarrow> (int \<times> remoteproc) option" where
  "remoteproc_parse_rsc_table po r table sz =
     (if table = NULL then Some (- RPROC_EINVAL, r)
      else do {
        io \<leftarrow> remoteproc_get_io_with_va po (Some r) table;
        handle_rsc_table po r table sz io
      })"

definition remoteproc_set_rsc_table ::
  "remoteproc_ops \<Rightarrow> remoteproc option \<Rightarrow> addr \<Rightarrow> u64 \<Rightarrow> (int \<times> remoteproc option) option" where
  "remoteproc_set_rsc_table po rproc table sz =
     (case rproc of None \<Rightarrow> Some (- RPROC_EINVAL, None)
      | Some r \<Rightarrow> if table = NULL \<or> sz = 0 then Some (- RPROC_EINVAL, rproc)
          else do {
            io \<leftarrow> remoteproc_get_io_with_va po rproc table;
            if io = None then Some (- RPROC_EINVAL, rproc)
            else do {
              (ret, r') \<leftarrow> remoteproc_parse_rsc_table po r table sz;
              Some (ret, Some (if ret = 0 then r'\<lparr>rp_rsc_table := table, rp_rsc_len := sz, rp_rsc_io := io\<rparr> else r'))
            }
          })"

section \<open>Virtio devices\<close>

definition remoteproc_virtio_notify :: "remoteproc_ops \<Rightarrow> remoteproc \<Rightarrow> u32 \<Rightarrow> (int \<times> remoteproc) option" where
  "remoteproc_virtio_notify po r i = (case po_notify po of Some f \<Rightarrow> f r i | None \<Rightarrow> Some (0, r))"

text \<open>
  Outside this code: the build, the outcome of the two allocations, what the peer does to memory
  between two polls, and the rings that lie at an address.
\<close>

record renv =
  re_build :: build
  re_alloc_dev :: bool
  re_alloc_vrings :: bool
  re_peer :: "mem \<Rightarrow> mem"
  re_rings :: "addr \<Rightarrow> vring_mem"

fun find_vdev :: "u32 \<Rightarrow> nat \<Rightarrow> remoteproc_virtio list \<Rightarrow> nat option" where
  "find_vdev notifyid i [] = None"
| "find_vdev notifyid i (v # vs) = (if vd_notifyid v = notifyid then Some i else find_vdev notifyid (Suc i) vs)"

definition upd_vdev :: "nat \<Rightarrow> remoteproc_virtio \<Rightarrow> remoteproc \<Rightarrow> remoteproc" where
  "upd_vdev p v r = r\<lparr>rp_vdevs := (rp_vdevs r)[p := v]\<rparr>"

text \<open>The loop over the vrings of device \<open>p\<close>; the result tells whether all were set up.\<close>

fun init_vrings ::
  "renv \<Rightarrow> remoteproc_ops \<Rightarrow> addr \<Rightarrow> nat \<Rightarrow> nat \<Rightarrow> nat \<Rightarrow> remoteproc \<Rightarrow> (bool \<times> remoteproc) option" where
  "init_vrings re po rsc p 0 i r = Some (True, r)"
| "init_vrings re po rsc p (Suc k) i r = do {
     let vring = vdev_vring rsc i;
     let num_descs = rp_load r (vring + 8);
     let align = rp_load r (vring + 4);
     let notifyid = rp_load r (vring + 12);
     (va, _, _, io, r1) \<leftarrow> remoteproc_mmap po r None (Some (ucast (rp_load r vring)))
         (word_of_int (vring_size num_descs (ucast align))) 0 None;
     if va = NULL then Some (False, r1)
     else do {
       v \<leftarrow> arr_get (rp_vdevs r1) p;
       (ret, v') \<leftarrow> rproc_virtio_init_vring i notifyid va io num_descs align (re_rings re va) v;
       let r2 = upd_vdev p v' r1;
       if ret \<noteq> 0 then Some (False, r2) else init_vrings re po rsc p k (Suc i) r2
     }
   }"

text \<open>Device \<open>p\<close> leaves the list and is freed.\<close>

definition remoteproc_remove_virtio :: "nat \<Rightarrow> remoteproc \<Rightarrow> remoteproc option" where
  "remoteproc_remove_virtio p r = do {
     require (p < length (rp_vdevs r));
     Some (r\<lparr>rp_vdevs := take p (rp_vdevs r) @ drop (Suc p) (rp_vdevs r)\<rparr>)
   }"

definition add_vdev ::
  "renv \<Rightarrow> remoteproc_ops \<Rightarrow> u32 \<Rightarrow> addr \<Rightarrow> remoteproc \<Rightarrow> (nat option \<times> remoteproc) option" where
  "add_vdev re po role rsc r = do {
     vd \<leftarrow> rproc_virtio_create_vdev (re_build re) (re_alloc_dev re) (re_alloc_vrings re) (rp_mem r) role
            (rp_load r (rsc + VDEV_NOTIFYID)) rsc (rp_rsc_io r);
     (case vd of None \<Rightarrow> Some (None, r)
      | Some v \<Rightarrow> do {
          v' \<leftarrow> rproc_virtio_wait_remote_ready (re_build re) (re_peer re) v;
          let p = length (rp_vdevs r);
          let r1 = r\<lparr>rp_mem := rpv_mem v', rp_vdevs := rp_vdevs r @ [v']\<rparr>;
          (ok, r2) \<leftarrow> init_vrings re po rsc p (unat (rp_mem r1 (rsc + VDEV_NUM_VRINGS))) 0 r1;
          if ok then Some (Some p, r2)
          else do {
            r3 \<leftarrow> remoteproc_remove_virtio p r2;
            Some (None, r3)
          }
        })
   }"

definition remoteproc_create_virtio ::
  "renv \<Rightarrow> remoteproc_ops \<Rightarrow> remoteproc option \<Rightarrow> u32 \<Rightarrow> u32 \<Rightarrow> (nat option \<times> remoteproc option) option" where
  "remoteproc_create_virtio re po rproc vdev_id role =
     (if \<not> VIRTIO_DRIVER_SUPPORT (re_build re) \<and> role = VIRTIO_DEV_DRIVER then Some (None, rproc)
      else if \<not> VIRTIO_DEVICE_SUPPORT (re_build re) \<and> role = VIRTIO_DEV_DEVICE then Some (None, rproc)
      else (case rproc of None \<Rightarrow> Some (None, None)
        | Some r \<Rightarrow>
            if role \<noteq> VIRTIO_DEV_DEVICE \<and> role \<noteq> VIRTIO_DEV_DRIVER then Some (None, rproc)
            else do {
              r1 \<leftarrow> rp_acquire r;
              offset \<leftarrow> find_rsc r1 (rp_rsc_table r1) 3 vdev_id;
              if offset = 0 then Some (None, Some (rp_release r1))
              else do {
                let rsc = rp_rsc_table r1 + offset;
                (case find_vdev (rp_load r1 (rsc + VDEV_NOTIFYID)) 0 (rp_vdevs r1) of
                   Some p \<Rightarrow> Some (Some p, Some (rp_release r1))
                 | None \<Rightarrow> do {
                     (vd, r2) \<leftarrow> add_vdev re po role rsc r1;
                     Some (vd, Some (rp_release r2))
                   })
              }
            }))"

text \<open>The queues whose callbacks run, per device; the first device that reports an error ends the loop.\<close>

fun notify_vdevs :: "u32 \<Rightarrow> remoteproc_virtio list \<Rightarrow> (int \<times> nat list list) option" where
  "notify_vdevs notifyid [] = Some (0, [])"
| "notify_vdevs notifyid (v # vs) = do {
     (ret, called) \<leftarrow> rproc_virtio_notified (Some v) notifyid;
     if ret \<noteq> 0 then Some (ret, [called])
     else do {
       (ret', rest) \<leftarrow> notify_vdevs notifyid vs;
       Some (ret', called # rest)
     }
   }"

definition remoteproc_get_notification :: "remoteproc option \<Rightarrow> u32 \<Rightarrow> (int \<times> nat list list) option" where
  "remoteproc_get_notification rproc notifyid =
     (case rproc of None \<Rightarrow> Some (0, []) | Some r \<Rightarrow> notify_vdevs notifyid (rp_vdevs r))"

end
