(* ===== verification/Rproc_Laws.thy ===== *)
theory Rproc_Laws
  imports Remoteproc
begin

unbundle bit_operations_syntax

text \<open>
  The remote processor component against its specification: the documented life cycle as an automaton that
  every sequence of calls follows, with the one documented transition the code refuses, the allocator of notification ids, the search in the resource
  table and the translation of device addresses.
\<close>

section \<open>The life cycle\<close>

datatype rproc_call = Config addr | Start | Stop | Shutdown | Remove

fun do_call :: "remoteproc_ops \<Rightarrow> rproc_call \<Rightarrow> remoteproc \<Rightarrow> (int \<times> remoteproc option) option" where
  "do_call po (Config data) r = remoteproc_config po data (Some r)"
| "do_call po Start r = remoteproc_start po (Some r)"
| "do_call po Stop r = remoteproc_stop po (Some r)"
| "do_call po Shutdown r = remoteproc_shutdown po (Some r)"
| "do_call po Remove r = remoteproc_remove po (Some r)"

text \<open>Calls in sequence, with the list of their results.\<close>

fun do_calls :: "remoteproc_ops \<Rightarrow> rproc_call list \<Rightarrow> remoteproc \<Rightarrow> (int list \<times> remoteproc) option" where
  "do_calls po [] r = Some ([], r)"
| "do_calls po (c # cs) r = do {
     (ret, r1) \<leftarrow> do_call po c r;
     r2 \<leftarrow> r1;
     (rets, r3) \<leftarrow> do_calls po cs r2;
     Some (ret # rets, r3)
   }"

text \<open>
  The specification, after the documentation of the calls: the state a successful call leads to, and None
  where the call is not allowed. Configuring is allowed in the states offline and ready, several times before the
  start; starting needs a configured processor; only an offline processor can be removed.
\<close>

fun life :: "rproc_call \<Rightarrow> remoteproc_state \<Rightarrow> remoteproc_state option" where
  "life (Config _) s = (if s = RPROC_OFFLINE \<or> s = RPROC_READY then Some RPROC_READY else None)"
| "life Start s = (if s = RPROC_READY then Some RPROC_RUNNING else None)"
| "life Stop s = Some (if s = RPROC_OFFLINE then RPROC_OFFLINE else RPROC_STOPPED)"
| "life Shutdown s = Some RPROC_OFFLINE"
| "life Remove s = (if s = RPROC_OFFLINE then Some RPROC_OFFLINE else None)"

fun life_run :: "(rproc_call \<times> int) list \<Rightarrow> remoteproc_state \<Rightarrow> remoteproc_state option" where
  "life_run [] s = Some s"
| "life_run ((c, ret) # xs) s =
     (if ret = 0 then Option.bind (life c s) (life_run xs) else life_run xs s)"

text \<open>The calls of a run with the state the automaton is in before each of them.\<close>

fun life_trace :: "(rproc_call \<times> int) list \<Rightarrow> remoteproc_state \<Rightarrow> (rproc_call \<times> remoteproc_state \<times> int) list" where
  "life_trace [] s = []"
| "life_trace ((c, ret) # xs) s =
     (c, s, ret) # life_trace xs (if ret = 0 then (case life c s of Some t \<Rightarrow> t | None \<Rightarrow> s) else s)"

text \<open>
  The answer to a call in a state. A call that is not allowed is refused with its error code. An allowed one succeeds when
  the operations of the platform succeed, except configuring a processor that is ready: the
  documentation allows it and the code refuses it.
\<close>

fun refusal :: "rproc_call \<Rightarrow> int" where
  "refusal Remove = - RPROC_EAGAIN"
| "refusal _ = - RPROC_EINVAL"

fun reconfigures :: "rproc_call \<Rightarrow> remoteproc_state \<Rightarrow> bool" where
  "reconfigures (Config _) s = (s = RPROC_READY)"
| "reconfigures _ s = False"

definition op_zero :: "(remoteproc \<Rightarrow> (int \<times> remoteproc) option) option \<Rightarrow> bool" where
  "op_zero fo = (\<forall>f r ret r'. fo = Some f \<longrightarrow> f r = Some (ret, r') \<longrightarrow> ret = 0)"

definition ops_succeed :: "remoteproc_ops \<Rightarrow> bool" where
  "ops_succeed po = (po_start po \<noteq> None \<and> po_stop po \<noteq> None \<and> op_zero (po_start po) \<and> op_zero (po_stop po)
     \<and> op_zero (po_shutdown po) \<and> (\<forall>data. op_zero (map_option (\<lambda>f r. f r data) (po_config po))))"

definition answer_ok :: "remoteproc_ops \<Rightarrow> rproc_call \<times> remoteproc_state \<times> int \<Rightarrow> bool" where
  "answer_ok po x = (case x of (c, s, ret) \<Rightarrow>
     if life c s = None then ret = refusal c
     else if reconfigures c s then ret = - RPROC_EINVAL
     else ops_succeed po \<longrightarrow> ret = 0)"

text \<open>The platform's operations leave the state to the framework.\<close>

definition op_keeps :: "(remoteproc \<Rightarrow> (int \<times> remoteproc) option) option \<Rightarrow> bool" where
  "op_keeps fo = (\<forall>f r ret r'. fo = Some f \<longrightarrow> f r = Some (ret, r') \<longrightarrow> rp_state r' = rp_state r)"

definition ops_frame :: "remoteproc_ops \<Rightarrow> bool" where
  "ops_frame po = ((\<forall>data. op_keeps (map_option (\<lambda>f r. f r data) (po_config po))) \<and> op_keeps (po_start po)
     \<and> op_keeps (po_stop po) \<and> op_keeps (po_shutdown po)
     \<and> op_keeps (map_option (\<lambda>f r. map_option (Pair 0) (f r)) (po_remove po)))"

lemma op_keepsD:
  "op_keeps fo \<Longrightarrow> (case fo of Some f \<Rightarrow> f r | None \<Rightarrow> Some (e, r)) = Some (ret, r') \<Longrightarrow> rp_state r' = rp_state r"
  by (cases fo) (auto simp: op_keeps_def)

lemma lock_state [simp]: "rp_state (rp_release r) = rp_state r" "\<not> rp_lock (rp_release r)"
  by (auto simp: rp_release_def)

text \<open>The frame all calls share: they run with the lock held and release it.\<close>

lemma locked_call:
  assumes "do { r1 \<leftarrow> rp_acquire r; (ret, r2) \<leftarrow> body r1; Some (ret, Some (rp_release r2)) } = Some (ret, x)"
  obtains r2 where "\<not> rp_lock r" "body (r\<lparr>rp_lock := True\<rparr>) = Some (ret, r2)" "x = Some (rp_release r2)"
  using assms that by (auto simp: rp_acquire_def opt_simps split: if_splits)

text \<open>An operation of the platform, and the state assigned when it reports success.\<close>

lemma advance:
  assumes "do { (st, r') \<leftarrow> m; Some (st, if st = 0 then g r' else r') } = Some (ret, r2)"
    and "\<And>st r1. m = Some (st, r1) \<Longrightarrow> rp_state r1 = s" and "\<And>q. rp_state (g q) = t"
  shows "rp_state r2 = (if ret = 0 then t else s)"
proof -
  obtain st r1 where m: "m = Some (st, r1)" and r2: "ret = st" "r2 = (if st = 0 then g r1 else r1)"
    using assms(1) by (auto simp: opt_simps)
  show ?thesis using assms(2) [OF m] assms(3) r2 by simp
qed

definition follows :: "rproc_call \<Rightarrow> remoteproc \<Rightarrow> int \<Rightarrow> remoteproc \<Rightarrow> bool" where
  "follows c r ret r' = (if ret = 0 then life c (rp_state r) = Some (rp_state r') else rp_state r' = rp_state r)"

lemma follows_release: "follows c r ret (rp_release r') = follows c r ret r'"
  by (simp add: follows_def)

lemma config_follows:
  assumes "ops_frame po" and "remoteproc_config po data (Some r) = Some (ret, x)"
  shows "\<exists>r'. x = Some r' \<and> \<not> rp_lock r' \<and> follows (Config data) r ret r'"
  using assms(2) unfolding remoteproc_config_def option.case
proof (rule locked_call, goal_cases)
  case (1 r2)
  let ?r = "r\<lparr>rp_lock := True\<rparr>"
  have k: "op_keeps (map_option (\<lambda>f r. f r data) (po_config po))" using assms(1) by (simp add: ops_frame_def)
  have keep: "(case po_config po of Some f \<Rightarrow> f ?r data | None \<Rightarrow> Some (0, ?r)) = Some (st, r1) \<Longrightarrow> rp_state r1 = rp_state r"
    for st r1 using op_keepsD [OF k, where r = ?r and e = 0 and ret = st and r' = r1] by (auto split: option.splits)
  have "follows (Config data) r ret r2"
  proof (cases "rp_state r = RPROC_OFFLINE")
    case True
    then have "rp_state r2 = (if ret = 0 then RPROC_READY else rp_state r)"
      using 1(2) keep by (intro advance) auto
    then show ?thesis using True by (simp add: follows_def)
  next
    case False
    then show ?thesis using 1(2) by (auto simp: follows_def)
  qed
  then show ?case using 1(3) follows_release by simp
qed

lemma start_follows:
  assumes "ops_frame po" and "remoteproc_start po (Some r) = Some (ret, x)"
  shows "\<exists>r'. x = Some r' \<and> \<not> rp_lock r' \<and> follows Start r ret r'"
  using assms(2) unfolding remoteproc_start_def option.case
proof (rule locked_call, goal_cases)
  case (1 r2)
  have keep: "op_keeps (po_start po)" using assms(1) by (simp add: ops_frame_def)
  have "follows Start r ret r2"
  proof (cases "rp_state r = RPROC_READY")
    case True
    then have "rp_state r2 = (if ret = 0 then RPROC_RUNNING else rp_state r)"
      using 1(2) op_keepsD [OF keep, where r = "r\<lparr>rp_lock := True\<rparr>"] by (intro advance) auto
    then show ?thesis using True by (simp add: follows_def)
  next
    case False
    then show ?thesis using 1(2) by (auto simp: follows_def)
  qed
  then show ?case using 1(3) follows_release by simp
qed

lemma stop_follows:
  assumes "ops_frame po" and "remoteproc_stop po (Some r) = Some (ret, x)"
  shows "\<exists>r'. x = Some r' \<and> \<not> rp_lock r' \<and> follows Stop r ret r'"
  using assms(2) unfolding remoteproc_stop_def option.case
proof (rule locked_call, goal_cases)
  case (1 r2)
  have keep: "op_keeps (po_stop po)" using assms(1) by (simp add: ops_frame_def)
  have "follows Stop r ret r2"
  proof (cases "rp_state r \<noteq> RPROC_STOPPED \<and> rp_state r \<noteq> RPROC_OFFLINE")
    case True
    then have "rp_state r2 = (if ret = 0 then RPROC_STOPPED else rp_state r)"
      using 1(2) op_keepsD [OF keep, where r = "r\<lparr>rp_lock := True\<rparr>"] by (intro advance) auto
    then show ?thesis using True by (simp add: follows_def)
  next
    case False
    then have "ret = 0" "rp_state r2 = rp_state r" using 1(2) by auto
    then show ?thesis using False by (auto simp: follows_def)
  qed
  then show ?case using 1(3) follows_release by simp
qed

lemma shutdown_follows:
  assumes "ops_frame po" and "remoteproc_shutdown po (Some r) = Some (ret, x)"
  shows "\<exists>r'. x = Some r' \<and> \<not> rp_lock r' \<and> follows Shutdown r ret r'"
  using assms(2) unfolding remoteproc_shutdown_def option.case
proof (rule locked_call, goal_cases)
  case (1 r2)
  let ?r = "r\<lparr>rp_lock := True\<rparr>"
  have keep: "op_keeps (po_stop po)" "op_keeps (po_shutdown po)" using assms(1) by (simp_all add: ops_frame_def)
  have "follows Shutdown r ret r2"
  proof (cases "rp_state r = RPROC_OFFLINE")
    case True
    then show ?thesis using 1(2) by (auto simp: follows_def)
  next
    case False
    then obtain st r1 where stop: "(if rp_state ?r \<noteq> RPROC_STOPPED
          then (case po_stop po of Some f \<Rightarrow> f ?r | None \<Rightarrow> Some (0, ?r)) else Some (0, ?r)) = Some (st, r1)"
      and rest: "(if st = 0 then do {
            (ret, r'') \<leftarrow> (case po_shutdown po of Some f \<Rightarrow> f r1 | None \<Rightarrow> Some (0, r1));
            Some (ret, if ret = 0 then r''\<lparr>rp_state := RPROC_OFFLINE\<rparr> else r'')
          } else Some (st, r1)) = Some (ret, r2)"
      using 1(2) by (auto simp: opt_simps simp del: split_paired_Ex)
    have st1: "rp_state r1 = rp_state r"
      using stop op_keepsD [OF keep(1), where r = ?r] by (auto split: if_splits)
    have "rp_state r2 = (if ret = 0 then RPROC_OFFLINE else rp_state r)"
    proof (cases "st = 0")
      case True
      then show ?thesis using rest st1 op_keepsD [OF keep(2), where r = r1] by (intro advance) auto
    next
      case False
      then show ?thesis using rest st1 by simp
    qed
    then show ?thesis by (simp add: follows_def)
  qed
  then show ?case using 1(3) follows_release by simp
qed

lemma remove_follows:
  assumes "ops_frame po" and "remoteproc_remove po (Some r) = Some (ret, x)"
  shows "\<exists>r'. x = Some r' \<and> \<not> rp_lock r' \<and> follows Remove r ret r'"
  using assms(2) unfolding remoteproc_remove_def option.case
proof (rule locked_call, goal_cases)
  case (1 r2)
  let ?r = "r\<lparr>rp_lock := True\<rparr>"
  have k: "op_keeps (map_option (\<lambda>f r. map_option (Pair 0) (f r)) (po_remove po))"
    using assms(1) by (simp add: ops_frame_def)
  have "follows Remove r ret r2"
  proof (cases "rp_state r = RPROC_OFFLINE")
    case True
    then have run: "(case po_remove po of Some f \<Rightarrow> map_option (Pair 0) (f ?r) | None \<Rightarrow> Some (0, ?r)) = Some (ret, r2)"
      using 1(2) by (simp cong: option.case_cong)
    then have "ret = 0" by (auto split: option.splits)
    moreover have "rp_state r2 = rp_state r"
      using op_keepsD [OF k, where r = ?r and e = 0 and ret = ret and r' = r2] run by (auto split: option.splits)
    ultimately show ?thesis using True by (simp add: follows_def)
  next
    case False
    then show ?thesis using 1(2) by (auto simp: follows_def)
  qed
  then show ?case using 1(3) follows_release by simp
qed

lemma call_follows:
  assumes "ops_frame po" and "do_call po c r = Some (ret, x)"
  shows "\<exists>r'. x = Some r' \<and> \<not> rp_lock r' \<and> follows c r ret r'"
  using assms config_follows start_follows stop_follows shutdown_follows remove_follows
  by (cases c) simp_all

lemma op_zeroD: "op_zero (Some f) \<Longrightarrow> f r = Some (ret, r') \<Longrightarrow> ret = 0"
  by (auto simp: op_zero_def)

lemma config_zeroD:
  "ops_succeed po \<Longrightarrow> po_config po = Some f \<Longrightarrow> f r data = Some (ret, r') \<Longrightarrow> ret = 0"
  using op_zeroD [of "\<lambda>r. f r data" r ret r'] by (simp add: ops_succeed_def)

lemma call_answers:
  assumes "do_call po c r = Some (ret, x)"
  shows "answer_ok po (c, rp_state r, ret)"
proof (cases c)
  case (Config data)
  then show ?thesis using assms
    by (auto simp: answer_ok_def remoteproc_config_def rp_acquire_def opt_simps dest: config_zeroD
        split: if_splits option.splits)
next
  case Start
  then show ?thesis using assms
    by (auto simp: answer_ok_def ops_succeed_def remoteproc_start_def rp_acquire_def opt_simps dest: op_zeroD
        split: if_splits option.splits)
next
  case Stop
  then show ?thesis using assms
    by (auto simp: answer_ok_def ops_succeed_def remoteproc_stop_def rp_acquire_def opt_simps dest: op_zeroD
        split: if_splits option.splits)
next
  case Shutdown
  then show ?thesis using assms
    by (auto simp: answer_ok_def ops_succeed_def remoteproc_shutdown_def rp_acquire_def opt_simps dest: op_zeroD
        split: if_splits option.splits)
next
  case Remove
  then show ?thesis using assms
    by (auto simp: answer_ok_def remoteproc_remove_def rp_acquire_def opt_simps split: if_splits option.splits)
qed


section \<open>Notification ids\<close>

lemma bit_bitmap1: "j < 64 \<Longrightarrow> (j \<in> bitmap_bits [w]) = bit w j"
  by (simp add: bitmap_bits_def bitmap_capacity_def)

lemma set_id:
  assumes "unat i < 64"
  shows "\<exists>w'. metal_bitmap_set_bit [w] (unat i) = Some [w'] \<and> (\<forall>j < 64. bit w' j = (j = unat i \<or> bit w j))"
proof -
  have "unat i < bitmap_capacity [w]" using assms by (simp add: bitmap_capacity_def)
  then obtain bm where bm: "metal_bitmap_set_bit [w] (unat i) = Some bm" "bitmap_capacity bm = bitmap_capacity [w]"
    "bitmap_bits bm = insert (unat i) (bitmap_bits [w])"
    by (rule metal_bitmap.set_bitE)
  have "length bm = 1" using bm(2) by (simp add: bitmap_capacity_def)
  then obtain w' where w': "bm = [w']" by (cases bm) auto
  then have "bit w' j = (j = unat i \<or> bit w j)" if "j < 64" for j
    using bm(3) bit_bitmap1 [OF that, of w'] bit_bitmap1 [OF that, of w] by auto
  then show ?thesis using bm(1) w' by blast
qed

lemma allocate_id_eq:
  assumes "start < mx" and "mx \<le> 64" and "c < unat mx" and "\<not> bit (rp_bitmap r) c"
    and "start = (if s = RSC_NOTIFY_ID_ANY then 0 else s)" and "mx = (if e = RSC_NOTIFY_ID_ANY then 64 else e)"
  shows "\<exists>i d r'. remoteproc_allocate_id r s e = Some (i, r') \<and> i < mx \<and> \<not> bit (rp_bitmap r) (unat i)
    \<and> unat i = (unat start + d) mod unat mx \<and> (\<forall>k < d. bit (rp_bitmap r) ((unat start + k) mod unat mx))
    \<and> (\<forall>j < 64. bit (rp_bitmap r') j = (j = unat i \<or> bit (rp_bitmap r) j))
    \<and> r'\<lparr>rp_bitmap := rp_bitmap r\<rparr> = r"
proof -
  have mx: "unat mx \<le> 64" "unat start < unat mx" using assms(1,2) by (auto simp: word_le_nat_alt word_less_nat_alt)
  have cap: "unat mx \<le> bitmap_capacity [rp_bitmap r]" "unat start + unat mx < 2 ^ 32"
    using mx by (simp_all add: bitmap_capacity_def)
  have "c \<notin> bitmap_bits [rp_bitmap r]" using assms(3,4) mx bit_bitmap1 [of c] by auto
  from find_clear_bit [OF assms(1) cap assms(3) this] obtain i d where
    i: "metal_bitmap_next_clear_bit [rp_bitmap r] start mx = Some i" "i < mx" "unat i \<notin> bitmap_bits [rp_bitmap r]"
    "unat i = (unat start + d) mod unat mx"
    "\<forall>k < d. (unat start + k) mod unat mx \<in> bitmap_bits [rp_bitmap r]"
    by blast
  have i64: "unat i < 64" using i(2) mx by (simp add: word_less_nat_alt)
  have taken: "bit (rp_bitmap r) ((unat start + k) mod unat mx)" if "k < d" for k
  proof -
    have "(unat start + k) mod unat mx < unat mx" using mx(2) by (intro mod_less_divisor) simp
    then have "(unat start + k) mod unat mx < 64" using mx(1) by (rule less_le_trans)
    then show ?thesis using i(5) that bit_bitmap1 by blast
  qed
  obtain w' where w': "metal_bitmap_set_bit [rp_bitmap r] (unat i) = Some [w']"
    "\<forall>j < 64. bit w' j = (j = unat i \<or> bit (rp_bitmap r) j)"
    using set_id [OF i64] by blast
  have range: "start < 64" "mx \<le> 64" using assms(1,2) by auto
  have "remoteproc_allocate_id r s e = Some (i, r\<lparr>rp_bitmap := w'\<rparr>)"
    using range i(1,2) w'(1) unfolding remoteproc_allocate_id_def Let_def assms(5,6) [symmetric] by auto
  then show ?thesis
    using i(2-4) taken w'(2) bit_bitmap1 [OF i64] by (intro exI [of _ i] exI [of _ d]) auto
qed

text \<open>
  A request for any notification id, while one of the 64 is free, gets a free one, marks it and
  nothing else; a request for a particular free id gets that id.
\<close>

theorem allocate_id_grants:
  assumes "s = RSC_NOTIFY_ID_ANY \<and> e = RSC_NOTIFY_ID_ANY \<and> (\<exists>c < 64. \<not> bit (rp_bitmap r) c)
    \<or> unat s < 64 \<and> e = s + 1 \<and> \<not> bit (rp_bitmap r) (unat s)"
  shows "\<exists>i r'. remoteproc_allocate_id r s e = Some (i, r') \<and> unat i < 64 \<and> \<not> bit (rp_bitmap r) (unat i)
    \<and> (s = RSC_NOTIFY_ID_ANY \<or> i = s)
    \<and> (\<forall>j < 64. bit (rp_bitmap r') j = (j = unat i \<or> bit (rp_bitmap r) j))"
  using assms
proof (elim disjE conjE exE)
  fix c assume "s = RSC_NOTIFY_ID_ANY" "e = RSC_NOTIFY_ID_ANY" "c < 64" "\<not> bit (rp_bitmap r) c"
  then show ?thesis
    using allocate_id_eq [of 0 64 c r s e] by (auto simp: word_less_nat_alt)
next
  assume s: "unat s < 64" "e = s + 1" "\<not> bit (rp_bitmap r) (unat s)"
  then have e: "unat e = unat s + 1" by (simp add: unat_word_ariths)
  then have ne: "s \<noteq> RSC_NOTIFY_ID_ANY" "e \<noteq> RSC_NOTIFY_ID_ANY" using s(1) by (auto simp: word_unat_eq_iff)
  have lt: "s < e" and le: "e \<le> 64" using s(1) e by (simp_all add: word_less_nat_alt word_le_nat_alt)
  obtain i d r' where i: "remoteproc_allocate_id r s e = Some (i, r')" "i < e" "\<not> bit (rp_bitmap r) (unat i)"
    "unat i = (unat s + d) mod unat e" "\<forall>k < d. bit (rp_bitmap r) ((unat s + k) mod unat e)"
    "\<forall>j < 64. bit (rp_bitmap r') j = (j = unat i \<or> bit (rp_bitmap r) j)"
    using allocate_id_eq [OF lt le, of "unat s" r s e] s(3) e ne by auto
  have "d = 0"
  proof (rule ccontr)
    assume "d \<noteq> 0"
    then have "bit (rp_bitmap r) ((unat s + 0) mod unat e)" using i(5) by (metis neq0_conv)
    then show False using s(3) e by simp
  qed
  then have "i = s" using i(4) e by (simp add: word_unat_eq_iff)
  then show ?thesis using i s(1) by auto
qed

text \<open>
  A request for a particular id that is in use is not refused: it gets another, lower id if one
  is free, and otherwise the very id that is in use.
\<close>

theorem allocate_id_conflict:
  assumes "unat s < 64" and "bit (rp_bitmap r) (unat s)"
  shows "\<exists>i r'. remoteproc_allocate_id r s (s + 1) = Some (i, r') \<and> i \<noteq> RSC_NOTIFY_ID_ANY
    \<and> (if \<exists>c < unat s. \<not> bit (rp_bitmap r) c then unat i < unat s \<and> \<not> bit (rp_bitmap r) (unat i) else i = s)"
proof -
  have e: "unat (s + 1) = unat s + 1" using assms(1) by (simp add: unat_word_ariths)
  then have ne: "s \<noteq> RSC_NOTIFY_ID_ANY" "s + 1 \<noteq> RSC_NOTIFY_ID_ANY" using assms(1) by (auto simp: word_unat_eq_iff)
  have range: "s < s + 1" "s + 1 \<le> 64" using assms(1) e by (simp_all add: word_less_nat_alt word_le_nat_alt)
  show ?thesis
  proof (cases "\<exists>c < unat s. \<not> bit (rp_bitmap r) c")
    case True
    then obtain c where "c < unat s" "\<not> bit (rp_bitmap r) c" by blast
    then have c: "c < unat (s + 1)" "\<not> bit (rp_bitmap r) c" using e by simp_all
    obtain i r' where i: "remoteproc_allocate_id r s (s + 1) = Some (i, r')" "i < s + 1" "\<not> bit (rp_bitmap r) (unat i)"
      using allocate_id_eq [OF range c, where s = s and e = "s + 1"] ne by auto
    have "unat i \<noteq> unat s" using i(3) assms(2) by metis
    then have "unat i < unat s" using i(2) e by (simp add: word_less_nat_alt)
    moreover have "i \<noteq> RSC_NOTIFY_ID_ANY" using calculation assms(1) by (auto simp: word_unat_eq_iff)
    ultimately show ?thesis using i True by auto
  next
    case False
    have full: "{..<unat (s + 1)} \<subseteq> bitmap_bits [rp_bitmap r]"
    proof
      fix j assume "j \<in> {..<unat (s + 1)}"
      then have "j < unat s \<or> j = unat s" "j < 64" using e assms(1) by auto
      then show "j \<in> bitmap_bits [rp_bitmap r]" using False assms(2) bit_bitmap1 [of j] by auto
    qed
    have "metal_bitmap_next_clear_bit [rp_bitmap r] s (s + 1) = Some s"
      using range full e assms(1) by (intro find_clear_bit_full) (auto simp: bitmap_capacity_def)
    moreover obtain w' where "metal_bitmap_set_bit [rp_bitmap r] (unat s) = Some [w']"
      using set_id [OF assms(1)] by blast
    moreover have "s < 64" using assms(1) by (simp add: word_less_nat_alt)
    ultimately have "remoteproc_allocate_id r s (s + 1) = Some (s, r\<lparr>rp_bitmap := w'\<rparr>)"
      using ne range by (simp add: remoteproc_allocate_id_def)
    then show ?thesis using False ne by auto
  qed
qed

section \<open>The resource table\<close>

text \<open>The reference: the positions of the entries of a type, in table order.\<close>

definition entries_of_type :: "remoteproc \<Rightarrow> addr \<Rightarrow> u32 \<Rightarrow> nat list" where
  "entries_of_type r table rsc_type =
     filter (\<lambda>i. rp_load r (rsc_entry r table i) = rsc_type) [0..<unat (rp_load r (table + 4))]"

lemma find_rsc_from_eq:
  assumes "c + k < 2 ^ 32" and "c \<le> unat index"
  shows "find_rsc_from r table rsc_type index (of_nat c) k i =
    (let ms = filter (\<lambda>i. rp_load r (rsc_entry r table i) = rsc_type) [i..<i + k]
     in if unat index - c < length ms then ucast (rp_load r (table + 16 + 4 * of_nat (ms ! (unat index - c)))) else 0)"
  using assms
proof (induction k arbitrary: i c)
  case (Suc k)
  have upt: "[i..<i + Suc k] = i # [Suc i..<Suc i + k]" by (simp add: upt_conv_Cons)
  have idx: "(of_nat c = index) = (c = unat index)"
    using Suc.prems(1) by (auto simp: word_unat_eq_iff unat_of_nat)
  show ?case
  proof (cases "rp_load r (rsc_entry r table i) = rsc_type")
    case False
    then show ?thesis using Suc.IH [of c "Suc i"] Suc.prems upt by simp
  next
    case True
    show ?thesis
    proof (cases "c = unat index")
      case eq: True
      then show ?thesis using True idx upt by simp
    next
      case ne: False
      then have "unat index - c = Suc (unat index - Suc c)" using Suc.prems(2) by simp
      then show ?thesis
        using True ne idx upt Suc.IH [of "Suc c" "Suc i"] Suc.prems(1,2) by (simp add: add.commute [of 1])
    qed
  qed
qed (simp add: Let_def)

text \<open>
  \<open>find_rsc\<close> returns the offset of the \<open>index\<close>-th entry of the requested type in table order, and 0
  when there are not that many.
\<close>

theorem find_rsc_is_nth:
  assumes "table \<noteq> NULL"
  shows "find_rsc r table rsc_type index =
    Some (let ms = entries_of_type r table rsc_type
          in if unat index < length ms then ucast (rp_load r (table + 16 + 4 * of_nat (ms ! unat index))) else 0)"
proof -
  have "0 + unat (rp_load r (table + 4)) < 2 ^ LENGTH(32)" by simp
  then show ?thesis
    using find_rsc_from_eq [of 0 "unat (rp_load r (table + 4))" index r table rsc_type 0] assms
    by (simp add: find_rsc_def entries_of_type_def Let_def)
qed

text \<open>
  The length check of the resource table is done modulo 2 to the 32: a table of sixteen bytes that
  announces 2 to the 30 entries passes it, and its entries are processed.
\<close>

theorem rsc_count_wraps:
  assumes "rp_load r table = 1" and "rp_load r (table + 4) = 0x40000000"
    and "rp_load r (table + 8) = 0" and "rp_load r (table + 12) = 0"
  shows "handle_rsc_table po r table 16 io = handle_entries po io table 0 0 r"
  using assms by (simp add: handle_rsc_table_def)

section \<open>Address translation\<close>

lemma search_da:
  assumes "covers (pm_da pm) (pm_size pm) da sz" and "da \<noteq> BAD_PHYS"
    and "\<And>q. q \<in> set before \<Longrightarrow> \<not> covers (pm_da q) (pm_size q) da sz"
  shows "search_mems None BAD_PHYS da va sz (before @ pm # rest) = Some (Found pm)"
  using assms by (induction before) auto

lemma mmap_da_ok:
  assumes mems: "rp_mems r = before @ pm # rest"
    and first: "\<And>q. q \<in> set before \<Longrightarrow> \<not> covers (pm_da q) (pm_size q) da sz"
    and here: "covers (pm_da pm) (pm_size pm) da sz" and args: "sz \<noteq> 0" "da \<noteq> BAD_PHYS"
    and io: "pm_io pm = Some io" "single_page io (pm_pa pm)" "io_virt io \<noteq> METAL_BAD_VA" "io_size io = pm_size pm"
    and fits: "unat (pm_da pm) + unat (pm_size pm) < 2 ^ 64"
  shows "remoteproc_mmap po r (Some BAD_PHYS) (Some da) sz attribute io0
    = Some (io_virt io + (da - pm_da pm), Some (pm_pa pm + (da - pm_da pm)), Some da, Some io, r)"
proof -
  have le: "pm_da pm \<le> da" and lt: "da < pm_da pm + pm_size pm" using here by (auto simp: covers_def)
  have "unat (pm_da pm + pm_size pm) = unat (pm_da pm) + unat (pm_size pm)" using fits by (simp add: unat_word_ariths)
  then have off: "da - pm_da pm < io_size io"
    using le lt io(4) by (simp add: word_less_nat_alt word_le_nat_alt unat_sub)
  have "search_mems None BAD_PHYS da NULL sz (rp_mems r) = Some (Found pm)"
    unfolding mems using here args(2) first by (rule search_da)
  then have get: "remoteproc_get_mem po r None BAD_PHYS da NULL sz = Some (Some pm)"
    by (simp add: remoteproc_get_mem_def)
  have pa: "remoteproc_datopa pm da = pm_pa pm + (da - pm_da pm)" by (simp add: remoteproc_datopa_def)
  have "metal_io_phys_to_virt io (pm_pa pm + (da - pm_da pm)) = Some (io_virt io + (da - pm_da pm))"
    using single_page_phys_to_offset [OF io(2) off] off io(3)
    by (simp add: metal_io_phys_to_virt_def metal_io_virt_def)
  then show ?thesis
    using args get io(1) pa by (simp add: remoteproc_mmap_def)
qed

text \<open>
  Mapping a device address yields the first memory whose device range covers the request, the
  physical address at the same distance from its start, and, for a memory over a linear region, the
  virtual address at that distance in the region.
\<close>

theorem mmap_translates_da:
  assumes mems: "rp_mems r = before @ pm # rest"
    and first: "\<And>q. q \<in> set before \<Longrightarrow> \<not> covers (pm_da q) (pm_size q) da sz"
    and here: "covers (pm_da pm) (pm_size pm) da sz" and args: "sz \<noteq> 0" "da \<noteq> BAD_PHYS"
    and io: "pm_io pm = Some io" "single_page io (pm_pa pm)" "io_virt io \<noteq> METAL_BAD_VA" "io_size io = pm_size pm"
    and fits: "unat (pm_da pm) + unat (pm_size pm) < 2 ^ 64"
  shows "remoteproc_mmap po r (Some BAD_PHYS) (Some da) sz attribute io0
    = Some (io_virt io + (da - pm_da pm), Some (pm_pa pm + (da - pm_da pm)), Some da, Some io, r)"
  by (rule mmap_da_ok [OF assms])

section \<open>A concrete processor\<close>

text \<open>
  A processor with one memory (device address 0, physical address 0x4000, mapped at 0x1000) and, at
  0x1000, a resource table with a trace entry and a device entry.
\<close>

definition demo_ops :: remoteproc_ops where
  "demo_ops = \<lparr>po_init = None, po_remove = None, po_mmap = None, po_handle_rsc = None, po_config = None,
     po_start = Some (\<lambda>r. Some (0, r)), po_stop = Some (\<lambda>r. Some (- 1, r)), po_shutdown = None,
     po_notify = None, po_get_mem = None\<rparr>"

definition demo_pm :: remoteproc_mem where
  "demo_pm = \<lparr>pm_da = 0, pm_pa = 0x4000, pm_size = 4096, pm_name = replicate 32 0, pm_io = Some demo_io\<rparr>"

definition demo_rp :: remoteproc where
  "demo_rp = \<lparr>rp_lock = False, rp_mem = (\<lambda>_. 0)(0x1000 := 1, 0x1004 := 2, 0x1010 := 64, 0x1014 := 128,
       0x1040 := 2, 0x1080 := 3),
     rp_rsc_table = 0x1000, rp_rsc_len = 256, rp_rsc_io = Some demo_io, rp_mems = [demo_pm], rp_vdevs = [],
     rp_bitmap = 1, rp_bootaddr = 0, rp_loader = NULL, rp_state = RPROC_OFFLINE, rp_priv = NULL\<rparr>"

definition demo_ops_ok :: remoteproc_ops where
  "demo_ops_ok = demo_ops\<lparr>po_stop := Some (\<lambda>r. Some (0, r))\<rparr>"

lemma demo_ops_ok: "ops_frame demo_ops_ok" "ops_succeed demo_ops_ok"
  by (simp_all add: ops_frame_def op_keeps_def demo_ops_ok_def demo_ops_def ops_succeed_def op_zero_def)


theorem allocate_id_grants_witness:
  "\<exists>i r'. remoteproc_allocate_id demo_rp 5 6 = Some (i, r') \<and> i = 5"
  using allocate_id_grants [of 5 6 demo_rp] by (auto simp: demo_rp_def bit_1_iff)

theorem allocate_id_conflict_witness:
  "\<exists>i r'. remoteproc_allocate_id demo_rp 0 1 = Some (i, r') \<and> i = 0"
  using allocate_id_conflict [of 0 demo_rp] by (auto simp: demo_rp_def)

lemma demo_load:
  "rp_load demo_rp 0x1004 = 2" "rp_load demo_rp 0x1010 = 64" "rp_load demo_rp 0x1014 = 128"
  "rp_load demo_rp 0x1040 = 2" "rp_load demo_rp 0x1080 = 3"
  by (simp_all add: rp_load_def demo_rp_def load32_def of_le32_def mem_read_4)

theorem find_rsc_is_nth_witness: "find_rsc demo_rp 0x1000 3 0 = Some 128"
proof -
  have "entries_of_type demo_rp 0x1000 3 = [1]"
    by (simp add: entries_of_type_def rsc_entry_def demo_load upt_rec)
  then show ?thesis using find_rsc_is_nth [of "0x1000" demo_rp 3 0] by (simp add: demo_load)
qed

theorem rsc_count_wraps_witness:
  "handle_rsc_table demo_ops (demo_rp\<lparr>rp_mem := (\<lambda>_. 0)(0x1000 := 1, 0x1007 := 64)\<rparr>) 0x1000 16 None
    = handle_entries demo_ops None 0x1000 0 0 (demo_rp\<lparr>rp_mem := (\<lambda>_. 0)(0x1000 := 1, 0x1007 := 64)\<rparr>)"
  by (rule rsc_count_wraps) (simp_all add: rp_load_def load32_def of_le32_def mem_read_4)

theorem mmap_translates_da_witness:
  "remoteproc_mmap demo_ops demo_rp (Some BAD_PHYS) (Some 0x20) 16 0 None
    = Some (0x1020, Some 0x4020, Some 0x20, Some demo_io, demo_rp)"
  using mmap_translates_da [of demo_rp "[]" demo_pm "[]" "0x20" 16 demo_io demo_ops 0 None]
  by (simp add: demo_rp_def demo_pm_def covers_def single_page_def demo_io_def no_ops_def)

end
