(* ===== verification/Elf_Loader.thy ===== *)
theory Elf_Loader
  imports Remoteproc
begin

unbundle bit_operations_syntax

text \<open>
  \<^verbatim>\<open>src/openamp/open-amp/lib/remoteproc/elf_loader.c\<close> and \<^verbatim>\<open>elf_loader.h\<close>: the incremental ELF loader.
  The image comes in windows: \<open>img\<close> holds the bytes that can be read at \<open>img_data\<close> (\<open>None\<close> the NULL
  pointer), \<open>offset\<close> and \<open>len\<close> say which part of the file they are. Headers are kept as the bytes that
  were copied, and read with the layout of the structures; reading outside an object has no
  defined result. Whether an allocation of a size succeeds is the parameter \<open>alloc\<close>.
\<close>

section \<open>Structures\<close>

definition of_le64 :: "u8 list \<Rightarrow> u64" where
  "of_le64 bs = ucast (of_le32 bs) OR push_bit 32 (ucast (of_le32 (drop 4 bs)))"

record Elf32_Ehdr =
  e32_ident :: "u8 list"
  e32_type :: u16
  e32_machine :: u16
  e32_version :: u32
  e32_entry :: u32
  e32_phoff :: u32
  e32_shoff :: u32
  e32_flags :: u32
  e32_ehsize :: u16
  e32_phentsize :: u16
  e32_phnum :: u16
  e32_shentsize :: u16
  e32_shnum :: u16
  e32_shstrndx :: u16

record Elf64_Ehdr =
  e64_ident :: "u8 list"
  e64_type :: u16
  e64_machine :: u16
  e64_version :: u32
  e64_entry :: u64
  e64_phoff :: u64
  e64_shoff :: u64
  e64_flags :: u32
  e64_ehsize :: u16
  e64_phentsize :: u16
  e64_phnum :: u16
  e64_shentsize :: u16
  e64_shnum :: u16
  e64_shstrndx :: u16

record Elf32_Phdr =
  p32_type :: u32
  p32_offset :: u32
  p32_vaddr :: u32
  p32_paddr :: u32
  p32_filesz :: u32
  p32_memsz :: u32
  p32_flags :: u32
  p32_align :: u32

record Elf64_Phdr =
  p64_type :: u32
  p64_flags :: u32
  p64_offset :: u64
  p64_vaddr :: u64
  p64_paddr :: u64
  p64_filesz :: u64
  p64_memsz :: u64
  p64_align :: u64

record Elf32_Shdr =
  s32_name :: u32
  s32_type :: u32
  s32_flags :: u32
  s32_addr :: u32
  s32_offset :: u32
  s32_size :: u32
  s32_link :: u32
  s32_info :: u32
  s32_addralign :: u32
  s32_entsize :: u32

record Elf64_Shdr =
  s64_name :: u32
  s64_type :: u32
  s64_flags :: u64
  s64_addr :: u64
  s64_offset :: u64
  s64_size :: u64
  s64_link :: u32
  s64_info :: u32
  s64_addralign :: u64
  s64_entsize :: u64

abbreviation (input) sizeof_Elf32_Ehdr :: nat where "sizeof_Elf32_Ehdr \<equiv> 52"
abbreviation (input) sizeof_Elf64_Ehdr :: nat where "sizeof_Elf64_Ehdr \<equiv> 64"
abbreviation (input) sizeof_Elf32_Phdr :: nat where "sizeof_Elf32_Phdr \<equiv> 32"
abbreviation (input) sizeof_Elf64_Phdr :: nat where "sizeof_Elf64_Phdr \<equiv> 56"
abbreviation (input) sizeof_Elf32_Shdr :: nat where "sizeof_Elf32_Shdr \<equiv> 40"
abbreviation (input) sizeof_Elf64_Shdr :: nat where "sizeof_Elf64_Shdr \<equiv> 64"

text \<open>Reading a structure at the start of an object.\<close>

definition Elf32_Ehdr_at :: "u8 list \<Rightarrow> Elf32_Ehdr option" where
  "Elf32_Ehdr_at bs = do {
     require (sizeof_Elf32_Ehdr \<le> length bs);
     Some \<lparr>e32_ident = take 16 bs, e32_type = of_le16 (drop 16 bs), e32_machine = of_le16 (drop 18 bs),
       e32_version = of_le32 (drop 20 bs), e32_entry = of_le32 (drop 24 bs), e32_phoff = of_le32 (drop 28 bs),
       e32_shoff = of_le32 (drop 32 bs), e32_flags = of_le32 (drop 36 bs), e32_ehsize = of_le16 (drop 40 bs),
       e32_phentsize = of_le16 (drop 42 bs), e32_phnum = of_le16 (drop 44 bs), e32_shentsize = of_le16 (drop 46 bs),
       e32_shnum = of_le16 (drop 48 bs), e32_shstrndx = of_le16 (drop 50 bs)\<rparr>
   }"

definition Elf64_Ehdr_at :: "u8 list \<Rightarrow> Elf64_Ehdr option" where
  "Elf64_Ehdr_at bs = do {
     require (sizeof_Elf64_Ehdr \<le> length bs);
     Some \<lparr>e64_ident = take 16 bs, e64_type = of_le16 (drop 16 bs), e64_machine = of_le16 (drop 18 bs),
       e64_version = of_le32 (drop 20 bs), e64_entry = of_le64 (drop 24 bs), e64_phoff = of_le64 (drop 32 bs),
       e64_shoff = of_le64 (drop 40 bs), e64_flags = of_le32 (drop 48 bs), e64_ehsize = of_le16 (drop 52 bs),
       e64_phentsize = of_le16 (drop 54 bs), e64_phnum = of_le16 (drop 56 bs), e64_shentsize = of_le16 (drop 58 bs),
       e64_shnum = of_le16 (drop 60 bs), e64_shstrndx = of_le16 (drop 62 bs)\<rparr>
   }"

definition Elf32_Phdr_at :: "u8 list \<Rightarrow> Elf32_Phdr option" where
  "Elf32_Phdr_at bs = do {
     require (sizeof_Elf32_Phdr \<le> length bs);
     Some \<lparr>p32_type = of_le32 bs, p32_offset = of_le32 (drop 4 bs), p32_vaddr = of_le32 (drop 8 bs),
       p32_paddr = of_le32 (drop 12 bs), p32_filesz = of_le32 (drop 16 bs), p32_memsz = of_le32 (drop 20 bs),
       p32_flags = of_le32 (drop 24 bs), p32_align = of_le32 (drop 28 bs)\<rparr>
   }"

definition Elf64_Phdr_at :: "u8 list \<Rightarrow> Elf64_Phdr option" where
  "Elf64_Phdr_at bs = do {
     require (sizeof_Elf64_Phdr \<le> length bs);
     Some \<lparr>p64_type = of_le32 bs, p64_flags = of_le32 (drop 4 bs), p64_offset = of_le64 (drop 8 bs),
       p64_vaddr = of_le64 (drop 16 bs), p64_paddr = of_le64 (drop 24 bs), p64_filesz = of_le64 (drop 32 bs),
       p64_memsz = of_le64 (drop 40 bs), p64_align = of_le64 (drop 48 bs)\<rparr>
   }"

definition Elf32_Shdr_at :: "u8 list \<Rightarrow> Elf32_Shdr option" where
  "Elf32_Shdr_at bs = do {
     require (sizeof_Elf32_Shdr \<le> length bs);
     Some \<lparr>s32_name = of_le32 bs, s32_type = of_le32 (drop 4 bs), s32_flags = of_le32 (drop 8 bs),
       s32_addr = of_le32 (drop 12 bs), s32_offset = of_le32 (drop 16 bs), s32_size = of_le32 (drop 20 bs),
       s32_link = of_le32 (drop 24 bs), s32_info = of_le32 (drop 28 bs), s32_addralign = of_le32 (drop 32 bs),
       s32_entsize = of_le32 (drop 36 bs)\<rparr>
   }"

definition Elf64_Shdr_at :: "u8 list \<Rightarrow> Elf64_Shdr option" where
  "Elf64_Shdr_at bs = do {
     require (sizeof_Elf64_Shdr \<le> length bs);
     Some \<lparr>s64_name = of_le32 bs, s64_type = of_le32 (drop 4 bs), s64_flags = of_le64 (drop 8 bs),
       s64_addr = of_le64 (drop 16 bs), s64_offset = of_le64 (drop 24 bs), s64_size = of_le64 (drop 32 bs),
       s64_link = of_le32 (drop 40 bs), s64_info = of_le32 (drop 44 bs), s64_addralign = of_le64 (drop 48 bs),
       s64_entsize = of_le64 (drop 56 bs)\<rparr>
   }"

text \<open>
  \<^verbatim>\<open>struct elf32_info\<close> and \<^verbatim>\<open>struct elf64_info\<close> have the same fields; the class of the header says which
  one an object is. The tables are pointers to allocated copies, \<open>None\<close> when they are NULL.
\<close>

record elf_info =
  ei_ehdr :: "u8 list"
  ei_load_state :: int
  ei_phdrs :: "u8 list option"
  ei_shdrs :: "u8 list option"
  ei_shstrtab :: "u8 list option"

abbreviation (input) ELFCLASS64 :: u8 where "ELFCLASS64 \<equiv> 2"
abbreviation (input) PT_LOAD :: u32 where "PT_LOAD \<equiv> 1"
abbreviation (input) ELF_STATE_INIT :: int where "ELF_STATE_INIT \<equiv> 0"
abbreviation (input) ELF_STATE_WAIT_FOR_PHDRS :: int where "ELF_STATE_WAIT_FOR_PHDRS \<equiv> 0x100"
abbreviation (input) ELF_STATE_WAIT_FOR_SHDRS :: int where "ELF_STATE_WAIT_FOR_SHDRS \<equiv> 0x200"
abbreviation (input) ELF_STATE_WAIT_FOR_SHSTRTAB :: int where "ELF_STATE_WAIT_FOR_SHSTRTAB \<equiv> 0x400"
abbreviation (input) ELF_STATE_HDRS_COMPLETE :: int where "ELF_STATE_HDRS_COMPLETE \<equiv> 0x800"
abbreviation (input) ELF_STATE_MASK :: int where "ELF_STATE_MASK \<equiv> 0xFF00"
abbreviation (input) ELF_NEXT_SEGMENT_MASK :: int where "ELF_NEXT_SEGMENT_MASK \<equiv> 0xFF"
abbreviation (input) RPROC_LOADER_NOT_READY :: int where "RPROC_LOADER_NOT_READY \<equiv> 0"
abbreviation (input) RPROC_LOADER_READY_TO_LOAD :: int where "RPROC_LOADER_READY_TO_LOAD \<equiv> 0x10000"
abbreviation (input) RPROC_LOADER_POST_DATA_LOAD :: int where "RPROC_LOADER_POST_DATA_LOAD \<equiv> 0x20000"
abbreviation (input) RPROC_LOADER_LOAD_COMPLETE :: int where "RPROC_LOADER_LOAD_COMPLETE \<equiv> 0x40000"
abbreviation (input) RPROC_LOADER_MASK :: int where "RPROC_LOADER_MASK \<equiv> 0xFF0000"
abbreviation (input) RPROC_LOAD_ANYADDR :: u64 where "RPROC_LOAD_ANYADDR \<equiv> - 1"
abbreviation (input) RPROC_ERR_LOADER_STATE :: int where "RPROC_ERR_LOADER_STATE \<equiv> 12"

section \<open>Header fields\<close>

definition elf_is_64 :: "u8 list \<Rightarrow> bool option" where
  "elf_is_64 elf = do {
     c \<leftarrow> arr_get elf 4;
     Some (c = ELFCLASS64)
   }"

definition elf_ehdr_size :: "u8 list option \<Rightarrow> u64 option" where
  "elf_ehdr_size elf =
     (case elf of None \<Rightarrow> Some 64
      | Some bs \<Rightarrow> do {
          c \<leftarrow> elf_is_64 bs;
          Some (if c then 64 else 52)
        })"

definition elf_phoff :: "u8 list \<Rightarrow> u64 option" where
  "elf_phoff elf = do {
     c \<leftarrow> elf_is_64 elf;
     if \<not> c then map_option (\<lambda>h. ucast (e32_phoff h)) (Elf32_Ehdr_at elf)
     else map_option e64_phoff (Elf64_Ehdr_at elf)
   }"

definition elf_phentsize :: "u8 list \<Rightarrow> u64 option" where
  "elf_phentsize elf = do {
     c \<leftarrow> elf_is_64 elf;
     if \<not> c then map_option (\<lambda>h. ucast (e32_phentsize h)) (Elf32_Ehdr_at elf)
     else map_option (\<lambda>h. ucast (e64_phentsize h)) (Elf64_Ehdr_at elf)
   }"

definition elf_phnum :: "u8 list \<Rightarrow> int option" where
  "elf_phnum elf = do {
     c \<leftarrow> elf_is_64 elf;
     if \<not> c then map_option (\<lambda>h. uint (e32_phnum h)) (Elf32_Ehdr_at elf)
     else map_option (\<lambda>h. uint (e64_phnum h)) (Elf64_Ehdr_at elf)
   }"

definition elf_shoff :: "u8 list \<Rightarrow> u64 option" where
  "elf_shoff elf = do {
     c \<leftarrow> elf_is_64 elf;
     if \<not> c then map_option (\<lambda>h. ucast (e32_shoff h)) (Elf32_Ehdr_at elf)
     else map_option e64_shoff (Elf64_Ehdr_at elf)
   }"

definition elf_shentsize :: "u8 list \<Rightarrow> u64 option" where
  "elf_shentsize elf = do {
     c \<leftarrow> elf_is_64 elf;
     if \<not> c then map_option (\<lambda>h. ucast (e32_shentsize h)) (Elf32_Ehdr_at elf)
     else map_option (\<lambda>h. ucast (e64_shentsize h)) (Elf64_Ehdr_at elf)
   }"

definition elf_shnum :: "u8 list \<Rightarrow> int option" where
  "elf_shnum elf = do {
     c \<leftarrow> elf_is_64 elf;
     if \<not> c then map_option (\<lambda>h. uint (e32_shnum h)) (Elf32_Ehdr_at elf)
     else map_option (\<lambda>h. uint (e64_shnum h)) (Elf64_Ehdr_at elf)
   }"

definition elf_shstrndx :: "u8 list \<Rightarrow> int option" where
  "elf_shstrndx elf = do {
     c \<leftarrow> elf_is_64 elf;
     if \<not> c then map_option (\<lambda>h. uint (e32_shstrndx h)) (Elf32_Ehdr_at elf)
     else map_option (\<lambda>h. uint (e64_shstrndx h)) (Elf64_Ehdr_at elf)
   }"

section \<open>Segments and sections\<close>

record elf_segment =
  sg_type :: u32
  sg_offset :: u64
  sg_vaddr :: u64
  sg_paddr :: u64
  sg_filesz :: u64
  sg_memsz :: u64

definition elf_parse_segment :: "u8 list \<Rightarrow> u8 list \<Rightarrow> elf_segment option" where
  "elf_parse_segment elf elf_phdr = do {
     c \<leftarrow> elf_is_64 elf;
     if \<not> c then do {
       p \<leftarrow> Elf32_Phdr_at elf_phdr;
       Some \<lparr>sg_type = p32_type p, sg_offset = ucast (p32_offset p), sg_vaddr = ucast (p32_vaddr p),
         sg_paddr = ucast (p32_paddr p), sg_filesz = ucast (p32_filesz p), sg_memsz = ucast (p32_memsz p)\<rparr>
     } else do {
       p \<leftarrow> Elf64_Phdr_at elf_phdr;
       Some \<lparr>sg_type = p64_type p, sg_offset = p64_offset p, sg_vaddr = p64_vaddr p,
         sg_paddr = p64_paddr p, sg_filesz = p64_filesz p, sg_memsz = p64_memsz p\<rparr>
     }
   }"

text \<open>
  A pointer into a table is the bytes from there on. The stride is the size of the structure, not
  the entry size of the header.
\<close>

definition elf_get_segment_from_index :: "elf_info \<Rightarrow> int \<Rightarrow> u8 list option option" where
  "elf_get_segment_from_index info index = do {
     c \<leftarrow> elf_is_64 (ei_ehdr info);
     (case ei_phdrs info of None \<Rightarrow> Some None
      | Some phdrs \<Rightarrow> do {
          num \<leftarrow> elf_phnum (ei_ehdr info);
          if index < 0 \<or> num \<le> index then Some None
          else Some (Some (drop (nat index * (if c then sizeof_Elf64_Phdr else sizeof_Elf32_Phdr)) phdrs))
        })
   }"

text \<open>\<open>strcmp (name, s) == 0\<close> for a name without its terminator; reading past the table has no result.\<close>

fun strcmp_eq :: "u8 list \<Rightarrow> u8 list \<Rightarrow> bool option" where
  "strcmp_eq name [] = None"
| "strcmp_eq [] (y # ys) = Some (y = 0)"
| "strcmp_eq (x # xs) (y # ys) = (if x \<noteq> y then Some False else strcmp_eq xs ys)"

fun find_section :: "nat \<Rightarrow> u8 list \<Rightarrow> u8 list \<Rightarrow> nat \<Rightarrow> u8 list \<Rightarrow> u8 list option option" where
  "find_section esz name name_table 0 shdr = Some None"
| "find_section esz name name_table (Suc k) shdr = do {
     require (4 \<le> length shdr);
     eq \<leftarrow> strcmp_eq name (drop (unat (of_le32 shdr)) name_table);
     if \<not> eq then find_section esz name name_table k (drop esz shdr)
     else Some (Some shdr)
   }"

definition elf_get_section_from_name :: "elf_info \<Rightarrow> u8 list \<Rightarrow> u8 list option option" where
  "elf_get_section_from_name info name = do {
     c \<leftarrow> elf_is_64 (ei_ehdr info);
     (case (ei_shdrs info, ei_shstrtab info) of
        (Some shdr, Some name_table) \<Rightarrow> do {
          num \<leftarrow> elf_shnum (ei_ehdr info);
          find_section (if c then sizeof_Elf64_Shdr else sizeof_Elf32_Shdr) name name_table (nat num) shdr
        }
      | _ \<Rightarrow> Some None)
   }"

definition elf_get_section_from_index :: "elf_info \<Rightarrow> int \<Rightarrow> u8 list option option" where
  "elf_get_section_from_index info index = do {
     c \<leftarrow> elf_is_64 (ei_ehdr info);
     (case ei_shdrs info of None \<Rightarrow> Some None
      | Some shdrs \<Rightarrow> do {
          num \<leftarrow> elf_shnum (ei_ehdr info);
          if index < 0 \<or> num \<le> index then Some None
          else Some (Some (drop (nat index * (if c then sizeof_Elf64_Shdr else sizeof_Elf32_Shdr)) shdrs))
        })
   }"

record elf_section =
  sc_type :: u32
  sc_flags :: u32
  sc_addr :: u64
  sc_offset :: u64
  sc_size :: u64
  sc_link :: u32
  sc_info :: u32
  sc_addralign :: u32
  sc_entsize :: u64

definition elf_parse_section :: "u8 list \<Rightarrow> u8 list \<Rightarrow> elf_section option" where
  "elf_parse_section elf elf_shdr = do {
     c \<leftarrow> elf_is_64 elf;
     if \<not> c then do {
       s \<leftarrow> Elf32_Shdr_at elf_shdr;
       Some \<lparr>sc_type = s32_type s, sc_flags = s32_flags s, sc_addr = ucast (s32_addr s), sc_offset = ucast (s32_offset s),
         sc_size = ucast (s32_size s), sc_link = s32_link s, sc_info = s32_info s, sc_addralign = s32_addralign s,
         sc_entsize = ucast (s32_entsize s)\<rparr>
     } else do {
       s \<leftarrow> Elf64_Shdr_at elf_shdr;
       Some \<lparr>sc_type = s64_type s, sc_flags = ucast (s64_flags s), sc_addr = s64_addr s, sc_offset = s64_offset s,
         sc_size = s64_size s, sc_link = s64_link s, sc_info = s64_info s, sc_addralign = ucast (s64_addralign s),
         sc_entsize = s64_entsize s\<rparr>
     }
   }"


text \<open>
  The values at \<open>da\<close>, \<open>noffset\<close>, \<open>nfsize\<close> and \<open>nmsize\<close> are those of the last segment looked at, loadable or
  not; \<open>nseg\<close> is the index after it. Every turn raises the index below the number of segments, so
  the loop ends.
\<close>

record seg_out =
  so_da :: u64
  so_noffset :: u64
  so_nfsize :: u64
  so_nmsize :: u64

function elf_next_load_segment :: "elf_info \<Rightarrow> int \<Rightarrow> seg_out \<Rightarrow> (bool \<times> int \<times> seg_out) option" where
  "elf_next_load_segment info nseg out =
     (case elf_get_segment_from_index info nseg of
        None \<Rightarrow> None
      | Some None \<Rightarrow> Some (False, nseg, out)
      | Some (Some phdr) \<Rightarrow>
          (case elf_parse_segment (ei_ehdr info) phdr of
             None \<Rightarrow> None
           | Some sg \<Rightarrow>
               (let out' = \<lparr>so_da = sg_paddr sg, so_noffset = sg_offset sg, so_nfsize = sg_filesz sg, so_nmsize = sg_memsz sg\<rparr>
                in if sg_type sg = PT_LOAD then Some (True, nseg + 1, out')
                   else elf_next_load_segment info (nseg + 1) out')))"
  by pat_completeness auto

lemma segment_index:
  assumes "elf_get_segment_from_index info i = Some (Some p)"
  obtains n phdrs where "elf_phnum (ei_ehdr info) = Some n" "0 \<le> i" "i < n" "ei_phdrs info = Some phdrs"
  using assms by (auto simp: elf_get_segment_from_index_def opt_simps split: option.splits if_splits)

termination elf_next_load_segment
  by (relation "measure (\<lambda>(info, nseg, out). nat ((case elf_phnum (ei_ehdr info) of Some n \<Rightarrow> n | None \<Rightarrow> 0) - nseg))")
    (auto elim!: segment_index)

declare elf_next_load_segment.simps [simp del]

definition elf_info_size :: "u8 list \<Rightarrow> u64 option" where
  "elf_info_size img_data = do {
     c \<leftarrow> elf_is_64 img_data;
     Some (if \<not> c then 80 else 96)
   }"

section \<open>Loading the headers\<close>

text \<open>\<^verbatim>\<open>"\177ELF"\<close>\<close>

definition ELFMAG :: "u8 list" where
  "ELFMAG = [0x7F, 0x45, 0x4C, 0x46]"

definition elf_identify :: "u8 list option \<Rightarrow> u64 \<Rightarrow> int option" where
  "elf_identify img_data len =
     (if len < 4 \<or> img_data = None then Some (- RPROC_EINVAL)
      else do {
        bs \<leftarrow> img_data;
        require (4 \<le> length bs);
        Some (if take 4 bs \<noteq> ELFMAG then - RPROC_EINVAL else 0)
      })"

text \<open>\<open>memcpy\<close> of \<open>n\<close> bytes from \<open>img_data + rel\<close>.\<close>

definition img_copy :: "u8 list option \<Rightarrow> u64 \<Rightarrow> u64 \<Rightarrow> u8 list option" where
  "img_copy img rel n = do {
     bs \<leftarrow> img;
     require (unat rel + unat n \<le> length bs);
     Some (take (unat n) (drop (unat rel) bs))
   }"

text \<open>
  The stages of \<open>elf_load_header\<close>. A stage returns from the function (\<open>Inl\<close>: the result, \<open>*img_info\<close>,
  \<open>*noffset\<close> and \<open>*nlen\<close>) or goes on with the information collected so far (\<open>Inr\<close>). An image
  information of another class than the header that is copied into it is not covered.
\<close>

type_synonym hdr_result = "int \<times> elf_info option \<times> u64 \<times> u64"

definition load_ehdr ::
  "(u64 \<Rightarrow> bool) \<Rightarrow> u8 list option \<Rightarrow> u64 \<Rightarrow> elf_info option \<Rightarrow> u64 \<Rightarrow> u64 \<Rightarrow> (hdr_result + elf_info) option" where
  "load_ehdr alloc img len info noffset nlen = do {
     tmpsize \<leftarrow> elf_ehdr_size img;
     if len < tmpsize then Some (Inl (ELF_STATE_INIT, info, 0, tmpsize))
     else do {
       bs \<leftarrow> img;
       infosize \<leftarrow> elf_info_size bs;
       (case info of
          None \<Rightarrow>
            if \<not> alloc infosize then Some (Inl (- RPROC_ENOMEM, None, noffset, nlen))
            else do {
              hdr \<leftarrow> img_copy img 0 tmpsize;
              Some (Inr \<lparr>ei_ehdr = hdr, ei_load_state = ELF_STATE_WAIT_FOR_PHDRS, ei_phdrs = None,
                ei_shdrs = None, ei_shstrtab = None\<rparr>)
            }
        | Some i \<Rightarrow> do {
            require (elf_is_64 (ei_ehdr i) = elf_is_64 bs);
            hdr \<leftarrow> img_copy img 0 tmpsize;
            Some (Inr (i\<lparr>ei_ehdr := hdr, ei_load_state := ELF_STATE_WAIT_FOR_PHDRS\<rparr>))
          })
     }
   }"

definition load_phdrs ::
  "(u64 \<Rightarrow> bool) \<Rightarrow> u8 list option \<Rightarrow> u64 \<Rightarrow> u64 \<Rightarrow> elf_info \<Rightarrow> u64 \<Rightarrow> u64 \<Rightarrow> (hdr_result + elf_info) option" where
  "load_phdrs alloc img offset len info noffset nlen =
     (if ei_load_state info \<noteq> ELF_STATE_WAIT_FOR_PHDRS then Some (Inr info)
      else do {
        phdrs_offset \<leftarrow> elf_phoff (ei_ehdr info);
        num \<leftarrow> elf_phnum (ei_ehdr info);
        esz \<leftarrow> elf_phentsize (ei_ehdr info);
        let phdrs_size = word_of_int num * esz;
        if phdrs_offset < offset \<or> offset + len < phdrs_offset + phdrs_size
        then Some (Inl (ei_load_state info, Some info, phdrs_offset, phdrs_size))
        else if \<not> alloc phdrs_size
        then Some (Inl (- RPROC_ENOMEM, Some (info\<lparr>ei_phdrs := None\<rparr>), noffset, nlen))
        else do {
          bs \<leftarrow> img_copy img (phdrs_offset - offset) phdrs_size;
          Some (Inr (info\<lparr>ei_phdrs := Some bs, ei_load_state := ELF_STATE_WAIT_FOR_SHDRS OR RPROC_LOADER_READY_TO_LOAD\<rparr>))
        }
      })"

definition load_shdrs ::
  "(u64 \<Rightarrow> bool) \<Rightarrow> u8 list option \<Rightarrow> u64 \<Rightarrow> u64 \<Rightarrow> elf_info \<Rightarrow> u64 \<Rightarrow> u64 \<Rightarrow> (hdr_result + elf_info) option" where
  "load_shdrs alloc img offset len info noffset nlen =
     (if ei_load_state info AND ELF_STATE_WAIT_FOR_SHDRS = 0 then Some (Inr info)
      else do {
        shdrs_offset \<leftarrow> elf_shoff (ei_ehdr info);
        num \<leftarrow> elf_shnum (ei_ehdr info);
        if num = 0 then do {
          let st = (ei_load_state info AND NOT ELF_STATE_MASK) OR ELF_STATE_HDRS_COMPLETE;
          Some (Inl (st, Some (info\<lparr>ei_load_state := st\<rparr>), noffset, 0))
        }
        else do {
          esz \<leftarrow> elf_shentsize (ei_ehdr info);
          let shdrs_size = word_of_int num * esz;
          if shdrs_offset < offset \<or> offset + len < shdrs_offset + shdrs_size
          then Some (Inl (ei_load_state info, Some info, shdrs_offset, shdrs_size))
          else if \<not> alloc shdrs_size
          then Some (Inl (- RPROC_ENOMEM, Some (info\<lparr>ei_shdrs := None\<rparr>), noffset, nlen))
          else do {
            bs \<leftarrow> img_copy img (shdrs_offset - offset) shdrs_size;
            Some (Inr (info\<lparr>ei_shdrs := Some bs,
              ei_load_state := (ei_load_state info AND NOT ELF_STATE_MASK) OR ELF_STATE_WAIT_FOR_SHSTRTAB\<rparr>))
          }
        }
      })"

definition load_shstrtab ::
  "(u64 \<Rightarrow> bool) \<Rightarrow> u8 list option \<Rightarrow> u64 \<Rightarrow> u64 \<Rightarrow> elf_info \<Rightarrow> u64 \<Rightarrow> u64 \<Rightarrow> (hdr_result + elf_info) option" where
  "load_shstrtab alloc img offset len info noffset nlen =
     (if ei_load_state info AND ELF_STATE_WAIT_FOR_SHSTRTAB = 0 then Some (Inr info)
      else do {
        shstrndx \<leftarrow> elf_shstrndx (ei_ehdr info);
        sec \<leftarrow> elf_get_section_from_index info shstrndx;
        (case sec of
           None \<Rightarrow> Some (Inl (- RPROC_EINVAL, Some info, noffset, nlen))
         | Some shdr \<Rightarrow> do {
             s \<leftarrow> elf_parse_section (ei_ehdr info) shdr;
             if sc_offset s < offset \<or> offset + len < sc_offset s + sc_size s
             then Some (Inl (ei_load_state info, Some info, sc_offset s, sc_size s))
             else if \<not> alloc (sc_size s)
             then Some (Inl (- RPROC_ENOMEM, Some (info\<lparr>ei_shstrtab := None\<rparr>), noffset, nlen))
             else do {
               bs \<leftarrow> img_copy img (sc_offset s - offset) (sc_size s);
               let st = (ei_load_state info AND NOT ELF_STATE_MASK) OR ELF_STATE_HDRS_COMPLETE;
               Some (Inl (st, Some (info\<lparr>ei_shstrtab := Some bs, ei_load_state := st\<rparr>), noffset, 0))
             }
           })
      })"

text \<open>Running the stages in order; the last one is followed by \<open>return last_load_state\<close>.\<close>

definition stage :: "(hdr_result + elf_info) option \<Rightarrow> (elf_info \<Rightarrow> hdr_result option) \<Rightarrow> hdr_result option" where
  "stage r k = do {
     x \<leftarrow> r;
     (case x of Inl ret \<Rightarrow> Some ret | Inr info \<Rightarrow> k info)
   }"

definition load_tables ::
  "(u64 \<Rightarrow> bool) \<Rightarrow> u8 list option \<Rightarrow> u64 \<Rightarrow> u64 \<Rightarrow> int \<Rightarrow> u64 \<Rightarrow> u64 \<Rightarrow> elf_info \<Rightarrow> hdr_result option" where
  "load_tables alloc img offset len last_load_state noffset nlen info =
     (if last_load_state \<noteq> ei_load_state info then Some (- RPROC_EINVAL, Some info, noffset, nlen)
      else stage (load_phdrs alloc img offset len info noffset nlen)
        (\<lambda>info. stage (load_shdrs alloc img offset len info noffset nlen)
        (\<lambda>info. stage (load_shstrtab alloc img offset len info noffset nlen)
        (\<lambda>info. Some (last_load_state, Some info, noffset, nlen)))))"

definition elf_load_header ::
  "(u64 \<Rightarrow> bool) \<Rightarrow> u8 list option \<Rightarrow> u64 \<Rightarrow> u64 \<Rightarrow> elf_info option \<Rightarrow> int \<Rightarrow> u64 \<Rightarrow> u64 \<Rightarrow> hdr_result option" where
  "elf_load_header alloc img offset len info last_load_state noffset nlen =
     (if last_load_state = ELF_STATE_INIT
      then stage (load_ehdr alloc img len info noffset nlen)
             (load_tables alloc img offset len ELF_STATE_WAIT_FOR_PHDRS noffset nlen)
      else do {
        i \<leftarrow> info;
        load_tables alloc img offset len last_load_state noffset nlen i
      })"

section \<open>Loading the segments\<close>

record elf_out =
  eo_info :: "elf_info option"
  eo_da :: u64
  eo_noffset :: u64
  eo_nlen :: u64
  eo_padding :: u8
  eo_nmemsize :: u64

text \<open>The next segment in the state \<open>RPROC_LOADER_READY_TO_LOAD\<close>.\<close>

definition load_segment :: "elf_info \<Rightarrow> elf_out \<Rightarrow> (int \<times> elf_out) option" where
  "load_segment info out = do {
     let nsegment = ei_load_state info AND ELF_NEXT_SEGMENT_MASK;
     (found, nsegment', o1) \<leftarrow> elf_next_load_segment info nsegment
        \<lparr>so_da = eo_da out, so_noffset = eo_noffset out, so_nfsize = 0, so_nmsize = 0\<rparr>;
     phnums \<leftarrow> elf_phnum (ei_ehdr info);
     let st1 = (if nsegment' = phnums
                then (ei_load_state info AND NOT RPROC_LOADER_MASK)
                     OR (if found then RPROC_LOADER_POST_DATA_LOAD else RPROC_LOADER_LOAD_COMPLETE)
                else ei_load_state info);
     let st2 = (st1 AND NOT ELF_NEXT_SEGMENT_MASK) OR (nsegment' AND ELF_NEXT_SEGMENT_MASK);
     Some (st2, out\<lparr>eo_info := Some (info\<lparr>ei_load_state := st2\<rparr>),
       eo_da := (if nsegment' = phnums \<and> \<not> found then RPROC_LOAD_ANYADDR else so_da o1),
       eo_noffset := so_noffset o1,
       eo_nlen := (if found then so_nfsize o1 else eo_nlen out),
       eo_nmemsize := (if found then so_nmsize o1 else eo_nmemsize out)\<rparr>)
   }"

text \<open>After the data: the rest of the headers.\<close>

definition load_post ::
  "(u64 \<Rightarrow> bool) \<Rightarrow> u8 list option \<Rightarrow> u64 \<Rightarrow> u64 \<Rightarrow> elf_info \<Rightarrow> int \<Rightarrow> elf_out \<Rightarrow> (int \<times> elf_out) option" where
  "load_post alloc img offset len info last_load_state out =
     (if ei_load_state info AND ELF_STATE_HDRS_COMPLETE = 0 then do {
        (last, inf, noffset, nlen) \<leftarrow> elf_load_header alloc img offset len (Some info) last_load_state (eo_noffset out) (eo_nlen out);
        let out1 = out\<lparr>eo_info := inf, eo_noffset := noffset, eo_nlen := nlen\<rparr>;
        if last < 0 then Some (last, out1)
        else do {
          i \<leftarrow> inf;
          if last AND ELF_STATE_HDRS_COMPLETE \<noteq> 0 then do {
            let st = (ei_load_state i AND NOT RPROC_LOADER_MASK) OR RPROC_LOADER_LOAD_COMPLETE;
            Some (st, out1\<lparr>eo_info := Some (i\<lparr>ei_load_state := st\<rparr>), eo_nlen := 0, eo_da := RPROC_LOAD_ANYADDR\<rparr>)
          } else Some (ei_load_state i, out1\<lparr>eo_da := RPROC_LOAD_ANYADDR\<rparr>)
        }
      }
      else do {
        let st = (ei_load_state info AND NOT RPROC_LOADER_MASK) OR RPROC_LOADER_LOAD_COMPLETE;
        Some (st, out\<lparr>eo_info := Some (info\<lparr>ei_load_state := st\<rparr>), eo_nlen := 0\<rparr>)
      })"

definition elf_load ::
  "(u64 \<Rightarrow> bool) \<Rightarrow> u8 list option \<Rightarrow> u64 \<Rightarrow> u64 \<Rightarrow> int \<Rightarrow> elf_out \<Rightarrow> (int \<times> elf_out) option" where
  "elf_load alloc img offset len last_load_state out = do {
     (last, out1) \<leftarrow>
       (if last_load_state AND RPROC_LOADER_MASK = RPROC_LOADER_NOT_READY then do {
          (last, inf, noffset, nlen) \<leftarrow> elf_load_header alloc img offset len (eo_info out) last_load_state (eo_noffset out) (eo_nlen out);
          Some (last, out\<lparr>eo_info := inf, eo_noffset := noffset, eo_nlen := nlen\<rparr>)
        } else Some (last_load_state, out));
     if last AND RPROC_LOADER_MASK = RPROC_LOADER_NOT_READY
     then Some (last, out1\<lparr>eo_da := RPROC_LOAD_ANYADDR\<rparr>)
     else do {
       info \<leftarrow> eo_info out1;
       let out2 = out1\<lparr>eo_padding := 0\<rparr>;
       if ei_load_state info AND RPROC_LOADER_READY_TO_LOAD \<noteq> 0 then load_segment info out2
       else if ei_load_state info AND RPROC_LOADER_POST_DATA_LOAD \<noteq> 0
       then load_post alloc img offset len info last out2
       else Some (ei_load_state info, out2)
     }
   }"

section \<open>Questions about a loaded image\<close>

text \<open>\<open>elf_release\<close> frees the tables and the information: nothing is left of it.\<close>

definition elf_release :: "elf_info option \<Rightarrow> elf_info option" where
  "elf_release img_info = None"

definition elf_get_entry :: "elf_info option \<Rightarrow> u64 option" where
  "elf_get_entry img_info =
     (case img_info of None \<Rightarrow> Some BAD_PHYS
      | Some info \<Rightarrow> do {
          c \<leftarrow> elf_is_64 (ei_ehdr info);
          if \<not> c then map_option (\<lambda>h. ucast (e32_entry h)) (Elf32_Ehdr_at (ei_ehdr info))
          else map_option e64_entry (Elf64_Ehdr_at (ei_ehdr info))
        })"

text \<open>\<^verbatim>\<open>".resource_table"\<close>; the results are left alone where the function does not set them.\<close>

definition rsc_section_name :: "u8 list" where
  "rsc_section_name = [0x2E, 0x72, 0x65, 0x73, 0x6F, 0x75, 0x72, 0x63, 0x65, 0x5F, 0x74, 0x61, 0x62, 0x6C, 0x65]"

definition elf_locate_rsc_table ::
  "elf_info option \<Rightarrow> u64 \<Rightarrow> u64 \<Rightarrow> u64 \<Rightarrow> (int \<times> u64 \<times> u64 \<times> u64) option" where
  "elf_locate_rsc_table img_info da offset sz =
     (case img_info of None \<Rightarrow> Some (- RPROC_EINVAL, da, offset, sz)
      | Some info \<Rightarrow>
          if ei_load_state info AND ELF_STATE_HDRS_COMPLETE = 0 then Some (- RPROC_ERR_LOADER_STATE, da, offset, sz)
          else do {
            sec \<leftarrow> elf_get_section_from_name info rsc_section_name;
            (case sec of
               None \<Rightarrow> Some (0, da, offset, 0)
             | Some shdr \<Rightarrow> do {
                 s \<leftarrow> elf_parse_section (ei_ehdr info) shdr;
                 Some (0, sc_addr s, sc_offset s, sc_size s)
               })
          })"

definition elf_get_load_state :: "elf_info option \<Rightarrow> int" where
  "elf_get_load_state img_info = (case img_info of None \<Rightarrow> - RPROC_EINVAL | Some info \<Rightarrow> ei_load_state info)"

end
