(* ===== verification/Elf_Laws.thy ===== *)
theory Elf_Laws
  imports Elf_Loader
begin

unbundle bit_operations_syntax

text \<open>
  What the ELF loader delivers: all headers of a well-formed image, and its loadable segments, each
  once and in order.
\<close>

section \<open>Load states\<close>

lemma and_replaced:
  fixes m r :: int
  assumes "m AND r = 0"
  shows "((st AND NOT m) OR (k AND m)) AND r = st AND r"
proof (rule bit_eqI)
  fix n
  have "bit (m AND r) n = False" using assms by simp
  then show "bit (((st AND NOT m) OR (k AND m)) AND r) n = bit (st AND r) n" by (auto simp: bit_simps)
qed

lemma and_replacement: "((st AND NOT m) OR (k AND m)) AND m = k AND (m :: int)"
  by (rule bit_eqI) (auto simp: bit_simps)

lemma and_overwritten:
  fixes m r :: int
  assumes "m AND r = r"
  shows "((st AND NOT m) OR k) AND r = k AND r"
proof (rule bit_eqI)
  fix n
  have "bit (m AND r) n = bit r n" using assms by simp
  then show "bit (((st AND NOT m) OR k) AND r) n = bit (k AND r) n" by (auto simp: bit_simps)
qed

lemma and_kept:
  fixes m r k :: int
  assumes "m AND r = 0" and "k AND r = 0"
  shows "((st AND NOT m) OR k) AND r = st AND r"
proof (rule bit_eqI)
  fix n
  have "bit (m AND r) n = False" "bit (k AND r) n = False" using assms by simp_all
  then show "bit (((st AND NOT m) OR k) AND r) n = bit (st AND r) n" by (auto simp: bit_simps)
qed

lemma seg_index_small: "i \<le> 255 \<Longrightarrow> int i AND ELF_NEXT_SEGMENT_MASK = int i"
proof -
  assume "i \<le> 255"
  then have "take_bit 8 (int i) = int i" by (simp add: take_bit_int_eq_self)
  moreover have "(255 :: int) = mask 8" by (simp add: mask_eq_exp_minus_1)
  ultimately show ?thesis by (simp add: take_bit_eq_mask)
qed

section \<open>The segment table\<close>

definition phdr_stride :: "elf_info \<Rightarrow> nat" where
  "phdr_stride info = (if elf_is_64 (ei_ehdr info) = Some True then 56 else 32)"

text \<open>The segment table of \<open>info\<close> is there and holds \<open>n\<close> entries.\<close>

definition phdrs_ok :: "elf_info \<Rightarrow> nat \<Rightarrow> bool" where
  "phdrs_ok info n = (elf_phnum (ei_ehdr info) = Some (int n)
     \<and> (\<exists>bs. ei_phdrs info = Some bs \<and> n * phdr_stride info \<le> length bs))"

definition segment :: "elf_info \<Rightarrow> nat \<Rightarrow> elf_segment" where
  "segment info i = the (elf_parse_segment (ei_ehdr info) (drop (i * phdr_stride info) (the (ei_phdrs info))))"

definition seg_result :: "elf_segment \<Rightarrow> seg_out" where
  "seg_result sg = \<lparr>so_da = sg_paddr sg, so_noffset = sg_offset sg, so_nfsize = sg_filesz sg, so_nmsize = sg_memsz sg\<rparr>"

lemma phnum_class: "elf_phnum h = Some n \<Longrightarrow> \<exists>c. elf_is_64 h = Some c"
  by (cases "elf_is_64 h") (simp_all add: elf_phnum_def)

lemma parse_segment_total:
  assumes "elf_is_64 (ei_ehdr info) = Some c" and "phdr_stride info \<le> length p"
  shows "elf_parse_segment (ei_ehdr info) p \<noteq> None"
  using assms by (cases c) (simp_all add: elf_parse_segment_def Elf32_Phdr_at_def Elf64_Phdr_at_def phdr_stride_def)

lemma segment_ok:
  assumes "phdrs_ok info n" and "i < n"
  shows "\<exists>p. elf_get_segment_from_index info (int i) = Some (Some p)
    \<and> elf_parse_segment (ei_ehdr info) p = Some (segment info i)"
proof -
  obtain bs where bs: "elf_phnum (ei_ehdr info) = Some (int n)" "ei_phdrs info = Some bs" "n * phdr_stride info \<le> length bs"
    using assms(1) by (auto simp: phdrs_ok_def)
  obtain c where c: "elf_is_64 (ei_ehdr info) = Some c" using phnum_class [OF bs(1)] by blast
  have "Suc i * phdr_stride info \<le> n * phdr_stride info" using assms(2) by (intro mult_right_mono) auto
  then have room: "i * phdr_stride info + phdr_stride info \<le> length bs" using bs(3) by simp
  let ?p = "drop (i * phdr_stride info) bs"
  have get: "elf_get_segment_from_index info (int i) = Some (Some ?p)"
    using bs assms(2) c by (simp add: elf_get_segment_from_index_def phdr_stride_def)
  have "phdr_stride info \<le> length ?p" using room by simp
  then have "elf_parse_segment (ei_ehdr info) ?p \<noteq> None" by (rule parse_segment_total [OF c])
  then have "elf_parse_segment (ei_ehdr info) ?p = Some (segment info i)" unfolding segment_def bs(2) by simp
  then show ?thesis using get by blast
qed

lemma segment_end: "phdrs_ok info n \<Longrightarrow> elf_get_segment_from_index info (int n) = Some None"
  using phnum_class [of "ei_ehdr info" "int n"] by (auto simp: phdrs_ok_def elf_get_segment_from_index_def)

lemma next_segment_step:
  assumes "phdrs_ok info n" and "i < n"
  shows "elf_next_load_segment info (int i) out =
    (if sg_type (segment info i) = PT_LOAD then Some (True, int (Suc i), seg_result (segment info i))
     else elf_next_load_segment info (int (Suc i)) (seg_result (segment info i)))"
  using segment_ok [OF assms]
  by (subst elf_next_load_segment.simps) (auto simp: seg_result_def Let_def add.commute)

lemma next_segment_end:
  "phdrs_ok info n \<Longrightarrow> elf_next_load_segment info (int n) out = Some (False, int n, out)"
  by (subst elf_next_load_segment.simps) (simp add: segment_end)

text \<open>The indices of the loadable segments from \<open>i\<close> on.\<close>

definition loads :: "elf_info \<Rightarrow> nat \<Rightarrow> nat \<Rightarrow> nat list" where
  "loads info i n = filter (\<lambda>j. sg_type (segment info j) = PT_LOAD) [i..<n]"

lemma next_segment:
  assumes "phdrs_ok info n" and "i \<le> n"
  shows "case loads info i n of
      [] \<Rightarrow> (\<exists>out'. elf_next_load_segment info (int i) out = Some (False, int n, out'))
    | j # _ \<Rightarrow> j < n \<and> i \<le> j \<and> loads info i n = j # loads info (Suc j) n
        \<and> elf_next_load_segment info (int i) out = Some (True, int (Suc j), seg_result (segment info j))"
  using assms(2)
proof (induction "n - i" arbitrary: i out)
  case 0
  then show ?case using next_segment_end [OF assms(1)] by (simp add: loads_def)
next
  case (Suc k)
  then have i: "i < n" "k = n - Suc i" "Suc i \<le> n" by auto
  have cons: "[i..<n] = i # [Suc i..<n]" using i(1) by (rule upt_conv_Cons)
  show ?case
  proof (cases "sg_type (segment info i) = PT_LOAD")
    case True
    then show ?thesis using i next_segment_step [OF assms(1) i(1), of out] by (simp add: loads_def cons)
  next
    case False
    then have "loads info i n = loads info (Suc i) n" by (simp add: loads_def cons)
    then show ?thesis
      using Suc.hyps(1) [OF i(2,3), of "seg_result (segment info i)"] next_segment_step [OF assms(1) i(1), of out] False
      by (auto split: list.splits)
  qed
qed


section \<open>One call\<close>

text \<open>The state after the segment before index \<open>k\<close> of \<open>n\<close>; \<open>found\<close>: there was one.\<close>

definition next_state :: "int \<Rightarrow> nat \<Rightarrow> nat \<Rightarrow> bool \<Rightarrow> int" where
  "next_state st k n found =
     ((if k = n then (st AND NOT RPROC_LOADER_MASK)
         OR (if found then RPROC_LOADER_POST_DATA_LOAD else RPROC_LOADER_LOAD_COMPLETE) else st)
      AND NOT ELF_NEXT_SEGMENT_MASK) OR (int k AND ELF_NEXT_SEGMENT_MASK)"

lemma next_state_index: "k \<le> 255 \<Longrightarrow> next_state st k n found AND ELF_NEXT_SEGMENT_MASK = int k"
  unfolding next_state_def and_replacement by (rule seg_index_small)

lemma next_state_flag:
  assumes "r \<in> {RPROC_LOADER_READY_TO_LOAD, RPROC_LOADER_POST_DATA_LOAD, RPROC_LOADER_LOAD_COMPLETE}"
  shows "next_state st k n found AND r =
    (if k = n then (if found then RPROC_LOADER_POST_DATA_LOAD else RPROC_LOADER_LOAD_COMPLETE) AND r else st AND r)"
proof -
  have "ELF_NEXT_SEGMENT_MASK AND r = 0" "RPROC_LOADER_MASK AND r = r" using assms by auto
  note m = this
  show ?thesis unfolding next_state_def and_replaced [OF m(1)]
    by (cases "k = n") (simp_all only: if_True if_False refl simp_thms and_overwritten [OF m(2)])
qed

lemma next_state_hdrs: "next_state st k n found AND ELF_STATE_HDRS_COMPLETE = st AND ELF_STATE_HDRS_COMPLETE"
proof -
  have "ELF_NEXT_SEGMENT_MASK AND ELF_STATE_HDRS_COMPLETE = 0" "RPROC_LOADER_MASK AND ELF_STATE_HDRS_COMPLETE = 0"
    "RPROC_LOADER_POST_DATA_LOAD AND ELF_STATE_HDRS_COMPLETE = 0" "RPROC_LOADER_LOAD_COMPLETE AND ELF_STATE_HDRS_COMPLETE = 0" by simp_all
  note m = this
  show ?thesis unfolding next_state_def and_replaced [OF m(1)]
    by (cases "k = n"; cases found) (simp_all only: if_True if_False refl simp_thms and_kept [OF m(2,3)] and_kept [OF m(2,4)])
qed

lemma next_state_nonneg: "0 \<le> st \<Longrightarrow> 0 \<le> next_state st k n found"
  by (simp add: next_state_def)

lemma load_segment_step:
  assumes ok: "phdrs_ok info n" and i: "i \<le> n" "ei_load_state info AND ELF_NEXT_SEGMENT_MASK = int i"
  shows "case loads info i n of
      [] \<Rightarrow> (\<exists>out'. load_segment info out = Some (next_state (ei_load_state info) n n False, out')
        \<and> eo_info out' = Some (info\<lparr>ei_load_state := next_state (ei_load_state info) n n False\<rparr>) \<and> eo_da out' = RPROC_LOAD_ANYADDR
        \<and> eo_nlen out' = eo_nlen out)
    | j # _ \<Rightarrow> (\<exists>out'. load_segment info out = Some (next_state (ei_load_state info) (Suc j) n True, out')
        \<and> eo_info out' = Some (info\<lparr>ei_load_state := next_state (ei_load_state info) (Suc j) n True\<rparr>)
        \<and> \<lparr>so_da = eo_da out', so_noffset = eo_noffset out', so_nfsize = eo_nlen out', so_nmsize = eo_nmemsize out'\<rparr>
            = seg_result (segment info j) \<and> eo_padding out' = eo_padding out)"
proof -
  let ?o = "\<lparr>so_da = eo_da out, so_noffset = eo_noffset out, so_nfsize = 0, so_nmsize = 0\<rparr>"
  have num: "elf_phnum (ei_ehdr info) = Some (int n)" using ok by (simp add: phdrs_ok_def)
  note nx = next_segment [OF ok i(1), of ?o]
  show ?thesis
  proof (cases "loads info i n")
    case Nil
    then obtain o1 where o1: "elf_next_load_segment info (int i) ?o = Some (False, int n, o1)" using nx by auto
    then show ?thesis using Nil i(2) num by (simp add: load_segment_def next_state_def Let_def)
  next
    case (Cons j js)
    then have o1: "elf_next_load_segment info (int i) ?o = Some (True, int (Suc j), seg_result (segment info j))" using nx by auto
    have k: "(1 + int j = int n) = (Suc j = n)" by auto
    show ?thesis using Cons i(2) num o1
      by (simp add: load_segment_def next_state_def Let_def k seg_result_def)
  qed
qed

section \<open>All segments\<close>

text \<open>
  The calls a client makes while segments are to be loaded, as \<open>remoteproc_load\<close> does: each with the
  state of the one before, and what it asks to be loaded.
\<close>

fun load_all :: "nat \<Rightarrow> elf_info \<Rightarrow> (seg_out list \<times> elf_info) option" where
  "load_all 0 info = None"
| "load_all (Suc fuel) info =
     (if ei_load_state info AND RPROC_LOADER_READY_TO_LOAD = 0 then Some ([], info)
      else do {
        (st, out) \<leftarrow> elf_load (\<lambda>_. True) None 0 0 (ei_load_state info)
          \<lparr>eo_info = Some info, eo_da = RPROC_LOAD_ANYADDR, eo_noffset = 0, eo_nlen = 0, eo_padding = 0, eo_nmemsize = 0\<rparr>;
        info' \<leftarrow> eo_info out;
        (segs, last) \<leftarrow> load_all fuel info';
        Some (if eo_da out = RPROC_LOAD_ANYADDR then segs
              else \<lparr>so_da = eo_da out, so_noffset = eo_noffset out, so_nfsize = eo_nlen out, so_nmsize = eo_nmemsize out\<rparr> # segs,
              last)
      })"

declare load_all.simps(2) [simp del]

lemma ready_mask: "(st :: int) AND RPROC_LOADER_READY_TO_LOAD \<noteq> 0 \<Longrightarrow> st AND RPROC_LOADER_MASK \<noteq> 0"
proof
  assume ne: "st AND RPROC_LOADER_READY_TO_LOAD \<noteq> 0" and "st AND RPROC_LOADER_MASK = 0"
  then have "(st AND RPROC_LOADER_MASK) AND RPROC_LOADER_READY_TO_LOAD = 0" by simp
  moreover have "RPROC_LOADER_MASK AND RPROC_LOADER_READY_TO_LOAD = RPROC_LOADER_READY_TO_LOAD" by simp
  ultimately show False using ne by (simp only: and.assoc)
qed

lemma elf_load_ready:
  assumes "ei_load_state info AND RPROC_LOADER_READY_TO_LOAD \<noteq> 0"
  shows "elf_load alloc img offset len (ei_load_state info) (out\<lparr>eo_info := Some info\<rparr>)
    = load_segment info (out\<lparr>eo_info := Some info, eo_padding := 0\<rparr>)"
  using assms ready_mask [OF assms] by (simp add: elf_load_def Let_def)

lemma segment_state: "segment (info\<lparr>ei_load_state := st\<rparr>) = segment info" "phdrs_ok (info\<lparr>ei_load_state := st\<rparr>) n = phdrs_ok info n"
  "loads (info\<lparr>ei_load_state := st\<rparr>) = loads info"
proof -
  show seg: "segment (info\<lparr>ei_load_state := st\<rparr>) = segment info" by (simp add: segment_def phdr_stride_def fun_eq_iff)
  show "phdrs_ok (info\<lparr>ei_load_state := st\<rparr>) n = phdrs_ok info n" by (simp add: phdrs_ok_def phdr_stride_def)
  show "loads (info\<lparr>ei_load_state := st\<rparr>) = loads info" unfolding loads_def seg ..
qed

lemma load_all_from:
  assumes "phdrs_ok info n" and "n \<le> 255" and "i \<le> n" and "ei_load_state info AND ELF_NEXT_SEGMENT_MASK = int i"
    and "ei_load_state info AND RPROC_LOADER_READY_TO_LOAD \<noteq> 0"
    and "\<And>j. j < n \<Longrightarrow> sg_type (segment info j) = PT_LOAD \<Longrightarrow> sg_paddr (segment info j) \<noteq> RPROC_LOAD_ANYADDR"
    and "n - i < fuel"
  shows "\<exists>st. load_all (Suc fuel) info = Some (map (\<lambda>j. seg_result (segment info j)) (loads info i n), info\<lparr>ei_load_state := st\<rparr>)
    \<and> st AND RPROC_LOADER_READY_TO_LOAD = 0
    \<and> (st AND RPROC_LOADER_POST_DATA_LOAD \<noteq> 0 \<or> st AND RPROC_LOADER_LOAD_COMPLETE \<noteq> 0)"
  using assms
proof (induction fuel arbitrary: info i)
  case 0
  then show ?case by simp
next
  case (Suc fuel)
  let ?st = "ei_load_state info"
  let ?o = "\<lparr>eo_info = Some info, eo_da = RPROC_LOAD_ANYADDR, eo_noffset = 0, eo_nlen = 0, eo_padding = 0, eo_nmemsize = 0\<rparr>"
  have call: "elf_load (\<lambda>_. True) None 0 0 ?st ?o = load_segment info ?o"
    using elf_load_ready [OF Suc.prems(5), of "\<lambda>_. True" None 0 0 ?o] by simp
  note step = load_segment_step [OF Suc.prems(1,3,4), of ?o]
  note nx = next_segment [OF Suc.prems(1,3)]
  show ?case
  proof (cases "loads info i n")
    case Nil
    let ?e = "next_state ?st n n False"
    obtain out' where r: "load_segment info ?o = Some (?e, out')" "eo_info out' = Some (info\<lparr>ei_load_state := ?e\<rparr>)"
      "eo_da out' = RPROC_LOAD_ANYADDR"
      using step Nil by auto
    have fl: "?e AND RPROC_LOADER_READY_TO_LOAD = 0" "?e AND RPROC_LOADER_LOAD_COMPLETE \<noteq> 0"
      using next_state_flag [of RPROC_LOADER_READY_TO_LOAD ?st n n False] next_state_flag [of RPROC_LOADER_LOAD_COMPLETE ?st n n False]
      by simp_all
    then show ?thesis using Nil call r Suc.prems(5) by (intro exI [of _ ?e]) (simp add: load_all.simps(2))
  next
    case (Cons j js)
    let ?e = "next_state ?st (Suc j) n True"
    obtain out' where r: "load_segment info ?o = Some (?e, out')" "eo_info out' = Some (info\<lparr>ei_load_state := ?e\<rparr>)"
      "\<lparr>so_da = eo_da out', so_noffset = eo_noffset out', so_nfsize = eo_nlen out', so_nmsize = eo_nmemsize out'\<rparr> = seg_result (segment info j)"
      using step Cons by auto
    have j: "j < n" "i \<le> j" "js = loads info (Suc j) n" using nx Cons by auto
    have "j \<in> set (loads info i n)" using Cons by simp
    then have "sg_type (segment info j) = PT_LOAD" by (simp add: loads_def)
    then have da: "eo_da out' \<noteq> RPROC_LOAD_ANYADDR" using Suc.prems(6) [OF j(1)] r(3) by (simp add: seg_result_def)
    have idx: "?e AND ELF_NEXT_SEGMENT_MASK = int (Suc j)" using next_state_index [of "Suc j"] j(1) Suc.prems(2) by simp
    note fl = next_state_flag [of RPROC_LOADER_READY_TO_LOAD ?st "Suc j" n True]
      next_state_flag [of RPROC_LOADER_POST_DATA_LOAD ?st "Suc j" n True]
    have "\<exists>st. load_all (Suc fuel) (info\<lparr>ei_load_state := ?e\<rparr>)
        = Some (map (\<lambda>j. seg_result (segment info j)) js, info\<lparr>ei_load_state := st\<rparr>)
      \<and> st AND RPROC_LOADER_READY_TO_LOAD = 0 \<and> (st AND RPROC_LOADER_POST_DATA_LOAD \<noteq> 0 \<or> st AND RPROC_LOADER_LOAD_COMPLETE \<noteq> 0)"
    proof (cases "Suc j = n")
      case True
      then have "js = []" using j(3) by (simp add: loads_def)
      then show ?thesis using fl True by (intro exI [of _ ?e]) (simp add: load_all.simps(2))
    next
      case False
      then have "Suc j \<le> n" "n - Suc j < fuel" using j Suc.prems(7) by auto
      then show ?thesis
        using Suc.IH [of "info\<lparr>ei_load_state := ?e\<rparr>" "Suc j"] Suc.prems(1,2,5,6) fl(1) False idx j(3)
        by (simp add: segment_state)
    qed
    then show ?thesis using Cons call r da Suc.prems(5) by (auto simp: load_all.simps(2) [of "Suc fuel" info])
  qed
qed


text \<open>
  C23: from the state in which an ELF image is ready to load, the calls of \<open>elf_load\<close> deliver its
  loadable segments, each once, in the order of the program headers, with physical address, file
  offset, size in the file and size in memory, and then leave that state for good. This needs at
  most 255 segments, which is what the counter in the load state can hold, and no segment at the
  address that stands for none.
\<close>

theorem elf_load_enumerates:
  assumes "phdrs_ok info n" and "n \<le> 255" and "ei_load_state info AND ELF_NEXT_SEGMENT_MASK = 0"
    and "ei_load_state info AND RPROC_LOADER_READY_TO_LOAD \<noteq> 0"
    and "\<And>j. j < n \<Longrightarrow> sg_type (segment info j) = PT_LOAD \<Longrightarrow> sg_paddr (segment info j) \<noteq> RPROC_LOAD_ANYADDR"
  shows "\<exists>st. load_all (n + 2) info
      = Some (map (\<lambda>j. seg_result (segment info j)) (filter (\<lambda>j. sg_type (segment info j) = PT_LOAD) [0..<n]), info\<lparr>ei_load_state := st\<rparr>)
    \<and> st AND RPROC_LOADER_READY_TO_LOAD = 0
    \<and> (st AND RPROC_LOADER_POST_DATA_LOAD \<noteq> 0 \<or> st AND RPROC_LOADER_LOAD_COMPLETE \<noteq> 0)"
proof -
  have "ei_load_state info AND ELF_NEXT_SEGMENT_MASK = int 0" using assms(3) by simp
  from load_all_from [OF assms(1,2) le0 this assms(4,5), of "Suc n"] show ?thesis
    unfolding loads_def add_2_eq_Suc' by simp
qed

section \<open>Sizes of the tables\<close>

lemma phnum_range: "elf_phnum h = Some n \<Longrightarrow> 0 \<le> n \<and> n < 65536"
  by (cases "elf_is_64 h")
    (auto simp: elf_phnum_def split: if_splits intro: order.strict_trans2 [OF uint_lt2p])

lemma shnum_range: "elf_shnum h = Some n \<Longrightarrow> 0 \<le> n \<and> n < 65536"
  by (cases "elf_is_64 h")
    (auto simp: elf_shnum_def split: if_splits intro: order.strict_trans2 [OF uint_lt2p])

lemma unat_ucast_u16: "unat (ucast (w :: u16) :: u64) < 65536"
  using unat_lt_u16 [of w] by (simp add: unsigned_ucast_eq take_bit_nat_eq_self less_trans [OF unat_lt_u16])

lemma phentsize_range: "elf_phentsize h = Some n \<Longrightarrow> unat n < 65536"
  by (cases "elf_is_64 h") (auto simp: elf_phentsize_def unat_ucast_u16 split: if_splits)

lemma shentsize_range: "elf_shentsize h = Some n \<Longrightarrow> unat n < 65536"
  by (cases "elf_is_64 h") (auto simp: elf_shentsize_def unat_ucast_u16 split: if_splits)

lemma table_size:
  assumes "0 \<le> n \<and> n < 65536" and "unat e < 65536"
  shows "unat (word_of_int n * e :: u64) = nat n * unat e"
proof -
  have n: "unat (word_of_int n :: u64) = nat n" using assms(1) by (simp add: unat_eq_nat_uint uint_word_of_int)
  have "nat n * unat e \<le> 65535 * 65535" using assms by (intro mult_mono) auto
  then have "nat n * unat e < 2 ^ 64" by (rule le_less_trans) simp
  then show ?thesis using n by (simp add: unat_word_ariths)
qed

section \<open>Windows of an image\<close>

text \<open>\<open>img\<close> holds the part \<open>[off, off + len)\<close> of the file \<open>bs\<close>.\<close>

definition window :: "u8 list \<Rightarrow> u8 list option \<Rightarrow> u64 \<Rightarrow> u64 \<Rightarrow> bool" where
  "window bs img off len = (img = Some (take (unat len) (drop (unat off) bs)) \<and> unat off + unat len \<le> length bs)"

lemma window_copy:
  assumes "length bs < 2 ^ 62" and "window bs img off len" and "unat t + unat n \<le> length bs"
    and "\<not> (t < off \<or> off + len < t + n)"
  shows "img_copy img (t - off) n = Some (take (unat n) (drop (unat t) bs))"
proof -
  have w: "img = Some (take (unat len) (drop (unat off) bs))" "unat off + unat len \<le> length bs"
    using assms(2) by (auto simp: window_def)
  have "unat (off + len) = unat off + unat len" "unat (t + n) = unat t + unat n"
    using w(2) assms(1,3) by (simp_all add: unat_word_ariths)
  then have le: "unat off \<le> unat t" "unat t + unat n \<le> unat off + unat len"
    using assms(4) by (auto simp: word_less_nat_alt not_less)
  then have sub: "unat (t - off) = unat t - unat off" by (simp add: unat_sub word_le_nat_alt)
  have "take (unat n) (drop (unat t - unat off) (take (unat len) (drop (unat off) bs))) = take (unat n) (drop (unat t) bs)"
    using le by (simp add: drop_take take_take min_def)
  then show ?thesis using w le by (simp add: img_copy_def sub)
qed

section \<open>Well-formed images\<close>

definition ehdr_len :: "bool \<Rightarrow> nat" where
  "ehdr_len c = (if c then 64 else 52)"

text \<open>
  \<open>bs\<close> is an image whose tables lie in the file and are not empty, and \<open>info\<close> holds exactly its
  headers.
\<close>

definition elf_image :: "u8 list \<Rightarrow> elf_info \<Rightarrow> bool" where
  "elf_image bs info = (length bs < 2 ^ 62
     \<and> (\<exists>c. elf_is_64 bs = Some c \<and> ehdr_len c \<le> length bs \<and> ei_ehdr info = take (ehdr_len c) bs)
     \<and> (\<exists>off n e. elf_phoff (ei_ehdr info) = Some off \<and> elf_phnum (ei_ehdr info) = Some n \<and> elf_phentsize (ei_ehdr info) = Some e
          \<and> unat off + nat n * unat e \<le> length bs \<and> ei_phdrs info = Some (take (nat n * unat e) (drop (unat off) bs)))
     \<and> (\<exists>off n e. elf_shoff (ei_ehdr info) = Some off \<and> elf_shnum (ei_ehdr info) = Some n \<and> elf_shentsize (ei_ehdr info) = Some e
          \<and> 0 < n \<and> 0 < unat e
          \<and> unat off + nat n * unat e \<le> length bs \<and> ei_shdrs info = Some (take (nat n * unat e) (drop (unat off) bs)))
     \<and> (\<exists>x sec s. elf_shstrndx (ei_ehdr info) = Some x \<and> elf_get_section_from_index info x = Some (Some sec)
          \<and> elf_parse_section (ei_ehdr info) sec = Some s \<and> 0 < sc_size s
          \<and> unat (sc_offset s) + unat (sc_size s) \<le> length bs
          \<and> ei_shstrtab info = Some (take (unat (sc_size s)) (drop (unat (sc_offset s)) bs)))
     \<and> ei_load_state info = ELF_STATE_HDRS_COMPLETE OR RPROC_LOADER_READY_TO_LOAD)"

text \<open>What has been loaded when the loader waits for the section headers, and for their names.\<close>

definition upto_ehdr :: "elf_info \<Rightarrow> elf_info" where
  "upto_ehdr info = info\<lparr>ei_load_state := ELF_STATE_WAIT_FOR_PHDRS, ei_phdrs := None, ei_shdrs := None, ei_shstrtab := None\<rparr>"

definition upto_phdrs :: "elf_info \<Rightarrow> elf_info" where
  "upto_phdrs info = info\<lparr>ei_load_state := ELF_STATE_WAIT_FOR_SHDRS OR RPROC_LOADER_READY_TO_LOAD, ei_shdrs := None, ei_shstrtab := None\<rparr>"

definition upto_shdrs :: "elf_info \<Rightarrow> elf_info" where
  "upto_shdrs info = info\<lparr>ei_load_state := ELF_STATE_WAIT_FOR_SHSTRTAB OR RPROC_LOADER_READY_TO_LOAD, ei_shstrtab := None\<rparr>"

text \<open>A stage either copies its table from the window, or asks for the window it needs.\<close>

definition stage_ok ::
  "(u8 list option \<Rightarrow> u64 \<Rightarrow> u64 \<Rightarrow> u64 \<Rightarrow> u64 \<Rightarrow> (hdr_result + elf_info) option) \<Rightarrow> u8 list \<Rightarrow> elf_info \<Rightarrow>
   (u64 \<Rightarrow> hdr_result + elf_info) \<Rightarrow> bool" where
  "stage_ok f bs before after = (\<exists>t n. unat t + unat n \<le> length bs \<and> (ei_load_state before AND RPROC_LOADER_READY_TO_LOAD \<noteq> 0 \<longrightarrow> n \<noteq> 0)
     \<and> (\<forall>img off len no nl. window bs img off len \<longrightarrow>
          f img off len no nl = Some (if t < off \<or> off + len < t + n then Inl (ei_load_state before, Some before, t, n)
                                      else after no)))"

lemma shstrtab_stage:
  assumes "elf_image bs info"
  shows "stage_ok (\<lambda>img off len. load_shstrtab (\<lambda>_. True) img off len (upto_shdrs info)) bs (upto_shdrs info)
    (\<lambda>no. Inl (ei_load_state info, Some info, no, 0))"
proof -
  obtain x sec s where st: "elf_shstrndx (ei_ehdr info) = Some x" "elf_get_section_from_index info x = Some (Some sec)"
    "elf_parse_section (ei_ehdr info) sec = Some s" "0 < sc_size s" "unat (sc_offset s) + unat (sc_size s) \<le> length bs"
    "ei_shstrtab info = Some (take (unat (sc_size s)) (drop (unat (sc_offset s)) bs))" and len: "length bs < 2 ^ 62"
    and fin: "ei_load_state info = ELF_STATE_HDRS_COMPLETE OR RPROC_LOADER_READY_TO_LOAD"
    using assms by (auto simp: elf_image_def)
  have sec: "elf_get_section_from_index (upto_shdrs info) x = Some (Some sec)"
    using st(2) by (cases "ei_shdrs info") (simp_all add: elf_get_section_from_index_def upto_shdrs_def)
  have upd: "(upto_shdrs info)\<lparr>ei_shstrtab := ei_shstrtab info, ei_load_state := ei_load_state info\<rparr> = info"
    by (simp add: upto_shdrs_def)
  show ?thesis unfolding stage_ok_def
  proof (rule exI [of _ "sc_offset s"], rule exI [of _ "sc_size s"], intro conjI allI impI)
    fix img off ln no nl
    assume "window bs img off ln"
    then have "\<not> (sc_offset s < off \<or> off + ln < sc_offset s + sc_size s) \<Longrightarrow>
        img_copy img (sc_offset s - off) (sc_size s) = ei_shstrtab info"
      using window_copy [OF len _ st(5), of img off ln] st(6) by simp
    then show "load_shstrtab (\<lambda>_. True) img off ln (upto_shdrs info) no nl
        = Some (if sc_offset s < off \<or> off + ln < sc_offset s + sc_size s
                then Inl (ei_load_state (upto_shdrs info), Some (upto_shdrs info), sc_offset s, sc_size s)
                else Inl (ei_load_state info, Some info, no, 0))"
      using st sec upd fin by (auto simp: load_shstrtab_def upto_shdrs_def Let_def)
  qed (use st in auto)
qed


lemma shdrs_stage:
  assumes "elf_image bs info"
  shows "stage_ok (\<lambda>img off len. load_shdrs (\<lambda>_. True) img off len (upto_phdrs info)) bs (upto_phdrs info) (\<lambda>no. Inr (upto_shdrs info))"
proof -
  obtain t n e where st: "elf_shoff (ei_ehdr info) = Some t" "elf_shnum (ei_ehdr info) = Some n" "elf_shentsize (ei_ehdr info) = Some e"
    "0 < n" "0 < unat e" "unat t + nat n * unat e \<le> length bs" "ei_shdrs info = Some (take (nat n * unat e) (drop (unat t) bs))"
    and len: "length bs < 2 ^ 62"
    using assms by (auto simp: elf_image_def)
  let ?n = "word_of_int n * e"
  have sz: "unat ?n = nat n * unat e" using table_size shnum_range [OF st(2)] shentsize_range [OF st(3)] by blast
  then have "unat ?n \<noteq> 0" using st(4,5) by simp
  then have nz: "?n \<noteq> 0" by auto
  have upd: "(upto_phdrs info)\<lparr>ei_shdrs := ei_shdrs info, ei_load_state := ELF_STATE_WAIT_FOR_SHSTRTAB OR RPROC_LOADER_READY_TO_LOAD\<rparr> = upto_shdrs info"
    by (simp add: upto_phdrs_def upto_shdrs_def)
  show ?thesis unfolding stage_ok_def
  proof (rule exI [of _ t], rule exI [of _ ?n], intro conjI allI impI)
    fix img off ln no nl
    assume "window bs img off ln"
    then have "\<not> (t < off \<or> off + ln < t + ?n) \<Longrightarrow> img_copy img (t - off) ?n = ei_shdrs info"
      using window_copy [OF len, of img off ln t ?n] st(6,7) sz by simp
    then show "load_shdrs (\<lambda>_. True) img off ln (upto_phdrs info) no nl
        = Some (if t < off \<or> off + ln < t + ?n
                then Inl (ei_load_state (upto_phdrs info), Some (upto_phdrs info), t, ?n) else Inr (upto_shdrs info))"
      using st(1-4,7) upd by (auto simp: load_shdrs_def upto_phdrs_def Let_def)
  qed (use st(6) sz nz in auto)
qed

lemma phdrs_stage:
  assumes "elf_image bs info"
  shows "stage_ok (\<lambda>img off len. load_phdrs (\<lambda>_. True) img off len (upto_ehdr info)) bs (upto_ehdr info) (\<lambda>no. Inr (upto_phdrs info))"
proof -
  obtain t n e where st: "elf_phoff (ei_ehdr info) = Some t" "elf_phnum (ei_ehdr info) = Some n" "elf_phentsize (ei_ehdr info) = Some e"
    "unat t + nat n * unat e \<le> length bs" "ei_phdrs info = Some (take (nat n * unat e) (drop (unat t) bs))"
    and len: "length bs < 2 ^ 62"
    using assms by (auto simp: elf_image_def)
  let ?n = "word_of_int n * e"
  have sz: "unat ?n = nat n * unat e" using table_size phnum_range [OF st(2)] phentsize_range [OF st(3)] by blast
  have upd: "(upto_ehdr info)\<lparr>ei_phdrs := ei_phdrs info, ei_load_state := ELF_STATE_WAIT_FOR_SHDRS OR RPROC_LOADER_READY_TO_LOAD\<rparr> = upto_phdrs info"
    by (simp add: upto_phdrs_def upto_ehdr_def)
  show ?thesis unfolding stage_ok_def
  proof (rule exI [of _ t], rule exI [of _ ?n], intro conjI allI impI)
    fix img off ln no nl
    assume "window bs img off ln"
    then have "\<not> (t < off \<or> off + ln < t + ?n) \<Longrightarrow> img_copy img (t - off) ?n = ei_phdrs info"
      using window_copy [OF len, of img off ln t ?n] st(4,5) sz by simp
    then show "load_phdrs (\<lambda>_. True) img off ln (upto_ehdr info) no nl
        = Some (if t < off \<or> off + ln < t + ?n
                then Inl (ei_load_state (upto_ehdr info), Some (upto_ehdr info), t, ?n) else Inr (upto_phdrs info))"
      using st(1-3,5) upd by (auto simp: load_phdrs_def upto_ehdr_def Let_def)
  qed (use st(4) sz in \<open>auto simp: upto_ehdr_def\<close>)
qed


section \<open>One call for the headers\<close>

abbreviation (input) always :: "u64 \<Rightarrow> bool" where "always \<equiv> \<lambda>_. True"

text \<open>
  Waiting for one more table: the call asks for it when the window does not hold it, and otherwise
  behaves as \<open>next\<close>.
\<close>

definition waits ::
  "u8 list \<Rightarrow> elf_info \<Rightarrow> (u8 list option \<Rightarrow> u64 \<Rightarrow> u64 \<Rightarrow> u64 \<Rightarrow> u64 \<Rightarrow> hdr_result option) \<Rightarrow> bool" where
  "waits bs i next = (\<exists>t n. unat t + unat n \<le> length bs \<and> (ei_load_state i AND RPROC_LOADER_READY_TO_LOAD \<noteq> 0 \<longrightarrow> n \<noteq> 0)
     \<and> (\<forall>img off len no nl. window bs img off len \<longrightarrow>
          load_tables always img off len (ei_load_state i) no nl i
            = (if t < off \<or> off + len < t + n then Some (ei_load_state i, Some i, t, n) else next img off len no nl)))"

abbreviation (input) tables_from :: "elf_info \<Rightarrow> u8 list option \<Rightarrow> u64 \<Rightarrow> u64 \<Rightarrow> u64 \<Rightarrow> u64 \<Rightarrow> hdr_result option" where
  "tables_from i img off len no nl \<equiv> load_tables always img off len (ei_load_state i) no nl i"

lemma stage_simps [simp]: "stage (Some (Inl r)) k = Some r" "stage (Some (Inr i)) k = k i"
  by (simp_all add: stage_def)

lemma pass_phdrs: "ei_load_state i \<noteq> ELF_STATE_WAIT_FOR_PHDRS \<Longrightarrow> load_phdrs alloc img off len i no nl = Some (Inr i)"
  by (simp add: load_phdrs_def)

lemma pass_shdrs: "ei_load_state i AND ELF_STATE_WAIT_FOR_SHDRS = 0 \<Longrightarrow> load_shdrs alloc img off len i no nl = Some (Inr i)"
  by (simp add: load_shdrs_def)

lemma shdrs_waits:
  assumes "elf_image bs info"
  shows "waits bs (upto_shdrs info) (\<lambda>img off len no nl. Some (ei_load_state info, Some info, no, 0))"
proof -
  have "ei_load_state (upto_shdrs info) \<noteq> ELF_STATE_WAIT_FOR_PHDRS" "ei_load_state (upto_shdrs info) AND ELF_STATE_WAIT_FOR_SHDRS = 0"
    by (simp_all add: upto_shdrs_def)
  note pass = pass_phdrs [OF this(1)] pass_shdrs [OF this(2)]
  obtain t n where "unat t + unat n \<le> length bs" "ei_load_state (upto_shdrs info) AND RPROC_LOADER_READY_TO_LOAD \<noteq> 0 \<longrightarrow> n \<noteq> 0"
    "\<And>img off len no nl. window bs img off len \<Longrightarrow> load_shstrtab always img off len (upto_shdrs info) no nl
      = Some (if t < off \<or> off + len < t + n then Inl (ei_load_state (upto_shdrs info), Some (upto_shdrs info), t, n)
              else Inl (ei_load_state info, Some info, no, 0))"
    using shstrtab_stage [OF assms] unfolding stage_ok_def by blast
  then show ?thesis unfolding waits_def
    by (intro exI [of _ t] exI [of _ n] conjI allI impI) (auto simp: load_tables_def pass)
qed

text \<open>The names always end a call that reaches them.\<close>

lemma shstrtab_ends:
  "stage (load_shstrtab always img off len (upto_shdrs info) no nl) k
    = stage (load_shstrtab always img off len (upto_shdrs info) no nl) k'"
proof -
  have "ei_load_state (upto_shdrs info) AND ELF_STATE_WAIT_FOR_SHSTRTAB \<noteq> 0" by (simp add: upto_shdrs_def)
  then show ?thesis by (auto simp: load_shstrtab_def stage_def Let_def split: option.splits bind_splits)
qed

lemma phdrs_waits:
  assumes "elf_image bs info"
  shows "waits bs (upto_phdrs info) (tables_from (upto_shdrs info))"
proof -
  have ne: "ei_load_state (upto_phdrs info) \<noteq> ELF_STATE_WAIT_FOR_PHDRS" by (simp add: upto_phdrs_def)
  have ne2: "ei_load_state (upto_shdrs info) \<noteq> ELF_STATE_WAIT_FOR_PHDRS" "ei_load_state (upto_shdrs info) AND ELF_STATE_WAIT_FOR_SHDRS = 0"
    by (simp_all add: upto_shdrs_def)
  note pass = pass_phdrs [OF ne] pass_phdrs [OF ne2(1)] pass_shdrs [OF ne2(2)]
  obtain t n where "unat t + unat n \<le> length bs" "ei_load_state (upto_phdrs info) AND RPROC_LOADER_READY_TO_LOAD \<noteq> 0 \<longrightarrow> n \<noteq> 0"
    "\<And>img off len no nl. window bs img off len \<Longrightarrow> load_shdrs always img off len (upto_phdrs info) no nl
      = Some (if t < off \<or> off + len < t + n then Inl (ei_load_state (upto_phdrs info), Some (upto_phdrs info), t, n)
              else Inr (upto_shdrs info))"
    using shdrs_stage [OF assms] unfolding stage_ok_def by blast
  then show ?thesis unfolding waits_def
    by (intro exI [of _ t] exI [of _ n] conjI allI impI) (auto simp: load_tables_def pass intro: shstrtab_ends)
qed


lemma ehdr_waits:
  assumes "elf_image bs info"
  shows "waits bs (upto_ehdr info) (tables_from (upto_phdrs info))"
proof -
  have "ei_load_state (upto_phdrs info) \<noteq> ELF_STATE_WAIT_FOR_PHDRS" by (simp add: upto_phdrs_def)
  note pass = pass_phdrs [OF this]
  obtain t2 n2 where shdrs: "\<And>img off len no nl. window bs img off len \<Longrightarrow> load_shdrs always img off len (upto_phdrs info) no nl
      = Some (if t2 < off \<or> off + len < t2 + n2 then Inl (ei_load_state (upto_phdrs info), Some (upto_phdrs info), t2, n2)
              else Inr (upto_shdrs info))"
    using shdrs_stage [OF assms] unfolding stage_ok_def by blast
  obtain t n where "unat t + unat n \<le> length bs" "ei_load_state (upto_ehdr info) AND RPROC_LOADER_READY_TO_LOAD \<noteq> 0 \<longrightarrow> n \<noteq> 0"
    "\<And>img off len no nl. window bs img off len \<Longrightarrow> load_phdrs always img off len (upto_ehdr info) no nl
      = Some (if t < off \<or> off + len < t + n then Inl (ei_load_state (upto_ehdr info), Some (upto_ehdr info), t, n)
              else Inr (upto_phdrs info))"
    using phdrs_stage [OF assms] unfolding stage_ok_def by blast
  then show ?thesis unfolding waits_def
    by (intro exI [of _ t] exI [of _ n] conjI allI impI) (auto simp: load_tables_def pass shdrs intro: shstrtab_ends)
qed

text \<open>The file header, from a window at the start of the file.\<close>

lemma load_ehdr_window:
  assumes "elf_image bs info" and "window bs img 0 len" and "5 \<le> unat len"
  shows "\<exists>sz. unat sz \<le> length bs \<and> 5 \<le> unat sz
    \<and> load_ehdr always img len None no nl = Some (if len < sz then Inl (ELF_STATE_INIT, None, 0, sz) else Inr (upto_ehdr info))
    \<and> (\<forall>img' no nl. window bs img' 0 sz \<longrightarrow> load_ehdr always img' sz None no nl = Some (Inr (upto_ehdr info)))"
proof -
  obtain c where c: "elf_is_64 bs = Some c" "ehdr_len c \<le> length bs" "ei_ehdr info = take (ehdr_len c) bs" "length bs < 2 ^ 62"
    using assms(1) by (auto simp: elf_image_def)
  define sz :: u64 where "sz = of_nat (ehdr_len c)"
  have usz: "unat sz = ehdr_len c" "5 \<le> ehdr_len c" by (simp_all add: sz_def ehdr_len_def)
  have run: "load_ehdr always (Some (take (unat l) bs)) l None no nl
      = Some (if l < sz then Inl (ELF_STATE_INIT, None, 0, sz) else Inr (upto_ehdr info))"
    if l: "5 \<le> unat l" "unat l \<le> length bs" for l no nl
  proof -
    have cls: "elf_is_64 (take (unat l) bs) = Some c" using c(1) l by (simp add: elf_is_64_def opt_simps)
    then have "elf_ehdr_size (Some (take (unat l) bs)) = Some sz" by (simp add: elf_ehdr_size_def sz_def ehdr_len_def)
    moreover have "\<exists>k. elf_info_size (take (unat l) bs) = Some k" using cls by (simp add: elf_info_size_def)
    moreover have "img_copy (Some (take (unat l) bs)) 0 sz = Some (ei_ehdr info)" if "\<not> l < sz"
      using that l usz c(3) by (simp add: img_copy_def word_less_nat_alt min_def)
    ultimately show ?thesis by (auto simp: load_ehdr_def upto_ehdr_def)
  qed
  have "unat sz \<le> length bs" using c(2) usz by simp
  moreover have "img = Some (take (unat len) bs)" "unat len \<le> length bs" using assms(2) by (simp_all add: window_def)
  moreover have "load_ehdr always img' sz None no nl = Some (Inr (upto_ehdr info))" if "window bs img' 0 sz" for img' no nl
    using run [of sz no nl] that usz c(2) by (simp add: window_def)
  ultimately show ?thesis using run [OF assms(3)] usz by (intro exI [of _ sz]) auto
qed


section \<open>Errors\<close>

text \<open>
  The test that the program headers are in the window is computed modulo \<open>2 ^ 64\<close>: with an offset so
  large that the end of the table wraps around to a position in the window, it passes, and the
  headers are copied from far outside of it.
\<close>

theorem elf_phoff_wraps:
  assumes "ei_load_state i = ELF_STATE_WAIT_FOR_PHDRS" and "elf_phoff (ei_ehdr i) = Some po"
    and "elf_phnum (ei_ehdr i) = Some n" and "elf_phentsize (ei_ehdr i) = Some e"
    and "2 ^ 64 \<le> unat po + nat n * unat e" and "po + word_of_int n * e \<le> len" and "length bs < 2 ^ 63"
  shows "elf_load_header always (Some bs) 0 len (Some i) ELF_STATE_WAIT_FOR_PHDRS no nl = None"
proof -
  have "unat (word_of_int n * e) = nat n * unat e" using table_size phnum_range [OF assms(3)] phentsize_range [OF assms(4)] by blast
  then have "img_copy (Some bs) (po - 0) (word_of_int n * e) = None" using assms(5,7) by (simp add: img_copy_def)
  then have "load_phdrs always (Some bs) 0 len i no nl = None" using assms by (simp add: load_phdrs_def Let_def not_less)
  then show ?thesis using assms(1) by (simp add: elf_load_header_def load_tables_def stage_def)
qed

section \<open>A concrete image\<close>

text \<open>A 32-bit image with one loadable segment and one section, the table of section names.\<close>

definition demo_ehdr :: "u8 list" where
  "demo_ehdr = [127, 69, 76, 70, 1, 1, 1, 0, 0, 0, 0, 0, 0, 0, 0, 0, 2, 0, 40, 0, 1, 0, 0, 0, 0, 128, 0, 0, 52, 0, 0, 0, 84, 0, 0, 0, 0, 0, 0, 0, 52, 0, 32, 0, 1, 0, 40, 0, 1, 0, 0, 0]"

definition demo_phdr :: "u8 list" where
  "demo_phdr = [1, 0, 0, 0, 0, 0, 0, 0, 0, 128, 0, 0, 0, 128, 0, 0, 8, 0, 0, 0, 16, 0, 0, 0, 5, 0, 0, 0, 4, 0, 0, 0]"

definition demo_shdr :: "u8 list" where
  "demo_shdr = [0, 0, 0, 0, 3, 0, 0, 0, 0, 0, 0, 0, 0, 0, 0, 0, 124, 0, 0, 0, 1, 0, 0, 0, 0, 0, 0, 0, 0, 0, 0, 0, 1, 0, 0, 0, 0, 0, 0, 0]"

definition demo_elf :: "u8 list" where
  "demo_elf = demo_ehdr @ demo_phdr @ demo_shdr @ [0]"

definition demo_info :: elf_info where
  "demo_info = \<lparr>ei_ehdr = demo_ehdr, ei_load_state = ELF_STATE_HDRS_COMPLETE OR RPROC_LOADER_READY_TO_LOAD,
     ei_phdrs = Some demo_phdr, ei_shdrs = Some demo_shdr, ei_shstrtab = Some [0]\<rparr>"

lemma demo_lengths [simp]: "length demo_ehdr = 52" "length demo_phdr = 32" "length demo_shdr = 40"
  by (simp_all add: demo_ehdr_def demo_phdr_def demo_shdr_def)

lemma demo_class: "elf_is_64 demo_ehdr = Some False"
  by (simp add: elf_is_64_def arr_get_def demo_ehdr_def)

lemma demo_ehdr_fields:
  "elf_phoff demo_ehdr = Some 52" "elf_phnum demo_ehdr = Some 1" "elf_phentsize demo_ehdr = Some 32"
  "elf_shoff demo_ehdr = Some 84" "elf_shnum demo_ehdr = Some 1" "elf_shentsize demo_ehdr = Some 40" "elf_shstrndx demo_ehdr = Some 0"
  by (simp_all add: elf_phoff_def elf_phnum_def elf_phentsize_def elf_shoff_def elf_shnum_def elf_shentsize_def elf_shstrndx_def
      demo_class Elf32_Ehdr_at_def) (simp_all add: demo_ehdr_def of_le16_def of_le32_def)

lemma demo_segment: "elf_parse_segment demo_ehdr demo_phdr
    = Some \<lparr>sg_type = 1, sg_offset = 0, sg_vaddr = 0x8000, sg_paddr = 0x8000, sg_filesz = 8, sg_memsz = 16\<rparr>"
  by (simp add: elf_parse_segment_def demo_class Elf32_Phdr_at_def) (simp add: demo_phdr_def of_le32_def)

lemma demo_section: "\<exists>s. elf_parse_section demo_ehdr demo_shdr = Some s \<and> sc_offset s = 124 \<and> sc_size s = 1"
  by (simp add: elf_parse_section_def demo_class Elf32_Shdr_at_def) (simp add: demo_shdr_def of_le32_def)


lemma demo_image: "elf_image demo_elf demo_info"
proof -
  obtain s where s: "elf_parse_section demo_ehdr demo_shdr = Some s" "sc_offset s = 124" "sc_size s = 1"
    using demo_section by blast
  have cls: "elf_is_64 demo_elf = Some False"
    using demo_class by (simp add: elf_is_64_def arr_get_def demo_elf_def nth_append)
  have hdr: "\<exists>c. elf_is_64 demo_elf = Some c \<and> ehdr_len c \<le> length demo_elf \<and> ei_ehdr demo_info = take (ehdr_len c) demo_elf"
    using cls by (intro exI [of _ False]) (simp add: ehdr_len_def demo_elf_def demo_info_def)
  have ph: "ei_phdrs demo_info = Some (take 32 (drop 52 demo_elf))" "ei_shdrs demo_info = Some (take 40 (drop 84 demo_elf))"
    "ei_shstrtab demo_info = Some (take 1 (drop 124 demo_elf))" "length demo_elf = 125" "ei_ehdr demo_info = demo_ehdr"
    by (simp_all add: demo_elf_def demo_info_def)
  have sec: "elf_get_section_from_index demo_info 0 = Some (Some demo_shdr)"
    by (simp add: elf_get_section_from_index_def demo_info_def demo_class demo_ehdr_fields)
  have "\<exists>x sec s. elf_shstrndx demo_ehdr = Some x \<and> elf_get_section_from_index demo_info x = Some (Some sec)
      \<and> elf_parse_section demo_ehdr sec = Some s \<and> 0 < sc_size s \<and> unat (sc_offset s) + unat (sc_size s) \<le> length demo_elf
      \<and> ei_shstrtab demo_info = Some (take (unat (sc_size s)) (drop (unat (sc_offset s)) demo_elf))"
    using sec s ph(3,4) by (intro exI [of _ "0 :: int"] exI [of _ demo_shdr] exI [of _ s]) (simp add: demo_ehdr_fields)
  then show ?thesis
    unfolding elf_image_def ph(5) using hdr ph by (simp add: demo_ehdr_fields) (simp add: demo_info_def)
qed

lemma demo_phdrs: "phdrs_ok demo_info 1" "segment demo_info 0
    = \<lparr>sg_type = 1, sg_offset = 0, sg_vaddr = 0x8000, sg_paddr = 0x8000, sg_filesz = 8, sg_memsz = 16\<rparr>"
  by (simp_all add: phdrs_ok_def segment_def phdr_stride_def demo_info_def demo_class demo_ehdr_fields demo_segment)

theorem elf_load_enumerates_witness:
  "\<exists>st. load_all 3 demo_info
      = Some ([\<lparr>so_da = 0x8000, so_noffset = 0, so_nfsize = 8, so_nmsize = 16\<rparr>], demo_info\<lparr>ei_load_state := st\<rparr>)
    \<and> st AND RPROC_LOADER_READY_TO_LOAD = 0
    \<and> (st AND RPROC_LOADER_POST_DATA_LOAD \<noteq> 0 \<or> st AND RPROC_LOADER_LOAD_COMPLETE \<noteq> 0)"
proof -
  have st: "ei_load_state demo_info AND ELF_NEXT_SEGMENT_MASK = 0" "ei_load_state demo_info AND RPROC_LOADER_READY_TO_LOAD \<noteq> 0"
    by (simp_all add: demo_info_def)
  have seg: "sg_paddr (segment demo_info j) \<noteq> RPROC_LOAD_ANYADDR" if "j < 1" for j using that by (simp add: demo_phdrs(2))
  have three: "(1 :: nat) + 2 = 3" by simp
  show ?thesis using elf_load_enumerates [OF demo_phdrs(1) _ st seg] unfolding three
    by (simp add: demo_phdrs(2) seg_result_def)
qed

end
