(* ===== verification/Rproc_Load.thy ===== *)
theory Rproc_Load
  imports Elf_Laws
begin

unbundle bit_operations_syntax

text \<open>
  Loading of firmware in \<^verbatim>\<open>src/openamp/open-amp/lib/remoteproc/remoteproc.c\<close>: \<open>remoteproc_load\<close>, which reads
  the image through the operations of an image store, and \<open>remoteproc_load_noblock\<close>, which asks its
  caller for one part after the other. The store is a parameter with a state of its own; reading
  from it returns the bytes it makes available and the memory, which it writes when it is given an
  address. \<open>le_malloc\<close> is the allocator: NULL when it fails.
\<close>

section \<open>Interfaces\<close>

record 'st image_store_ops =
  is_open :: "'st \<Rightarrow> u8 list \<Rightarrow> int \<times> u8 list option \<times> 'st"
  is_close :: "'st \<Rightarrow> 'st"
  is_load :: "'st \<Rightarrow> u64 \<Rightarrow> u64 \<Rightarrow> u64 \<Rightarrow> metal_io_region option \<Rightarrow> mem \<Rightarrow> int \<times> u8 list option \<times> 'st \<times> mem"
  is_features :: u32

record loader_ops =
  lo_load_header :: "(u64 \<Rightarrow> bool) \<Rightarrow> u8 list option \<Rightarrow> u64 \<Rightarrow> u64 \<Rightarrow> elf_info option \<Rightarrow> int \<Rightarrow> u64 \<Rightarrow> u64 \<Rightarrow> hdr_result option"
  lo_load_data :: "(u64 \<Rightarrow> bool) \<Rightarrow> u8 list option \<Rightarrow> u64 \<Rightarrow> u64 \<Rightarrow> int \<Rightarrow> elf_out \<Rightarrow> (int \<times> elf_out) option"
  lo_locate_rsc_table :: "elf_info option \<Rightarrow> u64 \<Rightarrow> u64 \<Rightarrow> u64 \<Rightarrow> (int \<times> u64 \<times> u64 \<times> u64) option"
  lo_release :: "elf_info option \<Rightarrow> elf_info option"
  lo_get_entry :: "elf_info option \<Rightarrow> u64 option"
  lo_get_load_state :: "elf_info option \<Rightarrow> int"

definition elf_ops :: loader_ops where
  "elf_ops = \<lparr>lo_load_header = elf_load_header, lo_load_data = elf_load, lo_locate_rsc_table = elf_locate_rsc_table,
     lo_release = elf_release, lo_get_entry = elf_get_entry, lo_get_load_state = elf_get_load_state\<rparr>"

text \<open>Where the loaders are: \<open>le_elf_ops\<close> is the address of \<open>elf_ops\<close>.\<close>

record load_env =
  le_malloc :: "u64 \<Rightarrow> addr"
  le_loader_at :: "addr \<Rightarrow> loader_ops option"
  le_elf_ops :: addr

abbreviation (input) SUPPORT_SEEK :: u32 where "SUPPORT_SEEK \<equiv> 1"

definition can_alloc :: "load_env \<Rightarrow> u64 \<Rightarrow> bool" where
  "can_alloc le n = (le_malloc le n \<noteq> NULL)"

text \<open>A \<open>size_t\<close> converted to \<open>int\<close>.\<close>

definition as_int :: "u64 \<Rightarrow> int" where
  "as_int w = sint (ucast w :: u32)"

definition remoteproc_check_fw_format :: "load_env \<Rightarrow> u8 list option \<Rightarrow> u64 \<Rightarrow> addr option" where
  "remoteproc_check_fw_format le img_data img_len =
     (if img_len = 0 then Some NULL
      else do {
        ret \<leftarrow> elf_identify img_data img_len;
        Some (if ret = 0 then le_elf_ops le else NULL)
      })"

section \<open>The resource table of the image\<close>

definition remoteproc_get_rsc_table ::
  "load_env \<Rightarrow> remoteproc_ops \<Rightarrow> 'st image_store_ops \<Rightarrow> u64 \<Rightarrow> u64 \<Rightarrow> remoteproc \<Rightarrow> 'st \<Rightarrow> (addr \<times> remoteproc \<times> 'st) option" where
  "remoteproc_get_rsc_table le po ops offset len r st =
     (let rsc_table = le_malloc le len in
      if rsc_table = NULL then Some (NULL, r, st)
      else do {
        let (ret, img_data, st1, m) = is_load ops st offset len RPROC_LOAD_ANYADDR None (rp_mem r);
        let r1 = r\<lparr>rp_mem := m\<rparr>;
        if ret < 0 \<or> ret < as_int len \<or> img_data = None then Some (NULL, r1, st1)
        else do {
          bs \<leftarrow> img_copy img_data 0 len;
          (ret, r2) \<leftarrow> handle_rsc_table po (r1\<lparr>rp_mem := mem_write m rsc_table bs\<rparr>) rsc_table len None;
          Some (if ret < 0 then NULL else rsc_table, r2, st1)
        }
      })"

section \<open>Loading in one call\<close>

text \<open>
  The loop over the headers: \<open>Inl\<close> the error code, or \<open>Inr\<close> the last state of the loader, the window
  and the data that are current when the loop is left.
\<close>

record 'st header_state =
  hs_img :: "u8 list option"
  hs_offset :: u64
  hs_len :: u64
  hs_info :: "elf_info option"
  hs_last :: int
  hs_noffset :: u64
  hs_nlen :: u64
  hs_mem :: mem
  hs_store :: 'st

partial_function (option) load_headers ::
  "load_env \<Rightarrow> 'st image_store_ops \<Rightarrow> loader_ops \<Rightarrow> 'st header_state \<Rightarrow> ((int + unit) \<times> 'st header_state) option" where
  "load_headers le ops loader s = do {
     (ret, info, noffset, nlen) \<leftarrow> lo_load_header loader (can_alloc le) (hs_img s) (hs_offset s) (hs_len s)
         (hs_info s) (hs_last s) (hs_noffset s) (hs_nlen s);
     let s1 = s\<lparr>hs_info := info, hs_last := ret, hs_noffset := noffset, hs_nlen := nlen\<rparr>;
     if ret < 0 then Some (Inl ret, s1)
     else if ret AND RPROC_LOADER_READY_TO_LOAD \<noteq> 0
             \<and> (nlen = 0 \<or> (hs_offset s + hs_len s < noffset \<and> is_features ops AND SUPPORT_SEEK = 0))
     then Some (Inr (), s1)
     else do {
       let (ret, img, st, m) = is_load ops (hs_store s) noffset nlen RPROC_LOAD_ANYADDR None (hs_mem s);
       let s2 = s1\<lparr>hs_img := img, hs_store := st, hs_mem := m\<rparr>;
       if ret < as_int nlen then Some (Inl ret, s2)
       else load_headers le ops loader (s2\<lparr>hs_offset := noffset, hs_len := nlen\<rparr>)
     }
   }"

text \<open>
  One segment into the memory of the remote: the mapping of its address, its bytes, and the
  padding up to its size in memory.
\<close>

definition place_segment ::
  "remoteproc_ops \<Rightarrow> 'st image_store_ops \<Rightarrow> elf_out \<Rightarrow> metal_io_region option \<Rightarrow> remoteproc \<Rightarrow> 'st \<Rightarrow>
   ((int + unit) \<times> u8 list option \<times> metal_io_region option \<times> remoteproc \<times> 'st) option" where
  "place_segment po ops out io r st = do {
     (_, pa, _, io1, r1) \<leftarrow> remoteproc_mmap po r (Some BAD_PHYS) (Some (eo_da out)) (eo_nmemsize out) 0 io;
     p \<leftarrow> pa;
     (case io1 of
        None \<Rightarrow> Some (Inl (- RPROC_EINVAL), None, io1, r1, st)
      | Some reg \<Rightarrow>
          if p = BAD_PHYS then Some (Inl (- RPROC_EINVAL), None, io1, r1, st)
          else do {
            let (ret, img, st1, m) = (if 0 < eo_nlen out then is_load ops st (eo_noffset out) (eo_nlen out) p (Some reg) (rp_mem r1)
                                      else (as_int (eo_nlen out), None, st, rp_mem r1));
            let r2 = r1\<lparr>rp_mem := m\<rparr>;
            if ret \<noteq> as_int (eo_nlen out) then Some (Inl (- RPROC_EINVAL), img, io1, r2, st1)
            else if eo_nlen out < eo_nmemsize out then do {
              tmpoffset \<leftarrow> metal_io_phys_to_offset reg (p + eo_nlen out);
              let (_, m') = metal_io_block_set m reg tmpoffset (eo_padding out) (unat (eo_nmemsize out - eo_nlen out));
              Some (Inr (), img, io1, r2\<lparr>rp_mem := m'\<rparr>, st1)
            }
            else Some (Inr (), img, io1, r2, st1)
          })
   }"

record 'st data_state =
  ds_img :: "u8 list option"
  ds_offset :: u64
  ds_len :: u64
  ds_info :: "elf_info option"
  ds_last :: int
  ds_io :: "metal_io_region option"
  ds_rproc :: remoteproc
  ds_store :: 'st

partial_function (option) load_data ::
  "load_env \<Rightarrow> remoteproc_ops \<Rightarrow> 'st image_store_ops \<Rightarrow> loader_ops \<Rightarrow> u8 \<Rightarrow> 'st data_state \<Rightarrow>
   ((int + unit) \<times> 'st data_state) option" where
  "load_data le po ops loader junk s = do {
     (ret, out) \<leftarrow> lo_load_data loader (can_alloc le) (ds_img s) (ds_offset s) (ds_len s) (ds_last s)
        \<lparr>eo_info = ds_info s, eo_da = RPROC_LOAD_ANYADDR, eo_noffset = 0, eo_nlen = 0, eo_padding = junk, eo_nmemsize = 0\<rparr>;
     let s1 = s\<lparr>ds_info := eo_info out\<rparr>;
     if ret < 0 then Some (Inl ret, s1)
     else do {
       let s2 = s1\<lparr>ds_last := ret\<rparr>;
       if eo_da out \<noteq> RPROC_LOAD_ANYADDR then do {
         (res, img, io, r, st) \<leftarrow> place_segment po ops out (ds_io s) (ds_rproc s) (ds_store s);
         let s3 = s2\<lparr>ds_img := img, ds_io := io, ds_rproc := r, ds_store := st\<rparr>;
         (case res of Inl e \<Rightarrow> Some (Inl e, s3) | Inr _ \<Rightarrow> load_data le po ops loader (eo_padding out) s3)
       }
       else if eo_nlen out \<noteq> 0 then do {
         let (r', img, st, m) = is_load ops (ds_store s) (eo_noffset out) (eo_nlen out) RPROC_LOAD_ANYADDR None (rp_mem (ds_rproc s));
         let s3 = s2\<lparr>ds_img := img, ds_store := st, ds_rproc := (ds_rproc s)\<lparr>rp_mem := m\<rparr>\<rparr>;
         if r' < as_int (eo_nlen out)
         then Some (if ret AND RPROC_LOADER_POST_DATA_LOAD \<noteq> 0 then Inr () else Inl r', s3)
         else load_data le po ops loader (eo_padding out) (s3\<lparr>ds_offset := eo_noffset out, ds_len := eo_nlen out\<rparr>)
       }
       else Some (Inr (), s2)
     }
   }"

text \<open>\<open>rsc_da\<close>, \<open>offset\<close> and \<open>rsc_size\<close> are what the loader found; the table is parsed when it has a size.\<close>

definition find_rsc_table ::
  "load_env \<Rightarrow> remoteproc_ops \<Rightarrow> 'st image_store_ops \<Rightarrow> loader_ops \<Rightarrow> elf_info option \<Rightarrow> u64 \<Rightarrow> u64 \<Rightarrow> u64 \<Rightarrow>
   remoteproc \<Rightarrow> 'st \<Rightarrow> (addr \<times> u64 \<times> u64 \<times> remoteproc \<times> 'st) option" where
  "find_rsc_table le po ops loader info rsc_da offset rsc_size r st = do {
     (ret, da, off, sz) \<leftarrow> lo_locate_rsc_table loader info rsc_da offset rsc_size;
     if ret = 0 \<and> 0 < sz then do {
       (tab, r1, st1) \<leftarrow> remoteproc_get_rsc_table le po ops off sz r st;
       Some (tab, da, sz, r1, st1)
     } else Some (NULL, da, sz, r, st)
   }"

text \<open>The parsed copy is written over the table in the memory of the remote.\<close>

definition update_rsc_table ::
  "remoteproc_ops \<Rightarrow> addr \<Rightarrow> u64 \<Rightarrow> u64 \<Rightarrow> metal_io_region option \<Rightarrow> remoteproc \<Rightarrow> remoteproc option" where
  "update_rsc_table po rsc_table rsc_da rsc_size io r =
     (if rsc_table = NULL then Some r
      else do {
        (va, _, _, io1, r1) \<leftarrow> remoteproc_mmap po r None (Some rsc_da) rsc_size 0 io;
        if va = NULL then Some r1
        else do {
          reg \<leftarrow> io1;
          let (_, m) = metal_io_block_write (rp_mem r1) reg (metal_io_virt_to_offset reg va) rsc_table (unat rsc_size);
          Some (r1\<lparr>rp_mem := m, rp_rsc_table := va, rp_rsc_len := rsc_size, rp_rsc_io := Some reg\<rparr>)
        }
      })"

text \<open>
  What follows the choice of a loader, up to the entry address; \<open>Inl\<close> the code the function returns
  on the error path.
\<close>

definition load_image ::
  "load_env \<Rightarrow> remoteproc_ops \<Rightarrow> 'st image_store_ops \<Rightarrow> loader_ops \<Rightarrow> u8 \<Rightarrow> u8 list option \<Rightarrow> u64 \<Rightarrow> remoteproc \<Rightarrow> 'st \<Rightarrow>
   ((int + unit) \<times> elf_info option \<times> remoteproc \<times> 'st) option" where
  "load_image le po ops loader junk img len r st = do {
     (res, h) \<leftarrow> load_headers le ops loader \<lparr>hs_img = img, hs_offset = 0, hs_len = len, hs_info = None,
        hs_last = RPROC_LOADER_NOT_READY, hs_noffset = 0, hs_nlen = 0, hs_mem = rp_mem r, hs_store = st\<rparr>;
     let r1 = r\<lparr>rp_mem := hs_mem h\<rparr>;
     (case res of
        Inl e \<Rightarrow> Some (Inl e, hs_info h, r1, hs_store h)
      | Inr _ \<Rightarrow> do {
          (tab, rsc_da, rsc_size, r2, st2) \<leftarrow> find_rsc_table le po ops loader (hs_info h) 0 (hs_offset h) 0 r1 (hs_store h);
          (res, d) \<leftarrow> load_data le po ops loader junk \<lparr>ds_img = hs_img h, ds_offset = 0, ds_len = 0, ds_info = hs_info h,
             ds_last = hs_last h, ds_io = None, ds_rproc = r2, ds_store = st2\<rparr>;
          (case res of
             Inl e \<Rightarrow> Some (Inl e, ds_info d, ds_rproc d, ds_store d)
           | Inr _ \<Rightarrow> do {
               (tab, rsc_da, rsc_size, r3, st3) \<leftarrow>
                 (if rsc_size = 0 then find_rsc_table le po ops loader (ds_info d) rsc_da (ds_offset d) rsc_size (ds_rproc d) (ds_store d)
                  else Some (tab, rsc_da, rsc_size, ds_rproc d, ds_store d));
               r4 \<leftarrow> update_rsc_table po tab rsc_da rsc_size (ds_io d) r3;
               entry \<leftarrow> lo_get_entry loader (ds_info d);
               Some (Inr (), ds_info d, r4\<lparr>rp_bootaddr := entry, rp_state := RPROC_READY\<rparr>, st3)
             })
        })
   }"

text \<open>
  \<open>keep\<close>: the caller passes a place for the image information. The store is closed on every path
  after it was opened, and the lock is released.
\<close>

definition remoteproc_load ::
  "load_env \<Rightarrow> remoteproc_ops \<Rightarrow> 'st image_store_ops option \<Rightarrow> u8 list \<Rightarrow> u8 \<Rightarrow> bool \<Rightarrow> remoteproc option \<Rightarrow> 'st \<Rightarrow>
   (int \<times> elf_info option \<times> remoteproc option \<times> 'st) option" where
  "remoteproc_load le po store_ops path junk keep rproc st =
     (case rproc of None \<Rightarrow> Some (- RPROC_ENODEV, None, None, st)
      | Some r \<Rightarrow> do {
          r1 \<leftarrow> rp_acquire r;
          if rp_state r1 \<noteq> RPROC_READY \<and> rp_state r1 \<noteq> RPROC_CONFIGURED
          then Some (- RPROC_EINVAL, None, Some (rp_release r1), st)
          else (case store_ops of None \<Rightarrow> Some (- RPROC_EINVAL, None, Some (rp_release r1), st)
          | Some ops \<Rightarrow> do {
            let (ret, img_data, st1) = is_open ops st path;
            if ret \<le> 0 then Some (- RPROC_EINVAL, None, Some (rp_release r1), st1)
            else do {
              let len = word_of_int ret;
              require (img_data \<noteq> None);
              lp \<leftarrow> (if rp_loader r1 = NULL then remoteproc_check_fw_format le img_data len else Some (rp_loader r1));
              if lp = NULL then Some (- RPROC_EINVAL, None, Some (rp_release r1), is_close ops st1)
              else do {
                loader \<leftarrow> le_loader_at le lp;
                (res, info, r2, st2) \<leftarrow> load_image le po ops loader junk img_data len (r1\<lparr>rp_loader := lp\<rparr>) st1;
                Some (case res of
                    Inl e \<Rightarrow> (e, None, Some (rp_release r2), is_close ops st2)
                  | Inr _ \<Rightarrow> (0, if keep then info else lo_release loader info, Some (rp_release r2), is_close ops st2))
              }
            }
          })
        })"


section \<open>Loading part by part\<close>

text \<open>
  What the caller's pointer to the image information holds: nothing yet, live information, or the
  address of information that was released.
\<close>

datatype info_slot = No_info | Info elf_info | Freed

text \<open>The values at the caller's pointers and the state that is local to the call.\<close>

record nb_state =
  nb_pa :: u64
  nb_io :: "metal_io_region option"
  nb_noffset :: u64
  nb_nlen :: u64
  nb_nmlen :: u64
  nb_padding :: u8
  nb_info :: "elf_info option"
  nb_last :: int
  nb_rproc :: remoteproc

text \<open>How a part of the function ends: it goes on, jumps to \<open>out\<close>, or to \<open>error1\<close> with a code.\<close>

datatype nb_end = Go | Out | Error1 int

definition nb_headers ::
  "load_env \<Rightarrow> loader_ops \<Rightarrow> u8 list option \<Rightarrow> u64 \<Rightarrow> u64 \<Rightarrow> nb_state \<Rightarrow> (nb_end \<times> nb_state) option" where
  "nb_headers le loader img offset len s =
     (if nb_last s AND RPROC_LOADER_READY_TO_LOAD = 0 \<and> nb_last s AND RPROC_LOADER_LOAD_COMPLETE = 0 then do {
        (ret, info, noffset, nlen) \<leftarrow> lo_load_header loader (can_alloc le) img offset len (nb_info s) (nb_last s)
            (nb_noffset s) (nb_nlen s);
        let s1 = s\<lparr>nb_info := info, nb_noffset := noffset, nb_nlen := nlen\<rparr>;
        if ret < 0 then Some (Error1 ret, s1)
        else Some (if nlen \<noteq> 0 \<and> ret AND RPROC_LOADER_READY_TO_LOAD = 0 then Out else Go, s1\<lparr>nb_last := ret\<rparr>)
      } else Some (Go, s))"

text \<open>The test \<open>!io\<close> after the mapping looks at the caller's pointer, which is not NULL.\<close>

definition nb_data ::
  "load_env \<Rightarrow> remoteproc_ops \<Rightarrow> loader_ops \<Rightarrow> u8 list option \<Rightarrow> u64 \<Rightarrow> u64 \<Rightarrow> nb_state \<Rightarrow> (nb_end \<times> nb_state) option" where
  "nb_data le po loader img offset len s =
     (if nb_last s AND RPROC_LOADER_READY_TO_LOAD \<noteq> 0 \<or> nb_last s AND RPROC_LOADER_POST_DATA_LOAD \<noteq> 0 then do {
        (ret, out) \<leftarrow> lo_load_data loader (can_alloc le) img offset len (nb_last s)
           \<lparr>eo_info = nb_info s, eo_da = RPROC_LOAD_ANYADDR, eo_noffset = nb_noffset s, eo_nlen = nb_nlen s,
            eo_padding = nb_padding s, eo_nmemsize = nb_nmlen s\<rparr>;
        let s1 = s\<lparr>nb_info := eo_info out, nb_noffset := eo_noffset out, nb_nlen := eo_nlen out,
                   nb_padding := eo_padding out, nb_nmlen := eo_nmemsize out\<rparr>;
        if ret < 0 then Some (Error1 ret, s1)
        else do {
          let s2 = s1\<lparr>nb_last := ret\<rparr>;
          if eo_da out \<noteq> RPROC_LOAD_ANYADDR then do {
            (_, pa, _, io, r) \<leftarrow> remoteproc_mmap po (nb_rproc s) (Some BAD_PHYS) (Some (eo_da out)) (eo_nmemsize out) 0 (nb_io s);
            p \<leftarrow> pa;
            let s3 = s2\<lparr>nb_pa := p, nb_io := io, nb_rproc := r\<rparr>;
            if p = BAD_PHYS then Some (Error1 (- RPROC_EINVAL), s3)
            else Some (if eo_nlen out \<noteq> 0 then Out else Go, s3)
          }
          else Some (if eo_nlen out \<noteq> 0 then Out else Go, s2)
        }
      } else Some (Go, s))"

text \<open>
  The resource table, parsed in a copy and written back. When no region is found the code jumps to
  \<open>error1\<close> with the 0 of the call before; a short copy leaves the number of bytes copied there.
\<close>

definition nb_rsc_table ::
  "load_env \<Rightarrow> remoteproc_ops \<Rightarrow> u64 \<Rightarrow> u64 \<Rightarrow> nb_state \<Rightarrow> (nb_end \<times> nb_state) option" where
  "nb_rsc_table le po rsc_da rsc_size s =
     (let lrsc_table = le_malloc le rsc_size in
      if lrsc_table = NULL then Some (Error1 (- RPROC_ENOMEM), s)
      else do {
        (rsc_table, _, _, io, r1) \<leftarrow> remoteproc_mmap po (nb_rproc s) None (Some rsc_da) rsc_size 0 (nb_io s);
        let s1 = s\<lparr>nb_io := io, nb_rproc := r1\<rparr>;
        (case io of
           None \<Rightarrow> Some (Error1 0, s1)
         | Some reg \<Rightarrow> do {
             let rsc_io_offset = metal_io_virt_to_offset reg rsc_table;
             let (ret, m) = metal_io_block_read (rp_mem r1) reg rsc_io_offset lrsc_table (unat rsc_size);
             let r2 = r1\<lparr>rp_mem := m\<rparr>;
             if ret \<noteq> as_int rsc_size then Some (Error1 ret, s1\<lparr>nb_rproc := r2\<rparr>)
             else do {
               (ret, r3) \<leftarrow> remoteproc_parse_rsc_table po r2 lrsc_table rsc_size;
               if ret < 0 then Some (Error1 ret, s1\<lparr>nb_rproc := r3\<rparr>)
               else do {
                 let (_, m) = metal_io_block_write (rp_mem r3) reg rsc_io_offset lrsc_table (unat rsc_size);
                 Some (Go, s1\<lparr>nb_rproc := r3\<lparr>rp_mem := m, rp_rsc_table := rsc_table, rp_rsc_len := rsc_size, rp_rsc_io := Some reg\<rparr>\<rparr>)
               }
             }
           })
      })"

definition nb_complete ::
  "load_env \<Rightarrow> remoteproc_ops \<Rightarrow> loader_ops \<Rightarrow> nb_state \<Rightarrow> (nb_end \<times> nb_state) option" where
  "nb_complete le po loader s =
     (if nb_last s AND RPROC_LOADER_LOAD_COMPLETE \<noteq> 0 then do {
        (ret, rsc_da, rsc_offset, rsc_size) \<leftarrow> lo_locate_rsc_table loader (nb_info s) 0 0 0;
        (e, s1) \<leftarrow> (if ret = 0 \<and> 0 < rsc_size then nb_rsc_table le po rsc_da rsc_size s else Some (Go, s));
        (case e of
           Error1 c \<Rightarrow> Some (Error1 c, s1)
         | _ \<Rightarrow> do {
             entry \<leftarrow> lo_get_entry loader (nb_info s1);
             Some (Out, s1\<lparr>nb_rproc := (nb_rproc s1)\<lparr>rp_bootaddr := entry\<rparr>\<rparr>)
           })
      } else Some (Out, s))"

definition nb_then ::
  "(nb_end \<times> nb_state) option \<Rightarrow> (nb_state \<Rightarrow> (nb_end \<times> nb_state) option) \<Rightarrow> (nb_end \<times> nb_state) option" where
  "nb_then r k = do {
     (e, s) \<leftarrow> r;
     (case e of Go \<Rightarrow> k s | _ \<Rightarrow> Some (e, s))
   }"

text \<open>
  \<open>slot\<close> is \<open>None\<close> when the caller passes no place for the information. On \<open>error1\<close> the information is
  released and the caller's pointer keeps its address.
\<close>

definition remoteproc_load_noblock ::
  "load_env \<Rightarrow> remoteproc_ops \<Rightarrow> u8 list option \<Rightarrow> u64 \<Rightarrow> u64 \<Rightarrow> info_slot option \<Rightarrow> nb_state \<Rightarrow> remoteproc option \<Rightarrow>
   (int \<times> info_slot option \<times> nb_state \<times> remoteproc option) option" where
  "remoteproc_load_noblock le po img offset len slot s rproc =
     (case rproc of None \<Rightarrow> Some (- RPROC_ENODEV, slot, s, None)
      | Some r \<Rightarrow> do {
          r1 \<leftarrow> rp_acquire r;
          if rp_state r1 \<noteq> RPROC_READY then Some (- RPROC_EINVAL, slot, s, Some (rp_release r1))
          else if rp_loader r1 = NULL \<and> (img = None \<or> offset \<noteq> 0 \<or> len = 0)
          then Some (- RPROC_EINVAL, slot, s, Some (rp_release r1))
          else do {
            lp \<leftarrow> (if rp_loader r1 = NULL then remoteproc_check_fw_format le img len else Some (rp_loader r1));
            if lp = NULL then Some (- RPROC_EINVAL, slot, s, Some (rp_release r1))
            else do {
              let r2 = r1\<lparr>rp_loader := lp\<rparr>;
              loader \<leftarrow> le_loader_at le lp;
              info \<leftarrow> (case slot of Some (Info i) \<Rightarrow> Some (Some i) | Some Freed \<Rightarrow> None | _ \<Rightarrow> Some None);
              let last = (if info = None then 0 else lo_get_load_state loader info);
              if last < 0 then Some (- RPROC_EINVAL, slot, s, Some (rp_release r2))
              else do {
                (e, t) \<leftarrow> nb_then (nb_then (nb_headers le loader img offset len
                      (s\<lparr>nb_info := info, nb_last := last, nb_nlen := 0, nb_rproc := r2\<rparr>))
                    (nb_data le po loader img offset len)) (nb_complete le po loader);
                Some (case e of
                    Error1 c \<Rightarrow> (c, map_option (\<lambda>x. if x = No_info then No_info else Freed) slot, t, Some (rp_release (nb_rproc t)))
                  | _ \<Rightarrow> (0, map_option (\<lambda>_. case nb_info t of None \<Rightarrow> No_info | Some i \<Rightarrow> Info i) slot,
                          t, Some (rp_release (nb_rproc t))))
              }
            }
          }
        })"

end
