(* ===== verification/Rproc_Load_Laws.thy ===== *)
theory Rproc_Load_Laws
  imports Rproc_Load Rproc_Laws
begin

unbundle bit_operations_syntax

text \<open>
  Loading firmware through an image store: the headers are complete however the store cuts the
  image into windows, and a segment arrives in the memory of the remote with its padding.
\<close>

section \<open>What a store promises\<close>

text \<open>The store can seek, and returns the bytes it is asked for when they are in the file \<open>bs\<close>.\<close>

definition serves :: "'st image_store_ops \<Rightarrow> u8 list \<Rightarrow> bool" where
  "serves ops bs = (is_features ops AND SUPPORT_SEEK \<noteq> 0
     \<and> (\<forall>st off n m. unat off + unat n \<le> length bs \<longrightarrow>
          (\<exists>st'. is_load ops st off n RPROC_LOAD_ANYADDR None m = (int (unat n), Some (take (unat n) (drop (unat off) bs)), st', m))))"

lemma as_int_le: "as_int n \<le> int (unat n)"
proof -
  have "sint (w :: u32) \<le> uint w" for w
  proof -
    have "take_bit 32 (uint w) \<le> uint w" by (simp add: take_bit_int_less_eq_self_iff)
    then have "take_bit 32 (uint w) - 4294967296 \<le> uint w" by linarith
    then show ?thesis by (simp add: sint_uint signed_take_bit_eq_take_bit_minus take_bit_int_less_eq_self_iff)
  qed
  then have "as_int n \<le> uint (ucast n :: u32)" by (simp add: as_int_def)
  also have "\<dots> \<le> uint n" by (simp add: unsigned_ucast_eq take_bit_int_less_eq_self_iff)
  finally show ?thesis by simp
qed


section \<open>The loop over the headers\<close>

text \<open>What the loop does with the answer of the loader.\<close>

definition after_header ::
  "load_env \<Rightarrow> 'st image_store_ops \<Rightarrow> 'st header_state \<Rightarrow> hdr_result \<Rightarrow> ((int + unit) \<times> 'st header_state) option" where
  "after_header le ops s = (\<lambda>(ret, info, noffset, nlen).
     let s1 = s\<lparr>hs_info := info, hs_last := ret, hs_noffset := noffset, hs_nlen := nlen\<rparr> in
     if ret < 0 then Some (Inl ret, s1)
     else if ret AND RPROC_LOADER_READY_TO_LOAD \<noteq> 0
             \<and> (nlen = 0 \<or> (hs_offset s + hs_len s < noffset \<and> is_features ops AND SUPPORT_SEEK = 0))
     then Some (Inr (), s1)
     else (let (ret, img, st, m) = is_load ops (hs_store s) noffset nlen RPROC_LOAD_ANYADDR None (hs_mem s);
               s2 = s1\<lparr>hs_img := img, hs_store := st, hs_mem := m\<rparr>
           in if ret < as_int nlen then Some (Inl ret, s2)
              else load_headers le ops elf_ops (s2\<lparr>hs_offset := noffset, hs_len := nlen\<rparr>)))"

lemma load_headers_unfold:
  "load_headers le ops elf_ops s = Option.bind (elf_load_header (can_alloc le) (hs_img s) (hs_offset s) (hs_len s)
     (hs_info s) (hs_last s) (hs_noffset s) (hs_nlen s)) (after_header le ops s)"
  by (subst load_headers.simps) (simp add: elf_ops_def after_header_def Let_def split_beta)

text \<open>The loop ends with all headers of the image.\<close>

definition headers_done :: "elf_info \<Rightarrow> mem \<Rightarrow> ((int + unit) \<times> 'st header_state) option \<Rightarrow> bool" where
  "headers_done info m r = (\<exists>h. r = Some (Inr (), h) \<and> hs_info h = Some info \<and> hs_last h = ei_load_state info \<and> hs_mem h = m)"

lemma final_answer:
  assumes "elf_image bs info"
  shows "headers_done info (hs_mem s) (after_header le ops s (ei_load_state info, Some info, no, 0))"
proof -
  have "ei_load_state info = ELF_STATE_HDRS_COMPLETE OR RPROC_LOADER_READY_TO_LOAD" using assms by (simp add: elf_image_def)
  then show ?thesis by (simp add: headers_done_def after_header_def Let_def)
qed

text \<open>A request is served and the loop called again with exactly the window that was asked for.\<close>

lemma served_request:
  assumes "serves ops bs" and "unat t + unat n \<le> length bs" and "0 \<le> ret" and "ret AND RPROC_LOADER_READY_TO_LOAD \<noteq> 0 \<longrightarrow> n \<noteq> 0"
  shows "\<exists>s'. after_header le ops s (ret, i, t, n) = load_headers le ops elf_ops s'
    \<and> window bs (hs_img s') (hs_offset s') (hs_len s') \<and> hs_offset s' = t \<and> hs_len s' = n
    \<and> hs_info s' = i \<and> hs_last s' = ret \<and> hs_mem s' = hs_mem s"
proof -
  obtain st' where ld: "is_load ops (hs_store s) t n RPROC_LOAD_ANYADDR None (hs_mem s)
      = (int (unat n), Some (take (unat n) (drop (unat t) bs)), st', hs_mem s)"
    using assms(1,2) unfolding serves_def by blast
  have seek: "is_features ops AND SUPPORT_SEEK \<noteq> 0" using assms(1) by (simp add: serves_def)
  let ?s = "s\<lparr>hs_info := i, hs_last := ret, hs_noffset := t, hs_nlen := n, hs_img := Some (take (unat n) (drop (unat t) bs)),
     hs_store := st', hs_mem := hs_mem s, hs_offset := t, hs_len := n\<rparr>"
  have "after_header le ops s (ret, i, t, n) = load_headers le ops elf_ops ?s"
    using ld seek assms(3,4) as_int_le [of n] by (auto simp: after_header_def Let_def not_less)
  then show ?thesis using assms(2) by (intro exI [of _ ?s]) (simp add: window_def)
qed

lemma waits_done:
  assumes served: "serves ops bs" and alloc: "can_alloc le = always" and waits: "waits bs i nxt"
    and st: "0 < ei_load_state i"
    and nxt: "\<And>s no nl. window bs (hs_img s) (hs_offset s) (hs_len s)
      \<Longrightarrow> headers_done info (hs_mem s) (Option.bind (nxt (hs_img s) (hs_offset s) (hs_len s) no nl) (after_header le ops s))"
    and win: "window bs (hs_img s) (hs_offset s) (hs_len s)"
  shows "headers_done info (hs_mem s) (Option.bind (tables_from i (hs_img s) (hs_offset s) (hs_len s) no nl) (after_header le ops s))"
proof -
  obtain t n where w: "unat t + unat n \<le> length bs" "ei_load_state i AND RPROC_LOADER_READY_TO_LOAD \<noteq> 0 \<longrightarrow> n \<noteq> 0"
    "\<And>img off len no nl. window bs img off len \<Longrightarrow> tables_from i img off len no nl
      = (if t < off \<or> off + len < t + n then Some (ei_load_state i, Some i, t, n) else nxt img off len no nl)"
    using waits unfolding waits_def by blast
  show ?thesis
  proof (cases "t < hs_offset s \<or> hs_offset s + hs_len s < t + n")
    case True
    obtain s' where s': "after_header le ops s (ei_load_state i, Some i, t, n) = load_headers le ops elf_ops s'"
      "window bs (hs_img s') (hs_offset s') (hs_len s')" "hs_offset s' = t" "hs_len s' = n"
      "hs_info s' = Some i" "hs_last s' = ei_load_state i" "hs_mem s' = hs_mem s"
      using served_request [OF served w(1) _ w(2)] st by (metis less_imp_le)
    have "load_headers le ops elf_ops s' = Option.bind (nxt (hs_img s') (hs_offset s') (hs_len s') (hs_noffset s') (hs_nlen s')) (after_header le ops s')"
      using s' w(3) [OF s'(2)] st alloc by (simp add: load_headers_unfold elf_load_header_def)
    then show ?thesis using True w(3) [OF win] s'(1,7) nxt [OF s'(2)] by simp
  next
    case False
    then show ?thesis using w(3) [OF win] nxt [OF win] by simp
  qed
qed

lemma ehdr_done:
  assumes served: "serves ops bs" and alloc: "can_alloc le = always" and image: "elf_image bs info"
    and win: "window bs (hs_img s) (hs_offset s) (hs_len s)"
  shows "headers_done info (hs_mem s)
    (Option.bind (tables_from (upto_ehdr info) (hs_img s) (hs_offset s) (hs_len s) no nl) (after_header le ops s))"
proof -
  have pos: "0 < ei_load_state (upto_ehdr info)" "0 < ei_load_state (upto_phdrs info)" "0 < ei_load_state (upto_shdrs info)"
    by (simp_all add: upto_ehdr_def upto_phdrs_def upto_shdrs_def)
  have 3: "headers_done info (hs_mem s)
    (Option.bind (tables_from (upto_shdrs info) (hs_img s) (hs_offset s) (hs_len s) no nl) (after_header le ops s))"
    if "window bs (hs_img s) (hs_offset s) (hs_len s)" for s no nl
    using waits_done [OF served alloc shdrs_waits [OF image] pos(3) _ that] final_answer [OF image] by fastforce
  have 2: "headers_done info (hs_mem s)
    (Option.bind (tables_from (upto_phdrs info) (hs_img s) (hs_offset s) (hs_len s) no nl) (after_header le ops s))"
    if "window bs (hs_img s) (hs_offset s) (hs_len s)" for s no nl
    by (rule waits_done [OF served alloc phdrs_waits [OF image] pos(2) 3 that])
  show ?thesis by (rule waits_done [OF served alloc ehdr_waits [OF image] pos(1) 2 win])
qed


lemma headers_loaded:
  assumes image: "elf_image bs info" and served: "serves ops bs" and alloc: "\<And>n. le_malloc le n \<noteq> NULL"
    and len: "5 \<le> unat len" "unat len \<le> length bs"
  shows "headers_done info m (load_headers le ops elf_ops \<lparr>hs_img = Some (take (unat len) bs), hs_offset = 0, hs_len = len,
      hs_info = None, hs_last = RPROC_LOADER_NOT_READY, hs_noffset = 0, hs_nlen = 0, hs_mem = m, hs_store = st\<rparr>)"
proof -
  let ?s = "\<lparr>hs_img = Some (take (unat len) bs), hs_offset = 0, hs_len = len, hs_info = None,
      hs_last = RPROC_LOADER_NOT_READY, hs_noffset = 0, hs_nlen = 0, hs_mem = m, hs_store = st\<rparr>"
  have al: "can_alloc le = always" using alloc by (simp add: can_alloc_def fun_eq_iff)
  have win: "window bs (Some (take (unat len) bs)) 0 len" using len by (simp add: window_def)
  obtain sz where sz: "unat sz \<le> length bs" "5 \<le> unat sz"
    "load_ehdr always (Some (take (unat len) bs)) len None 0 0
       = Some (if len < sz then Inl (ELF_STATE_INIT, None, 0, sz) else Inr (upto_ehdr info))"
    "\<And>img' no nl. window bs img' 0 sz \<Longrightarrow> load_ehdr always img' sz None no nl = Some (Inr (upto_ehdr info))"
    using load_ehdr_window [OF image win len(1), of 0 0] by auto
  have st1: "ei_load_state (upto_ehdr info) = ELF_STATE_WAIT_FOR_PHDRS" by (simp add: upto_ehdr_def)
  have go: "load_headers le ops elf_ops s
      = Option.bind (tables_from (upto_ehdr info) (hs_img s) (hs_offset s) (hs_len s) (hs_noffset s) (hs_nlen s)) (after_header le ops s)"
    if "hs_last s = 0" "hs_info s = None"
      "load_ehdr always (hs_img s) (hs_len s) None (hs_noffset s) (hs_nlen s) = Some (Inr (upto_ehdr info))" for s
    using that al st1 by (simp add: load_headers_unfold elf_load_header_def)
  show ?thesis
  proof (cases "len < sz")
    case True
    obtain s' where s': "after_header le ops ?s (ELF_STATE_INIT, None, 0, sz) = load_headers le ops elf_ops s'"
      "window bs (hs_img s') (hs_offset s') (hs_len s')" "hs_offset s' = 0" "hs_len s' = sz"
      "hs_info s' = None" "hs_last s' = ELF_STATE_INIT" "hs_mem s' = hs_mem ?s"
      using served_request [OF served, of 0 sz ELF_STATE_INIT le ?s None] sz(1) by auto
    have "load_headers le ops elf_ops ?s = load_headers le ops elf_ops s'"
      using sz(3) True s'(1) al by (simp add: load_headers_unfold [of le ops ?s] elf_load_header_def)
    then show ?thesis
      using go [OF s'(6,5)] sz(4) s' ehdr_done [OF served al image s'(2)] by simp
  next
    case False
    then show ?thesis
      using go [of ?s] sz(3) ehdr_done [OF served al image, of ?s] win by simp
  qed
qed


text \<open>
  C22: the headers of a well-formed ELF image are loaded whatever part of the file the store shows
  first and however it has to be asked for the rest: the loop of \<open>remoteproc_load\<close> ends, with the file
  header, the program headers, the section headers and the section names of the file, ready to
  load, and without having touched memory.
\<close>

theorem headers_any_window:
  assumes image: "elf_image bs info" and served: "serves ops bs" and alloc: "\<And>n. le_malloc le n \<noteq> NULL"
    and len: "5 \<le> unat len" "unat len \<le> length bs"
  shows "\<exists>h. load_headers le ops elf_ops \<lparr>hs_img = Some (take (unat len) bs), hs_offset = 0, hs_len = len, hs_info = None,
      hs_last = RPROC_LOADER_NOT_READY, hs_noffset = 0, hs_nlen = 0, hs_mem = m, hs_store = st\<rparr> = Some (Inr (), h)
    \<and> hs_info h = Some info \<and> hs_last h = ELF_STATE_HDRS_COMPLETE OR RPROC_LOADER_READY_TO_LOAD \<and> hs_mem h = m"
  using headers_loaded [OF assms] image unfolding headers_done_def elf_image_def by auto

section \<open>One segment\<close>

text \<open>The store writes the bytes it is asked for to the address it is given.\<close>

definition stores :: "'st image_store_ops \<Rightarrow> u8 list \<Rightarrow> bool" where
  "stores ops bs = (\<forall>st off n pa io m va. unat off + unat n \<le> length bs \<longrightarrow> metal_io_phys_to_virt io pa = Some va \<longrightarrow>
     (\<exists>img st'. is_load ops st off n pa (Some io) m = (int (unat n), img, st', mem_write m va (take (unat n) (drop (unat off) bs)))))"

text \<open>
  A segment fits the memory \<open>pm\<close>, the first one that covers it, which is mapped linearly by the region
  \<open>io\<close>; it is inside the file and not larger there than in memory.
\<close>

definition placeable :: "u8 list \<Rightarrow> remoteproc_mem list \<Rightarrow> elf_segment \<Rightarrow> remoteproc_mem \<Rightarrow> metal_io_region \<Rightarrow> bool" where
  "placeable bs mems sg pm io =
     ((\<exists>before rest. mems = before @ pm # rest \<and> (\<forall>q \<in> set before. \<not> covers (pm_da q) (pm_size q) (sg_paddr sg) (sg_memsz sg)))
      \<and> covers (pm_da pm) (pm_size pm) (sg_paddr sg) (sg_memsz sg) \<and> sg_memsz sg \<noteq> 0 \<and> sg_paddr sg \<noteq> BAD_PHYS
      \<and> pm_io pm = Some io \<and> single_page io (pm_pa pm) \<and> io_virt io \<noteq> METAL_BAD_VA \<and> io_size io = pm_size pm
      \<and> io_block_set (io_ops io) = None \<and> 0 < unat (io_virt io) \<and> unat (io_virt io) + unat (io_size io) < 2 ^ 64
      \<and> unat (pm_da pm) + unat (pm_size pm) < 2 ^ 64 \<and> unat (sg_paddr sg) + unat (sg_memsz sg) < 2 ^ 64
      \<and> pm_pa pm + (sg_paddr sg - pm_da pm) \<noteq> BAD_PHYS
      \<and> sg_filesz sg \<le> sg_memsz sg \<and> unat (sg_filesz sg) < 2 ^ 31 \<and> unat (sg_offset sg) + unat (sg_filesz sg) \<le> length bs)"

definition seg_va :: "elf_segment \<Rightarrow> remoteproc_mem \<Rightarrow> metal_io_region \<Rightarrow> addr" where
  "seg_va sg pm io = io_virt io + (sg_paddr sg - pm_da pm)"

definition seg_bytes :: "u8 list \<Rightarrow> elf_segment \<Rightarrow> u8 list" where
  "seg_bytes bs sg = take (unat (sg_filesz sg)) (drop (unat (sg_offset sg)) bs)
     @ replicate (unat (sg_memsz sg) - unat (sg_filesz sg)) 0"

lemma as_int_small: "unat n < 2 ^ 31 \<Longrightarrow> as_int n = int (unat n)"
proof -
  assume n: "unat n < 2 ^ 31"
  then have u: "unat (ucast n :: u32) = unat n" by (simp add: unsigned_ucast_eq take_bit_nat_eq_self)
  show ?thesis using sint_small [of "ucast n :: u32"] n u by (simp add: as_int_def)
qed

lemma placeable_inside:
  assumes "placeable bs mems sg pm io"
  defines "d \<equiv> sg_paddr sg - pm_da pm"
  shows "unat d + unat (sg_memsz sg) \<le> unat (io_size io)" "d < io_size io"
proof -
  have c: "pm_da pm \<le> sg_paddr sg" "sg_paddr sg + sg_memsz sg \<le> pm_da pm + pm_size pm" "sg_paddr sg < pm_da pm + pm_size pm"
    "unat (pm_da pm) + unat (pm_size pm) < 2 ^ 64" "unat (sg_paddr sg) + unat (sg_memsz sg) < 2 ^ 64" "io_size io = pm_size pm"
    using assms(1) by (auto simp: placeable_def covers_def)
  have "unat (pm_da pm + pm_size pm) = unat (pm_da pm) + unat (pm_size pm)"
    "unat (sg_paddr sg + sg_memsz sg) = unat (sg_paddr sg) + unat (sg_memsz sg)"
    using c(4,5) by (simp_all add: unat_word_ariths)
  moreover have "unat d = unat (sg_paddr sg) - unat (pm_da pm)" using c(1) by (simp add: d_def unat_sub word_le_nat_alt)
  ultimately show "unat d + unat (sg_memsz sg) \<le> unat (io_size io)" "d < io_size io"
    using c by (simp_all add: word_le_nat_alt word_less_nat_alt)
qed


lemma placeable_virt:
  assumes pl: "placeable bs mems sg pm io" and k: "k < sg_memsz sg"
  defines "d \<equiv> sg_paddr sg - pm_da pm"
  shows "unat (d + k) = unat d + unat k" "d + k < io_size io" "metal_io_virt io (d + k) = seg_va sg pm io + k"
    "metal_io_virt io (d + k) \<noteq> NULL" "metal_io_phys_to_offset io (pm_pa pm + d + k) = Some (d + k)"
proof -
  note in_reg = placeable_inside [OF pl, folded d_def]
  have v: "io_virt io \<noteq> METAL_BAD_VA" "0 < unat (io_virt io)" "unat (io_virt io) + unat (io_size io) < 2 ^ 64" "single_page io (pm_pa pm)"
    using pl by (auto simp: placeable_def)
  have lt: "unat d + unat k < unat (io_size io)" using in_reg(1) k by (simp add: word_less_nat_alt)
  then have "unat d + unat k < 2 ^ 64" using unat_lt_exp [of "io_size io"] by simp
  then show u: "unat (d + k) = unat d + unat k" by (simp add: unat_word_ariths)
  then show ok: "d + k < io_size io" using lt by (simp add: word_less_nat_alt)
  show eq: "metal_io_virt io (d + k) = seg_va sg pm io + k"
    using ok v(1) by (simp add: metal_io_virt_def seg_va_def d_def algebra_simps)
  have "unat (io_virt io + (d + k)) = unat (io_virt io) + unat (d + k)"
    using v(3) ok by (simp add: unat_word_ariths word_less_nat_alt)
  then have "io_virt io + (d + k) \<noteq> 0" using v(2) by (metis add_is_0 neq0_conv unsigned_0)
  then show "metal_io_virt io (d + k) \<noteq> NULL" using ok v(1) by (simp add: metal_io_virt_def)
  show "metal_io_phys_to_offset io (pm_pa pm + d + k) = Some (d + k)"
    using single_page_phys_to_offset [OF v(4) ok] by (simp add: add.assoc)
qed

lemma place_segment_ok:
  assumes pl: "placeable bs (rp_mems r) sg pm io" and store: "stores ops bs"
    and out: "eo_da out = sg_paddr sg" "eo_noffset out = sg_offset sg" "eo_nlen out = sg_filesz sg" "eo_nmemsize out = sg_memsz sg"
      "eo_padding out = 0"
  shows "\<exists>img st'. place_segment po ops out io0 r st
    = Some (Inr (), img, Some io, r\<lparr>rp_mem := mem_write (rp_mem r) (seg_va sg pm io) (seg_bytes bs sg)\<rparr>, st')"
proof -
  let ?d = "sg_paddr sg - pm_da pm" and ?m = "rp_mem r" and ?va = "seg_va sg pm io" and ?n = "sg_filesz sg"
  let ?seg = "take (unat ?n) (drop (unat (sg_offset sg)) bs)"
  obtain before rest where p: "rp_mems r = before @ pm # rest"
      "\<And>q. q \<in> set before \<Longrightarrow> \<not> covers (pm_da q) (pm_size q) (sg_paddr sg) (sg_memsz sg)"
    "covers (pm_da pm) (pm_size pm) (sg_paddr sg) (sg_memsz sg)" "sg_memsz sg \<noteq> 0" "sg_paddr sg \<noteq> BAD_PHYS" "pm_io pm = Some io"
    "single_page io (pm_pa pm)" "io_virt io \<noteq> METAL_BAD_VA" "io_size io = pm_size pm" "unat (pm_da pm) + unat (pm_size pm) < 2 ^ 64"
    and q: "pm_pa pm + ?d \<noteq> BAD_PHYS" "?n \<le> sg_memsz sg" "unat ?n < 2 ^ 31" "unat (sg_offset sg) + unat ?n \<le> length bs"
      "io_block_set (io_ops io) = None"
    using pl unfolding placeable_def by blast
  have mm: "remoteproc_mmap po r (Some BAD_PHYS) (Some (sg_paddr sg)) (sg_memsz sg) 0 io0
      = Some (?va, Some (pm_pa pm + ?d), Some (sg_paddr sg), Some io, r)"
    using mmap_da_ok [OF p(1-10), of po 0 io0] by (simp add: seg_va_def)
  have "(0 :: u64) < sg_memsz sg" using p(4) by (simp add: word_neq_0_conv)
  from placeable_virt [OF pl this] have virt: "metal_io_phys_to_virt io (pm_pa pm + ?d) = Some ?va"
    by (simp add: metal_io_phys_to_virt_def)
  obtain img st1 where ld: "is_load ops st (sg_offset sg) ?n (pm_pa pm + ?d) (Some io) ?m = (int (unat ?n), img, st1, mem_write ?m ?va ?seg)"
    using store q(4) virt unfolding stores_def by blast
  let ?i = "if 0 < ?n then img else None" and ?st = "if 0 < ?n then st1 else st"
  have load: "(if 0 < eo_nlen out then is_load ops st (eo_noffset out) (eo_nlen out) (pm_pa pm + ?d) (Some io) ?m
      else (as_int (eo_nlen out), None, st, ?m)) = (as_int ?n, ?i, ?st, mem_write ?m ?va ?seg)"
    using ld out as_int_small [OF q(3)] by (auto simp: word_neq_0_conv [symmetric])
  have len: "length ?seg = unat ?n" using q(4) by simp
  show ?thesis
  proof (cases "?n < sg_memsz sg")
    case True
    note k = placeable_virt [OF pl True]
    have sub: "unat (sg_memsz sg - ?n) = unat (sg_memsz sg) - unat ?n" using q(2) by (simp add: unat_sub word_le_nat_alt)
    have "unat (?d + ?n) + (unat (sg_memsz sg) - unat ?n) \<le> unat (io_size io)"
      using placeable_inside(1) [OF pl] k(1) q(2) by (simp add: word_le_nat_alt)
    note clip = clip_len_inside [OF k(2) this]
    have at: "io_virt io + (?d + ?n) = ?va + ?n" by (simp add: seg_va_def)
    have bytes: "mem_write (mem_write ?m ?va ?seg) (?va + ?n) (replicate (unat (sg_memsz sg) - unat ?n) 0) = mem_write ?m ?va (seg_bytes bs sg)"
      using len by (simp add: seg_bytes_def mem_write_append)
    have set: "metal_io_block_set (mem_write ?m ?va ?seg) io (?d + ?n) 0 (unat (sg_memsz sg - ?n))
        = (int (unat (sg_memsz sg) - unat ?n), mem_write ?m ?va (seg_bytes bs sg))"
      using block_set_eq [OF k(4) q(5), of "mem_write ?m ?va ?seg" 0 "unat (sg_memsz sg) - unat ?n"]
      unfolding sub clip at bytes by simp
    have off: "metal_io_phys_to_offset io (pm_pa pm + ?d + ?n) = Some (?d + ?n)" by (rule k(5))
    show ?thesis
      using mm load out q(1) True set off by (intro exI [of _ ?i] exI [of _ ?st]) (simp add: place_segment_def Let_def)
  next
    case False
    then have "?n = sg_memsz sg" using q(2) by simp
    then have "seg_bytes bs sg = ?seg" by (simp add: seg_bytes_def)
    then show ?thesis
      using mm load out q(1) False by (intro exI [of _ ?i] exI [of _ ?st]) (simp add: place_segment_def Let_def)
  qed
qed


section \<open>All segments\<close>

text \<open>The memory after the segments with the indices \<open>js\<close> have been written, one after the other.\<close>

definition placed ::
  "u8 list \<Rightarrow> elf_info \<Rightarrow> (nat \<Rightarrow> remoteproc_mem) \<Rightarrow> (nat \<Rightarrow> metal_io_region) \<Rightarrow> nat list \<Rightarrow> mem \<Rightarrow> mem" where
  "placed bs info pm io js m = fold (\<lambda>j m. mem_write m (seg_va (segment info j) (pm j) (io j)) (seg_bytes bs (segment info j))) js m"

lemma load_post_complete:
  assumes "st AND RPROC_LOADER_READY_TO_LOAD = 0" and "st AND RPROC_LOADER_POST_DATA_LOAD \<noteq> 0"
    and "st AND ELF_STATE_HDRS_COMPLETE \<noteq> 0" and "ei_load_state i = st" and "0 \<le> st"
  shows "\<exists>st' out'. elf_load alloc img off len st (out\<lparr>eo_info := Some i\<rparr>) = Some (st', out') \<and> 0 \<le> st'
    \<and> eo_info out' = Some (i\<lparr>ei_load_state := st'\<rparr>) \<and> eo_da out' = eo_da out \<and> eo_nlen out' = 0
    \<and> st' AND ELF_STATE_HDRS_COMPLETE \<noteq> 0"
proof -
  have ne: "st AND RPROC_LOADER_MASK \<noteq> 0"
  proof
    assume "st AND RPROC_LOADER_MASK = 0"
    then have "(st AND RPROC_LOADER_MASK) AND RPROC_LOADER_POST_DATA_LOAD = 0" by simp
    moreover have "RPROC_LOADER_MASK AND RPROC_LOADER_POST_DATA_LOAD = RPROC_LOADER_POST_DATA_LOAD" by simp
    ultimately show False using assms(2) by (simp only: and.assoc)
  qed
  let ?st = "(st AND NOT RPROC_LOADER_MASK) OR RPROC_LOADER_LOAD_COMPLETE"
  have "RPROC_LOADER_MASK AND ELF_STATE_HDRS_COMPLETE = 0" "RPROC_LOADER_LOAD_COMPLETE AND ELF_STATE_HDRS_COMPLETE = 0" by simp_all
  note keep = and_kept [OF this, of st]
  have "elf_load alloc img off len st (out\<lparr>eo_info := Some i\<rparr>)
      = Some (?st, out\<lparr>eo_info := Some (i\<lparr>ei_load_state := ?st\<rparr>), eo_padding := 0, eo_nlen := 0\<rparr>)"
    using assms(1-4) ne by (simp add: elf_load_def load_post_def Let_def)
  moreover have "0 \<le> ?st" using assms(5) by (simp add: or_nonnegative_int_iff)
  ultimately show ?thesis using keep assms(3) by auto
qed


text \<open>The start values of one round of the loop.\<close>

abbreviation (input) round :: "'st data_state \<Rightarrow> u8 \<Rightarrow> elf_out" where
  "round s junk \<equiv> \<lparr>eo_info = ds_info s, eo_da = RPROC_LOAD_ANYADDR, eo_noffset = 0, eo_nlen = 0, eo_padding = junk, eo_nmemsize = 0\<rparr>"

lemma load_data_stop:
  assumes "elf_load (can_alloc le) (ds_img s) (ds_offset s) (ds_len s) (ds_last s) (round s junk) = Some (ret, out)"
    and "0 \<le> ret" and "eo_da out = RPROC_LOAD_ANYADDR" and "eo_nlen out = 0"
  shows "load_data le po ops elf_ops junk s = Some (Inr (), s\<lparr>ds_info := eo_info out, ds_last := ret\<rparr>)"
  using assms by (subst load_data.simps) (simp add: elf_ops_def)

lemma load_data_next:
  assumes "elf_load (can_alloc le) (ds_img s) (ds_offset s) (ds_len s) (ds_last s) (round s junk) = Some (ret, out)"
    and "0 \<le> ret" and "eo_da out \<noteq> RPROC_LOAD_ANYADDR"
    and "place_segment po ops out (ds_io s) (ds_rproc s) (ds_store s) = Some (Inr (), img, io, r, st)"
  shows "load_data le po ops elf_ops junk s = load_data le po ops elf_ops (eo_padding out)
    (s\<lparr>ds_info := eo_info out, ds_last := ret, ds_img := img, ds_io := io, ds_rproc := r, ds_store := st\<rparr>)"
  using assms by (subst load_data.simps) (simp add: elf_ops_def)

lemma ready_round:
  assumes "ds_info s = Some i" and "ds_last s = ei_load_state i" and "ei_load_state i AND RPROC_LOADER_READY_TO_LOAD \<noteq> 0"
  shows "elf_load (can_alloc le) (ds_img s) (ds_offset s) (ds_len s) (ds_last s) (round s junk)
    = load_segment i ((round s junk)\<lparr>eo_padding := 0\<rparr>)"
  using elf_load_ready [OF assms(3), of "can_alloc le" "ds_img s" "ds_offset s" "ds_len s" "round s junk"] assms(1,2) by simp

definition data_done ::
  "u8 list \<Rightarrow> elf_info \<Rightarrow> (nat \<Rightarrow> remoteproc_mem) \<Rightarrow> (nat \<Rightarrow> metal_io_region) \<Rightarrow> nat list \<Rightarrow> remoteproc \<Rightarrow>
   ((int + unit) \<times> 'st data_state) option \<Rightarrow> bool" where
  "data_done bs info pm io js r res = (\<exists>d st. res = Some (Inr (), d) \<and> ds_info d = Some (info\<lparr>ei_load_state := st\<rparr>)
     \<and> st AND ELF_STATE_HDRS_COMPLETE \<noteq> 0 \<and> ds_rproc d = r\<lparr>rp_mem := placed bs info pm io js (rp_mem r)\<rparr>)"

lemma load_data_from:
  assumes ok: "phdrs_ok info n" "n \<le> 255" and store: "stores ops bs"
    and segs: "\<And>j. j < n \<Longrightarrow> sg_type (segment info j) = PT_LOAD \<Longrightarrow> placeable bs (rp_mems (ds_rproc s)) (segment info j) (pm j) (io j)"
    and i: "i \<le> n" and st: "ds_info s = Some (info\<lparr>ei_load_state := ds_last s\<rparr>)" "0 \<le> ds_last s"
      "ds_last s AND ELF_NEXT_SEGMENT_MASK = int i" "ds_last s AND RPROC_LOADER_READY_TO_LOAD \<noteq> 0" "ds_last s AND ELF_STATE_HDRS_COMPLETE \<noteq> 0"
  shows "data_done bs info pm io (loads info i n) (ds_rproc s) (load_data le po ops elf_ops junk s)"
  using segs i st
proof (induction "n - i" arbitrary: i s junk rule: less_induct)
  case less
  let ?i = "info\<lparr>ei_load_state := ds_last s\<rparr>" and ?st = "ds_last s"
  have ok': "phdrs_ok ?i n" using ok(1) by (simp add: segment_state)
  have idx: "ei_load_state ?i AND ELF_NEXT_SEGMENT_MASK = int i" using less.prems(5) by simp
  have call: "elf_load (can_alloc le) (ds_img s) (ds_offset s) (ds_len s) ?st (round s junk) = load_segment ?i ((round s junk)\<lparr>eo_padding := 0\<rparr>)"
    using ready_round [of s ?i le junk] less.prems(3,6) by simp
  note step = load_segment_step [OF ok' less.prems(2) idx, of "(round s junk)\<lparr>eo_padding := 0\<rparr>", unfolded segment_state]
  show ?case
  proof (cases "loads info i n")
    case Nil
    let ?e = "next_state ?st n n False"
    obtain out where out: "load_segment ?i ((round s junk)\<lparr>eo_padding := 0\<rparr>) = Some (?e, out)" "eo_info out = Some (info\<lparr>ei_load_state := ?e\<rparr>)"
      "eo_da out = RPROC_LOAD_ANYADDR" "eo_nlen out = 0"
      using step Nil by auto
    have "load_data le po ops elf_ops junk s = Some (Inr (), s\<lparr>ds_info := eo_info out, ds_last := ?e\<rparr>)"
      using load_data_stop [of le s junk ?e out] call out next_state_nonneg [OF less.prems(4)] by simp
    then show ?thesis
      using Nil out(2) next_state_hdrs [of ?st n n False] less.prems(7) by (auto simp: data_done_def placed_def)
  next
    case (Cons j js)
    let ?e = "next_state ?st (Suc j) n True" and ?sg = "segment info j"
    obtain out where out: "load_segment ?i ((round s junk)\<lparr>eo_padding := 0\<rparr>) = Some (?e, out)" "eo_info out = Some (info\<lparr>ei_load_state := ?e\<rparr>)"
      "\<lparr>so_da = eo_da out, so_noffset = eo_noffset out, so_nfsize = eo_nlen out, so_nmsize = eo_nmemsize out\<rparr> = seg_result ?sg"
      "eo_padding out = 0"
      using step Cons by auto
    have j: "j < n" "i \<le> j" "js = loads info (Suc j) n" using next_segment [OF ok(1) less.prems(2)] Cons by auto
    have "j \<in> set (loads info i n)" using Cons by simp
    then have load: "sg_type ?sg = PT_LOAD" by (simp add: loads_def)
    note pl = less.prems(1) [OF j(1) load]
    have fields: "eo_da out = sg_paddr ?sg" "eo_noffset out = sg_offset ?sg" "eo_nlen out = sg_filesz ?sg" "eo_nmemsize out = sg_memsz ?sg"
      using out(3) by (simp_all add: seg_result_def)
    let ?r = "(ds_rproc s)\<lparr>rp_mem := mem_write (rp_mem (ds_rproc s)) (seg_va ?sg (pm j) (io j)) (seg_bytes bs ?sg)\<rparr>"
    obtain img st' where ps: "place_segment po ops out (ds_io s) (ds_rproc s) (ds_store s) = Some (Inr (), img, Some (io j), ?r, st')"
      using place_segment_ok [OF pl store fields out(4)] by blast
    have nn: "0 \<le> ?e" by (rule next_state_nonneg [OF less.prems(4)])
    have da: "eo_da out \<noteq> RPROC_LOAD_ANYADDR" using pl fields(1) by (simp add: placeable_def)
    let ?s = "s\<lparr>ds_info := eo_info out, ds_last := ?e, ds_img := img, ds_io := Some (io j), ds_rproc := ?r, ds_store := st'\<rparr>"
    have nxt: "load_data le po ops elf_ops junk s = load_data le po ops elf_ops 0 ?s"
      using load_data_next [of le s junk ?e out po ops img "Some (io j)" ?r st'] call out(1,4) nn da ps by simp
    have hdrs: "?e AND ELF_STATE_HDRS_COMPLETE \<noteq> 0" using next_state_hdrs [of ?st "Suc j" n True] less.prems(7) by simp
    have "data_done bs info pm io js ?r (load_data le po ops elf_ops 0 ?s)"
    proof (cases "Suc j = n")
      case True
      have fl: "?e AND RPROC_LOADER_READY_TO_LOAD = 0" "?e AND RPROC_LOADER_POST_DATA_LOAD \<noteq> 0"
        using next_state_flag [of RPROC_LOADER_READY_TO_LOAD ?st "Suc j" n True]
          next_state_flag [of RPROC_LOADER_POST_DATA_LOAD ?st "Suc j" n True] True by simp_all
      obtain st'' o' where post: "elf_load (can_alloc le) (ds_img ?s) (ds_offset ?s) (ds_len ?s) ?e ((round ?s 0)\<lparr>eo_info := Some (info\<lparr>ei_load_state := ?e\<rparr>)\<rparr>)
          = Some (st'', o')" "0 \<le> st''" "eo_info o' = Some (info\<lparr>ei_load_state := ?e, ei_load_state := st''\<rparr>)" "eo_da o' = RPROC_LOAD_ANYADDR"
        "eo_nlen o' = 0" "st'' AND ELF_STATE_HDRS_COMPLETE \<noteq> 0"
        using load_post_complete [OF fl hdrs _ nn, of "info\<lparr>ei_load_state := ?e\<rparr>" "can_alloc le" "ds_img ?s" "ds_offset ?s" "ds_len ?s" "round ?s 0"]
        by auto
      have "js = []" using j(3) True by (simp add: loads_def)
      moreover have "load_data le po ops elf_ops 0 ?s = Some (Inr (), ?s\<lparr>ds_info := eo_info o', ds_last := st''\<rparr>)"
        using load_data_stop [of le ?s 0 st'' o'] post out(2) by simp
      ultimately show ?thesis using post(3,6) by (auto simp: data_done_def placed_def)
    next
      case False
      then have "Suc j \<le> n" "n - Suc j < n - i" using j by auto
      moreover have "?e AND ELF_NEXT_SEGMENT_MASK = int (Suc j)" using next_state_index [of "Suc j"] j(1) ok(2) by simp
      moreover have "?e AND RPROC_LOADER_READY_TO_LOAD \<noteq> 0"
        using next_state_flag [of RPROC_LOADER_READY_TO_LOAD ?st "Suc j" n True] False less.prems(6) by simp
      ultimately show ?thesis
        using less.hyps [of "Suc j" ?s 0] less.prems(1) out(2) nn hdrs j(3) by simp
    qed
    then show ?thesis unfolding nxt Cons by (auto simp: data_done_def placed_def)
  qed
qed


section \<open>The whole load\<close>

lemma find_rsc_none:
  assumes "ei_load_state i AND ELF_STATE_HDRS_COMPLETE \<noteq> 0" and "elf_get_section_from_name i rsc_section_name = Some None"
  shows "find_rsc_table le po ops elf_ops (Some i) da off sz r st = Some (NULL, da, 0, r, st)"
  using assms by (simp add: find_rsc_table_def elf_ops_def elf_locate_rsc_table_def)

lemma section_state: "elf_get_section_from_name (i\<lparr>ei_load_state := st\<rparr>) name = elf_get_section_from_name i name"
  by (cases "ei_shdrs i"; cases "ei_shstrtab i") (simp_all add: elf_get_section_from_name_def)

lemma load_image_ok:
  assumes image: "elf_image bs info" and served: "serves ops bs" "stores ops bs" and alloc: "\<And>n. le_malloc le n \<noteq> NULL"
    and len: "5 \<le> unat len" "unat len \<le> length bs"
    and ph: "phdrs_ok info n" "n \<le> 255"
    and segs: "\<And>j. j < n \<Longrightarrow> sg_type (segment info j) = PT_LOAD \<Longrightarrow> placeable bs (rp_mems r) (segment info j) (pm j) (io j)"
    and none: "elf_get_section_from_name info rsc_section_name = Some None" and entry: "elf_get_entry (Some info) = Some e"
  shows "\<exists>info' st'. load_image le po ops elf_ops junk (Some (take (unat len) bs)) len r st
    = Some (Inr (), info', r\<lparr>rp_mem := placed bs info pm io (loads info 0 n) (rp_mem r), rp_bootaddr := e, rp_state := RPROC_READY\<rparr>, st')"
proof -
  let ?h0 = "\<lparr>hs_img = Some (take (unat len) bs), hs_offset = 0, hs_len = len, hs_info = None,
      hs_last = RPROC_LOADER_NOT_READY, hs_noffset = 0, hs_nlen = 0, hs_mem = rp_mem r, hs_store = st\<rparr>"
  have fin: "ei_load_state info = ELF_STATE_HDRS_COMPLETE OR RPROC_LOADER_READY_TO_LOAD" using image by (simp add: elf_image_def)
  obtain h where h: "load_headers le ops elf_ops ?h0 = Some (Inr (), h)" "hs_info h = Some info"
    "hs_last h = ei_load_state info" "hs_mem h = rp_mem r"
    using headers_loaded [OF image served(1) alloc len, of "rp_mem r" st] unfolding headers_done_def by blast
  let ?d0 = "\<lparr>ds_img = hs_img h, ds_offset = 0, ds_len = 0, ds_info = hs_info h, ds_last = hs_last h, ds_io = None,
     ds_rproc = r, ds_store = hs_store h\<rparr>"
  have same: "info\<lparr>ei_load_state := ei_load_state info\<rparr> = info" by simp
  have "data_done bs info pm io (loads info 0 n) (ds_rproc ?d0) (load_data le po ops elf_ops junk ?d0)"
    using segs h(2,3) fin same by (intro load_data_from [OF ph served(2)]) simp_all
  then obtain d s' where d: "load_data le po ops elf_ops junk ?d0 = Some (Inr (), d)" "ds_info d = Some (info\<lparr>ei_load_state := s'\<rparr>)"
    "s' AND ELF_STATE_HDRS_COMPLETE \<noteq> 0" "ds_rproc d = r\<lparr>rp_mem := placed bs info pm io (loads info 0 n) (rp_mem r)\<rparr>"
    unfolding data_done_def by auto
  have rsc1: "find_rsc_table le po ops elf_ops (Some info) 0 off 0 r' st' = Some (NULL, 0, 0, r', st')" for off r' st'
    by (rule find_rsc_none) (simp_all add: fin none)
  have rsc2: "find_rsc_table le po ops elf_ops (Some (info\<lparr>ei_load_state := s'\<rparr>)) 0 off 0 r' st' = Some (NULL, 0, 0, r', st')" for off r' st'
    by (rule find_rsc_none) (use d(3) none in \<open>simp_all add: section_state\<close>)
  have ent: "lo_get_entry elf_ops (Some (info\<lparr>ei_load_state := s'\<rparr>)) = Some e"
    using entry by (cases "elf_is_64 (ei_ehdr info)") (auto simp: elf_ops_def elf_get_entry_def split: if_splits)
  have r: "r\<lparr>rp_mem := rp_mem r\<rparr> = r" by simp
  show ?thesis
    using h d rsc1 rsc2 ent r by (simp add: load_image_def update_rsc_table_def)
qed


text \<open>
  C21: loading a well-formed ELF image without resource table from a store that serves it: the call
  succeeds, the memory of the remote holds every loadable segment at the place its physical address
  is mapped to, its bytes from the file followed by zeros up to its size in memory and written in
  the order of the program headers, the boot address is the entry of the image, the processor is
  ready, nothing else of it has changed and the lock is free.
\<close>

theorem load_places_image:
  assumes image: "elf_image bs info" and served: "serves ops bs" "stores ops bs" and alloc: "\<And>n. le_malloc le n \<noteq> NULL"
    and len: "5 \<le> unat (len :: u64)" "unat len \<le> length bs" and magic: "take 4 bs = ELFMAG"
    and opened: "is_open ops st path = (int (unat len), Some (take (unat len) bs), st1)"
    and loader: "le_elf_ops le \<noteq> NULL" "le_loader_at le (le_elf_ops le) = Some elf_ops"
    and r: "rp_state r = RPROC_READY \<or> rp_state r = RPROC_CONFIGURED" "\<not> rp_lock r" "rp_loader r = NULL"
    and ph: "phdrs_ok info n" "n \<le> 255"
    and segs: "\<And>j. j < n \<Longrightarrow> sg_type (segment info j) = PT_LOAD \<Longrightarrow> placeable bs (rp_mems r) (segment info j) (pm j) (io j)"
    and none: "elf_get_section_from_name info rsc_section_name = Some None" and entry: "elf_get_entry (Some info) = Some e"
  shows "\<exists>info' st'. remoteproc_load le po (Some ops) path junk keep (Some r) st
    = Some (0, info', Some (r\<lparr>rp_loader := le_elf_ops le,
        rp_mem := placed bs info pm io (filter (\<lambda>j. sg_type (segment info j) = PT_LOAD) [0..<n]) (rp_mem r),
        rp_bootaddr := e, rp_state := RPROC_READY\<rparr>), is_close ops st')"
proof -
  let ?r = "r\<lparr>rp_lock := True, rp_loader := le_elf_ops le\<rparr>"
  have nz: "len \<noteq> 0" "\<not> len < 4" using len(1) by (auto simp: word_less_nat_alt)
  have "take 4 (take (unat len) bs) = ELFMAG" "4 \<le> length (take (unat len) bs)" using magic len by (simp_all add: min_def)
  then have fmt: "remoteproc_check_fw_format le (Some (take (unat len) bs)) len = Some (le_elf_ops le)"
    using nz by (simp add: remoteproc_check_fw_format_def elf_identify_def)
  obtain info' st' where img: "load_image le po ops elf_ops junk (Some (take (unat len) bs)) len ?r st1
    = Some (Inr (), info', ?r\<lparr>rp_mem := placed bs info pm io (loads info 0 n) (rp_mem ?r), rp_bootaddr := e, rp_state := RPROC_READY\<rparr>, st')"
    using load_image_ok [OF image served alloc len ph _ none entry, of ?r pm io po junk st1] segs by auto
  have acq: "rp_acquire r = Some (r\<lparr>rp_lock := True\<rparr>)" using r(2) by (simp add: rp_acquire_def)
  have freed: "rp_release (?r\<lparr>rp_mem := m, rp_bootaddr := e, rp_state := RPROC_READY\<rparr>)
      = r\<lparr>rp_loader := le_elf_ops le, rp_mem := m, rp_bootaddr := e, rp_state := RPROC_READY\<rparr>" for m
    using r(2) by (cases r) (simp add: rp_release_def)
  have pos: "\<not> int (unat len) \<le> 0" "word_of_int (int (unat len)) = len" using len(1) nz(1) by (simp_all add: uint_0_iff)
  have run: "remoteproc_load le po (Some ops) path junk keep (Some r) st
    = Some (0, if keep then info' else lo_release elf_ops info',
        Some (rp_release (?r\<lparr>rp_mem := placed bs info pm io (loads info 0 n) (rp_mem ?r), rp_bootaddr := e, rp_state := RPROC_READY\<rparr>)), is_close ops st')"
    using acq r(1,3) opened pos fmt loader img
    by (simp only: remoteproc_load_def) (auto simp: Let_def)
  show ?thesis unfolding run freed loads_def by (intro exI) simp
qed

section \<open>Errors\<close>

text \<open>
  \<open>remoteproc_load_noblock\<close> can report success for a load that failed: when all of the image is
  loaded and no region maps the resource table, the call returns 0, but it has released the image
  information, so the caller's pointer is left dangling and the boot address is not set.
\<close>

theorem noblock_unmapped_rsc:
  assumes r: "rp_state r = RPROC_READY" "\<not> rp_lock r" "rp_loader r = lp" "lp \<noteq> NULL" "le_loader_at le lp = Some elf_ops"
    and st: "ei_load_state i = ELF_STATE_HDRS_COMPLETE OR RPROC_LOADER_LOAD_COMPLETE"
    and rsc: "elf_locate_rsc_table (Some i) 0 0 0 = Some (0, da, off, sz)" "0 < sz" "le_malloc le sz \<noteq> NULL"
    and unmapped: "rp_mems r = []" "po_get_mem po = None" "po_mmap po = None" "nb_io s = None"
  shows "\<exists>t. remoteproc_load_noblock le po img offset len (Some (Info i)) s (Some r) = Some (0, Some Freed, t, Some r)"
proof -
  let ?r = "r\<lparr>rp_lock := True, rp_loader := lp\<rparr>"
  let ?s = "s\<lparr>nb_info := Some i, nb_last := ei_load_state i, nb_nlen := 0, nb_rproc := ?r\<rparr>"
  have acq: "rp_acquire r = Some (r\<lparr>rp_lock := True\<rparr>)" using r(2) by (simp add: rp_acquire_def)
  have rel: "rp_release ?r = r" using r(2,3) by (cases r) (simp add: rp_release_def)
  have h: "nb_headers le elf_ops img offset len ?s = Some (Go, ?s)" and d: "nb_data le po elf_ops img offset len ?s = Some (Go, ?s)"
    using st by (simp_all add: nb_headers_def nb_data_def)
  have mm: "remoteproc_mmap po ?r None (Some da) sz 0 None = Some (NULL, None, Some da, None, ?r)"
    using unmapped rsc(2) by (simp add: remoteproc_mmap_def remoteproc_get_mem_def)
  have "nb_rsc_table le po da sz ?s = Some (Error1 0, ?s\<lparr>nb_io := None, nb_rproc := ?r\<rparr>)"
    using rsc(3) mm unmapped(4) by (simp add: nb_rsc_table_def Let_def)
  then have c: "nb_complete le po elf_ops ?s = Some (Error1 0, ?s\<lparr>nb_io := None, nb_rproc := ?r\<rparr>)"
    using st rsc(1,2) by (simp add: nb_complete_def elf_ops_def)
  have ls: "lo_get_load_state elf_ops (Some i) = ei_load_state i" "\<not> ei_load_state i < 0"
    using st by (simp_all add: elf_ops_def elf_get_load_state_def)
  have all: "nb_then (nb_then (nb_headers le elf_ops img offset len ?s) (nb_data le po elf_ops img offset len)) (nb_complete le po elf_ops)
      = Some (Error1 0, ?s\<lparr>nb_io := None, nb_rproc := ?r\<rparr>)"
    unfolding nb_then_def h by (simp add: d c)
  show ?thesis
    using acq r(1,3,4,5) all rel ls by (simp add: remoteproc_load_noblock_def)
qed

section \<open>A concrete load\<close>

definition demo_store :: "unit image_store_ops" where
  "demo_store = \<lparr>is_open = \<lambda>st path. (16, Some (take 16 demo_elf), ()), is_close = \<lambda>st. (),
     is_load = \<lambda>st off n pa io m. (int (unat n), Some (take (unat n) (drop (unat off) demo_elf)), (),
       case io of None \<Rightarrow> m | Some reg \<Rightarrow>
         (case metal_io_phys_to_virt reg pa of None \<Rightarrow> m | Some va \<Rightarrow> mem_write m va (take (unat n) (drop (unat off) demo_elf)))),
     is_features = 1\<rparr>"

definition demo_le :: load_env where
  "demo_le = \<lparr>le_malloc = \<lambda>_. 0x9000, le_loader_at = \<lambda>_. Some elf_ops, le_elf_ops = 0xE00\<rparr>"

lemma demo_serves: "serves demo_store demo_elf" "stores demo_store demo_elf"
  by (simp_all add: serves_def stores_def demo_store_def)

theorem headers_any_window_witness:
  "\<exists>h. load_headers demo_le demo_store elf_ops \<lparr>hs_img = Some (take 16 demo_elf), hs_offset = 0, hs_len = 16, hs_info = None,
      hs_last = RPROC_LOADER_NOT_READY, hs_noffset = 0, hs_nlen = 0, hs_mem = (\<lambda>_. 0), hs_store = ()\<rparr> = Some (Inr (), h)
    \<and> hs_info h = Some demo_info"
proof -
  have "le_malloc demo_le n \<noteq> NULL" for n by (simp add: demo_le_def)
  moreover have "5 \<le> unat (16 :: u64)" "unat (16 :: u64) \<le> length demo_elf" "take (unat (16 :: u64)) demo_elf = take 16 demo_elf"
    by (simp_all add: demo_elf_def)
  ultimately show ?thesis
    using headers_any_window [OF demo_image demo_serves(1), of demo_le 16 "\<lambda>_. 0" "()"] by fastforce
qed


text \<open>A processor whose memory at device address 0x8000 is mapped by the region at 0x1000.\<close>

definition demo_load_pm :: remoteproc_mem where
  "demo_load_pm = \<lparr>pm_da = 0x8000, pm_pa = 0x4000, pm_size = 0x1000, pm_name = [], pm_io = Some demo_io\<rparr>"

definition demo_load_rp :: remoteproc where
  "demo_load_rp = demo_rp\<lparr>rp_lock := False, rp_mems := [demo_load_pm], rp_state := RPROC_READY, rp_loader := NULL\<rparr>"

lemma demo_placeable: "placeable demo_elf (rp_mems demo_load_rp) (segment demo_info 0) demo_load_pm demo_io"
proof -
  have "length demo_elf = 125" by (simp add: demo_elf_def)
  moreover have "\<exists>before rest. rp_mems demo_load_rp = before @ demo_load_pm # rest
      \<and> (\<forall>q \<in> set before. \<not> covers (pm_da q) (pm_size q) (sg_paddr (segment demo_info 0)) (sg_memsz (segment demo_info 0)))"
    by (intro exI [of _ "[]"]) (simp add: demo_load_rp_def)
  ultimately show ?thesis
    unfolding placeable_def demo_phdrs(2)
    by (simp add: demo_load_pm_def covers_def demo_io_def single_page_def no_ops_def)
qed

theorem load_places_image_witness:
  "\<exists>info' st'. remoteproc_load demo_le demo_ops (Some demo_store) [] 0 True (Some demo_load_rp) ()
    = Some (0, info', Some (demo_load_rp\<lparr>rp_loader := 0xE00,
        rp_mem := mem_write (rp_mem demo_load_rp) 0x1000 ([0x7F, 0x45, 0x4C, 0x46, 1, 1, 1, 0] @ replicate 8 0),
        rp_bootaddr := 0x8000, rp_state := RPROC_READY\<rparr>), st')"
proof -
  have len: "5 \<le> unat (16 :: u64)" "unat (16 :: u64) \<le> length demo_elf" "take 4 demo_elf = ELFMAG"
    by (simp_all add: demo_elf_def ELFMAG_def) (simp add: demo_ehdr_def)
  have opened: "is_open demo_store () [] = (int (unat (16 :: u64)), Some (take (unat (16 :: u64)) demo_elf), ())"
    by (simp add: demo_store_def)
  have le: "le_elf_ops demo_le \<noteq> NULL" "le_loader_at demo_le (le_elf_ops demo_le) = Some elf_ops" "le_malloc demo_le n \<noteq> NULL" for n
    by (simp_all add: demo_le_def)
  have rp: "rp_state demo_load_rp = RPROC_READY \<or> rp_state demo_load_rp = RPROC_CONFIGURED" "\<not> rp_lock demo_load_rp" "rp_loader demo_load_rp = NULL"
    by (simp_all add: demo_load_rp_def)
  have seg: "placeable demo_elf (rp_mems demo_load_rp) (segment demo_info j) demo_load_pm demo_io"
    if "j < 1" "sg_type (segment demo_info j) = PT_LOAD" for j
    using that demo_placeable by simp
  have none: "elf_get_section_from_name demo_info rsc_section_name = Some None"
    by (simp add: elf_get_section_from_name_def demo_info_def demo_class demo_ehdr_fields rsc_section_name_def)
      (simp add: demo_shdr_def of_le32_def)
  have entry: "elf_get_entry (Some demo_info) = Some 0x8000"
    by (simp add: elf_get_entry_def demo_info_def demo_class Elf32_Ehdr_at_def) (simp add: demo_ehdr_def of_le32_def)
  have bytes: "placed demo_elf demo_info (\<lambda>_. demo_load_pm) (\<lambda>_. demo_io) (filter (\<lambda>j. sg_type (segment demo_info j) = PT_LOAD) [0..<1]) m
      = mem_write m 0x1000 ([0x7F, 0x45, 0x4C, 0x46, 1, 1, 1, 0] @ replicate 8 0)" for m
    by (simp add: placed_def demo_phdrs(2) seg_va_def seg_bytes_def demo_load_pm_def demo_io_def demo_elf_def)
      (simp add: demo_ehdr_def)
  have el: "le_elf_ops demo_le = 0xE00" by (simp add: demo_le_def)
  have one: "(1 :: nat) \<le> 255" by simp
  have "\<exists>info' st'. remoteproc_load demo_le demo_ops (Some demo_store) [] 0 True (Some demo_load_rp) ()
    = Some (0, info', Some (demo_load_rp\<lparr>rp_loader := le_elf_ops demo_le,
        rp_mem := placed demo_elf demo_info (\<lambda>_. demo_load_pm) (\<lambda>_. demo_io)
          (filter (\<lambda>j. sg_type (segment demo_info j) = PT_LOAD) [0..<1]) (rp_mem demo_load_rp),
        rp_bootaddr := 0x8000, rp_state := RPROC_READY\<rparr>), is_close demo_store st')"
    by (rule load_places_image [OF demo_image demo_serves le(3) len opened le(1,2) rp demo_phdrs(1) one seg none entry])
  then show ?thesis unfolding bytes el by blast
qed


text \<open>A loaded image whose only section is a resource table of 32 bytes at device address 0x8000.\<close>

definition demo_rsc_info :: elf_info where
  "demo_rsc_info = \<lparr>ei_ehdr = demo_ehdr, ei_load_state = ELF_STATE_HDRS_COMPLETE OR RPROC_LOADER_LOAD_COMPLETE,
     ei_phdrs = Some demo_phdr,
     ei_shdrs = Some [0, 0, 0, 0, 1, 0, 0, 0, 0, 0, 0, 0, 0, 128, 0, 0, 64, 0, 0, 0, 32, 0, 0, 0, 0, 0, 0, 0, 0, 0, 0, 0, 4, 0, 0, 0, 0, 0, 0, 0],
     ei_shstrtab = Some (rsc_section_name @ [0])\<rparr>"

lemma demo_rsc_locate: "elf_locate_rsc_table (Some demo_rsc_info) 0 0 0 = Some (0, 0x8000, 64, 32)"
  by (simp add: elf_locate_rsc_table_def demo_rsc_info_def elf_get_section_from_name_def demo_class demo_ehdr_fields
      rsc_section_name_def of_le32_def elf_parse_section_def Elf32_Shdr_at_def)

definition demo_nb :: nb_state where
  "demo_nb = \<lparr>nb_pa = 0, nb_io = None, nb_noffset = 0, nb_nlen = 0, nb_nmlen = 0, nb_padding = 0, nb_info = None,
     nb_last = 0, nb_rproc = demo_load_rp\<rparr>"

theorem noblock_unmapped_rsc_witness:
  "\<exists>t. remoteproc_load_noblock demo_le demo_ops None 0 0 (Some (Info demo_rsc_info)) demo_nb
      (Some (demo_load_rp\<lparr>rp_loader := 0xE00, rp_mems := []\<rparr>))
    = Some (0, Some Freed, t, Some (demo_load_rp\<lparr>rp_loader := 0xE00, rp_mems := []\<rparr>))"
  by (rule noblock_unmapped_rsc [where lp = "0xE00", OF _ _ _ _ _ _ demo_rsc_locate])
    (simp_all add: demo_load_rp_def demo_rp_def demo_le_def demo_rsc_info_def demo_nb_def demo_ops_def)

end
