(* ===== verification/Virtio_Mmio.thy ===== *)
theory Virtio_Mmio
  imports Rproc_Virtio
begin

unbundle bit_operations_syntax

text \<open>
  \<^verbatim>\<open>src/openamp/open-amp/lib/virtio_mmio/virtio_mmio_drv.c\<close>: the virtio transport over memory-mapped
  registers. The registers lie in the configuration region of byte memory. The device behind them is
  not part of the library: \<open>react\<close> is what it makes of the memory when a register is written, given
  the offset and the value. Virtqueues are objects of their own that several entries of the array of
  vrings may point to: \<open>mm_vqs\<close> maps their addresses to the control block and the ring it describes.
  The calls of the callbacks are recorded in \<open>mm_calls\<close> with their argument, the newest last.
\<close>

section \<open>Data\<close>

abbreviation (input) VIRTIO_MMIO_MAGIC_VALUE :: u64 where "VIRTIO_MMIO_MAGIC_VALUE \<equiv> 0x000"
abbreviation (input) VIRTIO_MMIO_MAGIC_VALUE_STRING :: u32 where "VIRTIO_MMIO_MAGIC_VALUE_STRING \<equiv> 0x74726976"
abbreviation (input) VIRTIO_MMIO_VERSION :: u64 where "VIRTIO_MMIO_VERSION \<equiv> 0x004"
abbreviation (input) VIRTIO_MMIO_DEVICE_ID :: u64 where "VIRTIO_MMIO_DEVICE_ID \<equiv> 0x008"
abbreviation (input) VIRTIO_MMIO_VENDOR_ID :: u64 where "VIRTIO_MMIO_VENDOR_ID \<equiv> 0x00c"
abbreviation (input) VIRTIO_MMIO_DEVICE_FEATURES :: u64 where "VIRTIO_MMIO_DEVICE_FEATURES \<equiv> 0x010"
abbreviation (input) VIRTIO_MMIO_DEVICE_FEATURES_SEL :: u64 where "VIRTIO_MMIO_DEVICE_FEATURES_SEL \<equiv> 0x014"
abbreviation (input) VIRTIO_MMIO_DRIVER_FEATURES :: u64 where "VIRTIO_MMIO_DRIVER_FEATURES \<equiv> 0x020"
abbreviation (input) VIRTIO_MMIO_GUEST_PAGE_SIZE :: u64 where "VIRTIO_MMIO_GUEST_PAGE_SIZE \<equiv> 0x028"
abbreviation (input) VIRTIO_MMIO_QUEUE_SEL :: u64 where "VIRTIO_MMIO_QUEUE_SEL \<equiv> 0x030"
abbreviation (input) VIRTIO_MMIO_QUEUE_NUM_MAX :: u64 where "VIRTIO_MMIO_QUEUE_NUM_MAX \<equiv> 0x034"
abbreviation (input) VIRTIO_MMIO_QUEUE_NUM :: u64 where "VIRTIO_MMIO_QUEUE_NUM \<equiv> 0x038"
abbreviation (input) VIRTIO_MMIO_QUEUE_ALIGN :: u64 where "VIRTIO_MMIO_QUEUE_ALIGN \<equiv> 0x03c"
abbreviation (input) VIRTIO_MMIO_QUEUE_PFN :: u64 where "VIRTIO_MMIO_QUEUE_PFN \<equiv> 0x040"
abbreviation (input) VIRTIO_MMIO_QUEUE_NOTIFY :: u64 where "VIRTIO_MMIO_QUEUE_NOTIFY \<equiv> 0x050"
abbreviation (input) VIRTIO_MMIO_INTERRUPT_STATUS :: u64 where "VIRTIO_MMIO_INTERRUPT_STATUS \<equiv> 0x060"
abbreviation (input) VIRTIO_MMIO_INTERRUPT_ACK :: u64 where "VIRTIO_MMIO_INTERRUPT_ACK \<equiv> 0x064"
abbreviation (input) VIRTIO_MMIO_STATUS :: u64 where "VIRTIO_MMIO_STATUS \<equiv> 0x070"
abbreviation (input) VIRTIO_MMIO_CONFIG :: u64 where "VIRTIO_MMIO_CONFIG \<equiv> 0x100"
abbreviation (input) VIRTIO_MMIO_INT_VRING :: u32 where "VIRTIO_MMIO_INT_VRING \<equiv> 1"
abbreviation (input) VIRTIO_CONFIG_STATUS_ACK :: u8 where "VIRTIO_CONFIG_STATUS_ACK \<equiv> 1"
abbreviation (input) VIRTIO_MMIO_VRING_ALIGNMENT :: u32 where "VIRTIO_MMIO_VRING_ALIGNMENT \<equiv> 4096"
abbreviation (input) ENODEV :: int where "ENODEV \<equiv> 19"

type_synonym reaction = "u64 \<Rightarrow> u32 \<Rightarrow> mem \<Rightarrow> mem"

record virtio_mmio_dev_mem =
  dm_base :: addr
  dm_size :: u64

text \<open>Of the vring descriptions this transport only uses the queue pointers; \<open>None\<close> is a NULL array.\<close>

record virtio_mmio_device = virtio_device +
  mm_vrings_num :: u32
  mm_vrings_info :: "addr list option"
  mm_cfg_io :: metal_io_region
  mm_shm_io :: metal_io_region
  mm_cfg_mem :: virtio_mmio_dev_mem
  mm_shm_mem :: virtio_mmio_dev_mem
  mm_device_mode :: u32
  mm_irq :: u32
  mm_user_data :: addr
  mm_mem :: mem
  mm_vqs :: "addr \<Rightarrow> (virtqueue \<times> vring_mem) option"
  mm_calls :: "(addr \<times> addr) list"

section \<open>Registers\<close>

definition virtio_mmio_write32 :: "reaction \<Rightarrow> virtio_mmio_device \<Rightarrow> u64 \<Rightarrow> u32 \<Rightarrow> virtio_mmio_device option" where
  "virtio_mmio_write32 react v offset value = do {
     m \<leftarrow> metal_io_write32 (mm_mem v) (mm_cfg_io v) offset value;
     Some (v\<lparr>mm_mem := react offset value m\<rparr>)
   }"

definition virtio_mmio_read32 :: "virtio_mmio_device \<Rightarrow> u64 \<Rightarrow> u32 option" where
  "virtio_mmio_read32 v offset = metal_io_read32 (mm_mem v) (mm_cfg_io v) offset"

definition virtio_mmio_read8 :: "virtio_mmio_device \<Rightarrow> u64 \<Rightarrow> u8 option" where
  "virtio_mmio_read8 v offset = metal_io_read8 (mm_mem v) (mm_cfg_io v) offset"

definition virtio_mmio_set_status :: "reaction \<Rightarrow> virtio_mmio_device \<Rightarrow> u8 \<Rightarrow> virtio_mmio_device option" where
  "virtio_mmio_set_status react v status = virtio_mmio_write32 react v VIRTIO_MMIO_STATUS (ucast status)"

definition virtio_mmio_get_status :: "virtio_mmio_device \<Rightarrow> u8 option" where
  "virtio_mmio_get_status v = map_option ucast (virtio_mmio_read32 v VIRTIO_MMIO_STATUS)"

text \<open>Writing the configuration is not supported: the function only logs.\<close>

definition virtio_mmio_write_config ::
  "virtio_mmio_device \<Rightarrow> u32 \<Rightarrow> u8 list \<Rightarrow> int \<Rightarrow> virtio_mmio_device option" where
  "virtio_mmio_write_config v offset src len = Some v"

text \<open>The offset is ignored: every read starts at the first byte of the space.\<close>

fun read_config_from :: "virtio_mmio_device \<Rightarrow> nat \<Rightarrow> nat \<Rightarrow> u8 list option" where
  "read_config_from v 0 i = Some []"
| "read_config_from v (Suc k) i = do {
     x \<leftarrow> virtio_mmio_read8 v (VIRTIO_MMIO_CONFIG + of_nat i);
     xs \<leftarrow> read_config_from v k (Suc i);
     Some (x # xs)
   }"

definition virtio_mmio_read_config :: "virtio_mmio_device \<Rightarrow> u32 \<Rightarrow> int \<Rightarrow> u8 list option" where
  "virtio_mmio_read_config v offset len = read_config_from v (nat len) 0"

definition virtio_mmio_get_features_idx ::
  "reaction \<Rightarrow> virtio_mmio_device \<Rightarrow> u32 \<Rightarrow> (u32 \<times> virtio_mmio_device) option" where
  "virtio_mmio_get_features_idx react v idx = do {
     v1 \<leftarrow> virtio_mmio_write32 react v VIRTIO_MMIO_DEVICE_FEATURES_SEL idx;
     hfeatures \<leftarrow> virtio_mmio_read32 v1 VIRTIO_MMIO_DEVICE_FEATURES;
     Some (ucast (ucast hfeatures AND vd_features v1), v1)
   }"

definition virtio_mmio_get_features :: "reaction \<Rightarrow> virtio_mmio_device \<Rightarrow> (u32 \<times> virtio_mmio_device) option" where
  "virtio_mmio_get_features react v = virtio_mmio_get_features_idx react v 0"

definition virtio_mmio_set_features_idx ::
  "reaction \<Rightarrow> virtio_mmio_device \<Rightarrow> u32 \<Rightarrow> u32 \<Rightarrow> virtio_mmio_device option" where
  "virtio_mmio_set_features_idx react v features idx = do {
     v1 \<leftarrow> virtio_mmio_write32 react v VIRTIO_MMIO_DEVICE_FEATURES_SEL idx;
     hfeatures \<leftarrow> virtio_mmio_read32 v1 VIRTIO_MMIO_DEVICE_FEATURES;
     let features = features AND hfeatures;
     v2 \<leftarrow> virtio_mmio_write32 react v1 VIRTIO_MMIO_DRIVER_FEATURES features;
     Some (v2\<lparr>vd_features := ucast features\<rparr>)
   }"

definition virtio_mmio_set_features :: "reaction \<Rightarrow> virtio_mmio_device \<Rightarrow> u32 \<Rightarrow> virtio_mmio_device option" where
  "virtio_mmio_set_features react v features = virtio_mmio_set_features_idx react v features 0"

definition virtio_mmio_reset_device :: "reaction \<Rightarrow> virtio_mmio_device \<Rightarrow> virtio_mmio_device option" where
  "virtio_mmio_reset_device react v = virtio_mmio_set_status react v 0"

definition virtio_mmio_notify :: "reaction \<Rightarrow> virtqueue \<Rightarrow> virtio_mmio_device \<Rightarrow> virtio_mmio_device option" where
  "virtio_mmio_notify react vq v =
     virtio_mmio_write32 react v VIRTIO_MMIO_QUEUE_NOTIFY (ucast (vq_queue_index vq))"

definition virtio_mmio_get_max_elem ::
  "reaction \<Rightarrow> virtio_mmio_device \<Rightarrow> u32 \<Rightarrow> (u32 \<times> virtio_mmio_device) option" where
  "virtio_mmio_get_max_elem react v idx = do {
     v1 \<leftarrow> virtio_mmio_write32 react v VIRTIO_MMIO_QUEUE_SEL idx;
     maxq \<leftarrow> virtio_mmio_read32 v1 VIRTIO_MMIO_QUEUE_NUM_MAX;
     Some (maxq, v1)
   }"

section \<open>Devices\<close>

definition virtio_mmio_get_metal_io ::
  "(metal_io_region \<Rightarrow> metal_io_region) \<Rightarrow> virtio_mmio_device \<Rightarrow> addr \<Rightarrow> addr \<Rightarrow> virtio_mmio_device" where
  "virtio_mmio_get_metal_io mem_map v virt_mem_ptr cfg_mem_ptr =
     v\<lparr>mm_shm_io := metal_io_init mem_map virt_mem_ptr (Some [dm_base (mm_shm_mem v)])
                      (dm_size (mm_shm_mem v)) (- 1) 0 None,
       mm_cfg_io := metal_io_init mem_map cfg_mem_ptr (Some [dm_base (mm_cfg_mem v)])
                      (dm_size (mm_cfg_mem v)) (- 1) 0 None\<rparr>"

definition virtio_mmio_device_init ::
  "(metal_io_region \<Rightarrow> metal_io_region) \<Rightarrow> reaction \<Rightarrow> virtio_mmio_device \<Rightarrow> addr \<Rightarrow> addr \<Rightarrow> addr \<Rightarrow>
   (int \<times> virtio_mmio_device) option" where
  "virtio_mmio_device_init mem_map react v virt_mem_ptr cfg_mem_ptr user_data = do {
     let v1 = v\<lparr>vd_role := mm_device_mode v, mm_user_data := user_data\<rparr>;
     let v2 = virtio_mmio_get_metal_io mem_map v1 virt_mem_ptr cfg_mem_ptr;
     magic \<leftarrow> virtio_mmio_read32 v2 VIRTIO_MMIO_MAGIC_VALUE;
     if magic \<noteq> VIRTIO_MMIO_MAGIC_VALUE_STRING then Some (- 1, v2)
     else do {
       version \<leftarrow> virtio_mmio_read32 v2 VIRTIO_MMIO_VERSION;
       devid \<leftarrow> virtio_mmio_read32 v2 VIRTIO_MMIO_DEVICE_ID;
       if devid = 0 then Some (- 1, v2)
       else if version \<noteq> 1 then Some (- 1, v2)
       else do {
         vendor \<leftarrow> virtio_mmio_read32 v2 VIRTIO_MMIO_VENDOR_ID;
         let v3 = v2\<lparr>vd_id := \<lparr>id_device = devid, id_vendor = vendor, id_version = version\<rparr>\<rparr>;
         v4 \<leftarrow> virtio_mmio_set_status react v3 VIRTIO_CONFIG_STATUS_ACK;
         v5 \<leftarrow> virtio_mmio_write32 react v4 VIRTIO_MMIO_GUEST_PAGE_SIZE 4096;
         Some (0, v5)
       }
     }
   }"

text \<open>
  \<open>ok\<close> tells whether the allocation succeeds; its failure is not handled, so that the first store
  goes through NULL. A negative count makes no store.
\<close>

definition virtio_mmio_register_device ::
  "bool \<Rightarrow> virtio_mmio_device \<Rightarrow> int \<Rightarrow> addr list \<Rightarrow> virtio_mmio_device option" where
  "virtio_mmio_register_device ok v vq_num vqs = do {
     require (ok \<or> vq_num \<le> 0);
     require (nat vq_num \<le> length vqs);
     Some (v\<lparr>mm_vrings_info := (if ok then Some (take (nat vq_num) vqs) else None),
             mm_vrings_num := word_of_int vq_num\<rparr>)
   }"

section \<open>Virtqueues\<close>

text \<open>
  \<open>virtqueue_create\<close> is called with the queue only when it was configured before, else with NULL: the
  checks report that in a debug build, and without them NULL is dereferenced.
\<close>

definition mmio_queue_create ::
  "build \<Rightarrow> virtio_mmio_device \<Rightarrow> u32 \<Rightarrow> string \<Rightarrow> vring_alloc_info \<Rightarrow> addr \<Rightarrow> addr \<Rightarrow> bool \<Rightarrow> virtqueue \<Rightarrow>
   vring_mem \<Rightarrow> (int \<times> virtqueue \<times> vring_mem) option" where
  "mmio_queue_create b v idx name info callback notify configured q rm =
     (if configured then virtqueue_create b v (ucast idx) name info callback notify q rm
      else do {
        let status = VQ_PARAM_CHK b (ai_num_descs info = 0) VQUEUE_SUCCESS ERROR_VQUEUE_INVLD_PARAM;
        let status = VQ_PARAM_CHK b (ai_num_descs info AND (ai_num_descs info - 1) \<noteq> 0) status ERROR_VRING_ALIGN;
        let status = VQ_PARAM_CHK b True status ERROR_NO_MEM;
        require (status \<noteq> VQUEUE_SUCCESS);
        Some (status, q, rm)
      })"

definition vq_configured :: "virtqueue \<Rightarrow> bool" where
  "vq_configured q = (vq_nentries q \<noteq> 0 \<and> vq_nentries q = vq_free_cnt q \<and> vr_desc (vq_ring q) \<noteq> NULL)"

definition virtio_mmio_setup_virtqueue ::
  "build \<Rightarrow> reaction \<Rightarrow> addr \<Rightarrow> virtio_mmio_device \<Rightarrow> u32 \<Rightarrow> addr \<Rightarrow> addr \<Rightarrow> addr \<Rightarrow> string \<Rightarrow>
   (addr \<times> virtio_mmio_device) option" where
  "virtio_mmio_setup_virtqueue b react notify v idx vq cb cb_arg name =
     (if vd_role v \<noteq> VIRTIO_DEV_DRIVER then Some (NULL, v)
      else if vq = NULL then Some (NULL, v)
      else if id_version (vd_id v) \<noteq> 1 then Some (NULL, v)
      else do {
        (_, v1) \<leftarrow> virtio_mmio_get_max_elem react v idx;
        (q, rm) \<leftarrow> mm_vqs v1 vq;
        let info = \<lparr>ai_vaddr = (if vq_configured q then vr_desc (vq_ring q) else NULL),
                    ai_align = VIRTIO_MMIO_VRING_ALIGNMENT, ai_num_descs = vq_nentries q\<rparr>;
        (status, q1, rm1) \<leftarrow> mmio_queue_create b v1 idx name info cb notify (vq_configured q) q rm;
        if status \<noteq> 0 then Some (NULL, v1)
        else do {
          let q2 = virtqueue_set_shmem_io (q1\<lparr>vq_priv := cb_arg\<rparr>) (Some (mm_shm_io v1));
          let v2 = v1\<lparr>mm_vqs := (mm_vqs v1)(vq \<mapsto> (q2, rm1))\<rparr>;
          v3 \<leftarrow> virtio_mmio_write32 react v2 VIRTIO_MMIO_QUEUE_SEL idx;
          maxq \<leftarrow> virtio_mmio_read32 v3 VIRTIO_MMIO_QUEUE_NUM_MAX;
          require (maxq \<noteq> 0);
          require (ucast (vq_nentries q2) \<le> maxq);
          v4 \<leftarrow> virtio_mmio_write32 react v3 VIRTIO_MMIO_QUEUE_NUM (ucast (vq_nentries q2));
          v5 \<leftarrow> virtio_mmio_write32 react v4 VIRTIO_MMIO_QUEUE_ALIGN 4096;
          phys \<leftarrow> metal_io_virt_to_phys (mm_shm_io v5) (vr_desc (vq_ring q2));
          v6 \<leftarrow> virtio_mmio_write32 react v5 VIRTIO_MMIO_QUEUE_PFN (ucast (phys div 4096));
          infos \<leftarrow> mm_vrings_info v6;
          infos' \<leftarrow> arr_set infos (unat (mm_vrings_num v6)) vq;
          let v7 = v6\<lparr>mm_vrings_info := Some infos', mm_vrings_num := mm_vrings_num v6 + 1\<rparr>;
          (_, rm2) \<leftarrow> virtqueue_enable_cb b v7 q2 rm1;
          Some (vq, v7\<lparr>mm_vqs := (mm_vqs v7)(vq \<mapsto> (q2, rm2))\<rparr>)
        }
      })"

fun isr_callbacks :: "nat \<Rightarrow> nat \<Rightarrow> addr list \<Rightarrow> virtio_mmio_device \<Rightarrow> virtio_mmio_device option" where
  "isr_callbacks 0 i infos v = Some v"
| "isr_callbacks (Suc k) i infos v = do {
     vq \<leftarrow> arr_get infos i;
     (q, rm) \<leftarrow> mm_vqs v vq;
     isr_callbacks k (Suc i) infos
       (if vq_callback q \<noteq> NULL then v\<lparr>mm_calls := mm_calls v @ [(vq_callback q, vq_priv q)]\<rparr> else v)
   }"

definition virtio_mmio_isr :: "reaction \<Rightarrow> virtio_mmio_device \<Rightarrow> virtio_mmio_device option" where
  "virtio_mmio_isr react v = do {
     isr \<leftarrow> virtio_mmio_read32 v VIRTIO_MMIO_INTERRUPT_STATUS;
     v1 \<leftarrow> (if isr AND VIRTIO_MMIO_INT_VRING \<noteq> 0 \<and> mm_vrings_num v \<noteq> 0 then do {
              infos \<leftarrow> mm_vrings_info v;
              isr_callbacks (unat (mm_vrings_num v)) 0 infos v
            } else Some v);
     virtio_mmio_write32 react v1 VIRTIO_MMIO_INTERRUPT_ACK isr
   }"

text \<open>\<open>callbacks\<close> and \<open>callback_args\<close> may be NULL, which is \<open>None\<close>; then the queues get NULL.\<close>

definition arg_at :: "addr list option \<Rightarrow> nat \<Rightarrow> addr option" where
  "arg_at xs i = (case xs of None \<Rightarrow> Some NULL | Some ys \<Rightarrow> arr_get ys i)"

fun mmio_create_loop ::
  "build \<Rightarrow> reaction \<Rightarrow> addr \<Rightarrow> nat \<Rightarrow> nat \<Rightarrow> string list \<Rightarrow> addr list option \<Rightarrow> addr list option \<Rightarrow>
   virtio_mmio_device \<Rightarrow> (int \<times> virtio_mmio_device) option" where
  "mmio_create_loop b react notify 0 i names callbacks callback_args v = Some (0, v)"
| "mmio_create_loop b react notify (Suc k) i names callbacks callback_args v = do {
     infos \<leftarrow> mm_vrings_info v;
     vring_vq \<leftarrow> arr_get infos i;
     cb \<leftarrow> arg_at callbacks i;
     cb_arg \<leftarrow> arg_at callback_args i;
     name \<leftarrow> arr_get names i;
     (vq, v') \<leftarrow> virtio_mmio_setup_virtqueue b react notify v (of_nat i) vring_vq cb cb_arg name;
     if vq = NULL then Some (- ENODEV, v')
     else mmio_create_loop b react notify k (Suc i) names callbacks callback_args v'
   }"

definition virtio_mmio_create_virtqueues ::
  "build \<Rightarrow> reaction \<Rightarrow> addr \<Rightarrow> virtio_mmio_device \<Rightarrow> nat \<Rightarrow> string list option \<Rightarrow> addr list option \<Rightarrow>
   addr list option \<Rightarrow> (int \<times> virtio_mmio_device) option" where
  "virtio_mmio_create_virtqueues b react notify v nvqs names callbacks callback_args =
     (case names of None \<Rightarrow> Some (- EINVAL, v)
      | Some ns \<Rightarrow>
          if mm_vrings_info v = None then Some (- EINVAL, v)
          else mmio_create_loop b react notify nvqs 0 ns callbacks callback_args v)"

definition virtio_mmio_dispatch :: "build \<Rightarrow> reaction \<Rightarrow> addr \<Rightarrow> virtio_mmio_device virtio_dispatch" where
  "virtio_mmio_dispatch b react notify =
     \<lparr>vf_create_virtqueues = Some (\<lambda>v n names callbacks args.
        virtio_mmio_create_virtqueues b react notify v n (Some names) (Some callbacks) args),
      vf_delete_virtqueues = None,
      vf_get_status = Some virtio_mmio_get_status,
      vf_set_status = Some (virtio_mmio_set_status react),
      vf_get_features = Some (virtio_mmio_get_features react),
      vf_set_features = Some (virtio_mmio_set_features react),
      vf_negotiate_features = None,
      vf_read_config = Some virtio_mmio_read_config,
      vf_write_config = Some virtio_mmio_write_config,
      vf_reset_device = Some (virtio_mmio_reset_device react),
      vf_notify = notify\<rparr>"

section \<open>Register accesses\<close>

text \<open>A configuration region without hooks that contains the registers and does not wrap.\<close>

definition window_ok :: "metal_io_region \<Rightarrow> bool" where
  "window_ok io = (io_read (io_ops io) = None \<and> io_write (io_ops io) = None \<and> io_virt io \<noteq> NULL
     \<and> io_virt io \<noteq> METAL_BAD_VA \<and> 0x100 \<le> io_size io \<and> unat (io_virt io) + 0x100 < 2 ^ 64)"

text \<open>The value of a register, and the memory after a write with the device's reaction.\<close>

definition reg :: "metal_io_region \<Rightarrow> mem \<Rightarrow> u64 \<Rightarrow> u32" where
  "reg io m offset = ucast (of_le (mem_read m (io_virt io + offset) 4))"

definition poke :: "reaction \<Rightarrow> metal_io_region \<Rightarrow> u64 \<Rightarrow> u32 \<Rightarrow> mem \<Rightarrow> mem" where
  "poke react io offset x m = react offset x (mem_write m (io_virt io + offset) (to_le 4 (ucast x)))"

lemma window_at:
  assumes "window_ok io" and "unat k < 0x100"
  shows "metal_io_virt io k = io_virt io + k" and "io_virt io + k \<noteq> NULL"
proof -
  have "k < io_size io" using assms by (simp add: window_ok_def word_less_nat_alt word_le_nat_alt)
  then show "metal_io_virt io k = io_virt io + k"
    using assms(1) by (simp add: metal_io_virt_def window_ok_def)
  have "unat (io_virt io + k) = unat (io_virt io) + unat k"
    using assms by (intro unat_add_small) (simp add: window_ok_def)
  moreover have "unat (io_virt io) \<noteq> 0" using assms(1) by (simp add: window_ok_def unat_eq_zero)
  ultimately show "io_virt io + k \<noteq> NULL" by (metis add_is_0 unsigned_0)
qed

lemma mmio_read32:
  assumes "window_ok (mm_cfg_io v)" and "unat k < 0x100"
  shows "virtio_mmio_read32 v k = Some (reg (mm_cfg_io v) (mm_mem v) k)"
  using window_at [OF assms] assms(1)
  by (simp add: virtio_mmio_read32_def metal_io_read32_def metal_io_read_def window_ok_def reg_def)

lemma mmio_write32:
  assumes "window_ok (mm_cfg_io v)" and "unat k < 0x100"
  shows "virtio_mmio_write32 react v k x = Some (v\<lparr>mm_mem := poke react (mm_cfg_io v) k x (mm_mem v)\<rparr>)"
  using window_at [OF assms] assms(1)
  by (simp add: virtio_mmio_write32_def metal_io_write32_def metal_io_write_def window_ok_def poke_def)

lemmas mmio_access = mmio_read32 mmio_write32

section \<open>Properties\<close>

text \<open>What the identification registers must hold for this driver.\<close>

definition mmio_identity :: "metal_io_region \<Rightarrow> mem \<Rightarrow> bool" where
  "mmio_identity io m = (reg io m VIRTIO_MMIO_MAGIC_VALUE = VIRTIO_MMIO_MAGIC_VALUE_STRING
     \<and> reg io m VIRTIO_MMIO_DEVICE_ID \<noteq> 0 \<and> reg io m VIRTIO_MMIO_VERSION = 1)"

text \<open>
  \<open>virtio_mmio_device_init\<close> succeeds exactly on a legacy virtio device with a device id. It then
  has the ids of the device, acknowledges it and tells it the page size, in this order and with no
  other write; on any other device it writes nothing to the registers.
\<close>

theorem mmio_init_checks:
  assumes "io = mm_cfg_io (virtio_mmio_get_metal_io mem_map v shm cfg)" and "window_ok io"
  shows "\<exists>r v'. virtio_mmio_device_init mem_map react v shm cfg ud = Some (r, v')
    \<and> vd_role v' = mm_device_mode v \<and> mm_cfg_io v' = io
    \<and> (r = (if mmio_identity io (mm_mem v) then 0 else - 1))
    \<and> mm_mem v' = (if mmio_identity io (mm_mem v)
         then poke react io VIRTIO_MMIO_GUEST_PAGE_SIZE 4096 (poke react io VIRTIO_MMIO_STATUS 1 (mm_mem v))
         else mm_mem v)
    \<and> (mmio_identity io (mm_mem v) \<longrightarrow> vd_id v' = \<lparr>id_device = reg io (mm_mem v) VIRTIO_MMIO_DEVICE_ID,
         id_vendor = reg io (mm_mem v) VIRTIO_MMIO_VENDOR_ID, id_version = 1\<rparr>)"
proof -
  let ?v = "virtio_mmio_get_metal_io mem_map (v\<lparr>vd_role := mm_device_mode v, mm_user_data := ud\<rparr>) shm cfg"
  have io: "mm_cfg_io ?v = io" "mm_mem ?v = mm_mem v" "vd_role ?v = mm_device_mode v"
    by (simp_all add: assms(1) virtio_mmio_get_metal_io_def)
  then show ?thesis
    using assms(2)
    by (auto simp: virtio_mmio_device_init_def Let_def mmio_access virtio_mmio_set_status_def mmio_identity_def)
qed

text \<open>The device answers the selection of a feature word with the features it offers there.\<close>

definition offers :: "reaction \<Rightarrow> metal_io_region \<Rightarrow> u32 \<Rightarrow> bool" where
  "offers react io offered =
     (\<forall>m. reg io (poke react io VIRTIO_MMIO_DEVICE_FEATURES_SEL 0 m) VIRTIO_MMIO_DEVICE_FEATURES = offered)"

text \<open>
  Setting the features of a memory-mapped device enables exactly the requested features that the
  device offers, in the device's register and in the driver's record alike, and reading them back
  gives the same set.
\<close>

theorem mmio_features_roundtrip:
  assumes "window_ok (mm_cfg_io v)" and "offers react (mm_cfg_io v) offered"
  shows "\<exists>v' v''. virtio_mmio_set_features react v f = Some v' \<and> vd_features v' = ucast (f AND offered)
    \<and> (\<exists>m. mm_mem v' = poke react (mm_cfg_io v) VIRTIO_MMIO_DRIVER_FEATURES (f AND offered) m)
    \<and> virtio_mmio_get_features react v' = Some (f AND offered, v'')"
proof -
  have "(ucast (ucast offered AND ucast (f AND offered) :: u64) :: u32) = f AND offered"
    by (rule bit_word_eqI) (auto simp: bit_simps)
  then show ?thesis
    using assms
    by (auto simp: virtio_mmio_set_features_def virtio_mmio_set_features_idx_def virtio_mmio_get_features_def
        virtio_mmio_get_features_idx_def mmio_access offers_def Let_def)
qed

text \<open>The calls an interrupt makes: the callback of every registered queue that has one.\<close>

definition callbacks_of :: "virtio_mmio_device \<Rightarrow> addr list \<Rightarrow> (addr \<times> addr) list" where
  "callbacks_of v infos = [(vq_callback q, vq_priv q). (q, rm) \<leftarrow> map (\<lambda>p. the (mm_vqs v p)) infos, vq_callback q \<noteq> NULL]"

lemma isr_callbacks_calls:
  assumes "i + k \<le> length infos" and "\<And>p. p \<in> set (take k (drop i infos)) \<Longrightarrow> mm_vqs v p \<noteq> None"
  shows "isr_callbacks k i infos v
    = Some (v\<lparr>mm_calls := mm_calls v @ callbacks_of v (take k (drop i infos))\<rparr>)"
  using assms
proof (induction k arbitrary: i v)
  case 0
  then show ?case by (simp add: callbacks_of_def)
next
  case (Suc k)
  have step: "take (Suc k) (drop i infos) = infos ! i # take k (drop (Suc i) infos)"
    using Suc.prems(1) by (simp add: Cons_nth_drop_Suc [symmetric])
  obtain q rm where q: "mm_vqs v (infos ! i) = Some (q, rm)"
    using Suc.prems(2) [of "infos ! i"] by (auto simp: step)
  show ?case
    using Suc.prems q Suc.IH [of "Suc i"] by (auto simp: step callbacks_of_def)
qed

text \<open>
  An interrupt runs the callback of each registered queue once, in the order of registration and
  with the argument the queue was set up with, when the device reports used buffers, and none
  otherwise. It acknowledges exactly the causes it has read.
\<close>

theorem mmio_isr_dispatches:
  assumes "window_ok (mm_cfg_io v)" and "mm_vrings_info v = Some infos"
    and "unat (mm_vrings_num v) \<le> length infos"
    and "\<forall>p \<in> set (take (unat (mm_vrings_num v)) infos). mm_vqs v p \<noteq> None"
    and "cause = reg (mm_cfg_io v) (mm_mem v) VIRTIO_MMIO_INTERRUPT_STATUS"
  shows "virtio_mmio_isr react v = Some (v\<lparr>
      mm_calls := mm_calls v @ (if bit cause 0 then callbacks_of v (take (unat (mm_vrings_num v)) infos) else []),
      mm_mem := poke react (mm_cfg_io v) VIRTIO_MMIO_INTERRUPT_ACK cause (mm_mem v)\<rparr>)"
proof -
  have vring: "(cause AND VIRTIO_MMIO_INT_VRING \<noteq> 0) = bit cause 0"
    by (simp add: and_one_eq bit_0 odd_iff_mod_2_eq_one)
  have "isr_callbacks (unat (mm_vrings_num v)) 0 infos v
      = Some (v\<lparr>mm_calls := mm_calls v @ callbacks_of v (take (unat (mm_vrings_num v)) infos)\<rparr>)"
    using isr_callbacks_calls [of 0 "unat (mm_vrings_num v)" infos v] assms(3,4) by auto
  then show ?thesis
    using assms vring
    by (cases "mm_vrings_num v = 0") (auto simp: virtio_mmio_isr_def mmio_access callbacks_of_def)
qed

text \<open>A queue set up for a full array of vrings is stored behind the end of the array.\<close>

lemma setup_full_array:
  assumes "mm_vrings_info v = Some infos" and "length infos \<le> unat (mm_vrings_num v)"
    and "virtio_mmio_setup_virtqueue b react notify v idx vq cb cb_arg name = Some (p, v')"
  shows "p = NULL"
proof (rule ccontr)
  assume "p \<noteq> NULL"
  have keep: "mm_vrings_info w' = mm_vrings_info w \<and> mm_vrings_num w' = mm_vrings_num w"
    if "virtio_mmio_write32 react w k x = Some w'" for w w' k x
    using that by (auto simp: virtio_mmio_write32_def opt_simps)
  show False
    using assms \<open>p \<noteq> NULL\<close>
    by (auto simp: virtio_mmio_setup_virtqueue_def virtio_mmio_get_max_elem_def Let_def opt_simps
        split: if_splits prod.splits dest!: keep)
qed

text \<open>
  The virtqueues a device was registered with cannot be created: \<open>virtio_mmio_register_device\<close>
  fills the array of vrings, and \<open>virtio_mmio_create_virtqueues\<close> appends each queue it sets up behind
  the last of them, outside the array. The call never returns success.
\<close>

theorem mmio_registered_never_created:
  assumes "virtio_mmio_register_device ok v vq_num vqs = Some v1" and "0 \<le> vq_num" and "vq_num < 2 ^ 31"
    and "0 < nvqs"
  shows "virtio_mmio_create_virtqueues b react notify v1 nvqs names cbs args \<noteq> Some (0, v2)"
proof
  assume ok: "virtio_mmio_create_virtqueues b react notify v1 nvqs names cbs args = Some (0, v2)"
  obtain k where k: "nvqs = Suc k" using assms(4) by (cases nvqs) auto
  obtain infos where infos: "mm_vrings_info v1 = Some infos"
    using ok by (auto simp: virtio_mmio_create_virtqueues_def split: option.splits if_splits)
  obtain n where n: "vq_num = int n" "n < 2 ^ 31"
    using assms(2,3) by (cases vq_num) auto
  have full: "length infos \<le> unat (mm_vrings_num v1)"
    using assms(1) infos n
    by (auto simp: virtio_mmio_register_device_def opt_simps unat_of_nat split: if_splits)
  show False
    using ok infos setup_full_array [OF infos full]
    by (auto simp: virtio_mmio_create_virtqueues_def k opt_simps split: option.splits if_splits)
qed

text \<open>A queue that was configured but not used: nothing is in flight on its ring.\<close>

definition vq_prepared :: "nat \<Rightarrow> virtqueue \<Rightarrow> vring_mem \<Rightarrow> bool" where
  "vq_prepared e q rm = (unat (vq_nentries q) = 2 ^ e \<and> e \<le> 15 \<and> vq_configured q \<and> length (vm_desc rm) = 2 ^ e
     \<and> vq_desc_head_idx q = 0 \<and> vq_descx q = replicate (2 ^ e) \<lparr>dx_cookie = NULL, dx_ndescs = 0\<rparr>
     \<and> vq_queued_cnt q = 0 \<and> \<not> vq_inuse q \<and> us_idx (vm_used rm) = vq_used_cons_idx q)"

lemma enable_cb_nothing_used:
  assumes "us_idx (vm_used rm) = vq_used_cons_idx q" and "VIRTIO_ROLE_IS_DRIVER b v"
  shows "\<exists>rm'. virtqueue_enable_cb b v q rm = Some (0, rm') \<and> vm_desc rm' = vm_desc rm"
  using assms
  by (auto simp: virtqueue_enable_cb_def vq_ring_enable_interrupt_def virtqueue_nused_def VQASSERT_def
      VIRTIO_ROLE_IS_DRIVER_def VIRTIO_ROLE_IS_DEVICE_def set_used_event_def set_avail_flags_def Let_def)

lemma prepared_create:
  assumes "vq_prepared e q rm" and "VIRTIO_ROLE_IS_DRIVER b v"
  shows "\<exists>q' rm'. mmio_queue_create b v idx name
      \<lparr>ai_vaddr = vr_desc (vq_ring q), ai_align = VIRTIO_MMIO_VRING_ALIGNMENT, ai_num_descs = vq_nentries q\<rparr>
      cb notify True q rm = Some (0, q', rm')
    \<and> driver_inv q' (vm_desc rm') (all_idx (2 ^ e)) [] \<and> vq_nentries q' = vq_nentries q
    \<and> vq_queue_index q' = ucast idx \<and> vq_callback q' = cb \<and> vq_notify q' = notify
    \<and> vr_desc (vq_ring q') = vr_desc (vq_ring q) \<and> us_idx (vm_used rm') = vq_used_cons_idx q'"
proof -
  have n: "unat (vq_nentries q) = 2 ^ e" "e \<le> 15" "length (vm_desc rm) = 2 ^ e"
    using assms(1) by (simp_all add: vq_prepared_def)
  have bound: "(2::nat) ^ e \<le> 2 ^ 15" using n(2) by (rule power_increasing) simp
  obtain ds where ds: "link_descs (2 ^ e - 1) 0 (vm_desc rm) = Some ds" "length ds = 2 ^ e"
    "free_path ds 0 (map of_nat [0..<2 ^ e])"
    using link_descs_ok [of 0 "2 ^ e - 1" "vm_desc rm"] n(3) bound by auto
  have path: "free_path ds 0 (all_idx (2 ^ e))" using ds(3) by (simp add: all_idx_def)
  show ?thesis
    using virtqueue_create_eq [of _ e b v rm ds] assms ds(1,2) n bound path
    by (simp add: mmio_queue_create_def vq_prepared_def driver_inv_def all_idx_def vring_init_def)
qed

text \<open>The state after a successful setup, from the state \<open>v\<close> before it.\<close>

definition queue_set_up ::
  "reaction \<Rightarrow> nat \<Rightarrow> u64 \<Rightarrow> addr list \<Rightarrow> u32 \<Rightarrow> addr \<Rightarrow> addr \<Rightarrow> addr \<Rightarrow> virtio_mmio_device \<Rightarrow> virtio_mmio_device \<Rightarrow> bool" where
  "queue_set_up react e pa infos idx vq cb cb_arg v v' \<longleftrightarrow>
     mm_vrings_info v' = Some (infos[unat (mm_vrings_num v) := vq]) \<and> mm_vrings_num v' = mm_vrings_num v + 1
     \<and> (\<exists>q' rm'. mm_vqs v' = (mm_vqs v)(vq \<mapsto> (q', rm')) \<and> driver_inv q' (vm_desc rm') (all_idx (2 ^ e)) []
          \<and> vq_queue_index q' = ucast idx \<and> vq_callback q' = cb \<and> vq_priv q' = cb_arg \<and> vq_shm_io q' = Some (mm_shm_io v))
     \<and> (\<exists>m. mm_mem v' = poke react (mm_cfg_io v) VIRTIO_MMIO_QUEUE_PFN (ucast (pa div 4096))
          (poke react (mm_cfg_io v) VIRTIO_MMIO_QUEUE_ALIGN 4096
          (poke react (mm_cfg_io v) VIRTIO_MMIO_QUEUE_NUM (2 ^ e)
          (poke react (mm_cfg_io v) VIRTIO_MMIO_QUEUE_SEL idx m))))"

text \<open>A prepared queue of a driver, with a size the device accepts, passes every check of the setup.\<close>

definition setup_checked :: "build \<Rightarrow> reaction \<Rightarrow> virtio_mmio_device \<Rightarrow> u32 \<Rightarrow> addr \<Rightarrow> nat \<Rightarrow> u64 \<Rightarrow> bool" where
  "setup_checked b react v idx vq e pa \<longleftrightarrow> window_ok (mm_cfg_io v) \<and> VIRTIO_ROLE_IS_DRIVER b v \<and> id_version (vd_id v) = 1 \<and> vq \<noteq> NULL
     \<and> (\<exists>q rm maxq. mm_vqs v vq = Some (q, rm) \<and> vq_prepared e q rm \<and> 2 ^ e \<le> unat maxq
          \<and> metal_io_virt_to_phys (mm_shm_io v) (vr_desc (vq_ring q)) = Some pa
          \<and> (\<forall>m. reg (mm_cfg_io v) (poke react (mm_cfg_io v) VIRTIO_MMIO_QUEUE_SEL idx m) VIRTIO_MMIO_QUEUE_NUM_MAX = maxq))"

lemma setup_checked_runs:
  assumes "setup_checked b react v idx vq e pa" and "mm_vrings_info v = Some infos"
  shows "if unat (mm_vrings_num v) < length infos
    then \<exists>v'. virtio_mmio_setup_virtqueue b react notify v idx vq cb cb_arg name = Some (vq, v')
      \<and> queue_set_up react e pa infos idx vq cb cb_arg v v'
    else virtio_mmio_setup_virtqueue b react notify v idx vq cb cb_arg name = None"
proof -
  let ?io = "mm_cfg_io v" and ?k = "unat (mm_vrings_num v)"
  obtain q rm maxq where c: "window_ok ?io" "VIRTIO_ROLE_IS_DRIVER b v" "id_version (vd_id v) = 1" "vq \<noteq> NULL"
    "mm_vqs v vq = Some (q, rm)" "vq_prepared e q rm" "2 ^ e \<le> unat maxq"
    "metal_io_virt_to_phys (mm_shm_io v) (vr_desc (vq_ring q)) = Some pa"
    "\<forall>m. reg ?io (poke react ?io VIRTIO_MMIO_QUEUE_SEL idx m) VIRTIO_MMIO_QUEUE_NUM_MAX = maxq"
    using assms(1) unfolding setup_checked_def by blast
  let ?m0 = "poke react ?io VIRTIO_MMIO_QUEUE_SEL idx (mm_mem v)"
  let ?v1 = "v\<lparr>mm_mem := ?m0\<rparr>"
  have drv: "VIRTIO_ROLE_IS_DRIVER b w" if "vd_role w = vd_role v" for w :: virtio_mmio_device
    using c(2) that by (simp add: VIRTIO_ROLE_IS_DRIVER_def)
  obtain q1 rm1 where q1: "mmio_queue_create b ?v1 idx name
      \<lparr>ai_vaddr = vr_desc (vq_ring q), ai_align = VIRTIO_MMIO_VRING_ALIGNMENT, ai_num_descs = vq_nentries q\<rparr>
      cb notify True q rm = Some (0, q1, rm1)"
    "driver_inv q1 (vm_desc rm1) (all_idx (2 ^ e)) []" "vq_nentries q1 = vq_nentries q"
    "vq_queue_index q1 = ucast idx" "vq_callback q1 = cb"
    "vr_desc (vq_ring q1) = vr_desc (vq_ring q)" "us_idx (vm_used rm1) = vq_used_cons_idx q1"
    using prepared_create [OF c(6) drv [of ?v1], of idx name cb notify] by auto
  let ?q2 = "q1\<lparr>vq_priv := cb_arg, vq_shm_io := Some (mm_shm_io v)\<rparr>"
  have conf: "vq_configured q" and n: "unat (vq_nentries q) = 2 ^ e" "e \<le> 15" using c(6) by (simp_all add: vq_prepared_def)
  have un: "unat (ucast (vq_nentries q) :: u32) = 2 ^ e"
    using n by (simp add: unsigned_ucast_eq take_bit_nat_eq_self)
  then have nw: "(ucast (vq_nentries q) :: u32) = 2 ^ e" by (rule word_pow2_unat)
  have maxq: "ucast (vq_nentries q) \<le> maxq" "maxq \<noteq> 0" using c(7) un by (auto simp: word_le_nat_alt)
  let ?mem = "poke react ?io VIRTIO_MMIO_QUEUE_PFN (ucast (pa div 4096))
      (poke react ?io VIRTIO_MMIO_QUEUE_ALIGN 4096 (poke react ?io VIRTIO_MMIO_QUEUE_NUM (2 ^ e)
      (poke react ?io VIRTIO_MMIO_QUEUE_SEL idx ?m0)))"
  let ?v7 = "v\<lparr>mm_vqs := (mm_vqs v)(vq \<mapsto> (?q2, rm1)), mm_mem := ?mem,
    mm_vrings_info := Some (infos[?k := vq]), mm_vrings_num := mm_vrings_num v + 1\<rparr>"
  obtain rm2 where rm2: "virtqueue_enable_cb b ?v7 ?q2 rm1 = Some (0, rm2)" "vm_desc rm2 = vm_desc rm1"
    using enable_cb_nothing_used [of rm1 ?q2 b ?v7] drv [of ?v7] q1(7) by auto
  have run: "virtio_mmio_setup_virtqueue b react notify v idx vq cb cb_arg name
      = (if ?k < length infos then Some (vq, ?v7\<lparr>mm_vqs := (mm_vqs v)(vq \<mapsto> (?q2, rm2))\<rparr>) else None)"
    using c(1-5,8,9) assms(2) q1(1,3,6) rm2(1) conf maxq nw
    by (simp add: virtio_mmio_setup_virtqueue_def virtio_mmio_get_max_elem_def mmio_access arr_set_def
        VIRTIO_ROLE_IS_DRIVER_def virtqueue_set_shmem_io_def Let_def)
  have "driver_inv ?q2 (vm_desc rm2) (all_idx (2 ^ e)) []" using q1(2) rm2(2) by (simp add: driver_inv_def)
  then have "queue_set_up react e pa infos idx vq cb cb_arg v (?v7\<lparr>mm_vqs := (mm_vqs v)(vq \<mapsto> (?q2, rm2))\<rparr>)"
    using q1(4,5) unfolding queue_set_up_def
    by (intro conjI exI [of _ ?q2] exI [of _ rm2] exI [of _ ?m0]) simp_all
  then show ?thesis using run by simp
qed

lemma registered_full:
  assumes "virtio_mmio_register_device ok v0 vq_num vqs = Some v" "0 \<le> vq_num" "vq_num < 2 ^ 31" and "mm_vrings_info v = Some infos"
  shows "length infos = unat (mm_vrings_num v)"
proof -
  obtain n where "vq_num = int n" "n < 2 ^ 31" using assms(2,3) by (cases vq_num) auto
  then show ?thesis
    using assms(1,4) by (auto simp: virtio_mmio_register_device_def opt_simps unat_of_nat split: if_splits)
qed

text \<open>
  C24: setting up a prepared queue of a driver that passes every check. When the array of vrings has a slot after the
  registered ones the queue gets one free chain of descriptors, its index, callback, argument and region, the device is programmed with its
  size, alignment and page number after selecting it, and the queue is appended to the array. Otherwise the
  queue is written behind the array, which is undefined. The only function that registers an array leaves no slot in it: setting up a
  queue of a device it has registered is always undefined.
\<close>

theorem mmio_setup_needs_slot:
  assumes "setup_checked b react v idx vq e pa" and "mm_vrings_info v = Some infos"
  shows "(if unat (mm_vrings_num v) < length infos
      then \<exists>v'. virtio_mmio_setup_virtqueue b react notify v idx vq cb cb_arg name = Some (vq, v')
        \<and> queue_set_up react e pa infos idx vq cb cb_arg v v'
      else virtio_mmio_setup_virtqueue b react notify v idx vq cb cb_arg name = None)
    \<and> (\<forall>ok v0 n vqs. 0 \<le> n \<and> n < 2 ^ 31 \<and> virtio_mmio_register_device ok v0 n vqs = Some v
        \<longrightarrow> virtio_mmio_setup_virtqueue b react notify v idx vq cb cb_arg name = None)"
  using setup_checked_runs [OF assms, of notify cb cb_arg name] registered_full [OF _ _ _ assms(2)] by auto

section \<open>A concrete device\<close>

text \<open>
  A device at \<open>0x4000\<close> that offers the features \<open>0x2F\<close> and queues of up to 8 entries, has an
  interrupt pending and one registered queue whose descriptors are at \<open>0x1000\<close>.
\<close>

definition demo_cfg_io :: metal_io_region where
  "demo_cfg_io = \<lparr>io_virt = 0x4000, io_physmap = Some [0x9000], io_size = 0x200, io_page_shift = ucast (- 1 :: u32),
     io_page_mask = - 1, io_mem_flags = 0, io_ops = no_ops\<rparr>"

definition demo_react :: reaction where
  "demo_react off x m =
     (if off = VIRTIO_MMIO_DEVICE_FEATURES_SEL then mem_write m (0x4000 + 0x10) (to_le 4 (ucast (0x2F :: u32)))
      else if off = VIRTIO_MMIO_QUEUE_SEL then mem_write m (0x4000 + 0x34) (to_le 4 (ucast (8 :: u32)))
      else m)"

definition demo_regs :: mem where
  "demo_regs = (\<lambda>_. 0)(0x4000 := 0x76, 0x4001 := 0x69, 0x4002 := 0x72, 0x4003 := 0x74, 0x4004 := 1,
     0x4008 := 3, 0x4060 := 1)"

definition demo_mmio_vq :: virtqueue where
  "demo_mmio_vq = (virtqueue_zero 4)\<lparr>vq_nentries := 4, vq_free_cnt := 4, vq_callback := 0x800, vq_priv := 0x900,
     vq_ring := vring_init 4 0x1000 4096\<rparr>"

definition demo_mmio :: virtio_mmio_device where
  "demo_mmio = \<lparr>vd_notifyid = 0, vd_id = \<lparr>id_device = 3, id_vendor = 0, id_version = 1\<rparr>, vd_features = 0,
     vd_role = VIRTIO_DEV_DRIVER, mm_vrings_num = 1, mm_vrings_info = Some [0x600, 0],
     mm_cfg_io = demo_cfg_io, mm_shm_io = demo_io,
     mm_cfg_mem = \<lparr>dm_base = 0x9000, dm_size = 0x200\<rparr>, mm_shm_mem = \<lparr>dm_base = 0x4000, dm_size = 0x1000\<rparr>,
     mm_device_mode = VIRTIO_DEV_DRIVER, mm_irq = 0, mm_user_data = 0, mm_mem = demo_regs,
     mm_vqs = [0x600 \<mapsto> (demo_mmio_vq, zero_ring 4)], mm_calls = []\<rparr>"

lemma demo_window: "window_ok demo_cfg_io"
  by (simp add: window_ok_def demo_cfg_io_def no_ops_def)

lemma demo_offers: "offers demo_react demo_cfg_io 0x2F"
  using read_written32 [where x = "0x2F"]
  by (simp add: offers_def reg_def poke_def demo_react_def demo_cfg_io_def)

lemma demo_queue_max:
  "reg demo_cfg_io (poke demo_react demo_cfg_io VIRTIO_MMIO_QUEUE_SEL idx m) VIRTIO_MMIO_QUEUE_NUM_MAX = 8"
  using read_written32 [where x = "8"] by (simp add: reg_def poke_def demo_react_def demo_cfg_io_def)

theorem mmio_init_checks_witness:
  "window_ok demo_cfg_io
    \<and> (\<exists>r v'. virtio_mmio_device_init (\<lambda>r. r) demo_react demo_mmio 0x1000 0x4000 0 = Some (r, v') \<and> r = 0)"
proof -
  have io: "demo_cfg_io = mm_cfg_io (virtio_mmio_get_metal_io (\<lambda>r. r) demo_mmio 0x1000 0x4000)"
    by (simp add: virtio_mmio_get_metal_io_def metal_io_init_def demo_mmio_def demo_cfg_io_def no_ops_def)
  have "mmio_identity demo_cfg_io (mm_mem demo_mmio)"
    by (simp add: mmio_identity_def reg_def mem_read_4 demo_regs_def demo_mmio_def demo_cfg_io_def)
  then show ?thesis
    using mmio_init_checks [OF io demo_window, of demo_react 0] demo_window by auto
qed

theorem mmio_features_roundtrip_witness:
  "\<exists>v' v''. virtio_mmio_set_features demo_react demo_mmio 0xF1 = Some v'
    \<and> virtio_mmio_get_features demo_react v' = Some (0x21, v'')"
  using mmio_features_roundtrip [of demo_mmio demo_react "0x2F" "0xF1"] demo_window demo_offers
  by (auto simp: demo_mmio_def)

theorem mmio_isr_dispatches_witness:
  "\<exists>v'. virtio_mmio_isr demo_react demo_mmio = Some v' \<and> mm_calls v' = [(0x800, 0x900)]"
proof -
  have "reg (mm_cfg_io demo_mmio) (mm_mem demo_mmio) VIRTIO_MMIO_INTERRUPT_STATUS = 1"
    by (simp add: reg_def mem_read_4 demo_regs_def demo_mmio_def demo_cfg_io_def)
  moreover have "callbacks_of demo_mmio [0x600] = [(0x800, 0x900)]"
    by (simp add: callbacks_of_def demo_mmio_def demo_mmio_vq_def)
  ultimately show ?thesis
    using mmio_isr_dispatches [of demo_mmio "[0x600, 0]" 1 demo_react] demo_window
    by (simp add: demo_mmio_def)
qed

theorem mmio_registered_never_created_witness:
  "\<exists>v1. virtio_mmio_register_device True demo_mmio 1 [0x600] = Some v1
    \<and> (\<forall>v2. virtio_mmio_create_virtqueues default_build demo_react 0x700 v1 1 (Some [''vq'']) None None \<noteq> Some (0, v2))"
proof -
  have reg: "virtio_mmio_register_device True demo_mmio 1 [0x600]
      = Some (demo_mmio\<lparr>mm_vrings_info := Some [0x600], mm_vrings_num := 1\<rparr>)"
    by (simp add: virtio_mmio_register_device_def)
  show ?thesis
    using mmio_registered_never_created [OF reg] reg by simp
qed

lemma demo_setup_checked:
  "setup_checked default_build demo_react (demo_mmio\<lparr>mm_vrings_info := infos, mm_vrings_num := n\<rparr>) 0 0x600 2 0x4000"
proof -
  have ready: "vq_prepared 2 demo_mmio_vq (zero_ring 4)"
    by (simp add: vq_prepared_def vq_configured_def demo_mmio_vq_def virtqueue_zero_def zero_ring_def vring_init_def)
  have pa: "metal_io_virt_to_phys (mm_shm_io demo_mmio) (vr_desc (vq_ring demo_mmio_vq)) = Some 0x4000"
    by (simp add: metal_io_virt_to_phys_def metal_io_virt_to_offset_def metal_io_phys_def demo_mmio_def demo_io_def
        demo_mmio_vq_def vring_init_def no_ops_def)
  show ?thesis
    unfolding setup_checked_def
    by (intro conjI exI [of _ demo_mmio_vq] exI [of _ "zero_ring 4"] exI [of _ 8])
      (use ready pa demo_window demo_queue_max in \<open>auto simp: demo_mmio_def VIRTIO_ROLE_IS_DRIVER_def default_build_def\<close>)
qed

theorem mmio_setup_needs_slot_witness:
  "\<exists>v1 v'. virtio_mmio_register_device True demo_mmio 1 [0x600] = Some v1
    \<and> virtio_mmio_setup_virtqueue default_build demo_react 0x700 v1 0 0x600 0x800 0x900 ''vq'' = None
    \<and> virtio_mmio_setup_virtqueue default_build demo_react 0x700 (v1\<lparr>mm_vrings_num := 0\<rparr>) 0 0x600 0x800 0x900 ''vq'' = Some (0x600, v')
    \<and> mm_vrings_num v' = 1"
proof -
  have reg: "virtio_mmio_register_device True demo_mmio 1 [0x600]
      = Some (demo_mmio\<lparr>mm_vrings_info := Some [0x600], mm_vrings_num := 1\<rparr>)"
    by (simp add: virtio_mmio_register_device_def)
  let ?run = "\<lambda>n. virtio_mmio_setup_virtqueue default_build demo_react 0x700
      (demo_mmio\<lparr>mm_vrings_info := Some [0x600], mm_vrings_num := n\<rparr>) 0 0x600 0x800 0x900 ''vq''"
  have "?run 1 = None"
    using mmio_setup_needs_slot [OF demo_setup_checked [where infos = "Some [0x600]" and n = 1],
        where infos = "[0x600]" and notify = "0x700" and cb = "0x800" and cb_arg = "0x900" and name = "''vq''"] by simp
  moreover have "\<exists>v'. ?run 0 = Some (0x600, v') \<and> mm_vrings_num v' = 1"
    using mmio_setup_needs_slot [OF demo_setup_checked [where infos = "Some [0x600]" and n = 0],
        where infos = "[0x600]" and notify = "0x700" and cb = "0x800" and cb_arg = "0x900" and name = "''vq''"]
    by (auto simp: queue_set_up_def)
  ultimately show ?thesis using reg by auto
qed

end
