(* ===== verification/Metal_Irq.thy ===== *)
theory Metal_Irq
  imports Prelude
begin

text \<open>
  \<^verbatim>\<open>src/openamp/libmetal/lib/irq.c\<close> and \<^verbatim>\<open>softirq.c\<close> with \<^verbatim>\<open>irq_controller.h\<close>: the registry of interrupt
  controllers, the assignment of interrupt numbers to them, the registration of handlers, and the
  controller of software interrupts. Controllers are objects at addresses; the list of the registered
  ones holds their addresses in order. Function pointers are addresses: the one of the software
  controller is \<open>SOFTIRQ_SET_ENABLE\<close>, every other belongs to a platform and is a parameter. A sum of
  two \<open>int\<close>s that overflows is undefined.
\<close>

section \<open>Data\<close>

abbreviation (input) METAL_IRQ_ANY :: int where "METAL_IRQ_ANY \<equiv> - 1"
abbreviation (input) METAL_IRQ_DISABLE :: u32 where "METAL_IRQ_DISABLE \<equiv> 0"
abbreviation (input) METAL_IRQ_ENABLE :: u32 where "METAL_IRQ_ENABLE \<equiv> 1"
abbreviation (input) METAL_IRQ_NOT_HANDLED :: int where "METAL_IRQ_NOT_HANDLED \<equiv> 0"
abbreviation (input) METAL_SOFTIRQ_NUM :: nat where "METAL_SOFTIRQ_NUM \<equiv> 64"
abbreviation (input) IRQ_EINVAL :: int where "IRQ_EINVAL \<equiv> 22"

record metal_irq =
  mi_hd :: addr
  mi_arg :: addr

record metal_irq_controller =
  ic_irq_base :: int
  ic_irq_num :: int
  ic_arg :: addr
  ic_irq_set_enable :: addr
  ic_irq_register :: addr
  ic_irqs :: "metal_irq list option"

text \<open>\<open>irq_calls\<close> records the calls of handlers with their interrupt number and argument, the newest last.\<close>

record irq_state =
  irq_cntrs :: "addr list"
  irq_cntr :: "addr \<Rightarrow> metal_irq_controller option"
  softirq_avail :: int
  softirq_pending :: "u8 list"
  softirq_enabled :: "u8 list"
  irq_calls :: "(addr \<times> int \<times> addr) list"

section \<open>Controllers\<close>

fun irq_scan ::
  "(addr \<Rightarrow> metal_irq_controller option) \<Rightarrow> int \<Rightarrow> int \<Rightarrow> addr list \<Rightarrow> int \<Rightarrow> int \<Rightarrow> int option" where
  "irq_scan st irq_base irq_num [] tocheck end_tocheck = Some tocheck"
| "irq_scan st irq_base irq_num (p # ps) tocheck end_tocheck = do {
     cntr \<leftarrow> st p;
     cntr_irq_end \<leftarrow> int_add (ic_irq_base cntr) (ic_irq_num cntr);
     if tocheck < cntr_irq_end \<and> end_tocheck > ic_irq_base cntr then
       (if irq_base \<noteq> METAL_IRQ_ANY then Some METAL_IRQ_ANY
        else do {
          e \<leftarrow> int_add cntr_irq_end irq_num;
          irq_scan st irq_base irq_num ps cntr_irq_end e
        })
     else irq_scan st irq_base irq_num ps tocheck end_tocheck
   }"

definition metal_irq_allocate :: "irq_state \<Rightarrow> int \<Rightarrow> int \<Rightarrow> int option" where
  "metal_irq_allocate s irq_base irq_num =
     (if irq_num = 0 then Some METAL_IRQ_ANY
      else do {
        let tocheck = (if irq_base = METAL_IRQ_ANY then 0 else irq_base);
        e \<leftarrow> int_add tocheck irq_num;
        irq_scan (irq_cntr s) irq_base irq_num (irq_cntrs s) tocheck e
      })"

definition metal_irq_register_controller :: "addr \<Rightarrow> irq_state \<Rightarrow> (int \<times> irq_state) option" where
  "metal_irq_register_controller cntr s =
     (if cntr = NULL then Some (- IRQ_EINVAL, s)
      else if cntr \<in> set (irq_cntrs s) then Some (0, s)
      else do {
        c \<leftarrow> irq_cntr s cntr;
        irq_base \<leftarrow> metal_irq_allocate s (ic_irq_base c) (ic_irq_num c);
        if irq_base = METAL_IRQ_ANY then Some (- IRQ_EINVAL, s)
        else Some (0, s\<lparr>irq_cntr := (irq_cntr s)(cntr \<mapsto> c\<lparr>ic_irq_base := irq_base\<rparr>),
                        irq_cntrs := irq_cntrs s @ [cntr]\<rparr>)
      })"

text \<open>\<open>Some None\<close> is the result NULL.\<close>

fun get_controller :: "(addr \<Rightarrow> metal_irq_controller option) \<Rightarrow> int \<Rightarrow> addr list \<Rightarrow> addr option option" where
  "get_controller st irq [] = Some None"
| "get_controller st irq (p # ps) = do {
     cntr \<leftarrow> st p;
     irq_end \<leftarrow> int_add (ic_irq_base cntr) (ic_irq_num cntr);
     if ic_irq_base cntr \<le> irq \<and> irq < irq_end then Some (Some p) else get_controller st irq ps
   }"

definition metal_irq_get_controller :: "int \<Rightarrow> irq_state \<Rightarrow> addr option option" where
  "metal_irq_get_controller irq s = get_controller (irq_cntr s) irq (irq_cntrs s)"

definition metal_irq_handle :: "(addr \<Rightarrow> int \<Rightarrow> addr \<Rightarrow> irq_state \<Rightarrow> int \<times> irq_state) \<Rightarrow> metal_irq \<Rightarrow> int \<Rightarrow> irq_state \<Rightarrow> int \<times> irq_state" where
  "metal_irq_handle run irq_data irq s =
     (if mi_hd irq_data \<noteq> NULL
      then run (mi_hd irq_data) irq (mi_arg irq_data) (s\<lparr>irq_calls := irq_calls s @ [(mi_hd irq_data, irq, mi_arg irq_data)]\<rparr>)
      else (METAL_IRQ_NOT_HANDLED, s))"

section \<open>Software interrupts\<close>

abbreviation (input) SOFTIRQ_CNTR :: addr where "SOFTIRQ_CNTR \<equiv> 0x100"
abbreviation (input) SOFTIRQ_SET_ENABLE :: addr where "SOFTIRQ_SET_ENABLE \<equiv> 0x108"

text \<open>The static controller before it is registered, and the static arrays.\<close>

definition metal_softirq_cntr :: metal_irq_controller where
  "metal_softirq_cntr = \<lparr>ic_irq_base = METAL_IRQ_ANY, ic_irq_num = int METAL_SOFTIRQ_NUM, ic_arg = NULL,
     ic_irq_set_enable = SOFTIRQ_SET_ENABLE, ic_irq_register = NULL,
     ic_irqs = Some (replicate METAL_SOFTIRQ_NUM \<lparr>mi_hd = NULL, mi_arg = NULL\<rparr>)\<rparr>"

definition metal_softirq_set_enable :: "addr \<Rightarrow> int \<Rightarrow> u32 \<Rightarrow> irq_state \<Rightarrow> irq_state option" where
  "metal_softirq_set_enable p irq enable s = do {
     cntr \<leftarrow> irq_cntr s p;
     if irq < ic_irq_base cntr then Some s
     else do {
       e \<leftarrow> int_add (ic_irq_base cntr) (ic_irq_num cntr);
       if e \<le> irq then Some s
       else do {
         en \<leftarrow> arr_set (softirq_enabled s) (nat (irq - ic_irq_base cntr))
                (if enable = METAL_IRQ_ENABLE then 1 else 0);
         Some (s\<lparr>softirq_enabled := en\<rparr>)
       }
     }
   }"

definition metal_softirq_set :: "int \<Rightarrow> irq_state \<Rightarrow> irq_state option" where
  "metal_softirq_set irq s = do {
     cntr \<leftarrow> irq_cntr s SOFTIRQ_CNTR;
     if irq < ic_irq_base cntr then Some s
     else do {
       e \<leftarrow> int_add (ic_irq_base cntr) (ic_irq_num cntr);
       if e \<le> irq then Some s
       else do {
         pd \<leftarrow> arr_set (softirq_pending s) (nat (irq - ic_irq_base cntr)) 1;
         Some (s\<lparr>softirq_pending := pd\<rparr>)
       }
     }
   }"

definition metal_softirq_init :: "irq_state \<Rightarrow> (int \<times> irq_state) option" where
  "metal_softirq_init s = metal_irq_register_controller SOFTIRQ_CNTR s"

definition metal_softirq_allocate :: "int \<Rightarrow> irq_state \<Rightarrow> (int \<times> irq_state) option" where
  "metal_softirq_allocate num s = do {
     e \<leftarrow> int_add (softirq_avail s) num;
     if int METAL_SOFTIRQ_NUM \<le> e then Some (- IRQ_EINVAL, s)
     else do {
       cntr \<leftarrow> irq_cntr s SOFTIRQ_CNTR;
       irq_base \<leftarrow> int_add (softirq_avail s) (ic_irq_base cntr);
       Some (irq_base, s\<lparr>softirq_avail := e\<rparr>)
     }
   }"

text \<open>
  \<open>run\<close> is what a handler does to the state, for instance raise further software interrupts. The
  atomic compare-and-exchange takes the flag when it holds 1 and clears it.
\<close>

fun softirq_dispatch_from ::
  "(addr \<Rightarrow> int \<Rightarrow> addr \<Rightarrow> irq_state \<Rightarrow> int \<times> irq_state) \<Rightarrow> nat \<Rightarrow> nat \<Rightarrow> irq_state \<Rightarrow> irq_state option" where
  "softirq_dispatch_from run 0 i s = Some s"
| "softirq_dispatch_from run (Suc k) i s = do {
     en \<leftarrow> arr_get (softirq_enabled s) i;
     pd \<leftarrow> arr_get (softirq_pending s) i;
     if en \<noteq> 0 \<and> pd = 1 then do {
       cntr \<leftarrow> irq_cntr s SOFTIRQ_CNTR;
       irqs \<leftarrow> ic_irqs cntr;
       irq \<leftarrow> arr_get irqs i;
       n \<leftarrow> int_add (int i) (ic_irq_base cntr);
       softirq_dispatch_from run k (Suc i)
         (snd (metal_irq_handle run irq n (s\<lparr>softirq_pending := (softirq_pending s)[i := 0]\<rparr>)))
     } else softirq_dispatch_from run k (Suc i) s
   }"

definition metal_softirq_dispatch ::
  "(addr \<Rightarrow> int \<Rightarrow> addr \<Rightarrow> irq_state \<Rightarrow> int \<times> irq_state) \<Rightarrow> irq_state \<Rightarrow> irq_state option" where
  "metal_softirq_dispatch run s = softirq_dispatch_from run METAL_SOFTIRQ_NUM 0 s"

section \<open>Handlers\<close>

text \<open>
  \<open>set_enable\<close> and \<open>register\<close> are the functions of the platforms' controllers, by their address. A
  controller without \<open>irq_set_enable\<close> is called through NULL.
\<close>

definition metal_irq_set_enable_state ::
  "(addr \<Rightarrow> addr \<Rightarrow> int \<Rightarrow> u32 \<Rightarrow> irq_state \<Rightarrow> irq_state option) \<Rightarrow> int \<Rightarrow> u32 \<Rightarrow> irq_state \<Rightarrow> irq_state option" where
  "metal_irq_set_enable_state set_enable irq state s = do {
     r \<leftarrow> metal_irq_get_controller irq s;
     (case r of None \<Rightarrow> Some s
      | Some p \<Rightarrow> do {
          cntr \<leftarrow> irq_cntr s p;
          require (ic_irq_set_enable cntr \<noteq> NULL);
          if ic_irq_set_enable cntr = SOFTIRQ_SET_ENABLE then metal_softirq_set_enable p irq state s
          else set_enable (ic_irq_set_enable cntr) p irq state s
        })
   }"

definition metal_irq_register ::
  "(addr \<Rightarrow> addr \<Rightarrow> int \<Rightarrow> addr \<Rightarrow> addr \<Rightarrow> irq_state \<Rightarrow> (int \<times> irq_state) option) \<Rightarrow> int \<Rightarrow> addr \<Rightarrow> addr \<Rightarrow> irq_state \<Rightarrow>
   (int \<times> irq_state) option" where
  "metal_irq_register register irq irq_handler arg s = do {
     r \<leftarrow> metal_irq_get_controller irq s;
     (case r of None \<Rightarrow> Some (- IRQ_EINVAL, s)
      | Some p \<Rightarrow> do {
          cntr \<leftarrow> irq_cntr s p;
          if ic_irq_register cntr \<noteq> NULL then register (ic_irq_register cntr) p irq irq_handler arg s
          else (case ic_irqs cntr of None \<Rightarrow> Some (- IRQ_EINVAL, s)
            | Some irqs \<Rightarrow> do {
                irqs' \<leftarrow> arr_set irqs (nat (irq - ic_irq_base cntr)) \<lparr>mi_hd = irq_handler, mi_arg = arg\<rparr>;
                Some (0, s\<lparr>irq_cntr := (irq_cntr s)(p \<mapsto> cntr\<lparr>ic_irqs := Some irqs'\<rparr>)\<rparr>)
              })
        })
   }"

definition metal_irq_unregister ::
  "(addr \<Rightarrow> addr \<Rightarrow> int \<Rightarrow> addr \<Rightarrow> addr \<Rightarrow> irq_state \<Rightarrow> (int \<times> irq_state) option) \<Rightarrow> int \<Rightarrow> irq_state \<Rightarrow>
   (int \<times> irq_state) option" where
  "metal_irq_unregister register irq s = metal_irq_register register irq NULL NULL s"

definition metal_irq_enable ::
  "(addr \<Rightarrow> addr \<Rightarrow> int \<Rightarrow> u32 \<Rightarrow> irq_state \<Rightarrow> irq_state option) \<Rightarrow> u32 \<Rightarrow> irq_state \<Rightarrow> irq_state option" where
  "metal_irq_enable set_enable vector s = metal_irq_set_enable_state set_enable (sint vector) METAL_IRQ_ENABLE s"

definition metal_irq_disable ::
  "(addr \<Rightarrow> addr \<Rightarrow> int \<Rightarrow> u32 \<Rightarrow> irq_state \<Rightarrow> irq_state option) \<Rightarrow> u32 \<Rightarrow> irq_state \<Rightarrow> irq_state option" where
  "metal_irq_disable set_enable vector s = metal_irq_set_enable_state set_enable (sint vector) METAL_IRQ_DISABLE s"

section \<open>The ranges of the controllers\<close>

definition irq_range :: "metal_irq_controller \<Rightarrow> int set" where
  "irq_range c = {ic_irq_base c..<ic_irq_base c + ic_irq_num c}"

definition cntr_fits :: "metal_irq_controller \<Rightarrow> bool" where
  "cntr_fits c = (0 < ic_irq_num c \<and> - (2 ^ 31) \<le> ic_irq_base c \<and> ic_irq_base c + ic_irq_num c < 2 ^ 31)"

text \<open>Every registered controller exists once, and no two share an interrupt number.\<close>

definition cntrs_ok :: "irq_state \<Rightarrow> bool" where
  "cntrs_ok s = (distinct (irq_cntrs s)
     \<and> (\<forall>p \<in> set (irq_cntrs s). \<exists>c. irq_cntr s p = Some c \<and> cntr_fits c)
     \<and> (\<forall>p \<in> set (irq_cntrs s). \<forall>q \<in> set (irq_cntrs s). p \<noteq> q
          \<longrightarrow> irq_range (the (irq_cntr s p)) \<inter> irq_range (the (irq_cntr s q)) = {}))"

lemma ranges_meet:
  "cntr_fits c \<Longrightarrow> cntr_fits d \<Longrightarrow>
   (irq_range c \<inter> irq_range d \<noteq> {}) = (ic_irq_base c < ic_irq_base d + ic_irq_num d \<and> ic_irq_base c + ic_irq_num c > ic_irq_base d)"
  by (auto simp: irq_range_def cntr_fits_def)

lemma scan_explicit:
  assumes "base \<noteq> METAL_IRQ_ANY" and "\<forall>p \<in> set ps. \<exists>c. st p = Some c \<and> cntr_fits c"
  shows "irq_scan st base num ps t e
    = Some (if \<exists>p \<in> set ps. t < ic_irq_base (the (st p)) + ic_irq_num (the (st p)) \<and> e > ic_irq_base (the (st p))
            then METAL_IRQ_ANY else t)"
  using assms by (induction ps) (auto simp: int_add_def cntr_fits_def)

text \<open>
  C25: a controller with numbers of its own is registered exactly if no registered controller has one
  of them; otherwise the registration fails and changes nothing. In both cases no interrupt number
  belongs to two controllers afterwards.
\<close>

theorem irq_register_controller_disjoint:
  assumes "cntrs_ok s" and "p \<noteq> NULL" and "p \<notin> set (irq_cntrs s)" and "irq_cntr s p = Some c"
    and "cntr_fits c" and "ic_irq_base c \<noteq> METAL_IRQ_ANY"
  shows "\<exists>s'. cntrs_ok s' \<and> (if \<forall>q \<in> set (irq_cntrs s). irq_range c \<inter> irq_range (the (irq_cntr s q)) = {}
    then metal_irq_register_controller p s = Some (0, s') \<and> s' = s\<lparr>irq_cntrs := irq_cntrs s @ [p]\<rparr>
    else metal_irq_register_controller p s = Some (- IRQ_EINVAL, s') \<and> s' = s)"
proof -
  have all: "\<forall>q \<in> set (irq_cntrs s). \<exists>d. irq_cntr s q = Some d \<and> cntr_fits d"
    using assms(1) by (simp add: cntrs_ok_def)
  have meet: "(\<exists>q \<in> set (irq_cntrs s). ic_irq_base c < ic_irq_base (the (irq_cntr s q)) + ic_irq_num (the (irq_cntr s q))
      \<and> ic_irq_base c + ic_irq_num c > ic_irq_base (the (irq_cntr s q)))
    = (\<not> (\<forall>q \<in> set (irq_cntrs s). irq_range c \<inter> irq_range (the (irq_cntr s q)) = {}))"
    using all ranges_meet [OF assms(5)] by fastforce
  have alloc: "metal_irq_allocate s (ic_irq_base c) (ic_irq_num c)
    = Some (if \<forall>q \<in> set (irq_cntrs s). irq_range c \<inter> irq_range (the (irq_cntr s q)) = {} then ic_irq_base c else METAL_IRQ_ANY)"
    using scan_explicit [OF assms(6) all, of "ic_irq_num c" "ic_irq_base c" "ic_irq_base c + ic_irq_num c"] assms(5,6)
    unfolding meet by (auto simp: metal_irq_allocate_def int_add_def cntr_fits_def)
  have upd: "(irq_cntr s)(p \<mapsto> c\<lparr>ic_irq_base := ic_irq_base c\<rparr>) = irq_cntr s" using assms(4) by auto
  show ?thesis
  proof (cases "\<forall>q \<in> set (irq_cntrs s). irq_range c \<inter> irq_range (the (irq_cntr s q)) = {}")
    case True
    then have "cntrs_ok (s\<lparr>irq_cntrs := irq_cntrs s @ [p]\<rparr>)"
      using assms(1,3-5) by (auto simp: cntrs_ok_def Int_commute)
    then show ?thesis using True alloc assms upd by (auto simp: metal_irq_register_controller_def)
  next
    case False
    then show ?thesis using alloc assms by (auto simp: metal_irq_register_controller_def)
  qed
qed

section \<open>Assigned numbers\<close>

lemma scan_free:
  assumes "\<forall>p \<in> set ps. \<exists>c. st p = Some c \<and> cntr_fits c \<and> t + num \<le> ic_irq_base c"
  shows "irq_scan st METAL_IRQ_ANY num ps t (t + num) = Some t"
  using assms by (induction ps) (auto simp: int_add_def cntr_fits_def)

lemma scan_any:
  assumes "\<forall>p \<in> set ps. \<exists>c. st p = Some c \<and> cntr_fits c \<and> ic_irq_base c + ic_irq_num c + num < 2 ^ 31"
    and "sorted (map (\<lambda>p. ic_irq_base (the (st p))) ps)" and "0 < num" and "0 \<le> t" and "t + num < 2 ^ 31"
  shows "\<exists>r. irq_scan st METAL_IRQ_ANY num ps t (t + num) = Some r \<and> t \<le> r \<and> r + num < 2 ^ 31
    \<and> (\<forall>p \<in> set ps. ic_irq_base (the (st p)) + ic_irq_num (the (st p)) \<le> r \<or> r + num \<le> ic_irq_base (the (st p)))"
  using assms
proof (induction ps arbitrary: t)
  case Nil
  then show ?case by simp
next
  case (Cons p ps)
  obtain c where c: "st p = Some c" "cntr_fits c" "ic_irq_base c + ic_irq_num c + num < 2 ^ 31"
    using Cons.prems(1) by auto
  let ?e = "ic_irq_base c + ic_irq_num c"
  have e: "int_add (ic_irq_base c) (ic_irq_num c) = Some ?e" using c(2) by (simp add: int_add_def cntr_fits_def)
  consider (hit) "t < ?e" "t + num > ic_irq_base c" | (below) "t < ?e" "t + num \<le> ic_irq_base c" | (above) "?e \<le> t"
    by linarith
  then show ?case
  proof cases
    case hit
    have "int_add ?e num = Some (?e + num)" using hit(1) c(3) Cons.prems(3,4) by (simp add: int_add_def)
    moreover obtain r where "irq_scan st METAL_IRQ_ANY num ps ?e (?e + num) = Some r" "?e \<le> r" "r + num < 2 ^ 31"
      "\<forall>p \<in> set ps. ic_irq_base (the (st p)) + ic_irq_num (the (st p)) \<le> r \<or> r + num \<le> ic_irq_base (the (st p))"
      using Cons.IH [of ?e] Cons.prems hit(1) c(3) by auto
    ultimately show ?thesis using hit c(1) e by (auto intro!: exI [of _ r])
  next
    case below
    have "\<forall>q \<in> set ps. \<exists>d. st q = Some d \<and> cntr_fits d \<and> t + num \<le> ic_irq_base d"
      using Cons.prems(1,2) below c(1) by fastforce
    with scan_free have "irq_scan st METAL_IRQ_ANY num ps t (t + num) = Some t" by blast
    moreover have "\<forall>q \<in> set ps. t + num \<le> ic_irq_base (the (st q))" using Cons.prems(1,2) below c(1) by fastforce
    ultimately show ?thesis using below c(1) e Cons.prems(5) by auto
  next
    case above
    obtain r where "irq_scan st METAL_IRQ_ANY num ps t (t + num) = Some r" "t \<le> r" "r + num < 2 ^ 31"
      "\<forall>p \<in> set ps. ic_irq_base (the (st p)) + ic_irq_num (the (st p)) \<le> r \<or> r + num \<le> ic_irq_base (the (st p))"
      using Cons.IH [of t] Cons.prems by auto
    then show ?thesis using above c(1) e by auto
  qed
qed

text \<open>
  A controller that asks for any numbers gets ones of no other controller, if the registered
  controllers are in ascending order of their numbers.
\<close>

theorem irq_any_sorted_free:
  assumes "cntrs_ok s" and "sorted (map (\<lambda>q. ic_irq_base (the (irq_cntr s q))) (irq_cntrs s))"
    and "p \<noteq> NULL" and "p \<notin> set (irq_cntrs s)" and "irq_cntr s p = Some c"
    and "ic_irq_base c = METAL_IRQ_ANY" and "0 < ic_irq_num c" and "ic_irq_num c < 2 ^ 31"
    and "\<forall>q \<in> set (irq_cntrs s). ic_irq_base (the (irq_cntr s q)) + ic_irq_num (the (irq_cntr s q)) + ic_irq_num c < 2 ^ 31"
  shows "\<exists>base. 0 \<le> base \<and> metal_irq_register_controller p s = Some (0,
      s\<lparr>irq_cntr := (irq_cntr s)(p \<mapsto> c\<lparr>ic_irq_base := base\<rparr>), irq_cntrs := irq_cntrs s @ [p]\<rparr>)
    \<and> cntrs_ok (s\<lparr>irq_cntr := (irq_cntr s)(p \<mapsto> c\<lparr>ic_irq_base := base\<rparr>), irq_cntrs := irq_cntrs s @ [p]\<rparr>)"
proof -
  have all: "\<forall>q \<in> set (irq_cntrs s). \<exists>d. irq_cntr s q = Some d \<and> cntr_fits d"
    using assms(1) by (simp add: cntrs_ok_def)
  then have "\<forall>q \<in> set (irq_cntrs s). \<exists>d. irq_cntr s q = Some d \<and> cntr_fits d \<and> ic_irq_base d + ic_irq_num d + ic_irq_num c < 2 ^ 31"
    using assms(9) by fastforce
  from scan_any [OF this assms(2,7), of 0] obtain r
    where r: "irq_scan (irq_cntr s) METAL_IRQ_ANY (ic_irq_num c) (irq_cntrs s) 0 (ic_irq_num c) = Some r"
      "0 \<le> r" "r + ic_irq_num c < 2 ^ 31"
      "\<forall>q \<in> set (irq_cntrs s). ic_irq_base (the (irq_cntr s q)) + ic_irq_num (the (irq_cntr s q)) \<le> r
         \<or> r + ic_irq_num c \<le> ic_irq_base (the (irq_cntr s q))"
    using assms(8) by auto
  let ?c = "c\<lparr>ic_irq_base := r\<rparr>"
  have fits: "cntr_fits ?c" using r(2,3) assms(7) by (simp add: cntr_fits_def)
  have apart: "irq_range ?c \<inter> irq_range (the (irq_cntr s q)) = {}" if "q \<in> set (irq_cntrs s)" for q
    using r(4) that by (fastforce simp: irq_range_def)
  have "metal_irq_allocate s METAL_IRQ_ANY (ic_irq_num c) = Some r"
    using r(1) assms(7,8) by (simp add: metal_irq_allocate_def int_add_def)
  then have "metal_irq_register_controller p s = Some (0,
      s\<lparr>irq_cntr := (irq_cntr s)(p \<mapsto> ?c), irq_cntrs := irq_cntrs s @ [p]\<rparr>)"
    using assms r(2) by (simp add: metal_irq_register_controller_def)
  moreover have "cntrs_ok (s\<lparr>irq_cntr := (irq_cntr s)(p \<mapsto> ?c), irq_cntrs := irq_cntrs s @ [p]\<rparr>)"
    using assms(1,4) fits apart by (auto simp: cntrs_ok_def Int_commute)
  ultimately show ?thesis using r(2) by blast
qed

text \<open>
  A controller that asks for any numbers may get numbers that are taken when the registered ones are
  not in the order of their numbers: the search does not look again at the
  controllers it has passed. Whenever a controller at \<open>b\<close> was registered before one that covers all
  numbers below \<open>b\<close>, the new controller is put at \<open>b\<close>, and its first interrupt is looked up at the old one.
\<close>

theorem irq_any_may_overlap:
  assumes "irq_cntrs s = [p, q]" and "p \<noteq> q" and "irq_cntr s p = Some c" and "irq_cntr s q = Some d"
    and "cntr_fits c" and "ic_irq_base c = b" and "ic_irq_base d = 0" and "ic_irq_num d = b"
    and "irq_cntr s n = Some f" and "n \<notin> {NULL, p, q}" and "ic_irq_base f = METAL_IRQ_ANY"
    and "0 < ic_irq_num f" and "ic_irq_num f \<le> b" and "b + ic_irq_num f < 2 ^ 31"
  shows "\<exists>s'. cntrs_ok s \<and> metal_irq_register_controller n s = Some (0, s') \<and> \<not> cntrs_ok s'
    \<and> ic_irq_base (the (irq_cntr s' n)) = b \<and> metal_irq_get_controller b s' = Some (Some p)"
proof -
  have b: "0 < b" "b < 2 ^ 31" "b + ic_irq_num c < 2 ^ 31" "0 < ic_irq_num c"
    using assms(5,6,12-14) by (auto simp: cntr_fits_def)
  have ok: "cntrs_ok s" using assms(1-8) b by (auto simp: cntrs_ok_def irq_range_def cntr_fits_def)
  let ?s = "s\<lparr>irq_cntr := (irq_cntr s)(n \<mapsto> f\<lparr>ic_irq_base := b\<rparr>), irq_cntrs := irq_cntrs s @ [n]\<rparr>"
  have "metal_irq_allocate s METAL_IRQ_ANY (ic_irq_num f) = Some b"
    using assms b by (simp add: metal_irq_allocate_def int_add_def)
  then have reg: "metal_irq_register_controller n s = Some (0, ?s)"
    using assms b by (simp add: metal_irq_register_controller_def)
  have "b \<in> irq_range (the (irq_cntr ?s n)) \<inter> irq_range (the (irq_cntr ?s p))"
    using assms b by (simp add: irq_range_def)
  then have bad: "\<not> cntrs_ok ?s"
    using assms(1,10) by (auto simp: cntrs_ok_def)
  have "metal_irq_get_controller b ?s = Some (Some p)"
    using assms b by (simp add: metal_irq_get_controller_def int_add_def)
  then show ?thesis using ok reg bad by auto
qed

section \<open>Software interrupts reach their handlers\<close>

lemma get_controller_owner:
  assumes "\<forall>q \<in> set ps. \<exists>c. st q = Some c \<and> cntr_fits c" and "p \<in> set ps"
    and "\<forall>q \<in> set ps. q \<noteq> p \<longrightarrow> irq_range (the (st p)) \<inter> irq_range (the (st q)) = {}"
    and "irq \<in> irq_range (the (st p))"
  shows "get_controller st irq ps = Some (Some p)"
  using assms
proof (induction ps)
  case Nil
  then show ?case by simp
next
  case (Cons q ps)
  obtain c where c: "st q = Some c" "cntr_fits c" using Cons.prems(1) by auto
  then have e: "int_add (ic_irq_base c) (ic_irq_num c) = Some (ic_irq_base c + ic_irq_num c)"
    by (simp add: int_add_def cntr_fits_def)
  show ?case
  proof (cases "q = p")
    case True
    then show ?thesis using c e Cons.prems(4) by (simp add: irq_range_def)
  next
    case False
    then have "irq \<notin> irq_range c" using Cons.prems(3,4) c(1) by auto
    then show ?thesis using False c e Cons by (auto simp: irq_range_def)
  qed
qed

lemma get_controller_ok:
  assumes "cntrs_ok s" and "p \<in> set (irq_cntrs s)" and "irq \<in> irq_range (the (irq_cntr s p))"
  shows "metal_irq_get_controller irq s = Some (Some p)"
  unfolding metal_irq_get_controller_def
  by (rule get_controller_owner) (use assms in \<open>auto simp: cntrs_ok_def\<close>)

text \<open>The software controller is registered and its arrays have their static size.\<close>

definition soft_ready :: "irq_state \<Rightarrow> metal_irq_controller \<Rightarrow> bool" where
  "soft_ready s c = (cntrs_ok s \<and> SOFTIRQ_CNTR \<in> set (irq_cntrs s) \<and> irq_cntr s SOFTIRQ_CNTR = Some c
     \<and> ic_irq_num c = int METAL_SOFTIRQ_NUM \<and> ic_irq_set_enable c = SOFTIRQ_SET_ENABLE \<and> ic_irq_register c = NULL
     \<and> ic_irqs c \<noteq> None \<and> length (the (ic_irqs c)) = METAL_SOFTIRQ_NUM
     \<and> length (softirq_pending s) = METAL_SOFTIRQ_NUM \<and> length (softirq_enabled s) = METAL_SOFTIRQ_NUM)"

lemma soft_ready_fits: "soft_ready s c \<Longrightarrow> cntr_fits c"
  by (auto simp: soft_ready_def cntrs_ok_def)

text \<open>
  What a handler may do: run its own code, raise software interrupts and log calls of its own, but
  not take flags away or change the controllers.
\<close>

definition raises_only :: "(addr \<Rightarrow> int \<Rightarrow> addr \<Rightarrow> irq_state \<Rightarrow> int \<times> irq_state) \<Rightarrow> bool" where
  "raises_only run = (\<forall>h n a s. let s' = snd (run h n a s) in
     irq_cntr s' = irq_cntr s \<and> softirq_enabled s' = softirq_enabled s
     \<and> length (softirq_pending s') = length (softirq_pending s)
     \<and> (\<forall>i < length (softirq_pending s). softirq_pending s ! i = 1 \<longrightarrow> softirq_pending s' ! i = 1)
     \<and> set (irq_calls s) \<subseteq> set (irq_calls s'))"

lemma handle_raises:
  assumes "raises_only run" and "s' = snd (metal_irq_handle run d n s)"
  shows "irq_cntr s' = irq_cntr s \<and> softirq_enabled s' = softirq_enabled s
    \<and> length (softirq_pending s') = length (softirq_pending s)
    \<and> (\<forall>i < length (softirq_pending s). softirq_pending s ! i = 1 \<longrightarrow> softirq_pending s' ! i = 1)
    \<and> set (irq_calls s) \<subseteq> set (irq_calls s') \<and> (mi_hd d \<noteq> NULL \<longrightarrow> (mi_hd d, n, mi_arg d) \<in> set (irq_calls s'))"
proof (cases "mi_hd d = NULL")
  case True
  then show ?thesis using assms(2) by (simp add: metal_irq_handle_def)
next
  case False
  let ?s1 = "s\<lparr>irq_calls := irq_calls s @ [(mi_hd d, n, mi_arg d)]\<rparr>"
  have s': "s' = snd (run (mi_hd d) n (mi_arg d) ?s1)" using False assms(2) by (simp add: metal_irq_handle_def)
  have "irq_cntr s' = irq_cntr ?s1 \<and> softirq_enabled s' = softirq_enabled ?s1
     \<and> length (softirq_pending s') = length (softirq_pending ?s1)
     \<and> (\<forall>i < length (softirq_pending ?s1). softirq_pending ?s1 ! i = 1 \<longrightarrow> softirq_pending s' ! i = 1)
     \<and> set (irq_calls ?s1) \<subseteq> set (irq_calls s')"
    using assms(1) unfolding raises_only_def Let_def s' by blast
  then show ?thesis by auto
qed

lemma dispatch_runs:
  assumes "raises_only run" and "irq_cntr s SOFTIRQ_CNTR = Some c" and "cntr_fits c"
    and "ic_irq_num c = int METAL_SOFTIRQ_NUM" and "ic_irqs c = Some irqs" and "length irqs = METAL_SOFTIRQ_NUM"
    and "length (softirq_pending s) = METAL_SOFTIRQ_NUM" and "length (softirq_enabled s) = METAL_SOFTIRQ_NUM"
    and "i + k \<le> METAL_SOFTIRQ_NUM"
  shows "\<exists>s'. softirq_dispatch_from run k i s = Some s' \<and> set (irq_calls s) \<subseteq> set (irq_calls s')
    \<and> (\<forall>j. i \<le> j \<and> j < i + k \<and> softirq_enabled s ! j \<noteq> 0 \<and> softirq_pending s ! j = 1 \<and> mi_hd (irqs ! j) \<noteq> NULL
         \<longrightarrow> (mi_hd (irqs ! j), int j + ic_irq_base c, mi_arg (irqs ! j)) \<in> set (irq_calls s'))"
  using assms
proof (induction k arbitrary: i s)
  case 0
  then show ?case by auto
next
  case (Suc k)
  have i: "i < METAL_SOFTIRQ_NUM" using Suc.prems(9) by simp
  have n: "int_add (int i) (ic_irq_base c) = Some (int i + ic_irq_base c)"
    using i Suc.prems(3,4) by (auto simp: int_add_def cntr_fits_def)
  show ?case
  proof (cases "softirq_enabled s ! i \<noteq> 0 \<and> softirq_pending s ! i = 1")
    case True
    let ?s1 = "s\<lparr>softirq_pending := (softirq_pending s)[i := 0]\<rparr>"
    define s2 where "s2 = snd (metal_irq_handle run (irqs ! i) (int i + ic_irq_base c) ?s1)"
    note h = handle_raises [OF Suc.prems(1) s2_def]
    have "irq_cntr s2 SOFTIRQ_CNTR = Some c" "length (softirq_pending s2) = METAL_SOFTIRQ_NUM"
      "length (softirq_enabled s2) = METAL_SOFTIRQ_NUM" using h Suc.prems by simp_all
    then obtain s' where s': "softirq_dispatch_from run k (Suc i) s2 = Some s'" "set (irq_calls s2) \<subseteq> set (irq_calls s')"
      "\<forall>j. Suc i \<le> j \<and> j < Suc i + k \<and> softirq_enabled s2 ! j \<noteq> 0 \<and> softirq_pending s2 ! j = 1 \<and> mi_hd (irqs ! j) \<noteq> NULL
         \<longrightarrow> (mi_hd (irqs ! j), int j + ic_irq_base c, mi_arg (irqs ! j)) \<in> set (irq_calls s')"
      using Suc.IH [of s2 "Suc i"] Suc.prems by auto
    have step: "softirq_dispatch_from run (Suc k) i s = Some s'"
      using True i n s'(1) Suc.prems by (simp add: s2_def)
    have "(mi_hd (irqs ! j), int j + ic_irq_base c, mi_arg (irqs ! j)) \<in> set (irq_calls s')"
      if "i \<le> j" "j < i + Suc k" "softirq_enabled s ! j \<noteq> 0" "softirq_pending s ! j = 1" "mi_hd (irqs ! j) \<noteq> NULL" for j
    proof (cases "j = i")
      case True
      then show ?thesis using h s'(2) that(5) by auto
    next
      case False
      then have "softirq_pending s2 ! j = 1" using h that Suc.prems by auto
      then show ?thesis using s'(3) h that False by auto
    qed
    then show ?thesis using step s'(2) h by auto
  next
    case False
    obtain s' where s': "softirq_dispatch_from run k (Suc i) s = Some s'" "set (irq_calls s) \<subseteq> set (irq_calls s')"
      "\<forall>j. Suc i \<le> j \<and> j < Suc i + k \<and> softirq_enabled s ! j \<noteq> 0 \<and> softirq_pending s ! j = 1 \<and> mi_hd (irqs ! j) \<noteq> NULL
         \<longrightarrow> (mi_hd (irqs ! j), int j + ic_irq_base c, mi_arg (irqs ! j)) \<in> set (irq_calls s')"
      using Suc.IH [of s "Suc i"] Suc.prems by auto
    have "softirq_dispatch_from run (Suc k) i s = Some s'" using False i s'(1) Suc.prems by auto
    moreover have "j \<noteq> i" if "softirq_enabled s ! j \<noteq> 0" "softirq_pending s ! j = 1" for j using False that by auto
    ultimately show ?thesis using s' by (metis Suc_leI add_Suc_shift le_neq_implies_less)
  qed
qed

text \<open>Registering a handler and enabling the interrupt change one entry each.\<close>

lemma soft_register:
  assumes "soft_ready s c" and "irq \<in> irq_range c"
  shows "\<exists>c'. metal_irq_register register irq handler arg s
      = Some (0, s\<lparr>irq_cntr := (irq_cntr s)(SOFTIRQ_CNTR \<mapsto> c')\<rparr>)
    \<and> soft_ready (s\<lparr>irq_cntr := (irq_cntr s)(SOFTIRQ_CNTR \<mapsto> c')\<rparr>) c' \<and> irq_range c' = irq_range c
    \<and> ic_irq_base c' = ic_irq_base c
    \<and> the (ic_irqs c') = (the (ic_irqs c))[nat (irq - ic_irq_base c) := \<lparr>mi_hd = handler, mi_arg = arg\<rparr>]"
proof -
  have c: "irq_cntr s SOFTIRQ_CNTR = Some c" "SOFTIRQ_CNTR \<in> set (irq_cntrs s)" "cntrs_ok s"
    using assms(1) by (simp_all add: soft_ready_def)
  obtain irqs where irqs: "ic_irqs c = Some irqs" "length irqs = METAL_SOFTIRQ_NUM"
    using assms(1) by (auto simp: soft_ready_def)
  have get: "metal_irq_get_controller irq s = Some (Some SOFTIRQ_CNTR)"
    by (rule get_controller_ok) (use c assms(2) in auto)
  have idx: "nat (irq - ic_irq_base c) < length irqs"
    using assms irqs(2) by (auto simp: soft_ready_def irq_range_def)
  let ?c = "c\<lparr>ic_irqs := Some (irqs[nat (irq - ic_irq_base c) := \<lparr>mi_hd = handler, mi_arg = arg\<rparr>])\<rparr>"
  let ?s = "s\<lparr>irq_cntr := (irq_cntr s)(SOFTIRQ_CNTR \<mapsto> ?c)\<rparr>"
  have same: "irq_range (the (irq_cntr ?s p)) = irq_range (the (irq_cntr s p))" for p
    using c(1) by (simp add: irq_range_def)
  have "cntrs_ok ?s"
    using c soft_ready_fits [OF assms(1)] unfolding cntrs_ok_def same by (auto simp: cntr_fits_def)
  then have "soft_ready ?s ?c" using assms(1) irqs by (simp add: soft_ready_def)
  then show ?thesis
    using get c(1) irqs idx assms(1)
    by (intro exI [of _ ?c]) (simp add: metal_irq_register_def soft_ready_def irq_range_def)
qed

lemma soft_enable:
  assumes "soft_ready s c" and "irq \<in> irq_range c" and "sint vector = irq"
  shows "metal_irq_enable set_enable vector s
    = Some (s\<lparr>softirq_enabled := (softirq_enabled s)[nat (irq - ic_irq_base c) := 1]\<rparr>)"
proof -
  have c: "irq_cntr s SOFTIRQ_CNTR = Some c" "SOFTIRQ_CNTR \<in> set (irq_cntrs s)" "cntrs_ok s"
    using assms(1) by (simp_all add: soft_ready_def)
  have "metal_irq_get_controller irq s = Some (Some SOFTIRQ_CNTR)"
    by (rule get_controller_ok) (use c assms(2) in auto)
  then show ?thesis
    using assms c(1) soft_ready_fits [OF assms(1)]
    by (auto simp: metal_irq_enable_def metal_irq_set_enable_state_def metal_softirq_set_enable_def int_add_def
        soft_ready_def irq_range_def cntr_fits_def)
qed

lemma soft_set:
  assumes "soft_ready s c" and "irq \<in> irq_range c"
  shows "metal_softirq_set irq s = Some (s\<lparr>softirq_pending := (softirq_pending s)[nat (irq - ic_irq_base c) := 1]\<rparr>)"
  using assms soft_ready_fits [OF assms(1)]
  by (auto simp: metal_softirq_set_def int_add_def soft_ready_def irq_range_def cntr_fits_def)

text \<open>
  A software interrupt that has a handler, is enabled and raised is delivered by the next dispatch
  to this handler with its number and argument, whatever other interrupts the handlers raise.
\<close>

theorem softirq_reaches_handler:
  assumes "soft_ready s c" and "irq \<in> irq_range c" and "sint vector = irq" and "handler \<noteq> NULL"
    and "raises_only run" and "irq_calls s = []"
  shows "\<exists>s1 s2 s3 s4. metal_irq_register register irq handler arg s = Some (0, s1)
    \<and> metal_irq_enable set_enable vector s1 = Some s2 \<and> metal_softirq_set irq s2 = Some s3
    \<and> metal_softirq_dispatch run s3 = Some s4 \<and> (handler, irq, arg) \<in> set (irq_calls s4)"
proof -
  let ?i = "nat (irq - ic_irq_base c)"
  obtain s1 c' where s1: "metal_irq_register register irq handler arg s = Some (0, s1)" "soft_ready s1 c'"
    "irq_range c' = irq_range c" "ic_irq_base c' = ic_irq_base c"
    "the (ic_irqs c') = (the (ic_irqs c))[?i := \<lparr>mi_hd = handler, mi_arg = arg\<rparr>]"
    using soft_register [OF assms(1,2)] by metis
  have irq: "irq \<in> irq_range c'" using s1(3) assms(2) by simp
  have i: "?i < METAL_SOFTIRQ_NUM" "int ?i + ic_irq_base c = irq"
    using assms(1,2) by (auto simp: soft_ready_def irq_range_def)
  let ?s2 = "s1\<lparr>softirq_enabled := (softirq_enabled s1)[?i := 1]\<rparr>"
  let ?s3 = "?s2\<lparr>softirq_pending := (softirq_pending s1)[?i := 1]\<rparr>"
  have en: "metal_irq_enable set_enable vector s1 = Some ?s2"
    using soft_enable [OF s1(2) irq assms(3)] s1(4) by simp
  have r2: "soft_ready ?s2 c'" using s1(2) by (simp add: soft_ready_def cntrs_ok_def)
  have st: "metal_softirq_set irq ?s2 = Some ?s3"
    using soft_set [OF r2 irq] s1(4) by simp
  obtain irqs where irqs: "ic_irqs c' = Some irqs" "length irqs = METAL_SOFTIRQ_NUM"
    using s1(2) by (auto simp: soft_ready_def)
  have "irqs ! ?i = \<lparr>mi_hd = handler, mi_arg = arg\<rparr>"
    using s1(5) irqs assms(1) i(1) by (auto simp: soft_ready_def)
  moreover obtain s4 where "metal_softirq_dispatch run ?s3 = Some s4"
    "\<forall>j. 0 \<le> j \<and> j < 0 + METAL_SOFTIRQ_NUM \<and> softirq_enabled ?s3 ! j \<noteq> 0 \<and> softirq_pending ?s3 ! j = 1 \<and> mi_hd (irqs ! j) \<noteq> NULL
       \<longrightarrow> (mi_hd (irqs ! j), int j + ic_irq_base c', mi_arg (irqs ! j)) \<in> set (irq_calls s4)"
    using dispatch_runs [OF assms(5), of ?s3 c' irqs 0 METAL_SOFTIRQ_NUM] s1(2) irqs soft_ready_fits [OF s1(2)]
    by (auto simp: soft_ready_def metal_softirq_dispatch_def)
  ultimately have "(handler, irq, arg) \<in> set (irq_calls s4)" "metal_softirq_dispatch run ?s3 = Some s4"
    using s1(2,4) assms(4) i by (auto simp: soft_ready_def dest!: spec [of _ ?i])
  then show ?thesis using s1(1) en st by blast
qed

text \<open>
  Allocated software interrupts are numbers of the software controller that were not handed out
  before. The last of them is never handed out: a request that would use it is refused, although the
  controller has it.
\<close>

theorem softirq_allocate_range:
  assumes "soft_ready s c" and "0 \<le> softirq_avail s" and "softirq_avail s + num \<le> int METAL_SOFTIRQ_NUM"
    and "0 < num" and "0 \<le> ic_irq_base c"
  shows "metal_softirq_allocate num s
    = Some (if softirq_avail s + num = int METAL_SOFTIRQ_NUM then (- IRQ_EINVAL, s)
            else (ic_irq_base c + softirq_avail s, s\<lparr>softirq_avail := softirq_avail s + num\<rparr>))
    \<and> {ic_irq_base c + softirq_avail s..<ic_irq_base c + softirq_avail s + num} \<subseteq> irq_range c"
  using assms soft_ready_fits [OF assms(1)]
  by (auto simp: metal_softirq_allocate_def int_add_def soft_ready_def cntr_fits_def irq_range_def)

section \<open>A concrete registry\<close>

text \<open>A platform's controller with the numbers from 16 to 31, and the software controller behind it.\<close>

definition demo_cntr :: "int \<Rightarrow> int \<Rightarrow> metal_irq_controller" where
  "demo_cntr base num = \<lparr>ic_irq_base = base, ic_irq_num = num, ic_arg = NULL, ic_irq_set_enable = 0x50,
     ic_irq_register = NULL, ic_irqs = None\<rparr>"

definition demo_irqs :: irq_state where
  "demo_irqs = \<lparr>irq_cntrs = [0x10],
     irq_cntr = [0x10 \<mapsto> demo_cntr 0 16, 0x20 \<mapsto> demo_cntr 8 16, 0x30 \<mapsto> demo_cntr 16 4, SOFTIRQ_CNTR \<mapsto> metal_softirq_cntr],
     softirq_avail = 0, softirq_pending = replicate METAL_SOFTIRQ_NUM 0,
     softirq_enabled = replicate METAL_SOFTIRQ_NUM 0, irq_calls = []\<rparr>"

lemma demo_irqs_ok: "cntrs_ok demo_irqs"
  by (simp add: cntrs_ok_def demo_irqs_def demo_cntr_def cntr_fits_def)

definition demo_soft :: irq_state where
  "demo_soft = demo_irqs\<lparr>irq_cntr := (irq_cntr demo_irqs)(SOFTIRQ_CNTR \<mapsto> metal_softirq_cntr\<lparr>ic_irq_base := 16\<rparr>),
     irq_cntrs := [0x10, SOFTIRQ_CNTR]\<rparr>"

lemma demo_soft_ready: "soft_ready demo_soft (metal_softirq_cntr\<lparr>ic_irq_base := 16\<rparr>)"
  by (simp add: soft_ready_def cntrs_ok_def demo_soft_def demo_irqs_def demo_cntr_def cntr_fits_def irq_range_def
      metal_softirq_cntr_def)

theorem irq_register_controller_disjoint_witness:
  "metal_irq_register_controller 0x20 demo_irqs = Some (- IRQ_EINVAL, demo_irqs)
    \<and> (\<exists>s'. metal_irq_register_controller 0x30 demo_irqs = Some (0, s') \<and> cntrs_ok s')"
proof -
  have "\<not> (\<forall>q \<in> set (irq_cntrs demo_irqs). irq_range (demo_cntr 8 16) \<inter> irq_range (the (irq_cntr demo_irqs q)) = {})"
    by (auto simp: irq_range_def demo_irqs_def demo_cntr_def)
  then have "metal_irq_register_controller 0x20 demo_irqs = Some (- IRQ_EINVAL, demo_irqs)"
    using irq_register_controller_disjoint [OF demo_irqs_ok, of "0x20" "demo_cntr 8 16"]
    by (simp add: demo_irqs_def demo_cntr_def cntr_fits_def)
  moreover have "\<forall>q \<in> set (irq_cntrs demo_irqs). irq_range (demo_cntr 16 4) \<inter> irq_range (the (irq_cntr demo_irqs q)) = {}"
    by (auto simp: irq_range_def demo_irqs_def demo_cntr_def)
  then have "\<exists>s'. metal_irq_register_controller 0x30 demo_irqs = Some (0, s') \<and> cntrs_ok s'"
    using irq_register_controller_disjoint [OF demo_irqs_ok, of "0x30" "demo_cntr 16 4"]
    by (simp add: demo_irqs_def demo_cntr_def cntr_fits_def)
  ultimately show ?thesis by blast
qed

theorem irq_any_sorted_free_witness:
  "\<exists>s'. metal_irq_register_controller SOFTIRQ_CNTR demo_irqs = Some (0, s') \<and> cntrs_ok s'"
  using irq_any_sorted_free [OF demo_irqs_ok, of SOFTIRQ_CNTR metal_softirq_cntr]
  by (auto simp: demo_irqs_def demo_cntr_def metal_softirq_cntr_def)

theorem irq_any_may_overlap_witness:
  "\<exists>s'. metal_irq_register_controller SOFTIRQ_CNTR (demo_irqs\<lparr>irq_cntrs := [0x30, 0x10],
      irq_cntr := (irq_cntr demo_irqs)(SOFTIRQ_CNTR \<mapsto> metal_softirq_cntr\<lparr>ic_irq_num := 8\<rparr>)\<rparr>) = Some (0, s') \<and> \<not> cntrs_ok s'"
  using irq_any_may_overlap [of "demo_irqs\<lparr>irq_cntrs := [0x30, 0x10],
      irq_cntr := (irq_cntr demo_irqs)(SOFTIRQ_CNTR \<mapsto> metal_softirq_cntr\<lparr>ic_irq_num := 8\<rparr>)\<rparr>" "0x30" "0x10" "demo_cntr 16 4"
      "demo_cntr 0 16" 16 SOFTIRQ_CNTR "metal_softirq_cntr\<lparr>ic_irq_num := 8\<rparr>"]
  by (auto simp: demo_irqs_def demo_cntr_def metal_softirq_cntr_def cntr_fits_def)

theorem softirq_reaches_handler_witness:
  "\<exists>s1 s2 s3 s4. metal_irq_register (\<lambda>_ _ _ _ _ _. None) 20 0x800 0x900 demo_soft = Some (0, s1)
    \<and> metal_irq_enable (\<lambda>_ _ _ _ _. None) 20 s1 = Some s2 \<and> metal_softirq_set 20 s2 = Some s3
    \<and> metal_softirq_dispatch (\<lambda>h n a s. (1, s\<lparr>softirq_pending := (softirq_pending s)[3 := 1]\<rparr>)) s3 = Some s4
    \<and> (0x800, 20, 0x900) \<in> set (irq_calls s4)"
proof (rule softirq_reaches_handler [OF demo_soft_ready])
  show "raises_only (\<lambda>h n a s. (1, s\<lparr>softirq_pending := (softirq_pending s)[3 := 1]\<rparr>))"
    by (auto simp: raises_only_def Let_def) (metis nth_list_update_eq nth_list_update_neq)
qed (simp_all add: irq_range_def metal_softirq_cntr_def demo_soft_def demo_irqs_def)

theorem softirq_allocate_range_witness:
  "\<exists>s'. metal_softirq_allocate 2 demo_soft = Some (16, s') \<and> metal_softirq_allocate 64 demo_soft = Some (- IRQ_EINVAL, demo_soft)"
  using softirq_allocate_range [OF demo_soft_ready, of 2] softirq_allocate_range [OF demo_soft_ready, of 64]
  by (auto simp: demo_soft_def demo_irqs_def metal_softirq_cntr_def)

end
