(* ===== verification/Metal_Device.thy ===== *)
theory Metal_Device
  imports Metal_List Metal_Io
begin

text \<open>
  \<^verbatim>\<open>src/openamp/libmetal/lib/device.c\<close>, \<^verbatim>\<open>shmem.c\<close>, \<^verbatim>\<open>dma.c\<close> and \<^verbatim>\<open>init.c\<close>: the registries of buses, devices and
  shared memory segments, the generic bus, and the reference-counted initialisation of the library.
  The registries are lists threaded through the registered objects, over the store of nodes of the
  list theory; an object is named by the address of its node. Function pointers are addresses: those
  of the generic bus are known, every other belongs to a bus of a system and is a parameter.
\<close>

section \<open>Data\<close>

abbreviation (input) DEV_EINVAL :: int where "DEV_EINVAL \<equiv> 22"
abbreviation (input) DEV_ENOENT :: int where "DEV_ENOENT \<equiv> 2"
abbreviation (input) DEV_EEXIST :: int where "DEV_EEXIST \<equiv> 17"
abbreviation (input) DEV_ENODEV :: int where "DEV_ENODEV \<equiv> 19"
abbreviation (input) METAL_MAX_DEVICE_REGIONS :: u32 where "METAL_MAX_DEVICE_REGIONS \<equiv> 32"
abbreviation (input) METAL_DMA_DEV_R :: u32 where "METAL_DMA_DEV_R \<equiv> 1"
abbreviation (input) METAL_DMA_DEV_W :: u32 where "METAL_DMA_DEV_W \<equiv> 2"

text \<open>The heads of the three lists of \<^verbatim>\<open>_metal.common\<close>, and the generic bus with its functions.\<close>

abbreviation (input) BUS_LIST :: addr where "BUS_LIST \<equiv> 0x10"
abbreviation (input) SHMEM_LIST :: addr where "SHMEM_LIST \<equiv> 0x20"
abbreviation (input) DEVICE_LIST :: addr where "DEVICE_LIST \<equiv> 0x30"
abbreviation (input) GENERIC_BUS :: addr where "GENERIC_BUS \<equiv> 0x40"
abbreviation (input) GENERIC_OPEN :: addr where "GENERIC_OPEN \<equiv> 0x50"
abbreviation (input) GENERIC_DMA_MAP :: addr where "GENERIC_DMA_MAP \<equiv> 0x58"
abbreviation (input) GENERIC_DMA_UNMAP :: addr where "GENERIC_DMA_UNMAP \<equiv> 0x60"

record metal_bus_ops =
  bo_bus_close :: addr
  bo_dev_open :: addr
  bo_dev_close :: addr
  bo_dev_irq_ack :: addr
  bo_dev_dma_map :: addr
  bo_dev_dma_unmap :: addr

text \<open>\<open>mb_devices\<close> is the address of the list head inside the bus. A name is a C string or NULL.\<close>

record metal_bus =
  mb_name :: "string option"
  mb_ops :: metal_bus_ops
  mb_devices :: addr

record metal_device =
  md_name :: "string option"
  md_bus :: addr
  md_num_regions :: u32
  md_regions :: "metal_io_region list"

record metal_generic_shmem =
  gs_name :: "string option"
  gs_io :: metal_io_region
  gs_close :: addr

record metal_sg =
  sg_virt :: addr
  sg_io :: addr
  sg_len :: int

datatype cache_op = Flush addr int | Invalidate addr int

record metal_state =
  ms_ref_count :: int
  ms_log_level :: int
  ms_log_handler :: addr
  ms_nodes :: nodes
  ms_buses :: "addr \<Rightarrow> metal_bus option"
  ms_devices :: "addr \<Rightarrow> metal_device option"
  ms_shmems :: "addr \<Rightarrow> metal_generic_shmem option"
  ms_cache :: "cache_op list"

definition metal_generic_bus :: metal_bus where
  "metal_generic_bus = \<lparr>mb_name = Some ''generic'',
     mb_ops = \<lparr>bo_bus_close = NULL, bo_dev_open = GENERIC_OPEN, bo_dev_close = NULL, bo_dev_irq_ack = NULL,
               bo_dev_dma_map = GENERIC_DMA_MAP, bo_dev_dma_unmap = GENERIC_DMA_UNMAP\<rparr>,
     mb_devices = 0x48\<rparr>"

text \<open>\<open>metal_list_for_each\<close> with a test that ends the walk; \<open>Some None\<close> is the end of the list.\<close>

partial_function (option) list_search ::
  "(addr \<Rightarrow> bool option) \<Rightarrow> nodes \<Rightarrow> addr \<Rightarrow> addr \<Rightarrow> addr option option" where
  "list_search test h list n =
     (if n = list then Some None
      else do {
        hit \<leftarrow> test n;
        if hit then Some (Some n) else list_search test h list (ml_next (h n))
      })"

section \<open>Buses\<close>

text \<open>\<open>result\<close> tells whether the caller's result pointer is not NULL.\<close>

definition metal_bus_find :: "string \<Rightarrow> bool \<Rightarrow> metal_state \<Rightarrow> (int \<times> addr option) option" where
  "metal_bus_find name result s = do {
     r \<leftarrow> list_search (\<lambda>n. do {
            bus \<leftarrow> ms_buses s n;
            bus_name \<leftarrow> mb_name bus;
            Some (bus_name = name \<and> result)
          }) (ms_nodes s) BUS_LIST (ml_next (ms_nodes s BUS_LIST));
     Some (case r of None \<Rightarrow> (- DEV_ENOENT, None) | Some p \<Rightarrow> (0, Some p))
   }"

definition metal_bus_register :: "addr \<Rightarrow> metal_state \<Rightarrow> (int \<times> metal_state) option" where
  "metal_bus_register bus s =
     (if bus = NULL then Some (- DEV_EINVAL, s)
      else do {
        b \<leftarrow> ms_buses s bus;
        (case mb_name b of None \<Rightarrow> Some (- DEV_EINVAL, s)
         | Some name \<Rightarrow>
             if name = [] then Some (- DEV_EINVAL, s)
             else do {
               (r, _) \<leftarrow> metal_bus_find name False s;
               if r = 0 then Some (- DEV_EEXIST, s)
               else Some (0, s\<lparr>ms_nodes := metal_list_add_tail (metal_list_init (ms_nodes s) (mb_devices b)) BUS_LIST bus\<rparr>)
             })
      })"

text \<open>\<open>bus_close\<close> is what the close functions of the buses do to the state, by their address.\<close>

definition metal_bus_unregister ::
  "(addr \<Rightarrow> addr \<Rightarrow> metal_state \<Rightarrow> metal_state option) \<Rightarrow> addr \<Rightarrow> metal_state \<Rightarrow> (int \<times> metal_state) option" where
  "metal_bus_unregister bus_close bus s = do {
     b \<leftarrow> ms_buses s bus;
     let s1 = s\<lparr>ms_nodes := metal_list_del (ms_nodes s) bus\<rparr>;
     s2 \<leftarrow> (if bo_bus_close (mb_ops b) \<noteq> NULL then bus_close (bo_bus_close (mb_ops b)) bus s1 else Some s1);
     Some (0, s2)
   }"

section \<open>Devices\<close>

definition metal_register_generic_device :: "addr \<Rightarrow> metal_state \<Rightarrow> (int \<times> metal_state) option" where
  "metal_register_generic_device device s = do {
     d \<leftarrow> ms_devices s device;
     (case md_name d of None \<Rightarrow> Some (- DEV_EINVAL, s)
      | Some name \<Rightarrow>
          if name = [] \<or> METAL_MAX_DEVICE_REGIONS < md_num_regions d then Some (- DEV_EINVAL, s)
          else Some (0, s\<lparr>ms_devices := (ms_devices s)(device \<mapsto> d\<lparr>md_bus := GENERIC_BUS\<rparr>),
                          ms_nodes := metal_list_add_tail (ms_nodes s) DEVICE_LIST device\<rparr>))
   }"

text \<open>
  \<^verbatim>\<open>lib/system/generic/device.c\<close>: map the regions up to the first empty one. \<open>mem_map\<close> is the system's
  \<open>metal_sys_io_mem_map\<close>.
\<close>

fun map_regions ::
  "(metal_io_region \<Rightarrow> metal_io_region) \<Rightarrow> nat \<Rightarrow> nat \<Rightarrow> metal_io_region list \<Rightarrow> metal_io_region list option" where
  "map_regions mem_map 0 i regions = Some regions"
| "map_regions mem_map (Suc k) i regions = do {
     io \<leftarrow> arr_get regions i;
     if io_size io = 0 then Some regions
     else do {
       regions' \<leftarrow> arr_set regions i (mem_map io);
       map_regions mem_map k (Suc i) regions'
     }
   }"

definition metal_generic_dev_sys_open ::
  "(metal_io_region \<Rightarrow> metal_io_region) \<Rightarrow> addr \<Rightarrow> metal_state \<Rightarrow> (int \<times> metal_state) option" where
  "metal_generic_dev_sys_open mem_map dev s = do {
     d \<leftarrow> ms_devices s dev;
     regions \<leftarrow> map_regions mem_map (unat (md_num_regions d)) 0 (md_regions d);
     Some (0, s\<lparr>ms_devices := (ms_devices s)(dev \<mapsto> d\<lparr>md_regions := regions\<rparr>)\<rparr>)
   }"

definition metal_generic_dev_open ::
  "(metal_io_region \<Rightarrow> metal_io_region) \<Rightarrow> string \<Rightarrow> metal_state \<Rightarrow> (int \<times> addr option \<times> metal_state) option" where
  "metal_generic_dev_open mem_map dev_name s = do {
     r \<leftarrow> list_search (\<lambda>n. do {
            dev \<leftarrow> ms_devices s n;
            name \<leftarrow> md_name dev;
            Some (name = dev_name)
          }) (ms_nodes s) DEVICE_LIST (ml_next (ms_nodes s DEVICE_LIST));
     (case r of None \<Rightarrow> Some (- DEV_ENODEV, None, s)
      | Some dev \<Rightarrow> do {
          (e, s') \<leftarrow> metal_generic_dev_sys_open mem_map dev s;
          Some (e, Some dev, s')
        })
   }"

text \<open>\<open>dev_open\<close> and \<open>dev_close\<close> are the functions of the other buses. The third component is what is
  stored through \<open>device\<close>.\<close>

definition metal_device_open ::
  "(metal_io_region \<Rightarrow> metal_io_region) \<Rightarrow> (addr \<Rightarrow> addr \<Rightarrow> string \<Rightarrow> metal_state \<Rightarrow> (int \<times> addr option \<times> metal_state) option) \<Rightarrow>
   string option \<Rightarrow> string option \<Rightarrow> bool \<Rightarrow> metal_state \<Rightarrow> (int \<times> addr option \<times> metal_state) option" where
  "metal_device_open mem_map dev_open bus_name dev_name device s =
     (if bus_name \<in> {None, Some []} \<or> dev_name \<in> {None, Some []} \<or> \<not> device then Some (- DEV_EINVAL, None, s)
      else do {
        (error, r) \<leftarrow> metal_bus_find (the bus_name) True s;
        if error \<noteq> 0 then Some (error, None, s)
        else do {
          bus \<leftarrow> r;
          b \<leftarrow> ms_buses s bus;
          if bo_dev_open (mb_ops b) = NULL then Some (- DEV_ENODEV, None, s)
          else if bo_dev_open (mb_ops b) = GENERIC_OPEN then metal_generic_dev_open mem_map (the dev_name) s
          else dev_open (bo_dev_open (mb_ops b)) bus (the dev_name) s
        }
      })"

definition metal_device_close ::
  "(addr \<Rightarrow> addr \<Rightarrow> addr \<Rightarrow> metal_state \<Rightarrow> metal_state option) \<Rightarrow> addr \<Rightarrow> metal_state \<Rightarrow> metal_state option" where
  "metal_device_close dev_close device s = do {
     require (device \<noteq> NULL);
     d \<leftarrow> ms_devices s device;
     require (md_bus d \<noteq> NULL);
     b \<leftarrow> ms_buses s (md_bus d);
     if bo_dev_close (mb_ops b) \<noteq> NULL then dev_close (bo_dev_close (mb_ops b)) (md_bus d) device s else Some s
   }"

definition metal_device_io_region :: "metal_device \<Rightarrow> u32 \<Rightarrow> metal_io_region option option" where
  "metal_device_io_region device index =
     (if index < md_num_regions device then map_option Some (arr_get (md_regions device) (unat index)) else Some None)"

section \<open>Mapping for DMA\<close>

text \<open>
  The list that is returned is the contents of \<open>sg_out\<close>: a copy of \<open>sg_in\<close>, or the same array (\<open>same\<close>). The
  cache operations of the processor are recorded in \<open>ms_cache\<close>, the newest last.
\<close>

fun dma_map_ops :: "u32 \<Rightarrow> metal_sg list \<Rightarrow> cache_op list" where
  "dma_map_ops dir [] = []"
| "dma_map_ops dir (sg # sgs) =
     (if dir = METAL_DMA_DEV_W then [Flush (sg_virt sg) (sg_len sg)] else [])
     @ Invalidate (sg_virt sg) (sg_len sg) # dma_map_ops dir sgs"

definition metal_generic_dev_dma_map ::
  "bool \<Rightarrow> u32 \<Rightarrow> metal_sg list \<Rightarrow> int \<Rightarrow> metal_state \<Rightarrow> (int \<times> metal_sg list \<times> metal_state) option" where
  "metal_generic_dev_dma_map same dir sg_in nents_in s = do {
     require (same \<or> 0 \<le> nents_in);
     require (nat nents_in \<le> length sg_in);
     let sg_out = take (nat nents_in) sg_in;
     Some (nents_in, sg_out, s\<lparr>ms_cache := ms_cache s @ dma_map_ops dir sg_out\<rparr>)
   }"

definition metal_generic_dev_dma_unmap :: "metal_sg list \<Rightarrow> int \<Rightarrow> metal_state \<Rightarrow> metal_state option" where
  "metal_generic_dev_dma_unmap sg nents s = do {
     require (nat nents \<le> length sg);
     Some (s\<lparr>ms_cache := ms_cache s @ map (\<lambda>g. Invalidate (sg_virt g) (sg_len g)) (take (nat nents) sg)\<rparr>)
   }"

text \<open>
  The memory fences have no effect on a single processor. \<open>None\<close> for a scatter list is NULL; \<open>sg_out\<close> tells
  whether it is the same array as \<open>sg_in\<close>.
\<close>

definition metal_dma_map ::
  "(addr \<Rightarrow> addr \<Rightarrow> u32 \<Rightarrow> metal_sg list \<Rightarrow> int \<Rightarrow> metal_state \<Rightarrow> (int \<times> metal_sg list \<times> metal_state) option) \<Rightarrow>
   addr \<Rightarrow> u32 \<Rightarrow> metal_sg list option \<Rightarrow> int \<Rightarrow> bool option \<Rightarrow> metal_state \<Rightarrow> (int \<times> metal_sg list \<times> metal_state) option" where
  "metal_dma_map dma_map dev dir sg_in nents_in sg_out s =
     (if dev = NULL \<or> sg_in = None \<or> sg_out = None then Some (- DEV_EINVAL, [], s)
      else do {
        d \<leftarrow> ms_devices s dev;
        b \<leftarrow> ms_buses s (md_bus d);
        if bo_dev_dma_map (mb_ops b) = NULL then Some (- DEV_ENODEV, [], s)
        else if bo_dev_dma_map (mb_ops b) = GENERIC_DMA_MAP then metal_generic_dev_dma_map (the sg_out) dir (the sg_in) nents_in s
        else dma_map (bo_dev_dma_map (mb_ops b)) dev dir (the sg_in) nents_in s
      })"

definition metal_dma_unmap ::
  "(addr \<Rightarrow> addr \<Rightarrow> u32 \<Rightarrow> metal_sg list \<Rightarrow> int \<Rightarrow> metal_state \<Rightarrow> metal_state option) \<Rightarrow>
   addr \<Rightarrow> u32 \<Rightarrow> metal_sg list option \<Rightarrow> int \<Rightarrow> metal_state \<Rightarrow> metal_state option" where
  "metal_dma_unmap dma_unmap dev dir sg nents s =
     (if dev = NULL then Some s
      else do {
        d \<leftarrow> ms_devices s dev;
        b \<leftarrow> ms_buses s (md_bus d);
        if bo_dev_dma_unmap (mb_ops b) = NULL \<or> sg = None then Some s
        else if bo_dev_dma_unmap (mb_ops b) = GENERIC_DMA_UNMAP then metal_generic_dev_dma_unmap (the sg) nents s
        else dma_unmap (bo_dev_dma_unmap (mb_ops b)) dev dir (the sg) nents s
      })"

section \<open>Shared memory\<close>

definition metal_shmem_register_generic :: "addr \<Rightarrow> metal_state \<Rightarrow> (int \<times> metal_state) option" where
  "metal_shmem_register_generic shmem s = do {
     g \<leftarrow> ms_shmems s shmem;
     name \<leftarrow> gs_name g;
     require (name \<noteq> []);
     require (gs_close g = NULL);
     Some (0, s\<lparr>ms_nodes := metal_list_add_tail (ms_nodes s) SHMEM_LIST shmem\<rparr>)
   }"

definition metal_shmem_open_generic :: "string \<Rightarrow> u64 \<Rightarrow> metal_state \<Rightarrow> (int \<times> addr option) option" where
  "metal_shmem_open_generic name sz s = do {
     r \<leftarrow> list_search (\<lambda>n. do {
            g \<leftarrow> ms_shmems s n;
            shmem_name \<leftarrow> gs_name g;
            Some (shmem_name = name \<and> sz \<le> metal_io_region_size (gs_io g))
          }) (ms_nodes s) SHMEM_LIST (ml_next (ms_nodes s SHMEM_LIST));
     Some (case r of None \<Rightarrow> (- DEV_ENOENT, None) | Some p \<Rightarrow> (0, Some p))
   }"

section \<open>Initialisation\<close>

text \<open>
  Clearing \<^verbatim>\<open>_metal\<close> zeroes the count, the log settings and the list heads. \<open>sys_init\<close> and \<open>sys_finish\<close> are the
  functions of the system layer.
\<close>

definition clear_metal :: "metal_state \<Rightarrow> metal_state" where
  "clear_metal s =
     (let zero = \<lparr>ml_next = NULL, ml_prev = NULL\<rparr> in
      s\<lparr>ms_ref_count := 0, ms_log_level := 0, ms_log_handler := NULL,
        ms_nodes := (ms_nodes s)(BUS_LIST := zero, SHMEM_LIST := zero, DEVICE_LIST := zero)\<rparr>)"

definition metal_init ::
  "(metal_state \<Rightarrow> int \<times> metal_state) \<Rightarrow> addr \<Rightarrow> int \<Rightarrow> metal_state \<Rightarrow> (int \<times> metal_state) option" where
  "metal_init sys_init log_handler log_level s = do {
     n \<leftarrow> int_add (ms_ref_count s) 1;
     let s1 = s\<lparr>ms_ref_count := n\<rparr>;
     if ms_ref_count s \<noteq> 0 then Some (0, s1)
     else do {
       let s2 = (clear_metal s1)\<lparr>ms_log_handler := log_handler, ms_log_level := log_level\<rparr>;
       let s3 = s2\<lparr>ms_nodes := metal_list_init (metal_list_init (metal_list_init (ms_nodes s2) BUS_LIST)
                              SHMEM_LIST) DEVICE_LIST\<rparr>;
       let (error, s4) = sys_init s3;
       if error \<noteq> 0 then Some (error, s4)
       else do {
         k \<leftarrow> int_add (ms_ref_count s4) 1;
         Some (error, s4\<lparr>ms_ref_count := k\<rparr>)
       }
     }
   }"

definition metal_finish :: "(metal_state \<Rightarrow> metal_state) \<Rightarrow> metal_state \<Rightarrow> metal_state option" where
  "metal_finish sys_finish s = do {
     n \<leftarrow> int_add (ms_ref_count s) (- 1);
     let s1 = s\<lparr>ms_ref_count := n\<rparr>;
     if n \<noteq> 0 then Some s1 else Some (clear_metal (sys_finish s1))
   }"

section \<open>Walking a registry\<close>

text \<open>The nodes between \<open>a\<close> and \<open>b\<close> in the direction of \<open>next\<close>.\<close>

fun nexts :: "nodes \<Rightarrow> addr \<Rightarrow> addr list \<Rightarrow> addr \<Rightarrow> bool" where
  "nexts h a [] b = (ml_next (h a) = b)"
| "nexts h a (x # xs) b = (ml_next (h a) = x \<and> nexts h x xs b)"

lemma seg_nexts: "seg h a xs b \<Longrightarrow> nexts h a xs b"
  by (induction xs arbitrary: a) auto

lemma nexts_cong:
  "(\<And>y. y \<in> set (a # xs) \<Longrightarrow> ml_next (h' y) = ml_next (h y)) \<Longrightarrow> nexts h' a xs b = nexts h a xs b"
  by (induction xs arbitrary: a) auto

lemma search_skip:
  assumes "nexts h a xs b" and "l \<notin> set xs" and "\<forall>x \<in> set xs. test x = Some False"
  shows "list_search test h l (ml_next (h a)) = list_search test h l b"
  using assms
proof (induction xs arbitrary: a)
  case (Cons x xs)
  then have "list_search test h l x = list_search test h l (ml_next (h x))"
    by (subst list_search.simps) auto
  then show ?case using Cons by auto
qed simp

lemma search_found:
  assumes "nexts h a xs l" and "l \<notin> set xs" and "\<forall>x \<in> set xs. test x \<noteq> None"
  shows "list_search test h l (ml_next (h a)) = Some (List.find (\<lambda>x. the (test x)) xs)"
  using assms
proof (induction xs arbitrary: a)
  case Nil
  then show ?case by (subst list_search.simps) simp
next
  case (Cons x xs)
  then show ?case by (subst list_search.simps) auto
qed

text \<open>A node that is its own successor ends no walk that reaches it.\<close>

lemma search_loops:
  assumes "ml_next (h n) = n" and "n \<noteq> l" and "test n = Some False"
  shows "list_search test h l n = None"
proof (rule ccontr)
  assume "list_search test h l n \<noteq> None"
  then obtain y where "list_search test h l n = Some y" by auto
  then have "\<not> (ml_next (h n) = n \<and> n \<noteq> l \<and> test n = Some False)"
    by (rule list_search.raw_induct
        [where P = "\<lambda>test h l n y. \<not> (ml_next (h n) = n \<and> n \<noteq> l \<and> test n = Some False)", rotated])
      (fastforce split: if_splits)
  then show False using assms by simp
qed

section \<open>Properties of the registries\<close>

definition bus_name :: "metal_state \<Rightarrow> addr \<Rightarrow> string" where
  "bus_name s p = the (mb_name (the (ms_buses s p)))"

text \<open>The registered buses are \<open>xs\<close>, in order, and each has a name.\<close>

definition buses_ok :: "metal_state \<Rightarrow> addr list \<Rightarrow> bool" where
  "buses_ok s xs = (dll (ms_nodes s) BUS_LIST xs \<and> (\<forall>p \<in> set xs. \<exists>b n. ms_buses s p = Some b \<and> mb_name b = Some n))"

lemma bus_find_eq:
  assumes "buses_ok s xs"
  shows "metal_bus_find name result s
    = Some (case List.find (\<lambda>p. bus_name s p = name \<and> result) xs of None \<Rightarrow> (- DEV_ENOENT, None) | Some p \<Rightarrow> (0, Some p))"
proof -
  let ?test = "\<lambda>n. Option.bind (ms_buses s n) (\<lambda>b. Option.bind (mb_name b) (\<lambda>m. Some (m = name \<and> result)))"
  have test: "?test p = Some (bus_name s p = name \<and> result)" if "p \<in> set xs" for p
    using assms that by (auto simp: buses_ok_def bus_name_def)
  have "list_search ?test (ms_nodes s) BUS_LIST (ml_next (ms_nodes s BUS_LIST)) = Some (List.find (\<lambda>x. the (?test x)) xs)"
    by (rule search_found) (use assms test in \<open>auto simp: buses_ok_def dll_def intro!: seg_nexts\<close>)
  also have "List.find (\<lambda>x. the (?test x)) xs = List.find (\<lambda>p. bus_name s p = name \<and> result) xs"
    using test by (intro find_cong) auto
  finally show ?thesis by (simp add: metal_bus_find_def)
qed

lemma init_elsewhere:
  assumes "dll h l xs" and "d \<notin> set (l # xs)"
  shows "dll (metal_list_init h d) l xs"
proof -
  have "seg (metal_list_init h d) l xs l = seg h l xs l"
    by (rule seg_cong) (use assms(2) in \<open>auto simp: metal_list_init_def\<close>)
  then show ?thesis using assms(1) by (simp add: dll_def)
qed

lemma find_not_in: "(\<forall>x \<in> set xs. \<not> P x) \<Longrightarrow> List.find P xs = None"
  by (simp add: find_None_iff)

lemma find_append: "List.find P (xs @ ys) = (case List.find P xs of None \<Rightarrow> List.find P ys | Some x \<Rightarrow> Some x)"
  by (induction xs) auto

text \<open>The nodes of a bus: its own and the head of its devices, both outside the registry.\<close>

definition bus_fresh :: "metal_state \<Rightarrow> addr list \<Rightarrow> addr \<Rightarrow> metal_bus \<Rightarrow> string \<Rightarrow> bool" where
  "bus_fresh s xs p b n = (ms_buses s p = Some b \<and> mb_name b = Some n \<and> n \<noteq> [] \<and> p \<noteq> NULL
     \<and> p \<notin> set (BUS_LIST # xs) \<and> mb_devices b \<notin> set (BUS_LIST # p # xs))"

lemma bus_register_eq:
  assumes "buses_ok s xs" and "ms_buses s p = Some b" and "mb_name b = Some n" and "n \<noteq> []" and "p \<noteq> NULL"
  shows "metal_bus_register p s = Some (0,
    s\<lparr>ms_nodes := metal_list_add_tail (metal_list_init (ms_nodes s) (mb_devices b)) BUS_LIST p\<rparr>)"
  using assms bus_find_eq [OF assms(1), of n False] by (simp add: metal_bus_register_def find_not_in)

lemma bus_registered:
  assumes "buses_ok s xs" and "bus_fresh s xs p b n"
  shows "buses_ok (s\<lparr>ms_nodes := metal_list_add_tail (metal_list_init (ms_nodes s) (mb_devices b)) BUS_LIST p\<rparr>) (xs @ [p])"
proof -
  have "dll (metal_list_init (ms_nodes s) (mb_devices b)) BUS_LIST xs"
    using init_elsewhere assms by (auto simp: buses_ok_def bus_fresh_def)
  then have "dll (metal_list_add_tail (metal_list_init (ms_nodes s) (mb_devices b)) BUS_LIST p) BUS_LIST (xs @ [p])"
    using metal_lists.add_tail_rep [of _ BUS_LIST xs p] assms(2) by (auto simp: bus_fresh_def)
  then show ?thesis using assms by (auto simp: buses_ok_def bus_fresh_def)
qed

text \<open>
  A bus with a new name is found by its name once it is registered, every other name is still
  found or not found as before, and unregistering the bus takes exactly this back.
\<close>

theorem bus_registry_roundtrip:
  assumes "buses_ok s xs" and "bus_fresh s xs p b n" and "\<forall>q \<in> set xs. bus_name s q \<noteq> n"
    and "bo_bus_close (mb_ops b) = NULL"
  shows "\<exists>s1 s2. metal_bus_register p s = Some (0, s1) \<and> metal_bus_find n True s1 = Some (0, Some p)
    \<and> (\<forall>m. m \<noteq> n \<longrightarrow> metal_bus_find m True s1 = metal_bus_find m True s)
    \<and> metal_bus_unregister bus_close p s1 = Some (0, s2)
    \<and> (\<forall>m. metal_bus_find m True s2 = metal_bus_find m True s)"
proof -
  let ?s1 = "s\<lparr>ms_nodes := metal_list_add_tail (metal_list_init (ms_nodes s) (mb_devices b)) BUS_LIST p\<rparr>"
  let ?s2 = "?s1\<lparr>ms_nodes := metal_list_del (ms_nodes ?s1) p\<rparr>"
  have p: "ms_buses s p = Some b" "mb_name b = Some n" "p \<notin> set xs" using assms(2) by (simp_all add: bus_fresh_def)
  have reg: "metal_bus_register p s = Some (0, ?s1)"
    using bus_register_eq [OF assms(1)] assms(2) by (simp add: bus_fresh_def)
  note ok1 = bus_registered [OF assms(1,2)]
  have "dll (ms_nodes ?s2) BUS_LIST (remove1 p (xs @ [p]))"
    using metal_lists.del_rep [of "ms_nodes ?s1" BUS_LIST "xs @ [p]" p] ok1 by (simp add: buses_ok_def)
  then have ok2: "buses_ok ?s2 xs" using assms(1) p(3) by (simp add: buses_ok_def remove1_append)
  have name: "bus_name ?s1 = bus_name s" "bus_name ?s2 = bus_name s" by (simp_all add: bus_name_def fun_eq_iff)
  have "bus_name s p = n" using p by (simp add: bus_name_def)
  then have "metal_bus_find n True ?s1 = Some (0, Some p)" "\<forall>m. m \<noteq> n \<longrightarrow> metal_bus_find m True ?s1 = metal_bus_find m True s"
    unfolding bus_find_eq [OF ok1] bus_find_eq [OF assms(1)] name
    using assms(3) by (auto simp: find_append find_not_in split: option.splits)
  moreover have "\<forall>m. metal_bus_find m True ?s2 = metal_bus_find m True s"
    unfolding bus_find_eq [OF ok2] bus_find_eq [OF assms(1)] name by simp
  moreover have "metal_bus_unregister bus_close p ?s1 = Some (0, ?s2)"
    using p(1) assms(4) by (simp add: metal_bus_unregister_def)
  ultimately show ?thesis using reg by blast
qed

text \<open>
  Registering the same bus again is not refused, although the code checks for the name: the
  check passes no result pointer and so finds nothing. When the bus is the last one, its node becomes
  its own successor, and looking up a name that is not registered never ends.
\<close>

theorem bus_registered_twice_loops:
  assumes "buses_ok s (xs @ [p])" and "ms_buses s p = Some b" and "bus_name s p \<noteq> []"
    and "mb_devices b \<notin> set (BUS_LIST # p # xs)" and "\<forall>q \<in> set (xs @ [p]). bus_name s q \<noteq> m"
  shows "\<exists>s'. metal_bus_register p s = Some (0, s') \<and> metal_bus_find m True s' = None"
proof -
  let ?g = "metal_list_init (ms_nodes s) (mb_devices b)"
  let ?h = "metal_list_add_tail ?g BUS_LIST p"
  let ?s = "s\<lparr>ms_nodes := ?h\<rparr>"
  have named: "\<exists>n. mb_name b = Some n \<and> n \<noteq> []" "p \<noteq> NULL"
    using assms(1-3) by (auto simp: buses_ok_def bus_name_def dll_def)
  then have reg: "metal_bus_register p s = Some (0, ?s)" using bus_register_eq [OF assms(1,2)] by blast
  have d0: "dll ?g BUS_LIST (xs @ [p])"
    by (rule init_elsewhere) (use assms(1,4) in \<open>auto simp: buses_ok_def\<close>)
  then have l: "ml_prev (?g BUS_LIST) = p" "p \<noteq> BUS_LIST" "p \<notin> set xs" "BUS_LIST \<notin> set xs"
    using seg_prev_last [of ?g BUS_LIST "xs @ [p]" BUS_LIST] by (auto simp: dll_def)
  have self: "ml_next (?h p) = p" and other: "y \<noteq> p \<Longrightarrow> ml_next (?h y) = ml_next (?g y)" for y
    using l by (auto simp: metal_list_add_tail_def metal_list_add_before_def Let_def)
  have "nexts ?g BUS_LIST xs p" using d0 by (auto simp: dll_def seg_append intro: seg_nexts)
  moreover have "nexts ?h BUS_LIST xs p = nexts ?g BUS_LIST xs p"
    by (rule nexts_cong, rule other) (use l(2,3) in auto)
  ultimately have path: "nexts ?h BUS_LIST xs p" by simp
  let ?test = "\<lambda>n. Option.bind (ms_buses s n) (\<lambda>b. Option.bind (mb_name b) (\<lambda>k. Some (k = m)))"
  have test: "?test q = Some False" if "q \<in> set (xs @ [p])" for q
    using assms(1,5) that by (fastforce simp: buses_ok_def bus_name_def)
  have "list_search ?test ?h BUS_LIST (ml_next (?h BUS_LIST)) = list_search ?test ?h BUS_LIST p"
    by (rule search_skip [OF path l(4)]) (use test in auto)
  also have "\<dots> = None" by (rule search_loops) (use self l(2) test in auto)
  finally show ?thesis using reg by (intro exI [of _ ?s]) (simp add: metal_bus_find_def)
qed

text \<open>The registered segments are \<open>xs\<close>, in order.\<close>

definition shmems_ok :: "metal_state \<Rightarrow> addr list \<Rightarrow> bool" where
  "shmems_ok s xs = (dll (ms_nodes s) SHMEM_LIST xs \<and> (\<forall>p \<in> set xs. \<exists>g n. ms_shmems s p = Some g \<and> gs_name g = Some n))"

definition shmem_fits :: "metal_state \<Rightarrow> string \<Rightarrow> u64 \<Rightarrow> addr \<Rightarrow> bool" where
  "shmem_fits s name sz p = (the (gs_name (the (ms_shmems s p))) = name \<and> sz \<le> io_size (gs_io (the (ms_shmems s p))))"

text \<open>
  Opening a shared memory segment gives the first registered one with this name that is large
  enough, and fails only if there is none.
\<close>

theorem shmem_open_first_fit:
  assumes "shmems_ok s xs"
  shows "metal_shmem_open_generic name sz s
    = Some (case List.find (shmem_fits s name sz) xs of None \<Rightarrow> (- DEV_ENOENT, None) | Some p \<Rightarrow> (0, Some p))"
proof -
  let ?test = "\<lambda>n. Option.bind (ms_shmems s n) (\<lambda>g. Option.bind (gs_name g)
    (\<lambda>m. Some (m = name \<and> sz \<le> metal_io_region_size (gs_io g))))"
  have test: "?test p = Some (shmem_fits s name sz p)" if "p \<in> set xs" for p
    using assms that by (auto simp: shmems_ok_def shmem_fits_def metal_io_region_size_def)
  have "list_search ?test (ms_nodes s) SHMEM_LIST (ml_next (ms_nodes s SHMEM_LIST)) = Some (List.find (\<lambda>x. the (?test x)) xs)"
    by (rule search_found) (use assms test in \<open>auto simp: shmems_ok_def dll_def intro!: seg_nexts\<close>)
  also have "List.find (\<lambda>x. the (?test x)) xs = List.find (shmem_fits s name sz) xs"
    using test by (intro find_cong) auto
  finally show ?thesis by (simp add: metal_shmem_open_generic_def)
qed

text \<open>A run of calls of \<open>metal_init\<close> that all succeed, and of \<open>metal_finish\<close>.\<close>

fun init_times :: "(metal_state \<Rightarrow> int \<times> metal_state) \<Rightarrow> addr \<Rightarrow> int \<Rightarrow> nat \<Rightarrow> metal_state \<Rightarrow> metal_state option" where
  "init_times sys_init lh ll 0 s = Some s"
| "init_times sys_init lh ll (Suc k) s = do {
     (r, s') \<leftarrow> metal_init sys_init lh ll s;
     if r = 0 then init_times sys_init lh ll k s' else None
   }"

fun finish_times :: "(metal_state \<Rightarrow> metal_state) \<Rightarrow> nat \<Rightarrow> metal_state \<Rightarrow> metal_state option" where
  "finish_times sys_finish 0 s = Some s"
| "finish_times sys_finish (Suc k) s = do {
     s' \<leftarrow> metal_finish sys_finish s;
     finish_times sys_finish k s'
   }"

lemma init_again:
  "0 < ms_ref_count s \<Longrightarrow> ms_ref_count s + int k < 2 ^ 31 \<Longrightarrow>
   init_times sys_init lh ll k s = Some (s\<lparr>ms_ref_count := ms_ref_count s + int k\<rparr>)"
proof (induction k arbitrary: s)
  case (Suc k)
  have "metal_init sys_init lh ll s = Some (0, s\<lparr>ms_ref_count := ms_ref_count s + 1\<rparr>)"
    using Suc.prems by (simp add: metal_init_def int_add_def)
  then show ?case using Suc by (simp add: algebra_simps)
qed simp

lemma finish_some:
  "int k < ms_ref_count s \<Longrightarrow> ms_ref_count s < 2 ^ 31 \<Longrightarrow>
   finish_times sys_finish k s = Some (s\<lparr>ms_ref_count := ms_ref_count s - int k\<rparr>)"
proof (induction k arbitrary: s)
  case (Suc k)
  have "metal_finish sys_finish s = Some (s\<lparr>ms_ref_count := ms_ref_count s - 1\<rparr>)"
    using Suc.prems by (simp add: metal_finish_def int_add_def)
  then show ?case using Suc by (simp add: algebra_simps)
qed simp

text \<open>
  The first \<open>metal_init\<close> gives empty registries; whatever is registered while it is in use (the
  state \<open>t\<close>) survives any number of further calls and the same number of \<open>metal_finish\<close>, and only the last
  one shuts the system layer down and clears the library.
\<close>

theorem metal_init_finish_nest:
  assumes "ms_ref_count s = 0" and "\<forall>x. sys_init x = (0, x)" and "metal_init sys_init lh ll s = Some (r, s1)"
    and "ms_ref_count t = ms_ref_count s1" and "int k < 2 ^ 30"
  shows "r = 0 \<and> buses_ok s1 [] \<and> shmems_ok s1 []
    \<and> (\<exists>t'. init_times sys_init lh ll k t = Some t' \<and> finish_times sys_finish k t' = Some t)
    \<and> metal_finish sys_finish t = Some (clear_metal (sys_finish (t\<lparr>ms_ref_count := 0\<rparr>)))"
proof -
  have s1: "r = 0" "ms_ref_count s1 = 1"
    "ms_nodes s1 = metal_list_init (metal_list_init (metal_list_init (ms_nodes (clear_metal (s\<lparr>ms_ref_count := 1\<rparr>))) BUS_LIST) SHMEM_LIST) DEVICE_LIST"
    using assms(1-3) by (auto simp: metal_init_def int_add_def Let_def clear_metal_def)
  have "buses_ok s1 []" "shmems_ok s1 []"
    by (simp_all add: buses_ok_def shmems_ok_def dll_def s1(3) metal_list_init_def)
  moreover have "init_times sys_init lh ll k t = Some (t\<lparr>ms_ref_count := 1 + int k\<rparr>)"
    using init_again [of t k sys_init lh ll] assms(4,5) s1(2) by simp
  moreover have "finish_times sys_finish k (t\<lparr>ms_ref_count := 1 + int k\<rparr>) = Some t"
    using finish_some [of k "t\<lparr>ms_ref_count := 1 + int k\<rparr>" sys_finish] assms(4,5) s1(2) by simp
  moreover have "metal_finish sys_finish t = Some (clear_metal (sys_finish (t\<lparr>ms_ref_count := 0\<rparr>)))"
    using assms(4) s1(2) by (simp add: metal_finish_def int_add_def)
  ultimately show ?thesis using s1(1) by blast
qed

section \<open>A concrete library state\<close>

definition demo_bus :: "string \<Rightarrow> addr \<Rightarrow> metal_bus" where
  "demo_bus name d = \<lparr>mb_name = Some name, mb_ops = mb_ops metal_generic_bus, mb_devices = d\<rparr>"

definition demo_metal :: metal_state where
  "demo_metal = \<lparr>ms_ref_count = 1, ms_log_level = 0, ms_log_handler = NULL,
     ms_nodes = (\<lambda>_. \<lparr>ml_next = NULL, ml_prev = NULL\<rparr>)
       (BUS_LIST := \<lparr>ml_next = GENERIC_BUS, ml_prev = GENERIC_BUS\<rparr>, GENERIC_BUS := \<lparr>ml_next = BUS_LIST, ml_prev = BUS_LIST\<rparr>,
        SHMEM_LIST := \<lparr>ml_next = 0x700, ml_prev = 0x700\<rparr>, 0x700 := \<lparr>ml_next = SHMEM_LIST, ml_prev = SHMEM_LIST\<rparr>),
     ms_buses = [GENERIC_BUS \<mapsto> metal_generic_bus, 0x600 \<mapsto> demo_bus ''platform'' 0x608],
     ms_devices = (\<lambda>_. None), ms_shmems = [0x700 \<mapsto> \<lparr>gs_name = Some ''shm'', gs_io = demo_io, gs_close = NULL\<rparr>],
     ms_cache = []\<rparr>"

lemma demo_buses: "buses_ok demo_metal [GENERIC_BUS]"
  by (simp add: buses_ok_def dll_def demo_metal_def metal_generic_bus_def)

theorem bus_registry_roundtrip_witness:
  "\<exists>s1 s2. metal_bus_register 0x600 demo_metal = Some (0, s1) \<and> metal_bus_find ''platform'' True s1 = Some (0, Some 0x600)
    \<and> metal_bus_unregister (\<lambda>_ _ _. None) 0x600 s1 = Some (0, s2)"
  using bus_registry_roundtrip [OF demo_buses, of "0x600" "demo_bus ''platform'' 0x608" "''platform''" "\<lambda>_ _ _. None"]
  by (auto simp: bus_fresh_def demo_metal_def demo_bus_def metal_generic_bus_def bus_name_def)

theorem bus_registered_twice_loops_witness:
  "\<exists>s'. metal_bus_register GENERIC_BUS demo_metal = Some (0, s') \<and> metal_bus_find ''platform'' True s' = None"
  using bus_registered_twice_loops [of demo_metal "[]" GENERIC_BUS metal_generic_bus "''platform''"] demo_buses
  by (simp add: demo_metal_def metal_generic_bus_def bus_name_def)

theorem shmem_open_first_fit_witness:
  "metal_shmem_open_generic ''shm'' 4096 demo_metal = Some (0, Some 0x700)"
proof -
  have "shmems_ok demo_metal [0x700]" by (simp add: shmems_ok_def dll_def demo_metal_def)
  from shmem_open_first_fit [OF this, of "''shm''" 4096] show ?thesis
    by (simp add: shmem_fits_def demo_metal_def demo_io_def)
qed

theorem metal_init_finish_nest_witness:
  "\<exists>s1 t'. metal_init (\<lambda>x. (0, x)) 0x80 3 (demo_metal\<lparr>ms_ref_count := 0\<rparr>) = Some (0, s1) \<and> buses_ok s1 []
    \<and> init_times (\<lambda>x. (0, x)) 0x80 3 2 demo_metal = Some t' \<and> finish_times (\<lambda>x. x) 2 t' = Some demo_metal"
proof -
  obtain r s1 where s1: "metal_init (\<lambda>x. (0, x)) 0x80 3 (demo_metal\<lparr>ms_ref_count := 0\<rparr>) = Some (r, s1)" "ms_ref_count s1 = 1"
    by (simp add: metal_init_def int_add_def Let_def clear_metal_def demo_metal_def)
  show ?thesis
    using metal_init_finish_nest [OF _ _ s1(1), of demo_metal 2 "\<lambda>x. x"] s1 by (auto simp: demo_metal_def)
qed

end
