(* ===== verification/Rpmsg_Rpc.thy ===== *)
theory Rpmsg_Rpc
  imports Rpmsg_Ept
begin

unbundle bit_operations_syntax

text \<open>
  \<^verbatim>\<open>src/openamp/open-amp/lib/service/rpmsg/rpc\<close>: remote procedure calls over an rpmsg endpoint, client
  (\<^verbatim>\<open>rpmsg_rpc_client.c\<close>) and server (\<^verbatim>\<open>rpmsg_rpc_server.c\<close>). The endpoint is part of the client's or
  server's data; its address stands for it. A received message is the bytes that can be read from the
  data pointer on, which are the rest of the receive buffer, and the length of the message. Code of
  the application (service functions, shutdown callback) is a parameter by function pointer. \<open>junk\<close>
  is what an uninitialised local array holds.
\<close>

section \<open>Data\<close>

abbreviation (input) MAX_BUF_LEN :: nat where "MAX_BUF_LEN \<equiv> 488"
abbreviation (input) MAX_FUNC_ID_LEN :: nat where "MAX_FUNC_ID_LEN \<equiv> 4"
abbreviation (input) RPC_EINVAL :: int where "RPC_EINVAL \<equiv> 22"
abbreviation (input) RPMSG_RPC_INVALID_ID :: u32 where "RPMSG_RPC_INVALID_ID \<equiv> - 1"

text \<open>An entry of either table of services: its id and its function.\<close>

record rpmsg_rpc_services =
  sv_id :: u32
  sv_cb :: addr

record rpmsg_rpc_svr =
  sr_ept :: addr
  sr_services :: "rpmsg_rpc_services list"
  sr_n_services :: u32

record rpmsg_rpc_clt =
  cl_ept :: addr
  cl_shutdown_cb :: addr
  cl_services :: "rpmsg_rpc_services list"
  cl_n_services :: u32

text \<open>\<^verbatim>\<open>struct rpmsg_rpc_answer\<close> is packed: the id, the status and the parameters.\<close>

definition answer_bytes :: "u32 \<Rightarrow> u32 \<Rightarrow> u8 list \<Rightarrow> u8 list" where
  "answer_bytes i status params = le32 i @ le32 status @ params"

definition RPMSG_RPC_SERVICE_NAME :: "u8 list" where
  "RPMSG_RPC_SERVICE_NAME = [0x72, 0x70, 0x6d, 0x73, 0x67, 0x2d, 0x72, 0x70, 0x63, 0]"

fun find_service :: "u32 \<Rightarrow> nat \<Rightarrow> nat \<Rightarrow> rpmsg_rpc_services list \<Rightarrow> rpmsg_rpc_services option option" where
  "find_service i 0 k services = Some None"
| "find_service i (Suc n) k services = do {
     sv \<leftarrow> arr_get services k;
     if sv_id sv = i then Some (Some sv) else find_service i n (Suc k) services
   }"

section \<open>The client\<close>

text \<open>\<open>cb\<close> and \<open>unbind\<close> are the addresses of the two callbacks below; \<open>rdev\<close> tells whether the device is not NULL.\<close>

definition rpmsg_rpc_client_init ::
  "'x rpmsg_device_scheme rpmsg_device_ops \<Rightarrow> 'x rpmsg_device_scheme app \<Rightarrow> u8 list \<Rightarrow> addr \<Rightarrow> addr \<Rightarrow>
   rpmsg_rpc_clt option \<Rightarrow> bool \<Rightarrow> addr \<Rightarrow> rpmsg_rpc_services list \<Rightarrow> int \<Rightarrow> 'x rpmsg_device_scheme \<Rightarrow>
   (int \<times> rpmsg_rpc_clt option \<times> 'x rpmsg_device_scheme) option" where
  "rpmsg_rpc_client_init ops app ns_junk cb unbind rpc rdev shutdown_cb services len s =
     (case rpc of None \<Rightarrow> Some (- RPC_EINVAL, None, s)
      | Some c \<Rightarrow>
          if \<not> rdev then Some (- RPC_EINVAL, rpc, s)
          else do {
            let c' = c\<lparr>cl_services := services, cl_n_services := word_of_int len, cl_shutdown_cb := shutdown_cb\<rparr>;
            (ret, s') \<leftarrow> rpmsg_create_ept ops app ns_junk (cl_ept c') (Some RPMSG_RPC_SERVICE_NAME)
                          RPMSG_ADDR_ANY RPMSG_ADDR_ANY cb unbind s;
            Some (ret, Some c', s')
          })"

text \<open>The parameters are \<open>req_param_size\<close> bytes; copying more than the local buffer takes is undefined.\<close>

definition rpmsg_rpc_client_send ::
  "'x rpmsg_device_scheme rpmsg_device_ops \<Rightarrow> u8 list \<Rightarrow> rpmsg_rpc_clt option \<Rightarrow> u32 \<Rightarrow> u8 list \<Rightarrow> nat \<Rightarrow>
   'x rpmsg_device_scheme \<Rightarrow> (int \<times> 'x rpmsg_device_scheme) option" where
  "rpmsg_rpc_client_send ops junk rpc rpc_id request_param req_param_size s =
     (case rpc of None \<Rightarrow> Some (- RPC_EINVAL, s)
      | Some c \<Rightarrow> do {
          require (req_param_size \<le> length request_param);
          require (MAX_FUNC_ID_LEN + req_param_size \<le> MAX_BUF_LEN);
          let tmpbuf = le32 rpc_id @ take req_param_size request_param
                       @ take (MAX_BUF_LEN - (MAX_FUNC_ID_LEN + req_param_size)) junk;
          rpmsg_send ops (cl_ept c) (Local tmpbuf) (int (MAX_FUNC_ID_LEN + req_param_size)) s
        })"

definition rpmsg_rpc_client_release ::
  "'x rpmsg_device_scheme rpmsg_device_ops \<Rightarrow> 'x rpmsg_device_scheme app \<Rightarrow> u8 list \<Rightarrow> rpmsg_rpc_clt option \<Rightarrow>
   'x rpmsg_device_scheme \<Rightarrow> 'x rpmsg_device_scheme option" where
  "rpmsg_rpc_client_release ops app ns_junk rpc s =
     (case rpc of None \<Rightarrow> Some s | Some c \<Rightarrow> rpmsg_destroy_ept ops app ns_junk (cl_ept c) s)"

definition rpmsg_service_client_unbind ::
  "'x rpmsg_device_scheme rpmsg_device_ops \<Rightarrow> 'x rpmsg_device_scheme app \<Rightarrow> u8 list \<Rightarrow>
   (addr \<Rightarrow> 'x rpmsg_device_scheme \<Rightarrow> 'x rpmsg_device_scheme option) \<Rightarrow> rpmsg_rpc_clt \<Rightarrow>
   'x rpmsg_device_scheme \<Rightarrow> 'x rpmsg_device_scheme option" where
  "rpmsg_service_client_unbind ops app ns_junk shutdown c s = do {
     s1 \<leftarrow> rpmsg_destroy_ept ops app ns_junk (cl_ept c) s;
     if cl_shutdown_cb c \<noteq> NULL then shutdown (cl_shutdown_cb c) s1 else Some s1
   }"

text \<open>
  The service function gets the status, the bytes from the parameters on, and the length of the
  whole message. \<open>None\<close> for the data is NULL.
\<close>

definition rpmsg_endpoint_client_cb ::
  "(addr \<Rightarrow> int \<Rightarrow> u8 list \<Rightarrow> nat \<Rightarrow> 's \<Rightarrow> 's option) \<Rightarrow> rpmsg_rpc_clt \<Rightarrow> u8 list option \<Rightarrow> nat \<Rightarrow> 's \<Rightarrow>
   (int \<times> 's) option" where
  "rpmsg_endpoint_client_cb call c data len s =
     (case data of None \<Rightarrow> Some (- RPC_EINVAL, s)
      | Some bs \<Rightarrow> do {
          require (4 \<le> length bs);
          r \<leftarrow> find_service (of_le32 (take 4 bs)) (unat (cl_n_services c)) 0 (cl_services c);
          (case r of None \<Rightarrow> Some (- RPC_EINVAL, s)
           | Some sv \<Rightarrow> do {
               require (8 \<le> length bs);
               s' \<leftarrow> call (sv_cb sv) (sint (of_le32 (take 4 (drop 4 bs)))) (drop 8 bs) len s;
               Some (RPMSG_SUCCESS, s')
             })
        })"

section \<open>The server\<close>

definition rpmsg_rpc_server_init ::
  "'x rpmsg_device_scheme rpmsg_device_ops \<Rightarrow> 'x rpmsg_device_scheme app \<Rightarrow> u8 list \<Rightarrow> addr \<Rightarrow> rpmsg_rpc_svr \<Rightarrow>
   rpmsg_rpc_services list \<Rightarrow> int \<Rightarrow> addr \<Rightarrow> 'x rpmsg_device_scheme \<Rightarrow>
   (int \<times> rpmsg_rpc_svr \<times> 'x rpmsg_device_scheme) option" where
  "rpmsg_rpc_server_init ops app ns_junk cb rpcs services len unbind s = do {
     let r = rpcs\<lparr>sr_services := services, sr_n_services := word_of_int len\<rparr>;
     (ret, s') \<leftarrow> rpmsg_create_ept ops app ns_junk (sr_ept r) (Some RPMSG_RPC_SERVICE_NAME)
                   RPMSG_ADDR_ANY RPMSG_ADDR_ANY cb unbind s;
     Some (ret, r, s')
   }"

definition rpmsg_rpc_server_send ::
  "'x rpmsg_device_scheme rpmsg_device_ops \<Rightarrow> u8 list \<Rightarrow> rpmsg_rpc_svr \<Rightarrow> u32 \<Rightarrow> u32 \<Rightarrow> u8 list \<Rightarrow> nat \<Rightarrow>
   'x rpmsg_device_scheme \<Rightarrow> (int \<times> 'x rpmsg_device_scheme) option" where
  "rpmsg_rpc_server_send ops junk rpcs rpc_id status request_param param_size s =
     (if MAX_BUF_LEN - 4 < param_size then Some (- RPC_EINVAL, s)
      else do {
        require (param_size \<le> length request_param);
        let msg = answer_bytes rpc_id status (take param_size request_param @ take (MAX_BUF_LEN - param_size) junk);
        rpmsg_send ops (sr_ept rpcs) (Local msg) (int (MAX_FUNC_ID_LEN + param_size)) s
      })"

text \<open>
  The id of the call is the first byte of the buffer, \<^verbatim>\<open>id = *buf\<close> with \<open>buf\<close> an array of bytes. What a
  service function does, and a failure it returns, is the application's.
\<close>

definition rpmsg_endpoint_server_cb ::
  "'x rpmsg_device_scheme rpmsg_device_ops \<Rightarrow> u8 list \<Rightarrow>
   (addr \<Rightarrow> u8 list \<Rightarrow> 'x rpmsg_device_scheme \<Rightarrow> (int \<times> 'x rpmsg_device_scheme) option) \<Rightarrow> rpmsg_rpc_svr \<Rightarrow> u8 list \<Rightarrow> nat \<Rightarrow>
   'x rpmsg_device_scheme \<Rightarrow> (int \<times> 'x rpmsg_device_scheme) option" where
  "rpmsg_endpoint_server_cb ops junk call rpcs data len s =
     (if MAX_BUF_LEN < len then Some (- RPC_EINVAL, s)
      else do {
        require (len \<le> length data);
        let buf = take len data @ take (MAX_BUF_LEN - len) junk;
        b \<leftarrow> arr_get buf 0;
        r \<leftarrow> find_service (ucast b) (unat (sr_n_services rpcs)) 0 (sr_services rpcs);
        (case r of
           Some sv \<Rightarrow> do {
             (_, s') \<leftarrow> call (sv_cb sv) buf s;
             Some (RPMSG_SUCCESS, s')
           }
         | None \<Rightarrow> do {
             (_, s') \<leftarrow> rpmsg_rpc_server_send ops junk rpcs (ucast b) RPMSG_RPC_INVALID_ID [] 0 s;
             Some (RPMSG_SUCCESS, s')
           })
      })"

section \<open>Requests\<close>

definition service_of :: "u32 \<Rightarrow> rpmsg_rpc_services list \<Rightarrow> rpmsg_rpc_services option" where
  "service_of i services = List.find (\<lambda>sv. sv_id sv = i) services"

lemma find_service_eq:
  assumes "k + n = length services"
  shows "find_service i n k services = Some (service_of i (drop k services))"
  using assms
proof (induction n arbitrary: k)
  case 0
  then show ?case by (simp add: service_of_def)
next
  case (Suc n)
  then have "drop k services = services ! k # drop (Suc k) services" by (simp add: Cons_nth_drop_Suc)
  then show ?case using Suc by (simp add: service_of_def)
qed

lemma find_service_table:
  "find_service i (length services) 0 services = Some (service_of i services)"
  using find_service_eq [of 0 "length services" services i] by simp

lemma low_byte: "(ucast (ucast (i :: u32) :: u8) :: u32) = take_bit 8 i"
  by (rule bit_word_eqI) (auto simp: bit_simps)

lemma first_byte: "arr_get (le32 i @ xs) 0 = Some (ucast i)"
  by (simp add: le32_def)

text \<open>The message of a call on the wire.\<close>

definition request_bytes :: "u32 \<Rightarrow> u8 list \<Rightarrow> u8 list" where
  "request_bytes i params = le32 i @ params"

lemma server_cb_request:
  assumes "length params \<le> 484" and "unat (sr_n_services r) = length (sr_services r)"
  shows "rpmsg_endpoint_server_cb ops junk call r (request_bytes i params @ rest) (4 + length params) s
    = (case service_of (take_bit 8 i) (sr_services r) of
         Some sv \<Rightarrow> map_option (\<lambda>(_, s'). (RPMSG_SUCCESS, s'))
           (call (sv_cb sv) (request_bytes i params @ take (484 - length params) junk) s)
       | None \<Rightarrow> map_option (\<lambda>(_, s'). (RPMSG_SUCCESS, s'))
           (rpmsg_rpc_server_send ops junk r (take_bit 8 i) RPMSG_RPC_INVALID_ID [] 0 s))"
proof -
  have buf: "take (4 + length params) (request_bytes i params @ rest) = request_bytes i params"
    by (simp add: request_bytes_def)
  have "take (488 - (4 + length params)) junk = take (484 - length params) junk" by simp
  then show ?thesis
    using assms
    by (auto simp: rpmsg_endpoint_server_cb_def buf find_service_table Let_def request_bytes_def first_byte low_byte
        map_option_case split: option.splits)
qed

text \<open>
  C26: a call that fits the buffers reaches the service with its id on the server, with exactly the
  parameters of the client behind the id, as long as the id is smaller than 256.
\<close>

theorem rpc_request_reaches_service:
  assumes "length params \<le> 484" and "unat i < 256" and "unat (sr_n_services r) = length (sr_services r)"
    and "service_of i (sr_services r) = Some sv"
  shows "\<exists>msg. rpmsg_rpc_client_send ops junk (Some c) i params (length params) s
      = rpmsg_send ops (cl_ept c) (Local msg) (int (4 + length params)) s
    \<and> (\<forall>rest t. rpmsg_endpoint_server_cb ops' junk' call r (take (4 + length params) msg @ rest) (4 + length params) t
         = map_option (\<lambda>(_, t'). (RPMSG_SUCCESS, t'))
             (call (sv_cb sv) (request_bytes i params @ take (484 - length params) junk') t))"
proof -
  let ?msg = "request_bytes i params @ take (484 - length params) junk"
  have "rpmsg_rpc_client_send ops junk (Some c) i params (length params) s
      = rpmsg_send ops (cl_ept c) (Local ?msg) (int (4 + length params)) s"
    using assms(1) by (simp add: rpmsg_rpc_client_send_def request_bytes_def Let_def)
  moreover have "take (4 + length params) ?msg = request_bytes i params" by (simp add: request_bytes_def)
  moreover have "take_bit 8 i = i"
    using assms(2) by (intro word_unat_eq_iff [THEN iffD2]) (simp add: unsigned_take_bit_eq take_bit_nat_eq_self)
  ultimately show ?thesis
    using assms(3,4) by (intro exI [of _ ?msg]) (simp add: server_cb_request [OF assms(1,3)])
qed

text \<open>
  A call with a larger id is taken for the one with the id modulo 256, since the server reads one
  byte of it. A service that is registered under the full id is not run when no service has the low
  byte as its id: the client is told that the id is invalid.
\<close>

theorem rpc_large_id_misrouted:
  assumes "length params \<le> 484" and "unat (sr_n_services r) = length (sr_services r)"
    and "256 \<le> unat i" and "service_of i (sr_services r) = Some sv"
    and "service_of (take_bit 8 i) (sr_services r) = None"
  shows "rpmsg_endpoint_server_cb ops junk call r (request_bytes i params @ rest) (4 + length params) s
    = map_option (\<lambda>(_, s'). (RPMSG_SUCCESS, s'))
        (rpmsg_rpc_server_send ops junk r (take_bit 8 i) RPMSG_RPC_INVALID_ID [] 0 s)"
  using assms(5) by (simp add: server_cb_request [OF assms(1,2)])

section \<open>Answers\<close>

text \<open>
  The last four bytes of the parameters of an answer are not sent, because the length that is
  sent forgets the status. With at least four bytes of parameters the client's callback for the id
  runs with the right status and the shortened parameters, followed by whatever was in the receive
  buffer before.
\<close>

theorem rpc_answer_loses_tail:
  assumes "4 \<le> length params" and "length params \<le> 484"
    and "unat (cl_n_services c) = length (cl_services c)" and "service_of i (cl_services c) = Some sv"
  shows "\<exists>msg. rpmsg_rpc_server_send ops junk r i status params (length params) s
      = rpmsg_send ops (sr_ept r) (Local msg) (int (4 + length params)) s
    \<and> take (4 + length params) msg = answer_bytes i status (take (length params - 4) params)
    \<and> (\<forall>rest t. rpmsg_endpoint_client_cb call c (Some (take (4 + length params) msg @ rest)) (4 + length params) t
         = map_option (\<lambda>t'. (RPMSG_SUCCESS, t'))
             (call (sv_cb sv) (sint status) (take (length params - 4) params @ rest) (4 + length params) t))"
proof -
  let ?msg = "answer_bytes i status (params @ take (488 - length params) junk)"
  have "rpmsg_rpc_server_send ops junk r i status params (length params) s
      = rpmsg_send ops (sr_ept r) (Local ?msg) (int (4 + length params)) s"
    using assms(2) by (simp add: rpmsg_rpc_server_send_def Let_def)
  moreover have sent: "take (4 + length params) ?msg = answer_bytes i status (take (length params - 4) params)"
    using assms(1) by (simp add: answer_bytes_def)
  moreover have "rpmsg_endpoint_client_cb call c (Some (answer_bytes i status ps @ rest)) n t
      = map_option (\<lambda>t'. (RPMSG_SUCCESS, t')) (call (sv_cb sv) (sint status) (ps @ rest) n t)" for ps rest n t
    using assms(3,4)
    by (simp add: rpmsg_endpoint_client_cb_def answer_bytes_def find_service_table map_option_case bind_map_option
        split: option.splits)
  ultimately show ?thesis by (intro exI [of _ ?msg]) simp
qed

section \<open>A concrete service\<close>

definition demo_services :: "rpmsg_rpc_services list" where
  "demo_services = [\<lparr>sv_id = 1, sv_cb = 0x100\<rparr>, \<lparr>sv_id = 0x102, sv_cb = 0x200\<rparr>]"

definition demo_svr :: rpmsg_rpc_svr where
  "demo_svr = \<lparr>sr_ept = 0x300, sr_services = demo_services, sr_n_services = 2\<rparr>"

definition demo_clt :: rpmsg_rpc_clt where
  "demo_clt = \<lparr>cl_ept = 0x300, cl_shutdown_cb = NULL, cl_services = demo_services, cl_n_services = 2\<rparr>"

definition demo_service :: "addr \<Rightarrow> u8 list \<Rightarrow> rpmsg_device \<Rightarrow> (int \<times> rpmsg_device) option" where
  "demo_service f buf s = Some (0, s\<lparr>rd_bitnext := rd_bitnext s + 1\<rparr>)"

lemma demo_service_of [simp]:
  "service_of 1 demo_services = Some \<lparr>sv_id = 1, sv_cb = 0x100\<rparr>"
  "service_of 0x102 demo_services = Some \<lparr>sv_id = 0x102, sv_cb = 0x200\<rparr>" "service_of 2 demo_services = None"
  by (simp_all add: service_of_def demo_services_def)

definition demo_rpc_ops :: "rpmsg_device rpmsg_device_ops" where
  "demo_rpc_ops = \<lparr>op_send_offchannel_raw = Some (\<lambda>s src dst data len wait. Some (len, s)),
     op_hold_rx_buffer = None, op_release_rx_buffer = None, op_get_tx_payload_buffer = None,
     op_send_offchannel_nocopy = None, op_release_tx_buffer = None, op_get_rx_buffer_size = None,
     op_get_tx_buffer_size = None\<rparr>"

definition demo_rpc_dev :: rpmsg_device where
  "demo_rpc_dev = \<lparr>rd_endpoints = [0x300],
     rd_epts = \<lambda>_. \<lparr>ep_name = replicate 32 0, ep_rdev = True, ep_addr = 1024, ep_dest_addr = 0x400, ep_refcnt = 1,
       ep_release_cb = NULL, ep_cb = 0x900, ep_ns_unbind_cb = NULL, ep_priv = NULL\<rparr>,
     rd_bitmap = [1, 0], rd_bitnext = 1, rd_lock = False, rd_ns_bind_cb = NULL, rd_ns_unbind_cb = NULL,
     rd_support_ns = False\<rparr>"

lemma demo_table_size: "unat (sr_n_services demo_svr) = length (sr_services demo_svr)"
  "unat (cl_n_services demo_clt) = length (cl_services demo_clt)"
  by (simp_all add: demo_svr_def demo_clt_def demo_services_def)

theorem rpc_request_reaches_service_witness:
  "\<exists>msg. rpmsg_rpc_client_send demo_rpc_ops [] (Some demo_clt) 1 [7, 8] 2 demo_rpc_dev
      = rpmsg_send demo_rpc_ops 0x300 (Local msg) 6 demo_rpc_dev
    \<and> rpmsg_endpoint_server_cb demo_rpc_ops [] demo_service demo_svr (take 6 msg) 6 demo_rpc_dev
      = Some (0, demo_rpc_dev\<lparr>rd_bitnext := 2\<rparr>)"
proof -
  obtain msg where "rpmsg_rpc_client_send demo_rpc_ops [] (Some demo_clt) 1 [7, 8] (length [7 :: u8, 8]) demo_rpc_dev
      = rpmsg_send demo_rpc_ops (cl_ept demo_clt) (Local msg) (int (4 + length [7 :: u8, 8])) demo_rpc_dev"
    "\<forall>rest t. rpmsg_endpoint_server_cb demo_rpc_ops [] demo_service demo_svr
         (take (4 + length [7 :: u8, 8]) msg @ rest) (4 + length [7 :: u8, 8]) t
       = map_option (\<lambda>(_, t'). (RPMSG_SUCCESS, t'))
           (demo_service 0x100 (request_bytes 1 [7, 8] @ take (484 - length [7 :: u8, 8]) []) t)"
    using rpc_request_reaches_service [of "[7, 8]" 1 demo_svr "\<lparr>sv_id = 1, sv_cb = 0x100\<rparr>" demo_rpc_ops "[]" demo_clt
        demo_rpc_dev demo_rpc_ops "[]" demo_service] demo_table_size
    by (auto simp: demo_svr_def)
  from this(1) this(2) [rule_format, of "[]" demo_rpc_dev] show ?thesis
    by (intro exI [of _ msg]) (simp add: demo_clt_def demo_service_def demo_rpc_dev_def numeral_2_eq_2)
qed

theorem rpc_large_id_misrouted_witness:
  "rpmsg_endpoint_server_cb demo_rpc_ops (replicate 488 0) demo_service demo_svr (request_bytes 0x102 []) 4 demo_rpc_dev
    = Some (0, demo_rpc_dev)"
proof -
  have low: "take_bit 8 (0x102 :: u32) = 2" by simp
  have "rpmsg_endpoint_server_cb demo_rpc_ops (replicate 488 0) demo_service demo_svr (request_bytes 0x102 [] @ []) (4 + length ([] :: u8 list)) demo_rpc_dev
    = map_option (\<lambda>(_, s'). (RPMSG_SUCCESS, s'))
        (rpmsg_rpc_server_send demo_rpc_ops (replicate 488 0) demo_svr (take_bit 8 0x102) RPMSG_RPC_INVALID_ID [] 0 demo_rpc_dev)"
    by (rule rpc_large_id_misrouted [where sv = "\<lparr>sv_id = 0x102, sv_cb = 0x200\<rparr>"])
      (unfold low, simp_all add: demo_table_size, simp_all add: demo_svr_def)
  then show ?thesis
    by (simp add: rpmsg_rpc_server_send_def rpmsg_send_def rpmsg_send_offchannel_raw_def ept_dead_def data_null_def
        demo_rpc_ops_def demo_rpc_dev_def demo_svr_def)
qed

theorem rpc_answer_loses_tail_witness:
  "\<exists>msg. rpmsg_rpc_server_send demo_rpc_ops [] demo_svr 1 9 [5, 6, 7, 8, 9] 5 demo_rpc_dev
      = rpmsg_send demo_rpc_ops 0x300 (Local msg) 9 demo_rpc_dev
    \<and> take 9 msg = answer_bytes 1 9 [5]"
proof -
  obtain msg where "rpmsg_rpc_server_send demo_rpc_ops [] demo_svr 1 9 [5, 6, 7, 8, 9] (length [5 :: u8, 6, 7, 8, 9]) demo_rpc_dev
      = rpmsg_send demo_rpc_ops (sr_ept demo_svr) (Local msg) (int (4 + length [5 :: u8, 6, 7, 8, 9])) demo_rpc_dev"
    "take (4 + length [5 :: u8, 6, 7, 8, 9]) msg = answer_bytes 1 9 (take (length [5 :: u8, 6, 7, 8, 9] - 4) [5, 6, 7, 8, 9])"
    using rpc_answer_loses_tail [of "[5, 6, 7, 8, 9]" demo_clt 1 "\<lparr>sv_id = 1, sv_cb = 0x100\<rparr>" demo_rpc_ops "[]" demo_svr 9
        demo_rpc_dev "\<lambda>_ _ _ _ s :: rpmsg_device. Some s"] demo_table_size
    by (auto simp: demo_clt_def)
  then show ?thesis by (intro exI [of _ msg]) (simp add: demo_svr_def eval_nat_numeral)
qed

end
