(* ===== verification/Rpmsg_Retarget.thy ===== *)
theory Rpmsg_Retarget
  imports Rpmsg_Ept
begin

text \<open>
  \<^verbatim>\<open>src/openamp/open-amp/lib/proxy/rpmsg_retarget.c\<close>: the system calls of the C library on a remote,
  redirected to the host as messages. A call stores a pointer to a local object of its frame for the
  answer, sends the request and waits until the endpoint callback has cleared a flag. The frame of the
  call in progress is part of the state; the pointer leads to it, to a frame that is gone, or nowhere.
  One round of waiting is \<open>env\<close>: the poll function if there is one, and the interrupts of the
  round, which may run the endpoint callback. \<open>junk\<close> is what an uninitialised local object holds.
\<close>

section \<open>Data\<close>

abbreviation (input) OPEN_SYSCALL_ID :: u32 where "OPEN_SYSCALL_ID \<equiv> 1"
abbreviation (input) CLOSE_SYSCALL_ID :: u32 where "CLOSE_SYSCALL_ID \<equiv> 2"
abbreviation (input) WRITE_SYSCALL_ID :: u32 where "WRITE_SYSCALL_ID \<equiv> 3"
abbreviation (input) READ_SYSCALL_ID :: u32 where "READ_SYSCALL_ID \<equiv> 4"
abbreviation (input) TERM_SYSCALL_ID :: u32 where "TERM_SYSCALL_ID \<equiv> 6"
abbreviation (input) RETARGET_BUF_LEN :: nat where "RETARGET_BUF_LEN \<equiv> 496"
abbreviation (input) SYSCALL_LEN :: nat where "SYSCALL_LEN \<equiv> 16"
abbreviation (input) RT_EINVAL :: int where "RT_EINVAL \<equiv> 22"

text \<open>\<^verbatim>\<open>struct rpmsg_rpc_syscall\<close>: the id, two integer fields and the length of the data behind it.\<close>

record rpmsg_rpc_syscall =
  sc_id :: u32
  sc_int_field1 :: u32
  sc_int_field2 :: u32
  sc_data_len :: u32

definition syscall_bytes :: "rpmsg_rpc_syscall \<Rightarrow> u8 list" where
  "syscall_bytes c = le32 (sc_id c) @ le32 (sc_int_field1 c) @ le32 (sc_int_field2 c) @ le32 (sc_data_len c)"

definition load_syscall :: "u8 list \<Rightarrow> rpmsg_rpc_syscall" where
  "load_syscall bs = \<lparr>sc_id = of_le32 (take 4 bs), sc_int_field1 = of_le32 (take 4 (drop 4 bs)),
     sc_int_field2 = of_le32 (take 4 (drop 8 bs)), sc_data_len = of_le32 (take 4 (drop 12 bs))\<rparr>"

datatype respptr = RespNull | InFrame | Stale

record 'x rpmsg_rpc_data =
  rp_dev :: "'x rpmsg_device_scheme"
  rp_ept :: addr
  rp_ept_destroyed :: bool
  rp_nacked :: bool
  rp_respbuf :: respptr
  rp_respbuf_len :: nat
  rp_poll :: addr
  rp_poll_arg :: addr
  rp_shutdown_cb :: addr
  rp_lock :: bool
  rp_buflock :: bool
  rp_frame :: "u8 list"

section \<open>The endpoint\<close>

text \<open>\<open>memcpy(rpc->respbuf, data, n)\<close>: into the frame, or through a pointer that is not valid any more.\<close>

definition store_resp :: "u8 list \<Rightarrow> nat \<Rightarrow> 'x rpmsg_rpc_data \<Rightarrow> 'x rpmsg_rpc_data option" where
  "store_resp bs n s = do {
     require (n \<le> length bs);
     (case rp_respbuf s of
        InFrame \<Rightarrow> do {
          require (n \<le> length (rp_frame s));
          Some (s\<lparr>rp_frame := take n bs @ drop n (rp_frame s)\<rparr>)
        }
      | _ \<Rightarrow> if n = 0 then Some s else None)
   }"

definition rpmsg_rpc_ept_cb ::
  "'x rpmsg_device_scheme rpmsg_device_ops \<Rightarrow> 'x rpmsg_device_scheme app \<Rightarrow> u8 list \<Rightarrow> u8 list option \<Rightarrow> nat \<Rightarrow>
   'x rpmsg_rpc_data \<Rightarrow> (int \<times> 'x rpmsg_rpc_data) option" where
  "rpmsg_rpc_ept_cb ops app ns_junk data len s =
     (case data of None \<Rightarrow> Some (RPMSG_SUCCESS, s)
      | Some bs \<Rightarrow> do {
          require (4 \<le> length bs);
          if of_le32 (take 4 bs) = TERM_SYSCALL_ID then do {
            d \<leftarrow> rpmsg_destroy_ept ops app ns_junk (rp_ept s) (rp_dev s);
            Some (RPMSG_SUCCESS, s\<lparr>rp_dev := d\<rparr>)
          } else do {
            require (\<not> rp_buflock s);
            s1 \<leftarrow> (if rp_respbuf s \<noteq> RespNull \<and> rp_respbuf_len s \<noteq> 0
                   then store_resp bs (min len (rp_respbuf_len s)) s else Some s);
            Some (RPMSG_SUCCESS, s1\<lparr>rp_nacked := False\<rparr>)
          }
        })"

text \<open>\<open>shutdown\<close> is what the application's shutdown callback does.\<close>

definition rpmsg_service_unbind ::
  "'x rpmsg_device_scheme rpmsg_device_ops \<Rightarrow> 'x rpmsg_device_scheme app \<Rightarrow> u8 list \<Rightarrow>
   (addr \<Rightarrow> 'x rpmsg_rpc_data \<Rightarrow> 'x rpmsg_rpc_data option) \<Rightarrow> 'x rpmsg_rpc_data \<Rightarrow> 'x rpmsg_rpc_data option" where
  "rpmsg_service_unbind ops app ns_junk shutdown s = do {
     d \<leftarrow> rpmsg_destroy_ept ops app ns_junk (rp_ept s) (rp_dev s);
     let s1 = s\<lparr>rp_ept_destroyed := True, rp_dev := d, rp_nacked := False\<rparr>;
     if rp_shutdown_cb s1 \<noteq> NULL then shutdown (rp_shutdown_cb s1) s1 else Some s1
   }"

partial_function (option) wait_ept_ready ::
  "('x rpmsg_rpc_data \<Rightarrow> 'x rpmsg_rpc_data option) \<Rightarrow> 'x rpmsg_rpc_data \<Rightarrow> 'x rpmsg_rpc_data option" where
  "wait_ept_ready env s =
     (if is_rpmsg_ept_ready (rp_ept s) (rp_dev s) then Some s
      else do {
        s' \<leftarrow> env s;
        wait_ept_ready env s'
      })"

text \<open>When the endpoint cannot be created the code releases a mutex it has not taken.\<close>

definition rpmsg_rpc_init ::
  "'x rpmsg_device_scheme rpmsg_device_ops \<Rightarrow> 'x rpmsg_device_scheme app \<Rightarrow> u8 list \<Rightarrow>
   ('x rpmsg_rpc_data \<Rightarrow> 'x rpmsg_rpc_data option) \<Rightarrow> addr \<Rightarrow> addr \<Rightarrow> 'x rpmsg_rpc_data option \<Rightarrow> bool \<Rightarrow>
   u8 list option \<Rightarrow> u32 \<Rightarrow> u32 \<Rightarrow> addr \<Rightarrow> addr \<Rightarrow> addr \<Rightarrow> (int \<times> 'x rpmsg_rpc_data option) option" where
  "rpmsg_rpc_init ops app ns_junk env cb unbind rpc rdev ept_name ept_addr ept_raddr poll_arg poll shutdown_cb =
     (case rpc of None \<Rightarrow> Some (- RT_EINVAL, None)
      | Some s \<Rightarrow>
          if \<not> rdev then Some (- RT_EINVAL, rpc)
          else do {
            let s1 = s\<lparr>rp_buflock := False, rp_lock := False, rp_shutdown_cb := shutdown_cb, rp_poll_arg := poll_arg, rp_poll := poll,
                       rp_ept_destroyed := False, rp_respbuf := RespNull, rp_respbuf_len := 0, rp_nacked := True\<rparr>;
            (ret, d) \<leftarrow> rpmsg_create_ept ops app ns_junk (rp_ept s1) ept_name ept_addr ept_raddr cb unbind (rp_dev s1);
            let s2 = s1\<lparr>rp_dev := d\<rparr>;
            if ret \<noteq> 0 then Some (- RT_EINVAL, Some (s2\<lparr>rp_lock := False\<rparr>))
            else do {
              s3 \<leftarrow> wait_ept_ready env s2;
              Some (0, Some s3)
            }
          })"

definition rpmsg_rpc_release ::
  "'x rpmsg_device_scheme rpmsg_device_ops \<Rightarrow> 'x rpmsg_device_scheme app \<Rightarrow> u8 list \<Rightarrow> 'x rpmsg_rpc_data option \<Rightarrow>
   'x rpmsg_rpc_data option option" where
  "rpmsg_rpc_release ops app ns_junk rpc =
     (case rpc of None \<Rightarrow> Some None
      | Some s \<Rightarrow> do {
          d \<leftarrow> (if rp_ept_destroyed s then Some (rp_dev s) else rpmsg_destroy_ept ops app ns_junk (rp_ept s) (rp_dev s));
          require (\<not> rp_lock s);
          require (\<not> rp_buflock s);
          Some (Some (s\<lparr>rp_dev := d, rp_respbuf := RespNull, rp_respbuf_len := 0\<rparr>))
        })"

section \<open>Calls\<close>

text \<open>\<open>while (atomic_flag_test_and_set(&rpc->nacked)) ...\<close>; \<open>None\<close> also when no answer ever comes.\<close>

partial_function (option) wait_acked ::
  "('x rpmsg_rpc_data \<Rightarrow> 'x rpmsg_rpc_data option) \<Rightarrow> 'x rpmsg_rpc_data \<Rightarrow> 'x rpmsg_rpc_data option" where
  "wait_acked env s =
     (if rp_nacked s then do {
        s' \<leftarrow> env s;
        wait_acked env s'
      } else Some (s\<lparr>rp_nacked := True\<rparr>))"

text \<open>\<open>resp\<close> is the local object for the answer, \<open>None\<close> when the caller passes NULL.\<close>

definition rpmsg_rpc_send ::
  "'x rpmsg_device_scheme rpmsg_device_ops \<Rightarrow> ('x rpmsg_rpc_data \<Rightarrow> 'x rpmsg_rpc_data option) \<Rightarrow> u8 list \<Rightarrow> nat \<Rightarrow>
   u8 list option \<Rightarrow> nat \<Rightarrow> 'x rpmsg_rpc_data option \<Rightarrow> (int \<times> 'x rpmsg_rpc_data option) option" where
  "rpmsg_rpc_send ops env req len resp resp_len rpc =
     (case rpc of None \<Rightarrow> Some (- RT_EINVAL, None)
      | Some s \<Rightarrow> do {
          require (\<not> rp_buflock s);
          let s1 = (case resp of
               None \<Rightarrow> s\<lparr>rp_respbuf := RespNull, rp_respbuf_len := resp_len, rp_nacked := True\<rparr>
             | Some xs \<Rightarrow> s\<lparr>rp_respbuf := InFrame, rp_frame := xs, rp_respbuf_len := resp_len, rp_nacked := True\<rparr>);
          (ret, d) \<leftarrow> rpmsg_send ops (rp_ept s1) (Local req) (int len) (rp_dev s1);
          let s2 = s1\<lparr>rp_dev := d\<rparr>;
          if ret < 0 then Some (- RT_EINVAL, Some s2)
          else if resp = None then Some (ret, Some s2)
          else do {
            s3 \<leftarrow> wait_acked env s2;
            Some (ret, Some s3)
          }
        })"

text \<open>The call of a system call function, the contents of its local object afterwards, and its return.\<close>

definition rpc_call ::
  "'x rpmsg_device_scheme rpmsg_device_ops \<Rightarrow> ('x rpmsg_rpc_data \<Rightarrow> 'x rpmsg_rpc_data option) \<Rightarrow> u8 list \<Rightarrow> nat \<Rightarrow>
   u8 list \<Rightarrow> 'x rpmsg_rpc_data \<Rightarrow> (int \<times> u8 list \<times> 'x rpmsg_rpc_data) option" where
  "rpc_call ops env req len resp s = do {
     (ret, rpc') \<leftarrow> rpmsg_rpc_send ops env req len (Some resp) (length resp) (Some s);
     s' \<leftarrow> rpc';
     Some (ret, rp_frame s', s'\<lparr>rp_respbuf := (if rp_respbuf s' = InFrame then Stale else rp_respbuf s')\<rparr>)
   }"

definition answer_of :: "u32 \<Rightarrow> int \<Rightarrow> u8 list \<Rightarrow> int" where
  "answer_of i ret resp =
     (if 0 \<le> ret then
        (if sc_id (load_syscall resp) = i then sint (sc_int_field1 (load_syscall resp)) else - RT_EINVAL)
      else ret)"

definition rpmsg_set_default_rpc :: "'a option \<Rightarrow> 'a option \<Rightarrow> 'a option" where
  "rpmsg_set_default_rpc rpc current = (if rpc = None then current else rpc)"

text \<open>
  \<open>_open\<close>, \<open>_read\<close>, \<open>_write\<close> and \<open>_close\<close>. \<open>rpc\<close> is the default one. The name is a C string without its terminator; its length
  is taken before it is compared with NULL.
\<close>

definition open_msg :: "u8 list \<Rightarrow> u8 list \<Rightarrow> u32 \<Rightarrow> u32 \<Rightarrow> u8 list" where
  "open_msg junk name flags mode =
     syscall_bytes \<lparr>sc_id = OPEN_SYSCALL_ID, sc_int_field1 = flags, sc_int_field2 = mode,
       sc_data_len = of_nat (length name + 1)\<rparr> @ name @ [0] @ drop (SYSCALL_LEN + length name + 1) junk"

definition retarget_open ::
  "'x rpmsg_device_scheme rpmsg_device_ops \<Rightarrow> ('x rpmsg_rpc_data \<Rightarrow> 'x rpmsg_rpc_data option) \<Rightarrow> u8 list \<Rightarrow>
   u8 list option \<Rightarrow> u32 \<Rightarrow> u32 \<Rightarrow> 'x rpmsg_rpc_data option \<Rightarrow> (int \<times> 'x rpmsg_rpc_data option) option" where
  "retarget_open ops env junk filename flags mode rpc = do {
     name \<leftarrow> filename;
     let filename_len = length name + 1;
     let payload_size = SYSCALL_LEN + filename_len;
     if RETARGET_BUF_LEN < payload_size then Some (- RT_EINVAL, rpc)
     else (case rpc of None \<Rightarrow> Some (- RT_EINVAL, None)
       | Some s \<Rightarrow> do {
           (ret, resp, s') \<leftarrow> rpc_call ops env (open_msg junk name flags mode) payload_size (le32 0 @ take 12 junk) s;
           Some (answer_of OPEN_SYSCALL_ID ret resp, Some s')
         })
   }"

text \<open>The third component is what is stored at \<open>buffer\<close>; \<open>buffer\<close> tells whether it is not NULL.\<close>

definition retarget_read ::
  "'x rpmsg_device_scheme rpmsg_device_ops \<Rightarrow> ('x rpmsg_rpc_data \<Rightarrow> 'x rpmsg_rpc_data option) \<Rightarrow> u8 list \<Rightarrow> u32 \<Rightarrow> bool \<Rightarrow> int \<Rightarrow>
   'x rpmsg_rpc_data option \<Rightarrow> (int \<times> 'x rpmsg_rpc_data option \<times> u8 list) option" where
  "retarget_read ops env junk fd buffer buflen rpc =
     (case rpc of None \<Rightarrow> Some (- RT_EINVAL, None, [])
      | Some s \<Rightarrow>
          if \<not> buffer \<or> buflen = 0 then Some (- RT_EINVAL, rpc, [])
          else do {
            let call = \<lparr>sc_id = READ_SYSCALL_ID, sc_int_field1 = fd, sc_int_field2 = word_of_int buflen, sc_data_len = 0\<rparr>;
            (ret, tmpbuf, s') \<leftarrow> rpc_call ops env (syscall_bytes call) SYSCALL_LEN
                (le32 0 @ take (RETARGET_BUF_LEN - 4) (drop 4 junk)) s;
            if 0 \<le> ret \<and> sc_id (load_syscall tmpbuf) = READ_SYSCALL_ID \<and> 0 < sint (sc_int_field1 (load_syscall tmpbuf)) then do {
              let tmplen = min (sint (sc_data_len (load_syscall tmpbuf))) buflen;
              require (0 \<le> tmplen \<and> SYSCALL_LEN + nat tmplen \<le> length tmpbuf);
              Some (answer_of READ_SYSCALL_ID ret tmpbuf, Some s', take (nat tmplen) (drop SYSCALL_LEN tmpbuf))
            } else Some (answer_of READ_SYSCALL_ID ret tmpbuf, Some s', [])
          })"

text \<open>
  For \<open>fd = 1\<close> a terminator is meant to follow the data, but it is stored one byte further. More data
  than the local buffer takes is copied over its end.
\<close>

definition write_msg :: "u8 list \<Rightarrow> u32 \<Rightarrow> u8 list \<Rightarrow> nat \<Rightarrow> u8 list" where
  "write_msg junk fd data null_term =
     (let hdr = syscall_bytes \<lparr>sc_id = WRITE_SYSCALL_ID, sc_int_field1 = fd, sc_int_field2 = of_nat (length data),
                sc_data_len = of_nat (length data + null_term)\<rparr>;
          tmpbuf = hdr @ data @ drop (SYSCALL_LEN + length data) junk
      in if null_term = 1 then tmpbuf[SYSCALL_LEN + length data + null_term := 0] else tmpbuf)"

definition retarget_write ::
  "'x rpmsg_device_scheme rpmsg_device_ops \<Rightarrow> ('x rpmsg_rpc_data \<Rightarrow> 'x rpmsg_rpc_data option) \<Rightarrow> u8 list \<Rightarrow> u32 \<Rightarrow> u8 list \<Rightarrow> int \<Rightarrow>
   'x rpmsg_rpc_data option \<Rightarrow> (int \<times> 'x rpmsg_rpc_data option) option" where
  "retarget_write ops env junk fd ptr len rpc =
     (case rpc of None \<Rightarrow> Some (- RT_EINVAL, None)
      | Some s \<Rightarrow> do {
          let null_term = (if fd = 1 then 1 else 0);
          require (0 \<le> len \<and> nat len \<le> length ptr);
          require (SYSCALL_LEN + nat len \<le> RETARGET_BUF_LEN);
          require (null_term = 1 \<longrightarrow> SYSCALL_LEN + nat len + null_term < RETARGET_BUF_LEN);
          (ret, resp, s') \<leftarrow> rpc_call ops env (write_msg junk fd (take (nat len) ptr) null_term)
              (SYSCALL_LEN + nat len + null_term) (le32 0 @ take 12 junk) s;
          Some (answer_of WRITE_SYSCALL_ID ret resp, Some s')
        })"

definition retarget_close ::
  "'x rpmsg_device_scheme rpmsg_device_ops \<Rightarrow> ('x rpmsg_rpc_data \<Rightarrow> 'x rpmsg_rpc_data option) \<Rightarrow> u8 list \<Rightarrow> u32 \<Rightarrow>
   'x rpmsg_rpc_data option \<Rightarrow> (int \<times> 'x rpmsg_rpc_data option) option" where
  "retarget_close ops env junk fd rpc =
     (case rpc of None \<Rightarrow> Some (- RT_EINVAL, None)
      | Some s \<Rightarrow> do {
          let call = \<lparr>sc_id = CLOSE_SYSCALL_ID, sc_int_field1 = fd, sc_int_field2 = 0, sc_data_len = 0\<rparr>;
          (ret, resp, s') \<leftarrow> rpc_call ops env (syscall_bytes call) SYSCALL_LEN (le32 0 @ take 12 junk) s;
          Some (answer_of CLOSE_SYSCALL_ID ret resp, Some s')
        })"

section \<open>Waiting for the answer\<close>

text \<open>
  The answer \<open>reply\<close> comes after finitely many rounds: the rounds before leave the call alone, the last
  one runs the endpoint callback with it.
\<close>

inductive answered ::
  "'x rpmsg_device_scheme rpmsg_device_ops \<Rightarrow> 'x rpmsg_device_scheme app \<Rightarrow> u8 list \<Rightarrow>
   ('x rpmsg_rpc_data \<Rightarrow> 'x rpmsg_rpc_data option) \<Rightarrow> u8 list \<Rightarrow> 'x rpmsg_rpc_data \<Rightarrow> 'x rpmsg_rpc_data \<Rightarrow> bool"
  for ops app ns_junk env reply where
  now: "env s = Some t \<Longrightarrow> rpmsg_rpc_ept_cb ops app ns_junk (Some reply) (length reply) s = Some (r, t)
    \<Longrightarrow> answered ops app ns_junk env reply s t"
| later: "env s = Some s' \<Longrightarrow> rp_nacked s' \<Longrightarrow> rp_respbuf s' = rp_respbuf s \<Longrightarrow> rp_respbuf_len s' = rp_respbuf_len s
    \<Longrightarrow> rp_frame s' = rp_frame s \<Longrightarrow> answered ops app ns_junk env reply s' t \<Longrightarrow> answered ops app ns_junk env reply s t"

lemma length_syscall_bytes [simp]: "length (syscall_bytes c) = 16"
  by (simp add: syscall_bytes_def)

lemma load_syscall_bytes [simp]: "load_syscall (syscall_bytes c @ rest) = c"
  by (simp add: load_syscall_def syscall_bytes_def)

lemma id_syscall_bytes [simp]: "of_le32 (take 4 (syscall_bytes c @ rest)) = sc_id c"
  by (simp add: syscall_bytes_def)

lemma id_syscall_bytes_only [simp]: "of_le32 (take 4 (syscall_bytes c)) = sc_id c"
  using id_syscall_bytes [of c "[]"] by simp

lemma load_syscall_bytes_only [simp]: "load_syscall (syscall_bytes c) = c"
  using load_syscall_bytes [of c "[]"] by simp

lemma answered_wait:
  assumes "answered ops app ns_junk env reply s t" and "rp_nacked s" and "of_le32 (take 4 reply) \<noteq> TERM_SYSCALL_ID"
    and "rp_respbuf s = InFrame" and "rp_respbuf_len s = length (rp_frame s)" and "rp_frame s \<noteq> []"
    and "n = min (length reply) (length (rp_frame s))"
  shows "wait_acked env s = Some (t\<lparr>rp_nacked := True\<rparr>) \<and> rp_respbuf t = InFrame
    \<and> rp_frame t = take n reply @ drop n (rp_frame s)"
  using assms
proof (induction rule: answered.induct)
  case (now s t r)
  then have t: "\<not> rp_nacked t" "rp_respbuf t = InFrame" "rp_frame t = take n reply @ drop n (rp_frame s)"
    by (auto simp: rpmsg_rpc_ept_cb_def store_resp_def opt_simps split: if_splits)
  have "wait_acked env s = wait_acked env t" using now by (subst wait_acked.simps) simp
  also have "\<dots> = Some (t\<lparr>rp_nacked := True\<rparr>)" using t(1) by (subst wait_acked.simps) simp
  finally show ?case using t by simp
next
  case (later s s' t)
  have "wait_acked env s = wait_acked env s'" using later.hyps(1) later.prems(1) by (subst wait_acked.simps) simp
  then show ?case using later by simp
qed

text \<open>The state when the wait begins: the answer goes to the object \<open>resp\<close> of the caller's frame.\<close>

definition awaiting :: "u8 list \<Rightarrow> 'x rpmsg_device_scheme \<Rightarrow> 'x rpmsg_rpc_data \<Rightarrow> 'x rpmsg_rpc_data" where
  "awaiting resp d s = s\<lparr>rp_respbuf := InFrame, rp_frame := resp, rp_respbuf_len := length resp, rp_nacked := True, rp_dev := d\<rparr>"

lemma rpc_call_answered:
  assumes "rpmsg_send ops (rp_ept s) (Local req) (int len) (rp_dev s) = Some (ret, d)" and "0 \<le> ret"
    and "\<not> rp_buflock s" and "resp \<noteq> []" and "answered ops app ns_junk env reply (awaiting resp d s) t"
    and "of_le32 (take 4 reply) \<noteq> TERM_SYSCALL_ID" and "n = min (length reply) (length resp)"
  shows "rpc_call ops env req len resp s = Some (ret, take n reply @ drop n resp, t\<lparr>rp_nacked := True, rp_respbuf := Stale\<rparr>)"
proof -
  have w: "wait_acked env (awaiting resp d s) = Some (t\<lparr>rp_nacked := True\<rparr>) \<and> rp_respbuf t = InFrame
    \<and> rp_frame t = take n reply @ drop n resp"
    using answered_wait [OF assms(5) _ assms(6)] assms(4,7) by (simp add: awaiting_def)
  have "rpmsg_rpc_send ops env req len (Some resp) (length resp) (Some s) = Some (ret, Some (t\<lparr>rp_nacked := True\<rparr>))"
    using assms(1-3) w by (simp add: rpmsg_rpc_send_def Let_def awaiting_def)
  then show ?thesis using w by (simp add: rpc_call_def)
qed

section \<open>Properties\<close>

text \<open>
  \<open>_open\<close> sends the flags, the mode and the terminated name, and when the host answers after any
  number of rounds of polling it returns the number in the answer.
\<close>

theorem open_returns_answer:
  assumes "17 + length name \<le> RETARGET_BUF_LEN" and "length junk = RETARGET_BUF_LEN" and "\<not> rp_buflock s"
    and "rpmsg_send ops (rp_ept s) (Local (open_msg junk name flags mode)) (int (17 + length name)) (rp_dev s) = Some (ret, d)"
    and "0 \<le> ret" and "sc_id reply = OPEN_SYSCALL_ID"
    and "answered ops app ns_junk env (syscall_bytes reply @ rest) (awaiting (le32 0 @ take 12 junk) d s) t"
  shows "take (17 + length name) (open_msg junk name flags mode)
      = syscall_bytes \<lparr>sc_id = OPEN_SYSCALL_ID, sc_int_field1 = flags, sc_int_field2 = mode,
          sc_data_len = of_nat (length name + 1)\<rparr> @ name @ [0]
    \<and> retarget_open ops env junk (Some name) flags mode (Some s)
      = Some (sint (sc_int_field1 reply), Some (t\<lparr>rp_nacked := True, rp_respbuf := Stale\<rparr>))"
proof -
  have len: "length (le32 0 @ take 12 junk) = 16" using assms(2) by simp
  have "rpc_call ops env (open_msg junk name flags mode) (17 + length name) (le32 0 @ take 12 junk) s
      = Some (ret, take 16 (syscall_bytes reply @ rest) @ drop 16 (le32 0 @ take 12 junk), t\<lparr>rp_nacked := True, rp_respbuf := Stale\<rparr>)"
    by (rule rpc_call_answered [OF assms(4,5,3) _ assms(7)]) (use assms(6) len in auto)
  then have call: "rpc_call ops env (open_msg junk name flags mode) (16 + (length name + 1)) (le32 0 @ take 12 junk) s
      = Some (ret, syscall_bytes reply, t\<lparr>rp_nacked := True, rp_respbuf := Stale\<rparr>)"
    using assms(2) by (simp add: add.commute)
  have "retarget_open ops env junk (Some name) flags mode (Some s)
      = Some (sint (sc_int_field1 reply), Some (t\<lparr>rp_nacked := True, rp_respbuf := Stale\<rparr>))"
    using assms(1,5,6) call by (simp add: retarget_open_def Let_def answer_of_def)
  then show ?thesis by (simp add: open_msg_def)
qed

text \<open>
  C27: when the host answers a read with data that fits the local buffer, \<open>_read\<close> stores the first
  \<open>buflen\<close> bytes of it at \<open>buffer\<close>, all of them when there are fewer, and returns the number in the
  answer.
\<close>

theorem read_returns_data:
  assumes "0 < buflen" and "length junk = RETARGET_BUF_LEN" and "\<not> rp_buflock s"
    and "rpmsg_send ops (rp_ept s) (Local (syscall_bytes \<lparr>sc_id = READ_SYSCALL_ID, sc_int_field1 = fd,
           sc_int_field2 = word_of_int buflen, sc_data_len = 0\<rparr>)) 16 (rp_dev s) = Some (ret, d)" and "0 \<le> ret"
    and "sc_id reply = READ_SYSCALL_ID" and "0 < sint (sc_int_field1 reply)"
    and "sint (sc_data_len reply) = int (length data)" and "SYSCALL_LEN + length data \<le> RETARGET_BUF_LEN"
    and "answered ops app ns_junk env (syscall_bytes reply @ data) (awaiting (le32 0 @ drop 4 junk) d s) t"
  shows "retarget_read ops env junk fd True buflen (Some s)
      = Some (sint (sc_int_field1 reply), Some (t\<lparr>rp_nacked := True, rp_respbuf := Stale\<rparr>), take (nat buflen) data)"
proof -
  let ?call = "\<lparr>sc_id = READ_SYSCALL_ID, sc_int_field1 = fd, sc_int_field2 = word_of_int buflen, sc_data_len = 0\<rparr>"
  let ?resp = "le32 0 @ take (RETARGET_BUF_LEN - 4) (drop 4 junk)"
  have resp: "?resp = le32 0 @ drop 4 junk" using assms(2) by simp
  have "rpc_call ops env (syscall_bytes ?call) 16 ?resp s
      = Some (ret, take (16 + length data) (syscall_bytes reply @ data) @ drop (16 + length data) ?resp,
          t\<lparr>rp_nacked := True, rp_respbuf := Stale\<rparr>)"
    unfolding resp
    by (rule rpc_call_answered [OF _ assms(5,3) _ assms(10)]) (use assms(2,4,6,9) in auto)
  then obtain rest where call: "rpc_call ops env (syscall_bytes ?call) 16 ?resp s
      = Some (ret, syscall_bytes reply @ data @ rest, t\<lparr>rp_nacked := True, rp_respbuf := Stale\<rparr>)"
    by simp
  have "nat (min (int (length data)) buflen) = min (length data) (nat buflen)" using assms(1) by simp
  then have "take (nat (min (int (length data)) buflen)) (data @ rest) = take (nat buflen) data" by (simp add: min_def)
  then show ?thesis
    using assms(1,5-8) call by (simp add: retarget_read_def Let_def answer_of_def)
qed

text \<open>
  A write to the standard output sends the data and one more byte, which is not the terminator
  the header counts but whatever the local buffer held there: the terminator is stored behind it.
\<close>

theorem write_stdout_leaks_byte:
  assumes "SYSCALL_LEN + length data + 1 < RETARGET_BUF_LEN" and "length junk = RETARGET_BUF_LEN"
  shows "retarget_write ops env junk 1 data (int (length data)) (Some s) = do {
       (ret, resp, s') \<leftarrow> rpc_call ops env (write_msg junk 1 data 1) (17 + length data) (le32 0 @ take 12 junk) s;
       Some (answer_of WRITE_SYSCALL_ID ret resp, Some s') }
    \<and> take (17 + length data) (write_msg junk 1 data 1)
      = syscall_bytes \<lparr>sc_id = WRITE_SYSCALL_ID, sc_int_field1 = 1, sc_int_field2 = of_nat (length data),
          sc_data_len = of_nat (length data + 1)\<rparr> @ data @ [junk ! (16 + length data)]"
proof -
  have "take 1 (drop (16 + length data) junk) = [junk ! (16 + length data)]"
    using assms by (simp add: take_Suc hd_drop_conv_nth)
  then show ?thesis using assms
    by (simp add: retarget_write_def write_msg_def Let_def take_update_swap list_update_append add.commute)
qed

text \<open>
  A call that could not be sent returns, but the pointer for its answer stays behind and leads to
  the frame that is gone. The next message that is not a request to terminate is copied through it.
\<close>

theorem failed_call_leaves_pointer:
  assumes "\<not> rp_buflock s" and "ret < 0"
    and "rpmsg_send ops (rp_ept s) (Local (syscall_bytes \<lparr>sc_id = CLOSE_SYSCALL_ID, sc_int_field1 = fd,
           sc_int_field2 = 0, sc_data_len = 0\<rparr>)) 16 (rp_dev s) = Some (ret, d)"
    and "length junk = RETARGET_BUF_LEN" and "4 \<le> length bs" and "of_le32 (take 4 bs) \<noteq> TERM_SYSCALL_ID" and "0 < len"
  shows "\<exists>s'. retarget_close ops env junk fd (Some s) = Some (- RT_EINVAL, Some s')
    \<and> rp_respbuf s' = Stale \<and> rpmsg_rpc_ept_cb ops app ns_junk (Some bs) len s' = None"
  using assms
  by (simp add: retarget_close_def rpc_call_def rpmsg_rpc_send_def Let_def answer_of_def rpmsg_rpc_ept_cb_def
      store_resp_def opt_simps)

section \<open>A concrete call\<close>

definition demo_rt_ops :: "rpmsg_device rpmsg_device_ops" where
  "demo_rt_ops = \<lparr>op_send_offchannel_raw = Some (\<lambda>s src dst data len wait. Some (if dst = 0x400 then len else -1, s)),
     op_hold_rx_buffer = None, op_release_rx_buffer = None, op_get_tx_payload_buffer = None,
     op_send_offchannel_nocopy = None, op_release_tx_buffer = None, op_get_rx_buffer_size = None,
     op_get_tx_buffer_size = None\<rparr>"

definition demo_rt_dev :: "u32 \<Rightarrow> rpmsg_device" where
  "demo_rt_dev dst = \<lparr>rd_endpoints = [0x300],
     rd_epts = \<lambda>_. \<lparr>ep_name = replicate 32 0, ep_rdev = True, ep_addr = 1024, ep_dest_addr = dst, ep_refcnt = 1,
       ep_release_cb = NULL, ep_cb = 0x900, ep_ns_unbind_cb = NULL, ep_priv = NULL\<rparr>,
     rd_bitmap = [1, 0], rd_bitnext = 1, rd_lock = False, rd_ns_bind_cb = NULL, rd_ns_unbind_cb = NULL,
     rd_support_ns = False\<rparr>"

definition demo_rt :: "u32 \<Rightarrow> unit rpmsg_rpc_data" where
  "demo_rt dst = \<lparr>rp_dev = demo_rt_dev dst, rp_ept = 0x300, rp_ept_destroyed = False, rp_nacked = False,
     rp_respbuf = RespNull, rp_respbuf_len = 0, rp_poll = 0x800, rp_poll_arg = NULL, rp_shutdown_cb = NULL, rp_lock = False,
     rp_buflock = False, rp_frame = []\<rparr>"

definition demo_rt_app :: "rpmsg_device app" where
  "demo_rt_app = \<lparr>app_ept_cb = \<lambda>_ _ _ _ _ _ d. Some (0, d), app_release_cb = \<lambda>_ _ d. Some d,
     app_ept_unbind_cb = \<lambda>_ _ d. Some d, app_bind_cb = \<lambda>_ _ _ d. Some d, app_unbind_cb = \<lambda>_ _ _ d. Some d\<rparr>"

text \<open>A host that answers in the first round of polling.\<close>

definition demo_env :: "u8 list \<Rightarrow> unit rpmsg_rpc_data \<Rightarrow> unit rpmsg_rpc_data option" where
  "demo_env reply s = map_option snd (rpmsg_rpc_ept_cb demo_rt_ops demo_rt_app [] (Some reply) (length reply) s)"

abbreviation demo_junk :: "u8 list" where "demo_junk \<equiv> replicate RETARGET_BUF_LEN 0xAA"

lemma demo_send:
  assumes "0 \<le> n" and "dst = 0x400 \<or> dst = 0x500"
  shows "rpmsg_send demo_rt_ops (rp_ept (demo_rt dst)) (Local bs) n (rp_dev (demo_rt dst))
    = Some (if dst = 0x400 then n else - 1, demo_rt_dev dst)"
  using assms
  by (auto simp: rpmsg_send_def rpmsg_send_offchannel_raw_def ept_dead_def data_null_def demo_rt_def demo_rt_dev_def
      demo_rt_ops_def)

lemma demo_answered:
  assumes "4 \<le> length reply" and "of_le32 (take 4 reply) \<noteq> TERM_SYSCALL_ID" and "resp \<noteq> []"
  shows "answered demo_rt_ops demo_rt_app [] (demo_env reply) reply (awaiting resp d (demo_rt dst))
    ((awaiting resp d (demo_rt dst))\<lparr>rp_frame := take (min (length reply) (length resp)) reply
        @ drop (min (length reply) (length resp)) resp, rp_nacked := False\<rparr>)"
  using assms
  by (intro answered.now [where r = RPMSG_SUCCESS])
    (simp_all add: demo_env_def rpmsg_rpc_ept_cb_def store_resp_def awaiting_def demo_rt_def opt_simps)

definition demo_reply :: "u32 \<Rightarrow> u32 \<Rightarrow> u32 \<Rightarrow> rpmsg_rpc_syscall" where
  "demo_reply i f n = \<lparr>sc_id = i, sc_int_field1 = f, sc_int_field2 = 0, sc_data_len = n\<rparr>"

theorem open_returns_answer_witness:
  "\<exists>t. retarget_open demo_rt_ops (demo_env (syscall_bytes (demo_reply 1 7 0))) demo_junk (Some [0x61]) 2 0
      (Some (demo_rt 0x400)) = Some (7, Some t)"
proof -
  let ?r = "demo_reply 1 7 0"
  have "answered demo_rt_ops demo_rt_app [] (demo_env (syscall_bytes ?r)) (syscall_bytes ?r @ [])
      (awaiting (le32 0 @ take 12 demo_junk) (demo_rt_dev 0x400) (demo_rt 0x400))
      ((awaiting (le32 0 @ take 12 demo_junk) (demo_rt_dev 0x400) (demo_rt 0x400))\<lparr>rp_frame := syscall_bytes ?r, rp_nacked := False\<rparr>)"
    using demo_answered [of "syscall_bytes ?r" "le32 0 @ take 12 demo_junk"] by (simp add: demo_reply_def)
  from open_returns_answer [OF _ _ _ demo_send _ _ this, of "[0x61]" 2 0] show ?thesis
    by (simp add: demo_reply_def demo_rt_def)
qed

theorem read_returns_data_witness:
  "\<exists>t. retarget_read demo_rt_ops (demo_env (syscall_bytes (demo_reply 4 3 3) @ [5, 6, 7])) demo_junk 0 True 2
      (Some (demo_rt 0x400)) = Some (3, Some t, [5, 6])"
proof -
  let ?r = "syscall_bytes (demo_reply 4 3 3) @ [5, 6, 7]"
  obtain t where "answered demo_rt_ops demo_rt_app [] (demo_env ?r) ?r
      (awaiting (le32 0 @ drop 4 demo_junk) (demo_rt_dev 0x400) (demo_rt 0x400)) t"
    using demo_answered [of ?r "le32 0 @ drop 4 demo_junk" "demo_rt_dev 0x400" "0x400"]
    by (simp add: demo_reply_def)
  from read_returns_data [OF _ _ _ demo_send _ _ _ _ _ this, of 2 0] show ?thesis
    by (simp add: demo_reply_def demo_rt_def)
qed

theorem write_stdout_leaks_byte_witness:
  "take 18 (write_msg demo_junk 1 [0x61] 1)
    = syscall_bytes \<lparr>sc_id = 3, sc_int_field1 = 1, sc_int_field2 = 1, sc_data_len = 2\<rparr> @ [0x61, 0xAA]"
  using write_stdout_leaks_byte [of "[0x61]" demo_junk demo_rt_ops "demo_env []" "demo_rt 0x400"] by simp

theorem failed_call_leaves_pointer_witness:
  "\<exists>s'. retarget_close demo_rt_ops (demo_env []) demo_junk 3 (Some (demo_rt 0x500)) = Some (- 22, Some s')
    \<and> rp_respbuf s' = Stale \<and> rpmsg_rpc_ept_cb demo_rt_ops demo_rt_app [] (Some [2, 0, 0, 0]) 4 s' = None"
  using failed_call_leaves_pointer [of "demo_rt 0x500" "- 1" demo_rt_ops 3 "demo_rt_dev 0x500" demo_junk "[2, 0, 0, 0]" 4
      "demo_env []" demo_rt_app "[]"] demo_send [of 16 "0x500"]
  by (simp add: demo_rt_def of_le32_def)

end
