(* ===== verification/Rpmsg_Init.thy ===== *)
theory Rpmsg_Init
  imports Rpmsg_Transport
begin

unbundle bit_operations_syntax

text \<open>
  What \<open>rpmsg_init_vdev\<close> of \<^verbatim>\<open>rpmsg_virtio.c\<close> leaves behind on a driver: both queues exist, every
  descriptor of the receive queue offers its own buffer of the pool to the device, the send queue is
  empty, the name service endpoint listens, and the device is told that the driver is ready.
\<close>

section \<open>Filling the receive queue\<close>

text \<open>The pool after \<open>k\<close> buffers, and the address of the \<open>j\<close>-th buffer to come.\<close>

definition pool_next :: "rpmsg_virtio_shm_pool \<Rightarrow> u64 \<Rightarrow> nat \<Rightarrow> addr" where
  "pool_next p sz j = sp_base p + sp_size p - sp_avail p + of_nat j * sz"

text \<open>The descriptors \<open>xs\<close> offer the buffers \<open>bs\<close>, one each, to be written by the device.\<close>

definition offers_buffers :: "vring_desc list \<Rightarrow> u16 list \<Rightarrow> u64 list \<Rightarrow> u32 \<Rightarrow> bool" where
  "offers_buffers ds xs pas sz = (length xs = length pas \<and> (\<forall>j < length xs. d_addr (ds ! unat (xs ! j)) = pas ! j
     \<and> d_len (ds ! unat (xs ! j)) = sz \<and> d_flags (ds ! unat (xs ! j)) = VRING_DESC_F_WRITE))"

definition only_queue :: "nat \<Rightarrow> 't rpmsg_virtio_device \<Rightarrow> 't rpmsg_virtio_device \<Rightarrow> bool" where
  "only_queue i s s' = (\<exists>m ps infos. s' = s\<lparr>rv_mem := m, rv_pools := ps, rv_vdev := (rv_vdev s)\<lparr>vd_vrings_info := infos\<rparr>\<rparr>
     \<and> length infos = length (vd_vrings_info (rv_vdev s))
     \<and> (\<forall>j < length infos. j \<noteq> i \<longrightarrow> infos ! j = vd_vrings_info (rv_vdev s) ! j))"

lemma only_queue_trans: "only_queue i s t \<Longrightarrow> only_queue i t u \<Longrightarrow> only_queue i s u"
proof -
  assume "only_queue i s t" "only_queue i t u"
  then obtain m ps infos m' ps' infos' where
    t: "t = s\<lparr>rv_mem := m, rv_pools := ps, rv_vdev := (rv_vdev s)\<lparr>vd_vrings_info := infos\<rparr>\<rparr>"
      "length infos = length (vd_vrings_info (rv_vdev s))" "\<forall>j < length infos. j \<noteq> i \<longrightarrow> infos ! j = vd_vrings_info (rv_vdev s) ! j"
    and u: "u = t\<lparr>rv_mem := m', rv_pools := ps', rv_vdev := (rv_vdev t)\<lparr>vd_vrings_info := infos'\<rparr>\<rparr>"
      "length infos' = length (vd_vrings_info (rv_vdev t))" "\<forall>j < length infos'. j \<noteq> i \<longrightarrow> infos' ! j = vd_vrings_info (rv_vdev t) ! j"
    unfolding only_queue_def by blast
  then show "only_queue i s u"
    unfolding only_queue_def by (intro exI [of _ m'] exI [of _ ps'] exI [of _ infos']) simp
qed

lemma sint_len: "0 \<le> sint sz \<Longrightarrow> (of_int (sint (sz :: u32)) :: u32) = sz"
  by simp

lemma rx_fill_one:
  assumes q: "rv_rvq s = Some i" "get_vq (Some i) s = Some (vq, rm)" "driver_inv vq (vm_desc rm) (x # fs) cs"
    "length (av_ring (vm_avail rm)) = unat (vq_nentries vq)" "unat (vq_nentries vq) = 2 ^ e"
    and p: "rv_pools s = p # ps" "sz = cf_r2h_buf_size (rv_config s)" "0 < unat sz" "unat sz < 2 ^ 31" "unat sz \<le> unat (sp_avail p)"
    and b: "pool_next p (ucast sz) 0 \<noteq> NULL" "virtqueue_virt_to_phys vq (pool_next p (ucast sz) 0) = Some pa"
  shows "\<exists>s1 vq1 rm1. rx_fill ve io (Suc k) s = rx_fill ve io k s1 \<and> only_queue i s s1
    \<and> rv_pools s1 = p\<lparr>sp_avail := sp_avail p - ucast sz\<rparr> # ps \<and> get_vq (Some i) s1 = Some (vq1, rm1)
    \<and> driver_inv vq1 (vm_desc rm1) fs ([x] # cs) \<and> vq_nentries vq1 = vq_nentries vq \<and> vq_shm_io vq1 = vq_shm_io vq \<and> vq_callback vq1 = vq_callback vq
    \<and> d_addr (vm_desc rm1 ! unat x) = pa \<and> d_len (vm_desc rm1 ! unat x) = sz \<and> d_flags (vm_desc rm1 ! unat x) = VRING_DESC_F_WRITE
    \<and> (\<forall>y. y \<noteq> x \<longrightarrow> vm_desc rm1 ! unat y = vm_desc rm ! unat y)
    \<and> av_ring (vm_avail rm1) = (av_ring (vm_avail rm))[unat (av_idx (vm_avail rm)) mod unat (vq_nentries vq) := x]
    \<and> av_idx (vm_avail rm1) = av_idx (vm_avail rm) + 1 \<and> vm_used rm1 = vm_used rm"
proof -
  let ?b = "pool_next p (ucast sz) 0"
  have sz: "sint sz = int (unat sz)" "ucast sz \<noteq> (0 :: u64)" "unat (ucast sz :: u64) = unat sz"
    using p(3,4) sint_small [of sz] by (auto simp: unat_ucast_up dest: arg_cong [of _ _ unat])
  have get: "rpmsg_virtio_shm_pool_get_buffer p (ucast sz) = (?b, p\<lparr>sp_avail := sp_avail p - ucast sz\<rparr>)"
    using pool_get_ok(1) [of "ucast sz" p] p(3,5) sz(3) by (simp add: pool_next_def)
  let ?s1 = "s\<lparr>rv_pools := p\<lparr>sp_avail := sp_avail p - ucast sz\<rparr> # ps\<rparr>"
  let ?s2 = "?s1\<lparr>rv_mem := snd (metal_io_block_set (rv_mem ?s1) io (metal_io_virt_to_offset io ?b) 0 (unat sz))\<rparr>"
  have tr: "translates vq [\<lparr>vb_buf = ?b, vb_len = sint sz\<rparr>] 1 (\<lambda>_. pa)" using b(2) by (simp add: translates_def)
  obtain vq1 rm1 where a: "virtqueue_add_buffer (ve_build ve) vq rm [\<lparr>vb_buf = ?b, vb_len = sint sz\<rparr>] 0 1 ?b
      = Some (VQUEUE_SUCCESS, vq1, rm1)"
    "driver_inv vq1 (vm_desc rm1) fs ([x] # cs)"
    "d_addr (vm_desc rm1 ! unat x) = pa" "d_len (vm_desc rm1 ! unat x) = sz" "d_flags (vm_desc rm1 ! unat x) = VRING_DESC_F_WRITE"
    "\<forall>y. y \<noteq> x \<longrightarrow> vm_desc rm1 ! unat y = vm_desc rm ! unat y"
    "av_ring (vm_avail rm1) = (av_ring (vm_avail rm))[unat (av_idx (vm_avail rm)) mod unat (vq_nentries vq) := x]"
    "av_idx (vm_avail rm1) = av_idx (vm_avail rm) + 1" "vm_used rm1 = vm_used rm"
    using add_buffer_ok [OF q(3) _ _ _ tr b(1) q(4,5), of 0 1 "ve_build ve"] by (auto simp: desc_flags_def)
  have same: "vq_nentries vq1 = vq_nentries vq" "vq_shm_io vq1 = vq_shm_io vq" "vq_callback vq1 = vq_callback vq"
    by (rule add_buffer_step [OF q(3) _ _ _ tr b(1) q(4,5), of 0 1 "ve_build ve"]; use a(1) in \<open>simp add: add_buffer_vq_def\<close>)+
  obtain vi where vi: "i < length (vd_vrings_info (rv_vdev s))" "vi = vd_vrings_info (rv_vdev s) ! i" "vi_vq vi = Some vq" "vi_ring vi = rm"
    using q(2) by (auto simp: get_vq_def opt_simps)
  define s3 where "s3 = ?s2\<lparr>rv_vdev := (rv_vdev s)\<lparr>vd_vrings_info := (vd_vrings_info (rv_vdev s))[i := vi\<lparr>vi_vq := Some vq1, vi_ring := rm1\<rparr>]\<rparr>\<rparr>"
  have put: "put_vq (Some i) vq1 rm1 ?s2 = Some s3" "get_vq (Some i) ?s2 = Some (vq, rm)"
    using vi by (simp_all add: put_vq_def get_vq_def s3_def arr_get_def)
  have "rx_fill ve io (Suc k) s = rx_fill ve io k s3"
    using q(1) p(1,2) sz(1) get b(1) put a(1) by (simp add: pool_get_def arr_get_def)
  moreover have "only_queue i s s3" unfolding only_queue_def
    by (intro exI [of _ "rv_mem s3"] exI [of _ "rv_pools s3"] exI [of _ "vd_vrings_info (rv_vdev s3)"]) (simp add: s3_def)
  moreover have "rv_pools s3 = p\<lparr>sp_avail := sp_avail p - ucast sz\<rparr> # ps" "get_vq (Some i) s3 = Some (vq1, rm1)"
    using vi by (simp_all add: s3_def get_vq_def arr_get_def)
  ultimately show ?thesis using a same by (intro exI [of _ s3] exI [of _ vq1] exI [of _ rm1]) simp
qed

lemma only_queue_same:
  assumes "only_queue i s s'"
  shows "rv_rvq s' = rv_rvq s" "rv_config s' = rv_config s"
  using assms by (auto simp: only_queue_def)

lemma pool_next_step:
  "pool_next (p\<lparr>sp_avail := sp_avail p - sz\<rparr>) sz j = pool_next p sz (Suc j)"
  by (simp add: pool_next_def algebra_simps)

lemma rx_fill_ok:
  assumes "rv_rvq s = Some i" and "get_vq (Some i) s = Some (vq, rm)" and "driver_inv vq (vm_desc rm) (xs @ fs) cs"
    and "length (av_ring (vm_avail rm)) = 2 ^ e" and "unat (vq_nentries vq) = 2 ^ e" and "unat (av_idx (vm_avail rm)) + length xs \<le> 2 ^ e"
    and "rv_pools s = p # ps" and "sz = cf_r2h_buf_size (rv_config s)" and "0 < unat sz" and "unat sz < 2 ^ 31"
    and "length xs * unat sz \<le> unat (sp_avail p)" and "length pas = length xs"
    and "\<forall>j < length xs. pool_next p (ucast sz) j \<noteq> NULL \<and> virtqueue_virt_to_phys vq (pool_next p (ucast sz) j) = Some (pas ! j)"
  shows "\<exists>s' vq' rm'. rx_fill ve io (length xs) s = Some (RPMSG_SUCCESS, s') \<and> only_queue i s s'
    \<and> get_vq (Some i) s' = Some (vq', rm') \<and> driver_inv vq' (vm_desc rm') fs (rev (map (\<lambda>x. [x]) xs) @ cs)
    \<and> vq_nentries vq' = vq_nentries vq \<and> vq_shm_io vq' = vq_shm_io vq \<and> vq_callback vq' = vq_callback vq
    \<and> offers_buffers (vm_desc rm') xs pas sz \<and> (\<forall>y. y \<notin> set xs \<longrightarrow> vm_desc rm' ! unat y = vm_desc rm ! unat y)
    \<and> rv_pools s' = p\<lparr>sp_avail := sp_avail p - of_nat (length xs) * ucast sz\<rparr> # ps
    \<and> av_ring (vm_avail rm') = take (unat (av_idx (vm_avail rm))) (av_ring (vm_avail rm)) @ xs
        @ drop (unat (av_idx (vm_avail rm)) + length xs) (av_ring (vm_avail rm))
    \<and> av_idx (vm_avail rm') = av_idx (vm_avail rm) + of_nat (length xs) \<and> vm_used rm' = vm_used rm"
  using assms
proof (induction xs arbitrary: s vq rm cs p pas)
  case Nil
  have "only_queue i s s"
    unfolding only_queue_def by (intro exI [of _ "rv_mem s"] exI [of _ "rv_pools s"] exI [of _ "vd_vrings_info (rv_vdev s)"]) simp
  then show ?case using Nil by (auto simp: offers_buffers_def)
next
  case (Cons x xs)
  obtain pa pas' where pas: "pas = pa # pas'" "length pas' = length xs" using Cons.prems(12) by (cases pas) auto
  have n15: "(2 :: nat) ^ e \<le> 2 ^ 15" using Cons.prems(3,5) by (simp add: driver_inv_def)
  have at: "unat (av_idx (vm_avail rm)) < 2 ^ e" using Cons.prems(6) by simp
  have fits: "unat sz \<le> unat (sp_avail p)" using Cons.prems(11) by simp
  obtain s1 vq1 rm1 where one: "rx_fill ve io (Suc (length xs)) s = rx_fill ve io (length xs) s1" "only_queue i s s1"
    "rv_pools s1 = p\<lparr>sp_avail := sp_avail p - ucast sz\<rparr> # ps" "get_vq (Some i) s1 = Some (vq1, rm1)"
    "driver_inv vq1 (vm_desc rm1) (xs @ fs) ([x] # cs)" "vq_nentries vq1 = vq_nentries vq" "vq_shm_io vq1 = vq_shm_io vq"
    "d_addr (vm_desc rm1 ! unat x) = pa" "d_len (vm_desc rm1 ! unat x) = sz" "d_flags (vm_desc rm1 ! unat x) = VRING_DESC_F_WRITE"
    "\<forall>y. y \<noteq> x \<longrightarrow> vm_desc rm1 ! unat y = vm_desc rm ! unat y"
    "av_ring (vm_avail rm1) = (av_ring (vm_avail rm))[unat (av_idx (vm_avail rm)) := x]"
    "av_idx (vm_avail rm1) = av_idx (vm_avail rm) + 1" "vm_used rm1 = vm_used rm" "vq_callback vq1 = vq_callback vq"
    using rx_fill_one [OF Cons.prems(1,2) _ _ Cons.prems(5,7,8,9,10) fits, of x "xs @ fs" cs pa ve io "length xs"]
      Cons.prems(3,4,5,13) at pas by auto
  have idx: "unat (av_idx (vm_avail rm1)) = Suc (unat (av_idx (vm_avail rm)))"
    using one(13) at n15 by (simp add: unat_word_ariths)
  have "unat (ucast sz :: u64) = unat sz" by (simp add: unat_ucast_up)
  then have avail: "unat (sp_avail p - ucast sz) = unat (sp_avail p) - unat sz"
    using fits by (simp add: unat_sub word_le_nat_alt)
  have v2p: "virtqueue_virt_to_phys vq1 = virtqueue_virt_to_phys vq" using one(7) by (simp add: virtqueue_virt_to_phys_def fun_eq_iff)
  let ?p = "p\<lparr>sp_avail := sp_avail p - ucast sz\<rparr>"
  have tr: "\<forall>j < length xs. pool_next ?p (ucast sz) j \<noteq> NULL \<and> virtqueue_virt_to_phys vq1 (pool_next ?p (ucast sz) j) = Some (pas' ! j)"
    using Cons.prems(13) pas v2p by (auto simp: pool_next_step)
  have pr: "rv_rvq s1 = Some i" "length (av_ring (vm_avail rm1)) = 2 ^ e" "unat (vq_nentries vq1) = 2 ^ e"
    "unat (av_idx (vm_avail rm1)) + length xs \<le> 2 ^ e" "sz = cf_r2h_buf_size (rv_config s1)"
    "length xs * unat sz \<le> unat (sp_avail ?p)"
    using only_queue_same [OF one(2)] Cons.prems(1,4-6,8,11) one(6,12) idx avail by simp_all
  obtain s' vq' rm' where ih: "rx_fill ve io (length xs) s1 = Some (RPMSG_SUCCESS, s')" "only_queue i s1 s'"
    "get_vq (Some i) s' = Some (vq', rm')" "driver_inv vq' (vm_desc rm') fs (rev (map (\<lambda>x. [x]) xs) @ [x] # cs)"
    "vq_nentries vq' = vq_nentries vq1" "vq_shm_io vq' = vq_shm_io vq1"
    "offers_buffers (vm_desc rm') xs pas' sz" "\<forall>y. y \<notin> set xs \<longrightarrow> vm_desc rm' ! unat y = vm_desc rm1 ! unat y"
    "rv_pools s' = ?p\<lparr>sp_avail := sp_avail ?p - of_nat (length xs) * ucast sz\<rparr> # ps"
    "av_ring (vm_avail rm') = take (Suc (unat (av_idx (vm_avail rm)))) (av_ring (vm_avail rm1)) @ xs
        @ drop (Suc (unat (av_idx (vm_avail rm))) + length xs) (av_ring (vm_avail rm1))"
    "av_idx (vm_avail rm') = av_idx (vm_avail rm1) + of_nat (length xs)" "vm_used rm' = vm_used rm1" "vq_callback vq' = vq_callback vq1"
    using Cons.IH [OF pr(1) one(4,5) pr(2-4) one(3) pr(5) Cons.prems(9,10) pr(6) pas(2) tr] unfolding idx by blast
  have nx: "x \<notin> set xs" using driver_inv_distinct [OF Cons.prems(3)] by simp
  have "offers_buffers (vm_desc rm') (x # xs) pas sz"
    using ih(7,8) nx one(8-10) pas by (auto simp: offers_buffers_def less_Suc_eq_0_disj)
  moreover have "av_ring (vm_avail rm') = take (unat (av_idx (vm_avail rm))) (av_ring (vm_avail rm)) @ (x # xs)
        @ drop (unat (av_idx (vm_avail rm)) + length (x # xs)) (av_ring (vm_avail rm))"
    using ih(10) one(12) at Cons.prems(4) by (simp add: take_Suc_conv_app_nth)
  ultimately show ?case
    using ih one only_queue_trans [OF one(2) ih(2)]
    by (intro exI [of _ s'] exI [of _ vq'] exI [of _ rm']) (auto simp: algebra_simps)
qed

section \<open>Creating the queues\<close>

text \<open>A queue after \<open>init_queues\<close>: created, empty, with the region for its buffers.\<close>

definition queue_set_up :: "metal_io_region \<Rightarrow> nat \<Rightarrow> addr \<Rightarrow> virtio_vring_info \<Rightarrow> bool" where
  "queue_set_up io n callback vi = (case vi_vq vi of None \<Rightarrow> False | Some vq \<Rightarrow>
     driver_inv vq (vm_desc (vi_ring vi)) (all_idx n) [] \<and> unat (vq_nentries vq) = n \<and> vq_callback vq = callback
     \<and> vq_shm_io vq = Some io \<and> av_ring (vm_avail (vi_ring vi)) = replicate n 0 \<and> av_idx (vm_avail (vi_ring vi)) = 0
     \<and> vm_used (vi_ring vi) = vm_used (zero_ring n))"

lemma set_queue_io_eq:
  assumes "i < length (vd_vrings_info (rv_vdev s))" and "vi_vq (vd_vrings_info (rv_vdev s) ! i) = Some vq"
  shows "set_queue_io i io s = Some (s\<lparr>rv_vdev := (rv_vdev s)\<lparr>vd_vrings_info := (vd_vrings_info (rv_vdev s))
    [i := (vd_vrings_info (rv_vdev s) ! i)\<lparr>vi_vq := Some (vq\<lparr>vq_shm_io := Some io\<rparr>)\<rparr>]\<rparr>\<rparr>)"
proof -
  have "(vd_vrings_info (rv_vdev s) ! i)\<lparr>vi_vq := x, vi_ring := vi_ring (vd_vrings_info (rv_vdev s) ! i)\<rparr>
    = (vd_vrings_info (rv_vdev s) ! i)\<lparr>vi_vq := x\<rparr>" for x by simp
  then show ?thesis using assms by (simp add: set_queue_io_def get_vq_def put_vq_def arr_get_def)
qed

lemma driver_inv_io [simp]: "driver_inv (vq\<lparr>vq_shm_io := x\<rparr>) ds fs cs = driver_inv vq ds fs cs"
  by (simp add: driver_inv_def)

lemma disable_cb_driver:
  assumes "\<not> vq_inuse vq" and "VIRTIO_ROLE_IS_DRIVER b vdev"
  shows "\<exists>rm'. virtqueue_disable_cb b vdev vq rm = Some (vq, rm') \<and> vm_desc rm' = vm_desc rm
    \<and> av_ring (vm_avail rm') = av_ring (vm_avail rm) \<and> av_idx (vm_avail rm') = av_idx (vm_avail rm) \<and> vm_used rm' = vm_used rm"
proof -
  have "\<not> VIRTIO_ROLE_IS_DEVICE b vdev" using assms(2) by (auto simp: VIRTIO_ROLE_IS_DRIVER_def VIRTIO_ROLE_IS_DEVICE_def)
  then show ?thesis
    using assms by (auto simp: virtqueue_disable_cb_def VQUEUE_BUSY_def VQUEUE_IDLE_def Let_def set_used_event_def set_avail_flags_def)
qed

lemma init_queues_ok:
  assumes drv: "driver ve s" and table: "ve_func ve = Some table" "vf_create_virtqueues table = None"
    and rings: "2 \<le> unat (vd_vrings_num (rv_vdev s))" "vd_vrings_info (rv_vdev s) = [a, b]" "vring_cleared a" "vring_cleared b"
  shows "\<exists>a' b'. init_queues ve io s = Some (0, s\<lparr>rv_shbuf_io := Some io, rv_reclaimer := [],
       rv_vdev := (rv_vdev s)\<lparr>vd_vrings_info := [a', b']\<rparr>, rv_rvq := Some 0, rv_svq := Some 1\<rparr>)
    \<and> queue_set_up io (unat (ai_num_descs (vi_info a))) (ve_rx_callback ve) a'
    \<and> queue_set_up io (unat (ai_num_descs (vi_info b))) (ve_tx_callback ve) b'"
proof -
  let ?v = "rv_vdev s" and ?B = "ve_build ve"
  have role: "VIRTIO_ROLE_IS_DRIVER ?B ?v" "\<not> VIRTIO_ROLE_IS_DEVICE ?B ?v"
    using drv by (auto simp: driver_def VIRTIO_ROLE_IS_DRIVER_def VIRTIO_ROLE_IS_DEVICE_def)
  have role': "VIRTIO_ROLE_IS_DRIVER ?B (?v\<lparr>vd_vrings_info := x\<rparr>)" "\<not> VIRTIO_ROLE_IS_DEVICE ?B (?v\<lparr>vd_vrings_info := x\<rparr>)" for x
    using role by (simp_all add: VIRTIO_ROLE_IS_DRIVER_def VIRTIO_ROLE_IS_DEVICE_def)
  have ready: "vring_cleared (vd_vrings_info ?v ! j)" if "0 \<le> j" "j < 0 + 2" for j
    using that rings by (auto simp: less_Suc_eq numeral_2_eq_2)
  obtain infos where loop: "create_virtqueues_loop ?B (vf_notify table) 2 0 [''rx_vq'', ''tx_vq''] [ve_rx_callback ve, ve_tx_callback ve] ?v
      = Some (0, ?v\<lparr>vd_vrings_info := infos\<rparr>)" "length infos = 2"
    "\<forall>j. 0 \<le> j \<and> j < 0 + 2 \<longrightarrow> vring_created j ([ve_rx_callback ve, ve_tx_callback ve] ! j) (vf_notify table) (infos ! j)
       \<and> vi_info (infos ! j) = vi_info (vd_vrings_info ?v ! j)"
    using create_loop_ok [of ?B ?v 0 2 "[''rx_vq'', ''tx_vq'']" "[ve_rx_callback ve, ve_tx_callback ve]" "vf_notify table"]
      role(1) ready rings(2) by auto
  then obtain a1 b1 where ab: "infos = [a1, b1]" by (auto simp: length_Suc_conv numeral_2_eq_2)
  have cr: "vring_created 0 (ve_rx_callback ve) (vf_notify table) a1" "vi_info a1 = vi_info a"
    "vring_created 1 (ve_tx_callback ve) (vf_notify table) b1" "vi_info b1 = vi_info b"
    using loop(3) [rule_format, of 0] loop(3) [rule_format, of 1] ab rings(2) by auto
  then obtain qa qb where q: "vi_vq a1 = Some qa" "vi_vq b1 = Some qb" by (auto simp: vring_created_def split: option.splits)
  have idle: "\<not> vq_inuse qb" using cr(3) q(2) by (simp add: vring_created_def driver_inv_def)
  obtain rb where dis: "virtqueue_disable_cb ?B (?v\<lparr>vd_vrings_info := [a1, b1]\<rparr>) qb (vi_ring b1) = Some (qb, rb)"
    "vm_desc rb = vm_desc (vi_ring b1)" "av_ring (vm_avail rb) = av_ring (vm_avail (vi_ring b1))"
    "av_idx (vm_avail rb) = av_idx (vm_avail (vi_ring b1))" "vm_used rb = vm_used (vi_ring b1)"
    using disable_cb_driver [OF idle role'(1)] by blast
  let ?a = "a1\<lparr>vi_vq := Some (qa\<lparr>vq_shm_io := Some io\<rparr>)\<rparr>"
  let ?b = "b1\<lparr>vi_vq := Some (qb\<lparr>vq_shm_io := Some io\<rparr>), vi_ring := rb\<rparr>"
  have "init_queues ve io s = Some (0, s\<lparr>rv_shbuf_io := Some io, rv_reclaimer := [],
       rv_vdev := ?v\<lparr>vd_vrings_info := [?a, ?b]\<rparr>, rv_rvq := Some 0, rv_svq := Some 1\<rparr>)"
    using loop(1) ab q dis(1) role role' rings(1) table
    by (simp add: init_queues_def driver_def device_def virtio_create_virtqueues_def Let_def get_vq_def put_vq_def arr_get_def
        set_queue_io_eq)
  moreover have "queue_set_up io (unat (ai_num_descs (vi_info a))) (ve_rx_callback ve) ?a"
    using cr(1,2) q(1) by (auto simp: vring_created_def queue_set_up_def zero_ring_def)
  moreover have "queue_set_up io (unat (ai_num_descs (vi_info b))) (ve_tx_callback ve) ?b"
    using cr(3,4) q(2) dis by (auto simp: vring_created_def queue_set_up_def zero_ring_def)
  ultimately show ?thesis by blast
qed

section \<open>The initialised device\<close>

text \<open>
  What the initialisation of a driver needs from outside: a transport that offers features, takes a status and
  leaves the creation of the queues to the library, two vrings it can clear, and a pool with a buffer that
  translates for every descriptor of the receive queue.
\<close>

definition transport_ok :: "'t venv \<Rightarrow> 't virtio_dev_scheme \<Rightarrow> u32 \<Rightarrow> bool" where
  "transport_ok ve v features = (case ve_func ve of None \<Rightarrow> False | Some table \<Rightarrow>
     VIRTIO_ROLE_IS_DRIVER (ve_build ve) v \<and> vf_create_virtqueues table = None \<and> ve_ns_ept ve \<noteq> NULL \<and>
     (case vf_get_features table of None \<Rightarrow> False | Some get \<Rightarrow> get v = Some (features, v)) \<and>
     (case vf_set_status table of None \<Rightarrow> False | Some set_st \<Rightarrow>
        (\<forall>infos. case set_st (v\<lparr>vd_vrings_info := infos\<rparr>) VIRTIO_CONFIG_STATUS_DRIVER_OK of None \<Rightarrow> False
           | Some v' \<Rightarrow> vd_vrings_info v' = infos)))"

definition pool_ok :: "metal_io_region \<Rightarrow> nat \<Rightarrow> rpmsg_virtio_shm_pool \<Rightarrow> u64 list \<Rightarrow> bool" where
  "pool_ok io n p pas = (sp_size p \<noteq> 0 \<and> n * 512 \<le> unat (sp_avail p) \<and> length pas = n \<and>
     (\<forall>j < n. pool_next p 512 j \<noteq> NULL \<and> metal_io_virt_to_phys io (pool_next p 512 j) = Some (pas ! j)))"

text \<open>The receive queue of a ready driver: no descriptor is free, and the ring publishes each with its buffer.\<close>

definition rx_filled :: "nat \<Rightarrow> u64 list \<Rightarrow> addr \<Rightarrow> virtqueue \<times> vring_mem \<Rightarrow> bool" where
  "rx_filled n pas callback = (\<lambda>(vq, rm). vq_callback vq = callback \<and>
     driver_inv vq (vm_desc rm) [] (rev (map (\<lambda>x. [x]) (all_idx n))) \<and> offers_buffers (vm_desc rm) (all_idx n) pas 512
     \<and> av_ring (vm_avail rm) = all_idx n \<and> av_idx (vm_avail rm) = of_nat n \<and> us_idx (vm_used rm) = 0)"

lemma init_rx_ok:
  assumes drv: "driver ve s" and q: "rv_rvq s = Some 0" "vd_vrings_info (rv_vdev s) = [a, b]" "queue_set_up io n cb a"
    and n: "n = 2 ^ e" "e \<le> 15"
    and p: "rv_pools s = p # ps" "cf_r2h_buf_size (rv_config s) = 512" "pool_ok io n p pas"
  shows "\<exists>s' a' vq. get_vq (rv_rvq s) s = Some vq \<and> rx_fill ve io (unat (vq_nentries (fst vq))) s = Some (RPMSG_SUCCESS, s')
    \<and> (\<exists>m. s' = s\<lparr>rv_mem := m, rv_pools := p\<lparr>sp_avail := sp_avail p - of_nat n * 512\<rparr> # ps,
                   rv_vdev := (rv_vdev s)\<lparr>vd_vrings_info := [a', b]\<rparr>\<rparr>)
    \<and> (\<exists>vq'. vi_vq a' = Some vq' \<and> rx_filled n pas cb (vq', vi_ring a'))"
proof -
  obtain vq where vq: "vi_vq a = Some vq" "driver_inv vq (vm_desc (vi_ring a)) (all_idx n) []" "unat (vq_nentries vq) = n"
    "vq_shm_io vq = Some io" "av_ring (vm_avail (vi_ring a)) = replicate n 0" "av_idx (vm_avail (vi_ring a)) = 0"
    "vm_used (vi_ring a) = vm_used (zero_ring n)" "vq_callback vq = cb"
    using q(3) by (auto simp: queue_set_up_def split: option.splits)
  have get: "get_vq (Some 0) s = Some (vq, vi_ring a)" using q(2) vq(1) by (simp add: get_vq_def arr_get_def)
  have len: "length (all_idx n) = n" by (simp add: all_idx_def)
  have tr: "\<forall>j < length (all_idx n). pool_next p (ucast (512 :: u32)) j \<noteq> NULL
      \<and> virtqueue_virt_to_phys vq (pool_next p (ucast (512 :: u32)) j) = Some (pas ! j)"
    using p(3) vq(4) len by (simp add: pool_ok_def virtqueue_virt_to_phys_def)
  have pr: "driver_inv vq (vm_desc (vi_ring a)) (all_idx n @ []) []" "length (av_ring (vm_avail (vi_ring a))) = 2 ^ e"
    "unat (vq_nentries vq) = 2 ^ e" "unat (av_idx (vm_avail (vi_ring a))) + length (all_idx n) \<le> 2 ^ e"
    "512 = cf_r2h_buf_size (rv_config s)" "0 < unat (512 :: u32)" "unat (512 :: u32) < 2 ^ 31"
    "length (all_idx n) * unat (512 :: u32) \<le> unat (sp_avail p)" "length pas = length (all_idx n)"
    using vq(2,3,5,6) len n(1) p(2,3) by (simp_all add: pool_ok_def)
  let ?idx = "unat (av_idx (vm_avail (vi_ring a)))" and ?ring = "av_ring (vm_avail (vi_ring a))"
  obtain s' vq' rm' where fill: "rx_fill ve io (length (all_idx n)) s = Some (RPMSG_SUCCESS, s')" "only_queue 0 s s'"
    "get_vq (Some 0) s' = Some (vq', rm')" "driver_inv vq' (vm_desc rm') [] (rev (map (\<lambda>x. [x]) (all_idx n)) @ [])"
    "offers_buffers (vm_desc rm') (all_idx n) pas 512"
    "rv_pools s' = p\<lparr>sp_avail := sp_avail p - of_nat (length (all_idx n)) * ucast (512 :: u32)\<rparr> # ps"
    "av_ring (vm_avail rm') = take ?idx ?ring @ all_idx n @ drop (?idx + length (all_idx n)) ?ring"
    "av_idx (vm_avail rm') = av_idx (vm_avail (vi_ring a)) + of_nat (length (all_idx n))" "vm_used rm' = vm_used (vi_ring a)" "vq_callback vq' = vq_callback vq"
    using rx_fill_ok [OF q(1) get pr(1-4) p(1) pr(5-9) tr, of ve io] by blast
  obtain m ps' infos where s': "s' = s\<lparr>rv_mem := m, rv_pools := ps', rv_vdev := (rv_vdev s)\<lparr>vd_vrings_info := infos\<rparr>\<rparr>"
    "length infos = 2" "infos ! 1 = b"
    using fill(2) q(2) by (auto simp: only_queue_def)
  then obtain a' where a': "infos = [a', b]" by (auto simp: length_Suc_conv numeral_2_eq_2)
  have "vi_vq a' = Some vq'" "vi_ring a' = rm'" using fill(3) s' a' by (auto simp: get_vq_def arr_get_def opt_simps)
  moreover have "us_idx (vm_used rm') = 0" using fill(9) vq(7) by (simp add: zero_ring_def)
  moreover have "rx_filled n pas cb (vq', rm')"
    using fill(4,5,7,8,10) vq(5,6,8) len calculation(3) by (simp add: rx_filled_def)
  moreover have "\<exists>m. s' = s\<lparr>rv_mem := m, rv_pools := p\<lparr>sp_avail := sp_avail p - of_nat n * 512\<rparr> # ps,
      rv_vdev := (rv_vdev s)\<lparr>vd_vrings_info := [a', b]\<rparr>\<rparr>"
    using s'(1) a' fill(6) len by (intro exI [of _ m]) simp
  ultimately show ?thesis
    using get fill(1) vq(3) q(1) len
    by (intro exI [of _ s'] exI [of _ a'] exI [of _ "(vq, vi_ring a)"]) simp
qed

lemma epts_inv_fresh:
  assumes "rd_endpoints s = []" and "rd_bitmap s = [0, 0]" and "rd_bitnext s = 0"
  shows "epts_inv s"
  using assms by (simp add: epts_inv_def bitmap_capacity_def)

text \<open>The name service endpoint is the first of the list, when the other side knows the service.\<close>

text \<open>
  The endpoints after the initialisation: all 128 addresses are free, the search for one starts at the first, and the name service,
  when the transport has it, is the only endpoint, with its well-known address and callback.
\<close>

definition fresh_endpoints :: "'t venv \<Rightarrow> bool \<Rightarrow> 't rpmsg_virtio_device \<Rightarrow> bool" where
  "fresh_endpoints ve ns s \<longleftrightarrow> rd_bitmap s = [0, 0] \<and> bitmap_bits (rd_bitmap s) = {} \<and> rd_bitnext s = 0 \<and> rd_support_ns s = ns
     \<and> (if ns then rd_endpoints s = [ve_ns_ept ve]
          \<and> (let e = rd_epts s (ve_ns_ept ve) in ep_addr e = RPMSG_NS_EPT_ADDR \<and> ep_dest_addr e = RPMSG_NS_EPT_ADDR
               \<and> ep_cb e = ve_ns_callback ve \<and> ep_priv e = ve_self ve \<and> ep_refcnt e = 1 \<and> ep_rdev e)
          \<and> rpmsg_get_ept_from_addr s RPMSG_NS_EPT_ADDR = Some (ve_ns_ept ve)
        else rd_endpoints s = [])"

lemma no_bits: "bitmap_bits [0, 0] = {}"
  by (auto simp: bitmap_bits_def bitmap_capacity_def nth_Cons')

lemma fresh_endpoints_vdev [simp]: "fresh_endpoints ve ns (s\<lparr>rv_vdev := v\<rparr>) = fresh_endpoints ve ns s"
  by (simp add: fresh_endpoints_def rpmsg_get_ept_from_addr_def rpmsg_get_endpoint_def)

lemma init_ns_ok:
  assumes "rd_endpoints s = []" and "rd_bitmap s = [0, 0]" and "rd_bitnext s = 0"
    and "length (ep_name (rd_epts s (ve_ns_ept ve))) = 32" and "ve_ns_ept ve \<noteq> NULL"
  shows "\<exists>s'. (if rd_support_ns s then rpmsg_register_endpoint (ve_ns_ept ve) (Some [78, 83, 0]) RPMSG_NS_EPT_ADDR RPMSG_NS_EPT_ADDR
       (ve_ns_callback ve) NULL (ve_self ve) s else Some s) = Some s'
    \<and> (\<exists>es. s' = s\<lparr>rd_epts := es, rd_endpoints := (if rd_support_ns s then [ve_ns_ept ve] else [])\<rparr>) \<and> epts_inv s' \<and> fresh_endpoints ve (rd_support_ns s) s'"
proof (cases "rd_support_ns s")
  case False
  then show ?thesis
    using epts_inv_fresh [OF assms(1-3)] assms(1-3)
    by (intro exI [of _ s] conjI exI [of _ "rd_epts s"]) (simp_all add: fresh_endpoints_def no_bits)
next
  case True
  let ?e = "\<lambda>nm. (rd_epts s (ve_ns_ept ve))\<lparr>ep_name := nm, ep_refcnt := 1, ep_addr := RPMSG_NS_EPT_ADDR,
     ep_dest_addr := RPMSG_NS_EPT_ADDR, ep_cb := ve_ns_callback ve, ep_ns_unbind_cb := NULL, ep_priv := ve_self ve, ep_rdev := True\<rparr>"
  have "name_ok (Some [78, 83, 0])" by (simp add: name_ok_def)
  from register_ok [OF assms(4) this, of RPMSG_NS_EPT_ADDR RPMSG_NS_EPT_ADDR "ve_ns_callback ve" NULL "ve_self ve"]
  obtain nm where nm: "rpmsg_register_endpoint (ve_ns_ept ve) (Some [78, 83, 0]) RPMSG_NS_EPT_ADDR RPMSG_NS_EPT_ADDR
      (ve_ns_callback ve) NULL (ve_self ve) s
      = Some (s\<lparr>rd_epts := (rd_epts s)(ve_ns_ept ve := ?e nm), rd_endpoints := rd_endpoints s @ [ve_ns_ept ve]\<rparr>)" "length nm = 32"
    by blast
  have "epts_inv (s\<lparr>rd_epts := (rd_epts s)(ve_ns_ept ve := ?e nm), rd_endpoints := rd_endpoints s @ [ve_ns_ept ve]\<rparr>)"
    by (rule epts_inv_add [OF epts_inv_fresh [OF assms(1-3)], of "ve_ns_ept ve"])
      (use assms nm(2) in \<open>simp_all add: bitmap_capacity_def dyn_addr_def\<close>)
  moreover have "fresh_endpoints ve (rd_support_ns s) (s\<lparr>rd_epts := (rd_epts s)(ve_ns_ept ve := ?e nm), rd_endpoints := [ve_ns_ept ve]\<rparr>)"
    using True assms(2,3) by (simp add: fresh_endpoints_def no_bits rpmsg_get_ept_from_addr_def rpmsg_get_endpoint_def Let_def)
  ultimately show ?thesis
    using nm(1) True assms(1)
    by (intro exI [of _ "s\<lparr>rd_epts := (rd_epts s)(ve_ns_ept ve := ?e nm), rd_endpoints := [ve_ns_ept ve]\<rparr>"]) auto
qed

lemma init_finish_ok:
  assumes tr: "transport_ok ve v features" "rv_vdev s = v\<lparr>vd_vrings_info := [a, b]\<rparr>"
    and q: "rv_rvq s = Some 0" "rv_svq s = Some 1" "queue_set_up io n cb a" "queue_set_up io m cb' b"
    and n: "n = 2 ^ e" "e \<le> 15"
    and p: "rv_pools s = p # ps" "cf_r2h_buf_size (rv_config s) = 512" "pool_ok io n p pas"
    and r: "rd_bitmap s = [0, 0]" "rd_bitnext s = 0" "length (ep_name (rd_epts s (ve_ns_ept ve))) = 32"
  shows "\<exists>s' rx tx. init_finish ve io s = Some (RPMSG_SUCCESS, s') \<and> rv_rvq s' = Some 0 \<and> rv_svq s' = Some 1
    \<and> get_vq (Some 0) s' = Some rx \<and> rx_filled n pas cb rx
    \<and> get_vq (Some 1) s' = Some tx \<and> driver_inv (fst tx) (vm_desc (snd tx)) (all_idx m) [] \<and> av_idx (vm_avail (snd tx)) = 0
    \<and> epts_inv s' \<and> rd_lock s' = rd_lock s \<and> rd_endpoints s' = (if rd_support_ns s then [ve_ns_ept ve] else [])
    \<and> fresh_endpoints ve (rd_support_ns s) s' \<and> rd_ns_bind_cb s' = rd_ns_bind_cb s
    \<and> rv_pools s' = p\<lparr>sp_avail := sp_avail p - of_nat n * 512\<rparr> # ps
    \<and> virtio_set_status (ve_func ve) (Some (v\<lparr>vd_vrings_info := vd_vrings_info (rv_vdev s')\<rparr>)) VIRTIO_CONFIG_STATUS_DRIVER_OK
        = Some (0, Some (rv_vdev s'))"
proof -
  have drv: "driver ve s" using tr by (auto simp: transport_ok_def driver_def VIRTIO_ROLE_IS_DRIVER_def split: option.splits)
  have info: "vd_vrings_info (rv_vdev s) = [a, b]" using tr(2) by simp
  obtain s1 a' vq rq where rx: "get_vq (rv_rvq s) s = Some vq" "rx_fill ve io (unat (vq_nentries (fst vq))) s = Some (RPMSG_SUCCESS, s1)"
    "\<exists>m. s1 = s\<lparr>rv_mem := m, rv_pools := p\<lparr>sp_avail := sp_avail p - of_nat n * 512\<rparr> # ps,
                rv_vdev := (rv_vdev s)\<lparr>vd_vrings_info := [a', b]\<rparr>\<rparr>"
    "vi_vq a' = Some rq" "rx_filled n pas cb (rq, vi_ring a')"
    using init_rx_ok [OF drv q(1) info q(3) n p] by blast
  obtain tq where tx: "vi_vq b = Some tq" "driver_inv tq (vm_desc (vi_ring b)) (all_idx m) []" "av_idx (vm_avail (vi_ring b)) = 0"
    using q(4) by (auto simp: queue_set_up_def split: option.splits)
  obtain table set_st where table: "ve_func ve = Some table" "vf_set_status table = Some set_st" "ve_ns_ept ve \<noteq> NULL"
    "\<forall>infos. case set_st (v\<lparr>vd_vrings_info := infos\<rparr>) VIRTIO_CONFIG_STATUS_DRIVER_OK of None \<Rightarrow> False
       | Some v' \<Rightarrow> vd_vrings_info v' = infos"
    using tr(1) by (auto simp: transport_ok_def split: option.splits)
  obtain v' where v': "set_st (v\<lparr>vd_vrings_info := [a', b]\<rparr>) VIRTIO_CONFIG_STATUS_DRIVER_OK = Some v'" "vd_vrings_info v' = [a', b]"
    using table(4) [rule_format, of "[a', b]"] by (auto split: option.splits)
  let ?s2 = "s1\<lparr>rd_endpoints := []\<rparr>"
  have vd: "rv_vdev s1 = v\<lparr>vd_vrings_info := [a', b]\<rparr>" and same: "rd_support_ns s1 = rd_support_ns s" "rd_lock s1 = rd_lock s" "rd_ns_bind_cb s1 = rd_ns_bind_cb s"
    "rd_epts s1 = rd_epts s" "rd_bitmap s1 = [0, 0]" "rd_bitnext s1 = 0" "rv_rvq s1 = Some 0" "rv_svq s1 = Some 1"
    "rv_pools s1 = p\<lparr>sp_avail := sp_avail p - of_nat n * 512\<rparr> # ps"
    using rx(3) tr(2) r q by auto
  obtain s3 where s3: "(if rd_support_ns ?s2 then rpmsg_register_endpoint (ve_ns_ept ve) (Some [78, 83, 0]) RPMSG_NS_EPT_ADDR RPMSG_NS_EPT_ADDR
       (ve_ns_callback ve) NULL (ve_self ve) ?s2 else Some ?s2) = Some s3"
    "\<exists>es. s3 = ?s2\<lparr>rd_epts := es, rd_endpoints := (if rd_support_ns s then [ve_ns_ept ve] else [])\<rparr>" "epts_inv s3"
    "fresh_endpoints ve (rd_support_ns s) s3"
    using init_ns_ok [of ?s2 ve] same r(3) table(3) by auto
  then obtain es where es: "s3 = ?s2\<lparr>rd_epts := es, rd_endpoints := (if rd_support_ns s then [ve_ns_ept ve] else [])\<rparr>" by blast
  then have d3: "driver ve s3" "rv_vdev s3 = v\<lparr>vd_vrings_info := [a', b]\<rparr>"
    using drv vd tr(2) by (simp_all add: driver_def VIRTIO_ROLE_IS_DRIVER_def)
  have "init_finish ve io s = Some (RPMSG_SUCCESS, s3\<lparr>rv_vdev := v'\<rparr>)"
    using drv rx(1,2) s3(1) d3 table v' by (cases vq) (simp add: init_finish_def Let_def virtio_set_status_def)
  moreover have "epts_inv (s3\<lparr>rv_vdev := v'\<rparr>)" using s3(3) by (subst epts_inv_book) (simp_all add: rpmsg_device.defs)
  ultimately show ?thesis
    using v' rx(4,5) tx same es s3(4) table(1,2)
    by (intro exI [of _ "s3\<lparr>rv_vdev := v'\<rparr>"] exI [of _ "(rq, vi_ring a')"] exI [of _ "(tq, vi_ring b)"])
      (simp add: get_vq_def arr_get_def virtio_set_status_def)
qed

lemma cleared_size:
  assumes "vring_cleared vi"
  shows "\<exists>e. unat (ai_num_descs (vi_info vi)) = 2 ^ e \<and> e \<le> 15"
  using assms unat_pow2 [where 'a = 16] by (fastforce simp: vring_cleared_def split: option.splits)

lemma init_vdev_ok:
  assumes tr: "transport_ok ve v features" and num: "2 \<le> unat (vd_vrings_num v)" and infos: "vd_vrings_info v = [a, b]"
    and clear: "vring_cleared a" "vring_cleared b" and pool: "pool_ok io (unat (ai_num_descs (vi_info a))) p pas"
  shows "\<exists>s' rx tx. rpmsg_init_vdev ve (Some s) (Some v) ns_bind_cb (Some io) (Some (p # ps)) = Some (RPMSG_SUCCESS, Some s')
    \<and> rv_rvq s' = Some 0 \<and> rv_svq s' = Some 1
    \<and> get_vq (Some 0) s' = Some rx \<and> rx_filled (unat (ai_num_descs (vi_info a))) pas (ve_rx_callback ve) rx
    \<and> get_vq (Some 1) s' = Some tx \<and> driver_inv (fst tx) (vm_desc (snd tx)) (all_idx (unat (ai_num_descs (vi_info b)))) []
    \<and> av_idx (vm_avail (snd tx)) = 0
    \<and> epts_inv s' \<and> \<not> rd_lock s' \<and> rd_endpoints s' = (if features AND 1 \<noteq> 0 then [ve_ns_ept ve] else [])
    \<and> fresh_endpoints ve (features AND 1 \<noteq> 0) s' \<and> rd_ns_bind_cb s' = ns_bind_cb
    \<and> rv_pools s' = p\<lparr>sp_avail := sp_avail p - of_nat (unat (ai_num_descs (vi_info a))) * 512\<rparr> # ps
    \<and> virtio_set_status (ve_func ve) (Some (v\<lparr>vd_vrings_info := vd_vrings_info (rv_vdev s')\<rparr>)) VIRTIO_CONFIG_STATUS_DRIVER_OK
        = Some (0, Some (rv_vdev s'))"
proof -
  obtain table get where t: "ve_func ve = Some table" "VIRTIO_ROLE_IS_DRIVER (ve_build ve) v" "vf_create_virtqueues table = None"
    "vf_get_features table = Some get" "get v = Some (features, v)"
    using tr by (auto simp: transport_ok_def split: option.splits)
  have role: "\<not> VIRTIO_ROLE_IS_DEVICE (ve_build ve) v" "VIRTIO_DRIVER_SUPPORT (ve_build ve)"
    using t(2) by (auto simp: VIRTIO_ROLE_IS_DRIVER_def VIRTIO_ROLE_IS_DEVICE_def)
  let ?s0 = "init_rdev ve v ns_bind_cb s"
  let ?config = "\<lparr>cf_h2r_buf_size = RPMSG_BUFFER_SIZE, cf_r2h_buf_size = RPMSG_BUFFER_SIZE, cf_split_shpool = False\<rparr>"
  define s1 where "s1 = ?s0\<lparr>rv_config := ?config, rv_vdev := v, rd_support_ns := (features AND 1 \<noteq> 0)\<rparr>"
  have neg: "init_negotiate ve (Some ?config) ?s0 = Some (0, s1)"
    using t role by (simp add: init_negotiate_def driver_def device_def init_rdev_def s1_def virtio_get_features_def)
  define s2 where "s2 = s1\<lparr>rv_pools := p # ps, rv_shpool := Some 0\<rparr>"
  have v2: "rv_vdev s2 = v" by (simp add: s2_def s1_def)
  have pools: "init_pools ve (Some (p # ps)) s1 = Some (0, s2)"
    using t(2) pool by (simp add: init_pools_def driver_def s1_def s2_def arr_get_def pool_ok_def)
  obtain a' b' where q: "init_queues ve io s2 = Some (0, s2\<lparr>rv_shbuf_io := Some io, rv_reclaimer := [],
       rv_vdev := v\<lparr>vd_vrings_info := [a', b']\<rparr>, rv_rvq := Some 0, rv_svq := Some 1\<rparr>)"
    "queue_set_up io (unat (ai_num_descs (vi_info a))) (ve_rx_callback ve) a'"
    "queue_set_up io (unat (ai_num_descs (vi_info b))) (ve_tx_callback ve) b'"
    using init_queues_ok [of ve s2 table a b io] t v2 num infos clear by (auto simp: driver_def)
  let ?s3 = "s2\<lparr>rv_shbuf_io := Some io, rv_reclaimer := [], rv_vdev := v\<lparr>vd_vrings_info := [a', b']\<rparr>,
     rv_rvq := Some 0, rv_svq := Some 1\<rparr>"
  obtain e where e: "unat (ai_num_descs (vi_info a)) = 2 ^ e" "e \<le> 15" using cleared_size [OF clear(1)] by blast
  have s3: "rv_vdev ?s3 = v\<lparr>vd_vrings_info := [a', b']\<rparr>" "rv_rvq ?s3 = Some 0" "rv_svq ?s3 = Some 1" "rv_pools ?s3 = p # ps"
    "cf_r2h_buf_size (rv_config ?s3) = 512" "rd_bitmap ?s3 = [0, 0]" "rd_bitnext ?s3 = 0"
    "length (ep_name (rd_epts ?s3 (ve_ns_ept ve))) = 32" "\<not> rd_lock ?s3" "rd_support_ns ?s3 = (features AND 1 \<noteq> 0)"
    "rd_ns_bind_cb ?s3 = ns_bind_cb"
    by (simp_all add: s2_def s1_def init_rdev_def)
  have "rpmsg_init_vdev ve (Some s) (Some v) ns_bind_cb (Some io) (Some (p # ps)) = map_option (map_prod id Some) (init_finish ve io ?s3)"
    using neg pools q(1) role(2) by (simp add: rpmsg_init_vdev_def rpmsg_init_vdev_with_config_def RPMSG_VIRTIO_DEFAULT_CONFIG_def)
  then show ?thesis
    using init_finish_ok [OF tr s3(1-3) q(2,3) e s3(4,5) pool s3(6-8)] s3(9-11) by auto
qed

text \<open>
  C8: \<open>rpmsg_init_vdev\<close> of a driver over a transport that offers features and takes a status, on two vrings it
  can clear and a pool with a buffer for every descriptor of the receive queue, succeeds. Afterwards every
  descriptor of the receive queue offers its own buffer of the pool, in order, as device-writable and of the full
  size, and the available ring publishes all of them; the send queue is empty; the 128 dynamic
  addresses are all free, and when the transport offers the name service its endpoint is registered with the address and callback of the
  name service, and messages to that address are routed to it.
\<close>

theorem init_vdev_driver_ready:
  assumes tr: "transport_ok ve v features" and num: "2 \<le> unat (vd_vrings_num v)" and infos: "vd_vrings_info v = [a, b]"
    and clear: "vring_cleared a" "vring_cleared b" and pool: "pool_ok io (unat (ai_num_descs (vi_info a))) p pas"
  shows "\<exists>s' rx tx. rpmsg_init_vdev ve (Some s) (Some v) ns_bind_cb (Some io) (Some (p # ps)) = Some (RPMSG_SUCCESS, Some s')
    \<and> rv_rvq s' = Some 0 \<and> rv_svq s' = Some 1
    \<and> get_vq (Some 0) s' = Some rx \<and> rx_filled (unat (ai_num_descs (vi_info a))) pas (ve_rx_callback ve) rx
    \<and> get_vq (Some 1) s' = Some tx \<and> driver_inv (fst tx) (vm_desc (snd tx)) (all_idx (unat (ai_num_descs (vi_info b)))) []
    \<and> av_idx (vm_avail (snd tx)) = 0
    \<and> epts_inv s' \<and> \<not> rd_lock s' \<and> rd_endpoints s' = (if features AND 1 \<noteq> 0 then [ve_ns_ept ve] else [])
    \<and> fresh_endpoints ve (features AND 1 \<noteq> 0) s' \<and> rd_ns_bind_cb s' = ns_bind_cb
    \<and> rv_pools s' = p\<lparr>sp_avail := sp_avail p - of_nat (unat (ai_num_descs (vi_info a))) * 512\<rparr> # ps"
  using init_vdev_ok [OF assms] by blast

section \<open>A concrete driver\<close>

definition demo_init_ve :: "unit venv" where
  "demo_init_ve = demo_ve\<lparr>ve_func := Some (demo_table\<lparr>vf_set_status := Some (\<lambda>v _. Some v)\<rparr>)\<rparr>"

definition demo_init_vdev :: "virtio_dev" where
  "demo_init_vdev = demo_vdev\<lparr>vd_vrings_num := 2, vd_vrings_info := [demo_vring, demo_vring]\<rparr>"

definition demo_pool :: rpmsg_virtio_shm_pool where
  "demo_pool = \<lparr>sp_base = 0x1200, sp_avail = 2048, sp_size = 2048\<rparr>"

lemma demo_transport_ok: "transport_ok demo_init_ve demo_init_vdev 1"
  by (simp add: transport_ok_def demo_init_ve_def demo_ve_def demo_table_def demo_init_vdev_def demo_vdev_def
      VIRTIO_ROLE_IS_DRIVER_def default_build_def)

lemma demo_pool_ok: "pool_ok demo_io 4 demo_pool [0x4200, 0x4400, 0x4600, 0x4800]"
proof -
  have "metal_io_virt_to_phys demo_io (pool_next demo_pool 512 j) = Some ([0x4200, 0x4400, 0x4600, 0x4800] ! j)"
    "pool_next demo_pool 512 j \<noteq> NULL" if "j < 4" for j
  proof -
    from that have "j = 0 \<or> j = 1 \<or> j = 2 \<or> j = 3" by linarith
    then show "metal_io_virt_to_phys demo_io (pool_next demo_pool 512 j) = Some ([0x4200, 0x4400, 0x4600, 0x4800] ! j)"
      "pool_next demo_pool 512 j \<noteq> NULL"
      by (auto simp: pool_next_def demo_pool_def demo_io_def metal_io_virt_to_phys_def metal_io_virt_to_offset_def
          metal_io_phys_def no_ops_def)
  qed
  then show ?thesis by (simp add: pool_ok_def demo_pool_def)
qed

theorem init_vdev_driver_ready_witness:
  "\<exists>s' rx tx. rpmsg_init_vdev demo_init_ve (Some demo_rv) (Some demo_init_vdev) NULL (Some demo_io) (Some [demo_pool])
      = Some (RPMSG_SUCCESS, Some s')
    \<and> get_vq (Some 0) s' = Some rx \<and> rx_filled 4 [0x4200, 0x4400, 0x4600, 0x4800] (ve_rx_callback demo_init_ve) rx
    \<and> get_vq (Some 1) s' = Some tx \<and> av_idx (vm_avail (snd tx)) = 0 \<and> rd_endpoints s' = [ve_ns_ept demo_init_ve]
    \<and> fresh_endpoints demo_init_ve True s'"
  using init_vdev_driver_ready [OF demo_transport_ok _ _ vring_ready_cleared [OF demo_vring_ready]
      vring_ready_cleared [OF demo_vring_ready], of demo_io demo_pool "[0x4200, 0x4400, 0x4600, 0x4800]" demo_rv NULL "[]"] demo_pool_ok
  by (simp add: demo_init_vdev_def demo_vring_def) blast

end
