(* ===== verification/Openamp_Node.thy ===== *)
theory Openamp_Node
  imports Rpmsg_Transport
begin

unbundle bit_operations_syntax

text \<open>
  \<^verbatim>\<open>src/operation_interface/operation_interface.c\<close>: the registry of named application nodes over rpmsg
  endpoints, and the echo application of \<^verbatim>\<open>src/openamp_demo\<close>. A node is an object with an endpoint as its
  first member, so a node and its endpoint have the same address. The list of nodes is the sequence
  of their addresses, the newest first; \<open>oa_node\<close> tells which nodes are allocated. \<open>alloc\<close> is what the
  allocator returns to a call. \<open>Openamp_Dev\<close> creates the device underneath.
\<close>

section \<open>Data\<close>

abbreviation (input) OPENAMP_APP_NODE_NAME_MAXLEN :: nat where "OPENAMP_APP_NODE_NAME_MAXLEN \<equiv> 20"
abbreviation (input) APP_NODE_MAXNUM :: nat where "APP_NODE_MAXNUM \<equiv> 16"

record openamp_app_node =
  an_name :: "u8 list"
  an_src :: u32
  an_dest :: u32
  an_cb :: addr
  an_unbind_cb :: addr

definition zero_node :: openamp_app_node where
  "zero_node = \<lparr>an_name = replicate OPENAMP_APP_NODE_NAME_MAXLEN 0, an_src = 0, an_dest = 0, an_cb = NULL, an_unbind_cb = NULL\<rparr>"

definition zero_ept :: rpmsg_endpoint where
  "zero_ept = \<lparr>ep_name = replicate RPMSG_NAME_SIZE 0, ep_rdev = False, ep_addr = 0, ep_dest_addr = 0, ep_refcnt = 0,
     ep_release_cb = NULL, ep_cb = NULL, ep_ns_unbind_cb = NULL, ep_priv = NULL\<rparr>"

record 'x openamp =
  oa_list :: "addr list"
  oa_node :: "addr \<Rightarrow> openamp_app_node option"
  oa_dev :: "'x rpmsg_device_scheme"

text \<open>\<open>strcmp(a, b) == 0\<close> and \<open>strncpy(dst, src, n)\<close> on arrays of characters; \<open>None\<close> is a read behind an array.\<close>

fun strcmp_eq :: "u8 list \<Rightarrow> u8 list \<Rightarrow> bool option" where
  "strcmp_eq (a # as) (b # bs) = (if a \<noteq> b then Some False else if a = 0 then Some True else strcmp_eq as bs)"
| "strcmp_eq _ _ = None"

fun strncpy :: "nat \<Rightarrow> u8 list \<Rightarrow> u8 list option" where
  "strncpy 0 src = Some []"
| "strncpy (Suc n) [] = None"
| "strncpy (Suc n) (c # cs) = (if c = 0 then Some (replicate (Suc n) 0) else map_option ((#) c) (strncpy n cs))"

section \<open>Looking up a node\<close>

text \<open>The walk over the list all functions share; \<open>Some None\<close> is its end.\<close>

fun find_node :: "(addr \<Rightarrow> openamp_app_node option) \<Rightarrow> u8 list \<Rightarrow> addr list \<Rightarrow> addr option option" where
  "find_node node name [] = Some None"
| "find_node node name (p # ps) = do {
     n \<leftarrow> node p;
     eq \<leftarrow> strcmp_eq name (an_name n);
     if eq then Some (Some p) else find_node node name ps
   }"

definition openamp_find_app_node :: "u8 list option \<Rightarrow> 'x openamp \<Rightarrow> addr option" where
  "openamp_find_app_node name s =
     (case name of None \<Rightarrow> Some NULL
      | Some nm \<Rightarrow> do {
          r \<leftarrow> find_node (oa_node s) nm (oa_list s);
          Some (case r of None \<Rightarrow> NULL | Some p \<Rightarrow> p)
        })"

section \<open>Registering\<close>

text \<open>Allocation and \<open>memset\<close>, filling in the node, linking it, and its endpoint. The status of the creation is not looked at.\<close>

definition alloc_node :: "addr \<Rightarrow> 'x openamp \<Rightarrow> 'x openamp" where
  "alloc_node p s = s\<lparr>oa_node := (oa_node s)(p \<mapsto> zero_node), oa_dev := upd_ept p (\<lambda>_. zero_ept) (oa_dev s)\<rparr>"

definition free_node :: "addr \<Rightarrow> 'x openamp \<Rightarrow> 'x openamp" where
  "free_node p s = s\<lparr>oa_node := (oa_node s)(p := None)\<rparr>"

definition add_node ::
  "'x rpmsg_device_scheme rpmsg_device_ops \<Rightarrow> 'x rpmsg_device_scheme app \<Rightarrow> u8 list \<Rightarrow> addr \<Rightarrow> u8 list \<Rightarrow> u32 \<Rightarrow> addr \<Rightarrow> addr \<Rightarrow>
   'x openamp \<Rightarrow> 'x openamp option" where
  "add_node ops app junk p name dest cb unbind_cb s = do {
     n \<leftarrow> oa_node s p;
     nm \<leftarrow> strncpy OPENAMP_APP_NODE_NAME_MAXLEN name;
     let n1 = n\<lparr>an_name := nm, an_dest := dest, an_cb := cb, an_unbind_cb := unbind_cb\<rparr>;
     let s1 = s\<lparr>oa_node := (oa_node s)(p \<mapsto> n1), oa_list := p # oa_list s\<rparr>;
     (_, d) \<leftarrow> rpmsg_create_ept ops app junk p (Some (an_name n1)) RPMSG_ADDR_ANY RPMSG_ADDR_ANY cb unbind_cb (oa_dev s1);
     Some (s1\<lparr>oa_dev := d\<rparr>)
   }"

definition openamp_app_node_register ::
  "'x rpmsg_device_scheme rpmsg_device_ops \<Rightarrow> 'x rpmsg_device_scheme app \<Rightarrow> u8 list \<Rightarrow> addr \<Rightarrow> u8 list option \<Rightarrow> addr \<Rightarrow> addr \<Rightarrow> bool \<Rightarrow>
   'x openamp \<Rightarrow> (addr \<times> 'x openamp) option" where
  "openamp_app_node_register ops app junk alloc name cb unbind_cb dev s =
     (if name = None \<or> \<not> dev then Some (NULL, s)
      else if cb = NULL \<or> unbind_cb = NULL then Some (NULL, s)
      else do {
        nm \<leftarrow> name;
        r \<leftarrow> find_node (oa_node s) nm (oa_list s);
        (case r of
           Some p \<Rightarrow> do {
             n \<leftarrow> oa_node s p;
             if an_cb n = NULL \<and> an_unbind_cb n = NULL then Some (p, s)
             else if ep_cb (rd_epts (oa_dev s) p) = cb \<and> ep_ns_unbind_cb (rd_epts (oa_dev s) p) = unbind_cb then Some (p, s)
             else Some (p, s\<lparr>oa_dev := upd_ept p (\<lambda>e. e\<lparr>ep_cb := cb, ep_ns_unbind_cb := unbind_cb\<rparr>) (oa_dev s)\<rparr>)
           }
         | None \<Rightarrow>
             if alloc = NULL then Some (NULL, s)
             else do {
               s1 \<leftarrow> add_node ops app junk alloc nm 0 cb unbind_cb (alloc_node alloc s);
               Some (alloc, s1)
             })
      })"

definition openamp_app_node_unregister ::
  "'x rpmsg_device_scheme rpmsg_device_ops \<Rightarrow> 'x rpmsg_device_scheme app \<Rightarrow> u8 list \<Rightarrow> u8 list option \<Rightarrow>
   'x openamp \<Rightarrow> (int \<times> 'x openamp) option" where
  "openamp_app_node_unregister ops app junk name s =
     (case name of None \<Rightarrow> Some (- 1, s)
      | Some nm \<Rightarrow> do {
          r \<leftarrow> find_node (oa_node s) nm (oa_list s);
          (case r of None \<Rightarrow> Some (- 1, s)
           | Some p \<Rightarrow> do {
               d \<leftarrow> rpmsg_destroy_ept ops app junk p (oa_dev s);
               Some (0, free_node p (s\<lparr>oa_list := remove1 p (oa_list s), oa_dev := d\<rparr>))
             })
        })"

section \<open>Callbacks of the name service\<close>

abbreviation (input) DEFAULT_BIND_CB :: addr where "DEFAULT_BIND_CB \<equiv> 0xD00"
abbreviation (input) DEFAULT_UNBIND_CB :: addr where "DEFAULT_UNBIND_CB \<equiv> 0xD08"

text \<open>
  \<open>default_bind_cb\<close> terminates the message in the receive buffer, behind its last byte. \<open>auto_register\<close> is the
  application's \<open>auto_node_register\<close>, if there is one. A node is allocated before the names are compared.
\<close>

definition default_bind_cb :: "addr \<Rightarrow> nat \<Rightarrow> mem \<Rightarrow> int \<times> mem" where
  "default_bind_cb data len m = (0, m(data + of_nat len := 0))"

definition default_unbind_cb ::
  "'x rpmsg_device_scheme rpmsg_device_ops \<Rightarrow> 'x rpmsg_device_scheme app \<Rightarrow> u8 list \<Rightarrow> addr \<Rightarrow> 'x openamp \<Rightarrow> 'x openamp option" where
  "default_unbind_cb ops app junk ept s =
     map_option snd (openamp_app_node_unregister ops app junk (Some (ep_name (rd_epts (oa_dev s) ept))) s)"

definition openamp_ns_bind_cb ::
  "'x rpmsg_device_scheme rpmsg_device_ops \<Rightarrow> 'x rpmsg_device_scheme app \<Rightarrow> u8 list \<Rightarrow> addr \<Rightarrow>
   (u8 list \<Rightarrow> 'x openamp \<Rightarrow> 'x openamp option) option \<Rightarrow> bool \<Rightarrow> u8 list option \<Rightarrow> u32 \<Rightarrow> 'x openamp \<Rightarrow> 'x openamp option" where
  "openamp_ns_bind_cb ops app junk alloc auto_register rdev name dest s =
     (if name = None \<or> \<not> rdev then Some s
      else if alloc = NULL then Some s
      else do {
        nm \<leftarrow> name;
        let s1 = alloc_node alloc s;
        r \<leftarrow> find_node (oa_node s1) nm (oa_list s1);
        (case r of Some p \<Rightarrow> Some (free_node alloc s1)
         | None \<Rightarrow> do {
             s2 \<leftarrow> add_node ops app junk alloc nm dest DEFAULT_BIND_CB DEFAULT_UNBIND_CB s1;
             let s3 = s2\<lparr>oa_dev := upd_ept alloc (\<lambda>e. e\<lparr>ep_dest_addr := dest\<rparr>) (oa_dev s2)\<rparr>;
             (case auto_register of Some f \<Rightarrow> f nm s3 | None \<Rightarrow> Some s3)
           })
      })"

section \<open>Sending\<close>

text \<open>The length passes through \<open>int\<close> twice; the result is compared as an unsigned number.\<close>

definition openamp_app_send ::
  "'x rpmsg_device_scheme rpmsg_device_ops \<Rightarrow> addr \<Rightarrow> cdata \<Rightarrow> u64 \<Rightarrow> 'x openamp \<Rightarrow> (int \<times> 'x openamp) option" where
  "openamp_app_send ops ept data len s =
     (if ept = NULL \<or> data_null data \<or> len = 0 then Some (- 1, s)
      else do {
        (r, d) \<leftarrow> rpmsg_send ops ept data (sint (ucast len :: u32)) (oa_dev s);
        Some (if word_of_int r = len then sint (ucast len :: u32) else - 1, s\<lparr>oa_dev := d\<rparr>)
      })"

section \<open>The echo application\<close>

abbreviation (input) ECHO_CB :: addr where "ECHO_CB \<equiv> 0xE00"
abbreviation (input) ECHO_UNBIND_CB :: addr where "ECHO_UNBIND_CB \<equiv> 0xE08"

definition ECHO_NAME :: "u8 list" where "ECHO_NAME = [101, 99, 104, 111, 0]"

text \<open>\<open>dev\<close> is whether \<open>openamp_dev_get\<close> finds a device. \<open>echo_cb\<close> and \<open>echo_unbind_cb\<close> do what the default callbacks do.\<close>

definition echo_cb :: "addr \<Rightarrow> nat \<Rightarrow> mem \<Rightarrow> int \<times> mem" where
  "echo_cb data len m = (0, m(data + of_nat len := 0))"

definition echo_unbind_cb ::
  "'x rpmsg_device_scheme rpmsg_device_ops \<Rightarrow> 'x rpmsg_device_scheme app \<Rightarrow> u8 list \<Rightarrow> addr \<Rightarrow> 'x openamp \<Rightarrow> 'x openamp option" where
  "echo_unbind_cb ops app junk ept s =
     map_option snd (openamp_app_node_unregister ops app junk (Some (ep_name (rd_epts (oa_dev s) ept))) s)"

definition app_echo_init ::
  "'x rpmsg_device_scheme rpmsg_device_ops \<Rightarrow> 'x rpmsg_device_scheme app \<Rightarrow> u8 list \<Rightarrow> addr \<Rightarrow> bool \<Rightarrow> 'x openamp \<Rightarrow> 'x openamp option" where
  "app_echo_init ops app junk alloc dev s =
     map_option snd (openamp_app_node_register ops app junk alloc (Some ECHO_NAME) ECHO_CB ECHO_UNBIND_CB dev s)"

text \<open>\<open>send_buf\<close> is a terminated string.\<close>

definition app_echo_send ::
  "'x rpmsg_device_scheme rpmsg_device_ops \<Rightarrow> u8 list \<Rightarrow> 'x openamp \<Rightarrow> (int \<times> 'x openamp) option" where
  "app_echo_send ops send_buf s = do {
     p \<leftarrow> openamp_find_app_node (Some ECHO_NAME) s;
     if p = NULL then Some (- 1, s)
     else do {
       require (0 \<in> set send_buf);
       let n = of_nat (length (cstr send_buf));
       (r, s1) \<leftarrow> openamp_app_send ops p (Local send_buf) n s;
       Some (if word_of_int r = (n :: u64) then 0 else - 1, s1)
     }
   }"

text \<open>\<open>strncmp(name, ECHO_NAME, APP_NODE_MAXNUM)\<close>, then the registration.\<close>

definition app_auto_node_register ::
  "'x rpmsg_device_scheme rpmsg_device_ops \<Rightarrow> 'x rpmsg_device_scheme app \<Rightarrow> u8 list \<Rightarrow> addr \<Rightarrow> bool \<Rightarrow> u8 list option \<Rightarrow> 'x openamp \<Rightarrow>
   (int \<times> 'x openamp) option" where
  "app_auto_node_register ops app junk alloc dev name s =
     (case name of None \<Rightarrow> Some (- 1, s)
      | Some nm \<Rightarrow> do {
          eq \<leftarrow> strn_eq APP_NODE_MAXNUM nm ECHO_NAME;
          s1 \<leftarrow> (if eq then app_echo_init ops app junk alloc dev s else Some s);
          Some (0, s1)
        })"

section \<open>Strings\<close>

text \<open>A C string that fits the name of a node with its terminator.\<close>

definition short_name :: "u8 list \<Rightarrow> bool" where
  "short_name nm = (0 \<in> set nm \<and> length (cstr nm) < OPENAMP_APP_NODE_NAME_MAXLEN)"

lemma strcmp_eq_cstr: "0 \<in> set as \<Longrightarrow> 0 \<in> set bs \<Longrightarrow> strcmp_eq as bs = Some (cstr as = cstr bs)"
  by (induction as bs rule: strcmp_eq.induct) auto

lemma strncpy_cstr:
  "0 \<in> set src \<Longrightarrow> length (cstr src) < n \<Longrightarrow>
   \<exists>dst. strncpy n src = Some dst \<and> length dst = n \<and> 0 \<in> set dst \<and> cstr dst = cstr src"
  by (induction n src rule: strncpy.induct) (auto split: if_splits)

lemma strncpy_long:
  "n \<le> length (cstr src) \<Longrightarrow> strncpy n src = Some (take n src) \<and> 0 \<notin> set (take n src)"
  by (induction n src rule: strncpy.induct) (auto split: if_splits)

lemma strn_eq_cstr:
  "0 \<in> set as \<Longrightarrow> 0 \<in> set bs \<Longrightarrow> length (cstr bs) < n \<Longrightarrow> strn_eq n as bs = Some (cstr as = cstr bs)"
proof (induction n as bs rule: strn_eq.induct)
  case (2 n a b)
  then show ?case by (cases a; cases b) auto
qed simp

section \<open>What creating and destroying an endpoint leave alone\<close>

lemma register_named:
  assumes "length (ep_name (rd_epts s p)) = 32" and "0 \<in> set n" and "length (cstr n) < 32"
  shows "\<exists>nm. rpmsg_register_endpoint p (Some n) a dest cb ub priv s =
      Some (s\<lparr>rd_epts := (rd_epts s)(p := (rd_epts s p)\<lparr>ep_name := nm, ep_refcnt := 1, ep_addr := a,
                ep_dest_addr := dest, ep_cb := cb, ep_ns_unbind_cb := ub, ep_priv := priv, ep_rdev := True\<rparr>),
              rd_endpoints := rd_endpoints s @ [p]\<rparr>)
    \<and> length nm = 32 \<and> 0 \<in> set nm \<and> cstr nm = cstr n"
proof -
  obtain r nm where "safe_strcpy (ep_name (rd_epts s p)) 32 n 32 = Some (r, nm)" "length nm = 32" "0 \<in> set nm"
    "cstr nm = cstr n"
    using strcpy_fits [OF assms(1), of n] assms(2,3) by auto
  then show ?thesis
    by (intro exI [of _ nm]) (simp add: rpmsg_register_endpoint_def upd_ept_def)
qed

text \<open>The endpoint of a node: alive and named like it, or dead because it could not be created.\<close>

definition ept_of_node :: "u8 list \<Rightarrow> addr \<Rightarrow> 'x rpmsg_device_scheme \<Rightarrow> bool" where
  "ept_of_node nm p d =
     (if p \<in> set (rd_endpoints d)
      then ep_release_cb (rd_epts d p) = NULL \<and> ep_refcnt (rd_epts d p) = 1 \<and> 0 \<in> set (ep_name (rd_epts d p))
        \<and> cstr (ep_name (rd_epts d p)) = cstr nm
      else \<not> ep_rdev (rd_epts d p))"

lemma ept_of_node_book:
  assumes "book d' = book d"
  shows "ept_of_node nm p d' = ept_of_node nm p d"
  unfolding ept_of_node_def book_eqD [OF assms] ..

lemma unregister_frame:
  assumes "rpmsg_unregister_endpoint app p s = Some s'" and "ep_refcnt (rd_epts s p) = 1"
    and "ep_release_cb (rd_epts s p) = NULL" and "p \<noteq> NULL"
  shows "rd_epts s' = (rd_epts s)(p := (rd_epts s p)\<lparr>ep_refcnt := 0, ep_rdev := False\<rparr>)"
  using assms
  by (cases "ep_addr (rd_epts s p) = RPMSG_ADDR_ANY"; cases "rd_lock s")
    (auto simp: rpmsg_unregister_endpoint_def metal_mutex_acquire_def metal_mutex_release_def rpmsg_ept_decref_def
      upd_ept_def opt_simps)

context rpmsg_transport
begin

lemma create_ept_node:
  assumes inv: "epts_inv s" and lock: "\<not> rd_lock s" and p: "p \<notin> set (rd_endpoints s)" "rd_epts s p = zero_ept"
    and nm: "0 \<in> set n" "length (cstr n) < 32" and free: "\<exists>c < 128. c \<notin> bitmap_bits (rd_bitmap s)"
    and run: "rpmsg_create_ept ops app junk p (Some n) RPMSG_ADDR_ANY dest cb ub s = Some (r, s')"
  shows "epts_inv s' \<and> \<not> rd_lock s' \<and> set (rd_endpoints s) \<subseteq> set (rd_endpoints s')
    \<and> set (rd_endpoints s') \<subseteq> insert p (set (rd_endpoints s)) \<and> ept_of_node n p s'
    \<and> (\<forall>q. q \<noteq> p \<longrightarrow> rd_epts s' q = rd_epts s q)"
proof (cases "p = NULL \<or> cb = NULL")
  case True
  then show ?thesis using run inv lock p by (auto simp: rpmsg_create_ept_def ept_of_node_def zero_ept_def)
next
  case False
  then have "p \<noteq> NULL" by simp
  have inv': "epts_inv s' \<and> \<not> rd_lock s' \<and> (r = 0 \<longrightarrow> rd_endpoints s' = rd_endpoints s @ [p])
      \<and> (r \<noteq> 0 \<longrightarrow> rd_endpoints s' = rd_endpoints s)"
    using create_ept_inv [OF inv lock p(1) _ _ _ _ run] p(2) nm free by (auto simp: zero_ept_def name_ok_def)
  obtain x s2 where x: "choose_addr RPMSG_ADDR_ANY (s\<lparr>rd_lock := True\<rparr>) = Some (x, s2)"
    using run False lock by (auto simp: rpmsg_create_ept_def metal_mutex_acquire_def opt_simps)
  have s2: "rd_endpoints s2 = rd_endpoints s" "rd_epts s2 = rd_epts s"
    using x by (auto simp: choose_addr_def Let_def opt_simps split: if_splits prod.splits)
  show ?thesis
  proof (cases x)
    case (Inl st)
    then have "s' = metal_mutex_release s2"
      using run False lock x by (simp add: rpmsg_create_ept_def metal_mutex_acquire_def)
    then show ?thesis
      using inv' s2 p by (auto simp: metal_mutex_release_def ept_of_node_def zero_ept_def)
  next
    case (Inr a)
    obtain nm where nm': "length nm = 32" "0 \<in> set nm" "cstr nm = cstr n"
      and reg: "rpmsg_register_endpoint p (Some n) a dest cb ub NULL s2
        = Some (s2\<lparr>rd_epts := (rd_epts s2)(p := zero_ept\<lparr>ep_name := nm, ep_refcnt := 1, ep_addr := a,
            ep_dest_addr := dest, ep_cb := cb, ep_ns_unbind_cb := ub, ep_priv := NULL, ep_rdev := True\<rparr>),
            rd_endpoints := rd_endpoints s2 @ [p]\<rparr>)"
      using register_named [of s2 p n a dest cb ub NULL] s2 p(2) nm by (auto simp: zero_ept_def)
    define e where "e = zero_ept\<lparr>ep_name := nm, ep_refcnt := 1, ep_addr := a,
      ep_dest_addr := dest, ep_cb := cb, ep_ns_unbind_cb := ub, ep_priv := NULL, ep_rdev := True\<rparr>"
    have e: "ep_name e = nm" "ep_refcnt e = 1" "ep_release_cb e = NULL" by (simp_all add: e_def zero_ept_def)
    define s4 where "s4 = metal_mutex_release (s2\<lparr>rd_epts := (rd_epts s2)(p := e), rd_endpoints := rd_endpoints s2 @ [p]\<rparr>)"
    have s4: "rd_endpoints s4 = rd_endpoints s @ [p]" "rd_epts s4 = (rd_epts s)(p := e)" "\<not> rd_lock s4"
      using s2 by (simp_all add: s4_def metal_mutex_release_def)
    have "create_announce ops app junk p s4 = Some (r, s')"
      using run False lock x Inr reg s2 p(2)
      by (simp add: rpmsg_create_ept_def metal_mutex_acquire_def s4_def e_def) (simp add: zero_ept_def)
    then obtain st s5 where ann: "(if ep_name (rd_epts s4 p) ! 0 \<noteq> 0 \<and> rd_support_ns s4 \<and> ep_dest_addr (rd_epts s4 p) = RPMSG_ADDR_ANY
        then rpmsg_send_ns_message ops junk p RPMSG_NS_CREATE s4 else Some (RPMSG_SUCCESS, s4)) = Some (st, s5)"
      and fin: "(if st \<noteq> 0 then Option.bind (rpmsg_unregister_endpoint app p s5) (\<lambda>t. Some (st, t)) else Some (st, s5)) = Some (r, s')"
      unfolding create_announce_def by (auto simp only: opt_simps split: prod.splits)
    have bk: "book s5 = book s4" by (rule announce_keeps [OF ann s4(3)])
    note b5 = book_eqD [OF bk]
    show ?thesis
    proof (cases "st = 0")
      case True
      then have "s' = s5" "r = 0" using fin by auto
      then show ?thesis
        using inv' b5 s4 e nm' by (auto simp: ept_of_node_def)
    next
      case False
      then have "st = r" "rpmsg_unregister_endpoint app p s5 = Some s'" using fin by (auto simp: opt_simps)
      then show ?thesis
        using unregister_frame [of app p s5 s'] inv' False b5 s4 e p \<open>p \<noteq> NULL\<close> by (auto simp: ept_of_node_def)
    qed
  qed
qed

lemma destroy_ept_node:
  assumes inv: "epts_inv s" and lock: "\<not> rd_lock s" and p: "ept_of_node nm p s"
    and run: "rpmsg_destroy_ept ops app junk p s = Some s'"
  shows "epts_inv s' \<and> \<not> rd_lock s' \<and> set (rd_endpoints s') = set (rd_endpoints s) - {p}
    \<and> (\<forall>q. q \<noteq> p \<longrightarrow> rd_epts s' q = rd_epts s q)"
proof (cases "p \<in> set (rd_endpoints s)")
  case True
  then have e: "ep_refcnt (rd_epts s p) = 1" "ep_release_cb (rd_epts s p) = NULL" "distinct (rd_endpoints s)"
    "\<not> ept_dead p s" "p \<noteq> NULL"
    using p inv by (auto simp: ept_of_node_def ept_dead_def epts_inv_def)
  obtain s1 where s1: "rpmsg_unregister_endpoint app p s1 = Some s'" and bk: "book s1 = book s"
    using run e(4) lock ns_message_keeps by (auto simp: rpmsg_destroy_ept_def opt_simps split: if_splits)
  have "\<forall>q. q \<noteq> p \<longrightarrow> rd_epts s' q = rd_epts s q"
    using unregister_frame [OF s1] e book_eqD [OF bk] by simp
  then show ?thesis
    using destroy_ept_inv [OF inv lock True e(1,2) run] e(3) by simp
next
  case False
  then have "ept_dead p s" using p by (simp add: ept_of_node_def ept_dead_def)
  then show ?thesis using run inv lock False by (simp add: rpmsg_destroy_ept_def)
qed

end

section \<open>The registry\<close>

definition name_of :: "'x openamp \<Rightarrow> addr \<Rightarrow> u8 list" where
  "name_of s p = an_name (the (oa_node s p))"

text \<open>
  Exactly the nodes of the list are allocated, no two have the same name, and each has its own endpoint.
\<close>

definition registry_ok :: "'x openamp \<Rightarrow> bool" where
  "registry_ok s = (epts_inv (oa_dev s) \<and> \<not> rd_lock (oa_dev s) \<and> distinct (oa_list s) \<and> NULL \<notin> set (oa_list s)
     \<and> dom (oa_node s) = set (oa_list s)
     \<and> (\<forall>p \<in> set (oa_list s). 0 \<in> set (name_of s p) \<and> ept_of_node (name_of s p) p (oa_dev s))
     \<and> inj_on (\<lambda>p. cstr (name_of s p)) (set (oa_list s)))"

definition node_named :: "'x openamp \<Rightarrow> u8 list \<Rightarrow> addr option" where
  "node_named s nm = List.find (\<lambda>p. cstr (name_of s p) = cstr nm) (oa_list s)"

lemma find_node_named:
  assumes "registry_ok s" and "0 \<in> set nm"
  shows "find_node (oa_node s) nm (oa_list s) = Some (node_named s nm)"
proof -
  have "find_node (oa_node s) nm ps = Some (List.find (\<lambda>p. cstr (name_of s p) = cstr nm) ps)"
    if "set ps \<subseteq> set (oa_list s)" for ps
    using that
  proof (induction ps)
    case (Cons p ps)
    have "p \<in> dom (oa_node s)" using Cons.prems assms(1) by (simp add: registry_ok_def)
    then obtain n where n: "oa_node s p = Some n" by blast
    then have "0 \<in> set (an_name n)" using Cons.prems assms(1) by (auto simp: registry_ok_def name_of_def)
    then show ?case using Cons assms(2) n by (auto simp: strcmp_eq_cstr name_of_def)
  qed simp
  then show ?thesis by (simp add: node_named_def)
qed

lemma node_named_Some:
  assumes "registry_ok s"
  shows "node_named s nm = Some p \<longleftrightarrow> p \<in> set (oa_list s) \<and> cstr (name_of s p) = cstr nm"
proof
  assume "node_named s nm = Some p"
  then show "p \<in> set (oa_list s) \<and> cstr (name_of s p) = cstr nm"
    by (auto simp: node_named_def find_Some_iff)
next
  assume "p \<in> set (oa_list s) \<and> cstr (name_of s p) = cstr nm"
  then show "node_named s nm = Some p"
    unfolding node_named_def using assms by (intro find_unique) (auto simp: registry_ok_def inj_on_def)
qed

lemma node_named_None:
  "node_named s nm = None \<longleftrightarrow> (\<forall>p \<in> set (oa_list s). cstr (name_of s p) \<noteq> cstr nm)"
  by (auto simp: node_named_def find_None_iff)

text \<open>Changes of an endpoint that the invariants do not see.\<close>

lemma epts_inv_upd:
  assumes "p \<notin> set (rd_endpoints d) \<or> ep_name (f (rd_epts d p)) = ep_name (rd_epts d p)
    \<and> ep_rdev (f (rd_epts d p)) = ep_rdev (rd_epts d p) \<and> ep_addr (f (rd_epts d p)) = ep_addr (rd_epts d p)"
  shows "epts_inv (upd_ept p f d) = epts_inv d"
proof -
  have "\<forall>q \<in> set (rd_endpoints d). ep_name (rd_epts (upd_ept p f d) q) = ep_name (rd_epts d q)
    \<and> ep_rdev (rd_epts (upd_ept p f d) q) = ep_rdev (rd_epts d q) \<and> ep_addr (rd_epts (upd_ept p f d) q) = ep_addr (rd_epts d q)"
    using assms by (auto simp: upd_ept_def)
  then show ?thesis by (auto simp: epts_inv_def upd_ept_def)
qed

lemma ept_of_node_upd:
  assumes "q \<noteq> p \<or> (ep_name (f (rd_epts d p)) = ep_name (rd_epts d p) \<and> ep_rdev (f (rd_epts d p)) = ep_rdev (rd_epts d p)
    \<and> ep_refcnt (f (rd_epts d p)) = ep_refcnt (rd_epts d p) \<and> ep_release_cb (f (rd_epts d p)) = ep_release_cb (rd_epts d p))"
  shows "ept_of_node nm q (upd_ept p f d) = ept_of_node nm q d"
  using assms by (auto simp: ept_of_node_def upd_ept_def)

lemma upd_ept_same [simp]:
  "rd_endpoints (upd_ept p f d) = rd_endpoints d" "rd_lock (upd_ept p f d) = rd_lock d" "rd_bitmap (upd_ept p f d) = rd_bitmap d"
  by (simp_all add: upd_ept_def)

lemma registry_upd_ept:
  assumes "registry_ok s" and "\<And>e. ep_name (f e) = ep_name e \<and> ep_rdev (f e) = ep_rdev e \<and> ep_addr (f e) = ep_addr e
    \<and> ep_refcnt (f e) = ep_refcnt e \<and> ep_release_cb (f e) = ep_release_cb e"
  shows "registry_ok (s\<lparr>oa_dev := upd_ept p f (oa_dev s)\<rparr>)"
  using assms by (simp add: registry_ok_def name_of_def epts_inv_upd ept_of_node_upd)

lemma registry_book:
  assumes "registry_ok s" and "book d = book (oa_dev s)"
  shows "registry_ok (s\<lparr>oa_dev := d\<rparr>)"
  using assms ept_of_node_book [OF assms(2)]
  by (simp add: registry_ok_def name_of_def epts_inv_book [OF assms(2)] book_eqD(5) [OF assms(2)])

definition has_addr :: "'x rpmsg_device_scheme \<Rightarrow> bool" where
  "has_addr d = (\<exists>c < 128. c \<notin> bitmap_bits (rd_bitmap d))"

definition fresh_node :: "addr \<Rightarrow> 'x openamp \<Rightarrow> bool" where
  "fresh_node p s = (p \<noteq> NULL \<and> p \<notin> dom (oa_node s) \<and> p \<notin> set (rd_endpoints (oa_dev s)))"

lemma find_node_alloc:
  "p \<notin> set (oa_list s) \<Longrightarrow> find_node (oa_node (alloc_node p s)) nm (oa_list s) = find_node (oa_node s) nm (oa_list s)"
proof -
  have "p \<notin> set ps \<Longrightarrow> find_node ((oa_node s)(p \<mapsto> zero_node)) nm ps = find_node (oa_node s) nm ps" for ps
    by (induction ps) (auto cong: if_cong)
  then show "p \<notin> set (oa_list s) \<Longrightarrow> ?thesis" by (simp add: alloc_node_def)
qed

lemma bind_known_node:
  assumes ok: "registry_ok s" and name: "0 \<in> set nm" "node_named s nm = Some q" and new: "fresh_node alloc s"
    and run: "openamp_ns_bind_cb ops app junk alloc auto_register True (Some nm) dest s = Some s'"
  shows "registry_ok s' \<and> oa_list s' = oa_list s \<and> oa_node s' = oa_node s
    \<and> rd_endpoints (oa_dev s') = rd_endpoints (oa_dev s)
    \<and> (\<forall>p \<in> set (oa_list s). rd_epts (oa_dev s') p = rd_epts (oa_dev s) p)"
proof -
  have p: "alloc \<noteq> NULL" "alloc \<notin> set (oa_list s)" "alloc \<notin> set (rd_endpoints (oa_dev s))" "oa_node s alloc = None"
    using new ok by (auto simp: fresh_node_def registry_ok_def)
  have s': "s' = s\<lparr>oa_dev := upd_ept alloc (\<lambda>_. zero_ept) (oa_dev s)\<rparr>"
    using run p find_node_alloc [OF p(2)] find_node_named [OF ok name(1)] name(2)
    by (auto simp: openamp_ns_bind_cb_def Let_def free_node_def alloc_node_def fun_upd_idem)
  have "epts_inv (upd_ept alloc (\<lambda>_. zero_ept) (oa_dev s)) = epts_inv (oa_dev s)" using p by (simp add: epts_inv_upd)
  moreover have "\<forall>p \<in> set (oa_list s). ept_of_node nm p (upd_ept alloc (\<lambda>_. zero_ept) (oa_dev s)) = ept_of_node nm p (oa_dev s)" for nm
    using p(2) by (auto intro!: ept_of_node_upd)
  ultimately have "registry_ok s'" using ok by (simp add: registry_ok_def s' name_of_def)
  then show ?thesis using p by (auto simp: s' upd_ept_def)
qed

context rpmsg_transport
begin

lemma add_node_ok:
  assumes ok: "registry_ok s" and new: "fresh_node p s" "node_named s nm = None" "short_name nm" "has_addr (oa_dev s)"
    and run: "add_node ops app junk p nm dest cb ub (alloc_node p s) = Some s'"
  shows "registry_ok s' \<and> oa_list s' = p # oa_list s \<and> cstr (name_of s' p) = cstr nm
    \<and> (oa_node s')(p := None) = oa_node s
    \<and> set (rd_endpoints (oa_dev s')) - {p} = set (rd_endpoints (oa_dev s))"
proof -
  let ?d = "upd_ept p (\<lambda>_. zero_ept) (oa_dev s)"
  obtain n20 where n20: "strncpy 20 nm = Some n20" "0 \<in> set n20" "cstr n20 = cstr nm"
    using strncpy_cstr [of nm 20] new(3) by (auto simp: short_name_def)
  obtain r d where d: "rpmsg_create_ept ops app junk p (Some n20) RPMSG_ADDR_ANY RPMSG_ADDR_ANY cb ub ?d = Some (r, d)"
    and s': "s' = (alloc_node p s)\<lparr>oa_node := (oa_node s)(p \<mapsto> zero_node\<lparr>an_name := n20, an_dest := dest, an_cb := cb, an_unbind_cb := ub\<rparr>),
       oa_list := p # oa_list s, oa_dev := d\<rparr>"
    using run n20(1) by (auto simp: add_node_def alloc_node_def Let_def opt_simps)
  have p: "p \<notin> set (rd_endpoints (oa_dev s))" "p \<noteq> NULL" "p \<notin> set (oa_list s)"
    using new(1) ok by (auto simp: fresh_node_def registry_ok_def)
  have old: "oa_list s' = p # oa_list s" "name_of s' p = n20" "\<forall>q \<in> set (oa_list s). name_of s' q = name_of s q"
    "dom (oa_node s') = insert p (dom (oa_node s))" "oa_dev s' = d"
    using p(3) by (auto simp: s' name_of_def)
  have inv: "epts_inv ?d" "\<not> rd_lock ?d" "rd_epts ?d p = zero_ept"
    using ok p(1) by (auto simp: registry_ok_def epts_inv_upd) (simp add: upd_ept_def)
  have c: "epts_inv d \<and> \<not> rd_lock d \<and> set (rd_endpoints (oa_dev s)) \<subseteq> set (rd_endpoints d)
      \<and> set (rd_endpoints d) \<subseteq> insert p (set (rd_endpoints (oa_dev s))) \<and> ept_of_node n20 p d
      \<and> (\<forall>q. q \<noteq> p \<longrightarrow> rd_epts d q = rd_epts ?d q)"
    using create_ept_node [OF inv(1,2) _ inv(3) n20(2) _ _ d] p(1) new(3,4) n20(3) by (simp add: has_addr_def short_name_def)
  have e: "ept_of_node (name_of s q) q d" if "q \<in> set (oa_list s)" for q
  proof -
    have "q \<noteq> p" "ept_of_node (name_of s q) q (oa_dev s)" using that p(3) ok by (auto simp: registry_ok_def)
    moreover have "q \<in> set (rd_endpoints d) \<longleftrightarrow> q \<in> set (rd_endpoints (oa_dev s))" using c \<open>q \<noteq> p\<close> by auto
    ultimately show ?thesis using c by (simp add: ept_of_node_def upd_ept_def)
  qed
  have "inj_on (\<lambda>q. cstr (name_of s' q)) (set (p # oa_list s))"
    using ok new(2) old n20(3) by (auto simp: registry_ok_def inj_on_def node_named_None)
  then have "registry_ok s'"
    using ok c e p n20(2) old by (simp add: registry_ok_def)
  moreover have "(oa_node s')(p := None) = oa_node s" using new(1) by (auto simp: s' fresh_node_def fun_upd_idem_iff)
  ultimately show ?thesis using old n20(3) c p(1) by auto
qed

lemma register_ok_node:
  assumes ok: "registry_ok s" and name: "short_name nm" and new: "fresh_node alloc s" "has_addr (oa_dev s)"
    and run: "openamp_app_node_register ops app junk alloc (Some nm) cb ub dev s = Some (p, s')"
  shows "registry_ok s'"
proof (cases "dev \<and> cb \<noteq> NULL \<and> ub \<noteq> NULL")
  case False
  then show ?thesis using run ok by (auto simp: openamp_app_node_register_def split: if_splits)
next
  case True
  have z: "0 \<in> set nm" using name by (simp add: short_name_def)
  show ?thesis
  proof (cases "node_named s nm")
    case None
    then obtain s1 where "add_node ops app junk alloc nm 0 cb ub (alloc_node alloc s) = Some s1" "s' = s1"
      using run True new(1) find_node_named [OF ok z]
      by (auto simp: openamp_app_node_register_def opt_simps fresh_node_def)
    then show ?thesis using add_node_ok [OF ok new(1) None name new(2)] by blast
  next
    case (Some q)
    then have "s' = s \<or> s' = s\<lparr>oa_dev := upd_ept q (\<lambda>e. e\<lparr>ep_cb := cb, ep_ns_unbind_cb := ub\<rparr>) (oa_dev s)\<rparr>"
      using run True find_node_named [OF ok z]
      by (auto simp: openamp_app_node_register_def opt_simps split: if_splits)
    then show ?thesis using ok registry_upd_ept [OF ok] by auto
  qed
qed

lemma unregister_ok_node:
  assumes ok: "registry_ok s" and name: "0 \<in> set nm"
    and run: "openamp_app_node_unregister ops app junk (Some nm) s = Some (r, s')"
  shows "registry_ok s' \<and> (case node_named s nm of None \<Rightarrow> r = - 1 \<and> s' = s
    | Some p \<Rightarrow> r = 0 \<and> oa_list s' = remove1 p (oa_list s) \<and> oa_node s' = (oa_node s)(p := None)
        \<and> set (rd_endpoints (oa_dev s')) = set (rd_endpoints (oa_dev s)) - {p})"
proof (cases "node_named s nm")
  case None
  then show ?thesis
    using run ok find_node_named [OF ok name] by (simp add: openamp_app_node_unregister_def)
next
  case (Some p)
  then have p: "p \<in> set (oa_list s)" using node_named_Some [OF ok] by blast
  obtain d where d: "rpmsg_destroy_ept ops app junk p (oa_dev s) = Some d"
    and s': "s' = free_node p (s\<lparr>oa_list := remove1 p (oa_list s), oa_dev := d\<rparr>)" "r = 0"
    using run Some find_node_named [OF ok name] by (auto simp: openamp_app_node_unregister_def opt_simps)
  have c: "epts_inv d \<and> \<not> rd_lock d \<and> set (rd_endpoints d) = set (rd_endpoints (oa_dev s)) - {p}
      \<and> (\<forall>q. q \<noteq> p \<longrightarrow> rd_epts d q = rd_epts (oa_dev s) q)"
    using ok p by (intro destroy_ept_node [OF _ _ _ d]) (auto simp: registry_ok_def)
  have set': "set (oa_list s') = set (oa_list s) - {p}" "distinct (oa_list s')" "oa_dev s' = d"
    "\<forall>q. q \<noteq> p \<longrightarrow> name_of s' q = name_of s q" "dom (oa_node s') = dom (oa_node s) - {p}"
    using ok by (auto simp: s' free_node_def registry_ok_def name_of_def)
  have "\<forall>q \<in> set (oa_list s'). ept_of_node (name_of s' q) q d"
    using c set' ok by (auto simp: registry_ok_def ept_of_node_def)
  moreover have "inj_on (\<lambda>q. cstr (name_of s' q)) (set (oa_list s'))"
    using ok set' by (auto simp: registry_ok_def inj_on_def)
  ultimately have "registry_ok s'" using c set' ok by (simp add: registry_ok_def)
  then show ?thesis using Some c s' by (simp add: free_node_def)
qed

lemma send_ok_node:
  assumes ok: "registry_ok s" and run: "openamp_app_send ops ept data len s = Some (r, s')"
  shows "registry_ok s' \<and> oa_list s' = oa_list s \<and> oa_node s' = oa_node s"
proof -
  have "book d = book (oa_dev s)" if "rpmsg_send ops ept data n (oa_dev s) = Some (r', d)" for n r' d
    using that ok send_raw_keeps by (auto simp: rpmsg_send_def registry_ok_def split: if_splits)
  then show ?thesis
    using run ok registry_book [OF ok] by (auto simp: openamp_app_send_def opt_simps split: if_splits)
qed

lemma bind_new_node:
  assumes ok: "registry_ok s" and name: "short_name nm" and new: "fresh_node alloc s" "has_addr (oa_dev s)" "node_named s nm = None"
    and auto: "auto_register = None \<or> auto_register = Some (\<lambda>m t. map_option snd (app_auto_node_register ops app junk a2 True (Some m) t))"
    and run: "openamp_ns_bind_cb ops app junk alloc auto_register True (Some nm) dest s = Some s'"
  shows "registry_ok s' \<and> node_named s' nm = Some alloc \<and> oa_list s' = alloc # oa_list s
    \<and> ep_dest_addr (rd_epts (oa_dev s') alloc) = dest \<and> (oa_node s')(alloc := None) = oa_node s
    \<and> set (rd_endpoints (oa_dev s')) - {alloc} = set (rd_endpoints (oa_dev s))"
proof -
  have z: "0 \<in> set nm" using name by (simp add: short_name_def)
  have found: "find_node (oa_node (alloc_node alloc s)) nm (oa_list s) = Some None"
    using find_node_alloc [of alloc s nm] new(1,3) find_node_named [OF ok z] ok by (auto simp: fresh_node_def registry_ok_def)
  obtain s2 where s2: "add_node ops app junk alloc nm dest DEFAULT_BIND_CB DEFAULT_UNBIND_CB (alloc_node alloc s) = Some s2"
    and fin: "(case auto_register of Some f \<Rightarrow> f nm (s2\<lparr>oa_dev := upd_ept alloc (\<lambda>e. e\<lparr>ep_dest_addr := dest\<rparr>) (oa_dev s2)\<rparr>)
      | None \<Rightarrow> Some (s2\<lparr>oa_dev := upd_ept alloc (\<lambda>e. e\<lparr>ep_dest_addr := dest\<rparr>) (oa_dev s2)\<rparr>)) = Some s'"
    using run new(1) found by (auto simp: openamp_ns_bind_cb_def Let_def opt_simps fresh_node_def alloc_node_def)
  define s3 where "s3 = s2\<lparr>oa_dev := upd_ept alloc (\<lambda>e. e\<lparr>ep_dest_addr := dest\<rparr>) (oa_dev s2)\<rparr>"
  have a: "registry_ok s2" "oa_list s2 = alloc # oa_list s" "cstr (name_of s2 alloc) = cstr nm"
    "(oa_node s2)(alloc := None) = oa_node s" "set (rd_endpoints (oa_dev s2)) - {alloc} = set (rd_endpoints (oa_dev s))"
    using add_node_ok [OF ok new(1,3) name new(2) s2] by auto
  have ok3: "registry_ok s3" unfolding s3_def by (rule registry_upd_ept [OF a(1)]) simp
  have s3: "oa_list s3 = alloc # oa_list s" "ep_dest_addr (rd_epts (oa_dev s3) alloc) = dest"
    "(oa_node s3)(alloc := None) = oa_node s" "set (rd_endpoints (oa_dev s3)) - {alloc} = set (rd_endpoints (oa_dev s))"
    using a(2,4,5) by (simp_all add: s3_def upd_ept_def)
  have "cstr (name_of s3 alloc) = cstr nm" using a(3) by (simp add: s3_def name_of_def)
  then have named: "node_named s3 nm = Some alloc" using s3(1) ok3 by (simp add: node_named_Some)
  show ?thesis
  proof (cases "auto_register = None \<or> cstr nm \<noteq> cstr ECHO_NAME")
    case True
    then have "s' = s3"
      using fin auto strn_eq_cstr [of nm ECHO_NAME 16] z
      by (auto simp: app_auto_node_register_def opt_simps s3_def ECHO_NAME_def)
    then show ?thesis using ok3 s3 named by simp
  next
    case False
    have e: "strn_eq 16 nm ECHO_NAME = Some True" "0 \<in> set ECHO_NAME"
      using strn_eq_cstr [of nm ECHO_NAME 16] z False by (auto simp: ECHO_NAME_def)
    have "node_named s3 ECHO_NAME = Some alloc" using named False by (simp add: node_named_def)
    then have found3: "find_node (oa_node s3) ECHO_NAME (oa_list s3) = Some (Some alloc)"
      using find_node_named [OF ok3 e(2)] by simp
    have "s' = s3 \<or> s' = s3\<lparr>oa_dev := upd_ept alloc (\<lambda>e. e\<lparr>ep_cb := ECHO_CB, ep_ns_unbind_cb := ECHO_UNBIND_CB\<rparr>) (oa_dev s3)\<rparr>"
      using fin auto False e found3
      by (auto simp: app_auto_node_register_def app_echo_init_def openamp_app_node_register_def opt_simps s3_def [symmetric]
          split: if_splits)
    then show ?thesis
    proof
      assume s': "s' = s3\<lparr>oa_dev := upd_ept alloc (\<lambda>e. e\<lparr>ep_cb := ECHO_CB, ep_ns_unbind_cb := ECHO_UNBIND_CB\<rparr>) (oa_dev s3)\<rparr>"
      have "registry_ok s'" unfolding s' by (rule registry_upd_ept [OF ok3]) simp
      moreover have "node_named s' nm = node_named s3 nm" by (simp add: s' node_named_def name_of_def)
      ultimately show ?thesis using s3 named by (simp add: s' upd_ept_def)
    qed (use ok3 s3 named in simp)
  qed
qed

end

section \<open>Runs\<close>

text \<open>
  What happens to the registry, in any order: the application registers and unregisters names and
  sends, the remote announces names and withdraws them. A node is allocated at a fresh address, and an
  rpmsg address is left.
\<close>

inductive oa_step ::
  "'x rpmsg_device_scheme rpmsg_device_ops \<Rightarrow> 'x rpmsg_device_scheme app \<Rightarrow> u8 list \<Rightarrow> 'x openamp \<Rightarrow> 'x openamp \<Rightarrow> bool"
  for ops app junk where
  register: "short_name nm \<Longrightarrow> fresh_node alloc s \<Longrightarrow> has_addr (oa_dev s)
    \<Longrightarrow> openamp_app_node_register ops app junk alloc (Some nm) cb ub dev s = Some (p, s') \<Longrightarrow> oa_step ops app junk s s'"
| unregister: "0 \<in> set nm \<Longrightarrow> openamp_app_node_unregister ops app junk (Some nm) s = Some (r, s') \<Longrightarrow> oa_step ops app junk s s'"
| send: "openamp_app_send ops ept data len s = Some (r, s') \<Longrightarrow> oa_step ops app junk s s'"
| announced: "short_name nm \<Longrightarrow> fresh_node alloc s \<Longrightarrow> has_addr (oa_dev s)
    \<Longrightarrow> auto_register = None \<or> auto_register = Some (\<lambda>m t. map_option snd (app_auto_node_register ops app junk a2 True (Some m) t))
    \<Longrightarrow> openamp_ns_bind_cb ops app junk alloc auto_register True (Some nm) dest s = Some s' \<Longrightarrow> oa_step ops app junk s s'"
| withdrawn: "p \<in> set (oa_list s) \<Longrightarrow> p \<in> set (rd_endpoints (oa_dev s))
    \<Longrightarrow> default_unbind_cb ops app junk p s = Some s' \<Longrightarrow> oa_step ops app junk s s'"

lemma ept_name_terminated:
  assumes "registry_ok s" and "p \<in> set (oa_list s)" and "p \<in> set (rd_endpoints (oa_dev s))"
  shows "0 \<in> set (ep_name (rd_epts (oa_dev s) p))" "node_named s (ep_name (rd_epts (oa_dev s) p)) = Some p"
  using assms by (auto simp: node_named_Some) (auto simp: registry_ok_def ept_of_node_def)

context rpmsg_transport
begin

lemma step_keeps_registry:
  assumes "oa_step ops app junk s s'" and "registry_ok s"
  shows "registry_ok s'"
  using assms
proof cases
  case (announced nm alloc auto a2 dest)
  then have "0 \<in> set nm" by (simp add: short_name_def)
  with announced assms(2) show ?thesis
    using bind_known_node [of s nm _ alloc ops app junk auto dest s'] bind_new_node [of s nm alloc auto app junk a2 dest s']
    by (cases "node_named s nm") auto
next
  case (withdrawn p)
  then show ?thesis
    using unregister_ok_node [OF assms(2) ept_name_terminated(1) [OF assms(2)]]
    by (auto simp: default_unbind_cb_def)
qed (use assms(2) in \<open>auto dest: register_ok_node unregister_ok_node send_ok_node\<close>)

lemma run_keeps_registry:
  assumes "(oa_step ops app junk)\<^sup>*\<^sup>* s s'" and "registry_ok s"
  shows "registry_ok s'"
  using assms by (induction rule: rtranclp_induct) (auto intro: step_keeps_registry)

end

section \<open>Properties\<close>

text \<open>
  C10: however the application and the remote register, announce, withdraw and remove names over a
  virtio transport, no two nodes have the same name, exactly the listed nodes are allocated, and a
  lookup returns the node with the name, or NULL if there is none.
\<close>

theorem registry_invariant:
  assumes "(oa_step (rpmsg_virtio_ops ve) app junk)\<^sup>*\<^sup>* s s'" and "registry_ok s"
  shows "registry_ok s' \<and> (\<forall>p \<in> set (oa_list s'). openamp_find_app_node (Some (name_of s' p)) s' = Some p)
    \<and> (\<forall>nm. 0 \<in> set nm \<and> (\<forall>p \<in> set (oa_list s'). cstr (name_of s' p) \<noteq> cstr nm)
        \<longrightarrow> openamp_find_app_node (Some nm) s' = Some NULL)"
proof -
  have ok: "registry_ok s'" by (rule virtio_transport.run_keeps_registry [OF assms])
  have find: "openamp_find_app_node (Some nm) s' = Some (case node_named s' nm of None \<Rightarrow> NULL | Some p \<Rightarrow> p)" if "0 \<in> set nm" for nm
    using find_node_named [OF ok that] by (simp add: openamp_find_app_node_def)
  have "openamp_find_app_node (Some (name_of s' p)) s' = Some p" if p: "p \<in> set (oa_list s')" for p
  proof -
    have "0 \<in> set (name_of s' p)" using ok p by (simp add: registry_ok_def)
    moreover have "node_named s' (name_of s' p) = Some p" using p by (simp add: node_named_Some [OF ok])
    ultimately show ?thesis by (simp add: find)
  qed
  moreover have "openamp_find_app_node (Some nm) s' = Some NULL"
    if "0 \<in> set nm" "\<forall>p \<in> set (oa_list s'). cstr (name_of s' p) \<noteq> cstr nm" for nm
    using find [OF that(1)] that(2) node_named_None [of s' nm] by simp
  ultimately show ?thesis using ok by blast
qed

text \<open>
  C36: a name the remote announces for the first time gets a node with the announced address as its
  destination; when the remote withdraws the name, the node, its endpoint and its entry are gone and
  everything else is as it was.
\<close>

theorem announce_withdraw_roundtrip:
  assumes "registry_ok s" and "short_name nm" and "fresh_node alloc s" and "has_addr (oa_dev s)"
    and "node_named s nm = None"
    and "openamp_ns_bind_cb (rpmsg_virtio_ops ve) app junk alloc None True (Some nm) dest s = Some s1"
    and "alloc \<in> set (rd_endpoints (oa_dev s1))"
    and "default_unbind_cb (rpmsg_virtio_ops ve) app junk alloc s1 = Some s2"
  shows "openamp_find_app_node (Some nm) s1 = Some alloc \<and> ep_dest_addr (rd_epts (oa_dev s1) alloc) = dest
    \<and> openamp_find_app_node (Some nm) s2 = Some NULL \<and> oa_list s2 = oa_list s \<and> oa_node s2 = oa_node s
    \<and> set (rd_endpoints (oa_dev s2)) = set (rd_endpoints (oa_dev s))"
proof -
  have z: "0 \<in> set nm" using assms(2) by (simp add: short_name_def)
  have b: "registry_ok s1" "node_named s1 nm = Some alloc" "oa_list s1 = alloc # oa_list s"
    "ep_dest_addr (rd_epts (oa_dev s1) alloc) = dest" "(oa_node s1)(alloc := None) = oa_node s"
    "set (rd_endpoints (oa_dev s1)) - {alloc} = set (rd_endpoints (oa_dev s))"
    using virtio_transport.bind_new_node [OF assms(1-5) _ assms(6)] by auto
  have e: "0 \<in> set (ep_name (rd_epts (oa_dev s1) alloc))" "node_named s1 (ep_name (rd_epts (oa_dev s1) alloc)) = Some alloc"
    using ept_name_terminated [OF b(1) _ assms(7)] b(3) by auto
  obtain r where r: "openamp_app_node_unregister (rpmsg_virtio_ops ve) app junk (Some (ep_name (rd_epts (oa_dev s1) alloc))) s1 = Some (r, s2)"
    using assms(8) by (auto simp: default_unbind_cb_def)
  have u: "registry_ok s2" "oa_list s2 = oa_list s" "oa_node s2 = oa_node s" "set (rd_endpoints (oa_dev s2)) = set (rd_endpoints (oa_dev s))"
    using virtio_transport.unregister_ok_node [OF b(1) e(1) r] e(2) b(3,5,6) by auto
  have "node_named s2 nm = node_named s nm" using u(2,3) by (simp add: node_named_def name_of_def)
  then show ?thesis
    using assms(5) find_node_named [OF b(1) z] find_node_named [OF u(1) z] b u by (simp add: openamp_find_app_node_def)
qed

text \<open>
  When the remote announces a name again with another address, as after a restart, the
  announcement is dropped: the endpoint of the node keeps the address it had.
\<close>

theorem reannounce_ignored:
  assumes "registry_ok s" and "0 \<in> set nm" and "node_named s nm = Some q" and "fresh_node alloc s"
    and "openamp_ns_bind_cb ops app junk alloc auto_register True (Some nm) dest s = Some s'"
  shows "openamp_find_app_node (Some nm) s' = Some q \<and> rd_epts (oa_dev s') q = rd_epts (oa_dev s) q"
proof -
  have b: "registry_ok s'" "oa_list s' = oa_list s" "oa_node s' = oa_node s"
    "\<forall>p \<in> set (oa_list s). rd_epts (oa_dev s') p = rd_epts (oa_dev s) p"
    using bind_known_node [OF assms] by auto
  have "node_named s' nm = Some q" using b(2,3) assms(3) by (simp add: node_named_def name_of_def)
  then show ?thesis
    using b(4) find_node_named [OF b(1) assms(2)] node_named_Some [OF assms(1)] assms(3)
    by (auto simp: openamp_find_app_node_def)
qed

lemma strcpy_runs_out:
  "0 \<notin> set src \<Longrightarrow> length src < n \<Longrightarrow> strcpy_loop dst pos src (Suc n) = None"
proof (induction src arbitrary: dst pos n)
  case Nil
  then show ?case by (subst strcpy_loop.simps) (cases n; simp add: arr_get_def)
next
  case (Cons c cs)
  obtain m where "n = Suc m" using Cons.prems by (cases n) auto
  then show ?case
    using Cons by (subst strcpy_loop.simps) (auto simp: arr_set_def)
qed

lemma create_unterminated:
  assumes "epts_inv d" and "has_addr d" and "p \<noteq> NULL" and "cb \<noteq> NULL" and "0 \<notin> set nm" and "length nm < 32"
  shows "rpmsg_create_ept ops app junk p (Some nm) RPMSG_ADDR_ANY dest cb ub d = None"
proof (cases "rd_lock d")
  case False
  have cap: "bitmap_capacity (rd_bitmap d) = 128" "unat (rd_bitnext d) < 128" using assms(1) by (auto simp: epts_inv_def)
  obtain a bm where "rpmsg_get_address (rd_bitmap d) (rd_bitnext d) RPMSG_ADDR_BMP_SIZE = Some (a, bm)" "dyn_addr a"
    using get_address_fresh [OF cap] assms(2) unfolding has_addr_def by metis
  then have "choose_addr RPMSG_ADDR_ANY (d\<lparr>rd_lock := True\<rparr>)
      = Some (Inr a, d\<lparr>rd_lock := True, rd_bitmap := bm, rd_bitnext := (a + 1) mod RPMSG_ADDR_BMP_SIZE\<rparr>)"
    by (simp add: choose_addr_def dyn_addr_def)
  moreover have "safe_strcpy dst 32 nm 32 = None" for dst
    using strcpy_runs_out [OF assms(5,6)] by (simp add: safe_strcpy_def)
  ultimately show ?thesis
    using assms(3,4) False by (simp add: rpmsg_create_ept_def metal_mutex_acquire_def rpmsg_register_endpoint_def)
qed (use assms(3,4) in \<open>simp add: rpmsg_create_ept_def metal_mutex_acquire_def\<close>)

text \<open>
  A name of twenty or more characters is cut to twenty without a terminator, and the creation of
  the endpoint reads on behind the array: neither an announcement nor a registration of such a name
  is defined.
\<close>

theorem long_name_unterminated:
  assumes "registry_ok s" and "0 \<in> set nm" and "20 \<le> length (cstr nm)" and "fresh_node alloc s" and "has_addr (oa_dev s)"
    and "node_named s nm = None" and "cb \<noteq> NULL" and "ub \<noteq> NULL"
  shows "openamp_ns_bind_cb ops app junk alloc auto_register True (Some nm) dest s = None
    \<and> openamp_app_node_register ops app junk alloc (Some nm) cb ub True s = None"
proof -
  let ?d = "upd_ept alloc (\<lambda>_. zero_ept) (oa_dev s)"
  have a: "alloc \<noteq> NULL" "alloc \<notin> set (oa_list s)" "alloc \<notin> set (rd_endpoints (oa_dev s))"
    using assms(1,4) by (auto simp: fresh_node_def registry_ok_def)
  have nm: "strncpy 20 nm = Some (take 20 nm)" "0 \<notin> set (take 20 nm)" using strncpy_long [OF assms(3)] by auto
  have d: "epts_inv ?d" "has_addr ?d" using assms(1,5) a(3) by (simp_all add: epts_inv_upd registry_ok_def has_addr_def)
  have none: "add_node ops app junk alloc nm dst c u (alloc_node alloc s) = None" if "c \<noteq> NULL" for dst c u
    using create_unterminated [OF d a(1) that nm(2)] nm(1) by (simp add: add_node_def alloc_node_def Let_def)
  have f: "find_node (oa_node s) nm (oa_list s) = Some None" using find_node_named [OF assms(1,2)] assms(6) by simp
  then have "find_node (oa_node (alloc_node alloc s)) nm (oa_list (alloc_node alloc s)) = Some None"
    using find_node_alloc [OF a(2)] by (simp add: alloc_node_def)
  then show ?thesis
    using f none assms(7,8) a(1) by (simp add: openamp_ns_bind_cb_def openamp_app_node_register_def)
qed

section \<open>A concrete registry\<close>

definition demo_oa :: "(unit, unit) rpmsg_virtio_device_ext openamp" where
  "demo_oa = \<lparr>oa_list = [], oa_node = Map.empty, oa_dev = demo_rv\<rparr>"

lemma demo_oa_ok: "registry_ok demo_oa" "fresh_node 0x5000 demo_oa" "has_addr (oa_dev demo_oa)" "short_name ECHO_NAME"
  "node_named demo_oa nm = None"
  using demo_epts_inv(1)
  by (auto simp: registry_ok_def demo_oa_def fresh_node_def has_addr_def short_name_def ECHO_NAME_def node_named_def
      demo_rv_def bits_zero intro: exI [of _ 0])

lemma demo_get_address: "rpmsg_get_address [0, 0] 0 RPMSG_ADDR_BMP_SIZE = Some (1024, [1, 0])"
  by code_simp

definition demo_echo :: "u8 list" where
  "demo_echo = [101, 99, 104, 111] @ replicate 16 0"

lemma demo_echo_copy: "strncpy 20 ECHO_NAME = Some demo_echo"
  by code_simp

lemma demo_echo_ept: "safe_strcpy (replicate 32 0) 32 demo_echo 32 = Some (4, [101, 99, 104, 111] @ replicate 28 0)"
  by code_simp

text \<open>The registry after the remote has announced \<open>echo\<close> from address 1029.\<close>

definition demo_oa1 :: "(unit, unit) rpmsg_virtio_device_ext openamp" where
  "demo_oa1 = \<lparr>oa_list = [0x5000],
     oa_node = [0x5000 \<mapsto> \<lparr>an_name = demo_echo, an_src = 0, an_dest = 1029, an_cb = DEFAULT_BIND_CB, an_unbind_cb = DEFAULT_UNBIND_CB\<rparr>],
     oa_dev = demo_rv\<lparr>rd_endpoints := [0x5000], rd_bitmap := [1, 0], rd_bitnext := 1,
       rd_epts := (rd_epts demo_rv)(0x5000 := \<lparr>ep_name = [101, 99, 104, 111] @ replicate 28 0, ep_rdev = True, ep_addr = 1024,
         ep_dest_addr = 1029, ep_refcnt = 1, ep_release_cb = NULL, ep_cb = DEFAULT_BIND_CB, ep_ns_unbind_cb = DEFAULT_UNBIND_CB,
         ep_priv = NULL\<rparr>)\<rparr>\<rparr>"

lemma demo_announced:
  "openamp_ns_bind_cb (rpmsg_virtio_ops demo_ve) demo_app [] 0x5000 None True (Some ECHO_NAME) 1029 demo_oa = Some demo_oa1"
proof -
  have one: "(1025 :: u32) mod 128 = 1" by simp
  show ?thesis
    by (simp add: openamp_ns_bind_cb_def add_node_def alloc_node_def demo_oa_def demo_oa1_def rpmsg_create_ept_def demo_rv_def
        metal_mutex_acquire_def choose_addr_def demo_get_address demo_echo_copy rpmsg_register_endpoint_def demo_echo_ept
        zero_ept_def zero_node_def upd_ept_def create_announce_def metal_mutex_release_def Let_def one)
qed

lemma demo_oa_step: "oa_step (rpmsg_virtio_ops demo_ve) demo_app [] demo_oa demo_oa1"
  by (rule oa_step.announced [OF demo_oa_ok(4,2,3) _ demo_announced]) simp

lemma demo_oa1_ok: "registry_ok demo_oa1"
  by (rule virtio_transport.step_keeps_registry [OF demo_oa_step demo_oa_ok(1)])

lemma demo_named: "node_named demo_oa1 demo_echo = Some 0x5000"
  by (simp add: node_named_def name_of_def demo_oa1_def)

lemma demo_echo_string: "0 \<in> set demo_echo" "cstr demo_echo = [101, 99, 104, 111]" by (simp_all add: demo_echo_def)

theorem registry_invariant_witness:
  "registry_ok demo_oa1 \<and> openamp_find_app_node (Some demo_echo) demo_oa1 = Some 0x5000"
proof -
  have "(oa_step (rpmsg_virtio_ops demo_ve) demo_app [])\<^sup>*\<^sup>* demo_oa demo_oa1" by (simp add: demo_oa_step r_into_rtranclp)
  from registry_invariant [OF this demo_oa_ok(1)] show ?thesis
    by (simp add: demo_oa1_def name_of_def)
qed

theorem announce_withdraw_roundtrip_witness:
  "\<exists>s2. default_unbind_cb (rpmsg_virtio_ops demo_ve) demo_app [] 0x5000 demo_oa1 = Some s2
    \<and> openamp_find_app_node (Some ECHO_NAME) s2 = Some NULL \<and> oa_list s2 = []"
proof -
  have p: "0x5000 \<in> set (rd_endpoints (oa_dev demo_oa1))" "0x5000 \<in> set (oa_list demo_oa1)" by (simp_all add: demo_oa1_def)
  note e = ept_name_terminated [OF demo_oa1_ok p(2,1)]
  have "rpmsg_release_address [1, 0] RPMSG_ADDR_BMP_SIZE 1024 = Some [0, 0]" by code_simp
  then have "\<exists>d. rpmsg_destroy_ept (rpmsg_virtio_ops demo_ve) demo_app [] 0x5000 (oa_dev demo_oa1) = Some d"
    by (simp add: demo_oa1_def rpmsg_destroy_ept_def ept_dead_def demo_rv_def rpmsg_unregister_endpoint_def
        metal_mutex_acquire_def rpmsg_ept_decref_def upd_ept_def)
  then obtain s2 where s2: "default_unbind_cb (rpmsg_virtio_ops demo_ve) demo_app [] 0x5000 demo_oa1 = Some s2"
    using find_node_named [OF demo_oa1_ok e(1)] e(2) by (auto simp: default_unbind_cb_def openamp_app_node_unregister_def)
  from announce_withdraw_roundtrip [OF demo_oa_ok(1,4,2,3,5) demo_announced p(1) s2] s2 show ?thesis
    by (auto simp: demo_oa_def)
qed

theorem reannounce_ignored_witness:
  "\<exists>s'. openamp_ns_bind_cb (rpmsg_virtio_ops demo_ve) demo_app [] 0x6000 None True (Some demo_echo) 1030 demo_oa1 = Some s'
    \<and> ep_dest_addr (rd_epts (oa_dev s') 0x5000) = 1029"
proof -
  have new: "fresh_node 0x6000 demo_oa1" by (simp add: fresh_node_def demo_oa1_def)
  have "0x6000 \<notin> set (oa_list demo_oa1)" by (simp add: demo_oa1_def)
  then obtain s' where "openamp_ns_bind_cb (rpmsg_virtio_ops demo_ve) demo_app [] 0x6000 None True (Some demo_echo) 1030 demo_oa1 = Some s'"
    using find_node_alloc [of "0x6000" demo_oa1 demo_echo] find_node_named [OF demo_oa1_ok demo_echo_string(1)] demo_named
    by (simp add: openamp_ns_bind_cb_def) (simp add: alloc_node_def)
  with reannounce_ignored [OF demo_oa1_ok demo_echo_string(1) demo_named new this] show ?thesis
    by (auto simp: demo_oa1_def)
qed

theorem long_name_unterminated_witness:
  "openamp_ns_bind_cb (rpmsg_virtio_ops demo_ve) demo_app [] 0x5000 None True (Some (replicate 25 97 @ [0])) 1029 demo_oa = None"
proof -
  have "20 \<le> length (cstr (replicate 25 97 @ [0 :: u8]))" by code_simp
  then show ?thesis
    using long_name_unterminated [OF demo_oa_ok(1) _ _ demo_oa_ok(2,3,5), of "replicate 25 97 @ [0]" 8 8 "rpmsg_virtio_ops demo_ve"]
    by simp
qed

end
