(* ===== verification/Openamp_Dev.thy ===== *)
theory Openamp_Dev
  imports Openamp_Node Rpmsg_Init
begin

unbundle bit_operations_syntax

text \<open>
  The device of \<^verbatim>\<open>src/operation_interface/operation_interface.c\<close>: creating it over the driver of the second
  processor, its dispatch table, the thread that polls for messages, and deleting it. The \<open>vdev\<close> member of
  the C structure is the device \<open>rvdev\<close> points to, so it is \<open>rv_vdev\<close> here, and its array \<open>vrings\<close> is
  \<open>vd_vrings_info\<close>. The byte at the start of the shared memory is the status, \<open>ov_status\<close>. What the kernel
  answers is a record of parameters, and \<open>od_trace\<close> keeps the calls in the order they were made. \<open>od_boots\<close> keeps, for every start of the
  other processor, the queues and buffers as it finds them in the shared memory.
\<close>

section \<open>Data\<close>

record openamp_vdev = virtio_dev +
  ov_status :: u8

type_synonym ov_ext = "unit openamp_vdev_ext"

record secondary_config =
  sc_cpu_id :: int
  sc_entry :: int
  sc_irq_id :: int

datatype hw_request =
    HW_SECONDARY_CPU_ONLINE | HW_SECONDARY_CPU_DOWNLINE | HW_SECONDARY_LOAD_FIRMWARE | HW_SECONDARY_SIGNAL_SEND
  | HW_SECONDARY_IRQ_INSTALL

datatype os_call = Open_dev | Ioctl hw_request | Mmap u32 | Memset addr u32 | Alloc_vq u32 | Start_thread
  | Munmap addr u32 | Close_dev int | Free_vq nat

record os_answers =
  os_open :: int
  os_ioctl :: "hw_request \<Rightarrow> int"
  os_mmap :: addr
  os_alloc_tx :: bool
  os_alloc_rx :: bool
  os_thread :: int

record openamp_virtio_device =
  od_rvdev :: "ov_ext rpmsg_virtio_device"
  od_io_region :: metal_io_region
  od_shm_physmap :: u64
  od_shpool :: rpmsg_virtio_shm_pool
  od_fd :: int
  od_dev_name :: "string option"
  od_shm_mpaddr :: addr
  od_shm_physaddr :: addr
  od_shm_vaddr :: addr
  od_shm_size :: u32
  od_secondary_config :: secondary_config
  od_vring_tx :: addr
  od_tx_num :: u32
  od_vring_rx :: addr
  od_rx_num :: u32
  od_vring_buf :: addr
  od_vring_size :: u32
  od_align_size :: u32
  od_vdev_status_size :: u32
  od_opdev :: bool
  od_vq_live :: "nat set"
  od_trace :: "os_call list"
  od_boots :: "ov_ext rpmsg_virtio_device list"

text \<open>A call returns a number or ends the process.\<close>

datatype outcome = Returned int | Exited int

abbreviation (input) EPERM :: int where "EPERM \<equiv> 1"
abbreviation (input) MAP_FAILED :: addr where "MAP_FAILED \<equiv> - 1"
abbreviation (input) DEFAULT_PAGE_SHIFT :: u32 where "DEFAULT_PAGE_SHIFT \<equiv> - 1"
abbreviation (input) OPENAMP_NS_BIND_CB :: addr where "OPENAMP_NS_BIND_CB \<equiv> 0xD10"
abbreviation (input) VIRTIO_NOTIFY :: addr where "VIRTIO_NOTIFY \<equiv> 0xD18"

text \<open>\<open>ALIGN(size, align)\<close>, on addresses.\<close>

definition ALIGN :: "u64 \<Rightarrow> u32 \<Rightarrow> u64" where
  "ALIGN sz align = (sz + ucast align - 1) AND NOT (ucast align - 1)"

section \<open>The dispatch table\<close>

definition openamp_dev_role_get :: "bool \<Rightarrow> u32" where
  "openamp_dev_role_get master = (if master then VIRTIO_DEV_DRIVER else VIRTIO_DEV_DEVICE)"

definition Virtio_get_status :: "openamp_vdev option \<Rightarrow> u8" where
  "Virtio_get_status vdev = (case vdev of None \<Rightarrow> - 1 | Some v \<Rightarrow> ov_status v)"

definition Virtio_set_status :: "openamp_vdev option \<Rightarrow> u8 \<Rightarrow> openamp_vdev option" where
  "Virtio_set_status vdev status = map_option (\<lambda>v. v\<lparr>ov_status := status\<rparr>) vdev"

definition Virtio_get_features :: "openamp_vdev \<Rightarrow> u32" where
  "Virtio_get_features v = push_bit 0 1"

definition Virtio_set_features :: "openamp_vdev \<Rightarrow> u32 \<Rightarrow> openamp_vdev" where
  "Virtio_set_features v features = v"

definition dispatch :: "openamp_vdev virtio_dispatch" where
  "dispatch = \<lparr>vf_create_virtqueues = None, vf_delete_virtqueues = None,
     vf_get_status = Some (\<lambda>v. Some (Virtio_get_status (Some v))), vf_set_status = Some (\<lambda>v. Virtio_set_status (Some v)),
     vf_get_features = Some (\<lambda>v. Some (Virtio_get_features v, v)), vf_set_features = Some (\<lambda>v f. Some (Virtio_set_features v f)),
     vf_negotiate_features = None, vf_read_config = None, vf_write_config = None, vf_reset_device = None,
     vf_notify = VIRTIO_NOTIFY\<rparr>"

definition dev_ioctl :: "os_answers \<Rightarrow> hw_request \<Rightarrow> openamp_virtio_device \<Rightarrow> int \<times> openamp_virtio_device" where
  "dev_ioctl os req d = (os_ioctl os req, d\<lparr>od_trace := od_trace d @ [Ioctl req],
     od_boots := (if req = HW_SECONDARY_CPU_ONLINE \<and> 0 \<le> os_ioctl os req then od_boots d @ [od_rvdev d] else od_boots d)\<rparr>)"

text \<open>A failed signal is reported on the terminal and otherwise dropped.\<close>

definition Virtio_notify :: "os_answers \<Rightarrow> virtqueue option \<Rightarrow> openamp_virtio_device \<Rightarrow> openamp_virtio_device" where
  "Virtio_notify os vq d = (case vq of None \<Rightarrow> d | Some _ \<Rightarrow> snd (dev_ioctl os HW_SECONDARY_SIGNAL_SEND d))"

section \<open>Creating the device\<close>

definition dev_params_ok :: "openamp_virtio_device \<Rightarrow> bool" where
  "dev_params_ok d = (
     \<not> (od_dev_name d = None \<or> od_shm_mpaddr d = NULL \<or> od_shm_physaddr d = NULL \<or> od_shm_size d = 0) \<and>
     \<not> (sc_cpu_id (od_secondary_config d) < 0 \<or> sc_entry (od_secondary_config d) = 0 \<or> sc_irq_id (od_secondary_config d) < 0) \<and>
     \<not> (od_tx_num d = 0 \<or> od_rx_num d = 0) \<and>
     \<not> (od_vdev_status_size d = 0 \<or> od_align_size d = 0))"

text \<open>Opening the driver, loading the firmware, installing the interrupt, mapping the memory: the error, if any.\<close>

definition dev_connect :: "os_answers \<Rightarrow> openamp_virtio_device \<Rightarrow> int option \<times> openamp_virtio_device" where
  "dev_connect os d = (
     let d1 = d\<lparr>od_fd := os_open os, od_trace := od_trace d @ [Open_dev]\<rparr> in
     if od_fd d1 < 0 then (Some (- 1), d1)
     else let (ret, d2) = dev_ioctl os HW_SECONDARY_LOAD_FIRMWARE d1 in
     if ret < 0 then (Some (- 1), d2)
     else let (ret, d3) = dev_ioctl os HW_SECONDARY_IRQ_INSTALL d2 in
     if ret < 0 then (Some (- 1), d3)
     else let d4 = d3\<lparr>od_shm_vaddr := os_mmap os, od_trace := od_trace d3 @ [Mmap (od_shm_size d3)]\<rparr> in
     if od_shm_vaddr d4 = MAP_FAILED then (Some (- EPERM), d4) else (None, d4))"

text \<open>Clearing the memory and dividing it; the numbers of descriptors are multiplied at 32 bits.\<close>

definition dev_layout :: "openamp_virtio_device \<Rightarrow> openamp_virtio_device" where
  "dev_layout d = (
     let rv = od_rvdev d;
         d1 = d\<lparr>od_rvdev := rv\<lparr>rv_mem := (\<lambda>a. if a - od_shm_vaddr d < ucast (od_shm_size d) then 0 else rv_mem rv a),
                  rv_vdev := (rv_vdev rv)\<lparr>ov_status := 0\<rparr>\<rparr>,
                od_trace := od_trace d @ [Memset (od_shm_vaddr d) (od_shm_size d)]\<rparr>;
         d2 = d1\<lparr>od_vring_tx := ALIGN (od_shm_vaddr d1 + ucast (od_vdev_status_size d1)) (od_align_size d1)\<rparr>;
         d3 = d2\<lparr>od_vring_rx := ALIGN (od_vring_tx d2 + ucast ((od_tx_num d2 + 1) * 0x20)) (od_align_size d2)\<rparr>;
         d4 = d3\<lparr>od_vring_buf := ALIGN (od_vring_rx d3 + ucast ((od_rx_num d3 + 1) * 0x20)) (od_align_size d3)\<rparr>;
         d5 = d4\<lparr>od_vring_size := ucast (od_shm_vaddr d4 + ucast (od_shm_size d4) - od_vring_buf d4),
                od_shm_physmap := od_shm_physaddr d4 + (od_vring_buf d4 - od_shm_vaddr d4)\<rparr>
     in d5\<lparr>od_io_region := metal_io_init id (od_vring_buf d5) (Some [od_shm_physmap d5])
            (ucast (od_shm_size d5 - od_vdev_status_size d5)) DEFAULT_PAGE_SHIFT 0 None\<rparr>)"

text \<open>
  One entry of \<open>vrings\<close>. The ring memory behind the entry is the cleared shared memory: the rings have to lie
  inside the mapping, everything else is an access outside of it.
\<close>

definition ring_inside :: "openamp_virtio_device \<Rightarrow> addr \<Rightarrow> u32 \<Rightarrow> bool" where
  "ring_inside d p n = (unat (od_shm_vaddr d) \<le> unat p \<and>
     int (unat p) + vring_size (ucast (ucast n :: u16)) 4 \<le> int (unat (od_shm_vaddr d) + unat (od_shm_size d)))"

definition set_vring ::
  "openamp_virtio_device \<Rightarrow> virtqueue \<Rightarrow> addr \<Rightarrow> u32 \<Rightarrow> virtio_vring_info \<Rightarrow> virtio_vring_info" where
  "set_vring d vq p n vi = vi\<lparr>vi_io := Some (od_io_region d),
     vi_info := \<lparr>ai_vaddr = p, ai_align = 4, ai_num_descs = ucast n\<rparr>, vi_vq := Some vq,
     vi_ring := zero_ring (unat (ucast n :: u16))\<rparr>"

definition dev_queues ::
  "bool \<Rightarrow> os_answers \<Rightarrow> openamp_virtio_device \<Rightarrow> (int option \<times> openamp_virtio_device) option" where
  "dev_queues master os d = (
     let d1 = d\<lparr>od_trace := od_trace d @ [Alloc_vq (od_tx_num d)]\<rparr> in
     case virtqueue_allocate (os_alloc_tx os) (unat (od_tx_num d)) of None \<Rightarrow> Some (Some (- 1), d1)
     | Some vq0 \<Rightarrow>
       (let d2 = d1\<lparr>od_trace := od_trace d1 @ [Alloc_vq (od_rx_num d)]\<rparr> in
        case virtqueue_allocate (os_alloc_rx os) (unat (od_rx_num d)) of None \<Rightarrow> Some (Some (- 1), d2)
        | Some vq1 \<Rightarrow> do {
            let rv = od_rvdev d2;
            vr0 \<leftarrow> arr_get (vd_vrings_info (rv_vdev rv)) 0;
            vr1 \<leftarrow> arr_get (vd_vrings_info (rv_vdev rv)) 1;
            require (ring_inside d2 (od_vring_tx d2) (od_tx_num d2) \<and> ring_inside d2 (od_vring_rx d2) (od_rx_num d2));
            let v = (rv_vdev rv)\<lparr>vd_vrings_info := [set_vring d2 vq0 (od_vring_tx d2) (od_tx_num d2) vr0,
                      set_vring d2 vq1 (od_vring_rx d2) (od_rx_num d2) vr1],
                    vd_role := openamp_dev_role_get master, vd_vrings_num := 2\<rparr>;
            Some (None, d2\<lparr>od_rvdev := rv\<lparr>rv_vdev := v\<rparr>, od_vq_live := {0, 1},
              od_shpool := rpmsg_virtio_init_shm_pool (od_shpool d2) (od_vring_buf d2) (ucast (od_vring_size d2))\<rparr>)
          }))"

text \<open>The status of \<open>rpmsg_init_vdev\<close> is not looked at.\<close>

definition dev_start ::
  "os_answers \<Rightarrow> ov_ext venv \<Rightarrow> openamp_virtio_device \<Rightarrow> (outcome \<times> openamp_virtio_device) option" where
  "dev_start os ve d = do {
     (_, rv) \<leftarrow> rpmsg_init_vdev (ve\<lparr>ve_func := Some dispatch\<rparr>) (Some (od_rvdev d)) (Some (rv_vdev (od_rvdev d)))
                  OPENAMP_NS_BIND_CB (Some (od_io_region d)) (Some [od_shpool d]);
     rv' \<leftarrow> rv;
     let d1 = d\<lparr>od_rvdev := rv', od_opdev := True, od_trace := od_trace d @ [Start_thread]\<rparr>;
     if os_thread os \<noteq> 0 then Some (Exited 1, d1)
     else let (ret, d2) = dev_ioctl os HW_SECONDARY_CPU_DOWNLINE d1 in
     if ret < 0 then Some (Returned (- 1), d2)
     else let (ret, d3) = dev_ioctl os HW_SECONDARY_CPU_ONLINE d2 in
     Some (Returned (if ret < 0 then - 1 else 0), d3)
   }"

definition openamp_dev_create ::
  "bool \<Rightarrow> os_answers \<Rightarrow> ov_ext venv \<Rightarrow> openamp_virtio_device \<Rightarrow> (outcome \<times> openamp_virtio_device) option" where
  "openamp_dev_create master os ve d =
     (if \<not> dev_params_ok d then Some (Returned (- 1), d)
      else case dev_connect os d of (Some e, d1) \<Rightarrow> Some (Returned e, d1)
      | (None, d1) \<Rightarrow> do {
          (err, d2) \<leftarrow> dev_queues master os (dev_layout d1);
          (case err of Some e \<Rightarrow> Some (Returned e, d2) | None \<Rightarrow> dev_start os ve d2)
        })"

definition openamp_dev_get :: "openamp_virtio_device \<Rightarrow> openamp_virtio_device option" where
  "openamp_dev_get d = (if od_opdev d then Some d else None)"

section \<open>Deleting the device\<close>

text \<open>Freeing a queue that was freed before is undefined. Neither \<open>opdev\<close> nor the pointers are reset, and the thread goes on.\<close>

definition free_vq :: "nat \<Rightarrow> openamp_virtio_device \<Rightarrow> openamp_virtio_device option" where
  "free_vq i d = do {
     vi \<leftarrow> arr_get (vd_vrings_info (rv_vdev (od_rvdev d))) i;
     if vi_vq vi = None then Some d
     else do {
       require (i \<in> od_vq_live d);
       Some (d\<lparr>od_vq_live := od_vq_live d - {i}, od_trace := od_trace d @ [Free_vq i]\<rparr>)
     }
   }"

definition openamp_dev_delete :: "openamp_virtio_device option \<Rightarrow> (int \<times> openamp_virtio_device option) option" where
  "openamp_dev_delete dev =
     (case dev of None \<Rightarrow> Some (- 1, None)
      | Some d \<Rightarrow> do {
          let d1 = (if od_shm_vaddr d \<noteq> NULL
                    then d\<lparr>od_trace := od_trace d @ [Munmap (od_shm_vaddr d) (od_shm_size d)]\<rparr> else d);
          let d2 = (if od_fd d1 \<noteq> 0 then d1\<lparr>od_trace := od_trace d1 @ [Close_dev (od_fd d1)]\<rparr> else d1);
          d3 \<leftarrow> free_vq 0 d2;
          d4 \<leftarrow> free_vq 1 d3;
          Some (0, Some d4)
        })"

section \<open>The polling thread\<close>

text \<open>
  One entry per return of \<open>poll\<close>: its result and whether \<open>POLLIN\<close> is set; at the end of the sequence the thread
  waits. A queue runs its own callback; the code has only two.
\<close>

definition run_vq ::
  "ov_ext venv \<Rightarrow> ov_ext rpmsg_virtio_device app \<Rightarrow> nat \<Rightarrow> ov_ext rpmsg_virtio_device \<Rightarrow>
   ov_ext rpmsg_virtio_device option" where
  "run_vq ve app i s = do {
     (vq, _) \<leftarrow> get_vq (Some i) s;
     if \<not> virtqueue_notification vq then Some s
     else if vq_callback vq = ve_rx_callback ve then rpmsg_virtio_rx_callback ve app s
     else if vq_callback vq = ve_tx_callback ve then Some (rpmsg_virtio_tx_callback s)
     else None
   }"

fun poll_loop ::
  "ov_ext venv \<Rightarrow> ov_ext rpmsg_virtio_device app \<Rightarrow> nat \<Rightarrow> (int \<times> bool) list \<Rightarrow>
   ov_ext rpmsg_virtio_device \<Rightarrow> ov_ext rpmsg_virtio_device option" where
  "poll_loop ve app i [] s = Some s"
| "poll_loop ve app i ((ret, pollin) # ps) s =
     (if ret < 0 then Some s
      else do {
        s1 \<leftarrow> (if pollin then run_vq ve app i s else Some s);
        poll_loop ve app i ps s1
      })"

definition openamp_pthread_entry ::
  "ov_ext venv \<Rightarrow> ov_ext rpmsg_virtio_device app \<Rightarrow> (int \<times> bool) list \<Rightarrow> openamp_virtio_device \<Rightarrow>
   openamp_virtio_device option" where
  "openamp_pthread_entry ve app polls d = do {
     let i = (if rpmsg_virtio_get_role (od_rvdev d) = VIRTIO_DEV_DRIVER then 0 else 1);
     rv \<leftarrow> poll_loop ve app i polls (od_rvdev d);
     Some (d\<lparr>od_rvdev := rv\<rparr>)
   }"

section \<open>The layout of the shared memory\<close>

lemma ALIGN_bounds:
  assumes "unat align = 2 ^ k" and "unat sz + 2 ^ k \<le> 2 ^ 64"
  shows "unat sz \<le> unat (ALIGN sz align)" "unat (ALIGN sz align) < unat sz + 2 ^ k" "2 ^ k dvd unat (ALIGN sz align)"
proof -
  have a: "unat (ucast align :: u64) = 2 ^ k" using assms(1) by (simp add: unat_ucast_up)
  have "unat sz + (2 ^ k - 1) < 2 ^ 64"
  proof -
    have "(1 :: nat) \<le> 2 ^ k" by simp
    then show ?thesis using assms(2) by linarith
  qed
  from unat_round_up [OF a this]
  have eq: "unat (ALIGN sz align) = (unat sz + 2 ^ k - 1) div 2 ^ k * 2 ^ k" unfolding ALIGN_def .
  show "unat sz \<le> unat (ALIGN sz align)" "unat (ALIGN sz align) < unat sz + 2 ^ k" "2 ^ k dvd unat (ALIGN sz align)"
    unfolding eq using round_up_bounds [of "2 ^ k" "unat sz"] by simp_all
qed

text \<open>Addresses and sizes far from the end of the address space, as a mapping of a process is.\<close>

definition layout_pre :: "openamp_virtio_device \<Rightarrow> bool" where
  "layout_pre d = ((\<exists>k. unat (od_align_size d) = 2 ^ k) \<and> unat (od_tx_num d) \<le> 2 ^ 15 \<and> unat (od_rx_num d) \<le> 2 ^ 15 \<and>
     unat (od_shm_vaddr d) + 2 ^ 40 \<le> 2 ^ 64)"

lemma layout_fields:
  "od_shm_vaddr (dev_layout d) = od_shm_vaddr d" "od_shm_size (dev_layout d) = od_shm_size d" "od_shm_physaddr (dev_layout d) = od_shm_physaddr d"
  "od_tx_num (dev_layout d) = od_tx_num d" "od_rx_num (dev_layout d) = od_rx_num d" "od_vdev_status_size (dev_layout d) = od_vdev_status_size d"
  "od_vring_tx (dev_layout d) = ALIGN (od_shm_vaddr d + ucast (od_vdev_status_size d)) (od_align_size d)"
  "od_vring_rx (dev_layout d) = ALIGN (od_vring_tx (dev_layout d) + ucast ((od_tx_num d + 1) * 0x20)) (od_align_size d)"
  "od_vring_buf (dev_layout d) = ALIGN (od_vring_rx (dev_layout d) + ucast ((od_rx_num d + 1) * 0x20)) (od_align_size d)"
  "od_vring_size (dev_layout d) = ucast (od_shm_vaddr d + ucast (od_shm_size d) - od_vring_buf (dev_layout d))"
  "od_io_region (dev_layout d) = metal_io_init id (od_vring_buf (dev_layout d))
     (Some [od_shm_physaddr d + (od_vring_buf (dev_layout d) - od_shm_vaddr d)])
     (ucast (od_shm_size d - od_vdev_status_size d)) DEFAULT_PAGE_SHIFT 0 None"
  by (simp_all add: dev_layout_def Let_def)

lemma ring_room: "unat (n :: u32) \<le> 2 ^ 15 \<Longrightarrow> unat (ucast ((n + 1) * 0x20) :: u64) = 32 * (unat n + 1)"
  by (simp add: unat_ucast_up unat_word_ariths)

lemma layout_order:
  assumes "layout_pre d"
  shows "unat (od_shm_vaddr d) + unat (od_vdev_status_size d) \<le> unat (od_vring_tx (dev_layout d))"
    "unat (od_vring_tx (dev_layout d)) + 32 * (unat (od_tx_num d) + 1) \<le> unat (od_vring_rx (dev_layout d))"
    "unat (od_vring_rx (dev_layout d)) + 32 * (unat (od_rx_num d) + 1) \<le> unat (od_vring_buf (dev_layout d))"
    "unat (od_vring_buf (dev_layout d)) < unat (od_shm_vaddr d) + 2 ^ 35"
proof -
  obtain k where k: "unat (od_align_size d) = 2 ^ k" and n: "unat (od_tx_num d) \<le> 2 ^ 15" "unat (od_rx_num d) \<le> 2 ^ 15"
    and v: "unat (od_shm_vaddr d) + 2 ^ 40 \<le> 2 ^ 64"
    using assms by (auto simp: layout_pre_def)
  have kb: "(2 :: nat) ^ k < 2 ^ 32" using unat_lt_u32 [of "od_align_size d"] k by simp
  obtain c where c: "unat (od_vdev_status_size d) = c" by simp
  have st: "c < 2 ^ 32" using unat_lt_u32 [of "od_vdev_status_size d"] c by simp
  have a0: "unat (od_shm_vaddr d + ucast (od_vdev_status_size d)) = unat (od_shm_vaddr d) + unat (od_vdev_status_size d)"
    using v st by (subst unat_add_small) (simp_all add: unat_ucast_up c)
  note tx = ALIGN_bounds [OF k, of "od_shm_vaddr d + ucast (od_vdev_status_size d)", folded layout_fields(7), unfolded a0]
  have tx1: "unat (od_shm_vaddr d) + unat (od_vdev_status_size d) \<le> unat (od_vring_tx (dev_layout d))"
    "unat (od_vring_tx (dev_layout d)) < unat (od_shm_vaddr d) + 2 ^ 33" using tx(1,2) v st kb by (simp_all add: c)
  have a1: "unat (od_vring_tx (dev_layout d) + ucast ((od_tx_num d + 1) * 0x20))
      = unat (od_vring_tx (dev_layout d)) + 32 * (unat (od_tx_num d) + 1)"
    using tx1 v n(1) by (subst unat_add_small) (simp_all only: ring_room [OF n(1)], simp)
  note rx = ALIGN_bounds [OF k, of "od_vring_tx (dev_layout d) + ucast ((od_tx_num d + 1) * 0x20)", folded layout_fields(8), unfolded a1]
  have rx1: "unat (od_vring_tx (dev_layout d)) + 32 * (unat (od_tx_num d) + 1) \<le> unat (od_vring_rx (dev_layout d))"
    "unat (od_vring_rx (dev_layout d)) < unat (od_shm_vaddr d) + 2 ^ 34" using rx(1,2) tx1 v n kb by simp_all
  have a2: "unat (od_vring_rx (dev_layout d) + ucast ((od_rx_num d + 1) * 0x20))
      = unat (od_vring_rx (dev_layout d)) + 32 * (unat (od_rx_num d) + 1)"
    using rx1 v n(2) by (subst unat_add_small) (simp_all only: ring_room [OF n(2)], simp)
  note buf = ALIGN_bounds [OF k, of "od_vring_rx (dev_layout d) + ucast ((od_rx_num d + 1) * 0x20)", folded layout_fields(9), unfolded a2]
  have "unat (od_vring_rx (dev_layout d)) + 32 * (unat (od_rx_num d) + 1) \<le> unat (od_vring_buf (dev_layout d))"
    "unat (od_vring_buf (dev_layout d)) < unat (od_shm_vaddr d) + 2 ^ 35" using buf(1,2) rx1 v n kb by simp_all
  then show "unat (od_shm_vaddr d) + unat (od_vdev_status_size d) \<le> unat (od_vring_tx (dev_layout d))"
    "unat (od_vring_tx (dev_layout d)) + 32 * (unat (od_tx_num d) + 1) \<le> unat (od_vring_rx (dev_layout d))"
    "unat (od_vring_rx (dev_layout d)) + 32 * (unat (od_rx_num d) + 1) \<le> unat (od_vring_buf (dev_layout d))"
    "unat (od_vring_buf (dev_layout d)) < unat (od_shm_vaddr d) + 2 ^ 35"
    using tx1 rx1 by simp_all
qed

lemma ring_fits:
  assumes "unat (n :: u32) \<le> 2 ^ 15"
  shows "0 \<le> vring_size (ucast (ucast n :: u16)) 4" "vring_size (ucast (ucast n :: u16)) 4 \<le> int (32 * (unat n + 1))"
proof -
  have n: "unat (ucast (ucast n :: u16) :: u32) = unat n"
    using assms by (simp only: unsigned_ucast_eq) (simp add: take_bit_nat_eq_self unsigned_take_bit_eq)
  have eq: "vring_size (ucast (ucast n :: u16)) 4 = int (vring_bytes (unat n) (2 ^ 2))"
    using vring_size_eq [of "ucast (ucast n :: u16)" 4 2] assms n by simp
  have "vring_bytes (unat n) (2 ^ 2) \<le> 32 * (unat n + 1)"
    using round_up_bounds(2) [of 4 "18 * unat n + 6"] unfolding vring_bytes_def by simp
  then show "0 \<le> vring_size (ucast (ucast n :: u16)) 4" "vring_size (ucast (ucast n :: u16)) 4 \<le> int (32 * (unat n + 1))"
    unfolding eq by linarith+
qed

lemma pool_size:
  assumes "layout_pre d" and "unat (od_vring_buf (dev_layout d)) \<le> unat (od_shm_vaddr d) + unat (od_shm_size d)"
  shows "unat (od_vring_size (dev_layout d)) = unat (od_shm_vaddr d) + unat (od_shm_size d) - unat (od_vring_buf (dev_layout d))"
proof -
  obtain c where c: "unat (od_shm_size d) = c" "c < 2 ^ 32" using unat_lt_u32 [of "od_shm_size d"] by simp
  have v: "unat (od_shm_vaddr d) + 2 ^ 40 \<le> 2 ^ 64" using assms(1) by (simp add: layout_pre_def)
  have e: "unat (od_shm_vaddr d + ucast (od_shm_size d)) = unat (od_shm_vaddr d) + c"
    using v c by (subst unat_add_small) (simp_all add: unat_ucast_up)
  then have "unat (od_shm_vaddr d + ucast (od_shm_size d) - od_vring_buf (dev_layout d))
      = unat (od_shm_vaddr d) + c - unat (od_vring_buf (dev_layout d))"
    using assms(2) c by (simp add: unat_sub word_le_nat_alt)
  moreover have "unat (od_shm_vaddr d) + c - unat (od_vring_buf (dev_layout d)) < 2 ^ 32"
    using layout_order(1-3) [OF assms(1)] c(2) by linarith
  ultimately show ?thesis unfolding layout_fields(10) using c(1) by (simp add: unat_ucast_down)
qed

text \<open>
  C38: The layout of the shared memory is sound whenever the alignment is a power of two and the rings have at most
  \<open>2 ^ 15\<close> descriptors: status, transmit ring, receive ring and buffers follow each other without overlap, with room for
  what \<open>vring_size\<close> asks for, and the buffers reach exactly to the end of the mapping.
\<close>

theorem dev_layout_disjoint:
  assumes "layout_pre d"
  shows "unat (od_shm_vaddr d) + unat (od_vdev_status_size d) \<le> unat (od_vring_tx (dev_layout d))
    \<and> int (unat (od_vring_tx (dev_layout d))) + vring_size (ucast (ucast (od_tx_num d) :: u16)) 4 \<le> int (unat (od_vring_rx (dev_layout d)))
    \<and> int (unat (od_vring_rx (dev_layout d))) + vring_size (ucast (ucast (od_rx_num d) :: u16)) 4 \<le> int (unat (od_vring_buf (dev_layout d)))
    \<and> (unat (od_vring_buf (dev_layout d)) \<le> unat (od_shm_vaddr d) + unat (od_shm_size d) \<longrightarrow>
         unat (od_vring_buf (dev_layout d)) + unat (od_vring_size (dev_layout d)) = unat (od_shm_vaddr d) + unat (od_shm_size d))"
proof -
  have n: "unat (od_tx_num d) \<le> 2 ^ 15" "unat (od_rx_num d) \<le> 2 ^ 15" using assms by (simp_all add: layout_pre_def)
  show ?thesis
    using layout_order [OF assms] ring_fits(2) [OF n(1)] ring_fits(2) [OF n(2)] pool_size [OF assms]
    by (intro conjI impI) linarith+
qed

text \<open>
  The region over the buffers starts behind the status and both rings but is as long as everything behind the
  status: it reaches beyond the mapping, and \<open>metal_io_virt\<close> hands out the first address behind the shared memory.
\<close>

theorem dev_region_overshoots:
  assumes "layout_pre d" and "od_vdev_status_size d \<le> od_shm_size d"
    and "unat (od_vring_buf (dev_layout d)) \<le> unat (od_shm_vaddr d) + unat (od_shm_size d)"
  shows "unat (od_shm_vaddr d) + unat (od_shm_size d) < unat (io_virt (od_io_region (dev_layout d))) + unat (io_size (od_io_region (dev_layout d)))
    \<and> metal_io_virt (od_io_region (dev_layout d)) (od_shm_vaddr d + ucast (od_shm_size d) - od_vring_buf (dev_layout d))
        = od_shm_vaddr d + ucast (od_shm_size d)"
proof -
  let ?L = "dev_layout d" and ?lim = "od_shm_vaddr d + ucast (od_shm_size d)"
  have io: "io_virt (od_io_region ?L) = od_vring_buf ?L" "unat (io_size (od_io_region ?L)) = unat (od_shm_size d) - unat (od_vdev_status_size d)"
    using assms(2) by (simp_all add: layout_fields(11) metal_io_init_def unat_ucast_up unat_sub word_le_nat_alt)
  obtain c s where c: "unat (od_shm_size d) = c" "c < 2 ^ 32" "unat (od_vdev_status_size d) = s" "s \<le> c"
    using unat_lt_u32 [of "od_shm_size d"] assms(2) by (simp add: word_le_nat_alt)
  have v: "unat (od_shm_vaddr d) + 2 ^ 40 \<le> 2 ^ 64" using assms(1) by (simp add: layout_pre_def)
  have e: "unat ?lim = unat (od_shm_vaddr d) + c"
    using v c by (subst unat_add_small) (simp_all add: unat_ucast_up)
  have order: "unat (od_shm_vaddr d) + s + 64 \<le> unat (od_vring_buf ?L)"
    "unat (od_vring_buf ?L) < unat (od_shm_vaddr d) + 2 ^ 35" using layout_order [OF assms(1)] c(3) by simp_all
  have "unat (?lim - od_vring_buf ?L) = unat (od_shm_vaddr d) + c - unat (od_vring_buf ?L)"
    using e assms(3) c(1) by (simp add: unat_sub word_le_nat_alt)
  then have "?lim - od_vring_buf ?L < io_size (od_io_region ?L)"
    using io(2) order assms(3) c by (simp add: word_less_nat_alt)
  moreover have "od_vring_buf ?L \<noteq> METAL_BAD_VA"
  proof
    assume "od_vring_buf ?L = METAL_BAD_VA"
    then have "unat (od_vring_buf ?L) = 2 ^ 64 - 1" by (simp add: unsigned_minus_1_eq_mask mask_eq_exp_minus_1)
    then show False using order(2) v by simp
  qed
  ultimately show ?thesis
    using io order c assms(3) by (simp add: metal_io_virt_def)
qed

section \<open>A created device\<close>

definition os_ok :: "os_answers \<Rightarrow> bool" where
  "os_ok os = (0 \<le> os_open os \<and> (\<forall>r. 0 \<le> os_ioctl os r) \<and> os_mmap os \<noteq> MAP_FAILED \<and> os_alloc_tx os \<and> os_alloc_rx os \<and> os_thread os = 0)"

text \<open>The rings lie below the region, so the code clears nothing in them: they are clear since the \<open>memset\<close>.\<close>

lemma below_region:
  assumes "unat p < unat (io_virt io)" and "unat (io_virt io) + 2 ^ 32 \<le> 2 ^ 64" and "unat (io_size io) < 2 ^ 32"
  shows "metal_io_virt io (metal_io_virt_to_offset io p) = NULL"
proof -
  have "\<not> p - io_virt io < io_size io"
  proof
    assume "p - io_virt io < io_size io"
    then have "unat (p - io_virt io) < 2 ^ 32" using assms(3) by (simp add: word_less_nat_alt)
    then have "unat ((p - io_virt io) + io_virt io) = unat (p - io_virt io) + unat (io_virt io)"
      using assms(2) by (intro unat_add_small) simp
    then show False using assms(1) by simp
  qed
  moreover have "\<not> METAL_BAD_OFFSET < io_size io"
    using assms(3) by (simp add: word_less_nat_alt unsigned_minus_1_eq_mask mask_eq_exp_minus_1)
  ultimately show ?thesis by (simp add: metal_io_virt_to_offset_def metal_io_virt_def Let_def)
qed

lemma set_vring_cleared:
  assumes "unat n = 2 ^ e" and "e \<le> 15" and "unat p < unat (io_virt (od_io_region d))"
    and "unat (io_virt (od_io_region d)) + 2 ^ 32 \<le> 2 ^ 64" and "unat (io_size (od_io_region d)) < 2 ^ 32"
  shows "vring_cleared (set_vring d (virtqueue_zero (unat n)) p n vi)" "unat (ucast n :: u16) = unat n"
proof -
  have "(2 :: nat) ^ e \<le> 2 ^ 15" using assms(2) by (rule power_increasing) simp
  then have u: "unat (ucast n :: u16) = unat n" using assms(1,2) by (simp add: unsigned_ucast_eq take_bit_nat_eq_self)
  then have "(ucast n :: u16) = 2 ^ e" using assms(1,2) unat_pow2 [where 'a = 16, of e] by (simp add: word_unat_eq_iff)
  then show "vring_cleared (set_vring d (virtqueue_zero (unat n)) p n vi)"
    using u assms(2) below_region [OF assms(3-5)] by (auto simp: vring_cleared_def set_vring_def vring_clear_def)
  show "unat (ucast n :: u16) = unat n" by (rule u)
qed

lemma connect_ok:
  assumes "os_ok os"
  shows "dev_connect os d = (None, d\<lparr>od_fd := os_open os, od_shm_vaddr := os_mmap os, od_trace := od_trace d @ [Open_dev,
    Ioctl HW_SECONDARY_LOAD_FIRMWARE, Ioctl HW_SECONDARY_IRQ_INSTALL, Mmap (od_shm_size d)]\<rparr>)"
proof -
  have "\<not> os_open os < 0" "\<not> os_ioctl os r < 0" for r using assms by (auto simp: os_ok_def not_less)
  then show ?thesis using assms by (simp add: dev_connect_def dev_ioctl_def os_ok_def Let_def)
qed

text \<open>The pool over the end of the shared memory serves the receive ring.\<close>

lemma layout_pool_ok:
  assumes lay: "layout_pre d" and st: "od_vdev_status_size d \<le> od_shm_size d" and n: "0 < n"
    and room: "unat (od_vring_buf (dev_layout d)) + n * 512 \<le> unat (od_shm_vaddr d) + unat (od_shm_size d)"
  shows "pool_ok (od_io_region (dev_layout d)) n
      (rpmsg_virtio_init_shm_pool sp (od_vring_buf (dev_layout d)) (ucast (od_vring_size (dev_layout d))))
      (map (\<lambda>j. od_shm_physaddr d + (od_vring_buf (dev_layout d) - od_shm_vaddr d) + of_nat j * 512) [0..<n])"
proof -
  let ?L = "dev_layout d" and ?io = "od_io_region (dev_layout d)" and ?buf = "od_vring_buf (dev_layout d)"
  obtain c s where c: "unat (od_shm_size d) = c" "c < 2 ^ 32" "unat (od_vdev_status_size d) = s" "s \<le> c"
    using unat_lt_u32 [of "od_shm_size d"] st by (simp add: word_le_nat_alt)
  have v: "unat (od_shm_vaddr d) + 2 ^ 40 \<le> 2 ^ 64" using lay by (simp add: layout_pre_def)
  have order: "unat (od_shm_vaddr d) + s + 64 \<le> unat ?buf" "unat ?buf < unat (od_shm_vaddr d) + 2 ^ 35"
    using layout_order [OF lay] c(3) by simp_all
  have size: "unat (od_vring_size ?L) = unat (od_shm_vaddr d) + c - unat ?buf" using pool_size [OF lay] room c(1) by simp
  have io: "io_virt ?io = ?buf" "unat (io_size ?io) = c - s"
    using st c by (simp_all add: layout_fields(11) metal_io_init_def unat_ucast_up unat_sub)
  have nz: "?buf \<noteq> NULL" "od_vring_size ?L \<noteq> 0"
    using order(1) size room n c(1) by (auto simp: unat_eq_zero [symmetric] simp del: unat_eq_zero)
  then have pool: "rpmsg_virtio_init_shm_pool sp ?buf (ucast (od_vring_size ?L))
      = sp\<lparr>sp_base := ?buf, sp_size := ucast (od_vring_size ?L), sp_avail := ucast (od_vring_size ?L)\<rparr>"
    by (simp add: rpmsg_virtio_init_shm_pool_def unat_eq_zero [symmetric] unat_ucast_up del: unat_eq_zero)
  have "?buf + of_nat j * 512 \<noteq> NULL \<and> metal_io_virt_to_phys ?io (?buf + of_nat j * 512)
      = Some (od_shm_physaddr d + (?buf - od_shm_vaddr d) + of_nat j * 512)" if j: "j < n" for j
  proof -
    have "(j + 1) * 512 \<le> n * 512" using j by (intro mult_right_mono) simp_all
    then have off: "j * 512 < c - s" "j * 512 < 2 ^ 32" using room order(1) c by simp_all
    then have u: "unat (of_nat j * 512 :: u64) = j * 512"
      using unat_of_nat [where 'a = 64, of "j * 512"] by (simp add: take_bit_nat_eq_self)
    then have "unat (?buf + of_nat j * 512) = unat ?buf + j * 512"
      using order(2) v off(2) by (subst unat_add_small) simp_all
    then have "?buf + of_nat j * 512 \<noteq> NULL" using order(1) by (auto simp: unat_eq_zero [symmetric] simp del: unat_eq_zero)
    moreover have "(of_nat j * 512 :: u64) < io_size ?io" using u off(1) io(2) by (simp add: word_less_nat_alt)
    moreover have "(64 :: u64) \<le> ucast (DEFAULT_PAGE_SHIFT)" by code_simp
    ultimately show ?thesis
      using io(1) by (simp add: metal_io_virt_to_phys_def metal_io_virt_to_offset_def metal_io_phys_def layout_fields(11)
          metal_io_init_def no_ops_def arr_get_def)
  qed
  then show ?thesis
    unfolding pool pool_ok_def using nz room size c(1)
    by (simp add: pool_next_def unat_ucast_up unat_eq_zero [symmetric] del: unat_eq_zero)
qed

lemma queues_ok:
  assumes "os_ok os" and "vd_vrings_info (rv_vdev (od_rvdev d)) = [x, y]"
    and "ring_inside d (od_vring_tx d) (od_tx_num d)" and "ring_inside d (od_vring_rx d) (od_rx_num d)"
  shows "dev_queues True os d = Some (None, d\<lparr>od_rvdev := (od_rvdev d)\<lparr>rv_vdev := (rv_vdev (od_rvdev d))\<lparr>vd_vrings_info :=
        [set_vring d (virtqueue_zero (unat (od_tx_num d))) (od_vring_tx d) (od_tx_num d) x,
         set_vring d (virtqueue_zero (unat (od_rx_num d))) (od_vring_rx d) (od_rx_num d) y],
        vd_role := VIRTIO_DEV_DRIVER, vd_vrings_num := 2\<rparr>\<rparr>,
      od_vq_live := {0, 1}, od_shpool := rpmsg_virtio_init_shm_pool (od_shpool d) (od_vring_buf d) (ucast (od_vring_size d)),
      od_trace := od_trace d @ [Alloc_vq (od_tx_num d), Alloc_vq (od_rx_num d)]\<rparr>)"
  using assms by (simp add: dev_queues_def os_ok_def virtqueue_allocate_def openamp_dev_role_get_def arr_get_def ring_inside_def
      set_vring_def Let_def)

lemma start_ok:
  assumes os: "os_ok os" and init: "rpmsg_init_vdev (ve\<lparr>ve_func := Some dispatch\<rparr>) (Some (od_rvdev d)) (Some (rv_vdev (od_rvdev d)))
      OPENAMP_NS_BIND_CB (Some (od_io_region d)) (Some [od_shpool d]) = Some (st, Some rv)"
  shows "dev_start os ve d = Some (Returned 0, d\<lparr>od_rvdev := rv, od_opdev := True, od_trace := od_trace d @ [Start_thread,
    Ioctl HW_SECONDARY_CPU_DOWNLINE, Ioctl HW_SECONDARY_CPU_ONLINE], od_boots := od_boots d @ [rv]\<rparr>)"
proof -
  have "\<not> os_ioctl os r < 0" "os_thread os = 0" for r using os by (auto simp: os_ok_def not_less)
  then show ?thesis using init by (simp add: dev_start_def dev_ioctl_def Let_def not_less)
qed

lemma dispatch_transport_ok:
  assumes "VIRTIO_DRIVER_SUPPORT (ve_build ve)" and "ve_ns_ept ve \<noteq> NULL" and "vd_role v = VIRTIO_DEV_DRIVER"
  shows "transport_ok (ve\<lparr>ve_func := Some dispatch\<rparr>) v 1"
  using assms by (simp add: transport_ok_def dispatch_def VIRTIO_ROLE_IS_DRIVER_def Virtio_get_features_def Virtio_set_status_def)

text \<open>The memory has room for the status, both rings and a buffer per transmit descriptor.\<close>

definition memory_ok :: "openamp_virtio_device \<Rightarrow> bool" where
  "memory_ok d = (layout_pre d \<and> od_vdev_status_size d \<le> od_shm_size d \<and>
     (\<exists>e. unat (od_tx_num d) = 2 ^ e) \<and> (\<exists>e. unat (od_rx_num d) = 2 ^ e) \<and>
     unat (od_vring_buf (dev_layout d)) + unat (od_tx_num d) * 512 \<le> unat (od_shm_vaddr d) + unat (od_shm_size d))"

lemma memory_rings:
  assumes "memory_ok d"
  shows "ring_inside (dev_layout d) (od_vring_tx (dev_layout d)) (od_tx_num d)"
    "ring_inside (dev_layout d) (od_vring_rx (dev_layout d)) (od_rx_num d)"
    "vring_cleared (set_vring (dev_layout d) (virtqueue_zero (unat (od_tx_num d))) (od_vring_tx (dev_layout d)) (od_tx_num d) x)"
    "vring_cleared (set_vring (dev_layout d) (virtqueue_zero (unat (od_rx_num d))) (od_vring_rx (dev_layout d)) (od_rx_num d) y)"
    "unat (ucast (od_tx_num d) :: u16) = unat (od_tx_num d)"
proof -
  let ?L = "dev_layout d"
  have lay: "layout_pre d" and st: "od_vdev_status_size d \<le> od_shm_size d"
    and room: "unat (od_vring_buf ?L) \<le> unat (od_shm_vaddr d) + unat (od_shm_size d)"
    using assms by (auto simp: memory_ok_def)
  have n: "unat (od_tx_num d) \<le> 2 ^ 15" "unat (od_rx_num d) \<le> 2 ^ 15" and v: "unat (od_shm_vaddr d) + 2 ^ 40 \<le> 2 ^ 64"
    using lay by (simp_all add: layout_pre_def)
  note order = layout_order [OF lay]
  show "ring_inside ?L (od_vring_tx ?L) (od_tx_num d)" "ring_inside ?L (od_vring_rx ?L) (od_rx_num d)"
    unfolding ring_inside_def layout_fields(1,2) using order ring_fits(2) [OF n(1)] ring_fits(2) [OF n(2)] room
    by (intro conjI; linarith)+
  obtain a b where e: "unat (od_tx_num d) = 2 ^ a" "unat (od_rx_num d) = 2 ^ b" using assms by (auto simp: memory_ok_def)
  have small: "a \<le> 15" "b \<le> 15" using n e power_le_imp_le_exp [of 2 a 15] power_le_imp_le_exp [of 2 b 15] by simp_all
  have io: "io_virt (od_io_region ?L) = od_vring_buf ?L" "unat (io_size (od_io_region ?L)) < 2 ^ 32"
    using unat_lt_u32 [of "od_shm_size d - od_vdev_status_size d"] by (simp_all add: layout_fields(11) metal_io_init_def unat_ucast_up)
  have top: "unat (io_virt (od_io_region ?L)) + 2 ^ 32 \<le> 2 ^ 64" using order(4) v io(1) by simp
  have below: "unat (od_vring_tx ?L) < unat (io_virt (od_io_region ?L))" "unat (od_vring_rx ?L) < unat (io_virt (od_io_region ?L))"
    using order io(1) by simp_all
  show "vring_cleared (set_vring ?L (virtqueue_zero (unat (od_tx_num d))) (od_vring_tx ?L) (od_tx_num d) x)"
    "unat (ucast (od_tx_num d) :: u16) = unat (od_tx_num d)"
    by (rule set_vring_cleared [OF e(1) small(1) below(1) top io(2)])+
  show "vring_cleared (set_vring ?L (virtqueue_zero (unat (od_rx_num d))) (od_vring_rx ?L) (od_rx_num d) y)"
    by (rule set_vring_cleared(1) [OF e(2) small(2) below(2) top io(2)])
qed

lemma init_over_layout:
  assumes mem: "memory_ok d" and ve: "VIRTIO_DRIVER_SUPPORT (ve_build ve)" "ve_ns_ept ve \<noteq> NULL"
    and v: "v = v0\<lparr>vd_vrings_info :=
        [set_vring (dev_layout d) (virtqueue_zero (unat (od_tx_num d))) (od_vring_tx (dev_layout d)) (od_tx_num d) x,
         set_vring (dev_layout d) (virtqueue_zero (unat (od_rx_num d))) (od_vring_rx (dev_layout d)) (od_rx_num d) y],
        vd_role := VIRTIO_DEV_DRIVER, vd_vrings_num := 2\<rparr>"
    and p: "p = rpmsg_virtio_init_shm_pool sp (od_vring_buf (dev_layout d)) (ucast (od_vring_size (dev_layout d)))"
  shows "\<exists>s' rx tx. rpmsg_init_vdev (ve\<lparr>ve_func := Some dispatch\<rparr>) (Some s) (Some v) OPENAMP_NS_BIND_CB
        (Some (od_io_region (dev_layout d))) (Some [p]) = Some (RPMSG_SUCCESS, Some s')
    \<and> rv_rvq s' = Some 0 \<and> get_vq (Some 0) s' = Some rx
    \<and> rx_filled (unat (od_tx_num d)) (map (\<lambda>j. od_shm_physaddr d + (od_vring_buf (dev_layout d) - od_shm_vaddr d) + of_nat j * 512)
          [0..<unat (od_tx_num d)]) (ve_rx_callback ve) rx
    \<and> get_vq (Some 1) s' = Some tx \<and> av_idx (vm_avail (snd tx)) = 0 \<and> rd_endpoints s' = [ve_ns_ept ve]
    \<and> fresh_endpoints ve True s' \<and> rd_ns_bind_cb s' = OPENAMP_NS_BIND_CB
    \<and> vd_role (rv_vdev s') = VIRTIO_DEV_DRIVER \<and> ov_status (rv_vdev s') = VIRTIO_CONFIG_STATUS_DRIVER_OK"
proof -
  note rings = memory_rings [OF mem]
  obtain a b where ab: "vd_vrings_info v = [a, b]" "vring_cleared a" "vring_cleared b"
    "unat (ai_num_descs (vi_info a)) = unat (od_tx_num d)"
    using rings(3-5) by (simp add: v set_vring_def)
  have pool: "pool_ok (od_io_region (dev_layout d)) (unat (od_tx_num d)) p (map (\<lambda>j. od_shm_physaddr d
      + (od_vring_buf (dev_layout d) - od_shm_vaddr d) + of_nat j * 512) [0..<unat (od_tx_num d)])"
    unfolding p using layout_pool_ok [of d "unat (od_tx_num d)"] mem by (auto simp: memory_ok_def)
  have tr: "transport_ok (ve\<lparr>ve_func := Some dispatch\<rparr>) v 1" using dispatch_transport_ok [OF ve] by (simp add: v)
  have two: "2 \<le> unat (vd_vrings_num v)" by (simp add: v)
  obtain s' rx tx where init: "rpmsg_init_vdev (ve\<lparr>ve_func := Some dispatch\<rparr>) (Some s) (Some v) OPENAMP_NS_BIND_CB
        (Some (od_io_region (dev_layout d))) (Some [p]) = Some (RPMSG_SUCCESS, Some s')"
    "rv_rvq s' = Some 0" "get_vq (Some 0) s' = Some rx"
    "rx_filled (unat (od_tx_num d)) (map (\<lambda>j. od_shm_physaddr d + (od_vring_buf (dev_layout d) - od_shm_vaddr d) + of_nat j * 512)
       [0..<unat (od_tx_num d)]) (ve_rx_callback ve) rx"
    "get_vq (Some 1) s' = Some tx" "av_idx (vm_avail (snd tx)) = 0" "rd_endpoints s' = [ve_ns_ept ve]"
    "virtio_set_status (Some dispatch) (Some (v\<lparr>vd_vrings_info := vd_vrings_info (rv_vdev s')\<rparr>)) VIRTIO_CONFIG_STATUS_DRIVER_OK
        = Some (0, Some (rv_vdev s'))" "fresh_endpoints (ve\<lparr>ve_func := Some dispatch\<rparr>) True s'" "rd_ns_bind_cb s' = OPENAMP_NS_BIND_CB"
    using init_vdev_ok [OF tr two ab(1-3) pool [folded ab(4)], of s OPENAMP_NS_BIND_CB "[]"] unfolding ab(4) by auto
  have set: "rv_vdev s' = v\<lparr>vd_vrings_info := vd_vrings_info (rv_vdev s'), ov_status := VIRTIO_CONFIG_STATUS_DRIVER_OK\<rparr>"
    using init(8) by (simp add: virtio_set_status_def dispatch_def Virtio_set_status_def)
  have "vd_role (rv_vdev s') = VIRTIO_DEV_DRIVER" "ov_status (rv_vdev s') = VIRTIO_CONFIG_STATUS_DRIVER_OK"
    by (subst set, simp add: v)+
  moreover have "fresh_endpoints ve True s'" using init(9) by (simp add: fresh_endpoints_def no_bits)
  ultimately show ?thesis using init by blast
qed

lemma create_ready:
  assumes par: "dev_params_ok d" and os: "os_ok os" and d1: "dev_connect os d = (None, d1)" and mem: "memory_ok d1"
    and infos: "vd_vrings_info (rv_vdev (od_rvdev d)) = [x, y]"
    and ve: "VIRTIO_DRIVER_SUPPORT (ve_build ve)" "ve_ns_ept ve \<noteq> NULL"
  shows "\<exists>d' rx tx. openamp_dev_create True os ve d = Some (Returned 0, d') \<and> openamp_dev_get d' = Some d'
    \<and> rpmsg_virtio_get_role (od_rvdev d') = VIRTIO_DEV_DRIVER \<and> rv_rvq (od_rvdev d') = Some 0
    \<and> get_vq (Some 0) (od_rvdev d') = Some rx
    \<and> rx_filled (unat (od_tx_num d)) (map (\<lambda>j. od_shm_physaddr d + (od_vring_buf d' - od_shm_vaddr d') + of_nat j * 512)
          [0..<unat (od_tx_num d)]) (ve_rx_callback ve) rx
    \<and> get_vq (Some 1) (od_rvdev d') = Some tx \<and> av_idx (vm_avail (snd tx)) = 0
    \<and> rd_endpoints (od_rvdev d') = [ve_ns_ept ve] \<and> ov_status (rv_vdev (od_rvdev d')) = VIRTIO_CONFIG_STATUS_DRIVER_OK
    \<and> fresh_endpoints ve True (od_rvdev d') \<and> rd_ns_bind_cb (od_rvdev d') = OPENAMP_NS_BIND_CB \<and> od_boots d' = od_boots d @ [od_rvdev d']
    \<and> od_vq_live d' = {0, 1} \<and> od_fd d' = os_open os \<and> od_shm_vaddr d' = os_mmap os
    \<and> od_trace d' = od_trace d @ [Open_dev, Ioctl HW_SECONDARY_LOAD_FIRMWARE, Ioctl HW_SECONDARY_IRQ_INSTALL, Mmap (od_shm_size d),
        Memset (os_mmap os) (od_shm_size d), Alloc_vq (od_tx_num d), Alloc_vq (od_rx_num d), Start_thread,
        Ioctl HW_SECONDARY_CPU_DOWNLINE, Ioctl HW_SECONDARY_CPU_ONLINE]"
proof -
  define L where "L = dev_layout d1"
  have d1': "d1 = d\<lparr>od_fd := os_open os, od_shm_vaddr := os_mmap os, od_trace := od_trace d @ [Open_dev,
      Ioctl HW_SECONDARY_LOAD_FIRMWARE, Ioctl HW_SECONDARY_IRQ_INSTALL, Mmap (od_shm_size d)]\<rparr>"
    using connect_ok [OF os, of d] d1 by simp
  have L: "od_tx_num L = od_tx_num d" "od_rx_num L = od_rx_num d" "od_shm_physaddr L = od_shm_physaddr d" "od_shm_vaddr L = od_shm_vaddr d1" "od_fd L = os_open os"
    "od_trace L = od_trace d1 @ [Memset (od_shm_vaddr d1) (od_shm_size d)]" "od_boots L = od_boots d" "vd_vrings_info (rv_vdev (od_rvdev L)) = [x, y]"
    unfolding L_def using infos by (simp_all add: dev_layout_def Let_def d1')
  have num: "od_tx_num d1 = od_tx_num d" "od_rx_num d1 = od_rx_num d" "od_shm_physaddr d1 = od_shm_physaddr d" by (simp_all add: d1')
  define v where "v = (rv_vdev (od_rvdev L))\<lparr>vd_vrings_info :=
        [set_vring L (virtqueue_zero (unat (od_tx_num d))) (od_vring_tx L) (od_tx_num d) x,
         set_vring L (virtqueue_zero (unat (od_rx_num d))) (od_vring_rx L) (od_rx_num d) y],
        vd_role := VIRTIO_DEV_DRIVER, vd_vrings_num := 2\<rparr>"
  define p where "p = rpmsg_virtio_init_shm_pool (od_shpool L) (od_vring_buf L) (ucast (od_vring_size L))"
  define q where "q = L\<lparr>od_rvdev := (od_rvdev L)\<lparr>rv_vdev := v\<rparr>, od_vq_live := {0, 1}, od_shpool := p,
      od_trace := od_trace L @ [Alloc_vq (od_tx_num d), Alloc_vq (od_rx_num d)]\<rparr>"
  have queues: "dev_queues True os L = Some (None, q)"
    unfolding q_def v_def p_def using queues_ok [OF os L(8)] memory_rings(1,2) [OF mem] L(1,2) num by (simp add: L_def)
  obtain s' rx tx where init: "rpmsg_init_vdev (ve\<lparr>ve_func := Some dispatch\<rparr>) (Some (od_rvdev q)) (Some v) OPENAMP_NS_BIND_CB
        (Some (od_io_region L)) (Some [p]) = Some (RPMSG_SUCCESS, Some s')"
    "rv_rvq s' = Some 0" "get_vq (Some 0) s' = Some rx"
    "rx_filled (unat (od_tx_num d)) (map (\<lambda>j. od_shm_physaddr d + (od_vring_buf L - od_shm_vaddr d1) + of_nat j * 512)
       [0..<unat (od_tx_num d)]) (ve_rx_callback ve) rx"
    "get_vq (Some 1) s' = Some tx" "av_idx (vm_avail (snd tx)) = 0" "rd_endpoints s' = [ve_ns_ept ve]"
    "fresh_endpoints ve True s'" "rd_ns_bind_cb s' = OPENAMP_NS_BIND_CB" "vd_role (rv_vdev s') = VIRTIO_DEV_DRIVER" "ov_status (rv_vdev s') = VIRTIO_CONFIG_STATUS_DRIVER_OK"
    using init_over_layout [OF mem ve v_def [unfolded L_def num [symmetric]] p_def [unfolded L_def]] unfolding num L_def by blast
  have "rv_vdev (od_rvdev q) = v" "od_io_region q = od_io_region L" "od_shpool q = p" by (simp_all add: q_def)
  then have "dev_start os ve q = Some (Returned 0, q\<lparr>od_rvdev := s', od_opdev := True, od_trace := od_trace q @ [Start_thread,
      Ioctl HW_SECONDARY_CPU_DOWNLINE, Ioctl HW_SECONDARY_CPU_ONLINE], od_boots := od_boots q @ [s']\<rparr>)"
    using start_ok [OF os, of ve q RPMSG_SUCCESS s'] init(1) by simp
  then have run: "openamp_dev_create True os ve d = Some (Returned 0, q\<lparr>od_rvdev := s', od_opdev := True, od_trace := od_trace q @ [Start_thread,
      Ioctl HW_SECONDARY_CPU_DOWNLINE, Ioctl HW_SECONDARY_CPU_ONLINE], od_boots := od_boots q @ [s']\<rparr>)"
    using par d1 queues by (simp add: openamp_dev_create_def L_def)
  show ?thesis
    by (intro exI, rule conjI, rule run) (use init L in \<open>simp add: openamp_dev_get_def rpmsg_virtio_get_role_def q_def d1'\<close>)
qed

text \<open>
  C9: \<open>openamp_dev_create\<close> of the master succeeds when the kernel does and the memory has room. The other processor is
  taken down and brought up only at the end, after the firmware was loaded, the interrupt installed, the memory
  cleared and the thread started. It is started once, and what it finds then in the shared memory is the device as it is afterwards:
  every descriptor of queue 0 offers its own buffer at the physical address the other side sees, queue 1 is empty, the status byte says that the
  driver is ready, all dynamic addresses are free, and the name service is registered with its callback.
\<close>

theorem dev_create_ready:
  assumes "dev_params_ok d" and "os_ok os" and "dev_connect os d = (None, d1)" and "memory_ok d1"
    and "vd_vrings_info (rv_vdev (od_rvdev d)) = [x, y]"
    and "VIRTIO_DRIVER_SUPPORT (ve_build ve)" and "ve_ns_ept ve \<noteq> NULL"
  shows "\<exists>d' rx tx. openamp_dev_create True os ve d = Some (Returned 0, d') \<and> openamp_dev_get d' = Some d'
    \<and> get_vq (Some 0) (od_rvdev d') = Some rx
    \<and> rx_filled (unat (od_tx_num d)) (map (\<lambda>j. od_shm_physaddr d + (od_vring_buf d' - od_shm_vaddr d') + of_nat j * 512)
          [0..<unat (od_tx_num d)]) (ve_rx_callback ve) rx
    \<and> get_vq (Some 1) (od_rvdev d') = Some tx \<and> av_idx (vm_avail (snd tx)) = 0
    \<and> rd_endpoints (od_rvdev d') = [ve_ns_ept ve] \<and> ov_status (rv_vdev (od_rvdev d')) = VIRTIO_CONFIG_STATUS_DRIVER_OK
    \<and> fresh_endpoints ve True (od_rvdev d') \<and> rd_ns_bind_cb (od_rvdev d') = OPENAMP_NS_BIND_CB \<and> od_boots d' = od_boots d @ [od_rvdev d']
    \<and> od_trace d' = od_trace d @ [Open_dev, Ioctl HW_SECONDARY_LOAD_FIRMWARE, Ioctl HW_SECONDARY_IRQ_INSTALL, Mmap (od_shm_size d),
        Memset (os_mmap os) (od_shm_size d), Alloc_vq (od_tx_num d), Alloc_vq (od_rx_num d), Start_thread,
        Ioctl HW_SECONDARY_CPU_DOWNLINE, Ioctl HW_SECONDARY_CPU_ONLINE]"
  using create_ready [OF assms] by blast

section \<open>The polling thread and the end of the device\<close>

lemma poll_loop_append:
  "poll_loop ve app i (ps @ qs) s =
     (if \<exists>(ret, _) \<in> set ps. ret < 0 then poll_loop ve app i ps s
      else Option.bind (poll_loop ve app i ps s) (poll_loop ve app i qs))"
proof (induction ps arbitrary: s)
  case (Cons a ps)
  obtain ret pollin where a: "a = (ret, pollin)" by fastforce
  show ?case
  proof (cases "(if pollin then run_vq ve app i s else Some s)")
    case None
    then show ?thesis using a by simp
  next
    case (Some s1)
    then show ?thesis using a Cons.IH [of s1] by (cases "ret < 0") (simp_all add: case_prod_beta)
  qed
qed simp

text \<open>
  On a created device each wakeup of the polling thread with \<open>POLLIN\<close> runs the receive callback of rpmsg, as long
  as no poll failed; the first failing poll, an interrupted one too, ends the thread, and whatever is signalled
  afterwards is not received.
\<close>

theorem poll_serves_receive_queue:
  assumes "rpmsg_virtio_get_role (od_rvdev d) = VIRTIO_DEV_DRIVER" and "get_vq (Some 0) (od_rvdev d) = Some (vq, rm)"
    and "vq_callback vq = ve_rx_callback ve" and "ve_rx_callback ve \<noteq> NULL" and "0 \<le> ret" and "fail < 0"
  shows "openamp_pthread_entry ve app [(ret, True)] d = map_option (\<lambda>rv. d\<lparr>od_rvdev := rv\<rparr>) (rpmsg_virtio_rx_callback ve app (od_rvdev d))
    \<and> openamp_pthread_entry ve app (polls @ (fail, b) # later) d = openamp_pthread_entry ve app polls d"
proof
  have "poll_loop ve app 0 [(ret, True)] (od_rvdev d) = rpmsg_virtio_rx_callback ve app (od_rvdev d)"
    using assms by (cases "rpmsg_virtio_rx_callback ve app (od_rvdev d)") (simp_all add: run_vq_def virtqueue_notification_def not_less)
  then show "openamp_pthread_entry ve app [(ret, True)] d = map_option (\<lambda>rv. d\<lparr>od_rvdev := rv\<rparr>) (rpmsg_virtio_rx_callback ve app (od_rvdev d))"
    using assms(1) by (cases "rpmsg_virtio_rx_callback ve app (od_rvdev d)") (simp_all add: openamp_pthread_entry_def)
  have "poll_loop ve app 0 (polls @ (fail, b) # later) (od_rvdev d) = poll_loop ve app 0 polls (od_rvdev d)"
    using assms(6) by (cases "poll_loop ve app 0 polls (od_rvdev d)") (auto simp: poll_loop_append)
  then show "openamp_pthread_entry ve app (polls @ (fail, b) # later) d = openamp_pthread_entry ve app polls d"
    using assms(1) by (simp add: openamp_pthread_entry_def)
qed

text \<open>
  C40: \<open>openamp_dev_delete\<close> gives back the mapping, the file and both queues of a device but forgets nothing of it:
  \<open>openamp_dev_get\<close> still returns the device, and deleting it again frees the queues a second time.
\<close>

theorem delete_forgets_nothing:
  assumes "get_vq (Some 0) (od_rvdev d) = Some q0" and "get_vq (Some 1) (od_rvdev d) = Some q1" and "od_vq_live d = {0, 1}"
    and "od_shm_vaddr d \<noteq> NULL" and "od_fd d \<noteq> 0" and "openamp_dev_get d = Some d"
  shows "\<exists>d'. openamp_dev_delete (Some d) = Some (0, Some d') \<and> od_vq_live d' = {}
    \<and> od_trace d' = od_trace d @ [Munmap (od_shm_vaddr d) (od_shm_size d), Close_dev (od_fd d), Free_vq 0, Free_vq 1]
    \<and> openamp_dev_get d' = Some d' \<and> openamp_dev_delete (Some d') = None"
proof -
  obtain x y where x: "arr_get (vd_vrings_info (rv_vdev (od_rvdev d))) 0 = Some x" "vi_vq x \<noteq> None"
    and y: "arr_get (vd_vrings_info (rv_vdev (od_rvdev d))) 1 = Some y" "vi_vq y \<noteq> None"
    using assms(1,2) by (auto simp: get_vq_def opt_simps)
  let ?d = "d\<lparr>od_vq_live := {}, od_trace := od_trace d @ [Munmap (od_shm_vaddr d) (od_shm_size d), Close_dev (od_fd d), Free_vq 0, Free_vq 1]\<rparr>"
  have "openamp_dev_delete (Some d) = Some (0, Some ?d)"
  proof -
    have f: "free_vq i (e\<lparr>od_trace := t\<rparr>) = Some (e\<lparr>od_vq_live := od_vq_live e - {i}, od_trace := t @ [Free_vq i]\<rparr>)"
      if "od_rvdev e = od_rvdev d" "i \<in> {0, 1}" "i \<in> od_vq_live e" for i e t
      using that x y by (auto simp: free_vq_def)
    show ?thesis
      using f [of d 0] f [of "d\<lparr>od_vq_live := {1}\<rparr>" 1] assms(3-5) by (simp add: openamp_dev_delete_def Let_def)
  qed
  moreover have "openamp_dev_delete (Some ?d) = None"
  proof -
    have "free_vq 0 e = None" if "od_rvdev e = od_rvdev d" "od_vq_live e = {}" for e using that x by (simp add: free_vq_def)
    then show ?thesis using assms(4,5) by (simp add: openamp_dev_delete_def)
  qed
  moreover have "openamp_dev_get ?d = Some ?d" using assms(6) by (simp add: openamp_dev_get_def split: if_splits)
  ultimately show ?thesis by (intro exI [of _ ?d]) simp
qed

section \<open>The device of the demo\<close>

text \<open>The static structure \<open>app\<close> of \<^verbatim>\<open>openamp_app.c\<close>; what the initialiser does not name is zero.\<close>

definition zero_vring :: virtio_vring_info where
  "zero_vring = \<lparr>vi_vq = None, vi_info = \<lparr>ai_vaddr = NULL, ai_align = 0, ai_num_descs = 0\<rparr>, vi_notifyid = 0, vi_io = None,
     vi_ring = zero_ring 0\<rparr>"

definition zero_vdev :: openamp_vdev where
  "zero_vdev = \<lparr>vd_notifyid = 0, vd_id = \<lparr>id_device = 0, id_vendor = 0, id_version = 0\<rparr>, vd_features = 0, vd_role = 0,
     vd_vrings_num = 0, vd_vrings_info = [zero_vring, zero_vring], ov_status = 0\<rparr>"

definition zero_rvdev :: "ov_ext rpmsg_virtio_device" where
  "zero_rvdev = \<lparr>rd_endpoints = [], rd_epts = \<lambda>_. zero_ept, rd_bitmap = [0, 0], rd_bitnext = 0, rd_lock = False,
     rd_ns_bind_cb = NULL, rd_ns_unbind_cb = NULL, rd_support_ns = False,
     rv_mem = \<lambda>_. 0, rv_config = \<lparr>cf_h2r_buf_size = 0, cf_r2h_buf_size = 0, cf_split_shpool = False\<rparr>,
     rv_vdev = zero_vdev, rv_rvq = None, rv_svq = None, rv_shbuf_io = None, rv_pools = [], rv_shpool = None,
     rv_reclaimer_head = NULL, rv_reclaimer = [], rv_notify_wait_cb = False\<rparr>"

definition app_dev :: openamp_virtio_device where
  "app_dev = \<lparr>od_rvdev = zero_rvdev, od_io_region = metal_io_init id NULL None 0 0 0 None, od_shm_physmap = 0,
     od_shpool = \<lparr>sp_base = NULL, sp_avail = 0, sp_size = 0\<rparr>, od_fd = 0, od_dev_name = Some ''/dev/hw_internuclear'',
     od_shm_mpaddr = 0x99000000, od_shm_physaddr = 0x8000000099000000, od_shm_vaddr = NULL, od_shm_size = 0x10000,
     od_secondary_config = \<lparr>sc_cpu_id = 1, sc_entry = 0x97000000, sc_irq_id = 7\<rparr>,
     od_vring_tx = NULL, od_tx_num = 16, od_vring_rx = NULL, od_rx_num = 16, od_vring_buf = NULL, od_vring_size = 0,
     od_align_size = 0x1000, od_vdev_status_size = 0x1000, od_opdev = False, od_vq_live = {}, od_trace = [], od_boots = []\<rparr>"

definition demo_os :: os_answers where
  "demo_os = \<lparr>os_open = 3, os_ioctl = \<lambda>_. 0, os_mmap = 0x7F0000000000, os_alloc_tx = True, os_alloc_rx = True, os_thread = 0\<rparr>"

definition demo_oa_ve :: "ov_ext venv" where
  "demo_oa_ve = \<lparr>ve_build = default_build, ve_rx_empty_notify = True, ve_func = None,
     ve_notify_wait = \<lambda>_ (m, v). (0, m, v), ve_peer = \<lambda>x. x, ve_junk = replicate 32 0,
     ve_ns_callback = 0xA00, ve_rx_callback = 0xB00, ve_tx_callback = 0xC00, ve_ns_ept = 0x100, ve_self = 0x80\<rparr>"

lemma demo_layout:
  assumes "od_shm_vaddr d = 0x7F0000000000" and "od_vdev_status_size d = 0x1000" and "od_align_size d = 0x1000"
    and "od_tx_num d = 16" and "od_rx_num d = 16"
  shows "od_vring_tx (dev_layout d) = 0x7F0000001000" "od_vring_rx (dev_layout d) = 0x7F0000002000"
    "od_vring_buf (dev_layout d) = 0x7F0000003000"
proof -
  have a: "ALIGN 0x7F0000001000 0x1000 = 0x7F0000001000" "ALIGN 0x7F0000001220 0x1000 = 0x7F0000002000"
    "ALIGN 0x7F0000002220 0x1000 = 0x7F0000003000" by code_simp+
  show tx: "od_vring_tx (dev_layout d) = 0x7F0000001000" using assms a(1) by (simp add: layout_fields(7))
  show rx: "od_vring_rx (dev_layout d) = 0x7F0000002000" using assms a(2) tx by (simp add: layout_fields(8))
  show "od_vring_buf (dev_layout d) = 0x7F0000003000" using assms a(3) rx by (simp add: layout_fields(9))
qed

definition app1 :: openamp_virtio_device where
  "app1 = snd (dev_connect demo_os app_dev)"

lemma app1_fields:
  "dev_connect demo_os app_dev = (None, app1)" "od_shm_vaddr app1 = 0x7F0000000000" "od_vdev_status_size app1 = 0x1000"
  "od_align_size app1 = 0x1000" "od_tx_num app1 = 16" "od_rx_num app1 = 16" "od_shm_size app1 = 0x10000"
  by (simp_all add: app1_def dev_connect_def dev_ioctl_def demo_os_def app_dev_def Let_def)

lemmas app1_layout = demo_layout [OF app1_fields(2-6)]

lemma demo_os_ok: "os_ok demo_os"
  by (simp add: os_ok_def demo_os_def)

lemma app1_memory: "layout_pre app1" "memory_ok app1"
proof -
  have "\<exists>k. (4096 :: nat) = 2 ^ k" by (rule exI [of _ 12]) simp
  moreover have "\<exists>k. (16 :: nat) = 2 ^ k" by (rule exI [of _ 4]) simp
  ultimately show "layout_pre app1" "memory_ok app1"
    by (simp_all add: layout_pre_def memory_ok_def app1_fields app1_layout)
qed

theorem dev_layout_disjoint_witness:
  "unat (od_vring_buf (dev_layout app1)) + unat (od_vring_size (dev_layout app1)) = unat (od_shm_vaddr app1) + unat (od_shm_size app1)"
  using dev_layout_disjoint [OF app1_memory(1)] by (simp add: app1_fields app1_layout)

theorem dev_region_overshoots_witness:
  "unat (od_shm_vaddr app1) + unat (od_shm_size app1) < unat (io_virt (od_io_region (dev_layout app1))) + unat (io_size (od_io_region (dev_layout app1)))
    \<and> metal_io_virt (od_io_region (dev_layout app1)) 0xD000 = 0x7F0000010000"
  using dev_region_overshoots [OF app1_memory(1)] by (simp add: app1_fields app1_layout)

theorem dev_create_ready_witness:
  "\<exists>d' rx. openamp_dev_create True demo_os demo_oa_ve app_dev = Some (Returned 0, d') \<and> openamp_dev_get d' = Some d'
    \<and> get_vq (Some 0) (od_rvdev d') = Some rx
    \<and> rx_filled 16 (map (\<lambda>j. 0x8000000099000000 + (od_vring_buf d' - od_shm_vaddr d') + of_nat j * 512) [0..<16]) 0xB00 rx
    \<and> rd_endpoints (od_rvdev d') = [0x100] \<and> ov_status (rv_vdev (od_rvdev d')) = VIRTIO_CONFIG_STATUS_DRIVER_OK"
proof -
  have p: "dev_params_ok app_dev" "vd_vrings_info (rv_vdev (od_rvdev app_dev)) = [zero_vring, zero_vring]"
    "VIRTIO_DRIVER_SUPPORT (ve_build demo_oa_ve)" "ve_ns_ept demo_oa_ve \<noteq> NULL"
    by (simp_all add: dev_params_ok_def app_dev_def zero_rvdev_def zero_vdev_def demo_oa_ve_def default_build_def)
  have f: "unat (od_tx_num app_dev) = 16" "od_shm_physaddr app_dev = 0x8000000099000000" "ve_rx_callback demo_oa_ve = 0xB00"
    "ve_ns_ept demo_oa_ve = 0x100" by (simp_all add: app_dev_def demo_oa_ve_def)
  show ?thesis
    using dev_create_ready [OF p(1) demo_os_ok app1_fields(1) app1_memory(2) p(2-4)] unfolding f by blast
qed

lemma demo_created:
  obtains d' vq rm q1 where "openamp_dev_create True demo_os demo_oa_ve app_dev = Some (Returned 0, d')" "openamp_dev_get d' = Some d'"
    "rpmsg_virtio_get_role (od_rvdev d') = VIRTIO_DEV_DRIVER" "get_vq (Some 0) (od_rvdev d') = Some (vq, rm)"
    "vq_callback vq = ve_rx_callback demo_oa_ve" "get_vq (Some 1) (od_rvdev d') = Some q1" "od_vq_live d' = {0, 1}"
    "od_fd d' = 3" "od_shm_vaddr d' = 0x7F0000000000"
proof -
  have p: "dev_params_ok app_dev" "vd_vrings_info (rv_vdev (od_rvdev app_dev)) = [zero_vring, zero_vring]"
    "VIRTIO_DRIVER_SUPPORT (ve_build demo_oa_ve)" "ve_ns_ept demo_oa_ve \<noteq> NULL"
    by (simp_all add: dev_params_ok_def app_dev_def zero_rvdev_def zero_vdev_def demo_oa_ve_def default_build_def)
  obtain d' rx tx where d: "openamp_dev_create True demo_os demo_oa_ve app_dev = Some (Returned 0, d')" "openamp_dev_get d' = Some d'"
    "rpmsg_virtio_get_role (od_rvdev d') = VIRTIO_DEV_DRIVER" "get_vq (Some 0) (od_rvdev d') = Some rx"
    "\<exists>n pas. rx_filled n pas (ve_rx_callback demo_oa_ve) rx" "get_vq (Some 1) (od_rvdev d') = Some tx" "od_vq_live d' = {0, 1}"
    "od_fd d' = os_open demo_os" "od_shm_vaddr d' = os_mmap demo_os"
    using create_ready [OF p(1) demo_os_ok app1_fields(1) app1_memory(2) p(2-4)] by blast
  obtain vq rm where rx: "rx = (vq, rm)" by fastforce
  have "vq_callback vq = ve_rx_callback demo_oa_ve" using d(5) rx by (auto simp: rx_filled_def)
  then show thesis using that [OF d(1-3) _ _ d(6,7)] d(4,8,9) rx by (simp add: demo_os_def)
qed

theorem poll_serves_receive_queue_witness:
  "\<exists>d. openamp_dev_create True demo_os demo_oa_ve app_dev = Some (Returned 0, d)
    \<and> (\<forall>app. openamp_pthread_entry demo_oa_ve app [(1, True)] d
          = map_option (\<lambda>rv. d\<lparr>od_rvdev := rv\<rparr>) (rpmsg_virtio_rx_callback demo_oa_ve app (od_rvdev d))
        \<and> openamp_pthread_entry demo_oa_ve app [(- 1, False), (1, True)] d = Some d)"
proof -
  obtain d vq rm where d: "openamp_dev_create True demo_os demo_oa_ve app_dev = Some (Returned 0, d)"
    "rpmsg_virtio_get_role (od_rvdev d) = VIRTIO_DEV_DRIVER" "get_vq (Some 0) (od_rvdev d) = Some (vq, rm)"
    "vq_callback vq = ve_rx_callback demo_oa_ve" by (rule demo_created)
  have nz: "ve_rx_callback demo_oa_ve \<noteq> NULL" by (simp add: demo_oa_ve_def)
  show ?thesis
    using d(1) poll_serves_receive_queue [OF d(2-4) nz, of 1 "- 1" _ "[]" False "[(1, True)]"]
    by (intro exI [of _ d]) (simp add: openamp_pthread_entry_def)
qed

theorem delete_forgets_nothing_witness:
  "\<exists>d d'. openamp_dev_create True demo_os demo_oa_ve app_dev = Some (Returned 0, d)
    \<and> openamp_dev_delete (Some d) = Some (0, Some d') \<and> openamp_dev_get d' = Some d' \<and> openamp_dev_delete (Some d') = None"
proof -
  obtain d vq rm q1 where d: "openamp_dev_create True demo_os demo_oa_ve app_dev = Some (Returned 0, d)" "openamp_dev_get d = Some d"
    "get_vq (Some 0) (od_rvdev d) = Some (vq, rm)" "get_vq (Some 1) (od_rvdev d) = Some q1" "od_vq_live d = {0, 1}"
    "od_fd d = 3" "od_shm_vaddr d = 0x7F0000000000" by (rule demo_created)
  then show ?thesis using delete_forgets_nothing [OF d(3-5) _ _ d(2)] by auto
qed

end
