(* ===== verification/Sysfs_Dlist.thy ===== *)
theory Sysfs_Dlist
  imports Metal_List
begin

text \<open>
  \<^verbatim>\<open>src/openamp/sysfsutils/lib/dlist.c\<close>: doubly linked lists with a marker, which the sysfs library keeps its
  attributes, devices and drivers in. Nodes live in a memory that maps addresses to allocated nodes; the head of a
  list is a node inside the list structure. A list argument is a list: the tests for a NULL list are not modelled.
  \<open>alloc\<close> is the address \<open>malloc\<close> returns, or NULL; \<open>dm_deleted\<close> keeps the data the delete function was called on.
  What a list represents is stated with the circular lists of \<open>Metal_List\<close>; that sorting sorts is proved in
  \<open>Sysfs_Sort\<close>.
\<close>

section \<open>Data\<close>

record dl_node =
  dn_prev :: addr
  dn_next :: addr
  dn_data :: addr

record dl_mem =
  dm_node :: "addr \<Rightarrow> dl_node option"
  dm_deleted :: "addr list"

record dlist =
  dl_marker :: addr
  dl_count :: u64
  dl_data_size :: u64
  dl_del_func :: addr
  dl_head :: addr

abbreviation (input) FREE_FUNC :: addr where "FREE_FUNC \<equiv> 0xF00"

definition node :: "dl_mem \<Rightarrow> addr \<Rightarrow> dl_node option" where
  "node h p = (if p = NULL then None else dm_node h p)"

definition put_next :: "addr \<Rightarrow> addr \<Rightarrow> dl_mem \<Rightarrow> dl_mem option" where
  "put_next p v h = do {
     n \<leftarrow> node h p;
     Some (h\<lparr>dm_node := (dm_node h)(p \<mapsto> n\<lparr>dn_next := v\<rparr>)\<rparr>)
   }"

definition put_prev :: "addr \<Rightarrow> addr \<Rightarrow> dl_mem \<Rightarrow> dl_mem option" where
  "put_prev p v h = do {
     n \<leftarrow> node h p;
     Some (h\<lparr>dm_node := (dm_node h)(p \<mapsto> n\<lparr>dn_prev := v\<rparr>)\<rparr>)
   }"

text \<open>\<open>free\<close> of a node; the head node is part of the list and cannot be freed alone.\<close>

definition dl_free :: "dlist \<Rightarrow> addr \<Rightarrow> dl_mem \<Rightarrow> dl_mem option" where
  "dl_free l p h = do {
     n \<leftarrow> node h p;
     require (p \<noteq> dl_head l);
     Some (h\<lparr>dm_node := (dm_node h)(p := None)\<rparr>)
   }"

definition del_func :: "addr \<Rightarrow> dl_mem \<Rightarrow> dl_mem" where
  "del_func data h = h\<lparr>dm_deleted := dm_deleted h @ [data]\<rparr>"

section \<open>The marker\<close>

definition dlist_mark :: "dl_mem \<Rightarrow> dlist \<Rightarrow> addr option" where
  "dlist_mark h l = (if dl_marker l \<noteq> NULL then map_option dn_data (node h (dl_marker l)) else Some NULL)"

definition dlist_start :: "dlist \<Rightarrow> dlist" where
  "dlist_start l = l\<lparr>dl_marker := dl_head l\<rparr>"

definition dlist_end :: "dlist \<Rightarrow> dlist" where
  "dlist_end l = l\<lparr>dl_marker := dl_head l\<rparr>"

definition dlist_mark_move :: "dl_mem \<Rightarrow> dlist \<Rightarrow> bool \<Rightarrow> (addr \<times> dlist) option" where
  "dlist_mark_move h l direction =
     (if dl_marker l = NULL then Some (NULL, l)
      else do {
        m \<leftarrow> node h (dl_marker l);
        let to = (if direction then dn_next m else dn_prev m);
        if to = NULL then Some (NULL, l)
        else do {
          let l1 = l\<lparr>dl_marker := to\<rparr>;
          if dl_marker l1 \<noteq> dl_head l1 then do {
            n \<leftarrow> node h (dl_marker l1);
            Some (dn_data n, l1)
          } else Some (NULL, l1)
        }
      })"

abbreviation (input) dlist_next :: "dl_mem \<Rightarrow> dlist \<Rightarrow> (addr \<times> dlist) option" where
  "dlist_next h l \<equiv> dlist_mark_move h l True"

section \<open>Creating a list\<close>

definition dlist_new :: "addr \<Rightarrow> u64 \<Rightarrow> dl_mem \<Rightarrow> dlist option \<times> dl_mem" where
  "dlist_new alloc datasize h =
     (if alloc = NULL then (None, h)
      else (Some \<lparr>dl_marker = NULL, dl_count = 0, dl_data_size = datasize, dl_del_func = FREE_FUNC, dl_head = alloc\<rparr>,
            h\<lparr>dm_node := (dm_node h)(alloc \<mapsto> \<lparr>dn_prev = NULL, dn_next = NULL, dn_data = NULL\<rparr>)\<rparr>))"

definition dlist_new_with_delete :: "addr \<Rightarrow> u64 \<Rightarrow> addr \<Rightarrow> dl_mem \<Rightarrow> dlist option \<times> dl_mem" where
  "dlist_new_with_delete alloc datasize delf h =
     (let (l, h1) = dlist_new alloc datasize h in (map_option (\<lambda>x. x\<lparr>dl_del_func := delf\<rparr>) l, h1))"

section \<open>Unlinking and linking a node\<close>

text \<open>The pointers of the head, if they point to the node, and then those of its neighbours.\<close>

definition fix_head :: "dlist \<Rightarrow> addr \<Rightarrow> dl_mem \<Rightarrow> dl_mem option" where
  "fix_head l p h = do {
     hd1 \<leftarrow> node h (dl_head l);
     h1 \<leftarrow> (if dn_next hd1 = p then do { n \<leftarrow> node h p; put_next (dl_head l) (dn_next n) h } else Some h);
     hd2 \<leftarrow> node h1 (dl_head l);
     (if dn_prev hd2 = p then do { n \<leftarrow> node h1 p; put_prev (dl_head l) (dn_prev n) h1 } else Some h1)
   }"

definition bridge :: "addr \<Rightarrow> dl_mem \<Rightarrow> dl_mem option" where
  "bridge p h = do {
     n1 \<leftarrow> node h p;
     h1 \<leftarrow> (if dn_prev n1 \<noteq> NULL then put_next (dn_prev n1) (dn_next n1) h else Some h);
     n2 \<leftarrow> node h1 p;
     (if dn_next n2 \<noteq> NULL then put_prev (dn_next n2) (dn_prev n2) h1 else Some h1)
   }"

text \<open>The three ways to put a node into a list: the first one, after the marker, before the marker.\<close>

definition link_node :: "dlist \<Rightarrow> addr \<Rightarrow> bool \<Rightarrow> dl_mem \<Rightarrow> dl_mem option" where
  "link_node l p direction h = do {
     hd1 \<leftarrow> node h (dl_head l);
     if dn_next hd1 = NULL then do {
       h1 \<leftarrow> put_prev (dl_head l) p h;
       h2 \<leftarrow> put_next (dl_head l) p h1;
       h3 \<leftarrow> put_prev p (dl_head l) h2;
       put_next p (dl_head l) h3
     } else if direction then do {
       m \<leftarrow> node h (dl_marker l);
       h1 \<leftarrow> put_next p (dn_next m) h;
       h2 \<leftarrow> put_prev p (dl_marker l) h1;
       m2 \<leftarrow> node h2 (dl_marker l);
       h3 \<leftarrow> put_prev (dn_next m2) p h2;
       put_next (dl_marker l) p h3
     } else do {
       m \<leftarrow> node h (dl_marker l);
       h1 \<leftarrow> put_prev p (dn_prev m) h;
       h2 \<leftarrow> put_next p (dl_marker l) h1;
       m2 \<leftarrow> node h2 (dl_marker l);
       h3 \<leftarrow> put_next (dn_prev m2) p h2;
       put_prev (dl_marker l) p h3
     }
   }"

definition mark_or_head :: "dlist \<Rightarrow> dlist" where
  "mark_or_head l = (if dl_marker l = NULL then l\<lparr>dl_marker := dl_head l\<rparr> else l)"

section \<open>Inserting and removing\<close>

definition dlist_delete :: "dlist \<Rightarrow> bool \<Rightarrow> dl_mem \<Rightarrow> (dlist \<times> dl_mem) option" where
  "dlist_delete l direction h =
     (if dl_marker l \<noteq> dl_head l \<and> dl_marker l \<noteq> NULL then do {
        let corpse = dl_marker l;
        (_, l1) \<leftarrow> dlist_mark_move h l direction;
        h1 \<leftarrow> fix_head l1 corpse h;
        h2 \<leftarrow> bridge corpse h1;
        n \<leftarrow> node h2 corpse;
        let h3 = del_func (dn_data n) h2;
        let l2 = l1\<lparr>dl_count := dl_count l1 - 1\<rparr>;
        h4 \<leftarrow> dl_free l2 corpse h3;
        Some (l2, h4)
      } else Some (l, h))"

definition dlist_insert :: "addr \<Rightarrow> dlist \<Rightarrow> addr \<Rightarrow> bool \<Rightarrow> dl_mem \<Rightarrow> (addr \<times> dlist \<times> dl_mem) option" where
  "dlist_insert alloc l data direction h =
     (if data = NULL then Some (NULL, l, h)
      else do {
        let l1 = mark_or_head l;
        if alloc = NULL then Some (NULL, l1, h)
        else do {
          let h1 = h\<lparr>dm_node := (dm_node h)(alloc \<mapsto> \<lparr>dn_prev = NULL, dn_next = NULL, dn_data = data\<rparr>)\<rparr>;
          let l2 = l1\<lparr>dl_count := dl_count l1 + 1\<rparr>;
          h2 \<leftarrow> link_node l2 alloc direction h1;
          let l3 = l2\<lparr>dl_marker := alloc\<rparr>;
          n \<leftarrow> node h2 (dl_marker l3);
          Some (dn_data n, l3, h2)
        }
      })"

definition dlist_insert_dlnode :: "dlist \<Rightarrow> addr \<Rightarrow> bool \<Rightarrow> dl_mem \<Rightarrow> (addr \<times> dlist \<times> dl_mem) option" where
  "dlist_insert_dlnode l p direction h =
     (if p = NULL then Some (NULL, l, h)
      else do {
        let l1 = mark_or_head l;
        let l2 = l1\<lparr>dl_count := dl_count l1 + 1\<rparr>;
        h1 \<leftarrow> link_node l2 p direction h;
        let l3 = l2\<lparr>dl_marker := p\<rparr>;
        Some (dl_marker l3, l3, h1)
      })"

definition dlist_remove :: "dlist \<Rightarrow> addr \<Rightarrow> bool \<Rightarrow> dl_mem \<Rightarrow> (addr \<times> dlist \<times> dl_mem) option" where
  "dlist_remove l killme direction h =
     (if killme \<noteq> NULL then do {
        n \<leftarrow> node h killme;
        let killer_data = dn_data n;
        l1 \<leftarrow> (if dl_marker l = killme then map_option snd (dlist_mark_move h l direction) else Some l);
        h1 \<leftarrow> fix_head l1 killme h;
        h2 \<leftarrow> bridge killme h1;
        let l2 = l1\<lparr>dl_count := dl_count l1 - 1\<rparr>;
        h3 \<leftarrow> dl_free l2 killme h2;
        Some (killer_data, l2, h3)
      } else Some (NULL, l, h))"

text \<open>Taking a node out of the list it moves from. The last node leaves a list without links.\<close>

definition detach :: "dlist \<Rightarrow> addr \<Rightarrow> dl_mem \<Rightarrow> dl_mem option" where
  "detach s1 target h1 = (if dl_count s1 = 1 then do {
       h2 \<leftarrow> put_prev target NULL h1;
       h3 \<leftarrow> put_next target NULL h2;
       h3' \<leftarrow> put_next (dl_head s1) NULL h3;
       put_prev (dl_head s1) NULL h3'
     } else do {
       h2 \<leftarrow> bridge target h1;
       h3 \<leftarrow> put_prev target NULL h2;
       put_next target NULL h3
     })"

definition dlist_move ::
  "dlist \<Rightarrow> dlist \<Rightarrow> addr \<Rightarrow> bool \<Rightarrow> dl_mem \<Rightarrow> (dlist \<times> dlist \<times> dl_mem) option" where
  "dlist_move source dest target direction h =
     (if target = NULL \<or> target = dl_head source then Some (source, dest, h)
      else do {
        s1 \<leftarrow> (if dl_marker source = target then map_option snd (dlist_mark_move h source direction) else Some source);
        h1 \<leftarrow> fix_head s1 target h;
        h4 \<leftarrow> detach s1 target h1;
        let s2 = s1\<lparr>dl_count := dl_count s1 - 1\<rparr>;
        (_, d1, h5) \<leftarrow> dlist_insert_dlnode dest target direction h4;
        Some (s2, d1, h5)
      })"

definition dlist_push :: "addr \<Rightarrow> dlist \<Rightarrow> addr \<Rightarrow> dl_mem \<Rightarrow> (dlist \<times> dl_mem) option" where
  "dlist_push alloc l data h = do {
     hd1 \<leftarrow> node h (dl_head l);
     map_option snd (dlist_insert alloc (l\<lparr>dl_marker := dn_prev hd1\<rparr>) data True h)
   }"

definition dlist_unshift :: "addr \<Rightarrow> dlist \<Rightarrow> addr \<Rightarrow> dl_mem \<Rightarrow> (dlist \<times> dl_mem) option" where
  "dlist_unshift alloc l data h = do {
     hd1 \<leftarrow> node h (dl_head l);
     map_option snd (dlist_insert alloc (l\<lparr>dl_marker := dn_next hd1\<rparr>) data False h)
   }"

definition dlist_pop :: "dlist \<Rightarrow> dl_mem \<Rightarrow> (addr \<times> dlist \<times> dl_mem) option" where
  "dlist_pop l h = do {
     hd1 \<leftarrow> node h (dl_head l);
     dlist_remove l (dn_prev hd1) False h
   }"

definition dlist_shift :: "dlist \<Rightarrow> dl_mem \<Rightarrow> (addr \<times> dlist \<times> dl_mem) option" where
  "dlist_shift l h = do {
     hd1 \<leftarrow> node h (dl_head l);
     dlist_remove l (dn_next hd1) True h
   }"

text \<open>The delete function may be anything, so nothing bounds the loop but the nodes of the list.\<close>

partial_function (option) destroy_loop :: "dlist \<Rightarrow> dl_mem \<Rightarrow> (dlist \<times> dl_mem) option" where
  "destroy_loop l h =
     Option.bind (dlist_mark h l) (\<lambda>data.
       if data = NULL then Some (l, h)
       else Option.bind (dlist_delete l True h) (\<lambda>(l1, h1). destroy_loop l1 h1))"

definition dlist_destroy :: "dlist \<Rightarrow> dl_mem \<Rightarrow> dl_mem option" where
  "dlist_destroy l h = do {
     (_, l1) \<leftarrow> dlist_next h (dlist_start l);
     (l2, h1) \<leftarrow> destroy_loop l1 h;
     Some (h1\<lparr>dm_node := (dm_node h1)(dl_head l2 := None)\<rparr>)
   }"

section \<open>Searching and ordering\<close>

partial_function (option) find_from :: "(addr \<Rightarrow> addr \<Rightarrow> bool) \<Rightarrow> addr \<Rightarrow> dlist \<Rightarrow> dl_mem \<Rightarrow> addr \<Rightarrow> addr option" where
  "find_from eqf target l h p =
     (if p = dl_head l then Some NULL
      else Option.bind (node h p) (\<lambda>n.
        if eqf target (dn_data n) then Some (dn_data n) else find_from eqf target l h (dn_next n)))"

definition dlist_find_custom :: "(addr \<Rightarrow> addr \<Rightarrow> bool) \<Rightarrow> addr \<Rightarrow> dlist \<Rightarrow> dl_mem \<Rightarrow> addr option" where
  "dlist_find_custom eqf target l h = do {
     hd1 \<leftarrow> node h (dl_head l);
     find_from eqf target l h (dn_next hd1)
   }"

text \<open>\<open>op\<close> is applied to the data, not to the nodes; what it is applied to, in order.\<close>

partial_function (option) transform_from :: "dlist \<Rightarrow> dl_mem \<Rightarrow> addr \<Rightarrow> addr list option" where
  "transform_from l h p =
     (if p = dl_head l then Some []
      else Option.bind (node h p) (\<lambda>n. Option.bind (transform_from l h (dn_next n)) (\<lambda>ds. Some (dn_data n # ds))))"

definition dlist_transform :: "dlist \<Rightarrow> dl_mem \<Rightarrow> addr list option" where
  "dlist_transform l h = do {
     hd1 \<leftarrow> node h (dl_head l);
     transform_from l h (dn_next hd1)
   }"

partial_function (option) sorted_place ::
  "(addr \<Rightarrow> addr \<Rightarrow> bool) \<Rightarrow> addr \<Rightarrow> dl_mem \<Rightarrow> dlist \<Rightarrow> dlist option" where
  "sorted_place sorter data h l =
     (if dl_marker l = dl_head l then Some l
      else Option.bind (node h (dl_marker l)) (\<lambda>n.
        if sorter data (dn_data n) then Some l
        else Option.bind (dlist_next h l) (\<lambda>(_, l1). sorted_place sorter data h l1)))"

definition dlist_insert_sorted ::
  "addr \<Rightarrow> dlist \<Rightarrow> addr \<Rightarrow> (addr \<Rightarrow> addr \<Rightarrow> bool) \<Rightarrow> dl_mem \<Rightarrow> (addr \<times> dlist \<times> dl_mem) option" where
  "dlist_insert_sorted alloc l data sorter h = do {
     (_, l1) \<leftarrow> dlist_next h (dlist_start l);
     l2 \<leftarrow> sorted_place sorter data h l1;
     dlist_insert alloc l2 data False h
   }"

definition dlist_unshift_sorted ::
  "addr \<Rightarrow> dlist \<Rightarrow> addr \<Rightarrow> (addr \<Rightarrow> addr \<Rightarrow> bool) \<Rightarrow> dl_mem \<Rightarrow> (dlist \<times> dl_mem) option" where
  "dlist_unshift_sorted alloc l data sorter h =
     (if dl_count l = 0 then dlist_unshift alloc l data h
      else do {
        hd1 \<leftarrow> node h (dl_head l);
        map_option snd (dlist_insert_sorted alloc (l\<lparr>dl_marker := dn_next hd1\<rparr>) data sorter h)
      })"

definition dlist_swap :: "addr \<Rightarrow> addr \<Rightarrow> dl_mem \<Rightarrow> dl_mem option" where
  "dlist_swap a b h = do {
     na \<leftarrow> node h a;
     nb \<leftarrow> node h b;
     let h1 = h\<lparr>dm_node := (dm_node h)(a \<mapsto> na\<lparr>dn_data := dn_data nb\<rparr>)\<rparr>;
     nb1 \<leftarrow> node h1 b;
     Some (h1\<lparr>dm_node := (dm_node h1)(b \<mapsto> nb1\<lparr>dn_data := dn_data na\<rparr>)\<rparr>)
   }"

section \<open>Merge sort\<close>

text \<open>The loops of \<open>_dlist_merge\<close>, from the innermost outwards. Counters are \<open>unsigned int\<close>.\<close>

partial_function (option) skip_run :: "dl_mem \<Rightarrow> addr \<Rightarrow> u32 \<Rightarrow> u32 \<Rightarrow> addr \<Rightarrow> (u32 \<times> addr) option" where
  "skip_run h head passcount l1count l2head =
     (if l1count < passcount \<and> l2head \<noteq> head
      then Option.bind (node h l2head) (\<lambda>n. skip_run h head passcount (l1count + 1) (dn_next n))
      else Some (l1count, l2head))"

partial_function (option) rest_l1 ::
  "u32 \<Rightarrow> addr \<Rightarrow> dlist \<times> dlist \<times> dl_mem \<Rightarrow> (addr \<times> dlist \<times> dlist \<times> dl_mem) option" where
  "rest_l1 l1count l1head s =
     (if 0 < l1count
      then (case s of (src, dst, h) \<Rightarrow> Option.bind (node h l1head) (\<lambda>n.
        Option.bind (dlist_move src dst l1head True h) (\<lambda>s1. rest_l1 (l1count - 1) (dn_next n) s1)))
      else Some (l1head, s))"

partial_function (option) rest_l2 ::
  "u32 \<Rightarrow> addr \<Rightarrow> dlist \<times> dlist \<times> dl_mem \<Rightarrow> (addr \<times> dlist \<times> dlist \<times> dl_mem) option" where
  "rest_l2 l2count l2head s =
     (if 0 < l2count
      then (case s of (src, dst, h) \<Rightarrow>
        if l2head = dl_head src then Some (l2head, s)
        else Option.bind (node h l2head) (\<lambda>n.
          Option.bind (dlist_move src dst l2head True h) (\<lambda>s1. rest_l2 (l2count - 1) (dn_next n) s1)))
      else Some (l2head, s))"

partial_function (option) merge_runs ::
  "(addr \<Rightarrow> addr \<Rightarrow> int) \<Rightarrow> u32 \<Rightarrow> u32 \<Rightarrow> addr \<Rightarrow> addr \<Rightarrow> u32 \<Rightarrow> dlist \<times> dlist \<times> dl_mem \<Rightarrow>
   (u32 \<times> dlist \<times> dlist \<times> dl_mem) option" where
  "merge_runs cmpf l1count l2count l1head l2head mergecount s =
     (if 0 < l1count \<or> 0 < l2count
      then (case s of (src, dst, h) \<Rightarrow>
        if 0 < l2count \<and> 0 < l1count
        then Option.bind (node h l1head) (\<lambda>n1. Option.bind (node h l2head) (\<lambda>n2.
          if 0 < cmpf (dn_data n1) (dn_data n2)
          then Option.bind (dlist_move src dst l2head True h) (\<lambda>s1.
            merge_runs cmpf l1count (if dn_next n2 = dl_head (fst s1) then 0 else l2count - 1) l1head (dn_next n2) (mergecount + 1) s1)
          else Option.bind (dlist_move src dst l1head True h) (\<lambda>s1.
            merge_runs cmpf (l1count - 1) l2count (dn_next n1) l2head (mergecount + 1) s1)))
        else if 0 < l1count
        then Option.bind (rest_l1 l1count l1head s) (\<lambda>(l1h, s1). merge_runs cmpf 0 l2count l1h l2head (mergecount + 1) s1)
        else Option.bind (rest_l2 l2count l2head s) (\<lambda>(l2h, s1). merge_runs cmpf l1count 0 l1head l2h (mergecount + 1) s1))
      else Some (mergecount, s))"

partial_function (option) merge_pass ::
  "(addr \<Rightarrow> addr \<Rightarrow> int) \<Rightarrow> u32 \<Rightarrow> u32 \<Rightarrow> dlist \<times> dlist \<times> dl_mem \<Rightarrow> (u32 \<times> dlist \<times> dlist \<times> dl_mem) option" where
  "merge_pass cmpf passcount mergecount s =
     (case s of (src, dst, h) \<Rightarrow>
        if 0 < dl_count src
        then Option.bind (node h (dl_head src)) (\<lambda>hd1.
          Option.bind (skip_run h (dl_head src) passcount 0 (dn_next hd1)) (\<lambda>(l1count, l2head).
          Option.bind (merge_runs cmpf l1count (if l2head = dl_head src then 0 else passcount) (dn_next hd1) l2head mergecount s)
            (\<lambda>(mc, s1). merge_pass cmpf passcount mc s1)))
        else Some (mergecount, s))"

definition dlist_merge ::
  "(addr \<Rightarrow> addr \<Rightarrow> int) \<Rightarrow> u32 \<Rightarrow> dlist \<times> dlist \<times> dl_mem \<Rightarrow> (u32 \<times> dlist \<times> dlist \<times> dl_mem) option" where
  "dlist_merge cmpf passcount s = merge_pass cmpf passcount 0 s"

text \<open>\<open>swapped\<close> tells whether the source of the next pass is the temporary list.\<close>

partial_function (option) sort_loop ::
  "(addr \<Rightarrow> addr \<Rightarrow> int) \<Rightarrow> u32 \<Rightarrow> bool \<Rightarrow> dlist \<times> dlist \<times> dl_mem \<Rightarrow> (bool \<times> dlist \<times> dlist \<times> dl_mem) option" where
  "sort_loop cmpf passcount swapped s =
     Option.bind (dlist_merge cmpf passcount s) (\<lambda>(mergecount, src, dst, h).
       if mergecount = 0 then Some (swapped, src, dst, h)
       else if 1 < mergecount then sort_loop cmpf (passcount * 2) (\<not> swapped) (dst, src, h)
       else sort_loop cmpf passcount swapped (src, dst, h))"

text \<open>The end of the sort: when the nodes are in the temporary list its ends are hung onto the head of the list.\<close>

definition adopt :: "dlist \<Rightarrow> dlist \<Rightarrow> dlist \<Rightarrow> dl_mem \<Rightarrow> (dlist \<times> dlist \<times> dl_mem) option" where
  "adopt l dst temp h = do {
     hd1 \<leftarrow> node h (dl_head dst);
     hl \<leftarrow> node h (dl_head l);
     let l1 = l\<lparr>dl_marker := dl_marker dst, dl_count := dl_count dst, dl_data_size := dl_data_size dst,
                dl_del_func := dl_del_func dst\<rparr>;
     let h1 = h\<lparr>dm_node := (dm_node h)(dl_head l \<mapsto> hl\<lparr>dn_prev := dn_prev hd1, dn_next := dn_next hd1, dn_data := dn_data hd1\<rparr>)\<rparr>;
     hl1 \<leftarrow> node h1 (dl_head l);
     h2 \<leftarrow> put_prev (dn_next hl1) (dl_head l) h1;
     hl2 \<leftarrow> node h2 (dl_head l);
     h3 \<leftarrow> put_next (dn_prev hl2) (dl_head l) h2;
     h4 \<leftarrow> put_next (dl_head temp) NULL h3;
     h5 \<leftarrow> put_prev (dl_head temp) NULL h4;
     Some (l1, temp\<lparr>dl_count := 0\<rparr>, h5)
   }"

text \<open>Which of the two lists is the list itself, and which one the temporary list to destroy.\<close>

definition sort_finish :: "bool \<Rightarrow> dlist \<Rightarrow> dlist \<Rightarrow> dl_mem \<Rightarrow> (dlist \<times> dl_mem) option" where
  "sort_finish swapped src dst h = do {
     let (l, temp) = (if swapped then (dst, src) else (src, dst));
     (l1, temp1, h1) \<leftarrow> (if dl_count l = 0 then adopt l dst temp h else Some (l, temp, h));
     h2 \<leftarrow> dlist_destroy temp1 h1;
     Some (l1, h2)
   }"

definition dlist_sort_custom ::
  "(addr \<Rightarrow> addr \<Rightarrow> int) \<Rightarrow> addr \<Rightarrow> dlist \<Rightarrow> dl_mem \<Rightarrow> (dlist \<times> dl_mem) option" where
  "dlist_sort_custom cmpf alloc l h =
     (if dl_count l < 2 then Some (l, h)
      else do {
        let l1 = dlist_start l;
        let (t, h1) = dlist_new alloc (dl_data_size l1) h;
        temp \<leftarrow> t;
        let temp1 = temp\<lparr>dl_del_func := dl_del_func l1\<rparr>;
        (swapped, src, dst, h2) \<leftarrow> sort_loop cmpf 1 False (l1, temp1, h1);
        sort_finish swapped src dst h2
      })"

partial_function (option) filter_from ::
  "(addr \<Rightarrow> bool) \<Rightarrow> addr \<Rightarrow> dlist \<Rightarrow> dl_mem \<Rightarrow> (dlist \<times> dl_mem) option" where
  "filter_from flt p l h =
     (if p = dl_head l then Some (l, h)
      else Option.bind (node h p) (\<lambda>n.
        if flt (dn_data n) then filter_from flt (dn_next n) l h
        else Option.bind (dlist_remove l p False h) (\<lambda>(data, l1, h1).
          filter_from flt (dn_next n) l1 (if data \<noteq> NULL then del_func data h1 else h1))))"

definition dlist_filter_sort ::
  "(addr \<Rightarrow> bool) option \<Rightarrow> (addr \<Rightarrow> addr \<Rightarrow> int) \<Rightarrow> addr \<Rightarrow> dlist \<Rightarrow> dl_mem \<Rightarrow> (dlist \<times> dl_mem) option" where
  "dlist_filter_sort flt cmpf alloc l h =
     (if dl_count l = 0 then Some (l, h)
      else do {
        (l1, h1) \<leftarrow> (case flt of None \<Rightarrow> Some (l, h)
          | Some f \<Rightarrow> do { hd1 \<leftarrow> node h (dl_head l); filter_from f (dn_next hd1) l h });
        dlist_sort_custom cmpf alloc l1 h1
      })"

text \<open>The loops run.\<close>

declare destroy_loop.simps [code] find_from.simps [code] transform_from.simps [code] sorted_place.simps [code]
  skip_run.simps [code] rest_l1.simps [code] rest_l2.simps [code] merge_runs.simps [code] merge_pass.simps [code]
  sort_loop.simps [code] filter_from.simps [code]

section \<open>What a list represents\<close>

text \<open>The links and the data of the allocated nodes, apart.\<close>

definition links :: "dl_mem \<Rightarrow> nodes" where
  "links h p = (case dm_node h p of None \<Rightarrow> \<lparr>ml_next = NULL, ml_prev = NULL\<rparr>
     | Some n \<Rightarrow> \<lparr>ml_next = dn_next n, ml_prev = dn_prev n\<rparr>)"

definition data_at :: "dl_mem \<Rightarrow> addr \<Rightarrow> addr" where
  "data_at h p = (case dm_node h p of None \<Rightarrow> NULL | Some n \<Rightarrow> dn_data n)"

definition alive :: "dl_mem \<Rightarrow> addr \<Rightarrow> bool" where
  "alive h p = (p \<noteq> NULL \<and> dm_node h p \<noteq> None)"

text \<open>A list with nodes is a ring through its head; a list that never had a node has no links at all.\<close>

definition ring :: "dl_mem \<Rightarrow> addr \<Rightarrow> addr list \<Rightarrow> bool" where
  "ring h hd1 xs = (dll (links h) hd1 xs \<and> (\<forall>p \<in> set (hd1 # xs). alive h p))"

definition unlinked :: "dl_mem \<Rightarrow> addr \<Rightarrow> bool" where
  "unlinked h hd1 = (alive h hd1 \<and> links h hd1 = \<lparr>ml_next = NULL, ml_prev = NULL\<rparr>)"

definition shape :: "dl_mem \<Rightarrow> addr \<Rightarrow> addr list \<Rightarrow> bool" where
  "shape h hd1 xs = (ring h hd1 xs \<or> xs = [] \<and> unlinked h hd1)"

definition dl_ok :: "dl_mem \<Rightarrow> dlist \<Rightarrow> addr list \<Rightarrow> bool" where
  "dl_ok h l xs = (shape h (dl_head l) xs \<and> dl_count l = of_nat (length xs) \<and> length xs < 2 ^ 63
     \<and> dl_marker l \<in> set (NULL # dl_head l # xs) \<and> data_at h (dl_head l) = NULL \<and> (\<forall>p \<in> set xs. data_at h p \<noteq> NULL))"

definition upd_next :: "addr \<Rightarrow> addr \<Rightarrow> dl_mem \<Rightarrow> dl_mem" where
  "upd_next p v h = h\<lparr>dm_node := (dm_node h)(p := map_option (\<lambda>n. n\<lparr>dn_next := v\<rparr>) (dm_node h p))\<rparr>"

definition upd_prev :: "addr \<Rightarrow> addr \<Rightarrow> dl_mem \<Rightarrow> dl_mem" where
  "upd_prev p v h = h\<lparr>dm_node := (dm_node h)(p := map_option (\<lambda>n. n\<lparr>dn_prev := v\<rparr>) (dm_node h p))\<rparr>"

lemma node_alive: "alive h p \<Longrightarrow> node h p = Some \<lparr>dn_prev = ml_prev (links h p), dn_next = ml_next (links h p), dn_data = data_at h p\<rparr>"
  by (auto simp: alive_def node_def links_def data_at_def)

lemma alive_nz: "alive h p \<Longrightarrow> p \<noteq> NULL"
  by (simp add: alive_def)

lemma put_alive:
  "alive h p \<Longrightarrow> put_next p v h = Some (upd_next p v h)" "alive h p \<Longrightarrow> put_prev p v h = Some (upd_prev p v h)"
  by (auto simp: alive_def put_next_def put_prev_def node_def upd_next_def upd_prev_def)

lemma alive_upd [simp]: "alive (upd_next p v h) q = alive h q" "alive (upd_prev p v h) q = alive h q"
  by (auto simp: alive_def upd_next_def upd_prev_def)

lemma data_upd [simp]: "data_at (upd_next p v h) q = data_at h q" "data_at (upd_prev p v h) q = data_at h q"
  by (auto simp: data_at_def upd_next_def upd_prev_def split: option.splits)

lemma deleted_upd [simp]: "dm_deleted (upd_next p v h) = dm_deleted h" "dm_deleted (upd_prev p v h) = dm_deleted h"
  by (simp_all add: upd_next_def upd_prev_def)

lemma node_upd: "q \<noteq> p \<Longrightarrow> dm_node (upd_next p v h) q = dm_node h q" "q \<noteq> p \<Longrightarrow> dm_node (upd_prev p v h) q = dm_node h q"
  by (simp_all add: upd_next_def upd_prev_def)

lemma links_upd [simp]:
  "alive h p \<Longrightarrow> ml_next (links (upd_next p v h) q) = (if q = p then v else ml_next (links h q))"
  "ml_prev (links (upd_next p v h) q) = ml_prev (links h q)"
  "alive h p \<Longrightarrow> ml_prev (links (upd_prev p v h) q) = (if q = p then v else ml_prev (links h q))"
  "ml_next (links (upd_prev p v h) q) = ml_next (links h q)"
  by (auto simp: links_def upd_next_def upd_prev_def alive_def split: option.splits)

lemmas dl_run = node_alive put_alive

text \<open>What an operation on the nodes \<open>A\<close> leaves alone: other nodes, all data, which nodes exist.\<close>

definition frame :: "addr set \<Rightarrow> dl_mem \<Rightarrow> dl_mem \<Rightarrow> bool" where
  "frame A h h' = ((\<forall>p. alive h' p = alive h p) \<and> data_at h' = data_at h \<and> dm_deleted h' = dm_deleted h
     \<and> (\<forall>q. q \<notin> A \<longrightarrow> dm_node h' q = dm_node h q))"

lemma frame_refl: "frame A h h"
  by (simp add: frame_def)

lemma frame_trans: "frame A h h1 \<Longrightarrow> frame B h1 h2 \<Longrightarrow> A \<subseteq> C \<Longrightarrow> B \<subseteq> C \<Longrightarrow> frame C h h2"
  by (simp add: frame_def subset_iff) metis

lemma frame_upd: "p \<in> A \<Longrightarrow> frame A h (upd_next p v h)" "p \<in> A \<Longrightarrow> frame A h (upd_prev p v h)"
  by (auto simp: frame_def fun_eq_iff) (metis node_upd)+

lemma frame_outside: "frame A h h' \<Longrightarrow> q \<notin> A \<Longrightarrow> dm_node h' q = dm_node h q"
  by (simp add: frame_def)

lemma frame_step:
  "frame A h h1 \<Longrightarrow> p \<in> A \<Longrightarrow> frame A h (upd_next p v h1)" "frame A h h1 \<Longrightarrow> p \<in> A \<Longrightarrow> frame A h (upd_prev p v h1)"
  by (blast intro: frame_trans frame_upd)+

lemma frame_mono: "frame A h h' \<Longrightarrow> A \<subseteq> B \<Longrightarrow> frame B h h'"
  by (auto simp: frame_def)

lemma shape_cong:
  assumes "\<forall>q \<in> set (hd1 # xs). dm_node h' q = dm_node h q"
  shows "shape h' hd1 xs = shape h hd1 xs" "ring h' hd1 xs = ring h hd1 xs"
proof -
  have l: "links h' q = links h q" "alive h' q = alive h q" if "q \<in> set (hd1 # xs)" for q
    using bspec [OF assms that] by (simp_all add: links_def alive_def)
  have "seg (links h') hd1 xs hd1 = seg (links h) hd1 xs hd1" by (rule seg_cong) (use l in auto)
  then show "ring h' hd1 xs = ring h hd1 xs" using l by (auto simp: ring_def dll_def)
  then show "shape h' hd1 xs = shape h hd1 xs" using l by (auto simp: shape_def unlinked_def)
qed

lemma ring_ends:
  assumes "ring h hd1 xs"
  shows "ml_next (links h hd1) = hd (xs @ [hd1])" "ml_prev (links h hd1) = last (hd1 # xs)"
    "distinct (hd1 # xs)" "NULL \<notin> set (hd1 # xs)" "\<forall>p \<in> set (hd1 # xs). alive h p" "ml_next (links h hd1) \<noteq> NULL"
proof -
  show f: "ml_next (links h hd1) = hd (xs @ [hd1])" "ml_prev (links h hd1) = last (hd1 # xs)"
    "distinct (hd1 # xs)" "NULL \<notin> set (hd1 # xs)" "\<forall>p \<in> set (hd1 # xs). alive h p"
    using assms seg_next_first [of "links h" hd1 xs hd1] seg_prev_last [of "links h" hd1 xs hd1] by (auto simp: ring_def dll_def)
  show "ml_next (links h hd1) \<noteq> NULL" using f(1,4) by (cases xs) auto
qed

text \<open>The neighbours of a place and of a node in the ring.\<close>

lemma ring_place:
  assumes "ring h hd1 (us @ vs)"
  shows "ml_next (links h (last (hd1 # us))) = hd (vs @ [hd1])" "ml_prev (links h (hd (vs @ [hd1]))) = last (hd1 # us)"
proof -
  have s: "seg (links h) hd1 (us @ vs) hd1" using assms by (simp add: ring_def dll_def)
  have "ml_next (links h (last (hd1 # us))) = hd (vs @ [hd1]) \<and> ml_prev (links h (hd (vs @ [hd1]))) = last (hd1 # us)"
  proof (cases us rule: rev_cases)
    case Nil
    then show ?thesis
    proof (cases vs)
      case Nil
      then show ?thesis using s \<open>us = []\<close> by simp
    next
      case (Cons v vs')
      then show ?thesis using s \<open>us = []\<close> by simp
    qed
  next
    case (snoc us' u)
    then have "seg (links h) u vs hd1" using s by (simp add: seg_append)
    then show ?thesis using snoc by (cases vs) auto
  qed
  then show "ml_next (links h (last (hd1 # us))) = hd (vs @ [hd1])" "ml_prev (links h (hd (vs @ [hd1]))) = last (hd1 # us)"
    by auto
qed

lemma ring_node:
  assumes "ring h hd1 (us @ p # vs)"
  shows "ml_next (links h p) = hd (vs @ [hd1])" "ml_prev (links h p) = last (hd1 # us)"
  using ring_place [of h hd1 "us @ [p]" vs] ring_place [of h hd1 us "p # vs"] assms by simp_all

lemma ends_in:
  "last (hd1 # us) \<in> set (hd1 # us @ vs)" "hd (vs @ [hd1]) \<in> set (hd1 # us @ vs)"
proof -
  show "last (hd1 # us) \<in> set (hd1 # us @ vs)" using last_in_set [of "hd1 # us"] by auto
  show "hd (vs @ [hd1]) \<in> set (hd1 # us @ vs)" by (cases vs) auto
qed

section \<open>Linking and unlinking\<close>

lemma link_first:
  assumes "unlinked h (dl_head l)" and "alive h p" and "p \<noteq> dl_head l"
  shows "\<exists>h'. link_node l p d h = Some h' \<and> ring h' (dl_head l) [p] \<and> frame {dl_head l, p} h h'"
proof -
  have a: "alive h (dl_head l)" "ml_next (links h (dl_head l)) = NULL" using assms(1) by (simp_all add: unlinked_def)
  let ?h = "upd_next p (dl_head l) (upd_prev p (dl_head l) (upd_next (dl_head l) p (upd_prev (dl_head l) p h)))"
  have "link_node l p d h = Some ?h" using a assms(2) by (simp add: link_node_def dl_run)
  moreover have "ring ?h (dl_head l) [p]"
    using a assms(2,3) alive_nz [OF a(1)] alive_nz [OF assms(2)] by (auto simp: ring_def dll_def)
  moreover have "frame {dl_head l, p} h ?h"
    by (intro frame_step frame_refl) simp_all
  ultimately show ?thesis by blast
qed

lemma link_after:
  assumes r: "ring h (dl_head l) (us @ vs)" and m: "dl_marker l = last (dl_head l # us)"
    and p: "alive h p" "p \<notin> set (dl_head l # us @ vs)"
  shows "\<exists>h'. link_node l p True h = Some h' \<and> ring h' (dl_head l) (us @ p # vs) \<and> frame (set (p # dl_head l # us @ vs)) h h'"
proof -
  let ?hd = "dl_head l" and ?a = "dl_marker l" and ?b = "hd (vs @ [dl_head l])"
  note e = ring_ends [OF r] ends_in [where ?hd1.0 = ?hd and us = us and vs = vs] and pl = ring_place [OF r, folded m]
  have al: "alive h ?hd" "alive h ?a" "alive h ?b" using e m by auto
  have ne: "p \<noteq> ?a" "p \<noteq> ?b" "ml_next (links h ?hd) \<noteq> NULL" using e p(2) m by auto
  let ?h = "upd_next ?a p (upd_prev ?b p (upd_prev p ?a (upd_next p ?b h)))"
  have "link_node l p True h = Some ?h"
    using al ne p(1) pl by (simp add: link_node_def dl_run)
  moreover have "dll (links ?h) ?hd (us @ p # vs)"
    by (rule dll_insert [OF _ _ _ m refl, of "links h" vs p "links ?h"])
      (use r p al ne alive_nz [OF p(1)] in \<open>auto simp: ring_def\<close>)
  moreover have "frame (set (p # ?hd # us @ vs)) h ?h"
    by (intro frame_step frame_refl) (use e m in auto)
  ultimately show ?thesis using e(5) p(1) by (intro exI [of _ ?h]) (auto simp: ring_def)
qed

lemma link_before:
  assumes r: "ring h (dl_head l) (us @ vs)" and m: "dl_marker l = hd (vs @ [dl_head l])"
    and p: "alive h p" "p \<notin> set (dl_head l # us @ vs)"
  shows "\<exists>h'. link_node l p False h = Some h' \<and> ring h' (dl_head l) (us @ p # vs) \<and> frame (set (p # dl_head l # us @ vs)) h h'"
proof -
  let ?hd = "dl_head l" and ?b = "dl_marker l" and ?a = "last (dl_head l # us)"
  note e = ring_ends [OF r] ends_in [where ?hd1.0 = ?hd and us = us and vs = vs] and pl = ring_place [OF r, folded m]
  have al: "alive h ?hd" "alive h ?a" "alive h ?b" using e m by auto
  have ne: "p \<noteq> ?a" "p \<noteq> ?b" "ml_next (links h ?hd) \<noteq> NULL" using e p(2) m by auto
  let ?h = "upd_prev ?b p (upd_next ?a p (upd_next p ?b (upd_prev p ?a h)))"
  have "link_node l p False h = Some ?h"
    using al ne p(1) pl by (simp add: link_node_def dl_run)
  moreover have "dll (links ?h) ?hd (us @ p # vs)"
    by (rule dll_insert [OF _ _ _ refl m, of "links h" us p "links ?h"])
      (use r p al ne alive_nz [OF p(1)] in \<open>auto simp: ring_def\<close>)
  moreover have "frame (set (p # ?hd # us @ vs)) h ?h"
    by (intro frame_step frame_refl) (use e m in auto)
  ultimately show ?thesis using e(5) p(1) by (intro exI [of _ ?h]) (auto simp: ring_def)
qed

lemma bridge_eq:
  assumes "alive h p" "alive h a" "alive h b" "ml_prev (links h p) = a" "ml_next (links h p) = b" "p \<noteq> a"
  shows "bridge p h = Some (upd_prev b a (upd_next a b h))"
  using assms by (simp add: bridge_def dl_run alive_nz)

lemma unlink_ok:
  assumes r: "ring h (dl_head l) (us @ p # vs)"
  shows "\<exists>h'. Option.bind (fix_head l p h) (bridge p) = Some h' \<and> ring h' (dl_head l) (us @ vs)
    \<and> links h' p = links h p \<and> frame (set (dl_head l # us @ vs)) h h'"
    "\<exists>h'. fix_head l p h = Some h' \<and> frame {dl_head l} h h' \<and> links h' p = links h p"
proof -
  let ?hd = "dl_head l" and ?a = "last (dl_head l # us)" and ?b = "hd (vs @ [dl_head l])"
  note e = ring_ends [OF r] ends_in [where ?hd1.0 = ?hd and us = us and vs = vs] and n = ring_node [OF r]
  have al: "alive h ?hd" "alive h p" "alive h ?a" "alive h ?b" using e by auto
  have ne: "p \<noteq> ?hd" "p \<noteq> ?a" "p \<noteq> ?b" using e by auto
  have hn1: "ml_next (links h ?hd) = p \<longleftrightarrow> us = []" using e(1,3) by (cases us) auto
  have hn2: "ml_prev (links h ?hd) = p \<longleftrightarrow> vs = []" using e(2,3) by (cases vs rule: rev_cases) auto
  let ?h1 = "if us = [] then upd_next ?hd ?b h else h"
  let ?h2 = "if vs = [] then upd_prev ?hd ?a ?h1 else ?h1"
  have fx: "fix_head l p h = Some ?h2"
    using hn1 hn2 n al ne by (auto simp: fix_head_def dl_run)
  have l2: "links ?h2 p = links h p" using ne al by (auto intro!: metal_list.equality)
  have f2: "frame {?hd} h ?h2" by (auto intro!: frame_step frame_refl)
  then show "\<exists>h'. fix_head l p h = Some h' \<and> frame {dl_head l} h h' \<and> links h' p = links h p" using fx l2 by blast
  have al2: "alive ?h2 q = alive h q" for q using f2 by (simp add: frame_def)
  let ?h = "upd_prev ?b ?a (upd_next ?a ?b ?h2)"
  have br: "bridge p ?h2 = Some ?h"
    by (rule bridge_eq) (use al al2 n l2 ne in simp_all)
  have "dll (links ?h) ?hd (us @ vs)"
  proof (rule dll_remove [OF _ refl refl, of "links h" ?hd us p vs "links ?h"])
    show "dll (links h) ?hd (us @ p # vs)" using r by (simp add: ring_def)
  qed (use al al2 in auto)
  moreover have "links ?h p = links h p" using l2 ne al al2 by (auto intro!: metal_list.equality)
  moreover have "frame (set (?hd # us @ vs)) h ?h"
    by (intro frame_step frame_mono [OF f2]) (use e in auto)
  ultimately show "\<exists>h'. Option.bind (fix_head l p h) (bridge p) = Some h' \<and> ring h' (dl_head l) (us @ vs)
    \<and> links h' p = links h p \<and> frame (set (dl_head l # us @ vs)) h h'"
    using fx br e(5) al2 by (intro exI [of _ ?h]) (auto simp: ring_def)
qed

section \<open>Operations on represented lists\<close>

text \<open>The place the marker stands for: after \<open>us\<close> when inserting forward, before \<open>vs\<close> when inserting backward.\<close>

definition at_place :: "dlist \<Rightarrow> addr list \<Rightarrow> addr list \<Rightarrow> bool \<Rightarrow> bool" where
  "at_place l us vs d = (dl_marker (mark_or_head l) = (if d then last (dl_head l # us) else hd (vs @ [dl_head l])))"

lemma mark_or_head_simps [simp]:
  "dl_head (mark_or_head l) = dl_head l" "dl_count (mark_or_head l) = dl_count l" "dl_del_func (mark_or_head l) = dl_del_func l"
  "dl_data_size (mark_or_head l) = dl_data_size l"
  by (simp_all add: mark_or_head_def)

lemma shape_facts:
  assumes "shape h hd1 xs"
  shows "distinct (hd1 # xs)" "NULL \<notin> set (hd1 # xs)" "\<forall>p \<in> set (hd1 # xs). alive h p"
  using assms ring_ends(3-5) [of h hd1 xs] alive_nz [of h hd1] by (auto simp: shape_def unlinked_def)

lemma link_place:
  assumes s: "shape h (dl_head l) (us @ vs)" and m: "dl_marker l = (if d then last (dl_head l # us) else hd (vs @ [dl_head l]))"
    and p: "alive h p" "p \<notin> set (dl_head l # us @ vs)"
  shows "\<exists>h'. link_node l p d h = Some h' \<and> ring h' (dl_head l) (us @ p # vs) \<and> frame (set (p # dl_head l # us @ vs)) h h'"
proof (cases "ring h (dl_head l) (us @ vs)")
  case True
  then show ?thesis using link_after [OF True _ p] link_before [OF True _ p] m by (cases d) auto
next
  case False
  then have "us = []" "vs = []" "unlinked h (dl_head l)" using s by (auto simp: shape_def)
  then show ?thesis using link_first [of h l p d] p by (auto simp: insert_commute)
qed

lemma dl_ok_frame:
  assumes "dl_ok h l xs" and "\<forall>q \<in> set (dl_head l # xs). dm_node h' q = dm_node h q"
  shows "dl_ok h' l xs"
proof -
  have "data_at h' q = data_at h q" if "q \<in> set (dl_head l # xs)" for q using bspec [OF assms(2) that] by (simp add: data_at_def)
  then show ?thesis using assms(1) shape_cong(1) [OF assms(2)] by (auto simp: dl_ok_def)
qed

lemma count_eq: "dl_ok h l xs \<Longrightarrow> unat (dl_count l) = length xs"
  by (auto simp: dl_ok_def unat_of_nat take_bit_nat_eq_self)

lemma insert_dlnode_ok:
  assumes ok: "dl_ok h l (us @ vs)" and m: "at_place l us vs d" and len: "Suc (length (us @ vs)) < 2 ^ 63"
    and p: "alive h p" "p \<notin> set (dl_head l # us @ vs)" "data_at h p \<noteq> NULL"
  shows "\<exists>h'. dlist_insert_dlnode l p d h = Some (p, l\<lparr>dl_marker := p, dl_count := dl_count l + 1\<rparr>, h')
    \<and> dl_ok h' (l\<lparr>dl_marker := p, dl_count := dl_count l + 1\<rparr>) (us @ p # vs) \<and> frame (set (p # dl_head l # us @ vs)) h h'"
proof -
  let ?l = "(mark_or_head l)\<lparr>dl_count := dl_count l + 1\<rparr>"
  have sh: "shape h (dl_head ?l) (us @ vs)" using ok by (simp add: dl_ok_def)
  have mk: "dl_marker ?l = (if d then last (dl_head ?l # us) else hd (vs @ [dl_head ?l]))" using m unfolding at_place_def by simp
  obtain h' where h': "link_node ?l p d h = Some h'" "ring h' (dl_head l) (us @ p # vs)" "frame (set (p # dl_head l # us @ vs)) h h'"
    using link_place [OF sh mk p(1)] p(2) by auto
  have l': "?l\<lparr>dl_marker := p\<rparr> = l\<lparr>dl_marker := p, dl_count := dl_count l + 1\<rparr>" by (simp add: mark_or_head_def)
  have "dlist_insert_dlnode l p d h = Some (p, ?l\<lparr>dl_marker := p\<rparr>, h')"
    using h'(1) alive_nz [OF p(1)] by (simp add: dlist_insert_dlnode_def Let_def)
  moreover have "dl_ok h' (l\<lparr>dl_marker := p, dl_count := dl_count l + 1\<rparr>) (us @ p # vs)"
    using ok h'(2,3) len p(3) by (auto simp: dl_ok_def shape_def frame_def)
  ultimately show ?thesis using h'(3) l' by metis
qed

text \<open>A new node, before it is linked.\<close>

definition new_node :: "addr \<Rightarrow> addr \<Rightarrow> dl_mem \<Rightarrow> dl_mem" where
  "new_node p data h = h\<lparr>dm_node := (dm_node h)(p \<mapsto> \<lparr>dn_prev = NULL, dn_next = NULL, dn_data = data\<rparr>)\<rparr>"

lemma new_node_simps:
  "dm_node (new_node p data h) q = (if q = p then Some \<lparr>dn_prev = NULL, dn_next = NULL, dn_data = data\<rparr> else dm_node h q)"
  "p \<noteq> NULL \<Longrightarrow> alive (new_node p data h) q = (q = p \<or> alive h q)" "data_at (new_node p data h) = (data_at h)(p := data)"
  "dm_deleted (new_node p data h) = dm_deleted h"
  by (auto simp: new_node_def alive_def data_at_def fun_eq_iff)

lemma insert_ok:
  assumes ok: "dl_ok h l (us @ vs)" and m: "at_place l us vs d" and len: "Suc (length (us @ vs)) < 2 ^ 63"
    and p: "alloc \<noteq> NULL" "\<not> alive h alloc" "data \<noteq> NULL"
  shows "\<exists>h'. dlist_insert alloc l data d h = Some (data, l\<lparr>dl_marker := alloc, dl_count := dl_count l + 1\<rparr>, h')
    \<and> dl_ok h' (l\<lparr>dl_marker := alloc, dl_count := dl_count l + 1\<rparr>) (us @ alloc # vs)
    \<and> frame (set (alloc # dl_head l # us @ vs)) (new_node alloc data h) h'"
proof -
  let ?h = "new_node alloc data h"
  have out: "alloc \<notin> set (dl_head l # us @ vs)" using shape_facts(3) [of h "dl_head l" "us @ vs"] ok p(2) by (auto simp: dl_ok_def)
  have ok1: "dl_ok ?h l (us @ vs)" by (rule dl_ok_frame [OF ok]) (use out in \<open>auto simp: new_node_simps\<close>)
  have a1: "alive ?h alloc" "data_at ?h alloc = data" using p(1) by (simp_all add: new_node_simps)
  obtain h' where h': "dlist_insert_dlnode l alloc d ?h = Some (alloc, l\<lparr>dl_marker := alloc, dl_count := dl_count l + 1\<rparr>, h')"
    "dl_ok h' (l\<lparr>dl_marker := alloc, dl_count := dl_count l + 1\<rparr>) (us @ alloc # vs)" "frame (set (alloc # dl_head l # us @ vs)) ?h h'"
    using insert_dlnode_ok [OF ok1 m len a1(1) out] a1 p(3) by auto
  have n: "alive h' alloc" "data_at h' alloc = data" using h'(3) a1 by (simp_all add: frame_def)
  have "dlist_insert alloc l data d h = Some (data, l\<lparr>dl_marker := alloc, dl_count := dl_count l + 1\<rparr>, h')"
    using h'(1) p(1,3) n by (auto simp: dlist_insert_def dlist_insert_dlnode_def new_node_def opt_simps dl_run Let_def)
  then show ?thesis using h' by blast
qed

text \<open>Where the marker goes when its node is taken away.\<close>

definition next_mark :: "dlist \<Rightarrow> addr list \<Rightarrow> addr \<Rightarrow> addr list \<Rightarrow> bool \<Rightarrow> addr" where
  "next_mark l us p vs d =
     (if dl_marker l = p then (if d then hd (vs @ [dl_head l]) else last (dl_head l # us)) else dl_marker l)"

lemma ok_ring: "dl_ok h l (us @ p # vs) \<Longrightarrow> ring h (dl_head l) (us @ p # vs)"
  by (simp add: dl_ok_def shape_def)

lemma mark_move_ok:
  assumes "ring h (dl_head l) (us @ p # vs)" and "dl_marker l = p"
  shows "\<exists>data. dlist_mark_move h l d = Some (data, l\<lparr>dl_marker := if d then hd (vs @ [dl_head l]) else last (dl_head l # us)\<rparr>)"
proof -
  note e = ring_ends [OF assms(1)] ends_in [where ?hd1.0 = "dl_head l" and us = us and vs = vs] and n = ring_node [OF assms(1)]
  let ?to = "if d then hd (vs @ [dl_head l]) else last (dl_head l # us)"
  have to: "alive h ?to" "?to \<noteq> NULL" using e by (auto dest: alive_nz)
  have "alive h p" using e(5) by simp
  then show ?thesis using assms(2) n to by (cases d) (auto simp: dlist_mark_move_def dl_run alive_nz Let_def)
qed

lemma moved_marker:
  assumes "ring h (dl_head l) (us @ p # vs)"
  shows "(if dl_marker l = p then map_option snd (dlist_mark_move h l d) else Some l) = Some (l\<lparr>dl_marker := next_mark l us p vs d\<rparr>)"
  using mark_move_ok [OF assms, of d] by (auto simp: next_mark_def)

lemma next_mark_in:
  assumes "dl_marker l \<in> set (NULL # dl_head l # us @ p # vs)"
  shows "next_mark l us p vs d \<in> set (NULL # dl_head l # us @ vs)"
  using assms ends_in [where ?hd1.0 = "dl_head l" and us = us and vs = vs] by (auto simp: next_mark_def)

lemma count_minus: "dl_count l = of_nat (length (us @ p # vs)) \<Longrightarrow> dl_count l - 1 = of_nat (length (us @ vs))"
  by simp

lemma remove_ok:
  assumes ok: "dl_ok h l (us @ p # vs)"
  shows "\<exists>h'. dlist_remove l p d h = Some (data_at h p, l\<lparr>dl_marker := next_mark l us p vs d, dl_count := dl_count l - 1\<rparr>, h')
    \<and> dl_ok h' (l\<lparr>dl_marker := next_mark l us p vs d, dl_count := dl_count l - 1\<rparr>) (us @ vs)
    \<and> ring h' (dl_head l) (us @ vs) \<and> \<not> alive h' p \<and> (\<forall>q. q \<noteq> p \<longrightarrow> data_at h' q = data_at h q \<and> alive h' q = alive h q)
    \<and> dm_deleted h' = dm_deleted h \<and> (\<forall>q. q \<notin> set (p # dl_head l # us @ vs) \<longrightarrow> dm_node h' q = dm_node h q)"
proof -
  note r = ok_ring [OF ok]
  note e = ring_ends [OF r]
  let ?l = "l\<lparr>dl_marker := next_mark l us p vs d\<rparr>" and ?l' = "l\<lparr>dl_marker := next_mark l us p vs d, dl_count := dl_count l - 1\<rparr>"
  have al: "alive h p" "p \<noteq> dl_head l" using e by auto
  obtain h2 where h2: "Option.bind (fix_head ?l p h) (bridge p) = Some h2" "ring h2 (dl_head l) (us @ vs)" "frame (set (dl_head l # us @ vs)) h h2"
    using unlink_ok(1) [of h ?l us p vs] r by auto
  let ?h = "h2\<lparr>dm_node := (dm_node h2)(p := None)\<rparr>"
  have p2: "alive h2 p" using h2(3) al by (simp add: frame_def)
  have "dlist_remove l p d h = Some (data_at h p, ?l', ?h)"
    using al h2(1) p2 moved_marker [OF r, of d] alive_nz [OF al(1)]
    by (auto simp: dlist_remove_def dl_run dl_free_def opt_simps)
  moreover have "ring ?h (dl_head l) (us @ vs)"
    using h2(2) shape_cong(2) [of "dl_head l" "us @ vs" ?h h2] e(3) by auto
  moreover have d: "data_at ?h q = data_at h q" "alive ?h q = alive h q" if "q \<noteq> p" for q
    using h2(3) that by (auto simp: frame_def data_at_def alive_def fun_eq_iff)
  moreover have "dl_ok ?h ?l' (us @ vs)"
  proof -
    have "next_mark l us p vs d \<in> set (NULL # dl_head l # us @ vs)" by (rule next_mark_in) (use ok in \<open>simp add: dl_ok_def\<close>)
    moreover have "data_at ?h (dl_head l) = NULL" using d(1) [of "dl_head l"] al(2) ok by (simp add: dl_ok_def)
    moreover have "data_at ?h q \<noteq> NULL" if "q \<in> set (us @ vs)" for q
    proof -
      have "q \<noteq> p" "q \<in> set (us @ p # vs)" using that e(3) by auto
      then show ?thesis using d(1) [of q] ok by (simp add: dl_ok_def)
    qed
    ultimately show ?thesis using ok \<open>ring ?h (dl_head l) (us @ vs)\<close> by (simp add: dl_ok_def shape_def)
  qed
  moreover have "\<not> alive ?h p" by (simp add: alive_def)
  moreover have "dm_deleted ?h = dm_deleted h" "\<forall>q. q \<notin> set (p # dl_head l # us @ vs) \<longrightarrow> dm_node ?h q = dm_node h q"
    using h2(3) by (auto simp: frame_def)
  ultimately show ?thesis by (intro exI [of _ ?h]) simp
qed

lemma detach_ok:
  assumes r: "ring h (dl_head l) (us @ p # vs)" and c: "dl_count l = of_nat (length (us @ p # vs))" "length (us @ p # vs) < 2 ^ 63"
  shows "\<exists>h'. Option.bind (fix_head l p h) (detach l p) = Some h' \<and> shape h' (dl_head l) (us @ vs)
    \<and> frame (set (dl_head l # us @ p # vs)) h h'"
proof -
  note e = ring_ends [OF r]
  have al: "alive h p" "alive h (dl_head l)" "p \<noteq> dl_head l" using e by auto
  have one: "dl_count l = 1 \<longleftrightarrow> us @ vs = []"
    using c by (auto simp: word_unat_eq_iff unat_of_nat take_bit_nat_eq_self simp del: of_nat_Suc)
  show ?thesis
  proof (cases "us @ vs = []")
    case True
    obtain h1 where h1: "fix_head l p h = Some h1" "frame {dl_head l} h h1" using unlink_ok(2) [OF r] by blast
    have al1: "alive h1 q = alive h q" for q using h1(2) by (simp add: frame_def)
    let ?h = "upd_prev (dl_head l) NULL (upd_next (dl_head l) NULL (upd_next p NULL (upd_prev p NULL h1)))"
    have "Option.bind (fix_head l p h) (detach l p) = Some ?h"
      using h1(1) True one al al1 by (simp add: detach_def dl_run)
    moreover have "shape ?h (dl_head l) (us @ vs)"
      using True al al1 by (simp add: shape_def unlinked_def)
    moreover have "frame (set (dl_head l # us @ p # vs)) h ?h"
      by (intro frame_step frame_mono [OF h1(2)]) auto
    ultimately show ?thesis by blast
  next
    case False
    obtain h2 where h2: "Option.bind (fix_head l p h) (bridge p) = Some h2" "ring h2 (dl_head l) (us @ vs)"
      "frame (set (dl_head l # us @ vs)) h h2" using unlink_ok(1) [OF r] by blast
    have al2: "alive h2 q = alive h q" for q using h2(3) by (simp add: frame_def)
    let ?h = "upd_next p NULL (upd_prev p NULL h2)"
    have "Option.bind (fix_head l p h) (detach l p) = Some ?h"
      using h2(1) False one al al2 by (auto simp: detach_def dl_run opt_simps)
    moreover have "ring ?h (dl_head l) (us @ vs)"
      by (rule shape_cong(2) [THEN iffD2, OF _ h2(2)]) (use e(3) in \<open>auto intro!: frame_outside [of "{p}"] frame_step frame_refl\<close>)
    moreover have "frame (set (dl_head l # us @ p # vs)) h ?h"
      by (intro frame_step frame_mono [OF h2(3)]) auto
    ultimately show ?thesis by (auto simp: shape_def)
  qed
qed

lemma detach_cong: "dl_head l' = dl_head l \<Longrightarrow> dl_count l' = dl_count l \<Longrightarrow> detach l' = detach l"
  "dl_head l' = dl_head l \<Longrightarrow> fix_head l' = fix_head l"
proof -
  show "detach l' = detach l" if "dl_head l' = dl_head l" "dl_count l' = dl_count l" unfolding detach_def fun_eq_iff that by simp
  show "fix_head l' = fix_head l" if "dl_head l' = dl_head l" unfolding fix_head_def fun_eq_iff that by simp
qed

lemma move_ok:
  assumes s: "dl_ok h s (us @ p # vs)" and d: "dl_ok h d ys" and dest: "at_place d ys [] True" and len: "Suc (length ys) < 2 ^ 63"
    and disj: "set (dl_head s # us @ p # vs) \<inter> set (dl_head d # ys) = {}"
  shows "\<exists>h'. dlist_move s d p True h = Some (s\<lparr>dl_marker := next_mark s us p vs True, dl_count := dl_count s - 1\<rparr>,
        d\<lparr>dl_marker := p, dl_count := dl_count d + 1\<rparr>, h')
    \<and> dl_ok h' (s\<lparr>dl_marker := next_mark s us p vs True, dl_count := dl_count s - 1\<rparr>) (us @ vs)
    \<and> dl_ok h' (d\<lparr>dl_marker := p, dl_count := dl_count d + 1\<rparr>) (ys @ [p])
    \<and> frame (set (dl_head s # us @ p # vs) \<union> set (dl_head d # ys)) h h'"
proof -
  note r = ok_ring [OF s]
  note e = ring_ends [OF r]
  let ?s = "s\<lparr>dl_marker := next_mark s us p vs True\<rparr>" and ?s' = "s\<lparr>dl_marker := next_mark s us p vs True, dl_count := dl_count s - 1\<rparr>"
  have al: "alive h p" "p \<noteq> dl_head s" "data_at h p \<noteq> NULL" using e s by (auto simp: dl_ok_def)
  obtain h4 where h4: "Option.bind (fix_head ?s p h) (detach ?s p) = Some h4" "shape h4 (dl_head s) (us @ vs)"
    "frame (set (dl_head s # us @ p # vs)) h h4"
    using detach_ok [OF r] s unfolding detach_cong(1) [of ?s s, simplified] detach_cong(2) [of ?s s, simplified] by (auto simp: dl_ok_def)
  have d4: "dl_ok h4 d ys"
    by (rule dl_ok_frame [OF d]) (use disj in \<open>blast intro: frame_outside [OF h4(3)]\<close>)
  have p4: "alive h4 p" "data_at h4 p \<noteq> NULL" using h4(3) al by (simp_all add: frame_def)
  obtain h5 where h5: "dlist_insert_dlnode d p True h4 = Some (p, d\<lparr>dl_marker := p, dl_count := dl_count d + 1\<rparr>, h5)"
    "dl_ok h5 (d\<lparr>dl_marker := p, dl_count := dl_count d + 1\<rparr>) (ys @ [p])" "frame (set (p # dl_head d # ys)) h4 h5"
    using insert_dlnode_ok [of h4 d ys "[]" True p] d4 dest len p4 disj by auto
  have run: "dlist_move s d p True h = Some (?s', d\<lparr>dl_marker := p, dl_count := dl_count d + 1\<rparr>, h5)"
    using al h4(1) h5(1) moved_marker [OF r, of True] alive_nz [OF al(1)]
    by (auto simp: dlist_move_def opt_simps)
  have s4: "dl_ok h4 ?s' (us @ vs)"
    using s h4(2,3) next_mark_in [of s us p vs True] by (auto simp: dl_ok_def frame_def)
  have "dl_ok h5 ?s' (us @ vs)"
    by (rule dl_ok_frame [OF s4]) (use disj e(3) in \<open>auto intro!: frame_outside [OF h5(3)]\<close>)
  moreover have "frame (set (dl_head s # us @ p # vs) \<union> set (dl_head d # ys)) h h5"
    by (rule frame_trans [OF h4(3) h5(3)]) auto
  ultimately show ?thesis using run h5(2) by blast
qed

end
