(* ===== verification/Sysfs_Sort.thy ===== *)
theory Sysfs_Sort
  imports Sysfs_Dlist "HOL-Library.Sorting_Algorithms"
begin

text \<open>
  The bottom-up merge sort of \<^verbatim>\<open>src/openamp/sysfsutils/lib/dlist.c\<close> sorts: what a pass does is stated on sequences
  first (\<open>pass_list\<close>), the loops of the pass are then shown to do it on the linked nodes, and the result is the stable
  sort of the library.
\<close>

section \<open>Merge sort on sequences\<close>

abbreviation (input) merge_by :: "'a comparator \<Rightarrow> 'a list \<Rightarrow> 'a list \<Rightarrow> 'a list" where
  "merge_by \<equiv> Sorting_Algorithms.merge"

abbreviation (input) sorted_by :: "'a comparator \<Rightarrow> 'a list \<Rightarrow> bool" where
  "sorted_by \<equiv> Sorting_Algorithms.sorted"

text \<open>One pass: neighbouring runs of \<open>n\<close> elements are merged.\<close>

function pass_list :: "'a comparator \<Rightarrow> nat \<Rightarrow> 'a list \<Rightarrow> 'a list" where
  "pass_list cmp n xs = (if n = 0 \<or> xs = [] then xs
     else merge_by cmp (take n xs) (take n (drop n xs)) @ pass_list cmp n (drop (2 * n) xs))"
  by pat_completeness auto
termination
  by (relation "measure (\<lambda>(_, _, xs). length xs)") auto

declare pass_list.simps [simp del]

function runs_sorted :: "'a comparator \<Rightarrow> nat \<Rightarrow> 'a list \<Rightarrow> bool" where
  "runs_sorted cmp n xs = (if n = 0 \<or> xs = [] then True else sorted_by cmp (take n xs) \<and> runs_sorted cmp n (drop n xs))"
  by pat_completeness auto
termination
  by (relation "measure (\<lambda>(_, _, xs). length xs)") auto

declare runs_sorted.simps [simp del]

lemma runs_none [simp]: "runs_sorted cmp n []" "runs_sorted cmp 0 xs" "pass_list cmp n [] = []" "pass_list cmp 0 xs = xs"
  by (simp_all add: runs_sorted.simps pass_list.simps)

lemma runs_step: "0 < n \<Longrightarrow> xs \<noteq> [] \<Longrightarrow> runs_sorted cmp n xs = (sorted_by cmp (take n xs) \<and> runs_sorted cmp n (drop n xs))"
  by (subst runs_sorted.simps) simp

lemma merge_Nil [simp]: "merge_by cmp xs [] = xs" "merge_by cmp [] ys = ys"
  by (cases xs; simp)+

lemma length_merge: "length (merge_by cmp xs ys) = length xs + length ys"
  using mset_merge [of cmp xs ys] by (metis length_append mset_append mset_eq_length)

lemma mset_pass: "mset (pass_list cmp n xs) = mset xs"
proof (induction cmp n xs rule: pass_list.induct)
  case (1 cmp n xs)
  have "mset (take n xs) + (mset (take n (drop n xs)) + mset (drop (2 * n) xs)) = mset xs"
    by (metis append_take_drop_id drop_drop mset_append mult_2)
  then show ?case using 1 by (subst pass_list.simps) (simp add: mset_merge ac_simps)
qed

lemma set_pass: "set (pass_list cmp n xs) = set xs"
  using mset_pass by (metis set_mset_mset)

lemma length_pass: "length (pass_list cmp n xs) = length xs"
  using mset_pass by (metis mset_eq_length)

lemma merge_segments:
  assumes "sorted_by cmp xs" and "sorted_by cmp ys"
  shows "filter (\<lambda>y. compare cmp x y = Equiv) (merge_by cmp xs ys)
    = filter (\<lambda>y. compare cmp x y = Equiv) xs @ filter (\<lambda>y. compare cmp x y = Equiv) ys"
  using filter_merge [OF assms, of "\<lambda>y. compare cmp x y = Equiv"] merge_stable_segments [of cmp x xs ys] by simp

lemma runs_two:
  assumes "runs_sorted cmp n xs" and "0 < n"
  shows "sorted_by cmp (take n xs)" "sorted_by cmp (take n (drop n xs))" "runs_sorted cmp n (drop (2 * n) xs)"
proof -
  have one: "sorted_by cmp (take n zs) \<and> runs_sorted cmp n (drop n zs)" if "runs_sorted cmp n zs" for zs
    using that assms(2) by (cases "zs = []") (auto simp: runs_step)
  show "sorted_by cmp (take n xs)" "sorted_by cmp (take n (drop n xs))" using one [OF assms(1)] one [of "drop n xs"] by auto
  show "runs_sorted cmp n (drop (2 * n) xs)" using one [OF assms(1)] one [of "drop n xs"] by (simp add: mult_2)
qed

lemma pass_segments:
  "runs_sorted cmp n xs \<Longrightarrow> filter (\<lambda>y. compare cmp x y = Equiv) (pass_list cmp n xs) = filter (\<lambda>y. compare cmp x y = Equiv) xs"
proof (induction cmp n xs rule: pass_list.induct)
  case (1 cmp n xs)
  show ?case
  proof (cases "n = 0 \<or> xs = []")
    case True
    then show ?thesis by auto
  next
    case False
    note two = runs_two [OF 1(2)]
    let ?P = "\<lambda>y. compare cmp x y = Equiv"
    have "filter ?P (take n xs) @ filter ?P (take n (drop n xs)) @ filter ?P (drop (2 * n) xs) = filter ?P xs"
      by (metis append_take_drop_id drop_drop filter_append mult_2)
    then show ?thesis using False 1(1) [OF False] two by (subst pass_list.simps) (simp add: merge_segments)
  qed
qed

lemma pass_runs: "runs_sorted cmp n xs \<Longrightarrow> runs_sorted cmp (2 * n) (pass_list cmp n xs)"
proof (induction cmp n xs rule: pass_list.induct)
  case (1 cmp n xs)
  show ?case
  proof (cases "n = 0 \<or> xs = []")
    case True
    then show ?thesis by auto
  next
    case False
    note two = runs_two [OF 1(2)]
    let ?m = "merge_by cmp (take n xs) (take n (drop n xs))" and ?r = "pass_list cmp n (drop (2 * n) xs)"
    have len: "length ?m \<le> 2 * n" "length ?m < 2 * n \<Longrightarrow> ?r = []" by (auto simp: length_merge)
    have "take (2 * n) (?m @ ?r) = ?m" "drop (2 * n) (?m @ ?r) = ?r" using len by (cases "length ?m < 2 * n"; simp)+
    moreover have "sorted_by cmp ?m" using two False by (simp add: sorted_merge)
    moreover have "runs_sorted cmp (2 * n) ?r" using 1(1) [OF False] two(3) False by simp
    ultimately have "runs_sorted cmp (2 * n) (?m @ ?r)"
      using False runs_step [of "2 * n" "?m @ ?r" cmp] runs_none(1) [of cmp "2 * n"] by (cases "?m @ ?r = []") (simp_all del: append_is_Nil_conv)
    then show ?thesis using False by (subst pass_list.simps) simp
  qed
qed

lemma pass_sort:
  assumes "runs_sorted cmp n xs"
  shows "Sorting_Algorithms.sort cmp (pass_list cmp n xs) = Sorting_Algorithms.sort cmp xs"
  by (rule Sorting_Algorithms.sort_eqI) (simp_all add: mset_pass pass_segments [OF assms] stable_sort)

lemma one_run_sort:
  assumes "runs_sorted cmp n xs" and "length xs \<le> n" and "0 < n"
  shows "Sorting_Algorithms.sort cmp xs = xs"
  using runs_two(1) [OF assms(1,3)] assms(2) by (intro Sorting_Algorithms.sort_eqI) simp_all

lemma singles_sorted: "runs_sorted cmp 1 xs"
proof (induction xs)
  case (Cons x xs)
  then show ?case by (simp add: runs_step)
qed simp

section \<open>The loops of the merge\<close>

type_synonym two_lists = "dlist \<times> dlist \<times> dl_mem"

text \<open>The nodes \<open>xs\<close> are still in the source, \<open>ys\<close> are in the destination, whose marker is at its end.\<close>

definition merging :: "two_lists \<Rightarrow> addr list \<Rightarrow> addr list \<Rightarrow> bool" where
  "merging s xs ys = (case s of (src, dst, h) \<Rightarrow> dl_ok h src xs \<and> dl_ok h dst ys \<and> at_place dst ys [] True
     \<and> set (dl_head src # xs) \<inter> set (dl_head dst # ys) = {} \<and> length xs + length ys < 2 ^ 31)"

definition kept :: "addr set \<Rightarrow> two_lists \<Rightarrow> two_lists \<Rightarrow> bool" where
  "kept A s s' = (case (s, s') of ((src, dst, h), (src', dst', h')) \<Rightarrow>
     dl_head src' = dl_head src \<and> dl_del_func src' = dl_del_func src \<and> dl_data_size src' = dl_data_size src
     \<and> dl_head dst' = dl_head dst \<and> dl_del_func dst' = dl_del_func dst \<and> dl_data_size dst' = dl_data_size dst \<and> frame A h h')"

definition all_nodes :: "two_lists \<Rightarrow> addr list \<Rightarrow> addr list \<Rightarrow> addr set" where
  "all_nodes s xs ys = insert (dl_head (fst s)) (insert (dl_head (fst (snd s))) (set xs \<union> set ys))"

lemma kept_refl: "kept A s s"
  by (auto simp: kept_def frame_refl)

lemma kept_trans: "kept A s s1 \<Longrightarrow> kept A s1 s2 \<Longrightarrow> kept A s s2"
  using frame_trans [of A _ _ A _ A] by (fastforce simp: kept_def)

lemma kept_heads: "kept A s s' \<Longrightarrow> dl_head (fst s') = dl_head (fst s) \<and> dl_head (fst (snd s')) = dl_head (fst (snd s))"
  by (auto simp: kept_def)

lemma kept_data: "kept A (src, dst, h) s' \<Longrightarrow> data_at (snd (snd s')) = data_at h"
  by (auto simp: kept_def frame_def)

lemma move_step:
  assumes "merging (src, dst, h) (us @ p # vs) ys"
  shows "\<exists>s'. dlist_move src dst p True h = Some s' \<and> merging s' (us @ vs) (ys @ [p])
    \<and> kept (all_nodes (src, dst, h) (us @ p # vs) ys) (src, dst, h) s'"
proof -
  have m: "dl_ok h src (us @ p # vs)" "dl_ok h dst ys" "at_place dst ys [] True" "length (us @ p # vs) + length ys < 2 ^ 31"
    "set (dl_head src # us @ p # vs) \<inter> set (dl_head dst # ys) = {}" using assms by (auto simp: merging_def)
  have len: "Suc (length ys) < 2 ^ 63" using m(4) by simp
  obtain h' where h': "dlist_move src dst p True h = Some (src\<lparr>dl_marker := next_mark src us p vs True, dl_count := dl_count src - 1\<rparr>,
        dst\<lparr>dl_marker := p, dl_count := dl_count dst + 1\<rparr>, h')"
    "dl_ok h' (src\<lparr>dl_marker := next_mark src us p vs True, dl_count := dl_count src - 1\<rparr>) (us @ vs)"
    "dl_ok h' (dst\<lparr>dl_marker := p, dl_count := dl_count dst + 1\<rparr>) (ys @ [p])"
    "frame (set (dl_head src # us @ p # vs) \<union> set (dl_head dst # ys)) h h'"
    using move_ok [OF m(1-3) len m(5)] by blast
  have d: "distinct (dl_head src # us @ p # vs)" "p \<noteq> NULL" using ring_ends(3,4) [OF ok_ring [OF m(1)]] by auto
  have "frame (all_nodes (src, dst, h) (us @ p # vs) ys) h h'"
    by (rule frame_mono [OF h'(4)]) (auto simp: all_nodes_def)
  then have "kept (all_nodes (src, dst, h) (us @ p # vs) ys) (src, dst, h)
      (src\<lparr>dl_marker := next_mark src us p vs True, dl_count := dl_count src - 1\<rparr>, dst\<lparr>dl_marker := p, dl_count := dl_count dst + 1\<rparr>, h')"
    by (simp add: kept_def)
  moreover have "merging (src\<lparr>dl_marker := next_mark src us p vs True, dl_count := dl_count src - 1\<rparr>,
      dst\<lparr>dl_marker := p, dl_count := dl_count dst + 1\<rparr>, h') (us @ vs) (ys @ [p])"
    using h'(2,3) d m(4,5) by (auto simp: merging_def at_place_def mark_or_head_def)
  ultimately show ?thesis using h'(1) by blast
qed

lemma nodes_moved:
  assumes "kept A s s'" and "set xs' \<union> set ys' = set xs \<union> set ys"
  shows "all_nodes s' xs' ys' = all_nodes s xs ys"
  using kept_heads [OF assms(1)] assms(2) by (simp add: all_nodes_def)

text \<open>Reading the node at a place of the source.\<close>

lemma merging_node:
  assumes "merging (src, dst, h) (us @ p # vs) ys"
  shows "node h p = Some \<lparr>dn_prev = last (dl_head src # us), dn_next = hd (vs @ [dl_head src]), dn_data = data_at h p\<rparr>"
    "p \<noteq> dl_head src" "alive h p"
proof -
  have r: "ring h (dl_head src) (us @ p # vs)" using assms ok_ring by (auto simp: merging_def)
  then show "node h p = Some \<lparr>dn_prev = last (dl_head src # us), dn_next = hd (vs @ [dl_head src]), dn_data = data_at h p\<rparr>"
    using ring_node [OF r] ring_ends(5) [OF r] by (simp add: node_alive)
  show "p \<noteq> dl_head src" "alive h p" using ring_ends(3,5) [OF r] by auto
qed

lemma rest_l1_ok:
  assumes "merging s (as @ xs) ys" and "as \<noteq> [] \<longrightarrow> l1head = hd as"
  shows "\<exists>p s'. rest_l1 (of_nat (length as)) l1head s = Some (p, s') \<and> merging s' xs (ys @ as)
    \<and> kept (all_nodes s (as @ xs) ys) s s'"
  using assms
proof (induction as arbitrary: s ys l1head)
  case Nil
  then show ?case by (subst rest_l1.simps) (auto simp: kept_refl)
next
  case (Cons a as)
  obtain src dst h where s: "s = (src, dst, h)" by (cases s) auto
  have m: "merging (src, dst, h) ([] @ a # as @ xs) ys" using Cons.prems(1) s by simp
  have len: "length (a # as) < 2 ^ 31" using Cons.prems(1) by (auto simp: merging_def)
  obtain s1 where s1: "dlist_move src dst a True h = Some s1" "merging s1 (as @ xs) (ys @ [a])"
    "kept (all_nodes s ((a # as) @ xs) ys) s s1" using move_step [OF m] s by auto
  have n: "node h a = Some \<lparr>dn_prev = dl_head src, dn_next = hd ((as @ xs) @ [dl_head src]), dn_data = data_at h a\<rparr>"
    using merging_node(1) [OF m] by simp
  have c: "0 < (of_nat (length (a # as)) :: u32)" "(of_nat (length (a # as)) :: u32) - 1 = of_nat (length as)"
    using len by (simp_all add: word_less_nat_alt unat_of_nat take_bit_nat_eq_self del: of_nat_Suc) (simp add: of_nat_Suc)
  have "as \<noteq> [] \<longrightarrow> hd ((as @ xs) @ [dl_head src]) = hd as" by simp
  from Cons.IH [OF s1(2) this] obtain p s2 where s2: "rest_l1 (of_nat (length as)) (hd ((as @ xs) @ [dl_head src])) s1 = Some (p, s2)"
    "merging s2 xs ((ys @ [a]) @ as)" "kept (all_nodes s1 (as @ xs) (ys @ [a])) s1 s2" by auto
  have "all_nodes s1 (as @ xs) (ys @ [a]) = all_nodes s ((a # as) @ xs) ys" by (rule nodes_moved [OF s1(3)]) auto
  then have "kept (all_nodes s ((a # as) @ xs) ys) s s2" using kept_trans [OF s1(3)] s2(3) by simp
  moreover have "rest_l1 (of_nat (length (a # as))) l1head s = Some (p, s2)"
    using c n s s1(1) s2(1) Cons.prems(2) by (subst rest_l1.simps) simp
  ultimately show ?case using s2(2) by auto
qed

lemma u32_pred: "0 < (c :: u32) \<Longrightarrow> unat c = Suc (unat (c - 1))"
  by (metis Suc_pred' unat_gt_0 unat_minus_one word_neq_0_conv)

lemma rest_l2_ok:
  assumes "merging s xs ys" and "l2head = hd (xs @ [dl_head (fst s)])"
  shows "\<exists>p s'. rest_l2 c l2head s = Some (p, s') \<and> merging s' (drop (unat c) xs) (ys @ take (unat c) xs)
    \<and> kept (all_nodes s xs ys) s s'"
  using assms
proof (induction "unat c" arbitrary: c s xs ys l2head)
  case 0
  then have "c = 0" by (simp add: unat_eq_zero)
  then show ?case using 0 by (subst rest_l2.simps) (auto simp: kept_refl)
next
  case (Suc k)
  obtain src dst h where s: "s = (src, dst, h)" by (cases s) auto
  have c: "0 < c" "unat (c - 1) = k" using Suc.hyps(2) u32_pred [of c] by (auto simp: word_less_nat_alt)
  show ?case
  proof (cases xs)
    case Nil
    then have "rest_l2 c l2head s = Some (l2head, s)" using Suc.prems(2) s c(1) by (subst rest_l2.simps) simp
    then show ?thesis using Nil Suc.prems(1) by (auto simp: kept_refl)
  next
    case (Cons x xs')
    have m: "merging (src, dst, h) ([] @ x # xs') ys" using Suc.prems(1) s Cons by simp
    obtain s1 where s1: "dlist_move src dst x True h = Some s1" "merging s1 xs' (ys @ [x])" "kept (all_nodes s xs ys) s s1"
      using move_step [OF m] s Cons by auto
    have n: "node h x = Some \<lparr>dn_prev = dl_head src, dn_next = hd (xs' @ [dl_head src]), dn_data = data_at h x\<rparr>" "x \<noteq> dl_head src"
      using merging_node(1,2) [OF m] by simp_all
    have "hd (xs' @ [dl_head src]) = hd (xs' @ [dl_head (fst s1)])" using kept_heads [OF s1(3)] s by simp
    with Suc.hyps(1) [OF c(2) [symmetric] s1(2)] obtain p s2 where s2: "rest_l2 (c - 1) (hd (xs' @ [dl_head src])) s1 = Some (p, s2)"
      "merging s2 (drop k xs') ((ys @ [x]) @ take k xs')" "kept (all_nodes s1 xs' (ys @ [x])) s1 s2" using c(2) by auto
    have "all_nodes s1 xs' (ys @ [x]) = all_nodes s xs ys" by (rule nodes_moved [OF s1(3)]) (use Cons in auto)
    then have "kept (all_nodes s xs ys) s s2" using kept_trans [OF s1(3)] s2(3) by simp
    moreover have "rest_l2 c l2head s = Some (p, s2)"
      using c(1) n s s1(1) s2(1) Cons Suc.prems(2) by (subst rest_l2.simps) simp
    ultimately show ?thesis using s2(2) Cons by (auto simp flip: Suc.hyps(2))
  qed
qed

lemma skip_run_ok:
  assumes "ring h hd1 (us @ vs)" and "p = hd (vs @ [hd1])" and "unat k \<le> unat n"
  shows "skip_run h hd1 n k p = Some (k + of_nat (min (unat n - unat k) (length vs)), hd (drop (unat n - unat k) vs @ [hd1]))"
  using assms
proof (induction vs arbitrary: us p k)
  case Nil
  then show ?case by (subst skip_run.simps) simp
next
  case (Cons v vs)
  show ?case
  proof (cases "k < n")
    case False
    then have "unat n - unat k = 0" using Cons.prems(3) by (simp add: word_less_nat_alt)
    then show ?thesis using False Cons.prems(2) by (subst skip_run.simps) simp
  next
    case True
    note r = ring_node(1) [OF Cons.prems(1)] ring_ends(3,5) [OF Cons.prems(1)]
    have k1: "unat (k + 1) = Suc (unat k)" using True unat_plus_one_less [OF True] by simp
    then have le: "unat (k + 1) \<le> unat n" using True by (simp add: word_less_nat_alt)
    have "skip_run h hd1 n k p = skip_run h hd1 n (k + 1) (hd (vs @ [hd1]))"
      using True Cons.prems(2) r by (subst skip_run.simps) (auto simp: node_alive)
    also have "\<dots> = Some (k + 1 + of_nat (min (unat n - unat (k + 1)) (length vs)), hd (drop (unat n - unat (k + 1)) vs @ [hd1]))"
      using Cons.IH [of "us @ [v]", OF _ refl le] Cons.prems(1) by simp
    also have "\<dots> = Some (k + of_nat (min (unat n - unat k) (length (v # vs))), hd (drop (unat n - unat k) (v # vs) @ [hd1]))"
    proof -
      have "unat n - unat k = Suc (unat n - unat (k + 1))" using k1 le by simp
      then show ?thesis by simp
    qed
    finally show ?thesis .
  qed
qed

text \<open>The comparison function of the caller orders the data like a comparator.\<close>

definition orders :: "(addr \<Rightarrow> addr \<Rightarrow> int) \<Rightarrow> addr comparator \<Rightarrow> bool" where
  "orders cmpf cmp = (\<forall>a b. (0 < cmpf a b) = (compare cmp a b = Greater))"

definition node_cmp :: "dl_mem \<Rightarrow> addr comparator \<Rightarrow> addr comparator" where
  "node_cmp h cmp = key (data_at h) cmp"

lemma merge_runs_done: "merge_runs cmpf 0 0 p q mc s = Some (mc, s)"
  by (subst merge_runs.simps) simp

text \<open>The number of rounds: what the caller tells one run from several by.\<close>

definition rounds_ok :: "nat \<Rightarrow> addr list \<Rightarrow> u32 \<Rightarrow> addr list \<Rightarrow> bool" where
  "rounds_ok k A c T = (k \<le> length A + length (take (unat c) T) \<and> (A \<noteq> [] \<or> 0 < c \<longrightarrow> 1 \<le> k) \<and> (A \<noteq> [] \<and> 0 < c \<longrightarrow> 2 \<le> k)
     \<and> (A \<noteq> [] \<and> c = 0 \<longrightarrow> k = 1))"

definition merged :: "addr comparator \<Rightarrow> two_lists \<Rightarrow> addr list \<Rightarrow> u32 \<Rightarrow> addr list \<Rightarrow> addr list \<Rightarrow> u32 \<Rightarrow> (u32 \<times> two_lists) option \<Rightarrow> bool" where
  "merged K s A c T ys mc r = (\<exists>k s'. r = Some (mc + of_nat k, s') \<and> rounds_ok k A c T
     \<and> merging s' (drop (unat c) T) (ys @ merge_by K A (take (unat c) T)) \<and> kept (all_nodes s (A @ T) ys) s s')"

lemma merged_l2:
  assumes m: "merging (src, dst, h) (A @ t # T) ys" and A: "A \<noteq> []" "compare K (hd A) t = Greater" and c: "0 < c"
    and s1: "dlist_move src dst t True h = Some s1" "kept (all_nodes (src, dst, h) (A @ t # T) ys) (src, dst, h) s1"
    and r: "merged K s1 A (if T = [] then 0 else c - 1) T (ys @ [t]) (mc + 1) r"
  shows "merged K (src, dst, h) A c (t # T) ys mc r"
proof -
  obtain k s' where k: "r = Some (mc + 1 + of_nat k, s')" "rounds_ok k A (if T = [] then 0 else c - 1) T"
    "merging s' (drop (unat (if T = [] then 0 else c - 1)) T) ((ys @ [t]) @ merge_by K A (take (unat (if T = [] then 0 else c - 1)) T))"
    "kept (all_nodes s1 (A @ T) (ys @ [t])) s1 s'" using r unfolding merged_def by blast
  have u: "unat c = Suc (unat (c - 1))" using u32_pred [OF c] .
  have td: "take (unat (if T = [] then 0 else c - 1)) T = take (unat (c - 1)) T" "drop (unat (if T = [] then 0 else c - 1)) T = drop (unat (c - 1)) T"
    by auto
  obtain a A' where a: "A = a # A'" using A(1) by (cases A) auto
  have "rounds_ok (Suc k) A c (t # T)" using k(2) A(1) c u unfolding rounds_ok_def td by auto
  moreover have "merging s' (drop (unat c) (t # T)) (ys @ merge_by K A (take (unat c) (t # T)))"
    using k(3) A(2) unfolding td u a by simp
  moreover have "all_nodes s1 (A @ T) (ys @ [t]) = all_nodes (src, dst, h) (A @ t # T) ys" by (rule nodes_moved [OF s1(2)]) auto
  then have "kept (all_nodes (src, dst, h) (A @ t # T) ys) (src, dst, h) s'" using kept_trans [OF s1(2)] k(4) by simp
  moreover have "r = Some (mc + of_nat (Suc k), s')" using k(1) by (simp add: algebra_simps)
  ultimately show ?thesis unfolding merged_def by blast
qed

lemma merged_l1:
  assumes m: "merging (src, dst, h) ((a # A) @ t # T) ys" and A: "compare K a t \<noteq> Greater" and c: "0 < c"
    and s1: "dlist_move src dst a True h = Some s1" "kept (all_nodes (src, dst, h) ((a # A) @ t # T) ys) (src, dst, h) s1"
    and r: "merged K s1 A c (t # T) (ys @ [a]) (mc + 1) r"
  shows "merged K (src, dst, h) (a # A) c (t # T) ys mc r"
proof -
  obtain k s' where k: "r = Some (mc + 1 + of_nat k, s')" "rounds_ok k A c (t # T)"
    "merging s' (drop (unat c) (t # T)) ((ys @ [a]) @ merge_by K A (take (unat c) (t # T)))"
    "kept (all_nodes s1 (A @ t # T) (ys @ [a])) s1 s'" using r unfolding merged_def by blast
  have u: "unat c = Suc (unat (c - 1))" using u32_pred [OF c] .
  have "rounds_ok (Suc k) (a # A) c (t # T)" using k(2) c u unfolding rounds_ok_def by auto
  moreover have "merging s' (drop (unat c) (t # T)) (ys @ merge_by K (a # A) (take (unat c) (t # T)))"
    using k(3) A unfolding u by simp
  moreover have "all_nodes s1 (A @ t # T) (ys @ [a]) = all_nodes (src, dst, h) ((a # A) @ t # T) ys" by (rule nodes_moved [OF s1(2)]) auto
  then have "kept (all_nodes (src, dst, h) ((a # A) @ t # T) ys) (src, dst, h) s'" using kept_trans [OF s1(2)] k(4) by simp
  moreover have "r = Some (mc + of_nat (Suc k), s')" using k(1) by (simp add: algebra_simps)
  ultimately show ?thesis unfolding merged_def by blast
qed

lemma merge_runs_ok:
  assumes "merging s (A @ T) ys" and "A \<noteq> [] \<longrightarrow> l1head = hd A" and "l2head = hd (T @ [dl_head (fst s)])" and "0 < c \<longrightarrow> T \<noteq> []"
    and "orders cmpf cmp" and "K = node_cmp (snd (snd s)) cmp"
  shows "merged K s A c T ys mc (merge_runs cmpf (of_nat (length A)) c l1head l2head mc s)"
  using assms
proof (induction "length A + length T" arbitrary: s A T ys l1head l2head c mc rule: less_induct)
  case less
  obtain src dst h where s: "s = (src, dst, h)" by (cases s) auto
  have len: "length A < 2 ^ 31" using less.prems(1) s by (auto simp: merging_def)
  have cA: "0 < (of_nat (length A) :: u32) \<longleftrightarrow> A \<noteq> []"
    using len by (simp add: word_less_nat_alt unat_of_nat take_bit_nat_eq_self)
  consider "A = []" "c = 0" | "A \<noteq> []" "c = 0" | "A = []" "0 < c" | "A \<noteq> []" "0 < c" by (metis word_neq_0_conv)
  then show ?case
  proof cases
    case 1
    then show ?thesis
      using less.prems(1) by (simp add: merge_runs_done merged_def rounds_ok_def kept_refl)
  next
    case 2
    obtain p s' where r: "rest_l1 (of_nat (length A)) l1head s = Some (p, s')" "merging s' T (ys @ A)" "kept (all_nodes s (A @ T) ys) s s'"
      using rest_l1_ok [OF less.prems(1,2)] by blast
    have "merge_runs cmpf (of_nat (length A)) c l1head l2head mc s = Some (mc + 1, s')"
      using 2 cA r(1) s by (subst merge_runs.simps) (simp add: merge_runs_done)
    then show ?thesis using r(2,3) 2 unfolding merged_def by (intro exI [of _ 1] exI [of _ s']) (simp add: rounds_ok_def Suc_le_eq)
  next
    case 3
    have "l2head = hd (T @ [dl_head (fst s)])" "merging s T ys" using less.prems(1,3) 3 by simp_all
    from rest_l2_ok [OF this(2,1), of c] obtain p s' where r: "rest_l2 c l2head s = Some (p, s')"
      "merging s' (drop (unat c) T) (ys @ take (unat c) T)" "kept (all_nodes s T ys) s s'" by blast
    have "merge_runs cmpf (of_nat (length A)) c l1head l2head mc s = Some (mc + 1, s')"
      using 3 cA r(1) s by (subst merge_runs.simps) (simp add: merge_runs_done)
    moreover have "T \<noteq> []" "0 < unat c" using less.prems(4) 3 by (simp_all add: word_less_nat_alt)
    ultimately show ?thesis
      using r(2,3) 3 unfolding merged_def by (intro exI [of _ 1] exI [of _ s']) (simp add: rounds_ok_def Suc_le_eq)
  next
    case 4
    obtain a A' where a: "A = a # A'" using 4 by (cases A) auto
    obtain t T' where t: "T = t # T'" using less.prems(4) 4 by (cases T) auto
    have m1: "merging (src, dst, h) ([] @ a # A' @ T) ys" and m2: "merging (src, dst, h) (A @ t # T') ys" using less.prems(1) s a t by simp_all
    note n1 = merging_node [OF m1] and n2 = merging_node [OF m2]
    have cmp: "0 < cmpf (data_at h a) (data_at h t) \<longleftrightarrow> compare K a t = Greater"
      using less.prems(5,6) s by (simp add: orders_def node_cmp_def)
    show ?thesis
    proof (cases "compare K a t = Greater")
      case True
      obtain s1 where s1: "dlist_move src dst t True h = Some s1" "merging s1 (A @ T') (ys @ [t])"
        "kept (all_nodes (src, dst, h) (A @ t # T') ys) (src, dst, h) s1" using move_step [OF m2] by blast
      let ?c = "if T' = [] then 0 else c - 1" and ?l2 = "hd (T' @ [dl_head src])"
      have hd: "dl_head (fst s1) = dl_head src" using kept_heads [OF s1(3)] by simp
      have dist: "dl_head src \<notin> set T'" using m2 ring_ends(3) [OF ok_ring] by (auto simp: merging_def)
      have end_eq: "?l2 = dl_head src \<longleftrightarrow> T' = []" using dist by (cases T') auto
      have run: "merge_runs cmpf (of_nat (length A)) c l1head l2head mc s = merge_runs cmpf (of_nat (length A)) ?c l1head ?l2 (mc + 1) s1"
        using 4 cA s n1(1) n2(1) s1(1) True cmp less.prems(2,3) a t end_eq hd by (subst merge_runs.simps) simp
      have "merged K s1 A ?c T' (ys @ [t]) (mc + 1) (merge_runs cmpf (of_nat (length A)) ?c l1head ?l2 (mc + 1) s1)"
        by (rule less.hyps [OF _ s1(2)]) (use less.prems(2,5,6) t hd s kept_data [OF s1(3)] in \<open>auto simp: node_cmp_def\<close>)
      then show ?thesis
        unfolding run unfolding s t using merged_l2 [OF m2 _ _ _ s1(1,3)] 4 True a by simp
    next
      case False
      have m1': "merging (src, dst, h) ([] @ a # (A' @ T)) ys" using m1 by simp
      obtain s1 where s1: "dlist_move src dst a True h = Some s1" "merging s1 (A' @ T) (ys @ [a])"
        "kept (all_nodes (src, dst, h) ((a # A') @ t # T') ys) (src, dst, h) s1" using move_step [OF m1'] t by auto
      let ?l1 = "hd ((A' @ T) @ [dl_head src])"
      have hd: "dl_head (fst s1) = dl_head src" using kept_heads [OF s1(3)] by simp
      have pred: "(of_nat (length A) :: u32) - 1 = of_nat (length A')" using a by simp
      have run: "merge_runs cmpf (of_nat (length A)) c l1head l2head mc s = merge_runs cmpf (of_nat (length A')) c ?l1 l2head (mc + 1) s1"
        using 4 cA s n1(1) n2(1) s1(1) False cmp less.prems(2,3) a t pred by (subst merge_runs.simps) simp
      have "merged K s1 A' c T (ys @ [a]) (mc + 1) (merge_runs cmpf (of_nat (length A')) c ?l1 l2head (mc + 1) s1)"
        by (rule less.hyps [OF _ s1(2)]) (use less.prems(3-6) a hd s kept_data [OF s1(3)] in \<open>auto simp: node_cmp_def\<close>)
      then show ?thesis
        unfolding run unfolding s t a using merged_l1 [OF _ False _ s1(1,3)] 4 m1 t by simp
    qed
  qed
qed

lemma merge_pass_empty:
  assumes "merging s [] ys"
  shows "merge_pass cmpf n mc s = Some (mc, s)"
  using assms by (subst merge_pass.simps) (auto simp: merging_def dl_ok_def split: prod.splits)

lemma merge_pass_step:
  assumes m: "merging s xs ys" and xs: "xs \<noteq> []" and n: "0 < n" and o: "orders cmpf cmp" and K: "K = node_cmp (snd (snd s)) cmp"
  shows "\<exists>k s'. merge_pass cmpf n mc s = merge_pass cmpf n (mc + of_nat k) s'
    \<and> merging s' (drop (2 * unat n) xs) (ys @ merge_by K (take (unat n) xs) (take (unat n) (drop (unat n) xs)))
    \<and> kept (all_nodes s xs ys) s s' \<and> 1 \<le> k \<and> k + length (drop (2 * unat n) xs) \<le> length xs \<and> (k = 1 \<longleftrightarrow> length xs \<le> unat n)"
proof -
  obtain src dst h where s: "s = (src, dst, h)" by (cases s) auto
  have ok: "dl_ok h src xs" "length xs < 2 ^ 31" using m s by (auto simp: merging_def)
  then have r: "ring h (dl_head src) xs" using xs by (simp add: dl_ok_def shape_def)
  note e = ring_ends [OF r]
  have cnt: "0 < dl_count src" using count_eq [OF ok(1)] xs by (simp add: word_less_nat_alt)
  let ?A = "take (unat n) xs" and ?T = "drop (unat n) xs" and ?l2 = "hd (drop (unat n) xs @ [dl_head src])"
  let ?c = "if ?T = [] then 0 else n"
  have n0: "0 < unat n" using n by (simp add: word_less_nat_alt)
  then have A: "?A \<noteq> []" "hd xs = hd ?A" "?A @ ?T = xs" using xs by (auto simp: hd_take)
  have hdn: "node h (dl_head src) = Some \<lparr>dn_prev = last (dl_head src # xs), dn_next = hd xs, dn_data = data_at h (dl_head src)\<rparr>"
    using e(1,2,5) xs by (simp add: node_alive)
  have skip: "skip_run h (dl_head src) n 0 (hd xs) = Some (of_nat (length ?A), ?l2)"
    using skip_run_ok [of h "dl_head src" "[]" xs "hd xs" 0 n] r xs by (simp add: min.commute)
  have l2: "?l2 = dl_head src \<longleftrightarrow> ?T = []"
    using e(3) set_drop_subset [of "unat n" xs] by (cases ?T) auto
  have "merged K s ?A ?c ?T ys mc (merge_runs cmpf (of_nat (length ?A)) ?c (hd xs) ?l2 mc s)"
    by (rule merge_runs_ok [OF _ _ _ _ o K]) (use m A s n in auto)
  then obtain k s1 where k: "merge_runs cmpf (of_nat (length ?A)) ?c (hd xs) ?l2 mc s = Some (mc + of_nat k, s1)" "rounds_ok k ?A ?c ?T"
    "merging s1 (drop (unat ?c) ?T) (ys @ merge_by K ?A (take (unat ?c) ?T))" "kept (all_nodes s xs ys) s s1"
    unfolding merged_def A(3) by blast
  have td: "take (unat ?c) ?T = take (unat n) ?T" "drop (unat ?c) ?T = drop (2 * unat n) xs" by (auto simp: mult_2)
  have "merge_pass cmpf n mc s = merge_pass cmpf n (mc + of_nat k) s1"
    using cnt s hdn skip l2 k(1) by (subst merge_pass.simps) simp
  moreover have "1 \<le> k" "k + length (drop (2 * unat n) xs) \<le> length xs" "k = 1 \<longleftrightarrow> length xs \<le> unat n"
    using k(2) A n n0 td(1) unfolding rounds_ok_def by (auto split: if_splits)
  ultimately show ?thesis using k(3,4) unfolding td by blast
qed

lemma merge_pass_ok:
  assumes "merging s xs ys" and "0 < n" and "orders cmpf cmp" and "K = node_cmp (snd (snd s)) cmp"
  shows "\<exists>k s'. merge_pass cmpf n mc s = Some (mc + of_nat k, s') \<and> merging s' [] (ys @ pass_list K (unat n) xs)
    \<and> kept (all_nodes s xs ys) s s' \<and> k \<le> length xs \<and> (k = 0 \<longleftrightarrow> xs = []) \<and> (k = 1 \<longleftrightarrow> xs \<noteq> [] \<and> length xs \<le> unat n)"
  using assms
proof (induction "length xs" arbitrary: s xs ys mc rule: less_induct)
  case less
  show ?case
  proof (cases "xs = []")
    case True
    then show ?thesis
      using less.prems(1) merge_pass_empty by (intro exI [of _ 0] exI [of _ s]) (auto simp: kept_refl)
  next
    case False
    obtain k s1 where k: "merge_pass cmpf n mc s = merge_pass cmpf n (mc + of_nat k) s1"
      "merging s1 (drop (2 * unat n) xs) (ys @ merge_by K (take (unat n) xs) (take (unat n) (drop (unat n) xs)))"
      "kept (all_nodes s xs ys) s s1" "1 \<le> k" "k + length (drop (2 * unat n) xs) \<le> length xs" "k = 1 \<longleftrightarrow> length xs \<le> unat n"
      using merge_pass_step [OF less.prems(1) False less.prems(2-4)] by blast
    have K: "K = node_cmp (snd (snd s1)) cmp"
      using less.prems(4) kept_data k(3) by (cases s) (auto simp: node_cmp_def)
    have n0: "0 < unat n" using less.prems(2) by (simp add: word_less_nat_alt)
    have sm: "length (drop (2 * unat n) xs) < length xs" using n0 False by (cases xs) auto
    obtain k2 s2 where k2: "merge_pass cmpf n (mc + of_nat k) s1 = Some (mc + of_nat k + of_nat k2, s2)"
      "merging s2 [] ((ys @ merge_by K (take (unat n) xs) (take (unat n) (drop (unat n) xs))) @ pass_list K (unat n) (drop (2 * unat n) xs))"
      "kept (all_nodes s1 (drop (2 * unat n) xs) (ys @ merge_by K (take (unat n) xs) (take (unat n) (drop (unat n) xs)))) s1 s2"
      "k2 \<le> length (drop (2 * unat n) xs)" "k2 = 0 \<longleftrightarrow> drop (2 * unat n) xs = []"
      using less.hyps [OF sm k(2) less.prems(2,3) K, of "mc + of_nat k"] by (elim exE conjE) (rule that; assumption)
    have pass: "pass_list K (unat n) xs
        = merge_by K (take (unat n) xs) (take (unat n) (drop (unat n) xs)) @ pass_list K (unat n) (drop (2 * unat n) xs)"
      using False n0 by (subst pass_list.simps) simp
    have "set (drop (2 * unat n) xs) \<union> set (ys @ merge_by K (take (unat n) xs) (take (unat n) (drop (unat n) xs))) = set xs \<union> set ys"
    proof -
      have "set (merge_by K (take (unat n) xs) (take (unat n) (drop (unat n) xs))) = set (take (unat n) xs) \<union> set (take (unat n) (drop (unat n) xs))"
        by (metis mset_merge set_mset_mset set_mset_union)
      moreover have "set xs = set (take (unat n) xs) \<union> (set (take (unat n) (drop (unat n) xs)) \<union> set (drop (2 * unat n) xs))"
        by (metis append_take_drop_id drop_drop mult_2 set_append)
      ultimately show ?thesis by auto
    qed
    from nodes_moved [OF k(3) this] have "kept (all_nodes s xs ys) s s2" using kept_trans [OF k(3)] k2(3) by simp
    moreover have "(k + k2 = 1) = (xs \<noteq> [] \<and> length xs \<le> unat n)" using k(4,6) k2(5) False n0 by auto
    ultimately show ?thesis
      using k(1,4,5) k2(1,2,4) False pass by (intro exI [of _ "k + k2"] exI [of _ s2]) (simp add: algebra_simps)
  qed
qed

section \<open>Sorting\<close>

lemma kept_swap: "kept A (src, dst, h) (src', dst', h') = kept A (dst, src, h) (dst', src', h')"
  by (auto simp: kept_def)

lemma nodes_swap: "all_nodes (dst, src, h) ys xs = all_nodes (src, dst, h') xs ys"
  by (auto simp: all_nodes_def)

lemma merging_swap:
  assumes "merging (src, dst, h) [] ys"
  shows "merging (dst, src, h) ys []"
  using assms by (auto simp: merging_def dl_ok_def at_place_def mark_or_head_def)

definition sorted_out :: "addr set \<Rightarrow> two_lists \<Rightarrow> bool \<Rightarrow> addr list \<Rightarrow> (bool \<times> two_lists) option \<Rightarrow> bool" where
  "sorted_out A s sw zs r = (\<exists>sw' src dst h. r = Some (sw', src, dst, h) \<and> merging (src, dst, h) [] zs
     \<and> kept A s (if sw' = sw then (src, dst, h) else (dst, src, h)))"

lemma sort_loop_ok:
  assumes "merging s xs []" and "runs_sorted K (unat n) xs" and "0 < n" and "xs \<noteq> []" and "orders cmpf cmp"
    and "K = node_cmp (snd (snd s)) cmp"
  shows "sorted_out (all_nodes s xs []) s sw (Sorting_Algorithms.sort K xs) (sort_loop cmpf n sw s)"
  using assms
proof (induction "length xs - unat n" arbitrary: s xs n sw rule: less_induct)
  case less
  obtain k src dst h where k: "merge_pass cmpf n 0 s = Some (0 + of_nat k, src, dst, h)" "merging (src, dst, h) [] ([] @ pass_list K (unat n) xs)"
    "kept (all_nodes s xs []) s (src, dst, h)" "k \<le> length xs" "k = 0 \<longleftrightarrow> xs = []" "k = 1 \<longleftrightarrow> xs \<noteq> [] \<and> length xs \<le> unat n"
    using merge_pass_ok [OF less.prems(1,3,5,6), of 0] by (elim exE conjE) (metis prod_cases3)
  have len: "length xs < 2 ^ 31" using less.prems(1) by (auto simp: merging_def)
  have uk: "unat (of_nat k :: u32) = k" using k(4) len by (simp add: unat_of_nat take_bit_nat_eq_self)
  have n0: "0 < unat n" using less.prems(3) by (simp add: word_less_nat_alt)
  show ?case
  proof (cases "length xs \<le> unat n")
    case True
    have pass: "pass_list K (unat n) xs = xs" using True less.prems(4) n0 by (subst pass_list.simps) simp
    have "k = 1" using k(6) True less.prems(4) by simp
    then have "sort_loop cmpf n sw s = sort_loop cmpf n sw (src, dst, h)"
      using k(1) by (subst sort_loop.simps) (simp add: dlist_merge_def)
    also have "\<dots> = Some (sw, src, dst, h)"
      using merge_pass_empty [OF k(2)] by (subst sort_loop.simps) (simp add: dlist_merge_def)
    finally show ?thesis
      using k(2,3) pass one_run_sort [OF less.prems(2) True n0] by (auto simp: sorted_out_def)
  next
    case False
    let ?n = "n * 2" and ?p = "pass_list K (unat n) xs"
    have "k \<noteq> 0" "k \<noteq> 1" using k(5,6) False less.prems(4) by simp_all
    then have "1 < (of_nat k :: u32)" using uk by (simp add: word_less_nat_alt)
    then have run: "sort_loop cmpf n sw s = sort_loop cmpf ?n (\<not> sw) (dst, src, h)"
      using k(1) by (subst sort_loop.simps) (auto simp: dlist_merge_def)
    have n2: "unat ?n = 2 * unat n" using False len by (simp add: unat_word_ariths)
    have "sorted_out (all_nodes (dst, src, h) ?p []) (dst, src, h) (\<not> sw) (Sorting_Algorithms.sort K ?p) (sort_loop cmpf ?n (\<not> sw) (dst, src, h))"
    proof (rule less.hyps)
      show "length ?p - unat ?n < length xs - unat n" using False n0 by (simp add: length_pass n2)
      show "merging (dst, src, h) ?p []" using merging_swap k(2) by simp
      show "runs_sorted K (unat ?n) ?p" using pass_runs [OF less.prems(2)] by (simp add: n2)
      show "0 < ?n" using n0 n2 by (simp add: word_less_nat_alt)
      show "?p \<noteq> []" using less.prems(4) length_pass [of K "unat n" xs] by auto
      show "K = node_cmp (snd (snd (dst, src, h))) cmp" using less.prems(6) kept_data k(3) by (cases s) (auto simp: node_cmp_def)
    qed (rule less.prems(5))
    then obtain sw' src' dst' h' where r: "sort_loop cmpf ?n (\<not> sw) (dst, src, h) = Some (sw', src', dst', h')"
      "merging (src', dst', h') [] (Sorting_Algorithms.sort K ?p)"
      "kept (all_nodes (dst, src, h) ?p []) (dst, src, h) (if sw' = (\<not> sw) then (src', dst', h') else (dst', src', h'))"
      unfolding sorted_out_def by blast
    have "all_nodes (dst, src, h) ?p [] = all_nodes s xs []"
      using nodes_moved [OF k(3), of "[]" ?p xs "[]"] set_pass [of K "unat n" xs] nodes_swap [of dst src h ?p "[]" h] by simp
    then have "kept (all_nodes s xs []) (src, dst, h) (if sw' = sw then (src', dst', h') else (dst', src', h'))"
      using r(3) kept_swap by (auto split: if_splits)
    then show ?thesis
      using kept_trans [OF k(3)] r(1,2) pass_sort [OF less.prems(2)] unfolding sorted_out_def run by (intro exI conjI) auto
  qed
qed

lemma destroy_empty:
  assumes "shape h (dl_head l) []" and "data_at h (dl_head l) = NULL"
  shows "dlist_destroy l h = Some (h\<lparr>dm_node := (dm_node h)(dl_head l := None)\<rparr>)"
proof -
  have a: "alive h (dl_head l)" using shape_facts(3) [OF assms(1)] by simp
  have n: "ml_next (links h (dl_head l)) = NULL \<or> ml_next (links h (dl_head l)) = dl_head l"
    using assms(1) ring_ends(1) [of h "dl_head l" "[]"] by (auto simp: shape_def unlinked_def)
  then have "dlist_next h (dlist_start l) = Some (NULL, dlist_start l)"
    using a by (auto simp: dlist_mark_move_def dlist_start_def dl_run alive_nz)
  moreover have "destroy_loop (dlist_start l) h = Some (dlist_start l, h)"
    using a assms(2) by (subst destroy_loop.simps) (simp add: dlist_mark_def dlist_start_def dl_run)
  ultimately show ?thesis by (simp add: dlist_destroy_def dlist_start_def)
qed

lemma set_node_upd:
  assumes "alive h p"
  shows "h\<lparr>dm_node := (dm_node h)(p \<mapsto> \<lparr>dn_prev = a, dn_next = b, dn_data = data_at h p\<rparr>)\<rparr> = upd_next p b (upd_prev p a h)"
proof -
  obtain n where "dm_node h p = Some n" using assms by (auto simp: alive_def)
  then show ?thesis by (cases n) (auto simp: upd_next_def upd_prev_def data_at_def fun_eq_iff intro!: dl_mem.equality)
qed

lemma adopt_ok:
  assumes m: "merging (l, t, h) [] zs" and zs: "zs \<noteq> []"
  shows "\<exists>h'. adopt l t t h = Some (l\<lparr>dl_marker := dl_marker t, dl_count := dl_count t, dl_data_size := dl_data_size t,
        dl_del_func := dl_del_func t\<rparr>, t\<lparr>dl_count := 0\<rparr>, h')
    \<and> dl_ok h' (l\<lparr>dl_marker := dl_marker t, dl_count := dl_count t, dl_data_size := dl_data_size t, dl_del_func := dl_del_func t\<rparr>) zs
    \<and> unlinked h' (dl_head t) \<and> frame (all_nodes (l, t, h) [] zs) h h'"
proof -
  have ok: "dl_ok h l []" "dl_ok h t zs" "set [dl_head l] \<inter> set (dl_head t # zs) = {}" "at_place t zs [] True"
    using m by (auto simp: merging_def)
  obtain z zs' where z: "zs = z # zs'" using zs by (cases zs) auto
  let ?hl = "dl_head l" and ?ht = "dl_head t" and ?e = "last zs"
  have r: "ring h ?ht zs" using ok(2) zs by (simp add: dl_ok_def shape_def)
  note e = ring_ends [OF r]
  have al: "alive h ?hl" "alive h ?ht" "alive h z" "alive h ?e" using ok(1) shape_facts(3) [of h ?hl "[]"] e z by (auto simp: dl_ok_def)
  have dt: "data_at h ?ht = data_at h ?hl" using ok(1,2) by (simp add: dl_ok_def)
  have en: "ml_next (links h ?ht) = z" "ml_prev (links h ?ht) = ?e" using e(1,2) z by simp_all
  have ne: "?hl \<noteq> z" "?hl \<noteq> ?e" "?ht \<noteq> z" "?ht \<noteq> ?e" "?hl \<noteq> ?ht" "?hl \<notin> set zs" using ok(3) e(3) z by (auto simp: split: if_splits)
  let ?h = "upd_prev ?ht NULL (upd_next ?ht NULL (upd_next ?e ?hl (upd_prev z ?hl (upd_next ?hl z (upd_prev ?hl ?e h)))))"
  let ?l = "l\<lparr>dl_marker := dl_marker t, dl_count := dl_count t, dl_data_size := dl_data_size t, dl_del_func := dl_del_func t\<rparr>"
  have "adopt l t t h = Some (?l, t\<lparr>dl_count := 0\<rparr>, ?h)"
    using al en ne dt set_node_upd [OF al(1), of ?e z] by (simp add: adopt_def dl_run Let_def)
  moreover have "seg (links ?h) z zs' ?hl"
    by (rule seg_retarget [of "links h" z zs' ?ht]) (use r z al ne e(3) in \<open>auto simp: ring_def dll_def\<close>)
  then have "ring ?h ?hl zs"
    using z al ne e(3-5) by (auto simp: ring_def dll_def dest: alive_nz)
  moreover have "frame (all_nodes (l, t, h) [] zs) h ?h"
    by (intro frame_step frame_refl) (use zs z in \<open>auto simp: all_nodes_def\<close>)
  moreover have "unlinked ?h ?ht" using al by (simp add: unlinked_def)
  moreover have "dl_marker t \<in> set zs"
  proof -
    have "dl_marker (mark_or_head t) = ?e" using ok(4) zs by (simp add: at_place_def)
    then show ?thesis using ne(4) zs by (auto simp: mark_or_head_def split: if_splits)
  qed
  ultimately show ?thesis using ok(1,2) by (intro exI [of _ ?h]) (auto simp: dl_ok_def shape_def)
qed

text \<open>A list that is merged into two lists again: the temporary list is freed and leaves no trace.\<close>

definition only_moved :: "addr set \<Rightarrow> dl_mem \<Rightarrow> dl_mem \<Rightarrow> bool" where
  "only_moved A h h' = ((\<forall>p. alive h' p = alive h p) \<and> data_at h' = data_at h \<and> dm_deleted h' = dm_deleted h
     \<and> (\<forall>q. q \<notin> A \<longrightarrow> q \<noteq> NULL \<longrightarrow> dm_node h' q = dm_node h q))"

lemma temp_gone:
  assumes "frame (insert t A) (new_node t NULL h) h2" and "t \<noteq> NULL" and "\<not> alive h t"
  shows "only_moved A h (h2\<lparr>dm_node := (dm_node h2)(t := None)\<rparr>)"
proof -
  let ?h = "h2\<lparr>dm_node := (dm_node h2)(t := None)\<rparr>"
  have t: "dm_node h t = None" using assms(2,3) by (auto simp: alive_def)
  have f: "\<And>p. alive h2 p = (p = t \<or> alive h p)" "data_at h2 = (data_at h)(t := NULL)" "dm_deleted h2 = dm_deleted h"
    "\<And>q. q \<notin> insert t A \<Longrightarrow> dm_node h2 q = dm_node h q"
    using assms(1,2) by (auto simp: frame_def new_node_simps)
  have "alive ?h p = alive h p" for p using f(1) [of p] assms(3) by (auto simp: alive_def)
  moreover have "data_at ?h p = data_at h p" for p
    using fun_cong [OF f(2), of p] t by (auto simp: data_at_def)
  moreover have "dm_node ?h q = dm_node h q" if "q \<notin> A" for q using f(4) [of q] that t by auto
  ultimately show ?thesis using f(3) by (simp add: only_moved_def fun_eq_iff)
qed

lemma dl_ok_freed:
  assumes "dl_ok h l xs" and "t \<notin> set (dl_head l # xs)"
  shows "dl_ok (h\<lparr>dm_node := (dm_node h)(t := None)\<rparr>) l xs"
  by (rule dl_ok_frame [OF assms(1)]) (use assms(2) in auto)

lemma sort_start:
  assumes ok: "dl_ok h l xs" and len: "length xs < 2 ^ 31" and p: "alloc \<noteq> NULL" "\<not> alive h alloc"
  shows "merging (l\<lparr>dl_marker := dl_head l\<rparr>,
    \<lparr>dl_marker = NULL, dl_count = 0, dl_data_size = sz, dl_del_func = f, dl_head = alloc\<rparr>, new_node alloc NULL h) xs []"
proof -
  have out: "alloc \<notin> set (dl_head l # xs)" using shape_facts(3) [of h "dl_head l" xs] ok p(2) by (auto simp: dl_ok_def)
  have "dl_ok (new_node alloc NULL h) l xs" by (rule dl_ok_frame [OF ok]) (use out in \<open>auto simp: new_node_simps\<close>)
  then have "dl_ok (new_node alloc NULL h) (l\<lparr>dl_marker := dl_head l\<rparr>) xs" by (simp add: dl_ok_def)
  moreover have "unlinked (new_node alloc NULL h) alloc" using p(1) by (simp add: unlinked_def new_node_simps links_def)
  ultimately show ?thesis
    using len out p(1) by (auto simp: merging_def dl_ok_def shape_def at_place_def mark_or_head_def new_node_simps)
qed

lemma sort_custom_short:
  assumes "dl_ok h l xs" and "dl_count l < 2"
  shows "Sorting_Algorithms.sort K xs = xs"
proof -
  have "length xs < 2" using count_eq [OF assms(1)] assms(2) by (simp add: word_less_nat_alt)
  then obtain x where "xs = [] \<or> xs = [x]" by (cases xs) (auto simp: less_Suc_eq)
  then show ?thesis by (auto intro!: Sorting_Algorithms.sort_eqI)
qed

text \<open>The last steps, whichever list the nodes ended up in.\<close>

definition sort_done :: "addr list \<Rightarrow> dlist \<Rightarrow> dl_mem \<Rightarrow> addr list \<Rightarrow> (dlist \<times> dl_mem) option \<Rightarrow> bool" where
  "sort_done xs l h zs r = (\<exists>l' h'. r = Some (l', h') \<and> dl_ok h' l' zs \<and> dl_head l' = dl_head l
     \<and> dl_del_func l' = dl_del_func l \<and> dl_data_size l' = dl_data_size l \<and> only_moved (set (dl_head l # xs)) h h')"

lemma finish_swapped:
  assumes m: "merging (src, dst, h2) [] zs" and zs: "zs \<noteq> []" and p: "alloc \<noteq> NULL" "\<not> alive h alloc"
    and k: "dl_head dst = dl_head l" "dl_head src = alloc" "dl_del_func dst = dl_del_func l" "dl_data_size dst = dl_data_size l"
    and f: "frame (insert alloc (set (dl_head l # xs))) (new_node alloc NULL h) h2"
  shows "sort_done xs l h zs (sort_finish True src dst h2)"
proof -
  have dis: "dl_head src \<notin> set (dl_head dst # zs)" and oks: "dl_ok h2 src []" "dl_ok h2 dst zs" using m by (auto simp: merging_def)
  have "dl_count dst \<noteq> 0" using count_eq [OF oks(2)] zs by auto
  moreover have "dlist_destroy src h2 = Some (h2\<lparr>dm_node := (dm_node h2)(alloc := None)\<rparr>)"
    using destroy_empty [of h2 src] oks(1) k(2) by (simp add: dl_ok_def)
  ultimately have "sort_finish True src dst h2 = Some (dst, h2\<lparr>dm_node := (dm_node h2)(alloc := None)\<rparr>)"
    by (simp add: sort_finish_def)
  then show ?thesis
    using k dl_ok_freed [OF oks(2), of alloc] dis temp_gone [OF f p] unfolding sort_done_def by auto
qed

lemma finish_adopted:
  assumes m: "merging (src, dst, h2) [] zs" and zs: "zs \<noteq> []" "set zs = set xs" and p: "alloc \<noteq> NULL" "\<not> alive h alloc"
    and k: "dl_head src = dl_head l" "dl_head dst = alloc" "dl_del_func dst = dl_del_func l" "dl_data_size dst = dl_data_size l"
    and f: "frame (insert alloc (set (dl_head l # xs))) (new_node alloc NULL h) h2"
  shows "sort_done xs l h zs (sort_finish False src dst h2)"
proof -
  let ?l3 = "src\<lparr>dl_marker := dl_marker dst, dl_count := dl_count dst, dl_data_size := dl_data_size dst, dl_del_func := dl_del_func dst\<rparr>"
  have dis: "dl_head src \<notin> set (dl_head dst # zs)" and oks: "dl_ok h2 src []" "dl_ok h2 dst zs" using m by (auto simp: merging_def)
  obtain h3 where h3: "adopt src dst dst h2 = Some (?l3, dst\<lparr>dl_count := 0\<rparr>, h3)" "dl_ok h3 ?l3 zs" "unlinked h3 alloc"
    "frame (all_nodes (src, dst, h2) [] zs) h2 h3" using adopt_ok [OF m zs(1)] k(2) by auto
  have "dl_count src = 0" using oks(1) by (simp add: dl_ok_def)
  moreover have "data_at h3 alloc = NULL" using h3(4) oks(2) k(2) by (simp add: frame_def dl_ok_def)
  then have "dlist_destroy (dst\<lparr>dl_count := 0\<rparr>) h3 = Some (h3\<lparr>dm_node := (dm_node h3)(alloc := None)\<rparr>)"
    using destroy_empty [of h3 "dst\<lparr>dl_count := 0\<rparr>"] h3(3) k(2) by (simp add: shape_def)
  ultimately have "sort_finish False src dst h2 = Some (?l3, h3\<lparr>dm_node := (dm_node h3)(alloc := None)\<rparr>)"
    using h3(1) by (simp add: sort_finish_def)
  moreover have "frame (insert alloc (set (dl_head l # xs))) (new_node alloc NULL h) h3"
    by (rule frame_trans [OF f h3(4)]) (use k zs(2) in \<open>auto simp: all_nodes_def\<close>)
  moreover have "alloc \<notin> set (dl_head ?l3 # zs)" using dis oks(2) shape_facts(1) [of h2 alloc zs] k by (auto simp: dl_ok_def)
  ultimately show ?thesis
    using k dl_ok_freed [OF h3(2), of alloc] temp_gone [of alloc _ h h3] p unfolding sort_done_def by auto
qed

lemma sort_custom_ok:
  assumes ok: "dl_ok h l xs" and o: "orders cmpf cmp" and len: "length xs < 2 ^ 31" and p: "alloc \<noteq> NULL" "\<not> alive h alloc"
  shows "sort_done xs l h (Sorting_Algorithms.sort (node_cmp h cmp) xs) (dlist_sort_custom cmpf alloc l h)"
proof (cases "dl_count l < 2")
  case True
  then show ?thesis using ok sort_custom_short [OF ok True] by (auto simp: dlist_sort_custom_def only_moved_def sort_done_def)
next
  case False
  let ?l = "l\<lparr>dl_marker := dl_head l\<rparr>" and ?h = "new_node alloc NULL h" and ?z = "Sorting_Algorithms.sort (node_cmp h cmp) xs"
  let ?t = "\<lparr>dl_marker = NULL, dl_count = 0, dl_data_size = dl_data_size l, dl_del_func = dl_del_func l, dl_head = alloc\<rparr>"
  have ne: "xs \<noteq> []" using False count_eq [OF ok] by (auto simp: word_less_nat_alt)
  have m: "merging (?l, ?t, ?h) xs []" by (rule sort_start [OF ok len p])
  have "data_at h alloc = NULL" using p by (auto simp: data_at_def alive_def)
  then have "data_at ?h = data_at h" by (auto simp: new_node_simps fun_eq_iff)
  then have K: "node_cmp h cmp = node_cmp (snd (snd (?l, ?t, ?h))) cmp" by (simp add: node_cmp_def)
  have all: "all_nodes (?l, ?t, ?h) xs [] = insert alloc (set (dl_head l # xs))" by (auto simp: all_nodes_def)
  have "sorted_out (all_nodes (?l, ?t, ?h) xs []) (?l, ?t, ?h) False ?z (sort_loop cmpf 1 False (?l, ?t, ?h))"
    by (rule sort_loop_ok [OF m _ _ ne o K]) (simp_all add: singles_sorted [simplified])
  then obtain sw src dst h2 where s: "sort_loop cmpf 1 False (?l, ?t, ?h) = Some (sw, src, dst, h2)" "merging (src, dst, h2) [] ?z"
    "kept (insert alloc (set (dl_head l # xs))) (?l, ?t, ?h) (if sw = False then (src, dst, h2) else (dst, src, h2))"
    unfolding sorted_out_def all by blast
  have z: "set ?z = set xs" "?z \<noteq> []" using ne Sorting_Algorithms.mset_sort [of "node_cmp h cmp" xs] by (metis set_mset_mset, metis mset_zero_iff)
  have run: "dlist_sort_custom cmpf alloc l h = sort_finish sw src dst h2"
    using False s(1) p(1) by (simp add: dlist_sort_custom_def dlist_start_def dlist_new_def new_node_def)
  show ?thesis
    using finish_swapped [OF s(2) z(2) p, of l xs] finish_adopted [OF s(2) z(2,1) p, of l] s(3) run by (cases sw) (auto simp: kept_def)
qed

end
