(* ===== verification/Sysfs_List.thy ===== *)
theory Sysfs_List
  imports Sysfs_Sort
begin

text \<open>
  What the operations of \<^verbatim>\<open>src/openamp/sysfsutils/lib/dlist.c\<close> do to the sequence of data a list holds: the ends
  of the list as a double-ended queue, searching, insertion in order, filtering, sorting, and what destroying a list
  frees.
\<close>

section \<open>The sequence a list holds\<close>

definition contents :: "dl_mem \<Rightarrow> addr list \<Rightarrow> addr list" where
  "contents h xs = map (data_at h) xs"

definition holds :: "dl_mem \<Rightarrow> dlist \<Rightarrow> addr list \<Rightarrow> bool" where
  "holds h l ds = (\<exists>xs. dl_ok h l xs \<and> ds = contents h xs)"

lemma holds_length: "holds h l ds \<Longrightarrow> unat (dl_count l) = length ds"
  by (auto simp: holds_def contents_def count_eq)

lemma head_links:
  assumes "dl_ok h l xs"
  shows "node h (dl_head l) = Some \<lparr>dn_prev = ml_prev (links h (dl_head l)), dn_next = ml_next (links h (dl_head l)), dn_data = NULL\<rparr>"
    "ml_next (links h (dl_head l)) = NULL \<and> ml_prev (links h (dl_head l)) = NULL \<and> xs = []
     \<or> ring h (dl_head l) xs \<and> ml_next (links h (dl_head l)) = hd (xs @ [dl_head l]) \<and> ml_prev (links h (dl_head l)) = last (dl_head l # xs)"
proof -
  have s: "shape h (dl_head l) xs" "data_at h (dl_head l) = NULL" using assms by (simp_all add: dl_ok_def)
  then show "node h (dl_head l) = Some \<lparr>dn_prev = ml_prev (links h (dl_head l)), dn_next = ml_next (links h (dl_head l)), dn_data = NULL\<rparr>"
    using shape_facts(3) [OF s(1)] node_alive [of h "dl_head l"] by simp
  show "ml_next (links h (dl_head l)) = NULL \<and> ml_prev (links h (dl_head l)) = NULL \<and> xs = []
     \<or> ring h (dl_head l) xs \<and> ml_next (links h (dl_head l)) = hd (xs @ [dl_head l]) \<and> ml_prev (links h (dl_head l)) = last (dl_head l # xs)"
    using s(1) ring_ends(1,2) [of h "dl_head l" xs] by (auto simp: shape_def unlinked_def)
qed

lemma inserted_holds:
  assumes ok: "dl_ok h l (us @ vs)" and p: "\<not> alive h alloc" and f: "frame A (new_node alloc data h) h'"
    and ok': "dl_ok h' l' (us @ alloc # vs)"
  shows "holds h' l' (contents h us @ data # contents h vs)"
proof -
  have "alloc \<notin> set (us @ vs)" using shape_facts(3) [of h "dl_head l" "us @ vs"] ok p by (auto simp: dl_ok_def)
  moreover have "data_at h' = (data_at h)(alloc := data)" using f by (simp add: frame_def new_node_simps)
  ultimately have "contents h' (us @ alloc # vs) = contents h us @ data # contents h vs" by (auto simp: contents_def)
  then show ?thesis using ok' unfolding holds_def by metis
qed

section \<open>Both ends\<close>

lemma push_ok:
  assumes ok: "dl_ok h l xs" and len: "Suc (length xs) < 2 ^ 63" and p: "alloc \<noteq> NULL" "\<not> alive h alloc" "data \<noteq> NULL"
  shows "\<exists>l' h'. dlist_push alloc l data h = Some (l', h') \<and> holds h' l' (contents h xs @ [data]) \<and> dm_deleted h' = dm_deleted h"
proof -
  let ?l = "l\<lparr>dl_marker := ml_prev (links h (dl_head l))\<rparr>"
  note hl = head_links [OF ok]
  have ok1: "dl_ok h ?l (xs @ [])" using ok hl(2) ends_in(1) [of "dl_head l" xs "[]"] by (auto simp: dl_ok_def)
  have pl: "at_place ?l xs [] True" using hl(2) ring_ends(4) [of h "dl_head l" xs]
    by (cases xs rule: rev_cases) (auto simp: at_place_def mark_or_head_def split: if_splits)
  obtain h' where h': "dlist_insert alloc ?l data True h = Some (data, ?l\<lparr>dl_marker := alloc, dl_count := dl_count ?l + 1\<rparr>, h')"
    "dl_ok h' (?l\<lparr>dl_marker := alloc, dl_count := dl_count ?l + 1\<rparr>) (xs @ [alloc])"
    "frame (set (alloc # dl_head ?l # xs @ [])) (new_node alloc data h) h'"
    using insert_ok [OF ok1 pl _ p] len by auto
  have "dlist_push alloc l data h = Some (?l\<lparr>dl_marker := alloc, dl_count := dl_count ?l + 1\<rparr>, h')"
    using hl(1) h'(1) by (simp add: dlist_push_def)
  moreover have "dm_deleted h' = dm_deleted h" using h'(3) by (simp add: frame_def new_node_simps)
  ultimately show ?thesis using inserted_holds [OF ok1 p(2) h'(3)] h'(2) by (auto simp: contents_def)
qed

lemma unshift_ok:
  assumes ok: "dl_ok h l xs" and len: "Suc (length xs) < 2 ^ 63" and p: "alloc \<noteq> NULL" "\<not> alive h alloc" "data \<noteq> NULL"
  shows "\<exists>l' h'. dlist_unshift alloc l data h = Some (l', h') \<and> holds h' l' (data # contents h xs) \<and> dm_deleted h' = dm_deleted h"
proof -
  let ?l = "l\<lparr>dl_marker := ml_next (links h (dl_head l))\<rparr>"
  note hl = head_links [OF ok]
  have ok1: "dl_ok h ?l ([] @ xs)" using ok hl(2) ends_in(2) [of xs "dl_head l" "[]"] by (auto simp: dl_ok_def)
  have pl: "at_place ?l [] xs False" using hl(2) ring_ends(6) [of h "dl_head l" xs]
    by (auto simp: at_place_def mark_or_head_def split: if_splits)
  obtain h' where h': "dlist_insert alloc ?l data False h = Some (data, ?l\<lparr>dl_marker := alloc, dl_count := dl_count ?l + 1\<rparr>, h')"
    "dl_ok h' (?l\<lparr>dl_marker := alloc, dl_count := dl_count ?l + 1\<rparr>) ([] @ alloc # xs)"
    "frame (set (alloc # dl_head ?l # [] @ xs)) (new_node alloc data h) h'"
    using insert_ok [OF ok1 pl _ p] len by auto
  have "dlist_unshift alloc l data h = Some (?l\<lparr>dl_marker := alloc, dl_count := dl_count ?l + 1\<rparr>, h')"
    using hl(1) h'(1) by (simp add: dlist_unshift_def)
  moreover have "dm_deleted h' = dm_deleted h" using h'(3) by (simp add: frame_def new_node_simps)
  ultimately show ?thesis using inserted_holds [OF ok1 p(2) h'(3,2)] by (auto simp: contents_def)
qed

lemma removed_contents:
  assumes "dl_ok h l (us @ p # vs)" and "\<forall>q. q \<noteq> p \<longrightarrow> data_at h' q = data_at h q \<and> alive h' q = alive h q"
  shows "contents h' (us @ vs) = contents h us @ contents h vs"
proof -
  have "p \<notin> set (us @ vs)" using ring_ends(3) [OF ok_ring [OF assms(1)]] by simp
  then show ?thesis using assms(2) by (auto simp: contents_def)
qed

lemma pop_ok:
  assumes ok: "dl_ok h l (us @ [p])"
  shows "\<exists>l' h'. dlist_pop l h = Some (data_at h p, l', h') \<and> holds h' l' (contents h us) \<and> dm_deleted h' = dm_deleted h"
proof -
  note hl = head_links [OF ok]
  obtain h' where h': "dlist_remove l p False h = Some (data_at h p, l\<lparr>dl_marker := next_mark l us p [] False, dl_count := dl_count l - 1\<rparr>, h')"
    "dl_ok h' (l\<lparr>dl_marker := next_mark l us p [] False, dl_count := dl_count l - 1\<rparr>) (us @ [])"
    "\<forall>q. q \<noteq> p \<longrightarrow> data_at h' q = data_at h q \<and> alive h' q = alive h q" "dm_deleted h' = dm_deleted h"
    using remove_ok [of h l us p "[]" False] ok by blast
  then show ?thesis using hl removed_contents [of h l us p "[]" h'] ok unfolding holds_def by (fastforce simp: dlist_pop_def contents_def)
qed

lemma shift_ok:
  assumes ok: "dl_ok h l (p # vs)"
  shows "\<exists>l' h'. dlist_shift l h = Some (data_at h p, l', h') \<and> holds h' l' (contents h vs) \<and> dm_deleted h' = dm_deleted h"
proof -
  note hl = head_links [OF ok]
  obtain h' where h': "dlist_remove l p True h = Some (data_at h p, l\<lparr>dl_marker := next_mark l [] p vs True, dl_count := dl_count l - 1\<rparr>, h')"
    "dl_ok h' (l\<lparr>dl_marker := next_mark l [] p vs True, dl_count := dl_count l - 1\<rparr>) ([] @ vs)"
    "\<forall>q. q \<noteq> p \<longrightarrow> data_at h' q = data_at h q \<and> alive h' q = alive h q" "dm_deleted h' = dm_deleted h"
    using remove_ok [of h l "[]" p vs True] ok by auto
  then show ?thesis using hl removed_contents [of h l "[]" p vs h'] ok unfolding holds_def by (fastforce simp: dlist_shift_def contents_def)
qed

section \<open>Deleting\<close>

lemma delete_ok:
  assumes ok: "dl_ok h l (us @ p # vs)" and m: "dl_marker l = p"
  shows "\<exists>l' h'. dlist_delete l d h = Some (l', h') \<and> dl_ok h' l' (us @ vs) \<and> dl_head l' = dl_head l
    \<and> dl_marker l' = (if d then hd (vs @ [dl_head l]) else last (dl_head l # us)) \<and> ring h' (dl_head l) (us @ vs)
    \<and> \<not> alive h' p \<and> (\<forall>q. q \<noteq> p \<longrightarrow> data_at h' q = data_at h q \<and> alive h' q = alive h q)
    \<and> dm_deleted h' = dm_deleted h @ [data_at h p]"
proof -
  note r = ok_ring [OF ok]
  note e = ring_ends [OF r]
  let ?l = "l\<lparr>dl_marker := next_mark l us p vs d\<rparr>" and ?l' = "l\<lparr>dl_marker := next_mark l us p vs d, dl_count := dl_count l - 1\<rparr>"
  have al: "alive h p" "p \<noteq> dl_head l" "p \<noteq> NULL" using e alive_nz [of h p] by auto
  obtain h1 where h1: "dlist_remove l p d h = Some (data_at h p, ?l', h1)" "dl_ok h1 ?l' (us @ vs)" "ring h1 (dl_head l) (us @ vs)"
    "\<not> alive h1 p" "\<forall>q. q \<noteq> p \<longrightarrow> data_at h1 q = data_at h q \<and> alive h1 q = alive h q" "dm_deleted h1 = dm_deleted h"
    using remove_ok [OF ok] by blast
  obtain h2 where h2: "Option.bind (fix_head ?l p h) (bridge p) = Some h2" "frame (set (dl_head l # us @ vs)) h h2"
    using unlink_ok(1) [of h ?l us p vs] r by auto
  have p2: "alive h2 p" "data_at h2 p = data_at h p" using h2(2) al by (simp_all add: frame_def)
  obtain n2 where n2: "dm_node h2 p = Some n2" "dn_data n2 = data_at h p" using p2 by (auto simp: alive_def data_at_def)
  have mv: "map_option snd (dlist_mark_move h l d) = Some ?l" using moved_marker [OF r, of d] m by simp
  have rem: "h1 = h2\<lparr>dm_node := (dm_node h2)(p := None)\<rparr>"
    using h1(1) al h2(1) p2 moved_marker [OF r, of d] by (auto simp: dlist_remove_def dl_run dl_free_def opt_simps)
  let ?h = "del_func (data_at h p) h1"
  have "dlist_delete l d h = Some (?l', ?h)"
    using al m h2(1) n2 mv unfolding rem by (auto simp: dlist_delete_def dl_free_def opt_simps del_func_def node_def)
  moreover have same: "dm_node ?h = dm_node h1" by (simp add: del_func_def)
  then have "dl_ok ?h ?l' (us @ vs)" "ring ?h (dl_head l) (us @ vs)" using dl_ok_frame [OF h1(2)] h1(3) shape_cong(2) [of "dl_head l" "us @ vs" ?h h1] by simp_all
  moreover have "alive ?h = alive h1" "data_at ?h = data_at h1" using same by (simp_all add: alive_def data_at_def fun_eq_iff)
  ultimately show ?thesis using h1 m by (intro exI [of _ ?l'] exI [of _ ?h]) (simp add: next_mark_def del_func_def)
qed


lemma destroy_loop_ok:
  assumes "dl_ok h l xs" and "ring h (dl_head l) xs" and "dl_marker l = hd (xs @ [dl_head l])"
  shows "\<exists>l' h'. destroy_loop l h = Some (l', h') \<and> dl_head l' = dl_head l \<and> dm_deleted h' = dm_deleted h @ contents h xs
    \<and> (\<forall>q. alive h' q = (alive h q \<and> q \<notin> set xs)) \<and> (\<forall>q. q \<notin> set xs \<longrightarrow> data_at h' q = data_at h q)"
  using assms
proof (induction xs arbitrary: l h)
  case Nil
  have "alive h (dl_head l)" using Nil.prems(2) by (simp add: ring_def)
  then have "destroy_loop l h = Some (l, h)"
    using Nil.prems by (subst destroy_loop.simps) (simp add: dlist_mark_def dl_run alive_nz dl_ok_def)
  then show ?case by (simp add: contents_def)
next
  case (Cons x xs)
  have x: "alive h x" "data_at h x \<noteq> NULL" "x \<notin> set xs" "dl_marker l = x" using Cons.prems by (auto simp: ring_def dll_def dl_ok_def)
  obtain l1 h1 where s: "dlist_delete l True h = Some (l1, h1)" "dl_ok h1 l1 xs" "dl_head l1 = dl_head l" "dl_marker l1 = hd (xs @ [dl_head l])"
    "ring h1 (dl_head l) xs" "\<not> alive h1 x" "\<forall>q. q \<noteq> x \<longrightarrow> data_at h1 q = data_at h q \<and> alive h1 q = alive h q"
    "dm_deleted h1 = dm_deleted h @ [data_at h x]"
    using delete_ok [of h l "[]" x xs True] Cons.prems(1) x(4) by auto
  have run: "destroy_loop l h = destroy_loop l1 h1"
    using x s(1) by (subst destroy_loop.simps) (simp add: dlist_mark_def dl_run alive_nz)
  have c: "contents h1 xs = contents h xs" using s(7) x(3) by (auto simp: contents_def)
  obtain l' h' where r: "destroy_loop l1 h1 = Some (l', h')" "dl_head l' = dl_head l1" "dm_deleted h' = dm_deleted h1 @ contents h1 xs"
    "\<forall>q. alive h' q = (alive h1 q \<and> q \<notin> set xs)" "\<forall>q. q \<notin> set xs \<longrightarrow> data_at h' q = data_at h1 q"
    using Cons.IH [OF s(2)] s(3-5) by auto
  have "alive h' q = (alive h q \<and> q \<notin> set (x # xs))" for q using r(4) s(6,7) by (cases "q = x") auto
  then show ?case
    using r(1-3,5) s(3,7,8) run c by (intro exI [of _ l'] exI [of _ h']) (auto simp: contents_def)
qed

lemma start_next:
  assumes "dl_ok h l xs"
  shows "\<exists>data. dlist_next h (dlist_start l) = Some (data, l\<lparr>dl_marker := hd (xs @ [dl_head l])\<rparr>)"
proof -
  note hl = head_links [OF assms]
  have nz: "dl_head l \<noteq> NULL" "\<forall>p \<in> set (dl_head l # xs). alive h p" using shape_facts(2,3) [of h "dl_head l" xs] assms by (auto simp: dl_ok_def)
  have a: "alive h (hd (xs @ [dl_head l]))" using nz(2) by (cases xs) auto
  show ?thesis using hl nz a by (auto simp: dlist_mark_move_def dlist_start_def dl_run alive_nz Let_def)
qed

lemma destroy_ok:
  assumes ok: "dl_ok h l xs"
  shows "\<exists>h'. dlist_destroy l h = Some h' \<and> dm_deleted h' = dm_deleted h @ contents h xs
    \<and> (\<forall>q. alive h' q = (alive h q \<and> q \<notin> set (dl_head l # xs)))"
proof (cases "ring h (dl_head l) xs")
  case True
  let ?l = "l\<lparr>dl_marker := hd (xs @ [dl_head l])\<rparr>"
  have "dl_ok h ?l xs" using ok ends_in(2) [of xs "dl_head l" "[]"] by (auto simp: dl_ok_def)
  then obtain l' h' where r: "destroy_loop ?l h = Some (l', h')" "dl_head l' = dl_head l" "dm_deleted h' = dm_deleted h @ contents h xs"
    "\<forall>q. alive h' q = (alive h q \<and> q \<notin> set xs)"
    using destroy_loop_ok [of h ?l xs] True by auto
  let ?h = "h'\<lparr>dm_node := (dm_node h')(dl_head l := None)\<rparr>"
  have "dlist_destroy l h = Some ?h" using start_next [OF ok] r(1,2) by (auto simp: dlist_destroy_def)
  moreover have "alive ?h q = (alive h' q \<and> q \<noteq> dl_head l)" for q by (auto simp: alive_def)
  ultimately show ?thesis using r(3,4) by (intro exI [of _ ?h]) auto
next
  case False
  then have "xs = []" "shape h (dl_head l) []" "data_at h (dl_head l) = NULL" using ok by (auto simp: dl_ok_def shape_def)
  then show ?thesis using destroy_empty [of h l] by (auto simp: contents_def alive_def)
qed

section \<open>Searching\<close>

lemma find_from_ok:
  assumes "ring h (dl_head l) (us @ xs)"
  shows "find_from eqf target l h (hd (xs @ [dl_head l]))
    = Some (case List.find (eqf target) (contents h xs) of None \<Rightarrow> NULL | Some d \<Rightarrow> d)"
  using assms
proof (induction xs arbitrary: us)
  case Nil
  then show ?case by (subst find_from.simps) (simp add: contents_def)
next
  case (Cons x xs)
  have x: "alive h x" "x \<noteq> dl_head l" "ml_next (links h x) = hd (xs @ [dl_head l])"
    using ring_ends(3,5) [OF Cons.prems] ring_node(1) [OF Cons.prems] by auto
  then show ?case using Cons.IH [of "us @ [x]"] Cons.prems by (subst find_from.simps) (simp add: dl_run contents_def)
qed

lemma transform_from_ok:
  assumes "ring h (dl_head l) (us @ xs)"
  shows "transform_from l h (hd (xs @ [dl_head l])) = Some (contents h xs)"
  using assms
proof (induction xs arbitrary: us)
  case Nil
  then show ?case by (subst transform_from.simps) (simp add: contents_def)
next
  case (Cons x xs)
  have x: "alive h x" "x \<noteq> dl_head l" "ml_next (links h x) = hd (xs @ [dl_head l])"
    using ring_ends(3,5) [OF Cons.prems] ring_node(1) [OF Cons.prems] by auto
  then show ?case using Cons.IH [of "us @ [x]"] Cons.prems by (subst transform_from.simps) (simp add: dl_run contents_def)
qed

section \<open>Inserting in order\<close>

lemma sorted_place_ok:
  assumes "ring h (dl_head l) (us @ xs)" and "dl_marker l = hd (xs @ [dl_head l])"
  shows "sorted_place sorter data h l
    = Some (l\<lparr>dl_marker := hd (dropWhile (\<lambda>p. \<not> sorter data (data_at h p)) xs @ [dl_head l])\<rparr>)"
  using assms
proof (induction xs arbitrary: us l)
  case Nil
  then show ?case by (subst sorted_place.simps) simp
next
  case (Cons x xs)
  have x: "alive h x" "x \<noteq> dl_head l" using ring_ends(3,5) [OF Cons.prems(1)] by auto
  obtain d where mv: "dlist_mark_move h l True = Some (d, l\<lparr>dl_marker := hd (xs @ [dl_head l])\<rparr>)"
    using mark_move_ok [OF Cons.prems(1), of True] Cons.prems(2) by auto
  show ?case
  proof (cases "sorter data (data_at h x)")
    case True
    then show ?thesis using x Cons.prems(2) by (subst sorted_place.simps) (simp add: dl_run)
  next
    case False
    then show ?thesis
      using Cons.IH [of "l\<lparr>dl_marker := hd (xs @ [dl_head l])\<rparr>" "us @ [x]"] Cons.prems x mv by (subst sorted_place.simps) (simp add: dl_run)
  qed
qed


lemma insert_sorted_ok:
  assumes ok: "dl_ok h l xs" and len: "Suc (length xs) < 2 ^ 63" and p: "alloc \<noteq> NULL" "\<not> alive h alloc" "data \<noteq> NULL"
  shows "\<exists>l' h'. dlist_insert_sorted alloc l data sorter h = Some (data, l', h') \<and> dm_deleted h' = dm_deleted h
    \<and> holds h' l' (takeWhile (\<lambda>d. \<not> sorter data d) (contents h xs) @ data # dropWhile (\<lambda>d. \<not> sorter data d) (contents h xs))"
proof -
  let ?P = "\<lambda>p. \<not> sorter data (data_at h p)"
  let ?us = "takeWhile ?P xs" and ?vs = "dropWhile ?P xs"
  let ?l = "l\<lparr>dl_marker := hd (?vs @ [dl_head l])\<rparr>"
  have place: "sorted_place sorter data h (l\<lparr>dl_marker := hd (xs @ [dl_head l])\<rparr>) = Some ?l"
  proof (cases "ring h (dl_head l) xs")
    case True
    then show ?thesis using sorted_place_ok [of h "l\<lparr>dl_marker := hd (xs @ [dl_head l])\<rparr>" "[]" xs sorter data] by simp
  next
    case False
    then have "xs = []" using ok by (auto simp: dl_ok_def shape_def)
    then show ?thesis by (subst sorted_place.simps) simp
  qed
  have ok1: "dl_ok h ?l (?us @ ?vs)" using ok ends_in(2) [of ?vs "dl_head l" ?us] by (auto simp: dl_ok_def)
  have "NULL \<notin> set (dl_head l # ?us @ ?vs)" using shape_facts(2) [of h "dl_head l" xs] ok by (simp add: dl_ok_def)
  moreover have "hd (?vs @ [dl_head l]) \<in> set (dl_head l # ?us @ ?vs)" by (rule ends_in(2))
  ultimately have "hd (?vs @ [dl_head l]) \<noteq> NULL" by metis
  then have pl: "at_place ?l ?us ?vs False" by (simp add: at_place_def mark_or_head_def)
  obtain h' where h': "dlist_insert alloc ?l data False h = Some (data, ?l\<lparr>dl_marker := alloc, dl_count := dl_count ?l + 1\<rparr>, h')"
    "dl_ok h' (?l\<lparr>dl_marker := alloc, dl_count := dl_count ?l + 1\<rparr>) (?us @ alloc # ?vs)"
    "frame (set (alloc # dl_head ?l # ?us @ ?vs)) (new_node alloc data h) h'"
    using insert_ok [OF ok1 pl _ p] len by auto
  have "dlist_insert_sorted alloc l data sorter h = Some (data, ?l\<lparr>dl_marker := alloc, dl_count := dl_count ?l + 1\<rparr>, h')"
    using start_next [OF ok] place h'(1) by (auto simp: dlist_insert_sorted_def)
  moreover have "dm_deleted h' = dm_deleted h" using h'(3) by (simp add: frame_def new_node_simps)
  moreover have "contents h ?us = takeWhile (\<lambda>d. \<not> sorter data d) (contents h xs)" "contents h ?vs = dropWhile (\<lambda>d. \<not> sorter data d) (contents h xs)"
    by (simp_all add: contents_def takeWhile_map dropWhile_map comp_def)
  ultimately show ?thesis using inserted_holds [OF ok1 p(2) h'(3,2)] by metis
qed

lemma unshift_sorted_eq:
  assumes ok: "dl_ok h l xs" and "data \<noteq> NULL"
  shows "dlist_unshift_sorted alloc l data sorter h = map_option snd (dlist_insert_sorted alloc l data sorter h)"
proof (cases "dl_count l = 0")
  case True
  then have xs: "xs = []" using count_eq [OF ok] by simp
  note hl = head_links [OF ok]
  have nz: "dl_head l \<noteq> NULL" using shape_facts(2) [of h "dl_head l" xs] ok by (simp add: dl_ok_def)
  have "sorted_place sorter data h (l\<lparr>dl_marker := dl_head l\<rparr>) = Some (l\<lparr>dl_marker := dl_head l\<rparr>)" by (subst sorted_place.simps) simp
  then have "dlist_insert_sorted alloc l data sorter h = dlist_insert alloc (l\<lparr>dl_marker := dl_head l\<rparr>) data False h"
    using start_next [OF ok] xs by (auto simp: dlist_insert_sorted_def)
  moreover have "mark_or_head (l\<lparr>dl_marker := NULL\<rparr>) = mark_or_head (l\<lparr>dl_marker := dl_head l\<rparr>)" using nz by (simp add: mark_or_head_def)
  ultimately show ?thesis
    using True hl xs assms(2) by (auto simp: dlist_unshift_sorted_def dlist_unshift_def dlist_insert_def)
next
  case False
  then show ?thesis using head_links(1) [OF ok] by (simp add: dlist_unshift_sorted_def dlist_insert_sorted_def dlist_start_def)
qed

lemma sorted_insertion:
  assumes "Sorting_Algorithms.sorted cmp ds"
  shows "Sorting_Algorithms.sorted cmp (takeWhile (\<lambda>d. compare cmp x d \<noteq> Less) ds @ x # dropWhile (\<lambda>d. compare cmp x d \<noteq> Less) ds)"
  using assms
proof (induction ds rule: induct_list012)
  case (2 y)
  then show ?case by (auto simp: compare.greater_iff_sym_less)
next
  case (3 y z zs)
  then show ?case by (auto simp: compare.greater_iff_sym_less)
qed simp

section \<open>Filtering\<close>

definition kept_nodes :: "(addr \<Rightarrow> bool) \<Rightarrow> dl_mem \<Rightarrow> addr list \<Rightarrow> addr list" where
  "kept_nodes flt h xs = filter (\<lambda>p. flt (data_at h p)) xs"

definition dropped_nodes :: "(addr \<Rightarrow> bool) \<Rightarrow> dl_mem \<Rightarrow> addr list \<Rightarrow> addr list" where
  "dropped_nodes flt h xs = filter (\<lambda>p. \<not> flt (data_at h p)) xs"

lemma kept_cong:
  assumes "\<forall>q \<in> set xs. data_at h' q = data_at h q"
  shows "kept_nodes flt h' xs = kept_nodes flt h xs" "dropped_nodes flt h' xs = dropped_nodes flt h xs"
    "contents h' (dropped_nodes flt h xs) = contents h (dropped_nodes flt h xs)"
  using assms unfolding kept_nodes_def dropped_nodes_def contents_def by (auto cong: filter_cong)

lemma filter_from_ok:
  assumes "dl_ok h l (us @ xs)" and "ring h (dl_head l) (us @ xs)"
  shows "\<exists>l' h'. filter_from flt (hd (xs @ [dl_head l])) l h = Some (l', h') \<and> dl_ok h' l' (us @ kept_nodes flt h xs)
    \<and> dl_head l' = dl_head l \<and> dm_deleted h' = dm_deleted h @ contents h (dropped_nodes flt h xs)
    \<and> (\<forall>q. alive h' q = (alive h q \<and> q \<notin> set (dropped_nodes flt h xs))) \<and> (\<forall>q. alive h' q \<longrightarrow> data_at h' q = data_at h q)"
  using assms
proof (induction xs arbitrary: us l h)
  case Nil
  then show ?case by (subst filter_from.simps) (simp add: contents_def kept_nodes_def dropped_nodes_def)
next
  case (Cons x xs)
  have x: "alive h x" "x \<noteq> dl_head l" "ml_next (links h x) = hd (xs @ [dl_head l])" "x \<notin> set (us @ xs)"
    using ring_ends(3,5) [OF Cons.prems(2)] ring_node(1) [OF Cons.prems(2)] by auto
  have dx: "data_at h x \<noteq> NULL" using Cons.prems(1) by (simp add: dl_ok_def)
  show ?case
  proof (cases "flt (data_at h x)")
    case True
    then have "filter_from flt (hd ((x # xs) @ [dl_head l])) l h = filter_from flt (hd (xs @ [dl_head l])) l h"
      using x by (subst filter_from.simps) (simp add: dl_run)
    then show ?thesis using Cons.IH [of h l "us @ [x]"] Cons.prems True by (auto simp: kept_nodes_def dropped_nodes_def)
  next
    case False
    let ?l = "l\<lparr>dl_marker := next_mark l us x xs False, dl_count := dl_count l - 1\<rparr>"
    obtain h1 where h1: "dlist_remove l x False h = Some (data_at h x, ?l, h1)" "dl_ok h1 ?l (us @ xs)" "ring h1 (dl_head l) (us @ xs)"
      "\<not> alive h1 x" "\<forall>q. q \<noteq> x \<longrightarrow> data_at h1 q = data_at h q \<and> alive h1 q = alive h q" "dm_deleted h1 = dm_deleted h"
      using remove_ok [OF Cons.prems(1)] by blast
    let ?h = "del_func (data_at h x) h1"
    have same: "dm_node ?h = dm_node h1" by (simp add: del_func_def)
    then have ok: "dl_ok ?h ?l (us @ xs)" "ring ?h (dl_head ?l) (us @ xs)"
      using dl_ok_frame [OF h1(2)] h1(3) shape_cong(2) [of "dl_head l" "us @ xs" ?h h1] by simp_all
    have q: "alive ?h q = (alive h q \<and> q \<noteq> x)" "q \<noteq> x \<Longrightarrow> data_at ?h q = data_at h q" for q
    proof -
      have sm: "alive ?h = alive h1" "data_at ?h = data_at h1" using same by (simp_all add: alive_def data_at_def fun_eq_iff)
      show "alive ?h q = (alive h q \<and> q \<noteq> x)" "q \<noteq> x \<Longrightarrow> data_at ?h q = data_at h q" using h1(4,5) unfolding sm by auto
    qed
    have "\<forall>q \<in> set xs. data_at ?h q = data_at h q" using q(2) x(4) by (metis Un_iff set_append)
    note ks = kept_cong [OF this]
    have run: "filter_from flt (hd ((x # xs) @ [dl_head l])) l h = filter_from flt (hd (xs @ [dl_head l])) ?l ?h"
      using x dx False h1(1) by (subst filter_from.simps) (simp add: dl_run)
    obtain l' h' where r: "filter_from flt (hd (xs @ [dl_head ?l])) ?l ?h = Some (l', h')" "dl_ok h' l' (us @ kept_nodes flt h xs)"
      "dl_head l' = dl_head ?l" "dm_deleted h' = dm_deleted ?h @ contents h (dropped_nodes flt h xs)"
      "\<forall>q. alive h' q = (alive ?h q \<and> q \<notin> set (dropped_nodes flt h xs))" "\<forall>q. alive h' q \<longrightarrow> data_at h' q = data_at ?h q"
      using Cons.IH [OF ok] unfolding ks by blast
    have d: "dropped_nodes flt h (x # xs) = x # dropped_nodes flt h xs" "kept_nodes flt h (x # xs) = kept_nodes flt h xs"
      using False by (simp_all add: dropped_nodes_def kept_nodes_def)
    show ?thesis unfolding run d
      by (intro exI [of _ l'] exI [of _ h'] conjI) (use r q h1(6) in \<open>auto simp: del_func_def contents_def\<close>)
  qed
qed


lemma sort_map_key: "Sorting_Algorithms.sort cmp (map f xs) = map f (Sorting_Algorithms.sort (key f cmp) xs)"
proof (rule Sorting_Algorithms.sort_eqI)
  have "Sorting_Algorithms.sorted cmp (map f zs) = Sorting_Algorithms.sorted (key f cmp) zs" for zs
    by (induction zs rule: induct_list012) simp_all
  then show "Sorting_Algorithms.sorted cmp (map f (Sorting_Algorithms.sort (key f cmp) xs))" by simp
  fix y assume "y \<in> set (map f xs)"
  then obtain k where k: "y = f k" by auto
  show "filter (\<lambda>z. compare cmp y z = Equiv) (map f xs) = filter (\<lambda>z. compare cmp y z = Equiv) (map f (Sorting_Algorithms.sort (key f cmp) xs))"
    using stable_sort [of "key f cmp" k xs] unfolding filter_map comp_def k by simp
qed simp

lemma sort_contents: "contents h (Sorting_Algorithms.sort (node_cmp h cmp) xs) = Sorting_Algorithms.sort cmp (contents h xs)"
  by (simp add: contents_def node_cmp_def sort_map_key)

lemma sort_key_cong:
  assumes "\<forall>x \<in> set xs. f x = g x"
  shows "Sorting_Algorithms.sort (key f cmp) xs = Sorting_Algorithms.sort (key g cmp) xs"
proof (rule Sorting_Algorithms.sort_eqI)
  have set: "set (Sorting_Algorithms.sort (key g cmp) xs) = set xs" by (metis Sorting_Algorithms.mset_sort set_mset_mset)
  have "Sorting_Algorithms.sorted (key f cmp) zs = Sorting_Algorithms.sorted (key g cmp) zs" if "set zs \<subseteq> set xs" for zs
    using that assms by (induction zs rule: induct_list012) auto
  then show "Sorting_Algorithms.sorted (key f cmp) (Sorting_Algorithms.sort (key g cmp) xs)" using set by simp
  fix y assume y: "y \<in> set xs"
  have eq: "filter (\<lambda>z. compare (key f cmp) y z = Equiv) zs = filter (\<lambda>z. compare (key g cmp) y z = Equiv) zs" if "set zs = set xs" for zs
    using that assms y by (auto intro!: filter_cong)
  then show "filter (\<lambda>z. compare (key f cmp) y z = Equiv) xs = filter (\<lambda>z. compare (key f cmp) y z = Equiv) (Sorting_Algorithms.sort (key g cmp) xs)"
    using eq [OF set] eq [of xs] stable_sort [of "key g cmp" y xs] by metis
qed simp

lemma filter_sort_ok:
  assumes ok: "dl_ok h l xs" and o: "orders cmpf cmp" and len: "length xs < 2 ^ 31" and p: "alloc \<noteq> NULL" "\<not> alive h alloc" and ne: "xs \<noteq> []"
  shows "\<exists>l' h'. dlist_filter_sort (Some flt) cmpf alloc l h = Some (l', h') \<and> dl_head l' = dl_head l
    \<and> dl_ok h' l' (Sorting_Algorithms.sort (node_cmp h cmp) (kept_nodes flt h xs))
    \<and> (\<forall>q. alive h' q = (alive h q \<and> q \<notin> set (dropped_nodes flt h xs))) \<and> (\<forall>q. alive h' q \<longrightarrow> data_at h' q = data_at h q)
    \<and> dm_deleted h' = dm_deleted h @ contents h (dropped_nodes flt h xs)"
proof -
  have cnt: "dl_count l \<noteq> 0" using count_eq [OF ok] ne by auto
  have r: "ring h (dl_head l) xs" using ok ne by (simp add: dl_ok_def shape_def)
  obtain l1 h1 where f: "filter_from flt (hd (xs @ [dl_head l])) l h = Some (l1, h1)" "dl_ok h1 l1 (kept_nodes flt h xs)"
    "dl_head l1 = dl_head l" "dm_deleted h1 = dm_deleted h @ contents h (dropped_nodes flt h xs)"
    "\<forall>q. alive h1 q = (alive h q \<and> q \<notin> set (dropped_nodes flt h xs))" "\<forall>q. alive h1 q \<longrightarrow> data_at h1 q = data_at h q"
    using filter_from_ok [of h l "[]" xs flt] ok r by auto
  have len1: "length (kept_nodes flt h xs) < 2 ^ 31" unfolding kept_nodes_def by (rule le_less_trans [OF length_filter_le len])
  have same: "data_at h1 q = data_at h q" if "q \<in> set (kept_nodes flt h xs)" for q
    using f(2,6) that shape_facts(3) [of h1 "dl_head l1" "kept_nodes flt h xs"] by (auto simp: dl_ok_def)
  have srt: "Sorting_Algorithms.sort (node_cmp h1 cmp) (kept_nodes flt h xs) = Sorting_Algorithms.sort (node_cmp h cmp) (kept_nodes flt h xs)"
    unfolding node_cmp_def by (rule sort_key_cong) (simp add: same)
  obtain l2 h2 where s: "dlist_sort_custom cmpf alloc l1 h1 = Some (l2, h2)" "dl_ok h2 l2 (Sorting_Algorithms.sort (node_cmp h1 cmp) (kept_nodes flt h xs))"
    "dl_head l2 = dl_head l1" "only_moved (set (dl_head l1 # kept_nodes flt h xs)) h1 h2"
    using sort_custom_ok [OF f(2) o len1 p(1)] p(2) f(5) by (auto simp: sort_done_def)
  have "dlist_filter_sort (Some flt) cmpf alloc l h = Some (l2, h2)"
    using cnt head_links [OF ok] ne f(1) s(1) ring_ends(6) [OF r] by (auto simp: dlist_filter_sort_def)
  then show ?thesis
    using s f(3-6) srt by (intro exI [of _ l2] exI [of _ h2]) (auto simp: only_moved_def)
qed

section \<open>The contract of the ends\<close>

fun shifts :: "('s \<Rightarrow> ('a \<times> 's) option) \<Rightarrow> nat \<Rightarrow> 's \<Rightarrow> ('a list \<times> 's) option" where
  "shifts sh 0 s = Some ([], s)"
| "shifts sh (Suc n) s = Option.bind (sh s) (\<lambda>(d, s1). Option.bind (shifts sh n s1) (\<lambda>(ds, s2). Some (d # ds, s2)))"

text \<open>What a client of a double-ended queue relies on; \<open>room\<close> is what an insertion needs from the allocator.\<close>

locale deque =
  fixes rep :: "'s \<Rightarrow> 'a list \<Rightarrow> bool" and room :: "'s \<Rightarrow> 'r \<Rightarrow> bool" and element :: "'a \<Rightarrow> bool" and bound :: nat
    and push :: "'r \<Rightarrow> 'a \<Rightarrow> 's \<Rightarrow> 's option" and unshift :: "'r \<Rightarrow> 'a \<Rightarrow> 's \<Rightarrow> 's option"
    and pop :: "'s \<Rightarrow> ('a \<times> 's) option" and shift :: "'s \<Rightarrow> ('a \<times> 's) option"
  assumes push: "rep s ds \<Longrightarrow> room s r \<Longrightarrow> element d \<Longrightarrow> Suc (length ds) < bound \<Longrightarrow> \<exists>s'. push r d s = Some s' \<and> rep s' (ds @ [d])"
    and unshift: "rep s ds \<Longrightarrow> room s r \<Longrightarrow> element d \<Longrightarrow> Suc (length ds) < bound \<Longrightarrow> \<exists>s'. unshift r d s = Some s' \<and> rep s' (d # ds)"
    and pop: "rep s (ds @ [d]) \<Longrightarrow> \<exists>s'. pop s = Some (d, s') \<and> rep s' ds"
    and shift: "rep s (d # ds) \<Longrightarrow> \<exists>s'. shift s = Some (d, s') \<and> rep s' ds"
begin

lemma push_then_pop:
  assumes "rep s ds" "room s r" "element d" "Suc (length ds) < bound"
  shows "\<exists>s1 s2. push r d s = Some s1 \<and> rep s1 (ds @ [d]) \<and> pop s1 = Some (d, s2) \<and> rep s2 ds"
  using push [OF assms] pop by blast

lemma unshift_then_shift:
  assumes "rep s ds" "room s r" "element d" "Suc (length ds) < bound"
  shows "\<exists>s1 s2. unshift r d s = Some s1 \<and> rep s1 (d # ds) \<and> shift s1 = Some (d, s2) \<and> rep s2 ds"
  using unshift [OF assms] shift by blast

lemma push_then_shift:
  assumes "rep s ds" "room s r" "element d" "Suc (length ds) < bound"
  shows "\<exists>s1 s2. push r d s = Some s1 \<and> shift s1 = Some (hd (ds @ [d]), s2) \<and> rep s2 (tl (ds @ [d]))"
proof -
  obtain s1 where "push r d s = Some s1" "rep s1 (hd (ds @ [d]) # tl (ds @ [d]))" using push [OF assms] by (metis append_is_Nil_conv list.collapse not_Cons_self2)
  then show ?thesis using shift by blast
qed

lemma shifts_drain: "rep s ds \<Longrightarrow> \<exists>s'. shifts shift (length ds) s = Some (ds, s') \<and> rep s' []"
proof (induction ds arbitrary: s)
  case (Cons d ds)
  obtain s1 where "shift s = Some (d, s1)" "rep s1 ds" using shift [OF Cons.prems] by blast
  then show ?case using Cons.IH [of s1] by fastforce
qed simp

end

interpretation dl_ends: deque "\<lambda>(l, h). holds h l" "\<lambda>(l, h) a. a \<noteq> NULL \<and> \<not> alive h a" "\<lambda>d. d \<noteq> NULL" "2 ^ 63"
  "\<lambda>a d (l, h). dlist_push a l d h" "\<lambda>a d (l, h). dlist_unshift a l d h" "\<lambda>(l, h). dlist_pop l h" "\<lambda>(l, h). dlist_shift l h"
proof (unfold_locales, goal_cases)
  case (1 s ds r d)
  then show ?case using push_ok [of "snd s" "fst s" _ r d] by (cases s) (fastforce simp: holds_def contents_def)
next
  case (2 s ds r d)
  then show ?case using unshift_ok [of "snd s" "fst s" _ r d] by (cases s) (fastforce simp: holds_def contents_def)
next
  case (3 s ds d)
  obtain l h where s: "s = (l, h)" by (cases s)
  then obtain xs where x: "dl_ok h l xs" "ds @ [d] = contents h xs" using 3 by (auto simp: holds_def)
  then obtain us p where u: "xs = us @ [p]" "ds = contents h us" "d = data_at h p" by (cases xs rule: rev_cases) (auto simp: contents_def)
  then show ?case using pop_ok [of h l us p] x s by auto
next
  case (4 s d ds)
  obtain l h where s: "s = (l, h)" by (cases s)
  then obtain xs where x: "dl_ok h l xs" "d # ds = contents h xs" using 4 by (auto simp: holds_def)
  then obtain p vs where u: "xs = p # vs" "ds = contents h vs" "d = data_at h p" by (cases xs) (auto simp: contents_def)
  then show ?case using shift_ok [of h l p vs] x s by auto
qed

lemma mark_move_head: "dlist_mark_move h l d = Some (a, l') \<Longrightarrow> dl_head l' = dl_head l"
  by (auto simp: dlist_mark_move_def Let_def split: if_splits Option.bind_splits)

lemma remove_head: "dl_head l \<noteq> NULL \<Longrightarrow> dlist_remove l (dl_head l) d h = None"
  by (auto simp: dlist_remove_def dl_free_def dest: mark_move_head split: Option.bind_splits if_splits)

section \<open>Theorems\<close>

text \<open>A list of four nodes, and a comparison that ignores the lowest four bits of what it compares.\<close>

definition demo_mem :: dl_mem where
  "demo_mem = \<lparr>dm_node = [0x100 \<mapsto> \<lparr>dn_prev = 0x40, dn_next = 0x10, dn_data = NULL\<rparr>,
     0x10 \<mapsto> \<lparr>dn_prev = 0x100, dn_next = 0x20, dn_data = 0x72\<rparr>, 0x20 \<mapsto> \<lparr>dn_prev = 0x10, dn_next = 0x30, dn_data = 0x30\<rparr>,
     0x30 \<mapsto> \<lparr>dn_prev = 0x20, dn_next = 0x40, dn_data = 0x71\<rparr>, 0x40 \<mapsto> \<lparr>dn_prev = 0x30, dn_next = 0x100, dn_data = 0x10\<rparr>],
     dm_deleted = []\<rparr>"

definition demo_dl :: dlist where
  "demo_dl = \<lparr>dl_marker = NULL, dl_count = 4, dl_data_size = 8, dl_del_func = FREE_FUNC, dl_head = 0x100\<rparr>"

definition demo_cmp :: "addr \<Rightarrow> addr \<Rightarrow> int" where
  "demo_cmp a b = uint (a div 16) - uint (b div 16)"

definition demo_order :: "addr comparator" where
  "demo_order = key (\<lambda>w. w div 16) default"

lemma demo_ok: "dl_ok demo_mem demo_dl [0x10, 0x20, 0x30, 0x40]" "\<not> alive demo_mem 0x900"
  "contents demo_mem [0x10, 0x20, 0x30, 0x40] = [0x72, 0x30, 0x71, 0x10]"
  by (simp_all add: dl_ok_def shape_def ring_def dll_def links_def alive_def data_at_def demo_mem_def demo_dl_def contents_def)

lemma demo_holds: "holds demo_mem demo_dl [0x72, 0x30, 0x71, 0x10]"
  unfolding holds_def using demo_ok(1,3) by metis

lemma demo_orders: "orders demo_cmp demo_order"
  by (simp add: orders_def demo_cmp_def demo_order_def word_less_def)

lemma demo_sorted: "Sorting_Algorithms.sort demo_order [0x72, 0x30, 0x71, 0x10] = [0x10, 0x30, 0x72, 0x71]"
  "Sorting_Algorithms.sort demo_order [0x72, 0x71] = [0x72, 0x71]"
  by (simp_all add: Sorting_Algorithms.sort_def demo_order_def)

text \<open>
  C28: \<open>dlist_sort_custom\<close> returns, and leaves the nodes of the list in the order of the stable sort by the comparison of
  their data: the same nodes, linked as a list again with the marker on a node of it. Data and every other node stay as
  they are, nothing is deleted and the temporary list is gone.
\<close>

theorem sort_custom_sorts:
  assumes "dl_ok h l xs" and "orders cmpf cmp" and "length xs < 2 ^ 31" and "alloc \<noteq> NULL" and "\<not> alive h alloc"
  shows "\<exists>l' h'. dlist_sort_custom cmpf alloc l h = Some (l', h') \<and> dl_head l' = dl_head l
    \<and> dl_ok h' l' (Sorting_Algorithms.sort (node_cmp h cmp) xs) \<and> holds h' l' (Sorting_Algorithms.sort cmp (contents h xs))
    \<and> only_moved (set (dl_head l # xs)) h h'"
proof -
  obtain l' h' where r: "dlist_sort_custom cmpf alloc l h = Some (l', h')" "dl_ok h' l' (Sorting_Algorithms.sort (node_cmp h cmp) xs)"
    "dl_head l' = dl_head l" "only_moved (set (dl_head l # xs)) h h'"
    using sort_custom_ok [OF assms] by (auto simp: sort_done_def)
  have "contents h' ys = contents h ys" for ys using r(4) by (simp add: contents_def only_moved_def)
  then have "holds h' l' (Sorting_Algorithms.sort cmp (contents h xs))" using r(2) sort_contents [of h cmp xs] unfolding holds_def by metis
  then show ?thesis using r by blast
qed

theorem sort_custom_sorts_witness:
  "\<exists>l' h'. dlist_sort_custom demo_cmp 0x900 demo_dl demo_mem = Some (l', h') \<and> holds h' l' [0x10, 0x30, 0x72, 0x71] \<and> dm_deleted h' = []"
  using sort_custom_sorts [OF demo_ok(1) demo_orders _ _ demo_ok(2)] demo_sorted(1) demo_ok(3)
  by (auto simp: only_moved_def demo_mem_def)

text \<open>
  \<open>dlist_filter_sort\<close> keeps exactly the data the filter accepts, in the order of the stable sort, and gives the rest
  to the delete function, in the order of the list; only the nodes of rejected data are freed.
\<close>

theorem filter_sort_selects:
  assumes "dl_ok h l xs" and "orders cmpf cmp" and "length xs < 2 ^ 31" and "alloc \<noteq> NULL" and "\<not> alive h alloc"
  shows "\<exists>l' h'. dlist_filter_sort (Some flt) cmpf alloc l h = Some (l', h') \<and> dl_head l' = dl_head l
    \<and> holds h' l' (Sorting_Algorithms.sort cmp (filter flt (contents h xs)))
    \<and> dm_deleted h' = dm_deleted h @ filter (\<lambda>d. \<not> flt d) (contents h xs)
    \<and> (\<forall>q. alive h' q = (alive h q \<and> \<not> (q \<in> set xs \<and> \<not> flt (data_at h q))))"
proof (cases "xs = []")
  case True
  then have "dl_count l = 0" "Sorting_Algorithms.sort cmp [] = []" using assms(1) by (simp_all add: dl_ok_def)
  then show ?thesis using True assms(1) by (auto simp: dlist_filter_sort_def contents_def holds_def)
next
  case False
  let ?z = "Sorting_Algorithms.sort (node_cmp h cmp) (kept_nodes flt h xs)"
  obtain l' h' where r: "dlist_filter_sort (Some flt) cmpf alloc l h = Some (l', h')" "dl_head l' = dl_head l" "dl_ok h' l' ?z"
    "\<forall>q. alive h' q = (alive h q \<and> q \<notin> set (dropped_nodes flt h xs))" "\<forall>q. alive h' q \<longrightarrow> data_at h' q = data_at h q"
    "dm_deleted h' = dm_deleted h @ contents h (dropped_nodes flt h xs)"
    using filter_sort_ok [OF assms False] by blast
  have "contents h' ?z = contents h ?z"
    using r(3,5) shape_facts(3) [of h' "dl_head l'" ?z] by (auto simp: contents_def dl_ok_def)
  then have "contents h' ?z = Sorting_Algorithms.sort cmp (contents h (kept_nodes flt h xs))" by (simp add: sort_contents)
  moreover have "contents h (kept_nodes flt h xs) = filter flt (contents h xs)" "contents h (dropped_nodes flt h xs) = filter (\<lambda>d. \<not> flt d) (contents h xs)"
    by (simp_all add: contents_def kept_nodes_def dropped_nodes_def filter_map comp_def)
  ultimately have "holds h' l' (Sorting_Algorithms.sort cmp (filter flt (contents h xs)))" using r(3) unfolding holds_def by metis
  then show ?thesis
    using r(1,2,4,6) \<open>contents h (dropped_nodes flt h xs) = _\<close> by (intro exI [of _ l'] exI [of _ h']) (auto simp: dropped_nodes_def)
qed

theorem filter_sort_selects_witness:
  "\<exists>l' h'. dlist_filter_sort (Some (\<lambda>d. 0x40 < d)) demo_cmp 0x900 demo_dl demo_mem = Some (l', h')
    \<and> holds h' l' [0x72, 0x71] \<and> dm_deleted h' = [0x30, 0x10]"
  using filter_sort_selects [OF demo_ok(1) demo_orders _ _ demo_ok(2), of "\<lambda>d. 0x40 < d"] demo_sorted(2) demo_ok(3)
  by (auto simp: demo_mem_def)

text \<open>
  The ends of a list are those of a double-ended queue: what was pushed last is popped first and what was unshifted
  last is shifted first, each leaving the sequence as it was, and shifting as often as there are data gives all of them
  in the order they were pushed.
\<close>

theorem list_ends:
  assumes "holds h l ds" and "alloc \<noteq> NULL" and "\<not> alive h alloc" and "data \<noteq> NULL" and "Suc (length ds) < 2 ^ 63"
  shows "(\<exists>l1 h1 l2 h2. dlist_push alloc l data h = Some (l1, h1) \<and> holds h1 l1 (ds @ [data])
      \<and> dlist_pop l1 h1 = Some (data, l2, h2) \<and> holds h2 l2 ds)
    \<and> (\<exists>l1 h1 l2 h2. dlist_unshift alloc l data h = Some (l1, h1) \<and> holds h1 l1 (data # ds)
      \<and> dlist_shift l1 h1 = Some (data, l2, h2) \<and> holds h2 l2 ds)
    \<and> (\<exists>l1 h1. shifts (\<lambda>(l, h). dlist_shift l h) (length ds) (l, h) = Some (ds, l1, h1) \<and> holds h1 l1 [])"
  using dl_ends.push_then_pop [of "(l, h)" ds alloc data] dl_ends.unshift_then_shift [of "(l, h)" ds alloc data]
    dl_ends.shifts_drain [of "(l, h)" ds] assms by auto

theorem list_ends_witness:
  "\<exists>l1 h1 l2 h2. dlist_push 0x900 demo_dl 0x55 demo_mem = Some (l1, h1) \<and> holds h1 l1 [0x72, 0x30, 0x71, 0x10, 0x55]
    \<and> dlist_pop l1 h1 = Some (0x55, l2, h2) \<and> holds h2 l2 [0x72, 0x30, 0x71, 0x10]"
  using list_ends [OF demo_holds _ demo_ok(2), of "0x55"] by auto

text \<open>
  \<open>dlist_destroy\<close> returns, gives the data of every node to the delete function, once and in the order of the list, and
  frees all nodes and the list, nothing else.
\<close>

theorem destroy_frees_all:
  assumes "dl_ok h l xs"
  shows "\<exists>h'. dlist_destroy l h = Some h' \<and> dm_deleted h' = dm_deleted h @ contents h xs
    \<and> (\<forall>q. alive h' q = (alive h q \<and> q \<notin> set (dl_head l # xs)))"
  by (rule destroy_ok [OF assms])

theorem destroy_frees_all_witness:
  "\<exists>h'. dlist_destroy demo_dl demo_mem = Some h' \<and> dm_deleted h' = [0x72, 0x30, 0x71, 0x10] \<and> \<not> alive h' 0x20 \<and> \<not> alive h' 0x100"
  using destroy_frees_all [OF demo_ok(1)] demo_ok(3) by (auto simp: demo_mem_def demo_dl_def)

text \<open>
  \<open>dlist_insert_sorted\<close>, and \<open>dlist_unshift_sorted\<close> in the same way, inserts the new data before the first data it has to precede, or at the end; when the order of
  \<open>sorter\<close> is that of a comparison and the list was sorted, it stays sorted.
\<close>

theorem insert_sorted_keeps_order:
  assumes "holds h l ds" and "alloc \<noteq> NULL" and "\<not> alive h alloc" and "data \<noteq> NULL" and "Suc (length ds) < 2 ^ 63"
    and "\<forall>a b. sorter a b = (compare cmp a b = Less)" and "Sorting_Algorithms.sorted cmp ds"
  shows "\<exists>l' h' us vs. dlist_insert_sorted alloc l data sorter h = Some (data, l', h')
    \<and> dlist_unshift_sorted alloc l data sorter h = Some (l', h') \<and> holds h' l' (us @ data # vs) \<and> ds = us @ vs
    \<and> Sorting_Algorithms.sorted cmp (us @ data # vs)"
proof -
  let ?P = "\<lambda>d. \<not> sorter data d"
  obtain xs where xs: "dl_ok h l xs" "ds = contents h xs" using assms(1) by (auto simp: holds_def)
  then obtain l' h' where r: "dlist_insert_sorted alloc l data sorter h = Some (data, l', h')"
    "holds h' l' (takeWhile ?P ds @ data # dropWhile ?P ds)"
    using insert_sorted_ok [of h l xs alloc data sorter] assms(2-5) by (auto simp: contents_def)
  have u: "dlist_unshift_sorted alloc l data sorter h = Some (l', h')" using unshift_sorted_eq [OF xs(1) assms(4)] r(1) by simp
  have "Sorting_Algorithms.sorted cmp (takeWhile ?P ds @ data # dropWhile ?P ds)"
    using assms(7) unfolding assms(6) [rule_format] by (rule sorted_insertion)
  then show ?thesis using r u takeWhile_dropWhile_id [of ?P ds] by metis
qed

theorem insert_sorted_keeps_order_witness:
  "\<exists>l' h' us vs. dlist_insert_sorted 0x900 (demo_dl\<lparr>dl_count := 0, dl_head := 0x50\<rparr>) 0x55 (\<lambda>a b. compare demo_order a b = Less)
     (new_node 0x50 NULL demo_mem) = Some (0x55, l', h') \<and> holds h' l' (us @ 0x55 # vs) \<and> [] = us @ vs"
proof -
  let ?h = "new_node 0x50 NULL demo_mem" and ?l = "demo_dl\<lparr>dl_count := 0, dl_head := 0x50\<rparr>"
  have "dl_ok ?h ?l []" by (simp add: dl_ok_def shape_def unlinked_def alive_def links_def data_at_def new_node_def demo_dl_def)
  then have "holds ?h ?l []" unfolding holds_def by (intro exI [of _ "[]"]) (simp add: contents_def)
  moreover have "\<not> alive ?h 0x900" using demo_ok(2) by (simp add: new_node_simps)
  ultimately show ?thesis
    using insert_sorted_keeps_order [of ?h ?l "[]" "0x900" "0x55" "\<lambda>a b. compare demo_order a b = Less" demo_order] by auto
qed

text \<open>
  The last datum of a list can be popped once. The emptied list is a ring of its head, not the list without links
  that a new list is, so that popping again takes the head itself for a node and frees it, where a new list gives NULL.
\<close>

theorem emptied_list_frees_head:
  assumes "dl_ok h l [p]"
  shows "(\<exists>l' h'. dlist_pop l h = Some (data_at h p, l', h') \<and> dl_count l' = 0 \<and> dl_ok h' l' [] \<and> dlist_pop l' h' = None \<and> dlist_shift l' h' = None)
    \<and> (\<forall>l' h'. dl_ok h' l' [] \<longrightarrow> unlinked h' (dl_head l') \<longrightarrow> dlist_pop l' h' = Some (NULL, l', h'))"
proof -
  obtain h' where r: "dlist_remove l p False h = Some (data_at h p, l\<lparr>dl_marker := next_mark l [] p [] False, dl_count := dl_count l - 1\<rparr>, h')"
    "dl_ok h' (l\<lparr>dl_marker := next_mark l [] p [] False, dl_count := dl_count l - 1\<rparr>) []" "ring h' (dl_head l) []"
    using remove_ok [of h l "[]" p "[]" False] assms by auto
  have hd1: "dl_head l \<noteq> NULL" using ring_ends(4) [OF r(3)] by simp
  have "dlist_pop l h = Some (data_at h p, l\<lparr>dl_marker := next_mark l [] p [] False, dl_count := dl_count l - 1\<rparr>, h')"
    using head_links [OF assms] r(1) by (auto simp: dlist_pop_def)
  moreover have "dlist_pop l1 h' = None \<and> dlist_shift l1 h' = None" if "dl_head l1 = dl_head l" for l1
    using ring_ends(1,2,5) [OF r(3)] remove_head [of l1] hd1 that by (simp add: dlist_pop_def dlist_shift_def dl_run)
  moreover have "dl_count l = 1" using assms by (simp add: dl_ok_def)
  moreover have "dlist_pop l' h' = Some (NULL, l', h')" if "unlinked h' (dl_head l')" for l' h'
    using that by (simp add: unlinked_def dlist_pop_def dlist_remove_def dl_run)
  ultimately show ?thesis using r(2) by auto
qed

theorem emptied_list_frees_head_witness:
  "\<exists>l' h'. dlist_pop (demo_dl\<lparr>dl_count := 1\<rparr>) (upd_next 0x100 0x10 (upd_prev 0x100 0x10 (upd_next 0x10 0x100 demo_mem))) = Some (0x72, l', h')
    \<and> dlist_pop l' h' = None"
proof -
  let ?h = "upd_next 0x100 0x10 (upd_prev 0x100 0x10 (upd_next 0x10 0x100 demo_mem))"
  have "dl_ok ?h (demo_dl\<lparr>dl_count := 1\<rparr>) [0x10]" "data_at ?h 0x10 = 0x72"
    by (simp_all add: dl_ok_def shape_def ring_def dll_def links_def alive_def data_at_def demo_mem_def demo_dl_def upd_next_def upd_prev_def)
  then show ?thesis using emptied_list_frees_head [of ?h "demo_dl\<lparr>dl_count := 1\<rparr>" "0x10"] by auto
qed

text \<open>
  On a list that has held data \<open>dlist_find_custom\<close> returns the first datum that matches, or NULL, and
  \<open>dlist_transform\<close> visits every datum once, in order; on a list that never held any both follow a NULL pointer.
\<close>

theorem search_visits_in_order:
  assumes "dl_ok h l xs"
  shows "(ring h (dl_head l) xs \<longrightarrow>
      dlist_find_custom eqf target l h = Some (case List.find (eqf target) (contents h xs) of None \<Rightarrow> NULL | Some d \<Rightarrow> d)
      \<and> dlist_transform l h = Some (contents h xs))
    \<and> (unlinked h (dl_head l) \<longrightarrow> dlist_find_custom eqf target l h = None \<and> dlist_transform l h = None)"
proof (intro conjI impI)
  assume r: "ring h (dl_head l) xs"
  have nx: "node h (dl_head l) = Some \<lparr>dn_prev = last (dl_head l # xs), dn_next = hd (xs @ [dl_head l]), dn_data = data_at h (dl_head l)\<rparr>"
    using ring_ends(1,2,5) [OF r] by (simp add: node_alive)
  show "dlist_find_custom eqf target l h = Some (case List.find (eqf target) (contents h xs) of None \<Rightarrow> NULL | Some d \<Rightarrow> d)"
    using find_from_ok [of h l "[]" xs eqf target] r nx by (simp add: dlist_find_custom_def)
  show "dlist_transform l h = Some (contents h xs)"
    using transform_from_ok [of h l "[]" xs] r nx by (simp add: dlist_transform_def)
next
  assume u: "unlinked h (dl_head l)"
  then have nz: "node h (dl_head l) = Some \<lparr>dn_prev = NULL, dn_next = NULL, dn_data = data_at h (dl_head l)\<rparr>" "dl_head l \<noteq> NULL"
    by (auto simp: unlinked_def node_alive dest: alive_nz)
  have none: "node h NULL = None" by (simp add: node_def)
  have "find_from eqf target l h NULL = None" using nz(2) none by (subst find_from.simps) simp
  then show "dlist_find_custom eqf target l h = None" using nz(1) by (simp add: dlist_find_custom_def)
  have "transform_from l h NULL = None" using nz(2) none by (subst transform_from.simps) simp
  then show "dlist_transform l h = None" using nz(1) by (simp add: dlist_transform_def)
qed

theorem search_visits_in_order_witness:
  "dlist_find_custom (\<lambda>t d. t div 16 = d div 16) 0x7F demo_dl demo_mem = Some 0x72"
proof -
  have "ring demo_mem (dl_head demo_dl) [0x10, 0x20, 0x30, 0x40]" using demo_ok(1) by (simp add: dl_ok_def shape_def)
  then show ?thesis using search_visits_in_order [OF demo_ok(1), of "\<lambda>t d. t div 16 = d div 16" "0x7F"] demo_ok(3) by simp
qed

end
