(* ===== verification/Metal_Mutex.thy ===== *)
theory Metal_Mutex
  imports Prelude
begin

text \<open>
  The locks of libmetal, as programs of atomic instructions that any number of threads run in any
  interleaving: the futex mutex of Linux (\<^verbatim>\<open>src/openamp/libmetal/lib/system/linux/mutex.h\<close>), the
  spinning mutex of the systems without an operating system (\<^verbatim>\<open>system/generic/mutex.h\<close>) and the spin
  lock (\<^verbatim>\<open>lib/spinlock.h\<close>). A thread is where it is in the code; one step executes one atomic
  instruction or system call. The other theories take a lock as one bit of the state, which is what
  these steps refine.
\<close>

section \<open>What a lock promises\<close>

type_synonym tid = nat

text \<open>The set of threads that hold the lock: it is taken when nobody holds it and given back by its holder.\<close>

inductive lock_step :: "tid set \<Rightarrow> tid set \<Rightarrow> bool" where
  take: "lock_step {} {t}"
| give: "lock_step {t} {}"
| keep: "lock_step A A"

locale lock_algorithm =
  fixes start :: 's and lstep :: "'s \<Rightarrow> 's \<Rightarrow> bool" and owns :: "'s \<Rightarrow> tid \<Rightarrow> bool" and inv :: "'s \<Rightarrow> bool"
  assumes inv_start: "inv start" and free_start: "\<not> owns start t"
    and inv_step: "inv s \<Longrightarrow> lstep s s' \<Longrightarrow> inv s'"
    and owner_step: "inv s \<Longrightarrow> lstep s s' \<Longrightarrow> lock_step {t. owns s t} {t. owns s' t}"
begin

lemma reach_inv: "lstep\<^sup>*\<^sup>* start s \<Longrightarrow> inv s"
  by (induction rule: rtranclp_induct) (auto intro: inv_start inv_step)

lemma refines: "lstep\<^sup>*\<^sup>* start s \<Longrightarrow> lock_step\<^sup>*\<^sup>* {} {t. owns s t}"
proof (induction rule: rtranclp_induct)
  case base
  then show ?case by (simp add: free_start)
next
  case (step y z)
  then show ?case using owner_step [OF reach_inv [OF step.hyps(1)] step.hyps(2)] by (meson rtranclp.rtrancl_into_rtrancl)
qed

lemma spec_exclusive: "lock_step\<^sup>*\<^sup>* {} A \<Longrightarrow> t \<in> A \<Longrightarrow> u \<in> A \<Longrightarrow> t = u"
proof -
  have "A = {} \<or> (\<exists>t. A = {t})" if "lock_step\<^sup>*\<^sup>* {} A" for A
    using that by (induction rule: rtranclp_induct) (auto elim: lock_step.cases)
  then show "lock_step\<^sup>*\<^sup>* {} A \<Longrightarrow> t \<in> A \<Longrightarrow> u \<in> A \<Longrightarrow> t = u" by fastforce
qed

lemma exclusive: "lstep\<^sup>*\<^sup>* start s \<Longrightarrow> owns s t \<Longrightarrow> owns s u \<Longrightarrow> t = u"
  using spec_exclusive [OF refines] by blast

end

section \<open>The futex mutex of Linux\<close>

text \<open>
  Where a thread is: outside; about to execute the first exchange, the unconditional exchange or the
  system call of \<open>__metal_mutex_acquire\<close>; asleep in that call; inside, that is about to execute the
  subtraction of \<open>__metal_mutex_release\<close>; about to execute its store, or to wake a sleeper.
\<close>

datatype mpc = Outside | At_Cas | At_Xchg | At_Wait | Asleep | Inside | At_Store | At_Wake

record mutex_state =
  mx_v :: int
  mx_pc :: "tid \<Rightarrow> mpc"

text \<open>\<open>atomic_compare_exchange_strong\<close>: whether it succeeded, what it leaves in \<open>exp\<close>, and the new value.\<close>

definition cas_strong :: "int \<Rightarrow> int \<Rightarrow> int \<Rightarrow> bool \<times> int \<times> int" where
  "cas_strong v exp val = (if v = exp then (True, exp, val) else (False, v, v))"

definition mutex_cmpxchg :: "int \<Rightarrow> int \<Rightarrow> int \<Rightarrow> int \<times> int" where
  "mutex_cmpxchg v exp val = (case cas_strong v exp val of (_, e, v') \<Rightarrow> (e, v'))"

definition mutex_init :: mutex_state where
  "mutex_init = \<lparr>mx_v = 0, mx_pc = \<lambda>_. Outside\<rparr>"

definition mutex_try_acquire :: "int \<Rightarrow> bool \<times> int" where
  "mutex_try_acquire v = (case cas_strong v 0 1 of (ok, _, v') \<Rightarrow> (ok, v'))"

fun mutex_acquire :: "mpc \<Rightarrow> int \<Rightarrow> mpc \<times> int" where
  "mutex_acquire At_Cas v =
     (case cas_strong v 0 1 of (ok, c, v') \<Rightarrow> (if ok then Inside else if c \<noteq> 2 then At_Xchg else At_Wait, v'))"
| "mutex_acquire At_Xchg v = (if v \<noteq> 0 then At_Wait else Inside, 2)"
| "mutex_acquire At_Wait v = (if v = 2 then Asleep else At_Xchg, v)"
| "mutex_acquire p v = (p, v)"

fun mutex_release :: "mpc \<Rightarrow> int \<Rightarrow> mpc \<times> int" where
  "mutex_release Inside v = (if v \<noteq> 1 then At_Store else Outside, v - 1)"
| "mutex_release At_Store v = (At_Wake, 0)"
| "mutex_release p v = (p, v)"

definition mutex_is_acquired :: "int \<Rightarrow> bool" where
  "mutex_is_acquired v = (v \<noteq> 0)"

text \<open>A sleeper may also be interrupted.\<close>

inductive mutex_step :: "mutex_state \<Rightarrow> mutex_state \<Rightarrow> bool" where
  call: "mx_pc s t = Outside \<Longrightarrow> mutex_step s (s\<lparr>mx_pc := (mx_pc s)(t := At_Cas)\<rparr>)"
| try_call: "mx_pc s t = Outside \<Longrightarrow> mutex_try_acquire (mx_v s) = (ok, v) \<Longrightarrow>
    mutex_step s (s\<lparr>mx_v := v, mx_pc := (mx_pc s)(t := if ok then Inside else Outside)\<rparr>)"
| acquire: "mx_pc s t \<in> {At_Cas, At_Xchg, At_Wait} \<Longrightarrow> mutex_acquire (mx_pc s t) (mx_v s) = (p, v) \<Longrightarrow>
    mutex_step s (s\<lparr>mx_v := v, mx_pc := (mx_pc s)(t := p)\<rparr>)"
| release: "mx_pc s t \<in> {Inside, At_Store} \<Longrightarrow> mutex_release (mx_pc s t) (mx_v s) = (p, v) \<Longrightarrow>
    mutex_step s (s\<lparr>mx_v := v, mx_pc := (mx_pc s)(t := p)\<rparr>)"
| wake: "mx_pc s t = At_Wake \<Longrightarrow> mx_pc s u = Asleep \<Longrightarrow> mutex_step s (s\<lparr>mx_pc := (mx_pc s)(t := Outside, u := At_Xchg)\<rparr>)"
| wake_none: "mx_pc s t = At_Wake \<Longrightarrow> \<forall>u. mx_pc s u \<noteq> Asleep \<Longrightarrow> mutex_step s (s\<lparr>mx_pc := (mx_pc s)(t := Outside)\<rparr>)"
| interrupted: "mx_pc s t = Asleep \<Longrightarrow> mutex_step s (s\<lparr>mx_pc := (mx_pc s)(t := At_Xchg)\<rparr>)"

section \<open>The mutex without an operating system\<close>

text \<open>
  A spinning thread has the local variable \<open>unlocked\<close>, into which a failed exchange puts the value it
  found. A weak exchange may also fail without reason.
\<close>

datatype gpc = Idle | Spinning int | Holding

record generic_mutex =
  gm_v :: int
  gm_pc :: "tid \<Rightarrow> gpc"

definition generic_mutex_init :: generic_mutex where
  "generic_mutex_init = \<lparr>gm_v = 0, gm_pc = \<lambda>_. Idle\<rparr>"

definition generic_try_acquire :: "int \<Rightarrow> gpc \<times> int" where
  "generic_try_acquire v = (case cas_strong v 0 1 of (ok, _, v') \<Rightarrow> (if ok then Holding else Idle, v'))"

definition generic_acquire :: "int \<Rightarrow> int \<Rightarrow> gpc \<times> int" where
  "generic_acquire unlocked v = (case cas_strong v unlocked 1 of (ok, e, v') \<Rightarrow> (if ok then Holding else Spinning e, v'))"

definition generic_release :: "int \<Rightarrow> gpc \<times> int" where
  "generic_release v = (Idle, 0)"

inductive generic_step :: "generic_mutex \<Rightarrow> generic_mutex \<Rightarrow> bool" where
  gcall: "gm_pc s t = Idle \<Longrightarrow> generic_step s (s\<lparr>gm_pc := (gm_pc s)(t := Spinning 0)\<rparr>)"
| gtry: "gm_pc s t = Idle \<Longrightarrow> generic_try_acquire (gm_v s) = (p, v) \<Longrightarrow> generic_step s (s\<lparr>gm_v := v, gm_pc := (gm_pc s)(t := p)\<rparr>)"
| gspin: "gm_pc s t = Spinning e \<Longrightarrow> generic_acquire e (gm_v s) = (p, v) \<Longrightarrow> generic_step s (s\<lparr>gm_v := v, gm_pc := (gm_pc s)(t := p)\<rparr>)"
| gspurious: "gm_pc s t = Spinning e \<Longrightarrow> generic_step s (s\<lparr>gm_pc := (gm_pc s)(t := Spinning (gm_v s))\<rparr>)"
| gdone: "gm_pc s t = Holding \<Longrightarrow> generic_release (gm_v s) = (p, v) \<Longrightarrow> generic_step s (s\<lparr>gm_v := v, gm_pc := (gm_pc s)(t := p)\<rparr>)"

section \<open>The spin lock\<close>

datatype spc = Away | Trying | Locked

record spinlock =
  sl_v :: bool
  sl_pc :: "tid \<Rightarrow> spc"

definition metal_spinlock_init :: spinlock where
  "metal_spinlock_init = \<lparr>sl_v = False, sl_pc = \<lambda>_. Away\<rparr>"

definition metal_spinlock_acquire :: "bool \<Rightarrow> spc \<times> bool" where
  "metal_spinlock_acquire v = (if v then Trying else Locked, True)"

definition metal_spinlock_release :: "bool \<Rightarrow> spc \<times> bool" where
  "metal_spinlock_release v = (Away, False)"

inductive spin_step :: "spinlock \<Rightarrow> spinlock \<Rightarrow> bool" where
  scall: "sl_pc s t = Away \<Longrightarrow> spin_step s (s\<lparr>sl_pc := (sl_pc s)(t := Trying)\<rparr>)"
| stry: "sl_pc s t = Trying \<Longrightarrow> metal_spinlock_acquire (sl_v s) = (p, v) \<Longrightarrow> spin_step s (s\<lparr>sl_v := v, sl_pc := (sl_pc s)(t := p)\<rparr>)"
| sdone: "sl_pc s t = Locked \<Longrightarrow> metal_spinlock_release (sl_v s) = (p, v) \<Longrightarrow> spin_step s (s\<lparr>sl_v := v, sl_pc := (sl_pc s)(t := p)\<rparr>)"

section \<open>Laws of the futex mutex\<close>

definition mutex_owns :: "mutex_state \<Rightarrow> tid \<Rightarrow> bool" where
  "mutex_owns s t = (mx_pc s t \<in> {Inside, At_Store})"

text \<open>
  The value is 0 exactly when nobody holds the mutex. Whenever a thread sleeps, the value tells so, or
  some thread is on its way to wake a sleeper or to try again.
\<close>

definition sleeping :: "mutex_state \<Rightarrow> bool" where
  "sleeping s = (\<exists>t. mx_pc s t = Asleep)"

definition helping :: "mutex_state \<Rightarrow> bool" where
  "helping s = (\<exists>t. mx_pc s t \<in> {At_Store, At_Wake, At_Xchg})"

definition mutex_inv :: "mutex_state \<Rightarrow> bool" where
  "mutex_inv s = (mx_v s \<in> {0, 1, 2} \<and> (mx_v s = 0 \<longleftrightarrow> (\<forall>t. \<not> mutex_owns s t))
     \<and> (\<forall>t u. mutex_owns s t \<longrightarrow> mutex_owns s u \<longrightarrow> t = u)
     \<and> (sleeping s \<longrightarrow> mx_v s = 2 \<or> helping s))"

lemma mutex_init_inv: "mutex_inv mutex_init"
  by (simp add: mutex_inv_def mutex_init_def mutex_owns_def sleeping_def)

lemma mutex_move_inv:
  assumes inv: "mutex_inv s" and owner: "mutex_owns s t = (p \<in> {Inside, At_Store})" and v: "v = mx_v s \<or> 0 < v \<and> v \<le> 2 \<and> mx_v s \<noteq> 0"
    and sleep: "p = Asleep \<longrightarrow> v = 2" and wake: "mx_v s = 2 \<longrightarrow> v = 2 \<or> p \<in> {At_Store, At_Wake, At_Xchg}"
      "mx_pc s t \<in> {At_Store, At_Wake, At_Xchg} \<longrightarrow> v = 2 \<or> p \<in> {At_Store, At_Wake, At_Xchg} \<or> (\<forall>u. mx_pc s u \<noteq> Asleep)"
  shows "mutex_inv (s\<lparr>mx_v := v, mx_pc := (mx_pc s)(t := p)\<rparr>)"
proof -
  let ?s = "s\<lparr>mx_v := v, mx_pc := (mx_pc s)(t := p)\<rparr>"
  have own: "mutex_owns ?s u = mutex_owns s u" for u using owner by (simp add: mutex_owns_def)
  have i: "mx_v s = 0 \<longleftrightarrow> (\<forall>t. \<not> mutex_owns s t)" "\<forall>t u. mutex_owns s t \<longrightarrow> mutex_owns s u \<longrightarrow> t = u"
    using inv by (simp_all add: mutex_inv_def)
  have v': "v \<in> {0, 1, 2}" "v = 0 \<longleftrightarrow> mx_v s = 0" using inv v by (auto simp: mutex_inv_def)
  have z: "v = 2 \<or> helping ?s" if sl: "sleeping ?s"
  proof -
    obtain u where u: "mx_pc ?s u = Asleep" using sl unfolding sleeping_def by blast
    show ?thesis
    proof (cases "u = t")
      case True
      then show ?thesis using u sleep by simp
    next
      case False
      then have su: "mx_pc s u = Asleep" using u by simp
      then have "mx_v s = 2 \<or> helping s" using inv by (auto simp: mutex_inv_def sleeping_def)
      then obtain w where "mx_v s = 2 \<or> mx_pc s w \<in> {At_Store, At_Wake, At_Xchg}" unfolding helping_def by blast
      then have "v = 2 \<or> mx_pc ?s t \<in> {At_Store, At_Wake, At_Xchg} \<or> mx_pc ?s w \<in> {At_Store, At_Wake, At_Xchg}"
        using wake su by (cases "w = t") auto
      then show ?thesis unfolding helping_def by blast
    qed
  qed
  show ?thesis unfolding mutex_inv_def own
  proof (intro conjI)
    show "mx_v ?s \<in> {0, 1, 2}" using v'(1) by simp
    show "mx_v ?s = 0 \<longleftrightarrow> (\<forall>t. \<not> mutex_owns s t)" using v'(2) i(1) by simp
    show "sleeping ?s \<longrightarrow> mx_v ?s = 2 \<or> helping ?s" using z by simp
  qed (fact i(2))
qed

lemma mutex_take_inv:
  assumes inv: "mutex_inv s" and "mx_v s = 0" and v: "v = 1 \<or> v = 2" and t: "mx_pc s t = At_Xchg \<longrightarrow> v = 2"
    "mx_pc s t \<notin> {At_Store, At_Wake}"
  shows "mutex_inv (s\<lparr>mx_v := v, mx_pc := (mx_pc s)(t := Inside)\<rparr>)"
proof -
  let ?s = "s\<lparr>mx_v := v, mx_pc := (mx_pc s)(t := Inside)\<rparr>"
  have free: "\<not> mutex_owns s u" for u using inv assms(2) by (simp add: mutex_inv_def)
  then have own: "mutex_owns ?s u = (u = t)" for u by (simp add: mutex_owns_def)
  have z: "v = 2 \<or> helping ?s" if sl: "sleeping ?s"
  proof -
    obtain u where "mx_pc ?s u = Asleep" using sl unfolding sleeping_def by blast
    then have "mx_pc s u = Asleep" by (auto split: if_splits)
    then have "helping s" using inv assms(2) by (auto simp: mutex_inv_def sleeping_def)
    then obtain w where "mx_pc s w \<in> {At_Store, At_Wake, At_Xchg}" unfolding helping_def by blast
    then have "v = 2 \<or> mx_pc ?s w \<in> {At_Store, At_Wake, At_Xchg}" using t by (cases "w = t") auto
    then show ?thesis unfolding helping_def by blast
  qed
  show ?thesis unfolding mutex_inv_def own
  proof (intro conjI)
    show "sleeping ?s \<longrightarrow> mx_v ?s = 2 \<or> helping ?s" using z by simp
  qed (use v in auto)
qed

lemma mutex_give_inv:
  assumes inv: "mutex_inv s" and own: "mutex_owns s t" and p: "p = Outside \<and> mx_v s = 1 \<and> mx_pc s t = Inside \<or> p = At_Wake"
  shows "mutex_inv (s\<lparr>mx_v := 0, mx_pc := (mx_pc s)(t := p)\<rparr>)"
proof -
  let ?s = "s\<lparr>mx_v := 0, mx_pc := (mx_pc s)(t := p)\<rparr>"
  have only: "mutex_owns s u \<Longrightarrow> u = t" for u using inv own by (auto simp: mutex_inv_def)
  have none: "\<not> mutex_owns ?s u" for u using only [of u] p by (auto simp: mutex_owns_def)
  have z: "helping ?s" if sl: "sleeping ?s"
  proof -
    obtain u where "mx_pc ?s u = Asleep" using sl unfolding sleeping_def by blast
    then have "mx_pc s u = Asleep" using p by (auto split: if_splits)
    then have "mx_v s = 2 \<or> helping s" using inv by (auto simp: mutex_inv_def sleeping_def)
    then obtain w where w: "mx_v s = 2 \<or> mx_pc s w \<in> {At_Store, At_Wake, At_Xchg}" unfolding helping_def by blast
    have "mx_pc ?s t \<in> {At_Store, At_Wake, At_Xchg} \<or> mx_pc ?s w \<in> {At_Store, At_Wake, At_Xchg}"
      using p w by (cases "w = t") auto
    then show ?thesis unfolding helping_def by blast
  qed
  show ?thesis unfolding mutex_inv_def
  proof (intro conjI)
    show "sleeping ?s \<longrightarrow> mx_v ?s = 2 \<or> helping ?s" using z by simp
  qed (use none in auto)
qed

lemma mutex_step_inv:
  assumes inv: "mutex_inv s" and step: "mutex_step s s'"
  shows "mutex_inv s'"
  using step
proof cases
  case (call t)
  have "mutex_inv (s\<lparr>mx_v := mx_v s, mx_pc := (mx_pc s)(t := At_Cas)\<rparr>)"
    by (rule mutex_move_inv [OF inv]) (use call in \<open>auto simp: mutex_owns_def\<close>)
  then show ?thesis using call by simp
next
  case (try_call t ok v)
  show ?thesis
  proof (cases "mx_v s = 0")
    case True
    then show ?thesis using mutex_take_inv [OF inv True, of 1 t] try_call by (auto simp: mutex_try_acquire_def cas_strong_def)
  next
    case False
    have "mutex_inv (s\<lparr>mx_v := mx_v s, mx_pc := (mx_pc s)(t := Outside)\<rparr>)"
      by (rule mutex_move_inv [OF inv]) (use try_call in \<open>auto simp: mutex_owns_def\<close>)
    then show ?thesis using try_call False by (auto simp: mutex_try_acquire_def cas_strong_def)
  qed
next
  case (acquire t p v)
  show ?thesis
  proof (cases "p = Inside")
    case True
    then have "mx_v s = 0" "v = 1 \<or> v = 2" "mx_pc s t = At_Xchg \<longrightarrow> v = 2" "mx_pc s t \<notin> {At_Store, At_Wake}"
      using acquire by (auto simp: cas_strong_def split: if_splits)
    then show ?thesis using mutex_take_inv [OF inv, of v t] acquire(1) True by simp
  next
    case False
    have "mutex_inv (s\<lparr>mx_v := v, mx_pc := (mx_pc s)(t := p)\<rparr>)"
      by (rule mutex_move_inv [OF inv]) (use acquire(2,3) False in \<open>auto simp: mutex_owns_def cas_strong_def split: if_splits\<close>)
    then show ?thesis using acquire(1) by simp
  qed
next
  case (release t p v)
  have own: "mutex_owns s t" using release(2) by (simp add: mutex_owns_def)
  then have v: "mx_v s \<in> {1, 2}" using inv by (auto simp: mutex_inv_def)
  show ?thesis
  proof (cases "p = At_Store")
    case True
    have "mutex_inv (s\<lparr>mx_v := v, mx_pc := (mx_pc s)(t := p)\<rparr>)"
      by (rule mutex_move_inv [OF inv]) (use release(2,3) True v own in \<open>auto split: if_splits\<close>)
    then show ?thesis using release(1) by simp
  next
    case False
    then show ?thesis using mutex_give_inv [OF inv own, of p] release v by (auto split: if_splits)
  qed
next
  case (wake t u)
  have tu: "t \<noteq> u" using wake by auto
  have "mutex_inv (s\<lparr>mx_v := mx_v s, mx_pc := (mx_pc s)(u := At_Xchg)\<rparr>)"
    by (rule mutex_move_inv [OF inv]) (use wake in \<open>auto simp: mutex_owns_def\<close>)
  then have inv1: "mutex_inv (s\<lparr>mx_pc := (mx_pc s)(u := At_Xchg)\<rparr>)" (is "mutex_inv ?s1") by simp
  have own: "mutex_owns s' v = mutex_owns ?s1 v" for v using wake tu by (auto simp: mutex_owns_def)
  have "mx_pc s' u = At_Xchg" "mx_v s' = mx_v ?s1" using wake tu by simp_all
  then have "helping s'" "mx_v s' = mx_v ?s1" unfolding helping_def by (metis insertCI)+
  then show ?thesis using inv1 unfolding mutex_inv_def own by metis
next
  case (wake_none t)
  have "mutex_inv (s\<lparr>mx_v := mx_v s, mx_pc := (mx_pc s)(t := Outside)\<rparr>)"
    by (rule mutex_move_inv [OF inv]) (use wake_none in \<open>auto simp: mutex_owns_def\<close>)
  then show ?thesis using wake_none by simp
next
  case (interrupted t)
  have "mutex_inv (s\<lparr>mx_v := mx_v s, mx_pc := (mx_pc s)(t := At_Xchg)\<rparr>)"
    by (rule mutex_move_inv [OF inv]) (use interrupted in \<open>auto simp: mutex_owns_def\<close>)
  then show ?thesis using interrupted by simp
qed

lemma lock_same: "A = B \<Longrightarrow> lock_step A B"
  by (simp add: lock_step.keep)

lemma mutex_owner_step:
  assumes inv: "mutex_inv s" and step: "mutex_step s s'"
  shows "lock_step {t. mutex_owns s t} {t. mutex_owns s' t}"
  using step
proof cases
  case (try_call t ok v)
  show ?thesis
  proof (cases "mx_v s = 0")
    case True
    then have "{u. mutex_owns s u} = {}" using inv by (simp add: mutex_inv_def)
    moreover have "{u. mutex_owns s' u} = {t}"
      using \<open>{u. mutex_owns s u} = {}\<close> try_call True by (auto simp: mutex_owns_def mutex_try_acquire_def cas_strong_def)
    ultimately show ?thesis by (simp add: lock_step.take)
  next
    case False
    then show ?thesis
      using try_call by (intro lock_same) (auto simp: mutex_owns_def mutex_try_acquire_def cas_strong_def split: if_splits)
  qed
next
  case (acquire t p v)
  show ?thesis
  proof (cases "p = Inside")
    case True
    then have "mx_v s = 0" using acquire by (auto simp: cas_strong_def split: if_splits)
    then have none: "{u. mutex_owns s u} = {}" using inv by (simp add: mutex_inv_def)
    then have "{u. mutex_owns s' u} = {t}" using acquire(1) True by (auto simp: mutex_owns_def)
    then show ?thesis using none by (simp add: lock_step.take)
  next
    case False
    then have "p \<notin> {Inside, At_Store}" using acquire(2,3) by (auto simp: cas_strong_def split: if_splits)
    then show ?thesis using acquire(1,2) by (intro lock_same) (auto simp: mutex_owns_def)
  qed
next
  case (release t p v)
  have own: "mutex_owns s t" using release(2) by (simp add: mutex_owns_def)
  then have one: "{u. mutex_owns s u} = {t}" using inv by (auto simp: mutex_inv_def)
  show ?thesis
  proof (cases "p = At_Store")
    case True
    then show ?thesis using release(1,2) by (intro lock_same) (auto simp: mutex_owns_def)
  next
    case False
    then have "p \<notin> {Inside, At_Store}" using release(2,3) by (auto split: if_splits)
    then have "{u. mutex_owns s' u} = {}" using one release(1) by (auto simp: mutex_owns_def)
    then show ?thesis using one by (simp add: lock_step.give)
  qed
qed (rule lock_same; auto simp: mutex_owns_def)+

interpretation futex: lock_algorithm mutex_init mutex_step mutex_owns mutex_inv
proof unfold_locales
  show "\<not> mutex_owns mutex_init t" for t by (simp add: mutex_owns_def mutex_init_def)
qed (fact mutex_init_inv, fact mutex_step_inv, fact mutex_owner_step)

section \<open>Laws of the spin lock\<close>

definition spin_inv :: "spinlock \<Rightarrow> bool" where
  "spin_inv s = (lock_step {} {t. sl_pc s t = Locked} \<and> (sl_v s \<longleftrightarrow> {t. sl_pc s t = Locked} \<noteq> {}))"

lemma spin_owner_step:
  assumes "spin_inv s" and "spin_step s s'"
  shows "lock_step {t. sl_pc s t = Locked} {t. sl_pc s' t = Locked} \<and> spin_inv s'"
proof -
  let ?A = "{t. sl_pc s t = Locked}" and ?B = "{t. sl_pc s' t = Locked}"
  have A: "?A = {} \<or> (\<exists>t. ?A = {t})" "sl_v s \<longleftrightarrow> ?A \<noteq> {}" using assms(1) by (auto simp: spin_inv_def elim: lock_step.cases)
  from assms(2) show ?thesis
  proof cases
    case (scall t)
    then have "?B = ?A" "sl_v s' = sl_v s" by auto
    then show ?thesis using assms(1) by (simp add: spin_inv_def lock_step.keep)
  next
    case (stry t p v)
    show ?thesis
    proof (cases "sl_v s")
      case True
      then have "?B = ?A" "sl_v s'" using stry by (auto simp: metal_spinlock_acquire_def)
      then show ?thesis using assms(1) True by (simp add: spin_inv_def lock_step.keep)
    next
      case False
      then have "?A = {}" "?B = {t}" "sl_v s'" using stry A(2) by (auto simp: metal_spinlock_acquire_def)
      then show ?thesis by (simp add: spin_inv_def lock_step.take)
    qed
  next
    case (sdone t p v)
    have "t \<in> ?A" using sdone(2) by simp
    then have one: "?A = {t}" using A(1) by (metis empty_iff singletonD)
    have p: "p = Away" "\<not> v" using sdone(3) by (simp_all add: metal_spinlock_release_def)
    have "?B = ?A - {t}" using sdone(1) p by auto
    then have "?B = {}" "\<not> sl_v s'" using one p sdone(1) by simp_all
    then show ?thesis using one by (simp add: spin_inv_def lock_step.give lock_step.keep)
  qed
qed

interpretation spin: lock_algorithm metal_spinlock_init spin_step "\<lambda>s t. sl_pc s t = Locked" spin_inv
proof unfold_locales
  show "spin_inv metal_spinlock_init" "sl_pc metal_spinlock_init t \<noteq> Locked" for t
    by (simp_all add: spin_inv_def metal_spinlock_init_def lock_step.keep)
qed (simp_all add: spin_owner_step)

section \<open>Theorems\<close>

text \<open>
  C31: the futex mutex of Linux is a lock: whatever the interleaving of any number of threads, the threads between
  acquiring and releasing it change only in the ways of a lock, so that never two of them are inside.
\<close>

theorem mutex_refines_lock:
  assumes "mutex_step\<^sup>*\<^sup>* mutex_init s"
  shows "lock_step\<^sup>*\<^sup>* {} {t. mutex_owns s t} \<and> (\<forall>t u. mx_pc s t = Inside \<longrightarrow> mx_pc s u = Inside \<longrightarrow> t = u)"
  using futex.refines [OF assms] futex.exclusive [OF assms] by (auto simp: mutex_owns_def)

definition demo_contended :: mutex_state where
  "demo_contended = \<lparr>mx_v = 2, mx_pc = (\<lambda>_. Outside)(0 := Inside, 1 := Asleep)\<rparr>"

lemma demo_contended_reached: "mutex_step\<^sup>*\<^sup>* mutex_init demo_contended"
proof -
  let ?s0 = "mutex_init"
  let ?s1 = "\<lparr>mx_v = 1, mx_pc = (\<lambda>_. Outside)(0 := Inside)\<rparr>"
  let ?s2 = "\<lparr>mx_v = 1, mx_pc = (\<lambda>_. Outside)(0 := Inside, 1 := At_Cas)\<rparr>"
  let ?s3 = "\<lparr>mx_v = 1, mx_pc = (\<lambda>_. Outside)(0 := Inside, 1 := At_Xchg)\<rparr>"
  let ?s4 = "\<lparr>mx_v = 2, mx_pc = (\<lambda>_. Outside)(0 := Inside, 1 := At_Wait)\<rparr>"
  have "mutex_step ?s0 ?s1"
    using mutex_step.try_call [of ?s0 0 True 1] by (simp add: mutex_init_def mutex_try_acquire_def cas_strong_def)
  moreover have "mutex_step ?s1 ?s2" using mutex_step.call [of ?s1 1] by simp
  moreover have "mutex_step ?s2 ?s3" using mutex_step.acquire [of ?s2 1 At_Xchg 1] by (simp add: cas_strong_def)
  moreover have "mutex_step ?s3 ?s4" using mutex_step.acquire [of ?s3 1 At_Wait 2] by simp
  moreover have "mutex_step ?s4 demo_contended" using mutex_step.acquire [of ?s4 1 Asleep 2] by (simp add: demo_contended_def)
  ultimately show ?thesis by (meson converse_rtranclp_into_rtranclp r_into_rtranclp)
qed

theorem mutex_refines_lock_witness:
  "lock_step\<^sup>*\<^sup>* {} {t. mutex_owns demo_contended t} \<and> {t. mx_pc demo_contended t = Inside} = {0}"
proof -
  have "mx_pc demo_contended 0 = Inside" by (simp add: demo_contended_def)
  then show ?thesis using mutex_refines_lock [OF demo_contended_reached] by (metis (mono_tags, lifting) Collect_cong singleton_conv)
qed

text \<open>
  C32: no wake-up of the futex mutex is lost: when some thread sleeps in \<open>metal_mutex_acquire\<close>, then another thread is
  inside, is releasing, or is awake and trying; never do all threads but sleeping ones have left.
\<close>

theorem mutex_no_lost_wakeup:
  assumes "mutex_step\<^sup>*\<^sup>* mutex_init s" and "mx_pc s t = Asleep"
  shows "\<exists>u. mx_pc s u \<in> {Inside, At_Store, At_Wake, At_Xchg}"
proof -
  have inv: "mutex_inv s" using futex.reach_inv [OF assms(1)] .
  have "sleeping s" using assms(2) by (auto simp: sleeping_def)
  then have "mx_v s = 2 \<or> helping s" using inv by (simp add: mutex_inv_def)
  then show ?thesis
  proof
    assume "mx_v s = 2"
    then obtain u where "mutex_owns s u" using inv by (auto simp: mutex_inv_def)
    then show ?thesis by (auto simp: mutex_owns_def)
  qed (auto simp: helping_def)
qed

theorem mutex_no_lost_wakeup_witness:
  "mx_pc demo_contended 1 = Asleep \<and> (\<exists>u. mx_pc demo_contended u \<in> {Inside, At_Store, At_Wake, At_Xchg})"
  using mutex_no_lost_wakeup [OF demo_contended_reached, of 1] by (simp add: demo_contended_def)

text \<open>
  C33: the mutex of the systems without an operating system does not exclude: a thread whose first exchange fails has
  the value of the locked mutex in the variable it compares with, so that its second exchange succeeds while the other
  thread is still inside.
\<close>

theorem generic_mutex_admits_two: "\<exists>s. generic_step\<^sup>*\<^sup>* generic_mutex_init s \<and> gm_pc s 0 = Holding \<and> gm_pc s 1 = Holding"
proof -
  let ?s0 = "generic_mutex_init"
  let ?s1 = "\<lparr>gm_v = 1, gm_pc = (\<lambda>_. Idle)(0 := Holding)\<rparr>"
  let ?s2 = "\<lparr>gm_v = 1, gm_pc = (\<lambda>_. Idle)(0 := Holding, 1 := Spinning 0)\<rparr>"
  let ?s3 = "\<lparr>gm_v = 1, gm_pc = (\<lambda>_. Idle)(0 := Holding, 1 := Spinning 1)\<rparr>"
  let ?s4 = "\<lparr>gm_v = 1, gm_pc = (\<lambda>_. Idle)(0 := Holding, 1 := Holding)\<rparr>"
  have "generic_step ?s0 ?s1"
    using gtry [of ?s0 0 Holding 1] by (simp add: generic_mutex_init_def generic_try_acquire_def cas_strong_def)
  moreover have "generic_step ?s1 ?s2" using gcall [of ?s1 1] by simp
  moreover have "generic_step ?s2 ?s3" using gspin [of ?s2 1 0 "Spinning 1" 1] by (simp add: generic_acquire_def cas_strong_def)
  moreover have "generic_step ?s3 ?s4" using gspin [of ?s3 1 1 Holding 1] by (simp add: generic_acquire_def cas_strong_def)
  ultimately have "generic_step\<^sup>*\<^sup>* ?s0 ?s4" by (meson converse_rtranclp_into_rtranclp r_into_rtranclp)
  then show ?thesis by (intro exI [of _ ?s4]) simp
qed

text \<open>The spin lock excludes: never two threads are between acquiring and releasing it.\<close>

theorem spinlock_exclusive:
  assumes "spin_step\<^sup>*\<^sup>* metal_spinlock_init s" and "sl_pc s t = Locked" and "sl_pc s u = Locked"
  shows "t = u"
  by (rule spin.exclusive [OF assms])

theorem spinlock_exclusive_witness:
  "\<exists>s. spin_step\<^sup>*\<^sup>* metal_spinlock_init s \<and> sl_pc s 0 = Locked \<and> (\<forall>u. sl_pc s u = Locked \<longrightarrow> 0 = u)"
proof -
  let ?s1 = "\<lparr>sl_v = False, sl_pc = (\<lambda>_. Away)(0 := Trying)\<rparr>" and ?s2 = "\<lparr>sl_v = True, sl_pc = (\<lambda>_. Away)(0 := Locked)\<rparr>"
  have "spin_step metal_spinlock_init ?s1" using scall [of metal_spinlock_init 0] by (simp add: metal_spinlock_init_def)
  moreover have "spin_step ?s1 ?s2" using stry [of ?s1 0 Locked True] by (simp add: metal_spinlock_acquire_def)
  ultimately have r: "spin_step\<^sup>*\<^sup>* metal_spinlock_init ?s2" by (meson converse_rtranclp_into_rtranclp r_into_rtranclp)
  have "sl_pc ?s2 0 = Locked" by simp
  then show ?thesis using r spinlock_exclusive [OF r, of 0] by blast
qed

end
