(* ===== verification/Metal_Cond.thy ===== *)
theory Metal_Cond
  imports Metal_Mutex
begin

text \<open>
  The condition variables of Linux (\<^verbatim>\<open>src/openamp/libmetal/lib/system/linux/condition.c\<close> and
  \<^verbatim>\<open>condition.h\<close>) as steps of threads, over a mutex that is one holder: the one \<open>Metal_Mutex\<close> shows the futex mutex
  to be. The wake-ups are counted in a 32-bit word that wraps; there are never more waiters than
  threads, so that their counter does not.
\<close>

section \<open>Waiting and waking\<close>

text \<open>
  Where a thread is: outside, or holding the mutex; in \<open>metal_condition_wait\<close> about to load the
  wake-ups, to count itself, to release the mutex, to call the kernel; asleep; about to uncount itself
  and to take the mutex again; in \<open>metal_condition_signal\<close> or \<open>metal_condition_broadcast\<close> about to load the
  waiters, or to wake. What a waiter has loaded and whether all are to be woken is part of it.
\<close>

datatype cpc = Out | Held | W_Load | W_Add u32 | W_Release u32 | W_Call u32 | W_Asleep u32 | W_Sub | W_Lock
  | B_Load bool bool | B_Wake bool bool

record cond_state =
  cv_mptr :: addr
  cv_waiters :: int
  cv_wakeups :: u32
  cv_mutex :: "tid option"
  cv_pc :: "tid \<Rightarrow> cpc"

abbreviation (input) COND_EINVAL :: int where "COND_EINVAL \<equiv> 22"

definition metal_condition_init :: cond_state where
  "metal_condition_init = \<lparr>cv_mptr = NULL, cv_waiters = 0, cv_wakeups = 0, cv_mutex = None, cv_pc = \<lambda>_. Out\<rparr>"

text \<open>The checks of \<open>metal_condition_wait\<close>: the error, if any, and the mutex the variable is attached to.\<close>

definition cond_attach :: "addr \<Rightarrow> bool \<Rightarrow> addr \<Rightarrow> int \<times> addr" where
  "cond_attach m acquired mptr =
     (if m = NULL \<or> \<not> acquired then (- COND_EINVAL, mptr)
      else if mptr = NULL then (0, m)
      else if mptr \<noteq> m then (- COND_EINVAL, mptr)
      else (0, mptr))"

text \<open>\<open>resume\<close> is where a signalling thread returns to: it may hold the mutex or not.\<close>

definition resume :: "bool \<Rightarrow> cpc" where
  "resume held = (if held then Held else Out)"

definition wake_all :: "(tid \<Rightarrow> cpc) \<Rightarrow> tid \<Rightarrow> cpc" where
  "wake_all pc = (\<lambda>t. case pc t of W_Asleep v \<Rightarrow> W_Sub | p \<Rightarrow> p)"

inductive cond_step :: "bool \<Rightarrow> addr \<Rightarrow> cond_state \<Rightarrow> cond_state \<Rightarrow> bool" for signals :: bool and m :: addr where
  lock: "cv_pc s t = Out \<Longrightarrow> cv_mutex s = None \<Longrightarrow> cond_step signals m s (s\<lparr>cv_mutex := Some t, cv_pc := (cv_pc s)(t := Held)\<rparr>)"
| unlock: "cv_pc s t = Held \<Longrightarrow> cond_step signals m s (s\<lparr>cv_mutex := None, cv_pc := (cv_pc s)(t := Out)\<rparr>)"
| wait: "cv_pc s t = Held \<Longrightarrow> cond_attach m True (cv_mptr s) = (r, p) \<Longrightarrow>
    cond_step signals m s (s\<lparr>cv_mptr := p, cv_pc := (cv_pc s)(t := if r = 0 then W_Load else Held)\<rparr>)"
| load: "cv_pc s t = W_Load \<Longrightarrow> cond_step signals m s (s\<lparr>cv_pc := (cv_pc s)(t := W_Add (cv_wakeups s))\<rparr>)"
| add: "cv_pc s t = W_Add v \<Longrightarrow>
    cond_step signals m s (s\<lparr>cv_waiters := cv_waiters s + 1, cv_pc := (cv_pc s)(t := W_Release v)\<rparr>)"
| drop: "cv_pc s t = W_Release v \<Longrightarrow> cond_step signals m s (s\<lparr>cv_mutex := None, cv_pc := (cv_pc s)(t := W_Call v)\<rparr>)"
| sleep: "cv_pc s t = W_Call v \<Longrightarrow>
    cond_step signals m s (s\<lparr>cv_pc := (cv_pc s)(t := if cv_wakeups s = v then W_Asleep v else W_Sub)\<rparr>)"
| interrupted: "cv_pc s t = W_Asleep v \<Longrightarrow> cond_step signals m s (s\<lparr>cv_pc := (cv_pc s)(t := W_Sub)\<rparr>)"
| sub: "cv_pc s t = W_Sub \<Longrightarrow> cond_step signals m s (s\<lparr>cv_waiters := cv_waiters s - 1, cv_pc := (cv_pc s)(t := W_Lock)\<rparr>)"
| relock: "cv_pc s t = W_Lock \<Longrightarrow> cv_mutex s = None \<Longrightarrow>
    cond_step signals m s (s\<lparr>cv_mutex := Some t, cv_pc := (cv_pc s)(t := Held)\<rparr>)"
| notify: "cv_pc s t = resume held \<Longrightarrow> all \<or> signals \<Longrightarrow>
    cond_step signals m s (s\<lparr>cv_wakeups := cv_wakeups s + 1, cv_pc := (cv_pc s)(t := B_Load all held)\<rparr>)"
| test: "cv_pc s t = B_Load all held \<Longrightarrow>
    cond_step signals m s (s\<lparr>cv_pc := (cv_pc s)(t := if 0 < cv_waiters s then B_Wake all held else resume held)\<rparr>)"
| wake_everyone: "cv_pc s t = B_Wake True held \<Longrightarrow> cond_step signals m s (s\<lparr>cv_pc := (wake_all (cv_pc s))(t := resume held)\<rparr>)"
| wake_one: "cv_pc s t = B_Wake False held \<Longrightarrow> cv_pc s u = W_Asleep v \<Longrightarrow>
    cond_step signals m s (s\<lparr>cv_pc := (cv_pc s)(t := resume held, u := W_Sub)\<rparr>)"
| wake_nobody: "cv_pc s t = B_Wake False held \<Longrightarrow> \<forall>u v. cv_pc s u \<noteq> W_Asleep v \<Longrightarrow>
    cond_step signals m s (s\<lparr>cv_pc := (cv_pc s)(t := resume held)\<rparr>)"

section \<open>Invariants\<close>

text \<open>Threads that have counted themselves, and threads that hold the mutex.\<close>

definition counted :: "cpc \<Rightarrow> bool" where
  "counted p = (case p of W_Release v \<Rightarrow> True | W_Call v \<Rightarrow> True | W_Asleep v \<Rightarrow> True | W_Sub \<Rightarrow> True | _ \<Rightarrow> False)"

definition locking :: "cpc \<Rightarrow> bool" where
  "locking p = (case p of Held \<Rightarrow> True | W_Load \<Rightarrow> True | W_Add v \<Rightarrow> True | W_Release v \<Rightarrow> True
     | B_Load a h \<Rightarrow> h | B_Wake a h \<Rightarrow> h | _ \<Rightarrow> False)"

definition waiting_threads :: "cond_state \<Rightarrow> tid set" where
  "waiting_threads s = {t. counted (cv_pc s t)}"

definition notifying :: "cpc \<Rightarrow> bool" where
  "notifying p = (case p of B_Load a h \<Rightarrow> True | B_Wake a h \<Rightarrow> True | _ \<Rightarrow> False)"

lemmas cpc_sets = counted_def locking_def notifying_def resume_def

text \<open>Almost every step moves one thread; what it does to the counters and the mutex depends on where it moves.\<close>

definition moves :: "cond_state \<Rightarrow> cond_state \<Rightarrow> tid \<Rightarrow> cpc \<Rightarrow> bool" where
  "moves s s' t p = (cv_pc s' = (cv_pc s)(t := p)
     \<and> cv_waiters s' = cv_waiters s + of_bool (counted p) - of_bool (counted (cv_pc s t))
     \<and> cv_mutex s' = (if locking p \<and> \<not> locking (cv_pc s t) then Some t else if \<not> locking p \<and> locking (cv_pc s t) then None else cv_mutex s)
     \<and> (locking p \<longrightarrow> locking (cv_pc s t) \<or> cv_mutex s = None)
     \<and> (\<forall>v. p = W_Asleep v \<longrightarrow> v = cv_wakeups s') \<and> (cv_wakeups s' = cv_wakeups s \<or> notifying p)
     \<and> (notifying (cv_pc s t) \<longrightarrow> notifying p \<or> cv_waiters s \<le> 0 \<or> (\<forall>u v. cv_pc s u \<noteq> W_Asleep v)))"

lemma cond_step_moves:
  assumes "cond_step signals m s s'"
  shows "(\<exists>t p. moves s s' t p \<and> (\<forall>h. (p = B_Load False h \<longrightarrow> signals) \<and> (p = B_Wake False h \<longrightarrow> cv_pc s t = B_Load False h)))
    \<or> (\<exists>t held. cv_pc s t = B_Wake True held \<and> s' = s\<lparr>cv_pc := (wake_all (cv_pc s))(t := resume held)\<rparr>)
    \<or> (\<exists>t held u v. cv_pc s t = B_Wake False held \<and> cv_pc s u = W_Asleep v \<and> s' = s\<lparr>cv_pc := (cv_pc s)(t := resume held, u := W_Sub)\<rparr>)"
  using assms
proof cases
  case (lock t)
  then have "moves s s' t (Held)" by (auto simp: moves_def cpc_sets)
  then show ?thesis using lock by (intro disjI1 exI [of _ t] exI [of _ "Held"]) (auto simp: resume_def)
next
  case (unlock t)
  then have "moves s s' t (Out)" by (auto simp: moves_def cpc_sets)
  then show ?thesis using unlock by (intro disjI1 exI [of _ t] exI [of _ "Out"]) (auto simp: resume_def)
next
  case (wait t r p)
  then have "moves s s' t (if r = 0 then W_Load else Held)" by (auto simp: moves_def cpc_sets)
  then show ?thesis using wait by (intro disjI1 exI [of _ t] exI [of _ "if r = 0 then W_Load else Held"]) (auto simp: resume_def)
next
  case (load t)
  then have "moves s s' t (W_Add (cv_wakeups s))" by (auto simp: moves_def cpc_sets)
  then show ?thesis using load by (intro disjI1 exI [of _ t] exI [of _ "W_Add (cv_wakeups s)"]) (auto simp: resume_def)
next
  case (add t v)
  then have "moves s s' t (W_Release v)" by (auto simp: moves_def cpc_sets)
  then show ?thesis using add by (intro disjI1 exI [of _ t] exI [of _ "W_Release v"]) (auto simp: resume_def)
next
  case (drop t v)
  then have "moves s s' t (W_Call v)" by (auto simp: moves_def cpc_sets)
  then show ?thesis using drop by (intro disjI1 exI [of _ t] exI [of _ "W_Call v"]) (auto simp: resume_def)
next
  case (sleep t v)
  then have "moves s s' t (if cv_wakeups s = v then W_Asleep v else W_Sub)" by (auto simp: moves_def cpc_sets)
  then show ?thesis using sleep by (intro disjI1 exI [of _ t] exI [of _ "if cv_wakeups s = v then W_Asleep v else W_Sub"]) (auto simp: resume_def)
next
  case (interrupted t v)
  then have "moves s s' t (W_Sub)" by (auto simp: moves_def cpc_sets)
  then show ?thesis using interrupted by (intro disjI1 exI [of _ t] exI [of _ "W_Sub"]) (auto simp: resume_def)
next
  case (sub t)
  then have "moves s s' t (W_Lock)" by (auto simp: moves_def cpc_sets)
  then show ?thesis using sub by (intro disjI1 exI [of _ t] exI [of _ "W_Lock"]) (auto simp: resume_def)
next
  case (relock t)
  then have "moves s s' t (Held)" by (auto simp: moves_def cpc_sets)
  then show ?thesis using relock by (intro disjI1 exI [of _ t] exI [of _ "Held"]) (auto simp: resume_def)
next
  case (notify t held all)
  then have "moves s s' t (B_Load all held)" by (auto simp: moves_def cpc_sets)
  then show ?thesis using notify by (intro disjI1 exI [of _ t] exI [of _ "B_Load all held"]) (auto simp: resume_def)
next
  case (test t all held)
  then have "moves s s' t (if 0 < cv_waiters s then B_Wake all held else resume held)" by (auto simp: moves_def cpc_sets)
  then show ?thesis using test by (intro disjI1 exI [of _ t] exI [of _ "if 0 < cv_waiters s then B_Wake all held else resume held"]) (auto simp: resume_def)
next
  case (wake_nobody t held)
  then have "moves s s' t (resume held)" by (auto simp: moves_def cpc_sets)
  then show ?thesis using wake_nobody by (intro disjI1 exI [of _ t] exI [of _ "resume held"]) (auto simp: resume_def)
qed blast+

definition count_ok :: "cond_state \<Rightarrow> bool" where
  "count_ok s = (finite (waiting_threads s) \<and> cv_waiters s = int (card (waiting_threads s)))"

definition mutex_ok :: "cond_state \<Rightarrow> bool" where
  "mutex_ok s = (\<forall>t. locking (cv_pc s t) \<longleftrightarrow> cv_mutex s = Some t)"

text \<open>No sleeper has missed a wake-up that is not still on its way.\<close>

definition noted :: "cond_state \<Rightarrow> bool" where
  "noted s = ((\<forall>t v. cv_pc s t = W_Asleep v \<longrightarrow> v = cv_wakeups s \<or> (\<exists>u. notifying (cv_pc s u)))
     \<and> (\<forall>t h. cv_pc s t \<noteq> B_Load False h \<and> cv_pc s t \<noteq> B_Wake False h))"

lemma count_move:
  assumes "count_ok s" and "moves s s' t p"
  shows "count_ok s'"
proof -
  let ?W = "waiting_threads s"
  have "waiting_threads s' = (if counted p then insert t ?W else ?W - {t})" "t \<in> ?W \<longleftrightarrow> counted (cv_pc s t)"
    "cv_waiters s' = cv_waiters s + of_bool (counted p) - of_bool (counted (cv_pc s t))"
    using assms(2) by (auto simp: waiting_threads_def moves_def)
  moreover have "0 < card ?W" if "t \<in> ?W" using that assms(1) by (auto simp: count_ok_def card_gt_0_iff)
  ultimately show ?thesis using assms(1) by (cases "t \<in> ?W") (auto simp: count_ok_def card_insert_if)
qed

lemma mutex_move:
  assumes "mutex_ok s" and "moves s s' t p"
  shows "mutex_ok s'"
  unfolding mutex_ok_def
proof
  fix u
  have m: "cv_pc s' = (cv_pc s)(t := p)" "locking p \<longrightarrow> locking (cv_pc s t) \<or> cv_mutex s = None"
    "cv_mutex s' = (if locking p \<and> \<not> locking (cv_pc s t) then Some t else if \<not> locking p \<and> locking (cv_pc s t) then None else cv_mutex s)"
    using assms(2) by (simp_all add: moves_def)
  have "locking (cv_pc s u) \<longleftrightarrow> cv_mutex s = Some u" "locking (cv_pc s t) \<longleftrightarrow> cv_mutex s = Some t" using assms(1) by (simp_all add: mutex_ok_def)
  then show "locking (cv_pc s' u) \<longleftrightarrow> cv_mutex s' = Some u" using m by (cases "u = t") auto
qed

lemma noted_move:
  assumes "noted s" and "count_ok s" and "moves s s' t p" and "\<forall>h. p \<noteq> B_Load False h \<and> p \<noteq> B_Wake False h"
  shows "noted s'"
proof -
  have m: "cv_pc s' = (cv_pc s)(t := p)" "\<forall>v. p = W_Asleep v \<longrightarrow> v = cv_wakeups s'" "cv_wakeups s' = cv_wakeups s \<or> notifying p"
    "notifying (cv_pc s t) \<longrightarrow> notifying p \<or> cv_waiters s \<le> 0 \<or> (\<forall>u v. cv_pc s u \<noteq> W_Asleep v)"
    using assms(3) unfolding moves_def by blast+
  have "v = cv_wakeups s' \<or> (\<exists>w. notifying (cv_pc s' w))" if u: "cv_pc s' u = W_Asleep v" for u v
  proof (cases "u = t")
    case True
    then show ?thesis using u m(1,2) by simp
  next
    case False
    then have su: "cv_pc s u = W_Asleep v" using u m(1) by simp
    then have "u \<in> waiting_threads s" by (simp add: waiting_threads_def counted_def)
    then have pos: "0 < cv_waiters s" using assms(2) by (auto simp: count_ok_def card_gt_0_iff)
    have "v = cv_wakeups s \<or> (\<exists>w. notifying (cv_pc s w))" using assms(1) su by (simp add: noted_def)
    then have "v = cv_wakeups s \<or> notifying p \<or> (\<exists>w. w \<noteq> t \<and> notifying (cv_pc s w))" using m(4) pos su by auto
    then have "v = cv_wakeups s' \<or> notifying (cv_pc s' t) \<or> (\<exists>w. w \<noteq> t \<and> notifying (cv_pc s' w))" using m(1,3) by auto
    then show ?thesis by blast
  qed
  moreover have "cv_pc s' u \<noteq> B_Load False h \<and> cv_pc s' u \<noteq> B_Wake False h" for u h
    using assms(1,4) m(1) by (simp add: noted_def)
  ultimately show ?thesis unfolding noted_def by blast
qed

lemma wake_all_sets:
  "counted (wake_all pc u) = counted (pc u)" "locking (wake_all pc u) = locking (pc u)" "wake_all pc u \<noteq> W_Asleep v"
  "wake_all pc u = B_Load a h \<longleftrightarrow> pc u = B_Load a h" "wake_all pc u = B_Wake a h \<longleftrightarrow> pc u = B_Wake a h"
  by (simp_all add: wake_all_def counted_def locking_def split: cpc.splits)

lemma count_step:
  assumes "count_ok s" and "mutex_ok s" and "cond_step signals m s s'"
  shows "count_ok s' \<and> mutex_ok s'"
  using cond_step_moves [OF assms(3)]
proof (elim disjE exE conjE)
  fix t p
  assume "moves s s' t p"
  then show ?thesis using count_move mutex_move assms by blast
next
  fix t held
  assume w: "cv_pc s t = B_Wake True held" "s' = s\<lparr>cv_pc := (wake_all (cv_pc s))(t := resume held)\<rparr>"
  have "counted (resume held) = counted (cv_pc s t)" "locking (resume held) = locking (cv_pc s t)" using w(1) by (simp_all add: cpc_sets)
  then have "counted (cv_pc s' u) = counted (cv_pc s u)" "locking (cv_pc s' u) = locking (cv_pc s u)" for u
    using w(2) by (auto simp: wake_all_sets)
  then show ?thesis using assms(1,2) w(2) by (simp add: count_ok_def mutex_ok_def waiting_threads_def)
next
  fix t held u v
  assume w: "cv_pc s t = B_Wake False held" "cv_pc s u = W_Asleep v" "s' = s\<lparr>cv_pc := (cv_pc s)(t := resume held, u := W_Sub)\<rparr>"
  have "counted (cv_pc s' x) = counted (cv_pc s x)" "locking (cv_pc s' x) = locking (cv_pc s x)" for x
    using w by (auto simp: cpc_sets)
  then show ?thesis using assms(1,2) w(3) by (simp add: count_ok_def mutex_ok_def waiting_threads_def)
qed

lemma noted_step:
  assumes "noted s" and "count_ok s" and "cond_step False m s s'"
  shows "noted s'"
  using cond_step_moves [OF assms(3)]
proof (elim disjE exE conjE)
  fix t p
  assume "moves s s' t p" "\<forall>h. (p = B_Load False h \<longrightarrow> False) \<and> (p = B_Wake False h \<longrightarrow> cv_pc s t = B_Load False h)"
  then show ?thesis using noted_move [OF assms(1,2)] assms(1) by (simp add: noted_def [of s])
next
  fix t held
  assume w: "cv_pc s t = B_Wake True held" "s' = s\<lparr>cv_pc := (wake_all (cv_pc s))(t := resume held)\<rparr>"
  then show ?thesis using assms(1) by (auto simp: noted_def wake_all_sets resume_def)
qed (use assms(1) in \<open>simp add: noted_def\<close>)

lemma cond_reach_inv: "(cond_step signals m)\<^sup>*\<^sup>* metal_condition_init s \<Longrightarrow> count_ok s \<and> mutex_ok s"
proof (induction rule: rtranclp_induct)
  case base
  then show ?case by (simp add: count_ok_def mutex_ok_def waiting_threads_def metal_condition_init_def cpc_sets)
next
  case (step y z)
  then show ?case using count_step by blast
qed

lemma cond_reach_noted: "(cond_step False m)\<^sup>*\<^sup>* metal_condition_init s \<Longrightarrow> noted s"
proof (induction rule: rtranclp_induct)
  case base
  then show ?case by (simp add: noted_def metal_condition_init_def)
next
  case (step y z)
  then show ?case using noted_step cond_reach_inv [OF step.hyps(1)] by blast
qed

section \<open>Theorems\<close>

text \<open>
  A broadcast on a condition variable is not lost: a thread that is asleep in \<open>metal_condition_wait\<close> although the
  wake-ups have been counted up since it looked is about to be woken, because the broadcasting thread has not made its
  system call yet. This holds in every interleaving, also when the broadcast falls between the release of the
  mutex and the sleep, as long as the 32-bit counter has not come round to the same value.
\<close>

theorem broadcast_not_lost:
  assumes "(cond_step False m)\<^sup>*\<^sup>* metal_condition_init s" and "cv_pc s t = W_Asleep v" and "cv_wakeups s \<noteq> v"
  shows "\<exists>u held. cv_pc s u = B_Load True held \<or> cv_pc s u = B_Wake True held"
proof -
  have n: "noted s" by (rule cond_reach_noted [OF assms(1)])
  then obtain u where u: "notifying (cv_pc s u)" using assms(2,3) unfolding noted_def by metis
  then obtain a h where "cv_pc s u = B_Load a h \<or> cv_pc s u = B_Wake a h" by (auto simp: notifying_def split: cpc.splits)
  then show ?thesis using n by (cases a) (auto simp: noted_def)
qed

text \<open>
  Waiting gives the mutex up and takes it back: whatever the interleaving of waiting and signalling threads, at most
  one of them is in a part of the code that holds the mutex, and the counter of waiters is the number of threads between
  counting and uncounting themselves.
\<close>

theorem wait_keeps_exclusion:
  assumes "(cond_step signals m)\<^sup>*\<^sup>* metal_condition_init s"
  shows "(\<forall>t u. locking (cv_pc s t) \<longrightarrow> locking (cv_pc s u) \<longrightarrow> t = u) \<and> cv_waiters s = int (card (waiting_threads s))"
proof -
  have "locking (cv_pc s t) \<longleftrightarrow> cv_mutex s = Some t" for t using cond_reach_inv [OF assms] by (simp add: mutex_ok_def)
  moreover have "cv_waiters s = int (card (waiting_threads s))" using cond_reach_inv [OF assms] by (simp add: count_ok_def)
  ultimately show ?thesis by auto
qed

text \<open>A thread has gone to sleep, and another one has just counted a wake-up.\<close>

definition demo_missed :: cond_state where
  "demo_missed = \<lparr>cv_mptr = 0x40, cv_waiters = 1, cv_wakeups = 1, cv_mutex = None,
     cv_pc = (\<lambda>_. Out)(1 := W_Asleep 0, 0 := B_Load True False)\<rparr>"

lemma demo_missed_reached: "(cond_step False 0x40)\<^sup>*\<^sup>* metal_condition_init demo_missed"
proof -
  let ?c = "\<lambda>mp w k mx pc. \<lparr>cv_mptr = mp, cv_waiters = w, cv_wakeups = k, cv_mutex = mx, cv_pc = (\<lambda>_. Out)(Suc 0 := pc)\<rparr>"
  have "cond_step False 0x40 metal_condition_init (?c NULL 0 0 (Some 1) Held)"
    using cond_step.lock [of metal_condition_init 1 False "0x40"] by (simp add: metal_condition_init_def)
  moreover have "cond_step False 0x40 (?c NULL 0 0 (Some 1) Held) (?c 0x40 0 0 (Some 1) W_Load)"
    using cond_step.wait [of "?c NULL 0 0 (Some 1) Held" 1 "0x40" 0 "0x40"] by (simp add: cond_attach_def)
  moreover have "cond_step False 0x40 (?c 0x40 0 0 (Some 1) W_Load) (?c 0x40 0 0 (Some 1) (W_Add 0))"
    using cond_step.load [of "?c 0x40 0 0 (Some 1) W_Load" 1] by simp
  moreover have "cond_step False 0x40 (?c 0x40 0 0 (Some 1) (W_Add 0)) (?c 0x40 1 0 (Some 1) (W_Release 0))"
    using cond_step.add [of "?c 0x40 0 0 (Some 1) (W_Add 0)" 1 0] by simp
  moreover have "cond_step False 0x40 (?c 0x40 1 0 (Some 1) (W_Release 0)) (?c 0x40 1 0 None (W_Call 0))"
    using cond_step.drop [of "?c 0x40 1 0 (Some 1) (W_Release 0)" 1 0] by simp
  moreover have "cond_step False 0x40 (?c 0x40 1 0 None (W_Call 0)) (?c 0x40 1 0 None (W_Asleep 0))"
    using cond_step.sleep [of "?c 0x40 1 0 None (W_Call 0)" 1 0] by simp
  moreover have "cond_step False 0x40 (?c 0x40 1 0 None (W_Asleep 0)) demo_missed"
    using cond_step.notify [of "?c 0x40 1 0 None (W_Asleep 0)" 0 False True] by (simp add: resume_def demo_missed_def)
  ultimately show ?thesis by (meson converse_rtranclp_into_rtranclp r_into_rtranclp)
qed

theorem broadcast_not_lost_witness:
  "cv_pc demo_missed 1 = W_Asleep 0 \<and> (\<exists>u held. cv_pc demo_missed u = B_Load True held \<or> cv_pc demo_missed u = B_Wake True held)"
  using broadcast_not_lost [OF demo_missed_reached, of 1 0] by (simp add: demo_missed_def)

theorem wait_keeps_exclusion_witness:
  "(\<forall>t u. locking (cv_pc demo_missed t) \<longrightarrow> locking (cv_pc demo_missed u) \<longrightarrow> t = u) \<and> cv_waiters demo_missed = int (card (waiting_threads demo_missed))"
  by (rule wait_keeps_exclusion [OF demo_missed_reached])

end
