(* ===== verification/Linux_Irq.thy ===== *)
theory Linux_Irq
  imports Metal_Irq Metal_Util
begin

unbundle bit_operations_syntax

text \<open>
  \<^verbatim>\<open>src/openamp/libmetal/lib/system/linux/irq.c\<close>: interrupts of a Linux process are file descriptors that
  become readable. A thread polls the enabled ones and runs the handlers registered with \<open>Metal_Irq\<close>,
  whose controller for Linux is the one at \<open>LINUX_CNTR\<close>. \<open>li_events\<close> counts the notifications in the event file,
  \<open>li_acks\<close> the devices whose interrupt was acknowledged. A handler runs with the lock \<open>irq_lock\<close> held and works on the
  whole state; taking the lock when it is held is a deadlock of the thread.
\<close>

section \<open>Data\<close>

abbreviation (input) FD_SETSIZE :: nat where "FD_SETSIZE \<equiv> 1024"
abbreviation (input) MAX_IRQS :: nat where "MAX_IRQS \<equiv> 1023"
abbreviation (input) LINUX_CNTR :: addr where "LINUX_CNTR \<equiv> 0x200"
abbreviation (input) LINUX_SET_ENABLE :: addr where "LINUX_SET_ENABLE \<equiv> 0x208"
abbreviation (input) METAL_IRQ_HANDLED :: int where "METAL_IRQ_HANDLED \<equiv> 1"
abbreviation (input) POLL_READABLE :: u16 where "POLL_READABLE \<equiv> 0x41"
abbreviation (input) LX_EAGAIN :: int where "LX_EAGAIN \<equiv> 11"

record linux_irq =
  li_irq :: irq_state
  li_devs :: "addr list"
  li_notify_fd :: int
  li_events :: nat
  li_lock :: bool
  li_stop :: bool
  li_thread :: bool
  li_enabled :: bitmap
  li_acks :: "(addr \<times> int) list"

definition linux_irq_cntr :: metal_irq_controller where
  "linux_irq_cntr = \<lparr>ic_irq_base = 0, ic_irq_num = int MAX_IRQS, ic_arg = NULL, ic_irq_set_enable = LINUX_SET_ENABLE,
     ic_irq_register = NULL, ic_irqs = Some (replicate MAX_IRQS \<lparr>mi_hd = NULL, mi_arg = NULL\<rparr>)\<rparr>"

section \<open>The lock\<close>

definition lx_acquire :: "linux_irq \<Rightarrow> linux_irq option" where
  "lx_acquire s = (if li_lock s then None else Some (s\<lparr>li_lock := True\<rparr>))"

definition lx_release :: "linux_irq \<Rightarrow> linux_irq" where
  "lx_release s = s\<lparr>li_lock := False\<rparr>"

text \<open>\<open>self\<close> tells whether the caller is the thread that handles interrupts.\<close>

definition lx_irq_save_disable :: "bool \<Rightarrow> linux_irq \<Rightarrow> (u32 \<times> linux_irq) option" where
  "lx_irq_save_disable self s = (if self then Some (0, s) else do { s1 \<leftarrow> lx_acquire s; Some (0, s1) })"

definition lx_irq_restore_enable :: "bool \<Rightarrow> u32 \<Rightarrow> linux_irq \<Rightarrow> linux_irq" where
  "lx_irq_restore_enable self flags s = (if \<not> self then lx_release s else s)"

section \<open>Enabling\<close>

definition metal_linux_irq_notify :: "bool \<Rightarrow> linux_irq \<Rightarrow> int \<times> linux_irq" where
  "metal_linux_irq_notify written s = (if written then (8, s\<lparr>li_events := li_events s + 1\<rparr>) else (- 1, s))"

definition metal_linux_irq_set_enable :: "bool \<Rightarrow> addr \<Rightarrow> int \<Rightarrow> u32 \<Rightarrow> linux_irq \<Rightarrow> linux_irq option" where
  "metal_linux_irq_set_enable written p irq state s = do {
     cntr \<leftarrow> irq_cntr (li_irq s) p;
     if irq < ic_irq_base cntr then Some s
     else do {
       e \<leftarrow> int_add (ic_irq_base cntr) (ic_irq_num cntr);
       if e \<le> irq then Some s
       else do {
         lx \<leftarrow> irq_cntr (li_irq s) LINUX_CNTR;
         let offset = irq - ic_irq_base lx;
         s1 \<leftarrow> lx_acquire s;
         require (0 \<le> offset);
         bm \<leftarrow> (if state = METAL_IRQ_ENABLE then metal_bitmap_set_bit (li_enabled s1) (nat offset)
                else metal_bitmap_clear_bit (li_enabled s1) (nat offset));
         Some (snd (metal_linux_irq_notify written (lx_release (s1\<lparr>li_enabled := bm\<rparr>))))
       }
     }
   }"

definition metal_linux_irq_register_dev :: "addr \<Rightarrow> int \<Rightarrow> linux_irq \<Rightarrow> linux_irq option" where
  "metal_linux_irq_register_dev dev irq s =
     (if irq > int MAX_IRQS then Some s
      else do {
        require (0 \<le> irq);
        ds \<leftarrow> arr_set (li_devs s) (nat irq) dev;
        Some (s\<lparr>li_devs := ds\<rparr>)
      })"

section \<open>The thread\<close>

text \<open>The loop that fills \<open>pfds\<close> from the enabled interrupts; \<open>j\<close> is the next free entry.\<close>

partial_function (option) collect_fds :: "bitmap \<Rightarrow> u32 \<Rightarrow> u32 \<Rightarrow> nat \<Rightarrow> int list option" where
  "collect_fds bm i mx j =
     (if i < mx
      then Option.bind (require (j < FD_SETSIZE)) (\<lambda>_. Option.bind (metal_bitmap_next_set_bit bm (i + 1) mx) (\<lambda>i'.
        Option.bind (collect_fds bm i' mx (j + 1)) (\<lambda>fds. Some (int (unat i) # fds))))
      else Some [])"

definition irq_pollfds :: "linux_irq \<Rightarrow> int list option" where
  "irq_pollfds s = do {
     lx \<leftarrow> irq_cntr (li_irq s) LINUX_CNTR;
     let mx = word_of_int (ic_irq_num lx);
     i \<leftarrow> metal_bitmap_next_set_bit (li_enabled s) 0 mx;
     fds \<leftarrow> collect_fds (li_enabled s) i mx 1;
     Some (li_notify_fd s # fds)
   }"

text \<open>
  What the thread calls: the handlers by their address, whether the bus of a device has \<open>dev_irq_ack\<close>, and that operation.
\<close>

record irq_env =
  ie_run :: "addr \<Rightarrow> int \<Rightarrow> addr \<Rightarrow> linux_irq \<Rightarrow> (int \<times> linux_irq) option"
  ie_has_ack :: "addr \<Rightarrow> bool"
  ie_ack :: "addr \<Rightarrow> int \<Rightarrow> linux_irq \<Rightarrow> linux_irq option"

definition lx_irq_handle :: "irq_env \<Rightarrow> metal_irq \<Rightarrow> int \<Rightarrow> linux_irq \<Rightarrow> (int \<times> linux_irq) option" where
  "lx_irq_handle env irq_data irq s =
     (if mi_hd irq_data \<noteq> NULL
      then ie_run env (mi_hd irq_data) irq (mi_arg irq_data)
        (s\<lparr>li_irq := (li_irq s)\<lparr>irq_calls := irq_calls (li_irq s) @ [(mi_hd irq_data, irq, mi_arg irq_data)]\<rparr>\<rparr>)
      else Some (METAL_IRQ_NOT_HANDLED, s))"

definition irq_serve :: "irq_env \<Rightarrow> int \<Rightarrow> u16 \<Rightarrow> linux_irq \<Rightarrow> linux_irq option" where
  "irq_serve env fd revents s =
     (if fd = li_notify_fd s \<and> revents AND POLL_READABLE \<noteq> 0 then Some (s\<lparr>li_events := 0\<rparr>)
      else if revents AND POLL_READABLE \<noteq> 0 then do {
        require (0 \<le> fd);
        dev \<leftarrow> arr_get (li_devs s) (nat fd);
        s1 \<leftarrow> lx_acquire s;
        lx \<leftarrow> irq_cntr (li_irq s1) LINUX_CNTR;
        irqs \<leftarrow> ic_irqs lx;
        d \<leftarrow> arr_get irqs (nat fd);
        (r, s2) \<leftarrow> lx_irq_handle env d fd s1;
        s3 \<leftarrow> (if r = METAL_IRQ_HANDLED \<and> dev \<noteq> NULL \<and> ie_has_ack env dev then ie_ack env dev fd s2 else Some s2);
        Some (lx_release s3)
      } else Some s)"

fun irq_serve_all :: "irq_env \<Rightarrow> int list \<Rightarrow> u16 list \<Rightarrow> linux_irq \<Rightarrow> linux_irq option" where
  "irq_serve_all env (fd # fds) (r # rs) s = do { s1 \<leftarrow> irq_serve env fd r s; irq_serve_all env fds rs s1 }"
| "irq_serve_all env _ _ s = Some s"

text \<open>
  \<open>poll\<close> returns the result of the system call, the events of each entry, and the state to which other
  threads have brought the process meanwhile.
\<close>

partial_function (option) lx_irq_loop ::
  "irq_env \<Rightarrow> (int list \<Rightarrow> linux_irq \<Rightarrow> int \<times> u16 list \<times> linux_irq) \<Rightarrow> linux_irq \<Rightarrow> linux_irq option" where
  "lx_irq_loop env poll s =
     Option.bind (lx_acquire s) (\<lambda>s1.
       if li_stop s1 then Some (lx_release s1)
       else Option.bind (irq_pollfds s1) (\<lambda>fds.
         case poll fds (lx_release s1) of (ret, revents, s2) \<Rightarrow>
           if ret < 0 then Some s2
           else Option.bind (irq_serve_all env fds revents s2) (\<lambda>s3. lx_irq_loop env poll s3)))"

text \<open>\<open>allocated\<close> tells whether the array for \<open>poll\<close> could be allocated.\<close>

definition metal_linux_irq_handling ::
  "bool \<Rightarrow> irq_env \<Rightarrow> (int list \<Rightarrow> linux_irq \<Rightarrow> int \<times> u16 list \<times> linux_irq) \<Rightarrow> linux_irq \<Rightarrow> linux_irq option" where
  "metal_linux_irq_handling allocated env poll s = (if \<not> allocated then Some s else lx_irq_loop env poll s)"

section \<open>Start and stop\<close>

text \<open>\<open>fd\<close> is the result of \<open>eventfd\<close>, \<open>created\<close> whether the thread was created.\<close>

definition metal_linux_irq_init :: "int \<Rightarrow> bool \<Rightarrow> linux_irq \<Rightarrow> (int \<times> linux_irq) option" where
  "metal_linux_irq_init fd created s = do {
     lx \<leftarrow> irq_cntr (li_irq s) LINUX_CNTR;
     let lx1 = lx\<lparr>ic_irqs := map_option (map (\<lambda>_. \<lparr>mi_hd = NULL, mi_arg = NULL\<rparr>)) (ic_irqs lx)\<rparr>;
     let s1 = s\<lparr>li_irq := (li_irq s)\<lparr>irq_cntr := (irq_cntr (li_irq s))(LINUX_CNTR \<mapsto> lx1)\<rparr>, li_notify_fd := fd\<rparr>;
     if fd < 0 then Some (- LX_EAGAIN, s1)
     else do {
       let s2 = s1\<lparr>li_lock := False, li_stop := False, li_events := 0\<rparr>;
       (ret, st) \<leftarrow> metal_irq_register_controller LINUX_CNTR (li_irq s2);
       let s3 = s2\<lparr>li_irq := st\<rparr>;
       if ret < 0 then Some (- IRQ_EINVAL, s3)
       else if \<not> created then Some (- LX_EAGAIN, s3)
       else Some (0, s3\<lparr>li_thread := True\<rparr>)
     }
   }"

text \<open>\<open>join\<close> is what the thread does until it ends.\<close>

definition metal_linux_irq_shutdown :: "bool \<Rightarrow> (linux_irq \<Rightarrow> linux_irq option) \<Rightarrow> linux_irq \<Rightarrow> linux_irq option" where
  "metal_linux_irq_shutdown written join s = do {
     let s1 = snd (metal_linux_irq_notify written (s\<lparr>li_stop := True\<rparr>));
     s2 \<leftarrow> join s1;
     Some (s2\<lparr>li_thread := False, li_events := 0\<rparr>)
   }"

declare collect_fds.simps [code] lx_irq_loop.simps [code]

section \<open>The polled descriptors\<close>

text \<open>The enabled interrupts, in increasing order.\<close>

definition enabled_irqs :: "linux_irq \<Rightarrow> nat list" where
  "enabled_irqs s = filter (\<lambda>i. i \<in> bitmap_bits (li_enabled s)) [0..<MAX_IRQS]"

lemma next_set_from_spec:
  assumes "unat mx \<le> bitmap_capacity bm" and "unat b \<le> unat mx"
  shows "\<exists>r. next_set_from bm b mx = Some r \<and> unat b \<le> unat r \<and> unat r \<le> unat mx
    \<and> filter (\<lambda>i. i \<in> bitmap_bits bm) [unat b..<unat mx]
        = (if r < mx then unat r # filter (\<lambda>i. i \<in> bitmap_bits bm) [Suc (unat r)..<unat mx] else [])"
  using assms
proof (induction bm b mx rule: next_set_from.induct)
  case (1 bm b mx)
  show ?case
  proof (cases "b < mx")
    case False
    then show ?thesis using "1.prems" by (subst next_set_from.simps) (simp add: word_less_nat_alt)
  next
    case True
    then have lt: "unat b < unat mx" by (simp add: word_less_nat_alt)
    then have test: "metal_bitmap_is_bit_set bm (unat b) = Some (unat b \<in> bitmap_bits bm)"
      using "1.prems"(1) by (intro metal_bitmap.test_ok) simp
    have up: "[unat b..<unat mx] = unat b # [Suc (unat b)..<unat mx]" using lt by (simp add: upt_conv_Cons)
    have b1: "unat (b + 1) = Suc (unat b)" using unat_plus_one_less [OF True] by simp
    show ?thesis
    proof (cases "unat b \<in> bitmap_bits bm")
      case set: True
      then show ?thesis using True test up lt by (subst next_set_from.simps) simp
    next
      case clear: False
      have "\<exists>r. next_set_from bm (b + 1) mx = Some r \<and> unat (b + 1) \<le> unat r \<and> unat r \<le> unat mx
        \<and> filter (\<lambda>i. i \<in> bitmap_bits bm) [unat (b + 1)..<unat mx]
            = (if r < mx then unat r # filter (\<lambda>i. i \<in> bitmap_bits bm) [Suc (unat r)..<unat mx] else [])"
        using "1.IH" [OF True test] clear "1.prems"(1) b1 lt by simp
      moreover have "next_set_from bm b mx = next_set_from bm (b + 1) mx"
        using True test clear by (subst next_set_from.simps) simp
      ultimately show ?thesis unfolding up filter.simps b1 using clear by (metis Suc_leD)
    qed
  qed
qed

lemma collect_fds_ok:
  assumes "unat mx \<le> bitmap_capacity bm" and "i < mx \<Longrightarrow> j + (unat mx - unat i) \<le> FD_SETSIZE"
    and "xs = (if i < mx then unat i # filter (\<lambda>k. k \<in> bitmap_bits bm) [Suc (unat i)..<unat mx] else [])"
  shows "collect_fds bm i mx j = Some (map int xs)"
  using assms
proof (induction xs arbitrary: i j)
  case Nil
  then show ?case by (subst collect_fds.simps) (simp split: if_splits)
next
  case (Cons x xs)
  then have lt: "i < mx" "x = unat i" "xs = filter (\<lambda>k. k \<in> bitmap_bits bm) [Suc (unat i)..<unat mx]" by (auto split: if_splits)
  have ui: "unat i < unat mx" using lt(1) by (simp add: word_less_nat_alt)
  have i1: "unat (i + 1) = Suc (unat i)" using unat_plus_one_less [OF lt(1)] by simp
  obtain r where r: "metal_bitmap_next_set_bit bm (i + 1) mx = Some r" "unat (i + 1) \<le> unat r"
    "xs = (if r < mx then unat r # filter (\<lambda>k. k \<in> bitmap_bits bm) [Suc (unat r)..<unat mx] else [])"
    using next_set_from_spec [OF Cons.prems(1), of "i + 1"] i1 ui lt(3) unfolding metal_bitmap_next_set_bit_def by auto
  have room: "r < mx \<Longrightarrow> j + 1 + (unat mx - unat r) \<le> FD_SETSIZE"
    using Cons.prems(2) [OF lt(1)] r(2) i1 ui by (simp add: word_less_nat_alt)
  have "collect_fds bm r mx (j + 1) = Some (map int xs)" by (rule Cons.IH [OF Cons.prems(1) room r(3)])
  then show ?case using lt r(1) Cons.prems(2) [OF lt(1)] ui by (subst collect_fds.simps) simp
qed


text \<open>The controller of the process with its table of handlers, as \<open>metal_linux_irq_init\<close> leaves it.\<close>

definition lx_wf :: "linux_irq \<Rightarrow> bool" where
  "lx_wf s \<longleftrightarrow> \<not> li_lock s \<and> length (li_devs s) = MAX_IRQS \<and> MAX_IRQS \<le> bitmap_capacity (li_enabled s)
     \<and> (case irq_cntr (li_irq s) LINUX_CNTR of None \<Rightarrow> False | Some c \<Rightarrow>
          ic_irq_base c = 0 \<and> ic_irq_num c = int MAX_IRQS \<and> map_option length (ic_irqs c) = Some MAX_IRQS)"

definition lx_table :: "linux_irq \<Rightarrow> metal_irq list" where
  "lx_table s = the (Option.bind (irq_cntr (li_irq s) LINUX_CNTR) ic_irqs)"

lemma lx_wf_cntr:
  assumes "lx_wf s"
  obtains c where "irq_cntr (li_irq s) LINUX_CNTR = Some c" "ic_irq_base c = 0" "ic_irq_num c = int MAX_IRQS"
    "ic_irqs c = Some (lx_table s)" "length (lx_table s) = MAX_IRQS"
  using assms by (auto simp: lx_wf_def lx_table_def split: option.splits)

lemma pollfds_enabled:
  assumes "lx_wf s"
  shows "irq_pollfds s = Some (li_notify_fd s # map int (enabled_irqs s))"
proof -
  obtain c where c: "irq_cntr (li_irq s) LINUX_CNTR = Some c" "ic_irq_num c = int MAX_IRQS" by (rule lx_wf_cntr [OF assms])
  have mx: "unat (word_of_int (int MAX_IRQS) :: u32) = MAX_IRQS" by simp
  have room: "unat (word_of_int (int MAX_IRQS) :: u32) \<le> bitmap_capacity (li_enabled s)" using assms by (simp add: lx_wf_def)
  obtain r where r: "metal_bitmap_next_set_bit (li_enabled s) 0 (word_of_int (int MAX_IRQS)) = Some r" "unat r \<le> MAX_IRQS"
    "enabled_irqs s = (if r < word_of_int (int MAX_IRQS)
       then unat r # filter (\<lambda>i. i \<in> bitmap_bits (li_enabled s)) [Suc (unat r)..<unat (word_of_int (int MAX_IRQS) :: u32)] else [])"
    using next_set_from_spec [OF room, of 0] unfolding metal_bitmap_next_set_bit_def enabled_irqs_def mx by auto
  have "1 + (unat (word_of_int (int MAX_IRQS) :: u32) - unat r) \<le> FD_SETSIZE" by simp
  then show ?thesis using c r(1) collect_fds_ok [OF room _ r(3), of 1] by (simp add: irq_pollfds_def Let_def)
qed

section \<open>Serving\<close>

text \<open>Handlers that leave the state of the interrupts alone and acknowledgements that only happen.\<close>

definition quiet_env :: "(addr \<Rightarrow> int) \<Rightarrow> (addr \<Rightarrow> bool) \<Rightarrow> irq_env" where
  "quiet_env result acked = \<lparr>ie_run = (\<lambda>h i a s. Some (result h, s)), ie_has_ack = acked,
     ie_ack = (\<lambda>dev fd s. Some (s\<lparr>li_acks := li_acks s @ [(dev, fd)]\<rparr>))\<rparr>"

definition handler_calls :: "metal_irq list \<Rightarrow> int \<Rightarrow> (addr \<times> int \<times> addr) list" where
  "handler_calls irqs fd = (let d = irqs ! nat fd in if mi_hd d \<noteq> NULL then [(mi_hd d, fd, mi_arg d)] else [])"

definition handler_acks :: "(addr \<Rightarrow> int) \<Rightarrow> (addr \<Rightarrow> bool) \<Rightarrow> addr list \<Rightarrow> metal_irq list \<Rightarrow> int \<Rightarrow> (addr \<times> int) list" where
  "handler_acks result acked devs irqs fd = (let h = mi_hd (irqs ! nat fd); dev = devs ! nat fd in
     if h \<noteq> NULL \<and> result h = METAL_IRQ_HANDLED \<and> dev \<noteq> NULL \<and> acked dev then [(dev, fd)] else [])"

definition served :: "(addr \<Rightarrow> int) \<Rightarrow> (addr \<Rightarrow> bool) \<Rightarrow> int list \<Rightarrow> linux_irq \<Rightarrow> linux_irq" where
  "served result acked fds s =
     s\<lparr>li_irq := (li_irq s)\<lparr>irq_calls := irq_calls (li_irq s) @ concat (map (handler_calls (lx_table s)) fds)\<rparr>,
       li_acks := li_acks s @ concat (map (handler_acks result acked (li_devs s) (lx_table s)) fds)\<rparr>"

definition ready_fds :: "int list \<Rightarrow> u16 list \<Rightarrow> int list" where
  "ready_fds fds rs = map fst (filter (\<lambda>(fd, r). r AND POLL_READABLE \<noteq> 0) (zip fds rs))"

lemma served_keeps [simp]:
  "lx_wf (served result acked fds s) = lx_wf s" "lx_table (served result acked fds s) = lx_table s"
  "li_devs (served result acked fds s) = li_devs s" "li_notify_fd (served result acked fds s) = li_notify_fd s"
  "li_stop (served result acked fds s) = li_stop s" "li_lock (served result acked fds s) = li_lock s"
  by (simp_all add: served_def lx_wf_def lx_table_def)

lemma served_served: "served result acked ys (served result acked xs s) = served result acked (xs @ ys) s"
  by (simp add: served_def lx_table_def)

lemma served_none [simp]: "served result acked [] s = s"
  by (simp add: served_def)

lemma serve_ready:
  assumes "lx_wf s" and "0 \<le> fd" "nat fd < MAX_IRQS" "fd \<noteq> li_notify_fd s" and "r AND POLL_READABLE \<noteq> 0"
  shows "irq_serve (quiet_env result acked) fd r s = Some (served result acked [fd] s)"
proof -
  obtain c where c: "irq_cntr (li_irq s) LINUX_CNTR = Some c" "ic_irqs c = Some (lx_table s)" "length (lx_table s) = MAX_IRQS"
    by (rule lx_wf_cntr [OF assms(1)])
  have l: "\<not> li_lock s" "length (li_devs s) = MAX_IRQS" using assms(1) by (simp_all add: lx_wf_def)
  show ?thesis
    using assms(2-) c l
    by (simp add: irq_serve_def lx_acquire_def lx_release_def lx_irq_handle_def quiet_env_def served_def handler_calls_def
        handler_acks_def Let_def)
qed

lemma serve_all_ready:
  assumes "lx_wf s" and "length fds = length rs" and "\<forall>fd \<in> set fds. 0 \<le> fd \<and> nat fd < MAX_IRQS \<and> fd \<noteq> li_notify_fd s"
  shows "irq_serve_all (quiet_env result acked) fds rs s = Some (served result acked (ready_fds fds rs) s)"
  using assms
proof (induction fds rs arbitrary: s rule: list_induct2')
  case (4 fd fds r rs)
  show ?case
  proof (cases "r AND POLL_READABLE = 0")
    case True
    then show ?thesis using 4 by (simp add: irq_serve_def ready_fds_def)
  next
    case False
    then show ?thesis using 4 serve_ready [of s fd r result acked] by (simp add: ready_fds_def served_served)
  qed
qed (simp_all add: ready_fds_def)

section \<open>Rounds of the thread\<close>

definition notify_read :: "u16 \<Rightarrow> linux_irq \<Rightarrow> linux_irq" where
  "notify_read ev s = (if ev AND POLL_READABLE \<noteq> 0 then s\<lparr>li_events := 0\<rparr> else s)"

lemma notify_read_keeps [simp]:
  "lx_wf (notify_read ev s) = lx_wf s" "li_notify_fd (notify_read ev s) = li_notify_fd s" "li_stop (notify_read ev s) = li_stop s"
  by (simp_all add: notify_read_def lx_wf_def)

lemma serve_notify: "irq_serve env (li_notify_fd s) ev s = Some (notify_read ev s)"
  by (simp add: irq_serve_def notify_read_def)

lemma lock_unlock: "\<not> li_lock s \<Longrightarrow> lx_acquire s = Some (s\<lparr>li_lock := True\<rparr>) \<and> lx_release (s\<lparr>li_lock := True\<rparr>) = s"
  by (simp add: lx_acquire_def lx_release_def)

lemma pollfds_locked: "irq_pollfds (s\<lparr>li_lock := b\<rparr>) = irq_pollfds s"
  by (simp add: irq_pollfds_def)

lemma loop_stopped:
  assumes "lx_wf s" and "li_stop s"
  shows "lx_irq_loop env poll s = Some s"
  using assms lock_unlock [of s] by (subst lx_irq_loop.simps) (simp add: lx_wf_def)

lemma enabled_below: "i \<in> set (enabled_irqs s) \<Longrightarrow> i < MAX_IRQS"
  by (simp add: enabled_irqs_def)

lemma loop_round:
  assumes wf: "lx_wf s" "lx_wf s2" and going: "\<not> li_stop s"
    and fd: "li_notify_fd s2 = li_notify_fd s" "li_notify_fd s \<notin> int ` set (enabled_irqs s)"
    and poll: "poll (li_notify_fd s # map int (enabled_irqs s)) s = (ret, ev # rs, s2)" "0 \<le> ret"
    and len: "length rs = length (enabled_irqs s)"
  shows "lx_irq_loop (quiet_env result acked) poll s
    = lx_irq_loop (quiet_env result acked) poll (served result acked (ready_fds (map int (enabled_irqs s)) rs) (notify_read ev s2))"
proof -
  let ?env = "quiet_env result acked"
  have l: "\<not> li_lock s" using wf(1) by (simp add: lx_wf_def)
  have "irq_serve_all ?env (map int (enabled_irqs s)) rs (notify_read ev s2)
      = Some (served result acked (ready_fds (map int (enabled_irqs s)) rs) (notify_read ev s2))"
  proof (intro serve_all_ready)
    show "\<forall>fd \<in> set (map int (enabled_irqs s)). 0 \<le> fd \<and> nat fd < MAX_IRQS \<and> fd \<noteq> li_notify_fd (notify_read ev s2)"
      using fd enabled_below [of _ s] by (metis imageE list.set_map nat_int notify_read_keeps(2) of_nat_0_le_iff)
  qed (use wf(2) len in simp_all)
  moreover have "irq_serve ?env (li_notify_fd s) ev s2 = Some (notify_read ev s2)"
    using serve_notify [of ?env s2 ev] fd(1) by simp
  ultimately show ?thesis
    using lock_unlock [OF l] pollfds_locked [of True s] pollfds_enabled [OF wf(1)] going poll
    by (subst lx_irq_loop.simps) simp
qed

section \<open>Theorems\<close>

text \<open>
  C34: a round of the thread serves exactly the enabled interrupts whose descriptors are readable, in increasing
  order, each handler with its own argument, and acknowledges those that were handled at their device; a stop requested by
  the time \<open>poll\<close> returns ends the thread after this round, with the lock free.
\<close>

theorem irq_stop_after_round:
  assumes "lx_wf s" "lx_wf s2" and "\<not> li_stop s" "li_stop s2"
    and "li_notify_fd s2 = li_notify_fd s" "li_notify_fd s \<notin> int ` set (enabled_irqs s)"
    and "poll (li_notify_fd s # map int (enabled_irqs s)) s = (ret, ev # rs, s2)" "0 \<le> ret"
    and "length rs = length (enabled_irqs s)"
  shows "\<exists>s3. metal_linux_irq_handling True (quiet_env result acked) poll s = Some s3 \<and> \<not> li_lock s3
    \<and> irq_calls (li_irq s3) = irq_calls (li_irq s2) @ concat (map (handler_calls (lx_table s2)) (ready_fds (map int (enabled_irqs s)) rs))
    \<and> li_acks s3 = li_acks s2
        @ concat (map (handler_acks result acked (li_devs s2) (lx_table s2)) (ready_fds (map int (enabled_irqs s)) rs))"
proof -
  let ?s3 = "served result acked (ready_fds (map int (enabled_irqs s)) rs) (notify_read ev s2)"
  have "lx_irq_loop (quiet_env result acked) poll s = lx_irq_loop (quiet_env result acked) poll ?s3"
    using assms by (intro loop_round)
  moreover have "lx_irq_loop (quiet_env result acked) poll ?s3 = Some ?s3" using assms(2,4) by (intro loop_stopped) simp_all
  moreover have "\<not> li_lock ?s3" using assms(2) by (simp add: lx_wf_def notify_read_def)
  ultimately show ?thesis
    by (simp add: metal_linux_irq_handling_def served_def notify_read_def lx_table_def)
qed

text \<open>
  Enabling an interrupt of the range adds it to those that are polled, disabling removes it, and the event file is written so
  that \<open>poll\<close> returns; an interrupt outside the range changes nothing.
\<close>

theorem set_enable_polls:
  assumes "lx_wf s"
  shows "\<exists>s'. metal_linux_irq_set_enable True LINUX_CNTR irq state s = Some s' \<and> lx_wf s'
    \<and> set (enabled_irqs s') = (if 0 \<le> irq \<and> irq < int MAX_IRQS
        then (if state = METAL_IRQ_ENABLE then insert (nat irq) (set (enabled_irqs s)) else set (enabled_irqs s) - {nat irq})
        else set (enabled_irqs s))
    \<and> li_events s' = (if 0 \<le> irq \<and> irq < int MAX_IRQS then li_events s + 1 else li_events s)"
proof -
  obtain c where c: "irq_cntr (li_irq s) LINUX_CNTR = Some c" "ic_irq_base c = 0" "ic_irq_num c = int MAX_IRQS"
    by (rule lx_wf_cntr [OF assms])
  show ?thesis
  proof (cases "0 \<le> irq \<and> irq < int MAX_IRQS")
    case False
    then show ?thesis using c assms by (auto simp: metal_linux_irq_set_enable_def int_add_def)
  next
    case True
    have l: "\<not> li_lock s" and "MAX_IRQS \<le> bitmap_capacity (li_enabled s)" using assms by (simp_all add: lx_wf_def)
    moreover have "nat irq < MAX_IRQS" using True by (simp add: nat_less_iff)
    ultimately have cap: "nat irq < bitmap_capacity (li_enabled s)" by linarith
    define bm where "bm = (if state = METAL_IRQ_ENABLE then metal_bitmap_set_bit (li_enabled s) (nat irq)
      else metal_bitmap_clear_bit (li_enabled s) (nat irq))"
    obtain m where m: "bm = Some m" "bitmap_capacity m = bitmap_capacity (li_enabled s)"
      "bitmap_bits m = (if state = METAL_IRQ_ENABLE then insert (nat irq) (bitmap_bits (li_enabled s)) else bitmap_bits (li_enabled s) - {nat irq})"
      using metal_bitmap.set_ok [OF cap] metal_bitmap.clear_ok [OF cap] unfolding bm_def by (cases "state = METAL_IRQ_ENABLE") auto
    let ?s' = "s\<lparr>li_lock := False, li_enabled := m, li_events := li_events s + 1\<rparr>"
    have "metal_linux_irq_set_enable True LINUX_CNTR irq state s = Some ?s'"
      using True c l m(1) unfolding bm_def
      by (cases "state = METAL_IRQ_ENABLE") (simp_all add: metal_linux_irq_set_enable_def int_add_def lx_acquire_def lx_release_def metal_linux_irq_notify_def Let_def)
    moreover have "lx_wf ?s'" using assms m(2) by (simp add: lx_wf_def)
    ultimately show ?thesis using True m(3) by (auto simp: enabled_irqs_def)
  qed
qed

text \<open>
  In the handler of an interrupt \<open>metal_irq_save_disable\<close> and \<open>metal_irq_restore_enable\<close> do nothing, so that a handler that uses
  them is not blocked.
\<close>

lemma isr_save_restore: "lx_irq_save_disable True s = Some (0, s)" "lx_irq_restore_enable True flags s = s"
  by (simp_all add: lx_irq_save_disable_def lx_irq_restore_enable_def)

text \<open>
  C35: a handler that enables or disables an interrupt never returns: the thread holds the lock of the
  interrupts while it runs the handler, and takes it again.
\<close>

theorem enable_in_handler_deadlocks:
  assumes "lx_wf s" and "0 \<le> fd" "nat fd < MAX_IRQS" "fd \<noteq> li_notify_fd s" and "r AND POLL_READABLE \<noteq> 0"
    and "mi_hd (lx_table s ! nat fd) \<noteq> NULL"
    and "ie_run env (mi_hd (lx_table s ! nat fd)) = (\<lambda>i a s'. do { s'' \<leftarrow> metal_linux_irq_set_enable w LINUX_CNTR irq state s'; Some (METAL_IRQ_HANDLED, s'') })"
    and "0 \<le> irq" "irq < int MAX_IRQS"
  shows "irq_serve env fd r s = None"
proof -
  obtain c where c: "irq_cntr (li_irq s) LINUX_CNTR = Some c" "ic_irq_base c = 0" "ic_irq_num c = int MAX_IRQS"
    "ic_irqs c = Some (lx_table s)" "length (lx_table s) = MAX_IRQS"
    by (rule lx_wf_cntr [OF assms(1)])
  have l: "\<not> li_lock s" "length (li_devs s) = MAX_IRQS" using assms(1) by (simp_all add: lx_wf_def)
  show ?thesis
    using assms(2-) c l
    by (simp add: irq_serve_def lx_acquire_def lx_irq_handle_def metal_linux_irq_set_enable_def int_add_def Let_def)
qed

text \<open>
  \<open>metal_linux_irq_register_dev\<close> sets the device of an interrupt of the table and rejects the numbers above it,
  except for the first: with \<open>MAX_IRQS\<close> itself, as with a negative number, it writes outside the table.
\<close>

theorem register_dev_bounds:
  assumes "lx_wf s"
  shows "metal_linux_irq_register_dev dev irq s =
    (if 0 \<le> irq \<and> irq < int MAX_IRQS then Some (s\<lparr>li_devs := (li_devs s)[nat irq := dev]\<rparr>)
     else if int MAX_IRQS < irq then Some s else None)"
  using assms by (auto simp: metal_linux_irq_register_dev_def lx_wf_def arr_set_def)

text \<open>
  Stopping ends the thread when it is about to start a round, and starting again succeeds with the
  controller already registered; the handlers are forgotten, but the interrupts enabled before are still polled.
\<close>

theorem restart_polls_old_irqs:
  assumes "lx_wf s" and "LINUX_CNTR \<in> set (irq_cntrs (li_irq s))" and "0 \<le> fd"
  shows "\<exists>s1 s2. metal_linux_irq_shutdown True (metal_linux_irq_handling True env poll) s = Some s1 \<and> \<not> li_thread s1
    \<and> metal_linux_irq_init fd True s1 = Some (0, s2) \<and> lx_wf s2 \<and> \<not> li_stop s2 \<and> li_thread s2
    \<and> lx_table s2 = replicate MAX_IRQS \<lparr>mi_hd = NULL, mi_arg = NULL\<rparr>
    \<and> irq_pollfds s2 = Some (fd # map int (enabled_irqs s))"
proof -
  obtain c where c: "irq_cntr (li_irq s) LINUX_CNTR = Some c" "ic_irq_base c = 0" "ic_irq_num c = int MAX_IRQS"
    "ic_irqs c = Some (lx_table s)" "length (lx_table s) = MAX_IRQS"
    by (rule lx_wf_cntr [OF assms(1)])
  let ?halt = "s\<lparr>li_stop := True, li_events := li_events s + 1\<rparr>"
  let ?s1 = "s\<lparr>li_stop := True, li_thread := False, li_events := 0\<rparr>"
  let ?c = "c\<lparr>ic_irqs := Some (replicate MAX_IRQS \<lparr>mi_hd = NULL, mi_arg = NULL\<rparr>)\<rparr>"
  let ?s2 = "?s1\<lparr>li_irq := (li_irq s)\<lparr>irq_cntr := (irq_cntr (li_irq s))(LINUX_CNTR \<mapsto> ?c)\<rparr>, li_notify_fd := fd,
    li_lock := False, li_stop := False, li_events := 0, li_thread := True\<rparr>"
  have "lx_wf ?halt" using assms(1) by (simp add: lx_wf_def)
  then have "metal_linux_irq_shutdown True (metal_linux_irq_handling True env poll) s = Some ?s1"
    using loop_stopped [of ?halt env poll]
    by (simp add: metal_linux_irq_shutdown_def metal_linux_irq_notify_def metal_linux_irq_handling_def)
  moreover have "metal_linux_irq_init fd True ?s1 = Some (0, ?s2)"
    using c assms(2,3) by (simp add: metal_linux_irq_init_def metal_irq_register_controller_def map_replicate_const Let_def)
  moreover have wf: "lx_wf ?s2" using assms(1) c by (simp add: lx_wf_def)
  moreover have "irq_pollfds ?s2 = Some (fd # map int (enabled_irqs s))"
    using pollfds_enabled [OF wf] by (simp add: enabled_irqs_def)
  ultimately show ?thesis by (simp add: lx_table_def)
qed

section \<open>An example\<close>

definition demo_enabled :: bitmap where
  "demo_enabled = (replicate 16 0)[5 div 64 := (replicate 16 0) ! (5 div 64) OR metal_bit (5 mod 64)]"

definition demo_linux_irq :: linux_irq where
  "demo_linux_irq = \<lparr>li_irq = \<lparr>irq_cntrs = [LINUX_CNTR],
       irq_cntr = [LINUX_CNTR \<mapsto> linux_irq_cntr\<lparr>ic_irqs := Some ((replicate MAX_IRQS \<lparr>mi_hd = NULL, mi_arg = NULL\<rparr>)[5 := \<lparr>mi_hd = 0x40, mi_arg = 0x50\<rparr>])\<rparr>],
       softirq_avail = 0, softirq_pending = [], softirq_enabled = [], irq_calls = []\<rparr>,
     li_devs = (replicate MAX_IRQS NULL)[5 := 0x60], li_notify_fd = 3, li_events = 0, li_lock = False, li_stop = False, li_thread = True,
     li_enabled = demo_enabled, li_acks = []\<rparr>"

lemma demo_enabled_bits: "bitmap_bits demo_enabled = {5}" "bitmap_capacity demo_enabled = 1024"
proof -
  have "bitmap_bits (replicate 16 0) = {}" by (auto simp: bitmap_bits_def bitmap_capacity_def)
  then show "bitmap_bits demo_enabled = {5}" using bits_after_set [of 5 "replicate 16 0"] by (simp add: demo_enabled_def bitmap_capacity_def)
qed (simp add: demo_enabled_def bitmap_capacity_def)

lemma filter_upt_single: "k < n \<Longrightarrow> filter (\<lambda>i. i = k) [0..<n] = [k]"
  by (induction n) (auto simp: less_Suc_eq)

lemma demo_linux_irq_facts:
  "lx_wf demo_linux_irq" "enabled_irqs demo_linux_irq = [5]"
  "lx_table demo_linux_irq = (replicate MAX_IRQS \<lparr>mi_hd = NULL, mi_arg = NULL\<rparr>)[5 := \<lparr>mi_hd = 0x40, mi_arg = 0x50\<rparr>]"
  using filter_upt_single [of 5 MAX_IRQS]
  by (simp_all add: demo_linux_irq_def lx_wf_def demo_enabled_bits linux_irq_cntr_def enabled_irqs_def lx_table_def del: upt_Suc)

lemma demo_wf_stopped: "lx_wf (demo_linux_irq\<lparr>li_stop := True\<rparr>)"
  using demo_linux_irq_facts(1) by (simp add: lx_wf_def)

theorem irq_stop_after_round_witness:
  "\<exists>s3. metal_linux_irq_handling True (quiet_env (\<lambda>h. METAL_IRQ_HANDLED) (\<lambda>d. True)) (\<lambda>fds s. (1, [0, 1], s\<lparr>li_stop := True\<rparr>)) demo_linux_irq = Some s3
    \<and> \<not> li_lock s3 \<and> irq_calls (li_irq s3) = [(0x40, 5, 0x50)] \<and> li_acks s3 = [(0x60, 5)]"
  using irq_stop_after_round [OF demo_linux_irq_facts(1) demo_wf_stopped, of "\<lambda>fds s. (1, [0, 1], s\<lparr>li_stop := True\<rparr>)" 1 0 "[1]"
    "\<lambda>h. METAL_IRQ_HANDLED" "\<lambda>d. True"]
  by (simp add: demo_linux_irq_facts ready_fds_def handler_calls_def handler_acks_def lx_table_def)
    (simp add: demo_linux_irq_def linux_irq_cntr_def)

theorem set_enable_polls_witness:
  "\<exists>s'. metal_linux_irq_set_enable True LINUX_CNTR 7 METAL_IRQ_ENABLE demo_linux_irq = Some s' \<and> lx_wf s'
    \<and> set (enabled_irqs s') = {5, 7} \<and> li_events s' = 1"
  using set_enable_polls [OF demo_linux_irq_facts(1), of 7 METAL_IRQ_ENABLE]
  by (simp add: demo_linux_irq_facts(2) insert_commute) (simp add: demo_linux_irq_def)

definition demo_self_enabling :: irq_env where
  "demo_self_enabling = (quiet_env (\<lambda>h. METAL_IRQ_HANDLED) (\<lambda>d. True))\<lparr>ie_run := \<lambda>h i a s'.
     do { s'' \<leftarrow> metal_linux_irq_set_enable True LINUX_CNTR 5 METAL_IRQ_DISABLE s'; Some (METAL_IRQ_HANDLED, s'') }\<rparr>"

theorem enable_in_handler_deadlocks_witness: "irq_serve demo_self_enabling 5 1 demo_linux_irq = None"
  using enable_in_handler_deadlocks [OF demo_linux_irq_facts(1), of 5 1 demo_self_enabling True 5 METAL_IRQ_DISABLE]
  by (simp add: demo_linux_irq_facts(3) demo_self_enabling_def) (simp add: demo_linux_irq_def)

theorem register_dev_bounds_witness:
  "metal_linux_irq_register_dev 0x80 1023 demo_linux_irq = None
   \<and> metal_linux_irq_register_dev 0x80 1022 demo_linux_irq = Some (demo_linux_irq\<lparr>li_devs := (li_devs demo_linux_irq)[1022 := 0x80]\<rparr>)
   \<and> metal_linux_irq_register_dev 0x80 1024 demo_linux_irq = Some demo_linux_irq"
  by (simp add: register_dev_bounds [OF demo_linux_irq_facts(1)])

theorem restart_polls_old_irqs_witness:
  "\<exists>s1 s2. metal_linux_irq_shutdown True (metal_linux_irq_handling True demo_self_enabling (\<lambda>fds s. (- 1, [], s))) demo_linux_irq = Some s1
    \<and> metal_linux_irq_init 4 True s1 = Some (0, s2) \<and> irq_pollfds s2 = Some [4, 5]"
proof -
  have "LINUX_CNTR \<in> set (irq_cntrs (li_irq demo_linux_irq))" by (simp add: demo_linux_irq_def)
  then show ?thesis
    using restart_polls_old_irqs [OF demo_linux_irq_facts(1), of 4 demo_self_enabling "\<lambda>fds s. (- 1, [], s)"]
    by (auto simp: demo_linux_irq_facts(2))
qed

end
