(* ===== verification/Linux_Shmem.thy ===== *)
theory Linux_Shmem
  imports Metal_Device Metal_Util "HOL-Library.Multiset"
begin

unbundle bit_operations_syntax

text \<open>
  \<^verbatim>\<open>src/openamp/libmetal/lib/system/linux\<close>: \<^verbatim>\<open>utilities.c\<close> (opening and mapping files), \<^verbatim>\<open>shmem.c\<close> (shared memory with
  its table of physical pages) and \<^verbatim>\<open>init.c\<close> (the page sizes). The answers of the kernel and of the
  library for huge pages are a record of parameters; a system call gives its result and \<open>errno\<close>. \<open>ls_fds\<close> and \<open>ls_maps\<close>
  account for the descriptors and mappings of the process.
\<close>

section \<open>Data\<close>

abbreviation (input) MAX_PAGE_SIZES :: int where "MAX_PAGE_SIZES \<equiv> 32"
abbreviation (input) PATH_MAX :: nat where "PATH_MAX \<equiv> 4096"
abbreviation (input) MAP_SHARED :: u32 where "MAP_SHARED \<equiv> 1"
abbreviation (input) MAP_PRIVATE :: u32 where "MAP_PRIVATE \<equiv> 2"
abbreviation (input) MAP_ANONYMOUS :: u32 where "MAP_ANONYMOUS \<equiv> 0x20"
abbreviation (input) MAP_HUGETLB :: u32 where "MAP_HUGETLB \<equiv> 0x40000"
abbreviation (input) MAP_FAILED :: addr where "MAP_FAILED \<equiv> - 1"
abbreviation (input) LX_EINVAL :: int where "LX_EINVAL \<equiv> 22"
abbreviation (input) LX_ENOMEM :: int where "LX_ENOMEM \<equiv> 12"
abbreviation (input) LX_ENOENT :: int where "LX_ENOENT \<equiv> 2"
abbreviation (input) LX_EOVERFLOW :: int where "LX_EOVERFLOW \<equiv> 75"

record metal_page_size =
  ps_size :: u64
  ps_shift :: u64
  ps_path :: string
  ps_flags :: u32

record linux_state =
  ls_common :: metal_state
  ls_page_size :: u64
  ls_page_shift :: u64
  ls_tmp_path :: "string option"
  ls_page_sizes :: "metal_page_size list"
  ls_num_page_sizes :: int
  ls_pagemap_fd :: int
  ls_fds :: "int list"
  ls_maps :: "(addr \<times> u64) list"

record linux_os =
  os_open :: "string \<Rightarrow> bool \<Rightarrow> int \<times> int"
  os_flock :: "int \<Rightarrow> int \<times> int"
  os_fstat :: "int \<Rightarrow> int \<times> int \<times> u64"
  os_ftruncate :: "int \<Rightarrow> u64 \<Rightarrow> int \<times> int"
  os_mmap :: "u64 \<Rightarrow> u32 \<Rightarrow> int \<Rightarrow> u64 \<Rightarrow> addr \<times> int"
  os_pread :: "u64 \<Rightarrow> int \<times> int \<times> u64"
  os_phys_alloc :: "u64 \<Rightarrow> bool"
  os_io_alloc :: bool
  os_getpagesize :: int
  os_gethugepagesize :: int
  os_gethugepagesizes :: "int list"
  os_hugetlbfs_path :: "int \<Rightarrow> string option"
  os_tmpdir :: "string option"
  os_urandom :: "int option"
  os_pagemap :: int

section \<open>Files and mappings\<close>

definition metal_open :: "linux_os \<Rightarrow> string option \<Rightarrow> bool \<Rightarrow> linux_state \<Rightarrow> int \<times> linux_state" where
  "metal_open os path shm s =
     (case path of None \<Rightarrow> (- LX_EINVAL, s)
      | Some p \<Rightarrow>
          if p = [] then (- LX_EINVAL, s)
          else let (fd, errno) = os_open os p shm in
            if fd < 0 then (- errno, s) else (fd, s\<lparr>ls_fds := fd # ls_fds s\<rparr>))"

text \<open>The steps under the file lock: the first that fails gives its \<open>errno\<close>.\<close>

definition map_expand :: "linux_os \<Rightarrow> int \<Rightarrow> u64 \<Rightarrow> int option" where
  "map_expand os fd reqsize =
     (case os_flock os fd of (r1, e1) \<Rightarrow>
        if r1 < 0 \<and> e1 \<noteq> 0 then Some e1
        else case os_fstat os fd of (r2, e2, st_size) \<Rightarrow>
          if r2 \<noteq> 0 then Some e2
          else if sint st_size < sint reqsize
            then (case os_ftruncate os fd reqsize of (r3, e3) \<Rightarrow> if r3 \<noteq> 0 then Some e3 else None)
            else None)"

text \<open>The second component is what is stored through \<open>result\<close>.\<close>

definition metal_map :: "linux_os \<Rightarrow> int \<Rightarrow> u64 \<Rightarrow> u64 \<Rightarrow> bool \<Rightarrow> u32 \<Rightarrow> linux_state \<Rightarrow> int \<times> addr option \<times> linux_state" where
  "metal_map os fd offset sz expand flags s =
     (let (fd', flags') = (if fd < 0 then (- 1, MAP_PRIVATE OR MAP_ANONYMOUS) else (fd, flags OR MAP_SHARED)) in
      case (if 0 \<le> fd \<and> expand then map_expand os fd (offset + sz) else None) of
        Some errno \<Rightarrow> (- errno, None, s)
      | None \<Rightarrow>
          let (mem, errno) = os_mmap os sz flags' fd' offset in
          if mem = MAP_FAILED then (- errno, None, s) else (0, Some mem, s\<lparr>ls_maps := (mem, sz) # ls_maps s\<rparr>))"

text \<open>The result of \<open>munmap\<close> is not used by any caller.\<close>

definition metal_unmap :: "addr \<Rightarrow> u64 \<Rightarrow> linux_state \<Rightarrow> linux_state" where
  "metal_unmap mem sz s = s\<lparr>ls_maps := remove1 (mem, sz) (ls_maps s)\<rparr>"

definition lx_close :: "int \<Rightarrow> linux_state \<Rightarrow> linux_state" where
  "lx_close fd s = s\<lparr>ls_fds := remove1 fd (ls_fds s)\<rparr>"

section \<open>Shared memory\<close>

definition metal_shmem_io_close :: "metal_io_region \<Rightarrow> linux_state \<Rightarrow> linux_state" where
  "metal_shmem_io_close io s = metal_unmap (io_virt io) (io_size io) s"

abbreviation (input) METAL_SHMEM_IO_CLOSE :: addr where "METAL_SHMEM_IO_CLOSE \<equiv> 0x340"

definition metal_shmem_io_ops :: metal_io_ops where
  "metal_shmem_io_ops = no_ops\<lparr>io_close := METAL_SHMEM_IO_CLOSE\<rparr>"

text \<open>The close operations of regions, by their address.\<close>

definition region_close :: "addr \<Rightarrow> metal_io_region \<Rightarrow> linux_state \<Rightarrow> linux_state option" where
  "region_close f io s = (if f = METAL_SHMEM_IO_CLOSE then Some (metal_shmem_io_close io s) else None)"

text \<open>A short read leaves \<open>entry\<close> undefined.\<close>

definition metal_virt2phys :: "linux_os \<Rightarrow> linux_state \<Rightarrow> addr \<Rightarrow> (int \<times> u64 option) option" where
  "metal_virt2phys os s addr =
     (if ls_pagemap_fd s < 0 then Some (- LX_EINVAL, None)
      else do {
        require (ls_page_shift s < 64);
        let offset = drop_bit (unat (ls_page_shift s)) addr * 8;
        let (error, errno, entry) = os_pread os offset;
        if error < 0 then Some (- errno, None)
        else do {
          require (error = 8);
          if drop_bit 62 entry \<noteq> 2 then Some (- LX_ENOENT, None)
          else Some (0, Some (push_bit (unat (ls_page_shift s)) (entry AND (push_bit 54 1 - 1))))
        }
      })"

fun phys_pages :: "linux_os \<Rightarrow> linux_state \<Rightarrow> addr \<Rightarrow> u64 \<Rightarrow> nat \<Rightarrow> nat \<Rightarrow> u64 list option" where
  "phys_pages os s virt pgsz page 0 = Some []"
| "phys_pages os s virt pgsz page (Suc n) = do {
     (error, phys) \<leftarrow> metal_virt2phys os s (virt + of_nat page * pgsz);
     p \<leftarrow> (if error < 0 then Some METAL_BAD_OFFSET else phys);
     ps \<leftarrow> phys_pages os s virt pgsz (Suc page) n;
     Some (p # ps)
   }"

text \<open>Without a page map only the first entry of the table is set, and the region is one page.\<close>

definition metal_shmem_try_map ::
  "linux_os \<Rightarrow> metal_page_size \<Rightarrow> int \<Rightarrow> u64 \<Rightarrow> linux_state \<Rightarrow> (int \<times> metal_io_region option \<times> linux_state) option" where
  "metal_shmem_try_map os ps fd sz0 s = do {
     require (ps_size ps \<noteq> 0);
     let sz = metal_align_up sz0 (ps_size ps);
     let pages = sz div ps_size ps;
     let (error, result, s1) = metal_map os fd 0 sz True (ps_flags ps) s;
     if error \<noteq> 0 then Some (error, None, s1)
     else do {
       mem \<leftarrow> result;
       if \<not> os_phys_alloc os (8 * pages) then Some (- LX_ENOMEM, None, metal_unmap mem sz s1)
       else if \<not> os_io_alloc os then Some (- LX_ENOMEM, None, metal_unmap mem sz s1)
       else if ls_pagemap_fd s1 < 0 then do {
         require (pages \<noteq> 0);
         Some (0, Some (metal_io_init id mem (Some [0]) sz (- 1) 0 (Some metal_shmem_io_ops)), s1)
       }
       else do {
         phys \<leftarrow> phys_pages os s1 mem (ps_size ps) 0 (unat pages);
         Some (0, Some (metal_io_init id mem (Some phys) sz (ucast (ps_shift ps)) 0 (Some metal_shmem_io_ops)), s1)
       }
     }
   }"

text \<open>A region of the registered segments, or one that was mapped; \<open>None\<close> leaves \<open>*result\<close> as it was.\<close>

datatype shmem_result = Registered addr | Mapped metal_io_region

fun try_page_sizes ::
  "linux_os \<Rightarrow> metal_page_size list \<Rightarrow> int \<Rightarrow> u64 \<Rightarrow> int \<Rightarrow> linux_state \<Rightarrow> (int \<times> metal_io_region option \<times> linux_state) option" where
  "try_page_sizes os [] fd sz error s = Some (error, None, s)"
| "try_page_sizes os (ps # pss) fd sz error s =
     (if 2 * sz < ps_size ps then try_page_sizes os pss fd sz error s
      else do {
        (error, r, s1) \<leftarrow> metal_shmem_try_map os ps fd sz s;
        if error = 0 then Some (error, r, s1) else try_page_sizes os pss fd sz error s1
      })"

definition metal_shmem_open ::
  "linux_os \<Rightarrow> string \<Rightarrow> u64 \<Rightarrow> linux_state \<Rightarrow> (int \<times> shmem_result option \<times> linux_state) option" where
  "metal_shmem_open os name sz s = do {
     (error, r) \<leftarrow> metal_shmem_open_generic name sz (ls_common s);
     if error = 0 then Some (error, map_option Registered r, s)
     else do {
       let (error, s1) = metal_open os (Some name) True s;
       if error < 0 then Some (error, None, s1)
       else do {
         (err, io, s2) \<leftarrow> try_page_sizes os (rev (take (nat (ls_num_page_sizes s1)) (ls_page_sizes s1))) error sz error s1;
         Some (err, map_option Mapped io, lx_close error s2)
       }
     }
   }"

section \<open>Page sizes\<close>

definition metal_pagesize_compare :: "metal_page_size \<Rightarrow> metal_page_size \<Rightarrow> int" where
  "metal_pagesize_compare a b = sgn (sint (ps_size a - ps_size b))"

definition metal_add_page_size :: "string option \<Rightarrow> int \<Rightarrow> u32 \<Rightarrow> linux_state \<Rightarrow> (int \<times> linux_state) option" where
  "metal_add_page_size path shift flags s = do {
     let index = ls_num_page_sizes s;
     require (0 \<le> shift \<and> shift < 64);
     let sz = push_bit (nat shift) 1;
     if MAX_PAGE_SIZES \<le> index then Some (- LX_EOVERFLOW, s)
     else (case path of None \<Rightarrow> Some (- LX_EINVAL, s)
       | Some p \<Rightarrow>
           if shift \<le> 0 then Some (- LX_EINVAL, s)
           else do {
             require (0 \<le> index);
             pss \<leftarrow> arr_set (ls_page_sizes s) (nat index)
                      \<lparr>ps_size = sz, ps_shift = word_of_int shift, ps_path = take PATH_MAX p, ps_flags = flags\<rparr>;
             Some (0, s\<lparr>ls_page_sizes := pss, ls_num_page_sizes := index + 1\<rparr>)
           })
   }"

text \<open>\<open>shift << MAP_HUGE_SHIFT\<close> is a shift of a signed \<open>int\<close>, undefined when it overflows.\<close>

fun add_huge_sizes :: "linux_os \<Rightarrow> int list \<Rightarrow> linux_state \<Rightarrow> linux_state option" where
  "add_huge_sizes os [] s = Some s"
| "add_huge_sizes os (z # zs) s = do {
     k \<leftarrow> metal_log2 (word_of_int z);
     if (of_nat k :: u32) AND 0x3f \<noteq> of_nat k then add_huge_sizes os zs s
     else do {
       require (int k * 2 ^ 26 < 2 ^ 31);
       (_, s1) \<leftarrow> metal_add_page_size (os_hugetlbfs_path os z) (int k) (MAP_HUGETLB OR push_bit 26 (of_nat k)) s;
       add_huge_sizes os zs s1
     }
   }"

text \<open>\<open>qsort\<close> is that of the C library with \<open>metal_pagesize_compare\<close>.\<close>

definition metal_init_page_sizes ::
  "linux_os \<Rightarrow> (metal_page_size list \<Rightarrow> metal_page_size list) \<Rightarrow> linux_state \<Rightarrow> (int \<times> linux_state) option" where
  "metal_init_page_sizes os qsort s =
     (if os_getpagesize os \<le> 0 then Some (- LX_EINVAL, s)
      else do {
        k \<leftarrow> metal_log2 (word_of_int (os_getpagesize os));
        let s1 = s\<lparr>ls_page_size := word_of_int (os_getpagesize os), ls_page_shift := of_nat k\<rparr>;
        (_, s2) \<leftarrow> metal_add_page_size (ls_tmp_path s1) (int k) 0 s1;
        s3 \<leftarrow> (if 0 \<le> os_gethugepagesize os then add_huge_sizes os (take 31 (os_gethugepagesizes os)) s2 else Some s2);
        let n = nat (ls_num_page_sizes s3);
        Some (0, s3\<lparr>ls_page_sizes := qsort (take n (ls_page_sizes s3)) @ drop n (ls_page_sizes s3)\<rparr>)
      })"

section \<open>Start and stop\<close>

text \<open>
  \<open>os_urandom\<close> is None when the device was opened, else the \<open>errno\<close>. The registration of the buses and the start and stop of
  the interrupts are the functions of \<^verbatim>\<open>device.c\<close> and \<^verbatim>\<open>irq.c\<close>.
\<close>

definition metal_sys_init ::
  "linux_os \<Rightarrow> (metal_page_size list \<Rightarrow> metal_page_size list) \<Rightarrow> (linux_state \<Rightarrow> int \<times> linux_state) \<Rightarrow> (linux_state \<Rightarrow> int \<times> linux_state) \<Rightarrow>
   linux_state \<Rightarrow> (int \<times> linux_state) option" where
  "metal_sys_init os qsort bus_init irq_init s = do {
     let s1 = s\<lparr>ls_tmp_path := Some (case os_tmpdir os of None \<Rightarrow> ''/tmp'' | Some p \<Rightarrow> p)\<rparr>;
     (case os_urandom os of Some errno \<Rightarrow> Some (- errno, s1)
      | None \<Rightarrow> do {
          (result, s2) \<leftarrow> metal_init_page_sizes os qsort s1;
          if result < 0 then Some (result, s2)
          else do {
            let (result, s3) = bus_init s2;
            if result < 0 then Some (result, s3)
            else do {
              let s4 = s3\<lparr>ls_pagemap_fd := os_pagemap os,
                ls_fds := (if os_pagemap os < 0 then ls_fds s3 else os_pagemap os # ls_fds s3)\<rparr>;
              Some (0, snd (irq_init s4))
            }
          }
        })
   }"

definition metal_sys_finish ::
  "(linux_state \<Rightarrow> linux_state) \<Rightarrow> (linux_state \<Rightarrow> linux_state) \<Rightarrow> linux_state \<Rightarrow> linux_state" where
  "metal_sys_finish bus_finish irq_shutdown s =
     (let s1 = bus_finish (irq_shutdown s) in lx_close (ls_pagemap_fd s1) s1)"

section \<open>The table of pages\<close>

text \<open>The frame of a page, when the page map has one, and the entry the table of pages gets.\<close>

definition frame_of :: "linux_os \<Rightarrow> linux_state \<Rightarrow> addr \<Rightarrow> u64 option" where
  "frame_of os s a = Option.bind (metal_virt2phys os s a) (\<lambda>(e, v). if e < 0 then None else v)"

definition page_entry :: "linux_os \<Rightarrow> linux_state \<Rightarrow> addr \<Rightarrow> u64" where
  "page_entry os s a = (case frame_of os s a of Some frame \<Rightarrow> frame | None \<Rightarrow> METAL_BAD_OFFSET)"

text \<open>Calls that fail set a positive \<open>errno\<close>, and the page map is read in whole entries.\<close>

definition os_sane :: "linux_os \<Rightarrow> bool" where
  "os_sane os \<longleftrightarrow> (\<forall>sz flags fd off. fst (os_mmap os sz flags fd off) = MAP_FAILED \<longrightarrow> 0 < snd (os_mmap os sz flags fd off))
     \<and> (\<forall>fd. 0 < snd (os_flock os fd) \<and> 0 < fst (snd (os_fstat os fd)) \<and> (\<forall>z. 0 < snd (os_ftruncate os fd z)))
     \<and> (\<forall>off. fst (os_pread os off) = 8 \<or> fst (os_pread os off) < 0 \<and> 0 < fst (snd (os_pread os off)))"

lemma phys_pages_nth:
  "phys_pages os s virt pgsz page n = Some ps \<Longrightarrow>
   length ps = n \<and> (\<forall>i < n. ps ! i = page_entry os s (virt + of_nat (page + i) * pgsz))"
proof (induction n arbitrary: page ps)
  case (Suc n)
  obtain p qs where q: "ps = p # qs" "page_entry os s (virt + of_nat page * pgsz) = p"
    "phys_pages os s virt pgsz (Suc page) n = Some qs"
    using Suc.prems by (auto simp: page_entry_def frame_of_def split: Option.bind_splits if_splits)
  then show ?case using Suc.IH [OF q(3)] by (auto simp: nth_Cons add.left_commute split: nat.splits)
qed simp

lemma virt2phys_total:
  assumes "os_sane os" and "ls_page_shift s < 64"
  shows "\<exists>e v. metal_virt2phys os s a = Some (e, v) \<and> (e < 0 \<or> v \<noteq> None)"
proof (cases "ls_pagemap_fd s < 0")
  case True
  then show ?thesis by (simp add: metal_virt2phys_def)
next
  case False
  obtain r e v where p: "os_pread os (drop_bit (unat (ls_page_shift s)) a * 8) = (r, e, v)" by (cases "os_pread os (drop_bit (unat (ls_page_shift s)) a * 8)")
  then have "r = 8 \<or> r < 0 \<and> 0 < e" using assms(1) unfolding os_sane_def by (metis fst_conv snd_conv)
  then show ?thesis using False p assms(2) by (auto simp: metal_virt2phys_def Let_def)
qed

lemma phys_pages_total:
  assumes "os_sane os" and "ls_page_shift s < 64"
  shows "\<exists>ps. phys_pages os s virt pgsz page n = Some ps"
proof (induction n arbitrary: page)
  case (Suc n)
  obtain e v where "metal_virt2phys os s (virt + of_nat page * pgsz) = Some (e, v)" "e < 0 \<or> v \<noteq> None" using virt2phys_total [OF assms] by blast
  moreover obtain ps where "phys_pages os s virt pgsz (Suc page) n = Some ps" using Suc.IH by blast
  ultimately show ?case by auto
qed simp

section \<open>Alignment\<close>

lemma align_down_pow2: "metal_align_down sz (2 ^ k) = push_bit k (drop_bit k sz)"
proof -
  have "metal_align_down sz (2 ^ k) = sz AND NOT (mask k)" by (simp add: metal_align_down_def mask_eq_exp_minus_1)
  also have "\<dots> = push_bit k (drop_bit k sz)" by (rule bit_eqI) (auto simp: bit_simps)
  finally show ?thesis .
qed

lemma unat_push_drop: "unat (push_bit k (drop_bit k (w :: u64))) = unat w div 2 ^ k * 2 ^ k"
proof -
  have "unat w < 2 ^ 64" using unsigned_less [of w, where 'a = nat] by simp
  then have "unat w div 2 ^ k * 2 ^ k < 2 ^ 64" using div_times_less_eq_dividend le_less_trans by blast
  moreover have "unat (push_bit k (drop_bit k w)) = take_bit 64 (push_bit k (unat w div 2 ^ k))"
    by (simp add: unsigned_push_bit_eq unat_drop_bit_eq drop_bit_eq_div [symmetric])
  ultimately show ?thesis by (simp add: push_bit_eq_mult take_bit_nat_eq_self)
qed

lemma align_up_facts:
  assumes "k < 62" and "0 < sz" and "sz \<le> 2 ^ 62"
  shows "sz \<le> metal_align_up sz (2 ^ k)" "unat (metal_align_up sz (2 ^ k)) = unat (metal_align_up sz (2 ^ k)) div 2 ^ k * 2 ^ k"
    "metal_align_up sz (2 ^ k) \<noteq> 0"
proof -
  let ?P = "2 ^ k :: nat"
  have P: "?P \<le> 2 ^ 62" "0 < ?P" using power_increasing [of k 62 "2 :: nat"] assms(1) by simp_all
  have z: "0 < unat sz" "unat sz \<le> 2 ^ 62" using assms(2,3) by (simp_all add: word_le_nat_alt word_less_nat_alt)
  have "unat (2 ^ k :: u64) = ?P" using assms(1) by (simp add: unat_pow2)
  then have p: "unat (2 ^ k - 1 :: u64) = ?P - 1" using P by (simp add: unat_sub word_le_nat_alt)
  have "unat sz + (?P - 1) < 2 ^ 64" using P z by simp
  then have "unat (sz + (2 ^ k - 1)) = unat sz + (?P - 1)" using p by (simp add: unat_word_ariths(1))
  then have u: "unat (metal_align_up sz (2 ^ k)) = (unat sz + (?P - 1)) div ?P * ?P"
    by (simp add: metal_align_up_def align_down_pow2 unat_push_drop add_diff_eq [symmetric])
  have "unat sz \<le> (unat sz + (?P - 1)) div ?P * ?P"
    using P(2) by (metis add_le_imp_le_diff div_mult_mod_eq mod_less_divisor Suc_pred' less_Suc_eq_le nat_add_left_cancel_le add.commute)
  then show "sz \<le> metal_align_up sz (2 ^ k)" using u by (simp add: word_le_nat_alt)
  then show "metal_align_up sz (2 ^ k) \<noteq> 0" using assms(2) by auto
  show "unat (metal_align_up sz (2 ^ k)) = unat (metal_align_up sz (2 ^ k)) div 2 ^ k * 2 ^ k" using u by simp
qed

section \<open>Mapping\<close>

lemma metal_map_cases:
  assumes "os_sane os"
  obtains (failed) e where "metal_map os fd off sz expand flags s = (e, None, s)" "e \<noteq> 0"
  | (mapped) mem where "metal_map os fd off sz expand flags s = (0, Some mem, s\<lparr>ls_maps := (mem, sz) # ls_maps s\<rparr>)"
proof -
  have "map_expand os fd z = Some e \<Longrightarrow> e \<noteq> 0" for z e
    using assms unfolding os_sane_def map_expand_def
    by (auto split: prod.splits if_splits) (metis fst_conv less_irrefl snd_conv)+
  moreover have "os_mmap os sz' fl fd' off' = (MAP_FAILED, e) \<Longrightarrow> e \<noteq> 0" for sz' fl fd' off' e
    using assms unfolding os_sane_def by (metis fst_conv less_irrefl snd_conv)
  note errno = calculation this
  show thesis
  proof (cases "if 0 \<le> fd \<and> expand then map_expand os fd (off + sz) else None")
    case (Some e)
    then have "e \<noteq> 0" using errno(1) by (metis option.distinct(1))
    then show thesis using failed [of "- e"] Some by (simp add: metal_map_def Let_def)
  next
    case None
    let ?flags = "if fd < 0 then MAP_PRIVATE OR MAP_ANONYMOUS else flags OR MAP_SHARED"
    obtain mem e where m: "os_mmap os sz ?flags (if fd < 0 then - 1 else fd) off = (mem, e)" by fastforce
    have eq: "metal_map os fd off sz expand flags s
        = (if mem = MAP_FAILED then (- e, None, s) else (0, Some mem, s\<lparr>ls_maps := (mem, sz) # ls_maps s\<rparr>))"
      using None m by (cases "fd < 0") (simp_all add: metal_map_def)
    show thesis
    proof (cases "mem = MAP_FAILED")
      case True
      then show thesis using failed [of "- e"] eq errno(2) m by simp
    qed (use mapped eq in simp)
  qed
qed

section \<open>Regions\<close>

definition page_ok :: "metal_page_size \<Rightarrow> bool" where
  "page_ok ps \<longleftrightarrow> 0 < ps_shift ps \<and> ps_shift ps < 62 \<and> ps_size ps = 2 ^ unat (ps_shift ps)"

text \<open>
  The region has at least the size asked for, and its close operation is that of shared memory. The physical address of an
  offset is the frame of its page plus the offset in the page where the page map has a frame. Where it has none the answer is
  neither of the documented two, a physical address or \<open>METAL_BAD_PHYS\<close>: it is the offset in the page added to the mark -1. Without a
  page map the physical address is the offset.
\<close>

definition region_ok :: "linux_os \<Rightarrow> linux_state \<Rightarrow> metal_page_size \<Rightarrow> u64 \<Rightarrow> metal_io_region \<Rightarrow> bool" where
  "region_ok os s ps sz io \<longleftrightarrow> sz \<le> io_size io \<and> io_ops io = metal_shmem_io_ops \<and> (\<forall>off < io_size io. metal_io_phys io off =
     Some (if ls_pagemap_fd s < 0 then off
       else case frame_of os s (io_virt io + off div ps_size ps * ps_size ps) of
           Some frame \<Rightarrow> frame + off mod ps_size ps | None \<Rightarrow> off mod ps_size ps - 1))"

lemma metal_io_init_fields:
  "metal_io_init id virt pm sz sh fl ops = \<lparr>io_virt = virt, io_physmap = pm, io_size = sz, io_page_shift = ucast sh,
     io_page_mask = (if 64 \<le> sh then - 1 else push_bit (unat sh) 1 - 1), io_mem_flags = fl, io_ops = (case ops of None \<Rightarrow> no_ops | Some p \<Rightarrow> p)\<rparr>"
  by (simp add: metal_io_init_def)

lemma single_region_ok:
  assumes "ls_pagemap_fd s < 0" and "sz0 \<le> sz"
  shows "region_ok os s ps sz0 (metal_io_init id mem (Some [0]) sz (- 1) 0 (Some metal_shmem_io_ops))"
proof -
  have "(64 :: u64) \<le> ucast (- 1 :: u32)" by (simp add: unsigned_minus_1_eq_mask mask_eq_exp_minus_1)
  then show ?thesis
    using assms by (auto simp: region_ok_def metal_io_init_def metal_io_phys_def metal_shmem_io_ops_def no_ops_def arr_get_def Let_def)
qed

lemma paged_region_ok:
  assumes "page_ok ps" and "0 \<le> ls_pagemap_fd s" and "sz0 \<le> sz" and "phys_pages os s mem (ps_size ps) 0 (unat (sz div ps_size ps)) = Some phys"
    and "unat sz = unat sz div unat (ps_size ps) * unat (ps_size ps)"
  shows "region_ok os s ps sz0 (metal_io_init id mem (Some phys) sz (ucast (ps_shift ps)) 0 (Some metal_shmem_io_ops))"
proof -
  let ?k = "unat (ps_shift ps)"
  let ?io = "metal_io_init id mem (Some phys) sz (ucast (ps_shift ps)) 0 (Some metal_shmem_io_ops)"
  have k: "?k < 62" "ps_size ps = 2 ^ ?k" using assms(1) by (simp_all add: page_ok_def word_less_nat_alt)
  have u: "unat (ps_size ps) = 2 ^ ?k" using k by (simp add: unat_pow2)
  have sh: "unat (ucast (ps_shift ps) :: u32) = ?k" "ucast (ucast (ps_shift ps) :: u32) = ps_shift ps"
    "\<not> (64 :: u32) \<le> ucast (ps_shift ps)" "\<not> 64 \<le> ps_shift ps"
    using k(1) by (simp_all add: unsigned_ucast_eq word_le_nat_alt word_unat_eq_iff unsigned_take_bit_eq take_bit_nat_eq_self)
  have "metal_io_phys ?io off = Some (page_entry os s (mem + off div ps_size ps * ps_size ps) + off mod ps_size ps)"
    if off: "off < sz" for off
  proof -
    have page: "drop_bit ?k off = off div ps_size ps" using k(2) by (simp add: drop_bit_eq_div)
    have mask: "off AND (2 ^ ?k - 1) = off mod ps_size ps"
      using k(2) by (simp add: take_bit_eq_mod [symmetric] take_bit_eq_mask mask_eq_exp_minus_1)
    have i: "unat (off div ps_size ps) < unat (sz div ps_size ps)"
      using off assms(5) unfolding unat_div u word_less_nat_alt by (metis less_mult_imp_div_less)
    note tab = phys_pages_nth [OF assms(4)]
    have "phys ! unat (off div ps_size ps) = page_entry os s (mem + of_nat (0 + unat (off div ps_size ps)) * ps_size ps)"
      using tab i by blast
    then have q: "page_entry os s (mem + off div ps_size ps * ps_size ps) = phys ! unat (off div ps_size ps)" by simp
    have len: "length phys = unat (sz div ps_size ps)" using tab by blast
    show ?thesis unfolding q using off i len by (simp add: metal_io_init_fields metal_io_phys_def metal_shmem_io_ops_def no_ops_def Let_def sh page mask)
  qed
  then show ?thesis using assms(2,3) by (auto simp: region_ok_def metal_io_init_fields page_entry_def split: option.splits)
qed

definition tried :: "linux_os \<Rightarrow> metal_page_size \<Rightarrow> u64 \<Rightarrow> linux_state \<Rightarrow> int \<Rightarrow> metal_io_region option \<Rightarrow> linux_state \<Rightarrow> bool" where
  "tried os ps sz s e r s' \<longleftrightarrow> (case r of None \<Rightarrow> e \<noteq> 0 \<and> s' = s
     | Some io \<Rightarrow> e = 0 \<and> s' = s\<lparr>ls_maps := (io_virt io, io_size io) # ls_maps s\<rparr> \<and> region_ok os s ps sz io)"

lemma virt2phys_maps [simp]: "metal_virt2phys os (s\<lparr>ls_maps := m\<rparr>) a = metal_virt2phys os s a"
  by (simp add: metal_virt2phys_def Let_def split: prod.split)

lemma phys_pages_maps [simp]: "phys_pages os (s\<lparr>ls_maps := m\<rparr>) virt pgsz page n = phys_pages os s virt pgsz page n"
  by (induction n arbitrary: page) simp_all

lemma try_map_total:
  assumes "page_ok ps" and "0 < sz" "sz \<le> 2 ^ 62" and "os_sane os" "ls_page_shift s < 64"
  shows "\<exists>e r s'. metal_shmem_try_map os ps fd sz s = Some (e, r, s') \<and> tried os ps sz s e r s'"
proof -
  let ?sz = "metal_align_up sz (ps_size ps)"
  have k: "unat (ps_shift ps) < 62" "ps_size ps = 2 ^ unat (ps_shift ps)" using assms(1) by (simp_all add: page_ok_def word_less_nat_alt)
  have u: "unat (ps_size ps) = 2 ^ unat (ps_shift ps)" using k by (simp add: unat_pow2)
  note al = align_up_facts [OF k(1) assms(2,3), folded k(2), folded u]
  have nz: "ps_size ps \<noteq> 0" using u by auto
  have "0 < unat ?sz" using al(3) by (simp add: unat_gt_0)
  then have "unat ?sz div unat (ps_size ps) \<noteq> 0" using al(2) by (metis less_not_refl mult_0)
  then have pages: "?sz div ps_size ps \<noteq> 0" by (metis unat_0 unat_div)
  show ?thesis
    using assms(4)
  proof (cases rule: metal_map_cases [of os fd 0 ?sz True "ps_flags ps" s])
    case (failed e)
    then show ?thesis using nz by (simp add: metal_shmem_try_map_def tried_def Let_def)
  next
    case (mapped mem)
    note sim = metal_shmem_try_map_def tried_def Let_def metal_unmap_def
    show ?thesis
    proof (cases "os_phys_alloc os (8 * (?sz div ps_size ps)) \<and> os_io_alloc os")
      case False
      then show ?thesis using mapped nz by (auto simp: sim)
    next
      case True
      show ?thesis
      proof (cases "ls_pagemap_fd s < 0")
        case neg: True
        then show ?thesis using True mapped nz pages single_region_ok [OF neg al(1)] by (simp add: sim metal_io_init_fields)
      next
        case pos: False
        obtain phys where phys: "phys_pages os s mem (ps_size ps) 0 (unat (?sz div ps_size ps)) = Some phys"
          using phys_pages_total [OF assms(4,5)] by blast
        show ?thesis
          using True pos mapped nz phys paged_region_ok [OF assms(1) _ al(1) phys al(2)]
          by (simp add: sim metal_io_init_fields)
      qed
    qed
  qed
qed

text \<open>Without a page size that fits, the error is the one there was before.\<close>

definition tried_one :: "linux_os \<Rightarrow> metal_page_size list \<Rightarrow> u64 \<Rightarrow> int \<Rightarrow> linux_state \<Rightarrow> int \<Rightarrow> metal_io_region option \<Rightarrow> linux_state \<Rightarrow> bool" where
  "tried_one os pss sz error s e r s' \<longleftrightarrow> (case r of
       None \<Rightarrow> s' = s \<and> (if list_ex (\<lambda>ps. ps_size ps \<le> 2 * sz) pss then e \<noteq> 0 else e = error)
     | Some io \<Rightarrow> \<exists>ps \<in> set pss. ps_size ps \<le> 2 * sz \<and> tried os ps sz s e r s')"

lemma tried_one_Cons:
  "tried_one os pss sz error s e r s' \<Longrightarrow> 2 * sz < ps_size ps \<Longrightarrow> tried_one os (ps # pss) sz error s e r s'"
  "tried_one os pss sz error1 s e r s' \<Longrightarrow> error1 \<noteq> 0 \<Longrightarrow> ps_size ps \<le> 2 * sz \<Longrightarrow> tried_one os (ps # pss) sz error s e r s'"
  by (auto simp: tried_one_def leD split: option.splits if_splits)

lemma try_sizes_total:
  assumes "\<forall>ps \<in> set pss. page_ok ps" and "0 < sz" "sz \<le> 2 ^ 62" and "os_sane os" "ls_page_shift s < 64"
  shows "\<exists>e r s'. try_page_sizes os pss fd sz error s = Some (e, r, s') \<and> tried_one os pss sz error s e r s'"
  using assms(1)
proof (induction pss arbitrary: error)
  case Nil
  then show ?case by (simp add: tried_one_def)
next
  case (Cons ps pss)
  have ok: "\<forall>ps \<in> set pss. page_ok ps" using Cons.prems by simp
  show ?case
  proof (cases "2 * sz < ps_size ps")
    case True
    then show ?thesis using Cons.IH [OF ok] tried_one_Cons(1) by fastforce
  next
    case False
    obtain e r s' where t: "metal_shmem_try_map os ps fd sz s = Some (e, r, s')" "tried os ps sz s e r s'"
      using try_map_total [of ps sz os s fd] Cons.prems assms(2-5) by auto
    show ?thesis
    proof (cases r)
      case None
      then have e: "e \<noteq> 0" "s' = s" using t(2) by (simp_all add: tried_def)
      then show ?thesis using False t(1) Cons.IH [OF ok, of e] tried_one_Cons(2) by fastforce
    next
      case (Some io)
      then show ?thesis using False t by (auto simp: tried_def tried_one_def not_less)
    qed
  qed
qed

text \<open>No step of mapping fails.\<close>

definition os_maps :: "linux_os \<Rightarrow> bool" where
  "os_maps os \<longleftrightarrow> (\<forall>fd z. map_expand os fd z = None) \<and> (\<forall>z f fd off. fst (os_mmap os z f fd off) \<noteq> MAP_FAILED)
     \<and> (\<forall>z. os_phys_alloc os z) \<and> os_io_alloc os"

lemma try_map_succeeds:
  assumes "os_maps os" and "metal_shmem_try_map os ps fd sz s = Some (e, r, s')"
  shows "e = 0 \<and> r \<noteq> None"
proof -
  have "\<exists>mem s1. metal_map os fd 0 z True f s = (0, Some mem, s1)" for z f
  proof -
    let ?m = "os_mmap os z (if fd < 0 then MAP_PRIVATE OR MAP_ANONYMOUS else f OR MAP_SHARED) (if fd < 0 then - 1 else fd) 0"
    have "fst ?m \<noteq> MAP_FAILED" "map_expand os fd (0 + z) = None" using assms(1) unfolding os_maps_def by blast+
    then show ?thesis by (cases "fd < 0") (auto simp: metal_map_def split: prod.splits)
  qed
  then obtain mem s1 where "metal_map os fd 0 (metal_align_up sz (ps_size ps)) True (ps_flags ps) s = (0, Some mem, s1)" by blast
  then show ?thesis using assms by (auto simp: metal_shmem_try_map_def os_maps_def Let_def split: Option.bind_splits if_splits)
qed

lemma try_sizes_succeeds:
  assumes "os_maps os" and "\<exists>ps \<in> set pss. ps_size ps \<le> 2 * sz" and "try_page_sizes os pss fd sz error s = Some (e, r, s')"
  shows "r \<noteq> None"
  using assms(2,3)
proof (induction pss arbitrary: error s)
  case (Cons ps pss)
  show ?case
  proof (cases "2 * sz < ps_size ps")
    case True
    then show ?thesis using Cons by (auto simp: leD)
  next
    case False
    then show ?thesis using Cons.prems(2) try_map_succeeds [OF assms(1)] by (auto split: Option.bind_splits if_splits)
  qed
qed simp

definition sizes_of :: "linux_state \<Rightarrow> metal_page_size list" where
  "sizes_of s = take (nat (ls_num_page_sizes s)) (ls_page_sizes s)"

definition not_registered :: "string \<Rightarrow> u64 \<Rightarrow> linux_state \<Rightarrow> bool" where
  "not_registered name sz s \<longleftrightarrow> metal_shmem_open_generic name sz (ls_common s) = Some (- DEV_ENOENT, None)"

lemma shmem_open_cases:
  assumes "not_registered name sz s" and "name \<noteq> []" and "os_open os name True = (fd, errno)" "0 \<le> fd"
    and "try_page_sizes os (rev (sizes_of s)) fd sz fd (s\<lparr>ls_fds := fd # ls_fds s\<rparr>) = Some (e, r, s')"
  shows "metal_shmem_open os name sz s = Some (e, map_option Mapped r, lx_close fd s')"
  using assms by (simp add: metal_shmem_open_def not_registered_def metal_open_def sizes_of_def)

lemma region_ok_fds: "region_ok os (s\<lparr>ls_fds := l\<rparr>) = region_ok os s"
  by (intro ext) (simp add: region_ok_def frame_of_def metal_virt2phys_def Let_def split: prod.split)

section \<open>The array of page sizes\<close>

definition sizes_inv :: "linux_state \<Rightarrow> bool" where
  "sizes_inv s \<longleftrightarrow> length (ls_page_sizes s) = 32 \<and> 0 \<le> ls_num_page_sizes s \<and> ls_num_page_sizes s \<le> 32 \<and> (\<forall>ps \<in> set (sizes_of s). page_ok ps)"

lemma new_page_ok:
  assumes "0 < k" "k < 62"
  shows "page_ok \<lparr>ps_size = push_bit k 1, ps_shift = word_of_int (int k), ps_path = p, ps_flags = f\<rparr>"
proof -
  have "unat (word_of_int (int k) :: u64) = k" using assms by (simp add: unsigned_of_nat take_bit_nat_eq_self)
  then show ?thesis using assms by (simp add: page_ok_def word_less_nat_alt)
qed

lemma add_page_size_inv:
  assumes "sizes_inv s" and "0 < k" "k < 62"
  shows "\<exists>e s'. metal_add_page_size path (int k) flags s = Some (e, s') \<and> sizes_inv s' \<and> ls_page_shift s' = ls_page_shift s"
proof (cases "ls_num_page_sizes s < 32 \<and> path \<noteq> None")
  case False
  then show ?thesis using assms by (auto simp: metal_add_page_size_def Let_def split: option.splits)
next
  case True
  then obtain p where p: "path = Some p" by auto
  let ?n = "nat (ls_num_page_sizes s)"
  let ?ps = "\<lparr>ps_size = push_bit k 1, ps_shift = word_of_int (int k), ps_path = take PATH_MAX p, ps_flags = flags\<rparr>"
  let ?s' = "s\<lparr>ls_page_sizes := (ls_page_sizes s)[?n := ?ps], ls_num_page_sizes := ls_num_page_sizes s + 1\<rparr>"
  have n: "?n < length (ls_page_sizes s)" "0 \<le> ls_num_page_sizes s" using assms(1) True by (auto simp: sizes_inv_def)
  have "metal_add_page_size path (int k) flags s = Some (0, ?s')"
    using True p n assms(2,3) by (simp add: metal_add_page_size_def Let_def)
  moreover have "sizes_of ?s' = sizes_of s @ [?ps]"
    using n by (simp add: sizes_of_def nat_add_distrib take_Suc_conv_app_nth)
  then have "sizes_inv ?s'" using assms(1) True new_page_ok [OF assms(2,3)] by (simp add: sizes_inv_def)
  ultimately show ?thesis by simp
qed

text \<open>The sizes of huge pages are powers of two, below the limit of the flags of \<open>mmap\<close>.\<close>

definition huge_size_ok :: "int \<Rightarrow> bool" where
  "huge_size_ok z \<longleftrightarrow> (\<exists>k. 0 < k \<and> k < 32 \<and> z = 2 ^ k)"

lemma log2_int_pow2: "k < 64 \<Longrightarrow> metal_log2 (word_of_int (2 ^ k)) = Some k"
  using metal_log2_pow2 [of k] by (simp add: of_int_power)

lemma add_huge_sizes_inv:
  assumes "sizes_inv s" and "\<forall>z \<in> set zs. huge_size_ok z"
  shows "\<exists>s'. add_huge_sizes os zs s = Some s' \<and> sizes_inv s' \<and> ls_page_shift s' = ls_page_shift s"
  using assms
proof (induction zs arbitrary: s)
  case (Cons z zs)
  obtain k where k: "0 < k" "k < 32" "z = 2 ^ k" using Cons.prems(2) by (auto simp: huge_size_ok_def)
  obtain e s1 where s1: "metal_add_page_size (os_hugetlbfs_path os z) (int k) (MAP_HUGETLB OR push_bit 26 (of_nat k)) s = Some (e, s1)"
    "sizes_inv s1" "ls_page_shift s1 = ls_page_shift s"
    using add_page_size_inv [OF Cons.prems(1) k(1)] k(2) by fastforce
  have bits: "(of_nat k :: u32) AND 0x3f = of_nat k"
  proof -
    have "(of_nat k :: u32) AND 0x3f = take_bit 6 (of_nat k)" by (simp add: take_bit_eq_mask mask_eq_exp_minus_1)
    also have "\<dots> = of_nat (take_bit 6 k)" by (simp add: of_nat_take_bit)
    also have "take_bit 6 k = k" using k(2) by (simp add: take_bit_nat_eq_self)
    finally show ?thesis .
  qed
  have "add_huge_sizes os (z # zs) s = add_huge_sizes os zs s1"
    using log2_int_pow2 [of k] k s1(1) bits by simp
  then show ?case using Cons.IH [OF s1(2)] Cons.prems(2) s1(3) by simp
qed simp

lemma compare_le:
  assumes "page_ok a" "page_ok b"
  shows "metal_pagesize_compare a b \<le> 0 \<longleftrightarrow> ps_size a \<le> ps_size b"
proof -
  have small: "uint (ps_size ps) < 2 ^ 62 \<and> sint (ps_size ps) = uint (ps_size ps)" if "page_ok ps" for ps
  proof -
    have k: "unat (ps_shift ps) < 62" "ps_size ps = 2 ^ unat (ps_shift ps)" using that by (simp_all add: page_ok_def word_less_nat_alt)
    then have "unat (ps_size ps) = 2 ^ unat (ps_shift ps)" by (simp add: unat_pow2)
    then have "uint (ps_size ps) = 2 ^ unat (ps_shift ps)" by (metis of_nat_numeral of_nat_power of_nat_unat)
    moreover have "(2 :: int) ^ unat (ps_shift ps) < 2 ^ 62" using k(1) by (intro power_strict_increasing) simp_all
    ultimately have "uint (ps_size ps) < 2 ^ 62" by simp
    moreover have "- (2 ^ 63) \<le> uint (ps_size ps)" by (rule order_trans [OF _ uint_ge_0]) simp
    ultimately show ?thesis by (simp add: sint_uint signed_take_bit_int_eq_self_iff)
  qed
  note sm = small [OF assms(1)] small [OF assms(2)]
  have "- (2 ^ 63) \<le> x - y \<and> x - y < 2 ^ 63" if "0 \<le> x" "x < 2 ^ 62" "0 \<le> y" "y < 2 ^ 62" for x y :: int
    using that by simp
  then have "- (2 ^ 63) \<le> uint (ps_size a) - uint (ps_size b) \<and> uint (ps_size a) - uint (ps_size b) < 2 ^ 63"
    using sm uint_ge_0 by blast
  then have "sint (ps_size a - ps_size b) = sint (ps_size a) - sint (ps_size b)"
    using sm by (subst sint_word_ariths) (simp add: signed_take_bit_int_eq_self_iff)
  then show ?thesis using sm by (simp add: metal_pagesize_compare_def word_le_def sgn_if)
qed

text \<open>What the C standard says of \<open>qsort\<close>, on sizes where the comparison is an order.\<close>

definition sorts_pages :: "(metal_page_size list \<Rightarrow> metal_page_size list) \<Rightarrow> bool" where
  "sorts_pages qsort \<longleftrightarrow> (\<forall>xs. (\<forall>ps \<in> set xs. page_ok ps) \<longrightarrow>
     mset (qsort xs) = mset xs \<and> sorted_wrt (\<lambda>a b. metal_pagesize_compare a b \<le> 0) (qsort xs))"

lemma stable_sort_sorts: "sorts_pages (sort_key ps_size)"
proof -
  have "sorted_wrt (\<lambda>a b. metal_pagesize_compare a b \<le> 0) (sort_key ps_size xs)" if "\<forall>ps \<in> set xs. page_ok ps" for xs
  proof -
    have "sorted_wrt (\<lambda>a b. ps_size a \<le> ps_size b) (sort_key ps_size xs)" using sorted_sort_key [of ps_size xs] by (simp add: sorted_map)
    then show ?thesis using that compare_le by (auto elim!: sorted_wrt_mono_rel [rotated])
  qed
  then show ?thesis by (simp add: sorts_pages_def)
qed

lemma sorted_sizes:
  assumes "sorts_pages qsort" and "\<forall>ps \<in> set xs. page_ok ps"
  shows "mset (qsort xs) = mset xs" "sorted (map ps_size (qsort xs))" "set (qsort xs) = set xs" "length (qsort xs) = length xs"
proof -
  show m: "mset (qsort xs) = mset xs" using assms by (simp add: sorts_pages_def)
  then show s: "set (qsort xs) = set xs" by (metis set_mset_mset)
  show "length (qsort xs) = length xs" using m by (metis size_mset)
  have "sorted_wrt (\<lambda>a b. metal_pagesize_compare a b \<le> 0) (qsort xs)" using assms by (simp add: sorts_pages_def)
  then have "sorted_wrt (\<lambda>a b. ps_size a \<le> ps_size b) (qsort xs)"
    using assms(2) s compare_le by (auto elim!: sorted_wrt_mono_rel [rotated])
  then show "sorted (map ps_size (qsort xs))" by (simp add: sorted_map)
qed

section \<open>Theorems\<close>

text \<open>
  C39: opening shared memory that is not registered, for a name whose file can be opened, returns, closes the file and leaks no
  mapping. When a page size is at most twice the size asked for it reports an error or succeeds, and it succeeds
  when no step of the mapping fails; when there is no such page size nothing is mapped and the result is the number of the
  descriptor. When it succeeds the region has one of the page sizes that fit and at least the size asked for, exactly its memory was
  mapped, and finishing the region gives back the state before. The physical address of an offset is then the frame of its page plus the offset
  in the page for every page that is present in the page map; for a page that is not, it is -1 plus the offset in the page.
\<close>

theorem shmem_open_region:
  assumes "not_registered name sz s" "name \<noteq> []" and "os_open os name True = (fd, errno)" "0 \<le> fd"
    and "os_sane os" "ls_page_shift s < 64" "\<forall>ps \<in> set (sizes_of s). page_ok ps" and "0 < sz" "sz \<le> 2 ^ 62"
  shows "\<exists>e r s'. metal_shmem_open os name sz s = Some (e, r, s') \<and> ls_fds s' = ls_fds s
    \<and> (os_maps os \<and> (\<exists>ps \<in> set (sizes_of s). ps_size ps \<le> 2 * sz) \<longrightarrow> r \<noteq> None)
    \<and> (case r of None \<Rightarrow> s' = s \<and> (if \<exists>ps \<in> set (sizes_of s). ps_size ps \<le> 2 * sz then e \<noteq> 0 else e = fd)
       | Some (Mapped io) \<Rightarrow> e = 0 \<and> ls_maps s' = (io_virt io, io_size io) # ls_maps s
           \<and> (\<exists>ps \<in> set (sizes_of s). ps_size ps \<le> 2 * sz \<and> region_ok os s ps sz io)
           \<and> (\<exists>zero. metal_io_finish region_close io s' = Some (zero, s))
       | _ \<Rightarrow> False)"
proof -
  let ?s1 = "s\<lparr>ls_fds := fd # ls_fds s\<rparr>"
  obtain e r s' where t: "try_page_sizes os (rev (sizes_of s)) fd sz fd ?s1 = Some (e, r, s')"
    "tried_one os (rev (sizes_of s)) sz fd ?s1 e r s'"
    using try_sizes_total [of "rev (sizes_of s)" sz os ?s1 fd fd] assms by auto
  have o: "metal_shmem_open os name sz s = Some (e, map_option Mapped r, lx_close fd s')"
    using assms t(1) by (intro shmem_open_cases) auto
  have live: "os_maps os \<and> (\<exists>ps \<in> set (sizes_of s). ps_size ps \<le> 2 * sz) \<longrightarrow> r \<noteq> None"
    using try_sizes_succeeds [OF _ _ t(1)] by simp
  show ?thesis
  proof (cases r)
    case None
    then show ?thesis using o t(2) live by (simp add: lx_close_def tried_one_def list_ex_iff)
  next
    case (Some io)
    then have "s' = ?s1\<lparr>ls_maps := (io_virt io, io_size io) # ls_maps s\<rparr>" "e = 0"
      and fit: "\<exists>ps \<in> set (sizes_of s). ps_size ps \<le> 2 * sz \<and> region_ok os s ps sz io"
      using t(2) by (auto simp: tried_one_def tried_def region_ok_fds)
    moreover have "io_ops io = metal_shmem_io_ops" using fit by (auto simp: region_ok_def)
    ultimately show ?thesis
      using Some o fit
      by (simp add: lx_close_def metal_io_finish_def region_close_def metal_shmem_io_ops_def metal_shmem_io_close_def metal_unmap_def)
  qed
qed

text \<open>
  C30: a segment smaller than half of every page size is not opened, and no error is reported: the result is the
  number of the file descriptor, already closed, which is 0 when the standard input was closed.
\<close>

theorem small_segment_returns_fd:
  assumes "not_registered name sz s" "name \<noteq> []" and "os_open os name True = (fd, errno)" "0 \<le> fd"
    and "\<forall>ps \<in> set (sizes_of s). 2 * sz < ps_size ps"
  shows "metal_shmem_open os name sz s = Some (fd, None, s)"
proof -
  have "try_page_sizes os pss fd sz e s1 = Some (e, None, s1)" if "\<forall>ps \<in> set pss. 2 * sz < ps_size ps" for pss e s1
    using that by (induction pss) auto
  then have "try_page_sizes os (rev (sizes_of s)) fd sz fd (s\<lparr>ls_fds := fd # ls_fds s\<rparr>) = Some (fd, None, s\<lparr>ls_fds := fd # ls_fds s\<rparr>)"
    using assms(5) by simp
  then show ?thesis using assms(1-4) by (simp add: shmem_open_cases lx_close_def)
qed

text \<open>
  The array of page sizes: after the initialisation it holds the size of the system's pages and those of the
  huge pages that have a path, at most 32, all powers of two with their shift, in increasing order.
\<close>

theorem page_sizes_sorted:
  assumes "length (ls_page_sizes s) = 32" "ls_num_page_sizes s = 0" "ls_tmp_path s = Some p"
    and "os_getpagesize os = 2 ^ k" "0 < k" "k < 31" and "\<forall>z \<in> set (os_gethugepagesizes os). huge_size_ok z" and "sorts_pages qsort"
  shows "\<exists>s'. metal_init_page_sizes os qsort s = Some (0, s') \<and> ls_page_shift s' = of_nat k
    \<and> (\<forall>ps \<in> set (sizes_of s'). page_ok ps) \<and> sorted (map ps_size (sizes_of s')) \<and> length (sizes_of s') \<le> 32"
proof -
  let ?s1 = "s\<lparr>ls_page_size := word_of_int (os_getpagesize os), ls_page_shift := of_nat k\<rparr>"
  have i1: "sizes_inv ?s1" using assms(1,2) by (simp add: sizes_inv_def sizes_of_def)
  have "k < 62" using assms(6) by simp
  then obtain e s2 where s2: "metal_add_page_size (ls_tmp_path ?s1) (int k) 0 ?s1 = Some (e, s2)" "sizes_inv s2" "ls_page_shift s2 = of_nat k"
    using add_page_size_inv [OF i1 assms(5), of "ls_tmp_path ?s1" 0] by auto
  have "\<forall>z \<in> set (take 31 (os_gethugepagesizes os)). huge_size_ok z" using assms(7) by (meson in_set_takeD)
  then obtain s3 where s3: "(if 0 \<le> os_gethugepagesize os then add_huge_sizes os (take 31 (os_gethugepagesizes os)) s2 else Some s2) = Some s3"
    "sizes_inv s3" "ls_page_shift s3 = of_nat k"
    using add_huge_sizes_inv [OF s2(2), of _ os] s2(2,3) by (cases "0 \<le> os_gethugepagesize os") fastforce+
  let ?n = "nat (ls_num_page_sizes s3)"
  let ?s' = "s3\<lparr>ls_page_sizes := qsort (take ?n (ls_page_sizes s3)) @ drop ?n (ls_page_sizes s3)\<rparr>"
  have ok: "\<forall>ps \<in> set (take ?n (ls_page_sizes s3)). page_ok ps" "?n \<le> length (ls_page_sizes s3)" "?n \<le> 32"
    using s3(2) by (auto simp: sizes_inv_def sizes_of_def)
  note sz = sorted_sizes [OF assms(8) ok(1)]
  have "sizes_of ?s' = qsort (take ?n (ls_page_sizes s3))" using sz(4) ok(2) by (simp add: sizes_of_def)
  moreover have "metal_init_page_sizes os qsort s = Some (0, ?s')"
    using assms(4,6) log2_int_pow2 [of k] s2(1) s3(1) by (simp add: metal_init_page_sizes_def Let_def)
  ultimately show ?thesis using sz ok s3(3) by simp
qed

section \<open>An example\<close>

definition demo_common :: metal_state where
  "demo_common = \<lparr>ms_ref_count = 1, ms_log_level = 0, ms_log_handler = NULL, ms_nodes = (\<lambda>p. \<lparr>ml_next = p, ml_prev = p\<rparr>),
     ms_buses = Map.empty, ms_devices = Map.empty, ms_shmems = Map.empty, ms_cache = []\<rparr>"

definition demo_page :: metal_page_size where
  "demo_page = \<lparr>ps_size = 4096, ps_shift = 12, ps_path = ''/tmp'', ps_flags = 0\<rparr>"

definition demo_linux :: linux_state where
  "demo_linux = \<lparr>ls_common = demo_common, ls_page_size = 4096, ls_page_shift = 12, ls_tmp_path = Some ''/tmp'',
     ls_page_sizes = [demo_page], ls_num_page_sizes = 1, ls_pagemap_fd = 4, ls_fds = [4], ls_maps = []\<rparr>"

text \<open>Every page is present, its frame is the number of the virtual page plus 16.\<close>

definition demo_kernel :: linux_os where
  "demo_kernel = \<lparr>os_open = (\<lambda>p shm. (5, 0)), os_flock = (\<lambda>fd. (0, 1)), os_fstat = (\<lambda>fd. (0, 1, 0)), os_ftruncate = (\<lambda>fd z. (0, 1)),
     os_mmap = (\<lambda>z flags fd off. (0x10000, 0)), os_pread = (\<lambda>off. (8, 0, (0x8000000000000000 OR (off div 8 + 16)))),
     os_phys_alloc = (\<lambda>z. True), os_io_alloc = True, os_getpagesize = 4096, os_gethugepagesize = 1, os_gethugepagesizes = [2 ^ 30, 2 ^ 21],
     os_hugetlbfs_path = (\<lambda>z. Some ''/dev/hugepages''), os_tmpdir = None, os_urandom = None, os_pagemap = 4\<rparr>"

lemma demo_facts:
  "not_registered ''seg'' sz demo_linux" "os_sane demo_kernel" "\<forall>ps \<in> set (sizes_of demo_linux). page_ok ps"
  "os_open demo_kernel ''seg'' True = (5, 0)" "sizes_of demo_linux = [demo_page]" "ls_page_shift demo_linux < 64"
proof -
  show "not_registered ''seg'' sz demo_linux"
    by (simp add: not_registered_def metal_shmem_open_generic_def demo_linux_def demo_common_def list_search.simps)
  show "sizes_of demo_linux = [demo_page]" by (simp add: demo_linux_def sizes_of_def)
  then show "\<forall>ps \<in> set (sizes_of demo_linux). page_ok ps" by (simp add: demo_page_def page_ok_def)
qed (simp_all add: os_sane_def demo_kernel_def demo_linux_def)

theorem shmem_open_region_witness:
  "\<exists>e r s'. metal_shmem_open demo_kernel ''seg'' 6000 demo_linux = Some (e, r, s') \<and> ls_fds s' = [4] \<and> r \<noteq> None"
proof -
  have "os_maps demo_kernel" "\<exists>ps \<in> set (sizes_of demo_linux). ps_size ps \<le> 2 * 6000"
    by (auto simp: os_maps_def demo_kernel_def map_expand_def demo_facts(5) demo_page_def)
  then show ?thesis
    using shmem_open_region [OF demo_facts(1) _ demo_facts(4) _ demo_facts(2,6,3), of 6000] by (auto simp: demo_linux_def)
qed

theorem small_segment_returns_fd_witness: "metal_shmem_open demo_kernel ''seg'' 2047 demo_linux = Some (5, None, demo_linux)"
  using small_segment_returns_fd [OF demo_facts(1) _ demo_facts(4), of 2047] by (simp add: demo_facts(5) demo_page_def)

theorem page_sizes_sorted_witness:
  "\<exists>s'. metal_init_page_sizes demo_kernel (sort_key ps_size) (demo_linux\<lparr>ls_page_sizes := replicate 32 demo_page, ls_num_page_sizes := 0\<rparr>) = Some (0, s')
    \<and> sorted (map ps_size (sizes_of s')) \<and> length (sizes_of s') \<le> 32"
proof -
  have "\<forall>z \<in> set (os_gethugepagesizes demo_kernel). huge_size_ok z"
    unfolding huge_size_ok_def by (auto simp: demo_kernel_def intro: exI [of _ 30] exI [of _ 21])
  then show ?thesis
    using page_sizes_sorted [of "demo_linux\<lparr>ls_page_sizes := replicate 32 demo_page, ls_num_page_sizes := 0\<rparr>" "''/tmp''" demo_kernel 12 "sort_key ps_size"]
      stable_sort_sorts by (auto simp: demo_linux_def demo_kernel_def)
qed

end
