(* ===== verification/Linux_Device.thy ===== *)
theory Linux_Device
  imports Linux_Shmem Linux_Irq "HOL-Library.AList"
begin

unbundle bit_operations_syntax

text \<open>
  \<^verbatim>\<open>src/openamp/libmetal/lib/system/linux/device.c\<close>: the buses of Linux and their devices, opened as UIO devices. The answers of
  sysfs and the calls on the device files are a record of parameters; \<open>dv_handles\<close> and \<open>dv_overrides\<close> account for the open handles
  of sysfs devices and the drivers forced on devices, and \<open>dv_driver\<close> gives the driver the kernel has bound to the device at a path of
  sysfs, \<open>SYSFS_UNKNOWN\<close> when there is none: \<open>sysfs_open_device\<close> reads it and a successful write to \<open>bind\<close> sets it. A device is named by the address of its \<open>metal_device\<close>, and a bus by
  that of its \<open>metal_bus\<close>.
\<close>

section \<open>Data\<close>

abbreviation (input) SYSFS_PATH_MAX :: nat where "SYSFS_PATH_MAX \<equiv> 256"
abbreviation (input) SYSFS_UNKNOWN :: string where "SYSFS_UNKNOWN \<equiv> ''unknown''"
abbreviation (input) LX_EBUSY :: int where "LX_EBUSY \<equiv> 16"
abbreviation (input) LX_ENOTSUP :: int where "LX_ENOTSUP \<equiv> 95"
abbreviation (input) LX_ENODEV :: int where "LX_ENODEV \<equiv> 19"
abbreviation (input) LINUX_BUS_CLOSE :: addr where "LINUX_BUS_CLOSE \<equiv> 0x300"
abbreviation (input) NO_IRQ :: addr where "NO_IRQ \<equiv> - 1"

text \<open>\<open>ld_ops\<close> tells whether the functions of the driver are those of UIO or NULL; \<open>ld_sdrv\<close> whether sysfs has the driver.\<close>

record linux_driver =
  ld_drv_name :: string
  ld_mod_name :: string
  ld_ops :: bool
  ld_sdrv :: bool

record linux_bus =
  lb_bus_name :: string
  lb_drivers :: "linux_driver list"
  lb_sbus :: bool

record sysfs_device =
  sd_path :: string
  sd_driver_name :: string

record linux_device =
  lv_device :: metal_device
  lv_irq_num :: int
  lv_irq_info :: addr
  lv_dev_name :: string
  lv_dev_path :: string
  lv_cls_path :: string
  lv_region_phys :: "u64 list"
  lv_ldrv :: linux_driver
  lv_sdev :: "sysfs_device option"
  lv_override :: bool
  lv_fd :: int

record device_state =
  dv_sys :: linux_state
  dv_irq :: linux_irq
  dv_buses :: "(addr \<times> linux_bus) list"
  dv_devices :: "addr \<Rightarrow> linux_device option"
  dv_handles :: "string list"
  dv_overrides :: "string list"
  dv_driver :: "string \<Rightarrow> string"

record sysfs_env =
  sf_open_bus :: "string \<Rightarrow> bool"
  sf_open_driver :: "string \<Rightarrow> string \<Rightarrow> nat \<Rightarrow> bool"
  sf_open_device :: "string \<Rightarrow> string \<Rightarrow> string option"
  sf_override_attr :: "string \<Rightarrow> int option"
  sf_bind_attr :: "string \<Rightarrow> bool"
  sf_write_override :: "string \<Rightarrow> string \<Rightarrow> int \<times> int"
  sf_write_bind :: "string \<Rightarrow> string \<Rightarrow> int \<times> int"
  sf_directory :: "string \<Rightarrow> int + string list"
  sf_is_dir :: "string \<Rightarrow> bool"
  sf_attribute :: "string \<Rightarrow> int + string"
  sf_access :: "string \<Rightarrow> nat \<Rightarrow> bool"
  sf_write_irq :: "int \<Rightarrow> int"
  sf_read_irq :: "int \<Rightarrow> int"
  sf_property :: "string \<Rightarrow> int + (int + (int + string))"

section \<open>Numbers as text\<close>

fun show_nat :: "nat \<Rightarrow> string" where
  "show_nat n = (if n < 10 then [char_of (48 + n)] else show_nat (n div 10) @ [char_of (48 + n mod 10)])"

declare show_nat.simps [simp del]

definition digit_of :: "char \<Rightarrow> nat option" where
  "digit_of c = (let n = of_char c :: nat in
     if 48 \<le> n \<and> n \<le> 57 then Some (n - 48)
     else if 97 \<le> n \<and> n \<le> 102 then Some (n - 87)
     else if 65 \<le> n \<and> n \<le> 70 then Some (n - 55) else None)"

fun digits_value :: "nat \<Rightarrow> nat \<Rightarrow> string \<Rightarrow> nat" where
  "digits_value radix acc [] = acc"
| "digits_value radix acc (c # cs) =
     (case digit_of c of None \<Rightarrow> acc | Some d \<Rightarrow> if d < radix then digits_value radix (radix * acc + d) cs else acc)"

text \<open>\<open>strtoul\<close> with base 0: white space, a sign, a prefix, digits; \<open>ULONG_MAX\<close> when the value is too large.\<close>

definition strtoul0 :: "string \<Rightarrow> u64" where
  "strtoul0 str =
     (let s1 = dropWhile (\<lambda>c. of_char c = (32 :: nat) \<or> (9 \<le> (of_char c :: nat) \<and> of_char c \<le> (13 :: nat))) str;
          neg = (s1 \<noteq> [] \<and> hd s1 = CHR ''-'');
          s2 = (if s1 \<noteq> [] \<and> (hd s1 = CHR ''-'' \<or> hd s1 = CHR ''+'') then tl s1 else s1);
          n = (case s2 of CHR ''0'' # x # d # cs \<Rightarrow>
                  if (x = CHR ''x'' \<or> x = CHR ''X'') \<and> digit_of d \<noteq> None then digits_value 16 0 (d # cs) else digits_value 8 0 s2
                | CHR ''0'' # cs \<Rightarrow> digits_value 8 0 s2
                | _ \<Rightarrow> digits_value 10 0 s2) in
      if 2 ^ 64 \<le> n then - 1 else if neg then - of_nat n else of_nat n)"

section \<open>UIO devices\<close>

text \<open>The second component is what is stored through \<open>value\<close>.\<close>

definition metal_uio_read_map_attr :: "sysfs_env \<Rightarrow> linux_device \<Rightarrow> nat \<Rightarrow> string \<Rightarrow> int \<times> u64 option" where
  "metal_uio_read_map_attr env ldev index name =
     (let path = lv_cls_path ldev @ ''/maps/map'' @ show_nat index @ ''/'' @ name in
      if SYSFS_PATH_MAX \<le> length path then (- LX_EOVERFLOW, None)
      else case sf_attribute env path of Inl errno \<Rightarrow> (- errno, None) | Inr text \<Rightarrow> (0, Some (strtoul0 text)))"

definition metal_uio_dev_bind ::
  "sysfs_env \<Rightarrow> sysfs_device \<Rightarrow> linux_device \<Rightarrow> linux_driver \<Rightarrow> device_state \<Rightarrow> int \<times> linux_device \<times> device_state" where
  "metal_uio_dev_bind env sdev ldev ldrv s =
     (if sd_driver_name sdev = ld_drv_name ldrv then (0, ldev, s)
      else if sd_driver_name sdev \<noteq> SYSFS_UNKNOWN then (- LX_EBUSY, ldev, s)
      else case sf_override_attr env (lv_dev_name ldev) of
        Some errno \<Rightarrow> (- errno, ldev, s)
      | None \<Rightarrow>
          let (result, errno) = sf_write_override env (lv_dev_name ldev) (ld_drv_name ldrv) in
          if result \<noteq> 0 then (- errno, ldev, s)
          else
            let ldev1 = ldev\<lparr>lv_override := True\<rparr>;
                s1 = s\<lparr>dv_overrides := lv_dev_name ldev # dv_overrides s\<rparr> in
            if \<not> sf_bind_attr env (ld_drv_name ldrv) then (- LX_ENOTSUP, ldev1, s1)
            else
              let (result, errno) = sf_write_bind env (ld_drv_name ldrv) (lv_dev_name ldev) in
              if result \<noteq> 0 then (- errno, ldev1, s1)
              else (0, ldev1, s1\<lparr>dv_driver := (dv_driver s1)(sd_path sdev := ld_drv_name ldrv)\<rparr>))"

text \<open>The loop over the regions; \<open>sz\<close> keeps the size of the region before. The third map, \<open>phys\<close>, lives in the device.\<close>

fun uio_regions ::
  "linux_os \<Rightarrow> sysfs_env \<Rightarrow> nat \<Rightarrow> nat \<Rightarrow> u64 \<Rightarrow> linux_device \<Rightarrow> linux_state \<Rightarrow> (linux_device \<times> linux_state) option" where
  "uio_regions os env 0 i sz ldev s = Some (ldev, s)"
| "uio_regions os env (Suc k) i sz ldev s = do {
     let n = unat (md_num_regions (lv_device ldev));
     let (r1, _) = metal_uio_read_map_attr env ldev i ''offset'';
     if r1 \<noteq> 0 then Some (ldev, s)
     else do {
       let (r2, phys) = metal_uio_read_map_attr env ldev i ''addr'';
       table \<leftarrow> (case phys of None \<Rightarrow> Some (lv_region_phys ldev) | Some p \<Rightarrow> arr_set (lv_region_phys ldev) n p);
       let ldev1 = ldev\<lparr>lv_region_phys := table\<rparr>;
       if r2 \<noteq> 0 then Some (ldev1, s)
       else do {
         let (r3, size3) = metal_uio_read_map_attr env ldev i ''size'';
         if r3 \<noteq> 0 then Some (ldev1, s)
         else do {
           let sz1 = (case size3 of None \<Rightarrow> sz | Some z \<Rightarrow> z);
           let (r4, result, s1) = metal_map os (lv_fd ldev) (word_of_int (int i * os_getpagesize os)) sz1 False 0 s;
           if r4 \<noteq> 0 then Some (ldev1, s1)
           else do {
             virt \<leftarrow> result;
             phys0 \<leftarrow> arr_get table n;
             regions \<leftarrow> arr_set (md_regions (lv_device ldev)) n (metal_io_init id virt (Some [phys0]) sz1 (- 1) 0 None);
             let ldev2 = ldev1\<lparr>lv_device := (lv_device ldev)\<lparr>md_regions := regions, md_num_regions := md_num_regions (lv_device ldev) + 1\<rparr>\<rparr>;
             uio_regions os env k (Suc i) sz1 ldev2 s1
           }
         }
       }
     }
   }"

text \<open>The wait for the device file; the result is whether it came.\<close>

fun wait_access :: "sysfs_env \<Rightarrow> string \<Rightarrow> nat \<Rightarrow> nat \<Rightarrow> bool" where
  "wait_access env path 0 i = False"
| "wait_access env path (Suc k) i = (if sf_access env path i then True else wait_access env path k (Suc i))"

text \<open>The paths of the first instance of the device in its class; nothing is set when there is none.\<close>

definition uio_paths :: "string \<Rightarrow> string list \<Rightarrow> linux_device \<Rightarrow> int \<times> linux_device" where
  "uio_paths path instances ldev =
     (case instances of [] \<Rightarrow> (0, ldev)
      | x # _ \<Rightarrow>
          let cls = path @ ''/'' @ x; dev = ''/dev/'' @ x in
          if PATH_MAX \<le> length cls then (- LX_EOVERFLOW, ldev\<lparr>lv_cls_path := take (PATH_MAX - 1) cls\<rparr>)
          else if PATH_MAX \<le> length dev then (- LX_EOVERFLOW, ldev\<lparr>lv_cls_path := cls, lv_dev_path := take (PATH_MAX - 1) dev\<rparr>)
          else (0, ldev\<lparr>lv_cls_path := cls, lv_dev_path := dev\<rparr>))"

text \<open>The interrupt of the device: its descriptor, when the kernel accepts the write that enables it.\<close>

definition uio_irq :: "sysfs_env \<Rightarrow> addr \<Rightarrow> linux_device \<Rightarrow> device_state \<Rightarrow> (linux_device \<times> device_state) option" where
  "uio_irq env p ldev s =
     (if sf_write_irq env (lv_fd ldev) \<le> 0 then Some (ldev\<lparr>lv_irq_num := 0, lv_irq_info := NO_IRQ\<rparr>, s)
      else do {
        irq \<leftarrow> metal_linux_irq_register_dev p (lv_fd ldev) (dv_irq s);
        Some (ldev\<lparr>lv_irq_num := 1, lv_irq_info := word_of_int (lv_fd ldev)\<rparr>, s\<lparr>dv_irq := irq\<rparr>)
      })"

definition metal_uio_dev_open ::
  "linux_os \<Rightarrow> sysfs_env \<Rightarrow> linux_bus \<Rightarrow> addr \<Rightarrow> linux_device \<Rightarrow> device_state \<Rightarrow> (int \<times> linux_device \<times> device_state) option" where
  "metal_uio_dev_open os env lbus p ldev0 s = do {
     let ldev = ldev0\<lparr>lv_fd := - 1, lv_irq_info := NO_IRQ\<rparr>;
     (case sf_open_device env (lb_bus_name lbus) (lv_dev_name ldev) of
        None \<Rightarrow> Some (- LX_ENODEV, ldev\<lparr>lv_sdev := None\<rparr>, s)
      | Some dpath \<Rightarrow> do {
          let sdev = \<lparr>sd_path = dpath, sd_driver_name = dv_driver s dpath\<rparr>;
          let s1 = s\<lparr>dv_handles := lv_dev_name ldev # dv_handles s\<rparr>;
          let (result, ldev1, s2) = metal_uio_dev_bind env sdev (ldev\<lparr>lv_sdev := Some sdev\<rparr>) (lv_ldrv ldev) s1;
          let path = sd_path sdev @ ''/uio'';
          if result \<noteq> 0 then Some (result, ldev1, s2)
          else if SYSFS_PATH_MAX \<le> length path then Some (- LX_EOVERFLOW, ldev1, s2)
          else (case sf_directory env path of
            Inl errno \<Rightarrow> Some (- errno, ldev1, s2)
          | Inr instances \<Rightarrow> do {
              let (result, ldev2) = uio_paths path instances ldev1;
              if result \<noteq> 0 then Some (result, ldev2, s2)
              else if \<not> sf_is_dir env (lv_cls_path ldev2) then Some (- LX_ENODEV, ldev2, s2)
              else if \<not> wait_access env (lv_dev_path ldev2) 1000 0 then Some (- LX_ENODEV, ldev2, s2)
              else do {
                let (fd, sys) = metal_open os (Some (lv_dev_path ldev2)) False (dv_sys s2);
                if fd < 0 then Some (fd, ldev2, s2\<lparr>dv_sys := sys\<rparr>)
                else do {
                  (ldev3, sys1) \<leftarrow> uio_regions os env 32 0 0 (ldev2\<lparr>lv_fd := fd\<rparr>) sys;
                  (ldev4, s3) \<leftarrow> uio_irq env p ldev3 (s2\<lparr>dv_sys := sys1\<rparr>);
                  Some (0, ldev4, s3)
                }
              }
            })
        })
   }"

fun unmap_regions :: "metal_io_region list \<Rightarrow> linux_state \<Rightarrow> linux_state" where
  "unmap_regions [] s = s"
| "unmap_regions (io # ios) s = unmap_regions ios (metal_unmap (io_virt io) (io_size io) s)"

definition metal_uio_dev_close :: "linux_device \<Rightarrow> device_state \<Rightarrow> (linux_device \<times> device_state) option" where
  "metal_uio_dev_close ldev s = do {
     let n = unat (md_num_regions (lv_device ldev));
     require (n \<le> length (md_regions (lv_device ldev)));
     let s1 = s\<lparr>dv_sys := unmap_regions (take n (md_regions (lv_device ldev))) (dv_sys s)\<rparr>;
     let s2 = (if lv_override ldev then s1\<lparr>dv_overrides := remove1 (lv_dev_name ldev) (dv_overrides s1)\<rparr> else s1);
     let s3 = (if lv_sdev ldev \<noteq> None then s2\<lparr>dv_handles := remove1 (lv_dev_name ldev) (dv_handles s2)\<rparr> else s2);
     let s4 = (if 0 \<le> lv_fd ldev then s3\<lparr>dv_sys := lx_close (lv_fd ldev) (dv_sys s3)\<rparr> else s3);
     Some (ldev\<lparr>lv_override := False, lv_sdev := None\<rparr>, s4)
   }"

text \<open>Acknowledging reads the count of interrupts and writes 1, which enables the next one: the calls on the file, in order.\<close>

datatype uio_call = Read_Count int | Write_Enable int

definition metal_uio_dev_irq_ack :: "sysfs_env \<Rightarrow> linux_device \<Rightarrow> uio_call list" where
  "metal_uio_dev_irq_ack env ldev =
     Read_Count (lv_fd ldev) # (if sf_read_irq env (lv_fd ldev) < 0 then [] else [Write_Enable (lv_fd ldev)])"

definition in_region :: "metal_sg \<Rightarrow> metal_io_region \<Rightarrow> bool" where
  "in_region sg io \<longleftrightarrow> io_virt io \<le> sg_virt sg \<and> sg_virt sg + word_of_int (sg_len sg) \<le> io_virt io + io_size io"

text \<open>The result and the contents of \<open>sg_out\<close>; \<open>None\<close> for it when it is not written. \<open>same\<close> tells that it is \<open>sg_in\<close>.\<close>

definition metal_uio_dev_dma_map :: "linux_device \<Rightarrow> metal_sg list \<Rightarrow> int \<Rightarrow> bool \<Rightarrow> (int \<times> metal_sg list option) option" where
  "metal_uio_dev_dma_map ldev sg_in nents_in same = do {
     let n = nat nents_in;
     require (n \<le> length sg_in);
     let regions = take (unat (md_num_regions (lv_device ldev))) (md_regions (lv_device ldev));
     if \<not> list_all (\<lambda>sg. list_ex (in_region sg) regions) (take n sg_in) then Some (- LX_EINVAL, None)
     else do {
       require (same \<or> 0 \<le> nents_in);
       Some (nents_in, Some (take n sg_in))
     }
   }"

section \<open>The bus operations\<close>

text \<open>The static table \<open>linux_bus\<close>: the addresses are those of the \<open>metal_bus\<close> inside.\<close>

definition uio_driver :: "string \<Rightarrow> linux_driver" where
  "uio_driver name = \<lparr>ld_drv_name = name, ld_mod_name = name, ld_ops = True, ld_sdrv = False\<rparr>"

definition linux_buses :: "(addr \<times> linux_bus) list" where
  "linux_buses =
     [(0x400, \<lparr>lb_bus_name = ''platform'', lb_drivers = [uio_driver ''uio_pdrv_genirq'', uio_driver ''uio_dmem_genirq''], lb_sbus = False\<rparr>),
      (0x500, \<lparr>lb_bus_name = ''pci'', lb_drivers = [(uio_driver ''vfio-pci'')\<lparr>ld_ops := False\<rparr>, uio_driver ''uio_pci_generic''], lb_sbus = False\<rparr>)]"

text \<open>A device with all fields zero but those the loop over the drivers sets.\<close>

definition fresh_device :: "addr \<Rightarrow> string \<Rightarrow> linux_driver \<Rightarrow> linux_device" where
  "fresh_device bus dev_name ldrv =
     (let io = \<lparr>io_virt = NULL, io_physmap = None, io_size = 0, io_page_shift = 0, io_page_mask = 0, io_mem_flags = 0, io_ops = no_ops\<rparr> in
      \<lparr>lv_device = \<lparr>md_name = None, md_bus = bus, md_num_regions = 0, md_regions = replicate (unat METAL_MAX_DEVICE_REGIONS) io\<rparr>,
       lv_irq_num = 0, lv_irq_info = NULL, lv_dev_name = take (PATH_MAX - 1) dev_name, lv_dev_path = [], lv_cls_path = [],
       lv_region_phys = replicate (unat METAL_MAX_DEVICE_REGIONS) 0, lv_ldrv = ldrv, lv_sdev = None, lv_override = False, lv_fd = - 1\<rparr>)"

text \<open>The loop over the drivers: the device of the first that opens it.\<close>

fun open_with ::
  "linux_os \<Rightarrow> sysfs_env \<Rightarrow> linux_bus \<Rightarrow> addr \<Rightarrow> addr \<Rightarrow> string \<Rightarrow> linux_driver list \<Rightarrow> device_state \<Rightarrow>
   (linux_device option \<times> device_state) option" where
  "open_with os env lbus bus p dev_name [] s = Some (None, s)"
| "open_with os env lbus bus p dev_name (ldrv # ldrvs) s =
     (if \<not> ld_sdrv ldrv \<or> \<not> ld_ops ldrv then open_with os env lbus bus p dev_name ldrvs s
      else do {
        (error, ldev, s1) \<leftarrow> metal_uio_dev_open os env lbus p (fresh_device bus dev_name ldrv) s;
        if error \<noteq> 0 then do {
          (_, s2) \<leftarrow> metal_uio_dev_close ldev s1;
          open_with os env lbus bus p dev_name ldrvs s2
        }
        else Some (Some ldev, s1)
      })"

definition to_linux_bus :: "addr \<Rightarrow> device_state \<Rightarrow> linux_bus option" where
  "to_linux_bus bus s = map_of (dv_buses s) bus"

text \<open>\<open>ldev\<close> is the address \<open>malloc\<close> gives, or NULL; the second component is what is stored through \<open>device\<close>.\<close>

definition metal_linux_dev_open ::
  "linux_os \<Rightarrow> sysfs_env \<Rightarrow> addr \<Rightarrow> addr \<Rightarrow> string \<Rightarrow> device_state \<Rightarrow> (int \<times> addr option \<times> device_state) option" where
  "metal_linux_dev_open os env ldev bus dev_name s = do {
     lbus \<leftarrow> to_linux_bus bus s;
     if ldev = NULL then Some (- LX_ENOMEM, None, s)
     else do {
       (r, s1) \<leftarrow> open_with os env lbus bus ldev dev_name (lb_drivers lbus) s;
       (case r of None \<Rightarrow> Some (- LX_ENODEV, None, s1)
        | Some d \<Rightarrow> do {
            let d1 = d\<lparr>lv_device := (lv_device d)\<lparr>md_name := Some (lv_dev_name d)\<rparr>\<rparr>;
            let c = ls_common (dv_sys s1);
            b \<leftarrow> ms_buses c bus;
            let c1 = c\<lparr>ms_devices := (ms_devices c)(ldev \<mapsto> lv_device d1),
                       ms_nodes := metal_list_add_tail (ms_nodes c) (mb_devices b) ldev\<rparr>;
            Some (0, Some ldev, s1\<lparr>dv_devices := (dv_devices s1)(ldev \<mapsto> d1), dv_sys := (dv_sys s1)\<lparr>ls_common := c1\<rparr>\<rparr>)
          })
     }
   }"

definition metal_linux_dev_close :: "addr \<Rightarrow> device_state \<Rightarrow> device_state option" where
  "metal_linux_dev_close device s = do {
     d \<leftarrow> dv_devices s device;
     require (ld_ops (lv_ldrv d));
     (_, s1) \<leftarrow> metal_uio_dev_close d s;
     let c = ls_common (dv_sys s1);
     let c1 = c\<lparr>ms_devices := (ms_devices c)(device := None), ms_nodes := metal_list_del (ms_nodes c) device\<rparr>;
     Some (s1\<lparr>dv_devices := (dv_devices s1)(device := None), dv_sys := (dv_sys s1)\<lparr>ls_common := c1\<rparr>\<rparr>)
   }"

definition put_bus :: "addr \<Rightarrow> linux_bus \<Rightarrow> device_state \<Rightarrow> device_state" where
  "put_bus bus lbus s = s\<lparr>dv_buses := AList.update bus lbus (dv_buses s)\<rparr>"

definition metal_linux_bus_close :: "addr \<Rightarrow> device_state \<Rightarrow> device_state option" where
  "metal_linux_bus_close bus s = do {
     lbus \<leftarrow> to_linux_bus bus s;
     Some (put_bus bus (lbus\<lparr>lb_drivers := map (\<lambda>d. d\<lparr>ld_sdrv := False\<rparr>) (lb_drivers lbus), lb_sbus := False\<rparr>) s)
   }"

definition metal_linux_dev_irq_ack :: "sysfs_env \<Rightarrow> addr \<Rightarrow> device_state \<Rightarrow> uio_call list option" where
  "metal_linux_dev_irq_ack env device s = do {
     d \<leftarrow> dv_devices s device;
     require (ld_ops (lv_ldrv d));
     Some (metal_uio_dev_irq_ack env d)
   }"

definition metal_linux_dev_dma_map ::
  "addr \<Rightarrow> metal_sg list \<Rightarrow> int \<Rightarrow> bool \<Rightarrow> device_state \<Rightarrow> (int \<times> metal_sg list option) option" where
  "metal_linux_dev_dma_map device sg_in nents_in same s = do {
     d \<leftarrow> dv_devices s device;
     require (ld_ops (lv_ldrv d));
     metal_uio_dev_dma_map d sg_in nents_in same
   }"

section \<open>Probing\<close>

definition metal_linux_register_bus :: "addr \<Rightarrow> linux_bus \<Rightarrow> device_state \<Rightarrow> (int \<times> device_state) option" where
  "metal_linux_register_bus bus lbus s = do {
     let c = ls_common (dv_sys s);
     let b = \<lparr>mb_name = Some (lb_bus_name lbus),
              mb_ops = \<lparr>bo_bus_close = LINUX_BUS_CLOSE, bo_dev_open = 0x308, bo_dev_close = 0x310, bo_dev_irq_ack = 0x318,
                        bo_dev_dma_map = 0x320, bo_dev_dma_unmap = 0x328\<rparr>,
              mb_devices = bus + 8\<rparr>;
     (r, c1) \<leftarrow> metal_bus_register bus (c\<lparr>ms_buses := (ms_buses c)(bus \<mapsto> b)\<rparr>);
     Some (r, s\<lparr>dv_sys := (dv_sys s)\<lparr>ls_common := c1\<rparr>\<rparr>)
   }"

text \<open>Three attempts: at once, after loading the module, and after loading it with \<open>sudo\<close>.\<close>

definition metal_linux_probe_driver :: "sysfs_env \<Rightarrow> linux_bus \<Rightarrow> linux_driver \<Rightarrow> int \<times> linux_driver" where
  "metal_linux_probe_driver env lbus ldrv =
     (let attempt = sf_open_driver env (lb_bus_name lbus) (ld_drv_name ldrv);
          tail = ld_mod_name ldrv @ '' > /dev/null 2>&1'' in
      if attempt 0 then (0, ldrv\<lparr>ld_sdrv := True\<rparr>)
      else if 256 \<le> length (''modprobe '' @ tail) then (- LX_EOVERFLOW, ldrv\<lparr>ld_sdrv := False\<rparr>)
      else if attempt 1 then (0, ldrv\<lparr>ld_sdrv := True\<rparr>)
      else if 256 \<le> length (''sudo modprobe '' @ tail) then (- LX_EOVERFLOW, ldrv\<lparr>ld_sdrv := False\<rparr>)
      else if attempt 2 then (0, ldrv\<lparr>ld_sdrv := True\<rparr>)
      else (- LX_ENODEV, ldrv\<lparr>ld_sdrv := False\<rparr>))"

definition metal_linux_probe_bus :: "sysfs_env \<Rightarrow> addr \<Rightarrow> device_state \<Rightarrow> (int \<times> device_state) option" where
  "metal_linux_probe_bus env bus s = do {
     lbus \<leftarrow> to_linux_bus bus s;
     let lbus1 = lbus\<lparr>lb_sbus := sf_open_bus env (lb_bus_name lbus)\<rparr>;
     if \<not> lb_sbus lbus1 then Some (- LX_ENODEV, put_bus bus lbus1 s)
     else do {
       let probed = map (metal_linux_probe_driver env lbus1) (lb_drivers lbus1);
       let lbus2 = lbus1\<lparr>lb_drivers := map snd probed\<rparr>;
       let s1 = put_bus bus lbus2 s;
       if list_all (\<lambda>(ret, _). ret \<noteq> 0) probed
       then do { s2 \<leftarrow> metal_linux_bus_close bus s1; Some (- LX_ENODEV, s2) }
       else do {
         (error, s2) \<leftarrow> metal_linux_register_bus bus lbus2 s1;
         if error \<noteq> 0 then do { s3 \<leftarrow> metal_linux_bus_close bus s2; Some (error, s3) } else Some (error, s2)
       }
     }
   }"

fun probe_buses :: "sysfs_env \<Rightarrow> addr list \<Rightarrow> device_state \<Rightarrow> (nat \<times> device_state) option" where
  "probe_buses env [] s = Some (0, s)"
| "probe_buses env (b # bs) s = do {
     (r, s1) \<leftarrow> metal_linux_probe_bus env b s;
     (n, s2) \<leftarrow> probe_buses env bs s1;
     Some ((if r \<noteq> 0 then 0 else 1) + n, s2)
   }"

definition metal_linux_bus_init :: "sysfs_env \<Rightarrow> device_state \<Rightarrow> (int \<times> device_state) option" where
  "metal_linux_bus_init env s = do {
     (valid, s1) \<leftarrow> probe_buses env (map fst (dv_buses s)) s;
     Some (if valid \<noteq> 0 then 0 else - LX_ENODEV, s1)
   }"

text \<open>The close function of the bus that is found runs after it was unlinked.\<close>

fun finish_buses :: "string list \<Rightarrow> device_state \<Rightarrow> device_state option" where
  "finish_buses [] s = Some s"
| "finish_buses (name # names) s = do {
     let c = ls_common (dv_sys s);
     (r, found) \<leftarrow> metal_bus_find name True c;
     if r = 0 then do {
       bus \<leftarrow> found;
       b \<leftarrow> ms_buses c bus;
       (_, c1) \<leftarrow> metal_bus_unregister (\<lambda>_ _ c. Some c) bus c;
       let s1 = s\<lparr>dv_sys := (dv_sys s)\<lparr>ls_common := c1\<rparr>\<rparr>;
       s2 \<leftarrow> (if bo_bus_close (mb_ops b) = LINUX_BUS_CLOSE then metal_linux_bus_close bus s1 else Some s1);
       finish_buses names s2
     }
     else finish_buses names s
   }"

definition metal_linux_bus_finish :: "device_state \<Rightarrow> device_state option" where
  "metal_linux_bus_finish s = finish_buses (map (lb_bus_name \<circ> snd) (dv_buses s)) s"

text \<open>The result of reading a property of the device tree and what was read.\<close>

definition metal_linux_get_device_property :: "sysfs_env \<Rightarrow> linux_device \<Rightarrow> string \<Rightarrow> (int \<times> string option) option" where
  "metal_linux_get_device_property env ldev property_name = do {
     sdev \<leftarrow> lv_sdev ldev;
     let path = take (PATH_MAX - 1) (sd_path sdev @ ''/of_node/'' @ property_name);
     Some (case sf_property env path of
         Inl errno \<Rightarrow> (- errno, None)
       | Inr (Inl errno) \<Rightarrow> (- errno, None)
       | Inr (Inr (Inl errno)) \<Rightarrow> (- errno, None)
       | Inr (Inr (Inr text)) \<Rightarrow> (0, Some text))
   }"

section \<open>What a device holds\<close>

definition map_of_region :: "metal_io_region \<Rightarrow> addr \<times> u64" where
  "map_of_region io = (io_virt io, io_size io)"

definition device_maps :: "linux_device \<Rightarrow> (addr \<times> u64) list" where
  "device_maps d = rev (map map_of_region (take (unat (md_num_regions (lv_device d))) (md_regions (lv_device d))))"

definition regions_ok :: "linux_device \<Rightarrow> nat \<Rightarrow> bool" where
  "regions_ok d k \<longleftrightarrow> length (md_regions (lv_device d)) = 32 \<and> length (lv_region_phys d) = 32 \<and> unat (md_num_regions (lv_device d)) + k \<le> 32"

text \<open>The fields the loop over the regions leaves alone.\<close>

definition same_device :: "linux_device \<Rightarrow> linux_device \<Rightarrow> bool" where
  "same_device d d' \<longleftrightarrow> lv_fd d' = lv_fd d \<and> lv_sdev d' = lv_sdev d \<and> lv_override d' = lv_override d \<and> lv_dev_name d' = lv_dev_name d
     \<and> lv_ldrv d' = lv_ldrv d"

lemma regions_ok_mono: "regions_ok d k \<Longrightarrow> j \<le> k \<Longrightarrow> regions_ok d j"
  by (simp add: regions_ok_def)

definition regions_run :: "linux_os \<Rightarrow> sysfs_env \<Rightarrow> nat \<Rightarrow> nat \<Rightarrow> u64 \<Rightarrow> linux_device \<Rightarrow> linux_state \<Rightarrow> bool" where
  "regions_run os env k i sz d s \<longleftrightarrow> (\<exists>d' ms. uio_regions os env k i sz d s = Some (d', s\<lparr>ls_maps := ms @ ls_maps s\<rparr>)
     \<and> device_maps d' = ms @ device_maps d \<and> same_device d d' \<and> regions_ok d' 0)"

lemma regions_stop:
  assumes "uio_regions os env k i sz d s = Some (d\<lparr>lv_region_phys := table\<rparr>, s)" and "regions_ok d k" and "length table = 32"
  shows "regions_run os env k i sz d s"
  unfolding regions_run_def
  by (rule exI [of _ "d\<lparr>lv_region_phys := table\<rparr>"], rule exI [of _ "[]"])
    (use assms in \<open>simp add: device_maps_def same_device_def regions_ok_def\<close>)

lemma add_region:
  assumes "regions_ok d (Suc k)" and "length table = 32" and n: "n = unat (md_num_regions (lv_device d))"
    and d2: "d2 = d\<lparr>lv_region_phys := table, lv_device := (lv_device d)\<lparr>md_regions := (md_regions (lv_device d))[n := io],
      md_num_regions := md_num_regions (lv_device d) + 1\<rparr>\<rparr>"
  shows "regions_ok d2 k" "device_maps d2 = map_of_region io # device_maps d" "same_device d d2"
proof -
  have "n < 32" using assms(1,3) by (simp add: regions_ok_def)
  then have m: "unat (md_num_regions (lv_device d) + 1) = Suc n" using n by (simp add: unat_word_ariths(1))
  then show "regions_ok d2 k" using assms(1,2) n d2 by (simp add: regions_ok_def)
  show "device_maps d2 = map_of_region io # device_maps d"
    using m n d2 \<open>n < 32\<close> assms(1) by (simp add: device_maps_def regions_ok_def take_Suc_conv_app_nth)
  show "same_device d d2" using d2 by (simp add: same_device_def)
qed

lemma regions_go:
  assumes "uio_regions os env (Suc k) i sz d s = uio_regions os env k i' sz' d2 (s\<lparr>ls_maps := x # ls_maps s\<rparr>)"
    and "regions_run os env k i' sz' d2 (s\<lparr>ls_maps := x # ls_maps s\<rparr>)" and "device_maps d2 = x # device_maps d" "same_device d d2"
  shows "regions_run os env (Suc k) i sz d s"
proof -
  obtain d' ms where r: "uio_regions os env k i' sz' d2 (s\<lparr>ls_maps := x # ls_maps s\<rparr>) = Some (d', s\<lparr>ls_maps := ms @ x # ls_maps s\<rparr>)"
    "device_maps d' = ms @ device_maps d2" "same_device d2 d'" "regions_ok d' 0"
    using assms(2) by (auto simp: regions_run_def)
  show ?thesis
    unfolding regions_run_def
    by (rule exI [of _ d'], rule exI [of _ "ms @ [x]"]) (use assms(1,3,4) r in \<open>simp add: same_device_def\<close>)
qed

lemma uio_regions_total:
  assumes "os_sane os" and "regions_ok d k"
  shows "regions_run os env k i sz d s"
  using assms(2)
proof (induction k arbitrary: i sz d s)
  case 0
  then show ?case by (intro regions_stop [where table = "lv_region_phys d"]) (simp_all add: regions_ok_def)
next
  case (Suc k i sz d s)
  let ?n = "unat (md_num_regions (lv_device d))"
  have n: "?n < length (lv_region_phys d)" "?n < length (md_regions (lv_device d))" and l: "length (lv_region_phys d) = 32"
    using Suc.prems by (simp_all add: regions_ok_def)
  obtain r1 v1 where r1: "metal_uio_read_map_attr env d i ''offset'' = (r1, v1)" by fastforce
  obtain r2 v2 where r2: "metal_uio_read_map_attr env d i ''addr'' = (r2, v2)" by fastforce
  obtain r3 v3 where r3: "metal_uio_read_map_attr env d i ''size'' = (r3, v3)" by fastforce
  define table where "table = (case v2 of None \<Rightarrow> lv_region_phys d | Some p \<Rightarrow> (lv_region_phys d)[?n := p])"
  have tab: "(case v2 of None \<Rightarrow> Some (lv_region_phys d) | Some p \<Rightarrow> arr_set (lv_region_phys d) ?n p) = Some table" "length table = 32"
    using n l by (auto simp: table_def split: option.splits)
  define sz1 where "sz1 = (case v3 of None \<Rightarrow> sz | Some z \<Rightarrow> z)"
  note step = r1 r2 r3 tab(1) sz1_def [symmetric] Let_def
  show ?case
  proof (cases "r1 = 0")
    case False
    then show ?thesis using regions_stop [OF _ Suc.prems, of os env i sz s "lv_region_phys d"] l by (simp add: step)
  next
    case z1: True
    show ?thesis
    proof (cases "r2 = 0 \<and> r3 = 0")
      case False
      then show ?thesis using regions_stop [OF _ Suc.prems, of os env i sz s table] z1 tab by (auto simp: step)
    next
      case z23: True
      show ?thesis
        using assms(1)
      proof (cases rule: metal_map_cases [of os "lv_fd d" "word_of_int (int i * os_getpagesize os)" sz1 False 0 s])
        case (failed e)
        then show ?thesis using regions_stop [OF _ Suc.prems, of os env i sz s table] z1 z23 tab by (simp add: step)
      next
        case (mapped mem)
        let ?io = "metal_io_init id mem (Some [table ! ?n]) sz1 (- 1) 0 None"
        let ?d2 = "d\<lparr>lv_region_phys := table, lv_device := (lv_device d)\<lparr>md_regions := (md_regions (lv_device d))[?n := ?io],
          md_num_regions := md_num_regions (lv_device d) + 1\<rparr>\<rparr>"
        note new = add_region [OF Suc.prems tab(2) refl refl, where io = ?io]
        have k: "map_of_region ?io = (mem, sz1)" by (simp add: map_of_region_def metal_io_init_fields)
        have "uio_regions os env (Suc k) i sz d s = uio_regions os env k (Suc i) sz1 ?d2 (s\<lparr>ls_maps := (mem, sz1) # ls_maps s\<rparr>)"
          using z1 z23 mapped n l tab(2) by (simp add: step)
        then show ?thesis using regions_go Suc.IH [OF new(1)] new(2,3) k by metis
      qed
    qed
  qed
qed

section \<open>Opening and closing\<close>

definition only_if :: "bool \<Rightarrow> 'a \<Rightarrow> 'a list" where
  "only_if c x = (if c then [x] else [])"

text \<open>The state with what the device \<open>d\<close> will give back, and with other interrupts.\<close>

definition held :: "linux_device \<Rightarrow> linux_irq \<Rightarrow> device_state \<Rightarrow> device_state" where
  "held d irq s = s\<lparr>dv_irq := irq,
     dv_sys := (dv_sys s)\<lparr>ls_fds := only_if (0 \<le> lv_fd d) (lv_fd d) @ ls_fds (dv_sys s), ls_maps := device_maps d @ ls_maps (dv_sys s)\<rparr>,
     dv_handles := only_if (lv_sdev d \<noteq> None) (lv_dev_name d) @ dv_handles s,
     dv_overrides := only_if (lv_override d) (lv_dev_name d) @ dv_overrides s\<rparr>"

definition open_sane :: "linux_os \<Rightarrow> bool" where
  "open_sane os \<longleftrightarrow> (\<forall>path shm. fst (os_open os path shm) < int MAX_IRQS
     \<and> (fst (os_open os path shm) < 0 \<longrightarrow> 0 < snd (os_open os path shm)))"

lemma unmap_all:
  "mset (map map_of_region ios) = mset zs \<Longrightarrow> ls_maps s = zs @ ys \<Longrightarrow> unmap_regions ios s = s\<lparr>ls_maps := ys\<rparr>"
proof (induction ios arbitrary: zs s)
  case (Cons io ios)
  have "map_of_region io \<in> set zs" using Cons.prems(1) by (metis list.set_intros(1) list.simps(9) set_mset_mset)
  then have "ls_maps (metal_unmap (io_virt io) (io_size io) s) = remove1 (map_of_region io) zs @ ys"
    using Cons.prems(2) by (simp add: metal_unmap_def map_of_region_def remove1_append)
  moreover have "mset (map map_of_region ios) = mset (remove1 (map_of_region io) zs)"
    using Cons.prems(1) by (metis add_mset_remove_trivial list.simps(9) mset.simps(2) mset_remove1)
  ultimately have "unmap_regions ios (metal_unmap (io_virt io) (io_size io) s) = (metal_unmap (io_virt io) (io_size io) s)\<lparr>ls_maps := ys\<rparr>"
    using Cons.IH by blast
  then show ?case by (simp add: metal_unmap_def)
qed simp

lemma close_held:
  assumes "regions_ok d 0"
  shows "metal_uio_dev_close d (held d irq s) = Some (d\<lparr>lv_override := False, lv_sdev := None\<rparr>, s\<lparr>dv_irq := irq\<rparr>)"
proof -
  have "mset (map map_of_region (take (unat (md_num_regions (lv_device d))) (md_regions (lv_device d)))) = mset (device_maps d)"
    by (simp add: device_maps_def)
  then have un: "unmap_regions (take (unat (md_num_regions (lv_device d))) (md_regions (lv_device d))) (dv_sys (held d irq s))
      = (dv_sys (held d irq s))\<lparr>ls_maps := ls_maps (dv_sys s)\<rparr>"
    by (rule unmap_all) (simp add: held_def)
  show ?thesis
    using assms by (simp add: metal_uio_dev_close_def Let_def un regions_ok_def) (simp add: held_def only_if_def lx_close_def)
qed

lemma held_cong:
  assumes "same_device d d'" "lv_device d' = lv_device d"
  shows "held d' irq s = held d irq s"
  using assms by (simp add: held_def same_device_def device_maps_def)

lemma paths_same:
  "uio_paths path xs d = (r, d') \<Longrightarrow> same_device d d' \<and> lv_device d' = lv_device d \<and> lv_region_phys d' = lv_region_phys d"
  by (auto simp: uio_paths_def same_device_def Let_def split: list.splits if_splits)

text \<open>
  What a call may do to the bindings: give the device that was found, when it has no driver, one of \<open>drivers\<close>. And that the
  device that was found has the driver \<open>drv\<close>.
\<close>

definition rebinds :: "string option \<Rightarrow> string set \<Rightarrow> (string \<Rightarrow> string) \<Rightarrow> (string \<Rightarrow> string) \<Rightarrow> bool" where
  "rebinds found drivers b b' \<longleftrightarrow> b' = b
     \<or> (\<exists>path drv. found = Some path \<and> b path = SYSFS_UNKNOWN \<and> drv \<in> drivers \<and> b' = b(path := drv))"

definition bound_to :: "string option \<Rightarrow> string \<Rightarrow> (string \<Rightarrow> string) \<Rightarrow> bool" where
  "bound_to found drv b \<longleftrightarrow> map_option b found = Some drv"

lemma rebinds_trans: "rebinds found ds b b1 \<Longrightarrow> rebinds found es b1 b2 \<Longrightarrow> rebinds found (ds \<union> es) b b2"
  by (auto simp: rebinds_def)

lemma rebinds_mono: "rebinds found ds b b1 \<Longrightarrow> ds \<subseteq> es \<Longrightarrow> rebinds found es b b1"
  by (auto simp: rebinds_def)

text \<open>A call that fails has set \<open>errno\<close>.\<close>

definition env_sane :: "sysfs_env \<Rightarrow> bool" where
  "env_sane env \<longleftrightarrow> (\<forall>path e. sf_directory env path = Inl e \<longrightarrow> 0 < e) \<and> (\<forall>d e. sf_override_attr env d = Some e \<longrightarrow> 0 < e)
     \<and> (\<forall>d v. fst (sf_write_override env d v) \<noteq> 0 \<longrightarrow> 0 < snd (sf_write_override env d v))
     \<and> (\<forall>d v. fst (sf_write_bind env d v) \<noteq> 0 \<longrightarrow> 0 < snd (sf_write_bind env d v))"

lemma bind_cases:
  assumes "env_sane env" and "metal_uio_dev_bind env sdev d ldrv s = (r, d', s2)"
  obtains (already) "r = 0" "sd_driver_name sdev = ld_drv_name ldrv" "d' = d" "s2 = s"
    | (refused) "r \<noteq> 0" "d' = d" "s2 = s"
    | (forced) "r \<noteq> 0" "d' = d\<lparr>lv_override := True\<rparr>" "s2 = s\<lparr>dv_overrides := lv_dev_name d # dv_overrides s\<rparr>"
    | (bound) "r = 0" "sd_driver_name sdev = SYSFS_UNKNOWN" "d' = d\<lparr>lv_override := True\<rparr>"
      "s2 = s\<lparr>dv_overrides := lv_dev_name d # dv_overrides s, dv_driver := (dv_driver s)(sd_path sdev := ld_drv_name ldrv)\<rparr>"
proof -
  obtain w1 e1 where w1: "sf_write_override env (lv_dev_name d) (ld_drv_name ldrv) = (w1, e1)" by fastforce
  obtain w2 e2 where w2: "sf_write_bind env (ld_drv_name ldrv) (lv_dev_name d) = (w2, e2)" by fastforce
  have e: "w1 \<noteq> 0 \<Longrightarrow> 0 < e1" "w2 \<noteq> 0 \<Longrightarrow> 0 < e2" "sf_override_attr env (lv_dev_name d) = Some e3 \<Longrightarrow> 0 < e3" for e3
    using assms(1) w1 w2 unfolding env_sane_def by (metis fst_conv snd_conv)+
  let ?s1 = "s\<lparr>dv_overrides := lv_dev_name d # dv_overrides s\<rparr>"
  consider "sd_driver_name sdev = ld_drv_name ldrv"
    | "sd_driver_name sdev \<noteq> ld_drv_name ldrv" "sd_driver_name sdev \<noteq> SYSFS_UNKNOWN \<or> sf_override_attr env (lv_dev_name d) \<noteq> None \<or> w1 \<noteq> 0"
    | "sd_driver_name sdev \<noteq> ld_drv_name ldrv" "sd_driver_name sdev = SYSFS_UNKNOWN" "sf_override_attr env (lv_dev_name d) = None" "w1 = 0"
    by blast
  then show thesis
  proof cases
    case 1
    then show thesis using assms(2) by (intro already) (simp_all add: metal_uio_dev_bind_def)
  next
    case 2
    have "r \<noteq> 0 \<and> d' = d \<and> s2 = s"
      using assms(2) 2 e by (auto simp: metal_uio_dev_bind_def w1 Let_def split: if_splits option.splits)
    then show thesis by (intro refused) auto
  next
    case 3
    have run: "(if \<not> sf_bind_attr env (ld_drv_name ldrv) then (- LX_ENOTSUP, d\<lparr>lv_override := True\<rparr>, ?s1)
        else if w2 \<noteq> 0 then (- e2, d\<lparr>lv_override := True\<rparr>, ?s1)
        else (0, d\<lparr>lv_override := True\<rparr>, ?s1\<lparr>dv_driver := (dv_driver s)(sd_path sdev := ld_drv_name ldrv)\<rparr>)) = (r, d', s2)"
      using assms(2) 3 by (simp add: metal_uio_dev_bind_def w1 w2 Let_def cong: if_cong)
    show thesis
    proof (cases "sf_bind_attr env (ld_drv_name ldrv) \<and> w2 = 0")
      case True
      then show thesis using run 3(2) by (intro bound) auto
    next
      case False
      then show thesis using run e(2) by (intro forced) (auto split: if_splits)
    qed
  qed
qed

definition driver_set :: "(string \<Rightarrow> string) \<Rightarrow> device_state \<Rightarrow> device_state" where
  "driver_set b s = s\<lparr>dv_driver := b\<rparr>"

lemma driver_set_fields [simp]:
  "dv_irq (driver_set b s) = dv_irq s" "dv_sys (driver_set b s) = dv_sys s" "dv_driver (driver_set b s) = b" "dv_devices (driver_set b s) = dv_devices s"
  "dv_handles (driver_set b s) = dv_handles s" "dv_overrides (driver_set b s) = dv_overrides s" "driver_set (dv_driver s) s = s"
  "driver_set b (driver_set b1 s) = driver_set b s" "s\<lparr>dv_irq := dv_irq s\<rparr> = s"
  by (simp_all add: driver_set_def)

lemma bind_held:
  assumes "env_sane env" and "metal_uio_dev_bind env sdev d ldrv (held d irq s) = (r, d', s2)" and "\<not> lv_override d"
    and "sd_driver_name sdev = dv_driver s (sd_path sdev)"
  shows "\<exists>b. s2 = held d' irq (driver_set b s) \<and> (d' = d \<or> d' = d\<lparr>lv_override := True\<rparr>)
    \<and> rebinds (Some (sd_path sdev)) {ld_drv_name ldrv} (dv_driver s) b \<and> (r = 0 \<longrightarrow> bound_to (Some (sd_path sdev)) (ld_drv_name ldrv) b)"
  using assms(1,2)
proof (cases rule: bind_cases)
  case already
  then show ?thesis using assms(4) by (intro exI [of _ "dv_driver s"]) (simp add: rebinds_def bound_to_def)
next
  case refused
  then show ?thesis by (intro exI [of _ "dv_driver s"]) (simp add: rebinds_def bound_to_def)
next
  case forced
  then show ?thesis using assms(3)
    by (intro exI [of _ "dv_driver s"]) (simp add: rebinds_def bound_to_def held_def only_if_def device_maps_def)
next
  case bound
  then show ?thesis using assms(3,4)
    by (intro exI [of _ "(dv_driver s)(sd_path sdev := ld_drv_name ldrv)"])
      (simp add: rebinds_def bound_to_def held_def only_if_def device_maps_def driver_set_def)
qed

definition irq_after :: "sysfs_env \<Rightarrow> addr \<Rightarrow> linux_device \<Rightarrow> linux_irq \<Rightarrow> linux_irq" where
  "irq_after env p d irq = (if sf_write_irq env (lv_fd d) \<le> 0 then irq else irq\<lparr>li_devs := (li_devs irq)[nat (lv_fd d) := p]\<rparr>)"

text \<open>A call of \<open>metal_uio_dev_open\<close> returns, and the device holds what was acquired.\<close>

definition opened :: "sysfs_env \<Rightarrow> addr \<Rightarrow> linux_device \<Rightarrow> device_state \<Rightarrow> (int \<times> linux_device \<times> device_state) option \<Rightarrow> bool" where
  "opened env p d0 s r \<longleftrightarrow> (\<exists>e d. r = Some (e, d, held d (if e = 0 then irq_after env p d (dv_irq s) else dv_irq s) s) \<and> regions_ok d 0
     \<and> lv_dev_name d = lv_dev_name d0 \<and> lv_ldrv d = lv_ldrv d0 \<and> (e = 0 \<longrightarrow> 0 \<le> lv_fd d \<and> lv_fd d < int MAX_IRQS))"

lemma opened_fail:
  assumes "e \<noteq> 0" and "regions_ok d 0" "lv_dev_name d = lv_dev_name d0" "lv_ldrv d = lv_ldrv d0"
  shows "opened env p d0 s (Some (e, d, held d (dv_irq s) s))"
  using assms by (auto simp: opened_def)

lemma file_opened:
  assumes "open_sane os" and "metal_open os path shm sys = (fd, sys')"
  shows "if fd < 0 then sys' = sys else fd < int MAX_IRQS \<and> sys' = sys\<lparr>ls_fds := fd # ls_fds sys\<rparr>"
proof (cases path)
  case None
  then show ?thesis using assms(2) by (simp add: metal_open_def split: if_splits)
next
  case (Some q)
  obtain f e where o: "os_open os q shm = (f, e)" by fastforce
  then have "f < int MAX_IRQS" "f < 0 \<Longrightarrow> 0 < e" using assms(1) unfolding open_sane_def by (metis fst_conv snd_conv)+
  then show ?thesis using assms(2) Some o by (auto simp: metal_open_def split: if_splits)
qed

lemma irq_opened:
  assumes "length (li_devs (dv_irq s)) = MAX_IRQS" and "0 \<le> lv_fd d" "lv_fd d < int MAX_IRQS" and "regions_ok d 0"
  shows "\<exists>d'. uio_irq env p d (held d (dv_irq s) s) = Some (d', held d' (irq_after env p d' (dv_irq s)) s) \<and> regions_ok d' 0 \<and> same_device d d'"
proof (cases "sf_write_irq env (lv_fd d) \<le> 0")
  case True
  then show ?thesis
    using assms(4) by (simp add: uio_irq_def irq_after_def held_def device_maps_def regions_ok_def same_device_def)
next
  case False
  then have "metal_linux_irq_register_dev p (lv_fd d) (dv_irq s) = Some (irq_after env p d (dv_irq s))"
    using assms(1-3) by (simp add: metal_linux_irq_register_dev_def irq_after_def nat_less_iff)
  then show ?thesis
    using False assms(4) by (simp add: uio_irq_def irq_after_def held_def device_maps_def regions_ok_def same_device_def)
qed

lemma same_trans: "same_device a b \<Longrightarrow> same_device b c \<Longrightarrow> same_device a c"
  by (simp add: same_device_def)

text \<open>The end of \<open>metal_uio_dev_open\<close>, once the file is open.\<close>

lemma open_end:
  assumes "os_sane os" and "length (li_devs (dv_irq s)) = MAX_IRQS" and "regions_ok d 32" "device_maps d = []"
    and "0 \<le> lv_fd d" "lv_fd d < int MAX_IRQS" and "lv_dev_name d = lv_dev_name d0" "lv_ldrv d = lv_ldrv d0"
  shows "opened env p d0 s (do {
     (ldev3, sys1) \<leftarrow> uio_regions os env 32 0 0 d (dv_sys (held d (dv_irq s) s));
     (ldev4, s3) \<leftarrow> uio_irq env p ldev3 ((held d (dv_irq s) s)\<lparr>dv_sys := sys1\<rparr>);
     Some (0, ldev4, s3)
   })"
proof -
  let ?sys = "dv_sys (held d (dv_irq s) s)"
  obtain d1 ms where r: "uio_regions os env 32 0 0 d ?sys = Some (d1, ?sys\<lparr>ls_maps := ms @ ls_maps ?sys\<rparr>)" "device_maps d1 = ms"
    "same_device d d1" "regions_ok d1 0"
    using uio_regions_total [OF assms(1,3), of env 0 0 ?sys] assms(4) by (auto simp: regions_run_def)
  have h: "(held d (dv_irq s) s)\<lparr>dv_sys := ?sys\<lparr>ls_maps := ms @ ls_maps ?sys\<rparr>\<rparr> = held d1 (dv_irq s) s"
    using r(2,3) assms(4) by (simp add: held_def same_device_def)
  have "0 \<le> lv_fd d1" "lv_fd d1 < int MAX_IRQS" using r(3) assms(5,6) by (simp_all add: same_device_def)
  then obtain d2 where "uio_irq env p d1 (held d1 (dv_irq s) s) = Some (d2, held d2 (irq_after env p d2 (dv_irq s)) s)" "regions_ok d2 0" "same_device d1 d2"
    using irq_opened [OF assms(2) _ _ r(4)] by blast
  then show ?thesis using r(1,3) h assms(5-8) by (simp add: opened_def same_device_def)
qed

lemma uio_paths_result: "uio_paths path xs d = (r, d') \<Longrightarrow> device_maps d' = device_maps d \<and> regions_ok d' = regions_ok d \<and> same_device d d'"
  using paths_same [of path xs d r d'] by (auto simp: device_maps_def regions_ok_def fun_eq_iff)

lemma open_middle:
  assumes "os_sane os" "open_sane os" "env_sane env" and "length (li_devs (dv_irq s)) = MAX_IRQS" and "regions_ok d 32" "device_maps d = []"
    and "lv_fd d = - 1" and "lv_dev_name d = lv_dev_name d0" "lv_ldrv d = lv_ldrv d0"
  shows "opened env p d0 s (case sf_directory env path of
            Inl errno \<Rightarrow> Some (- errno, d, held d (dv_irq s) s)
          | Inr instances \<Rightarrow> do {
              let (result, ldev2) = uio_paths path instances d;
              if result \<noteq> 0 then Some (result, ldev2, held d (dv_irq s) s)
              else if \<not> sf_is_dir env (lv_cls_path ldev2) then Some (- LX_ENODEV, ldev2, held d (dv_irq s) s)
              else if \<not> wait_access env (lv_dev_path ldev2) 1000 0 then Some (- LX_ENODEV, ldev2, held d (dv_irq s) s)
              else do {
                let (fd, sys) = metal_open os (Some (lv_dev_path ldev2)) False (dv_sys (held d (dv_irq s) s));
                if fd < 0 then Some (fd, ldev2, (held d (dv_irq s) s)\<lparr>dv_sys := sys\<rparr>)
                else do {
                  (ldev3, sys1) \<leftarrow> uio_regions os env 32 0 0 (ldev2\<lparr>lv_fd := fd\<rparr>) sys;
                  (ldev4, s3) \<leftarrow> uio_irq env p ldev3 ((held d (dv_irq s) s)\<lparr>dv_sys := sys1\<rparr>);
                  Some (0, ldev4, s3)
                }
              }
            })"
proof (cases "sf_directory env path")
  case (Inl e)
  then have "e \<noteq> 0" using assms(3) by (auto simp: env_sane_def)
  then show ?thesis using Inl opened_fail [of "- e" d] assms(8,9) regions_ok_mono [OF assms(5)] by simp
next
  case (Inr instances)
  obtain r d2 where p: "uio_paths path instances d = (r, d2)" by fastforce
  note q = uio_paths_result [OF p]
  have h: "held d2 (dv_irq s) s = held d (dv_irq s) s" using paths_same [OF p] by (intro held_cong) auto
  have d2: "regions_ok d2 32" "device_maps d2 = []" "lv_fd d2 = - 1" "lv_dev_name d2 = lv_dev_name d0" "lv_ldrv d2 = lv_ldrv d0"
    using q assms(5-9) by (auto simp: same_device_def)
  have fail: "opened env p d0 s (Some (e, d2, held d (dv_irq s) s))" if "e \<noteq> 0" for e
  proof -
    have "regions_ok d2 0" using regions_ok_mono [OF d2(1)] by simp
    from opened_fail [OF that this d2(4,5), of env p s] show ?thesis using h by simp
  qed
  obtain fd sys where o: "metal_open os (Some (lv_dev_path d2)) False (dv_sys (held d (dv_irq s) s)) = (fd, sys)" by fastforce
  note f = file_opened [OF assms(2) o]
  let ?d3 = "d2\<lparr>lv_fd := fd\<rparr>"
  have tail: "opened env p d0 s (do {
       (ldev3, sys1) \<leftarrow> uio_regions os env 32 0 0 ?d3 sys;
       (ldev4, s3) \<leftarrow> uio_irq env p ldev3 ((held d (dv_irq s) s)\<lparr>dv_sys := sys1\<rparr>);
       Some (0, ldev4, s3)
     })" if "0 \<le> fd"
  proof -
    have sys: "sys = dv_sys (held ?d3 (dv_irq s) s)" "(held d (dv_irq s) s)\<lparr>dv_sys := x\<rparr> = (held ?d3 (dv_irq s) s)\<lparr>dv_sys := x\<rparr>" for x
      using f that d2(3) unfolding h [symmetric] by (simp_all add: held_def only_if_def device_maps_def)
    have "regions_ok ?d3 32" "device_maps ?d3 = []" using d2(1,2) by (simp_all add: regions_ok_def device_maps_def)
    then show ?thesis unfolding sys using f that d2(4,5) by (intro open_end [OF assms(1,4)]) simp_all
  qed
  show ?thesis
  proof (cases "r = 0 \<and> sf_is_dir env (lv_cls_path d2) \<and> wait_access env (lv_dev_path d2) 1000 0 \<and> 0 \<le> fd")
    case True
    then show ?thesis using Inr p o tail by simp
  next
    case False
    then show ?thesis using Inr p o f fail [of r] fail [of "- LX_ENODEV"] fail [of fd] by auto
  qed
qed

lemma fresh_device_facts:
  "regions_ok (fresh_device bus name ldrv) 32" "device_maps (fresh_device bus name ldrv) = []" "\<not> lv_override (fresh_device bus name ldrv)"
  "lv_sdev (fresh_device bus name ldrv) = None" "lv_ldrv (fresh_device bus name ldrv) = ldrv" "lv_dev_name (fresh_device bus name ldrv) = take (PATH_MAX - 1) name"
  by (simp_all add: fresh_device_def regions_ok_def device_maps_def Let_def)

definition kernel_ok :: "linux_os \<Rightarrow> sysfs_env \<Rightarrow> bool" where
  "kernel_ok os env \<longleftrightarrow> os_sane os \<and> open_sane os \<and> env_sane env"

lemma dev_open_opened:
  assumes "kernel_ok os env" and "length (li_devs (dv_irq s)) = MAX_IRQS"
    and d0: "regions_ok d0 32" "device_maps d0 = []" "\<not> lv_override d0" "lv_sdev d0 = None"
    and found: "found = sf_open_device env (lb_bus_name lbus) (lv_dev_name d0)"
  shows "\<exists>b e d. metal_uio_dev_open os env lbus p d0 s
        = Some (e, d, held d (if e = 0 then irq_after env p d (dv_irq s) else dv_irq s) (driver_set b s)) \<and> regions_ok d 0
    \<and> lv_dev_name d = lv_dev_name d0 \<and> lv_ldrv d = lv_ldrv d0 \<and> (e = 0 \<longrightarrow> 0 \<le> lv_fd d \<and> lv_fd d < int MAX_IRQS)
    \<and> rebinds found {ld_drv_name (lv_ldrv d0)} (dv_driver s) b \<and> (e = 0 \<longrightarrow> bound_to found (ld_drv_name (lv_ldrv d0)) b)"
proof -
  let ?d = "d0\<lparr>lv_fd := - 1, lv_irq_info := NO_IRQ\<rparr>"
  have d: "regions_ok ?d 32" "device_maps ?d = []" using d0 by (simp_all add: regions_ok_def device_maps_def)
  show ?thesis
  proof (cases found)
    case None
    have "held (?d\<lparr>lv_sdev := None\<rparr>) (dv_irq s) s = s" using d(2) d0(3) by (simp add: held_def only_if_def device_maps_def)
    then have "metal_uio_dev_open os env lbus p d0 s = Some (- LX_ENODEV, ?d\<lparr>lv_sdev := None\<rparr>, held (?d\<lparr>lv_sdev := None\<rparr>) (dv_irq s) s)"
      using None found by (simp add: metal_uio_dev_open_def Let_def)
    then show ?thesis using d
      by (intro exI [of _ "dv_driver s"] exI [of _ "- LX_ENODEV"] exI [of _ "?d\<lparr>lv_sdev := None\<rparr>"]) (simp add: regions_ok_def rebinds_def)
  next
    case (Some path)
    let ?sdev = "\<lparr>sd_path = path, sd_driver_name = dv_driver s path\<rparr>"
    let ?d1 = "?d\<lparr>lv_sdev := Some ?sdev\<rparr>"
    have h: "s\<lparr>dv_handles := lv_dev_name d0 # dv_handles s\<rparr> = held ?d1 (dv_irq s) s"
      using d(2) d0(3) by (simp add: held_def only_if_def device_maps_def)
    obtain r d2 s2 where run: "metal_uio_dev_bind env ?sdev ?d1 (lv_ldrv d0) (held ?d1 (dv_irq s) s) = (r, d2, s2)" by (metis prod_cases3)
    obtain b where s2: "s2 = held d2 (dv_irq s) (driver_set b s)" and "d2 = ?d1 \<or> d2 = ?d1\<lparr>lv_override := True\<rparr>"
      and b: "rebinds found {ld_drv_name (lv_ldrv d0)} (dv_driver s) b" "r = 0 \<longrightarrow> bound_to found (ld_drv_name (lv_ldrv d0)) b"
      using bind_held [OF _ run] d0(3) assms(1) Some by (auto simp: kernel_ok_def)
    then have d2: "regions_ok d2 32" "device_maps d2 = []" "lv_fd d2 = - 1" "lv_dev_name d2 = lv_dev_name d0" "lv_ldrv d2 = lv_ldrv d0"
      using d by (auto simp: regions_ok_def device_maps_def)
    have fail: "opened env p d0 (driver_set b s) (Some (e, d2, s2))" if "e \<noteq> 0" for e
      using opened_fail [OF that _ d2(4,5), of env p "driver_set b s"] regions_ok_mono [OF d2(1)] s2 by simp
    have "opened env p d0 (driver_set b s) (metal_uio_dev_open os env lbus p d0 s)
        \<and> (r \<noteq> 0 \<longrightarrow> metal_uio_dev_open os env lbus p d0 s = Some (r, d2, s2))"
    proof (cases "r = 0 \<and> length (path @ ''/uio'') < SYSFS_PATH_MAX")
      case False
      then show ?thesis using Some found h run fail [of r] fail [of "- LX_EOVERFLOW"] by (auto simp: metal_uio_dev_open_def Let_def)
    next
      case True
      then show ?thesis
        using Some found h run s2 open_middle [OF _ _ _ _ d2, of os env "driver_set b s" p "sd_path ?sdev @ ''/uio''", unfolded driver_set_fields] assms(1,2)
        by (simp add: metal_uio_dev_open_def kernel_ok_def Let_def)
    qed
    then show ?thesis using b unfolding opened_def by (elim conjE exE) (rule exI [of _ b], auto)
  qed
qed

text \<open>The two ways the loop over the drivers ends.\<close>

definition opened_with ::
  "sysfs_env \<Rightarrow> addr \<Rightarrow> string option \<Rightarrow> linux_driver list \<Rightarrow> device_state \<Rightarrow> (linux_device option \<times> device_state) option \<Rightarrow> bool" where
  "opened_with env p found ldrvs s r \<longleftrightarrow> (\<exists>b. rebinds found (ld_drv_name ` set ldrvs) (dv_driver s) b
     \<and> (r = Some (None, driver_set b s)
      \<or> (\<exists>d. r = Some (Some d, held d (irq_after env p d (dv_irq s)) (driver_set b s)) \<and> regions_ok d 0
           \<and> 0 \<le> lv_fd d \<and> lv_fd d < int MAX_IRQS \<and> lv_ldrv d \<in> set ldrvs \<and> ld_ops (lv_ldrv d)
           \<and> bound_to found (ld_drv_name (lv_ldrv d)) b)))"

lemma opened_with_more:
  assumes "opened_with env p found ldrvs (driver_set b1 s) r" and "rebinds found {ld_drv_name ldrv} (dv_driver s) b1"
  shows "opened_with env p found (ldrv # ldrvs) s r"
proof -
  obtain b where b: "rebinds found (ld_drv_name ` set ldrvs) b1 b" and r: "r = Some (None, driver_set b s)
      \<or> (\<exists>d. r = Some (Some d, held d (irq_after env p d (dv_irq s)) (driver_set b s)) \<and> regions_ok d 0
           \<and> 0 \<le> lv_fd d \<and> lv_fd d < int MAX_IRQS \<and> lv_ldrv d \<in> set ldrvs \<and> ld_ops (lv_ldrv d)
           \<and> bound_to found (ld_drv_name (lv_ldrv d)) b)"
    using assms(1) unfolding opened_with_def driver_set_fields by blast
  have "rebinds found (ld_drv_name ` set (ldrv # ldrvs)) (dv_driver s) b"
    using rebinds_trans [OF assms(2) b] by simp
  with r show ?thesis unfolding opened_with_def by (intro exI [of _ b]) auto
qed

lemma open_with_total:
  assumes "kernel_ok os env" and "length (li_devs (dv_irq s)) = MAX_IRQS"
    and found: "found = sf_open_device env (lb_bus_name lbus) (take (PATH_MAX - 1) name)"
  shows "opened_with env p found ldrvs s (open_with os env lbus bus p name ldrvs s)"
  using assms(2)
proof (induction ldrvs arbitrary: s)
  case (Nil s)
  then show ?case unfolding opened_with_def by (intro exI [of _ "dv_driver s"]) (simp add: rebinds_def)
next
  case (Cons ldrv ldrvs s)
  have IH: "opened_with env p found ldrvs (driver_set b s) (open_with os env lbus bus p name ldrvs (driver_set b s))" for b
    using Cons.IH Cons.prems by simp
  show ?case
  proof (cases "ld_sdrv ldrv \<and> ld_ops ldrv")
    case False
    then show ?thesis using opened_with_more [OF IH [of "dv_driver s"]] by (simp add: rebinds_def)
  next
    case True
    let ?d0 = "fresh_device bus name ldrv"
    obtain e d b where o: "metal_uio_dev_open os env lbus p ?d0 s = Some (e, d, held d (if e = 0 then irq_after env p d (dv_irq s) else dv_irq s) (driver_set b s))"
      "regions_ok d 0" "lv_ldrv d = ldrv" "e = 0 \<longrightarrow> 0 \<le> lv_fd d \<and> lv_fd d < int MAX_IRQS"
      and b: "rebinds found {ld_drv_name ldrv} (dv_driver s) b" "e = 0 \<longrightarrow> bound_to found (ld_drv_name ldrv) b"
      using dev_open_opened [OF assms(1) Cons.prems fresh_device_facts(1-4), of found lbus bus name ldrv p] found
      unfolding fresh_device_facts(5,6) by blast
    show ?thesis
    proof (cases "e = 0")
      case z: True
      then show ?thesis
        using True o b rebinds_mono [OF b(1)] unfolding opened_with_def by (intro exI [of _ b]) auto
    next
      case False
      then have "open_with os env lbus bus p name (ldrv # ldrvs) s = open_with os env lbus bus p name ldrvs (driver_set b s)"
        using True o(1) close_held [OF o(2), of "dv_irq s" "driver_set b s"] by (simp add: driver_set_def)
      then show ?thesis using opened_with_more [OF IH b(1)] by simp
    qed
  qed
qed

lemma open_close_ok:
  assumes "kernel_ok os env" "length (li_devs (dv_irq s)) = MAX_IRQS" and "to_linux_bus bus s = Some lbus"
    and "ms_buses (ls_common (dv_sys s)) bus = Some b" "dll (ms_nodes (ls_common (dv_sys s))) (mb_devices b) xs"
    and "ldev \<noteq> NULL" "ldev \<notin> set (mb_devices b # xs)" "dv_devices s ldev = None" "ms_devices (ls_common (dv_sys s)) ldev = None"
    and "found = sf_open_device env (lb_bus_name lbus) (take (PATH_MAX - 1) name)"
  shows "\<exists>bs. rebinds found (ld_drv_name ` set (lb_drivers lbus)) (dv_driver s) bs
    \<and> (metal_linux_dev_open os env ldev bus name s = Some (- LX_ENODEV, None, driver_set bs s)
    \<or> (\<exists>d s1 s2. metal_linux_dev_open os env ldev bus name s = Some (0, Some ldev, s1) \<and> dv_devices s1 ldev = Some d \<and> 0 \<le> lv_fd d \<and> lv_fd d < int MAX_IRQS
         \<and> dll (ms_nodes (ls_common (dv_sys s1))) (mb_devices b) (xs @ [ldev]) \<and> dv_driver s1 = bs \<and> bound_to found (ld_drv_name (lv_ldrv d)) bs
         \<and> metal_linux_dev_close ldev s1 = Some s2
         \<and> s2 = driver_set bs (s\<lparr>dv_irq := irq_after env ldev d (dv_irq s), dv_sys := (dv_sys s)\<lparr>ls_common := ls_common (dv_sys s2)\<rparr>\<rparr>)
         \<and> ls_common (dv_sys s2) = (ls_common (dv_sys s))\<lparr>ms_nodes := ms_nodes (ls_common (dv_sys s2))\<rparr>
         \<and> dll (ms_nodes (ls_common (dv_sys s2))) (mb_devices b) xs))"
proof -
  let ?c = "ls_common (dv_sys s)"
  obtain bs where bs: "rebinds found (ld_drv_name ` set (lb_drivers lbus)) (dv_driver s) bs"
    and "open_with os env lbus bus ldev name (lb_drivers lbus) s = Some (None, driver_set bs s)
      \<or> (\<exists>d. open_with os env lbus bus ldev name (lb_drivers lbus) s = Some (Some d, held d (irq_after env ldev d (dv_irq s)) (driver_set bs s))
        \<and> regions_ok d 0 \<and> 0 \<le> lv_fd d \<and> lv_fd d < int MAX_IRQS \<and> ld_ops (lv_ldrv d) \<and> bound_to found (ld_drv_name (lv_ldrv d)) bs)"
    using open_with_total [OF assms(1,2,10), of ldev "lb_drivers lbus" bus] unfolding opened_with_def by blast
  then consider "open_with os env lbus bus ldev name (lb_drivers lbus) s = Some (None, driver_set bs s)"
    | d where "open_with os env lbus bus ldev name (lb_drivers lbus) s = Some (Some d, held d (irq_after env ldev d (dv_irq s)) (driver_set bs s))"
      "regions_ok d 0" "0 \<le> lv_fd d" "lv_fd d < int MAX_IRQS" "ld_ops (lv_ldrv d)" "bound_to found (ld_drv_name (lv_ldrv d)) bs"
    by blast
  then show ?thesis
  proof cases
    case 1
    then show ?thesis using assms(3,6) bs by (intro exI [of _ bs]) (simp add: metal_linux_dev_open_def)
  next
    case (2 d)
    let ?d1 = "d\<lparr>lv_device := (lv_device d)\<lparr>md_name := Some (lv_dev_name d)\<rparr>\<rparr>"
    let ?irq = "irq_after env ldev d (dv_irq s)"
    let ?h1 = "metal_list_add_tail (ms_nodes ?c) (mb_devices b) ldev"
    let ?c1 = "?c\<lparr>ms_devices := (ms_devices ?c)(ldev \<mapsto> lv_device ?d1), ms_nodes := ?h1\<rparr>"
    let ?s0 = "driver_set bs (s\<lparr>dv_devices := (dv_devices s)(ldev \<mapsto> ?d1), dv_sys := (dv_sys s)\<lparr>ls_common := ?c1\<rparr>\<rparr>)"
    let ?s1 = "held ?d1 ?irq ?s0"
    let ?s2 = "driver_set bs (s\<lparr>dv_irq := ?irq, dv_sys := (dv_sys s)\<lparr>ls_common := ?c\<lparr>ms_nodes := metal_list_del ?h1 ldev\<rparr>\<rparr>\<rparr>)"
    have fd: "lv_fd ?d1 = lv_fd d" "irq_after env ldev ?d1 = irq_after env ldev d" "regions_ok ?d1 0"
      using 2(2) by (simp_all add: irq_after_def regions_ok_def fun_eq_iff)
    have "metal_linux_dev_open os env ldev bus name s = Some (0, Some ldev, ?s1)"
      using 2(1) assms(3,4,6) by (simp add: metal_linux_dev_open_def held_def device_maps_def Let_def) (simp add: driver_set_def)
    moreover have dev: "dv_devices ?s1 ldev = Some ?d1" "ls_common (dv_sys ?s1) = ?c1" "dv_driver ?s1 = bs" by (simp_all add: held_def)
    moreover have l1: "dll ?h1 (mb_devices b) (xs @ [ldev])"
      using metal_lists.add_tail_rep assms(5-7) by auto
    moreover have "metal_linux_dev_close ldev ?s1 = Some ?s2"
      using 2(5) dev close_held [OF fd(3), of ?irq ?s0] assms(8,9)
      by (simp add: metal_linux_dev_close_def fun_upd_idem driver_set_def)
    moreover have "dll (metal_list_del ?h1 ldev) (mb_devices b) xs"
      using metal_lists.del_rep [OF l1, of ldev] assms(7) by (simp add: remove1_append)
    ultimately show ?thesis
      using 2(3,4,6) fd(2) bs by (intro exI [of _ bs] conjI disjI2 exI [of _ ?d1] exI [of _ ?s1] exI [of _ ?s2]) simp_all
  qed
qed

section \<open>Theorems\<close>

text \<open>
  C29: opening a device returns. When no driver can open it everything is as before, what earlier steps
  acquired included, except that a device without a driver may now be bound to one of the drivers of the bus. When it succeeds the device is
  at the end of the list of its bus and bound to the driver that opened it; closing it gives back the descriptors, the
  mappings, the handle and the driver override and takes the device out of the list, but leaves the device bound: the bindings are those
  after the open.
\<close>

theorem device_open_close:
  assumes "kernel_ok os env" "length (li_devs (dv_irq s)) = MAX_IRQS" and "to_linux_bus bus s = Some lbus"
    and "ms_buses (ls_common (dv_sys s)) bus = Some b" "dll (ms_nodes (ls_common (dv_sys s))) (mb_devices b) xs"
    and "ldev \<noteq> NULL" "ldev \<notin> set (mb_devices b # xs)" "dv_devices s ldev = None" "ms_devices (ls_common (dv_sys s)) ldev = None"
    and "found = sf_open_device env (lb_bus_name lbus) (take (PATH_MAX - 1) name)"
  shows "\<exists>bs. rebinds found (ld_drv_name ` set (lb_drivers lbus)) (dv_driver s) bs
    \<and> (metal_linux_dev_open os env ldev bus name s = Some (- LX_ENODEV, None, s\<lparr>dv_driver := bs\<rparr>)
      \<or> (\<exists>s1 s2 d. metal_linux_dev_open os env ldev bus name s = Some (0, Some ldev, s1) \<and> dv_devices s1 ldev = Some d
         \<and> dll (ms_nodes (ls_common (dv_sys s1))) (mb_devices b) (xs @ [ldev])
         \<and> dv_driver s1 = bs \<and> bound_to found (ld_drv_name (lv_ldrv d)) bs
         \<and> metal_linux_dev_close ldev s1 = Some s2 \<and> dll (ms_nodes (ls_common (dv_sys s2))) (mb_devices b) xs
         \<and> ls_fds (dv_sys s2) = ls_fds (dv_sys s) \<and> ls_maps (dv_sys s2) = ls_maps (dv_sys s) \<and> dv_handles s2 = dv_handles s
         \<and> dv_overrides s2 = dv_overrides s \<and> dv_devices s2 = dv_devices s \<and> dv_driver s2 = bs))"
proof -
  obtain bs where bs: "rebinds found (ld_drv_name ` set (lb_drivers lbus)) (dv_driver s) bs"
    and run: "metal_linux_dev_open os env ldev bus name s = Some (- LX_ENODEV, None, driver_set bs s)
      \<or> (\<exists>d s1 s2. metal_linux_dev_open os env ldev bus name s = Some (0, Some ldev, s1) \<and> dv_devices s1 ldev = Some d
         \<and> dll (ms_nodes (ls_common (dv_sys s1))) (mb_devices b) (xs @ [ldev]) \<and> dv_driver s1 = bs \<and> bound_to found (ld_drv_name (lv_ldrv d)) bs
         \<and> metal_linux_dev_close ldev s1 = Some s2
         \<and> s2 = driver_set bs (s\<lparr>dv_irq := irq_after env ldev d (dv_irq s), dv_sys := (dv_sys s)\<lparr>ls_common := ls_common (dv_sys s2)\<rparr>\<rparr>)
         \<and> dll (ms_nodes (ls_common (dv_sys s2))) (mb_devices b) xs)"
    using open_close_ok [OF assms] by blast
  have same: "ls_fds (dv_sys s2) = ls_fds (dv_sys s) \<and> ls_maps (dv_sys s2) = ls_maps (dv_sys s) \<and> dv_handles s2 = dv_handles s
      \<and> dv_overrides s2 = dv_overrides s \<and> dv_devices s2 = dv_devices s \<and> dv_driver s2 = bs"
    if "s2 = driver_set bs (s\<lparr>dv_irq := irq, dv_sys := (dv_sys s)\<lparr>ls_common := c\<rparr>\<rparr>)" for s2 irq c
    using that by simp
  show ?thesis using bs run same unfolding driver_set_def by (intro exI [of _ bs]) blast
qed

text \<open>
  Closing a device does not undo the registration of its interrupt: the table of the interrupt thread keeps the address
  of the freed device under the number of a descriptor that the next file to be opened gets.
\<close>

theorem closed_device_keeps_irq:
  assumes "kernel_ok os env" "length (li_devs (dv_irq s)) = MAX_IRQS" and "to_linux_bus bus s = Some lbus"
    and "ms_buses (ls_common (dv_sys s)) bus = Some b" "dll (ms_nodes (ls_common (dv_sys s))) (mb_devices b) xs"
    and "ldev \<noteq> NULL" "ldev \<notin> set (mb_devices b # xs)" "dv_devices s ldev = None" "ms_devices (ls_common (dv_sys s)) ldev = None"
    and "metal_linux_dev_open os env ldev bus name s = Some (0, Some ldev, s1)" "dv_devices s1 ldev = Some d" "0 < sf_write_irq env (lv_fd d)"
  shows "\<exists>s2. metal_linux_dev_close ldev s1 = Some s2 \<and> dv_devices s2 ldev = None \<and> li_devs (dv_irq s2) ! nat (lv_fd d) = ldev"
proof -
  obtain s2 bs where c: "metal_linux_dev_close ldev s1 = Some s2" "0 \<le> lv_fd d" "lv_fd d < int MAX_IRQS"
    and s2: "s2 = driver_set bs (s\<lparr>dv_irq := irq_after env ldev d (dv_irq s), dv_sys := (dv_sys s)\<lparr>ls_common := ls_common (dv_sys s2)\<rparr>\<rparr>)"
    using open_close_ok [OF assms(1-9) refl, of name] assms(10,11) by auto
  have "dv_irq s2 = irq_after env ldev d (dv_irq s)" "dv_devices s2 ldev = None" using assms(8) by (subst s2, simp)+
  then show ?thesis using c assms(2,12) by (simp add: irq_after_def nat_less_iff)
qed

lemma in_region_iff:
  assumes "0 \<le> sg_len sg" "unat (sg_virt sg) + nat (sg_len sg) < 2 ^ 64" and "unat (io_virt io) + unat (io_size io) < 2 ^ 64"
  shows "in_region sg io \<longleftrightarrow> unat (io_virt io) \<le> unat (sg_virt sg) \<and> unat (sg_virt sg) + nat (sg_len sg) \<le> unat (io_virt io) + unat (io_size io)"
proof -
  have "nat (sg_len sg) < 2 ^ 64" using assms(2) by simp
  then have l: "unat (word_of_int (sg_len sg) :: u64) = nat (sg_len sg)"
    using assms(1) by (simp add: unsigned_of_int take_bit_int_eq_self nat_less_iff)
  show ?thesis using assms(2,3) l by (simp add: in_region_def word_le_nat_alt unat_word_ariths(1))
qed

lemma to_put_bus [simp]: "to_linux_bus bus (put_bus bus lbus s) = Some lbus" "dv_sys (put_bus bus lbus s) = dv_sys s"
  by (simp_all add: to_linux_bus_def put_bus_def update_conv')

lemma probe_driver_sdrv: "ld_sdrv (snd (metal_linux_probe_driver env lbus d)) \<longleftrightarrow> fst (metal_linux_probe_driver env lbus d) = 0"
  by (simp add: metal_linux_probe_driver_def Let_def)

text \<open>
  Probing a bus of sysfs registers it when one of its drivers is there or could be loaded, each driver
  marked accordingly; otherwise the registry is as before and every driver of the bus is closed.
\<close>

theorem probe_registers_bus:
  assumes "to_linux_bus bus s = Some lbus" "sf_open_bus env (lb_bus_name lbus)" "lb_bus_name lbus \<noteq> []"
    and "buses_ok (ls_common (dv_sys s)) xs" "bus \<noteq> NULL" "bus \<notin> set (BUS_LIST # xs)" "bus + 8 \<notin> set (BUS_LIST # bus # xs)"
    and "available = map (\<lambda>d. fst (metal_linux_probe_driver env (lbus\<lparr>lb_sbus := True\<rparr>) d) = 0) (lb_drivers lbus)"
  shows "\<exists>s' lbus'. metal_linux_probe_bus env bus s = Some (if True \<in> set available then 0 else - LX_ENODEV, s')
    \<and> to_linux_bus bus s' = Some lbus' \<and> map ld_sdrv (lb_drivers lbus') = (if True \<in> set available then available else map (\<lambda>_. False) available)
    \<and> buses_ok (ls_common (dv_sys s')) (if True \<in> set available then xs @ [bus] else xs)"
proof -
  let ?l1 = "lbus\<lparr>lb_sbus := True\<rparr>"
  let ?probed = "map (metal_linux_probe_driver env ?l1) (lb_drivers lbus)"
  let ?l2 = "?l1\<lparr>lb_drivers := map snd ?probed\<rparr>"
  have av: "(True \<in> set available) = (\<not> list_all (\<lambda>(ret, _). ret \<noteq> 0) ?probed)"
    using assms(8) by (auto simp: list_all_iff case_prod_beta)
  have sd: "map ld_sdrv (map snd ?probed) = available" using assms(8) by (simp add: probe_driver_sdrv)
  show ?thesis
  proof (cases "True \<in> set available")
    case False
    then show ?thesis
      using assms(1,2,4) av assms(8) by (simp add: metal_linux_probe_bus_def metal_linux_bus_close_def Let_def)
  next
    case True
    define b where "b = \<lparr>mb_name = Some (lb_bus_name lbus), mb_ops = \<lparr>bo_bus_close = LINUX_BUS_CLOSE, bo_dev_open = 0x308, bo_dev_close = 0x310,
      bo_dev_irq_ack = 0x318, bo_dev_dma_map = 0x320, bo_dev_dma_unmap = 0x328\<rparr>, mb_devices = bus + 8\<rparr>"
    let ?c = "(ls_common (dv_sys s))\<lparr>ms_buses := (ms_buses (ls_common (dv_sys s)))(bus \<mapsto> b)\<rparr>"
    have ok: "buses_ok ?c xs" using assms(4,6) by (auto simp: buses_ok_def)
    have fresh: "bus_fresh ?c xs bus b (lb_bus_name lbus)" using assms(3,5-7) by (simp add: bus_fresh_def b_def)
    let ?c1 = "?c\<lparr>ms_nodes := metal_list_add_tail (metal_list_init (ms_nodes ?c) (mb_devices b)) BUS_LIST bus\<rparr>"
    have reg: "metal_bus_register bus ?c = Some (0, ?c1)"
      using bus_register_eq [OF ok] fresh by (simp add: bus_fresh_def)
    have "metal_linux_probe_bus env bus s = Some (0, (put_bus bus ?l2 s)\<lparr>dv_sys := (dv_sys s)\<lparr>ls_common := ?c1\<rparr>\<rparr>)"
      using assms(1,2) True av reg by (simp add: metal_linux_probe_bus_def metal_linux_register_bus_def Let_def b_def)
    moreover have "to_linux_bus bus ((put_bus bus ?l2 s)\<lparr>dv_sys := (dv_sys s)\<lparr>ls_common := ?c1\<rparr>\<rparr>) = Some ?l2"
      by (simp add: to_linux_bus_def put_bus_def update_conv')
    ultimately show ?thesis using True sd bus_registered [OF ok fresh] by simp
  qed
qed

text \<open>
  Mapping for DMA accepts a list of segments exactly when each lies in a region of the device, as ranges of
  addresses, and hands the list back unchanged.
\<close>

theorem uio_dma_map_checks:
  assumes "list_all (\<lambda>sg. 0 \<le> sg_len sg \<and> unat (sg_virt sg) + nat (sg_len sg) < 2 ^ 64) sgs"
    and "regions = take (unat (md_num_regions (lv_device d))) (md_regions (lv_device d))"
    and "list_all (\<lambda>io. unat (io_virt io) + unat (io_size io) < 2 ^ 64) regions"
  shows "metal_uio_dev_dma_map d sgs (int (length sgs)) same =
    Some (if list_all (\<lambda>sg. list_ex (\<lambda>io. unat (io_virt io) \<le> unat (sg_virt sg)
             \<and> unat (sg_virt sg) + nat (sg_len sg) \<le> unat (io_virt io) + unat (io_size io)) regions) sgs
          then (int (length sgs), Some sgs) else (- LX_EINVAL, None))"
proof -
  have "list_all (\<lambda>sg. list_ex (in_region sg) regions) sgs \<longleftrightarrow> list_all (\<lambda>sg. list_ex (\<lambda>io. unat (io_virt io) \<le> unat (sg_virt sg)
      \<and> unat (sg_virt sg) + nat (sg_len sg) \<le> unat (io_virt io) + unat (io_size io)) regions) sgs"
    using assms(1,3) in_region_iff by (fastforce simp: list_all_iff list_ex_iff)
  then show ?thesis using assms(2) by (simp add: metal_uio_dev_dma_map_def Let_def)
qed

section \<open>An example\<close>

definition demo_sysfs :: sysfs_env where
  "demo_sysfs = \<lparr>sf_open_bus = (\<lambda>b. True), sf_open_driver = (\<lambda>b d k. True),
     sf_open_device = (\<lambda>b d. Some (''/sys/devices/'' @ d)),
     sf_override_attr = (\<lambda>d. None), sf_bind_attr = (\<lambda>d. True), sf_write_override = (\<lambda>d v. (0, 0)), sf_write_bind = (\<lambda>d v. (0, 0)),
     sf_directory = (\<lambda>p. Inr [''uio0'']), sf_is_dir = (\<lambda>p. True), sf_attribute = (\<lambda>p. Inl 2), sf_access = (\<lambda>p i. True),
     sf_write_irq = (\<lambda>fd. 4), sf_read_irq = (\<lambda>fd. 4), sf_property = (\<lambda>p. Inl 2)\<rparr>"

definition demo_lbus :: linux_bus where
  "demo_lbus = \<lparr>lb_bus_name = ''platform'', lb_drivers = [(uio_driver ''uio_pdrv_genirq'')\<lparr>ld_sdrv := True\<rparr>], lb_sbus = True\<rparr>"

definition demo_metal_bus :: metal_bus where
  "demo_metal_bus = metal_generic_bus\<lparr>mb_name := Some ''platform'', mb_devices := 0x408\<rparr>"

definition demo_devices :: device_state where
  "demo_devices = \<lparr>dv_sys = demo_linux\<lparr>ls_common := demo_common\<lparr>ms_buses := [0x400 \<mapsto> demo_metal_bus]\<rparr>\<rparr>, dv_irq = demo_linux_irq,
     dv_buses = [(0x400, demo_lbus)], dv_devices = Map.empty, dv_handles = [], dv_overrides = [],
     dv_driver = (\<lambda>path. SYSFS_UNKNOWN)\<rparr>"

lemma demo_device_facts:
  "kernel_ok demo_kernel demo_sysfs" "length (li_devs (dv_irq demo_devices)) = MAX_IRQS" "to_linux_bus 0x400 demo_devices = Some demo_lbus"
  "ms_buses (ls_common (dv_sys demo_devices)) 0x400 = Some demo_metal_bus"
  "dll (ms_nodes (ls_common (dv_sys demo_devices))) (mb_devices demo_metal_bus) []"
  "(0x800 :: addr) \<noteq> NULL" "0x800 \<notin> set (mb_devices demo_metal_bus # [])" "dv_devices demo_devices 0x800 = None"
  "ms_devices (ls_common (dv_sys demo_devices)) 0x800 = None"
  using demo_facts(2) demo_linux_irq_facts(1)
  by (simp_all add: kernel_ok_def open_sane_def env_sane_def demo_kernel_def demo_sysfs_def demo_devices_def to_linux_bus_def
      demo_metal_bus_def dll_def demo_common_def lx_wf_def)

lemma wait_first: "sf_access env path i \<Longrightarrow> 0 < k \<Longrightarrow> wait_access env path k i"
  by (cases k) simp_all

lemma no_regions: "fst (metal_uio_read_map_attr env ldev i ''offset'') \<noteq> 0 \<Longrightarrow> uio_regions os env k i sz ldev s = Some (ldev, s)"
  by (cases k) (auto simp: Let_def split: prod.splits)

lemma demo_no_map: "fst (metal_uio_read_map_attr demo_sysfs ldev i name) \<noteq> 0"
  by (simp add: metal_uio_read_map_attr_def demo_sysfs_def Let_def)

lemma demo_sysfs_answers:
  "sf_open_device demo_sysfs b d = Some (''/sys/devices/'' @ d)" "sf_override_attr demo_sysfs d = None"
  "sf_bind_attr demo_sysfs d" "sf_write_override demo_sysfs d v = (0, 0)" "sf_write_bind demo_sysfs d v = (0, 0)" "sf_directory demo_sysfs p = Inr [''uio0'']"
  "sf_is_dir demo_sysfs p" "sf_access demo_sysfs p i" "sf_write_irq demo_sysfs fd = 4"
  by (simp_all add: demo_sysfs_def)

lemma demo_opens:
  "\<exists>s1 d. metal_linux_dev_open demo_kernel demo_sysfs 0x800 0x400 ''timer'' demo_devices = Some (0, Some 0x800, s1)
    \<and> dv_devices s1 0x800 = Some d \<and> lv_fd d = 5 \<and> ld_drv_name (lv_ldrv d) = ''uio_pdrv_genirq''"
proof -
  let ?ldrv = "(uio_driver ''uio_pdrv_genirq'')\<lparr>ld_sdrv := True\<rparr>"
  have "\<exists>d s1. metal_uio_dev_open demo_kernel demo_sysfs demo_lbus 0x800 (fresh_device 0x400 ''timer'' ?ldrv) demo_devices = Some (0, d, s1) \<and> lv_fd d = 5
      \<and> lv_ldrv d = ?ldrv
      \<and> ls_common (dv_sys s1) = ls_common (dv_sys demo_devices)"
    using demo_linux_irq_facts(1)
    by (simp add: metal_uio_dev_open_def demo_sysfs_answers metal_uio_dev_bind_def uio_paths_def wait_first metal_open_def demo_kernel_def
        no_regions [OF demo_no_map] uio_irq_def metal_linux_irq_register_dev_def lx_wf_def demo_devices_def fresh_device_def Let_def)
  then show ?thesis
    using demo_device_facts(3,4) by (auto simp: metal_linux_dev_open_def demo_lbus_def uio_driver_def Let_def)
qed

theorem device_open_close_witness:
  "\<exists>s1 s2. metal_linux_dev_open demo_kernel demo_sysfs 0x800 0x400 ''timer'' demo_devices = Some (0, Some 0x800, s1)
    \<and> metal_linux_dev_close 0x800 s1 = Some s2 \<and> ls_fds (dv_sys s2) = [4] \<and> ls_maps (dv_sys s2) = []
    \<and> dv_driver demo_devices ''/sys/devices/timer'' = SYSFS_UNKNOWN \<and> dv_driver s2 ''/sys/devices/timer'' = ''uio_pdrv_genirq''"
proof -
  have "dv_driver demo_devices ''/sys/devices/timer'' = SYSFS_UNKNOWN" "ls_fds (dv_sys demo_devices) = [4]" "ls_maps (dv_sys demo_devices) = []"
    by (simp_all add: demo_devices_def demo_linux_def)
  moreover have "sf_open_device demo_sysfs b (take (PATH_MAX - 1) ''timer'') = Some ''/sys/devices/timer''" for b
    by (simp add: demo_sysfs_def)
  ultimately show ?thesis
    using device_open_close [OF demo_device_facts refl, of "''timer''"] demo_opens by (auto simp: bound_to_def)
qed

theorem closed_device_keeps_irq_witness:
  "\<exists>s1 s2. metal_linux_dev_open demo_kernel demo_sysfs 0x800 0x400 ''timer'' demo_devices = Some (0, Some 0x800, s1)
    \<and> metal_linux_dev_close 0x800 s1 = Some s2 \<and> dv_devices s2 0x800 = None \<and> li_devs (dv_irq s2) ! 5 = 0x800"
proof -
  obtain s1 d where o: "metal_linux_dev_open demo_kernel demo_sysfs 0x800 0x400 ''timer'' demo_devices = Some (0, Some 0x800, s1)"
    "dv_devices s1 0x800 = Some d" "lv_fd d = 5"
    using demo_opens by blast
  have "0 < sf_write_irq demo_sysfs (lv_fd d)" by (simp add: demo_sysfs_def)
  with closed_device_keeps_irq [OF demo_device_facts o(1,2)] o show ?thesis by auto
qed

theorem probe_registers_bus_witness:
  "\<exists>s' lbus'. metal_linux_probe_bus demo_sysfs 0x400 demo_devices = Some (0, s') \<and> to_linux_bus 0x400 s' = Some lbus'
    \<and> map ld_sdrv (lb_drivers lbus') = [True] \<and> buses_ok (ls_common (dv_sys s')) [0x400]"
proof -
  have "buses_ok (ls_common (dv_sys demo_devices)) []" by (simp add: buses_ok_def dll_def demo_devices_def demo_common_def)
  then show ?thesis
    using probe_registers_bus [OF demo_device_facts(3), of demo_sysfs "[]" "[True]"]
    by (simp add: demo_lbus_def demo_sysfs_def metal_linux_probe_driver_def)
qed

theorem uio_dma_map_checks_witness:
  "metal_uio_dev_dma_map (fresh_device 0x400 ''timer'' (uio_driver ''x'')) [\<lparr>sg_virt = 0x1000, sg_io = NULL, sg_len = 4\<rparr>] 1 False = Some (- LX_EINVAL, None)"
  using uio_dma_map_checks [of "[\<lparr>sg_virt = 0x1000, sg_io = NULL, sg_len = 4\<rparr>]" "[]" "fresh_device 0x400 ''timer'' (uio_driver ''x'')" False]
  by (simp add: fresh_device_def Let_def)

end
