(* ===== verification/Spec2Isabelle.thy ===== *)
theory Spec2Isabelle
  imports Prelude Metal_Util Metal_List Metal_Io Vring Virtqueue Virtqueue_Driver Vq_Link Vq_Notify
    Virtio Rpmsg Rpmsg_Ept Rpmsg_Virtio Rpmsg_Transport Rpmsg_Send Rpmsg_Recv Rpmsg_End
    Rproc_Virtio Remoteproc Rproc_Laws Elf_Loader Elf_Laws Rproc_Load Rproc_Load_Laws
    Virtio_Mmio Metal_Irq Metal_Device Rpmsg_Rpc Rpmsg_Retarget
    Rpmsg_Init Openamp_Node Openamp_Dev
    Sysfs_Dlist Sysfs_Sort Sysfs_List Metal_Mutex Metal_Cond Linux_Irq Linux_Shmem Linux_Device
begin

text \<open>
  A verification of the OpenAMP core of this repository: the parts of libmetal and open-amp that let
  two processors exchange messages through shared memory and that load and control a remote one.

  \<^bold>\<open>The program.\<close> At the bottom is libmetal (\<^verbatim>\<open>src/openamp/libmetal/lib\<close>): bitmaps and bit searches,
  intrusive lists, and I/O regions that translate between offsets, physical and virtual addresses.
  On them stands the virtio layer (\<^verbatim>\<open>src/openamp/open-amp/lib/virtio\<close>): the ring shared by a driver and a
  device, the virtqueue operations of both sides, and virtio devices with a dispatch table. The
  rpmsg layer (\<^verbatim>\<open>lib/rpmsg\<close>) multiplexes endpoints with addresses over a pair of virtqueues. The
  remoteproc layer (\<^verbatim>\<open>lib/remoteproc\<close>) keeps the life cycle of a remote processor, translates its
  addresses, parses its resource table, makes virtio devices from the table, and loads ELF firmware.
  A second transport drives memory-mapped virtio devices (\<^verbatim>\<open>lib/virtio_mmio\<close>). On rpmsg stand two services:
  remote procedure calls (\<^verbatim>\<open>lib/service/rpmsg/rpc\<close>) and the proxy that redirects the system calls of a
  remote to the host (\<^verbatim>\<open>lib/proxy\<close>). libmetal also keeps registries of buses, devices, shared memory and
  interrupt controllers. On top is the application layer of this repository (\<^verbatim>\<open>src/operation_interface\<close>,
  \<^verbatim>\<open>src/openamp_demo\<close>): it brings up the second processor over a kernel driver, lays out the shared
  memory, polls for messages, and keeps a registry of named nodes over rpmsg endpoints.

  \<^bold>\<open>Conventions.\<close> Machine integers are words of their width, so that wrap-around is the code's; C \<open>int\<close>
  results and error codes are \<open>int\<close>. A pointer is a 64-bit address and NULL is 0; memory is a function
  from addresses to bytes and multi-byte accesses are little-endian. A structure is a record, an
  operation a function from the state to the result and the new state, in the option monad: \<open>None\<close> is
  undefined behaviour (an access out of bounds, a NULL dereference), a failed assertion, a
  lock taken twice, or a loop that does not end. Loops that may not end are \<open>partial_function\<close>s;
  the others are recursive functions with a termination proof. Callbacks of the application, the
  dispatch table of a transport, the platform's operations, the image store, the allocator and the
  build configuration are parameters; what a theorem needs of them is a named hypothesis.

  \<^bold>\<open>Theories, in the order of the layers.\<close>

  \<^item> \<open>Prelude\<close>: words, the option monad, arrays, memory, little-endian encoding, the collection
    \<open>opt_simps\<close>. No code is modelled here.
  \<^item> \<open>Metal_Util\<close> (\<^verbatim>\<open>utilities.h\<close> and \<^verbatim>\<open>utils/utilities.c\<close>): bitmaps, bit searches, rounding, \<open>safe_strcpy\<close>. The
    locale of bit sets is interpreted on the bitmap operations; the search finds a clear bit if there
    is one, and otherwise returns a bit that is set; the string copy writes a byte too many.
  \<^item> \<open>Metal_List\<close> (\<^verbatim>\<open>list.h\<close>): the doubly linked list in a store of nodes represents a HOL list.
  \<^item> \<open>Metal_Io\<close> (\<^verbatim>\<open>io.h\<close>, \<^verbatim>\<open>io.c\<close>): regions, translations, accesses. Block operations are \<open>memcpy\<close> and \<open>memset\<close>
    clipped to the region.
  \<^item> \<open>Vring\<close> (\<^verbatim>\<open>virtio_ring.h\<close>): shared structures, their layout in memory, and the event test, which is
    exact for every wrap-around of the indices.
  \<^item> \<open>Virtqueue\<close> (\<^verbatim>\<open>virtqueue.h\<close>, \<^verbatim>\<open>virtqueue.c\<close>): all operations of both sides. \<open>Virtqueue_Driver\<close>: the
    invariant of the driver (free chain and outstanding chains partition the descriptors), and what
    each operation does on every branch. \<open>Vq_Link\<close>: driver and device on the two ends of one queue, in
    every interleaving; each ring is a FIFO channel (locale \<open>fifo_channel\<close>), and the pair refines a
    specification with queues of requests. \<open>Vq_Notify\<close>: no wake-up is lost.
  \<^item> \<open>Virtio\<close> (\<^verbatim>\<open>virtio.h\<close>, \<^verbatim>\<open>virtio.c\<close>): the checked wrappers over the dispatch table, the creation of
    queues.
  \<^item> \<open>Rpmsg\<close> (\<^verbatim>\<open>rpmsg.c\<close>, \<^verbatim>\<open>rpmsg.h\<close>, \<^verbatim>\<open>rpmsg_internal.h\<close>): endpoints, addresses, reference counts, name service
    messages. \<open>Rpmsg_Ept\<close>: the bookkeeping invariant, and the laws of creation and destruction over any
    transport that leaves the bookkeeping alone (locale \<open>rpmsg_transport\<close>), while an address is free.
  \<^item> \<open>Rpmsg_Virtio\<close> (\<^verbatim>\<open>rpmsg_virtio.c\<close>, \<^verbatim>\<open>rpmsg_virtio.h\<close>): the transport over virtqueues, all operations.
    \<open>Rpmsg_Transport\<close>: it is a model of the locale, so addresses of endpoints are unique while one of the 128 is free, and an address in
    use is handed out when none is; buffers are released once and tile the pool. \<open>Rpmsg_Send\<close>: a send leaves the message in the next buffer and
    the buffer on the ring. \<open>Rpmsg_Recv\<close>: the receive callback of a device returns, hands every message
    to its endpoint and returns every buffer in order. \<open>Rpmsg_Init\<close>: after the initialisation of a driver
    every descriptor of the receive queue offers its own buffer of the pool, no address is taken and the name service
    listens. \<open>Rpmsg_End\<close>: both ends together; a
    message that is sent is what the callback of the endpoint on the other processor is given.
  \<^item> \<open>Rproc_Virtio\<close> (\<^verbatim>\<open>remoteproc_virtio.c\<close>): the dispatch table over a resource table; status and features
    are read back as they were written.
  \<^item> \<open>Remoteproc\<close> (\<^verbatim>\<open>remoteproc.c\<close> without loading, \<^verbatim>\<open>rsc_table_parser.c\<close>): life cycle, memories, ids, tables,
    virtio devices. \<open>Rproc_Laws\<close>: every sequence of life-cycle calls follows the documented automaton, except that
    a processor that is ready cannot be configured again; address translation, ids and searches in the table.
  \<^item> \<open>Elf_Loader\<close> (\<^verbatim>\<open>elf_loader.c\<close>, \<^verbatim>\<open>elf_loader.h\<close>) and \<open>Elf_Laws\<close>: headers of both classes, the loader's
    state machine; the segments come each once and in order.
  \<^item> \<open>Rproc_Load\<close> (\<open>remoteproc_load\<close>, \<open>remoteproc_load_noblock\<close>) and \<open>Rproc_Load_Laws\<close>: the header loop
    ends with all headers for every way of cutting the file into windows; a load puts all segments
    into the memory of the remote.
  \<^item> \<open>Virtio_Mmio\<close> (\<^verbatim>\<open>virtio_mmio_drv.c\<close>, \<^verbatim>\<open>virtio_mmio.h\<close>): the driver of a memory-mapped device. The reaction of
    the device to a register write is a parameter. Initialisation accepts exactly the legacy devices,
    features are negotiated, a queue is programmed into the device when the array of vrings has a free slot, which
    registering never leaves, an interrupt runs the callbacks of the queues.
  \<^item> \<open>Metal_Irq\<close> (\<^verbatim>\<open>irq.c\<close>, \<^verbatim>\<open>irq.h\<close>, \<^verbatim>\<open>irq_controller.h\<close>, \<^verbatim>\<open>softirq.c\<close>): controllers keep disjoint ranges of numbers, except
    when one asks for any range and the others are not sorted; a raised software interrupt reaches
    its handler.
  \<^item> \<open>Metal_Device\<close> (\<^verbatim>\<open>device.c\<close>, \<^verbatim>\<open>shmem.c\<close>, \<^verbatim>\<open>dma.c\<close>, \<^verbatim>\<open>init.c\<close>, \<^verbatim>\<open>system/generic/device.c\<close>): the registries over the
    lists of \<open>Metal_List\<close>, lookups in them, nesting of initialisation and finish.
  \<^item> \<open>Metal_Mutex\<close> (\<^verbatim>\<open>system/linux/mutex.h\<close>, \<^verbatim>\<open>system/generic/mutex.h\<close>, \<^verbatim>\<open>spinlock.h\<close>): the locks as steps of threads. The
    futex mutex and the spin lock are locks (locale \<open>lock_algorithm\<close>), and no wake-up is lost; the spinning mutex lets
    two threads in. \<open>Metal_Cond\<close> (\<^verbatim>\<open>system/linux/condition.c\<close>): condition variables over such a lock; a broadcast is
    not lost. Elsewhere in the model a lock is one bit.
  \<^item> \<open>Linux_Irq\<close> (\<^verbatim>\<open>system/linux/irq.c\<close>): interrupts of a Linux process as descriptors that a thread polls. Handlers, \<open>poll\<close>
    and the acknowledgement of a bus are parameters. A round serves the enabled readable interrupts in order and a stop
    ends the thread; a handler that enables an interrupt deadlocks; interrupts enabled before a restart stay enabled.
  \<^item> \<open>Linux_Shmem\<close> (\<^verbatim>\<open>system/linux/shmem.c\<close>, \<^verbatim>\<open>utilities.c\<close>, \<^verbatim>\<open>init.c\<close>): files, mappings, page sizes and shared memory. The kernel's
    answers are a record of parameters. A segment that is opened translates the offsets of present pages as the page map does, and those of absent pages to a wrong
    address; nothing is leaked; page sizes are sorted; a segment below half a page is not opened and no error is reported.
  \<^item> \<open>Linux_Device\<close> (\<^verbatim>\<open>system/linux/device.c\<close>): the buses of Linux and UIO devices, over the registries of \<open>Metal_Device\<close>, the mappings of
    \<open>Linux_Shmem\<close> and the interrupts of \<open>Linux_Irq\<close>; sysfs is a record of parameters. An open that fails leaves nothing behind but the binding of
    the device to a driver, and closing gives back all that opening took, except that binding and the entry in the table of interrupts.
  \<^item> \<open>Rpmsg_Rpc\<close> (\<^verbatim>\<open>rpmsg_rpc_client.c\<close>, \<^verbatim>\<open>rpmsg_rpc_server.c\<close>): a request runs the service with its id, up to
    255; an answer loses the last four bytes of its parameters.
  \<^item> \<open>Rpmsg_Retarget\<close> (\<^verbatim>\<open>rpmsg_retarget.c\<close>): a call waits until its answer has come and returns it; the
    pointer for the answer outlives the call.
  \<^item> \<open>Openamp_Node\<close> (\<^verbatim>\<open>operation_interface.c\<close>, \<^verbatim>\<open>openamp_app_echo.c\<close>): the registry of nodes, a locale over the
    transport of \<open>Rpmsg_Ept\<close>. Names stay unique and lookups are right in every sequence of calls; a name
    that is announced and withdrawn leaves nothing behind; a second announcement is dropped.
  \<^item> \<open>Openamp_Dev\<close> (\<^verbatim>\<open>operation_interface.c\<close>, \<^verbatim>\<open>openamp_app.c\<close>): creating and deleting the device and the polling
    thread. The kernel's answers are a record of parameters. The layout of the shared memory is
    disjoint; the second processor is started last, and the state it finds is recorded and shown to be the finished one; the I/O region is
    too long.
  \<^item> \<open>Sysfs_Dlist\<close> (\<^verbatim>\<open>sysfsutils/lib/dlist.c\<close>): lists with a marker in a heap of nodes. \<open>Sysfs_Sort\<close>: the loops of the
    merge sort move nodes the way one pass over sorted runs does, so that sorting is the stable sort of the
    library. \<open>Sysfs_List\<close>: the ends are a double-ended queue (locale \<open>deque\<close>), searching, insertion in order,
    filtering, destroying; a list that was emptied must not be popped.

  \<^bold>\<open>Fuel and bounds.\<close> No operation of the model has fuel. \<open>drain\<close> in \<open>fifo_channel\<close> and \<open>load_all\<close> in
  \<open>Elf_Laws\<close> are clients written for a theorem; the number of pending entries, and the number of
  segments plus two, are shown to be enough. The theorems on rings need a power of two of at most
  \<open>2 ^ 15\<close> descriptors, which is what the 16-bit indices allow; the one on segments at most 255 of
  them, which is what the load state can count.

  \<^bold>\<open>Not modelled.\<close> Cache maintenance and memory barriers are no-ops: each operation of a queue is one
  atomic step, and interleavings are those of whole operations. Logging has no effect. Memory that
  is leaked or freed is not accounted for, except where a dangling pointer can be used again
  (virtqueues, the image information of \<open>remoteproc_load_noblock\<close>).
  A notification of the other side is the fact that it was sent; what the other side does is another step, or a parameter. Rings
  and message buffers are separate memories in the rpmsg layer, so that a layout in which they overlap is not seen there;
  \<open>Openamp_Dev\<close> shows that the one of this repository does not. The list of endpoints is the sequence of its members, and the number
  of buffers passed to \<open>virtqueue_add_buffer\<close> is an integer without overflow. The echo callback is that of the master.
  The system and processor ports of libmetal (except the locks and the port to Linux), the example
  applications and the vendored libraries (libhugetlbfs, and sysfsutils except its lists) are left out: they are system
  calls, assembly, programs that use the library, or third-party code.
\<close>

end
